(* ===== verification/Prelude.thy ===== *)
theory Prelude
  imports Main "HOL-Library.Word" "HOL-Library.Char_ord" "HOL-Library.List_Lexorder"
begin

text \<open>
  Shared vocabulary of the development: the types every component names (time, identifiers, byte
  strings), the errors the Go packages return, and a small model of the SQL statements the
  \<^verbatim>\<open>postgres\<close> package issues, with the lemmas the component proofs use.

  A table is the list of its rows in insertion order.  \<^verbatim>\<open>UPDATE ... WHERE\<close> maps over the rows that
  satisfy the condition, \<^verbatim>\<open>DELETE\<close> filters them out, \<^verbatim>\<open>QueryRow\<close> reads the first row that satisfies the
  condition and \<^verbatim>\<open>RowsAffected\<close> counts them.  Instants and durations are integers counting
  nanoseconds, as in Go.
\<close>

named_theorems sql \<open>rules that evaluate the model of SQL statements\<close>
named_theorems ops \<open>definitions of the modelled operations\<close>

section \<open>Names for the model's types\<close>

type_synonym id = string          \<comment> \<open>a uuid in its textual form\<close>
type_synonym bytes = string       \<comment> \<open>a Go string or byte slice\<close>
type_synonym time = int           \<comment> \<open>nanoseconds since the epoch\<close>
type_synonym duration = int       \<comment> \<open>nanoseconds\<close>

abbreviation (input) Nanosecond :: duration where "Nanosecond \<equiv> 1"
definition Millisecond :: duration where "Millisecond = 1000000"
definition Second :: duration where "Second = 1000 * Millisecond"
definition Minute :: duration where "Minute = 60 * Second"
definition Hour :: duration where "Hour = 60 * Minute"
definition Day :: duration where "Day = 24 * Hour"

lemmas duration_defs = Day_def Hour_def Minute_def Second_def Millisecond_def

section \<open>Errors\<close>

text \<open>The error values of the Go packages, a package name and a variable name, and the errors the
  driver and PostgreSQL report: no row, a violated unique index or check constraint, an exception
  raised by a stored function, and a statement the server rejects when it is prepared.\<close>

datatype err =
    GoErr (err_package: string) (err_var: string)
  | ErrNoRows
  | UniqueViolation string
  | CheckViolation string
  | ForeignKeyViolation string
  | RaisedException string
  | StatementRejected string
  | OtherError string

abbreviation Tenant_ErrNotFound :: err where "Tenant_ErrNotFound \<equiv> GoErr ''tenant'' ''ErrNotFound''"
abbreviation Tenant_ErrForbidden :: err where "Tenant_ErrForbidden \<equiv> GoErr ''tenant'' ''ErrForbidden''"
abbreviation Tenant_ErrConflict :: err where "Tenant_ErrConflict \<equiv> GoErr ''tenant'' ''ErrConflict''"
abbreviation Tenant_ErrInvalidInvite :: err where "Tenant_ErrInvalidInvite \<equiv> GoErr ''tenant'' ''ErrInvalidInvite''"
abbreviation Auth_ErrAuthTransaction :: err where "Auth_ErrAuthTransaction \<equiv> GoErr ''auth'' ''ErrAuthTransaction''"
abbreviation Auth_ErrSession :: err where "Auth_ErrSession \<equiv> GoErr ''auth'' ''ErrSession''"
abbreviation Auth_ErrIdentityConflict :: err where "Auth_ErrIdentityConflict \<equiv> GoErr ''auth'' ''ErrIdentityConflict''"
abbreviation Auth_ErrLastIdentity :: err where "Auth_ErrLastIdentity \<equiv> GoErr ''auth'' ''ErrLastIdentity''"
abbreviation Auth_ErrRecentAuth :: err where "Auth_ErrRecentAuth \<equiv> GoErr ''auth'' ''ErrRecentAuth''"
abbreviation Job_ErrLeaseLost :: err where "Job_ErrLeaseLost \<equiv> GoErr ''job'' ''ErrLeaseLost''"
abbreviation Job_ErrUnauthorized :: err where "Job_ErrUnauthorized \<equiv> GoErr ''job'' ''ErrUnauthorized''"
abbreviation Business_ErrInvalid :: err where "Business_ErrInvalid \<equiv> GoErr ''business'' ''ErrInvalid''"
abbreviation Business_ErrNotFound :: err where "Business_ErrNotFound \<equiv> GoErr ''business'' ''ErrNotFound''"
abbreviation Business_ErrForbidden :: err where "Business_ErrForbidden \<equiv> GoErr ''business'' ''ErrForbidden''"
abbreviation Business_ErrDuplicate :: err where "Business_ErrDuplicate \<equiv> GoErr ''business'' ''ErrDuplicate''"
abbreviation Business_ErrExpired :: err where "Business_ErrExpired \<equiv> GoErr ''business'' ''ErrExpired''"
abbreviation Document_ErrUnsupportedType :: err where "Document_ErrUnsupportedType \<equiv> GoErr ''document'' ''ErrUnsupportedType''"
abbreviation Document_ErrTooLarge :: err where "Document_ErrTooLarge \<equiv> GoErr ''document'' ''ErrTooLarge''"
abbreviation Document_ErrScanUnavailable :: err where "Document_ErrScanUnavailable \<equiv> GoErr ''document'' ''ErrScanUnavailable''"
abbreviation Document_ErrMalware :: err where "Document_ErrMalware \<equiv> GoErr ''document'' ''ErrMalware''"
abbreviation Document_ErrQuota :: err where "Document_ErrQuota \<equiv> GoErr ''document'' ''ErrQuota''"
abbreviation Document_ErrTrashed :: err where "Document_ErrTrashed \<equiv> GoErr ''document'' ''ErrTrashed''"
abbreviation Document_ErrInvalidCursor :: err where "Document_ErrInvalidCursor \<equiv> GoErr ''document'' ''ErrInvalidCursor''"
abbreviation Document_ErrStatusConflict :: err where "Document_ErrStatusConflict \<equiv> GoErr ''document'' ''ErrStatusConflict''"
abbreviation Document_ErrSourceConflict :: err where "Document_ErrSourceConflict \<equiv> GoErr ''document'' ''ErrSourceConflict''"
abbreviation Extraction_ErrConflict :: err where "Extraction_ErrConflict \<equiv> GoErr ''extraction'' ''ErrConflict''"
abbreviation Accounting_ErrConflict :: err where "Accounting_ErrConflict \<equiv> GoErr ''accounting'' ''ErrConflict''"
abbreviation Accounting_ErrInvalid :: err where "Accounting_ErrInvalid \<equiv> GoErr ''accounting'' ''ErrInvalid''"
abbreviation Accounting_ErrTooMany :: err where "Accounting_ErrTooMany \<equiv> GoErr ''accounting'' ''ErrTooMany''"
abbreviation Work_ErrNotFound :: err where "Work_ErrNotFound \<equiv> GoErr ''work'' ''ErrNotFound''"
abbreviation Work_ErrForbidden :: err where "Work_ErrForbidden \<equiv> GoErr ''work'' ''ErrForbidden''"
abbreviation Work_ErrConflict :: err where "Work_ErrConflict \<equiv> GoErr ''work'' ''ErrConflict''"
abbreviation Work_ErrPermanentDelivery :: err where "Work_ErrPermanentDelivery \<equiv> GoErr ''work'' ''ErrPermanentDelivery''"
abbreviation Line_ErrInvalidSignature :: err where "Line_ErrInvalidSignature \<equiv> GoErr ''line'' ''ErrInvalidSignature''"
abbreviation Line_ErrMalformed :: err where "Line_ErrMalformed \<equiv> GoErr ''line'' ''ErrMalformed''"
abbreviation Line_ErrContentUnavailable :: err where "Line_ErrContentUnavailable \<equiv> GoErr ''line'' ''ErrContentUnavailable''"
abbreviation Postgres_ErrLINEOrganizationUnmapped :: err where "Postgres_ErrLINEOrganizationUnmapped \<equiv> GoErr ''postgres'' ''ErrLINEOrganizationUnmapped''"
abbreviation Drive_ErrInvalidAttempt :: err where "Drive_ErrInvalidAttempt \<equiv> GoErr ''drive'' ''ErrInvalidAttempt''"
abbreviation Drive_ErrInvalidGrant :: err where "Drive_ErrInvalidGrant \<equiv> GoErr ''drive'' ''ErrInvalidGrant''"
abbreviation Drive_ErrReconnectRequired :: err where "Drive_ErrReconnectRequired \<equiv> GoErr ''drive'' ''ErrReconnectRequired''"
abbreviation Drive_ErrNotConnected :: err where "Drive_ErrNotConnected \<equiv> GoErr ''drive'' ''ErrNotConnected''"
abbreviation Drive_ErrFileChanged :: err where "Drive_ErrFileChanged \<equiv> GoErr ''drive'' ''ErrFileChanged''"
abbreviation Drive_ErrFileProvider :: err where "Drive_ErrFileProvider \<equiv> GoErr ''drive'' ''ErrFileProvider''"

type_synonym 'a result = "err + 'a"

section \<open>Results\<close>

definition ok_value :: "err + 'a \<Rightarrow> 'a option" where
  "ok_value r = (case r of Inl _ \<Rightarrow> None | Inr a \<Rightarrow> Some a)"

lemma ok_value_simps [simp]: "ok_value (Inl e) = None" "ok_value (Inr a) = Some a"
  by (simp_all add: ok_value_def)

text \<open>A transaction either fails, and \<^verbatim>\<open>defer tx.Rollback\<close> leaves the database as it was, or
  commits a value and a new database.\<close>

type_synonym ('a, 's) txn = "'s \<Rightarrow> err + ('a \<times> 's)"

definition after :: "'s \<Rightarrow> err + ('a \<times> 's) \<Rightarrow> 's" where
  "after s r = (case r of Inl _ \<Rightarrow> s | Inr (_, s') \<Rightarrow> s')"

lemma after_simps [simp]: "after s (Inl e) = s" "after s (Inr (a, s')) = s'"
  by (simp_all add: after_def)

lemma after_invariant:
  assumes "P s" "\<And>a s'. r = Inr (a, s') \<Longrightarrow> P s'"
  shows "P (after s r)"
  using assms by (cases r) (auto simp: after_def)

section \<open>SQL statements on lists of rows\<close>

definition sql_update :: "('r \<Rightarrow> bool) \<Rightarrow> ('r \<Rightarrow> 'r) \<Rightarrow> 'r list \<Rightarrow> 'r list" where
  "sql_update P f rows = map (\<lambda>r. if P r then f r else r) rows"

definition sql_delete :: "('r \<Rightarrow> bool) \<Rightarrow> 'r list \<Rightarrow> 'r list" where
  "sql_delete P rows = filter (\<lambda>r. \<not> P r) rows"

definition rows_affected :: "('r \<Rightarrow> bool) \<Rightarrow> 'r list \<Rightarrow> nat" where
  "rows_affected P rows = length (filter P rows)"

definition query_row :: "('r \<Rightarrow> bool) \<Rightarrow> 'r list \<Rightarrow> 'r option" where
  "query_row P rows = List.find P rows"

definition row_exists :: "('r \<Rightarrow> bool) \<Rightarrow> 'r list \<Rightarrow> bool" where
  "row_exists P rows = list_ex P rows"

text \<open>An \<^verbatim>\<open>INSERT\<close> into a table with a unique index: the new row conflicts when a row of the table
  has its key.  \<^verbatim>\<open>keys\<close> returns no key for rows a partial index does not cover.\<close>

definition conflicts :: "('r \<Rightarrow> 'k option) \<Rightarrow> 'r \<Rightarrow> 'r list \<Rightarrow> bool" where
  "conflicts key r rows = (key r \<noteq> None \<and> list_ex (\<lambda>q. key q = key r) rows)"

primrec unique_on :: "('r \<Rightarrow> 'k option) \<Rightarrow> 'r list \<Rightarrow> bool" where
  "unique_on key [] = True"
| "unique_on key (r # rs) =
     ((key r \<noteq> None \<longrightarrow> (\<forall>q \<in> set rs. key q \<noteq> key r)) \<and> unique_on key rs)"

subsection \<open>Evaluation\<close>

lemma sql_update_Nil [simp]: "sql_update P f [] = []"
  by (simp add: sql_update_def)
lemma sql_update_Cons [simp]:
  "sql_update P f (r # rs) = (if P r then f r else r) # sql_update P f rs"
  by (simp add: sql_update_def)
lemma sql_update_append [simp]:
  "sql_update P f (xs @ ys) = sql_update P f xs @ sql_update P f ys"
  by (simp add: sql_update_def)
lemma sql_delete_Nil [simp]: "sql_delete P [] = []"
  by (simp add: sql_delete_def)
lemma sql_delete_Cons [simp]:
  "sql_delete P (r # rs) = (if P r then sql_delete P rs else r # sql_delete P rs)"
  by (simp add: sql_delete_def)
lemma rows_affected_Nil [simp]: "rows_affected P [] = 0"
  by (simp add: rows_affected_def)
lemma rows_affected_Cons [simp]:
  "rows_affected P (r # rs) = (if P r then 1 else 0) + rows_affected P rs"
  by (simp add: rows_affected_def)
lemma rows_affected_append [simp]:
  "rows_affected P (xs @ ys) = rows_affected P xs + rows_affected P ys"
  by (simp add: rows_affected_def)
lemma query_row_Nil [simp]: "query_row P [] = None"
  by (simp add: query_row_def)
lemma query_row_Cons [simp]: "query_row P (r # rs) = (if P r then Some r else query_row P rs)"
  by (simp add: query_row_def)
lemma row_exists_Nil [simp]: "\<not> row_exists P []"
  by (simp add: row_exists_def)
lemma row_exists_Cons [simp]: "row_exists P (r # rs) = (P r \<or> row_exists P rs)"
  by (simp add: row_exists_def)
lemma conflicts_Nil [simp]: "\<not> conflicts key r []"
  by (simp add: conflicts_def)
lemma conflicts_Cons [simp]:
  "conflicts key r (q # qs) = ((key r \<noteq> None \<and> key q = key r) \<or> conflicts key r qs)"
  by (auto simp: conflicts_def)

subsection \<open>Membership\<close>

lemma set_sql_update [sql]: "set (sql_update P f rows) = (\<lambda>r. if P r then f r else r) ` set rows"
  by (simp add: sql_update_def)
lemma set_sql_delete [sql]: "set (sql_delete P rows) = {r \<in> set rows. \<not> P r}"
  by (auto simp: sql_delete_def)
lemma row_exists_iff [sql]: "row_exists P rows \<longleftrightarrow> (\<exists>r \<in> set rows. P r)"
  by (simp add: row_exists_def list_ex_iff)
lemma length_sql_update [simp]: "length (sql_update P f rows) = length rows"
  by (simp add: sql_update_def)

lemma map_sql_update:
  "(\<And>r. P r \<Longrightarrow> k (f r) = k r) \<Longrightarrow> map k (sql_update P f rows) = map k rows"
  by (induction rows) simp_all

lemma image_sql_update:
  "(\<And>r. P r \<Longrightarrow> k (f r) = k r) \<Longrightarrow> k ` set (sql_update P f rows) = k ` set rows"
  by (metis list.set_map map_sql_update)

lemma sql_updateE:
  assumes "r \<in> set (sql_update P f rows)"
  obtains (updated) q where "q \<in> set rows" "P q" "r = f q" | (kept) "r \<in> set rows" "\<not> P r"
  using assms by (auto simp: set_sql_update split: if_splits)

lemma query_row_SomeD:
  assumes "query_row P rows = Some r" shows "r \<in> set rows \<and> P r"
  using assms by (auto simp: query_row_def find_Some_iff in_set_conv_nth)

lemma query_row_None_iff [sql]: "query_row P rows = None \<longleftrightarrow> (\<forall>r \<in> set rows. \<not> P r)"
  by (auto simp: query_row_def find_None_iff)

lemma query_row_update_None:
  assumes "\<And>r. P (f r) \<Longrightarrow> Q r \<Longrightarrow> P r" "query_row P rows = None"
  shows "query_row P (sql_update Q f rows) = None"
  using assms by (induction rows) (auto split: if_splits)

lemma query_row_append [simp]:
  "query_row P (xs @ ys) = (case query_row P xs of None \<Rightarrow> query_row P ys | Some r \<Rightarrow> Some r)"
  by (induction xs) auto

lemma query_row_sql_update:
  assumes "\<And>r. Q r \<Longrightarrow> P (f r) = P r"
  shows "query_row P (sql_update Q f rows) = map_option (\<lambda>r. if Q r then f r else r) (query_row P rows)"
  using assms by (induction rows) auto

lemma query_row_sql_delete:
  "query_row P (sql_delete Q rows) = query_row (\<lambda>r. P r \<and> \<not> Q r) rows"
  by (induction rows) auto

lemma query_row_cong:
  "(\<And>r. r \<in> set rows \<Longrightarrow> P r = Q r) \<Longrightarrow> query_row P rows = query_row Q rows"
  by (induction rows) auto

lemma query_row_False [simp]: "query_row (\<lambda>r. False) rows = None"
  by (induction rows) auto

lemma rows_affected_zero_iff [sql]: "rows_affected P rows = 0 \<longleftrightarrow> (\<forall>r \<in> set rows. \<not> P r)"
  by (auto simp: rows_affected_def filter_empty_conv)

lemma rows_affected_cong:
  "(\<And>r. r \<in> set rows \<Longrightarrow> P r = Q r) \<Longrightarrow> rows_affected P rows = rows_affected Q rows"
  by (induction rows) auto

lemma rows_affected_update_other:
  assumes "\<And>r. r \<in> set rows \<Longrightarrow> P r \<Longrightarrow> Q (f r) = Q r"
  shows "rows_affected Q (sql_update P f rows) = rows_affected Q rows"
  using assms by (induction rows) auto

lemma rows_affected_delete_other:
  assumes "\<And>r. r \<in> set rows \<Longrightarrow> P r \<Longrightarrow> \<not> Q r"
  shows "rows_affected Q (sql_delete P rows) = rows_affected Q rows"
  using assms by (induction rows) auto

lemma rows_affected_update_into:
  assumes "\<And>r. r \<in> set rows \<Longrightarrow> P r \<Longrightarrow> Q (f r)" "\<And>r. r \<in> set rows \<Longrightarrow> \<not> P r \<Longrightarrow> \<not> Q r"
  shows "rows_affected Q (sql_update P f rows) = rows_affected P rows"
  using assms by (induction rows) auto

lemma rows_affected_mono:
  "(\<And>r. r \<in> set rows \<Longrightarrow> P r \<Longrightarrow> Q r) \<Longrightarrow> rows_affected P rows \<le> rows_affected Q rows"
  by (induction rows) auto

lemma rows_affected_update_le:
  assumes "\<And>r. r \<in> set rows \<Longrightarrow> P r \<Longrightarrow> Q (f r) \<Longrightarrow> Q r"
  shows "rows_affected Q (sql_update P f rows) \<le> rows_affected Q rows"
  using assms by (induction rows) auto

lemma rows_affected_le_oneD:
  assumes "rows_affected P rows \<le> 1" "a \<in> set rows" "b \<in> set rows" "P a" "P b"
  shows "a = b"
  using assms
proof (induction rows)
  case (Cons r rs)
  show ?case
  proof (cases "P r")
    case True
    then have "\<forall>x \<in> set rs. \<not> P x" using Cons.prems(1) rows_affected_zero_iff [of P rs] by simp
    then show ?thesis using Cons.prems by auto
  next
    case False
    then show ?thesis using Cons by auto
  qed
qed simp

lemma rows_affected_posI: "r \<in> set rows \<Longrightarrow> P r \<Longrightarrow> 0 < rows_affected P rows"
  by (metis gr0I rows_affected_zero_iff)

subsection \<open>Unique indexes\<close>

lemma unique_on_append1:
  assumes "unique_on key rows" "\<not> conflicts key r rows"
  shows "unique_on key (rows @ [r])"
  using assms by (induction rows) auto

lemma unique_on_delete:
  assumes "unique_on key rows" shows "unique_on key (sql_delete P rows)"
  using assms by (induction rows) (auto simp: set_sql_delete)

lemma unique_on_update_shrink:
  assumes "unique_on key rows"
    and shrink: "\<And>r. r \<in> set rows \<Longrightarrow> P r \<Longrightarrow> key (f r) = key r \<or> key (f r) = None"
  shows "unique_on key (sql_update P f rows)"
  using assms
proof (induction rows)
  case (Cons r rs)
  let ?g = "\<lambda>r. if P r then f r else r"
  have g: "key (?g q) = key q \<or> key (?g q) = None" if "q \<in> set (r # rs)" for q
    using Cons.prems(2) [OF that] by (cases "P q") simp_all
  have "key (?g q) \<noteq> key (?g r)" if some: "key (?g r) \<noteq> None" and q: "q \<in> set rs" for q
  proof -
    have r: "key (?g r) = key r" using g [of r] some by (metis list.set_intros(1))
    moreover have "key q \<noteq> key r" using Cons.prems(1) q some r by simp
    ultimately show ?thesis using g [of q] q some by (metis list.set_intros(2))
  qed
  moreover have "unique_on key (sql_update P f rs)" using Cons by simp
  ultimately show ?case unfolding sql_update_Cons unique_on.simps set_sql_update by blast
qed simp

lemma unique_on_map_shrink:
  assumes "unique_on key rows"
    and "\<And>r. r \<in> set rows \<Longrightarrow> key (f r) = key r \<or> key (f r) = None"
  shows "unique_on key (map f rows)"
  using unique_on_update_shrink [of key rows "\<lambda>_. True" f] assms by (simp add: sql_update_def)

lemma unique_on_update_one:
  assumes "unique_on key rows" "unique_on pk rows"
    and "\<And>r. r \<in> set rows \<Longrightarrow> P r \<Longrightarrow> pk r = Some k"
    and "\<And>r q. r \<in> set rows \<Longrightarrow> P r \<Longrightarrow> q \<in> set rows \<Longrightarrow> \<not> P q \<Longrightarrow> key (f r) \<noteq> None \<Longrightarrow> key q \<noteq> key (f r)"
  shows "unique_on key (sql_update P f rows)"
  using assms
proof (induction rows)
  case (Cons r rs)
  have IH: "unique_on key (sql_update P f rs)" using Cons by simp
  show ?case
  proof (cases "P r")
    case True
    then have none: "\<not> P q" if "q \<in> set rs" for q using Cons.prems(2,3) that by force
    then have "sql_update P f rs = rs" by (auto simp: sql_update_def intro: map_idI)
    then show ?thesis using IH True none Cons.prems(4) [of r] by force
  next
    case False
    have "key q \<noteq> key r" if some: "key r \<noteq> None" and q: "q \<in> set (sql_update P f rs)" for q
      using q
    proof (cases rule: sql_updateE)
      case (updated p)
      then show ?thesis using Cons.prems(4) [of p r] False some by auto
    next
      case kept
      then show ?thesis using Cons.prems(1) some by simp
    qed
    then show ?thesis using IH False by simp
  qed
qed simp

lemma unique_onD:
  assumes "unique_on key rows" "a \<in> set rows" "b \<in> set rows" "key a = Some k" "key b = Some k"
  shows "a = b"
  using assms by (induction rows) auto

lemma unique_on_rows_le_one:
  assumes "unique_on key rows" "\<And>r. r \<in> set rows \<Longrightarrow> P r \<Longrightarrow> key r = Some k"
  shows "rows_affected P rows \<le> 1"
  using assms
proof (induction rows)
  case (Cons r rs)
  have IH: "rows_affected P rs \<le> 1" using Cons by simp
  show ?case
  proof (cases "P r")
    case True
    then have "key r = Some k" using Cons.prems by simp
    then have "\<forall>q \<in> set rs. \<not> P q" using Cons.prems by auto
    then show ?thesis using True rows_affected_zero_iff [of P rs] by simp
  next
    case False then show ?thesis using IH by simp
  qed
qed simp

lemma unique_on_query_row:
  assumes "unique_on key rows" "r \<in> set rows" "P r"
    and "\<And>q. q \<in> set rows \<Longrightarrow> P q \<Longrightarrow> key q = Some k"
  shows "query_row P rows = Some r"
proof -
  obtain q where q: "query_row P rows = Some q"
    using assms(2,3) query_row_None_iff [of P rows] by (cases "query_row P rows") auto
  then have "q \<in> set rows" "P q" by (auto dest: query_row_SomeD)
  then have "q = r" using assms unique_onD [OF assms(1)] by blast
  then show ?thesis using q by simp
qed

section \<open>Rejecting inserts\<close>

lemma not_conflictsD: "\<not> conflicts key r rows \<Longrightarrow> q \<in> set rows \<Longrightarrow> key r = Some k \<Longrightarrow> key q \<noteq> Some k"
  by (auto simp: conflicts_def list_ex_iff)

lemma unique_on_distinct: "unique_on (\<lambda>r. Some (k r)) rows \<longleftrightarrow> distinct (map k rows)"
proof (induction rows)
  case (Cons r rs)
  have "(\<forall>q \<in> set rs. k q \<noteq> k r) = (k r \<notin> k ` set rs)" by (metis image_iff)
  then show ?case using Cons by simp
qed simp

lemma unique_on_query_row_iff:
  assumes "unique_on (\<lambda>r. Some (k r)) rows"
  shows "query_row (\<lambda>r. k r = x) rows = Some r \<longleftrightarrow> r \<in> set rows \<and> k r = x"
  using assms unique_on_query_row [of "\<lambda>r. Some (k r)" rows r "\<lambda>r. k r = x" x]
  by (auto dest: query_row_SomeD)

section \<open>Joins\<close>

text \<open>\<^verbatim>\<open>LEFT JOIN\<close>: each row with every row that matches it, or alone when none does.\<close>

definition left_join :: "('a \<Rightarrow> 'b \<Rightarrow> bool) \<Rightarrow> 'a list \<Rightarrow> 'b list \<Rightarrow> ('a \<times> 'b option) list" where
  "left_join on xs ys =
     concat (map (\<lambda>x. case filter (on x) ys of [] \<Rightarrow> [(x, None)] | ms \<Rightarrow> map (\<lambda>y. (x, Some y)) ms) xs)"

lemma left_join_Nil [simp]: "left_join on [] ys = []"
  by (simp add: left_join_def)

lemma left_join_Cons [simp]:
  "left_join on (x # xs) ys =
     (case filter (on x) ys of [] \<Rightarrow> [(x, None)] | ms \<Rightarrow> map (\<lambda>y. (x, Some y)) ms) @ left_join on xs ys"
  by (simp add: left_join_def)

end
