(* ===== verification/Schema.thy ===== *)
theory Schema
  imports Prelude
begin

text \<open>
  The database the \<^verbatim>\<open>postgres\<close> package works on: one record per table row with the columns the Go
  code reads or writes, and one record, \<^verbatim>\<open>store\<close>, of all tables.  Column names carry the table's
  prefix; a nullable column is an option; \<^verbatim>\<open>jsonb\<close> values are trees.  The columns follow the
  statements of src/api/internal/postgres and the migrations 000001 to 000012 of src/api/migrations.
\<close>

section \<open>Values\<close>

datatype role = Owner | Admin | Member | OtherRole string

fun role_name :: "role \<Rightarrow> string" where
  "role_name Owner = ''Owner''"
| "role_name Admin = ''Admin''"
| "role_name Member = ''Member''"
| "role_name (OtherRole r) = r"

datatype json =
    JNull | JBool bool | JNumber int | JString string | JArray "json list"
  | JObject "(string \<times> json) list"

fun json_get :: "json \<Rightarrow> string \<Rightarrow> json option" where
  "json_get (JObject fields) k = map_of fields k"
| "json_get _ k = None"

section \<open>Rows\<close>

record user_row =
  u_id :: id
  u_display_name :: "string option"
  u_picture_url :: "string option"
  u_created_at :: time
  u_updated_at :: time

record identity_row =
  ai_id :: id
  ai_user :: id
  ai_provider :: string
  ai_issuer :: string
  ai_subject :: string
  ai_email :: "string option"
  ai_email_verified :: bool
  ai_display_name :: "string option"
  ai_picture_url :: "string option"
  ai_linked_at :: time
  ai_disabled_at :: "time option"
  ai_cooldown_until :: "time option"

record session_record =
  s_id :: id
  s_user :: id
  s_token_hash :: bytes
  s_csrf_hash :: bytes
  s_created_at :: time
  s_authenticated_at :: time
  s_last_seen_at :: time
  s_idle_expires_at :: time
  s_absolute_expires_at :: time
  s_provider :: string

record session_row = session_record +
  s_revoked_at :: "time option"

record auth_transaction =
  at_state_hash :: bytes
  at_browser_hash :: bytes
  at_provider :: string
  at_issuer :: string
  at_purpose :: string
  at_nonce :: string
  at_code_verifier :: string
  at_return_to :: string
  at_user :: string
  at_session :: string
  at_created_at :: time
  at_expires_at :: time

record auth_transaction_row = auth_transaction +
  at_consumed_at :: "time option"

record audit_row =
  au_org :: "id option"
  au_actor :: "id option"
  au_type :: string
  au_target_type :: string
  au_target_id :: string
  au_request :: "string option"
  au_outcome :: string
  au_reason :: "string option"
  au_metadata :: json
  au_at :: time

record business_profile =
  bp_business_type :: string
  bp_vat_status :: string
  bp_branch_type :: string
  bp_name_th :: string
  bp_name_en :: string
  bp_tax_id :: string
  bp_address_1 :: string
  bp_address_2 :: string
  bp_district :: string
  bp_province :: string
  bp_postal_code :: string
  bp_phone :: string
  bp_logo :: "bytes option"
  bp_logo_type :: string

record organization_row =
  o_id :: id
  o_name :: string
  o_timezone :: string
  o_profile :: business_profile
  o_created_at :: time
  o_updated_at :: time

record membership_row =
  m_org :: id
  m_user :: id
  m_role :: role
  m_created_at :: time
  m_updated_at :: time

record invitation_row =
  iv_id :: id
  iv_org :: id
  iv_inviter :: id
  iv_role :: role
  iv_token_hash :: bytes
  iv_created_at :: time
  iv_expires_at :: time
  iv_revoked_at :: "time option"
  iv_accepted_by :: "id option"
  iv_accepted_at :: "time option"

record handoff_row =
  ih_token_hash :: bytes
  ih_invitation :: id
  ih_return_to :: string
  ih_created_at :: time
  ih_expires_at :: time
  ih_consumed_at :: "time option"

record connection_row =
  lc_id :: id
  lc_org :: id
  lc_channel :: string
  lc_group :: string
  lc_status :: string
  lc_connected_by :: id
  lc_connected_at :: time
  lc_disconnected_by :: "id option"
  lc_disconnected_at :: "time option"

record link_code_row =
  ll_id :: id
  ll_hash :: bytes
  ll_org :: id
  ll_user :: id
  ll_subject :: string
  ll_channel :: string
  ll_created_at :: time
  ll_expires_at :: time
  ll_revoked_at :: "time option"
  ll_consumed_at :: "time option"

record worker_heartbeat_row =
  jh_worker :: string
  jh_at :: time
  jh_environment :: string
  jh_kinds :: "string list"

record inbound_row =
  ie_id :: nat
  ie_provider :: string
  ie_channel :: string
  ie_event_id :: string
  ie_event_type :: string
  ie_payload :: "bytes option"
  ie_status :: string
  ie_attempts :: nat
  ie_available_at :: time
  ie_lease :: "time option"
  ie_occurred_at :: time
  ie_received_at :: time
  ie_processed_at :: "time option"
  ie_failure_code :: "string option"
  ie_failure_message :: "string option"
  ie_source_type :: "string option"
  ie_source_group :: "string option"
  ie_source_user :: "string option"
  ie_code_hash :: "bytes option"

record heartbeat_row =
  wh_name :: string
  wh_at :: time

record plan_period_row =
  pp_org :: id
  pp_plan :: string
  pp_source :: string
  pp_starts_at :: time
  pp_ends_at :: time
  pp_created_at :: time

record task_row =
  t_id :: id
  t_org :: id
  t_title :: string
  t_description :: string
  t_creator :: id
  t_assignee :: "id option"
  t_status :: string
  t_priority :: string
  t_due_on :: "string option"
  t_created_at :: time
  t_updated_at :: time
  t_status_changed_at :: time
  t_completed_at :: "time option"
  t_completed_by :: "id option"

record watcher_row =
  w_org :: id
  w_task :: id
  w_user :: id
  w_created_at :: time

record domain_event_row =
  de_id :: nat
  de_org :: id
  de_type :: string
  de_task :: id
  de_actor :: id
  de_payload :: json
  de_occurred_at :: time
  de_state :: string
  de_available_at :: time
  de_lease :: "time option"
  de_attempts :: nat
  de_processed_at :: "time option"
  de_failure_code :: "string option"

record reminder_row =
  re_id :: id
  re_org :: id
  re_task :: id
  re_recipient :: id
  re_due_on :: string
  re_milestone :: string
  re_scheduled_for :: time
  re_created_at :: time

record preference_row =
  np_org :: id
  np_user :: id
  np_category :: string
  np_web :: string
  np_line :: string
  np_updated_at :: time

record notification_row =
  n_id :: id
  n_org :: id
  n_recipient :: id
  n_category :: string
  n_key :: string
  n_title :: string
  n_link :: string
  n_mode :: string
  n_created_at :: time
  n_read_at :: "time option"
  n_digested_at :: "time option"

record delivery_row =
  nd_id :: id
  nd_org :: id
  nd_notification :: id
  nd_channel :: string
  nd_key :: string
  nd_status :: string
  nd_attempts :: nat
  nd_available_at :: time
  nd_lease :: "time option"
  nd_delivered_at :: "time option"
  nd_failure_code :: "string option"

record contact_row =
  bc_id :: id
  bc_org :: id
  bc_display_name :: string
  bc_normalized_name :: string
  bc_code :: string
  bc_country :: string
  bc_tax_id :: string
  bc_branch :: string
  bc_customer :: bool
  bc_vendor :: bool
  bc_preview :: "id option"
  bc_archived_at :: "time option"
  bc_created_at :: time
  bc_updated_at :: time

record document_row =
  d_id :: id
  d_org :: id
  d_sha256 :: bytes
  d_storage_key :: "string option"
  d_filename :: string
  d_mime :: string
  d_size :: int
  d_status :: string
  d_submitter :: "id option"
  d_assignee :: "id option"
  d_group_restricted :: bool
  d_accepted_at :: time
  d_updated_at :: time
  d_trashed_at :: "time option"
  d_purged_at :: "time option"
  d_period_start :: time

record source_row =
  ds_id :: id
  ds_org :: id
  ds_document :: id
  ds_channel :: string
  ds_origin_key :: string
  ds_submitter :: "id option"
  ds_drive_connection :: "id option"
  ds_drive_file :: "string option"
  ds_drive_revision :: "string option"
  ds_provider_filename :: "string option"
  ds_provider_mime :: "string option"
  ds_provider_size :: "int option"
  ds_selected_at :: "time option"
  ds_group_source :: bool
  ds_created_at :: time

record usage_period_row =
  up_org :: id
  up_starts_at :: time
  up_ends_at :: time
  up_timezone :: string

record charge_row =
  ch_org :: id
  ch_document :: id
  ch_period_start :: time
  ch_accepted_at :: time

record intake_row =
  ia_id :: id
  ia_org :: id
  ia_actor :: "id option"
  ia_channel :: string
  ia_origin_key :: string
  ia_status :: string
  ia_rejection :: "string option"
  ia_document :: "id option"
  ia_created_at :: time
  ia_updated_at :: time
  ia_expires_at :: time

record job_row =
  j_id :: id
  j_org :: id
  j_requester :: "id option"
  j_kind :: string
  j_status :: string
  j_payload :: json
  j_result :: "json option"
  j_key :: string
  j_request_id :: "string option"
  j_attempts :: nat
  j_max_attempts :: nat
  j_current_attempt :: "id option"
  j_lease_hash :: "bytes option"
  j_lease :: "time option"
  j_worker :: "string option"
  j_available_at :: time
  j_created_at :: time
  j_started_at :: "time option"
  j_completed_at :: "time option"
  j_failed_at :: "time option"
  j_cancelled_at :: "time option"
  j_failure_code :: "string option"
  j_stale_reclaims :: nat
  j_legacy :: "id option"

record artifact_row =
  ja_job :: id
  ja_org :: id
  ja_object_key :: string
  ja_format :: string
  ja_rows :: int
  ja_bytes :: int
  ja_sha256 :: bytes
  ja_created_at :: time
  ja_expires_at :: time
  ja_deleted_at :: "time option"

record ocr_settings =
  oc_enabled :: bool
  oc_model :: string
  oc_preprocessing :: string

record ocr_run_row =
  or_job :: id
  or_org :: id
  or_document :: id
  or_fingerprint :: string
  or_retry_of :: "id option"
  or_object_key :: "string option"
  or_sha256 :: "string option"
  or_bytes :: "int option"
  or_pages :: "int option"
  or_published_at :: "time option"
  or_superseded_at :: "time option"
  or_deleted_at :: "time option"

record review_row =
  er_id :: id
  er_org :: id
  er_document :: id
  er_ocr_job :: id
  er_revision :: int
  er_object_key :: string
  er_confirmed_by :: id
  er_confirmed_at :: time
  er_superseded_at :: "time option"
  er_draft_revision :: int

record category_row =
  ec_id :: id
  ec_org :: id
  ec_name :: string
  ec_archived_at :: "time option"
  ec_created_at :: time
  ec_updated_at :: time

record rule_set_row =
  rs_org :: id
  rs_version :: int

record rule_row =
  ru_id :: id
  ru_org :: id
  ru_vendor :: id
  ru_document_type :: string
  ru_category :: id
  ru_version :: int
  ru_approved_by :: id
  ru_approved_at :: time
  ru_retired_at :: "time option"

record suggestion_row =
  sg_id :: id
  sg_org :: id
  sg_document :: id
  sg_review :: id
  sg_review_revision :: int
  sg_revision :: int
  sg_rule_set_version :: int
  sg_category :: id
  sg_category_name :: string
  sg_vendor :: "id option"
  sg_contact_code :: string
  sg_unmatched_reason :: string
  sg_basis :: string
  sg_rule :: "id option"
  sg_rule_version :: "int option"
  sg_approved_by :: id
  sg_approved_at :: time
  sg_superseded_at :: "time option"

record draft_row =
  rd_org :: id
  rd_document :: id
  rd_ocr_job :: id
  rd_revision :: int
  rd_values :: "(string \<times> string) list"
  rd_decisions :: "(string \<times> string) list"
  rd_updated_by :: id
  rd_updated_at :: time

record draft_history_row =
  rh_org :: id
  rh_document :: id
  rh_revision :: int
  rh_ocr_job :: id
  rh_values :: "(string \<times> string) list"
  rh_decisions :: "(string \<times> string) list"
  rh_updated_by :: id
  rh_updated_at :: time

record review_task_row =
  rt_org :: id
  rt_document :: id
  rt_task :: id

record return_row =
  rr_id :: id
  rr_org :: id
  rr_document :: id
  rr_ocr_job :: id
  rr_action :: string
  rr_reason :: string
  rr_note :: string
  rr_returned_by :: id
  rr_returned_at :: time

record drive_attempt_row =
  da_state_hash :: bytes
  da_browser_hash :: bytes
  da_org :: id
  da_org_name :: string
  da_user :: id
  da_session :: id
  da_code_verifier :: string
  da_created_at :: time
  da_expires_at :: time
  da_consumed_at :: "time option"

record drive_connection_row =
  dc_org :: id
  dc_status :: string
  dc_subject :: "string option"
  dc_email :: "string option"
  dc_folder :: "string option"
  dc_authorizer :: "id option"
  dc_token :: "bytes option"
  dc_nonce :: "bytes option"
  dc_generation :: int
  dc_connected_at :: "time option"
  dc_updated_at :: time
  dc_disconnected_at :: "time option"

record reconnect_task_row =
  dr_org :: id
  dr_generation :: int
  dr_task :: id
  dr_created_at :: time
  dr_resolved_at :: "time option"

record snapshot_row =
  sn_job :: id
  sn_org :: id
  sn_requester :: id
  sn_product :: string
  sn_status :: string
  sn_format :: string
  sn_date_from :: "string option"
  sn_date_to :: "string option"
  sn_row_count :: int
  sn_created_at :: time

record snapshot_entry_row =
  sr_job :: id
  sr_org :: id
  sr_ordinal :: int
  sr_document :: id
  sr_document_updated_at :: time
  sr_review :: "id option"
  sr_approval :: "id option"

record preview_row =
  bi_id :: id
  bi_org :: id
  bi_requester :: id
  bi_rows :: json
  bi_ready :: int
  bi_duplicate :: int
  bi_warning :: int
  bi_error :: int
  bi_status :: string
  bi_created_at :: time
  bi_expires_at :: time
  bi_committed_at :: "time option"

record export_job_row =
  ej_id :: id
  ej_org :: id
  ej_requester :: id
  ej_mode :: string
  ej_status :: string
  ej_requested_at :: time
  ej_started_at :: "time option"
  ej_completed_at :: "time option"
  ej_expired_at :: "time option"
  ej_failed_at :: "time option"
  ej_failure_code :: "string option"
  ej_row_count :: int
  ej_bytes :: "int option"
  ej_object_key :: "string option"
  ej_object_expires_at :: "time option"

section \<open>The database\<close>

record store =
  users :: "user_row list"
  auth_identities :: "identity_row list"
  sessions :: "session_row list"
  auth_transactions :: "auth_transaction_row list"
  audit_events :: "audit_row list"
  organizations :: "organization_row list"
  memberships :: "membership_row list"
  invitations :: "invitation_row list"
  invite_handoffs :: "handoff_row list"
  line_group_connections :: "connection_row list"
  line_link_codes :: "link_code_row list"
  durable_job_worker_heartbeats :: "worker_heartbeat_row list"
  inbound_events :: "inbound_row list"
  worker_heartbeats :: "heartbeat_row list"
  organization_plan_periods :: "plan_period_row list"
  tasks :: "task_row list"
  task_watchers :: "watcher_row list"
  domain_events :: "domain_event_row list"
  reminders :: "reminder_row list"
  notification_preferences :: "preference_row list"
  notifications :: "notification_row list"
  notification_deliveries :: "delivery_row list"
  business_contacts :: "contact_row list"
  documents :: "document_row list"
  document_sources :: "source_row list"
  document_usage_periods :: "usage_period_row list"
  document_usage_charges :: "charge_row list"
  document_intake_attempts :: "intake_row list"
  durable_jobs :: "job_row list"
  durable_job_artifacts :: "artifact_row list"
  document_ocr_runs :: "ocr_run_row list"
  document_extraction_reviews :: "review_row list"
  expense_categories :: "category_row list"
  accounting_rule_sets :: "rule_set_row list"
  accounting_mapping_rules :: "rule_row list"
  accounting_suggestions :: "suggestion_row list"
  document_review_drafts :: "draft_row list"
  document_review_draft_history :: "draft_history_row list"
  document_review_tasks :: "review_task_row list"
  document_review_returns :: "return_row list"
  drive_oauth_attempts :: "drive_attempt_row list"
  drive_connections :: "drive_connection_row list"
  drive_reconnect_tasks :: "reconnect_task_row list"
  document_export_snapshots :: "snapshot_row list"
  document_export_snapshot_rows :: "snapshot_entry_row list"
  business_import_previews :: "preview_row list"
  export_jobs :: "export_job_row list"
  ocr_config :: ocr_settings
  review_enabled :: bool   \<comment> \<open>\<open>Store.reviewEnabled\<close>\<close>

text \<open>The empty database, from which concrete states are built.\<close>

definition empty_store :: store where
  "empty_store = \<lparr>
     users = [],
     auth_identities = [],
     sessions = [],
     auth_transactions = [],
     audit_events = [],
     organizations = [],
     memberships = [],
     invitations = [],
     invite_handoffs = [],
     line_group_connections = [],
     line_link_codes = [],
     durable_job_worker_heartbeats = [],
     inbound_events = [],
     worker_heartbeats = [],
     organization_plan_periods = [],
     tasks = [],
     task_watchers = [],
     domain_events = [],
     reminders = [],
     notification_preferences = [],
     notifications = [],
     notification_deliveries = [],
     business_contacts = [],
     documents = [],
     document_sources = [],
     document_usage_periods = [],
     document_usage_charges = [],
     document_intake_attempts = [],
     durable_jobs = [],
     durable_job_artifacts = [],
     document_ocr_runs = [],
     document_extraction_reviews = [],
     expense_categories = [],
     accounting_rule_sets = [],
     accounting_mapping_rules = [],
     accounting_suggestions = [],
     document_review_drafts = [],
     document_review_draft_history = [],
     document_review_tasks = [],
     document_review_returns = [],
     drive_oauth_attempts = [],
     drive_connections = [],
     drive_reconnect_tasks = [],
     document_export_snapshots = [],
     document_export_snapshot_rows = [],
     business_import_previews = [],
     export_jobs = [],
     ocr_config = \<lparr>oc_enabled = False, oc_model = [], oc_preprocessing = []\<rparr>,
     review_enabled = False\<rparr>"

lemma empty_store_tables [simp]:
  "users empty_store = []"
  "auth_identities empty_store = []"
  "sessions empty_store = []"
  "auth_transactions empty_store = []"
  "audit_events empty_store = []"
  "organizations empty_store = []"
  "memberships empty_store = []"
  "invitations empty_store = []"
  "invite_handoffs empty_store = []"
  "line_group_connections empty_store = []"
  "line_link_codes empty_store = []"
  "durable_job_worker_heartbeats empty_store = []"
  "inbound_events empty_store = []"
  "worker_heartbeats empty_store = []"
  "organization_plan_periods empty_store = []"
  "tasks empty_store = []"
  "task_watchers empty_store = []"
  "domain_events empty_store = []"
  "reminders empty_store = []"
  "notification_preferences empty_store = []"
  "notifications empty_store = []"
  "notification_deliveries empty_store = []"
  "business_contacts empty_store = []"
  "documents empty_store = []"
  "document_sources empty_store = []"
  "document_usage_periods empty_store = []"
  "document_usage_charges empty_store = []"
  "document_intake_attempts empty_store = []"
  "durable_jobs empty_store = []"
  "durable_job_artifacts empty_store = []"
  "document_ocr_runs empty_store = []"
  "document_extraction_reviews empty_store = []"
  "expense_categories empty_store = []"
  "accounting_rule_sets empty_store = []"
  "accounting_mapping_rules empty_store = []"
  "accounting_suggestions empty_store = []"
  "document_review_drafts empty_store = []"
  "document_review_draft_history empty_store = []"
  "document_review_tasks empty_store = []"
  "document_review_returns empty_store = []"
  "drive_oauth_attempts empty_store = []"
  "drive_connections empty_store = []"
  "drive_reconnect_tasks empty_store = []"
  "document_export_snapshots empty_store = []"
  "document_export_snapshot_rows empty_store = []"
  "business_import_previews empty_store = []"
  "export_jobs empty_store = []"
  "review_enabled empty_store = False"
  by (simp_all add: empty_store_def)

end
