(* ===== verification/GoText.thy ===== *)
theory GoText
  imports Prelude
begin

text \<open>
  Go strings.  A Go string is its bytes, a list of characters here.  \<^verbatim>\<open>runes\<close> decodes UTF-8 the way
  \<^verbatim>\<open>range\<close> over a string does, each rune with the bytes it stands for and an invalid byte as U+FFFD,
  and the functions of \<^verbatim>\<open>strings\<close>, \<^verbatim>\<open>unicode\<close> and \<^verbatim>\<open>utf8\<close> that the program calls are defined on it.
\<close>

section \<open>Bytes\<close>

definition byte :: "char \<Rightarrow> nat" where "byte c = of_char c"

definition byte_char :: "nat \<Rightarrow> char" where "byte_char n = char_of n"

lemma byte_less [simp]: "byte c < 256"
  by (simp add: byte_def)

lemma byte_char_byte [simp]: "byte_char (byte c) = c"
  by (simp add: byte_def byte_char_def)

lemma byte_byte_char [simp]: "n < 256 \<Longrightarrow> byte (byte_char n) = n"
  by (simp add: byte_def byte_char_def)

lemma byte_inject [simp]: "byte a = byte b \<longleftrightarrow> a = b"
  by (metis byte_char_byte)

definition is_digit :: "char \<Rightarrow> bool" where
  "is_digit c = (48 \<le> byte c \<and> byte c \<le> 57)"

definition ascii_lower_char :: "char \<Rightarrow> char" where
  "ascii_lower_char c = (if 65 \<le> byte c \<and> byte c \<le> 90 then byte_char (byte c + 32) else c)"

definition ascii_upper_char :: "char \<Rightarrow> char" where
  "ascii_upper_char c = (if 97 \<le> byte c \<and> byte c \<le> 122 then byte_char (byte c - 32) else c)"

definition ascii_lower :: "bytes \<Rightarrow> bytes" where "ascii_lower s = map ascii_lower_char s"
definition ascii_upper :: "bytes \<Rightarrow> bytes" where "ascii_upper s = map ascii_upper_char s"

section \<open>Prefixes, substrings, splitting\<close>

fun has_prefix :: "bytes \<Rightarrow> bytes \<Rightarrow> bool" where
  "has_prefix _ [] = True"
| "has_prefix [] (_ # _) = False"
| "has_prefix (c # cs) (p # ps) = (c = p \<and> has_prefix cs ps)"

definition has_suffix :: "bytes \<Rightarrow> bytes \<Rightarrow> bool" where
  "has_suffix s p = has_prefix (rev s) (rev p)"

definition trim_prefix :: "bytes \<Rightarrow> bytes \<Rightarrow> bytes" where
  "trim_prefix s p = (if has_prefix s p then drop (length p) s else s)"

fun contains :: "bytes \<Rightarrow> bytes \<Rightarrow> bool" where
  "contains [] p = has_prefix [] p"
| "contains (c # cs) p = (has_prefix (c # cs) p \<or> contains cs p)"

text \<open>\<^verbatim>\<open>strings.Split\<close> at a one byte separator.\<close>

fun split_at :: "char \<Rightarrow> bytes \<Rightarrow> bytes list" where
  "split_at sep [] = [[]]"
| "split_at sep (c # cs) =
     (if c = sep then [] # split_at sep cs
      else case split_at sep cs of [] \<Rightarrow> [[c]] | p # ps \<Rightarrow> (c # p) # ps)"

text \<open>\<^verbatim>\<open>strings.SplitN(s, sep, 2)\<close>.\<close>

fun split2 :: "char \<Rightarrow> bytes \<Rightarrow> bytes list" where
  "split2 sep [] = [[]]"
| "split2 sep (c # cs) =
     (if c = sep then [[], cs]
      else case split2 sep cs of [] \<Rightarrow> [[c]] | p # ps \<Rightarrow> (c # p) # ps)"

fun join :: "bytes \<Rightarrow> bytes list \<Rightarrow> bytes" where
  "join sep [] = []"
| "join sep [p] = p"
| "join sep (p # q # ps) = p @ sep @ join sep (q # ps)"

lemma has_prefix_iff: "has_prefix s p \<longleftrightarrow> take (length p) s = p"
  by (induction s p rule: has_prefix.induct) auto

lemma has_prefix_append [simp]: "has_prefix (p @ s) p"
  by (simp add: has_prefix_iff)

lemma has_prefixE:
  assumes "has_prefix s p" obtains t where "s = p @ t"
  using assms by (metis append_take_drop_id has_prefix_iff)

lemma split_at_not_Nil [simp]: "split_at sep s \<noteq> []"
  by (cases s) (auto split: list.splits)

lemma split_at_no_sep: "sep \<notin> set s \<Longrightarrow> split_at sep s = [s]"
  by (induction s) auto

lemma split_at_append:
  "sep \<notin> set p \<Longrightarrow> split_at sep (p @ sep # s) = p # split_at sep s"
  by (induction p) auto

lemma split_at_parts: "p \<in> set (split_at sep s) \<Longrightarrow> sep \<notin> set p"
  by (induction s arbitrary: p) (auto split: if_splits list.splits)

lemma join_split_at: "join [sep] (split_at sep s) = s"
proof (induction s)
  case (Cons c cs)
  obtain p ps where ps: "split_at sep cs = p # ps" by (metis split_at_not_Nil list.exhaust)
  show ?case
    using Cons ps by (cases ps) auto
qed simp

lemma split_at_join:
  assumes "ps \<noteq> []" "\<forall>p \<in> set ps. sep \<notin> set p"
  shows "split_at sep (join [sep] ps) = ps"
  using assms
  by (induction "[sep]" ps rule: join.induct) (auto simp: split_at_no_sep split_at_append)

lemma split2_append: "sep \<notin> set p \<Longrightarrow> split2 sep (p @ sep # s) = [p, s]"
  by (induction p) auto

section \<open>UTF-8\<close>

definition continuation :: "char \<Rightarrow> bool" where
  "continuation c = (128 \<le> byte c \<and> byte c < 192)"

text \<open>\<^verbatim>\<open>utf8.DecodeRuneInString\<close>: the rune at the front and its width; U+FFFD and width 1 when the bytes
  are not valid UTF-8 (overlong forms, surrogates and values above U+10FFFF included).\<close>

definition decode_rune :: "bytes \<Rightarrow> nat \<times> nat" where
  "decode_rune s = (case s of
     [] \<Rightarrow> (65533, 0)
   | c # rest \<Rightarrow>
     (let b = byte c in
      if b < 128 then (b, 1)
      else if 194 \<le> b \<and> b < 224 then
        (case rest of
           c1 # _ \<Rightarrow> if continuation c1 then ((b - 192) * 64 + (byte c1 - 128), 2) else (65533, 1)
         | _ \<Rightarrow> (65533, 1))
      else if 224 \<le> b \<and> b < 240 then
        (case rest of
           c1 # c2 # _ \<Rightarrow>
             if continuation c1 \<and> continuation c2
                \<and> (b = 224 \<longrightarrow> 160 \<le> byte c1) \<and> (b = 237 \<longrightarrow> byte c1 < 160)
             then ((b - 224) * 4096 + (byte c1 - 128) * 64 + (byte c2 - 128), 3) else (65533, 1)
         | _ \<Rightarrow> (65533, 1))
      else if 240 \<le> b \<and> b < 245 then
        (case rest of
           c1 # c2 # c3 # _ \<Rightarrow>
             if continuation c1 \<and> continuation c2 \<and> continuation c3
                \<and> (b = 240 \<longrightarrow> 144 \<le> byte c1) \<and> (b = 244 \<longrightarrow> byte c1 < 144)
             then ((b - 240) * 262144 + (byte c1 - 128) * 4096 + (byte c2 - 128) * 64
                   + (byte c3 - 128), 4) else (65533, 1)
         | _ \<Rightarrow> (65533, 1))
      else (65533, 1)))"

lemma decode_rune_width: "s \<noteq> [] \<Longrightarrow> 0 < snd (decode_rune s) \<and> snd (decode_rune s) \<le> length s"
  by (auto simp: decode_rune_def Let_def split: list.splits)

function runes :: "bytes \<Rightarrow> (nat \<times> bytes) list" where
  "runes [] = []"
| "runes (c # cs) =
     (let (r, w) = decode_rune (c # cs)
      in (r, take w (c # cs)) # runes (drop w (c # cs)))"
  by pat_completeness auto
termination
proof (relation "measure length", goal_cases)
  case (2 c cs x r w)
  then have "0 < w" using decode_rune_width [of "c # cs"] by (metis list.distinct(1) snd_conv)
  then show ?case by simp
qed simp

text \<open>\<^verbatim>\<open>utf8.AppendRune\<close>, for the runes \<^verbatim>\<open>strings.Map\<close> writes.\<close>

definition encode_rune :: "nat \<Rightarrow> bytes" where
  "encode_rune r =
     (if r < 128 then [byte_char r]
      else if r < 2048 then [byte_char (192 + r div 64), byte_char (128 + r mod 64)]
      else if r < 65536 then
        [byte_char (224 + r div 4096), byte_char (128 + r div 64 mod 64), byte_char (128 + r mod 64)]
      else [byte_char (240 + r div 262144), byte_char (128 + r div 4096 mod 64),
            byte_char (128 + r div 64 mod 64), byte_char (128 + r mod 64)])"

definition rune_count :: "bytes \<Rightarrow> nat" where "rune_count s = length (runes s)"

text \<open>\<^verbatim>\<open>unicode.IsSpace\<close>.\<close>

definition is_space :: "nat \<Rightarrow> bool" where
  "is_space r = ((9 \<le> r \<and> r \<le> 13) \<or> r = 32 \<or> r = 133 \<or> r = 160 \<or> r = 5760
     \<or> (8192 \<le> r \<and> r \<le> 8202) \<or> r = 8232 \<or> r = 8233 \<or> r = 8239 \<or> r = 8287 \<or> r = 12288)"

definition unrunes :: "(nat \<times> bytes) list \<Rightarrow> bytes" where "unrunes rs = concat (map snd rs)"

definition trim_left_runes :: "(nat \<Rightarrow> bool) \<Rightarrow> (nat \<times> bytes) list \<Rightarrow> (nat \<times> bytes) list" where
  "trim_left_runes P rs = dropWhile (\<lambda>r. P (fst r)) rs"

definition trim_right_runes :: "(nat \<Rightarrow> bool) \<Rightarrow> (nat \<times> bytes) list \<Rightarrow> (nat \<times> bytes) list" where
  "trim_right_runes P rs = rev (dropWhile (\<lambda>r. P (fst r)) (rev rs))"

definition TrimSpace :: "bytes \<Rightarrow> bytes" where
  "TrimSpace s = unrunes (trim_right_runes is_space (trim_left_runes is_space (runes s)))"

definition TrimLeftFunc :: "(nat \<Rightarrow> bool) \<Rightarrow> bytes \<Rightarrow> bytes" where
  "TrimLeftFunc P s = unrunes (trim_left_runes P (runes s))"

text \<open>PostgreSQL's \<^verbatim>\<open>btrim\<close> removes spaces only.\<close>

definition btrim :: "bytes \<Rightarrow> bytes" where
  "btrim s = rev (dropWhile (\<lambda>c. c = CHR '' '') (rev (dropWhile (\<lambda>c. c = CHR '' '') s)))"

lemma unrunes_runes [simp]: "unrunes (runes s) = s"
proof (induction s rule: runes.induct)
  case (2 c cs)
  let ?d = "decode_rune (c # cs)"
  have "unrunes (runes (drop (snd ?d) (c # cs))) = drop (snd ?d) (c # cs)"
    using 2 [of ?d "fst ?d" "snd ?d"] by simp
  then have "take (snd ?d) (c # cs) @ unrunes (runes (drop (snd ?d) (c # cs))) = c # cs"
    by (metis append_take_drop_id)
  then show ?case by (simp add: unrunes_def split_beta)
qed (simp add: unrunes_def)

lemma runes_ascii_Cons: "byte c < 128 \<Longrightarrow> runes (c # cs) = (byte c, [c]) # runes cs"
  by (simp add: decode_rune_def Let_def)

lemma runes_ascii: "\<forall>c \<in> set s. byte c < 128 \<Longrightarrow> runes s = map (\<lambda>c. (byte c, [c])) s"
  by (induction s) (simp_all add: runes_ascii_Cons del: runes.simps(2))

lemma rune_count_ascii: "\<forall>c \<in> set s. byte c < 128 \<Longrightarrow> rune_count s = length s"
  by (simp add: rune_count_def runes_ascii)

lemma rune_count_le_length: "rune_count s \<le> length s"
  unfolding rune_count_def
proof (induction s rule: runes.induct)
  case (2 c cs)
  let ?w = "snd (decode_rune (c # cs))"
  have "length (runes (drop ?w (c # cs))) \<le> length (drop ?w (c # cs))"
    using 2 [of "decode_rune (c # cs)" "fst (decode_rune (c # cs))" ?w] by simp
  moreover have "0 < ?w" using decode_rune_width [of "c # cs"] by simp
  ultimately show ?case by (simp add: split_beta del: drop_Cons)
qed simp

lemma rune_count_eq_0_iff [simp]: "rune_count s = 0 \<longleftrightarrow> s = []"
  by (cases s) (auto simp: rune_count_def split_beta)

lemma is_digit_ascii: "is_digit c \<Longrightarrow> byte c < 128"
  by (simp add: is_digit_def)

lemma TrimSpace_ascii_solid:
  assumes "s \<noteq> []" "\<forall>c \<in> set s. 33 \<le> byte c \<and> byte c < 127"
  shows "TrimSpace s = s"
proof -
  have r: "runes s = map (\<lambda>c. (byte c, [c])) s" using assms(2) by (intro runes_ascii) auto
  have sp: "\<not> is_space (byte c)" if "c \<in> set s" for c using assms(2) that by (auto simp: is_space_def)
  have hd: "dropWhile (\<lambda>r. is_space (fst r)) (map (\<lambda>c. (byte c, [c])) t) = map (\<lambda>c. (byte c, [c])) t"
    if "set t \<subseteq> set s" for t using that sp by (cases t) auto
  have "trim_right_runes is_space (trim_left_runes is_space (runes s)) = runes s"
    using hd [of s] hd [of "rev s"] by (simp add: r trim_left_runes_def trim_right_runes_def rev_map [symmetric])
  then show ?thesis by (simp add: TrimSpace_def)
qed

section \<open>Decimal numbers\<close>

fun nat_digits :: "nat \<Rightarrow> bytes" where
  "nat_digits n = (if n < 10 then [byte_char (48 + n)] else nat_digits (n div 10) @ [byte_char (48 + n mod 10)])"

declare nat_digits.simps [simp del]

definition Itoa :: "int \<Rightarrow> bytes" where
  "Itoa i = (if i < 0 then CHR ''-'' # nat_digits (nat (- i)) else nat_digits (nat i))"

fun digits_value :: "nat \<Rightarrow> bytes \<Rightarrow> nat option" where
  "digits_value acc [] = Some acc"
| "digits_value acc (c # cs) = (if is_digit c then digits_value (10 * acc + (byte c - 48)) cs else None)"

text \<open>\<^verbatim>\<open>strconv.Atoi\<close> and \<^verbatim>\<open>strconv.ParseInt(s, 10, 64)\<close>: a sign, at least one digit, and the range of \<^verbatim>\<open>int64\<close>.\<close>

definition Atoi :: "bytes \<Rightarrow> int option" where
  "Atoi s =
     (let (negative, digits) =
        (case s of [] \<Rightarrow> (False, []) | c # cs \<Rightarrow>
           if c = CHR ''-'' then (True, cs) else if c = CHR ''+'' then (False, cs) else (False, s))
      in if digits = [] then None
         else case digits_value 0 digits of
           None \<Rightarrow> None
         | Some n \<Rightarrow>
             let i = (if negative then - int n else int n)
             in if - (2 ^ 63) \<le> i \<and> i < 2 ^ 63 then Some i else None)"

lemma nat_digits_not_Nil [simp]: "nat_digits n \<noteq> []"
  by (subst nat_digits.simps) simp

lemma digit_char: "n < 10 \<Longrightarrow> is_digit (byte_char (48 + n)) \<and> byte (byte_char (48 + n)) - 48 = n"
  by (simp add: is_digit_def)

lemma digits_value_append:
  "digits_value acc (xs @ ys) = (case digits_value acc xs of None \<Rightarrow> None | Some a \<Rightarrow> digits_value a ys)"
  by (induction xs arbitrary: acc) auto

lemma digits_value_nat_digits: "digits_value 0 (nat_digits n) = Some n"
proof (induction n rule: nat_digits.induct)
  case (1 n)
  show ?case
  proof (cases "n < 10")
    case True
    then show ?thesis using digit_char [of n] by (subst nat_digits.simps) simp
  next
    case False
    then show ?thesis using 1 digit_char [of "n mod 10"] by (subst nat_digits.simps) (simp add: digits_value_append)
  qed
qed

lemma nat_digits_digits: "c \<in> set (nat_digits n) \<Longrightarrow> is_digit c"
proof (induction n rule: nat_digits.induct)
  case (1 n)
  then show ?case using digit_char [of n] digit_char [of "n mod 10"]
    by (subst (asm) nat_digits.simps) (auto split: if_splits)
qed

lemma sign_not_digit [simp]: "\<not> is_digit (CHR ''-'')" "\<not> is_digit (CHR ''+'')"
  by (simp_all add: is_digit_def byte_def)

lemma Atoi_Itoa: "- (2 ^ 63) \<le> i \<Longrightarrow> i < 2 ^ 63 \<Longrightarrow> Atoi (Itoa i) = Some i"
proof -
  assume r: "- (2 ^ 63) \<le> i" "i < 2 ^ 63"
  show "Atoi (Itoa i) = Some i"
  proof (cases "i < 0")
    case True
    then show ?thesis using r by (simp add: Atoi_def Itoa_def digits_value_nat_digits Let_def)
  next
    case False
    obtain c cs where d: "nat_digits (nat i) = c # cs" by (cases "nat_digits (nat i)") auto
    then have "is_digit c" using nat_digits_digits [of c "nat i"] by simp
    then have "c \<noteq> CHR ''-''" "c \<noteq> CHR ''+''" by auto
    then show ?thesis using False r d digits_value_nat_digits [of "nat i"] by (simp add: Atoi_def Itoa_def Let_def)
  qed
qed

end
