(* ===== verification/Base64.thy ===== *)
theory Base64
  imports GoText
begin

text \<open>
  \<^verbatim>\<open>base64.RawURLEncoding\<close> of Go's standard library, which the session tokens, worker and artifact tokens
  and the paging cursors are written in, and hexadecimal encoding.  Decoding skips line breaks, rejects
  any other byte outside the alphabet and a single left-over digit, and ignores the unused low bits of
  the last digit, as the library's non-strict decoder does.
\<close>

section \<open>Digits\<close>

definition b64_alphabet :: bytes where
  "b64_alphabet = ''ABCDEFGHIJKLMNOPQRSTUVWXYZabcdefghijklmnopqrstuvwxyz0123456789-_''"

definition b64_digit :: "nat \<Rightarrow> char" where
  "b64_digit n =
     (if n < 26 then byte_char (65 + n) else if n < 52 then byte_char (71 + n)
      else if n < 62 then byte_char (n - 4) else if n = 62 then CHR ''-'' else CHR ''_'')"

definition b64_value :: "char \<Rightarrow> nat option" where
  "b64_value c = (let b = byte c in
     if 65 \<le> b \<and> b \<le> 90 then Some (b - 65) else if 97 \<le> b \<and> b \<le> 122 then Some (b - 71)
     else if 48 \<le> b \<and> b \<le> 57 then Some (b + 4) else if b = 45 then Some 62
     else if b = 95 then Some 63 else None)"

lemma b64_digit_alphabet: "map b64_digit [0..<64] = b64_alphabet"
  by code_simp

lemma byte_special [simp]: "byte (CHR ''-'') = 45" "byte (CHR ''_'') = 95" "byte (CHR ''.'') = 46"
  by (simp_all add: byte_def)

lemma b64_value_digit [simp]: "n < 64 \<Longrightarrow> b64_value (b64_digit n) = Some n"
  by (auto simp: b64_digit_def b64_value_def Let_def)

lemma b64_value_less: "b64_value c = Some n \<Longrightarrow> n < 64"
  by (auto simp: b64_value_def Let_def split: if_splits)

lemma b64_digit_byte: "n < 64 \<Longrightarrow> 45 \<le> byte (b64_digit n) \<and> byte (b64_digit n) \<noteq> 46"
  by (auto simp: b64_digit_def)

section \<open>Encoding and decoding\<close>

fun b64_encode_nats :: "nat list \<Rightarrow> bytes" where
  "b64_encode_nats [] = []"
| "b64_encode_nats [a] = [b64_digit (a div 4), b64_digit (a mod 4 * 16)]"
| "b64_encode_nats [a, b] =
     [b64_digit (a div 4), b64_digit (a mod 4 * 16 + b div 16), b64_digit (b mod 16 * 4)]"
| "b64_encode_nats (a # b # c # rest) =
     b64_digit (a div 4) # b64_digit (a mod 4 * 16 + b div 16) # b64_digit (b mod 16 * 4 + c div 64)
       # b64_digit (c mod 64) # b64_encode_nats rest"

definition EncodeToString :: "bytes \<Rightarrow> bytes" where
  "EncodeToString s = b64_encode_nats (map byte s)"

fun b64_decode_nats :: "nat list \<Rightarrow> nat list option" where
  "b64_decode_nats [] = Some []"
| "b64_decode_nats [p] = None"
| "b64_decode_nats [p, q] = Some [p * 4 + q div 16]"
| "b64_decode_nats [p, q, r] = Some [p * 4 + q div 16, q mod 16 * 16 + r div 4]"
| "b64_decode_nats (p # q # r # t # rest) =
     (case b64_decode_nats rest of
        None \<Rightarrow> None
      | Some bs \<Rightarrow> Some ((p * 4 + q div 16) # (q mod 16 * 16 + r div 4) # (r mod 4 * 64 + t) # bs))"

fun b64_values :: "bytes \<Rightarrow> nat list option" where
  "b64_values [] = Some []"
| "b64_values (c # cs) =
     (case b64_value c of None \<Rightarrow> None
      | Some n \<Rightarrow> (case b64_values cs of None \<Rightarrow> None | Some ns \<Rightarrow> Some (n # ns)))"

definition DecodeString :: "bytes \<Rightarrow> bytes option" where
  "DecodeString s =
     (case b64_values (filter (\<lambda>c. byte c \<noteq> 10 \<and> byte c \<noteq> 13) s) of
        None \<Rightarrow> None
      | Some ns \<Rightarrow> map_option (map byte_char) (b64_decode_nats ns))"

section \<open>Round trip\<close>

lemma b64_encode_digits:
  "\<forall>n \<in> set ns. n < 256 \<Longrightarrow> c \<in> set (b64_encode_nats ns) \<Longrightarrow> \<exists>n<64. c = b64_digit n"
proof (induction ns rule: b64_encode_nats.induct)
  case (2 a)
  have "a div 4 < 64" "a mod 4 * 16 < 64" using 2 by auto
  moreover have "c = b64_digit (a div 4) \<or> c = b64_digit (a mod 4 * 16)" using 2 by auto
  ultimately show ?case by metis
next
  case (3 a b)
  have "a div 4 < 64" "a mod 4 * 16 + b div 16 < 64" "b mod 16 * 4 < 64" using 3 by auto
  moreover have "c = b64_digit (a div 4) \<or> c = b64_digit (a mod 4 * 16 + b div 16) \<or> c = b64_digit (b mod 16 * 4)"
    using 3 by auto
  ultimately show ?case by metis
next
  case (4 a b c' rest)
  have "a div 4 < 64" "a mod 4 * 16 + b div 16 < 64" "b mod 16 * 4 + c' div 64 < 64" "c' mod 64 < 64"
    using 4 by auto
  moreover have "c = b64_digit (a div 4) \<or> c = b64_digit (a mod 4 * 16 + b div 16)
      \<or> c = b64_digit (b mod 16 * 4 + c' div 64) \<or> c = b64_digit (c' mod 64) \<or> c \<in> set (b64_encode_nats rest)"
    using 4(3) by auto
  moreover have "\<forall>n \<in> set rest. n < 256" using 4(2) by simp
  ultimately show ?case using 4(1) by metis
qed simp

lemma b64_round_nats:
  "\<forall>n \<in> set ns. n < 256 \<Longrightarrow>
     \<exists>ds. b64_values (b64_encode_nats ns) = Some ds \<and> b64_decode_nats ds = Some ns"
proof (induction ns rule: b64_encode_nats.induct)
  case (2 a)
  have "a div 4 < 64" "a mod 4 * 16 < 64" "a div 4 * 4 + a mod 4 * 16 div 16 = a" using 2 by auto
  then show ?case by simp
next
  case (3 a b)
  have "a div 4 < 64" "a mod 4 * 16 + b div 16 < 64" "b mod 16 * 4 < 64" using 3 by auto
  moreover have "a div 4 * 4 + (a mod 4 * 16 + b div 16) div 16 = a" using 3 by auto
  moreover have "(a mod 4 * 16 + b div 16) mod 16 * 16 + b mod 16 * 4 div 4 = b"
  proof -
    have "b div 16 < 16" using 3 by auto
    then show ?thesis using div_mult_mod_eq [of b 16] by simp
  qed
  ultimately show ?case by simp
next
  case (4 a b c rest)
  have "a div 4 < 64" "a mod 4 * 16 + b div 16 < 64" "b mod 16 * 4 + c div 64 < 64" "c mod 64 < 64" using 4 by auto
  moreover have "a div 4 * 4 + (a mod 4 * 16 + b div 16) div 16 = a" using 4 by auto
  moreover have "(a mod 4 * 16 + b div 16) mod 16 * 16 + (b mod 16 * 4 + c div 64) div 4 = b"
  proof -
    have "b div 16 < 16" "c div 64 div 4 = 0" using 4 by auto
    then show ?thesis using div_mult_mod_eq [of b 16] by simp
  qed
  moreover have "(b mod 16 * 4 + c div 64) mod 4 * 64 + c mod 64 = c"
  proof -
    have "c div 64 < 4" using 4 by auto
    then show ?thesis using div_mult_mod_eq [of c 64] by (simp add: mod_add_eq [symmetric])
  qed
  ultimately show ?case using 4 by auto
qed simp

lemma EncodeToString_clean: "c \<in> set (EncodeToString s) \<Longrightarrow> 45 \<le> byte c \<and> byte c \<noteq> 46"
  using b64_encode_digits [of "map byte s" c] b64_digit_byte by (auto simp: EncodeToString_def)

lemma EncodeToString_no_dot: "CHR ''.'' \<notin> set (EncodeToString s)"
  using EncodeToString_clean [of "CHR ''.''"] by auto

lemma Decode_Encode [simp]: "DecodeString (EncodeToString s) = Some s"
proof -
  have clean: "filter (\<lambda>c. byte c \<noteq> 10 \<and> byte c \<noteq> 13) (EncodeToString s) = EncodeToString s"
    using EncodeToString_clean by (force simp: filter_id_conv)
  obtain ds where "b64_values (EncodeToString s) = Some ds" "b64_decode_nats ds = Some (map byte s)"
    using b64_round_nats [of "map byte s"] by (auto simp: EncodeToString_def)
  then show ?thesis by (simp add: DecodeString_def clean map_idI)
qed

lemma EncodeToString_inject [simp]: "EncodeToString a = EncodeToString b \<longleftrightarrow> a = b"
  by (metis Decode_Encode option.inject)

section \<open>The padded encoding\<close>

text \<open>\<^verbatim>\<open>base64.StdEncoding.DecodeString\<close>: groups of four digits, the last one padded with \<^verbatim>\<open>=\<close>.\<close>

definition std_value :: "char \<Rightarrow> nat option" where
  "std_value c = (if c = CHR ''+'' then Some 62 else if c = CHR ''/'' then Some 63
     else if c = CHR ''-'' \<or> c = CHR ''_'' then None else b64_value c)"

fun std_decode :: "bytes \<Rightarrow> nat list option" where
  "std_decode [] = Some []"
| "std_decode (c0 # c1 # c2 # c3 # rest) =
     (case (std_value c0, std_value c1) of
        (Some p, Some q) \<Rightarrow>
          if c2 = CHR ''='' then (if c3 = CHR ''='' \<and> rest = [] then Some [p * 4 + q div 16] else None)
          else (case std_value c2 of
             None \<Rightarrow> None
           | Some r \<Rightarrow>
               if c3 = CHR ''='' then (if rest = [] then Some [p * 4 + q div 16, q mod 16 * 16 + r div 4] else None)
               else (case (std_value c3, std_decode rest) of
                  (Some t, Some ns) \<Rightarrow> Some ((p * 4 + q div 16) # (q mod 16 * 16 + r div 4) # (r mod 4 * 64 + t) # ns)
                | _ \<Rightarrow> None))
      | _ \<Rightarrow> None)"
| "std_decode _ = None"

definition StdDecodeString :: "bytes \<Rightarrow> bytes option" where
  "StdDecodeString s = map_option (map byte_char) (std_decode (filter (\<lambda>c. byte c \<noteq> 10 \<and> byte c \<noteq> 13) s))"

section \<open>Hexadecimal\<close>

definition hex_digit :: "nat \<Rightarrow> char" where
  "hex_digit n = (if n < 10 then byte_char (48 + n) else byte_char (87 + n))"

fun hex_encode :: "bytes \<Rightarrow> bytes" where
  "hex_encode [] = []"
| "hex_encode (c # cs) = hex_digit (byte c div 16) # hex_digit (byte c mod 16) # hex_encode cs"

lemma hex_encode_length [simp]: "length (hex_encode s) = 2 * length s"
  by (induction s) auto

text \<open>\<^verbatim>\<open>hex.DecodeString\<close>: an even number of digits of either case.\<close>

definition hex_value :: "char \<Rightarrow> nat option" where
  "hex_value c = (let b = byte c in
     if 48 \<le> b \<and> b \<le> 57 then Some (b - 48) else if 97 \<le> b \<and> b \<le> 102 then Some (b - 87)
     else if 65 \<le> b \<and> b \<le> 70 then Some (b - 55) else None)"

fun hex_decode :: "bytes \<Rightarrow> bytes option" where
  "hex_decode [] = Some []"
| "hex_decode [c] = None"
| "hex_decode (c # d # rest) =
     (case (hex_value c, hex_value d, hex_decode rest) of
        (Some a, Some b, Some s) \<Rightarrow> Some (byte_char (16 * a + b) # s)
      | _ \<Rightarrow> None)"

lemma hex_value_digit [simp]: "n < 16 \<Longrightarrow> hex_value (hex_digit n) = Some n"
  by (auto simp: hex_digit_def hex_value_def Let_def)

lemma hex_decode_encode [simp]: "hex_decode (hex_encode s) = Some s"
  by (induction s) (auto simp: less_mult_imp_div_less)

end
