(* ===== verification/Auth.thy ===== *)
theory Auth
  imports Schema Base64
begin

text \<open>
  Sign-in: the store operations of src/api/internal/postgres/auth.go and the HTTP service of
  src/api/internal/auth/service.go.  SHA-256 is the parameter \<^verbatim>\<open>hash\<close>; random tokens and identifiers
  are arguments (\<^verbatim>\<open>None\<close> when the system's generator fails); the clock is a function from the reading's
  number to an instant, so that two readings in one request may differ; the identity providers are values
  of the interface type \<^verbatim>\<open>provider\<close>.  \<^verbatim>\<open>dbnow\<close> is the server's \<^verbatim>\<open>now()\<close>.
\<close>

section \<open>Types\<close>

record external_identity =
  xi_provider :: string
  xi_issuer :: string
  xi_subject :: string
  xi_email :: string
  xi_email_verified :: bool
  xi_display_name :: string
  xi_picture_url :: string

record login_result =
  lr_user :: id
  lr_created :: bool

record session =
  se_id :: id
  se_user :: id
  se_csrf_hash :: bytes
  se_authenticated_at :: time
  se_provider :: string
  se_idle_expires_at :: time
  se_absolute_expires_at :: time

record link_request =
  lq_user :: id
  lq_session :: id
  lq_identity :: external_identity
  lq_new_session :: session_record
  lq_now :: time

record unlink_request =
  ul_user :: id
  ul_session :: id
  ul_provider :: string
  ul_new_session :: session_record
  ul_now :: time
  ul_cooldown_until :: time

definition PurposeLogin :: string where "PurposeLogin = ''login''"
definition PurposeLink :: string where "PurposeLink = ''link''"
definition PurposeReauth :: string where "PurposeReauth = ''reauth''"

lemmas purposes = PurposeLogin_def PurposeLink_def PurposeReauth_def

definition emptyToNil :: "string \<Rightarrow> string option" where
  "emptyToNil value = (if value = [] then None else Some value)"

section \<open>Authorization attempts\<close>

definition auth_transaction_check :: "auth_transaction \<Rightarrow> bool" where
  "auth_transaction_check t =
     (length (at_state_hash t) = 32 \<and> length (at_browser_hash t) = 32
      \<and> (at_provider t = ''line'' \<or> at_provider t = ''google'')
      \<and> at_created_at t < at_expires_at t
      \<and> ((at_purpose t = PurposeLogin \<and> at_user t = [] \<and> at_session t = [])
         \<or> ((at_purpose t = PurposeLink \<or> at_purpose t = PurposeReauth)
             \<and> at_user t \<noteq> [] \<and> at_session t \<noteq> [])))"

definition CreateAuthTransaction :: "auth_transaction \<Rightarrow> (unit, store) txn" where
  "CreateAuthTransaction t s =
     (if \<not> auth_transaction_check t then Inl (CheckViolation ''auth_transactions'')
      else if row_exists (\<lambda>r. at_state_hash r = at_state_hash t) (auth_transactions s)
      then Inl (UniqueViolation ''auth_transactions_pkey'')
      else Inr ((), s\<lparr>auth_transactions := auth_transactions s @
             [auth_transaction.extend t \<lparr>at_consumed_at = None\<rparr>]\<rparr>))"

definition consumable :: "bytes \<Rightarrow> time \<Rightarrow> auth_transaction_row \<Rightarrow> bool" where
  "consumable state_hash now r =
     (at_state_hash r = state_hash \<and> at_consumed_at r = None \<and> now < at_expires_at r)"

definition ConsumeAuthTransaction :: "bytes \<Rightarrow> time \<Rightarrow> (auth_transaction, store) txn" where
  "ConsumeAuthTransaction state_hash now s =
     (case query_row (consumable state_hash now) (auth_transactions s) of
        None \<Rightarrow> Inl Auth_ErrAuthTransaction
      | Some r \<Rightarrow> Inr (auth_transaction.truncate r,
          s\<lparr>auth_transactions := sql_update (consumable state_hash now)
             (\<lambda>r. r\<lparr>at_consumed_at := Some now\<rparr>) (auth_transactions s)\<rparr>))"

section \<open>Sessions\<close>

definition session_check :: "session_record \<Rightarrow> bool" where
  "session_check r =
     (length (s_token_hash r) = 32 \<and> length (s_csrf_hash r) = 32
      \<and> (s_provider r = ''line'' \<or> s_provider r = ''google'')
      \<and> s_created_at r \<le> s_authenticated_at r \<and> s_authenticated_at r \<le> s_absolute_expires_at r
      \<and> s_created_at r \<le> s_last_seen_at r \<and> s_idle_expires_at r \<le> s_absolute_expires_at r)"

definition insertSession :: "session_record \<Rightarrow> (unit, store) txn" where
  "insertSession r s =
     (if \<not> session_check r then Inl (CheckViolation ''sessions'')
      else if row_exists (\<lambda>q. s_id q = s_id r) (sessions s) then Inl (UniqueViolation ''sessions_pkey'')
      else if row_exists (\<lambda>q. s_token_hash q = s_token_hash r) (sessions s)
      then Inl (UniqueViolation ''sessions_token_hash_key'')
      else if \<not> row_exists (\<lambda>u. u_id u = s_user r) (users s) then Inl (ForeignKeyViolation ''sessions'')
      else Inr ((), s\<lparr>sessions := sessions s @ [session_record.extend r \<lparr>s_revoked_at = None\<rparr>]\<rparr>))"

definition CreateSession :: "session_record \<Rightarrow> (unit, store) txn" where
  "CreateSession r s = insertSession r s"

definition live_session :: "bytes \<Rightarrow> time \<Rightarrow> session_row \<Rightarrow> bool" where
  "live_session token_hash now r =
     (s_token_hash r = token_hash \<and> s_revoked_at r = None
      \<and> now < s_idle_expires_at r \<and> now < s_absolute_expires_at r)"

definition session_of :: "session_row \<Rightarrow> session" where
  "session_of r = \<lparr>se_id = s_id r, se_user = s_user r, se_csrf_hash = s_csrf_hash r,
     se_authenticated_at = s_authenticated_at r, se_provider = s_provider r,
     se_idle_expires_at = s_idle_expires_at r, se_absolute_expires_at = s_absolute_expires_at r\<rparr>"

text \<open>Two statements on the pool: the lookup, and at most once in five minutes the extension of the
  idle deadline, which never passes the absolute one.\<close>

definition ResolveSession :: "bytes \<Rightarrow> time \<Rightarrow> (session, store) txn" where
  "ResolveSession token_hash now s =
     (case query_row (live_session token_hash now) (sessions s) of
        None \<Rightarrow> Inl Auth_ErrSession
      | Some r \<Rightarrow>
          if s_last_seen_at r \<le> now - 5 * Minute
          then
            let idleExpiry = min (now + 14 * Day) (s_absolute_expires_at r)
            in Inr ((session_of r)\<lparr>se_idle_expires_at := idleExpiry\<rparr>,
                 s\<lparr>sessions := sql_update (\<lambda>q. s_id q = s_id r \<and> s_last_seen_at q \<le> now - 5 * Minute)
                    (\<lambda>q. q\<lparr>s_last_seen_at := now, s_idle_expires_at := idleExpiry\<rparr>) (sessions s)\<rparr>)
          else Inr (session_of r, s))"

definition revoke_sessions :: "(session_row \<Rightarrow> bool) \<Rightarrow> time \<Rightarrow> store \<Rightarrow> store" where
  "revoke_sessions P now s =
     s\<lparr>sessions := sql_update (\<lambda>r. P r \<and> s_revoked_at r = None)
        (\<lambda>r. r\<lparr>s_revoked_at := Some now\<rparr>) (sessions s)\<rparr>"

definition RevokeSession :: "id \<Rightarrow> time \<Rightarrow> (unit, store) txn" where
  "RevokeSession session now s = Inr ((), revoke_sessions (\<lambda>r. s_id r = session) now s)"

definition RevokeUserSessions :: "id \<Rightarrow> time \<Rightarrow> (unit, store) txn" where
  "RevokeUserSessions user now s = Inr ((), revoke_sessions (\<lambda>r. s_user r = user) now s)"

definition rotateSession :: "id \<Rightarrow> session_record \<Rightarrow> time \<Rightarrow> (unit, store) txn" where
  "rotateSession old_session new_session now s =
     (if rows_affected (\<lambda>r. s_id r = old_session \<and> s_revoked_at r = None) (sessions s) \<noteq> 1
      then Inl Auth_ErrSession
      else insertSession new_session (revoke_sessions (\<lambda>r. s_id r = old_session) now s))"

definition requireRecentSession :: "id \<Rightarrow> id \<Rightarrow> time \<Rightarrow> store \<Rightarrow> unit result" where
  "requireRecentSession user session now s =
     (if row_exists (\<lambda>r. s_id r = session \<and> s_user r = user \<and> s_revoked_at r = None
           \<and> now < s_idle_expires_at r \<and> now < s_absolute_expires_at r
           \<and> now - 10 * Minute < s_authenticated_at r) (sessions s)
      then Inr () else Inl Auth_ErrRecentAuth)"

section \<open>Identities\<close>

definition identity_of :: "string \<Rightarrow> string \<Rightarrow> identity_row \<Rightarrow> bool" where
  "identity_of issuer subject r = (ai_issuer r = issuer \<and> ai_subject r = subject)"

definition active_identity :: "id \<Rightarrow> identity_row \<Rightarrow> bool" where
  "active_identity user r = (ai_user r = user \<and> ai_disabled_at r = None)"

definition audit_auth :: "id \<Rightarrow> string \<Rightarrow> string \<Rightarrow> string \<Rightarrow> time \<Rightarrow> store \<Rightarrow> store" where
  "audit_auth actor event target_type target dbnow s =
     s\<lparr>audit_events := audit_events s @
        [\<lparr>au_org = None, au_actor = Some actor, au_type = event, au_target_type = target_type,
          au_target_id = target, au_request = None, au_outcome = ''success'', au_reason = None, au_metadata = JObject [],
          au_at = dbnow\<rparr>]\<rparr>"

definition new_identity :: "id \<Rightarrow> id \<Rightarrow> external_identity \<Rightarrow> time \<Rightarrow> identity_row" where
  "new_identity ident user x now =
     \<lparr>ai_id = ident, ai_user = user, ai_provider = xi_provider x, ai_issuer = xi_issuer x,
      ai_subject = xi_subject x, ai_email = emptyToNil (xi_email x),
      ai_email_verified = xi_email_verified x, ai_display_name = emptyToNil (xi_display_name x),
      ai_picture_url = emptyToNil (xi_picture_url x), ai_linked_at = now, ai_disabled_at = None,
      ai_cooldown_until = None\<rparr>"

text \<open>\<^verbatim>\<open>INSERT INTO auth_identities\<close> with the table's check and its three unique indexes.\<close>

definition insert_identity :: "identity_row \<Rightarrow> (unit, store) txn" where
  "insert_identity r s =
     (if ai_provider r \<noteq> ''line'' \<and> ai_provider r \<noteq> ''google'' then Inl (CheckViolation ''auth_identities'')
      else if row_exists (\<lambda>q. ai_id q = ai_id r) (auth_identities s)
      then Inl (UniqueViolation ''auth_identities_pkey'')
      else if row_exists (identity_of (ai_issuer r) (ai_subject r)) (auth_identities s)
      then Inl (UniqueViolation ''auth_identities_issuer_subject_uidx'')
      else if row_exists (\<lambda>q. active_identity (ai_user r) q \<and> ai_provider q = ai_provider r) (auth_identities s)
      then Inl (UniqueViolation ''auth_identities_user_provider_active_uidx'')
      else Inr ((), s\<lparr>auth_identities := auth_identities s @ [r]\<rparr>))"

text \<open>\<^verbatim>\<open>found\<close> is \<^verbatim>\<open>Some\<close>; a disabled identity is found and refused.\<close>

definition findLogin :: "external_identity \<Rightarrow> store \<Rightarrow> login_result option result" where
  "findLogin x s =
     (case query_row (identity_of (xi_issuer x) (xi_subject x)) (auth_identities s) of
        None \<Rightarrow> Inr None
      | Some r \<Rightarrow>
          if ai_disabled_at r \<noteq> None then Inl Auth_ErrIdentityConflict
          else Inr (Some \<lparr>lr_user = ai_user r, lr_created = False\<rparr>))"

definition is_unique_violation :: "err \<Rightarrow> bool" where
  "is_unique_violation e = (case e of UniqueViolation _ \<Rightarrow> True | _ \<Rightarrow> False)"

definition Login :: "time \<Rightarrow> external_identity \<Rightarrow> id \<Rightarrow> id \<Rightarrow> time \<Rightarrow> (login_result, store) txn" where
  "Login dbnow x new_user new_identity_id now s =
     (case findLogin x s of
        Inl e \<Rightarrow> Inl e
      | Inr (Some result) \<Rightarrow> Inr (result, s)
      | Inr None \<Rightarrow>
          if row_exists (\<lambda>u. u_id u = new_user) (users s) then Inl (UniqueViolation ''users_pkey'')
          else
            let s1 = s\<lparr>users := users s @
                  [\<lparr>u_id = new_user, u_display_name = emptyToNil (xi_display_name x),
                    u_picture_url = emptyToNil (xi_picture_url x), u_created_at = now, u_updated_at = now\<rparr>]\<rparr>
            in case insert_identity (new_identity new_identity_id new_user x now) s1 of
                 Inl e \<Rightarrow>
                   if is_unique_violation e
                   then (case findLogin x s of
                           Inl f \<Rightarrow> Inl f
                         | Inr (Some result) \<Rightarrow> Inr (result, s)
                         | Inr None \<Rightarrow> Inl Auth_ErrIdentityConflict)
                   else Inl e
               | Inr (_, s2) \<Rightarrow>
                   Inr (\<lparr>lr_user = new_user, lr_created = True\<rparr>,
                     audit_auth new_user ''auth.login'' ''auth_identity'' new_identity_id dbnow s2))"

definition identityConstraintError :: "err \<Rightarrow> err" where
  "identityConstraintError e = (if is_unique_violation e then Auth_ErrIdentityConflict else e)"

text \<open>Linking a provider again after it was unlinked enables the disabled row; the unique index on a
  user's active identity per provider may refuse it.\<close>

definition enable_identity :: "external_identity \<Rightarrow> time \<Rightarrow> (unit, store) txn" where
  "enable_identity x now s =
     (let f = (\<lambda>r. r\<lparr>ai_disabled_at := None, ai_cooldown_until := None, ai_email := emptyToNil (xi_email x),
                     ai_email_verified := xi_email_verified x, ai_display_name := emptyToNil (xi_display_name x),
                     ai_picture_url := emptyToNil (xi_picture_url x), ai_linked_at := now\<rparr>);
          P = identity_of (xi_issuer x) (xi_subject x)
      in if row_exists (\<lambda>r. P r \<and> row_exists (\<lambda>q. \<not> P q \<and> active_identity (ai_user r) q
               \<and> ai_provider q = ai_provider r) (auth_identities s)) (auth_identities s)
         then Inl (UniqueViolation ''auth_identities_user_provider_active_uidx'')
         else Inr ((), s\<lparr>auth_identities := sql_update P f (auth_identities s)\<rparr>))"

definition link_identity :: "link_request \<Rightarrow> (unit, store) txn" where
  "link_identity rq s =
     (case query_row (identity_of (xi_issuer (lq_identity rq)) (xi_subject (lq_identity rq))) (auth_identities s) of
        Some r \<Rightarrow>
          if ai_user r \<noteq> lq_user rq then Inl Auth_ErrIdentityConflict
          else if ai_disabled_at r = None then Inl Auth_ErrIdentityConflict
          else (case enable_identity (lq_identity rq) (lq_now rq) s of
                  Inl e \<Rightarrow> Inl (identityConstraintError e) | Inr v \<Rightarrow> Inr v)
      | None \<Rightarrow>
          (case insert_identity (new_identity (s_id (lq_new_session rq)) (lq_user rq) (lq_identity rq) (lq_now rq)) s of
             Inl e \<Rightarrow> Inl (identityConstraintError e) | Inr v \<Rightarrow> Inr v))"

definition LinkIdentityAndRotate :: "time \<Rightarrow> link_request \<Rightarrow> (unit, store) txn" where
  "LinkIdentityAndRotate dbnow rq s =
     (case requireRecentSession (lq_user rq) (lq_session rq) (lq_now rq) s of
        Inl e \<Rightarrow> Inl e
      | Inr _ \<Rightarrow>
          (case link_identity rq s of
             Inl e \<Rightarrow> Inl e
           | Inr (_, s1) \<Rightarrow>
               (case rotateSession (lq_session rq) (lq_new_session rq) (lq_now rq) s1 of
                  Inl e \<Rightarrow> Inl e
                | Inr (_, s2) \<Rightarrow> Inr ((), audit_auth (lq_user rq) ''auth.identity_link''
                    (xi_provider (lq_identity rq)) (xi_subject (lq_identity rq)) dbnow s2))))"

definition ReauthenticateAndRotate :: "link_request \<Rightarrow> (unit, store) txn" where
  "ReauthenticateAndRotate rq s =
     (case query_row (\<lambda>r. identity_of (xi_issuer (lq_identity rq)) (xi_subject (lq_identity rq)) r
                          \<and> ai_disabled_at r = None) (auth_identities s) of
        None \<Rightarrow> Inl Auth_ErrIdentityConflict
      | Some r \<Rightarrow>
          if ai_user r \<noteq> lq_user rq then Inl Auth_ErrIdentityConflict
          else rotateSession (lq_session rq) (lq_new_session rq) (lq_now rq) s)"

text \<open>The first statement compares \<^verbatim>\<open>authenticated_at\<close> with \<^verbatim>\<open>$3-interval '10 minutes'\<close>; \<^verbatim>\<open>accepts\<close> says
  whether the server resolves that operator with the untyped \<^verbatim>\<open>$3\<close>.\<close>

definition UnlinkIdentityAndRotate :: "bool \<Rightarrow> time \<Rightarrow> unlink_request \<Rightarrow> (unit, store) txn" where
  "UnlinkIdentityAndRotate accepts dbnow rq s =
     (if \<not> accepts then Inl (StatementRejected ''operator does not exist: timestamp with time zone > interval'')
      else case query_row (\<lambda>r. s_id r = ul_session rq \<and> s_user r = ul_user rq \<and> s_revoked_at r = None
                   \<and> ul_now rq - 10 * Minute < s_authenticated_at r) (sessions s) of
        None \<Rightarrow> Inl Auth_ErrRecentAuth
      | Some r \<Rightarrow>
          if s_provider r = ul_provider rq then Inl Auth_ErrRecentAuth
          else if rows_affected (active_identity (ul_user rq)) (auth_identities s) < 2 then Inl Auth_ErrLastIdentity
          else
            let P = (\<lambda>a. active_identity (ul_user rq) a \<and> ai_provider a = ul_provider rq)
            in if rows_affected P (auth_identities s) \<noteq> 1 then Inl Auth_ErrLastIdentity
               else
                 let s1 = s\<lparr>auth_identities := sql_update P
                       (\<lambda>a. a\<lparr>ai_disabled_at := Some (ul_now rq), ai_cooldown_until := Some (ul_cooldown_until rq)\<rparr>)
                       (auth_identities s)\<rparr>;
                     s2 = revoke_sessions (\<lambda>q. s_user q = ul_user rq) (ul_now rq) s1
                 in case insertSession (ul_new_session rq) s2 of
                      Inl e \<Rightarrow> Inl e
                    | Inr (_, s3) \<Rightarrow> Inr ((), audit_auth (ul_user rq) ''auth.identity_unlink''
                        (ul_provider rq) (ul_provider rq) dbnow s3))"

definition ListIdentities :: "id \<Rightarrow> store \<Rightarrow> string list" where
  "ListIdentities user s = sort (map ai_provider (filter (active_identity user) (auth_identities s)))"

section \<open>The HTTP service\<close>

record attempt =
  ap_state :: string
  ap_nonce :: string
  ap_code_verifier :: string
  ap_code_challenge :: string

record provider =
  pv_name :: string
  pv_issuer :: string
  pv_authorization_url :: "attempt \<Rightarrow> string result"
  pv_exchange :: "string \<Rightarrow> string \<Rightarrow> string \<Rightarrow> external_identity result"

record service =
  sv_web_origin :: string
  sv_providers :: "provider list"

record request =
  rq_provider :: string
  rq_state :: string
  rq_error :: string
  rq_code :: string
  rq_return_to :: string
  rq_session_cookie :: "string option"
  rq_oauth_cookie :: "string option"
  rq_origin :: string
  rq_csrf_header :: string
  rq_csrf_form :: string

datatype reply_body =
    ErrorReply string                            \<comment> \<open>JSON error with its code\<close>
  | ErrorRedirect string                         \<comment> \<open>303 to /auth/error with its code\<close>
  | RedirectTo string                            \<comment> \<open>303\<close>
  | SessionReply id "string list" bool
  | NoContent

record reply =
  rp_status :: nat
  rp_body :: reply_body
  rp_cookies :: "(string \<times> string) list"        \<comment> \<open>an empty value clears the cookie\<close>

record session_credentials =
  cr_record :: session_record
  cr_token :: string
  cr_csrf :: string

definition SessionCookieName :: string where "SessionCookieName = ''__Host-plaiflow-session''"
definition CSRFCookieName :: string where "CSRFCookieName = ''__Host-plaiflow-csrf''"
definition OAuthCookieName :: string where "OAuthCookieName = ''__Host-plaiflow-oauth''"

lemmas cookie_names = SessionCookieName_def CSRFCookieName_def OAuthCookieName_def

subsection \<open>Randomness and identifiers\<close>

definition randomToken :: "bytes option \<Rightarrow> string result" where
  "randomToken r =
     (case r of None \<Rightarrow> Inl (OtherError ''secure random generation failed'')
      | Some value \<Rightarrow> Inr (EncodeToString value))"

definition NewAttempt :: "(bytes \<Rightarrow> bytes) \<Rightarrow> (nat \<Rightarrow> bytes option) \<Rightarrow> attempt result" where
  "NewAttempt hash rnd =
     (case randomToken (rnd 0) of
        Inl e \<Rightarrow> Inl e
      | Inr state \<Rightarrow>
          (case randomToken (rnd 1) of
             Inl e \<Rightarrow> Inl e
           | Inr nonce \<Rightarrow>
               (case randomToken (rnd 2) of
                  Inl e \<Rightarrow> Inl e
                | Inr verifier \<Rightarrow> Inr
                    \<lparr>ap_state = state, ap_nonce = nonce, ap_code_verifier = verifier,
                     ap_code_challenge = EncodeToString (hash verifier)\<rparr>)))"

text \<open>A random version 4 uuid: bytes 6 and 8 carry the version and the variant.\<close>

definition newID :: "bytes option \<Rightarrow> id" where
  "newID r =
     (case r of
        None \<Rightarrow> []
      | Some value \<Rightarrow>
          let v = value[6 := byte_char (byte (value ! 6) mod 16 + 64)];
              w = v[8 := byte_char (byte (v ! 8) mod 64 + 128)];
              encoded = hex_encode w
          in take 8 encoded @ ''-'' @ take 4 (drop 8 encoded) @ ''-'' @ take 4 (drop 12 encoded) @ ''-''
             @ take 4 (drop 16 encoded) @ ''-'' @ take 12 (drop 20 encoded))"

definition newSessionCredentials ::
  "(bytes \<Rightarrow> bytes) \<Rightarrow> (nat \<Rightarrow> bytes option) \<Rightarrow> id \<Rightarrow> string \<Rightarrow> time \<Rightarrow> session_credentials result" where
  "newSessionCredentials hash rnd user provider now =
     (case randomToken (rnd 0) of
        Inl e \<Rightarrow> Inl e
      | Inr token \<Rightarrow>
          (case randomToken (rnd 1) of
             Inl e \<Rightarrow> Inl e
           | Inr csrf \<Rightarrow> Inr
               \<lparr>cr_record = \<lparr>s_id = newID (rnd 2), s_user = user, s_token_hash = hash token,
                  s_csrf_hash = hash csrf, s_created_at = now, s_authenticated_at = now,
                  s_last_seen_at = now, s_idle_expires_at = now + 14 * Day,
                  s_absolute_expires_at = now + 30 * Day, s_provider = provider\<rparr>,
                cr_token = token, cr_csrf = csrf\<rparr>))"

subsection \<open>Return paths\<close>

definition hex_value :: "char \<Rightarrow> nat option" where
  "hex_value c = (let b = byte c in
     if 48 \<le> b \<and> b \<le> 57 then Some (b - 48) else if 97 \<le> b \<and> b \<le> 102 then Some (b - 87)
     else if 65 \<le> b \<and> b \<le> 70 then Some (b - 55) else None)"

fun unescape_path :: "bytes \<Rightarrow> bytes option" where
  "unescape_path [] = Some []"
| "unescape_path (c # cs) =
     (if c = CHR ''%'' then
        (case cs of
           a # b # rest \<Rightarrow>
             (case (hex_value a, hex_value b) of
                (Some x, Some y) \<Rightarrow> map_option (\<lambda>r. byte_char (x * 16 + y) # r) (unescape_path rest)
              | _ \<Rightarrow> None)
         | _ \<Rightarrow> None)
      else map_option (\<lambda>r. c # r) (unescape_path cs))"

text \<open>\<^verbatim>\<open>url.Parse\<close> of a string that starts with one slash: no scheme, host or user; control bytes and
  malformed escapes in the path are errors; the fragment is what follows the first \<^verbatim>\<open>#\<close>.  \<^verbatim>\<open>None\<close> is
  an error.\<close>

definition parse_path_url :: "bytes \<Rightarrow> (bytes \<times> bytes) option" where
  "parse_path_url value =
     (let main = takeWhile (\<lambda>c. c \<noteq> CHR ''#'') value;
          fragment = drop (length main + 1) value
      in if \<exists>c \<in> set main. byte c < 32 \<or> byte c = 127 then None
         else map_option (\<lambda>path. (path, fragment)) (unescape_path (takeWhile (\<lambda>c. c \<noteq> CHR ''?'') main)))"

definition allowed_return_prefixes :: "bytes list" where
  "allowed_return_prefixes = [''/setup'', ''/organizations'', ''/account'', ''/invite/'', ''/o/'']"

definition safeReturnPath :: "bytes \<Rightarrow> bytes option" where
  "safeReturnPath value =
     (if value = [] then Some ''/organizations''
      else if \<not> has_prefix value ''/'' \<or> has_prefix value ''//'' \<or> contains value [CHR 0x5C]
              \<or> contains (ascii_lower value) ''%2f'' \<or> contains (ascii_lower value) ''%5c'' then None
      else case parse_path_url value of
        None \<Rightarrow> None
      | Some (path, fragment) \<Rightarrow>
          if fragment \<noteq> [] \<or> contains path ''..'' then None
          else if list_ex (\<lambda>prefix. value = prefix \<or> has_prefix value prefix) allowed_return_prefixes
          then Some value else None)"

subsection \<open>Authentication of a request\<close>

definition Authenticate :: "(bytes \<Rightarrow> bytes) \<Rightarrow> time \<Rightarrow> request \<Rightarrow> (session, store) txn" where
  "Authenticate hash now rq s =
     (case rq_session_cookie rq of
        None \<Rightarrow> Inl Auth_ErrSession
      | Some value \<Rightarrow> if value = [] then Inl Auth_ErrSession else ResolveSession (hash value) now s)"

definition ValidMutation :: "(bytes \<Rightarrow> bytes) \<Rightarrow> service \<Rightarrow> request \<Rightarrow> session \<Rightarrow> bool" where
  "ValidMutation hash sv rq session =
     (if rq_origin rq \<noteq> sv_web_origin sv then False
      else let csrf = (if rq_csrf_header rq = [] then rq_csrf_form rq else rq_csrf_header rq)
           in csrf \<noteq> [] \<and> hash csrf = se_csrf_hash session)"

text \<open>\<^verbatim>\<open>NewService\<close> fills a map from names; a later provider of the same name replaces an earlier one.\<close>

definition find_provider :: "service \<Rightarrow> string \<Rightarrow> provider option" where
  "find_provider sv name = List.find (\<lambda>p. pv_name p = name) (rev (sv_providers sv))"

definition writeAuthError :: "nat \<Rightarrow> string \<Rightarrow> reply" where
  "writeAuthError status code = \<lparr>rp_status = status, rp_body = ErrorReply code, rp_cookies = []\<rparr>"

definition errorRedirect :: "string \<Rightarrow> reply" where
  "errorRedirect code = \<lparr>rp_status = 303, rp_body = ErrorRedirect code, rp_cookies = []\<rparr>"

definition session_cookies :: "session_credentials \<Rightarrow> (string \<times> string) list" where
  "session_cookies c = [(SessionCookieName, cr_token c), (CSRFCookieName, cr_csrf c)]"

definition cleared_session_cookies :: "(string \<times> string) list" where
  "cleared_session_cookies = [(SessionCookieName, []), (CSRFCookieName, [])]"

definition errorCode :: "err \<Rightarrow> string" where
  "errorCode e =
     (if e = Auth_ErrIdentityConflict then ''identity_conflict''
      else if e = Auth_ErrLastIdentity then ''last_identity''
      else if e = Auth_ErrRecentAuth then ''recent_auth_required''
      else ''provider_unavailable'')"

subsection \<open>Handlers\<close>

definition beginAuthorization ::
  "(bytes \<Rightarrow> bytes) \<Rightarrow> service \<Rightarrow> (nat \<Rightarrow> bytes option) \<Rightarrow> time \<Rightarrow> request \<Rightarrow> string \<Rightarrow> session option
     \<Rightarrow> store \<Rightarrow> reply \<times> store" where
  "beginAuthorization hash sv rnd now rq purpose session s =
     (case find_provider sv (rq_provider rq) of
        None \<Rightarrow> (errorRedirect ''provider_unavailable'', s)
      | Some provider \<Rightarrow>
          (case safeReturnPath (rq_return_to rq) of
             None \<Rightarrow> (errorRedirect ''invalid_return'', s)
           | Some returnTo \<Rightarrow>
               (case NewAttempt hash rnd of
                  Inl _ \<Rightarrow> (errorRedirect ''provider_unavailable'', s)
                | Inr attempt \<Rightarrow>
                    (case randomToken (rnd 3) of
                       Inl _ \<Rightarrow> (errorRedirect ''provider_unavailable'', s)
                     | Inr browserSecret \<Rightarrow>
                         let transaction =
                           \<lparr>at_state_hash = hash (ap_state attempt), at_browser_hash = hash browserSecret,
                            at_provider = pv_name provider, at_issuer = pv_issuer provider,
                            at_purpose = purpose, at_nonce = ap_nonce attempt,
                            at_code_verifier = ap_code_verifier attempt, at_return_to = returnTo,
                            at_user = (case session of None \<Rightarrow> [] | Some x \<Rightarrow> se_user x),
                            at_session = (case session of None \<Rightarrow> [] | Some x \<Rightarrow> se_id x),
                            at_created_at = now, at_expires_at = now + 10 * Minute\<rparr>
                         in case CreateAuthTransaction transaction s of
                              Inl _ \<Rightarrow> (errorRedirect ''provider_unavailable'', s)
                            | Inr (_, s1) \<Rightarrow>
                                (case pv_authorization_url provider attempt of
                                   Inl _ \<Rightarrow> (errorRedirect ''provider_unavailable'', s1)
                                 | Inr location \<Rightarrow>
                                     (\<lparr>rp_status = 303, rp_body = RedirectTo location,
                                       rp_cookies = [(OAuthCookieName, browserSecret)]\<rparr>, s1))))))"

definition startLogin ::
  "(bytes \<Rightarrow> bytes) \<Rightarrow> service \<Rightarrow> (nat \<Rightarrow> bytes option) \<Rightarrow> time \<Rightarrow> request \<Rightarrow> store \<Rightarrow> reply \<times> store" where
  "startLogin hash sv rnd now rq s = beginAuthorization hash sv rnd now rq PurposeLogin None s"

definition startProtected ::
  "(bytes \<Rightarrow> bytes) \<Rightarrow> service \<Rightarrow> (nat \<Rightarrow> bytes option) \<Rightarrow> (nat \<Rightarrow> time) \<Rightarrow> request \<Rightarrow> string \<Rightarrow> store
     \<Rightarrow> reply \<times> store" where
  "startProtected hash sv rnd clock rq purpose s =
     (case Authenticate hash (clock 0) rq s of
        Inl _ \<Rightarrow> (writeAuthError 401 ''unauthorized'', s)
      | Inr (session, s1) \<Rightarrow>
          if \<not> ValidMutation hash sv rq session then (writeAuthError 403 ''csrf_rejected'', s1)
          else if clock 1 - se_authenticated_at session > 10 * Minute
          then (writeAuthError 403 ''recent_auth_required'', s1)
          else beginAuthorization hash sv rnd (clock 2) rq purpose (Some session) s1)"

text \<open>The callback.  Readings of the clock: 0 for consuming the attempt, 1 for the identity, 2 for the
  session of the request.  Random reads: 0 and 1 for new user and identity, from 2 for credentials.\<close>

definition callback_login ::
  "(bytes \<Rightarrow> bytes) \<Rightarrow> (nat \<Rightarrow> bytes option) \<Rightarrow> time \<Rightarrow> time \<Rightarrow> external_identity \<Rightarrow> string \<Rightarrow> store
     \<Rightarrow> reply \<times> store" where
  "callback_login hash rnd dbnow now identity return_to s =
     (case Login dbnow identity (newID (rnd 0)) (newID (rnd 1)) now s of
        Inl _ \<Rightarrow> (errorRedirect ''identity_conflict'', s)
      | Inr (result, s1) \<Rightarrow>
          (case newSessionCredentials hash (\<lambda>i. rnd (i + 2)) (lr_user result) (xi_provider identity) now of
             Inl _ \<Rightarrow> (errorRedirect ''provider_unavailable'', s1)
           | Inr credentials \<Rightarrow>
               (case CreateSession (cr_record credentials) s1 of
                  Inl _ \<Rightarrow> (errorRedirect ''provider_unavailable'', s1)
                | Inr (_, s2) \<Rightarrow>
                    (\<lparr>rp_status = 303, rp_body = RedirectTo return_to,
                      rp_cookies = session_cookies credentials @ [(OAuthCookieName, [])]\<rparr>, s2))))"

definition callback_link ::
  "(bytes \<Rightarrow> bytes) \<Rightarrow> (nat \<Rightarrow> bytes option) \<Rightarrow> time \<Rightarrow> time \<Rightarrow> time \<Rightarrow> request \<Rightarrow> external_identity
     \<Rightarrow> auth_transaction \<Rightarrow> store \<Rightarrow> reply \<times> store" where
  "callback_link hash rnd dbnow now auth_now rq identity t s =
     (case Authenticate hash auth_now rq s of
        Inl _ \<Rightarrow> (errorRedirect ''expired_attempt'', s)
      | Inr (session, s1) \<Rightarrow>
          if se_user session \<noteq> at_user t \<or> se_id session \<noteq> at_session t
          then (errorRedirect ''expired_attempt'', s1)
          else case newSessionCredentials hash (\<lambda>i. rnd (i + 2)) (se_user session) (xi_provider identity) now of
            Inl _ \<Rightarrow> (errorRedirect ''provider_unavailable'', s1)
          | Inr credentials \<Rightarrow>
              let request = \<lparr>lq_user = se_user session, lq_session = se_id session, lq_identity = identity,
                             lq_new_session = cr_record credentials, lq_now = now\<rparr>
              in case (if at_purpose t = PurposeLink then LinkIdentityAndRotate dbnow request s1
                       else ReauthenticateAndRotate request s1) of
                   Inl e \<Rightarrow> (errorRedirect (errorCode e), s1)
                 | Inr (_, s2) \<Rightarrow>
                     (\<lparr>rp_status = 303, rp_body = RedirectTo (at_return_to t),
                       rp_cookies = session_cookies credentials @ [(OAuthCookieName, [])]\<rparr>, s2))"

definition callback ::
  "(bytes \<Rightarrow> bytes) \<Rightarrow> service \<Rightarrow> (nat \<Rightarrow> bytes option) \<Rightarrow> time \<Rightarrow> (nat \<Rightarrow> time) \<Rightarrow> request \<Rightarrow> store
     \<Rightarrow> reply \<times> store" where
  "callback hash sv rnd dbnow clock rq s =
     (case ConsumeAuthTransaction (hash (rq_state rq)) (clock 0) s of
        Inl _ \<Rightarrow> (errorRedirect ''expired_attempt'', s)
      | Inr (t, s1) \<Rightarrow>
          if rq_state rq = [] then (errorRedirect ''expired_attempt'', s1)
          else case find_provider sv (rq_provider rq) of
            None \<Rightarrow> (errorRedirect ''identity_conflict'', s1)
          | Some provider \<Rightarrow>
              if at_provider t \<noteq> pv_name provider \<or> at_issuer t \<noteq> pv_issuer provider
              then (errorRedirect ''identity_conflict'', s1)
              else case rq_oauth_cookie rq of
                None \<Rightarrow> (errorRedirect ''expired_attempt'', s1)
              | Some browser \<Rightarrow>
                  if hash browser \<noteq> at_browser_hash t then (errorRedirect ''expired_attempt'', s1)
                  else if rq_error rq \<noteq> [] then (errorRedirect ''access_denied'', s1)
                  else case pv_exchange provider (rq_code rq) (at_code_verifier t) (at_nonce t) of
                    Inl _ \<Rightarrow> (errorRedirect ''provider_unavailable'', s1)
                  | Inr identity \<Rightarrow>
                      if xi_provider identity \<noteq> pv_name provider \<or> xi_issuer identity \<noteq> pv_issuer provider
                         \<or> xi_subject identity = []
                      then (errorRedirect ''provider_unavailable'', s1)
                      else if at_purpose t = PurposeLogin
                      then callback_login hash rnd dbnow (clock 1) identity (at_return_to t) s1
                      else if at_purpose t = PurposeLink \<or> at_purpose t = PurposeReauth
                      then callback_link hash rnd dbnow (clock 1) (clock 2) rq identity t s1
                      else (errorRedirect ''identity_conflict'', s1))"

definition currentSession ::
  "(bytes \<Rightarrow> bytes) \<Rightarrow> (nat \<Rightarrow> time) \<Rightarrow> request \<Rightarrow> store \<Rightarrow> reply \<times> store" where
  "currentSession hash clock rq s =
     (case Authenticate hash (clock 0) rq s of
        Inl _ \<Rightarrow> (writeAuthError 401 ''unauthorized'', s)
      | Inr (session, s1) \<Rightarrow>
          (\<lparr>rp_status = 200, rp_body = SessionReply (se_user session) (ListIdentities (se_user session) s1)
              (clock 1 - se_authenticated_at session \<le> 10 * Minute), rp_cookies = []\<rparr>, s1))"

text \<open>What \<^verbatim>\<open>logout\<close> and \<^verbatim>\<open>logoutAll\<close> share: an authenticated request with a valid CSRF token.\<close>

definition authenticated_mutation ::
  "(bytes \<Rightarrow> bytes) \<Rightarrow> service \<Rightarrow> time \<Rightarrow> request \<Rightarrow> store \<Rightarrow> (session \<Rightarrow> store \<Rightarrow> reply \<times> store) \<Rightarrow> reply \<times> store" where
  "authenticated_mutation hash sv now rq s k =
     (case Authenticate hash now rq s of
        Inl _ \<Rightarrow> (writeAuthError 401 ''unauthorized'', s)
      | Inr (session, s1) \<Rightarrow>
          if \<not> ValidMutation hash sv rq session then (writeAuthError 403 ''csrf_rejected'', s1)
          else k session s1)"

definition logout ::
  "(bytes \<Rightarrow> bytes) \<Rightarrow> service \<Rightarrow> (nat \<Rightarrow> time) \<Rightarrow> request \<Rightarrow> store \<Rightarrow> reply \<times> store" where
  "logout hash sv clock rq s =
     authenticated_mutation hash sv (clock 0) rq s (\<lambda>session s1.
       case RevokeSession (se_id session) (clock 1) s1 of
         Inl _ \<Rightarrow> (writeAuthError 503 ''session_unavailable'', s1)
       | Inr (_, s2) \<Rightarrow> (\<lparr>rp_status = 204, rp_body = NoContent, rp_cookies = cleared_session_cookies\<rparr>, s2))"

definition logoutAll ::
  "(bytes \<Rightarrow> bytes) \<Rightarrow> service \<Rightarrow> (nat \<Rightarrow> time) \<Rightarrow> request \<Rightarrow> store \<Rightarrow> reply \<times> store" where
  "logoutAll hash sv clock rq s =
     authenticated_mutation hash sv (clock 0) rq s (\<lambda>session s1.
       case RevokeUserSessions (se_user session) (clock 1) s1 of
         Inl _ \<Rightarrow> (writeAuthError 503 ''session_unavailable'', s1)
       | Inr (_, s2) \<Rightarrow> (\<lparr>rp_status = 204, rp_body = NoContent, rp_cookies = cleared_session_cookies\<rparr>, s2))"

definition unlink ::
  "(bytes \<Rightarrow> bytes) \<Rightarrow> service \<Rightarrow> (nat \<Rightarrow> bytes option) \<Rightarrow> bool \<Rightarrow> time \<Rightarrow> (nat \<Rightarrow> time) \<Rightarrow> request \<Rightarrow> store
     \<Rightarrow> reply \<times> store" where
  "unlink hash sv rnd accepts dbnow clock rq s =
     authenticated_mutation hash sv (clock 0) rq s (\<lambda>session s1.
       if find_provider sv (rq_provider rq) = None then (writeAuthError 404 ''provider_unavailable'', s1)
       else case newSessionCredentials hash rnd (se_user session) (se_provider session) (clock 1) of
         Inl _ \<Rightarrow> (writeAuthError 503 ''session_unavailable'', s1)
       | Inr credentials \<Rightarrow>
           (case UnlinkIdentityAndRotate accepts dbnow
                   \<lparr>ul_user = se_user session, ul_session = se_id session, ul_provider = rq_provider rq,
                    ul_new_session = cr_record credentials, ul_now = clock 2,
                    ul_cooldown_until = clock 3 + 30 * Day\<rparr> s1 of
              Inl e \<Rightarrow> (writeAuthError 409 (errorCode e), s1)
            | Inr (_, s2) \<Rightarrow>
                (\<lparr>rp_status = 204, rp_body = NoContent, rp_cookies = session_cookies credentials\<rparr>, s2)))"

section \<open>How the tables evolve\<close>

text \<open>Every operation changes the sessions in one way: existing rows keep their identifier, token and
  user and never lose a revocation, and at most one row with a fresh identifier and token is added.
  Attempts evolve in the same way, with consumption in place of revocation.\<close>

definition sessions_evolve :: "store \<Rightarrow> store \<Rightarrow> bool" where
  "sessions_evolve s s' =
     (\<exists>g new. sessions s' = map g (sessions s) @ new
        \<and> (\<forall>r. s_id (g r) = s_id r \<and> s_token_hash (g r) = s_token_hash r \<and> s_user (g r) = s_user r
              \<and> (s_revoked_at r \<noteq> None \<longrightarrow> s_revoked_at (g r) \<noteq> None))
        \<and> (new = [] \<or> (\<exists>n. new = [n] \<and> (\<forall>q \<in> set (sessions s).
              s_id q \<noteq> s_id n \<and> s_token_hash q \<noteq> s_token_hash n))))"

definition attempts_evolve :: "store \<Rightarrow> store \<Rightarrow> bool" where
  "attempts_evolve s s' =
     (\<exists>g new. auth_transactions s' = map g (auth_transactions s) @ new
        \<and> (\<forall>r. at_state_hash (g r) = at_state_hash r
              \<and> (at_consumed_at r \<noteq> None \<longrightarrow> at_consumed_at (g r) \<noteq> None))
        \<and> (new = [] \<or> (\<exists>n. new = [n] \<and> (\<forall>q \<in> set (auth_transactions s). at_state_hash q \<noteq> at_state_hash n))))"

abbreviation identity_key :: "identity_row \<Rightarrow> (string \<times> string) option" where
  "identity_key a \<equiv> Some (ai_issuer a, ai_subject a)"

definition active_key :: "identity_row \<Rightarrow> (id \<times> string) option" where
  "active_key a = (if ai_disabled_at a = None then Some (ai_user a, ai_provider a) else None)"

definition identities_ok :: "store \<Rightarrow> bool" where
  "identities_ok s = (unique_on identity_key (auth_identities s) \<and> unique_on active_key (auth_identities s))"

definition sessions_ok :: "store \<Rightarrow> bool" where
  "sessions_ok s = (unique_on (\<lambda>r. Some (s_id r)) (sessions s) \<and> unique_on (\<lambda>r. Some (s_token_hash r)) (sessions s))"

lemma session_extend_simps [simp]:
  "s_id (session_record.extend r m) = s_id r" "s_user (session_record.extend r m) = s_user r"
  "s_token_hash (session_record.extend r m) = s_token_hash r"
  "s_revoked_at (session_record.extend r \<lparr>s_revoked_at = v\<rparr>) = v"
  "s_absolute_expires_at (session_record.extend r m) = s_absolute_expires_at r"
  "s_idle_expires_at (session_record.extend r m) = s_idle_expires_at r"
  by (simp_all add: session_record.defs)

lemma attempt_extend_simps [simp]:
  "at_state_hash (auth_transaction.extend t m) = at_state_hash t"
  "at_consumed_at (auth_transaction.extend t \<lparr>at_consumed_at = v\<rparr>) = v"
  by (simp_all add: auth_transaction.defs)

lemma audit_auth_simps [simp]:
  "sessions (audit_auth a b c d e s) = sessions s"
  "auth_transactions (audit_auth a b c d e s) = auth_transactions s"
  "auth_identities (audit_auth a b c d e s) = auth_identities s"
  "users (audit_auth a b c d e s) = users s"
  by (simp_all add: audit_auth_def)

lemma revoke_sessions_simps [simp]:
  "auth_transactions (revoke_sessions P now s) = auth_transactions s"
  "auth_identities (revoke_sessions P now s) = auth_identities s"
  "users (revoke_sessions P now s) = users s"
  by (simp_all add: revoke_sessions_def)

lemma sessions_evolve_same [intro]: "sessions s' = sessions s \<Longrightarrow> sessions_evolve s s'"
  unfolding sessions_evolve_def by (intro exI [of _ id] exI [of _ "[]"]) simp

lemma attempts_evolve_same [intro]: "auth_transactions s' = auth_transactions s \<Longrightarrow> attempts_evolve s s'"
  unfolding attempts_evolve_def by (intro exI [of _ id] exI [of _ "[]"]) simp

lemma sessions_evolve_update:
  assumes "sessions s' = sql_update P f (sessions s)"
    and "\<And>r. P r \<Longrightarrow> s_id (f r) = s_id r \<and> s_token_hash (f r) = s_token_hash r \<and> s_user (f r) = s_user r
            \<and> (s_revoked_at r \<noteq> None \<longrightarrow> s_revoked_at (f r) \<noteq> None)"
  shows "sessions_evolve s s'"
  unfolding sessions_evolve_def
  by (intro exI [of _ "\<lambda>r. if P r then f r else r"] exI [of _ "[]"]) (use assms in \<open>auto simp: sql_update_def\<close>)

lemma insertSession_InrD:
  assumes "insertSession r s = Inr (u, s')"
  shows "sessions s' = sessions s @ [session_record.extend r \<lparr>s_revoked_at = None\<rparr>]"
    and "\<forall>q \<in> set (sessions s). s_id q \<noteq> s_id r \<and> s_token_hash q \<noteq> s_token_hash r"
    and "auth_transactions s' = auth_transactions s" "auth_identities s' = auth_identities s"
    and "session_check r"
  using assms by (auto simp: insertSession_def row_exists_iff split: if_splits)

lemma insert_evolves: "insertSession r s = Inr (u, s') \<Longrightarrow> sessions_evolve s s'"
  unfolding sessions_evolve_def
  by (intro exI [of _ id] exI [of _ "[session_record.extend r \<lparr>s_revoked_at = None\<rparr>]"])
    (auto dest: insertSession_InrD)

text \<open>Revoking some rows and inserting the new session, as rotation and unlinking do.\<close>

lemma revoke_insert_evolves:
  assumes "insertSession r (revoke_sessions P now s) = Inr (u, s')"
  shows "sessions_evolve s s'"
proof -
  let ?g = "\<lambda>q. if P q \<and> s_revoked_at q = None then q\<lparr>s_revoked_at := Some now\<rparr> else q"
  note ins = insertSession_InrD [OF assms]
  have rows: "sessions (revoke_sessions P now s) = map ?g (sessions s)"
    by (simp add: revoke_sessions_def sql_update_def)
  have fresh: "s_id q \<noteq> s_id r \<and> s_token_hash q \<noteq> s_token_hash r" if "q \<in> set (sessions s)" for q
  proof -
    have "s_id (?g q) \<noteq> s_id r \<and> s_token_hash (?g q) \<noteq> s_token_hash r"
      using that ins(2) unfolding rows by (metis (no_types, lifting) image_eqI list.set_map)
    then show ?thesis by (simp split: if_splits)
  qed
  show ?thesis
    unfolding sessions_evolve_def
    by (intro exI [of _ ?g] exI [of _ "[session_record.extend r \<lparr>s_revoked_at = None\<rparr>]"])
      (use ins(1) fresh in \<open>auto simp: rows\<close>)
qed

lemma sessions_evolve_ok:
  assumes "sessions_evolve s s'" "sessions_ok s" shows "sessions_ok s'"
proof -
  obtain g new where e: "sessions s' = map g (sessions s) @ new"
    "\<And>r. s_id (g r) = s_id r \<and> s_token_hash (g r) = s_token_hash r"
    "new = [] \<or> (\<exists>n. new = [n] \<and> (\<forall>q \<in> set (sessions s). s_id q \<noteq> s_id n \<and> s_token_hash q \<noteq> s_token_hash n))"
    using assms(1) unfolding sessions_evolve_def by blast
  have "unique_on (\<lambda>r. Some (s_id r)) (map g (sessions s))" "unique_on (\<lambda>r. Some (s_token_hash r)) (map g (sessions s))"
    using assms(2) e(2) by (auto simp: sessions_ok_def intro!: unique_on_map_shrink)
  then show ?thesis
    using e by (auto simp: sessions_ok_def intro!: unique_on_append1) (auto simp: conflicts_def list_ex_iff)
qed

definition dead_session :: "bytes \<Rightarrow> store \<Rightarrow> bool" where
  "dead_session th s = ((\<exists>r \<in> set (sessions s). s_token_hash r = th)
     \<and> (\<forall>r \<in> set (sessions s). s_token_hash r = th \<longrightarrow> s_revoked_at r \<noteq> None))"

definition dead_attempt :: "bytes \<Rightarrow> store \<Rightarrow> bool" where
  "dead_attempt h s = ((\<exists>r \<in> set (auth_transactions s). at_state_hash r = h)
     \<and> (\<forall>r \<in> set (auth_transactions s). at_state_hash r = h \<longrightarrow> at_consumed_at r \<noteq> None))"

lemma dead_session_evolve: "sessions_evolve s s' \<Longrightarrow> dead_session th s \<Longrightarrow> dead_session th s'"
  unfolding sessions_evolve_def dead_session_def by (elim exE conjE disjE) auto

lemma dead_attempt_evolve: "attempts_evolve s s' \<Longrightarrow> dead_attempt h s \<Longrightarrow> dead_attempt h s'"
  unfolding attempts_evolve_def dead_attempt_def by (elim exE conjE disjE) auto

lemma dead_session_rejected:
  assumes "dead_session th s" shows "ResolveSession th now s = Inl Auth_ErrSession"
proof -
  have "query_row (live_session th now) (sessions s) = None"
    unfolding query_row_None_iff using assms by (auto simp: dead_session_def live_session_def)
  then show ?thesis by (simp add: ResolveSession_def)
qed

lemma dead_attempt_rejected:
  assumes "dead_attempt h s" shows "ConsumeAuthTransaction h now s = Inl Auth_ErrAuthTransaction"
proof -
  have "query_row (consumable h now) (auth_transactions s) = None"
    unfolding query_row_None_iff using assms by (auto simp: dead_attempt_def consumable_def)
  then show ?thesis by (simp add: ConsumeAuthTransaction_def)
qed

section \<open>Operation by operation\<close>

lemma CreateAuthTransaction_evolves:
  assumes "CreateAuthTransaction t s = Inr (u, s')"
  shows "sessions_evolve s s'" "attempts_evolve s s'" "auth_identities s' = auth_identities s"
proof -
  have s': "s' = s\<lparr>auth_transactions := auth_transactions s @ [auth_transaction.extend t \<lparr>at_consumed_at = None\<rparr>]\<rparr>"
    and fresh: "\<forall>q \<in> set (auth_transactions s). at_state_hash q \<noteq> at_state_hash t"
    using assms by (auto simp: CreateAuthTransaction_def row_exists_iff split: if_splits)
  show "sessions_evolve s s'" "auth_identities s' = auth_identities s" by (auto simp: s')
  show "attempts_evolve s s'"
    unfolding attempts_evolve_def
    by (intro exI [of _ id] exI [of _ "[auth_transaction.extend t \<lparr>at_consumed_at = None\<rparr>]"])
      (use fresh in \<open>simp add: s'\<close>)
qed

lemma ConsumeAuthTransaction_InrD:
  assumes "ConsumeAuthTransaction h now s = Inr (t, s')"
  obtains r where "r \<in> set (auth_transactions s)" "consumable h now r" "t = auth_transaction.truncate r"
    "s' = s\<lparr>auth_transactions := sql_update (consumable h now) (\<lambda>r. r\<lparr>at_consumed_at := Some now\<rparr>) (auth_transactions s)\<rparr>"
  using assms by (auto simp: ConsumeAuthTransaction_def split: option.splits dest!: query_row_SomeD)

lemma ConsumeAuthTransaction_evolves:
  assumes "ConsumeAuthTransaction h now s = Inr (t, s')"
  shows "sessions_evolve s s'" "attempts_evolve s s'" "auth_identities s' = auth_identities s"
proof -
  show "sessions_evolve s s'" "auth_identities s' = auth_identities s"
    using assms by (auto elim!: ConsumeAuthTransaction_InrD)
  show "attempts_evolve s s'"
    unfolding attempts_evolve_def
    by (intro exI [of _ "\<lambda>r. if consumable h now r then r\<lparr>at_consumed_at := Some now\<rparr> else r"] exI [of _ "[]"])
      (use assms in \<open>auto elim!: ConsumeAuthTransaction_InrD simp: sql_update_def\<close>)
qed

lemma ConsumeAuthTransaction_dead:
  assumes "ConsumeAuthTransaction h now s = Inr (t, s')"
    and "unique_on (\<lambda>r. Some (at_state_hash r)) (auth_transactions s)"
  shows "dead_attempt h s'"
  using assms(1)
proof (rule ConsumeAuthTransaction_InrD)
  fix r assume r: "r \<in> set (auth_transactions s)" "consumable h now r" and
    s': "s' = s\<lparr>auth_transactions := sql_update (consumable h now) (\<lambda>r. r\<lparr>at_consumed_at := Some now\<rparr>) (auth_transactions s)\<rparr>"
  have "q = r" if "q \<in> set (auth_transactions s)" "at_state_hash q = h" for q
    using unique_onD [OF assms(2) that(1) r(1), of h] that(2) r(2) by (simp add: consumable_def)
  moreover have "\<exists>q \<in> set (auth_transactions s'). at_state_hash q = h"
    using r by (intro bexI [of _ "r\<lparr>at_consumed_at := Some now\<rparr>"]) (auto simp: s' set_sql_update consumable_def)
  moreover have "at_consumed_at q \<noteq> None" if "q \<in> set (auth_transactions s')" "at_state_hash q = h" for q
  proof -
    have "q \<in> set (sql_update (consumable h now) (\<lambda>r. r\<lparr>at_consumed_at := Some now\<rparr>) (auth_transactions s))"
      using that(1) by (simp add: s')
    then show ?thesis
    proof (cases rule: sql_updateE)
      case kept
      then show ?thesis using calculation(1) that(2) r by blast
    qed simp
  qed
  ultimately show ?thesis unfolding dead_attempt_def by blast
qed

lemma attempts_evolve_ok:
  assumes "attempts_evolve s s'" "unique_on (\<lambda>r. Some (at_state_hash r)) (auth_transactions s)"
  shows "unique_on (\<lambda>r. Some (at_state_hash r)) (auth_transactions s')"
proof -
  obtain g new where e: "auth_transactions s' = map g (auth_transactions s) @ new"
    "\<And>r. at_state_hash (g r) = at_state_hash r"
    "new = [] \<or> (\<exists>n. new = [n] \<and> (\<forall>q \<in> set (auth_transactions s). at_state_hash q \<noteq> at_state_hash n))"
    using assms(1) unfolding attempts_evolve_def by blast
  have "unique_on (\<lambda>r. Some (at_state_hash r)) (map g (auth_transactions s))"
    using assms(2) e(2) by (intro unique_on_map_shrink) auto
  then show ?thesis using e by (auto intro!: unique_on_append1) (auto simp: conflicts_def list_ex_iff)
qed

lemma ResolveSession_InrD:
  assumes "ResolveSession th now s = Inr (x, s')"
  obtains r where "r \<in> set (sessions s)" "live_session th now r" "se_id x = s_id r" "se_user x = s_user r"
    "sessions_evolve s s'" "auth_transactions s' = auth_transactions s" "auth_identities s' = auth_identities s"
    "users s' = users s"
proof -
  obtain r where r: "query_row (live_session th now) (sessions s) = Some r"
    using assms by (auto simp: ResolveSession_def split: option.splits)
  have x: "se_id x = s_id r" "se_user x = s_user r"
    using assms r by (auto simp: ResolveSession_def session_of_def Let_def split: if_splits)
  have "sessions_evolve s s'"
  proof (cases "s_last_seen_at r \<le> now - 5 * Minute")
    case True
    show ?thesis
      by (rule sessions_evolve_update [where P = "\<lambda>q. s_id q = s_id r \<and> s_last_seen_at q \<le> now - 5 * Minute"])
        (use assms r True in \<open>auto simp: ResolveSession_def Let_def\<close>)
  qed (use assms r in \<open>auto simp: ResolveSession_def\<close>)
  moreover have "auth_transactions s' = auth_transactions s \<and> auth_identities s' = auth_identities s \<and> users s' = users s"
    using assms r by (auto simp: ResolveSession_def Let_def split: if_splits)
  ultimately show thesis using that r x query_row_SomeD [OF r] by blast
qed

lemma revoke_evolves: "sessions_evolve s (revoke_sessions P now s)"
  by (rule sessions_evolve_update [where P = "\<lambda>r. P r \<and> s_revoked_at r = None"
        and f = "\<lambda>r. r\<lparr>s_revoked_at := Some now\<rparr>"]) (auto simp: revoke_sessions_def)

lemma insert_identity_InrD:
  assumes "insert_identity r s = Inr (u, s')"
  shows "s' = s\<lparr>auth_identities := auth_identities s @ [r]\<rparr>"
    and "\<forall>q \<in> set (auth_identities s). \<not> identity_of (ai_issuer r) (ai_subject r) q"
    and "\<forall>q \<in> set (auth_identities s). \<not> (active_identity (ai_user r) q \<and> ai_provider q = ai_provider r)"
  using assms by (auto simp: insert_identity_def row_exists_iff split: if_splits)

lemma insert_identity_ok:
  assumes "insert_identity r s = Inr (u, s')" "identities_ok s" shows "identities_ok s'"
proof -
  note ins = insert_identity_InrD [OF assms(1)]
  have "\<not> conflicts identity_key r (auth_identities s)"
    using ins(2) by (auto simp: conflicts_def list_ex_iff identity_of_def)
  moreover have "\<not> conflicts active_key r (auth_identities s)"
    using ins(3) by (auto simp: conflicts_def list_ex_iff active_key_def active_identity_def split: if_splits)
  ultimately show ?thesis
    using assms(2) by (simp add: ins(1) identities_ok_def unique_on_append1)
qed

lemma enable_identity_InrD:
  assumes "enable_identity x now s = Inr (u, s')"
  shows "\<exists>f. s' = s\<lparr>auth_identities := sql_update (identity_of (xi_issuer x) (xi_subject x)) f (auth_identities s)\<rparr>
     \<and> (\<forall>r. ai_disabled_at (f r) = None \<and> ai_user (f r) = ai_user r \<and> ai_provider (f r) = ai_provider r
           \<and> ai_issuer (f r) = ai_issuer r \<and> ai_subject (f r) = ai_subject r)
     \<and> (\<forall>r \<in> set (auth_identities s). identity_of (xi_issuer x) (xi_subject x) r \<longrightarrow>
          (\<forall>q \<in> set (auth_identities s). \<not> identity_of (xi_issuer x) (xi_subject x) q \<longrightarrow>
             \<not> (active_identity (ai_user r) q \<and> ai_provider q = ai_provider r)))"
  using assms unfolding enable_identity_def Let_def
  by (intro exI conjI) (auto simp: row_exists_iff split: if_splits)

lemma enable_identity_ok:
  assumes "enable_identity x now s = Inr (u, s')" "identities_ok s" shows "identities_ok s'"
proof -
  let ?P = "identity_of (xi_issuer x) (xi_subject x)"
  obtain f where s': "s' = s\<lparr>auth_identities := sql_update ?P f (auth_identities s)\<rparr>"
    and f: "\<And>r. ai_disabled_at (f r) = None \<and> ai_user (f r) = ai_user r \<and> ai_provider (f r) = ai_provider r
           \<and> ai_issuer (f r) = ai_issuer r \<and> ai_subject (f r) = ai_subject r"
    and other: "\<And>r q. \<lbrakk>r \<in> set (auth_identities s); ?P r; q \<in> set (auth_identities s); \<not> ?P q\<rbrakk> \<Longrightarrow>
             \<not> (active_identity (ai_user r) q \<and> ai_provider q = ai_provider r)"
    using enable_identity_InrD [OF assms(1)] by blast
  have "unique_on identity_key (auth_identities s')"
    using assms(2) f by (simp add: s' identities_ok_def unique_on_update_shrink)
  moreover have "unique_on active_key (auth_identities s')"
    unfolding s' using assms(2) f other
    by (simp add: identities_ok_def)
      (rule unique_on_update_one [where pk = identity_key and k = "(xi_issuer x, xi_subject x)"];
       auto simp: identity_of_def active_key_def active_identity_def split: if_splits)
  ultimately show ?thesis by (simp add: identities_ok_def)
qed

definition owns_identity :: "id \<Rightarrow> external_identity \<Rightarrow> store \<Rightarrow> bool" where
  "owns_identity user x s =
     (\<exists>a \<in> set (auth_identities s). identity_of (xi_issuer x) (xi_subject x) a \<and> active_identity user a)"

lemma findLogin_SomeD:
  assumes "findLogin x s = Inr (Some r)"
  shows "owns_identity (lr_user r) x s" "lr_created r = False"
  using assms
  by (auto simp: findLogin_def owns_identity_def active_identity_def split: option.splits if_splits
      dest!: query_row_SomeD)

lemma new_identity_simps [simp]:
  "ai_id (new_identity i u x t) = i" "ai_user (new_identity i u x t) = u" "ai_issuer (new_identity i u x t) = xi_issuer x"
  "ai_subject (new_identity i u x t) = xi_subject x" "ai_provider (new_identity i u x t) = xi_provider x"
  "ai_disabled_at (new_identity i u x t) = None"
  by (simp_all add: new_identity_def)

lemma insert_new_identity_owns:
  assumes "insert_identity (new_identity i u x t) s = Inr (v, s')"
  shows "owns_identity u x s'"
  unfolding owns_identity_def insert_identity_InrD(1) [OF assms]
  by (intro bexI [of _ "new_identity i u x t"]) (simp_all add: identity_of_def active_identity_def)

lemma owns_identity_cong: "auth_identities s' = auth_identities s \<Longrightarrow> owns_identity u x s' = owns_identity u x s"
  by (simp add: owns_identity_def)

lemma Login_InrD:
  assumes "Login dbnow x new_user new_id now s = Inr (r, s')"
  shows "sessions s' = sessions s \<and> auth_transactions s' = auth_transactions s \<and> owns_identity (lr_user r) x s'
     \<and> (identities_ok s \<longrightarrow> identities_ok s')"
proof (cases "findLogin x s")
  case (Inr found)
  show ?thesis
  proof (cases found)
    case (Some r')
    then have "s' = s \<and> r = r'" using assms Inr by (simp add: Login_def)
    then show ?thesis using findLogin_SomeD Inr Some by blast
  next
    case None
    let ?s1 = "s\<lparr>users := users s @ [\<lparr>u_id = new_user, u_display_name = emptyToNil (xi_display_name x),
         u_picture_url = emptyToNil (xi_picture_url x), u_created_at = now, u_updated_at = now\<rparr>]\<rparr>"
    have "\<exists>s2. insert_identity (new_identity new_id new_user x now) ?s1 = Inr ((), s2)
        \<and> s' = audit_auth new_user ''auth.login'' ''auth_identity'' new_id dbnow s2 \<and> lr_user r = new_user"
      using assms Inr None by (auto simp: Login_def Let_def split: if_splits sum.splits)
    then obtain s2 where s2: "insert_identity (new_identity new_id new_user x now) ?s1 = Inr ((), s2)"
      and s': "s' = audit_auth new_user ''auth.login'' ''auth_identity'' new_id dbnow s2" "lr_user r = new_user" by blast
    have "owns_identity new_user x s2" by (rule insert_new_identity_owns [OF s2])
    moreover have "identities_ok s \<longrightarrow> identities_ok s2"
      using insert_identity_ok [OF s2] by (simp add: identities_ok_def)
    ultimately show ?thesis
      using insert_identity_InrD(1) [OF s2] by (simp add: s' identities_ok_def owns_identity_def)
  qed
qed (use assms in \<open>simp add: Login_def\<close>)

lemma rotateSession_InrD:
  assumes "rotateSession old r now s = Inr (u, s')"
  shows "sessions_evolve s s'" "auth_transactions s' = auth_transactions s" "auth_identities s' = auth_identities s"
    "session_record.extend r \<lparr>s_revoked_at = None\<rparr> \<in> set (sessions s')"
proof -
  have ins: "insertSession r (revoke_sessions (\<lambda>q. s_id q = old) now s) = Inr (u, s')"
    using assms by (simp add: rotateSession_def split: if_splits)
  show "sessions_evolve s s'" by (rule revoke_insert_evolves [OF ins])
  note rows = insertSession_InrD [OF ins]
  show "auth_transactions s' = auth_transactions s" "auth_identities s' = auth_identities s"
    "session_record.extend r \<lparr>s_revoked_at = None\<rparr> \<in> set (sessions s')"
    using rows by simp_all
qed

lemma link_identity_InrD:
  assumes "link_identity rq s = Inr (u, s')"
  shows "sessions s' = sessions s" "auth_transactions s' = auth_transactions s" "users s' = users s"
    "owns_identity (lq_user rq) (lq_identity rq) s'" "identities_ok s \<longrightarrow> identities_ok s'"
proof -
  let ?x = "lq_identity rq"
  have "sessions s' = sessions s \<and> auth_transactions s' = auth_transactions s \<and> users s' = users s
      \<and> owns_identity (lq_user rq) ?x s' \<and> (identities_ok s \<longrightarrow> identities_ok s')"
  proof (cases "query_row (identity_of (xi_issuer ?x) (xi_subject ?x)) (auth_identities s)")
    case None
    then have ins: "insert_identity (new_identity (s_id (lq_new_session rq)) (lq_user rq) ?x (lq_now rq)) s = Inr ((), s')"
      using assms by (auto simp: link_identity_def split: sum.splits)
    then show ?thesis
      using insert_identity_InrD(1) [OF ins] insert_new_identity_owns [OF ins] insert_identity_ok [OF ins] by simp
  next
    case (Some r)
    have en: "enable_identity ?x (lq_now rq) s = Inr ((), s')" and user: "ai_user r = lq_user rq"
      using assms Some by (auto simp: link_identity_def split: sum.splits if_splits)
    obtain f where s': "s' = s\<lparr>auth_identities := sql_update (identity_of (xi_issuer ?x) (xi_subject ?x)) f (auth_identities s)\<rparr>"
      and f: "\<And>r. ai_disabled_at (f r) = None \<and> ai_user (f r) = ai_user r \<and> ai_issuer (f r) = ai_issuer r \<and> ai_subject (f r) = ai_subject r"
      using enable_identity_InrD [OF en] by blast
    have r: "r \<in> set (auth_identities s)" "identity_of (xi_issuer ?x) (xi_subject ?x) r"
      using query_row_SomeD [OF Some] by simp_all
    have "owns_identity (lq_user rq) ?x s'"
      unfolding owns_identity_def
      by (intro bexI [of _ "f r"]) (use r f user in \<open>auto simp: s' set_sql_update identity_of_def active_identity_def\<close>)
    then show ?thesis using enable_identity_ok [OF en] by (simp add: s')
  qed
  then show "sessions s' = sessions s" "auth_transactions s' = auth_transactions s" "users s' = users s"
    "owns_identity (lq_user rq) ?x s'" "identities_ok s \<longrightarrow> identities_ok s'" by simp_all
qed

lemma LinkIdentityAndRotate_InrD:
  assumes "LinkIdentityAndRotate dbnow rq s = Inr (u, s')"
  shows "sessions_evolve s s'" "auth_transactions s' = auth_transactions s"
    "owns_identity (lq_user rq) (lq_identity rq) s'" "identities_ok s \<longrightarrow> identities_ok s'"
    "session_record.extend (lq_new_session rq) \<lparr>s_revoked_at = None\<rparr> \<in> set (sessions s')"
proof -
  obtain s1 s2 where s1: "link_identity rq s = Inr ((), s1)"
    and s2: "rotateSession (lq_session rq) (lq_new_session rq) (lq_now rq) s1 = Inr ((), s2)"
    and s': "s' = audit_auth (lq_user rq) ''auth.identity_link'' (xi_provider (lq_identity rq)) (xi_subject (lq_identity rq)) dbnow s2"
    using assms by (auto simp: LinkIdentityAndRotate_def split: sum.splits)
  note l = link_identity_InrD [OF s1] and r = rotateSession_InrD [OF s2]
  show "sessions_evolve s s'" using r(1) l(1) by (simp add: s' sessions_evolve_def)
  show "auth_transactions s' = auth_transactions s" "owns_identity (lq_user rq) (lq_identity rq) s'"
    "identities_ok s \<longrightarrow> identities_ok s'"
    "session_record.extend (lq_new_session rq) \<lparr>s_revoked_at = None\<rparr> \<in> set (sessions s')"
    using l r by (simp_all add: s' owns_identity_def identities_ok_def)
qed

lemma ReauthenticateAndRotate_InrD:
  assumes "ReauthenticateAndRotate rq s = Inr (u, s')"
  shows "sessions_evolve s s'" "auth_transactions s' = auth_transactions s" "auth_identities s' = auth_identities s"
    "owns_identity (lq_user rq) (lq_identity rq) s'"
    "session_record.extend (lq_new_session rq) \<lparr>s_revoked_at = None\<rparr> \<in> set (sessions s')"
proof -
  obtain r where r: "query_row (\<lambda>r. identity_of (xi_issuer (lq_identity rq)) (xi_subject (lq_identity rq)) r
      \<and> ai_disabled_at r = None) (auth_identities s) = Some r" "ai_user r = lq_user rq"
    and rot: "rotateSession (lq_session rq) (lq_new_session rq) (lq_now rq) s = Inr (u, s')"
    using assms by (auto simp: ReauthenticateAndRotate_def split: option.splits if_splits)
  note rot = rotateSession_InrD [OF rot]
  show "sessions_evolve s s'" "auth_transactions s' = auth_transactions s" "auth_identities s' = auth_identities s"
    "session_record.extend (lq_new_session rq) \<lparr>s_revoked_at = None\<rparr> \<in> set (sessions s')" using rot by simp_all
  show "owns_identity (lq_user rq) (lq_identity rq) s'"
    using query_row_SomeD [OF r(1)] r(2) rot(3) by (auto simp: owns_identity_def active_identity_def)
qed

lemma UnlinkIdentityAndRotate_InrD:
  assumes "UnlinkIdentityAndRotate accepts dbnow rq s = Inr (u, s')"
  defines "P \<equiv> \<lambda>a. active_identity (ul_user rq) a \<and> ai_provider a = ul_provider rq"
  defines "f \<equiv> \<lambda>a. a\<lparr>ai_disabled_at := Some (ul_now rq), ai_cooldown_until := Some (ul_cooldown_until rq)\<rparr>"
  shows "2 \<le> rows_affected (active_identity (ul_user rq)) (auth_identities s)"
    and "rows_affected P (auth_identities s) = 1"
    and "auth_identities s' = sql_update P f (auth_identities s)"
    and "auth_transactions s' = auth_transactions s"
    and "sessions_evolve s s'"
    and "sessions s' = sql_update (\<lambda>r. s_user r = ul_user rq \<and> s_revoked_at r = None)
           (\<lambda>r. r\<lparr>s_revoked_at := Some (ul_now rq)\<rparr>) (sessions s)
         @ [session_record.extend (ul_new_session rq) \<lparr>s_revoked_at = None\<rparr>]"
proof -
  let ?s1 = "s\<lparr>auth_identities := sql_update P f (auth_identities s)\<rparr>"
  obtain s3 where guard: "2 \<le> rows_affected (active_identity (ul_user rq)) (auth_identities s)"
      "rows_affected P (auth_identities s) = 1"
    and ins: "insertSession (ul_new_session rq) (revoke_sessions (\<lambda>q. s_user q = ul_user rq) (ul_now rq) ?s1) = Inr ((), s3)"
    and s': "s' = audit_auth (ul_user rq) ''auth.identity_unlink'' (ul_provider rq) (ul_provider rq) dbnow s3"
  proof -
    obtain r where r: "query_row (\<lambda>r. s_id r = ul_session rq \<and> s_user r = ul_user rq \<and> s_revoked_at r = None
           \<and> ul_now rq - 10 * Minute < s_authenticated_at r) (sessions s) = Some r" and acc: "accepts"
      using assms(1) by (cases accepts) (auto simp: UnlinkIdentityAndRotate_def split: option.splits)
    have ok: "s_provider r \<noteq> ul_provider rq" "\<not> rows_affected (active_identity (ul_user rq)) (auth_identities s) < 2"
      "rows_affected P (auth_identities s) = 1"
      using assms(1) r acc by (simp_all add: UnlinkIdentityAndRotate_def P_def Let_def split: if_splits)
    have eq: "UnlinkIdentityAndRotate accepts dbnow rq s =
       (case insertSession (ul_new_session rq) (revoke_sessions (\<lambda>q. s_user q = ul_user rq) (ul_now rq) ?s1) of
          Inl e \<Rightarrow> Inl e
        | Inr (_, s3) \<Rightarrow> Inr ((), audit_auth (ul_user rq) ''auth.identity_unlink'' (ul_provider rq) (ul_provider rq) dbnow s3))"
      using ok unfolding UnlinkIdentityAndRotate_def P_def f_def Let_def r by (simp add: acc)
    show thesis
    proof (cases "insertSession (ul_new_session rq) (revoke_sessions (\<lambda>q. s_user q = ul_user rq) (ul_now rq) ?s1)")
      case (Inr v)
      then show thesis using that [of "snd v"] ok assms(1) eq by (simp add: case_prod_beta prod_eq_iff)
    qed (use assms(1) eq in simp)
  qed
  note rows = insertSession_InrD [OF ins]
  show "2 \<le> rows_affected (active_identity (ul_user rq)) (auth_identities s)"
    "rows_affected P (auth_identities s) = 1" by (fact guard)+
  show "auth_identities s' = sql_update P f (auth_identities s)" "auth_transactions s' = auth_transactions s"
    using rows by (simp_all add: s')
  show "sessions_evolve s s'" using revoke_insert_evolves [OF ins] by (simp add: s' sessions_evolve_def)
  show "sessions s' = sql_update (\<lambda>r. s_user r = ul_user rq \<and> s_revoked_at r = None)
           (\<lambda>r. r\<lparr>s_revoked_at := Some (ul_now rq)\<rparr>) (sessions s)
         @ [session_record.extend (ul_new_session rq) \<lparr>s_revoked_at = None\<rparr>]"
    using rows(1) by (simp add: s' revoke_sessions_def)
qed

section \<open>Reachable states\<close>

inductive auth_step :: "store \<Rightarrow> store \<Rightarrow> bool" where
  create_transaction: "CreateAuthTransaction t s = Inr (u, s') \<Longrightarrow> auth_step s s'"
| consume: "ConsumeAuthTransaction h now s = Inr (t, s') \<Longrightarrow> auth_step s s'"
| login: "Login dbnow x nu ni now s = Inr (r, s') \<Longrightarrow> auth_step s s'"
| create_session: "CreateSession rec s = Inr (u, s') \<Longrightarrow> auth_step s s'"
| resolve: "ResolveSession th now s = Inr (x, s') \<Longrightarrow> auth_step s s'"
| revoke: "RevokeSession sid now s = Inr (u, s') \<Longrightarrow> auth_step s s'"
| revoke_user: "RevokeUserSessions user now s = Inr (u, s') \<Longrightarrow> auth_step s s'"
| link: "LinkIdentityAndRotate dbnow rq s = Inr (u, s') \<Longrightarrow> auth_step s s'"
| reauth: "ReauthenticateAndRotate rq s = Inr (u, s') \<Longrightarrow> auth_step s s'"
| unlink: "UnlinkIdentityAndRotate accepts dbnow ul s = Inr (u, s') \<Longrightarrow> auth_step s s'"

definition auth_inv :: "store \<Rightarrow> bool" where
  "auth_inv s = (identities_ok s \<and> sessions_ok s \<and> unique_on (\<lambda>r. Some (at_state_hash r)) (auth_transactions s))"

lemma auth_step_effect:
  assumes "auth_step s s'"
  shows "sessions_evolve s s' \<and> attempts_evolve s s' \<and> (identities_ok s \<longrightarrow> identities_ok s')"
  using assms
proof (cases rule: auth_step.cases)
  case create_transaction
  then show ?thesis using CreateAuthTransaction_evolves [OF create_transaction] by (simp add: identities_ok_def)
next
  case consume
  then show ?thesis using ConsumeAuthTransaction_evolves [OF consume] by (simp add: identities_ok_def)
next
  case login
  then show ?thesis using Login_InrD [OF login] by auto
next
  case create_session
  note ins = create_session [unfolded CreateSession_def]
  show ?thesis using insert_evolves [OF ins] insertSession_InrD [OF ins] by (auto simp: identities_ok_def)
next
  case resolve
  then show ?thesis by (rule ResolveSession_InrD) (auto simp: identities_ok_def)
next
  case revoke
  then show ?thesis using revoke_evolves by (auto simp: RevokeSession_def identities_ok_def)
next
  case revoke_user
  then show ?thesis using revoke_evolves by (auto simp: RevokeUserSessions_def identities_ok_def)
next
  case link
  then show ?thesis using LinkIdentityAndRotate_InrD [OF link] by auto
next
  case reauth
  then show ?thesis using ReauthenticateAndRotate_InrD [OF reauth] by (auto simp: identities_ok_def)
next
  case unlink
  note un = UnlinkIdentityAndRotate_InrD [OF unlink]
  have "identities_ok s'" if "identities_ok s"
    using that unfolding identities_ok_def un(3)
    by (auto intro!: unique_on_update_shrink simp: active_key_def)
  then show ?thesis using un by auto
qed

lemma auth_step_inv: "auth_step s s' \<Longrightarrow> auth_inv s \<Longrightarrow> auth_inv s'"
  using auth_step_effect [of s s'] sessions_evolve_ok [of s s'] attempts_evolve_ok [of s s'] by (simp add: auth_inv_def)

abbreviation auth_steps :: "store \<Rightarrow> store \<Rightarrow> bool" where "auth_steps \<equiv> auth_step\<^sup>*\<^sup>*"

definition auth_reachable :: "store \<Rightarrow> bool" where
  "auth_reachable s = (\<exists>s0. auth_identities s0 = [] \<and> sessions s0 = [] \<and> auth_transactions s0 = [] \<and> auth_steps s0 s)"

lemma auth_steps_inv: "auth_steps s s' \<Longrightarrow> auth_inv s \<Longrightarrow> auth_inv s'"
  by (induction rule: rtranclp_induct) (auto intro: auth_step_inv)

lemma auth_reachable_inv:
  assumes "auth_reachable s" shows "auth_inv s"
proof -
  obtain s0 where "auth_identities s0 = []" "sessions s0 = []" "auth_transactions s0 = []" "auth_steps s0 s"
    using assms by (auto simp: auth_reachable_def)
  moreover from this have "auth_inv s0" by (simp add: auth_inv_def identities_ok_def sessions_ok_def)
  ultimately show ?thesis by (blast intro: auth_steps_inv)
qed

lemma auth_steps_dead:
  assumes "auth_steps s s'"
  shows "dead_session th s \<Longrightarrow> dead_session th s'" "dead_attempt h s \<Longrightarrow> dead_attempt h s'"
  using assms
  by (induction rule: rtranclp_induct)
    (use auth_step_effect dead_session_evolve dead_attempt_evolve in blast)+

section \<open>Properties\<close>

definition demo_auth_user :: user_row where
  "demo_auth_user = \<lparr>u_id = ''u1'', u_display_name = None, u_picture_url = None, u_created_at = 0, u_updated_at = 0\<rparr>"

text \<open>For the concrete runs: a stand-in for SHA-256 with 32 byte values.\<close>

definition demo_hash :: "bytes \<Rightarrow> bytes" where
  "demo_hash v = take 32 (v @ replicate 32 (CHR ''0''))"

definition demo_transaction :: auth_transaction where
  "demo_transaction = \<lparr>at_state_hash = demo_hash ''st'', at_browser_hash = demo_hash ''br'', at_provider = ''line'',
     at_issuer = ''iss'', at_purpose = ''login'', at_nonce = ''n'', at_code_verifier = ''v'', at_return_to = ''/account'',
     at_user = [], at_session = [], at_created_at = 0, at_expires_at = 100\<rparr>"

definition demo_attempted :: store where
  "demo_attempted = empty_store\<lparr>auth_transactions := [auth_transaction.extend demo_transaction \<lparr>at_consumed_at = None\<rparr>]\<rparr>"

lemma demo_attempted_reachable: "auth_reachable demo_attempted"
proof -
  have "CreateAuthTransaction demo_transaction empty_store = Inr ((), demo_attempted)"
    by (simp add: CreateAuthTransaction_def auth_transaction_check_def demo_transaction_def demo_attempted_def
        demo_hash_def purposes)
  then have "auth_steps empty_store demo_attempted" by (blast intro: auth_step.intros)
  then show ?thesis unfolding auth_reachable_def by (intro exI [of _ empty_store]) simp
qed

text \<open>
  \<^bold>\<open>C5.\<close>  An authorization attempt is used at most once: after it has been consumed, no later state, however
  many operations away, lets its state be consumed again.
\<close>
theorem attempt_single_use:
  assumes "auth_reachable s" "ConsumeAuthTransaction h now s = Inr (t, s1)" "auth_steps s1 s2"
  shows "ConsumeAuthTransaction h now' s2 = Inl Auth_ErrAuthTransaction"
proof -
  have "unique_on (\<lambda>r. Some (at_state_hash r)) (auth_transactions s)"
    using auth_reachable_inv [OF assms(1)] by (simp add: auth_inv_def)
  then have "dead_attempt h s1" by (rule ConsumeAuthTransaction_dead [OF assms(2)])
  then have "dead_attempt h s2" by (rule auth_steps_dead(2) [OF assms(3)])
  then show ?thesis by (rule dead_attempt_rejected)
qed

theorem attempt_single_use_witness:
  "\<exists>t s1. ConsumeAuthTransaction (demo_hash ''st'') 5 demo_attempted = Inr (t, s1)
     \<and> ConsumeAuthTransaction (demo_hash ''st'') 6 s1 = Inl Auth_ErrAuthTransaction"
proof -
  obtain t s1 where c: "ConsumeAuthTransaction (demo_hash ''st'') 5 demo_attempted = Inr (t, s1)"
    by (simp add: ConsumeAuthTransaction_def demo_attempted_def consumable_def demo_transaction_def auth_transaction.defs)
  show ?thesis using c attempt_single_use [OF demo_attempted_reachable c rtranclp.rtrancl_refl] by blast
qed

subsection \<open>Logging out\<close>

lemma revoked_session_dead:
  assumes "sessions_ok s" "r \<in> set (sessions s)" "s_token_hash r = th" "P r"
  shows "dead_session th (revoke_sessions P now s)"
proof -
  let ?g = "\<lambda>q. if P q \<and> s_revoked_at q = None then q\<lparr>s_revoked_at := Some now\<rparr> else q"
  have rows: "set (sessions (revoke_sessions P now s)) = ?g ` set (sessions s)"
    by (simp add: revoke_sessions_def set_sql_update)
  have same: "q = r" if "q \<in> set (sessions s)" "s_token_hash q = th" for q
    using unique_onD [of "\<lambda>r. Some (s_token_hash r)" "sessions s" q r th] assms that by (simp add: sessions_ok_def)
  have "s_revoked_at (?g q) \<noteq> None" if "q \<in> set (sessions s)" "s_token_hash (?g q) = th" for q
  proof -
    have "s_token_hash q = th" using that(2) by (simp split: if_splits)
    then have "q = r" by (rule same [OF that(1)])
    then show ?thesis using assms(4) by simp
  qed
  moreover have "s_token_hash (?g r) = th" using assms(3) by simp
  ultimately show ?thesis using assms(2) unfolding dead_session_def rows by blast
qed

lemma Authenticate_InrD:
  assumes "Authenticate hash now rq s = Inr (x, s')"
  obtains v where "rq_session_cookie rq = Some v" "v \<noteq> []" "ResolveSession (hash v) now s = Inr (x, s')"
  using assms by (auto simp: Authenticate_def split: option.splits if_splits)

lemma resolved_row:
  assumes "ResolveSession th now s = Inr (x, s')"
  shows "\<exists>r \<in> set (sessions s'). s_token_hash r = th \<and> s_id r = se_id x \<and> s_user r = se_user x"
  using assms
proof (rule ResolveSession_InrD)
  fix r assume r: "r \<in> set (sessions s)" "live_session th now r" "se_id x = s_id r" "se_user x = s_user r"
    "sessions_evolve s s'"
  then obtain g new where "sessions s' = map g (sessions s) @ new"
    "\<And>r. s_id (g r) = s_id r \<and> s_token_hash (g r) = s_token_hash r \<and> s_user (g r) = s_user r"
    unfolding sessions_evolve_def by blast
  then show ?thesis using r by (intro bexI [of _ "g r"]) (auto simp: live_session_def)
qed

lemma mutation_204:
  assumes "authenticated_mutation hash sv now rq s k = (reply, s')" "rp_status reply = 204"
  obtains x s1 where "Authenticate hash now rq s = Inr (x, s1)" "k x s1 = (reply, s')"
  using assms by (auto simp: authenticated_mutation_def writeAuthError_def split: sum.splits if_splits)

lemma logout_204:
  assumes "logout hash sv clock rq s = (reply, s')" "rp_status reply = 204"
  obtains x s1 where "Authenticate hash (clock 0) rq s = Inr (x, s1)"
    "s' = revoke_sessions (\<lambda>r. s_id r = se_id x) (clock 1) s1"
  using assms unfolding logout_def by (elim mutation_204) (simp_all add: RevokeSession_def)

lemma logoutAll_204:
  assumes "logoutAll hash sv clock rq s = (reply, s')" "rp_status reply = 204"
  obtains x s1 where "Authenticate hash (clock 0) rq s = Inr (x, s1)"
    "s' = revoke_sessions (\<lambda>r. s_user r = se_user x) (clock 1) s1"
  using assms unfolding logoutAll_def by (elim mutation_204) (simp_all add: RevokeUserSessions_def)

text \<open>
  \<^bold>\<open>C6.\<close>  Logging out is final: once \<^verbatim>\<open>logout\<close> or \<^verbatim>\<open>logoutAll\<close> has answered 204, the session cookie that was
  presented authenticates no request in any later state, whatever signs in, is linked or rotated meanwhile.
\<close>
theorem logout_is_final:
  assumes "auth_reachable s" "rq_session_cookie rq = Some v" "rq_session_cookie rq' = Some v"
    and "logout hash sv clock rq s = (reply, s') \<or> logoutAll hash sv clock rq s = (reply, s')"
    and "rp_status reply = 204" "auth_steps s' s''"
  shows "Authenticate hash now rq' s'' = Inl Auth_ErrSession"
proof (cases "v = []")
  case False
  obtain x s1 where a: "Authenticate hash (clock 0) rq s = Inr (x, s1)"
    and s': "s' = revoke_sessions (\<lambda>r. s_id r = se_id x) (clock 1) s1
           \<or> s' = revoke_sessions (\<lambda>r. s_user r = se_user x) (clock 1) s1"
    using assms(4,5) logout_204 [of hash sv clock rq s reply s'] logoutAll_204 [of hash sv clock rq s reply s']
    by metis
  have res: "ResolveSession (hash v) (clock 0) s = Inr (x, s1)"
    using a assms(2) by (auto elim: Authenticate_InrD)
  have "auth_inv s1" using auth_step_inv [OF auth_step.resolve [OF res]] auth_reachable_inv [OF assms(1)] by blast
  then have ok: "sessions_ok s1" by (simp add: auth_inv_def)
  obtain r where r: "r \<in> set (sessions s1)" "s_token_hash r = hash v" "s_id r = se_id x" "s_user r = se_user x"
    using resolved_row [OF res] by blast
  have "dead_session (hash v) s'"
    using s'
  proof (elim disjE)
    assume "s' = revoke_sessions (\<lambda>r. s_id r = se_id x) (clock 1) s1"
    then show ?thesis using revoked_session_dead [OF ok r(1,2), where P = "\<lambda>r. s_id r = se_id x"] r(3) by simp
  next
    assume "s' = revoke_sessions (\<lambda>r. s_user r = se_user x) (clock 1) s1"
    then show ?thesis using revoked_session_dead [OF ok r(1,2), where P = "\<lambda>r. s_user r = se_user x"] r(4) by simp
  qed
  then have "dead_session (hash v) s''" by (rule auth_steps_dead(1) [OF assms(6)])
  then show ?thesis using assms(3) False by (simp add: Authenticate_def dead_session_rejected)
qed (use assms(3) in \<open>simp add: Authenticate_def\<close>)

definition demo_session :: session_record where
  "demo_session = \<lparr>s_id = ''s1'', s_user = ''u1'', s_token_hash = demo_hash ''tok'', s_csrf_hash = demo_hash ''csrf'',
     s_created_at = 0, s_authenticated_at = 0, s_last_seen_at = 0, s_idle_expires_at = 100, s_absolute_expires_at = 200,
     s_provider = ''line''\<rparr>"

definition demo_signed_in :: store where
  "demo_signed_in = empty_store\<lparr>users := [demo_auth_user],
     sessions := [session_record.extend demo_session \<lparr>s_revoked_at = None\<rparr>]\<rparr>"

definition demo_request :: request where
  "demo_request = \<lparr>rq_provider = ''line'', rq_state = ''st'', rq_error = [], rq_code = ''c'', rq_return_to = [],
     rq_session_cookie = Some ''tok'', rq_oauth_cookie = Some ''br'', rq_origin = ''https://w'', rq_csrf_header = ''csrf'',
     rq_csrf_form = []\<rparr>"

definition demo_provider :: provider where
  "demo_provider = \<lparr>pv_name = ''line'', pv_issuer = ''iss'', pv_authorization_url = (\<lambda>a. Inr ''https://p''),
     pv_exchange = (\<lambda>code verifier nonce. Inr \<lparr>xi_provider = ''line'', xi_issuer = ''iss'', xi_subject = ''sub'',
        xi_email = [], xi_email_verified = False, xi_display_name = [], xi_picture_url = []\<rparr>)\<rparr>"

definition demo_service :: service where
  "demo_service = \<lparr>sv_web_origin = ''https://w'', sv_providers = [demo_provider]\<rparr>"

lemma demo_signed_in_reachable: "auth_reachable demo_signed_in"
proof -
  let ?s0 = "empty_store\<lparr>users := [demo_auth_user]\<rparr>"
  have "CreateSession demo_session ?s0 = Inr ((), demo_signed_in)"
    by (simp add: CreateSession_def insertSession_def session_check_def demo_session_def demo_signed_in_def
        demo_hash_def demo_auth_user_def)
  then have "auth_steps ?s0 demo_signed_in" by (blast intro: auth_step.intros)
  then show ?thesis unfolding auth_reachable_def by (intro exI [of _ ?s0]) simp
qed

theorem logout_is_final_witness:
  "\<exists>reply s'. logout demo_hash demo_service (\<lambda>i. 5) demo_request demo_signed_in = (reply, s') \<and> rp_status reply = 204
     \<and> Authenticate demo_hash 6 demo_request s' = Inl Auth_ErrSession"
proof -
  obtain reply s' where l: "logout demo_hash demo_service (\<lambda>i. 5) demo_request demo_signed_in = (reply, s')" by fastforce
  have status: "rp_status reply = 204"
    using arg_cong [OF l, of "\<lambda>p. rp_status (fst p)"]
    by (simp add: logout_def authenticated_mutation_def Authenticate_def demo_request_def ResolveSession_def
        live_session_def demo_signed_in_def demo_session_def session_record.defs duration_defs session_of_def
        ValidMutation_def demo_service_def RevokeSession_def)
  have cookie: "rq_session_cookie demo_request = Some ''tok''" by (simp add: demo_request_def)
  show ?thesis
    using logout_is_final [OF demo_signed_in_reachable cookie cookie disjI1 [OF l] status rtranclp.rtrancl_refl] l status
    by blast
qed

subsection \<open>Signing in\<close>

lemma newSessionCredentials_InrD:
  assumes "newSessionCredentials hash rnd user provider now = Inr c"
  shows "s_user (cr_record c) = user" "s_token_hash (cr_record c) = hash (cr_token c)"
  using assms by (auto simp: newSessionCredentials_def split: sum.splits)

lemma session_cookie_token:
  "(SessionCookieName, tok) \<in> set (session_cookies c @ [(OAuthCookieName, [])]) \<Longrightarrow> tok = cr_token c"
  by (auto simp: session_cookies_def cookie_names)

definition issued_to_owner :: "(bytes \<Rightarrow> bytes) \<Rightarrow> string \<Rightarrow> external_identity \<Rightarrow> store \<Rightarrow> bool" where
  "issued_to_owner hash tok x s =
     (\<exists>r \<in> set (sessions s). s_token_hash r = hash tok \<and> s_revoked_at r = None \<and> owns_identity (s_user r) x s)"

lemma callback_login_owner:
  assumes "callback_login hash rnd dbnow now x ret s = (reply, s')" "(SessionCookieName, tok) \<in> set (rp_cookies reply)"
  shows "issued_to_owner hash tok x s'"
proof -
  obtain result s1 c s2 where l: "Login dbnow x (newID (rnd 0)) (newID (rnd 1)) now s = Inr (result, s1)"
    and c: "newSessionCredentials hash (\<lambda>i. rnd (i + 2)) (lr_user result) (xi_provider x) now = Inr c"
    and s2: "insertSession (cr_record c) s1 = Inr ((), s2)" and s': "s' = s2"
    and tok: "(SessionCookieName, tok) \<in> set (session_cookies c @ [(OAuthCookieName, [])])"
    using assms by (auto simp: callback_login_def CreateSession_def errorRedirect_def split: sum.splits)
  note row = insertSession_InrD [OF s2] and cr = newSessionCredentials_InrD [OF c]
  have "owns_identity (lr_user result) x s'"
    using Login_InrD [OF l] owns_identity_cong [of s2 s1] row(4) by (simp add: s')
  then show ?thesis
    unfolding issued_to_owner_def
    by (intro bexI [of _ "session_record.extend (cr_record c) \<lparr>s_revoked_at = None\<rparr>"])
      (simp_all add: s' row(1) cr session_cookie_token [OF tok])
qed

lemma callback_link_owner:
  assumes "callback_link hash rnd dbnow now now2 rq x t s = (reply, s')"
    and "(SessionCookieName, tok) \<in> set (rp_cookies reply)"
  shows "issued_to_owner hash tok x s'"
proof -
  obtain ses s1 c where au: "Authenticate hash now2 rq s = Inr (ses, s1)"
    and c: "newSessionCredentials hash (\<lambda>i. rnd (i + 2)) (se_user ses) (xi_provider x) now = Inr c"
    and tok: "(SessionCookieName, tok) \<in> set (session_cookies c @ [(OAuthCookieName, [])])"
    and op: "(if at_purpose t = PurposeLink
       then LinkIdentityAndRotate dbnow \<lparr>lq_user = se_user ses, lq_session = se_id ses, lq_identity = x,
              lq_new_session = cr_record c, lq_now = now\<rparr> s1
       else ReauthenticateAndRotate \<lparr>lq_user = se_user ses, lq_session = se_id ses, lq_identity = x,
              lq_new_session = cr_record c, lq_now = now\<rparr> s1) = Inr ((), s')"
    using assms by (auto simp: callback_link_def Let_def errorRedirect_def split: sum.splits if_splits)
  have "owns_identity (se_user ses) x s' \<and> session_record.extend (cr_record c) \<lparr>s_revoked_at = None\<rparr> \<in> set (sessions s')"
    using op LinkIdentityAndRotate_InrD(3,5) ReauthenticateAndRotate_InrD(4,5)
    by (fastforce split: if_splits)
  then show ?thesis
    using newSessionCredentials_InrD [OF c] session_cookie_token [OF tok]
    unfolding issued_to_owner_def
    by (intro bexI [of _ "session_record.extend (cr_record c) \<lparr>s_revoked_at = None\<rparr>"]) simp_all
qed

text \<open>
  \<^bold>\<open>C7.\<close>  The callback hands out a session cookie only for a live attempt whose state the request presents
  and whose browser secret its cookie holds, after the attempt's own provider vouched for an identity; the
  attempt is consumed, the cookie's session is active, and its user is the one who owns that identity.
\<close>
theorem callback_sound:
  assumes "callback hash sv rnd dbnow clock rq s = (reply, s')" "(SessionCookieName, tok) \<in> set (rp_cookies reply)"
  shows "\<exists>t p b x. t \<in> set (auth_transactions s) \<and> consumable (hash (rq_state rq)) (clock 0) t \<and> rq_state rq \<noteq> []
     \<and> find_provider sv (rq_provider rq) = Some p \<and> at_provider t = pv_name p \<and> at_issuer t = pv_issuer p
     \<and> rq_oauth_cookie rq = Some b \<and> hash b = at_browser_hash t
     \<and> pv_exchange p (rq_code rq) (at_code_verifier t) (at_nonce t) = Inr x \<and> xi_issuer x = pv_issuer p
     \<and> issued_to_owner hash tok x s'"
proof -
  obtain t s1 where con: "ConsumeAuthTransaction (hash (rq_state rq)) (clock 0) s = Inr (t, s1)"
    using assms by (auto simp: callback_def errorRedirect_def split: sum.splits)
  obtain p where st: "rq_state rq \<noteq> []" and p: "find_provider sv (rq_provider rq) = Some p"
    using assms con by (auto simp: callback_def errorRedirect_def split: option.splits if_splits)
  obtain b where match: "at_provider t = pv_name p" "at_issuer t = pv_issuer p" and b: "rq_oauth_cookie rq = Some b"
    using assms con st p by (auto simp: callback_def errorRedirect_def split: option.splits if_splits)
  obtain x where hb: "hash b = at_browser_hash t"
    and x: "pv_exchange p (rq_code rq) (at_code_verifier t) (at_nonce t) = Inr x"
    using assms con st p match b by (auto simp: callback_def errorRedirect_def split: sum.splits if_splits)
  have xi: "xi_issuer x = pv_issuer p"
    using assms con st p match b hb x by (auto simp: callback_def errorRedirect_def split: if_splits)
  have fin: "callback_login hash rnd dbnow (clock 1) x (at_return_to t) s1 = (reply, s')
      \<or> callback_link hash rnd dbnow (clock 1) (clock 2) rq x t s1 = (reply, s')"
    using assms con st p match b hb x xi by (auto simp: callback_def errorRedirect_def split: if_splits)
  have issued: "issued_to_owner hash tok x s'"
    using fin by (elim disjE) (erule callback_login_owner [OF _ assms(2)], erule callback_link_owner [OF _ assms(2)])
  obtain row where row: "row \<in> set (auth_transactions s)" "consumable (hash (rq_state rq)) (clock 0) row"
    "t = auth_transaction.truncate row"
    using con by (rule ConsumeAuthTransaction_InrD)
  then have "at_provider row = at_provider t" "at_issuer row = at_issuer t" "at_browser_hash row = at_browser_hash t"
    "at_code_verifier row = at_code_verifier t" "at_nonce row = at_nonce t"
    by (simp_all add: auth_transaction.defs)
  then show ?thesis using row st p match b hb x xi issued by (intro exI [of _ row] exI) simp
qed

definition demo_identity :: external_identity where
  "demo_identity = \<lparr>xi_provider = ''line'', xi_issuer = ''iss'', xi_subject = ''sub'', xi_email = [],
     xi_email_verified = False, xi_display_name = [], xi_picture_url = []\<rparr>"

definition demo_callback_state :: store where
  "demo_callback_state = demo_attempted\<lparr>users := [demo_auth_user],
     auth_identities := [new_identity ''i1'' ''u1'' demo_identity 0]\<rparr>"

definition demo_random :: "nat \<Rightarrow> bytes option" where
  "demo_random i = Some (replicate 32 (CHR ''r''))"

lemma length_demo_hash [simp]: "length (demo_hash v) = 32"
  by (simp add: demo_hash_def)

lemma demo_login_cookie:
  assumes "auth_identities s = [new_identity ''i1'' ''u1'' demo_identity 0]" "sessions s = []" "users s = [demo_auth_user]"
  shows "\<exists>tok. (SessionCookieName, tok) \<in> set (rp_cookies (fst (callback_login demo_hash demo_random 5 5 demo_identity ret s)))"
proof -
  have found: "Login 5 demo_identity (newID (demo_random 0)) (newID (demo_random 1)) 5 s
      = Inr (\<lparr>lr_user = ''u1'', lr_created = False\<rparr>, s)"
    using assms(1) by (simp add: Login_def findLogin_def identity_of_def)
  obtain c where c: "newSessionCredentials demo_hash (\<lambda>i. demo_random (i + 2)) ''u1'' ''line'' 5 = Inr c"
    and chk: "session_check (cr_record c)" "s_user (cr_record c) = ''u1''"
    by (simp add: newSessionCredentials_def randomToken_def demo_random_def session_check_def duration_defs)
  have "\<exists>s2. CreateSession (cr_record c) s = Inr ((), s2)"
    using chk assms(2,3) by (simp add: CreateSession_def insertSession_def demo_auth_user_def)
  then show ?thesis
    using c found by (auto simp: callback_login_def demo_identity_def session_cookies_def)
qed

theorem callback_sound_witness:
  "\<exists>reply s' tok. callback demo_hash demo_service demo_random 5 (\<lambda>i. 5) demo_request demo_callback_state = (reply, s')
     \<and> (SessionCookieName, tok) \<in> set (rp_cookies reply)
     \<and> (\<exists>x. issued_to_owner demo_hash tok x s')"
proof -
  let ?s1 = "demo_callback_state\<lparr>auth_transactions := sql_update (consumable (demo_hash ''st'') 5)
      (\<lambda>r. r\<lparr>at_consumed_at := Some 5\<rparr>) (auth_transactions demo_callback_state)\<rparr>"
  obtain reply s' where c: "callback demo_hash demo_service demo_random 5 (\<lambda>i. 5) demo_request demo_callback_state = (reply, s')"
    by fastforce
  have con: "ConsumeAuthTransaction (demo_hash ''st'') 5 demo_callback_state = Inr (demo_transaction, ?s1)"
    by (simp add: ConsumeAuthTransaction_def demo_callback_state_def demo_attempted_def consumable_def
        demo_transaction_def auth_transaction.defs)
  have "callback demo_hash demo_service demo_random 5 (\<lambda>i. 5) demo_request demo_callback_state
      = callback_login demo_hash demo_random 5 5 demo_identity ''/account'' ?s1"
    by (simp add: callback_def demo_request_def con find_provider_def demo_service_def demo_provider_def
        demo_transaction_def purposes demo_identity_def)
  moreover have "\<exists>tok. (SessionCookieName, tok) \<in> set (rp_cookies (fst
      (callback_login demo_hash demo_random 5 5 demo_identity ''/account'' ?s1)))"
    by (rule demo_login_cookie) (simp_all add: demo_callback_state_def demo_attempted_def)
  ultimately obtain tok where tok: "(SessionCookieName, tok) \<in> set (rp_cookies reply)" using c by (metis fst_conv)
  show ?thesis using c tok callback_sound [OF c tok] by blast
qed

subsection \<open>Unlinking\<close>

lemma rows_affected_split:
  "rows_affected P rows = rows_affected (\<lambda>r. P r \<and> Q r) rows + rows_affected (\<lambda>r. P r \<and> \<not> Q r) rows"
  by (induction rows) auto

text \<open>
  Unlinking a provider never locks a user out and never leaves an old session behind: an active
  identity of another provider remains, none of the unlinked provider does, and the only session of the
  user that is not revoked is the one the request just received.
\<close>
theorem unlink_keeps_identity:
  assumes "UnlinkIdentityAndRotate accepts dbnow rq s = Inr (u, s')"
  shows "(\<exists>a \<in> set (auth_identities s'). active_identity (ul_user rq) a \<and> ai_provider a \<noteq> ul_provider rq)
    \<and> (\<forall>a \<in> set (auth_identities s'). active_identity (ul_user rq) a \<longrightarrow> ai_provider a \<noteq> ul_provider rq)
    \<and> (\<forall>r \<in> set (sessions s'). s_user r = ul_user rq \<and> s_revoked_at r = None \<longrightarrow>
         r = session_record.extend (ul_new_session rq) \<lparr>s_revoked_at = None\<rparr>)"
proof -
  let ?A = "active_identity (ul_user rq)" and ?Q = "\<lambda>a. ai_provider a = ul_provider rq"
  let ?f = "\<lambda>a. a\<lparr>ai_disabled_at := Some (ul_now rq), ai_cooldown_until := Some (ul_cooldown_until rq)\<rparr>"
  note un = UnlinkIdentityAndRotate_InrD [OF assms]
  have "rows_affected (\<lambda>r. ?A r \<and> \<not> ?Q r) (auth_identities s) \<noteq> 0"
    using un(1,2) rows_affected_split [of ?A "auth_identities s" ?Q] by simp
  then obtain a where a: "a \<in> set (auth_identities s)" "?A a" "\<not> ?Q a"
    by (auto simp: rows_affected_zero_iff)
  then have "a \<in> set (auth_identities s')"
    unfolding un(3) set_sql_update by (intro image_eqI [of _ _ a]) simp_all
  then have one: "\<exists>a \<in> set (auth_identities s'). ?A a \<and> \<not> ?Q a" using a by blast
  have gone: "\<not> ?Q q" if "q \<in> set (auth_identities s')" "?A q" for q
    using that(1) unfolding un(3)
  proof (cases rule: sql_updateE)
    case (updated p)
    then show ?thesis using that(2) by (simp add: active_identity_def)
  qed (use that(2) in simp)
  have last: "r = session_record.extend (ul_new_session rq) \<lparr>s_revoked_at = None\<rparr>"
    if "r \<in> set (sessions s')" "s_user r = ul_user rq" "s_revoked_at r = None" for r
  proof (rule ccontr)
    assume "r \<noteq> session_record.extend (ul_new_session rq) \<lparr>s_revoked_at = None\<rparr>"
    then have "r \<in> set (sql_update (\<lambda>r. s_user r = ul_user rq \<and> s_revoked_at r = None)
        (\<lambda>r. r\<lparr>s_revoked_at := Some (ul_now rq)\<rparr>) (sessions s))"
      using that(1) unfolding un(6) by simp
    then show False by (cases rule: sql_updateE) (use that in simp_all)
  qed
  show ?thesis using one gone last by blast
qed

definition demo_two_identities :: store where
  "demo_two_identities = demo_signed_in\<lparr>auth_identities :=
     [new_identity ''i1'' ''u1'' \<lparr>xi_provider = ''line'', xi_issuer = ''iss'', xi_subject = ''sub'', xi_email = [],
        xi_email_verified = False, xi_display_name = [], xi_picture_url = []\<rparr> 0,
      new_identity ''i2'' ''u1'' \<lparr>xi_provider = ''google'', xi_issuer = ''iss2'', xi_subject = ''sub2'', xi_email = [],
        xi_email_verified = False, xi_display_name = [], xi_picture_url = []\<rparr> 0]\<rparr>"

theorem unlink_keeps_identity_witness:
  "\<exists>s'. UnlinkIdentityAndRotate True 5 \<lparr>ul_user = ''u1'', ul_session = ''s1'', ul_provider = ''google'',
       ul_new_session = demo_session\<lparr>s_id := ''s2'', s_token_hash := demo_hash ''xok''\<rparr>, ul_now = 5,
       ul_cooldown_until = 50\<rparr> demo_two_identities = Inr ((), s')
     \<and> (\<exists>a \<in> set (auth_identities s'). active_identity ''u1'' a)"
proof -
  let ?rq = "\<lparr>ul_user = ''u1'', ul_session = ''s1'', ul_provider = ''google'',
       ul_new_session = demo_session\<lparr>s_id := ''s2'', s_token_hash := demo_hash ''xok''\<rparr>, ul_now = 5,
       ul_cooldown_until = 50\<rparr>"
  obtain s' where u: "UnlinkIdentityAndRotate True 5 ?rq demo_two_identities = Inr ((), s')"
    by (simp add: UnlinkIdentityAndRotate_def demo_two_identities_def demo_signed_in_def demo_session_def
        session_record.defs active_identity_def new_identity_def duration_defs insertSession_def session_check_def
        demo_hash_def demo_auth_user_def revoke_sessions_def Let_def)
  show ?thesis using u unlink_keeps_identity [OF u] by auto
qed

end
