(* ===== verification/Tenant.thy ===== *)
theory Tenant
  imports Schema GoText "HOL-Library.Product_Lexorder"
begin

text \<open>
  Organizations, memberships, invitations and LINE connections: the domain types of
  src/api/internal/tenant/tenant.go, the transactions of src/api/internal/postgres/tenant.go and
  src/api/internal/postgres/business_profile.go, and the stored functions and triggers of migrations
  000002 and 000003 they run.  Identifiers, hashes and instants are arguments, as in the Go code; \<^verbatim>\<open>dbnow\<close> is
  the server's \<^verbatim>\<open>now()\<close> and \<^verbatim>\<open>collate\<close> the collation key of the database's text ordering.  The row level
  security policies are not modelled: every statement carries its organization explicitly.
\<close>

section \<open>Roles and actions\<close>

datatype action =
    EditOrganization | InviteMember | RemoveMember | ManageRoles | TransferOwnershipAction | ManageGroup

fun Allows :: "role \<Rightarrow> action \<Rightarrow> bool" where
  "Allows Owner action = True"
| "Allows Admin action =
     (action = EditOrganization \<or> action = InviteMember \<or> action = RemoveMember \<or> action = ManageGroup)"
| "Allows _ action = False"

section \<open>Domain types\<close>

record organization =
  org_id :: id
  org_name :: string
  org_role :: role

record membership =
  ms_org :: id
  ms_org_name :: string
  ms_user :: id
  ms_display_name :: string
  ms_role :: role
  ms_created_at :: time

record invitation =
  inv_id :: id
  inv_org :: id
  inv_org_name :: string
  inv_inviter_name :: string
  inv_role :: role
  inv_expires_at :: time

record line_connection =
  con_id :: id
  con_group :: string
  con_status :: string
  con_created_at :: time
  con_ended_at :: "time option"

record invite_create =
  ic_id :: id
  ic_org :: id
  ic_actor :: id
  ic_token_hash :: bytes
  ic_now :: time
  ic_expires_at :: time

record invite_claim =
  il_token_hash :: bytes
  il_handoff_hash :: bytes
  il_return_to :: string
  il_now :: time
  il_expires_at :: time

record line_code_create =
  lk_id :: id
  lk_org :: id
  lk_actor :: id
  lk_channel :: string
  lk_code_hash :: bytes
  lk_now :: time
  lk_expires_at :: time

section \<open>Helpers of every transaction\<close>

definition is_member_row :: "id \<Rightarrow> id \<Rightarrow> membership_row \<Rightarrow> bool" where
  "is_member_row org user m = (m_org m = org \<and> m_user m = user)"

definition membershipFor :: "id \<Rightarrow> id \<Rightarrow> store \<Rightarrow> membership result" where
  "membershipFor user org s =
     (case query_row (is_member_row org user) (memberships s) of
        None \<Rightarrow> Inl Tenant_ErrNotFound
      | Some m \<Rightarrow>
          (case query_row (\<lambda>g. o_id g = m_org m) (organizations s) of
             None \<Rightarrow> Inl Tenant_ErrNotFound
           | Some g \<Rightarrow> Inr \<lparr>ms_org = m_org m, ms_org_name = o_name g, ms_user = m_user m,
                              ms_display_name = [], ms_role = m_role m,
                              ms_created_at = m_created_at m\<rparr>))"

definition currentRole :: "id \<Rightarrow> id \<Rightarrow> store \<Rightarrow> role result" where
  "currentRole user org s = (case membershipFor user org s of Inl e \<Rightarrow> Inl e | Inr m \<Rightarrow> Inr (ms_role m))"

definition audit_tenant_row :: "id \<Rightarrow> id \<Rightarrow> string \<Rightarrow> string \<Rightarrow> string \<Rightarrow> time \<Rightarrow> audit_row" where
  "audit_tenant_row org actor event target_type target now =
     \<lparr>au_org = Some org, au_actor = Some actor, au_type = event, au_target_type = target_type,
      au_target_id = target, au_request = None, au_outcome = ''success'', au_reason = None, au_metadata = JObject [],
      au_at = now\<rparr>"

definition auditTenant :: "id \<Rightarrow> id \<Rightarrow> string \<Rightarrow> string \<Rightarrow> string \<Rightarrow> time \<Rightarrow> store \<Rightarrow> store" where
  "auditTenant org actor event target_type target now s =
     s\<lparr>audit_events := audit_events s @ [audit_tenant_row org actor event target_type target now]\<rparr>"

definition organization_role :: "id \<Rightarrow> id \<Rightarrow> store \<Rightarrow> role option" where
  "organization_role user org s = map_option m_role (query_row (is_member_row org user) (memberships s))"

definition is_manager :: "role option \<Rightarrow> bool" where
  "is_manager r = (r = Some Owner \<or> r = Some Admin)"

text \<open>The deferred trigger \<^verbatim>\<open>memberships_retain_owner\<close>: for every Owner row that the transaction
  updated or deleted, the organization still has an Owner at commit.\<close>

definition enforce_organization_owner :: "membership_row list \<Rightarrow> membership_row list \<Rightarrow> bool" where
  "enforce_organization_owner old new =
     list_all (\<lambda>m. m_role m = Owner \<and> m \<notin> set new \<longrightarrow>
                    row_exists (\<lambda>n. m_org n = m_org m \<and> m_role n = Owner) new) old"

definition commit_memberships :: "store \<Rightarrow> store \<Rightarrow> (unit, store) txn" where
  "commit_memberships s0 s' s =
     (if enforce_organization_owner (memberships s0) (memberships s')
      then Inr ((), s') else Inl (RaisedException ''organization must retain an owner''))"

section \<open>Organizations\<close>

definition seed_categories :: "bytes list" where
  "seed_categories =
    [[CHR 0xE0, CHR 0xB8, CHR 0x84, CHR 0xE0, CHR 0xB9, CHR 0x88, CHR 0xE0, CHR 0xB8, CHR 0xB2,
      CHR 0xE0, CHR 0xB9, CHR 0x80, CHR 0xE0, CHR 0xB8, CHR 0x94, CHR 0xE0, CHR 0xB8, CHR 0xB4,
      CHR 0xE0, CHR 0xB8, CHR 0x99, CHR 0xE0, CHR 0xB8, CHR 0x97, CHR 0xE0, CHR 0xB8, CHR 0xB2,
      CHR 0xE0, CHR 0xB8, CHR 0x87],
     [CHR 0xE0, CHR 0xB8, CHR 0x84, CHR 0xE0, CHR 0xB9, CHR 0x88, CHR 0xE0, CHR 0xB8, CHR 0xB2,
      CHR 0xE0, CHR 0xB8, CHR 0xAD, CHR 0xE0, CHR 0xB8, CHR 0xB2, CHR 0xE0, CHR 0xB8, CHR 0xAB,
      CHR 0xE0, CHR 0xB8, CHR 0xB2, CHR 0xE0, CHR 0xB8, CHR 0xA3],
     [CHR 0xE0, CHR 0xB8, CHR 0xA7, CHR 0xE0, CHR 0xB8, CHR 0xB1, CHR 0xE0, CHR 0xB8, CHR 0xAA,
      CHR 0xE0, CHR 0xB8, CHR 0x94, CHR 0xE0, CHR 0xB8, CHR 0xB8, CHR 0xE0, CHR 0xB8, CHR 0xAA,
      CHR 0xE0, CHR 0xB8, CHR 0xB3, CHR 0xE0, CHR 0xB8, CHR 0x99, CHR 0xE0, CHR 0xB8, CHR 0xB1,
      CHR 0xE0, CHR 0xB8, CHR 0x81, CHR 0xE0, CHR 0xB8, CHR 0x87, CHR 0xE0, CHR 0xB8, CHR 0xB2,
      CHR 0xE0, CHR 0xB8, CHR 0x99]]"

definition seed_category :: "id \<Rightarrow> time \<Rightarrow> id \<times> bytes \<Rightarrow> category_row" where
  "seed_category org now seed =
     \<lparr>ec_id = fst seed, ec_org = org, ec_name = snd seed, ec_archived_at = None,
      ec_created_at = now, ec_updated_at = now\<rparr>"

definition empty_profile :: business_profile where
  "empty_profile = \<lparr>bp_business_type = [], bp_vat_status = [], bp_branch_type = [], bp_name_th = [],
     bp_name_en = [], bp_tax_id = [], bp_address_1 = [], bp_address_2 = [], bp_district = [],
     bp_province = [], bp_postal_code = [], bp_phone = [], bp_logo = None, bp_logo_type = []\<rparr>"

definition create_user_organization ::
  "id \<Rightarrow> id \<Rightarrow> string \<Rightarrow> time \<Rightarrow> (organization, store) txn" where
  "create_user_organization user org name now s =
     (if \<not> (1 \<le> rune_count (btrim name) \<and> rune_count (btrim name) \<le> 160)
      then Inl (CheckViolation ''organizations'')
      else if row_exists (\<lambda>g. o_id g = org) (organizations s)
      then Inl (UniqueViolation ''organizations_pkey'')
      else if row_exists (is_member_row org user) (memberships s)
      then Inl (UniqueViolation ''memberships_pkey'')
      else if row_exists (\<lambda>m. m_org m = org \<and> m_role m = Owner) (memberships s)
      then Inl (UniqueViolation ''memberships_one_owner_uidx'')
      else if \<not> row_exists (\<lambda>u. u_id u = user) (users s)
      then Inl (ForeignKeyViolation ''memberships'')
      else Inr (\<lparr>org_id = org, org_name = btrim name, org_role = Owner\<rparr>,
        s\<lparr>organizations := organizations s @
            [\<lparr>o_id = org, o_name = btrim name, o_timezone = ''Asia/Bangkok'',
              o_profile = empty_profile, o_created_at = now, o_updated_at = now\<rparr>],
          memberships := memberships s @
            [\<lparr>m_org = org, m_user = user, m_role = Owner, m_created_at = now, m_updated_at = now\<rparr>]\<rparr>))"

text \<open>\<^verbatim>\<open>uuids\<close> are the values \<^verbatim>\<open>gen_random_uuid()\<close> returns for the three seeded categories and
  \<^verbatim>\<open>has_categories\<close> says whether migration 000010 has run.\<close>

definition CreateOrganization ::
  "id list \<Rightarrow> bool \<Rightarrow> id \<Rightarrow> id \<Rightarrow> string \<Rightarrow> time \<Rightarrow> (organization, store) txn" where
  "CreateOrganization uuids has_categories user org name now s =
     (case create_user_organization user org name now s of
        Inl e \<Rightarrow> Inl e
      | Inr (organization, s1) \<Rightarrow>
          Inr (organization,
            auditTenant org user ''organization.create'' ''organization'' org now
              (if has_categories
               then s1\<lparr>expense_categories := expense_categories s1 @
                         map (seed_category org now) (zip uuids seed_categories)\<rparr>
               else s1)))"

definition ListOrganizations :: "(string \<Rightarrow> string) \<Rightarrow> id \<Rightarrow> store \<Rightarrow> organization list" where
  "ListOrganizations collate user s =
     sort_key (\<lambda>g. (collate (org_name g), org_id g))
       (concat (map (\<lambda>m. map (\<lambda>g. \<lparr>org_id = o_id g, org_name = o_name g, org_role = m_role m\<rparr>)
                             (filter (\<lambda>g. o_id g = m_org m) (organizations s)))
                    (filter (\<lambda>m. m_user m = user) (memberships s))))"

section \<open>Memberships\<close>

definition ResolveMembership :: "id \<Rightarrow> id \<Rightarrow> store \<Rightarrow> membership result" where
  "ResolveMembership user org s = membershipFor user org s"

definition ListMemberships :: "(string \<Rightarrow> string) \<Rightarrow> id \<Rightarrow> id \<Rightarrow> store \<Rightarrow> membership list result" where
  "ListMemberships collate user org s =
     (case membershipFor user org s of
        Inl e \<Rightarrow> Inl e
      | Inr _ \<Rightarrow> Inr
          (sort_key (\<lambda>m. (collate (role_name (ms_role m)), ms_created_at m, ms_user m))
            (concat (map (\<lambda>m. map (\<lambda>u. \<lparr>ms_org = m_org m, ms_org_name = [], ms_user = m_user m,
                                         ms_display_name = (case u_display_name u of None \<Rightarrow> [] | Some n \<Rightarrow> n),
                                         ms_role = m_role m, ms_created_at = m_created_at m\<rparr>)
                                  (filter (\<lambda>u. u_id u = m_user m) (users s)))
                         (filter (\<lambda>m. m_org m = org) (memberships s))))))"

definition ChangeRole :: "id \<Rightarrow> id \<Rightarrow> id \<Rightarrow> role \<Rightarrow> time \<Rightarrow> (unit, store) txn" where
  "ChangeRole org actor target newRole now s =
     (if newRole \<noteq> Admin \<and> newRole \<noteq> Member then Inl Tenant_ErrForbidden
      else case currentRole actor org s of
        Inl _ \<Rightarrow> Inl Tenant_ErrForbidden
      | Inr role \<Rightarrow>
          if \<not> Allows role ManageRoles then Inl Tenant_ErrForbidden
          else
            let cond = (\<lambda>m. m_org m = org \<and> m_user m = target \<and> m_user m \<noteq> actor \<and> m_role m \<noteq> Owner);
                s1 = s\<lparr>memberships :=
                  sql_update cond (\<lambda>m. m\<lparr>m_role := newRole, m_updated_at := now\<rparr>) (memberships s)\<rparr>
            in if rows_affected cond (memberships s) \<noteq> 1 then Inl Tenant_ErrNotFound
               else commit_memberships s
                      (auditTenant org actor ''membership.role_change'' ''user'' target now s1) s)"

text \<open>\<^verbatim>\<open>transfer_organization_ownership\<close>.  The guard is a three-valued disjunction: for an actor who
  is no member \<^verbatim>\<open>organization_role\<close> is NULL, \<^verbatim>\<open>NULL <> 'Owner'\<close> is NULL, and an \<^verbatim>\<open>IF\<close> whose condition
  is NULL does not raise.\<close>

definition transfer_guard_raises :: "id \<Rightarrow> id \<Rightarrow> id \<Rightarrow> store \<Rightarrow> bool" where
  "transfer_guard_raises org actor target s =
     ((\<exists>r \<in> set_option (organization_role actor org s). r \<noteq> Owner)
      \<or> \<not> row_exists (is_member_row org target) (memberships s)
      \<or> actor = target)"

definition transfer_organization_ownership :: "id \<Rightarrow> id \<Rightarrow> id \<Rightarrow> time \<Rightarrow> (unit, store) txn" where
  "transfer_organization_ownership org actor target now s =
     (if transfer_guard_raises org actor target s
      then Inl (RaisedException ''ownership transfer is unavailable'')
      else
        let demoted = sql_update (is_member_row org actor)
                        (\<lambda>m. m\<lparr>m_role := Admin, m_updated_at := now\<rparr>) (memberships s)
        in if row_exists (\<lambda>m. m_org m = org \<and> m_role m = Owner \<and> m_user m \<noteq> target) demoted
           then Inl (UniqueViolation ''memberships_one_owner_uidx'')
           else Inr ((), s\<lparr>memberships := sql_update (is_member_row org target)
                             (\<lambda>m. m\<lparr>m_role := Owner, m_updated_at := now\<rparr>) demoted\<rparr>))"

definition TransferOwnership :: "id \<Rightarrow> id \<Rightarrow> id \<Rightarrow> time \<Rightarrow> (unit, store) txn" where
  "TransferOwnership org actor target now s =
     (case transfer_organization_ownership org actor target now s of
        Inl _ \<Rightarrow> Inl Tenant_ErrConflict
      | Inr (_, s1) \<Rightarrow>
          commit_memberships s
            (auditTenant org actor ''organization.ownership_transfer'' ''user'' target now s1) s)"

text \<open>Deleting a membership runs the trigger \<^verbatim>\<open>phase2_membership_cleanup\<close> and the foreign keys: rows that
  name the member through a key without a delete action block it, preferences and notifications (with
  their deliveries) cascade, durable jobs lose their requester.\<close>

definition phase2_membership_cleanup :: "id \<Rightarrow> id \<Rightarrow> time \<Rightarrow> store \<Rightarrow> store" where
  "phase2_membership_cleanup org user dbnow s =
     s\<lparr>tasks := sql_update (\<lambda>t. t_org t = org \<and> t_assignee t = Some user)
                  (\<lambda>t. t\<lparr>t_assignee := None, t_updated_at := dbnow\<rparr>) (tasks s),
       task_watchers := sql_delete (\<lambda>w. w_org w = org \<and> w_user w = user) (task_watchers s),
       reminders := sql_delete (\<lambda>r. re_org r = org \<and> re_recipient r = user) (reminders s)\<rparr>"

definition membership_referenced :: "id \<Rightarrow> id \<Rightarrow> store \<Rightarrow> bool" where
  "membership_referenced org user s =
     (row_exists (\<lambda>i. iv_org i = org \<and> iv_inviter i = user) (invitations s)
    \<or> row_exists (\<lambda>c. lc_org c = org \<and> (lc_connected_by c = user \<or> lc_disconnected_by c = Some user))
        (line_group_connections s)
    \<or> row_exists (\<lambda>l. ll_org l = org \<and> ll_user l = user) (line_link_codes s)
    \<or> row_exists (\<lambda>j. ej_org j = org \<and> ej_requester j = user) (export_jobs s)
    \<or> row_exists (\<lambda>d. d_org d = org \<and> (d_submitter d = Some user \<or> d_assignee d = Some user)) (documents s)
    \<or> row_exists (\<lambda>d. ds_org d = org \<and> ds_submitter d = Some user) (document_sources s)
    \<or> row_exists (\<lambda>d. ia_org d = org \<and> ia_actor d = Some user) (document_intake_attempts s)
    \<or> row_exists (\<lambda>r. er_org r = org \<and> er_confirmed_by r = user) (document_extraction_reviews s)
    \<or> row_exists (\<lambda>r. ru_org r = org \<and> ru_approved_by r = user) (accounting_mapping_rules s)
    \<or> row_exists (\<lambda>r. sg_org r = org \<and> sg_approved_by r = user) (accounting_suggestions s)
    \<or> row_exists (\<lambda>r. rd_org r = org \<and> rd_updated_by r = user) (document_review_drafts s))"

definition cascade_membership :: "id \<Rightarrow> id \<Rightarrow> store \<Rightarrow> store" where
  "cascade_membership org user s =
     (let gone = (\<lambda>n. n_org n = org \<and> n_recipient n = user)
      in s\<lparr>notification_preferences :=
             sql_delete (\<lambda>p. np_org p = org \<and> np_user p = user) (notification_preferences s),
           notification_deliveries :=
             sql_delete (\<lambda>d. nd_org d = org \<and>
               row_exists (\<lambda>n. gone n \<and> n_id n = nd_notification d) (notifications s))
               (notification_deliveries s),
           notifications := sql_delete gone (notifications s),
           durable_jobs := sql_update (\<lambda>j. j_org j = org \<and> j_requester j = Some user)
             (\<lambda>j. j\<lparr>j_requester := None\<rparr>) (durable_jobs s)\<rparr>)"

definition delete_membership :: "time \<Rightarrow> id \<Rightarrow> id \<Rightarrow> (unit, store) txn" where
  "delete_membership dbnow org user s =
     (let s1 = phase2_membership_cleanup org user dbnow s
      in if membership_referenced org user s1 then Inl (ForeignKeyViolation ''memberships'')
         else Inr ((), (cascade_membership org user s1)
                \<lparr>memberships := sql_delete (is_member_row org user) (memberships s)\<rparr>))"

definition RemoveMembership :: "time \<Rightarrow> id \<Rightarrow> id \<Rightarrow> id \<Rightarrow> time \<Rightarrow> (unit, store) txn" where
  "RemoveMembership dbnow org actor target now s =
     (case currentRole actor org s of
        Inl _ \<Rightarrow> Inl Tenant_ErrForbidden
      | Inr actorRole \<Rightarrow>
          if \<not> Allows actorRole RemoveMember then Inl Tenant_ErrForbidden
          else case query_row (is_member_row org target) (memberships s) of
            None \<Rightarrow> Inl Tenant_ErrNotFound
          | Some m \<Rightarrow>
              if m_role m = Owner \<or> (actorRole = Admin \<and> m_role m \<noteq> Member) then Inl Tenant_ErrForbidden
              else case delete_membership dbnow org target s of
                Inl e \<Rightarrow> Inl e
              | Inr (_, s1) \<Rightarrow>
                  commit_memberships s
                    (auditTenant org actor ''membership.remove'' ''user'' target now s1) s)"

definition LeaveOrganization :: "time \<Rightarrow> id \<Rightarrow> id \<Rightarrow> time \<Rightarrow> (unit, store) txn" where
  "LeaveOrganization dbnow org user now s =
     (case currentRole user org s of
        Inl e \<Rightarrow> Inl e
      | Inr role \<Rightarrow>
          if role = Owner then Inl Tenant_ErrConflict
          else case delete_membership dbnow org user s of
            Inl e \<Rightarrow> Inl e
          | Inr (_, s1) \<Rightarrow>
              commit_memberships s (auditTenant org user ''membership.leave'' ''user'' user now s1) s)"

section \<open>Invitations\<close>

definition CreateInvitation :: "invite_create \<Rightarrow> (unit, store) txn" where
  "CreateInvitation i s =
     (case currentRole (ic_actor i) (ic_org i) s of
        Inl _ \<Rightarrow> Inl Tenant_ErrForbidden
      | Inr role \<Rightarrow>
          if \<not> Allows role InviteMember then Inl Tenant_ErrForbidden
          else if length (ic_token_hash i) \<noteq> 32 \<or> ic_expires_at i \<le> ic_now i
          then Inl (CheckViolation ''invitations'')
          else if row_exists (\<lambda>r. iv_id r = ic_id i) (invitations s)
          then Inl (UniqueViolation ''invitations_pkey'')
          else if row_exists (\<lambda>r. iv_token_hash r = ic_token_hash i) (invitations s)
          then Inl (UniqueViolation ''invitations_token_hash_key'')
          else Inr ((), auditTenant (ic_org i) (ic_actor i) ''invitation.create'' ''invitation'' (ic_id i) (ic_now i)
            (s\<lparr>invitations := invitations s @
               [\<lparr>iv_id = ic_id i, iv_org = ic_org i, iv_inviter = ic_actor i, iv_role = Member,
                 iv_token_hash = ic_token_hash i, iv_created_at = ic_now i,
                 iv_expires_at = ic_expires_at i, iv_revoked_at = None, iv_accepted_by = None,
                 iv_accepted_at = None\<rparr>]\<rparr>)))"

text \<open>The condition both stored functions put on an invitation: pending, not expired, and issued by
  someone who manages the organization at this moment.\<close>

definition invitation_usable :: "time \<Rightarrow> store \<Rightarrow> invitation_row \<Rightarrow> bool" where
  "invitation_usable at_time s i =
     (iv_revoked_at i = None \<and> iv_accepted_at i = None \<and> at_time < iv_expires_at i
      \<and> is_manager (organization_role (iv_inviter i) (iv_org i) s))"

definition default_inviter_name :: bytes where
  "default_inviter_name =
    [CHR 0xE0, CHR 0xB8, CHR 0xAA, CHR 0xE0, CHR 0xB8, CHR 0xA1, CHR 0xE0, CHR 0xB8, CHR 0xB2,
     CHR 0xE0, CHR 0xB8, CHR 0x8A, CHR 0xE0, CHR 0xB8, CHR 0xB4, CHR 0xE0, CHR 0xB8, CHR 0x81,
     CHR 0x20, CHR 0x50, CHR 0x6C, CHR 0x61, CHR 0x69, CHR 0x46, CHR 0x6C, CHR 0x6F, CHR 0x77]"

definition claim_member_invitation ::
  "bytes \<Rightarrow> bytes \<Rightarrow> string \<Rightarrow> time \<Rightarrow> time \<Rightarrow> (invitation option, store) txn" where
  "claim_member_invitation token_hash handoff_hash return_to at_time handoff_expiry s =
     (case query_row (\<lambda>i. iv_token_hash i = token_hash \<and> invitation_usable at_time s i) (invitations s) of
        None \<Rightarrow> Inr (None, s)
      | Some i \<Rightarrow>
          if handoff_expiry > at_time + 5 * Minute then Inr (None, s)
          else if length handoff_hash \<noteq> 32 \<or> handoff_expiry \<le> at_time
          then Inl (CheckViolation ''invite_handoffs'')
          else if row_exists (\<lambda>h. ih_token_hash h = handoff_hash) (invite_handoffs s)
          then Inl (UniqueViolation ''invite_handoffs_pkey'')
          else Inr
            (case (query_row (\<lambda>g. o_id g = iv_org i) (organizations s),
                   query_row (\<lambda>u. u_id u = iv_inviter i) (users s)) of
               (Some g, Some u) \<Rightarrow> Some
                 \<lparr>inv_id = iv_id i, inv_org = o_id g, inv_org_name = o_name g,
                  inv_inviter_name = (case u_display_name u of None \<Rightarrow> default_inviter_name | Some n \<Rightarrow> n),
                  inv_role = iv_role i, inv_expires_at = iv_expires_at i\<rparr>
             | _ \<Rightarrow> None,
             s\<lparr>invite_handoffs := invite_handoffs s @
                [\<lparr>ih_token_hash = handoff_hash, ih_invitation = iv_id i, ih_return_to = return_to,
                  ih_created_at = at_time, ih_expires_at = handoff_expiry, ih_consumed_at = None\<rparr>]\<rparr>))"

text \<open>\<^verbatim>\<open>ClaimInvitation\<close> runs one statement outside a transaction, so the error for an empty result
  comes with the state the function left.\<close>

definition ClaimInvitation :: "invite_claim \<Rightarrow> (invitation result, store) txn" where
  "ClaimInvitation c s =
     (case claim_member_invitation (il_token_hash c) (il_handoff_hash c) (il_return_to c)
             (il_now c) (il_expires_at c) s of
        Inl e \<Rightarrow> Inl e
      | Inr (None, s') \<Rightarrow> Inr (Inl Tenant_ErrInvalidInvite, s')
      | Inr (Some i, s') \<Rightarrow> Inr (Inr i, s'))"

definition accept_member_invitation ::
  "bytes \<Rightarrow> id \<Rightarrow> time \<Rightarrow> (organization option, store) txn" where
  "accept_member_invitation handoff_hash user at_time s =
     (case query_row (\<lambda>h. ih_token_hash h = handoff_hash \<and> ih_consumed_at h = None
                           \<and> at_time < ih_expires_at h) (invite_handoffs s) of
        None \<Rightarrow> Inr (None, s)
      | Some h \<Rightarrow>
          (case query_row (\<lambda>i. iv_id i = ih_invitation h \<and> invitation_usable at_time s i) (invitations s) of
             None \<Rightarrow> Inr (None, s)
           | Some i \<Rightarrow>
               if \<not> row_exists (\<lambda>u. u_id u = user) (users s) then Inl (ForeignKeyViolation ''memberships'')
               else
                 let s1 = (if row_exists (is_member_row (iv_org i) user) (memberships s) then s
                           else s\<lparr>memberships := memberships s @
                             [\<lparr>m_org = iv_org i, m_user = user, m_role = Member,
                               m_created_at = at_time, m_updated_at = at_time\<rparr>]\<rparr>);
                     s2 = s1\<lparr>invitations := sql_update (\<lambda>r. iv_id r = iv_id i)
                            (\<lambda>r. r\<lparr>iv_accepted_by := Some user, iv_accepted_at := Some at_time\<rparr>) (invitations s1),
                          invite_handoffs := sql_update (\<lambda>r. ih_token_hash r = handoff_hash)
                            (\<lambda>r. r\<lparr>ih_consumed_at := Some at_time\<rparr>) (invite_handoffs s1)\<rparr>;
                     s3 = auditTenant (iv_org i) user ''invitation.redeem'' ''invitation'' (iv_id i) at_time s2
                 in Inr (map_option (\<lambda>g. \<lparr>org_id = o_id g, org_name = o_name g, org_role = Member\<rparr>)
                           (query_row (\<lambda>g. o_id g = iv_org i) (organizations s3)), s3)))"

definition AcceptInvitation :: "bytes \<Rightarrow> id \<Rightarrow> time \<Rightarrow> (organization, store) txn" where
  "AcceptInvitation handoff_hash user now s =
     (case accept_member_invitation handoff_hash user now s of
        Inl e \<Rightarrow> Inl e
      | Inr (None, _) \<Rightarrow> Inl Tenant_ErrInvalidInvite
      | Inr (Some g, s') \<Rightarrow> Inr (g, s'))"

text \<open>The \<^verbatim>\<open>UPDATE\<close> of \<^verbatim>\<open>RevokeInvitation\<close> passes four parameters and uses \<^verbatim>\<open>$1\<close>, \<^verbatim>\<open>$2\<close> and \<^verbatim>\<open>$4\<close>;
  \<^verbatim>\<open>accepts\<close> says whether the server prepares a statement with a parameter it cannot type.\<close>

definition RevokeInvitation :: "bool \<Rightarrow> id \<Rightarrow> id \<Rightarrow> id \<Rightarrow> time \<Rightarrow> (unit, store) txn" where
  "RevokeInvitation accepts org actor target now s =
     (case currentRole actor org s of
        Inl _ \<Rightarrow> Inl Tenant_ErrForbidden
      | Inr role \<Rightarrow>
          if \<not> Allows role InviteMember then Inl Tenant_ErrForbidden
          else if \<not> accepts then Inl (StatementRejected ''could not determine data type of parameter $3'')
          else
            let cond = (\<lambda>i. iv_id i = target \<and> iv_org i = org \<and> iv_revoked_at i = None
                            \<and> iv_accepted_at i = None \<and> now < iv_expires_at i)
            in if rows_affected cond (invitations s) \<noteq> 1 then Inl Tenant_ErrNotFound
               else Inr ((), auditTenant org actor ''invitation.revoke'' ''invitation'' target now
                      (s\<lparr>invitations := sql_update cond (\<lambda>i. i\<lparr>iv_revoked_at := Some now\<rparr>) (invitations s)\<rparr>)))"

section \<open>Business profile\<close>

text \<open>\<^verbatim>\<open>HasLogo\<close> is not a field of its own: it is \<^verbatim>\<open>len(Logo) > 0\<close>.\<close>

definition GetBusinessProfile :: "id \<Rightarrow> id \<Rightarrow> store \<Rightarrow> (business_profile \<times> bool) result" where
  "GetBusinessProfile user org s =
     (case membershipFor user org s of
        Inl e \<Rightarrow> Inl e
      | Inr _ \<Rightarrow>
          (case query_row (\<lambda>g. o_id g = org) (organizations s) of
             None \<Rightarrow> Inl ErrNoRows
           | Some g \<Rightarrow> Inr (o_profile g,
               case bp_logo (o_profile g) of None \<Rightarrow> False | Some logo \<Rightarrow> logo \<noteq> [])))"

definition UpdateBusinessProfile :: "id \<Rightarrow> id \<Rightarrow> business_profile \<Rightarrow> time \<Rightarrow> (unit, store) txn" where
  "UpdateBusinessProfile user org p now s =
     (case currentRole user org s of
        Inl e \<Rightarrow> Inl e
      | Inr role \<Rightarrow>
          if \<not> Allows role EditOrganization then Inl Tenant_ErrForbidden
          else if \<not> (1 \<le> rune_count (btrim (bp_name_th p)) \<and> rune_count (btrim (bp_name_th p)) \<le> 160)
          then Inl (CheckViolation ''organizations'')
          else Inr ((), auditTenant org user ''organization.business_update'' ''organization'' org now
            (s\<lparr>organizations := sql_update (\<lambda>g. o_id g = org)
               (\<lambda>g. g\<lparr>o_name := bp_name_th p,
                      o_profile := p\<lparr>bp_logo := (case bp_logo p of None \<Rightarrow> bp_logo (o_profile g) | Some l \<Rightarrow> Some l),
                                    bp_logo_type := (case bp_logo p of None \<Rightarrow> bp_logo_type (o_profile g)
                                                                       | Some _ \<Rightarrow> bp_logo_type p)\<rparr>,
                      o_updated_at := now\<rparr>) (organizations s)\<rparr>)))"

section \<open>LINE groups\<close>

definition CreateLineLinkCode :: "line_code_create \<Rightarrow> (unit, store) txn" where
  "CreateLineLinkCode c s =
     (case currentRole (lk_actor c) (lk_org c) s of
        Inl _ \<Rightarrow> Inl Tenant_ErrForbidden
      | Inr role \<Rightarrow>
          if \<not> Allows role ManageGroup then Inl Tenant_ErrForbidden
          else case query_row (\<lambda>a. ai_user a = lk_actor c \<and> ai_provider a = ''line'' \<and> ai_disabled_at a = None)
                      (auth_identities s) of
            None \<Rightarrow> Inl Tenant_ErrForbidden
          | Some a \<Rightarrow>
              let revoked = sql_update (\<lambda>l. ll_org l = lk_org c \<and> ll_user l = lk_actor c
                                            \<and> ll_revoked_at l = None \<and> ll_consumed_at l = None)
                              (\<lambda>l. l\<lparr>ll_revoked_at := Some (lk_now c)\<rparr>) (line_link_codes s)
              in if length (lk_code_hash c) \<noteq> 32 \<or> lk_expires_at c \<le> lk_now c
                    \<or> lk_expires_at c > lk_now c + 10 * Minute
                 then Inl (CheckViolation ''line_link_codes'')
                 else if row_exists (\<lambda>l. ll_id l = lk_id c) revoked
                 then Inl (UniqueViolation ''line_link_codes_pkey'')
                 else if row_exists (\<lambda>l. ll_hash l = lk_code_hash c) revoked
                 then Inl (UniqueViolation ''line_link_codes_code_hash_key'')
                 else Inr ((), auditTenant (lk_org c) (lk_actor c) ''line.group_code_create''
                        ''line_link_code'' (lk_id c) (lk_now c)
                        (s\<lparr>line_link_codes := revoked @
                           [\<lparr>ll_id = lk_id c, ll_hash = lk_code_hash c, ll_org = lk_org c,
                             ll_user = lk_actor c, ll_subject = ai_subject a, ll_channel = lk_channel c,
                             ll_created_at = lk_now c, ll_expires_at = lk_expires_at c,
                             ll_revoked_at = None, ll_consumed_at = None\<rparr>]\<rparr>)))"

definition ListLineConnections :: "id \<Rightarrow> id \<Rightarrow> store \<Rightarrow> line_connection list result" where
  "ListLineConnections org user s =
     (case membershipFor user org s of
        Inl e \<Rightarrow> Inl e
      | Inr _ \<Rightarrow> Inr (map (\<lambda>c. \<lparr>con_id = lc_id c, con_group = lc_group c, con_status = lc_status c,
                                con_created_at = lc_connected_at c, con_ended_at = lc_disconnected_at c\<rparr>)
          (sort_key (\<lambda>c. (- lc_connected_at c, lc_id c))
             (filter (\<lambda>c. lc_org c = org) (line_group_connections s)))))"

definition DisconnectLineConnection :: "id \<Rightarrow> id \<Rightarrow> id \<Rightarrow> time \<Rightarrow> (unit, store) txn" where
  "DisconnectLineConnection org actor con now s =
     (case currentRole actor org s of
        Inl _ \<Rightarrow> Inl Tenant_ErrForbidden
      | Inr role \<Rightarrow>
          if \<not> Allows role ManageGroup then Inl Tenant_ErrForbidden
          else
            let cond = (\<lambda>c. lc_id c = con \<and> lc_org c = org \<and> lc_status c = ''connected'')
            in if rows_affected cond (line_group_connections s) \<noteq> 1 then Inl Tenant_ErrNotFound
               else Inr ((), auditTenant org actor ''line.group_disconnect'' ''line_group_connection'' con now
                      (s\<lparr>line_group_connections := sql_update cond
                          (\<lambda>c. c\<lparr>lc_status := ''disconnected'', lc_disconnected_by := Some actor,
                                 lc_disconnected_at := Some now\<rparr>) (line_group_connections s)\<rparr>)))"

section \<open>What each operation does to the membership table\<close>

definition owner_of :: "id \<Rightarrow> membership_row \<Rightarrow> bool" where
  "owner_of org m = (m_org m = org \<and> m_role m = Owner)"

definition owners :: "id \<Rightarrow> store \<Rightarrow> nat" where
  "owners org s = rows_affected (owner_of org) (memberships s)"

abbreviation membership_key :: "membership_row \<Rightarrow> (id \<times> id) option" where
  "membership_key m \<equiv> Some (m_org m, m_user m)"

definition organization_ids :: "store \<Rightarrow> id set" where
  "organization_ids s = set (map o_id (organizations s))"

lemmas membership_defs = is_member_row_def owner_of_def

lemma auditTenant_simps [simp]:
  "memberships (auditTenant org actor ev ty tg now s) = memberships s"
  "organizations (auditTenant org actor ev ty tg now s) = organizations s"
  "invitations (auditTenant org actor ev ty tg now s) = invitations s"
  "invite_handoffs (auditTenant org actor ev ty tg now s) = invite_handoffs s"
  "audit_events (auditTenant org actor ev ty tg now s) =
     audit_events s @ [audit_tenant_row org actor ev ty tg now]"
  by (simp_all add: auditTenant_def)

lemma cleanup_simps [simp]:
  "memberships (phase2_membership_cleanup org user t s) = memberships s"
  "organizations (phase2_membership_cleanup org user t s) = organizations s"
  "invitations (phase2_membership_cleanup org user t s) = invitations s"
  by (simp_all add: phase2_membership_cleanup_def)

lemma cascade_simps [simp]:
  "memberships (cascade_membership org user s) = memberships s"
  "organizations (cascade_membership org user s) = organizations s"
  by (simp_all add: cascade_membership_def Let_def)

lemma organization_ids_audit [simp]:
  "organization_ids (auditTenant org actor ev ty tg now s) = organization_ids s"
  by (simp add: organization_ids_def)

lemma membershipFor_InrD:
  assumes "membershipFor user org s = Inr m"
  obtains r where "r \<in> set (memberships s)" "m_org r = org" "m_user r = user" "m_role r = ms_role m"
    "org \<in> organization_ids s" "ms_org m = org" "ms_user m = user"
  using assms
  by (auto simp: membershipFor_def organization_ids_def is_member_row_def
        split: option.splits dest!: query_row_SomeD)

lemma currentRole_InrD:
  assumes "currentRole user org s = Inr role"
  obtains r where "r \<in> set (memberships s)" "m_org r = org" "m_user r = user" "m_role r = role"
    "org \<in> organization_ids s"
proof -
  obtain m where m: "membershipFor user org s = Inr m" "role = ms_role m"
    using assms by (auto simp: currentRole_def split: sum.splits)
  then show thesis using that by (metis membershipFor_InrD)
qed

lemma commit_memberships_InrD:
  "commit_memberships s0 s' s = Inr (u, s'') \<Longrightarrow> s'' = s'"
  by (simp add: commit_memberships_def split: if_splits)

lemma CreateOrganization_InrD:
  assumes "CreateOrganization uuids hc user org name now s = Inr (r, s')"
  shows "org \<notin> organization_ids s"
    and "memberships s' = memberships s @
      [\<lparr>m_org = org, m_user = user, m_role = Owner, m_created_at = now, m_updated_at = now\<rparr>]"
    and "organization_ids s' = insert org (organization_ids s)"
    and "map o_id (organizations s') = map o_id (organizations s) @ [org]"
    and "\<forall>m \<in> set (memberships s). \<not> is_member_row org user m"
    and "\<forall>m \<in> set (memberships s). \<not> owner_of org m"
  using assms
  by (auto simp: CreateOrganization_def create_user_organization_def organization_ids_def owner_of_def
        row_exists_iff split: if_splits sum.splits)

lemma ChangeRole_InrD:
  assumes "ChangeRole org actor target newRole now s = Inr (u, s')"
  shows "newRole = Admin \<or> newRole = Member"
    and "currentRole actor org s = Inr Owner"
    and "actor \<noteq> target"
    and "memberships s' = sql_update
      (\<lambda>m. m_org m = org \<and> m_user m = target \<and> m_user m \<noteq> actor \<and> m_role m \<noteq> Owner)
      (\<lambda>m. m\<lparr>m_role := newRole, m_updated_at := now\<rparr>) (memberships s)"
    and "organizations s' = organizations s"
proof -
  obtain role where role: "newRole = Admin \<or> newRole = Member" "currentRole actor org s = Inr role"
    "Allows role ManageRoles"
    using assms by (auto simp: ChangeRole_def split: if_splits sum.splits)
  have owner: "role = Owner" using role(3) by (cases role) auto
  let ?cond = "\<lambda>m. m_org m = org \<and> m_user m = target \<and> m_user m \<noteq> actor \<and> m_role m \<noteq> Owner"
  have s': "rows_affected ?cond (memberships s) = 1"
    "s' = auditTenant org actor ''membership.role_change'' ''user'' target now
       (s\<lparr>memberships := sql_update ?cond (\<lambda>m. m\<lparr>m_role := newRole, m_updated_at := now\<rparr>) (memberships s)\<rparr>)"
    using assms role by (auto simp: ChangeRole_def Let_def split: if_splits dest!: commit_memberships_InrD)
  show "actor \<noteq> target"
  proof
    assume "actor = target"
    then have "rows_affected ?cond (memberships s) = 0" by (auto simp: rows_affected_zero_iff)
    then show False using s' by simp
  qed
  show "newRole = Admin \<or> newRole = Member" "currentRole actor org s = Inr Owner"
    using role owner by auto
  show "memberships s' = sql_update ?cond (\<lambda>m. m\<lparr>m_role := newRole, m_updated_at := now\<rparr>) (memberships s)"
    "organizations s' = organizations s"
    by (simp_all add: s'(2))
qed

definition transferred :: "id \<Rightarrow> id \<Rightarrow> id \<Rightarrow> time \<Rightarrow> membership_row list \<Rightarrow> membership_row list" where
  "transferred org actor target now ms =
     sql_update (is_member_row org target) (\<lambda>m. m\<lparr>m_role := Owner, m_updated_at := now\<rparr>)
       (sql_update (is_member_row org actor) (\<lambda>m. m\<lparr>m_role := Admin, m_updated_at := now\<rparr>) ms)"

lemma TransferOwnership_InrD:
  assumes "TransferOwnership org actor target now s = Inr (u, s')"
  shows "\<not> transfer_guard_raises org actor target s"
    and "memberships s' = transferred org actor target now (memberships s)"
    and "\<forall>m \<in> set (memberships s). owner_of org m \<longrightarrow> m_user m = actor \<or> m_user m = target"
    and "organizations s' = organizations s"
    and "audit_events s' = audit_events s @
      [audit_tenant_row org actor ''organization.ownership_transfer'' ''user'' target now]"
proof -
  let ?demoted = "sql_update (is_member_row org actor) (\<lambda>m. m\<lparr>m_role := Admin, m_updated_at := now\<rparr>) (memberships s)"
  obtain s1 where s1: "transfer_organization_ownership org actor target now s = Inr ((), s1)"
    and s': "s' = auditTenant org actor ''organization.ownership_transfer'' ''user'' target now s1"
    using assms by (auto simp: TransferOwnership_def split: sum.splits dest: commit_memberships_InrD)
  have one: "\<not> row_exists (\<lambda>m. m_org m = org \<and> m_role m = Owner \<and> m_user m \<noteq> target) ?demoted"
    and eq: "s1 = s\<lparr>memberships := transferred org actor target now (memberships s)\<rparr>"
    using s1 by (simp_all add: transfer_organization_ownership_def transferred_def Let_def split: if_splits)
  show "\<not> transfer_guard_raises org actor target s"
    using s1 by (simp add: transfer_organization_ownership_def split: if_splits)
  show "\<forall>m \<in> set (memberships s). owner_of org m \<longrightarrow> m_user m = actor \<or> m_user m = target"
  proof (intro ballI impI)
    fix m assume m: "m \<in> set (memberships s)" "owner_of org m"
    show "m_user m = actor \<or> m_user m = target"
    proof (rule ccontr)
      assume "\<not> ?thesis"
      then have "m \<in> set ?demoted" "m_user m \<noteq> target"
        using m by (auto simp: set_sql_update is_member_row_def image_iff)
      then show False using one m(2) by (auto simp: row_exists_iff owner_of_def)
    qed
  qed
  show "memberships s' = transferred org actor target now (memberships s)"
    "organizations s' = organizations s"
    "audit_events s' = audit_events s @
      [audit_tenant_row org actor ''organization.ownership_transfer'' ''user'' target now]"
    by (simp_all add: s' eq)
qed

lemma delete_membership_InrD:
  assumes "delete_membership dbnow org user s = Inr (u, s')"
  shows "memberships s' = sql_delete (is_member_row org user) (memberships s)"
    and "organizations s' = organizations s"
  using assms by (auto simp: delete_membership_def Let_def split: if_splits)

lemma RemoveMembership_InrD:
  assumes "RemoveMembership dbnow org actor target now s = Inr (u, s')"
  obtains actorRole m where "currentRole actor org s = Inr actorRole" "actorRole = Owner \<or> actorRole = Admin"
    "query_row (is_member_row org target) (memberships s) = Some m" "m_role m \<noteq> Owner"
    "actorRole = Admin \<longrightarrow> m_role m = Member"
    "memberships s' = sql_delete (is_member_row org target) (memberships s)"
    "organizations s' = organizations s"
proof -
  obtain role where role: "currentRole actor org s = Inr role" "Allows role RemoveMember"
    using assms by (auto simp: RemoveMembership_def split: if_splits sum.splits)
  obtain m where m: "query_row (is_member_row org target) (memberships s) = Some m"
    using assms role by (auto simp: RemoveMembership_def split: option.splits)
  have guard: "m_role m \<noteq> Owner" "role = Admin \<longrightarrow> m_role m = Member"
    using assms role m by (simp_all add: RemoveMembership_def split: if_splits)
  obtain s1 where s1: "delete_membership dbnow org target s = Inr ((), s1)"
    using assms role m guard by (simp add: RemoveMembership_def split: if_splits sum.splits) fastforce
  have s': "s' = auditTenant org actor ''membership.remove'' ''user'' target now s1"
    using assms role m guard s1
    by (simp add: RemoveMembership_def split: if_splits) (auto dest: commit_memberships_InrD)
  note * = role m guard s1 s'
  have "role = Owner \<or> role = Admin" using *(2) by (cases role) auto
  then show thesis using * delete_membership_InrD [OF s1] by (intro that) auto
qed

lemma LeaveOrganization_InrD:
  assumes "LeaveOrganization dbnow org user now s = Inr (u, s')"
  obtains role where "currentRole user org s = Inr role" "role \<noteq> Owner"
    "memberships s' = sql_delete (is_member_row org user) (memberships s)"
    "organizations s' = organizations s"
proof -
  obtain role s1 where *: "currentRole user org s = Inr role" "role \<noteq> Owner"
    "delete_membership dbnow org user s = Inr ((), s1)"
    "s' = auditTenant org user ''membership.leave'' ''user'' user now s1"
    using assms by (auto simp: LeaveOrganization_def split: if_splits sum.splits dest!: commit_memberships_InrD)
  then show thesis using delete_membership_InrD [OF *(3)] by (intro that) auto
qed

lemma AcceptInvitation_InrD:
  assumes "AcceptInvitation hash user now s = Inr (r, s')"
  obtains h i where "h \<in> set (invite_handoffs s)" "ih_token_hash h = hash" "ih_consumed_at h = None"
    "now < ih_expires_at h" "i \<in> set (invitations s)" "iv_id i = ih_invitation h" "invitation_usable now s i"
    "org_id r = iv_org i" "org_role r = Member"
    "memberships s' = (if row_exists (is_member_row (iv_org i) user) (memberships s) then memberships s
       else memberships s @ [\<lparr>m_org = iv_org i, m_user = user, m_role = Member,
                               m_created_at = now, m_updated_at = now\<rparr>])"
    "organizations s' = organizations s"
    "invitations s' = sql_update (\<lambda>q. iv_id q = iv_id i)
       (\<lambda>q. q\<lparr>iv_accepted_by := Some user, iv_accepted_at := Some now\<rparr>) (invitations s)"
    "invite_handoffs s' = sql_update (\<lambda>q. ih_token_hash q = hash)
       (\<lambda>q. q\<lparr>ih_consumed_at := Some now\<rparr>) (invite_handoffs s)"
  using assms
  by (auto simp: AcceptInvitation_def accept_member_invitation_def Let_def
        split: if_splits option.splits sum.splits dest!: query_row_SomeD)

lemma invitation_usable_member:
  assumes "invitation_usable now s i"
  obtains m where "m \<in> set (memberships s)" "is_member_row (iv_org i) (iv_inviter i) m"
    "m_role m = Owner \<or> m_role m = Admin"
  using assms
  by (auto simp: invitation_usable_def is_manager_def organization_role_def dest!: query_row_SomeD)

lemma UpdateBusinessProfile_InrD:
  assumes "UpdateBusinessProfile user org p now s = Inr (u, s')"
  shows "memberships s' = memberships s" "map o_id (organizations s') = map o_id (organizations s)"
  using assms
  by (auto simp: UpdateBusinessProfile_def map_sql_update split: if_splits sum.splits simp del: list.map)

text \<open>The remaining operations leave memberships and the set of organizations alone.\<close>

lemma quiet_operations:
  "CreateInvitation i s = Inr (u, s') \<Longrightarrow> memberships s' = memberships s \<and> organization_ids s' = organization_ids s"
  "ClaimInvitation c s = Inr (v, s') \<Longrightarrow> memberships s' = memberships s \<and> organization_ids s' = organization_ids s"
  "RevokeInvitation accepts org actor iv now s = Inr (u, s') \<Longrightarrow>
     memberships s' = memberships s \<and> organization_ids s' = organization_ids s"
  "CreateLineLinkCode k s = Inr (u, s') \<Longrightarrow> memberships s' = memberships s \<and> organization_ids s' = organization_ids s"
  "DisconnectLineConnection org actor con now s = Inr (u, s') \<Longrightarrow>
     memberships s' = memberships s \<and> organization_ids s' = organization_ids s"
  by (auto simp: CreateInvitation_def ClaimInvitation_def claim_member_invitation_def RevokeInvitation_def
        CreateLineLinkCode_def DisconnectLineConnection_def Let_def organization_ids_def
        split: if_splits sum.splits option.splits)

section \<open>The membership invariant\<close>

text \<open>\<^verbatim>\<open>tenant_inv\<close> is what the tables promise: organizations and memberships have their keys, every
  membership belongs to an organization, and every organization has exactly one Owner.\<close>

definition tenant_inv :: "store \<Rightarrow> bool" where
  "tenant_inv s =
     (unique_on membership_key (memberships s)
      \<and> (\<forall>m \<in> set (memberships s). m_org m \<in> organization_ids s)
      \<and> (\<forall>org \<in> organization_ids s. owners org s = 1))"

text \<open>\<^verbatim>\<open>tenant_step actor org s s'\<close>: a committed operation of \<^verbatim>\<open>actor\<close> on \<^verbatim>\<open>org\<close>.  Claiming an
  invitation has no signed-in actor.\<close>

inductive tenant_step :: "id \<Rightarrow> id \<Rightarrow> store \<Rightarrow> store \<Rightarrow> bool" where
  create: "CreateOrganization uuids hc user org name now s = Inr (g, s') \<Longrightarrow> tenant_step user org s s'"
| change_role: "ChangeRole org actor target newRole now s = Inr (u, s') \<Longrightarrow> tenant_step actor org s s'"
| transfer: "TransferOwnership org actor target now s = Inr (u, s') \<Longrightarrow> tenant_step actor org s s'"
| remove: "RemoveMembership dbnow org actor target now s = Inr (u, s') \<Longrightarrow> tenant_step actor org s s'"
| leave: "LeaveOrganization dbnow org user now s = Inr (u, s') \<Longrightarrow> tenant_step user org s s'"
| invite: "CreateInvitation i s = Inr (u, s') \<Longrightarrow> tenant_step (ic_actor i) (ic_org i) s s'"
| claim: "ClaimInvitation c s = Inr (v, s') \<Longrightarrow> tenant_step actor org s s'"
| accept: "AcceptInvitation hash user now s = Inr (g, s') \<Longrightarrow> tenant_step user (org_id g) s s'"
| revoke: "RevokeInvitation accepts org actor iv now s = Inr (u, s') \<Longrightarrow> tenant_step actor org s s'"
| link_code: "CreateLineLinkCode k s = Inr (u, s') \<Longrightarrow> tenant_step (lk_actor k) (lk_org k) s s'"
| disconnect: "DisconnectLineConnection org actor con now s = Inr (u, s') \<Longrightarrow> tenant_step actor org s s'"
| profile: "UpdateBusinessProfile user org p now s = Inr (u, s') \<Longrightarrow> tenant_step user org s s'"

inductive_cases tenant_stepE: "tenant_step actor org s s'"

inductive tenant_reachable :: "store \<Rightarrow> bool" where
  initial: "organizations s = [] \<Longrightarrow> memberships s = [] \<Longrightarrow> tenant_reachable s"
| step: "tenant_reachable s \<Longrightarrow> tenant_step actor org s s' \<Longrightarrow> tenant_reachable s'"

lemma tenant_invI:
  assumes "unique_on membership_key (memberships s)"
    and "\<And>m. m \<in> set (memberships s) \<Longrightarrow> m_org m \<in> organization_ids s"
    and "\<And>org. org \<in> organization_ids s \<Longrightarrow> owners org s = 1"
  shows "tenant_inv s"
  using assms by (auto simp: tenant_inv_def)

lemma tenant_invD:
  assumes "tenant_inv s"
  shows "unique_on membership_key (memberships s)"
    and "m \<in> set (memberships s) \<Longrightarrow> m_org m \<in> organization_ids s"
    and "org \<in> organization_ids s \<Longrightarrow> owners org s = 1"
  using assms by (auto simp: tenant_inv_def)

lemma tenant_inv_cong:
  assumes "memberships s' = memberships s" "organization_ids s' = organization_ids s" "tenant_inv s"
  shows "tenant_inv s'"
  using assms by (simp add: tenant_inv_def owners_def)

lemma member_unique:
  assumes "tenant_inv s" "a \<in> set (memberships s)" "b \<in> set (memberships s)"
    and "is_member_row org user a" "is_member_row org user b"
  shows "a = b"
  using unique_onD [OF tenant_invD(1) [OF assms(1)], of a b "(org, user)"] assms
  by (simp add: is_member_row_def)

lemma owner_unique:
  assumes "tenant_inv s" "a \<in> set (memberships s)" "b \<in> set (memberships s)" "owner_of org a" "owner_of org b"
  shows "a = b"
proof -
  have "owners org s = 1"
    using assms tenant_invD(2,3) [OF assms(1)] by (metis owner_of_def)
  then show ?thesis
    using rows_affected_le_oneD [of "owner_of org" "memberships s" a b] assms by (simp add: owners_def)
qed

subsection \<open>Preservation, operation by operation\<close>

lemma organization_ids_cong: "organizations s' = organizations s \<Longrightarrow> organization_ids s' = organization_ids s"
  by (simp add: organization_ids_def)

lemma create_inv:
  assumes inv: "tenant_inv s" and step: "CreateOrganization uuids hc user org name now s = Inr (g, s')"
  shows "tenant_inv s'"
proof (rule tenant_invI)
  note new = CreateOrganization_InrD [OF step]
  show "unique_on membership_key (memberships s')"
    unfolding new(2) by (rule unique_on_append1)
      (use tenant_invD(1) [OF inv] new(5) in \<open>auto simp: conflicts_def list_ex_iff is_member_row_def\<close>)
  show "m_org m \<in> organization_ids s'" if "m \<in> set (memberships s')" for m
    using that tenant_invD(2) [OF inv, of m] unfolding new(2,3) by auto
  show "owners og s' = 1" if "og \<in> organization_ids s'" for og
  proof (cases "og = org")
    case True
    have "rows_affected (owner_of org) (memberships s) = 0" using new(6) by (simp add: rows_affected_zero_iff)
    then show ?thesis by (simp add: True owners_def new(2) owner_of_def)
  next
    case False
    then have "owners og s = 1" using that tenant_invD(3) [OF inv, of og] new(3) by simp
    then show ?thesis using False by (simp add: owners_def new(2) owner_of_def)
  qed
qed

lemma update_roles_inv:
  assumes inv: "tenant_inv s" and org: "organizations s' = organizations s"
    and ms: "memberships s' = sql_update P f (memberships s)"
    and key: "\<And>m. m_org (f m) = m_org m" "\<And>m. m_user (f m) = m_user m"
    and own: "\<And>og. og \<in> organization_ids s \<Longrightarrow> owners og s' = owners og s"
  shows "tenant_inv s'"
proof (rule tenant_invI)
  show "unique_on membership_key (memberships s')"
    unfolding ms by (rule unique_on_update_shrink) (use tenant_invD(1) [OF inv] key in auto)
  show "m_org m \<in> organization_ids s'" if "m \<in> set (memberships s')" for m
    using that tenant_invD(2) [OF inv] key
    by (auto simp: ms organization_ids_cong [OF org] set_sql_update split: if_splits)
  show "owners og s' = 1" if "og \<in> organization_ids s'" for og
    using that own tenant_invD(3) [OF inv] organization_ids_cong [OF org] by simp
qed

lemma change_role_inv:
  assumes inv: "tenant_inv s" and step: "ChangeRole org actor target newRole now s = Inr (u, s')"
  shows "tenant_inv s'"
proof -
  note step = ChangeRole_InrD [OF step]
  show ?thesis
  proof (rule update_roles_inv [OF inv step(5,4)])
    show "owners og s' = owners og s" for og
      unfolding owners_def step(4)
      by (rule rows_affected_update_other) (use step(1) in \<open>auto simp: owner_of_def\<close>)
  qed simp_all
qed

lemma transferred_org:
  "m \<in> set (transferred org actor target now ms) \<Longrightarrow> \<exists>q \<in> set ms. m_org q = m_org m"
  unfolding transferred_def set_sql_update image_image by (elim imageE) (auto split: if_splits)

lemma owners_transferred:
  assumes inv: "tenant_inv s" and target: "row_exists (is_member_row org target) (memberships s)"
    and "actor \<noteq> target" and org: "og \<in> organization_ids s"
    and old: "\<forall>m \<in> set (memberships s). owner_of org m \<longrightarrow> m_user m = actor \<or> m_user m = target"
  shows "rows_affected (owner_of og) (transferred org actor target now (memberships s)) = 1"
proof (cases "og = org")
  case False
  have other: "rows_affected (owner_of og) (sql_update (is_member_row org user) (\<lambda>m. m\<lparr>m_role := role, m_updated_at := now\<rparr>) ms)
      = rows_affected (owner_of og) ms" for user role ms
    by (rule rows_affected_update_other) (use False in \<open>simp add: owner_of_def is_member_row_def\<close>)
  show ?thesis
    using tenant_invD(3) [OF inv org] by (simp only: transferred_def other owners_def)
next
  case True
  let ?d = "sql_update (is_member_row org actor) (\<lambda>m. m\<lparr>m_role := Admin, m_updated_at := now\<rparr>) (memberships s)"
  have "rows_affected (owner_of org) (transferred org actor target now (memberships s))
      = rows_affected (is_member_row org target) ?d"
    unfolding transferred_def
  proof (rule rows_affected_update_into)
    fix r assume r: "r \<in> set ?d" "\<not> is_member_row org target r"
    show "\<not> owner_of org r"
      using r(1)
    proof (cases rule: sql_updateE)
      case kept
      then show ?thesis using old r(2) by (auto simp: owner_of_def is_member_row_def)
    qed (simp add: owner_of_def)
  qed (simp add: owner_of_def is_member_row_def)
  also have "\<dots> = rows_affected (is_member_row org target) (memberships s)"
    by (rule rows_affected_update_other) (auto simp: is_member_row_def)
  also have "\<dots> = 1"
  proof -
    have "rows_affected (is_member_row org target) (memberships s) \<le> 1"
      by (rule unique_on_rows_le_one [OF tenant_invD(1) [OF inv], where k = "(org, target)"])
        (simp add: is_member_row_def)
    moreover have "0 < rows_affected (is_member_row org target) (memberships s)"
      using target by (auto simp: row_exists_iff intro: rows_affected_posI)
    ultimately show ?thesis by simp
  qed
  finally show ?thesis using True by simp
qed

lemma transfer_inv:
  assumes inv: "tenant_inv s" and step: "TransferOwnership org actor target now s = Inr (u, s')"
  shows "tenant_inv s'"
proof -
  note tr = TransferOwnership_InrD [OF step]
  have guard: "row_exists (is_member_row org target) (memberships s)" "actor \<noteq> target"
    using tr(1) by (auto simp: transfer_guard_raises_def)
  show ?thesis
  proof (rule tenant_invI)
    show "unique_on membership_key (memberships s')"
      unfolding tr(2) transferred_def
      by (intro unique_on_update_shrink tenant_invD(1) [OF inv]) (auto simp: is_member_row_def)
    show "m_org m \<in> organization_ids s'" if "m \<in> set (memberships s')" for m
      using transferred_org [of m] that tenant_invD(2) [OF inv] organization_ids_cong [OF tr(4)]
      unfolding tr(2) by metis
    show "owners og s' = 1" if "og \<in> organization_ids s'" for og
      using owners_transferred [OF inv guard _ tr(3)] that organization_ids_cong [OF tr(4)]
      by (simp add: owners_def tr(2))
  qed
qed

lemma delete_member_inv:
  assumes inv: "tenant_inv s" and org: "organizations s' = organizations s"
    and ms: "memberships s' = sql_delete (is_member_row org user) (memberships s)"
    and not_owner: "\<And>m. m \<in> set (memberships s) \<Longrightarrow> is_member_row org user m \<Longrightarrow> m_role m \<noteq> Owner"
  shows "tenant_inv s'"
proof (rule tenant_invI)
  show "unique_on membership_key (memberships s')"
    unfolding ms by (rule unique_on_delete [OF tenant_invD(1) [OF inv]])
  show "m_org m \<in> organization_ids s'" if "m \<in> set (memberships s')" for m
    using that tenant_invD(2) [OF inv] by (simp add: ms set_sql_delete organization_ids_cong [OF org])
  show "owners og s' = 1" if "og \<in> organization_ids s'" for og
  proof -
    have "owners og s' = owners og s"
      unfolding owners_def ms by (rule rows_affected_delete_other) (use not_owner in \<open>auto simp: owner_of_def\<close>)
    then show ?thesis using that tenant_invD(3) [OF inv] organization_ids_cong [OF org] by simp
  qed
qed

lemma remove_inv:
  assumes inv: "tenant_inv s" and step: "RemoveMembership dbnow org actor target now s = Inr (u, s')"
  shows "tenant_inv s'"
  using step
proof (cases rule: RemoveMembership_InrD)
  case (1 actorRole m)
  have "m \<in> set (memberships s)" "is_member_row org target m" using query_row_SomeD [OF 1(3)] by simp_all
  then have "m_role q \<noteq> Owner" if "q \<in> set (memberships s)" "is_member_row org target q" for q
    using member_unique [OF inv, of q m] that 1(4) by blast
  then show ?thesis by (rule delete_member_inv [OF inv 1(7,6)])
qed

lemma leave_inv:
  assumes inv: "tenant_inv s" and step: "LeaveOrganization dbnow org user now s = Inr (u, s')"
  shows "tenant_inv s'"
  using step
proof (cases rule: LeaveOrganization_InrD)
  case (1 role)
  obtain r where r: "r \<in> set (memberships s)" "m_org r = org" "m_user r = user" "m_role r = role"
    by (rule currentRole_InrD [OF 1(1)])
  then have "m_role q \<noteq> Owner" if "q \<in> set (memberships s)" "is_member_row org user q" for q
    using member_unique [OF inv, of q r org user] that 1(2) by (auto simp: is_member_row_def)
  then show ?thesis by (rule delete_member_inv [OF inv 1(4,3)])
qed

lemma accept_inv:
  assumes inv: "tenant_inv s" and step: "AcceptInvitation hash user now s = Inr (g, s')"
  shows "tenant_inv s'"
  using step
proof (cases rule: AcceptInvitation_InrD)
  case (1 h i)
  have ids: "organization_ids s' = organization_ids s" by (rule organization_ids_cong [OF 1(11)])
  show ?thesis
  proof (cases "row_exists (is_member_row (iv_org i) user) (memberships s)")
    case True
    then show ?thesis using tenant_inv_cong [OF _ ids inv] 1(10) by simp
  next
    case False
    let ?new = "\<lparr>m_org = iv_org i, m_user = user, m_role = Member, m_created_at = now, m_updated_at = now\<rparr>"
    have ms: "memberships s' = memberships s @ [?new]" using 1(10) False by simp
    obtain m where m: "m \<in> set (memberships s)" "is_member_row (iv_org i) (iv_inviter i) m"
      using invitation_usable_member [OF 1(7)] by metis
    have org: "iv_org i \<in> organization_ids s"
      using tenant_invD(2) [OF inv m(1)] m(2) by (simp add: is_member_row_def)
    show ?thesis
    proof (rule tenant_invI)
      show "unique_on membership_key (memberships s')"
        unfolding ms by (rule unique_on_append1 [OF tenant_invD(1) [OF inv]])
          (use False in \<open>auto simp: conflicts_def list_ex_iff is_member_row_def row_exists_iff\<close>)
      show "m_org q \<in> organization_ids s'" if "q \<in> set (memberships s')" for q
        using that tenant_invD(2) [OF inv] org unfolding ms ids by auto
      show "owners og s' = 1" if "og \<in> organization_ids s'" for og
        using that tenant_invD(3) [OF inv] by (simp add: ids owners_def ms owner_of_def)
    qed
  qed
qed

lemma profile_inv:
  assumes "tenant_inv s" "UpdateBusinessProfile user org p now s = Inr (u, s')"
  shows "tenant_inv s'"
  using assms tenant_inv_cong [OF _ _ assms(1)] UpdateBusinessProfile_InrD [OF assms(2)]
  by (simp add: organization_ids_def del: set_map)

lemmas tenant_preservation =
  create_inv change_role_inv transfer_inv remove_inv leave_inv accept_inv profile_inv

lemma tenant_step_inv:
  assumes "tenant_step actor org s s'" and inv: "tenant_inv s" shows "tenant_inv s'"
  using assms(1)
proof (cases rule: tenant_step.cases)
  case invite then show ?thesis using tenant_inv_cong [OF _ _ inv] quiet_operations(1) by metis
next
  case claim then show ?thesis using tenant_inv_cong [OF _ _ inv] quiet_operations(2) by metis
next
  case revoke then show ?thesis using tenant_inv_cong [OF _ _ inv] quiet_operations(3) by metis
next
  case link_code then show ?thesis using tenant_inv_cong [OF _ _ inv] quiet_operations(4) by metis
next
  case disconnect then show ?thesis using tenant_inv_cong [OF _ _ inv] quiet_operations(5) by metis
next
  case create then show ?thesis using create_inv [OF inv] by simp
next
  case change_role then show ?thesis using change_role_inv [OF inv] by simp
next
  case transfer then show ?thesis using transfer_inv [OF inv] by simp
next
  case remove then show ?thesis using remove_inv [OF inv] by simp
next
  case leave then show ?thesis using leave_inv [OF inv] by simp
next
  case accept then show ?thesis using accept_inv [OF inv] by simp
next
  case profile then show ?thesis using profile_inv [OF inv] by simp
qed

lemma tenant_reachable_inv: "tenant_reachable s \<Longrightarrow> tenant_inv s"
proof (induction rule: tenant_reachable.induct)
  case (initial s)
  then show ?case by (simp add: tenant_inv_def organization_ids_def)
next
  case (step s actor org s')
  then show ?case by (blast intro: tenant_step_inv)
qed

section \<open>The role table as an abstract map\<close>

text \<open>Abstractly an organization is a partial map from users to roles.  Each operation refines one
  update of that map.\<close>

definition roles :: "store \<Rightarrow> id \<times> id \<Rightarrow> role option" where
  "roles s k = organization_role (snd k) (fst k) s"

lemma roles_cong: "memberships s' = memberships s \<Longrightarrow> roles s' = roles s"
  by (simp add: fun_eq_iff roles_def organization_role_def)

lemma roles_append:
  assumes "memberships s' = memberships s @ [r]"
  shows "roles s' = (\<lambda>k. case roles s k of
     None \<Rightarrow> if k = (m_org r, m_user r) then Some (m_role r) else None | Some x \<Rightarrow> Some x)"
  using assms by (auto simp: fun_eq_iff roles_def organization_role_def is_member_row_def split: option.splits)

lemma roles_update:
  assumes "memberships s' = sql_update (\<lambda>m. (m_org m, m_user m) \<in> A \<and> C (m_role m)) (\<lambda>m. m\<lparr>m_role := role, m_updated_at := now\<rparr>) (memberships s)"
  shows "roles s' = (\<lambda>k. case roles s k of None \<Rightarrow> None
     | Some x \<Rightarrow> if k \<in> A \<and> C x then Some role else Some x)"
proof
  fix k :: "id \<times> id"
  obtain og u where k: "k = (og, u)" by (cases k)
  show "roles s' k = (case roles s k of None \<Rightarrow> None | Some x \<Rightarrow> if k \<in> A \<and> C x then Some role else Some x)"
  proof (cases "query_row (is_member_row og u) (memberships s)")
    case (Some r)
    then have "m_org r = og" "m_user r = u" by (auto simp: is_member_row_def dest: query_row_SomeD)
    then show ?thesis using Some
      by (simp add: k roles_def organization_role_def assms query_row_sql_update is_member_row_def)
  qed (simp add: k roles_def organization_role_def assms query_row_sql_update is_member_row_def)
qed

lemma roles_delete:
  assumes "memberships s' = sql_delete (is_member_row org user) (memberships s)"
  shows "roles s' = (roles s)((org, user) := None)"
proof
  fix k :: "id \<times> id"
  have "query_row (\<lambda>m. is_member_row (fst k) (snd k) m \<and> \<not> is_member_row org user m) (memberships s)
      = (if k = (org, user) then None else query_row (is_member_row (fst k) (snd k)) (memberships s))"
  proof (cases "k = (org, user)")
    case False
    then show ?thesis by (auto simp: is_member_row_def prod_eq_iff intro!: query_row_cong)
  qed simp
  then show "roles s' k = ((roles s)((org, user) := None)) k"
    by (simp add: roles_def organization_role_def assms query_row_sql_delete)
qed

lemma roles_SomeD: "roles s (org, user) = Some r \<Longrightarrow> \<exists>m \<in> set (memberships s). is_member_row org user m \<and> m_role m = r"
  by (auto simp: roles_def organization_role_def dest: query_row_SomeD)

lemma roles_None_iff: "roles s (org, user) = None \<longleftrightarrow> \<not> row_exists (is_member_row org user) (memberships s)"
  by (simp add: roles_def organization_role_def query_row_None_iff row_exists_iff)

lemma currentRole_roles: "currentRole user org s = Inr r \<Longrightarrow> roles s (org, user) = Some r"
  by (auto simp: currentRole_def membershipFor_def roles_def organization_role_def split: option.splits sum.splits)

lemma roles_transferred:
  assumes "memberships s' = transferred org actor target now (memberships s)" "actor \<noteq> target"
  shows "roles s' = (\<lambda>k. case roles s k of None \<Rightarrow> None
     | Some x \<Rightarrow> Some (if k = (org, target) then Owner else if k = (org, actor) then Admin else x))"
proof -
  let ?s1 = "s\<lparr>memberships := sql_update (is_member_row org actor) (\<lambda>m. m\<lparr>m_role := Admin, m_updated_at := now\<rparr>) (memberships s)\<rparr>"
  have row: "is_member_row org u = (\<lambda>m. (m_org m, m_user m) \<in> {(org, u)} \<and> True)" for u
    by (simp add: fun_eq_iff is_member_row_def)
  have "roles ?s1 = (\<lambda>k. case roles s k of None \<Rightarrow> None | Some x \<Rightarrow> if k \<in> {(org, actor)} \<and> True then Some Admin else Some x)"
    by (rule roles_update [where now = now]) (simp add: row)
  moreover have "roles s' = (\<lambda>k. case roles ?s1 k of None \<Rightarrow> None | Some x \<Rightarrow> if k \<in> {(org, target)} \<and> True then Some Owner else Some x)"
    by (rule roles_update [where now = now]) (simp add: assms(1) transferred_def row)
  ultimately show ?thesis using assms(2) by (auto simp: fun_eq_iff split: option.splits)
qed

lemma roles_created:
  assumes "CreateOrganization uuids hc user org name now s = Inr (g, s')"
  shows "roles s' = (roles s)((org, user) \<mapsto> Owner)" "roles s (org, user) = None"
proof -
  note new = CreateOrganization_InrD [OF assms]
  show none: "roles s (org, user) = None"
    using new(5) by (auto simp: roles_None_iff row_exists_iff)
  show "roles s' = (roles s)((org, user) \<mapsto> Owner)"
    using none roles_append [OF new(2)] by (auto simp: fun_eq_iff split: option.splits)
qed

lemma roles_changed:
  assumes "ChangeRole org actor target newRole now s = Inr (u, s')"
  shows "roles s' k = (case roles s k of None \<Rightarrow> None
     | Some x \<Rightarrow> if k = (org, target) \<and> x \<noteq> Owner then Some newRole else Some x)"
    "newRole = Admin \<or> newRole = Member" "roles s (org, actor) = Some Owner" "actor \<noteq> target"
proof -
  note ch = ChangeRole_InrD [OF assms]
  have cond: "(\<lambda>m. m_org m = org \<and> m_user m = target \<and> m_user m \<noteq> actor \<and> m_role m \<noteq> Owner)
      = (\<lambda>m. (m_org m, m_user m) \<in> {(org, target)} \<and> m_role m \<noteq> Owner)"
    using ch(3) by auto
  show "roles s' k = (case roles s k of None \<Rightarrow> None
     | Some x \<Rightarrow> if k = (org, target) \<and> x \<noteq> Owner then Some newRole else Some x)"
    using roles_update [where C = "\<lambda>r. r \<noteq> Owner", OF ch(4) [unfolded cond]]
    by (simp split: option.splits)
  show "newRole = Admin \<or> newRole = Member" "roles s (org, actor) = Some Owner" "actor \<noteq> target"
    using ch currentRole_roles by simp_all
qed

lemma roles_accepted:
  assumes "AcceptInvitation hash user now s = Inr (g, s')"
  shows "roles s' = (roles s)((org_id g, user) := Some (case roles s (org_id g, user) of None \<Rightarrow> Member | Some r \<Rightarrow> r))"
  using assms
proof (cases rule: AcceptInvitation_InrD)
  case (1 h i)
  show ?thesis
  proof (cases "roles s (iv_org i, user)")
    case None
    then have ms: "memberships s' = memberships s @ [\<lparr>m_org = iv_org i, m_user = user, m_role = Member, m_created_at = now, m_updated_at = now\<rparr>]"
      using 1(10) by (simp add: roles_None_iff)
    have upd: "roles s' = (\<lambda>k. case roles s k of
       None \<Rightarrow> if k = (iv_org i, user) then Some Member else None | Some x \<Rightarrow> Some x)"
      unfolding roles_append [OF ms] membership_row.select_convs ..
    show ?thesis
      using None by (simp add: upd 1(8) fun_eq_iff split: option.splits)
  next
    case (Some r)
    then have "row_exists (is_member_row (iv_org i) user) (memberships s)" using roles_None_iff [of s "iv_org i" user] by simp
    then have "roles s' = roles s" using 1(10) by (intro roles_cong) simp
    then show ?thesis using Some 1(8) by (simp add: fun_eq_iff)
  qed
qed

subsection \<open>Who changed what\<close>

lemma transfer_outsider:
  assumes "tenant_inv s" "TransferOwnership org actor target now s = Inr (u, s')"
    and "roles s (org, actor) = None"
  shows "roles s (org, target) = Some Owner"
proof -
  note tr = TransferOwnership_InrD [OF assms(2)]
  obtain q where q: "q \<in> set (memberships s)" "is_member_row org target q"
    using tr(1) by (auto simp: transfer_guard_raises_def row_exists_iff)
  then have "owners org s = 1"
    using tenant_invD(2,3) [OF assms(1)] by (metis is_member_row_def)
  then obtain m where m: "m \<in> set (memberships s)" "owner_of org m"
    using rows_affected_zero_iff [of "owner_of org" "memberships s"] by (auto simp: owners_def)
  have "m_user m \<noteq> actor"
    using assms(3) m by (auto simp: roles_None_iff row_exists_iff is_member_row_def owner_of_def)
  then have t: "is_member_row org target m" using tr(3) m by (auto simp: owner_of_def is_member_row_def)
  have "query_row (is_member_row org target) (memberships s) = Some m"
    by (rule unique_on_query_row [where P = "is_member_row org target" and k = "(org, target)",
          OF tenant_invD(1) [OF assms(1)] m(1) t])
      (simp add: is_member_row_def)
  then show ?thesis using m(2) by (simp add: roles_def organization_role_def owner_of_def)
qed

lemma transfer_authority:
  assumes "tenant_reachable s" "TransferOwnership org actor target now s = Inr (v, s')"
    and changed: "roles s' (og, u) \<noteq> roles s (og, u)"
  shows "og = org \<and>
    (if u = actor
     then roles s (org, u) \<noteq> Some Owner \<and> roles s' (org, u) = None
        \<or> roles s (org, u) = None \<and> roles s' (org, u) = Some Member
        \<or> org \<notin> organization_ids s \<and> roles s' (org, u) = Some Owner
        \<or> roles s (org, u) = Some Owner \<and> roles s' (org, u) = Some Admin
     else roles s (org, actor) = Some Owner
        \<or> roles s (org, actor) = Some Admin \<and> roles s (org, u) = Some Member \<and> roles s' (org, u) = None)"
proof -
  note tr = TransferOwnership_InrD [OF assms(2)]
  have ne: "actor \<noteq> target" and act: "\<And>r. roles s (org, actor) = Some r \<Longrightarrow> r = Owner"
    using tr(1) by (auto simp: transfer_guard_raises_def roles_def)
  have r: "roles s' = (\<lambda>k. case roles s k of None \<Rightarrow> None
     | Some x \<Rightarrow> Some (if k = (org, target) then Owner else if k = (org, actor) then Admin else x))"
    by (rule roles_transferred [OF tr(2) ne])
  have "roles s (org, actor) = None \<Longrightarrow> roles s (org, target) = Some Owner"
    by (rule transfer_outsider [OF tenant_reachable_inv [OF assms(1)] assms(2)])
  then show ?thesis using changed act ne unfolding r
    by (cases "roles s (org, actor)") (auto split: option.splits if_splits)
qed

lemma remove_authority:
  assumes "RemoveMembership dbnow org actor target now s = Inr (v, s')"
    and changed: "roles s' (og, u) \<noteq> roles s (og, u)"
  shows "og = org \<and> u = target \<and> roles s' (org, u) = None \<and> roles s (org, u) \<noteq> Some Owner \<and>
    (roles s (org, actor) = Some Owner \<or> roles s (org, actor) = Some Admin \<and> roles s (org, u) = Some Member)"
  using assms(1)
proof (cases rule: RemoveMembership_InrD)
  case (1 actorRole m)
  have "(og, u) = (org, target)" using changed roles_delete [OF 1(6)] by (auto split: if_splits)
  moreover have "roles s (org, target) = Some (m_role m)" using 1(3) by (simp add: roles_def organization_role_def)
  ultimately show ?thesis
    using roles_delete [OF 1(6)] currentRole_roles [OF 1(1)] 1(2,4,5) by auto
qed

lemma leave_authority:
  assumes "LeaveOrganization dbnow org user now s = Inr (v, s')"
    and changed: "roles s' (og, u) \<noteq> roles s (og, u)"
  shows "og = org \<and> u = user \<and> roles s' (org, u) = None \<and> roles s (org, u) \<noteq> Some Owner"
  using assms(1)
proof (cases rule: LeaveOrganization_InrD)
  case (1 role)
  have "(og, u) = (org, user)" using changed roles_delete [OF 1(3)] by (auto split: if_splits)
  then show ?thesis using roles_delete [OF 1(3)] currentRole_roles [OF 1(1)] 1(2) by auto
qed

section \<open>Properties\<close>

subsection \<open>A concrete organization\<close>

definition demo_user :: "id \<Rightarrow> user_row" where
  "demo_user u = \<lparr>u_id = u, u_display_name = None, u_picture_url = None, u_created_at = 0, u_updated_at = 0\<rparr>"

definition demo_member :: "id \<Rightarrow> id \<Rightarrow> role \<Rightarrow> membership_row" where
  "demo_member org u r = \<lparr>m_org = org, m_user = u, m_role = r, m_created_at = 0, m_updated_at = 0\<rparr>"

definition demo_organization :: "id \<Rightarrow> organization_row" where
  "demo_organization org = \<lparr>o_id = org, o_name = ''Acme'', o_timezone = ''Asia/Bangkok'',
     o_profile = empty_profile, o_created_at = 0, o_updated_at = 0\<rparr>"

definition demo_start :: store where
  "demo_start = empty_store\<lparr>users := [demo_user ''u1'', demo_user ''u2'']\<rparr>"

definition demo_created :: store where
  "demo_created = after demo_start (CreateOrganization [] False ''u1'' ''o1'' ''Acme'' 7 demo_start)"

lemma rune_count_Acme: "rune_count ''Acme'' = 4"
  by (subst rune_count_ascii) (simp_all add: byte_def)

lemma demo_create:
  "CreateOrganization [] False ''u1'' ''o1'' ''Acme'' 7 demo_start
     = Inr (\<lparr>org_id = ''o1'', org_name = ''Acme'', org_role = Owner\<rparr>, demo_created)"
  by (simp add: demo_created_def CreateOrganization_def create_user_organization_def demo_start_def
        demo_user_def btrim_def rune_count_Acme)

lemma demo_reachable: "tenant_reachable demo_start" "tenant_reachable demo_created"
proof -
  show start: "tenant_reachable demo_start" by (rule tenant_reachable.initial) (simp_all add: demo_start_def)
  show "tenant_reachable demo_created" by (rule tenant_reachable.step [OF start tenant_step.create [OF demo_create]])
qed

lemma demo_created_organizations: "map o_id (organizations demo_created) = [''o1'']"
  using CreateOrganization_InrD(4) [OF demo_create] by (simp add: demo_start_def)

subsection \<open>Exactly one Owner\<close>

text \<open>
  \<^bold>\<open>C1.\<close>  In every state that committed tenant operations can reach, every organization has exactly
  one Owner: ownership is never lost by a transfer, a role change, a removal or a departure, and never
  shared.
\<close>
theorem tenant_one_owner:
  assumes "tenant_reachable s" "g \<in> set (organizations s)"
  shows "\<exists>!m. m \<in> set (memberships s) \<and> m_org m = o_id g \<and> m_role m = Owner"
proof -
  note inv = tenant_reachable_inv [OF assms(1)]
  have "owners (o_id g) s = 1"
    using tenant_invD(3) [OF inv] assms(2) by (simp add: organization_ids_def)
  then obtain m where m: "m \<in> set (memberships s)" "owner_of (o_id g) m"
    using rows_affected_zero_iff [of "owner_of (o_id g)" "memberships s"] by (auto simp: owners_def)
  show ?thesis
  proof (rule ex1I [of _ m])
    show "q = m" if "q \<in> set (memberships s) \<and> m_org q = o_id g \<and> m_role q = Owner" for q
      by (rule owner_unique [OF inv _ m(1) _ m(2)]) (use that in \<open>simp_all add: owner_of_def\<close>)
  qed (use m in \<open>simp add: owner_of_def\<close>)
qed

theorem tenant_one_owner_witness:
  "\<exists>g \<in> set (organizations demo_created).
     \<exists>!m. m \<in> set (memberships demo_created) \<and> m_org m = o_id g \<and> m_role m = Owner"
proof -
  obtain g where g: "g \<in> set (organizations demo_created)"
    using demo_created_organizations by (cases "organizations demo_created") auto
  then show ?thesis using tenant_one_owner [OF demo_reachable(2) g] by blast
qed

subsection \<open>Authority over roles\<close>

text \<open>
  \<^bold>\<open>C2.\<close>  No committed operation changes a role outside the organization it names, and inside it a role
  changes only with authority: members may leave (not the Owner), accept an invitation as Member, create a
  new organization as its Owner or hand their ownership over; anyone else's role changes only by the
  Owner's hand, except that an Admin may remove a Member.
\<close>
theorem tenant_authority:
  assumes "tenant_reachable s" "tenant_step actor org s s'" "roles s' (og, u) \<noteq> roles s (og, u)"
  shows "og = org \<and>
    (if u = actor
     then roles s (org, u) \<noteq> Some Owner \<and> roles s' (org, u) = None
        \<or> roles s (org, u) = None \<and> roles s' (org, u) = Some Member
        \<or> org \<notin> organization_ids s \<and> roles s' (org, u) = Some Owner
        \<or> roles s (org, u) = Some Owner \<and> roles s' (org, u) = Some Admin
     else roles s (org, actor) = Some Owner
        \<or> roles s (org, actor) = Some Admin \<and> roles s (org, u) = Some Member \<and> roles s' (org, u) = None)"
  using assms(2)
proof (cases rule: tenant_step.cases)
  case create
  then show ?thesis using assms(3) roles_created [OF create] CreateOrganization_InrD(1) [OF create]
    by (auto split: if_splits)
next
  case change_role
  then show ?thesis using assms(3) roles_changed [OF change_role] by (auto split: option.splits if_splits)
next
  case transfer
  show ?thesis by (rule transfer_authority [OF assms(1) transfer assms(3)])
next
  case remove
  then show ?thesis using remove_authority [OF remove assms(3)] by auto
next
  case leave
  then show ?thesis using leave_authority [OF leave assms(3)] by auto
next
  case accept
  then show ?thesis using assms(3) accept(1) roles_accepted [OF accept(2)] by (auto split: option.splits if_splits)
next
  case profile
  then show ?thesis using assms(3) UpdateBusinessProfile_InrD [OF profile] roles_cong by metis
qed (use assms(3) roles_cong quiet_operations in metis)+

theorem tenant_authority_witness:
  "roles demo_created (''o1'', ''u1'') \<noteq> roles demo_start (''o1'', ''u1'') \<and> ''o1'' \<notin> organization_ids demo_start"
proof -
  have changed: "roles demo_created (''o1'', ''u1'') \<noteq> roles demo_start (''o1'', ''u1'')"
    using roles_created [OF demo_create] by simp
  then show ?thesis
    using tenant_authority [OF demo_reachable(1) tenant_step.create [OF demo_create] changed]
      roles_created [OF demo_create] by simp
qed

subsection \<open>Handing over ownership\<close>

lemma transferred_target:
  assumes "m \<in> set ms" "is_member_row org target m" "actor \<noteq> target"
  shows "m\<lparr>m_role := Owner, m_updated_at := now\<rparr> \<in> set (transferred org actor target now ms)"
  using assms unfolding transferred_def set_sql_update image_image
  by (intro image_eqI [of _ _ m]) (simp_all add: is_member_row_def)

lemma transferred_other:
  assumes "m \<in> set ms" "m_org m \<noteq> org"
  shows "m \<in> set (transferred org actor target now ms)"
  using assms unfolding transferred_def set_sql_update image_image
  by (intro image_eqI [of _ _ m]) (simp_all add: is_member_row_def)

lemma transfer_commits:
  assumes "m \<in> set ms" "is_member_row org target m" "actor \<noteq> target"
  shows "enforce_organization_owner ms (transferred org actor target now ms)"
  using transferred_target [OF assms, of now] transferred_other [of _ ms org actor target now] assms(2)
  by (fastforce simp: enforce_organization_owner_def list_all_iff row_exists_iff is_member_row_def)

text \<open>
  \<^bold>\<open>C3.\<close>  The Owner can always hand an organization over to any other member: the operation commits, the
  target becomes Owner, the former Owner becomes Admin and every other role, in this organization and in
  all others, stays what it was.
\<close>
theorem transfer_refines:
  assumes inv: "tenant_inv s" and owner: "roles s (org, actor) = Some Owner"
    and member: "roles s (org, target) = Some r" and ne: "actor \<noteq> target"
  shows "\<exists>s'. TransferOwnership org actor target now s = Inr ((), s') \<and>
    roles s' = (roles s)((org, target) \<mapsto> Owner, (org, actor) \<mapsto> Admin)"
proof -
  let ?s1 = "s\<lparr>memberships := transferred org actor target now (memberships s)\<rparr>"
  let ?s' = "auditTenant org actor ''organization.ownership_transfer'' ''user'' target now ?s1"
  obtain t where t: "t \<in> set (memberships s)" "is_member_row org target t" using roles_SomeD [OF member] by blast
  obtain a where a: "a \<in> set (memberships s)" "is_member_row org actor a" "m_role a = Owner"
    using roles_SomeD [OF owner] by blast
  have guard: "\<not> transfer_guard_raises org actor target s"
    using owner t ne by (auto simp: transfer_guard_raises_def roles_def row_exists_iff)
  have "\<not> row_exists (\<lambda>m. m_org m = org \<and> m_role m = Owner \<and> m_user m \<noteq> target)
      (sql_update (is_member_row org actor) (\<lambda>m. m\<lparr>m_role := Admin, m_updated_at := now\<rparr>) (memberships s))"
    unfolding row_exists_iff
  proof (intro notI, elim bexE)
    fix m assume m: "m \<in> set (sql_update (is_member_row org actor) (\<lambda>m. m\<lparr>m_role := Admin, m_updated_at := now\<rparr>) (memberships s))"
      "m_org m = org \<and> m_role m = Owner \<and> m_user m \<noteq> target"
    from m(1) show False
    proof (cases rule: sql_updateE)
      case kept
      then have "m = a" using owner_unique [OF inv kept(1) a(1), of org] m(2) a by (auto simp: owner_of_def is_member_row_def)
      then show False using kept a by simp
    qed (use m(2) in simp)
  qed
  then have tr: "transfer_organization_ownership org actor target now s = Inr ((), ?s1)"
    using guard by (simp add: transfer_organization_ownership_def transferred_def Let_def)
  have "TransferOwnership org actor target now s = Inr ((), ?s')"
    using transfer_commits [OF t ne, of now] by (simp add: TransferOwnership_def tr commit_memberships_def)
  moreover have "roles ?s' = (roles s)((org, target) \<mapsto> Owner, (org, actor) \<mapsto> Admin)"
    using roles_transferred [of ?s' org actor target now s] owner member ne
    by (auto simp: fun_eq_iff split: option.splits)
  ultimately show ?thesis by blast
qed

definition demo_pair :: store where
  "demo_pair = demo_start\<lparr>organizations := [demo_organization ''o1''],
     memberships := [demo_member ''o1'' ''u1'' Owner, demo_member ''o1'' ''u2'' Member]\<rparr>"

lemma demo_pair_inv: "tenant_inv demo_pair"
  by (auto simp: tenant_inv_def demo_pair_def demo_member_def demo_organization_def organization_ids_def
        owners_def owner_of_def)

lemma demo_pair_roles:
  "roles demo_pair (''o1'', ''u1'') = Some Owner" "roles demo_pair (''o1'', ''u2'') = Some Member"
  "roles demo_pair (''o1'', ''u9'') = None"
  by (simp_all add: roles_def organization_role_def demo_pair_def demo_member_def is_member_row_def)

theorem transfer_refines_witness:
  "\<exists>s'. TransferOwnership ''o1'' ''u1'' ''u2'' 9 demo_pair = Inr ((), s') \<and>
     roles s' (''o1'', ''u2'') = Some Owner \<and> roles s' (''o1'', ''u1'') = Some Admin"
  using transfer_refines [OF demo_pair_inv demo_pair_roles(1,2), of 9] by auto

text \<open>
  An outsider who names the current Owner as the target of a transfer gets success, because the
  stored function's guard compares a NULL role.  No role changes, but the organization's audit trail gains
  an ownership transfer by a user who is not a member.
\<close>
theorem transfer_by_outsider:
  assumes inv: "tenant_inv s" and outsider: "roles s (org, actor) = None"
    and owner: "roles s (org, target) = Some Owner"
  shows "\<exists>s'. TransferOwnership org actor target now s = Inr ((), s') \<and> roles s' = roles s \<and>
    audit_events s' = audit_events s @
      [audit_tenant_row org actor ''organization.ownership_transfer'' ''user'' target now]"
proof -
  let ?s1 = "s\<lparr>memberships := transferred org actor target now (memberships s)\<rparr>"
  let ?s' = "auditTenant org actor ''organization.ownership_transfer'' ''user'' target now ?s1"
  obtain t where t: "t \<in> set (memberships s)" "is_member_row org target t" "m_role t = Owner"
    using roles_SomeD [OF owner] by blast
  have ne: "actor \<noteq> target" using outsider owner by auto
  have guard: "\<not> transfer_guard_raises org actor target s"
    using outsider t ne by (auto simp: transfer_guard_raises_def roles_def row_exists_iff)
  have none: "sql_update (is_member_row org actor) (\<lambda>m. m\<lparr>m_role := Admin, m_updated_at := now\<rparr>) (memberships s) = memberships s"
    using outsider by (auto simp: sql_update_def roles_None_iff row_exists_iff intro: map_idI)
  have "\<not> row_exists (\<lambda>m. m_org m = org \<and> m_role m = Owner \<and> m_user m \<noteq> target) (memberships s)"
    using owner_unique [OF inv _ t(1), of _ org] t(2,3)
    by (auto simp: row_exists_iff owner_of_def is_member_row_def)
  then have tr: "transfer_organization_ownership org actor target now s = Inr ((), ?s1)"
    using guard none by (simp add: transfer_organization_ownership_def transferred_def Let_def)
  have "TransferOwnership org actor target now s = Inr ((), ?s')"
    using transfer_commits [OF t(1,2) ne, of now] by (simp add: TransferOwnership_def tr commit_memberships_def)
  moreover have "roles ?s' = roles s"
    using roles_transferred [of ?s' org actor target now s] owner outsider ne
    by (auto simp: fun_eq_iff split: option.splits)
  ultimately show ?thesis by simp
qed

theorem transfer_by_outsider_witness:
  "\<exists>s'. TransferOwnership ''o1'' ''u9'' ''u1'' 9 demo_pair = Inr ((), s') \<and> length (audit_events s') = 1"
  using transfer_by_outsider [OF demo_pair_inv demo_pair_roles(3,1), of 9]
  by (auto simp: demo_pair_def demo_start_def)

subsection \<open>Invitations work once\<close>

text \<open>
  \<^bold>\<open>C4.\<close>  An invitation admits one user: once it has been accepted, no handoff that was claimed from it, the
  one just used or any other, can be accepted again by anybody at any time.
\<close>
theorem invitation_single_use:
  assumes "AcceptInvitation hash user now s = Inr (g, s')"
  shows "\<exists>h \<in> set (invite_handoffs s). ih_token_hash h = hash \<and>
    (\<forall>hash' user' now'.
       (\<forall>q \<in> set (invite_handoffs s'). ih_token_hash q = hash' \<longrightarrow> ih_invitation q = ih_invitation h) \<longrightarrow>
       AcceptInvitation hash' user' now' s' = Inl Tenant_ErrInvalidInvite)"
  using assms
proof (cases rule: AcceptInvitation_InrD)
  case (1 h i)
  have used: "\<not> invitation_usable t st q" if "q \<in> set (invitations s')" "iv_id q = ih_invitation h" for q t st
    using that 1(6) unfolding 1(12) by (auto simp: set_sql_update invitation_usable_def split: if_splits)
  have "AcceptInvitation hash' user' now' s' = Inl Tenant_ErrInvalidInvite"
    if same: "\<forall>q \<in> set (invite_handoffs s'). ih_token_hash q = hash' \<longrightarrow> ih_invitation q = ih_invitation h"
    for hash' user' now'
  proof (cases "query_row (\<lambda>h. ih_token_hash h = hash' \<and> ih_consumed_at h = None \<and> now' < ih_expires_at h) (invite_handoffs s')")
    case (Some q)
    then have "ih_invitation q = ih_invitation h" using same query_row_SomeD by fast
    then have "query_row (\<lambda>i. iv_id i = ih_invitation q \<and> invitation_usable now' s' i) (invitations s') = None"
      using used by (auto simp: query_row_None_iff)
    then show ?thesis using Some by (simp add: AcceptInvitation_def accept_member_invitation_def)
  qed (simp add: AcceptInvitation_def accept_member_invitation_def)
  then show ?thesis using 1(1,2) by blast
qed

definition demo_invited :: store where
  "demo_invited = demo_pair\<lparr>memberships := [demo_member ''o1'' ''u1'' Owner],
     invitations := [\<lparr>iv_id = ''i1'', iv_org = ''o1'', iv_inviter = ''u1'', iv_role = Member, iv_token_hash = ''t'',
        iv_created_at = 0, iv_expires_at = 100, iv_revoked_at = None, iv_accepted_by = None, iv_accepted_at = None\<rparr>],
     invite_handoffs := [\<lparr>ih_token_hash = ''h'', ih_invitation = ''i1'', ih_return_to = ''/'', ih_created_at = 0,
        ih_expires_at = 50, ih_consumed_at = None\<rparr>]\<rparr>"

theorem invitation_single_use_witness:
  "\<exists>g s'. AcceptInvitation ''h'' ''u2'' 9 demo_invited = Inr (g, s') \<and>
     AcceptInvitation ''h'' ''u3'' 10 s' = Inl Tenant_ErrInvalidInvite"
proof -
  obtain g s' where acc: "AcceptInvitation ''h'' ''u2'' 9 demo_invited = Inr (g, s')"
    by (simp add: AcceptInvitation_def accept_member_invitation_def demo_invited_def demo_pair_def demo_start_def
        demo_user_def demo_member_def demo_organization_def invitation_usable_def is_manager_def
        organization_role_def is_member_row_def Let_def)
  have "length (invite_handoffs s') = 1 \<and> (\<forall>q \<in> set (invite_handoffs s'). ih_invitation q = ''i1'')"
    using acc by (rule AcceptInvitation_InrD) (auto simp: demo_invited_def set_sql_update split: if_splits)
  then show ?thesis using acc invitation_single_use [OF acc] by (auto simp: demo_invited_def)
qed

end
