(* ===== verification/Tokens.thy ===== *)
theory Tokens
  imports Base64
begin

text \<open>
  Bearer tokens of the job workers and of export downloads: src/api/internal/job/auth.go and
  src/api/internal/job/artifact_token.go.  HMAC-SHA256 and the JSON form of the claims are parameters; the
  lemmas that need the JSON round trip name it as a hypothesis.  A worker authenticator remembers the
  nonces it has accepted, so \<^verbatim>\<open>Verify\<close> passes its state on.
\<close>

definition unix :: "time \<Rightarrow> int" where "unix t = t div Second"

lemma Second_pos [simp]: "0 < Second"
  by (simp add: duration_defs)

lemma unix_mono: "a \<le> b \<Longrightarrow> unix a \<le> unix b"
  by (simp add: unix_def zdiv_mono1)

lemma unix_add_Second [simp]: "unix (t + k * Second) = unix t + k"
  by (simp add: unix_def duration_defs)

section \<open>Worker tokens\<close>

record worker_identity =
  wi_worker :: string
  wi_environment :: string

record worker_auth =
  wa_secret :: bytes
  wa_environment :: string
  wa_allowed :: "string list"
  wa_seen :: "(string \<times> int) list"

record worker_claims =
  wc_worker :: string
  wc_environment :: string
  wc_scopes :: "string list"
  wc_issued_at :: int
  wc_expires_at :: int
  wc_nonce :: string

definition NewWorkerAuth :: "bytes \<Rightarrow> string \<Rightarrow> string list \<Rightarrow> worker_auth result" where
  "NewWorkerAuth secret environment allowedScopes =
     (if length secret < 32 \<or> TrimSpace environment = [] \<or> allowedScopes = []
      then Inl (OtherError ''invalid worker auth configuration'')
      else if \<exists>scope \<in> set allowedScopes. TrimSpace scope = []
      then Inl (OtherError ''invalid worker auth scope'')
      else Inr \<lparr>wa_secret = secret, wa_environment = environment, wa_allowed = allowedScopes, wa_seen = []\<rparr>)"

text \<open>A nil authenticator is \<^verbatim>\<open>None\<close>; so is a failed read of the random nonce.\<close>

definition SignWorker ::
  "(bytes \<Rightarrow> bytes \<Rightarrow> bytes) \<Rightarrow> (worker_claims \<Rightarrow> bytes) \<Rightarrow> bytes option \<Rightarrow> worker_auth option
     \<Rightarrow> string \<Rightarrow> string list \<Rightarrow> time \<Rightarrow> duration \<Rightarrow> string result" where
  "SignWorker hmac marshal rnd auth worker scopes now ttl =
     (case auth of
        None \<Rightarrow> Inl Job_ErrUnauthorized
      | Some a \<Rightarrow>
          if TrimSpace worker = [] \<or> length worker > 100 \<or> scopes = [] \<or> ttl \<le> 0 \<or> ttl > 5 * Minute
          then Inl Job_ErrUnauthorized
          else if \<exists>scope \<in> set scopes. scope \<notin> set (wa_allowed a) then Inl Job_ErrUnauthorized
          else case rnd of
            None \<Rightarrow> Inl (OtherError ''rand'')
          | Some nonce \<Rightarrow>
              let claims = \<lparr>wc_worker = worker, wc_environment = wa_environment a, wc_scopes = scopes,
                            wc_issued_at = unix now, wc_expires_at = unix (now + ttl), wc_nonce = hex_encode nonce\<rparr>;
                  encoded = EncodeToString (marshal claims)
              in Inr (encoded @ ''.'' @ EncodeToString (hmac (wa_secret a) encoded)))"

definition claims_rejected :: "worker_auth \<Rightarrow> worker_claims \<Rightarrow> time \<Rightarrow> bool" where
  "claims_rejected a c now =
     (wc_worker c = [] \<or> length (wc_nonce c) \<noteq> 32 \<or> wc_environment c \<noteq> wa_environment a
      \<or> wc_issued_at c > unix (now + Minute) \<or> wc_expires_at c \<le> unix now
      \<or> wc_expires_at c - wc_issued_at c > 300)"

text \<open>The claims of a token whose signature is right.\<close>

definition signed_claims ::
  "(bytes \<Rightarrow> bytes \<Rightarrow> bytes) \<Rightarrow> (bytes \<Rightarrow> 'c option) \<Rightarrow> bytes \<Rightarrow> string \<Rightarrow> 'c option" where
  "signed_claims hmac unmarshal secret token =
     (case split_at (CHR ''.'') token of
        [payload, signature] \<Rightarrow>
          (case DecodeString signature of
             None \<Rightarrow> None
           | Some sig \<Rightarrow>
               if sig \<noteq> hmac secret payload then None
               else case DecodeString payload of None \<Rightarrow> None | Some body \<Rightarrow> unmarshal body)
      | _ \<Rightarrow> None)"

definition purge_seen :: "time \<Rightarrow> (string \<times> int) list \<Rightarrow> (string \<times> int) list" where
  "purge_seen now seen = filter (\<lambda>(nonce, expiry). \<not> expiry \<le> unix now) seen"

definition VerifyWorker ::
  "(bytes \<Rightarrow> bytes \<Rightarrow> bytes) \<Rightarrow> (bytes \<Rightarrow> worker_claims option) \<Rightarrow> worker_auth \<Rightarrow> string \<Rightarrow> string \<Rightarrow> time
     \<Rightarrow> worker_identity result \<times> worker_auth" where
  "VerifyWorker hmac unmarshal a token requiredScope now =
     (if requiredScope \<notin> set (wa_allowed a) then (Inl Job_ErrUnauthorized, a)
      else case signed_claims hmac unmarshal (wa_secret a) token of
        None \<Rightarrow> (Inl Job_ErrUnauthorized, a)
      | Some c \<Rightarrow>
          if claims_rejected a c now then (Inl Job_ErrUnauthorized, a)
          else if requiredScope \<notin> set (wc_scopes c) then (Inl Job_ErrUnauthorized, a)
          else
            let seen = purge_seen now (wa_seen a)
            in if map_of seen (wc_nonce c) \<noteq> None
               then (Inl Job_ErrUnauthorized, a\<lparr>wa_seen := seen\<rparr>)
               else (Inr \<lparr>wi_worker = wc_worker c, wi_environment = wc_environment c\<rparr>,
                     a\<lparr>wa_seen := (wc_nonce c, wc_expires_at c) # seen\<rparr>))"

text \<open>A run of \<^verbatim>\<open>Verify\<close> calls on one authenticator, and which of them succeeded.\<close>

fun verify_run ::
  "(bytes \<Rightarrow> bytes \<Rightarrow> bytes) \<Rightarrow> (bytes \<Rightarrow> worker_claims option) \<Rightarrow> worker_auth
     \<Rightarrow> (string \<times> string \<times> time) list \<Rightarrow> bool list" where
  "verify_run hmac unmarshal a [] = []"
| "verify_run hmac unmarshal a ((token, scope, now) # calls) =
     (case VerifyWorker hmac unmarshal a token scope now of
        (r, a') \<Rightarrow> (\<exists>i. r = Inr i) # verify_run hmac unmarshal a' calls)"

section \<open>Artifact tokens\<close>

record artifact_claims =
  ac_job :: string
  ac_org :: string
  ac_user :: string
  ac_expires_at :: int

definition NewArtifactToken :: "bytes \<Rightarrow> bytes result" where
  "NewArtifactToken secret =
     (if length secret < 32 then Inl (OtherError ''invalid artifact token configuration'') else Inr secret)"

definition SignTTL ::
  "(bytes \<Rightarrow> bytes \<Rightarrow> bytes) \<Rightarrow> (artifact_claims \<Rightarrow> bytes) \<Rightarrow> bytes \<Rightarrow> string \<Rightarrow> string \<Rightarrow> string \<Rightarrow> time
     \<Rightarrow> duration \<Rightarrow> string result" where
  "SignTTL hmac marshal secret job org user now ttl =
     (if ttl \<le> 0 \<or> ttl > 15 * Minute then Inl Job_ErrUnauthorized
      else if job = [] \<or> org = [] \<or> user = [] then Inl Job_ErrUnauthorized
      else
        let body = marshal \<lparr>ac_job = job, ac_org = org, ac_user = user, ac_expires_at = unix (now + ttl)\<rparr>;
            encoded = EncodeToString body
        in Inr (encoded @ ''.'' @ EncodeToString (hmac secret encoded)))"

definition SignArtifact ::
  "(bytes \<Rightarrow> bytes \<Rightarrow> bytes) \<Rightarrow> (artifact_claims \<Rightarrow> bytes) \<Rightarrow> bytes \<Rightarrow> string \<Rightarrow> string \<Rightarrow> string \<Rightarrow> time \<Rightarrow> string result" where
  "SignArtifact hmac marshal secret job org user now = SignTTL hmac marshal secret job org user now (15 * Minute)"

definition VerifyArtifact ::
  "(bytes \<Rightarrow> bytes \<Rightarrow> bytes) \<Rightarrow> (bytes \<Rightarrow> artifact_claims option) \<Rightarrow> bytes option \<Rightarrow> string \<Rightarrow> time
     \<Rightarrow> (string \<times> string \<times> string) result" where
  "VerifyArtifact hmac unmarshal secret token now =
     (case secret of
        None \<Rightarrow> Inl Job_ErrUnauthorized
      | Some key \<Rightarrow>
          (case signed_claims hmac unmarshal key token of
             None \<Rightarrow> Inl Job_ErrUnauthorized
           | Some c \<Rightarrow>
               if ac_job c = [] \<or> ac_org c = [] \<or> ac_user c = [] \<or> ac_expires_at c \<le> unix now
               then Inl Job_ErrUnauthorized
               else Inr (ac_job c, ac_org c, ac_user c)))"

section \<open>Lemmas\<close>

lemma signed_claims_round_trip:
  "signed_claims hmac unmarshal secret
     (EncodeToString body @ ''.'' @ EncodeToString (hmac secret (EncodeToString body))) = unmarshal body"
  by (simp add: signed_claims_def split_at_append split_at_no_sep EncodeToString_no_dot)

lemma signed_claims_SomeD:
  assumes "signed_claims hmac unmarshal secret token = Some c"
  obtains payload signature body where "split_at (CHR ''.'') token = [payload, signature]"
    "DecodeString signature = Some (hmac secret payload)" "DecodeString payload = Some body" "unmarshal body = Some c"
  using assms by (auto simp: signed_claims_def split: list.splits option.splits if_splits)

lemma VerifyWorker_InrD:
  assumes "VerifyWorker hmac unmarshal a token scope now = (Inr i, a')"
  obtains c where "signed_claims hmac unmarshal (wa_secret a) token = Some c" "\<not> claims_rejected a c now"
    "scope \<in> set (wc_scopes c)" "scope \<in> set (wa_allowed a)"
    "map_of (purge_seen now (wa_seen a)) (wc_nonce c) = None"
    "a' = a\<lparr>wa_seen := (wc_nonce c, wc_expires_at c) # purge_seen now (wa_seen a)\<rparr>"
    "i = \<lparr>wi_worker = wc_worker c, wi_environment = wc_environment c\<rparr>"
  using assms by (auto simp: VerifyWorker_def Let_def split: if_splits option.splits)

lemma VerifyWorker_frame:
  assumes "VerifyWorker hmac unmarshal a token scope now = (r, a')"
  shows "wa_secret a' = wa_secret a" "wa_environment a' = wa_environment a" "wa_allowed a' = wa_allowed a"
  using assms by (auto simp: VerifyWorker_def Let_def split: if_splits option.splits)

text \<open>A nonce stays remembered until its token has expired.\<close>

definition remembered :: "string \<Rightarrow> int \<Rightarrow> time \<Rightarrow> worker_auth \<Rightarrow> bool" where
  "remembered n e t a = (map_of (wa_seen a) n = Some e \<or> e \<le> unix t)"

lemma map_of_purge:
  "map_of seen n = Some e \<Longrightarrow> \<not> e \<le> unix now \<Longrightarrow> \<exists>e'. map_of (purge_seen now seen) n = Some e'"
  by (induction seen) (auto simp: purge_seen_def split: if_splits)

lemma map_of_purge_eq:
  assumes "distinct (map fst seen)"
  shows "map_of (purge_seen now seen) n = (case map_of seen n of None \<Rightarrow> None | Some e \<Rightarrow> if e \<le> unix now then None else Some e)"
  using assms by (induction seen) (force simp: purge_seen_def split: if_splits option.splits dest: map_of_SomeD)+

lemma distinct_purge: "distinct (map fst seen) \<Longrightarrow> distinct (map fst (purge_seen now seen))"
  by (induction seen) (auto simp: purge_seen_def)

definition seen_ok :: "worker_auth \<Rightarrow> bool" where "seen_ok a = distinct (map fst (wa_seen a))"

lemma VerifyWorker_seen_ok:
  assumes "VerifyWorker hmac unmarshal a token scope now = (r, a')" "seen_ok a"
  shows "seen_ok a'"
  using assms distinct_purge [of "wa_seen a" now]
  by (auto simp: VerifyWorker_def seen_ok_def Let_def map_of_eq_None_iff split: if_splits option.splits)

lemma VerifyWorker_remembers:
  assumes "VerifyWorker hmac unmarshal a token scope now = (r, a')" "seen_ok a" "remembered n e t a" "t \<le> now"
  shows "remembered n e now a'"
proof (cases "e \<le> unix now")
  case False
  then have s: "map_of (wa_seen a) n = Some e" using assms(3,4) unix_mono [of t now] by (auto simp: remembered_def)
  then have p: "map_of (purge_seen now (wa_seen a)) n = Some e"
    using map_of_purge_eq [of "wa_seen a" now n] assms(2) False by (simp add: seen_ok_def)
  have "wa_seen a' = wa_seen a \<or> wa_seen a' = purge_seen now (wa_seen a)
      \<or> (\<exists>m x. map_of (purge_seen now (wa_seen a)) m = None
            \<and> wa_seen a' = (m, x) # purge_seen now (wa_seen a))"
    using assms(1) by (auto simp: VerifyWorker_def Let_def split: if_splits option.splits)
  then show ?thesis using s p by (auto simp: remembered_def)
qed (simp add: remembered_def)

lemma remembered_rejects:
  assumes "signed_claims hmac unmarshal (wa_secret a) token = Some c" "remembered (wc_nonce c) (wc_expires_at c) t a"
    and "seen_ok a" "t \<le> now" "VerifyWorker hmac unmarshal a token scope now = (Inr i, a')"
  shows False
  using assms(5)
proof (rule VerifyWorker_InrD)
  fix c' assume c': "signed_claims hmac unmarshal (wa_secret a) token = Some c'" "\<not> claims_rejected a c' now"
    "map_of (purge_seen now (wa_seen a)) (wc_nonce c') = None"
  then have [simp]: "c' = c" using assms(1) by simp
  have "\<not> wc_expires_at c \<le> unix now" using c'(2) by (simp add: claims_rejected_def)
  then have "map_of (wa_seen a) (wc_nonce c) = Some (wc_expires_at c)"
    using assms(2,4) unix_mono [of t now] by (auto simp: remembered_def)
  then show False
    using map_of_purge_eq [of "wa_seen a" now "wc_nonce c"] assms(3) c'(3) \<open>\<not> wc_expires_at c \<le> unix now\<close>
    by (simp add: seen_ok_def)
qed

lemma verify_run_remembered:
  assumes "signed_claims hmac unmarshal secret token = Some c" "wa_secret a = secret"
    and "remembered (wc_nonce c) (wc_expires_at c) t a" "seen_ok a" "sorted (t # map (snd \<circ> snd) calls)"
    and "i < length calls" "fst (calls ! i) = token"
  shows "\<not> verify_run hmac unmarshal a calls ! i"
  using assms
proof (induction calls arbitrary: a t i)
  case (Cons call calls)
  obtain tok scope now where call: "call = (tok, scope, now)" by (cases call)
  obtain r a' where v: "VerifyWorker hmac unmarshal a tok scope now = (r, a')" by fastforce
  have now: "t \<le> now" using Cons.prems(5) call by simp
  show ?case
  proof (cases i)
    case 0
    then have "tok = token" using Cons.prems(7) call by simp
    then have "\<not> (\<exists>x. r = Inr x)"
      using remembered_rejects [of hmac unmarshal a token c t now scope] v Cons.prems now by auto
    then show ?thesis using 0 by (simp add: call v)
  next
    case (Suc j)
    have "\<not> verify_run hmac unmarshal a' calls ! j"
    proof (rule Cons.IH [where t = now])
      show "wa_secret a' = secret" using VerifyWorker_frame [OF v] Cons.prems(2) by simp
      show "remembered (wc_nonce c) (wc_expires_at c) now a'"
        by (rule VerifyWorker_remembers [OF v Cons.prems(4,3) now])
      show "seen_ok a'" by (rule VerifyWorker_seen_ok [OF v Cons.prems(4)])
      show "sorted (now # map (snd \<circ> snd) calls)" using Cons.prems(5) call by (simp add: o_def)
    qed (use Cons.prems(1,6,7) Suc in simp_all)
    then show ?thesis using Suc by (simp add: call v)
  qed
qed simp

lemma length_verify_run [simp]: "length (verify_run hmac unmarshal a calls) = length calls"
  by (induction hmac unmarshal a calls rule: verify_run.induct) (auto split: prod.splits)

section \<open>Properties\<close>

text \<open>
  \<^bold>\<open>C8.\<close>  No replay: on a fresh authenticator whose clock does not run backwards, one token is accepted at
  most once, whatever other tokens are presented in between and however long the run.
\<close>
theorem worker_token_used_once:
  assumes "NewWorkerAuth secret env scopes = Inr a" "sorted (map (snd \<circ> snd) calls)"
    and "i < j" "j < length calls" "fst (calls ! i) = fst (calls ! j)"
    and "verify_run hmac unmarshal a calls ! i"
  shows "\<not> verify_run hmac unmarshal a calls ! j"
proof -
  have "seen_ok a" using assms(1) by (auto simp: NewWorkerAuth_def seen_ok_def split: if_splits)
  then show ?thesis using assms(2-)
  proof (induction calls arbitrary: a i j)
    case (Cons call calls)
    obtain tok scope now where call: "call = (tok, scope, now)" by (cases call)
    obtain r a' where v: "VerifyWorker hmac unmarshal a tok scope now = (r, a')" by fastforce
    have ok: "seen_ok a'" by (rule VerifyWorker_seen_ok [OF v Cons.prems(1)])
    obtain k where j: "j = Suc k" using Cons.prems(3) by (cases j) auto
    show ?case
    proof (cases i)
      case 0
      then obtain x where "r = Inr x" using Cons.prems(6) by (auto simp: call v)
      then obtain c where c: "signed_claims hmac unmarshal (wa_secret a) tok = Some c"
        "a' = a\<lparr>wa_seen := (wc_nonce c, wc_expires_at c) # purge_seen now (wa_seen a)\<rparr>"
        using v by (auto elim: VerifyWorker_InrD)
      have "\<not> verify_run hmac unmarshal a' calls ! k"
        by (rule verify_run_remembered [OF c(1), where t = now])
          (use Cons.prems 0 j call ok c in \<open>auto simp: remembered_def o_def\<close>)
      then show ?thesis by (simp add: call v j)
    next
      case (Suc l)
      have "\<not> verify_run hmac unmarshal a' calls ! k"
        by (rule Cons.IH [OF ok, of l k]) (use Cons.prems Suc j in \<open>auto simp: call v o_def\<close>)
      then show ?thesis by (simp add: call v j)
    qed
  qed simp
qed

definition demo_claims :: worker_claims where
  "demo_claims = \<lparr>wc_worker = ''w'', wc_environment = ''prod'', wc_scopes = [''claim''], wc_issued_at = 0,
     wc_expires_at = 60, wc_nonce = replicate 32 (CHR ''0'')\<rparr>"

definition demo_mac :: "bytes \<Rightarrow> bytes \<Rightarrow> bytes" where "demo_mac key text = key @ text"

definition demo_unmarshal :: "bytes \<Rightarrow> worker_claims option" where
  "demo_unmarshal body = (if body = ''c'' then Some demo_claims else None)"

definition demo_worker_auth :: worker_auth where
  "demo_worker_auth = \<lparr>wa_secret = replicate 32 (CHR ''k''), wa_environment = ''prod'', wa_allowed = [''claim''], wa_seen = []\<rparr>"

definition demo_token :: string where
  "demo_token = EncodeToString ''c'' @ ''.'' @ EncodeToString (demo_mac (replicate 32 (CHR ''k'')) (EncodeToString ''c''))"

lemma demo_worker_auth: "NewWorkerAuth (replicate 32 (CHR ''k'')) ''prod'' [''claim''] = Inr demo_worker_auth"
proof -
  have "TrimSpace ''prod'' = ''prod''" "TrimSpace ''claim'' = ''claim''"
    by (rule TrimSpace_ascii_solid; simp add: byte_def)+
  then show ?thesis by (simp add: NewWorkerAuth_def demo_worker_auth_def)
qed

lemma demo_signed_claims:
  "signed_claims demo_mac demo_unmarshal (replicate 32 (CHR ''k'')) demo_token = Some demo_claims"
  unfolding demo_token_def signed_claims_round_trip by (simp add: demo_unmarshal_def)

theorem worker_token_used_once_witness:
  "verify_run demo_mac demo_unmarshal demo_worker_auth [(demo_token, ''claim'', 5), (demo_token, ''claim'', 6)] ! 0
   \<and> \<not> verify_run demo_mac demo_unmarshal demo_worker_auth [(demo_token, ''claim'', 5), (demo_token, ''claim'', 6)] ! 1"
proof -
  have first: "verify_run demo_mac demo_unmarshal demo_worker_auth
      [(demo_token, ''claim'', 5), (demo_token, ''claim'', 6)] ! 0"
    using demo_signed_claims
    by (auto simp: VerifyWorker_def demo_worker_auth_def claims_rejected_def demo_claims_def unix_def duration_defs
        purge_seen_def Let_def split: prod.splits)
  show ?thesis
    using first worker_token_used_once [OF demo_worker_auth, where i = 0 and j = 1
        and calls = "[(demo_token, ''claim'', 5), (demo_token, ''claim'', 6)]"] by simp
qed

text \<open>
  A worker token that was signed for allowed scopes is accepted for each of its scopes, once, by an
  authenticator of the same secret that has not seen its nonce, from one minute before it was issued until
  the second it expires; from then on it is refused.
\<close>
theorem worker_token_round_trip:
  fixes worker :: string and a :: worker_auth and scopes :: "string list" and nonce :: bytes
    and now :: time and ttl :: duration
  defines "c \<equiv> \<lparr>wc_worker = worker, wc_environment = wa_environment a, wc_scopes = scopes,
             wc_issued_at = unix now, wc_expires_at = unix (now + ttl), wc_nonce = hex_encode nonce\<rparr>"
  assumes json: "unmarshal (marshal c) = Some c"
    and sign: "SignWorker hmac marshal (Some nonce) (Some a) worker scopes now ttl = Inr token"
    and nonce: "length nonce = 16" "map_of (wa_seen a) (hex_encode nonce) = None"
    and scope: "scope \<in> set scopes" and clock: "unix now \<le> unix (now' + Minute)"
  shows "fst (VerifyWorker hmac unmarshal a token scope now') =
     (if unix now' < unix (now + ttl) then Inr \<lparr>wi_worker = worker, wi_environment = wa_environment a\<rparr>
      else Inl Job_ErrUnauthorized)"
proof -
  have guard: "TrimSpace worker \<noteq> []" "ttl \<le> 5 * Minute" "\<forall>s \<in> set scopes. s \<in> set (wa_allowed a)"
    and token: "token = EncodeToString (marshal c) @ ''.'' @ EncodeToString (hmac (wa_secret a) (EncodeToString (marshal c)))"
    using sign by (auto simp: SignWorker_def Let_def c_def split: if_splits)
  have "worker \<noteq> []" using guard(1) by (auto simp: TrimSpace_def trim_left_runes_def trim_right_runes_def unrunes_def)
  moreover have "unix (now + ttl) \<le> unix now + 300"
  proof -
    have "unix (now + ttl) \<le> unix (now + 300 * Second)" by (rule unix_mono) (use guard(2) in \<open>simp add: duration_defs\<close>)
    then show ?thesis by simp
  qed
  moreover have "map_of (purge_seen now' (wa_seen a)) (hex_encode nonce) = None"
    using nonce(2) by (auto simp: map_of_eq_None_iff purge_seen_def)
  ultimately show ?thesis
    using guard scope nonce clock unfolding token
    by (simp add: VerifyWorker_def signed_claims_round_trip [simplified] json claims_rejected_def Let_def)
      (simp add: c_def)
qed

definition demo_signed :: worker_claims where
  "demo_signed = \<lparr>wc_worker = ''w'', wc_environment = ''prod'', wc_scopes = [''claim''], wc_issued_at = 0,
     wc_expires_at = 60, wc_nonce = hex_encode (replicate 16 (CHR ''n''))\<rparr>"

definition demo_marshal :: "worker_claims \<Rightarrow> bytes" where
  "demo_marshal c = (if c = demo_signed then ''c'' else [])"

definition demo_decode :: "bytes \<Rightarrow> worker_claims option" where
  "demo_decode b = (if b = ''c'' then Some demo_signed else None)"

theorem worker_token_round_trip_witness:
  "\<exists>token. SignWorker demo_mac demo_marshal (Some (replicate 16 (CHR ''n''))) (Some demo_worker_auth)
       ''w'' [''claim''] 0 (60 * Second) = Inr token
     \<and> fst (VerifyWorker demo_mac demo_decode demo_worker_auth token ''claim'' (7 * Second))
         = Inr \<lparr>wi_worker = ''w'', wi_environment = ''prod''\<rparr>"
proof -
  have "TrimSpace ''w'' = ''w''" by (rule TrimSpace_ascii_solid) (simp_all add: byte_def)
  then obtain token where t: "SignWorker demo_mac demo_marshal (Some (replicate 16 (CHR ''n''))) (Some demo_worker_auth)
       ''w'' [''claim''] 0 (60 * Second) = Inr token"
    by (simp add: SignWorker_def demo_worker_auth_def duration_defs Let_def)
  have unix: "unix 0 = 0" "unix (0 + 60 * Second) = 60" "unix (7 * Second) = 7"
    using unix_add_Second [of 0 60] unix_add_Second [of 0 7] by (simp_all add: unix_def)
  have c: "\<lparr>wc_worker = ''w'', wc_environment = wa_environment demo_worker_auth, wc_scopes = [''claim''],
      wc_issued_at = unix 0, wc_expires_at = unix (0 + 60 * Second), wc_nonce = hex_encode (replicate 16 (CHR ''n''))\<rparr> = demo_signed"
    unfolding unix by (simp add: demo_signed_def demo_worker_auth_def)
  have "fst (VerifyWorker demo_mac demo_decode demo_worker_auth token ''claim'' (7 * Second)) =
     (if unix (7 * Second) < unix (0 + 60 * Second)
      then Inr \<lparr>wi_worker = ''w'', wi_environment = wa_environment demo_worker_auth\<rparr> else Inl Job_ErrUnauthorized)"
  proof -
    have js: "demo_decode (demo_marshal demo_signed) = Some demo_signed" by (simp add: demo_marshal_def demo_decode_def)
    have "unix 0 \<le> unix (7 * Second + Minute)" by (rule unix_mono) (simp add: duration_defs)
    then show ?thesis
      using worker_token_round_trip [where unmarshal = demo_decode and marshal = demo_marshal and hmac = demo_mac
          and worker = "''w''" and a = demo_worker_auth and scopes = "[''claim'']"
          and nonce = "replicate 16 (CHR ''n'')" and now = 0 and ttl = "60 * Second", unfolded c, OF js t,
          where scope = "''claim''" and now' = "7 * Second"]
      by (simp add: demo_worker_auth_def)
  qed
  then show ?thesis using t unfolding unix by (simp add: demo_worker_auth_def)
qed

text \<open>
  A download token names exactly the job, organization and user it was signed for, until the second
  it expires, which is at most fifteen minutes after signing; from then on it is refused.
\<close>
theorem artifact_token_round_trip:
  fixes job org user :: string and now :: time and ttl :: duration
  defines "c \<equiv> \<lparr>ac_job = job, ac_org = org, ac_user = user, ac_expires_at = unix (now + ttl)\<rparr>"
  assumes json: "unmarshal (marshal c) = Some c"
    and sign: "SignTTL hmac marshal secret job org user now ttl = Inr token"
  shows "VerifyArtifact hmac unmarshal (Some secret) token now' =
       (if unix now' < unix (now + ttl) then Inr (job, org, user) else Inl Job_ErrUnauthorized)
     \<and> unix (now + ttl) \<le> unix now + 900"
proof -
  have guard: "ttl \<le> 15 * Minute" "job \<noteq> []" "org \<noteq> []" "user \<noteq> []"
    and token: "token = EncodeToString (marshal c) @ ''.'' @ EncodeToString (hmac secret (EncodeToString (marshal c)))"
    using sign by (auto simp: SignTTL_def Let_def c_def split: if_splits)
  have "unix (now + ttl) \<le> unix (now + 900 * Second)" by (rule unix_mono) (use guard(1) in \<open>simp add: duration_defs\<close>)
  then have "unix (now + ttl) \<le> unix now + 900" by simp
  then show ?thesis
    using guard unfolding token
    by (simp add: VerifyArtifact_def signed_claims_round_trip [simplified] json) (simp add: c_def)
qed

theorem artifact_token_round_trip_witness:
  "\<exists>token. SignTTL demo_mac (\<lambda>c. ac_job c) ''k'' ''j'' ''o'' ''u'' 0 (60 * Second) = Inr token
     \<and> VerifyArtifact demo_mac (\<lambda>b. Some \<lparr>ac_job = b, ac_org = ''o'', ac_user = ''u'', ac_expires_at = unix (0 + 60 * Second)\<rparr>)
         (Some ''k'') token 5 = Inr (''j'', ''o'', ''u'')"
proof -
  obtain token where t: "SignTTL demo_mac (\<lambda>c. ac_job c) ''k'' ''j'' ''o'' ''u'' 0 (60 * Second) = Inr token"
    by (simp add: SignTTL_def duration_defs Let_def)
  have "unix 5 < unix (0 + 60 * Second)" by (simp add: unix_def duration_defs)
  then show ?thesis
    using t artifact_token_round_trip [where unmarshal = "\<lambda>b. Some \<lparr>ac_job = b, ac_org = ''o'', ac_user = ''u'',
        ac_expires_at = unix (0 + 60 * Second)\<rparr>" and now' = 5, OF _ t] by simp
qed

end
