(* ===== verification/Csv.thy ===== *)
theory Csv
  imports GoText
begin

text \<open>
  Comma separated files and worksheets, as the exports and imports of tasks, vendors and documents use them: the writer of
  Go's \<^verbatim>\<open>encoding/csv\<close> with \<^verbatim>\<open>UseCRLF\<close>, its reader with \<^verbatim>\<open>FieldsPerRecord = -1\<close>, and the names
  of a worksheet's columns.  The reader gives back what the writer wrote, less the carriage returns, which the writer drops.
\<close>

section \<open>The writer\<close>

text \<open>A field is quoted when it holds a comma, a quote or a line break or starts with a space; in quotes a quote is doubled, a
  carriage return dropped and a line feed written as two characters.\<close>

definition quote :: char where "quote = byte_char 34"
definition apostrophe :: char where "apostrophe = byte_char 39"
definition CR :: char where "CR = byte_char 13"
definition LF :: char where "LF = byte_char 10"
definition crlf :: string where "crlf = [CR, LF]"

definition needs_quotes :: "string \<Rightarrow> bool" where
  "needs_quotes v =
     (v \<noteq> [] \<and> (v = [byte_char 92, CHR ''.''] \<or> (\<exists>c \<in> set v. c = CHR '','' \<or> c = quote \<or> c = CR \<or> c = LF)
                \<or> is_space (fst (decode_rune v))))"

definition quoted_char :: "char \<Rightarrow> string" where
  "quoted_char c = (if c = quote then [quote, quote] else if c = CR then [] else if c = LF then crlf else [c])"

definition csv_field :: "string \<Rightarrow> string" where
  "csv_field v = (if needs_quotes v then quote # concat (map quoted_char v) @ [quote] else v)"

definition csv_line :: "string list \<Rightarrow> string" where
  "csv_line fs = join '','' (map csv_field fs) @ crlf"

definition csv_text :: "string list list \<Rightarrow> string" where
  "csv_text rows = concat (map csv_line rows)"

definition byte_order_mark :: string where "byte_order_mark = map byte_char [0xEF, 0xBB, 0xBF]"

text \<open>Column names of a worksheet: A to Z, then AA and so on.\<close>

function spreadsheetColumn :: "int \<Rightarrow> string" where
  "spreadsheetColumn index =
     (if index < 0 then [] else spreadsheetColumn (index div 26 - 1) @ [byte_char (nat (65 + index mod 26))])"
  by pat_completeness auto
termination by (relation "measure (\<lambda>index. nat (index + 1))") auto

declare spreadsheetColumn.simps [simp del]

lemma spreadsheetColumn_examples:
  "spreadsheetColumn 0 = ''A''" "spreadsheetColumn 25 = ''Z''" "spreadsheetColumn 26 = ''AA''" "spreadsheetColumn 701 = ''ZZ''"
  "spreadsheetColumn 702 = ''AAA''"
  by code_simp+

section \<open>The reader\<close>

text \<open>Lines end in \<^verbatim>\<open>\n\<close> or \<^verbatim>\<open>\r\n\<close>; a carriage return at the end of the data is dropped.\<close>

fun csv_normal :: "string \<Rightarrow> string" where
  "csv_normal [] = []"
| "csv_normal [c] = (if c = CR then [] else [c])"
| "csv_normal (c # d # cs) = (if c = CR \<and> d = LF then csv_normal (d # cs) else c # csv_normal (d # cs))"

text \<open>A quoted field up to its closing quote, with the text after it; none when the quote is never closed.\<close>

fun csv_quoted :: "string \<Rightarrow> (string \<times> string) option" where
  "csv_quoted [] = None"
| "csv_quoted (c # cs) =
     (if c \<noteq> quote then map_option (apfst ((#) c)) (csv_quoted cs)
      else case cs of
        [] \<Rightarrow> Some ([], [])
      | d # ds \<Rightarrow> if d = quote then map_option (apfst ((#) quote)) (csv_quoted ds) else Some ([], cs))"

definition field_end :: "char \<Rightarrow> bool" where "field_end c = (c = CHR '','' \<or> c = LF)"

text \<open>The field at the front of a record and the text after it, which is empty or starts with what ended the field; none for a
  quote inside a bare field and for text after a closing quote.\<close>

definition csv_cell :: "string \<Rightarrow> (string \<times> string) option" where
  "csv_cell cs =
     (if cs \<noteq> [] \<and> hd cs = quote
      then case csv_quoted (tl cs) of
        None \<Rightarrow> None
      | Some (f, rest) \<Rightarrow> if rest = [] \<or> field_end (hd rest) then Some (f, rest) else None
      else
        let f = takeWhile (\<lambda>c. \<not> field_end c) cs
        in if quote \<in> set f then None else Some (f, dropWhile (\<lambda>c. \<not> field_end c) cs))"

lemma csv_quoted_shorter: "csv_quoted cs = Some (f, rest) \<Longrightarrow> length rest < length cs"
  by (induction cs arbitrary: f rest rule: csv_quoted.induct) (auto split: if_splits list.splits, fastforce+)

lemma csv_cell_shorter: "csv_cell cs = Some (f, rest) \<Longrightarrow> length rest \<le> length cs"
  using csv_quoted_shorter [of "tl cs"] length_dropWhile_le [of "\<lambda>c. \<not> field_end c" cs]
  by (cases cs) (force simp: csv_cell_def Let_def split: if_splits option.splits)+

text \<open>A record, then all of them; empty lines are skipped.\<close>

function csv_record :: "string \<Rightarrow> (string list \<times> string) option" where
  "csv_record cs =
     (case csv_cell cs of
        None \<Rightarrow> None
      | Some (f, rest) \<Rightarrow>
          (case rest of
             [] \<Rightarrow> Some ([f], [])
           | c # more \<Rightarrow> if c = CHR '','' then map_option (apfst ((#) f)) (csv_record more) else Some ([f], more)))"
  by pat_completeness auto
termination
  by (relation "measure length") (auto dest!: csv_cell_shorter)

declare csv_record.simps [simp del]

lemma csv_record_shorter: "csv_record cs = Some (fs, rest) \<Longrightarrow> cs \<noteq> [] \<Longrightarrow> length rest < length cs"
proof (induction cs arbitrary: fs rest rule: csv_record.induct)
  case (1 cs)
  obtain f after where cell: "csv_cell cs = Some (f, after)"
    using "1.prems"(1) by (subst (asm) csv_record.simps) (auto split: option.splits)
  have le: "length after \<le> length cs" by (rule csv_cell_shorter [OF cell])
  show ?case
  proof (cases after)
    case Nil
    then show ?thesis using "1.prems" cell by (subst (asm) csv_record.simps) simp
  next
    case (Cons c more)
    show ?thesis
    proof (cases "c = CHR '',''")
      case True
      then obtain gs where gs: "csv_record more = Some (gs, rest)"
        using "1.prems"(1) cell Cons by (subst (asm) csv_record.simps) auto
      show ?thesis
      proof (cases "more = []")
        case True
        then show ?thesis using gs le Cons "1.prems"(2)
          by (subst (asm) csv_record.simps) (auto simp: csv_cell_def)
      next
        case False
        then show ?thesis using "1.IH" [OF cell refl Cons True gs] le Cons by simp
      qed
    next
      case False
      then show ?thesis using "1.prems"(1) cell Cons le by (subst (asm) csv_record.simps) simp
    qed
  qed
qed

function csv_records :: "string \<Rightarrow> string list list option" where
  "csv_records cs =
     (case cs of
        [] \<Rightarrow> Some []
      | c # more \<Rightarrow>
          if c = LF then csv_records more
          else case csv_record cs of
            None \<Rightarrow> None
          | Some (fs, rest) \<Rightarrow> map_option ((#) fs) (csv_records rest))"
  by pat_completeness auto
termination
  by (relation "measure length") (auto dest!: csv_record_shorter)

declare csv_records.simps [simp del]

section \<open>The round trip\<close>

text \<open>What the writer keeps of a field, and the field between line feeds.\<close>

definition without_CR :: "string \<Rightarrow> string" where "without_CR v = filter (\<lambda>c. c \<noteq> CR) v"

definition unix_field :: "string \<Rightarrow> string" where
  "unix_field v = (if needs_quotes v then quote # concat (map (\<lambda>c. if c = quote then [quote, quote] else [c]) (without_CR v)) @ [quote] else v)"

definition unix_line :: "string list \<Rightarrow> string" where "unix_line fs = join '','' (map unix_field fs) @ [LF]"

lemma csv_chars [simp]: "CR \<noteq> LF" "quote \<noteq> CR" "quote \<noteq> LF" "quote \<noteq> CHR '',''" "CR \<noteq> CHR '',''" "LF \<noteq> CHR '',''"
  "LF \<noteq> CR" "CR \<noteq> quote" "LF \<noteq> quote" "CHR '','' \<noteq> quote" "CHR '','' \<noteq> CR" "CHR '','' \<noteq> LF"
  by code_simp+

lemma csv_normal_append: "a = [] \<or> last a \<noteq> CR \<Longrightarrow> csv_normal (a @ b) = csv_normal a @ csv_normal b"
proof (induction a rule: csv_normal.induct)
  case (2 c)
  then show ?case by (cases b) auto
qed auto

lemma csv_normal_plain: "CR \<notin> set v \<Longrightarrow> csv_normal v = v"
  by (induction v rule: csv_normal.induct) auto

lemma csv_normal_crlf: "csv_normal (crlf @ b) = LF # csv_normal b"
  by (cases b) (simp_all add: crlf_def)

lemma csv_normal_quoted:
  "csv_normal (concat (map quoted_char v) @ quote # b)
     = concat (map (\<lambda>c. if c = quote then [quote, quote] else [c]) (without_CR v)) @ csv_normal (quote # b)"
proof (induction v)
  case (Cons c v)
  have "csv_normal (quoted_char c @ concat (map quoted_char v) @ quote # b)
      = (if c = CR then [] else if c = quote then [quote, quote] else [c]) @ csv_normal (concat (map quoted_char v) @ quote # b)"
  proof (cases "c = LF")
    case True
    then show ?thesis by (simp add: quoted_char_def csv_normal_crlf)
  next
    case False
    then show ?thesis by (auto simp: quoted_char_def csv_normal_append [of "[x, y]" for x y, simplified] csv_normal_append [of "[x]" for x, simplified])
  qed
  then show ?case using Cons by (simp add: without_CR_def)
qed (simp add: without_CR_def)

lemma plain_field: "\<not> needs_quotes v \<Longrightarrow> c \<in> set v \<Longrightarrow> c \<noteq> CHR '','' \<and> c \<noteq> quote \<and> c \<noteq> CR \<and> c \<noteq> LF"
  by (auto simp: needs_quotes_def)

lemma csv_normal_field: "csv_normal (csv_field v @ b) = unix_field v @ csv_normal b"
proof (cases "needs_quotes v")
  case True
  have q: "csv_normal (quote # xs) = quote # csv_normal xs" for xs
    using csv_normal_append [of "[quote]" xs] by simp
  show ?thesis using True by (simp add: csv_field_def unix_field_def q csv_normal_quoted)
next
  case False
  then have "CR \<notin> set v" using plain_field by blast
  moreover from this have "v = [] \<or> last v \<noteq> CR" by (metis last_in_set)
  ultimately show ?thesis using False by (simp add: csv_field_def unix_field_def csv_normal_append csv_normal_plain)
qed

lemma csv_normal_fields:
  "csv_normal (join '','' (map csv_field fs) @ b) = join '','' (map unix_field fs) @ csv_normal b"
proof (induction "'',''" fs rule: join.induct)
  case (3 p q ps)
  have "csv_normal ('','' @ xs) = '','' @ csv_normal xs" for xs using csv_normal_append [of "'',''" xs] by simp
  then show ?case using 3 by (simp add: csv_normal_field)
qed (simp_all add: csv_normal_field)

lemma csv_normal_text: "csv_normal (csv_text rows) = concat (map unix_line rows)"
proof (induction rows)
  case (Cons r rows)
  then show ?case by (simp add: csv_text_def csv_line_def unix_line_def csv_normal_fields csv_normal_crlf)
qed (simp add: csv_text_def)

lemma csv_quoted_text:
  "b = [] \<or> hd b \<noteq> quote \<Longrightarrow>
   csv_quoted (concat (map (\<lambda>c. if c = quote then [quote, quote] else [c]) v) @ quote # b) = Some (v, b)"
  by (induction v) (auto split: list.splits)

lemma csv_cell_unix:
  assumes "field_end e"
  shows "csv_cell (unix_field v @ e # b) = Some (without_CR v, e # b)"
proof (cases "needs_quotes v")
  case True
  have "e \<noteq> quote" using assms by (auto simp: field_end_def)
  then show ?thesis using True assms by (simp add: csv_cell_def unix_field_def csv_quoted_text)
next
  case False
  have plain: "\<not> field_end c" "c \<noteq> quote" "c \<noteq> CR" if "c \<in> set v" for c
    using plain_field [OF False that] by (auto simp: field_end_def)
  have "e \<noteq> quote" using assms by (auto simp: field_end_def)
  then have "hd (v @ e # b) \<noteq> quote" using plain(2) by (cases v) auto
  moreover have "takeWhile (\<lambda>c. \<not> field_end c) (v @ e # b) = v" "dropWhile (\<lambda>c. \<not> field_end c) (v @ e # b) = e # b"
    using plain(1) assms by (simp_all add: takeWhile_append dropWhile_append)
  moreover have "without_CR v = v" using plain(3) by (simp add: without_CR_def filter_id_conv)
  ultimately show ?thesis using False plain(2) by (auto simp: csv_cell_def unix_field_def)
qed

lemma csv_record_unix:
  assumes "fs \<noteq> []"
  shows "csv_record (unix_line fs @ b) = Some (map without_CR fs, b)"
  using assms unfolding unix_line_def
proof (induction "'',''" fs rule: join.induct)
  case (2 p)
  show ?case
    by (subst csv_record.simps) (simp add: csv_cell_unix field_end_def)
next
  case (3 p q ps)
  have "csv_cell (unix_field p @ CHR '','' # join '','' (map unix_field (q # ps)) @ LF # b)
      = Some (without_CR p, CHR '','' # join '','' (map unix_field (q # ps)) @ LF # b)"
    by (rule csv_cell_unix) (simp add: field_end_def)
  then show ?case using 3 by (subst csv_record.simps) simp
qed simp

text \<open>A record with no field, or with one empty field, is written as an empty line.\<close>

definition visible_record :: "string list \<Rightarrow> bool" where
  "visible_record fs = (fs \<noteq> [] \<and> fs \<noteq> [[]])"

lemma unix_line_starts:
  assumes "visible_record fs" obtains c more where "unix_line fs = c # more" "c \<noteq> LF"
proof -
  obtain f gs where fs: "fs = f # gs" using assms by (cases fs) (auto simp: visible_record_def)
  show thesis
  proof (cases "unix_field f")
    case Nil
    then have "f = []" by (auto simp: unix_field_def split: if_splits)
    then have "gs \<noteq> []" using assms fs by (auto simp: visible_record_def)
    then obtain q ps where "gs = q # ps" by (cases gs) auto
    then show thesis using that Nil fs by (simp add: unix_line_def)
  next
    case (Cons c more)
    have "c \<noteq> LF"
    proof (cases "needs_quotes f")
      case True
      then show ?thesis using Cons by (auto simp: unix_field_def)
    next
      case False
      then show ?thesis using Cons plain_field [OF False, of c] by (simp add: unix_field_def)
    qed
    then show thesis using that Cons fs by (cases gs) (simp_all add: unix_line_def)
  qed
qed

lemma csv_records_unix:
  assumes "list_all visible_record rows"
  shows "csv_records (concat (map unix_line rows)) = Some (map (map without_CR) rows)"
  using assms
proof (induction rows)
  case Nil
  show ?case by (simp add: csv_records.simps)
next
  case (Cons fs rows)
  have "visible_record fs" using Cons.prems by simp
  then obtain c more where line: "unix_line fs = c # more" "c \<noteq> LF" by (rule unix_line_starts)
  have "csv_record (c # more @ concat (map unix_line rows)) = Some (map without_CR fs, concat (map unix_line rows))"
    using csv_record_unix [of fs "concat (map unix_line rows)"] Cons.prems line(1) by (simp add: visible_record_def)
  then show ?case using Cons line by (subst csv_records.simps) simp
qed

theorem csv_round_trip:
  assumes "list_all visible_record rows"
  shows "csv_records (csv_normal (csv_text rows)) = Some (map (map without_CR) rows)"
  by (simp add: csv_normal_text csv_records_unix [OF assms])

end
