(* ===== verification/Ocr.thy ===== *)
theory Ocr
  imports GoText Complex_Main
begin

text \<open>
  The result of an OCR run and the checks a worker's result must pass: src/api/internal/ocr/model.go.
  A \<^verbatim>\<open>float64\<close> is a rational, an infinity or not a number; the comparisons are those of IEEE 754.
\<close>

section \<open>Floating point numbers\<close>

datatype float64 = NaN | Inf bool | Fin rat

fun float_less :: "float64 \<Rightarrow> float64 \<Rightarrow> bool" where
  "float_less (Fin a) (Fin b) = (a < b)"
| "float_less (Fin a) (Inf positive) = positive"
| "float_less (Inf positive) (Fin b) = (\<not> positive)"
| "float_less (Inf p) (Inf q) = (\<not> p \<and> q)"
| "float_less _ _ = False"

fun is_nan :: "float64 \<Rightarrow> bool" where
  "is_nan NaN = True"
| "is_nan _ = False"

fun is_inf :: "float64 \<Rightarrow> bool" where
  "is_inf (Inf _) = True"
| "is_inf _ = False"

text \<open>The constant \<^verbatim>\<open>.8\<close>, rounded to the nearest double.\<close>

definition point_eight :: float64 where "point_eight = Fin (3602879701896397 / 4503599627370496)"

section \<open>Results\<close>

record ocr_line =
  ol_text :: string
  ol_confidence :: float64
  ol_polygon :: "(float64 \<times> float64) list"

record ocr_page =
  op_number :: int
  op_width :: int
  op_height :: int
  op_rotation :: int
  op_duration :: int
  op_text :: string
  op_lines :: "ocr_line list"

record ocr_result =
  os_schema :: int
  os_sha256 :: string
  os_model :: string
  os_preprocessing :: string
  os_duration :: int
  os_pages :: "ocr_page list"

record ocr_input =
  oi_org :: string
  oi_document :: string
  oi_sha256 :: string
  oi_mime :: string
  oi_size :: int
  oi_storage_key :: string
  oi_model :: string
  oi_preprocessing :: string

record ocr_state =
  ot_job :: string
  ot_status :: string
  ot_enabled :: bool
  ot_failure :: string
  ot_pages :: int
  ot_object_key :: string

definition MaxResultBytes :: int where "MaxResultBytes = 8 * 2 ^ 20"
definition ModelVersion :: string where "ModelVersion = ''paddleocr-3.7.0-ppocrv5-th-v1''"
definition PreprocessingVersion :: string where "PreprocessingVersion = ''v1''"

definition in_unit :: "float64 \<Rightarrow> bool" where
  "in_unit v = (\<not> (is_nan v \<or> float_less v (Fin 0) \<or> float_less (Fin 1) v))"

definition line_ok :: "ocr_line \<Rightarrow> err option" where
  "line_ok l =
     (if length (ol_text l) > 16384 \<or> is_nan (ol_confidence l) \<or> float_less (ol_confidence l) (Fin 0)
         \<or> float_less (Fin 1) (ol_confidence l) \<or> length (ol_polygon l) \<noteq> 4
      then Some (OtherError ''invalid OCR line'')
      else if \<exists>(x, y) \<in> set (ol_polygon l). \<not> in_unit x \<or> is_inf x \<or> \<not> in_unit y \<or> is_inf y
      then Some (OtherError ''invalid OCR polygon'')
      else None)"

fun lines_ok :: "ocr_line list \<Rightarrow> err option" where
  "lines_ok [] = None"
| "lines_ok (l # ls) = (case line_ok l of Some e \<Rightarrow> Some e | None \<Rightarrow> lines_ok ls)"

definition page_ok :: "nat \<Rightarrow> ocr_page \<Rightarrow> err option" where
  "page_ok i p =
     (if op_number p \<noteq> int i + 1 \<or> op_width p < 1 \<or> op_height p < 1 \<or> op_width p > 25000000 \<or> op_height p > 25000000
         \<or> op_width p * op_height p > 25000000 \<or> op_rotation p < 0 \<or> op_rotation p > 270 \<or> op_rotation p mod 90 \<noteq> 0
         \<or> length (op_lines p) > 5000 \<or> op_duration p < 0 \<or> op_duration p > 45000
      then Some (OtherError ''invalid OCR page'')
      else case lines_ok (op_lines p) of
        Some e \<Rightarrow> Some e
      | None \<Rightarrow>
          if join [byte_char 10] (map ol_text (op_lines p)) \<noteq> op_text p then Some (OtherError ''invalid OCR page text'') else None)"

fun pages_ok :: "nat \<Rightarrow> ocr_page list \<Rightarrow> err option" where
  "pages_ok i [] = None"
| "pages_ok i (p # ps) = (case page_ok i p of Some e \<Rightarrow> Some e | None \<Rightarrow> pages_ok (Suc i) ps)"

definition ValidateResult :: "ocr_result \<Rightarrow> ocr_input \<Rightarrow> err option" where
  "ValidateResult r input =
     (if os_schema r \<noteq> 1 \<or> os_sha256 r \<noteq> oi_sha256 input \<or> os_model r \<noteq> oi_model input
         \<or> os_preprocessing r \<noteq> oi_preprocessing input \<or> length (os_pages r) < 1 \<or> length (os_pages r) > 20
         \<or> os_duration r < 0 \<or> os_duration r > 900000
      then Some (OtherError ''invalid OCR result'')
      else pages_ok 0 (os_pages r))"

end
