(* ===== verification/Calendar.thy ===== *)
theory Calendar
  imports GoText
begin

text \<open>
  Calendar dates as the program reads and writes them: \<^verbatim>\<open>time.Parse\<close> and \<^verbatim>\<open>Time.Format\<close> with the layout
  \<^verbatim>\<open>2006-01-02\<close>, and the test \<^verbatim>\<open>time.Date(y, m, d).Day() == d\<close> that a day exists.  The layout has exactly four
  digits for the year, two for the month and two for the day.
\<close>

definition leap_year :: "int \<Rightarrow> bool" where
  "leap_year y = (y mod 4 = 0 \<and> (y mod 100 \<noteq> 0 \<or> y mod 400 = 0))"

definition days_in_month :: "int \<Rightarrow> int \<Rightarrow> int" where
  "days_in_month y m =
     (if m = 2 then if leap_year y then 29 else 28
      else if m = 4 \<or> m = 6 \<or> m = 9 \<or> m = 11 then 30 else 31)"

definition valid_date :: "int \<Rightarrow> int \<Rightarrow> int \<Rightarrow> bool" where
  "valid_date y m d = (1 \<le> m \<and> m \<le> 12 \<and> 1 \<le> d \<and> d \<le> days_in_month y m)"

definition pad_left :: "nat \<Rightarrow> bytes \<Rightarrow> bytes" where
  "pad_left n s = replicate (n - length s) (CHR ''0'') @ s"

definition format_date :: "int \<Rightarrow> int \<Rightarrow> int \<Rightarrow> bytes" where
  "format_date y m d = pad_left 4 (Itoa y) @ ''-'' @ pad_left 2 (Itoa m) @ ''-'' @ pad_left 2 (Itoa d)"

definition digits_nat :: "bytes \<Rightarrow> nat option" where "digits_nat s = digits_value 0 s"

definition parse_date :: "bytes \<Rightarrow> (int \<times> int \<times> int) option" where
  "parse_date s =
     (if length s \<noteq> 10 \<or> s ! 4 \<noteq> CHR ''-'' \<or> s ! 7 \<noteq> CHR ''-'' then None
      else case (digits_nat (take 4 s), digits_nat (take 2 (drop 5 s)), digits_nat (drop 8 s)) of
        (Some y, Some m, Some d) \<Rightarrow>
          if valid_date (int y) (int m) (int d) then Some (int y, int m, int d) else None
      | _ \<Rightarrow> None)"

text \<open>Whole days of a date since 0001-01-01, the order \<^verbatim>\<open>Time.Before\<close> compares dates by.\<close>

definition days_before_year :: "int \<Rightarrow> int" where
  "days_before_year y = 365 * (y - 1) + (y - 1) div 4 - (y - 1) div 100 + (y - 1) div 400"

definition days_before_month :: "int \<Rightarrow> int \<Rightarrow> int" where
  "days_before_month y m = sum_list (map (days_in_month y) [1 .. m - 1])"

definition day_number :: "int \<Rightarrow> int \<Rightarrow> int \<Rightarrow> int" where
  "day_number y m d = days_before_year y + days_before_month y m + (d - 1)"

section \<open>Zero padded numbers\<close>

lemma nat_digits_1: "n < 10 \<Longrightarrow> nat_digits n = [byte_char (48 + n)]"
  by (subst nat_digits.simps) simp

lemma nat_digits_step: "10 \<le> n \<Longrightarrow> nat_digits n = nat_digits (n div 10) @ [byte_char (48 + n mod 10)]"
  by (subst nat_digits.simps) simp

lemma length_nat_digits: "n < 10 ^ k \<Longrightarrow> 0 < k \<Longrightarrow> length (nat_digits n) \<le> k"
proof (induction k arbitrary: n)
  case (Suc k)
  show ?case
  proof (cases "n < 10")
    case True then show ?thesis by (simp add: nat_digits_1)
  next
    case False
    then have "0 < k" using Suc.prems by (cases k) auto
    moreover have "n div 10 < 10 ^ k" using Suc.prems by (simp add: less_mult_imp_div_less)
    ultimately show ?thesis using Suc.IH [of "n div 10"] False by (simp add: nat_digits_step)
  qed
qed simp

lemma digits_value_zeros: "digits_value 0 (replicate k (CHR ''0'') @ s) = digits_value 0 s"
  by (induction k) (auto simp: is_digit_def byte_def)

lemma digits_nat_pad: "digits_nat (pad_left k (nat_digits n)) = Some n"
  by (simp add: digits_nat_def pad_left_def digits_value_zeros digits_value_nat_digits)

lemma length_pad_left: "length s \<le> k \<Longrightarrow> length (pad_left k s) = k"
  by (simp add: pad_left_def)

lemma length_pad_digits: "n < 10 ^ k \<Longrightarrow> 0 < k \<Longrightarrow> length (pad_left k (nat_digits n)) = k"
  by (simp add: length_pad_left length_nat_digits)

lemma Itoa_nat: "0 \<le> i \<Longrightarrow> Itoa i = nat_digits (nat i)"
  by (simp add: Itoa_def)

lemma valid_date_bounds: "valid_date y m d \<Longrightarrow> 1 \<le> m \<and> m \<le> 12 \<and> 1 \<le> d \<and> d \<le> 31"
  by (auto simp: valid_date_def days_in_month_def split: if_splits)

text \<open>A date of a four digit year is read back from its text.\<close>

lemma parse_format_date:
  assumes "valid_date y m d" "0 \<le> y" "y < 10000"
  shows "parse_date (format_date y m d) = Some (y, m, d)"
proof -
  note b = valid_date_bounds [OF assms(1)]
  let ?y = "pad_left 4 (nat_digits (nat y))" and ?m = "pad_left 2 (nat_digits (nat m))"
    and ?d = "pad_left 2 (nat_digits (nat d))"
  have ly: "length ?y = 4" using assms by (intro length_pad_digits) auto
  have lm: "length ?m = 2" using b by (intro length_pad_digits) auto
  have ld: "length ?d = 2" using b by (intro length_pad_digits) auto
  have f: "format_date y m d = ?y @ ''-'' @ ?m @ ''-'' @ ?d"
    using b assms(2) by (simp add: format_date_def Itoa_nat)
  have parts: "take 4 (format_date y m d) = ?y" "take 2 (drop 5 (format_date y m d)) = ?m"
    "drop 8 (format_date y m d) = ?d"
    using ly lm by (simp_all add: f)
  have seps: "length (format_date y m d) = 10" "format_date y m d ! 4 = CHR ''-''" "format_date y m d ! 7 = CHR ''-''"
    using ly lm ld by (simp_all add: f nth_append)
  show ?thesis
    using assms b by (simp add: parse_date_def seps parts digits_nat_pad)
qed

end
