(* ===== verification/Extractor.thy ===== *)
theory Extractor
  imports Ocr Calendar "HOL-Library.Code_Target_Numeral"
begin

text \<open>
  Fields of a document read from its OCR text and the check of the values a reviewer confirms:
  src/api/internal/extraction.  The rules of \<^verbatim>\<open>patterns\<close> are regular expressions over runes, matched the
  way Go's \<^verbatim>\<open>regexp\<close> does (leftmost, first alternative, greedy).  Go iterates over the map of patterns
  in an unspecified order; the order of each line is an argument of \<^verbatim>\<open>Extract\<close>.
\<close>

section \<open>Regular expressions\<close>

text \<open>\<^verbatim>\<open>Lit\<close> is a literal, \<^verbatim>\<open>FoldLit\<close> one under \<^verbatim>\<open>(?i)\<close>, \<^verbatim>\<open>Rep\<close> a class repeated between a least and a
  greatest number of times, \<^verbatim>\<open>Cap\<close> the captured group.\<close>

datatype re =
    Lit "nat list"
  | FoldLit "nat list"
  | Rep "nat \<Rightarrow> bool" nat "nat option"
  | Seq re re
  | Alt re re
  | Opt re
  | Cap re

type_synonym rune_text = "(nat \<times> bytes) list"

text \<open>Simple case folding onto the lower case letter; U+017F and U+212A fold with s and k.\<close>

definition fold_rune :: "nat \<Rightarrow> nat" where
  "fold_rune r = (if 65 \<le> r \<and> r \<le> 90 then r + 32 else if r = 383 then 115 else if r = 8490 then 107 else r)"

definition at_most :: "nat \<Rightarrow> nat option \<Rightarrow> nat" where
  "at_most n hi = (case hi of None \<Rightarrow> n | Some h \<Rightarrow> min n h)"

text \<open>Every way a pattern matches at the front of a text, the preferred one first: the runes it
  consumed, the rest, and the captured group.\<close>

fun matches :: "re \<Rightarrow> rune_text \<Rightarrow> (rune_text \<times> rune_text \<times> rune_text option) list" where
  "matches (Lit l) s =
     (if map fst (take (length l) s) = l then [(take (length l) s, drop (length l) s, None)] else [])"
| "matches (FoldLit l) s =
     (if map (fold_rune \<circ> fst) (take (length l) s) = l then [(take (length l) s, drop (length l) s, None)] else [])"
| "matches (Rep P lo hi) s =
     map (\<lambda>n. (take n s, drop n s, None)) (rev [lo ..< Suc (at_most (length (takeWhile (\<lambda>r. P (fst r)) s)) hi)])"
| "matches (Seq a b) s =
     concat (map (\<lambda>(c, r, k). map (\<lambda>(c', r', k'). (c @ c', r', case k' of None \<Rightarrow> k | Some _ \<Rightarrow> k')) (matches b r)) (matches a s))"
| "matches (Alt a b) s = matches a s @ matches b s"
| "matches (Opt a) s = matches a s @ [([], s, None)]"
| "matches (Cap a) s = map (\<lambda>(c, r, k). (c, r, Some c)) (matches a s)"

text \<open>\<^verbatim>\<open>FindStringSubmatch\<close>: the captured group of the leftmost match.\<close>

fun find_match :: "re \<Rightarrow> rune_text \<Rightarrow> (rune_text \<times> rune_text option) option" where
  "find_match p [] = (case matches p [] of [] \<Rightarrow> None | (c, r, k) # _ \<Rightarrow> Some (c, k))"
| "find_match p (x # s) = (case matches p (x # s) of [] \<Rightarrow> find_match p s | (c, r, k) # _ \<Rightarrow> Some (c, k))"

definition FindSubmatch :: "re \<Rightarrow> bytes \<Rightarrow> bytes option" where
  "FindSubmatch p s = (case find_match p (runes s) of Some (c, Some k) \<Rightarrow> Some (unrunes k) | _ \<Rightarrow> None)"

section \<open>The patterns\<close>

definition Keys :: "string list" where
  "Keys = [''document_number'', ''issue_date'', ''seller_name'', ''seller_tax_id'', ''seller_branch'', ''buyer_name'',
     ''buyer_tax_id'', ''currency'', ''subtotal'', ''vat_amount'', ''total_amount'']"

definition pattern_keys :: "string list" where
  "pattern_keys = [''document_number'', ''issue_date'', ''seller_name'', ''seller_tax_id'', ''seller_branch'', ''buyer_name'',
     ''buyer_tax_id'', ''subtotal'', ''vat_amount'', ''total_amount'']"

definition ascii_digit :: "nat \<Rightarrow> bool" where "ascii_digit r = (48 \<le> r \<and> r \<le> 57)"
definition thai_digit :: "nat \<Rightarrow> bool" where "thai_digit r = (3664 \<le> r \<and> r \<le> 3673)"
definition any_digit :: "nat \<Rightarrow> bool" where "any_digit r = (ascii_digit r \<or> thai_digit r)"
definition re_space :: "nat \<Rightarrow> bool" where "re_space r = (r = 9 \<or> r = 10 \<or> r = 12 \<or> r = 13 \<or> r = 32)"
definition colon :: "nat \<Rightarrow> bool" where "colon r = (r = 58 \<or> r = 65306)"
definition number_rune :: "nat \<Rightarrow> bool" where
  "number_rune r = (let f = fold_rune r in (97 \<le> f \<and> f \<le> 122) \<or> ascii_digit r \<or> r = 47 \<or> r = 45)"
definition date_separator :: "nat \<Rightarrow> bool" where "date_separator r = (r = 47 \<or> r = 46 \<or> r = 45)"
definition tax_rune :: "nat \<Rightarrow> bool" where "tax_rune r = (any_digit r \<or> r = 32 \<or> r = 45)"
definition money_rune :: "nat \<Rightarrow> bool" where "money_rune r = (any_digit r \<or> r = 44)"

definition spaces :: re where "spaces = Rep re_space 0 None"

text \<open>\<^verbatim>\<open>label\s*[:]?\s*(value)\<close> and \<^verbatim>\<open>label\s*[:]\s*(value)\<close>.\<close>

definition labelled :: "re \<Rightarrow> re \<Rightarrow> re" where
  "labelled label value = Seq label (Seq (Seq spaces (Seq (Rep colon 0 (Some 1)) spaces)) (Cap value))"

definition labelled_colon :: "re \<Rightarrow> re \<Rightarrow> re" where
  "labelled_colon label value = Seq label (Seq (Seq spaces (Seq (Rep colon 1 (Some 1)) spaces)) (Cap value))"

definition amount_re :: re where
  "amount_re = Seq (Rep money_rune 1 None) (Opt (Seq (Lit [46]) (Rep any_digit 2 (Some 2))))"

definition date_re :: re where
  "date_re = Seq (Rep any_digit 1 (Some 2)) (Seq (Rep date_separator 1 (Some 1))
     (Seq (Rep any_digit 1 (Some 2)) (Seq (Rep date_separator 1 (Some 1)) (Rep any_digit 4 (Some 4)))))"

definition document_number_re :: re where
  "document_number_re = labelled (Alt (Seq (FoldLit [3648, 3621, 3586, 3607, 3637, 3656]) (Opt (FoldLit [3648, 3629, 3585, 3626, 3634, 3619])))
     (Seq (FoldLit [105, 110, 118, 111, 105, 99, 101]) (Seq spaces (Alt (Seq (FoldLit [110, 111]) (Opt (Lit [46]))) (FoldLit [110, 117, 109, 98, 101, 114]))))) (Rep number_rune 1 None)"

definition issue_date_re :: re where
  "issue_date_re = labelled (Alt (FoldLit [3623, 3633, 3609, 3607, 3637, 3656]) (FoldLit [100, 97, 116, 101])) date_re"

definition seller_name_re :: re where
  "seller_name_re = labelled_colon (Alt (Lit [3612, 3641, 3657, 3586, 3634, 3618]) (Lit [3594, 3639, 3656, 3629, 3612, 3641, 3657, 3586, 3634, 3618])) (Rep (\<lambda>r. r \<noteq> 10) 1 None)"

definition seller_tax_id_re :: re where
  "seller_tax_id_re = labelled (Alt (Seq (Lit [3648, 3621, 3586, 3611, 3619, 3632, 3592, 3635, 3605, 3633, 3623, 3612, 3641, 3657, 3648, 3626, 3637, 3618, 3616, 3634, 3625, 3637])
     (Opt (Lit [3629, 3634, 3585, 3619]))) (Lit [3648, 3621, 3586, 3612, 3641, 3657, 3648, 3626, 3637, 3618, 3616, 3634, 3625, 3637])) (Rep tax_rune 13 (Some 20))"

definition seller_branch_re :: re where
  "seller_branch_re = labelled (Alt (Seq (Lit [3626, 3634, 3586, 3634]) (Opt (Lit [3607, 3637, 3656])))
     (Seq (Lit [98, 114, 97, 110, 99, 104]) (Opt (Seq spaces (Alt (Seq (Lit [110, 111]) (Opt (Lit [46]))) (Lit [110, 117, 109, 98, 101, 114])))))) (Rep any_digit 5 (Some 5))"

definition buyer_name_re :: re where
  "buyer_name_re = labelled_colon (Alt (Lit [3612, 3641, 3657, 3595, 3639, 3657, 3629]) (Lit [3594, 3639, 3656, 3629, 3621, 3641, 3585, 3588, 3657, 3634])) (Rep (\<lambda>r. r \<noteq> 10) 1 None)"

definition buyer_tax_id_re :: re where
  "buyer_tax_id_re = labelled (Alt (Lit [3648, 3621, 3586, 3611, 3619, 3632, 3592, 3635, 3605, 3633, 3623, 3612, 3641, 3657, 3648, 3626, 3637, 3618, 3616, 3634, 3625, 3637, 3612, 3641, 3657, 3595, 3639, 3657, 3629])
     (Lit [3648, 3621, 3586, 3612, 3641, 3657, 3648, 3626, 3637, 3618, 3616, 3634, 3625, 3637, 3612, 3641, 3657, 3595, 3639, 3657, 3629])) (Rep tax_rune 13 (Some 20))"

definition subtotal_re :: re where
  "subtotal_re = labelled (Alt (FoldLit [3617, 3641, 3621, 3588, 3656, 3634, 3585, 3656, 3629, 3609, 3616, 3634, 3625, 3637]) (Alt (FoldLit [3619, 3623, 3617, 3585, 3656, 3629, 3609, 3616, 3634, 3625, 3637]) (FoldLit [115, 117, 98, 116, 111, 116, 97, 108]))) amount_re"

definition vat_amount_re :: re where
  "vat_amount_re = labelled (Alt (FoldLit [3616, 3634, 3625, 3637, 3617, 3641, 3621, 3588, 3656, 3634, 3648, 3614, 3636, 3656, 3617]) (FoldLit [118, 97, 116])) amount_re"

definition total_amount_re :: re where
  "total_amount_re = labelled (Alt (FoldLit [3618, 3629, 3604, 3619, 3623, 3617]) (Alt (FoldLit [3619, 3623, 3617, 3607, 3633, 3657, 3591, 3626, 3636, 3657, 3609]) (Alt (FoldLit [3618, 3629, 3604, 3626, 3640, 3607, 3608, 3636]) (FoldLit [103, 114, 97, 110, 100, 32, 116, 111, 116, 97, 108])))) amount_re"

definition patterns :: "string \<Rightarrow> re option" where
  "patterns = map_of
     [(''document_number'', document_number_re), (''issue_date'', issue_date_re), (''seller_name'', seller_name_re),
      (''seller_tax_id'', seller_tax_id_re), (''seller_branch'', seller_branch_re), (''buyer_name'', buyer_name_re),
      (''buyer_tax_id'', buyer_tax_id_re), (''subtotal'', subtotal_re), (''vat_amount'', vat_amount_re),
      (''total_amount'', total_amount_re)]"

definition thai :: "nat list \<Rightarrow> bytes" where "thai rs = concat (map encode_rune rs)"

definition word_tax_invoice :: bytes where "word_tax_invoice = thai [3651, 3610, 3585, 3635, 3585, 3633, 3610, 3616, 3634, 3625, 3637]"
definition word_receipt :: bytes where "word_receipt = thai [3651, 3610, 3648, 3626, 3619, 3655, 3592]"
definition word_invoice :: bytes where "word_invoice = thai [3651, 3610, 3649, 3592, 3657, 3591, 3627, 3609, 3637, 3657]"
definition word_baht :: bytes where "word_baht = thai [3610, 3634, 3607]"

section \<open>Amounts\<close>

definition cents :: "bytes \<Rightarrow> int option" where
  "cents value =
     (if value = [] \<or> length value > 20 \<or> has_prefix value ''-'' then None
      else let parts = split_at (CHR ''.'') value in
        if length parts > 2 \<or> length (parts ! 0) = 0 \<or> length (parts ! 0) > 15 then None
        else case Atoi (parts ! 0) of
          None \<Rightarrow> None
        | Some whole \<Rightarrow>
            if length parts = 2 then
              if length (parts ! 1) \<noteq> 2 then None
              else case Atoi (parts ! 1) of None \<Rightarrow> None | Some fraction \<Rightarrow> Some (whole * 100 + fraction)
            else Some (whole * 100))"

text \<open>\<^verbatim>\<open>moneyPattern\<close>: digits, plain or grouped by three, and two digits after a point.\<close>

definition whole_ok :: "bytes \<Rightarrow> bool" where
  "whole_ok w =
     ((w \<noteq> [] \<and> list_all is_digit w)
      \<or> (case split_at (CHR '','') w of
           g # gs \<Rightarrow> gs \<noteq> [] \<and> 1 \<le> length g \<and> length g \<le> 3 \<and> list_all is_digit g
             \<and> list_all (\<lambda>h. length h = 3 \<and> list_all is_digit h) gs
         | [] \<Rightarrow> False))"

definition money_match :: "bytes \<Rightarrow> bool" where
  "money_match s =
     (case split_at (CHR ''.'') s of
        [w] \<Rightarrow> whole_ok w
      | [w, f] \<Rightarrow> whole_ok w \<and> length f = 2 \<and> list_all is_digit f
      | _ \<Rightarrow> False)"

section \<open>Normalisation\<close>

definition thai_ascii_rune :: "nat \<Rightarrow> nat" where
  "thai_ascii_rune r = (if thai_digit r then 48 + r - 3664 else r)"

definition thai_ascii :: "bytes \<Rightarrow> bytes" where
  "thai_ascii raw = concat (map (\<lambda>(r, _). encode_rune (thai_ascii_rune r)) (runes raw))"

fun split_by :: "(char \<Rightarrow> bool) \<Rightarrow> bytes \<Rightarrow> bytes list" where
  "split_by P [] = [[]]"
| "split_by P (c # cs) =
     (if P c then [] # split_by P cs else case split_by P cs of [] \<Rightarrow> [[c]] | p # ps \<Rightarrow> (c # p) # ps)"

definition FieldsFunc :: "(char \<Rightarrow> bool) \<Rightarrow> bytes \<Rightarrow> bytes list" where
  "FieldsFunc P s = filter (\<lambda>p. p \<noteq> []) (split_by P s)"

definition normalize_date :: "bytes \<Rightarrow> bytes option" where
  "normalize_date s =
     (case FieldsFunc (\<lambda>c. c = CHR ''/'' \<or> c = CHR ''.'' \<or> c = CHR ''-'') s of
        [p, q, r] \<Rightarrow>
          (case (Atoi p, Atoi q, Atoi r) of
             (Some day, Some month, Some year) \<Rightarrow>
               let year = (if 2400 \<le> year \<and> year \<le> 2600 then year - 543 else year)
               in if year < 1900 \<or> month < 1 \<or> month > 12 \<or> \<not> valid_date year month day then None
                  else Some (format_date year month day)
           | _ \<Rightarrow> None)
      | _ \<Rightarrow> None)"

text \<open>\<^verbatim>\<open>strings.Trim(value, "0123456789") == ""\<close>.\<close>

definition trim_set :: "(char \<Rightarrow> bool) \<Rightarrow> bytes \<Rightarrow> bytes" where
  "trim_set P s = rev (dropWhile P (rev (dropWhile P s)))"

definition only_digits :: "bytes \<Rightarrow> bool" where "only_digits s = (trim_set is_digit s = [])"

definition is_amount :: "string \<Rightarrow> bool" where
  "is_amount key = (key = ''subtotal'' \<or> key = ''vat_amount'' \<or> key = ''total_amount'')"
definition is_tax_id :: "string \<Rightarrow> bool" where
  "is_tax_id key = (key = ''seller_tax_id'' \<or> key = ''buyer_tax_id'')"

definition normalize :: "string \<Rightarrow> bytes \<Rightarrow> bytes option" where
  "normalize key raw =
     (let value = thai_ascii raw in
      if key = ''issue_date'' then normalize_date value
      else if is_amount key then
        if \<not> money_match value then None
        else let value = filter (\<lambda>c. c \<noteq> CHR '','') value in
          if cents value = None then None
          else Some (if contains value ''.'' then value else value @ ''.00'')
      else if key = ''seller_branch'' then
        if length value \<noteq> 5 \<or> \<not> only_digits value then None else Some value
      else if is_tax_id key then
        let value = filter (\<lambda>c. c \<noteq> CHR '' '' \<and> c \<noteq> CHR ''-'') value in
        if length value \<noteq> 13 then None else Some value
      else if raw \<noteq> [] then Some raw else None)"

section \<open>Drafts\<close>

datatype evidence = Evidence int int

record field =
  fd_presence :: string
  fd_raw :: bytes
  fd_normalized :: bytes
  fd_confidence :: string
  fd_evidence :: "evidence list"

datatype warning = Warning (w_code: string) (w_field: string) (w_severity: string)

record draft =
  dr_schema :: int
  dr_type :: string
  dr_fields :: "string \<rightharpoonup> field"
  dr_warnings :: "warning list"

definition zero_field :: field where
  "zero_field = \<lparr>fd_presence = [], fd_raw = [], fd_normalized = [], fd_confidence = [], fd_evidence = []\<rparr>"

definition field_of :: "draft \<Rightarrow> string \<Rightarrow> field" where
  "field_of d key = (case dr_fields d key of None \<Rightarrow> zero_field | Some f \<Rightarrow> f)"

definition HasWarning :: "draft \<Rightarrow> string \<Rightarrow> string \<Rightarrow> bool" where
  "HasWarning d code key = list_ex (\<lambda>w. w_code w = code \<and> w_field w = key) (dr_warnings d)"

definition warn :: "string \<Rightarrow> string \<Rightarrow> string \<Rightarrow> draft \<Rightarrow> draft" where
  "warn code key severity d =
     (if HasWarning d code key then d else d\<lparr>dr_warnings := dr_warnings d @ [Warning code key severity]\<rparr>)"

definition put_field :: "string \<Rightarrow> field \<Rightarrow> draft \<Rightarrow> draft" where
  "put_field key f d = d\<lparr>dr_fields := (dr_fields d)(key \<mapsto> f)\<rparr>"

definition missing_field :: field where
  "missing_field = \<lparr>fd_presence = ''not_found'', fd_raw = [], fd_normalized = [], fd_confidence = ''unrated'', fd_evidence = []\<rparr>"

definition empty_draft :: draft where
  "empty_draft = \<lparr>dr_schema = 1, dr_type = ''unknown'',
     dr_fields = (\<lambda>key. if key \<in> set Keys then Some missing_field else None), dr_warnings = []\<rparr>"

section \<open>Extract\<close>

text \<open>Upper and lower case as far as an ASCII word can tell: U+0130 and U+212A have the lower case i and
  k, U+0131 and U+017F the upper case I and S, and no other rune maps to ASCII.\<close>

definition lower_rune :: "nat \<Rightarrow> nat" where
  "lower_rune r = (if 65 \<le> r \<and> r \<le> 90 then r + 32 else if r = 304 then 105 else if r = 8490 then 107 else r)"
definition upper_rune :: "nat \<Rightarrow> nat" where
  "upper_rune r = (if 97 \<le> r \<and> r \<le> 122 then r - 32 else if r = 305 then 73 else if r = 383 then 83 else r)"

definition map_runes :: "(nat \<Rightarrow> nat) \<Rightarrow> bytes \<Rightarrow> bytes" where
  "map_runes f s = concat (map (\<lambda>(r, _). encode_rune (f r)) (runes s))"

definition classify :: "bytes \<Rightarrow> string \<Rightarrow> string" where
  "classify text kind =
     (let lower = map_runes lower_rune text in
      if contains text word_tax_invoice \<or> contains lower ''tax invoice'' then ''tax_invoice''
      else if kind = ''unknown'' \<and> (contains text word_receipt \<or> contains lower ''receipt'') then ''receipt''
      else if kind = ''unknown'' \<and> (contains text word_invoice \<or> contains lower ''invoice'') then ''invoice''
      else kind)"

definition merge_candidate :: "evidence \<Rightarrow> bytes \<Rightarrow> bytes \<Rightarrow> field \<Rightarrow> field \<times> bool" where
  "merge_candidate e raw normalized f =
     (let f = f\<lparr>fd_evidence := fd_evidence f @ [e]\<rparr> in
      if fd_presence f = ''not_found'' then
        (f\<lparr>fd_presence := ''found'', fd_raw := raw, fd_normalized := normalized\<rparr>, False)
      else if fd_presence f = ''ambiguous'' \<or> fd_normalized f \<noteq> normalized then
        (f\<lparr>fd_presence := ''ambiguous'', fd_raw := fd_raw f @ '' | '' @ raw, fd_normalized := []\<rparr>, True)
      else (f, False))"

definition scan_key :: "evidence \<Rightarrow> ocr_line \<Rightarrow> string \<Rightarrow> draft \<Rightarrow> draft" where
  "scan_key e line key d =
     (case patterns key of
        None \<Rightarrow> d
      | Some p \<Rightarrow>
          (case FindSubmatch p (ol_text line) of
             None \<Rightarrow> d
           | Some group_text \<Rightarrow>
               let raw = TrimSpace group_text in
               case normalize key raw of
                 None \<Rightarrow> warn ''invalid_value'' key ''review'' d
               | Some normalized \<Rightarrow>
                   let (f, clash) = merge_candidate e raw normalized (field_of d key);
                       d = (if clash then warn ''multiple_candidates'' key ''blocker'' d else d);
                       d = put_field key f d
                   in if float_less (ol_confidence line) point_eight then warn ''ocr_low_quality'' key ''review'' d else d))"

definition scan_currency :: "evidence \<Rightarrow> bytes \<Rightarrow> draft \<Rightarrow> draft" where
  "scan_currency e text d =
     (let raw = (if contains text word_baht then word_baht
                 else if contains (map_runes upper_rune text) ''THB'' then ''THB'' else [])
      in if raw = [] then d
         else put_field ''currency'' \<lparr>fd_presence = ''found'', fd_raw = raw, fd_normalized = ''THB'',
                fd_confidence = ''unrated'', fd_evidence = [e]\<rparr> d)"

definition scan_line :: "string list \<Rightarrow> evidence \<Rightarrow> ocr_line \<Rightarrow> draft \<Rightarrow> draft" where
  "scan_line order e line d =
     (let d = d\<lparr>dr_type := classify (ol_text line) (dr_type d)\<rparr>
      in scan_currency e (ol_text line) (fold (scan_key e line) order d))"

text \<open>\<^verbatim>\<open>order p i\<close> is the order of the patterns for line \<^verbatim>\<open>i\<close> (from 0) of the page numbered \<^verbatim>\<open>p\<close> from 0.\<close>

fun scan_lines :: "(nat \<Rightarrow> string list) \<Rightarrow> int \<Rightarrow> nat \<Rightarrow> ocr_line list \<Rightarrow> draft \<Rightarrow> draft" where
  "scan_lines order page i [] d = d"
| "scan_lines order page i (l # ls) d =
     scan_lines order page (Suc i) ls (scan_line (order i) (Evidence page (int i + 1)) l d)"

fun scan_pages :: "(nat \<Rightarrow> nat \<Rightarrow> string list) \<Rightarrow> nat \<Rightarrow> ocr_page list \<Rightarrow> draft \<Rightarrow> draft" where
  "scan_pages order p [] d = d"
| "scan_pages order p (page # ps) d =
     scan_pages order (Suc p) ps (scan_lines (order p) (op_number page) 0 (op_lines page) d)"

definition require_found :: "string \<Rightarrow> draft \<Rightarrow> draft" where
  "require_found key d =
     (if fd_presence (field_of d key) \<noteq> ''found'' then warn ''required_missing'' key ''blocker'' d else d)"

definition known_type :: "string \<Rightarrow> bool" where
  "known_type t = (t = ''tax_invoice'' \<or> t = ''receipt'' \<or> t = ''invoice'')"

definition amounts_disagree :: "bytes \<Rightarrow> bytes \<Rightarrow> bytes \<Rightarrow> bool" where
  "amounts_disagree subtotal vat amount =
     (case (cents subtotal, cents vat, cents amount) of
        (Some a, Some b, Some c) \<Rightarrow> a + b - c > 1 \<or> c - a - b > 1
      | _ \<Rightarrow> False)"

definition check_draft :: "draft \<Rightarrow> draft" where
  "check_draft d =
     (let d = (if known_type (dr_type d) then
          let d = fold require_found [''issue_date'', ''total_amount''] d in
          if dr_type d = ''tax_invoice'' then fold require_found [''document_number'', ''seller_name'', ''seller_tax_id''] d
          else d
        else d)
      in if amounts_disagree (fd_normalized (field_of d ''subtotal'')) (fd_normalized (field_of d ''vat_amount''))
              (fd_normalized (field_of d ''total_amount''))
         then warn ''amount_mismatch'' ''total_amount'' ''blocker'' d else d)"

definition Extract :: "(nat \<Rightarrow> nat \<Rightarrow> string list) \<Rightarrow> ocr_result \<Rightarrow> draft" where
  "Extract order result = check_draft (scan_pages order 0 (os_pages result) empty_draft)"

section \<open>ValidateReview\<close>

text \<open>The submitted values, in the order the map is iterated; an absent key reads as the empty string.\<close>

definition value_of :: "(string \<times> bytes) list \<Rightarrow> string \<Rightarrow> bytes" where
  "value_of values key = (case map_of values key of None \<Rightarrow> [] | Some v \<Rightarrow> v)"

definition check_value :: "string \<Rightarrow> bytes \<Rightarrow> err option" where
  "check_value key value =
     (if key \<notin> set Keys \<or> length value > 240 then Some (OtherError ''invalid reviewed field'')
      else if value = [] then None
      else if key = ''currency'' then
        if value \<noteq> ''THB'' then Some (OtherError ''unsupported currency'') else None
      else if key = ''issue_date'' then
        case parse_date value of
          None \<Rightarrow> Some (OtherError ''invalid reviewed date'')
        | Some (y, m, d) \<Rightarrow> if format_date y m d \<noteq> value then Some (OtherError ''invalid reviewed date'') else None
      else if is_amount key then
        if cents value = None \<or> \<not> contains value ''.'' then Some (OtherError ''invalid reviewed amount'') else None
      else if key = ''seller_branch'' then
        if length value \<noteq> 5 \<or> \<not> only_digits value then Some (OtherError ''invalid reviewed seller branch'') else None
      else if is_tax_id key then
        if length value \<noteq> 13 \<or> \<not> only_digits value then Some (OtherError ''invalid reviewed tax ID'') else None
      else None)"

fun check_values :: "(string \<times> bytes) list \<Rightarrow> err option" where
  "check_values [] = None"
| "check_values ((key, value) # vs) = (case check_value key value of Some e \<Rightarrow> Some e | None \<Rightarrow> check_values vs)"

definition required_keys :: "string \<Rightarrow> string list" where
  "required_keys kind =
     [''issue_date'', ''total_amount''] @ (if kind = ''tax_invoice'' then [''document_number'', ''seller_name'', ''seller_tax_id''] else [])"

definition ValidateReview :: "draft \<Rightarrow> (string \<times> bytes) list \<Rightarrow> err option" where
  "ValidateReview d values =
     (if \<not> known_type (dr_type d) then Some (OtherError ''unsupported document type'')
      else case check_values values of
        Some e \<Rightarrow> Some e
      | None \<Rightarrow>
          if list_ex (\<lambda>key. TrimSpace (value_of values key) = []) (required_keys (dr_type d))
          then Some (OtherError ''required reviewed field missing'')
          else if amounts_disagree (value_of values ''subtotal'') (value_of values ''vat_amount'') (value_of values ''total_amount'')
          then Some (OtherError ''reviewed amounts disagree'')
          else None)"


section \<open>Amounts and the reviewer's checks\<close>

lemma contains_single: "contains s [c] \<longleftrightarrow> c \<in> set s"
  by (induction s) auto

lemma only_digits_iff: "only_digits s \<longleftrightarrow> list_all is_digit s"
proof -
  let ?t = "dropWhile is_digit s"
  have "only_digits s \<longleftrightarrow> (\<forall>c \<in> set ?t. is_digit c)"
    by (simp add: only_digits_def trim_set_def dropWhile_eq_Nil_conv)
  also have "\<dots> \<longleftrightarrow> ?t = []" using hd_dropWhile [of is_digit s] by (metis hd_in_set list.set_cases list.distinct(1))
  finally show ?thesis by (simp add: dropWhile_eq_Nil_conv list_all_iff)
qed

lemma cents_append_zeros:
  assumes "cents v = Some w" "CHR ''.'' \<notin> set v"
  shows "cents (v @ ''.00'') = Some w"
proof -
  have s: "split_at (CHR ''.'') v = [v]" using assms(2) by (rule split_at_no_sep)
  have s': "split_at (CHR ''.'') (v @ ''.00'') = [v, ''00'']"
    using assms(2) by (simp add: split_at_append)
  have v: "v \<noteq> []" using assms(1) by (auto simp: cents_def)
  then obtain c cs where c: "v = c # cs" by (cases v) auto
  have zero: "Atoi ''00'' = Some 0" by (simp add: Atoi_def is_digit_def byte_def)
  show ?thesis
    using assms(1) v unfolding cents_def Let_def s s'
    by (auto simp: zero c split: if_splits option.splits)
qed

text \<open>An amount the parser accepts is at least -9 cents and far below the range of \<^verbatim>\<open>int64\<close>.\<close>

lemma digits_value_less: "digits_value a s = Some n \<Longrightarrow> n < (a + 1) * 10 ^ length s"
proof (induction s arbitrary: a)
  case (Cons c s)
  then have d: "is_digit c" "digits_value (10 * a + (byte c - 48)) s = Some n" by (auto split: if_splits)
  then have "n < (10 * a + (byte c - 48) + 1) * 10 ^ length s" using Cons.IH by blast
  also have "\<dots> \<le> (10 * (a + 1)) * 10 ^ length s" using d(1) by (intro mult_right_mono) (auto simp: is_digit_def)
  finally show ?case by (simp add: algebra_simps)
qed simp

lemma Atoi_bound: "Atoi s = Some i \<Longrightarrow> \<bar>i\<bar> < 10 ^ length s"
proof -
  assume a: "Atoi s = Some i"
  then obtain c cs where s: "s = c # cs" by (cases s) (auto simp: Atoi_def)
  have "\<bar>i\<bar> < 10 ^ length cs \<or> (\<exists>n. digits_value 0 s = Some n \<and> i = int n)
    \<or> (\<exists>n. digits_value 0 cs = Some n \<and> \<bar>i\<bar> = int n)"
    using a unfolding s by (auto simp: Atoi_def Let_def split: if_splits option.splits)
  then consider "\<bar>i\<bar> < 10 ^ length cs" | n where "digits_value 0 s = Some n" "\<bar>i\<bar> = int n"
    | n where "digits_value 0 cs = Some n" "\<bar>i\<bar> = int n" by auto
  then show ?thesis
  proof cases
    case 1
    then show ?thesis by (simp add: s)
  next
    case 2
    then have "n < 10 ^ length s" using digits_value_less [of 0 s n] by simp
    then show ?thesis using 2 by (metis of_nat_less_iff of_nat_numeral of_nat_power)
  next
    case 3
    then have "n < 10 ^ length cs" using digits_value_less [of 0 cs n] by simp
    then have "\<bar>i\<bar> < 10 ^ length cs" using 3 by (metis of_nat_less_iff of_nat_numeral of_nat_power)
    then show ?thesis by (simp add: s)
  qed
qed

lemma Atoi_unsigned: "Atoi s = Some i \<Longrightarrow> \<not> has_prefix s ''-'' \<Longrightarrow> 0 \<le> i"
  by (cases s) (auto simp: Atoi_def Let_def split: if_splits option.splits)

lemma Atoi_two: "Atoi s = Some i \<Longrightarrow> length s = 2 \<Longrightarrow> - 9 \<le> i \<and> i \<le> 99"
proof -
  assume a: "Atoi s = Some i" "length s = 2"
  then obtain c c' where s: "s = [c, c']" by (auto simp: length_Suc_conv numeral_2_eq_2)
  have "\<bar>i\<bar> < 10 ^ 2" using Atoi_bound [OF a(1)] a(2) by simp
  moreover have "- 9 \<le> i" using a(1) byte_less [of c'] by (auto simp: Atoi_def s Let_def is_digit_def split: if_splits)
  ultimately show ?thesis by simp
qed

lemma split_at_hd: "split_at sep s ! 0 = takeWhile (\<lambda>c. c \<noteq> sep) s"
  by (induction s) (auto split: list.splits)

lemma cents_range: "cents s = Some v \<Longrightarrow> - 9 \<le> v \<and> v < 10 ^ 17"
proof -
  assume c: "cents s = Some v"
  define w where "w = split_at (CHR ''.'') s ! 0"
  have np: "\<not> has_prefix s ''-''" and w: "length w \<noteq> 0" "length w \<le> 15"
    using c by (auto simp: cents_def Let_def w_def split: if_splits)
  have "\<not> has_prefix w ''-''" using np w(1) unfolding w_def split_at_hd by (cases s) auto
  obtain i where i: "Atoi w = Some i" and v: "v = i * 100 \<or> (\<exists>f p. Atoi p = Some f \<and> length p = 2 \<and> v = i * 100 + f)"
    using c by (auto simp: cents_def Let_def w_def [symmetric] split: if_splits option.splits)
  have "0 \<le> i" using Atoi_unsigned i \<open>\<not> has_prefix w ''-''\<close> by blast
  moreover have "i < 10 ^ 15"
  proof -
    have "\<bar>i\<bar> < 10 ^ length w" by (rule Atoi_bound [OF i])
    also have "\<dots> \<le> (10::int) ^ 15" using w(2) by (intro power_increasing) auto
    finally show ?thesis by simp
  qed
  ultimately show ?thesis using v Atoi_two by fastforce
qed

lemma cents_signs: "cents ''10.-5'' = Some 995" "cents ''0.-5'' = Some (- 5)" "cents ''+10.50'' = Some 1050"
  by (simp_all add: cents_def Atoi_def is_digit_def byte_def)

section \<open>Runes of a part of a text\<close>

lemma decode_rune_take:
  assumes "decode_rune s = (r, w)" "w \<le> n"
  shows "decode_rune (take n s) = (r, w)"
proof (cases s)
  case (Cons c rest)
  show ?thesis
  proof (cases n)
    case 0
    then have "w = 0" using assms by simp
    then show ?thesis using assms decode_rune_width [of s] Cons by simp
  next
    case (Suc m)
    show ?thesis
      using assms
      by (auto simp: Cons Suc decode_rune_def Let_def take_Cons' split: list.splits if_splits)
  qed
qed (use assms in simp)

lemma runes_split: "runes s = xs @ ys \<Longrightarrow> s = unrunes xs @ unrunes ys"
  by (metis unrunes_runes concat_append map_append unrunes_def)


lemma runes_step:
  assumes "t \<noteq> []" "decode_rune t = (r, w)"
  shows "runes t = (r, take w t) # runes (drop w t)"
  using assms by (cases t) (simp_all split: prod.splits)

lemma runes_parts:
  "runes s = xs @ ys \<Longrightarrow> runes (unrunes xs) = xs \<and> runes (unrunes ys) = ys"
proof (induction s arbitrary: xs rule: runes.induct)
  case 1
  then show ?case by (simp add: unrunes_def)
next
  case (2 c cs)
  obtain r w where d: "decode_rune (c # cs) = (r, w)" by (cases "decode_rune (c # cs)")
  have w: "0 < w" "w \<le> length (c # cs)" using decode_rune_width [of "c # cs"] d by auto
  have step: "runes (c # cs) = (r, take w (c # cs)) # runes (drop w (c # cs))"
    using d by (intro runes_step) auto
  show ?case
  proof (cases xs)
    case Nil
    then have "unrunes ys = c # cs" using 2(2) by (metis append_Nil unrunes_runes)
    then show ?thesis using Nil 2(2) by (simp add: unrunes_def del: runes.simps(2))
  next
    case (Cons x xs')
    have rest: "runes (drop w (c # cs)) = xs' @ ys" and x: "x = (r, take w (c # cs))"
      using 2(2) Cons unfolding step by auto
    have IH: "runes (unrunes xs') = xs'" "runes (unrunes ys) = ys"
      using 2(1) [OF d [symmetric] refl rest] by auto
    let ?t = "unrunes xs"
    have t: "?t = take w (c # cs) @ unrunes xs'" by (simp add: Cons x unrunes_def)
    have s: "c # cs = ?t @ unrunes ys" using runes_split [OF 2(2)] .
    have "take (length ?t) (c # cs) = ?t" by (subst s) simp
    then have dt: "decode_rune ?t = (r, w)"
      using decode_rune_take [OF d, of "length ?t"] w t by simp
    have "?t \<noteq> []" using w t by auto
    moreover have "take w ?t = take w (c # cs)" "drop w ?t = unrunes xs'" using w t by auto
    ultimately have "runes ?t = (r, take w (c # cs)) # runes (unrunes xs')"
      using runes_step [OF _ dt] by simp
    then show ?thesis using IH Cons x by simp
  qed
qed

lemma runes_part: "runes s = p @ x @ q \<Longrightarrow> runes (unrunes x) = x"
  using runes_parts [of s p "x @ q"] runes_parts [of "unrunes (x @ q)" x q] by simp

section \<open>Matches\<close>

lemma matches_split: "(c, r, k) \<in> set (matches p s) \<Longrightarrow> s = c @ r"
proof (induction p arbitrary: s c r k)
  case (Seq a b)
  then obtain c1 r1 k1 c2 k2 where "(c1, r1, k1) \<in> set (matches a s)" "(c2, r, k2) \<in> set (matches b r1)" "c = c1 @ c2"
    by auto
  then show ?case using Seq.IH by (metis append_assoc)
qed (auto split: if_splits)

lemma matches_Rep: "(c, r, k) \<in> set (matches (Rep P lo hi) s) \<Longrightarrow>
    list_all (\<lambda>x. P (fst x)) c \<and> lo \<le> length c \<and> (\<forall>h. hi = Some h \<longrightarrow> length c \<le> h)"
proof -
  assume "(c, r, k) \<in> set (matches (Rep P lo hi) s)"
  then obtain n where n: "c = take n s" "lo \<le> n" "n \<le> at_most (length (takeWhile (\<lambda>x. P (fst x)) s)) hi"
    by auto
  let ?w = "takeWhile (\<lambda>x. P (fst x)) s"
  have le: "n \<le> length ?w" "\<forall>h. hi = Some h \<longrightarrow> n \<le> h" using n(3) by (auto simp: at_most_def split: option.splits)
  then have c: "c = take n ?w" using n(1) by (metis append_take_drop_id take_append takeWhile_dropWhile_id diff_is_0_eq' take_0 append_Nil2)
  then have "\<forall>x \<in> set c. P (fst x)" by (auto dest: in_set_takeD set_takeWhileD)
  moreover have "length c = n" using c le by simp
  ultimately show ?thesis using n(2) le by (simp add: list_all_iff)
qed

lemma find_match_part:
  assumes "find_match p s = Some (c, k)"
  shows "\<exists>a s' r. s = a @ s' \<and> (c, r, k) \<in> set (matches p s')"
  using assms
proof (induction p s rule: find_match.induct)
  case (1 p)
  then show ?case by (auto split: list.splits intro: exI [of _ "[]"])
next
  case (2 p x s)
  show ?case
  proof (cases "matches p (x # s)")
    case Nil
    then show ?thesis using 2 by (metis (no_types, lifting) append_Cons find_match.simps(2) list.simps(4))
  next
    case (Cons m ms)
    then have "(c, fst (snd m), k) \<in> set (matches p (x # s))" using 2(2) by (auto split: prod.splits)
    then show ?thesis by (metis append_Nil)
  qed
qed

lemma matches_SeqE:
  assumes "(c, r, k) \<in> set (matches (Seq a b) s)"
  obtains c1 r1 k1 c2 k2 where "(c1, r1, k1) \<in> set (matches a s)" "(c2, r, k2) \<in> set (matches b r1)"
    "c = c1 @ c2" "k = (case k2 of None \<Rightarrow> k1 | Some _ \<Rightarrow> k2)"
  using assms by auto

lemma matches_CapE:
  assumes "(c, r, k) \<in> set (matches (Cap a) s)"
  obtains k' where "(c, r, k') \<in> set (matches a s)" "k = Some c"
  using assms by auto

lemma matches_Seq_Cap:
  assumes "(c, r, Some k) \<in> set (matches (Seq a (Cap v)) s)"
  shows "\<exists>c1 r1 k'. s = c1 @ r1 \<and> c = c1 @ k \<and> (k, r, k') \<in> set (matches v r1)"
  using assms
  by (elim matches_SeqE matches_CapE) (auto dest: matches_split)

text \<open>The captured group of a labelled pattern is a part of the text that its value pattern matches.\<close>

lemma captured_part:
  assumes "FindSubmatch (Seq a (Seq b (Cap v))) t = Some g"
  obtains x r k s where "g = unrunes x" "runes g = x" "(x, r, k) \<in> set (matches v s)"
    "\<exists>p q. runes t = p @ x @ q"
proof -
  obtain c k where f: "find_match (Seq a (Seq b (Cap v))) (runes t) = Some (c, Some k)" and g: "g = unrunes k"
    using assms by (auto simp: FindSubmatch_def split: option.splits prod.splits)
  obtain p s' r where s: "runes t = p @ s'" and m: "(c, r, Some k) \<in> set (matches (Seq a (Seq b (Cap v))) s')"
    using find_match_part [OF f] by blast
  obtain c1 r1 k1 c2 k2 where a: "(c1, r1, k1) \<in> set (matches a s')"
      and bv: "(c2, r, k2) \<in> set (matches (Seq b (Cap v)) r1)" and k2: "Some k = (case k2 of None \<Rightarrow> k1 | Some _ \<Rightarrow> k2)"
    using m by (rule matches_SeqE)
  obtain k3 where "k2 = Some k3" using bv by (elim matches_SeqE matches_CapE) auto
  then have "k2 = Some k" using k2 by simp
  then obtain c3 r3 k' where m': "r1 = c3 @ r3" "(k, r, k') \<in> set (matches v r3)"
    using matches_Seq_Cap [of c2 r k b v r1] bv by blast
  have s': "s' = c1 @ c3 @ r3" using matches_split [OF a] m'(1) by simp
  have part: "runes t = (p @ c1 @ c3) @ k @ r" using s s' matches_split [OF m'(2)] by simp
  then have "runes g = k" unfolding g by (rule runes_part)
  then show ?thesis using that g m'(2) part by blast
qed


section \<open>What a candidate looks like\<close>

lemma TrimSpace_runes:
  "runes (TrimSpace g) = trim_right_runes is_space (trim_left_runes is_space (runes g))"
proof -
  let ?l = "trim_left_runes is_space (runes g)" and ?P = "\<lambda>r. is_space (fst r)"
  have l: "runes g = takeWhile ?P (runes g) @ ?l" by (simp add: trim_left_runes_def)
  have "rev ?l = takeWhile ?P (rev ?l) @ dropWhile ?P (rev ?l)" by simp
  then have "?l = rev (dropWhile ?P (rev ?l)) @ rev (takeWhile ?P (rev ?l))" by (metis rev_append rev_rev_ident)
  then have "runes g = takeWhile ?P (runes g) @ trim_right_runes is_space ?l @ rev (takeWhile ?P (rev ?l))"
    using l by (simp add: trim_right_runes_def)
  then have "runes (unrunes (trim_right_runes is_space ?l)) = trim_right_runes is_space ?l" by (rule runes_part)
  then show ?thesis by (simp add: TrimSpace_def)
qed

lemma TrimSpace_runes_subset: "set (runes (TrimSpace g)) \<subseteq> set (runes g)"
  by (auto simp: TrimSpace_runes trim_right_runes_def trim_left_runes_def dest!: set_dropWhileD)

lemma TrimSpace_solid:
  assumes "list_all (\<lambda>r. \<not> is_space (fst r)) (runes g)" shows "TrimSpace g = g"
proof -
  let ?P = "\<lambda>r. is_space (fst r)"
  have "dropWhile ?P (runes g) = runes g" "dropWhile ?P (rev (runes g)) = rev (runes g)"
    using assms by (metis dropWhile_eq_self_iff hd_in_set list_all_iff, metis dropWhile_eq_self_iff hd_in_set list_all_iff set_rev)
  then show ?thesis by (simp add: TrimSpace_def trim_left_runes_def trim_right_runes_def)
qed

definition ascii_text :: "rune_text \<Rightarrow> bytes" where
  "ascii_text x = concat (map (\<lambda>(r, _). encode_rune (thai_ascii_rune r)) x)"

lemma thai_ascii_text: "thai_ascii raw = ascii_text (runes raw)"
  by (simp add: thai_ascii_def ascii_text_def)

lemma ascii_text_append [simp]: "ascii_text (x @ y) = ascii_text x @ ascii_text y"
  by (simp add: ascii_text_def)

lemma ascii_text_Nil: "ascii_text [] = []"
  by (simp add: ascii_text_def)

lemma ascii_text_Cons: "ascii_text (r # x) = encode_rune (thai_ascii_rune (fst r)) @ ascii_text x"
  by (simp add: ascii_text_def split_beta)

lemma encode_digit: "any_digit r \<Longrightarrow> \<exists>c. encode_rune (thai_ascii_rune r) = [c] \<and> is_digit c"
  by (auto simp: any_digit_def ascii_digit_def thai_digit_def thai_ascii_rune_def encode_rune_def is_digit_def)

lemma ascii_text_digits:
  "list_all (\<lambda>r. any_digit (fst r)) x \<Longrightarrow> list_all is_digit (ascii_text x) \<and> length (ascii_text x) = length x"
proof (induction x)
  case (Cons r x)
  then obtain c where "encode_rune (thai_ascii_rune (fst r)) = [c]" "is_digit c" using encode_digit by auto
  then show ?case using Cons by (simp add: ascii_text_Cons)
qed (simp add: ascii_text_def)

lemma byte_char_eqI: "byte c = n \<Longrightarrow> byte_char n = c"
  using byte_char_byte [of c] by simp

lemma ascii_separators: "byte_char 32 = CHR '' ''" "byte_char 45 = CHR ''-''" "byte_char 46 = CHR ''.''" "byte_char 47 = CHR ''/''"
  by (simp_all add: byte_char_eqI byte_def)

lemma encode_tax: "tax_rune r \<Longrightarrow> \<exists>c. encode_rune (thai_ascii_rune r) = [c] \<and> (is_digit c \<or> c = CHR '' '' \<or> c = CHR ''-'')"
proof (cases "any_digit r")
  case True
  then show ?thesis using encode_digit [of r] by auto
next
  case False
  moreover assume "tax_rune r"
  ultimately have "r = 32 \<or> r = 45" by (auto simp: tax_rune_def)
  then show ?thesis by (auto simp: thai_ascii_rune_def thai_digit_def encode_rune_def ascii_separators)
qed

lemma ascii_text_tax:
  "\<forall>r \<in> set x. tax_rune (fst r) \<Longrightarrow> \<forall>c \<in> set (ascii_text x). is_digit c \<or> c = CHR '' '' \<or> c = CHR ''-''"
proof (induction x)
  case (Cons r x)
  then obtain c where "encode_rune (thai_ascii_rune (fst r)) = [c]" "is_digit c \<or> c = CHR '' '' \<or> c = CHR ''-''"
    using encode_tax [of "fst r"] by auto
  then show ?case using Cons by (auto simp: ascii_text_Cons)
qed (simp add: ascii_text_def)

lemma split_by_append: "list_all (\<lambda>c. \<not> P c) p \<Longrightarrow> P c \<Longrightarrow> split_by P (p @ c # s) = p # split_by P s"
  by (induction p) auto

lemma split_by_none: "list_all (\<lambda>c. \<not> P c) p \<Longrightarrow> split_by P p = [p]"
  by (induction p) auto

lemma digits_not_space: "any_digit r \<Longrightarrow> \<not> is_space r"
  by (auto simp: any_digit_def ascii_digit_def thai_digit_def is_space_def)

lemma separator_not_space: "date_separator r \<Longrightarrow> \<not> is_space r"
  by (auto simp: date_separator_def is_space_def)

text \<open>A date candidate normalises to the text of a valid date of a four digit year.\<close>

lemma date_candidate:
  assumes "(x, r, k) \<in> set (matches date_re s)" "runes g = x" "normalize_date (thai_ascii (TrimSpace g)) = Some n"
  shows "\<exists>y m d. n = format_date y m d \<and> valid_date y m d \<and> 0 \<le> y \<and> y < 10000"
proof -
  obtain a u b v c where x: "x = a @ u @ b @ v @ c"
    and d: "list_all (\<lambda>r. any_digit (fst r)) a" "list_all (\<lambda>r. any_digit (fst r)) b" "list_all (\<lambda>r. any_digit (fst r)) c"
    and l: "1 \<le> length a" "1 \<le> length b" "length c = 4"
    and uv: "list_all (\<lambda>r. date_separator (fst r)) u" "length u = 1" "list_all (\<lambda>r. date_separator (fst r)) v" "length v = 1"
  proof -
    obtain a ra ka y ky where 1: "(a, ra, ka) \<in> set (matches (Rep any_digit 1 (Some 2)) s)"
      "(y, r, ky) \<in> set (matches (Seq (Rep date_separator 1 (Some 1))
         (Seq (Rep any_digit 1 (Some 2)) (Seq (Rep date_separator 1 (Some 1)) (Rep any_digit 4 (Some 4))))) ra)" "x = a @ y"
      using assms(1) unfolding date_re_def by (rule matches_SeqE)
    obtain u ru ku z kz where 2: "(u, ru, ku) \<in> set (matches (Rep date_separator 1 (Some 1)) ra)"
      "(z, r, kz) \<in> set (matches (Seq (Rep any_digit 1 (Some 2)) (Seq (Rep date_separator 1 (Some 1)) (Rep any_digit 4 (Some 4)))) ru)" "y = u @ z"
      using 1(2) by (rule matches_SeqE)
    obtain b rb kb w kw where 3: "(b, rb, kb) \<in> set (matches (Rep any_digit 1 (Some 2)) ru)"
      "(w, r, kw) \<in> set (matches (Seq (Rep date_separator 1 (Some 1)) (Rep any_digit 4 (Some 4))) rb)" "z = b @ w"
      using 2(2) by (rule matches_SeqE)
    obtain v rv kv c kc where 4: "(v, rv, kv) \<in> set (matches (Rep date_separator 1 (Some 1)) rb)"
      "(c, r, kc) \<in> set (matches (Rep any_digit 4 (Some 4)) rv)" "w = v @ c"
      using 3(2) by (rule matches_SeqE)
    show ?thesis
      using that [of a u b v c] matches_Rep [OF 1(1)] matches_Rep [OF 2(1)] matches_Rep [OF 3(1)] matches_Rep [OF 4(1)]
        matches_Rep [OF 4(2)] 1(3) 2(3) 3(3) 4(3) by auto
  qed
  have solid: "list_all (\<lambda>r. \<not> is_space (fst r)) x"
    using d uv digits_not_space separator_not_space by (auto simp: x list_all_iff)
  have t: "thai_ascii (TrimSpace g) = ascii_text a @ ascii_text u @ ascii_text b @ ascii_text v @ ascii_text c"
    using TrimSpace_solid [of g] solid assms(2) by (simp add: thai_ascii_text x)
  let ?S = "\<lambda>c. c = CHR ''/'' \<or> c = CHR ''.'' \<or> c = CHR ''-''"
  have sep: "\<exists>c. ascii_text u = [c] \<and> ?S c" 
    if one: "list_all (\<lambda>r. date_separator (fst r)) u" "length u = 1" for u
  proof -
    obtain r where u: "u = [r]" using one(2) by (cases u) auto
    then have "date_separator (fst r)" using one(1) by simp
    then show ?thesis
      by (auto simp: u ascii_text_Cons ascii_text_Nil date_separator_def thai_ascii_rune_def thai_digit_def encode_rune_def ascii_separators)
  qed
  have ns: "list_all (\<lambda>c. \<not> ?S c) (ascii_text x)" if "list_all (\<lambda>r. any_digit (fst r)) x" for x
    using ascii_text_digits [OF that] by (auto simp: list_all_iff is_digit_def byte_def)
  obtain cu cv where cu: "ascii_text u = [cu]" "?S cu" and cv: "ascii_text v = [cv]" "?S cv"
    using sep [OF uv(1,2)] sep [OF uv(3,4)] by blast
  have ne: "ascii_text a \<noteq> []" "ascii_text b \<noteq> []" "ascii_text c \<noteq> []" "length (ascii_text c) = 4"
    using d l ascii_text_digits by fastforce+
  have "split_by ?S (thai_ascii (TrimSpace g)) = [ascii_text a, ascii_text b, ascii_text c]"
    unfolding t cu(1) cv(1) append_Cons append_Nil
      split_by_append [OF ns [OF d(1)] cu(2)] split_by_append [OF ns [OF d(2)] cv(2)] split_by_none [OF ns [OF d(3)]] by (rule refl)
  then have f: "FieldsFunc ?S (thai_ascii (TrimSpace g)) = [ascii_text a, ascii_text b, ascii_text c]"
    using ne by (simp add: FieldsFunc_def)
  obtain year month day y where y: "Atoi (ascii_text c) = Some year" "y = (if 2400 \<le> year \<and> year \<le> 2600 then year - 543 else year)"
    "\<not> y < 1900" "valid_date y month day" "n = format_date y month day"
    using assms(3) unfolding normalize_date_def f by (auto simp: Let_def split: option.splits if_splits)
  have "\<bar>year\<bar> < 10 ^ 4" using Atoi_bound [OF y(1)] ne(4) by simp
  then have "y < 10000" using y(2) by auto
  then show ?thesis using y(3-5) by (metis linorder_not_less order.trans zero_le_numeral)
qed


section \<open>Candidates pass the reviewer's checks\<close>

lemma labelled_part:
  assumes "FindSubmatch (labelled a v) t = Some g \<or> FindSubmatch (labelled_colon a v) t = Some g"
  shows "\<exists>r k s. (runes g, r, k) \<in> set (matches v s)"
  using assms unfolding labelled_def labelled_colon_def by (elim disjE) (erule captured_part, metis)+

lemma tax_candidate:
  assumes "FindSubmatch (labelled a (Rep tax_rune lo hi)) t = Some g" "is_tax_id key"
    "normalize key (TrimSpace g) = Some n"
  shows "length n = 13 \<and> only_digits n"
proof -
  obtain r k s where "(runes g, r, k) \<in> set (matches (Rep tax_rune lo hi) s)" using labelled_part assms(1) by blast
  then have "\<forall>x \<in> set (runes g). tax_rune (fst x)" using matches_Rep list_all_iff by metis
  then have "\<forall>x \<in> set (runes (TrimSpace g)). tax_rune (fst x)" using TrimSpace_runes_subset by blast
  then have c: "\<forall>c \<in> set (thai_ascii (TrimSpace g)). is_digit c \<or> c = CHR '' '' \<or> c = CHR ''-''"
    unfolding thai_ascii_text by (rule ascii_text_tax)
  have "\<not> is_amount key" "key \<noteq> ''issue_date''" "key \<noteq> ''seller_branch''"
    using assms(2) by (auto simp: is_tax_id_def is_amount_def)
  then have "n = filter (\<lambda>c. c \<noteq> CHR '' '' \<and> c \<noteq> CHR ''-'') (thai_ascii (TrimSpace g))" "length n = 13"
    using assms(2,3) unfolding normalize_def Let_def by (auto split: if_splits)
  then show ?thesis using c by (auto simp: only_digits_iff list_all_iff)
qed

lemma amount_candidate:
  assumes "is_amount key" "normalize key raw = Some n"
  shows "cents n \<noteq> None \<and> contains n ''.''"
proof -
  let ?v = "filter (\<lambda>c. c \<noteq> CHR '','') (thai_ascii raw)"
  have "key \<noteq> ''issue_date''" using assms(1) by (auto simp: is_amount_def)
  then have n: "cents ?v \<noteq> None" "n = (if contains ?v ''.'' then ?v else ?v @ ''.00'')"
    using assms unfolding normalize_def Let_def by (auto split: if_splits)
  then obtain w where w: "cents ?v = Some w" by auto
  show ?thesis
  proof (cases "contains ?v ''.''")
    case True then show ?thesis using n by simp
  next
    case False
    then have "CHR ''.'' \<notin> set ?v" unfolding contains_single .
    then have "cents (?v @ ''.00'') = Some w" by (rule cents_append_zeros [OF w])
    moreover have "n = ?v @ ''.00''" using n(2) False by simp
    ultimately show ?thesis by (simp add: contains_single)
  qed
qed

lemma patterns_keys: "patterns key = Some p \<Longrightarrow> key \<in> set pattern_keys"
  unfolding patterns_def pattern_keys_def by (auto split: if_splits)

lemma pattern_keys_Keys: "key \<in> set pattern_keys \<Longrightarrow> key \<in> set Keys \<and> key \<noteq> ''currency''"
  by (auto simp: pattern_keys_def Keys_def)

lemma candidate_ok:
  assumes p: "patterns key = Some p" "FindSubmatch p t = Some g" and n: "normalize key (TrimSpace g) = Some n"
    and short: "length n \<le> 240"
  shows "check_value key n = None"
proof -
  have k: "key \<in> set Keys" "key \<noteq> ''currency''" using pattern_keys_Keys patterns_keys [OF p(1)] by auto
  consider "key = ''issue_date''" | "is_amount key" | "key = ''seller_branch''" | "is_tax_id key"
    | "key \<noteq> ''issue_date''" "\<not> is_amount key" "key \<noteq> ''seller_branch''" "\<not> is_tax_id key" by blast
  then show ?thesis
  proof cases
    case 1
    then have "p = labelled (Alt (FoldLit [3623, 3633, 3609, 3607, 3637, 3656]) (FoldLit [100, 97, 116, 101])) date_re"
      using p(1) by (simp add: patterns_def issue_date_re_def)
    then obtain r kk s where "(runes g, r, kk) \<in> set (matches date_re s)" using labelled_part p(2) by blast
    moreover have "normalize_date (thai_ascii (TrimSpace g)) = Some n" using n 1 by (simp add: normalize_def)
    ultimately obtain y m d where "n = format_date y m d" "valid_date y m d" "0 \<le> y" "y < 10000"
      using date_candidate by blast
    then have "parse_date n = Some (y, m, d)" "format_date y m d = n" by (simp_all add: parse_format_date)
    then show ?thesis using k short 1 by (simp add: check_value_def)
  next
    case 2
    have "key \<noteq> ''issue_date''" using 2 by (auto simp: is_amount_def)
    then show ?thesis using 2 amount_candidate [OF 2 n] k short unfolding check_value_def by auto
  next
    case 3
    then have o3: "\<not> is_amount key" "key \<noteq> ''issue_date''" by (auto simp: is_amount_def)
    then have "length n = 5" "only_digits n" using n 3 unfolding normalize_def Let_def by (auto split: if_splits)
    then show ?thesis using k short 3 o3 unfolding check_value_def by simp
  next
    case 4
    then have "\<exists>a. p = labelled a (Rep tax_rune 13 (Some 20))"
      using p(1) by (auto simp: is_tax_id_def patterns_def seller_tax_id_re_def buyer_tax_id_re_def)
    then have "length n = 13" "only_digits n" using tax_candidate [OF _ 4 n] p(2) by blast+
    moreover have "\<not> is_amount key" "key \<noteq> ''issue_date''" "key \<noteq> ''seller_branch''"
      using 4 by (auto simp: is_tax_id_def is_amount_def)
    ultimately show ?thesis using k short 4 unfolding check_value_def by simp
  next
    case 5
    then show ?thesis using k short unfolding check_value_def by simp
  qed
qed


section \<open>The effect of a pattern on its field\<close>

text \<open>What \<^verbatim>\<open>scan_key\<close> does to the field of its key, and the warnings it asks for: both depend on that field only.\<close>

definition key_effect :: "evidence \<Rightarrow> ocr_line \<Rightarrow> string \<Rightarrow> field \<Rightarrow> field option \<times> (string \<times> string) list" where
  "key_effect e line key f =
     (case patterns key of
        None \<Rightarrow> (None, [])
      | Some p \<Rightarrow>
          (case FindSubmatch p (ol_text line) of
             None \<Rightarrow> (None, [])
           | Some g \<Rightarrow>
               (case normalize key (TrimSpace g) of
                  None \<Rightarrow> (None, [(''invalid_value'', ''review'')])
                | Some n \<Rightarrow>
                    (let (f', clash) = merge_candidate e (TrimSpace g) n f in
                     (Some f', (if clash then [(''multiple_candidates'', ''blocker'')] else [])
                        @ (if float_less (ol_confidence line) point_eight then [(''ocr_low_quality'', ''review'')] else []))))))"

definition warn_all :: "string \<Rightarrow> (string \<times> string) list \<Rightarrow> draft \<Rightarrow> draft" where
  "warn_all key ws d = fold (\<lambda>(c, s). warn c key s) ws d"

lemma warn_keeps [simp]:
  "dr_fields (warn c k s d) = dr_fields d" "dr_type (warn c k s d) = dr_type d" "dr_schema (warn c k s d) = dr_schema d"
  "field_of (warn c k s d) k' = field_of d k'"
  by (simp_all add: warn_def field_of_def)

lemma warn_all_simps [simp]: "warn_all k [] d = d" "warn_all k (w # ws) d = warn_all k ws (warn (fst w) k (snd w) d)"
  by (simp_all add: warn_all_def split_beta)

lemma warn_all_keeps [simp]:
  "dr_fields (warn_all k ws d) = dr_fields d" "dr_type (warn_all k ws d) = dr_type d" "dr_schema (warn_all k ws d) = dr_schema d"
  by (induction ws arbitrary: d) simp_all

lemma put_field_keeps [simp]:
  "dr_fields (put_field k f d) = (dr_fields d)(k \<mapsto> f)" "dr_type (put_field k f d) = dr_type d"
  "dr_schema (put_field k f d) = dr_schema d" "dr_warnings (put_field k f d) = dr_warnings d"
  by (simp_all add: put_field_def)

lemma put_field_warn: "put_field k f (warn c k' s d) = warn c k' s (put_field k f d)"
  by (simp add: put_field_def warn_def HasWarning_def)

definition put_option :: "string \<Rightarrow> field option \<Rightarrow> draft \<Rightarrow> draft" where
  "put_option key f d = (case f of None \<Rightarrow> d | Some f \<Rightarrow> put_field key f d)"

lemma scan_key_effect:
  "scan_key e l key d =
     (let (f, ws) = key_effect e l key (field_of d key) in warn_all key ws (put_option key f d))"
  unfolding scan_key_def key_effect_def put_option_def
  by (auto simp: Let_def put_field_warn split: option.split prod.split)

text \<open>Every warning of a draft has the severity of its code, so a warning is a member of a set.\<close>

definition severity :: "string \<Rightarrow> string" where
  "severity code = (if code = ''invalid_value'' \<or> code = ''ocr_low_quality'' then ''review'' else ''blocker'')"

definition graded :: "draft \<Rightarrow> bool" where
  "graded d = list_all (\<lambda>w. w_severity w = severity (w_code w)) (dr_warnings d)"

lemma graded_warn: "graded d \<Longrightarrow> s = severity c \<Longrightarrow> graded (warn c k s d)"
  by (simp add: graded_def warn_def)

lemma set_warn:
  assumes "graded d" "s = severity c"
  shows "set (dr_warnings (warn c k s d)) = insert (Warning c k s) (set (dr_warnings d))"
proof (cases "HasWarning d c k")
  case True
  then obtain w where w: "w \<in> set (dr_warnings d)" "w_code w = c" "w_field w = k"
    by (auto simp: HasWarning_def list_ex_iff)
  then have "w_severity w = s" using assms by (auto simp: graded_def list_all_iff)
  then have "w = Warning c k s" using w warning.collapse [of w] by simp
  then show ?thesis using w True by (auto simp: warn_def)
qed (auto simp: warn_def)

definition graded_list :: "(string \<times> string) list \<Rightarrow> bool" where
  "graded_list ws = list_all (\<lambda>(c, s). s = severity c) ws"

lemma warn_all_graded:
  "graded d \<Longrightarrow> graded_list ws \<Longrightarrow>
   graded (warn_all k ws d) \<and> set (dr_warnings (warn_all k ws d)) = (\<lambda>(c, s). Warning c k s) ` set ws \<union> set (dr_warnings d)"
  by (induction ws arbitrary: d) (auto simp: graded_list_def graded_warn set_warn)

lemma graded_put [simp]: "graded (put_option k f d) = graded d" "graded (put_field k g d) = graded d"
  by (auto simp: graded_def put_option_def put_field_def split: option.split)

lemma put_option_keeps [simp]:
  "dr_type (put_option k f d) = dr_type d" "dr_schema (put_option k f d) = dr_schema d"
  "dr_warnings (put_option k f d) = dr_warnings d"
  "dr_fields (put_option k f d) = (case f of None \<Rightarrow> dr_fields d | Some f \<Rightarrow> (dr_fields d)(k \<mapsto> f))"
  by (simp_all add: put_option_def split: option.split)

lemma key_effect_graded: "graded_list (snd (key_effect e l key f))"
  unfolding key_effect_def graded_list_def
  by (auto simp: Let_def severity_def split: option.split prod.split)

text \<open>The effect of a list of distinct keys, in any order.\<close>

definition key_fields :: "evidence \<Rightarrow> ocr_line \<Rightarrow> string set \<Rightarrow> draft \<Rightarrow> string \<rightharpoonup> field" where
  "key_fields e l ks d = (\<lambda>k. if k \<in> ks then
      case fst (key_effect e l k (field_of d k)) of None \<Rightarrow> dr_fields d k | Some f \<Rightarrow> Some f else dr_fields d k)"

definition key_warnings :: "evidence \<Rightarrow> ocr_line \<Rightarrow> string set \<Rightarrow> draft \<Rightarrow> warning set" where
  "key_warnings e l ks d = (\<Union>k \<in> ks. (\<lambda>(c, s). Warning c k s) ` set (snd (key_effect e l k (field_of d k))))"

lemma scan_key_spec:
  assumes "graded d"
  shows "graded (scan_key e l k d) \<and> dr_type (scan_key e l k d) = dr_type d \<and> dr_schema (scan_key e l k d) = dr_schema d
    \<and> dr_fields (scan_key e l k d) = key_fields e l {k} d
    \<and> set (dr_warnings (scan_key e l k d)) = key_warnings e l {k} d \<union> set (dr_warnings d)"
proof -
  obtain f ws where fx: "key_effect e l k (field_of d k) = (f, ws)" by (cases "key_effect e l k (field_of d k)")
  then have g: "graded_list ws" using key_effect_graded [of e l k "field_of d k"] by simp
  have w: "graded (warn_all k ws (put_option k f d))"
    "set (dr_warnings (warn_all k ws (put_option k f d))) = (\<lambda>(c, s). Warning c k s) ` set ws \<union> set (dr_warnings d)"
    using warn_all_graded [of "put_option k f d" ws k] assms g by auto
  have k: "key_fields e l {k} d = (case f of None \<Rightarrow> dr_fields d | Some f \<Rightarrow> (dr_fields d)(k \<mapsto> f))"
    by (auto simp: key_fields_def fx fun_eq_iff split: option.split)
  show ?thesis using w by (simp add: scan_key_effect fx k key_warnings_def)
qed

lemma scan_keys_spec:
  assumes "graded d" "distinct ks"
  shows "graded (fold (scan_key e l) ks d) \<and> dr_type (fold (scan_key e l) ks d) = dr_type d
    \<and> dr_schema (fold (scan_key e l) ks d) = dr_schema d
    \<and> dr_fields (fold (scan_key e l) ks d) = key_fields e l (set ks) d
    \<and> set (dr_warnings (fold (scan_key e l) ks d)) = key_warnings e l (set ks) d \<union> set (dr_warnings d)"
  using assms
proof (induction ks arbitrary: d)
  case (Cons k ks)
  let ?d = "scan_key e l k d"
  note step = scan_key_spec [OF Cons.prems(1), of e l k]
  have other: "field_of ?d k' = field_of d k'" "dr_fields ?d k' = dr_fields d k'" if "k' \<noteq> k" for k'
    using step that by (auto simp: field_of_def key_fields_def)
  have "key_fields e l (set ks) ?d = key_fields e l (set (k # ks)) d"
  proof
    fix k'
    show "key_fields e l (set ks) ?d k' = key_fields e l (set (k # ks)) d k'"
    proof (cases "k' = k")
      case True
      then show ?thesis using Cons.prems(2) step by (simp add: key_fields_def)
    next
      case False
      then show ?thesis by (simp add: key_fields_def other cong: option.case_cong)
    qed
  qed
  moreover have "key_warnings e l (set ks) ?d = key_warnings e l (set ks) d"
    unfolding key_warnings_def using Cons.prems(2) by (intro SUP_cong refl) (metis distinct.simps(2) other(1))
  moreover have "key_warnings e l (set (k # ks)) d = key_warnings e l {k} d \<union> key_warnings e l (set ks) d"
    by (simp add: key_warnings_def)
  ultimately show ?case using Cons.IH [of ?d] Cons.prems step by auto
qed (simp add: key_fields_def key_warnings_def)


section \<open>Drafts that differ in the order of their warnings\<close>

definition same_draft :: "draft \<Rightarrow> draft \<Rightarrow> bool" where
  "same_draft d d' = (graded d \<and> graded d' \<and> dr_schema d = dr_schema d' \<and> dr_type d = dr_type d'
     \<and> dr_fields d = dr_fields d' \<and> set (dr_warnings d) = set (dr_warnings d'))"

lemma same_field_of: "same_draft d d' \<Longrightarrow> field_of d k = field_of d' k"
  by (simp add: same_draft_def field_of_def)

lemma same_warn: "same_draft d d' \<Longrightarrow> s = severity c \<Longrightarrow> same_draft (warn c k s d) (warn c k s d')"
  by (simp add: same_draft_def graded_warn set_warn)

lemma same_put: "same_draft d d' \<Longrightarrow> same_draft (put_field k f d) (put_field k f d')"
  by (simp add: same_draft_def)

lemma same_scan_keys:
  assumes "same_draft d d'" "distinct ks" "distinct ks'" "set ks = set ks'"
  shows "same_draft (fold (scan_key e l) ks d) (fold (scan_key e l) ks' d')"
proof -
  have "key_fields e l S d = key_fields e l S d'" "key_warnings e l S d = key_warnings e l S d'" for S
    using assms(1) same_field_of [OF assms(1)]
    by (simp_all add: key_fields_def key_warnings_def same_draft_def fun_eq_iff cong: if_cong option.case_cong)
  then show ?thesis
    using assms scan_keys_spec [of d ks e l] scan_keys_spec [of d' ks' e l] by (auto simp: same_draft_def)
qed

lemma same_scan_line:
  assumes "same_draft d d'" "distinct ks" "distinct ks'" "set ks = set ks'"
  shows "same_draft (scan_line ks e l d) (scan_line ks' e l d')"
proof -
  let ?c = "\<lambda>d. d\<lparr>dr_type := classify (ol_text l) (dr_type d)\<rparr>"
  have "same_draft (?c d) (?c d')" using assms(1) by (simp add: same_draft_def graded_def)
  then have "same_draft (fold (scan_key e l) ks (?c d)) (fold (scan_key e l) ks' (?c d'))"
    using assms by (intro same_scan_keys) auto
  then show ?thesis by (simp add: scan_line_def scan_currency_def Let_def same_put)
qed

definition key_order :: "string list \<Rightarrow> bool" where
  "key_order ks = (distinct ks \<and> set ks = set pattern_keys)"

lemma same_scan_lines:
  "\<forall>i. key_order (r i) \<Longrightarrow> \<forall>i. key_order (r' i) \<Longrightarrow> same_draft d d' \<Longrightarrow>
   same_draft (scan_lines r page i ls d) (scan_lines r' page i ls d')"
  by (induction ls arbitrary: i d d') (simp_all add: key_order_def same_scan_line)

lemma same_scan_pages:
  "\<forall>p i. key_order (r p i) \<Longrightarrow> \<forall>p i. key_order (r' p i) \<Longrightarrow> same_draft d d' \<Longrightarrow>
   same_draft (scan_pages r p ps d) (scan_pages r' p ps d')"
  by (induction ps arbitrary: p d d') (simp_all add: same_scan_lines)

lemma same_require: "same_draft d d' \<Longrightarrow> same_draft (require_found k d) (require_found k d')"
  by (simp add: require_found_def same_field_of same_warn severity_def)

lemma require_found_type [simp]: "dr_type (require_found k d) = dr_type d"
  by (simp add: require_found_def)

lemma same_require_all: "same_draft d d' \<Longrightarrow> same_draft (fold require_found ks d) (fold require_found ks d')"
  by (induction ks arbitrary: d d') (simp_all add: same_require)

lemma require_all_type [simp]: "dr_type (fold require_found ks d) = dr_type d"
  by (induction ks arbitrary: d) simp_all

definition require_all :: "draft \<Rightarrow> draft" where
  "require_all d = (if known_type (dr_type d) then
      let d = fold require_found [''issue_date'', ''total_amount''] d in
      if dr_type d = ''tax_invoice'' then fold require_found [''document_number'', ''seller_name'', ''seller_tax_id''] d
      else d
    else d)"

lemma check_draft_require:
  "check_draft d = (let d = require_all d in
     if amounts_disagree (fd_normalized (field_of d ''subtotal'')) (fd_normalized (field_of d ''vat_amount''))
          (fd_normalized (field_of d ''total_amount''))
     then warn ''amount_mismatch'' ''total_amount'' ''blocker'' d else d)"
  unfolding check_draft_def require_all_def by (rule refl)

lemma same_require_type:
  assumes "same_draft d d'" shows "same_draft (require_all d) (require_all d')"
proof -
  have "dr_type d = dr_type d'" using assms by (simp add: same_draft_def)
  then show ?thesis using assms unfolding require_all_def Let_def require_all_type
    by (auto simp: same_require)
qed

lemma same_check: "same_draft d d' \<Longrightarrow> same_draft (check_draft d) (check_draft d')"
  using same_require_type [of d d']
  by (auto simp: check_draft_require Let_def same_field_of [of "require_all d" "require_all d'"] severity_def intro!: same_warn)

lemma same_empty: "same_draft empty_draft empty_draft"
  by (simp add: same_draft_def graded_def empty_draft_def)

section \<open>Found fields\<close>

text \<open>The invariant of a draft: a field that was found holds a value the reviewer's check accepts.\<close>

definition field_ok :: "string \<Rightarrow> field \<Rightarrow> bool" where
  "field_ok k f = (fd_presence f \<in> {''not_found'', ''found'', ''ambiguous''}
     \<and> (fd_presence f \<noteq> ''found'' \<longrightarrow> fd_normalized f = [])
     \<and> (fd_presence f = ''found'' \<longrightarrow> length (fd_normalized f) \<le> 240 \<longrightarrow> check_value k (fd_normalized f) = None))"

definition fields_ok :: "draft \<Rightarrow> bool" where
  "fields_ok d = (dom (dr_fields d) = set Keys \<and> (\<forall>k f. dr_fields d k = Some f \<longrightarrow> field_ok k f))"

lemma fields_ok_put: "fields_ok d \<Longrightarrow> k \<in> set Keys \<Longrightarrow> field_ok k f \<Longrightarrow> fields_ok (put_field k f d)"
  by (auto simp: fields_ok_def)

lemma fields_ok_warn: "fields_ok (warn c k s d) = fields_ok d"
  by (simp add: fields_ok_def)

lemma fields_ok_field_of: "fields_ok d \<Longrightarrow> k \<in> set Keys \<Longrightarrow> field_ok k (field_of d k)"
  by (force simp: fields_ok_def field_of_def dom_def split: option.split)

lemma merge_ok:
  assumes "field_ok k f" "length n \<le> 240 \<longrightarrow> check_value k n = None" "merge_candidate e raw n f = (f', c)"
  shows "field_ok k f'"
  using assms by (auto simp: merge_candidate_def Let_def field_ok_def split: if_splits)

lemma fields_ok_scan_key:
  assumes "fields_ok d" shows "fields_ok (scan_key e l k d)"
proof -
  obtain f ws where fx: "key_effect e l k (field_of d k) = (f, ws)" by (cases "key_effect e l k (field_of d k)")
  have "k \<in> set Keys \<and> field_ok k f'" if f: "f = Some f'" for f'
  proof -
    obtain p g n c where p: "patterns k = Some p" "FindSubmatch p (ol_text l) = Some g" "normalize k (TrimSpace g) = Some n"
      and m: "merge_candidate e (TrimSpace g) n (field_of d k) = (f', c)"
      using fx f unfolding key_effect_def by (auto simp: Let_def split: option.splits prod.splits)
    have k: "k \<in> set Keys" using pattern_keys_Keys patterns_keys [OF p(1)] by auto
    have "length n \<le> 240 \<longrightarrow> check_value k n = None" using candidate_ok [OF p] by blast
    then show ?thesis using merge_ok [OF fields_ok_field_of [OF assms k] _ m] k by blast
  qed
  then have "fields_ok (put_option k f d)" using assms fields_ok_put by (auto simp: put_option_def split: option.split)
  then show ?thesis by (simp add: scan_key_effect fx fields_ok_def)
qed

lemma fields_ok_scan_keys: "fields_ok d \<Longrightarrow> fields_ok (fold (scan_key e l) ks d)"
  by (induction ks arbitrary: d) (simp_all add: fields_ok_scan_key)

lemma currency_ok: "field_ok ''currency'' \<lparr>fd_presence = ''found'', fd_raw = raw, fd_normalized = ''THB'', fd_confidence = c, fd_evidence = e\<rparr>"
  by (simp add: field_ok_def check_value_def Keys_def)

lemma fields_ok_scan_line: "fields_ok d \<Longrightarrow> fields_ok (scan_line ks e l d)"
proof -
  assume "fields_ok d"
  then have "fields_ok (d\<lparr>dr_type := t\<rparr>)" for t by (simp add: fields_ok_def)
  then have "fields_ok (fold (scan_key e l) ks (d\<lparr>dr_type := t\<rparr>))" for t by (rule fields_ok_scan_keys)
  moreover have "''currency'' \<in> set Keys" by (simp add: Keys_def)
  ultimately show ?thesis by (auto simp: scan_line_def scan_currency_def Let_def intro!: fields_ok_put currency_ok)
qed

lemma fields_ok_scan_lines: "fields_ok d \<Longrightarrow> fields_ok (scan_lines r page i ls d)"
  by (induction ls arbitrary: i d) (simp_all add: fields_ok_scan_line)

lemma fields_ok_scan_pages: "fields_ok d \<Longrightarrow> fields_ok (scan_pages r p ps d)"
  by (induction ps arbitrary: p d) (simp_all add: fields_ok_scan_lines)

lemma fields_ok_empty: "fields_ok empty_draft"
  by (auto simp: fields_ok_def empty_draft_def field_ok_def missing_field_def dom_def)

lemma require_found_fields [simp]: "dr_fields (require_found k d) = dr_fields d"
  by (simp add: require_found_def)

lemma require_all_fields: "dr_fields (fold require_found ks d) = dr_fields d"
  by (induction ks arbitrary: d) simp_all

lemma check_draft_fields: "dr_fields (check_draft d) = dr_fields d"
  by (simp add: check_draft_require require_all_def Let_def require_all_fields del: fold_simps)

lemma fields_ok_Extract: "fields_ok (Extract r result)"
  using fields_ok_scan_pages [OF fields_ok_empty] by (simp add: fields_ok_def Extract_def check_draft_fields)


section \<open>Properties\<close>

lemma check_values_all: "check_values vs = None \<longleftrightarrow> list_all (\<lambda>(k, v). check_value k v = None) vs"
  by (induction vs rule: check_values.induct) (auto split: option.split)

lemma value_of_checked:
  assumes "check_values vs = None" "value_of vs k \<noteq> []"
  shows "check_value k (value_of vs k) = None"
proof -
  obtain v where "map_of vs k = Some v" using assms(2) by (auto simp: value_of_def split: option.splits)
  then show ?thesis using assms(1) map_of_SomeD [of vs k v] by (auto simp: check_values_all value_of_def list_all_iff)
qed

lemma TrimSpace_empty: "TrimSpace [] = []"
  by (simp add: TrimSpace_def trim_right_runes_def trim_left_runes_def unrunes_def)

lemma reviewed_value:
  assumes "ValidateReview d vs = None" "k \<in> set (required_keys (dr_type d))"
  shows "value_of vs k \<noteq> [] \<and> check_value k (value_of vs k) = None"
proof -
  have c: "check_values vs = None" and "TrimSpace (value_of vs k) \<noteq> []"
    using assms by (auto simp: ValidateReview_def list_ex_iff split: if_splits option.splits)
  then have "value_of vs k \<noteq> []" by (auto simp: TrimSpace_empty)
  then show ?thesis using value_of_checked [OF c] by blast
qed

lemma checked_date:
  assumes "v \<noteq> [] \<and> check_value ''issue_date'' v = None"
  shows "\<exists>y m d. parse_date v = Some (y, m, d) \<and> valid_date y m d"
proof -
  have "parse_date v \<noteq> None" using assms unfolding check_value_def by (cases "parse_date v") (auto split: if_splits)
  then obtain y m d where "parse_date v = Some (y, m, d)" by auto
  moreover from this have "valid_date y m d" unfolding parse_date_def by (auto split: if_splits option.splits)
  ultimately show ?thesis by blast
qed

lemma checked_total: "v \<noteq> [] \<and> check_value ''total_amount'' v = None \<Longrightarrow> cents v \<noteq> None"
  unfolding check_value_def is_amount_def by (auto split: if_splits)

lemma checked_tax_id: "v \<noteq> [] \<and> check_value ''seller_tax_id'' v = None \<Longrightarrow> length v = 13 \<and> only_digits v"
  unfolding check_value_def is_amount_def is_tax_id_def by (auto split: if_splits)

lemma reviewed_amounts:
  assumes "ValidateReview d vs = None"
  shows "\<not> amounts_disagree (value_of vs ''subtotal'') (value_of vs ''vat_amount'') (value_of vs ''total_amount'')"
  using assms by (auto simp: ValidateReview_def split: if_splits option.splits)

text \<open>\<^bold>\<open>C13.\<close> The draft extracted from an OCR result does not depend on the order in which Go iterates over
  the map of patterns, on any line: document type, fields and the set of warnings are the same.\<close>

theorem extract_order_independent:
  assumes "\<forall>p i. key_order (r p i)" "\<forall>p i. key_order (r' p i)"
  shows "dr_type (Extract r result) = dr_type (Extract r' result)
    \<and> dr_fields (Extract r result) = dr_fields (Extract r' result)
    \<and> set (dr_warnings (Extract r result)) = set (dr_warnings (Extract r' result))"
proof -
  have "same_draft (Extract r result) (Extract r' result)"
    unfolding Extract_def by (intro same_check same_scan_pages assms same_empty)
  then show ?thesis by (simp add: same_draft_def)
qed

text \<open>A page with an amount and a currency, read with low confidence.\<close>

definition sample_line :: "bytes \<Rightarrow> ocr_line" where
  "sample_line t = \<lparr>ol_text = t, ol_confidence = Fin (1 / 2), ol_polygon = []\<rparr>"

definition sample_result :: ocr_result where
  "sample_result = \<lparr>os_schema = 1, os_sha256 = [], os_model = [], os_preprocessing = [], os_duration = 0,
     os_pages = [\<lparr>op_number = 1, op_width = 1, op_height = 1, op_rotation = 0, op_duration = 0, op_text = [],
       op_lines = [sample_line ''VAT 70'', sample_line ''THB'']\<rparr>]\<rparr>"

theorem extract_order_independent_witness:
  "dr_fields (Extract (\<lambda>p i. pattern_keys) sample_result) = dr_fields (Extract (\<lambda>p i. rev pattern_keys) sample_result)
    \<and> set (dr_warnings (Extract (\<lambda>p i. pattern_keys) sample_result))
      = set (dr_warnings (Extract (\<lambda>p i. rev pattern_keys) sample_result))"
proof -
  have "key_order pattern_keys" "key_order (rev pattern_keys)" by (auto simp: key_order_def pattern_keys_def)
  then show ?thesis
    using extract_order_independent [of "\<lambda>p i. pattern_keys" "\<lambda>p i. rev pattern_keys" sample_result] by blast
qed

text \<open>Whatever the OCR text is, a field the extractor reports as found holds a value the reviewer's
  check accepts unchanged, up to the length bound: dates exist and have four digit years, amounts parse and have
  two decimals, tax ids are 13 digits.  A field that is not found or ambiguous proposes no value.\<close>

theorem extracted_values_reviewable:
  assumes "dr_fields (Extract r result) k = Some f"
  shows "if fd_presence f = ''found'' then length (fd_normalized f) > 240 \<or> check_value k (fd_normalized f) = None
    else fd_normalized f = []"
proof -
  have "field_ok k f" using fields_ok_Extract [of r result] assms by (auto simp: fields_ok_def)
  then show ?thesis by (cases "length (fd_normalized f) \<le> 240") (simp_all add: field_ok_def)
qed

theorem extracted_values_reviewable_witness:
  "check_value ''vat_amount'' ''70.00'' = None"
proof -
  have "map_option (\<lambda>f. (fd_presence f, fd_normalized f)) (dr_fields (Extract (\<lambda>p i. pattern_keys) sample_result) ''vat_amount'')
    = Some (''found'', ''70.00'')" by code_simp
  then obtain f where "dr_fields (Extract (\<lambda>p i. pattern_keys) sample_result) ''vat_amount'' = Some f"
    "fd_presence f = ''found''" "fd_normalized f = ''70.00''" by auto
  then show ?thesis using extracted_values_reviewable [of "\<lambda>p i. pattern_keys" sample_result "''vat_amount''" f] by simp
qed

text \<open>\<^bold>\<open>C14.\<close> Values that pass \<^verbatim>\<open>ValidateReview\<close> name an existing date and a total, the amounts agree
  within one cent whenever all three are given, the tax invoice's seller tax id is 13 digits, and the sums the check
  computes stay inside \<^verbatim>\<open>int64\<close>.\<close>

theorem review_sound:
  assumes "ValidateReview d vs = None"
  shows "known_type (dr_type d)
    \<and> (\<exists>y m day. parse_date (value_of vs ''issue_date'') = Some (y, m, day) \<and> valid_date y m day)
    \<and> (\<exists>c. cents (value_of vs ''total_amount'') = Some c
         \<and> (\<forall>a b. cents (value_of vs ''subtotal'') = Some a \<longrightarrow> cents (value_of vs ''vat_amount'') = Some b
              \<longrightarrow> \<bar>a + b - c\<bar> \<le> 1 \<and> \<bar>a + b\<bar> < 2 ^ 63))
    \<and> (dr_type d = ''tax_invoice'' \<longrightarrow> length (value_of vs ''seller_tax_id'') = 13 \<and> only_digits (value_of vs ''seller_tax_id''))"
proof (intro conjI impI)
  show k: "known_type (dr_type d)" using assms by (auto simp: ValidateReview_def split: if_splits)
  have "''issue_date'' \<in> set (required_keys (dr_type d))" by (simp add: required_keys_def)
  then show "\<exists>y m day. parse_date (value_of vs ''issue_date'') = Some (y, m, day) \<and> valid_date y m day"
    using reviewed_value [OF assms] checked_date by blast
  have "''total_amount'' \<in> set (required_keys (dr_type d))" by (simp add: required_keys_def)
  then have "cents (value_of vs ''total_amount'') \<noteq> None"
    using reviewed_value [OF assms] checked_total by blast
  then obtain c where c: "cents (value_of vs ''total_amount'') = Some c" by auto
  have "\<bar>a + b - c\<bar> \<le> 1 \<and> \<bar>a + b\<bar> < 2 ^ 63"
    if "cents (value_of vs ''subtotal'') = Some a" "cents (value_of vs ''vat_amount'') = Some b" for a b
    using reviewed_amounts [OF assms] that c cents_range [OF that(1)] cents_range [OF that(2)] by (auto simp: amounts_disagree_def)
  then show "\<exists>c. cents (value_of vs ''total_amount'') = Some c
         \<and> (\<forall>a b. cents (value_of vs ''subtotal'') = Some a \<longrightarrow> cents (value_of vs ''vat_amount'') = Some b
              \<longrightarrow> \<bar>a + b - c\<bar> \<le> 1 \<and> \<bar>a + b\<bar> < 2 ^ 63)" using c by blast
  assume "dr_type d = ''tax_invoice''"
  then have "''seller_tax_id'' \<in> set (required_keys (dr_type d))" by (simp add: required_keys_def)
  then show "length (value_of vs ''seller_tax_id'') = 13" "only_digits (value_of vs ''seller_tax_id'')"
    using reviewed_value [OF assms, of "''seller_tax_id''"] checked_tax_id by blast+
qed

definition sample_receipt :: draft where "sample_receipt = empty_draft\<lparr>dr_type := ''receipt''\<rparr>"

theorem review_sound_witness:
  "\<exists>c. cents ''107.00'' = Some c \<and> ValidateReview sample_receipt
     [(''issue_date'', ''2026-09-23''), (''subtotal'', ''100.00''), (''vat_amount'', ''7.00''), (''total_amount'', ''107.00'')] = None"
proof -
  have v: "ValidateReview sample_receipt
     [(''issue_date'', ''2026-09-23''), (''subtotal'', ''100.00''), (''vat_amount'', ''7.00''), (''total_amount'', ''107.00'')] = None"
    by code_simp
  show ?thesis using review_sound [OF v] v by (auto simp: value_of_def)
qed

text \<open>An accepted amount is between -9 cents and 10^17 cents.  The lower bound is reached:
  \<^verbatim>\<open>ParseInt\<close> reads a sign in the two characters after the point, so a reviewer can confirm a negative total.\<close>

theorem amounts_bounded:
  assumes "cents s = Some v" shows "- 9 \<le> v \<and> v < 10 ^ 17"
  using cents_range [OF assms] .

theorem amounts_bounded_witness:
  "cents ''0.-9'' = Some (- 9)
    \<and> ValidateReview sample_receipt [(''issue_date'', ''2026-09-23''), (''total_amount'', ''0.-9'')] = None
    \<and> - 9 \<le> (- 9 :: int) \<and> (- 9 :: int) < 10 ^ 17"
proof -
  have c: "cents ''0.-9'' = Some (- 9)" by code_simp
  moreover have "ValidateReview sample_receipt [(''issue_date'', ''2026-09-23''), (''total_amount'', ''0.-9'')] = None" by code_simp
  ultimately show ?thesis using amounts_bounded [OF c] by blast
qed

end
