(* ===== verification/Json.thy ===== *)
theory Json
  imports Schema GoText
begin

text \<open>
  \<^verbatim>\<open>jsonb\<close> values as PostgreSQL prints them, the operator \<^verbatim>\<open>->>\<close>, and the fields \<^verbatim>\<open>encoding/json\<close> fills
  when it decodes an object into a struct: a key matches its field whatever its case, \<^verbatim>\<open>null\<close> leaves the
  field alone, the last matching key wins and a value of another type is an error.
\<close>

section \<open>Text\<close>

definition json_escape_char :: "char \<Rightarrow> bytes" where
  "json_escape_char c =
     (if byte c = 34 then [byte_char 92, byte_char 34] else if byte c = 92 then [byte_char 92, byte_char 92]
      else if byte c = 10 then [byte_char 92, CHR ''n''] else if byte c = 13 then [byte_char 92, CHR ''r'']
      else if byte c = 9 then [byte_char 92, CHR ''t''] else if byte c = 8 then [byte_char 92, CHR ''b'']
      else if byte c = 12 then [byte_char 92, CHR ''f''] else [c])"

definition json_quote :: "bytes \<Rightarrow> bytes" where
  "json_quote s = [byte_char 34] @ concat (map json_escape_char s) @ [byte_char 34]"

fun json_print :: "json \<Rightarrow> bytes" where
  "json_print JNull = ''null''"
| "json_print (JBool b) = (if b then ''true'' else ''false'')"
| "json_print (JNumber i) = Itoa i"
| "json_print (JString s) = json_quote s"
| "json_print (JArray vs) = ''['' @ join '', '' (map json_print vs) @ '']''"
| "json_print (JObject fs) =
     ''{'' @ join '', '' (map (\<lambda>(k, v). json_quote k @ '': '' @ json_print v) fs) @ ''}''"

text \<open>\<^verbatim>\<open>value->>'key'\<close>: no row value for a missing key and for \<^verbatim>\<open>null\<close>.\<close>

definition json_text :: "json \<Rightarrow> string \<Rightarrow> bytes option" where
  "json_text j k =
     (case json_get j k of
        None \<Rightarrow> None | Some JNull \<Rightarrow> None | Some (JString s) \<Rightarrow> Some s | Some v \<Rightarrow> Some (json_print v))"

section \<open>Decoding into a struct\<close>

fun is_object :: "json \<Rightarrow> bool" where
  "is_object (JObject _) = True"
| "is_object _ = False"

fun json_field :: "json \<Rightarrow> string \<Rightarrow> json list" where
  "json_field (JObject fs) name =
     filter (\<lambda>v. v \<noteq> JNull) (map snd (filter (\<lambda>(k, v). ascii_lower k = ascii_lower name) fs))"
| "json_field _ name = []"

fun string_of_json :: "json \<Rightarrow> string option" where
  "string_of_json (JString s) = Some s"
| "string_of_json _ = None"

fun int_of_json :: "json \<Rightarrow> int option" where
  "int_of_json (JNumber i) = (if - (2 ^ 63) \<le> i \<and> i < 2 ^ 63 then Some i else None)"
| "int_of_json _ = None"

fun bool_of_json :: "json \<Rightarrow> bool option" where
  "bool_of_json (JBool b) = Some b"
| "bool_of_json _ = None"

definition decode_field :: "(json \<Rightarrow> 'a option) \<Rightarrow> 'a \<Rightarrow> string \<Rightarrow> json \<Rightarrow> 'a option" where
  "decode_field decode zero name j =
     (let values = map decode (json_field j name)
      in if None \<in> set values then None else if values = [] then Some zero else last values)"

definition string_field :: "string \<Rightarrow> json \<Rightarrow> string option" where
  "string_field = decode_field string_of_json []"

definition int_field :: "string \<Rightarrow> json \<Rightarrow> int option" where
  "int_field = decode_field int_of_json 0"

end
