(* ===== verification/Lease.thy ===== *)
theory Lease
  imports Prelude
begin

text \<open>
  What the work queues of the program share.  Durable jobs, inbound events, domain events and
  notification deliveries are rows that a worker claims for a limited time: a claim takes rows nobody
  holds, or whose lease ran out, and dates the new lease; every other operation leaves the lease of a row
  it does not own alone.  The locale states that contract, \<^verbatim>\<open>lease_run\<close> runs a sequence of operations
  and \<^verbatim>\<open>exclusive\<close> is the consequence the program relies on.
\<close>

fun lease_run :: "('c \<Rightarrow> 's \<Rightarrow> 's \<times> 'k set) \<Rightarrow> 's \<Rightarrow> 'c list \<Rightarrow> 's \<times> ('c \<times> 'k set) list" where
  "lease_run step s [] = (s, [])"
| "lease_run step s (c # cs) =
     (case step c s of (s', taken) \<Rightarrow>
        (case lease_run step s' cs of (t, log) \<Rightarrow> (t, (c, taken) # log)))"

text \<open>A run in which nobody acts on the row \<^verbatim>\<open>k\<close> under its lease, and which is over before \<^verbatim>\<open>e\<close>.\<close>

fun undisturbed :: "('c \<Rightarrow> 's \<Rightarrow> 's \<times> 'k set) \<Rightarrow> ('c \<Rightarrow> time) \<Rightarrow> ('c \<Rightarrow> 'k \<Rightarrow> 's \<Rightarrow> bool) \<Rightarrow> 'k \<Rightarrow> time \<Rightarrow> 's \<Rightarrow> 'c list \<Rightarrow> bool" where
  "undisturbed step at releases k e s [] = True"
| "undisturbed step at releases k e s (c # cs) =
     (at c < e \<and> \<not> releases c k s \<and> undisturbed step at releases k e (fst (step c s)) cs)"

locale lease_queue =
  fixes ok :: "'s \<Rightarrow> bool"
    and lease_end :: "'s \<Rightarrow> 'k \<Rightarrow> time option"
    and step :: "'c \<Rightarrow> 's \<Rightarrow> 's \<times> 'k set"
    and at :: "'c \<Rightarrow> time"
    and until :: "'c \<Rightarrow> time"
    and releases :: "'c \<Rightarrow> 'k \<Rightarrow> 's \<Rightarrow> bool"
  assumes ok_step: "ok s \<Longrightarrow> ok (fst (step c s))"
    and taken_free: "ok s \<Longrightarrow> k \<in> snd (step c s) \<Longrightarrow> lease_end s k = Some e \<Longrightarrow> e \<le> at c"
    and taken_held: "ok s \<Longrightarrow> k \<in> snd (step c s) \<Longrightarrow> lease_end (fst (step c s)) k = Some (until c)"
    and kept: "ok s \<Longrightarrow> lease_end s k = Some e \<Longrightarrow> at c < e \<Longrightarrow> \<not> releases c k s
       \<Longrightarrow> lease_end (fst (step c s)) k = Some e"
begin

lemma ok_run: "ok s \<Longrightarrow> ok (fst (lease_run step s cs))"
  by (induction cs arbitrary: s) (auto simp: split_beta intro: ok_step)

lemma exclusive:
  assumes "ok s" "lease_end s k = Some e" "undisturbed step at releases k e s cs"
  shows "lease_end (fst (lease_run step s cs)) k = Some e
    \<and> (\<forall>(c, taken) \<in> set (snd (lease_run step s cs)). k \<notin> taken)"
  using assms
proof (induction cs arbitrary: s)
  case (Cons c cs)
  then have c: "at c < e" "\<not> releases c k s" "undisturbed step at releases k e (fst (step c s)) cs" by simp_all
  have "k \<notin> snd (step c s)" using taken_free [of s k c e] Cons.prems c by fastforce
  moreover have "lease_end (fst (step c s)) k = Some e" using kept Cons.prems c by blast
  ultimately show ?case
    using Cons.IH [of "fst (step c s)"] ok_step [of s c] Cons.prems c by (auto simp: split_beta)
qed simp

lemma claim_exclusive:
  assumes "ok s" "k \<in> snd (step c s)"
    and "undisturbed step at releases k (until c) (fst (step c s)) cs"
  shows "\<forall>(d, taken) \<in> set (snd (lease_run step (fst (step c s)) cs)). k \<notin> taken"
  using exclusive [of "fst (step c s)" k "until c" cs] ok_step taken_held assms by blast

end

end
