(* ===== verification/Jobs.thy ===== *)
theory Jobs
  imports Json Base64 Lease
begin

text \<open>
  The durable job queue: src/api/internal/postgres/jobs.go on the types of src/api/internal/job/model.go,
  with the constraints of the migration 000007, the snapshot check of
  src/api/internal/postgres/review_exports.go and the request checks of
  src/api/internal/httpapi/job_routes.go.  SHA-256 is the parameter \<^verbatim>\<open>hash\<close>, the bytes a call draws from
  \<^verbatim>\<open>crypto/rand\<close> are \<^verbatim>\<open>rnd\<close> (\<^verbatim>\<open>None\<close> when the read fails), \<^verbatim>\<open>parse_time\<close> reads an RFC 3339 timestamp, and
  \<^verbatim>\<open>dbnow\<close> is the server's \<^verbatim>\<open>now()\<close>.
\<close>

unbundle bit_operations_syntax

section \<open>Types of package job\<close>

definition Export :: string where "Export = ''export''"
definition OCR :: string where "OCR = ''ocr''"

abbreviation Queued :: string where "Queued \<equiv> ''Queued''"
abbreviation Running :: string where "Running \<equiv> ''Running''"
abbreviation Completed :: string where "Completed \<equiv> ''Completed''"
abbreviation Failed :: string where "Failed \<equiv> ''Failed''"
abbreviation Cancelled :: string where "Cancelled \<equiv> ''Cancelled''"

record job =
  jb_id :: id
  jb_org :: id
  jb_requester :: string
  jb_kind :: string
  jb_status :: string
  jb_payload :: json
  jb_attempt_id :: string
  jb_attempt_count :: nat
  jb_created_at :: time

record claim_command =
  cc_worker :: string
  cc_environment :: string
  cc_kinds :: "string list"
  cc_limit :: int
  cc_lease :: duration
  cc_now :: time

record claimed =
  cl_job :: job
  cl_token :: string
  cl_expires :: time

record lease_command =
  lm_job :: id
  lm_attempt :: string
  lm_token :: string
  lm_now :: time

record failure_command = lease_command +
  fc_code :: string
  fc_retry_after :: duration

record complete_command = lease_command +
  ce_format :: string
  ce_rows :: int
  ce_bytes :: int
  ce_sha256 :: string
  ce_object_key :: string
  ce_expires_at :: time

record export_artifact =
  ea_job :: id
  ea_org :: id
  ea_object_key :: string
  ea_format :: string
  ea_sha256 :: string
  ea_product :: string
  ea_rows :: int
  ea_bytes :: int
  ea_expires_at :: time

text \<open>\<^verbatim>\<open>time.Time{}\<close>, the first instant of the year 1.\<close>

definition zero_time :: time where "zero_time = - 62135596800 * Second"

section \<open>Random values\<close>

definition leaseHash :: "(bytes \<Rightarrow> bytes) \<Rightarrow> string \<Rightarrow> bytes" where "leaseHash hash token = hash token"

definition set_bits_of :: "8 word \<Rightarrow> 8 word \<Rightarrow> char \<Rightarrow> char" where
  "set_bits_of keep fixed c = byte_char (unat (((of_nat (byte c) :: 8 word) AND keep) OR fixed))"

definition randomUUID :: "bytes option \<Rightarrow> string result" where
  "randomUUID rnd =
     (case rnd of
        None \<Rightarrow> Inl (OtherError ''rand'')
      | Some bs \<Rightarrow>
          let v = bs[6 := set_bits_of 0x0f 0x40 (bs ! 6)];
              value = v[8 := set_bits_of 0x3f 0x80 (v ! 8)];
              encoded = hex_encode value
          in Inr (take 8 encoded @ ''-'' @ take 4 (drop 8 encoded) @ ''-'' @ take 4 (drop 12 encoded)
                  @ ''-'' @ take 4 (drop 16 encoded) @ ''-'' @ take 12 (drop 20 encoded)))"

definition randomLeaseToken :: "(bytes \<Rightarrow> bytes) \<Rightarrow> bytes option \<Rightarrow> (string \<times> bytes) result" where
  "randomLeaseToken hash rnd =
     (case rnd of
        None \<Rightarrow> Inl (OtherError ''rand'')
      | Some value \<Rightarrow> (let token = EncodeToString value in Inr (token, hash token)))"

definition retryJitter :: "bytes option \<Rightarrow> duration" where
  "retryJitter rnd =
     (case rnd of
        None \<Rightarrow> 0
      | Some value \<Rightarrow> int ((byte (value ! 0) * 256 + byte (value ! 1)) mod 1000) * Millisecond)"

definition boolInt :: "bool \<Rightarrow> nat" where "boolInt b = (if b then 1 else 0)"

section \<open>The table\<close>

text \<open>The CHECK constraints of \<^verbatim>\<open>durable_jobs\<close>.\<close>

definition job_check :: "job_row \<Rightarrow> bool" where
  "job_check j =
     (j_kind j \<in> {Export, OCR}
      \<and> j_status j \<in> {Queued, Running, Completed, Failed, Cancelled}
      \<and> is_object (j_payload j)
      \<and> (case j_result j of None \<Rightarrow> True | Some r \<Rightarrow> is_object r)
      \<and> 1 \<le> rune_count (j_key j) \<and> rune_count (j_key j) \<le> 200
      \<and> j_attempts j \<le> 5 \<and> 1 \<le> j_max_attempts j \<and> j_max_attempts j \<le> 5
      \<and> (case j_lease_hash j of None \<Rightarrow> True | Some h \<Rightarrow> length h = 32)
      \<and> (j_status j = Running) = (j_current_attempt j \<noteq> None \<and> j_lease_hash j \<noteq> None \<and> j_lease j \<noteq> None \<and> j_worker j \<noteq> None)
      \<and> (j_status j = Completed) = (j_completed_at j \<noteq> None)
      \<and> (j_status j = Failed) = (j_failed_at j \<noteq> None)
      \<and> (j_status j = Cancelled) = (j_cancelled_at j \<noteq> None))"

definition update_jobs :: "(job_row \<Rightarrow> bool) \<Rightarrow> (job_row \<Rightarrow> job_row) \<Rightarrow> (nat, store) txn" where
  "update_jobs P f s =
     (if list_ex (\<lambda>j. P j \<and> \<not> job_check (f j)) (durable_jobs s) then Inl (CheckViolation ''durable_jobs'')
      else Inr (rows_affected P (durable_jobs s), s\<lparr>durable_jobs := sql_update P f (durable_jobs s)\<rparr>))"

definition clear_lease :: "job_row \<Rightarrow> job_row" where
  "clear_lease j = j\<lparr>j_current_attempt := None, j_lease_hash := None, j_lease := None, j_worker := None\<rparr>"

definition job_audit :: "id \<Rightarrow> string \<Rightarrow> id \<Rightarrow> string \<Rightarrow> string option \<Rightarrow> json \<Rightarrow> time \<Rightarrow> audit_row" where
  "job_audit org event target outcome reason metadata now =
     \<lparr>au_org = Some org, au_actor = None, au_type = event, au_target_type = ''durable_job'', au_target_id = target,
      au_request = None, au_outcome = outcome, au_reason = reason, au_metadata = metadata, au_at = now\<rparr>"

section \<open>ClaimJobs\<close>

text \<open>Running jobs whose lease ran out on their last attempt fail, with their legacy export job.\<close>

definition exhausted :: "time \<Rightarrow> job_row \<Rightarrow> bool" where
  "exhausted now j =
     (j_status j = Running \<and> (case j_lease j of None \<Rightarrow> False | Some e \<Rightarrow> e \<le> now) \<and> j_max_attempts j \<le> j_attempts j)"

definition fail_exhausted :: "time \<Rightarrow> (unit, store) txn" where
  "fail_exhausted now s =
     (let gone = filter (exhausted now) (durable_jobs s) in
      case update_jobs (exhausted now)
             (\<lambda>j. (clear_lease j)\<lparr>j_status := Failed, j_failed_at := Some now, j_failure_code := Some ''attempts_exhausted''\<rparr>) s of
        Inl e \<Rightarrow> Inl e
      | Inr (_, s') \<Rightarrow>
          Inr ((), s'\<lparr>export_jobs := sql_update (\<lambda>e. Some (ej_id e) \<in> set (map j_legacy gone))
                       (\<lambda>e. e\<lparr>ej_status := Failed, ej_failed_at := Some now, ej_failure_code := Some ''attempts_exhausted''\<rparr>)
                       (export_jobs s'),
                     audit_events := audit_events s' @
                       map (\<lambda>j. job_audit (j_org j) ''job.failed'' (j_id j) ''failed'' (Some ''attempts_exhausted'') (JObject []) now) gone\<rparr>))"

text \<open>\<^verbatim>\<open>ORDER BY available_at, created_at, id\<close>.\<close>

datatype claim_key = ClaimKey (ck_available: time) (ck_created: time) (ck_id: id)

instantiation claim_key :: linorder
begin

definition less_eq_claim_key :: "claim_key \<Rightarrow> claim_key \<Rightarrow> bool" where
  "a \<le> b \<longleftrightarrow> ck_available a < ck_available b \<or> ck_available a = ck_available b
     \<and> (ck_created a < ck_created b \<or> ck_created a = ck_created b \<and> ck_id a \<le> ck_id b)"

definition less_claim_key :: "claim_key \<Rightarrow> claim_key \<Rightarrow> bool" where
  "(a :: claim_key) < b \<longleftrightarrow> a \<le> b \<and> \<not> b \<le> a"

instance
  by intro_classes (auto simp: less_eq_claim_key_def less_claim_key_def claim_key.expand)

end

definition claim_key :: "job_row \<Rightarrow> claim_key" where
  "claim_key j = ClaimKey (j_available_at j) (j_created_at j) (j_id j)"

definition claimable :: "string list \<Rightarrow> time \<Rightarrow> job_row \<Rightarrow> bool" where
  "claimable kinds now j =
     (j_kind j \<in> set kinds \<and> j_attempts j < j_max_attempts j
      \<and> (j_status j = Queued \<and> j_available_at j \<le> now
         \<or> j_status j = Running \<and> (case j_lease j of None \<Rightarrow> False | Some e \<Rightarrow> e \<le> now)))"

definition claim_candidates :: "string list \<Rightarrow> time \<Rightarrow> int \<Rightarrow> store \<Rightarrow> (job \<times> bool) list" where
  "claim_candidates kinds now limit s =
     map (\<lambda>j. (\<lparr>jb_id = j_id j, jb_org = j_org j, jb_requester = (case j_requester j of None \<Rightarrow> [] | Some u \<Rightarrow> u),
                jb_kind = j_kind j, jb_status = [], jb_payload = j_payload j, jb_attempt_id = [],
                jb_attempt_count = j_attempts j, jb_created_at = j_created_at j\<rparr>, j_status j = Running))
       (take (nat limit) (sort_key claim_key (filter (claimable kinds now) (durable_jobs s))))"

definition claim_one ::
  "(bytes \<Rightarrow> bytes) \<Rightarrow> claim_command \<Rightarrow> time \<Rightarrow> bytes option \<Rightarrow> bytes option \<Rightarrow> job \<times> bool \<Rightarrow> (claimed, store) txn" where
  "claim_one hash c now rnd1 rnd2 cand s =
     (let (j, stale) = cand in
      case randomUUID rnd1 of
        Inl e \<Rightarrow> Inl e
      | Inr attempt \<Rightarrow>
      case randomLeaseToken hash rnd2 of
        Inl e \<Rightarrow> Inl e
      | Inr (token, lease_hash) \<Rightarrow>
          let expires = now + cc_lease c in
          case update_jobs (\<lambda>r. j_id r = jb_id j \<and> j_org r = jb_org j)
                 (\<lambda>r. r\<lparr>j_status := Running, j_attempts := j_attempts r + 1, j_current_attempt := Some attempt,
                        j_lease_hash := Some lease_hash, j_lease := Some expires, j_worker := Some (cc_worker c),
                        j_started_at := (case j_started_at r of None \<Rightarrow> Some now | Some t \<Rightarrow> Some t),
                        j_stale_reclaims := j_stale_reclaims r + boolInt stale\<rparr>) s of
            Inl _ \<Rightarrow> Inl (OtherError ''job claim update failed'')
          | Inr (affected, s') \<Rightarrow>
              if affected \<noteq> 1 then Inl (OtherError ''job claim update failed'')
              else
                let j' = j\<lparr>jb_status := Running, jb_attempt_id := attempt, jb_attempt_count := jb_attempt_count j + 1\<rparr>
                in Inr (\<lparr>cl_job = j', cl_token = token, cl_expires = expires\<rparr>,
                     s'\<lparr>audit_events := audit_events s' @
                       [job_audit (jb_org j) (if stale then ''job.reclaimed'' else ''job.claimed'') (jb_id j) ''succeeded'' None
                          (JObject [(''attempt_count'', JNumber (int (jb_attempt_count j'))), (''attempt_id'', JString attempt),
                                    (''worker_id'', JString (cc_worker c))]) now]\<rparr>))"

fun claim_each ::
  "(bytes \<Rightarrow> bytes) \<Rightarrow> claim_command \<Rightarrow> time \<Rightarrow> (nat \<Rightarrow> bytes option) \<Rightarrow> nat \<Rightarrow> (job \<times> bool) list \<Rightarrow> (claimed list, store) txn" where
  "claim_each hash c now rnd i [] s = Inr ([], s)"
| "claim_each hash c now rnd i (cand # cands) s =
     (case claim_one hash c now (rnd (2 * i)) (rnd (2 * i + 1)) cand s of
        Inl e \<Rightarrow> Inl e
      | Inr (cl, s') \<Rightarrow>
          (case claim_each hash c now rnd (Suc i) cands s' of
             Inl e \<Rightarrow> Inl e
           | Inr (cls, s'') \<Rightarrow> Inr (cl # cls, s'')))"

definition record_worker :: "claim_command \<Rightarrow> time \<Rightarrow> store \<Rightarrow> store" where
  "record_worker c now s =
     (if row_exists (\<lambda>w. jh_worker w = cc_worker c) (durable_job_worker_heartbeats s)
      then s\<lparr>durable_job_worker_heartbeats := sql_update (\<lambda>w. jh_worker w = cc_worker c)
               (\<lambda>w. w\<lparr>jh_at := now, jh_environment := cc_environment c, jh_kinds := cc_kinds c\<rparr>)
               (durable_job_worker_heartbeats s)\<rparr>
      else s\<lparr>durable_job_worker_heartbeats := durable_job_worker_heartbeats s @
               [\<lparr>jh_worker = cc_worker c, jh_at = now, jh_environment = cc_environment c, jh_kinds = cc_kinds c\<rparr>]\<rparr>)"

definition claim_now :: "time \<Rightarrow> claim_command \<Rightarrow> time" where
  "claim_now clock c = (if cc_now c = zero_time then clock else cc_now c)"

definition ClaimJobs ::
  "(bytes \<Rightarrow> bytes) \<Rightarrow> (nat \<Rightarrow> bytes option) \<Rightarrow> time \<Rightarrow> claim_command \<Rightarrow> (claimed list, store) txn" where
  "ClaimJobs hash rnd clock c s =
     (if cc_worker c = [] \<or> cc_limit c < 1 \<or> cc_limit c > 10 \<or> cc_lease c \<le> 0 \<or> cc_kinds c = []
      then Inl (OtherError ''invalid job claim'')
      else
        let now = claim_now clock c in
        case fail_exhausted now s of
          Inl e \<Rightarrow> Inl e
        | Inr (_, s1) \<Rightarrow>
            (case claim_each hash c now rnd 0 (claim_candidates (cc_kinds c) now (cc_limit c) s1) s1 of
               Inl e \<Rightarrow> Inl e
             | Inr (cls, s2) \<Rightarrow> Inr (cls, record_worker c now s2)))"

section \<open>HeartbeatJob\<close>

text \<open>The job a lease command names, if its lease is the current one and has not run out.\<close>

definition lease_held :: "(bytes \<Rightarrow> bytes) \<Rightarrow> 'a lease_command_scheme \<Rightarrow> job_row \<Rightarrow> bool" where
  "lease_held hash c j =
     (j_id j = lm_job c \<and> j_status j = Running \<and> j_current_attempt j = Some (lm_attempt c)
      \<and> j_lease_hash j = Some (leaseHash hash (lm_token c))
      \<and> (case j_lease j of None \<Rightarrow> False | Some e \<Rightarrow> lm_now c < e))"

definition HeartbeatJob :: "(bytes \<Rightarrow> bytes) \<Rightarrow> lease_command \<Rightarrow> duration \<Rightarrow> (time, store) txn" where
  "HeartbeatJob hash c lease s =
     (let expires = lm_now c + lease in
      case update_jobs (lease_held hash c) (\<lambda>j. j\<lparr>j_lease := Some expires\<rparr>) s of
        Inl e \<Rightarrow> Inl e
      | Inr (affected, s') \<Rightarrow> if affected \<noteq> 1 then Inl Job_ErrLeaseLost else Inr (expires, s'))"

section \<open>FailJob\<close>

definition transient :: "string \<Rightarrow> bool" where
  "transient code = (code = ''temporary_upstream'' \<or> code = ''rate_limited'' \<or> code = ''artifact_upload_failed'')"

definition backoff :: "bytes option \<Rightarrow> nat \<Rightarrow> duration \<Rightarrow> duration" where
  "backoff rnd attempts retry_after =
     (let b = 2 ^ min attempts 8 * Second + retryJitter rnd in if retry_after > b then retry_after else b)"

definition FailJob :: "(bytes \<Rightarrow> bytes) \<Rightarrow> bytes option \<Rightarrow> failure_command \<Rightarrow> (unit, store) txn" where
  "FailJob hash rnd c s =
     (case query_row (lease_held hash c) (durable_jobs s) of
        None \<Rightarrow> Inl Job_ErrLeaseLost
      | Some j \<Rightarrow>
          let retry = (transient (fc_code c) \<and> j_attempts j < j_max_attempts j);
              status = (if retry then Queued else Failed);
              available = (if retry then lm_now c + backoff rnd (j_attempts j) (fc_retry_after c) else lm_now c)
          in case update_jobs (\<lambda>r. j_id r = lm_job c)
                    (\<lambda>r. (clear_lease r)\<lparr>j_status := status, j_available_at := available, j_failure_code := Some (fc_code c),
                           j_failed_at := (if status = Failed then Some (lm_now c) else None)\<rparr>) s of
               Inl e \<Rightarrow> Inl e
             | Inr (_, s1) \<Rightarrow>
                 let legacy = (case query_row (\<lambda>r. j_id r = lm_job c) (durable_jobs s1) of None \<Rightarrow> None | Some r \<Rightarrow> j_legacy r);
                     s2 = (if status = Failed
                           then s1\<lparr>export_jobs := sql_update (\<lambda>e. Some (ej_id e) = legacy)
                                     (\<lambda>e. e\<lparr>ej_status := Failed, ej_failure_code := Some (fc_code c), ej_failed_at := Some (lm_now c)\<rparr>)
                                     (export_jobs s1)\<rparr>
                           else s1)
                 in Inr ((), s2\<lparr>audit_events := audit_events s2 @
                      [job_audit (j_org j) (if status = Queued then ''job.retry_scheduled'' else ''job.failed'') (lm_job c)
                         (ascii_lower status) (Some (fc_code c))
                         (JObject [(''attempt_id'', JString (lm_attempt c)), (''retry'', JBool (status = Queued))]) (lm_now c)]\<rparr>))"

section \<open>Export payloads\<close>

record task_filter =
  tf_status :: string
  tf_priority :: string
  tf_assignee :: string
  tf_creator :: string
  tf_due_from :: string
  tf_due_to :: string
  tf_created_from :: string
  tf_created_to :: string
  tf_overdue :: "bool option"
  tf_cursor :: string
  tf_limit :: int

record export_payload =
  ep_export_type :: string
  ep_format :: string
  ep_filters :: task_filter
  ep_row_count :: int
  ep_data_as_of :: time

definition no_filter :: task_filter where
  "no_filter = \<lparr>tf_status = [], tf_priority = [], tf_assignee = [], tf_creator = [], tf_due_from = [], tf_due_to = [],
     tf_created_from = [], tf_created_to = [], tf_overdue = None, tf_cursor = [], tf_limit = 0\<rparr>"

fun decode_filter :: "json \<Rightarrow> task_filter option" where
  "decode_filter (JObject fs) =
     (let j = JObject fs in
      case (string_field ''Status'' j, string_field ''Priority'' j, string_field ''AssigneeUserID'' j, string_field ''CreatorUserID'' j) of
        (Some status, Some priority, Some assignee, Some creator) \<Rightarrow>
          (case (string_field ''DueFrom'' j, string_field ''DueTo'' j, string_field ''CreatedFrom'' j, string_field ''CreatedTo'' j) of
             (Some due_from, Some due_to, Some created_from, Some created_to) \<Rightarrow>
               (case (decode_field (\<lambda>v. map_option Some (bool_of_json v)) None ''Overdue'' j, string_field ''Cursor'' j, int_field ''Limit'' j) of
                  (Some overdue, Some cursor, Some limit) \<Rightarrow>
                    Some \<lparr>tf_status = status, tf_priority = priority, tf_assignee = assignee, tf_creator = creator,
                          tf_due_from = due_from, tf_due_to = due_to, tf_created_from = created_from,
                          tf_created_to = created_to, tf_overdue = overdue, tf_cursor = cursor, tf_limit = limit\<rparr>
                | _ \<Rightarrow> None)
           | _ \<Rightarrow> None)
      | _ \<Rightarrow> None)"
| "decode_filter _ = None"

definition decode_payload :: "(string \<Rightarrow> time option) \<Rightarrow> json \<Rightarrow> export_payload option" where
  "decode_payload parse_time j =
     (if \<not> is_object j then None
      else case (string_field ''export_type'' j, string_field ''format'' j, decode_field decode_filter no_filter ''filters'' j,
                 int_field ''row_count'' j,
                 decode_field (\<lambda>v. case string_of_json v of None \<Rightarrow> None | Some t \<Rightarrow> parse_time t) zero_time ''data_as_of'' j) of
        (Some export_type, Some fmt, Some filters, Some rows, Some as_of) \<Rightarrow>
          Some \<lparr>ep_export_type = export_type, ep_format = fmt, ep_filters = filters, ep_row_count = rows, ep_data_as_of = as_of\<rparr>
      | _ \<Rightarrow> None)"

definition document_product :: "string \<Rightarrow> bool" where
  "document_product t = (t = ''raw_documents'' \<or> t = ''confirmed_values'' \<or> t = ''approved_suggestions'')"

section \<open>The snapshot of a document export\<close>

definition newer_draft :: "store \<Rightarrow> review_row \<Rightarrow> bool" where
  "newer_draft s e =
     row_exists (\<lambda>d. rd_org d = er_org e \<and> rd_document d = er_document e \<and> rd_revision d > er_draft_revision e)
       (document_review_drafts s)"

definition snapshot_join ::
  "store \<Rightarrow> snapshot_row \<Rightarrow> (((((snapshot_row \<times> snapshot_entry_row option) \<times> document_row option) \<times> review_row option)
     \<times> ocr_run_row option) \<times> suggestion_row option) list" where
  "snapshot_join s snap =
     (let j1 = left_join (\<lambda>n r. sr_job r = sn_job n \<and> sr_org r = sn_org n) [snap] (document_export_snapshot_rows s);
          j2 = left_join (\<lambda>(n, r) d. case r of None \<Rightarrow> False | Some r \<Rightarrow>
                  d_org d = sr_org r \<and> d_id d = sr_document r \<and> d_updated_at d = sr_document_updated_at r \<and> d_status d = sn_status n)
                 j1 (documents s);
          j3 = left_join (\<lambda>((n, r), d) e. case r of None \<Rightarrow> False | Some r \<Rightarrow>
                  er_org e = sr_org r \<and> Some (er_id e) = sr_review r \<and> er_document e = sr_document r
                  \<and> er_superseded_at e = None \<and> \<not> newer_draft s e)
                 j2 (document_extraction_reviews s);
          j4 = left_join (\<lambda>(((n, r), d), e) q. case e of None \<Rightarrow> False | Some e \<Rightarrow>
                  or_job q = er_ocr_job e \<and> or_org q = er_org e \<and> or_document q = er_document e
                  \<and> or_published_at q \<noteq> None \<and> or_superseded_at q = None \<and> or_deleted_at q = None)
                 j3 (document_ocr_runs s)
      in left_join (\<lambda>((((n, r), d), e), q) a. case (r, e) of (Some r, Some e) \<Rightarrow>
                  sg_org a = sr_org r \<and> Some (sg_id a) = sr_approval r \<and> sg_document a = sr_document r
                  \<and> sg_review a = er_id e \<and> sg_review_revision a = er_revision e \<and> sg_superseded_at a = None
                | _ \<Rightarrow> False)
           j4 (accounting_suggestions s))"

definition validDocumentExportSnapshot :: "id \<Rightarrow> id \<Rightarrow> store \<Rightarrow> bool" where
  "validDocumentExportSnapshot jobID org s =
     (case query_row (\<lambda>n. sn_job n = jobID \<and> sn_org n = org) (document_export_snapshots s) of
        None \<Rightarrow> False
      | Some snap \<Rightarrow>
          let joined = snapshot_join s snap;
              found = length (filter (\<lambda>(((((n, r), d), e), q), a). r \<noteq> None) joined);
              valid = length (filter (\<lambda>(((((n, r), d), e), q), a). r \<noteq> None \<and> d \<noteq> None
                        \<and> (sn_product snap = ''raw_documents''
                           \<or> e \<noteq> None \<and> q \<noteq> None \<and> (sn_product snap = ''confirmed_values'' \<or> a \<noteq> None))) joined)
          in sn_row_count snap = int found \<and> found = valid)"

section \<open>CompleteExport\<close>

definition artifact_of :: "artifact_row \<Rightarrow> string \<Rightarrow> export_artifact" where
  "artifact_of a product =
     \<lparr>ea_job = ja_job a, ea_org = ja_org a, ea_object_key = ja_object_key a, ea_format = ja_format a,
      ea_sha256 = hex_encode (ja_sha256 a), ea_product = product, ea_rows = ja_rows a, ea_bytes = ja_bytes a,
      ea_expires_at = ja_expires_at a\<rparr>"

definition artifactByJob :: "id \<Rightarrow> store \<Rightarrow> export_artifact result" where
  "artifactByJob jobID s =
     (case query_row (\<lambda>a. ja_job a = jobID) (durable_job_artifacts s) of
        None \<Rightarrow> Inl ErrNoRows | Some a \<Rightarrow> Inr (artifact_of a []))"

definition insert_artifact :: "artifact_row \<Rightarrow> (unit, store) txn" where
  "insert_artifact a s =
     (if \<not> (ja_format a \<in> {''csv'', ''xlsx''} \<and> ja_rows a \<ge> 0 \<and> ja_bytes a \<ge> 0 \<and> length (ja_sha256 a) = 32
            \<and> ja_expires_at a > ja_created_at a)
      then Inl (CheckViolation ''durable_job_artifacts'')
      else if row_exists (\<lambda>r. ja_job r = ja_job a) (durable_job_artifacts s) then Inl (UniqueViolation ''durable_job_artifacts_pkey'')
      else if row_exists (\<lambda>r. ja_object_key r = ja_object_key a) (durable_job_artifacts s)
      then Inl (UniqueViolation ''durable_job_artifacts_object_key_key'')
      else Inr ((), s\<lparr>durable_job_artifacts := durable_job_artifacts s @ [a]\<rparr>))"

definition completion :: "complete_command \<Rightarrow> json" where
  "completion c = JObject [(''attempt_id'', JString (lm_attempt c)), (''byte_count'', JNumber (ce_bytes c)),
                           (''format'', JString (ce_format c)), (''row_count'', JNumber (ce_rows c))]"

definition metadata_mismatch :: "complete_command \<Rightarrow> export_payload option \<Rightarrow> bool" where
  "metadata_mismatch c payload =
     (let maxBytes = (if ce_format c = ''xlsx'' then 128 * 2 ^ 20 else 256 * 2 ^ 20) in
      case payload of
        None \<Rightarrow> True
      | Some p \<Rightarrow>
          ep_format p \<noteq> ce_format c \<or> ce_rows c > ep_row_count p
          \<or> document_product (ep_export_type p) \<and> ce_rows c \<noteq> ep_row_count p
          \<or> ce_bytes c < 1 \<or> ce_bytes c > maxBytes \<or> ce_expires_at c - lm_now c > 24 * Hour + Minute)"

definition CompleteExport ::
  "(bytes \<Rightarrow> bytes) \<Rightarrow> (string \<Rightarrow> time option) \<Rightarrow> complete_command \<Rightarrow> (export_artifact, store) txn" where
  "CompleteExport hash parse_time c s =
     (case query_row (\<lambda>j. j_id j = lm_job c) (durable_jobs s) of
        None \<Rightarrow> Inl Job_ErrLeaseLost
      | Some j \<Rightarrow>
          if j_status j = Completed then
            (let attempt = (case j_result j of None \<Rightarrow> [] | Some r \<Rightarrow> (case string_field ''attempt_id'' r of None \<Rightarrow> [] | Some a \<Rightarrow> a))
             in if attempt \<noteq> lm_attempt c then Inl Job_ErrLeaseLost
                else case artifactByJob (lm_job c) s of Inl e \<Rightarrow> Inl e | Inr a \<Rightarrow> Inr (a, s))
          else
            let payload = decode_payload parse_time (j_payload j) in
            if metadata_mismatch c payload then Inl (OtherError ''artifact metadata mismatch'')
            else if document_product (ep_export_type (the payload)) \<and> \<not> validDocumentExportSnapshot (lm_job c) (j_org j) s
            then Inl (OtherError ''document export snapshot changed'')
            else if \<not> lease_held hash c j then Inl Job_ErrLeaseLost
            else case hex_decode (ce_sha256 c) of
              None \<Rightarrow> Inl (OtherError ''invalid artifact hash'')
            | Some h \<Rightarrow>
                if length h \<noteq> 32 then Inl (OtherError ''invalid artifact hash'')
                else
                  case insert_artifact \<lparr>ja_job = lm_job c, ja_org = j_org j, ja_object_key = ce_object_key c, ja_format = ce_format c,
                         ja_rows = ce_rows c, ja_bytes = ce_bytes c, ja_sha256 = h, ja_created_at = lm_now c,
                         ja_expires_at = ce_expires_at c, ja_deleted_at = None\<rparr> s of
                    Inl e \<Rightarrow> Inl e
                  | Inr (_, s1) \<Rightarrow>
                  case update_jobs (\<lambda>r. j_id r = lm_job c)
                         (\<lambda>r. (clear_lease r)\<lparr>j_status := Completed, j_result := Some (completion c), j_completed_at := Some (lm_now c)\<rparr>) s1 of
                    Inl e \<Rightarrow> Inl e
                  | Inr (_, s2) \<Rightarrow>
                      let legacy = (case query_row (\<lambda>r. j_id r = lm_job c) (durable_jobs s2) of None \<Rightarrow> None | Some r \<Rightarrow> j_legacy r);
                          s3 = s2\<lparr>export_jobs := sql_update (\<lambda>e. Some (ej_id e) = legacy)
                                   (\<lambda>e. e\<lparr>ej_status := Completed, ej_bytes := Some (ce_bytes c), ej_completed_at := Some (lm_now c),
                                          ej_object_expires_at := Some (ce_expires_at c)\<rparr>) (export_jobs s2)\<rparr>
                      in Inr (\<lparr>ea_job = lm_job c, ea_org = j_org j, ea_object_key = ce_object_key c, ea_format = ce_format c,
                               ea_sha256 = ce_sha256 c, ea_product = [], ea_rows = ce_rows c, ea_bytes = ce_bytes c,
                               ea_expires_at = ce_expires_at c\<rparr>,
                             s3\<lparr>audit_events := audit_events s3 @
                               [job_audit (j_org j) ''job.completed'' (lm_job c) ''completed'' None (completion c) (lm_now c)]\<rparr>))"

section \<open>Downloads\<close>

definition manager_role :: "role \<Rightarrow> bool" where "manager_role r = (r = Owner \<or> r = Admin)"

definition artifact_visible :: "time \<Rightarrow> id \<Rightarrow> id \<Rightarrow> id \<Rightarrow> artifact_row \<Rightarrow> job_row \<Rightarrow> membership_row \<Rightarrow> bool" where
  "artifact_visible dbnow user org jobID a j m =
     (let export_type = json_text (j_payload j) ''export_type'';
          product = (case export_type of None \<Rightarrow> ''tasks'' | Some t \<Rightarrow> t)
      in j_id j = ja_job a \<and> m_org m = j_org j \<and> m_user m = user
         \<and> ja_job a = jobID \<and> ja_org a = org \<and> ja_deleted_at a = None \<and> ja_expires_at a > dbnow
         \<and> (export_type \<noteq> None \<and> document_product product \<and> manager_role (m_role m)
            \<or> \<not> document_product product \<and> (j_requester j = Some user \<or> manager_role (m_role m))))"

definition AuthorizeExportArtifact :: "time \<Rightarrow> store \<Rightarrow> id \<Rightarrow> id \<Rightarrow> id \<Rightarrow> export_artifact result" where
  "AuthorizeExportArtifact dbnow s user org jobID =
     (case concat (map (\<lambda>a. concat (map (\<lambda>j. map (\<lambda>m. (a, j))
             (filter (artifact_visible dbnow user org jobID a j) (memberships s))) (durable_jobs s))) (durable_job_artifacts s)) of
        [] \<Rightarrow> Inl Work_ErrNotFound
      | (a, j) # _ \<Rightarrow>
          let product = (case json_text (j_payload j) ''export_type'' of None \<Rightarrow> ''tasks'' | Some t \<Rightarrow> t) in
          if document_product product then
            (if \<not> review_enabled s then Inl Work_ErrNotFound
             else if \<not> validDocumentExportSnapshot jobID org s then Inl Work_ErrNotFound
             else Inr (artifact_of a product))
          else Inr (artifact_of a product))"

definition RecordArtifactDownload :: "id \<Rightarrow> id \<Rightarrow> id \<Rightarrow> time \<Rightarrow> (unit, store) txn" where
  "RecordArtifactDownload user org jobID now s =
     Inr ((), s\<lparr>audit_events := audit_events s @
       [\<lparr>au_org = Some org, au_actor = Some user, au_type = ''export.downloaded'', au_target_type = ''durable_job'',
         au_target_id = jobID, au_request = None, au_outcome = ''succeeded'', au_reason = None, au_metadata = JObject [], au_at = now\<rparr>]\<rparr>)"

section \<open>Request checks of the worker routes\<close>

fun valid_kinds :: "string list \<Rightarrow> string list \<Rightarrow> bool" where
  "valid_kinds seen [] = True"
| "valid_kinds seen (k # ks) = (if k \<noteq> Export \<or> k \<in> set seen then False else valid_kinds (k # seen) ks)"

definition validJobKinds :: "string list \<Rightarrow> bool" where
  "validJobKinds kinds = (if kinds = [] \<or> length kinds > 2 then False else valid_kinds [] kinds)"

definition validFailureCode :: "string \<Rightarrow> bool" where
  "validFailureCode code =
     (code \<in> {''temporary_upstream'', ''rate_limited'', ''artifact_upload_failed'', ''invalid_input'',
              ''unauthorized_input'', ''unsupported_format''})"

section \<open>Effect on single rows\<close>

definition job_at :: "store \<Rightarrow> id \<Rightarrow> job_row option" where
  "job_at s k = query_row (\<lambda>j. j_id j = k) (durable_jobs s)"

definition jobs_ok :: "store \<Rightarrow> bool" where
  "jobs_ok s = (unique_on (\<lambda>j. Some (j_id j)) (durable_jobs s) \<and> (\<forall>j \<in> set (durable_jobs s). job_check j))"

lemma jobs_other_tables [simp]:
  "job_at (s\<lparr>audit_events := a\<rparr>) k = job_at s k" "jobs_ok (s\<lparr>audit_events := a\<rparr>) = jobs_ok s"
  "job_at (s\<lparr>export_jobs := x\<rparr>) k = job_at s k" "jobs_ok (s\<lparr>export_jobs := x\<rparr>) = jobs_ok s"
  "job_at (s\<lparr>durable_job_artifacts := r\<rparr>) k = job_at s k" "jobs_ok (s\<lparr>durable_job_artifacts := r\<rparr>) = jobs_ok s"
  "job_at (record_worker c now s) k = job_at s k" "jobs_ok (record_worker c now s) = jobs_ok s"
  by (simp_all add: job_at_def jobs_ok_def record_worker_def)

lemma job_at_SomeD: "job_at s k = Some j \<Longrightarrow> j \<in> set (durable_jobs s) \<and> j_id j = k"
  unfolding job_at_def by (drule query_row_SomeD) simp

lemma job_at_iff: "jobs_ok s \<Longrightarrow> job_at s k = Some j \<longleftrightarrow> j \<in> set (durable_jobs s) \<and> j_id j = k"
  by (simp add: job_at_def jobs_ok_def unique_on_query_row_iff)

lemma job_at_check: "jobs_ok s \<Longrightarrow> job_at s k = Some j \<Longrightarrow> job_check j"
  using job_at_SomeD [of s k j] by (simp add: jobs_ok_def)

lemma clear_lease_simps [simp]:
  "j_id (clear_lease j) = j_id j" "j_org (clear_lease j) = j_org j" "j_status (clear_lease j) = j_status j"
  "j_attempts (clear_lease j) = j_attempts j" "j_max_attempts (clear_lease j) = j_max_attempts j"
  "j_lease (clear_lease j) = None" "j_current_attempt (clear_lease j) = None" "j_legacy (clear_lease j) = j_legacy j"
  by (simp_all add: clear_lease_def)

lemma update_jobs_InrD:
  assumes "update_jobs P f s = Inr (n, s')" "\<And>j. j_id (f j) = j_id j" "jobs_ok s"
  shows "jobs_ok s' \<and> n = rows_affected P (durable_jobs s)
    \<and> s' = s\<lparr>durable_jobs := sql_update P f (durable_jobs s)\<rparr>
    \<and> (\<forall>k. job_at s' k = map_option (\<lambda>j. if P j then f j else j) (job_at s k))"
proof -
  have s': "s' = s\<lparr>durable_jobs := sql_update P f (durable_jobs s)\<rparr>" "n = rows_affected P (durable_jobs s)"
    and check: "\<forall>j \<in> set (durable_jobs s). P j \<longrightarrow> job_check (f j)"
    using assms(1) by (auto simp: update_jobs_def list_ex_iff split: if_splits)
  have "unique_on (\<lambda>j. Some (j_id j)) (sql_update P f (durable_jobs s))"
    using assms(3) by (intro unique_on_update_shrink) (simp_all add: jobs_ok_def assms(2))
  then have "jobs_ok s'" using assms(3) check by (auto simp: jobs_ok_def s' set_sql_update)
  moreover have "job_at s' k = map_option (\<lambda>j. if P j then f j else j) (job_at s k)" for k
    unfolding job_at_def s' by (simp add: query_row_sql_update assms(2))
  ultimately show ?thesis using s' by blast
qed

text \<open>The life of a job: how one committed operation at \<^verbatim>\<open>now\<close> may change its row, and whether a worker
  was handed the job.\<close>

definition claimed_row :: "time \<Rightarrow> string \<Rightarrow> id \<Rightarrow> bytes \<Rightarrow> time \<Rightarrow> nat \<Rightarrow> job_row \<Rightarrow> job_row" where
  "claimed_row expires w a h t n j =
     j\<lparr>j_status := Running, j_attempts := j_attempts j + 1, j_current_attempt := Some a, j_lease_hash := Some h,
       j_lease := Some expires, j_worker := Some w, j_started_at := Some t, j_stale_reclaims := n\<rparr>"

lemma claimed_row_simps [simp]:
  "j_id (claimed_row e w a h t n j) = j_id j" "j_org (claimed_row e w a h t n j) = j_org j"
  "j_status (claimed_row e w a h t n j) = Running" "j_lease (claimed_row e w a h t n j) = Some e"
  "j_attempts (claimed_row e w a h t n j) = j_attempts j + 1" "j_max_attempts (claimed_row e w a h t n j) = j_max_attempts j"
  by (simp_all add: claimed_row_def)

inductive job_transition :: "time \<Rightarrow> bool \<Rightarrow> job_row \<Rightarrow> job_row \<Rightarrow> bool" for now where
  stay: "job_transition now False j j"
| exhaust: "exhausted now j \<Longrightarrow>
    job_transition now False j
      ((clear_lease j)\<lparr>j_status := Failed, j_failed_at := Some now, j_failure_code := Some ''attempts_exhausted''\<rparr>)"
| claim: "claimable kinds now j \<Longrightarrow> 0 < lease \<Longrightarrow>
    job_transition now True j (claimed_row (now + lease) w a h t n j)"
| extend: "j_status j = Running \<Longrightarrow> j_lease j = Some e \<Longrightarrow> now < e \<Longrightarrow>
    job_transition now False j (j\<lparr>j_lease := Some e'\<rparr>)"
| retry: "j_status j = Running \<Longrightarrow> j_lease j = Some e \<Longrightarrow> now < e \<Longrightarrow> j_attempts j < j_max_attempts j \<Longrightarrow> now < a \<Longrightarrow>
    job_transition now False j
      ((clear_lease j)\<lparr>j_status := Queued, j_available_at := a, j_failure_code := Some code, j_failed_at := None\<rparr>)"
| fail: "j_status j = Running \<Longrightarrow> j_lease j = Some e \<Longrightarrow> now < e \<Longrightarrow>
    job_transition now False j
      ((clear_lease j)\<lparr>j_status := Failed, j_available_at := now, j_failure_code := Some code, j_failed_at := Some now\<rparr>)"
| complete: "j_status j = Running \<Longrightarrow> j_lease j = Some e \<Longrightarrow> now < e \<Longrightarrow>
    job_transition now False j
      ((clear_lease j)\<lparr>j_status := Completed, j_result := Some r, j_completed_at := Some now\<rparr>)"

inductive_cases job_transitionE: "job_transition now taken j j'"

definition terminal :: "job_row \<Rightarrow> bool" where
  "terminal j = (j_status j = Completed \<or> j_status j = Failed \<or> j_status j = Cancelled)"

lemma transition_terminal: "job_transition now taken j j' \<Longrightarrow> terminal j \<Longrightarrow> j' = j \<and> \<not> taken"
  by (erule job_transitionE) (auto simp: terminal_def exhausted_def claimable_def)

lemma transition_attempts:
  "job_transition now taken j j' \<Longrightarrow>
     j_max_attempts j' = j_max_attempts j \<and> j_attempts j' = j_attempts j + (if taken then 1 else 0)
     \<and> (taken \<longrightarrow> j_attempts j < j_max_attempts j) \<and> j_id j' = j_id j \<and> j_org j' = j_org j"
  by (erule job_transitionE) (auto simp: claimable_def)

subsection \<open>ClaimJobs\<close>

lemma fail_exhausted_InrD:
  assumes "fail_exhausted now s = Inr (u, s')" "jobs_ok s"
  shows "jobs_ok s' \<and> (\<forall>k. job_at s' k = map_option (\<lambda>j. if exhausted now j
      then (clear_lease j)\<lparr>j_status := Failed, j_failed_at := Some now, j_failure_code := Some ''attempts_exhausted''\<rparr> else j)
      (job_at s k))"
proof -
  let ?f = "\<lambda>j. (clear_lease j)\<lparr>j_status := Failed, j_failed_at := Some now, j_failure_code := Some ''attempts_exhausted''\<rparr>"
  obtain n s1 where u: "update_jobs (exhausted now) ?f s = Inr (n, s1)"
    using assms(1) by (auto simp: fail_exhausted_def Let_def split: sum.splits)
  have id: "j_id (?f j) = j_id j" for j by simp
  have "jobs_ok s1 \<and> (\<forall>k. job_at s1 k = map_option (\<lambda>j. if exhausted now j then ?f j else j) (job_at s k))"
    using update_jobs_InrD [OF u id assms(2)] by blast
  moreover obtain x a where "s' = s1\<lparr>export_jobs := x, audit_events := a\<rparr>"
    using assms(1) u by (auto simp: fail_exhausted_def Let_def)
  ultimately show ?thesis by simp
qed

lemma claim_candidates_set:
  assumes "cand \<in> set (claim_candidates kinds now limit s)"
  obtains j where "j \<in> set (durable_jobs s)" "claimable kinds now j" "jb_id (fst cand) = j_id j" "jb_org (fst cand) = j_org j"
    "jb_attempt_count (fst cand) = j_attempts j" "snd cand = (j_status j = Running)"
proof -
  obtain j where j: "j \<in> set (take (nat limit) (sort_key claim_key (filter (claimable kinds now) (durable_jobs s))))"
    and c: "jb_id (fst cand) = j_id j" "jb_org (fst cand) = j_org j" "jb_attempt_count (fst cand) = j_attempts j"
      "snd cand = (j_status j = Running)"
    using assms by (auto simp: claim_candidates_def)
  have "j \<in> set (sort_key claim_key (filter (claimable kinds now) (durable_jobs s)))"
    using j by (rule in_set_takeD)
  then show ?thesis using that [of j] c by simp
qed

lemma claim_candidates_distinct:
  assumes "jobs_ok s"
  shows "distinct (map (\<lambda>c. jb_id (fst c)) (claim_candidates kinds now limit s))"
proof -
  have "distinct (map j_id (durable_jobs s))" using assms by (simp add: jobs_ok_def unique_on_distinct)
  then have "distinct (map j_id (filter (claimable kinds now) (durable_jobs s)))" by (rule distinct_map_filter)
  then have "distinct (map j_id (sort_key claim_key (filter (claimable kinds now) (durable_jobs s))))"
    by (auto simp: distinct_map)
  then have "distinct (map j_id (take (nat limit) (sort_key claim_key (filter (claimable kinds now) (durable_jobs s)))))"
    by (metis distinct_take take_map)
  then show ?thesis by (simp add: claim_candidates_def comp_def)
qed

lemma claim_one_InrD:
  assumes "claim_one hash c now rnd1 rnd2 cand s = Inr (cl, s')" "jobs_ok s"
  shows "jobs_ok s' \<and> jb_id (cl_job cl) = jb_id (fst cand) \<and> cl_expires cl = now + cc_lease c
    \<and> (\<forall>k. k \<noteq> jb_id (fst cand) \<longrightarrow> job_at s' k = job_at s k)
    \<and> (\<exists>j a h t n. job_at s (jb_id (fst cand)) = Some j \<and> job_at s' (jb_id (fst cand)) =
         Some (claimed_row (now + cc_lease c) (cc_worker c) a h t n j))"
proof -
  obtain jj stale where cand: "cand = (jj, stale)" by (cases cand)
  obtain a where a: "randomUUID rnd1 = Inr a" using assms(1) by (auto simp: claim_one_def cand Let_def split: sum.splits)
  obtain token h where h: "randomLeaseToken hash rnd2 = Inr (token, h)"
    using assms(1) a by (auto simp: claim_one_def cand Let_def split: sum.splits)
  let ?P = "\<lambda>r. j_id r = jb_id jj \<and> j_org r = jb_org jj"
  let ?f = "\<lambda>r. r\<lparr>j_status := Running, j_attempts := j_attempts r + 1, j_current_attempt := Some a,
      j_lease_hash := Some h, j_lease := Some (now + cc_lease c), j_worker := Some (cc_worker c),
      j_started_at := (case j_started_at r of None \<Rightarrow> Some now | Some t \<Rightarrow> Some t),
      j_stale_reclaims := j_stale_reclaims r + boolInt stale\<rparr>"
  obtain n s1 where u: "update_jobs ?P ?f s = Inr (n, s1)"
    using assms(1) a h by (auto simp: claim_one_def cand Let_def split: sum.splits)
  have n: "n = 1" and s': "\<exists>x. s' = s1\<lparr>audit_events := x\<rparr>"
    and cl: "jb_id (cl_job cl) = jb_id jj" "cl_expires cl = now + cc_lease c"
    using assms(1) a h u by (auto simp: claim_one_def cand Let_def split: if_splits)
  have id: "j_id (?f j) = j_id j" for j by simp
  have row: "jobs_ok s1" "n = rows_affected ?P (durable_jobs s)"
    "\<And>k. job_at s1 k = map_option (\<lambda>j. if ?P j then ?f j else j) (job_at s k)"
    using update_jobs_InrD [OF u id assms(2)] by blast+
  have "\<not> (\<forall>r \<in> set (durable_jobs s). \<not> ?P r)" using row(2) n rows_affected_zero_iff [of ?P "durable_jobs s"] by simp
  then obtain j where j: "j \<in> set (durable_jobs s)" "?P j" by blast
  then have at: "job_at s (jb_id jj) = Some j" using assms(2) by (simp add: job_at_iff)
  have other: "job_at s1 k = job_at s k" if "k \<noteq> jb_id jj" for k
  proof (cases "job_at s k")
    case (Some i)
    then have "j_id i = k" using job_at_SomeD by blast
    then show ?thesis using that Some row(3) [of k] by simp
  qed (simp add: row(3))
  obtain t where t: "j_started_at (?f j) = Some t" by (cases "j_started_at j") simp_all
  have "job_at s1 (jb_id jj) = Some (?f j)" using at j(2) row(3) [of "jb_id jj"] by simp
  moreover have "?f j = claimed_row (now + cc_lease c) (cc_worker c) a h t (j_stale_reclaims j + boolInt stale) j"
    using t by (simp add: claimed_row_def)
  ultimately have "\<exists>j a h t n. job_at s (jb_id jj) = Some j
      \<and> job_at s1 (jb_id jj) = Some (claimed_row (now + cc_lease c) (cc_worker c) a h t n j)"
    using at by metis
  moreover have "job_at s' k = job_at s1 k" "jobs_ok s' = jobs_ok s1" for k using s' by auto
  ultimately show ?thesis using other row(1) cl unfolding cand by simp
qed

lemma claim_each_InrD:
  assumes "claim_each hash c now rnd i cands s = Inr (cls, s')" "jobs_ok s" "distinct (map (\<lambda>c. jb_id (fst c)) cands)"
  shows "jobs_ok s' \<and> map (\<lambda>cl. jb_id (cl_job cl)) cls = map (\<lambda>c. jb_id (fst c)) cands
    \<and> (\<forall>k. k \<notin> (\<lambda>c. jb_id (fst c)) ` set cands \<longrightarrow> job_at s' k = job_at s k)
    \<and> (\<forall>k \<in> (\<lambda>c. jb_id (fst c)) ` set cands. \<exists>j a h t n. job_at s k = Some j \<and> job_at s' k =
         Some (claimed_row (now + cc_lease c) (cc_worker c) a h t n j))"
  using assms
proof (induction cands arbitrary: i s cls)
  case (Cons cand cands)
  obtain cl s1 where one: "claim_one hash c now (rnd (2 * i)) (rnd (2 * i + 1)) cand s = Inr (cl, s1)"
    using Cons.prems(1) by (auto split: sum.splits)
  then obtain cls' where rest: "claim_each hash c now rnd (Suc i) cands s1 = Inr (cls', s')" and cls: "cls = cl # cls'"
    using Cons.prems(1) by (auto split: sum.splits)
  note h = claim_one_InrD [OF one Cons.prems(2)]
  have d: "distinct (map (\<lambda>c. jb_id (fst c)) cands)" "jb_id (fst cand) \<notin> (\<lambda>c. jb_id (fst c)) ` set cands"
    using Cons.prems(3) by simp_all
  note t = Cons.IH [OF rest conjunct1 [OF h] d(1)]
  have "job_at s1 k = job_at s k" if "k \<in> (\<lambda>c. jb_id (fst c)) ` set cands" for k
    using h d(2) that by (metis (no_types, lifting))
  moreover have "job_at s' (jb_id (fst cand)) = job_at s1 (jb_id (fst cand))" using t d(2) by blast
  ultimately show ?case using h t unfolding cls by simp
qed simp

lemma ClaimJobs_row:
  assumes "ClaimJobs hash rnd clock c s = Inr (cls, s')" "jobs_ok s" "job_at s k = Some j"
  shows "jobs_ok s' \<and> (\<exists>j'. job_at s' k = Some j'
    \<and> job_transition (claim_now clock c) (k \<in> (\<lambda>cl. jb_id (cl_job cl)) ` set cls) j j'
    \<and> (k \<in> (\<lambda>cl. jb_id (cl_job cl)) ` set cls \<longrightarrow> j_status j' = Running \<and> j_lease j' = Some (claim_now clock c + cc_lease c))
    \<and> (k \<notin> (\<lambda>cl. jb_id (cl_job cl)) ` set cls \<longrightarrow> \<not> exhausted (claim_now clock c) j \<longrightarrow> j' = j))"
proof -
  let ?now = "claim_now clock c"
  let ?f = "\<lambda>j. (clear_lease j)\<lparr>j_status := Failed, j_failed_at := Some ?now, j_failure_code := Some ''attempts_exhausted''\<rparr>"
  obtain s1 where e: "fail_exhausted ?now s = Inr ((), s1)"
    using assms(1) by (auto simp: ClaimJobs_def Let_def split: if_splits sum.splits)
  let ?cands = "claim_candidates (cc_kinds c) ?now (cc_limit c) s1"
  obtain s2 where each: "claim_each hash c ?now rnd 0 ?cands s1 = Inr (cls, s2)" and s': "s' = record_worker c ?now s2"
    and lease: "0 < cc_lease c"
    using assms(1) e by (auto simp: ClaimJobs_def Let_def split: if_splits sum.splits)
  note f = fail_exhausted_InrD [OF e assms(2)]
  then have ok1: "jobs_ok s1" and at1: "job_at s1 k = Some (if exhausted ?now j then ?f j else j)"
    using assms(3) by auto
  note g = claim_each_InrD [OF each ok1 claim_candidates_distinct [OF ok1]]
  have ids: "(\<lambda>cl. jb_id (cl_job cl)) ` set cls = (\<lambda>c. jb_id (fst c)) ` set ?cands"
    using g by (metis list.set_map)
  show ?thesis
  proof (cases "k \<in> (\<lambda>c. jb_id (fst c)) ` set ?cands")
    case True
    then obtain cand where cand: "cand \<in> set ?cands" "jb_id (fst cand) = k" by blast
    obtain r where r: "r \<in> set (durable_jobs s1)" "claimable (cc_kinds c) ?now r" "j_id r = k"
      using claim_candidates_set [OF cand(1)] cand(2) by metis
    then have "job_at s1 k = Some r" using ok1 by (simp add: job_at_iff)
    then have "r = j" using at1 r(2) by (auto simp: claimable_def split: if_splits)
    moreover obtain j1 a h t n where "job_at s1 k = Some j1" and j2: "job_at s2 k = Some (claimed_row (?now + cc_lease c) (cc_worker c) a h t n j1)"
      using g True by blast
    ultimately have j: "j1 = j" "claimable (cc_kinds c) ?now j" using \<open>job_at s1 k = Some r\<close> r(2) by simp_all
    note tr = job_transition.claim [OF j(2) lease]
    show ?thesis
    proof (intro conjI exI)
      show "jobs_ok s'" using g s' by simp
      show "job_at s' k = Some (claimed_row (?now + cc_lease c) (cc_worker c) a h t n j)"
        using j2 j(1) s' by simp
    qed (use tr ids True in simp_all)
  next
    case False
    then have "job_at s2 k = job_at s1 k" using g by blast
    then show ?thesis using g at1 ids False by (auto simp: s' intro: job_transition.exhaust job_transition.stay)
  qed
qed

subsection \<open>Operations under a lease\<close>

lemma lease_held_unique:
  assumes "jobs_ok s" "lease_held hash c j" "j \<in> set (durable_jobs s)"
  shows "job_at s (lm_job c) = Some j"
  using assms by (simp add: job_at_iff lease_held_def)

lemma HeartbeatJob_row:
  assumes "HeartbeatJob hash c lease s = Inr (t, s')" "jobs_ok s"
  shows "jobs_ok s' \<and> t = lm_now c + lease
    \<and> (\<exists>j. job_at s (lm_job c) = Some j \<and> lease_held hash c j \<and> job_at s' (lm_job c) = Some (j\<lparr>j_lease := Some t\<rparr>))
    \<and> (\<forall>k. k \<noteq> lm_job c \<longrightarrow> job_at s' k = job_at s k)"
proof -
  let ?f = "\<lambda>j. j\<lparr>j_lease := Some (lm_now c + lease)\<rparr>"
  obtain n where u: "update_jobs (lease_held hash c) ?f s = Inr (n, s')" and n: "n = 1" and t: "t = lm_now c + lease"
    using assms(1) by (auto simp: HeartbeatJob_def Let_def split: sum.splits if_splits)
  have id: "j_id (?f j) = j_id j" for j by simp
  have row: "jobs_ok s'" "n = rows_affected (lease_held hash c) (durable_jobs s)"
    "\<And>k. job_at s' k = map_option (\<lambda>j. if lease_held hash c j then ?f j else j) (job_at s k)"
    using update_jobs_InrD [OF u id assms(2)] by blast+
  have "\<not> (\<forall>r \<in> set (durable_jobs s). \<not> lease_held hash c r)"
    using row(2) n rows_affected_zero_iff [of "lease_held hash c" "durable_jobs s"] by simp
  then obtain j where j: "j \<in> set (durable_jobs s)" "lease_held hash c j" by blast
  have at: "job_at s (lm_job c) = Some j" using lease_held_unique assms(2) j by blast
  have "job_at s' k = job_at s k" if "k \<noteq> lm_job c" for k
  proof (cases "job_at s k")
    case (Some i)
    then have "\<not> lease_held hash c i" using that job_at_SomeD by (auto simp: lease_held_def)
    then show ?thesis using Some row(3) [of k] by simp
  qed (simp add: row(3))
  then show ?thesis using row(1) row(3) [of "lm_job c"] at j(2) t by simp
qed

lemma update_by_id:
  assumes "update_jobs (\<lambda>r. j_id r = i) f s = Inr (n, s')" "\<And>j. j_id (f j) = j_id j" "jobs_ok s" "job_at s i = Some j"
  shows "jobs_ok s'" "job_at s' i = Some (f j)" "k \<noteq> i \<Longrightarrow> job_at s' k = job_at s k"
proof -
  have row: "jobs_ok s'" "\<And>k. job_at s' k = map_option (\<lambda>j. if j_id j = i then f j else j) (job_at s k)"
    using update_jobs_InrD [OF assms(1-3)] by blast+
  show "jobs_ok s'" by (rule row)
  show "job_at s' i = Some (f j)" using row(2) [of i] assms(4) job_at_SomeD by fastforce
  assume "k \<noteq> i"
  then show "job_at s' k = job_at s k" using row(2) [of k] job_at_SomeD [of s k] by (cases "job_at s k") auto
qed

definition failed_row :: "bytes option \<Rightarrow> failure_command \<Rightarrow> job_row \<Rightarrow> job_row" where
  "failed_row rnd c j =
     (if transient (fc_code c) \<and> j_attempts j < j_max_attempts j
      then (clear_lease j)\<lparr>j_status := Queued, j_available_at := lm_now c + backoff rnd (j_attempts j) (fc_retry_after c),
             j_failure_code := Some (fc_code c), j_failed_at := None\<rparr>
      else (clear_lease j)\<lparr>j_status := Failed, j_available_at := lm_now c, j_failure_code := Some (fc_code c),
             j_failed_at := Some (lm_now c)\<rparr>)"

lemma FailJob_row:
  assumes "FailJob hash rnd c s = Inr (u, s')" "jobs_ok s"
  shows "jobs_ok s' \<and> (\<exists>j. job_at s (lm_job c) = Some j \<and> lease_held hash c j
           \<and> job_at s' (lm_job c) = Some (failed_row rnd c j))
    \<and> (\<forall>k. k \<noteq> lm_job c \<longrightarrow> job_at s' k = job_at s k)"
proof -
  obtain j where q: "query_row (lease_held hash c) (durable_jobs s) = Some j"
  proof (cases "query_row (lease_held hash c) (durable_jobs s)")
    case None
    then show ?thesis using assms(1) by (simp add: FailJob_def)
  qed
  then have held: "j \<in> set (durable_jobs s)" "lease_held hash c j" using query_row_SomeD [OF q] by simp_all
  then have at: "job_at s (lm_job c) = Some j" using lease_held_unique assms(2) by blast
  define retry where "retry = (transient (fc_code c) \<and> j_attempts j < j_max_attempts j)"
  let ?f = "\<lambda>r. (clear_lease r)\<lparr>j_status := (if retry then Queued else Failed),
     j_available_at := (if retry then lm_now c + backoff rnd (j_attempts j) (fc_retry_after c) else lm_now c),
     j_failure_code := Some (fc_code c),
     j_failed_at := (if (if retry then Queued else Failed) = Failed then Some (lm_now c) else None)\<rparr>"
  note fail = assms(1) [unfolded FailJob_def q option.case Let_def, folded retry_def]
  obtain n s1 where u: "update_jobs (\<lambda>r. j_id r = lm_job c) ?f s = Inr (n, s1)"
    using fail by (cases "update_jobs (\<lambda>r. j_id r = lm_job c) ?f s") (simp, auto)
  have "\<exists>x y. s' = s1\<lparr>export_jobs := x, audit_events := y\<rparr>"
  proof (cases retry)
    case True
    then have "\<exists>y. s' = s1\<lparr>export_jobs := export_jobs s1, audit_events := y\<rparr>" using fail u by auto
    then show ?thesis by blast
  next
    case False
    then show ?thesis using fail u by auto
  qed
  then obtain x y where s': "s' = s1\<lparr>export_jobs := x, audit_events := y\<rparr>" by blast
  have id: "j_id (?f r) = j_id r" for r by simp
  have "?f j = failed_row rnd c j" by (simp add: failed_row_def retry_def)
  then show ?thesis using update_by_id [OF u id assms(2) at] at held(2) s' by auto
qed

lemma retryJitter_bounds: "0 \<le> retryJitter rnd \<and> retryJitter rnd < Second"
proof (cases rnd)
  case (Some v)
  have "int ((byte (v ! 0) * 256 + byte (v ! 1)) mod 1000) < 1000" by simp
  then show ?thesis using Some by (simp add: retryJitter_def duration_defs)
qed (simp add: retryJitter_def duration_defs)

lemma backoff_pos: "0 < backoff rnd n r"
proof -
  have "0 < 2 ^ min n 8 * Second + retryJitter rnd"
    using retryJitter_bounds [of rnd] by (intro add_pos_nonneg) (simp_all add: duration_defs)
  then show ?thesis by (simp add: backoff_def Let_def)
qed

lemma lease_heldD:
  "lease_held hash c j \<Longrightarrow> j_id j = lm_job c \<and> j_status j = Running \<and> (\<exists>e. j_lease j = Some e \<and> lm_now c < e)"
  by (auto simp: lease_held_def split: option.splits)

lemma failed_row_transition:
  assumes "lease_held hash c j" shows "job_transition (lm_now c) False j (failed_row rnd c j)"
proof -
  obtain e where e: "j_status j = Running" "j_lease j = Some e" "lm_now c < e" using lease_heldD [OF assms] by blast
  show ?thesis
  proof (cases "transient (fc_code c) \<and> j_attempts j < j_max_attempts j")
    case True
    then show ?thesis
      using job_transition.retry [OF e] backoff_pos [of rnd "j_attempts j" "fc_retry_after c"] by (simp add: failed_row_def)
  next
    case False
    then show ?thesis using job_transition.fail [OF e] by (auto simp: failed_row_def)
  qed
qed

definition completed_row :: "complete_command \<Rightarrow> job_row \<Rightarrow> job_row" where
  "completed_row c j =
     (clear_lease j)\<lparr>j_status := Completed, j_result := Some (completion c), j_completed_at := Some (lm_now c)\<rparr>"

text \<open>A completion either hands back what the same attempt already completed, or completes the job under
  its current lease and records the artifact.\<close>

lemma insert_artifact_InrD:
  assumes "insert_artifact a s = Inr (u, s')"
  shows "s' = s\<lparr>durable_job_artifacts := durable_job_artifacts s @ [a]\<rparr>
    \<and> \<not> row_exists (\<lambda>r. ja_job r = ja_job a) (durable_job_artifacts s)"
  using assms unfolding insert_artifact_def by (simp split: if_splits)

lemma CompleteExport_cases:
  assumes "CompleteExport hash parse_time c s = Inr (a, s')" "jobs_ok s"
  obtains (again) j where "job_at s (lm_job c) = Some j" "j_status j = Completed" "s' = s" "artifactByJob (lm_job c) s = Inr a"
      "\<exists>r. j_result j = Some r \<and> string_field ''attempt_id'' r = Some (lm_attempt c) \<or> lm_attempt c = []"
    | (finished) j h where "job_at s (lm_job c) = Some j" "j_status j \<noteq> Completed" "lease_held hash c j"
      "\<not> metadata_mismatch c (decode_payload parse_time (j_payload j))"
      "hex_decode (ce_sha256 c) = Some h" "jobs_ok s'" "job_at s' (lm_job c) = Some (completed_row c j)"
      "\<forall>k. k \<noteq> lm_job c \<longrightarrow> job_at s' k = job_at s k"
      "query_row (\<lambda>r. ja_job r = lm_job c) (durable_job_artifacts s) = None"
      "durable_job_artifacts s' = durable_job_artifacts s @
         [\<lparr>ja_job = lm_job c, ja_org = j_org j, ja_object_key = ce_object_key c, ja_format = ce_format c,
           ja_rows = ce_rows c, ja_bytes = ce_bytes c, ja_sha256 = h, ja_created_at = lm_now c,
           ja_expires_at = ce_expires_at c, ja_deleted_at = None\<rparr>]"
      "a = \<lparr>ea_job = lm_job c, ea_org = j_org j, ea_object_key = ce_object_key c, ea_format = ce_format c,
            ea_sha256 = ce_sha256 c, ea_product = [], ea_rows = ce_rows c, ea_bytes = ce_bytes c,
            ea_expires_at = ce_expires_at c\<rparr>"
proof -
  obtain j where q: "query_row (\<lambda>j. j_id j = lm_job c) (durable_jobs s) = Some j"
  proof (cases "query_row (\<lambda>j. j_id j = lm_job c) (durable_jobs s)")
    case None
    then show ?thesis using assms(1) by (simp add: CompleteExport_def)
  qed
  then have at: "job_at s (lm_job c) = Some j" by (simp add: job_at_def)
  note run = assms(1) [unfolded CompleteExport_def q option.case Let_def]
  show ?thesis
  proof (cases "j_status j = Completed")
    case True
    then have r: "(if (case j_result j of None \<Rightarrow> [] | Some r \<Rightarrow> (case string_field ''attempt_id'' r of None \<Rightarrow> [] | Some a \<Rightarrow> a)) \<noteq> lm_attempt c
        then Inl Job_ErrLeaseLost
        else case artifactByJob (lm_job c) s of Inl e \<Rightarrow> Inl e | Inr a \<Rightarrow> Inr (a, s)) = Inr (a, s')"
      using run by simp
    then have "(case j_result j of None \<Rightarrow> [] | Some r \<Rightarrow> (case string_field ''attempt_id'' r of None \<Rightarrow> [] | Some a \<Rightarrow> a)) = lm_attempt c"
      "artifactByJob (lm_job c) s = Inr a" "s' = s"
      by (auto split: if_splits sum.splits)
    then show ?thesis using again [OF at True] by (auto split: option.splits)
  next
    case False
    note run2 = run [unfolded if_not_P [OF False]]
    have ok: "\<not> metadata_mismatch c (decode_payload parse_time (j_payload j))"
      using run2 by (cases "metadata_mismatch c (decode_payload parse_time (j_payload j))") simp_all
    note run3 = run2 [unfolded if_not_P [OF ok]]
    have ok2: "\<not> (document_product (ep_export_type (the (decode_payload parse_time (j_payload j))))
        \<and> \<not> validDocumentExportSnapshot (lm_job c) (j_org j) s)"
    proof
      assume bad: "document_product (ep_export_type (the (decode_payload parse_time (j_payload j))))
        \<and> \<not> validDocumentExportSnapshot (lm_job c) (j_org j) s"
      show False using run3 [unfolded if_P [OF bad]] by simp
    qed
    note run4 = run3 [unfolded if_not_P [OF ok2]]
    have held: "lease_held hash c j"
      using run4 by (cases "lease_held hash c j") simp_all
    obtain h where h: "hex_decode (ce_sha256 c) = Some h" "length h = 32"
      using run4 held by (cases "hex_decode (ce_sha256 c)") (simp_all split: if_splits)
    let ?a = "\<lparr>ja_job = lm_job c, ja_org = j_org j, ja_object_key = ce_object_key c, ja_format = ce_format c,
               ja_rows = ce_rows c, ja_bytes = ce_bytes c, ja_sha256 = h, ja_created_at = lm_now c,
               ja_expires_at = ce_expires_at c, ja_deleted_at = None\<rparr>"
    obtain s1 where i: "insert_artifact ?a s = Inr ((), s1)"
      using run4 held h by (cases "insert_artifact ?a s") (simp, auto)
    have s1: "s1 = s\<lparr>durable_job_artifacts := durable_job_artifacts s @ [?a]\<rparr>"
      and fresh: "\<not> row_exists (\<lambda>r. ja_job r = lm_job c) (durable_job_artifacts s)"
      using insert_artifact_InrD [OF i] by simp_all
    let ?f = "\<lambda>r. (clear_lease r)\<lparr>j_status := Completed, j_result := Some (completion c), j_completed_at := Some (lm_now c)\<rparr>"
    obtain n s2 where u: "update_jobs (\<lambda>r. j_id r = lm_job c) ?f s1 = Inr (n, s2)"
      using run4 held h i by (cases "update_jobs (\<lambda>r. j_id r = lm_job c) ?f s1") (simp, auto)
    have a: "a = \<lparr>ea_job = lm_job c, ea_org = j_org j, ea_object_key = ce_object_key c, ea_format = ce_format c,
            ea_sha256 = ce_sha256 c, ea_product = [], ea_rows = ce_rows c, ea_bytes = ce_bytes c,
            ea_expires_at = ce_expires_at c\<rparr>"
      and s': "\<exists>x y. s' = s2\<lparr>export_jobs := x, audit_events := y\<rparr>"
      using run4 held h i u by auto
    have ok1: "jobs_ok s1" and at1: "job_at s1 k = job_at s k" for k
      using assms(2) s1 by simp_all
    have id: "j_id (?f r) = j_id r" for r by simp
    have s2: "jobs_ok s2" "job_at s2 (lm_job c) = Some (?f j)" "\<And>k. k \<noteq> lm_job c \<Longrightarrow> job_at s2 k = job_at s k"
      using update_by_id [OF u id ok1] at at1 by simp_all
    have arts: "durable_job_artifacts s' = durable_job_artifacts s @ [?a]"
      using s' update_jobs_InrD [OF u id ok1] s1 by auto
    have none: "query_row (\<lambda>r. ja_job r = lm_job c) (durable_job_artifacts s) = None"
      using fresh by (simp add: query_row_None_iff row_exists_iff)
    have "jobs_ok s'" "job_at s' k = job_at s2 k" for k using s' s2(1) by auto
    then show ?thesis
      using finished [OF at False held ok h(1)] s2 a arts none by (simp add: completed_row_def)
  qed
qed

section \<open>Runs of the queue\<close>

datatype job_op =
    ClaimOp claim_command time "nat \<Rightarrow> bytes option"
  | HeartbeatOp lease_command duration
  | FailOp failure_command "bytes option"
  | CompleteOp complete_command

definition job_step :: "(bytes \<Rightarrow> bytes) \<Rightarrow> (string \<Rightarrow> time option) \<Rightarrow> job_op \<Rightarrow> store \<Rightarrow> store \<times> id set" where
  "job_step hash parse_time op s =
     (case op of
        ClaimOp c clock rnd \<Rightarrow>
          (case ClaimJobs hash rnd clock c s of Inl _ \<Rightarrow> (s, {}) | Inr (cls, s') \<Rightarrow> (s', (\<lambda>cl. jb_id (cl_job cl)) ` set cls))
      | HeartbeatOp c lease \<Rightarrow> (after s (HeartbeatJob hash c lease s), {})
      | FailOp c rnd \<Rightarrow> (after s (FailJob hash rnd c s), {})
      | CompleteOp c \<Rightarrow> (after s (CompleteExport hash parse_time c s), {}))"

fun op_at :: "job_op \<Rightarrow> time" where
  "op_at (ClaimOp c clock rnd) = claim_now clock c"
| "op_at (HeartbeatOp c lease) = lm_now c"
| "op_at (FailOp c rnd) = lm_now c"
| "op_at (CompleteOp c) = lm_now c"

fun op_until :: "job_op \<Rightarrow> time" where
  "op_until (ClaimOp c clock rnd) = claim_now clock c + cc_lease c"
| "op_until _ = 0"

text \<open>An operation that presents the current lease of the job.\<close>

definition presents :: "(bytes \<Rightarrow> bytes) \<Rightarrow> job_op \<Rightarrow> id \<Rightarrow> store \<Rightarrow> bool" where
  "presents hash op k s =
     (case job_at s k of
        None \<Rightarrow> False
      | Some j \<Rightarrow>
          (case op of
             ClaimOp _ _ _ \<Rightarrow> False
           | HeartbeatOp c _ \<Rightarrow> lease_held hash c j
           | FailOp c _ \<Rightarrow> lease_held hash c j
           | CompleteOp c \<Rightarrow> lease_held hash c j))"

definition job_lease :: "store \<Rightarrow> id \<Rightarrow> time option" where
  "job_lease s k = (case job_at s k of None \<Rightarrow> None | Some j \<Rightarrow> if j_status j = Running then j_lease j else None)"

lemma ClaimJobs_ids:
  assumes "ClaimJobs hash rnd clock c s = Inr (cls, s')" "jobs_ok s" "k \<in> (\<lambda>cl. jb_id (cl_job cl)) ` set cls"
  shows "\<exists>j. job_at s k = Some j"
proof -
  obtain s1 where e: "fail_exhausted (claim_now clock c) s = Inr ((), s1)"
    using assms(1) by (auto simp: ClaimJobs_def Let_def split: if_splits sum.splits)
  obtain s2 where each: "claim_each hash c (claim_now clock c) rnd 0
      (claim_candidates (cc_kinds c) (claim_now clock c) (cc_limit c) s1) s1 = Inr (cls, s2)"
    using assms(1) e by (auto simp: ClaimJobs_def Let_def split: if_splits sum.splits)
  note f = fail_exhausted_InrD [OF e assms(2)]
  note g = claim_each_InrD [OF each conjunct1 [OF f] claim_candidates_distinct [OF conjunct1 [OF f]]]
  have "k \<in> (\<lambda>c. jb_id (fst c)) ` set (claim_candidates (cc_kinds c) (claim_now clock c) (cc_limit c) s1)"
    using g assms(3) by (metis list.set_map)
  then obtain j where "job_at s1 k = Some j" using g by blast
  then show ?thesis using f by (cases "job_at s k") auto
qed

lemma job_step_None:
  assumes "jobs_ok s" "job_at s k = None" shows "k \<notin> snd (job_step hash parse_time op s)"
proof (cases op)
  case (ClaimOp c clock rnd)
  then show ?thesis
    using ClaimJobs_ids [of hash rnd clock c s _ _ k] assms
    by (cases "ClaimJobs hash rnd clock c s") (fastforce simp: job_step_def)+
qed (simp_all add: job_step_def)

lemma job_step_row:
  assumes "jobs_ok s" "job_at s k = Some j"
  shows "\<exists>j'. job_at (fst (job_step hash parse_time op s)) k = Some j'
    \<and> job_transition (op_at op) (k \<in> snd (job_step hash parse_time op s)) j j'
    \<and> (k \<in> snd (job_step hash parse_time op s) \<longrightarrow> j_status j' = Running \<and> j_lease j' = Some (op_until op))
    \<and> (\<not> presents hash op k s \<longrightarrow> k \<notin> snd (job_step hash parse_time op s) \<longrightarrow> \<not> exhausted (op_at op) j \<longrightarrow> j' = j)"
proof (cases op)
  case (ClaimOp c clock rnd)
  show ?thesis
  proof (cases "ClaimJobs hash rnd clock c s")
    case (Inl e)
    then show ?thesis using assms ClaimOp by (simp add: job_step_def job_transition.stay)
  next
    case (Inr r)
    then obtain cls s' where r: "ClaimJobs hash rnd clock c s = Inr (cls, s')" by (cases r) simp
    then obtain j' where j': "job_at s' k = Some j'"
      "job_transition (claim_now clock c) (k \<in> (\<lambda>cl. jb_id (cl_job cl)) ` set cls) j j'"
      "k \<in> (\<lambda>cl. jb_id (cl_job cl)) ` set cls \<longrightarrow> j_status j' = Running \<and> j_lease j' = Some (claim_now clock c + cc_lease c)"
      "k \<notin> (\<lambda>cl. jb_id (cl_job cl)) ` set cls \<longrightarrow> \<not> exhausted (claim_now clock c) j \<longrightarrow> j' = j"
      using ClaimJobs_row [OF r assms] by blast
    then show ?thesis by (simp add: job_step_def ClaimOp r)
  qed
next
  case (HeartbeatOp c lease)
  show ?thesis
  proof (cases "HeartbeatJob hash c lease s")
    case (Inl e)
    then show ?thesis using assms HeartbeatOp by (simp add: job_step_def job_transition.stay)
  next
    case (Inr r)
    then obtain t s' where r: "HeartbeatJob hash c lease s = Inr (t, s')" by (cases r) simp
    note h = HeartbeatJob_row [OF r assms(1)]
    show ?thesis
    proof (cases "k = lm_job c")
      case True
      then have "lease_held hash c j" "job_at s' k = Some (j\<lparr>j_lease := Some t\<rparr>)" using h assms(2) by auto
      moreover from this obtain e where "j_status j = Running" "j_lease j = Some e" "lm_now c < e"
        using lease_heldD by blast
      ultimately show ?thesis
        using assms(2) by (simp add: job_step_def HeartbeatOp r job_transition.extend presents_def)
    next
      case False
      then show ?thesis using h assms(2) by (simp add: job_step_def HeartbeatOp r job_transition.stay)
    qed
  qed
next
  case (FailOp c rnd)
  show ?thesis
  proof (cases "FailJob hash rnd c s")
    case (Inl e)
    then show ?thesis using assms FailOp by (simp add: job_step_def job_transition.stay)
  next
    case (Inr r)
    then obtain s' where r: "FailJob hash rnd c s = Inr ((), s')" by (cases r) simp
    note h = FailJob_row [OF r assms(1)]
    show ?thesis
    proof (cases "k = lm_job c")
      case True
      then have "lease_held hash c j" "job_at s' k = Some (failed_row rnd c j)" using h assms(2) by auto
      then show ?thesis
        using assms(2) failed_row_transition [of hash c j rnd] by (simp add: job_step_def FailOp r presents_def)
    next
      case False
      then show ?thesis using h assms(2) by (simp add: job_step_def FailOp r job_transition.stay)
    qed
  qed
next
  case (CompleteOp c)
  show ?thesis
  proof (cases "CompleteExport hash parse_time c s")
    case (Inl e)
    then show ?thesis using assms CompleteOp by (simp add: job_step_def job_transition.stay)
  next
    case (Inr r)
    then obtain a s' where r: "CompleteExport hash parse_time c s = Inr (a, s')" by (cases r) simp
    show ?thesis
      using r assms(1)
    proof (cases rule: CompleteExport_cases)
      case (again j')
      then show ?thesis using assms by (simp add: job_step_def CompleteOp r job_transition.stay)
    next
      case (finished i h)
      show ?thesis
      proof (cases "k = lm_job c")
        case True
        then have "i = j" using finished(1) assms(2) by simp
        moreover obtain e where "j_status i = Running" "j_lease i = Some e" "lm_now c < e"
          using lease_heldD [OF finished(3)] by blast
        ultimately show ?thesis
          using True finished assms(2) job_transition.complete [of j e "lm_now c"]
          by (simp add: job_step_def CompleteOp r presents_def completed_row_def)
      next
        case False
        then show ?thesis using finished assms(2) by (simp add: job_step_def CompleteOp r job_transition.stay)
      qed
    qed
  qed
qed

lemma job_step_ok:
  assumes "jobs_ok s" shows "jobs_ok (fst (job_step hash parse_time op s))"
proof (cases op)
  case (ClaimOp c clock rnd)
  show ?thesis
  proof (cases "ClaimJobs hash rnd clock c s")
    case (Inr r)
    then obtain cls s' where r: "ClaimJobs hash rnd clock c s = Inr (cls, s')" by (cases r) simp
    obtain s1 where e: "fail_exhausted (claim_now clock c) s = Inr ((), s1)"
      using r by (auto simp: ClaimJobs_def Let_def split: if_splits sum.splits)
    obtain s2 where "claim_each hash c (claim_now clock c) rnd 0
        (claim_candidates (cc_kinds c) (claim_now clock c) (cc_limit c) s1) s1 = Inr (cls, s2)" "s' = record_worker c (claim_now clock c) s2"
      using r e by (auto simp: ClaimJobs_def Let_def split: if_splits sum.splits)
    moreover have "jobs_ok s1" using fail_exhausted_InrD [OF e assms] by blast
    ultimately have "jobs_ok s'" using claim_each_InrD claim_candidates_distinct by simp
    then show ?thesis by (simp add: job_step_def ClaimOp r)
  qed (simp add: job_step_def ClaimOp assms)
next
  case (HeartbeatOp c lease)
  then show ?thesis using HeartbeatJob_row [of hash c lease s] assms by (simp add: job_step_def) (rule after_invariant; blast)
next
  case (FailOp c rnd)
  have "jobs_ok s'" if r: "FailJob hash rnd c s = Inr (u, s')" for u s'
    using FailJob_row [OF r assms] by blast
  then show ?thesis using FailOp assms by (auto simp: job_step_def after_def split: sum.splits)
next
  case (CompleteOp c)
  have "jobs_ok s'" if r: "CompleteExport hash parse_time c s = Inr (a, s')" for a s'
    using r assms by (cases rule: CompleteExport_cases) (use assms in simp_all)
  then show ?thesis using CompleteOp assms by (simp add: job_step_def) (rule after_invariant; blast)
qed

text \<open>The queue is a \<^verbatim>\<open>lease_queue\<close>.\<close>

interpretation job_queue: lease_queue jobs_ok job_lease "job_step hash parse_time" op_at op_until "presents hash"
proof unfold_locales
  fix s k c e
  assume ok: "jobs_ok s"
  show "jobs_ok (fst (job_step hash parse_time c s))" by (rule job_step_ok [OF ok])
  {
    assume taken: "k \<in> snd (job_step hash parse_time c s)"
    then obtain j where j: "job_at s k = Some j" using job_step_None [OF ok] by (cases "job_at s k") auto
    show "job_lease (fst (job_step hash parse_time c s)) k = Some (op_until c)"
      using job_step_row [OF ok j, of hash parse_time c] taken by (auto simp: job_lease_def)
    assume "job_lease s k = Some e"
    then have "j_status j = Running" "j_lease j = Some e" using j by (auto simp: job_lease_def split: if_splits)
    moreover have "\<exists>j'. job_transition (op_at c) True j j'" using job_step_row [OF ok j, of hash parse_time c] taken by auto
    ultimately show "e \<le> op_at c" by (auto elim!: job_transitionE simp: claimable_def)
  next
    assume l: "job_lease s k = Some e" and early: "op_at c < e" and other: "\<not> presents hash c k s"
    then obtain j where j: "job_at s k = Some j" "j_status j = Running" "j_lease j = Some e"
      by (auto simp: job_lease_def split: option.splits if_splits)
    have "k \<notin> snd (job_step hash parse_time c s)"
    proof
      assume "k \<in> snd (job_step hash parse_time c s)"
      then have "\<exists>j'. job_transition (op_at c) True j j'" using job_step_row [OF ok j(1), of hash parse_time c] by auto
      then show False using j early by (auto elim!: job_transitionE simp: claimable_def)
    qed
    moreover have "\<not> exhausted (op_at c) j" using j early by (simp add: exhausted_def)
    ultimately have "job_at (fst (job_step hash parse_time c s)) k = Some j"
      using job_step_row [OF ok j(1), of hash parse_time c] other by auto
    then show "job_lease (fst (job_step hash parse_time c s)) k = Some e" using j by (simp add: job_lease_def)
  }
qed

section \<open>Properties\<close>

text \<open>
  \<^bold>\<open>C9.\<close>  One worker at a time: once a claim has handed a job to a worker, no later claim hands the job to
  anyone before the lease ends, however many workers claim, heartbeat, fail or complete jobs in between,
  as long as nobody presents the attempt and token of that lease; the lease itself stays as it was granted.
\<close>
theorem job_lease_exclusive:
  assumes "jobs_ok s" "k \<in> snd (job_step hash parse_time c s)"
    and "undisturbed (job_step hash parse_time) op_at (presents hash) k (op_until c) (fst (job_step hash parse_time c s)) ops"
  shows "job_lease (fst (lease_run (job_step hash parse_time) (fst (job_step hash parse_time c s)) ops)) k = Some (op_until c)
    \<and> (\<forall>(d, taken) \<in> set (snd (lease_run (job_step hash parse_time) (fst (job_step hash parse_time c s)) ops)). k \<notin> taken)"
  using job_queue.exclusive [OF job_queue.ok_step [OF assms(1)] job_queue.taken_held [OF assms(1,2)] assms(3)] .

definition demo_job :: job_row where
  "demo_job = \<lparr>j_id = ''j'', j_org = ''o'', j_requester = Some ''u'', j_kind = Export, j_status = Queued,
     j_payload = JObject [(''export_type'', JString ''tasks''), (''format'', JString ''csv''), (''row_count'', JNumber 3)],
     j_result = None, j_key = ''j'', j_request_id = None, j_attempts = 0, j_max_attempts = 5, j_current_attempt = None,
     j_lease_hash = None, j_lease = None, j_worker = None, j_available_at = 0, j_created_at = 0, j_started_at = None,
     j_completed_at = None, j_failed_at = None, j_cancelled_at = None, j_failure_code = None, j_stale_reclaims = 0,
     j_legacy = None\<rparr>"

definition demo_jobs :: store where "demo_jobs = empty_store\<lparr>durable_jobs := [demo_job]\<rparr>"

definition demo_claim :: "string \<Rightarrow> time \<Rightarrow> claim_command" where
  "demo_claim worker now = \<lparr>cc_worker = worker, cc_environment = ''prod'', cc_kinds = [Export], cc_limit = 5,
     cc_lease = 2 * Minute, cc_now = now\<rparr>"

definition demo_hash :: "bytes \<Rightarrow> bytes" where "demo_hash b = replicate 32 (CHR ''h'')"
definition demo_rnd :: "nat \<Rightarrow> bytes option" where "demo_rnd i = Some (replicate 32 (CHR ''r''))"

lemma demo_job_simps [simp]:
  "durable_jobs demo_jobs = [demo_job]" "j_id demo_job = ''j''" "j_org demo_job = ''o''" "j_attempts demo_job = 0"
  "j_started_at demo_job = None" "j_stale_reclaims demo_job = 0"
  by (simp_all add: demo_jobs_def demo_job_def)

lemma demo_jobs_ok: "jobs_ok demo_jobs"
  by (simp add: jobs_ok_def demo_jobs_def demo_job_def job_check_def Export_def OCR_def rune_count_ascii byte_def)

lemma demo_claimed:
  assumes "0 \<le> t" shows "snd (job_step demo_hash (\<lambda>_. None) (ClaimOp (demo_claim w t) 0 demo_rnd) demo_jobs) = {''j''} \<or> w = []"
proof -
  have z: "claim_now 0 (demo_claim w t) = t" using assms by (simp add: claim_now_def demo_claim_def zero_time_def duration_defs)
  obtain a where a: "randomUUID (demo_rnd i) = Inr a" for i by (simp add: randomUUID_def demo_rnd_def Let_def)
  have check: "job_check (demo_job\<lparr>j_status := Running, j_attempts := Suc 0, j_current_attempt := Some a, j_lease_hash := Some h,
      j_lease := Some e, j_worker := Some w, j_started_at := Some t, j_stale_reclaims := 0\<rparr>)" if "length h = 32" for h e
    using that demo_jobs_ok by (simp add: jobs_ok_def demo_jobs_def job_check_def demo_job_def)
  have cands: "claim_candidates [Export] t 5 demo_jobs = [(\<lparr>jb_id = ''j'', jb_org = ''o'', jb_requester = ''u'', jb_kind = Export,
      jb_status = [], jb_payload = j_payload demo_job, jb_attempt_id = [], jb_attempt_count = 0, jb_created_at = 0\<rparr>, False)]"
    using assms by (simp add: claim_candidates_def demo_jobs_def claimable_def demo_job_def)
  have none: "fail_exhausted t demo_jobs = Inr ((), demo_jobs)"
    by (simp add: fail_exhausted_def demo_jobs_def update_jobs_def exhausted_def demo_job_def empty_store_def)
  show ?thesis
    using z none cands check [of "replicate 32 (CHR ''h'')"] a
    by (simp add: job_step_def ClaimJobs_def Let_def demo_claim_def claim_one_def randomLeaseToken_def demo_hash_def
        demo_rnd_def update_jobs_def duration_defs boolInt_def)
qed

theorem job_lease_exclusive_witness:
  "''j'' \<in> snd (job_step demo_hash (\<lambda>_. None) (ClaimOp (demo_claim ''w'' 0) 0 demo_rnd) demo_jobs)
   \<and> list_all (\<lambda>e. ''j'' \<notin> snd e) (snd (lease_run (job_step demo_hash (\<lambda>_. None))
       (fst (job_step demo_hash (\<lambda>_. None) (ClaimOp (demo_claim ''w'' 0) 0 demo_rnd) demo_jobs))
       [ClaimOp (demo_claim ''x'' (60 * Second)) 0 demo_rnd]))"
proof -
  have n: "claim_now 0 (demo_claim w t) = t" if "0 \<le> t" for w t
    using that by (simp add: claim_now_def demo_claim_def zero_time_def duration_defs)
  have taken: "''j'' \<in> snd (job_step demo_hash (\<lambda>_. None) (ClaimOp (demo_claim ''w'' 0) 0 demo_rnd) demo_jobs)"
    using demo_claimed [of 0 "''w''"] by simp
  have "undisturbed (job_step demo_hash (\<lambda>_. None)) op_at (presents demo_hash) ''j'' (op_until (ClaimOp (demo_claim ''w'' 0) 0 demo_rnd))
      (fst (job_step demo_hash (\<lambda>_. None) (ClaimOp (demo_claim ''w'' 0) 0 demo_rnd) demo_jobs))
      [ClaimOp (demo_claim ''x'' (60 * Second)) 0 demo_rnd]"
    using n [of 0] n [of "60 * Second"] by (simp add: presents_def demo_claim_def duration_defs split: option.split)
  then show ?thesis
    using job_lease_exclusive [OF demo_jobs_ok taken, of "[ClaimOp (demo_claim ''x'' (60 * Second)) 0 demo_rnd]"] taken
    unfolding list_all_iff split_beta by blast
qed

lemma run_attempts:
  assumes "jobs_ok s" "job_at s k = Some j"
  shows "\<exists>j'. job_at (fst (lease_run (job_step hash parse_time) s ops)) k = Some j' \<and> j_max_attempts j' = j_max_attempts j
    \<and> j_attempts j' = j_attempts j + length (filter (\<lambda>e. k \<in> snd e) (snd (lease_run (job_step hash parse_time) s ops)))
    \<and> (j_attempts j \<le> j_max_attempts j \<longrightarrow> j_attempts j' \<le> j_max_attempts j)
    \<and> (terminal j \<longrightarrow> j' = j)"
  using assms
proof (induction ops arbitrary: s j)
  case (Cons c ops)
  let ?r = "job_step hash parse_time c s"
  obtain j1 where j1: "job_at (fst ?r) k = Some j1" "job_transition (op_at c) (k \<in> snd ?r) j j1"
    using job_step_row [OF Cons.prems] by blast
  note t = transition_attempts [OF j1(2)] transition_terminal [OF j1(2)]
  obtain j' where "job_at (fst (lease_run (job_step hash parse_time) (fst ?r) ops)) k = Some j'"
    "j_max_attempts j' = j_max_attempts j1"
    "j_attempts j' = j_attempts j1 + length (filter (\<lambda>e. k \<in> snd e) (snd (lease_run (job_step hash parse_time) (fst ?r) ops)))"
    "j_attempts j1 \<le> j_max_attempts j1 \<longrightarrow> j_attempts j' \<le> j_max_attempts j1" "terminal j1 \<longrightarrow> j' = j1"
    using Cons.IH [OF job_step_ok [OF Cons.prems(1)] j1(1)] by blast
  then show ?case using t by (cases "k \<in> snd ?r") (auto simp: split_beta)
qed simp

text \<open>
  \<^bold>\<open>C10.\<close>  Attempts are bounded and endings are final: however long the queue runs, a job is handed out at most
  as many times as it has attempts left, never more than five times, and a job that is Completed, Failed
  or Cancelled is never changed again.
\<close>
theorem job_attempts_bounded:
  assumes "jobs_ok s" "job_at s k = Some j" "j_attempts j \<le> j_max_attempts j"
  shows "j_attempts j + length (filter (\<lambda>e. k \<in> snd e) (snd (lease_run (job_step hash parse_time) s ops))) \<le> j_max_attempts j
    \<and> j_max_attempts j \<le> 5
    \<and> (terminal j \<longrightarrow> job_at (fst (lease_run (job_step hash parse_time) s ops)) k = Some j)"
proof -
  have "j_max_attempts j \<le> 5" using job_at_check [OF assms(1,2)] by (simp add: job_check_def)
  then show ?thesis using run_attempts [OF assms(1,2), of hash parse_time ops] assms(3) by auto
qed

theorem job_attempts_bounded_witness:
  "length (filter (\<lambda>e. ''j'' \<in> snd e) (snd (lease_run (job_step demo_hash (\<lambda>_. None)) demo_jobs
     (map (\<lambda>i. ClaimOp (demo_claim ''w'' (int i * Hour)) 0 demo_rnd) [0..<50])))) \<le> 5"
  using job_attempts_bounded [of demo_jobs "''j''" demo_job demo_hash "\<lambda>_. None"
      "map (\<lambda>i. ClaimOp (demo_claim ''w'' (int i * Hour)) 0 demo_rnd) [0..<50]"] demo_jobs_ok
  by (simp add: job_at_def)

subsection \<open>Completion\<close>

lemma update_jobs_artifacts: "update_jobs P f s = Inr (n, s') \<Longrightarrow> durable_job_artifacts s' = durable_job_artifacts s"
  by (auto simp: update_jobs_def split: if_splits)

lemma fail_exhausted_artifacts:
  assumes "fail_exhausted now s = Inr (u, s')" shows "durable_job_artifacts s' = durable_job_artifacts s"
  using assms by (auto simp: fail_exhausted_def Let_def dest: update_jobs_artifacts split: sum.splits)

lemma claim_one_artifacts:
  assumes "claim_one hash c now rnd1 rnd2 cand s = Inr (cl, s')" shows "durable_job_artifacts s' = durable_job_artifacts s"
  using assms by (auto simp: claim_one_def Let_def dest: update_jobs_artifacts split: sum.splits prod.splits if_splits)

lemma claim_each_artifacts:
  "claim_each hash c now rnd i cands s = Inr (cls, s') \<Longrightarrow> durable_job_artifacts s' = durable_job_artifacts s"
proof (induction cands arbitrary: i s cls)
  case (Cons cand cands)
  then obtain cl s1 cls' where one: "claim_one hash c now (rnd (2 * i)) (rnd (2 * i + 1)) cand s = Inr (cl, s1)"
    and rest: "claim_each hash c now rnd (Suc i) cands s1 = Inr (cls', s')"
    by (auto split: sum.splits)
  show ?case using Cons.IH [OF rest] claim_one_artifacts [OF one] by simp
qed simp

lemma record_worker_artifacts [simp]: "durable_job_artifacts (record_worker c now s) = durable_job_artifacts s"
  by (simp add: record_worker_def)

lemma ClaimJobs_artifacts:
  "ClaimJobs hash rnd clock c s = Inr (cls, s') \<Longrightarrow> durable_job_artifacts s' = durable_job_artifacts s"
  by (auto simp: ClaimJobs_def Let_def dest!: fail_exhausted_artifacts claim_each_artifacts split: if_splits sum.splits)

lemma HeartbeatJob_artifacts:
  "HeartbeatJob hash c lease s = Inr (t, s') \<Longrightarrow> durable_job_artifacts s' = durable_job_artifacts s"
  by (auto simp: HeartbeatJob_def Let_def dest: update_jobs_artifacts split: if_splits sum.splits)

lemma FailJob_artifacts:
  assumes "FailJob hash rnd c s = Inr (u, s')" shows "durable_job_artifacts s' = durable_job_artifacts s"
proof (cases "query_row (lease_held hash c) (durable_jobs s)")
  case None
  then show ?thesis using assms by (simp add: FailJob_def)
next
  case (Some j)
  show ?thesis
    using assms [unfolded FailJob_def Some option.case Let_def] by (auto dest: update_jobs_artifacts split: sum.splits)
qed

lemma CompleteExport_artifact_kept:
  assumes "CompleteExport hash parse_time c s = Inr (b, s')" "jobs_ok s"
    and "query_row (\<lambda>r. ja_job r = k) (durable_job_artifacts s) = Some a"
    and "job_at s k = Some j" "j_status j = Completed"
  shows "query_row (\<lambda>r. ja_job r = k) (durable_job_artifacts s') = Some a"
  using assms(1,2)
proof (cases rule: CompleteExport_cases)
  case again
  then show ?thesis using assms by simp
next
  case (finished i h)
  then show ?thesis using assms(3) by simp
qed

lemma completed_step:
  assumes "jobs_ok s" "job_at s k = Some j" "terminal j" "query_row (\<lambda>r. ja_job r = k) (durable_job_artifacts s) = Some a"
  shows "job_at (fst (job_step hash parse_time op s)) k = Some j
    \<and> query_row (\<lambda>r. ja_job r = k) (durable_job_artifacts (fst (job_step hash parse_time op s))) = Some a"
proof -
  obtain j' where "job_at (fst (job_step hash parse_time op s)) k = Some j'"
    "job_transition (op_at op) (k \<in> snd (job_step hash parse_time op s)) j j'"
    using job_step_row [OF assms(1,2)] by blast
  moreover have "query_row (\<lambda>r. ja_job r = k) (durable_job_artifacts (fst (job_step hash parse_time op s))) = Some a"
  proof (cases op)
    case (ClaimOp c clock rnd)
    then show ?thesis using assms(4) ClaimJobs_artifacts [of hash rnd clock c s] by (auto simp: job_step_def split: sum.splits)
  next
    case (HeartbeatOp c lease)
    then show ?thesis using assms(4) HeartbeatJob_artifacts [of hash c lease s] by (auto simp: job_step_def after_def split: sum.splits)
  next
    case (FailOp c rnd)
    then show ?thesis using assms(4) FailJob_artifacts [of hash rnd c s] by (auto simp: job_step_def after_def split: sum.splits)
  next
    case (CompleteOp c)
    have "query_row (\<lambda>r. ja_job r = k) (durable_job_artifacts s') = Some a"
      if r: "CompleteExport hash parse_time c s = Inr (b, s')" for b s'
      using r assms(1) by (cases rule: CompleteExport_cases) (use assms(4) in simp_all)
    then show ?thesis using assms(4) CompleteOp by (auto simp: job_step_def after_def split: sum.splits)
  qed
  ultimately show ?thesis using transition_terminal assms(3) by blast
qed

lemma completed_run:
  assumes "jobs_ok s" "job_at s k = Some j" "terminal j" "query_row (\<lambda>r. ja_job r = k) (durable_job_artifacts s) = Some a"
  shows "job_at (fst (lease_run (job_step hash parse_time) s ops)) k = Some j
    \<and> query_row (\<lambda>r. ja_job r = k) (durable_job_artifacts (fst (lease_run (job_step hash parse_time) s ops))) = Some a"
  using assms
proof (induction ops arbitrary: s)
  case (Cons op ops)
  show ?case
    using Cons.IH [OF job_step_ok [OF Cons.prems(1)]] completed_step [OF Cons.prems] Cons.prems(3) by (simp add: split_beta)
qed simp

lemma completion_attempt: "string_field ''attempt_id'' (completion c) = Some (lm_attempt c)"
  by (simp add: string_field_def decode_field_def completion_def ascii_lower_def ascii_lower_char_def byte_def byte_char_def)

text \<open>
  An export completes once: when a worker's completion of a running job has committed, repeating the
  same request at any later time, whatever the queue did in between, answers with the same artifact and
  changes nothing, and a completion in the name of any other attempt is told that its lease is lost.
\<close>
theorem export_completes_once:
  assumes "jobs_ok s" "job_at s (lm_job c) = Some j" "j_status j = Running"
    and "CompleteExport hash parse_time c s = Inr (a, s1)" "ce_sha256 c = hex_encode h"
    and "t = fst (lease_run (job_step hash parse_time) s1 ops)"
  shows "CompleteExport hash parse_time c t = Inr (a, t)
    \<and> (lm_job d = lm_job c \<longrightarrow> lm_attempt d \<noteq> lm_attempt c \<longrightarrow> CompleteExport hash parse_time d t = Inl Job_ErrLeaseLost)"
  using assms(4,1)
proof (cases rule: CompleteExport_cases)
  case again
  then show ?thesis using assms(2,3) by simp
next
  case (finished i h')
  have h: "h' = h" using finished(5) assms(5) by simp
  have "i = j" using finished(1) assms(2) by simp
  have done_row: "terminal (completed_row c j)" by (simp add: terminal_def completed_row_def)
  have art: "query_row (\<lambda>r. ja_job r = lm_job c) (durable_job_artifacts s1) =
      Some \<lparr>ja_job = lm_job c, ja_org = j_org j, ja_object_key = ce_object_key c, ja_format = ce_format c,
           ja_rows = ce_rows c, ja_bytes = ce_bytes c, ja_sha256 = h, ja_created_at = lm_now c,
           ja_expires_at = ce_expires_at c, ja_deleted_at = None\<rparr>"
    using finished(9,10) h \<open>i = j\<close> by simp
  have t: "query_row (\<lambda>j. j_id j = lm_job c) (durable_jobs t) = Some (completed_row c j)"
    "query_row (\<lambda>r. ja_job r = lm_job c) (durable_job_artifacts t) =
       query_row (\<lambda>r. ja_job r = lm_job c) (durable_job_artifacts s1)"
    using completed_run [OF finished(6) _ done_row art, of hash parse_time ops] finished(7) art \<open>i = j\<close>
    unfolding assms(6) job_at_def by simp_all
  have row: "j_status (completed_row c j) = Completed" "j_result (completed_row c j) = Some (completion c)"
    by (simp_all add: completed_row_def)
  have "CompleteExport hash parse_time c t = Inr (a, t)"
    unfolding CompleteExport_def t(1) option.case row if_P [OF refl] completion_attempt Let_def
    using finished(11) art t(2) assms(5) \<open>i = j\<close> by (simp add: artifactByJob_def artifact_of_def)
  moreover have "CompleteExport hash parse_time d t = Inl Job_ErrLeaseLost" if "lm_job d = lm_job c" "lm_attempt d \<noteq> lm_attempt c"
    unfolding CompleteExport_def that(1) t(1) option.case row if_P [OF refl] completion_attempt Let_def
    using that(2) by simp
  ultimately show ?thesis by blast
qed

text \<open>A completion under the current lease whose metadata agrees with the payload commits.\<close>

lemma completion_check:
  assumes "job_check j" "j_status j = Running" shows "job_check (completed_row c j)"
  using assms by (simp add: job_check_def completed_row_def clear_lease_def completion_def)

lemma CompleteExport_commits:
  assumes ok: "jobs_ok s" and at: "job_at s (lm_job c) = Some j" and held: "lease_held hash c j"
    and meta: "decode_payload parse_time (j_payload j) = Some p" "\<not> metadata_mismatch c (Some p)"
    and snap: "document_product (ep_export_type p) \<longrightarrow> validDocumentExportSnapshot (lm_job c) (j_org j) s"
    and row: "ce_sha256 c = hex_encode h" "length h = 32" "ce_format c = ''csv'' \<or> ce_format c = ''xlsx''" "0 \<le> ce_rows c" "lm_now c < ce_expires_at c"
    and fresh: "\<not> row_exists (\<lambda>r. ja_job r = lm_job c \<or> ja_object_key r = ce_object_key c) (durable_job_artifacts s)"
  shows "\<exists>a s1. CompleteExport hash parse_time c s = Inr (a, s1)"
proof -
  have q: "query_row (\<lambda>j. j_id j = lm_job c) (durable_jobs s) = Some j" using at by (simp add: job_at_def)
  have st: "j_status j = Running" "j_status j \<noteq> Completed" using lease_heldD [OF held] by simp_all
  have bytes: "1 \<le> ce_bytes c" using meta(2) by (auto simp: metadata_mismatch_def Let_def)
  let ?a = "\<lparr>ja_job = lm_job c, ja_org = j_org j, ja_object_key = ce_object_key c, ja_format = ce_format c,
             ja_rows = ce_rows c, ja_bytes = ce_bytes c, ja_sha256 = h, ja_created_at = lm_now c,
             ja_expires_at = ce_expires_at c, ja_deleted_at = None\<rparr>"
  have i: "insert_artifact ?a s = Inr ((), s\<lparr>durable_job_artifacts := durable_job_artifacts s @ [?a]\<rparr>)"
    using row bytes fresh by (auto simp: insert_artifact_def row_exists_iff)
  let ?f = "\<lambda>r. (clear_lease r)\<lparr>j_status := Completed, j_result := Some (completion c), j_completed_at := Some (lm_now c)\<rparr>"
  have "job_check (?f r)" if "r \<in> set (durable_jobs s)" "j_id r = lm_job c" for r
  proof -
    have "r = j" using that ok at by (metis job_at_iff option.inject)
    then show ?thesis using completion_check [OF job_at_check [OF ok at] st(1), of c] by (simp add: completed_row_def)
  qed
  then have "\<not> list_ex (\<lambda>r. j_id r = lm_job c \<and> \<not> job_check (?f r)) (durable_jobs s)" by (auto simp: list_ex_iff)
  then have u: "\<exists>n s2. update_jobs (\<lambda>r. j_id r = lm_job c) ?f (s\<lparr>durable_job_artifacts := durable_job_artifacts s @ [?a]\<rparr>) = Inr (n, s2)"
    by (simp add: update_jobs_def)
  then obtain n s2 where u: "update_jobs (\<lambda>r. j_id r = lm_job c) ?f (s\<lparr>durable_job_artifacts := durable_job_artifacts s @ [?a]\<rparr>) = Inr (n, s2)"
    by blast
  have "\<not> (document_product (ep_export_type (the (decode_payload parse_time (j_payload j))))
      \<and> \<not> validDocumentExportSnapshot (lm_job c) (j_org j) s)" using snap meta(1) by simp
  then show ?thesis
    unfolding CompleteExport_def q option.case Let_def if_not_P [OF st(2)] meta(1) if_not_P [OF meta(2)]
    using held row(1,2) i u by (simp add: meta(1))
qed

definition demo_running :: store where
  "demo_running = empty_store\<lparr>durable_jobs := [demo_job\<lparr>j_status := Running, j_attempts := 1, j_current_attempt := Some ''a'',
     j_lease_hash := Some (demo_hash ''t''), j_lease := Some (2 * Minute), j_worker := Some ''w''\<rparr>]\<rparr>"

definition demo_complete :: complete_command where
  "demo_complete = \<lparr>lm_job = ''j'', lm_attempt = ''a'', lm_token = ''t'', lm_now = Minute, ce_format = ''csv'', ce_rows = 3,
     ce_bytes = 10, ce_sha256 = hex_encode (replicate 32 (CHR ''x'')), ce_object_key = ''k'', ce_expires_at = Hour\<rparr>"

lemma demo_payload:
  "decode_payload (\<lambda>_. None) (j_payload demo_job) =
     Some \<lparr>ep_export_type = ''tasks'', ep_format = ''csv'', ep_filters = no_filter, ep_row_count = 3, ep_data_as_of = zero_time\<rparr>"
  by (simp add: decode_payload_def demo_job_def string_field_def int_field_def decode_field_def Let_def
      ascii_lower_def ascii_lower_char_def byte_def byte_char_def)

lemma demo_running_ok: "jobs_ok demo_running"
  using demo_jobs_ok by (simp add: jobs_ok_def demo_running_def job_check_def demo_hash_def)
    (simp add: demo_job_def)

theorem export_completes_once_witness:
  "\<exists>a s1. CompleteExport demo_hash (\<lambda>_. None) demo_complete demo_running = Inr (a, s1)
     \<and> CompleteExport demo_hash (\<lambda>_. None) demo_complete
         (fst (lease_run (job_step demo_hash (\<lambda>_. None)) s1 [ClaimOp (demo_claim ''x'' Hour) 0 demo_rnd])) =
       Inr (a, fst (lease_run (job_step demo_hash (\<lambda>_. None)) s1 [ClaimOp (demo_claim ''x'' Hour) 0 demo_rnd]))"
proof -
  let ?j = "demo_job\<lparr>j_status := Running, j_attempts := 1, j_current_attempt := Some ''a'',
     j_lease_hash := Some (demo_hash ''t''), j_lease := Some (2 * Minute), j_worker := Some ''w''\<rparr>"
  have at: "job_at demo_running (lm_job demo_complete) = Some ?j" "j_status ?j = Running"
    by (simp_all add: job_at_def demo_running_def demo_complete_def)
  have sha: "ce_sha256 demo_complete = hex_encode (replicate 32 (CHR ''x''))" by (simp add: demo_complete_def)
  have held: "lease_held demo_hash demo_complete ?j"
    by (simp add: lease_held_def demo_complete_def leaseHash_def duration_defs)
  have "\<exists>a s1. CompleteExport demo_hash (\<lambda>_. None) demo_complete demo_running = Inr (a, s1)"
  proof (rule CompleteExport_commits [OF demo_running_ok at(1) held _ _ _ sha])
    show "decode_payload (\<lambda>_. None) (j_payload ?j) = Some \<lparr>ep_export_type = ''tasks'', ep_format = ''csv'',
        ep_filters = no_filter, ep_row_count = 3, ep_data_as_of = zero_time\<rparr>" using demo_payload by simp
  qed (simp_all add: metadata_mismatch_def demo_complete_def demo_running_def document_product_def duration_defs)
  then obtain a s1 where run: "CompleteExport demo_hash (\<lambda>_. None) demo_complete demo_running = Inr (a, s1)" by blast
  then show ?thesis
    using export_completes_once [OF demo_running_ok at run sha refl, of "[ClaimOp (demo_claim ''x'' Hour) 0 demo_rnd]"] by blast
qed

subsection \<open>Retries\<close>

text \<open>
  Failures: a worker that reports a failure under its current lease frees the job.  A transient
  failure with attempts left queues the job again, no sooner than 2 ^ min(attempt, 8) seconds or the wait
  the worker asked for, whichever is longer, and less than one second of jitter after that; nobody can
  claim it earlier.  Any other failure ends the job and nobody can claim it again.
\<close>
theorem job_retry_policy:
  assumes "jobs_ok s" "FailJob hash rnd c s = Inr (u, s')"
  shows "\<exists>j j'. job_at s (lm_job c) = Some j \<and> lease_held hash c j \<and> job_at s' (lm_job c) = Some j'
    \<and> (let wait = max (2 ^ min (j_attempts j) 8 * Second) (fc_retry_after c) in
       if transient (fc_code c) \<and> j_attempts j < j_max_attempts j
       then j_status j' = Queued \<and> lm_now c + wait \<le> j_available_at j' \<and> j_available_at j' < lm_now c + wait + Second
            \<and> (\<forall>kinds now. claimable kinds now j' \<longrightarrow> j_available_at j' \<le> now)
       else j_status j' = Failed \<and> j_failed_at j' = Some (lm_now c) \<and> (\<forall>kinds now. \<not> claimable kinds now j'))"
proof -
  obtain j where j: "job_at s (lm_job c) = Some j" "lease_held hash c j" "job_at s' (lm_job c) = Some (failed_row rnd c j)"
    using FailJob_row [OF assms(2,1)] by blast
  have jit: "0 \<le> retryJitter rnd" "retryJitter rnd < Second" using retryJitter_bounds [of rnd] by simp_all
  show ?thesis
  proof (intro exI conjI)
    let ?b = "2 ^ min (j_attempts j) 8 * Second"
    have b: "max ?b (fc_retry_after c) \<le> backoff rnd (j_attempts j) (fc_retry_after c)"
      "backoff rnd (j_attempts j) (fc_retry_after c) < max ?b (fc_retry_after c) + Second"
      using jit by (auto simp: backoff_def Let_def max_def duration_defs)
    show "let wait = max ?b (fc_retry_after c) in
       if transient (fc_code c) \<and> j_attempts j < j_max_attempts j
       then j_status (failed_row rnd c j) = Queued \<and> lm_now c + wait \<le> j_available_at (failed_row rnd c j)
            \<and> j_available_at (failed_row rnd c j) < lm_now c + wait + Second
            \<and> (\<forall>kinds now. claimable kinds now (failed_row rnd c j) \<longrightarrow> j_available_at (failed_row rnd c j) \<le> now)
       else j_status (failed_row rnd c j) = Failed \<and> j_failed_at (failed_row rnd c j) = Some (lm_now c)
            \<and> (\<forall>kinds now. \<not> claimable kinds now (failed_row rnd c j))"
      using b by (simp add: Let_def failed_row_def claimable_def)
  qed (use j in simp_all)
qed

theorem job_retry_policy_witness:
  "\<exists>s' j'. FailJob demo_hash None \<lparr>lm_job = ''j'', lm_attempt = ''a'', lm_token = ''t'', lm_now = Minute,
       fc_code = ''rate_limited'', fc_retry_after = 0\<rparr> demo_running = Inr ((), s')
     \<and> job_at s' ''j'' = Some j' \<and> Minute + 2 * Second \<le> j_available_at j' \<and> j_status j' = Queued"
proof -
  let ?c = "\<lparr>lm_job = ''j'', lm_attempt = ''a'', lm_token = ''t'', lm_now = Minute,
       fc_code = ''rate_limited'', fc_retry_after = 0\<rparr>"
  let ?j = "demo_job\<lparr>j_status := Running, j_attempts := 1, j_current_attempt := Some ''a'',
     j_lease_hash := Some (demo_hash ''t''), j_lease := Some (2 * Minute), j_worker := Some ''w''\<rparr>"
  have held: "lease_held demo_hash ?c ?j" by (simp add: lease_held_def leaseHash_def duration_defs)
  then have q: "query_row (lease_held demo_hash ?c) (durable_jobs demo_running) = Some ?j" by (simp add: demo_running_def)
  have at: "job_at demo_running ''j'' = Some ?j" by (simp add: job_at_def demo_running_def)
  have m: "j_max_attempts demo_job = 5" by (simp add: demo_job_def)
  have check: "job_check ((clear_lease ?j)\<lparr>j_status := Queued, j_available_at := x, j_failure_code := y, j_failed_at := None\<rparr>)" for x y
    using demo_running_ok by (simp add: jobs_ok_def demo_running_def job_check_def clear_lease_def)
  obtain s' where run: "FailJob demo_hash None ?c demo_running = Inr ((), s')"
    unfolding FailJob_def q option.case Let_def using check m
    by (simp add: transient_def update_jobs_def demo_running_def)
  obtain j' where "job_at s' ''j'' = Some j'" "Minute + 2 * Second \<le> j_available_at j'" "j_status j' = Queued"
    using job_retry_policy [OF demo_running_ok run] at m by (auto simp: Let_def transient_def max_def duration_defs split: if_splits)
  then show ?thesis using run by blast
qed

end
