(* ===== verification/Paging.thy ===== *)
theory Paging
  imports Prelude
begin

text \<open>
  Lists that a client reads page by page.  The program's lists (documents, tasks, notifications, exports) share one
  contract: a page asked for with the cursor of a row holds the next rows, and the cursor of its last row when there
  are more.  The locale states it; \<^verbatim>\<open>read_all\<close> is its consequence: following the cursors reads every row once.
\<close>

text \<open>The pages a client reads by following \<^verbatim>\<open>NextCursor\<close>, at most \<^verbatim>\<open>fuel\<close> of them.\<close>

fun read_pages :: "nat \<Rightarrow> (string \<Rightarrow> ('i list \<times> string) result) \<Rightarrow> string \<Rightarrow> 'i list" where
  "read_pages 0 list cursor = []"
| "read_pages (Suc n) list cursor =
     (case list cursor of
        Inl _ \<Rightarrow> []
      | Inr (items, next) \<Rightarrow> items @ (if next = [] then [] else read_pages n list next))"

text \<open>The rows before a position and the rows after it.\<close>

definition cut_at :: "'r option \<Rightarrow> 'r list \<Rightarrow> 'r list \<Rightarrow> 'r list \<Rightarrow> bool" where
  "cut_at p rows before rest =
     (rows = before @ rest \<and> (case p of None \<Rightarrow> before = [] | Some d \<Rightarrow> \<exists>xs. before = xs @ [d]))"

locale paged_list =
  fixes ok :: bool
    and rows :: "'r list"
    and view :: "'i \<Rightarrow> 'v"
    and row_view :: "'r \<Rightarrow> 'v"
    and cursor :: "'r option \<Rightarrow> string"
    and page :: "string \<Rightarrow> ('i list \<times> string) result"
    and limit :: nat
  assumes limit_pos: "ok \<Longrightarrow> 0 < limit"
    and start: "ok \<Longrightarrow> cursor None = []"
    and more: "ok \<Longrightarrow> d \<in> set rows \<Longrightarrow> cursor (Some d) \<noteq> []"
    and page_law: "ok \<Longrightarrow> cut_at p rows before rest \<Longrightarrow>
      \<exists>items. page (cursor p) = Inr (items, if length rest > limit then cursor (Some (rest ! (limit - 1))) else [])
        \<and> map view items = map row_view (take limit rest)"
begin

lemma read_rest:
  assumes ok "cut_at p rows before rest" "length rest < fuel"
  shows "map view (read_pages fuel page (cursor p)) = map row_view rest"
  using assms(2,3)
proof (induction fuel arbitrary: before rest p)
  case (Suc fuel)
  obtain items where items: "page (cursor p) = Inr (items, if length rest > limit then cursor (Some (rest ! (limit - 1))) else [])"
    "map view items = map row_view (take limit rest)"
    using page_law [OF assms(1) Suc.prems(1)] by blast
  show ?case
  proof (cases "length rest > limit")
    case True
    let ?d = "rest ! (limit - 1)"
    have last: "take limit rest = take (limit - 1) rest @ [?d]"
      using take_Suc_conv_app_nth [of "limit - 1" rest] True limit_pos [OF assms(1)] by simp
    have rows: "rows = before @ rest" using Suc.prems(1) by (simp add: cut_at_def)
    have ne: "cursor (Some ?d) \<noteq> []" using more [OF assms(1), of ?d] True rows by simp
    have cut: "cut_at (Some ?d) rows (before @ take limit rest) (drop limit rest)"
    proof -
      have "before @ take limit rest = (before @ take (limit - 1) rest) @ [?d]" unfolding last by simp
      then show ?thesis unfolding cut_at_def option.case rows by (metis append.assoc append_take_drop_id)
    qed
    have "map view (read_pages fuel page (cursor (Some ?d))) = map row_view (drop limit rest)"
      by (rule Suc.IH [OF cut]) (use Suc.prems(2) limit_pos [OF assms(1)] True in simp)
    then have "map view (items @ read_pages fuel page (cursor (Some ?d))) = map row_view rest"
      using items(2) by (metis append_take_drop_id map_append)
    then show ?thesis using items(1) True ne by simp
  next
    case False
    then show ?thesis using items by simp
  qed
qed simp

lemma read_all: "ok \<Longrightarrow> length rows < fuel \<Longrightarrow> map view (read_pages fuel page []) = map row_view rows"
  using read_rest [of None "[]" rows fuel] start by (simp add: cut_at_def)

end

section \<open>Scanning rows\<close>

text \<open>The loop over the rows of a query: the first row that cannot be scanned ends it.\<close>

fun collect_rows :: "('r \<Rightarrow> 'a result) \<Rightarrow> 'r list \<Rightarrow> 'a list result" where
  "collect_rows f [] = Inr []"
| "collect_rows f (r # rs) =
     (case f r of Inl e \<Rightarrow> Inl e | Inr a \<Rightarrow> (case collect_rows f rs of Inl e \<Rightarrow> Inl e | Inr as \<Rightarrow> Inr (a # as)))"

lemma collect_rows_append:
  "collect_rows f (xs @ ys) = (case collect_rows f xs of Inl e \<Rightarrow> Inl e
     | Inr as \<Rightarrow> (case collect_rows f ys of Inl e \<Rightarrow> Inl e | Inr bs \<Rightarrow> Inr (as @ bs)))"
  by (induction xs) (auto split: sum.splits)

lemma collect_rows_map: "(\<And>r. r \<in> set rs \<Longrightarrow> f r = Inr (g r)) \<Longrightarrow> collect_rows f rs = Inr (map g rs)"
  by (induction rs) simp_all

lemma collect_rows_InrD: "collect_rows f rs = Inr as \<Longrightarrow> length as = length rs \<and> (\<forall>i < length rs. f (rs ! i) = Inr (as ! i))"
  by (induction rs arbitrary: as) (auto split: sum.splits simp: nth_Cons split: nat.splits)

section \<open>Pages of a sorted list\<close>

text \<open>Newest first, by a key that no two rows share.\<close>

definition descending :: "('r \<Rightarrow> 'k::linorder) \<Rightarrow> 'r list \<Rightarrow> 'r list" where
  "descending key rows = rev (sort_key key rows)"

lemma descending_filter: "descending key (filter P rows) = filter P (descending key rows)"
  by (simp add: descending_def filter_sort [symmetric] rev_filter [symmetric])

lemma set_descending [simp]: "set (descending key rows) = set rows"
  by (simp add: descending_def)

lemma length_descending [simp]: "length (descending key rows) = length rows"
  by (simp add: descending_def)

lemma descending_sorted:
  assumes "distinct (map key rows)"
  shows "sorted_wrt (\<lambda>a b. key b < key a) (descending key rows)"
proof -
  have "sorted (map key (sort_key key rows))" by simp
  moreover have "distinct (map key (sort_key key rows))" using assms by (simp add: distinct_map)
  ultimately have "sorted_wrt (<) (map key (sort_key key rows))" by (simp add: strict_sorted_iff)
  then show ?thesis by (simp add: descending_def sorted_wrt_rev sorted_wrt_map)
qed

text \<open>The rows after a position are the rows with a smaller key.\<close>

lemma rows_after:
  fixes key :: "'r \<Rightarrow> 'k::linorder"
  assumes "sorted_wrt (\<lambda>a b. key b < key a) (before @ rest)" "before = xs @ [d]"
  shows "filter (\<lambda>r. key r < key d) (before @ rest) = rest"
proof -
  have "\<not> key r < key d" if "r \<in> set before" for r
    using assms that by (auto simp: sorted_wrt_append)
  moreover have "key r < key d" if "r \<in> set rest" for r
    using assms that by (auto simp: sorted_wrt_append)
  ultimately show ?thesis by (simp add: filter_id_conv filter_empty_conv)
qed

lemma take_page:
  fixes rest :: "'r list"
  assumes "0 < limit"
  shows "take limit (take (limit + 1) rest) = take limit rest"
    and "length (take (limit + 1) rest) > limit \<longleftrightarrow> length rest > limit"
    and "length rest > limit \<Longrightarrow> take (limit + 1) rest ! (limit - 1) = rest ! (limit - 1)"
  using assms by auto

end
