(* ===== verification/Spreadsheet.thy ===== *)
theory Spreadsheet
  imports Csv Extractor Jobs Paging
begin

text \<open>
  Vendors as the users type and upload them: src/api/internal/business/business.go and spreadsheet.go.  A vendor's fields are
  normalized; a file of vendors is a CSV or an XLSX whose first row names the columns.

  Go's full Unicode case tables (\<open>casing\<close>) are an argument, and so are the zip and XML decoders of Go's library: a zip
  file is its list of files, and an XML file the tokens its decoder delivers.
\<close>

section \<open>Vendors\<close>

record contact =
  vc_id :: id
  vc_org :: id
  vc_display_name :: string
  vc_normalized_name :: string
  vc_code :: string
  vc_country :: string
  vc_tax_id :: string
  vc_branch :: string
  vc_customer :: bool
  vc_vendor :: bool
  vc_archived_at :: "time option"
  vc_created_at :: time

record vendor_input =
  vi_display_name :: string
  vi_code :: string
  vi_country :: string
  vi_tax_id :: string
  vi_branch :: string
  vi_customer :: bool

record casing =
  to_lower :: "string \<Rightarrow> string"
  to_upper :: "string \<Rightarrow> string"

text \<open>\<^verbatim>\<open>strings.Map\<close> writes every rune it keeps; an invalid byte becomes U+FFFD.\<close>

definition compactTaxID :: "string \<Rightarrow> string" where
  "compactTaxID v = concat (map (\<lambda>(r, w). if is_space r \<or> r = 45 then [] else encode_rune r) (runes (TrimSpace v)))"

definition digits :: "string \<Rightarrow> bool" where "digits v = list_all is_digit v"

definition digit_at :: "string \<Rightarrow> nat \<Rightarrow> int" where "digit_at v i = int (byte (v ! i)) - 48"

definition tax_sum :: "string \<Rightarrow> int" where
  "tax_sum v = sum_list (map (\<lambda>i. digit_at v i * (13 - int i)) [0..<12])"

definition validThaiTaxID :: "string \<Rightarrow> bool" where
  "validThaiTaxID v = (length v = 13 \<and> digits v \<and> digit_at v 12 = (11 - tax_sum v mod 11) mod 10)"

definition thai_branch :: "string \<Rightarrow> string \<Rightarrow> string" where
  "thai_branch tax branch = (if tax \<noteq> [] \<and> branch = [] then ''00000'' else branch)"

definition thai_valid :: "string \<Rightarrow> string \<Rightarrow> bool" where
  "thai_valid tax branch = ((tax = [] \<or> validThaiTaxID tax) \<and> (branch = [] \<or> (length branch = 5 \<and> digits branch)))"

definition NUL :: char where "NUL = byte_char 0"

definition NormalizeVendor :: "casing \<Rightarrow> vendor_input \<Rightarrow> contact result" where
  "NormalizeVendor g x =
     (if NUL \<in> set (vi_display_name x @ vi_code x @ vi_country x @ vi_tax_id x @ vi_branch x) then Inl Business_ErrInvalid
      else
        let name = TrimSpace (vi_display_name x);
            upper = to_upper g (TrimSpace (vi_country x));
            country = (if upper = [] then ''TH'' else upper);
            tax = compactTaxID (vi_tax_id x);
            given = TrimSpace (vi_branch x);
            branch = (if country = ''TH'' then thai_branch tax given else given)
        in if rune_count name < 1 \<or> rune_count name > 240 then Inl Business_ErrInvalid
           else if length country \<noteq> 2 then Inl Business_ErrInvalid
           else if country = ''TH'' \<and> \<not> thai_valid tax branch then Inl Business_ErrInvalid
           else if rune_count tax > 64 \<or> rune_count branch > 32 \<or> rune_count (vi_code x) > 64 then Inl Business_ErrInvalid
           else Inr \<lparr>vc_id = [], vc_org = [], vc_display_name = name, vc_normalized_name = to_lower g name,
                  vc_code = TrimSpace (vi_code x), vc_country = country, vc_tax_id = tax, vc_branch = branch,
                  vc_customer = vi_customer x, vc_vendor = True, vc_archived_at = None, vc_created_at = zero_time\<rparr>)"

section \<open>Writing vendors\<close>

definition vendor_header :: "string list" where
  "vendor_header = [''vendor_id'', ''display_name'', ''contact_code'', ''country'', ''tax_id'', ''branch_code'', ''roles'']"

definition vendor_spaces :: "char list" where "vendor_spaces = [CHR '' '', byte_char 9, CR, LF]"

definition spreadsheetFormula :: "string \<Rightarrow> bool" where
  "spreadsheetFormula v =
     (let trimmed = dropWhile (\<lambda>c. c \<in> set vendor_spaces) v in trimmed \<noteq> [] \<and> hd trimmed \<in> set ''=+-@'')"

definition vendor_record :: "contact \<Rightarrow> bool \<Rightarrow> string list" where
  "vendor_record c protect =
     (let roles = (if vc_customer c then ''Customer,Vendor'' else ''Vendor'');
          values = [vc_id c, vc_display_name c, vc_code c, vc_country c, vc_tax_id c, vc_branch c, roles]
      in if protect then map (\<lambda>v. if spreadsheetFormula v then apostrophe # v else v) values else values)"

definition WriteVendorCSV :: "contact list \<Rightarrow> string" where
  "WriteVendorCSV contacts = byte_order_mark @ csv_text (vendor_header # map (\<lambda>c. vendor_record c True) contacts)"

text \<open>The cells of the worksheet \<^verbatim>\<open>WriteXLSX\<close> writes, each with its reference; the text around them is fixed.\<close>

definition vendor_cells :: "contact list \<Rightarrow> (string \<times> string) list list" where
  "vendor_cells contacts =
     (let rows = vendor_header # map (\<lambda>c. vendor_record c False) contacts in
      map (\<lambda>(i, row). map (\<lambda>(j, v). (spreadsheetColumn (int j) @ Itoa (int i + 1), v)) (enumerate 0 row)) (enumerate 0 rows))"

section \<open>Reading rows\<close>

definition maxImportBytes :: nat where "maxImportBytes = 10485760"
definition maxExpanded :: nat where "maxExpanded = 67108864"
definition maxRows :: nat where "maxRows = 10000"
definition maxColumns :: nat where "maxColumns = 50"
definition maxCellRunes :: nat where "maxCellRunes = 10000"

text \<open>The columns by their English and Thai names.\<close>

definition column_key :: "string \<Rightarrow> string option" where
  "column_key h =
     (if h \<in> {''display_name'', ''name'', thai [3594, 3639, 3656, 3629], thai [3594, 3639, 3656, 3629, 3607, 3637, 3656, 3649, 3626, 3604, 3591]}
      then Some ''display_name''
      else if h \<in> {''contact_code'', thai [3619, 3627, 3633, 3626, 3588, 3641, 3656, 3588, 3657, 3634]} then Some ''contact_code''
      else if h \<in> {''country'', thai [3611, 3619, 3632, 3648, 3607, 3624]} then Some ''country''
      else if h \<in> {''tax_id'', thai [3648, 3621, 3586, 3611, 3619, 3632, 3592, 3635, 3605, 3633, 3623, 3612, 3641, 3657, 3648, 3626,
             3637, 3618, 3616, 3634, 3625, 3637]} then Some ''tax_id''
      else if h \<in> {''branch_code'', thai [3619, 3627, 3633, 3626, 3626, 3634, 3586, 3634]} then Some ''branch_code''
      else None)"

fun set_columns :: "casing \<Rightarrow> nat \<Rightarrow> string list \<Rightarrow> (string \<times> nat) list \<Rightarrow> (string \<times> nat) list option" where
  "set_columns g i [] columns = Some columns"
| "set_columns g i (h # hs) columns =
     (case column_key (to_lower g (TrimSpace h)) of
        None \<Rightarrow> set_columns g (i + 1) hs columns
      | Some key \<Rightarrow> if map_of columns key \<noteq> None then None else set_columns g (i + 1) hs ((key, i) # columns))"

definition cell_of :: "(string \<times> nat) list \<Rightarrow> string list \<Rightarrow> string \<Rightarrow> string" where
  "cell_of columns row key = (case map_of columns key of None \<Rightarrow> [] | Some i \<Rightarrow> if i \<ge> length row then [] else row ! i)"

definition row_input :: "(string \<times> nat) list \<Rightarrow> string list \<Rightarrow> vendor_input" where
  "row_input columns row =
     (let v = cell_of columns row in
      \<lparr>vi_display_name = v ''display_name'', vi_code = v ''contact_code'', vi_country = v ''country'', vi_tax_id = v ''tax_id'',
       vi_branch = v ''branch_code'', vi_customer = False\<rparr>)"

definition importRows :: "casing \<Rightarrow> string list list \<Rightarrow> contact list result" where
  "importRows g rows =
     (if length rows < 2 \<or> length rows > maxRows + 1 then Inl Business_ErrInvalid
      else case set_columns g 0 (hd rows) [] of
        None \<Rightarrow> Inl Business_ErrInvalid
      | Some columns \<Rightarrow>
          if map_of columns ''display_name'' = None then Inl Business_ErrInvalid
          else case collect_rows (\<lambda>row. NormalizeVendor g (row_input columns row)) (tl rows) of
            Inl _ \<Rightarrow> Inl Business_ErrInvalid
          | Inr contacts \<Rightarrow> Inr contacts)"

section \<open>Reading CSV\<close>

definition cell_ok :: "string \<Rightarrow> bool" where
  "cell_ok v = (rune_count v \<le> maxCellRunes \<and> NUL \<notin> set v \<and> \<not> spreadsheetFormula v)"

definition record_ok :: "string list \<Rightarrow> bool" where
  "record_ok r = (length r \<le> maxColumns \<and> list_all cell_ok r)"

text \<open>The loop reads at most one record more than \<^verbatim>\<open>maxRows\<close>; \<open>fuel\<close> is how many it may still read.\<close>

fun read_rows :: "nat \<Rightarrow> string \<Rightarrow> string list list option" where
  "read_rows 0 cs = Some []"
| "read_rows (Suc n) cs =
     (case dropWhile (\<lambda>c. c = LF) cs of
        [] \<Rightarrow> Some []
      | c # left \<Rightarrow>
          (case csv_record (c # left) of
             None \<Rightarrow> None
           | Some (r, rest) \<Rightarrow> if record_ok r then map_option ((#) r) (read_rows n rest) else None))"

definition parseCSV :: "casing \<Rightarrow> string \<Rightarrow> contact list result" where
  "parseCSV g data =
     (case read_rows (maxRows + 1) (csv_normal (trim_prefix data byte_order_mark)) of
        None \<Rightarrow> Inl Business_ErrInvalid
      | Some rows \<Rightarrow> importRows g rows)"

section \<open>Reading XLSX\<close>

datatype xml_token =
    StartElement string "(string \<times> string) list"
  | CharData string
  | EndElement string
  | OtherToken

text \<open>A file of the archive: its name, its size, and the tokens of its content with whether they end in \<^verbatim>\<open>io.EOF\<close>; none
  when it cannot be opened.\<close>

record zip_file =
  zf_name :: string
  zf_size :: nat
  zf_tokens :: "(xml_token list \<times> bool) option"

definition xml_attribute :: "(string \<times> string) list \<Rightarrow> string \<Rightarrow> string" where
  "xml_attribute attrs name = value_of attrs name"

text \<open>Shared strings: the finished values, the text of the current item, and whether the reader is in an item and in a text.\<close>

definition shared_token :: "xml_token \<Rightarrow> string list \<times> string \<times> bool \<times> bool \<Rightarrow> string list \<times> string \<times> bool \<times> bool" where
  "shared_token token = (\<lambda>(values, current, item, text).
     case token of
       StartElement name _ \<Rightarrow>
         let item' = (name = ''si'' \<or> item) in (values, (if name = ''si'' then [] else current), item', item' \<and> name = ''t'')
     | CharData v \<Rightarrow> (values, (if text then current @ v else current), item, text)
     | EndElement name \<Rightarrow>
         (if name = ''si'' then (values @ [current], current, False, text \<and> name \<noteq> ''t'')
          else (values, current, item, text \<and> name \<noteq> ''t''))
     | OtherToken \<Rightarrow> (values, current, item, text))"

definition readSharedStrings :: "zip_file \<Rightarrow> string list option" where
  "readSharedStrings f =
     (case zf_tokens f of
        None \<Rightarrow> None
      | Some (tokens, eof) \<Rightarrow> if eof then Some (fst (fold shared_token tokens ([], [], False, False))) else None)"

text \<open>\<^verbatim>\<open>int\<close> has 64 bits.\<close>

definition wrap64 :: "int \<Rightarrow> int" where "wrap64 i = (i + 2 ^ 63) mod 2 ^ 64 - 2 ^ 63"

definition cellColumn :: "string \<Rightarrow> int" where
  "cellColumn ref =
     (let letters = takeWhile (\<lambda>c. 65 \<le> byte c \<and> byte c \<le> 90) ref in
      if letters = [] then - 1 else wrap64 (fold (\<lambda>c n. wrap64 (n * 26 + int (byte c) - 64)) letters 0 - 1))"

record sheet =
  sh_rows :: "string list list"
  sh_row :: "string list"
  sh_type :: string
  sh_ref :: string
  sh_value :: string
  sh_in_value :: bool
  sh_in_text :: bool

definition put_cell :: "string list \<Rightarrow> nat \<Rightarrow> string \<Rightarrow> string list" where
  "put_cell row column v = (row @ replicate (column + 1 - length row) [])[column := v]"

definition end_cell :: "string list \<Rightarrow> sheet \<Rightarrow> sheet option" where
  "end_cell shared st =
     (let column = cellColumn (sh_ref st) in
      if column < 0 \<or> column \<ge> int maxColumns then None
      else case (if sh_type st \<noteq> ''s'' then Some (sh_value st)
                 else case Atoi (sh_value st) of
                   None \<Rightarrow> None
                 | Some i \<Rightarrow> if i < 0 \<or> i \<ge> int (length shared) then None else Some (shared ! nat i)) of
        None \<Rightarrow> None
      | Some v \<Rightarrow>
          if rune_count v > maxCellRunes \<or> NUL \<in> set v then None
          else Some (st\<lparr>sh_value := v, sh_row := put_cell (sh_row st) (nat column) v\<rparr>))"

definition sheet_token :: "string list \<Rightarrow> sheet \<Rightarrow> xml_token \<Rightarrow> sheet option" where
  "sheet_token shared st token =
     (case token of
        StartElement name attrs \<Rightarrow>
          if name = ''row'' then Some (st\<lparr>sh_row := []\<rparr>)
          else if name = ''c'' then Some (st\<lparr>sh_type := xml_attribute attrs ''t'', sh_ref := xml_attribute attrs ''r'', sh_value := []\<rparr>)
          else if name = ''f'' then None
          else if name = ''v'' then Some (st\<lparr>sh_in_value := True\<rparr>)
          else if name = ''t'' then Some (st\<lparr>sh_in_text := True\<rparr>)
          else Some st
      | CharData v \<Rightarrow> Some (if sh_in_value st \<or> sh_in_text st then st\<lparr>sh_value := sh_value st @ v\<rparr> else st)
      | EndElement name \<Rightarrow>
          if name = ''v'' then Some (st\<lparr>sh_in_value := False\<rparr>)
          else if name = ''t'' then Some (st\<lparr>sh_in_text := False\<rparr>)
          else if name = ''c'' then end_cell shared st
          else if name = ''row'' then
            (if length (sh_rows st) + 1 > maxRows + 1 then None else Some (st\<lparr>sh_rows := sh_rows st @ [sh_row st]\<rparr>))
          else Some st
      | OtherToken \<Rightarrow> Some st)"

fun sheet_tokens :: "string list \<Rightarrow> xml_token list \<Rightarrow> sheet \<Rightarrow> sheet option" where
  "sheet_tokens shared [] st = Some st"
| "sheet_tokens shared (t # ts) st = (case sheet_token shared st t of None \<Rightarrow> None | Some st' \<Rightarrow> sheet_tokens shared ts st')"

definition empty_sheet :: sheet where
  "empty_sheet = \<lparr>sh_rows = [], sh_row = [], sh_type = [], sh_ref = [], sh_value = [], sh_in_value = False, sh_in_text = False\<rparr>"

definition readSheet :: "zip_file \<Rightarrow> string list \<Rightarrow> string list list option" where
  "readSheet f shared =
     (case zf_tokens f of
        None \<Rightarrow> None
      | Some (tokens, eof) \<Rightarrow>
          (case sheet_tokens shared tokens empty_sheet of None \<Rightarrow> None | Some st \<Rightarrow> if eof then Some (sh_rows st) else None))"

text \<open>The loop over the files; the sum of the sizes is a \<^verbatim>\<open>uint64\<close>.\<close>

record workbook =
  wb_expanded :: nat
  wb_sheet :: "zip_file option"
  wb_shared :: "string list"
  wb_worksheets :: nat

definition workbook_file :: "casing \<Rightarrow> workbook \<Rightarrow> zip_file \<Rightarrow> workbook option" where
  "workbook_file g w f =
     (let expanded = (wb_expanded w + zf_size f) mod 2 ^ 64; name = to_lower g (zf_name f) in
      if expanded > maxExpanded \<or> contains name ''vbaproject'' \<or> contains name ''externallinks/'' \<or> contains name ''../'' then None
      else
        let worksheet = has_prefix name ''xl/worksheets/'' \<and> has_suffix name ''.xml'';
            w1 = w\<lparr>wb_expanded := expanded, wb_sheet := (if worksheet then Some f else wb_sheet w),
                   wb_worksheets := wb_worksheets w + (if worksheet then 1 else 0)\<rparr>
        in if name = ''xl/sharedstrings.xml''
           then map_option (\<lambda>shared. w1\<lparr>wb_shared := shared\<rparr>) (readSharedStrings f) else Some w1)"

fun workbook_files :: "casing \<Rightarrow> zip_file list \<Rightarrow> workbook \<Rightarrow> workbook option" where
  "workbook_files g [] w = Some w"
| "workbook_files g (f # fs) w = (case workbook_file g w f of None \<Rightarrow> None | Some w' \<Rightarrow> workbook_files g fs w')"

definition parseXLSX :: "casing \<Rightarrow> (string \<Rightarrow> zip_file list option) \<Rightarrow> string \<Rightarrow> contact list result" where
  "parseXLSX g unzip data =
     (case unzip data of
        None \<Rightarrow> Inl Business_ErrInvalid
      | Some archive \<Rightarrow>
          if length archive > 100 then Inl Business_ErrInvalid
          else case workbook_files g archive \<lparr>wb_expanded = 0, wb_sheet = None, wb_shared = [], wb_worksheets = 0\<rparr> of
            None \<Rightarrow> Inl Business_ErrInvalid
          | Some w \<Rightarrow>
              (case (if wb_worksheets w = 1 then wb_sheet w else None) of
                 None \<Rightarrow> Inl Business_ErrInvalid
               | Some f \<Rightarrow> (case readSheet f (wb_shared w) of None \<Rightarrow> Inl Business_ErrInvalid | Some rows \<Rightarrow> importRows g rows)))"

text \<open>\<^verbatim>\<open>filepath.Ext\<close>: from the last dot of the last element.\<close>

definition Ext :: "string \<Rightarrow> string" where
  "Ext path =
     (let base = takeWhile (\<lambda>c. c \<noteq> CHR ''/'') (rev path); tail = takeWhile (\<lambda>c. c \<noteq> CHR ''.'') base in
      if CHR ''.'' \<in> set base then CHR ''.'' # rev tail else [])"

definition csv_media_types :: "string list" where
  "csv_media_types = [[], ''text/csv'', ''application/csv'', ''application/vnd.ms-excel'', ''text/plain'', ''application/octet-stream'']"

definition ParseImport :: "casing \<Rightarrow> (string \<Rightarrow> zip_file list option) \<Rightarrow> string \<Rightarrow> string \<Rightarrow> string \<Rightarrow> contact list result" where
  "ParseImport g unzip filename content_type data =
     (if data = [] \<or> length data > maxImportBytes then Inl Business_ErrInvalid
      else
        let extension = to_lower g (Ext filename) in
        if extension = ''.csv'' then
          (if to_lower g (TrimSpace (hd (split2 (CHR '';'') content_type))) \<in> set csv_media_types then parseCSV g data
           else Inl Business_ErrInvalid)
        else if extension = ''.xlsx'' then
          (if content_type \<noteq> ''application/vnd.openxmlformats-officedocument.spreadsheetml.sheet'' \<or> length data < 4 \<or> take 2 data \<noteq> ''PK''
           then Inl Business_ErrInvalid else parseXLSX g unzip data)
        else Inl Business_ErrInvalid)"

section \<open>UTF-8 round trip\<close>

definition scalar :: "nat \<Rightarrow> bool" where "scalar r = (r < 55296 \<or> (57344 \<le> r \<and> r < 1114112))"

lemma continuation_bounds: "continuation c \<Longrightarrow> byte c - 128 < 64 \<and> 128 \<le> byte c"
  unfolding continuation_def by linarith

lemma scalar_three:
  assumes "224 \<le> b" "b < 240" "continuation c1" "continuation c2" "b = 237 \<longrightarrow> byte c1 < 160"
  shows "scalar ((b - 224) * 4096 + (byte c1 - 128) * 64 + (byte c2 - 128))"
proof -
  define m n where "m = byte c1 - 128" and "n = byte c2 - 128"
  have mn: "m < 64" "n < 64" "b = 237 \<longrightarrow> m < 32"
    using continuation_bounds [OF assms(3)] continuation_bounds [OF assms(4)] assms(5) by (auto simp: m_def n_def)
  consider "b - 224 < 13" | "b - 224 = 13" | "13 < b - 224" "b - 224 \<le> 15" using assms(1,2) by linarith
  then have "scalar ((b - 224) * 4096 + m * 64 + n)"
  proof cases
    case 1
    then have "(b - 224) * 4096 \<le> 12 * 4096" by simp
    then show ?thesis using mn by (simp add: scalar_def)
  next
    case 2
    moreover from this have "b = 237" using assms(1) by linarith
    ultimately show ?thesis using mn by (simp add: scalar_def)
  next
    case 3
    then have "14 * 4096 \<le> (b - 224) * 4096" "(b - 224) * 4096 \<le> 15 * 4096" by simp_all
    then show ?thesis using mn by (simp add: scalar_def)
  qed
  then show ?thesis by (simp add: m_def n_def)
qed

lemma scalar_four:
  assumes "240 \<le> b" "b < 245" "continuation c1" "continuation c2" "continuation c3" "b = 240 \<longrightarrow> 144 \<le> byte c1" "b = 244 \<longrightarrow> byte c1 < 144"
  shows "scalar ((b - 240) * 262144 + (byte c1 - 128) * 4096 + (byte c2 - 128) * 64 + (byte c3 - 128))"
proof -
  define m n k where "m = byte c1 - 128" and "n = byte c2 - 128" and "k = byte c3 - 128"
  have mn: "m < 64" "n < 64" "k < 64" "b = 240 \<longrightarrow> 16 \<le> m" "b = 244 \<longrightarrow> m < 16"
    using continuation_bounds [OF assms(3)] continuation_bounds [OF assms(4)] continuation_bounds [OF assms(5)] assms(6,7)
    by (auto simp: m_def n_def k_def)
  consider "b = 240" | "b = 244" | "1 \<le> b - 240" "b - 240 \<le> 3" using assms(1,2) by linarith
  then have "scalar ((b - 240) * 262144 + m * 4096 + n * 64 + k)"
  proof cases
    case 3
    then have "262144 \<le> (b - 240) * 262144" "(b - 240) * 262144 \<le> 3 * 262144" by simp_all
    then show ?thesis using mn by (simp add: scalar_def)
  qed (use mn in \<open>simp_all add: scalar_def\<close>)
  then show ?thesis by (simp add: m_def n_def k_def)
qed

lemma scalar_two: "b < 224 \<Longrightarrow> continuation c \<Longrightarrow> scalar ((b - 192) * 64 + (byte c - 128))"
proof -
  assume "b < 224" "continuation c"
  then have "b - 192 \<le> 31" "byte c - 128 < 64" using continuation_bounds by simp_all
  then have "(b - 192) * 64 \<le> 31 * 64" by simp
  then show ?thesis using \<open>byte c - 128 < 64\<close> by (simp add: scalar_def)
qed

lemma scalar_decode: "scalar (fst (decode_rune s))"
proof (cases s)
  case (Cons c rest)
  have bad: "scalar 65533" by (simp add: scalar_def)
  consider "byte c < 128" | "194 \<le> byte c" "byte c < 224" | "224 \<le> byte c" "byte c < 240" | "240 \<le> byte c" "byte c < 245"
    | "128 \<le> byte c" "byte c < 194" | "245 \<le> byte c" by linarith
  then show ?thesis
  proof cases
    case 1
    then show ?thesis by (simp add: Cons decode_rune_def Let_def scalar_def)
  next
    case 2
    then show ?thesis using bad scalar_two by (simp add: Cons decode_rune_def Let_def split: list.split)
  next
    case 3
    then show ?thesis using bad scalar_three [of "byte c"] by (simp add: Cons decode_rune_def Let_def split: list.split)
  next
    case 4
    then show ?thesis using bad scalar_four [of "byte c"] by (simp add: Cons decode_rune_def Let_def split: list.split)
  next
    case 5
    then show ?thesis using bad by (simp add: Cons decode_rune_def Let_def)
  next
    case 6
    then show ?thesis using bad by (simp add: Cons decode_rune_def Let_def)
  qed
qed (simp add: decode_rune_def scalar_def)

lemma continuation_char: "n < 64 \<Longrightarrow> continuation (byte_char (128 + n)) \<and> byte (byte_char (128 + n)) = 128 + n"
  by (simp add: continuation_def)

lemma decode_three:
  assumes "a < 16" "b < 64" "c < 64" "a = 0 \<longrightarrow> 32 \<le> b" "a = 13 \<longrightarrow> b < 32"
  shows "decode_rune (byte_char (224 + a) # byte_char (128 + b) # byte_char (128 + c) # s) = (a * 4096 + b * 64 + c, 3)"
  using assms continuation_char [OF assms(2)] continuation_char [OF assms(3)] by (simp add: decode_rune_def Let_def)

lemma decode_four:
  assumes "a < 5" "b < 64" "c < 64" "d < 64" "a = 0 \<longrightarrow> 16 \<le> b" "a = 4 \<longrightarrow> b < 16"
  shows "decode_rune (byte_char (240 + a) # byte_char (128 + b) # byte_char (128 + c) # byte_char (128 + d) # s)
    = (a * 262144 + b * 4096 + c * 64 + d, 4)"
  using assms continuation_char [OF assms(2)] continuation_char [OF assms(3)] continuation_char [OF assms(4)]
  by (simp add: decode_rune_def Let_def)

lemma base64_parts: "(r :: nat) div 4096 * 4096 + r div 64 mod 64 * 64 + r mod 64 = r"
proof -
  have "r div 64 = r div 4096 * 64 + r div 64 mod 64" using div_mult_mod_eq [of "r div 64" 64] by (simp add: div_mult2_eq [symmetric])
  then show ?thesis using div_mult_mod_eq [of r 64] by linarith
qed

lemma decode_encode:
  assumes "scalar r" shows "decode_rune (encode_rune r @ s) = (r, length (encode_rune r))"
proof -
  have small: "r div 64 mod 64 < 64" "r mod 64 < 64" by simp_all
  consider "r < 128" | "128 \<le> r" "r < 2048" | "2048 \<le> r" "r < 65536" | "65536 \<le> r" "r < 1114112"
    using assms by (fastforce simp: scalar_def)
  then show ?thesis
  proof cases
    case 1
    then show ?thesis by (simp add: encode_rune_def decode_rune_def)
  next
    case 2
    then have q: "r div 64 < 32" "2 \<le> r div 64" by (auto simp: less_mult_imp_div_less div_le_mono [of 128 r 64, simplified])
    show ?thesis using 2 q continuation_char [of "r mod 64"] by (simp add: encode_rune_def decode_rune_def Let_def)
  next
    case 3
    let ?a = "r div 4096" and ?b = "r div 64 mod 64" and ?c = "r mod 64"
    have q: "?a < 16" using 3(2) by (simp add: less_mult_imp_div_less)
    have low: "?a = 0 \<longrightarrow> 32 \<le> ?b" using base64_parts [of r] 3(1) small by linarith
    have sur: "?a = 13 \<longrightarrow> ?b < 32"
    proof (intro impI, rule ccontr)
      assume "?a = 13" "\<not> ?b < 32"
      then have "55296 \<le> r" "r < 57344" using base64_parts [of r] small by linarith+
      then show False using assms by (simp add: scalar_def)
    qed
    have "encode_rune r = [byte_char (224 + ?a), byte_char (128 + ?b), byte_char (128 + ?c)]" using 3 by (simp add: encode_rune_def)
    then show ?thesis using decode_three [OF q small low sur, of s] base64_parts [of r] by simp
  next
    case 4
    let ?a = "r div 262144" and ?b = "r div 4096 mod 64" and ?c = "r div 64 mod 64" and ?d = "r mod 64"
    have q: "?a < 5" using 4(2) by (simp add: less_mult_imp_div_less)
    have b: "?b < 64" by simp
    have "r div 4096 = ?a * 64 + ?b" using div_mult_mod_eq [of "r div 4096" 64] by (simp add: div_mult2_eq [symmetric])
    then have parts: "?a * 262144 + ?b * 4096 + ?c * 64 + ?d = r" using base64_parts [of r] by linarith
    have low: "?a = 0 \<longrightarrow> 16 \<le> ?b" using parts 4(1) b small by linarith
    have high: "?a = 4 \<longrightarrow> ?b < 16" using parts 4(2) by linarith
    have "encode_rune r = [byte_char (240 + ?a), byte_char (128 + ?b), byte_char (128 + ?c), byte_char (128 + ?d)]"
      using 4 by (simp add: encode_rune_def)
    then show ?thesis using decode_four [OF q b small low high, of s] parts by simp
  qed
qed

lemma encode_rune_not_Nil [simp]: "encode_rune r \<noteq> []"
  by (simp add: encode_rune_def)

lemma runes_encoded: "list_all scalar rs \<Longrightarrow> runes (concat (map encode_rune rs)) = map (\<lambda>r. (r, encode_rune r)) rs"
proof (induction rs)
  case (Cons r rs)
  obtain c cs where c: "encode_rune r @ concat (map encode_rune rs) = c # cs" by (cases "encode_rune r") auto
  have "decode_rune (c # cs) = (r, length (encode_rune r))"
    using decode_encode [of r "concat (map encode_rune rs)"] Cons.prems by (simp add: c)
  then have "runes (c # cs) = (r, take (length (encode_rune r)) (c # cs)) # runes (drop (length (encode_rune r)) (c # cs))"
    by simp
  then show ?case using Cons by (simp add: c [symmetric])
qed simp

lemma runes_scalar: "list_all (\<lambda>r. scalar (fst r)) (runes s)"
proof (induction s rule: runes.induct)
  case (2 c cs)
  show ?case using scalar_decode [of "c # cs"] 2 [of "decode_rune (c # cs)" "fst (decode_rune (c # cs))" "snd (decode_rune (c # cs))"]
    by (simp add: split_beta)
qed simp

section \<open>Normalization\<close>

lemma TrimSpace_idem [simp]: "TrimSpace (TrimSpace s) = TrimSpace s"
proof -
  let ?P = "\<lambda>r. is_space (fst r)"
  let ?t = "rev (dropWhile ?P (rev (dropWhile ?P (runes s))))"
  have "?t = [] \<or> \<not> ?P (last ?t)"
    by (metis (no_types, lifting) hd_dropWhile last_rev rev_is_Nil_conv)
  moreover have "?t = [] \<or> \<not> ?P (hd ?t)"
  proof -
    let ?u = "dropWhile ?P (runes s)"
    have "?u = ?t @ rev (takeWhile ?P (rev ?u))" by (metis rev_append rev_rev_ident takeWhile_dropWhile_id)
    then show ?thesis by (metis hd_append hd_dropWhile append_is_Nil_conv)
  qed
  ultimately have "dropWhile ?P ?t = ?t" "dropWhile ?P (rev ?t) = rev ?t"
    by (metis dropWhile_eq_self_iff, metis dropWhile_eq_self_iff hd_rev rev_is_Nil_conv)
  then have "rev (dropWhile ?P (rev (dropWhile ?P ?t))) = ?t" by simp
  moreover have "runes (TrimSpace s) = ?t" by (simp add: TrimSpace_runes trim_right_runes_def trim_left_runes_def)
  ultimately show ?thesis by (simp add: TrimSpace_def trim_right_runes_def trim_left_runes_def)
qed

definition tax_runes :: "string \<Rightarrow> nat list" where
  "tax_runes v = filter (\<lambda>r. \<not> is_space r \<and> r \<noteq> 45) (map fst (runes (TrimSpace v)))"

lemma compactTaxID_runes: "compactTaxID v = concat (map encode_rune (tax_runes v))"
proof -
  have "concat (map (\<lambda>(r, w). if is_space r \<or> r = 45 then [] else encode_rune r) xs)
      = concat (map encode_rune (filter (\<lambda>r. \<not> is_space r \<and> r \<noteq> 45) (map fst xs)))" for xs :: "(nat \<times> string) list"
    by (induction xs) auto
  then show ?thesis by (simp add: compactTaxID_def tax_runes_def)
qed

lemma compactTaxID_idem: "compactTaxID (compactTaxID v) = compactTaxID v"
proof -
  have "list_all scalar (tax_runes v)" using runes_scalar [of "TrimSpace v"] by (auto simp: tax_runes_def list_all_iff)
  then have r: "runes (compactTaxID v) = map (\<lambda>r. (r, encode_rune r)) (tax_runes v)" by (simp add: compactTaxID_runes runes_encoded)
  have "list_all (\<lambda>r. \<not> is_space (fst r)) (runes (compactTaxID v))" by (auto simp: r list_all_iff tax_runes_def)
  then have "TrimSpace (compactTaxID v) = compactTaxID v" by (rule TrimSpace_solid)
  then have "tax_runes (compactTaxID v) = tax_runes v" by (simp add: tax_runes_def [of "compactTaxID v"] r) (simp add: tax_runes_def comp_def)
  then show ?thesis by (simp add: compactTaxID_runes)
qed

text \<open>The documented behaviour of Go's case tables on ASCII, and the countries the table of contacts accepts.\<close>

definition ascii_casing :: "casing \<Rightarrow> bool" where
  "ascii_casing g = (\<forall>s. list_all (\<lambda>c. byte c < 128) s \<longrightarrow> to_lower g s = ascii_lower s \<and> to_upper g s = ascii_upper s)"

definition iso_country :: "string \<Rightarrow> bool" where
  "iso_country v = (length v = 2 \<and> list_all (\<lambda>c. 65 \<le> byte c \<and> byte c \<le> 90) v)"

definition input_of :: "contact \<Rightarrow> vendor_input" where
  "input_of c = \<lparr>vi_display_name = vc_display_name c, vi_code = vc_code c, vi_country = vc_country c, vi_tax_id = vc_tax_id c,
     vi_branch = vc_branch c, vi_customer = vc_customer c\<rparr>"

lemma TrimSpace_count: "rune_count (TrimSpace v) \<le> rune_count v"
  using length_dropWhile_le [of "\<lambda>r. is_space (fst r)" "rev (dropWhile (\<lambda>r. is_space (fst r)) (runes v))"]
    length_dropWhile_le [of "\<lambda>r. is_space (fst r)" "runes v"]
  by (simp add: rune_count_def TrimSpace_runes trim_right_runes_def trim_left_runes_def)

lemma set_runes: "set v = (\<Union>r \<in> set (runes v). set (snd r))"
  using arg_cong [OF unrunes_runes [of v], of set] by (simp add: unrunes_def)

lemma TrimSpace_chars: "set (TrimSpace v) \<subseteq> set v"
  unfolding set_runes [of "TrimSpace v"] set_runes [of v] using TrimSpace_runes_subset by blast

lemma decode_zero: "fst (decode_rune (c # cs)) = 0 \<Longrightarrow> c = NUL"
proof -
  assume z: "fst (decode_rune (c # cs)) = 0"
  have "byte c = 0"
  proof (rule ccontr)
    assume pos: "byte c \<noteq> 0"
    consider "byte c < 128" | "194 \<le> byte c" "byte c < 224" | "224 \<le> byte c" "byte c < 240" | "240 \<le> byte c" "byte c < 245"
      | "128 \<le> byte c" "byte c < 194" | "245 \<le> byte c" by linarith
    then show False
    proof cases
      case 1
      then show ?thesis using z pos by (simp add: decode_rune_def Let_def)
    next
      case 2
      then show ?thesis using z by (simp add: decode_rune_def Let_def split: list.splits if_splits)
    next
      case 3
      then show ?thesis using z by (auto simp: decode_rune_def Let_def split: list.splits if_splits)
    next
      case 4
      then show ?thesis using z by (auto simp: decode_rune_def Let_def split: list.splits if_splits)
    next
      case 5
      then show ?thesis using z by (simp add: decode_rune_def Let_def)
    next
      case 6
      then show ?thesis using z by (simp add: decode_rune_def Let_def)
    qed
  qed
  then show "c = NUL" by (metis NUL_def byte_char_byte)
qed

lemma rune_zero: "0 \<in> fst ` set (runes v) \<Longrightarrow> NUL \<in> set v"
proof (induction v rule: runes.induct)
  case (2 c cs)
  let ?d = "decode_rune (c # cs)"
  show ?case
  proof (cases "fst ?d = 0")
    case True
    then show ?thesis using decode_zero [of c cs] by simp
  next
    case False
    then have "0 \<in> fst ` set (runes (drop (snd ?d) (c # cs)))" using "2.prems" by (simp add: split_beta)
    then have "NUL \<in> set (drop (snd ?d) (c # cs))" using "2.IH" [of ?d "fst ?d" "snd ?d"] by simp
    then show ?thesis by (meson in_set_dropD)
  qed
qed simp

lemma encode_rune_NUL: "scalar r \<Longrightarrow> NUL \<in> set (encode_rune r) \<Longrightarrow> r = 0"
proof -
  have n: "NUL = byte_char k \<longleftrightarrow> k = 0" if "k < 256" for k using that by (metis NUL_def byte_byte_char zero_less_numeral)
  assume "scalar r" "NUL \<in> set (encode_rune r)"
  moreover have "192 + r div 64 < 256" if "r < 2048" using that by (simp add: less_mult_imp_div_less)
  moreover have "224 + r div 4096 < 256" if "r < 65536" using less_mult_imp_div_less [of r 16 4096] that by simp
  moreover have "240 + r div 262144 < 256" if "r < 1114112" using less_mult_imp_div_less [of r 5 262144] that by simp
  moreover have "128 + k mod 64 < 256" for k :: nat using mod_less_divisor [of 64 k] by linarith
  ultimately show "r = 0" by (auto simp: encode_rune_def n scalar_def split: if_splits)
qed

lemma compactTaxID_NUL: "NUL \<in> set (compactTaxID v) \<Longrightarrow> NUL \<in> set v"
proof -
  assume "NUL \<in> set (compactTaxID v)"
  then obtain r where r: "r \<in> set (tax_runes v)" "NUL \<in> set (encode_rune r)" by (auto simp: compactTaxID_runes)
  then obtain w where w: "(r, w) \<in> set (runes (TrimSpace v))" by (auto simp: tax_runes_def)
  then have "scalar r" using runes_scalar [of "TrimSpace v"] by (auto simp: list_all_iff)
  then have "r = 0" using encode_rune_NUL r(2) by blast
  then have "NUL \<in> set (TrimSpace v)" using w by (intro rune_zero) force
  then show "NUL \<in> set v" using TrimSpace_chars by blast
qed

lemma iso_country_fixed:
  assumes "ascii_casing g" "iso_country v" shows "to_upper g (TrimSpace v) = v" "v \<noteq> []" "NUL \<notin> set v" "length v = 2"
proof -
  have v: "length v = 2" "\<forall>c \<in> set v. 65 \<le> byte c \<and> byte c \<le> 90" using assms(2) by (simp_all add: iso_country_def list_all_iff)
  then have "v \<noteq> []" by auto
  moreover from this have "TrimSpace v = v" using v(2) by (intro TrimSpace_ascii_solid) auto
  moreover have "ascii_upper v = v" unfolding ascii_upper_def using v(2) by (intro map_idI) (auto simp: ascii_upper_char_def)
  moreover have "NUL \<notin> set v" using v(2) by (metis NUL_def byte_byte_char not_numeral_le_zero zero_less_numeral)
  moreover have "list_all (\<lambda>c. byte c < 128) v" using v(2) by (auto simp: list_all_iff)
  ultimately show "to_upper g (TrimSpace v) = v" "v \<noteq> []" "NUL \<notin> set v" "length v = 2" using assms(1) v(1) by (simp_all add: ascii_casing_def)
qed

lemma zero_branch: "TrimSpace ''00000'' = ''00000''" "NUL \<notin> set ''00000''"
  by code_simp+

text \<open>Normalizing is idempotent: a stored vendor is its own normal form.\<close>

lemma NormalizeVendor_idem:
  assumes g: "ascii_casing g" and n: "NormalizeVendor g x = Inr c" and iso: "iso_country (vc_country c)"
  shows "NormalizeVendor g (input_of c) = Inr c"
proof -
  define tax given country where "tax = compactTaxID (vi_tax_id x)" and "given = TrimSpace (vi_branch x)"
    and "country = (if to_upper g (TrimSpace (vi_country x)) = [] then ''TH'' else to_upper g (TrimSpace (vi_country x)))"
  define branch where "branch = (if country = ''TH'' then thai_branch tax given else given)"
  have no: "NUL \<notin> set (vi_display_name x)" "NUL \<notin> set (vi_code x)" "NUL \<notin> set (vi_tax_id x)" "NUL \<notin> set (vi_branch x)"
    and c: "c = \<lparr>vc_id = [], vc_org = [], vc_display_name = TrimSpace (vi_display_name x),
        vc_normalized_name = to_lower g (TrimSpace (vi_display_name x)), vc_code = TrimSpace (vi_code x), vc_country = country,
        vc_tax_id = tax, vc_branch = branch, vc_customer = vi_customer x, vc_vendor = True, vc_archived_at = None, vc_created_at = zero_time\<rparr>"
    and ok: "TrimSpace (vi_display_name x) \<noteq> []" "rune_count (TrimSpace (vi_display_name x)) \<le> 240"
      "country = ''TH'' \<longrightarrow> thai_valid tax branch" "rune_count tax \<le> 64" "rune_count branch \<le> 32" "rune_count (vi_code x) \<le> 64"
    using n by (auto simp: NormalizeVendor_def Let_def tax_def given_def country_def branch_def split: if_splits)
  have trimmed: "TrimSpace branch = branch"
    by (simp add: branch_def thai_branch_def given_def zero_branch)
  have again: "thai_branch tax branch = branch" if "country = ''TH''" using that by (simp add: branch_def thai_branch_def)
  have "NUL \<notin> set given" unfolding given_def using no(4) TrimSpace_chars by blast
  then have "NUL \<notin> set branch" using zero_branch(2) by (simp add: branch_def thai_branch_def)
  moreover have "NUL \<notin> set (TrimSpace (vi_display_name x))" using no(1) TrimSpace_chars by blast
  moreover have "NUL \<notin> set (TrimSpace (vi_code x))" using no(2) TrimSpace_chars by blast
  moreover have "NUL \<notin> set tax" unfolding tax_def using no(3) compactTaxID_NUL by blast
  ultimately have nul: "NUL \<notin> set (TrimSpace (vi_display_name x) @ TrimSpace (vi_code x) @ country @ tax @ branch)"
    using iso_country_fixed(3) [OF g iso] by (simp add: c)
  have count: "rune_count (TrimSpace (vi_code x)) \<le> 64" using TrimSpace_count [of "vi_code x"] ok(6) by simp
  have tax': "compactTaxID tax = tax" by (simp add: tax_def compactTaxID_idem)
  note iso' = iso_country_fixed [OF g iso, unfolded c, simplified]
  show ?thesis
    unfolding NormalizeVendor_def input_of_def c using ok iso' trimmed again nul count tax' by (simp add: Let_def)
qed

section \<open>Files\<close>

lemma csv_records_skip: "csv_records (dropWhile (\<lambda>c. c = LF) cs) = csv_records cs"
proof (induction cs)
  case (Cons c cs)
  show ?case
  proof (cases "c = LF")
    case True
    then show ?thesis using Cons csv_records.simps [of "c # cs"] by simp
  qed simp
qed simp

lemma read_rows_records:
  "csv_records cs = Some rows \<Longrightarrow> list_all record_ok (take n rows) \<Longrightarrow> read_rows n cs = Some (take n rows)"
proof (induction n arbitrary: cs rows)
  case (Suc n)
  note skip = csv_records_skip [of cs]
  show ?case
  proof (cases "dropWhile (\<lambda>c. c = LF) cs")
    case Nil
    have "csv_records [] = Some rows" unfolding Nil [symmetric] skip by (rule Suc.prems(1))
    then have "rows = []" by (simp add: csv_records.simps)
    then show ?thesis unfolding read_rows.simps Nil list.case by simp
  next
    case (Cons c left)
    then have c: "c \<noteq> LF" using hd_dropWhile [of "\<lambda>c. c = LF" cs] by (simp only: list.sel list.distinct not_False_eq_True simp_thms)
    have "csv_records (c # left) = Some rows" unfolding Cons [symmetric] skip by (rule Suc.prems(1))
    then have "(case csv_record (c # left) of None \<Rightarrow> None | Some (fs, rest) \<Rightarrow> map_option ((#) fs) (csv_records rest)) = Some rows"
      by (simp only: csv_records.simps [of "c # left"] list.case if_not_P [OF c])
    then obtain fs rest rs where r: "csv_record (c # left) = Some (fs, rest)" "csv_records rest = Some rs" "rows = fs # rs"
      by (cases "csv_record (c # left)") (auto simp del: csv_record.simps)
    have ok: "record_ok fs" "list_all record_ok (take n rs)" using Suc.prems(2) by (simp_all add: r(3))
    show ?thesis unfolding read_rows.simps Cons list.case r option.case prod.case if_P [OF ok(1)] Suc.IH [OF r(2) ok(2)] by simp
  qed
qed simp

lemma trim_byte_order_mark: "trim_prefix (byte_order_mark @ v) byte_order_mark = v"
  by (simp add: trim_prefix_def)

lemma no_prefix: "s \<noteq> [] \<Longrightarrow> p \<noteq> [] \<Longrightarrow> hd s \<noteq> hd p \<Longrightarrow> trim_prefix s p = s"
  by (cases s; cases p) (simp_all add: trim_prefix_def)

lemma collect_rows_over_map: "collect_rows f (map h cs) = collect_rows (\<lambda>c. f (h c)) cs"
  by (induction cs) (simp_all split: sum.split)

lemma importRows_length: "importRows g rows = Inr contacts \<Longrightarrow> length contacts = length (tl rows)"
  by (auto simp: importRows_def dest: collect_rows_InrD split: if_splits option.splits sum.splits)

lemma importRows_columns:
  "set_columns g 0 header [] = Some columns \<Longrightarrow> map_of columns ''display_name'' \<noteq> None \<Longrightarrow> rows \<noteq> [] \<Longrightarrow> length rows \<le> maxRows \<Longrightarrow>
   importRows g (header # rows) = (case collect_rows (\<lambda>row. NormalizeVendor g (row_input columns row)) rows of
     Inl _ \<Rightarrow> Inl Business_ErrInvalid | Inr contacts \<Rightarrow> Inr contacts)"
  by (cases rows; cases "map_of columns ''display_name''") (simp_all add: importRows_def del: collect_rows.simps)

definition imported :: "contact \<Rightarrow> contact" where
  "imported c = c\<lparr>vc_id := [], vc_org := [], vc_customer := False, vc_archived_at := None, vc_created_at := zero_time\<rparr>"

text \<open>A vendor in normal form, as \<open>NormalizeVendor\<close> makes it and the database keeps it.\<close>

definition stored_vendor :: "casing \<Rightarrow> contact \<Rightarrow> bool" where
  "stored_vendor g c =
     (iso_country (vc_country c)
      \<and> NormalizeVendor g (input_of c) = Inr (c\<lparr>vc_id := [], vc_org := [], vc_archived_at := None, vc_created_at := zero_time\<rparr>))"

lemma normalized_stored:
  assumes "ascii_casing g" "NormalizeVendor g x = Inr c" "iso_country (vc_country c)"
  shows "stored_vendor g (c\<lparr>vc_id := i, vc_org := org, vc_archived_at := a, vc_created_at := t\<rparr>)"
proof -
  have "NormalizeVendor g (input_of c) = Inr c" by (rule NormalizeVendor_idem [OF assms])
  moreover have "c\<lparr>vc_id := [], vc_org := [], vc_archived_at := None, vc_created_at := zero_time\<rparr> = c"
    using assms(2) by (auto simp: NormalizeVendor_def Let_def split: if_splits)
  ultimately show ?thesis using assms(3) by (simp add: stored_vendor_def input_of_def)
qed

lemma NormalizeVendor_customer:
  "NormalizeVendor g (x\<lparr>vi_customer := b\<rparr>) = map_sum id (\<lambda>c. c\<lparr>vc_customer := b\<rparr>) (NormalizeVendor g x)"
  by (simp add: NormalizeVendor_def Let_def)

text \<open>Cells that a spreadsheet shows as they are and the reader takes back.\<close>

definition plain_vendor :: "contact \<Rightarrow> bool" where
  "plain_vendor c = list_all (\<lambda>v. cell_ok v \<and> CR \<notin> set v)
     [vc_id c, vc_display_name c, vc_code c, vc_country c, vc_tax_id c, vc_branch c]"

lemma role_cells: "cell_ok ''Vendor''" "cell_ok ''Customer,Vendor''" "CR \<notin> set ''Vendor''" "CR \<notin> set ''Customer,Vendor''"
  by code_simp+

lemma plain_record:
  assumes "plain_vendor c"
  shows "map without_CR (vendor_record c True) = vendor_record c False" "record_ok (vendor_record c False)" "visible_record (vendor_record c True)"
proof -
  have "\<not> spreadsheetFormula ''Vendor''" "\<not> spreadsheetFormula ''Customer,Vendor''" using role_cells by (simp_all add: cell_ok_def)
  then have "vendor_record c True = vendor_record c False" using assms by (simp add: vendor_record_def plain_vendor_def cell_ok_def Let_def)
  moreover have "map without_CR (vendor_record c False) = vendor_record c False"
    unfolding without_CR_def by (rule map_idI) (use assms role_cells in \<open>auto simp: vendor_record_def plain_vendor_def filter_id_conv split: if_splits\<close>)
  ultimately show "map without_CR (vendor_record c True) = vendor_record c False" by simp
  show "record_ok (vendor_record c False)"
    using assms role_cells by (simp add: record_ok_def vendor_record_def plain_vendor_def maxColumns_def Let_def)
  show "visible_record (vendor_record c True)" by (simp add: visible_record_def vendor_record_def Let_def)
qed

definition vendor_columns :: "(string \<times> nat) list" where
  "vendor_columns = [(''branch_code'', 5), (''tax_id'', 4), (''country'', 3), (''contact_code'', 2), (''display_name'', 1)]"

lemma header_columns:
  assumes "ascii_casing g" shows "set_columns g 0 vendor_header [] = Some vendor_columns"
proof -
  have trim: "list_all (\<lambda>h. TrimSpace h = h \<and> ascii_lower h = h \<and> list_all (\<lambda>c. byte c < 128) h) vendor_header" by code_simp
  then have low: "to_lower g (TrimSpace h) = h" if "h \<in> set vendor_header" for h
    using assms that by (auto simp: list_all_iff ascii_casing_def)
  have keys: "map column_key vendor_header
      = [None, Some ''display_name'', Some ''contact_code'', Some ''country'', Some ''tax_id'', Some ''branch_code'', None]" by code_simp
  show ?thesis using low keys by (simp add: vendor_header_def vendor_columns_def)
qed

lemma vendor_row: "row_input vendor_columns (vendor_record c False) = (input_of c)\<lparr>vi_customer := False\<rparr>"
  by (simp add: row_input_def cell_of_def vendor_columns_def vendor_record_def input_of_def Let_def)

lemma header_record: "record_ok vendor_header" "map without_CR vendor_header = vendor_header" "visible_record vendor_header"
  by code_simp+

section \<open>Properties\<close>

text \<open>\<^bold>\<open>C34.\<close> Vendors survive an export and an import.  The CSV file written for vendors in normal form, quotes, commas and line
  breaks in their fields included, imports as the same vendors without their identity and with the customer role cleared, as
  long as no cell looks like a formula or holds a carriage return.  The hypothesis on \<open>g\<close> is that Go's case tables
  map ASCII as ASCII.\<close>

theorem vendor_export_import:
  assumes "ascii_casing g" "list_all (stored_vendor g) contacts" "list_all plain_vendor contacts"
    and "contacts \<noteq> []" "length contacts \<le> maxRows" "length (WriteVendorCSV contacts) \<le> maxImportBytes"
  shows "ParseImport g unzip ''vendors.csv'' ''text/csv'' (WriteVendorCSV contacts) = Inr (map imported contacts)"
proof -
  let ?written = "vendor_header # map (\<lambda>c. vendor_record c True) contacts" and ?rows = "vendor_header # map (\<lambda>c. vendor_record c False) contacts"
  have recs: "map without_CR (vendor_record c True) = vendor_record c False" "record_ok (vendor_record c False)" "visible_record (vendor_record c True)"
    if "c \<in> set contacts" for c using plain_record [of c] assms(3) that by (simp_all add: list_all_iff)
  have "csv_records (csv_normal (csv_text ?written)) = Some (map (map without_CR) ?written)"
    by (rule csv_round_trip) (use recs(3) header_record(3) in \<open>simp add: list_all_iff\<close>)
  moreover have "map (map without_CR) ?written = ?rows" using recs(1) header_record(2) by simp
  moreover have len: "length ?rows \<le> maxRows + 1" using assms(5) by simp
  moreover have "list_all record_ok ?rows" using recs(2) header_record(1) by (simp add: list_all_iff)
  ultimately have rows: "read_rows (maxRows + 1) (csv_normal (csv_text ?written)) = Some ?rows"
    using read_rows_records [of "csv_normal (csv_text ?written)" ?rows "maxRows + 1"] by simp
  have norm: "NormalizeVendor g (row_input vendor_columns (vendor_record c False)) = Inr (imported c)" if "c \<in> set contacts" for c
    using assms(2) that by (simp add: vendor_row NormalizeVendor_customer stored_vendor_def list_all_iff imported_def)
  have "collect_rows (\<lambda>row. NormalizeVendor g (row_input vendor_columns row)) (map (\<lambda>c. vendor_record c False) contacts)
      = Inr (map imported contacts)"
    unfolding collect_rows_over_map by (rule collect_rows_map) (rule norm)
  then have "importRows g ?rows = Inr (map imported contacts)"
    using assms(4) len header_columns [OF assms(1)] by (cases contacts) (simp_all add: importRows_def vendor_columns_def)
  then have "parseCSV g (WriteVendorCSV contacts) = Inr (map imported contacts)"
    unfolding parseCSV_def WriteVendorCSV_def trim_byte_order_mark rows option.case .
  moreover have "to_lower g (Ext ''vendors.csv'') = ''.csv''" "to_lower g (TrimSpace (hd (split2 (CHR '';'') ''text/csv''))) \<in> set csv_media_types"
  proof -
    have "Ext ''vendors.csv'' = ''.csv''" "TrimSpace (hd (split2 (CHR '';'') ''text/csv'')) = ''text/csv''"
      "list_all (\<lambda>v. ascii_lower v = v \<and> list_all (\<lambda>c. byte c < 128) v) [''.csv'', ''text/csv'']" "''text/csv'' \<in> set csv_media_types"
      by code_simp+
    then show "to_lower g (Ext ''vendors.csv'') = ''.csv''" "to_lower g (TrimSpace (hd (split2 (CHR '';'') ''text/csv''))) \<in> set csv_media_types"
      using assms(1) by (simp_all add: ascii_casing_def)
  qed
  moreover have "WriteVendorCSV contacts \<noteq> []" by (simp add: WriteVendorCSV_def byte_order_mark_def)
  ultimately show ?thesis using assms(6) by (simp add: ParseImport_def)
qed

definition ascii_tables :: casing where "ascii_tables = \<lparr>to_lower = ascii_lower, to_upper = ascii_upper\<rparr>"

definition demo_vendor :: contact where
  "demo_vendor = \<lparr>vc_id = ''v1'', vc_org = ''o1'', vc_display_name = ''Fuel, Oil'', vc_normalized_name = ''fuel, oil'',
     vc_code = quote # ''F1'', vc_country = ''TH'', vc_tax_id = ''0105536000313'', vc_branch = ''00000'', vc_customer = True,
     vc_vendor = True, vc_archived_at = None, vc_created_at = 5\<rparr>"

lemma ascii_tables_casing: "ascii_casing ascii_tables"
  by (simp add: ascii_casing_def ascii_tables_def)

theorem vendor_export_import_witness:
  "ParseImport ascii_tables (\<lambda>_. None) ''vendors.csv'' ''text/csv'' (WriteVendorCSV [demo_vendor, demo_vendor]) = Inr [imported demo_vendor, imported demo_vendor]"
proof -
  have "list_all (stored_vendor ascii_tables) [demo_vendor, demo_vendor]" "list_all plain_vendor [demo_vendor, demo_vendor]"
    "length [demo_vendor, demo_vendor] \<le> maxRows" "length (WriteVendorCSV [demo_vendor, demo_vendor]) \<le> maxImportBytes" by code_simp+
  then show ?thesis
    using vendor_export_import [OF ascii_tables_casing, of "[demo_vendor, demo_vendor]"] by simp
qed

text \<open>A long CSV file is cut off without notice.  The reader stops after one record more than the limit of rows, so
  of a file with more records it imports the first 10000 vendors and reports success, while the same rows read from a
  worksheet are refused.\<close>

theorem long_csv_cut_off:
  assumes "csv_records (csv_normal (trim_prefix data byte_order_mark)) = Some rows"
    and "length rows > maxRows + 1" "list_all record_ok (take (maxRows + 1) rows)"
  shows "parseCSV g data = importRows g (take (maxRows + 1) rows) \<and> importRows g rows = Inl Business_ErrInvalid
    \<and> (\<forall>contacts. parseCSV g data = Inr contacts \<longrightarrow> length contacts = maxRows \<and> maxRows < length (tl rows))"
proof -
  have parse: "parseCSV g data = importRows g (take (maxRows + 1) rows)"
    using read_rows_records [OF assms(1,3)] by (simp add: parseCSV_def)
  moreover have "importRows g rows = Inl Business_ErrInvalid" using assms(2) by (simp add: importRows_def)
  moreover have "length contacts = maxRows" if "importRows g (take (maxRows + 1) rows) = Inr contacts" for contacts
    using importRows_length [OF that] assms(2) by simp
  ultimately show ?thesis using assms(2) by auto
qed

definition demo_long_rows :: "string list list" where
  "demo_long_rows = [''name''] # replicate (maxRows + 5) [''Acme'']"

theorem long_csv_cut_off_witness:
  "\<exists>contacts. parseCSV ascii_tables (csv_text demo_long_rows) = Inr contacts \<and> length contacts = maxRows"
proof -
  have acme: "map without_CR [''Acme''] = [''Acme'']" "record_ok [''Acme'']" "visible_record [''Acme'']"
    "map without_CR [''name''] = [''name'']" "record_ok [''name'']" "visible_record [''name'']" by code_simp+
  have bom: "trim_prefix (csv_text demo_long_rows) byte_order_mark = csv_text demo_long_rows"
  proof -
    have "csv_text demo_long_rows = csv_line [''name''] @ csv_text (replicate (maxRows + 5) [''Acme''])" by (simp add: csv_text_def demo_long_rows_def)
    moreover have "hd (csv_line [''name'']) = CHR ''n''" "csv_line [''name''] \<noteq> []" "hd byte_order_mark \<noteq> CHR ''n''" "byte_order_mark \<noteq> []" by code_simp+
    ultimately show ?thesis by (intro no_prefix) simp_all
  qed
  have rows: "csv_records (csv_normal (trim_prefix (csv_text demo_long_rows) byte_order_mark)) = Some demo_long_rows"
  proof -
    have "list_all visible_record demo_long_rows" using acme by (simp add: demo_long_rows_def list_all_iff)
    moreover have "map (map without_CR) demo_long_rows = demo_long_rows" unfolding demo_long_rows_def using acme(1,4) by simp
    ultimately show ?thesis using csv_round_trip [of demo_long_rows] by (simp add: bom)
  qed
  have cut: "take (maxRows + 1) demo_long_rows = [''name''] # replicate maxRows [''Acme'']"
    by (simp add: demo_long_rows_def)
  have facts: "set_columns ascii_tables 0 [''name''] [] = Some [(''display_name'', 0)]"
    "\<not> isl (NormalizeVendor ascii_tables (row_input [(''display_name'', 0)] [''Acme'']))" by code_simp+
  obtain c where c: "NormalizeVendor ascii_tables (row_input [(''display_name'', 0)] [''Acme'']) = Inr c" using facts(2) by (cases "NormalizeVendor ascii_tables (row_input [(''display_name'', 0)] [''Acme''])") auto
  have "collect_rows (\<lambda>row. NormalizeVendor ascii_tables (row_input [(''display_name'', 0)] row)) (replicate maxRows [''Acme''])
      = Inr (map (\<lambda>_. c) (replicate maxRows [''Acme'']))"
    by (rule collect_rows_map) (simp add: c)
  then have "importRows ascii_tables (take (maxRows + 1) demo_long_rows) = Inr (map (\<lambda>_. c) (replicate maxRows [''Acme'']))"
    using importRows_columns [OF facts(1), of "replicate maxRows [''Acme'']"] unfolding cut by (simp add: maxRows_def)
  moreover have "list_all record_ok (take (maxRows + 1) demo_long_rows)" unfolding cut using acme by (simp add: list_all_iff)
  moreover have "length demo_long_rows > maxRows + 1" by (simp add: demo_long_rows_def)
  ultimately show ?thesis using long_csv_cut_off [OF rows, of ascii_tables] by auto
qed

end
