(* ===== verification/Plans.thy ===== *)
theory Plans
  imports Schema
begin

text \<open>
  The plan catalog and the entitlement gate: src/api/internal/plan/catalog.go, the gate interface and
  capabilities of src/api/internal/work/work.go, and \<^verbatim>\<open>Store.EffectivePlan\<close> with the stored function
  \<^verbatim>\<open>effective_organization_plan\<close> (migration 000004).  Plan keys and capabilities are the source's strings.
\<close>

section \<open>Keys, intervals, capabilities\<close>

type_synonym plan_key = string
type_synonym interval = string
type_synonym capability = string

definition Free :: plan_key where "Free = ''Free''"
definition Starter :: plan_key where "Starter = ''Starter''"
definition BusinessPlan :: plan_key where "BusinessPlan = ''Business''"

definition Monthly :: interval where "Monthly = ''monthly''"
definition SixMonths :: interval where "SixMonths = ''six_months''"
definition Yearly :: interval where "Yearly = ''yearly''"

definition CreateTasks :: capability where "CreateTasks = ''task.create''"
definition DeliverLINE :: capability where "DeliverLINE = ''notification.line''"
definition UseAssistant :: capability where "UseAssistant = ''assistant.summary''"
definition ExportTasks :: capability where "ExportTasks = ''task.export.csv''"
definition ExportTasksAsync :: capability where "ExportTasksAsync = ''task.export.csv.background''"
definition ManageBusinessContacts :: capability where "ManageBusinessContacts = ''business_contacts.manage''"
definition ImportBusinessContacts :: capability where "ImportBusinessContacts = ''business_contacts.import''"
definition ExportCSV :: capability where "ExportCSV = ''business_contacts.export.csv''"
definition ExportXLSX :: capability where "ExportXLSX = ''business_contacts.export.xlsx''"
definition ExportDrive :: capability where "ExportDrive = ''business_contacts.export.drive''"

lemmas plan_names = Free_def Starter_def BusinessPlan_def Monthly_def SixMonths_def Yearly_def
lemmas capability_names = CreateTasks_def DeliverLINE_def UseAssistant_def ExportTasks_def
  ExportTasksAsync_def ManageBusinessContacts_def ImportBusinessContacts_def ExportCSV_def ExportXLSX_def
  ExportDrive_def

section \<open>The catalog\<close>

record price =
  pr_interval :: interval
  pr_months :: int
  pr_total :: int
  pr_effective_month :: int
  pr_saving :: int

record plan_definition =
  pd_key :: plan_key
  pd_name :: string
  pd_recommended :: bool
  pd_prices :: "(interval \<times> price) list"
  pd_entitlements :: "(capability \<times> bool) list"

text \<open>Reading a Go map at an absent key gives the zero value.\<close>

definition AllowsCapability :: "plan_definition \<Rightarrow> capability \<Rightarrow> bool" where
  "AllowsCapability d c = (map_of (pd_entitlements d) c = Some True)"

definition prices :: "int \<Rightarrow> int \<Rightarrow> int \<Rightarrow> (interval \<times> price) list" where
  "prices monthly sixMonths yearly =
     (let sixMonthSaving = (if monthly > 0 then 8 else 0);
          yearlySaving = (if monthly > 0 then 17 else 0)
      in [(Monthly, \<lparr>pr_interval = Monthly, pr_months = 1, pr_total = monthly,
                      pr_effective_month = monthly, pr_saving = 0\<rparr>),
          (SixMonths, \<lparr>pr_interval = SixMonths, pr_months = 6, pr_total = sixMonths,
                      pr_effective_month = sixMonths div 6, pr_saving = sixMonthSaving\<rparr>),
          (Yearly, \<lparr>pr_interval = Yearly, pr_months = 12, pr_total = yearly,
                      pr_effective_month = yearly div 12, pr_saving = yearlySaving\<rparr>)])"

definition entitlements :: "bool \<Rightarrow> bool \<Rightarrow> bool \<Rightarrow> (capability \<times> bool) list" where
  "entitlements importContacts exportXLSX exportDrive =
     [(CreateTasks, True), (DeliverLINE, True), (UseAssistant, True), (ExportTasks, True),
      (ManageBusinessContacts, True), (ImportBusinessContacts, importContacts), (ExportCSV, True),
      (ExportXLSX, exportXLSX), (ExportDrive, exportDrive), (ExportTasksAsync, exportDrive)]"

definition catalog :: "plan_definition list" where
  "catalog =
     [\<lparr>pd_key = Free, pd_name = ''Free'', pd_recommended = False, pd_prices = prices 0 0 0,
       pd_entitlements = entitlements False False False\<rparr>,
      \<lparr>pd_key = Starter, pd_name = ''Starter'', pd_recommended = False,
       pd_prices = prices 19900 109848 199000, pd_entitlements = entitlements True True False\<rparr>,
      \<lparr>pd_key = BusinessPlan, pd_name = ''Business'', pd_recommended = True,
       pd_prices = prices 49900 275448 499000, pd_entitlements = entitlements True True True\<rparr>]"

definition Catalog :: "plan_definition list" where "Catalog = catalog"

fun find_definition :: "plan_key \<Rightarrow> plan_definition list \<Rightarrow> plan_definition option" where
  "find_definition key [] = None"
| "find_definition key (d # ds) = (if pd_key d = key then Some d else find_definition key ds)"

definition Lookup :: "plan_key \<Rightarrow> plan_definition option" where
  "Lookup key = find_definition key catalog"

section \<open>The gate\<close>

record decision =
  dn_allowed :: bool
  dn_reason :: string
  dn_plan :: string

text \<open>The gate asks its store for the organization's plan; \<^verbatim>\<open>None\<close> is a gate without a store.\<close>

definition Check :: "(id \<Rightarrow> plan_key result) option \<Rightarrow> id \<Rightarrow> capability \<Rightarrow> decision result" where
  "Check plan_store org capability =
     (case plan_store of
        None \<Rightarrow> Inl (OtherError ''plan store is required'')
      | Some effective \<Rightarrow>
          (case effective org of
             Inl e \<Rightarrow> Inl e
           | Inr key \<Rightarrow>
               (case Lookup key of
                  None \<Rightarrow> Inr \<lparr>dn_allowed = False, dn_reason = ''unknown_plan'', dn_plan = key\<rparr>
                | Some d \<Rightarrow>
                    if \<not> AllowsCapability d capability
                    then Inr \<lparr>dn_allowed = False, dn_reason = ''feature_unavailable'', dn_plan = key\<rparr>
                    else Inr \<lparr>dn_allowed = True, dn_reason = ''included'', dn_plan = key\<rparr>)))"

definition UnlimitedCheck :: "id \<Rightarrow> capability \<Rightarrow> decision result" where
  "UnlimitedCheck org capability = Inr \<lparr>dn_allowed = True, dn_reason = ''unlimited'', dn_plan = []\<rparr>"

section \<open>The plan an organization has\<close>

text \<open>Among the periods that cover \<^verbatim>\<open>now()\<close>, the one that started last, and of those the one created
  last; no period means Free.\<close>

fun latest_period :: "plan_period_row list \<Rightarrow> plan_period_row option" where
  "latest_period [] = None"
| "latest_period (p # ps) =
     (case latest_period ps of
        None \<Rightarrow> Some p
      | Some q \<Rightarrow>
          if pp_starts_at q > pp_starts_at p \<or> (pp_starts_at q = pp_starts_at p \<and> pp_created_at q > pp_created_at p)
          then Some q else Some p)"

definition effective_organization_plan :: "time \<Rightarrow> id \<Rightarrow> store \<Rightarrow> plan_key" where
  "effective_organization_plan dbnow org s =
     (case latest_period (filter (\<lambda>p. pp_org p = org \<and> pp_starts_at p \<le> dbnow \<and> dbnow < pp_ends_at p)
             (organization_plan_periods s)) of
        None \<Rightarrow> Free
      | Some p \<Rightarrow> pp_plan p)"

definition EffectivePlan :: "time \<Rightarrow> store \<Rightarrow> id \<Rightarrow> plan_key result" where
  "EffectivePlan dbnow s org = Inr (effective_organization_plan dbnow org s)"

section \<open>Properties\<close>

lemma Lookup_cases:
  "Lookup key = (if key = Free then Some (catalog ! 0) else if key = Starter then Some (catalog ! 1)
                 else if key = BusinessPlan then Some (catalog ! 2) else None)"
  by (auto simp: Lookup_def catalog_def)

lemma latest_period_in: "latest_period ps = Some p \<Longrightarrow> p \<in> set ps"
  by (induction ps arbitrary: p) (auto split: option.splits if_splits)

lemma latest_period_None [simp]: "latest_period ps = None \<longleftrightarrow> ps = []"
  by (cases ps) (auto split: option.splits)

lemma effective_plan_cases:
  "effective_organization_plan dbnow org s = Free
   \<or> (\<exists>p \<in> set (organization_plan_periods s). pp_org p = org \<and> pp_starts_at p \<le> dbnow \<and> dbnow < pp_ends_at p
        \<and> effective_organization_plan dbnow org s = pp_plan p)"
  by (auto simp: effective_organization_plan_def split: option.splits dest!: latest_period_in)

lemma AllowsCapability_catalog:
  assumes "AllowsCapability d c" "d \<in> set catalog"
  shows "c \<in> {CreateTasks, DeliverLINE, UseAssistant, ExportTasks, ManageBusinessContacts, ExportCSV}
     \<or> (c \<in> {ImportBusinessContacts, ExportXLSX} \<and> pd_key d \<noteq> Free)
     \<or> (c \<in> {ExportDrive, ExportTasksAsync} \<and> pd_key d = BusinessPlan)"
  using assms
  by (auto simp: AllowsCapability_def catalog_def entitlements_def plan_names split: if_splits)

text \<open>
  What the gate lets through for an organization is paid for: a gate over the database allows
  importing contacts or exporting spreadsheets only while a plan period of that organization covers the
  current instant, exports to Drive and in the background only for such a Business period, and the
  remaining catalog capabilities always.
\<close>
theorem gate_needs_period:
  assumes "Check (Some (EffectivePlan dbnow s)) org c = Inr d" "dn_allowed d"
  shows "c \<in> {CreateTasks, DeliverLINE, UseAssistant, ExportTasks, ManageBusinessContacts, ExportCSV}
     \<or> (\<exists>p \<in> set (organization_plan_periods s). pp_org p = org \<and> pp_starts_at p \<le> dbnow \<and> dbnow < pp_ends_at p
          \<and> (c \<in> {ImportBusinessContacts, ExportXLSX} \<and> pp_plan p \<in> {Starter, BusinessPlan}
             \<or> c \<in> {ExportDrive, ExportTasksAsync} \<and> pp_plan p = BusinessPlan))"
proof -
  obtain pd where pd: "Lookup (effective_organization_plan dbnow org s) = Some pd" "AllowsCapability pd c"
    using assms by (auto simp: Check_def EffectivePlan_def split: option.splits if_splits)
  have key: "pd_key pd = effective_organization_plan dbnow org s" "pd \<in> set catalog"
    using pd(1) by (auto simp: Lookup_cases catalog_def split: if_splits)
  have known: "pd_key pd \<in> {Free, Starter, BusinessPlan}" using key(2) by (auto simp: catalog_def)
  show ?thesis
    using AllowsCapability_catalog [OF pd(2) key(2)] effective_plan_cases [of dbnow org s] known
    unfolding key(1) by (auto simp: plan_names)
qed

definition demo_periods :: store where
  "demo_periods = empty_store\<lparr>organization_plan_periods :=
     [\<lparr>pp_org = ''o1'', pp_plan = ''Starter'', pp_source = ''manual'', pp_starts_at = 0, pp_ends_at = 100, pp_created_at = 0\<rparr>]\<rparr>"

theorem gate_needs_period_witness:
  "Check (Some (EffectivePlan 5 demo_periods)) ''o1'' ImportBusinessContacts
     = Inr \<lparr>dn_allowed = True, dn_reason = ''included'', dn_plan = ''Starter''\<rparr>
   \<and> (\<exists>p \<in> set (organization_plan_periods demo_periods). pp_plan p \<in> {Starter, BusinessPlan})"
proof -
  have ok: "Check (Some (EffectivePlan 5 demo_periods)) ''o1'' ImportBusinessContacts
     = Inr \<lparr>dn_allowed = True, dn_reason = ''included'', dn_plan = ''Starter''\<rparr>"
    by (simp add: Check_def EffectivePlan_def effective_organization_plan_def demo_periods_def Lookup_def
        catalog_def AllowsCapability_def entitlements_def plan_names capability_names)
  show ?thesis using ok gate_needs_period [OF ok] by (simp add: capability_names) blast
qed

end
