(* ===== verification/Documents.thy ===== *)
theory Documents
  imports Tenant Plans Jobs Calendar Paging "HOL-Library.Code_Target_Numeral"
begin

text \<open>
  Documents: what src/api/internal/document/service.go and src/api/internal/postgres/documents.go and
  document_reads.go do to the tables \<^verbatim>\<open>documents\<close>, \<^verbatim>\<open>document_sources\<close>, \<^verbatim>\<open>document_usage_periods\<close>,
  \<^verbatim>\<open>document_usage_charges\<close> and \<^verbatim>\<open>document_intake_attempts\<close>, with the constraints and triggers of
  migrations 000006 and 000008.  Statements see every row: row level security is not modelled.
\<close>

section \<open>Types\<close>

record document =
  doc_id :: id
  doc_org :: id
  doc_filename :: string
  doc_mime :: string
  doc_size :: int
  doc_status :: string
  doc_storage :: string
  doc_accepted_at :: time
  doc_source_count :: int
  doc_source_channel :: string

record accept_input =
  ai_org :: id
  ai_actor :: id
  ai_attempt :: id
  ai_origin :: string
  ai_filename :: string
  ai_channel :: string
  ai_line_group :: bool
  ai_now :: time
  ai_drive_connection :: string
  ai_drive_file :: string
  ai_drive_revision :: string
  ai_drive_mime :: string
  ai_drive_size :: int
  ai_drive_selected :: time

record commit_input = accept_input +
  ci_key :: string
  ci_sha256 :: string
  ci_mime :: string
  ci_size :: int

record commit_result =
  cr_document :: document
  cr_accepted :: bool
  cr_duplicate :: bool

record doc_filter =
  df_from :: "time option"
  df_to :: "time option"
  df_status :: string
  df_channel :: string
  df_filename :: string
  df_submitter :: string
  df_assignee :: string

record doc_summary =
  sm_used :: int
  sm_limit :: int
  sm_reset_at :: time
  sm_available :: int
  sm_archived :: int
  sm_trash :: int
  sm_checking :: int
  sm_rejected :: int
  sm_warning :: string

definition MaxFileBytes :: int where "MaxFileBytes = 20 * 2 ^ 20"

text \<open>\<^verbatim>\<open>documentUUID\<close>: a uuid in its canonical form.\<close>

definition lower_hex :: "char \<Rightarrow> bool" where
  "lower_hex c = (is_digit c \<or> (97 \<le> byte c \<and> byte c \<le> 102))"

definition documentUUID :: "string \<Rightarrow> bool" where
  "documentUUID s =
     (length s = 36 \<and> s ! 8 = CHR ''-'' \<and> s ! 13 = CHR ''-'' \<and> s ! 18 = CHR ''-'' \<and> s ! 23 = CHR ''-''
      \<and> list_all lower_hex (take 8 s @ take 4 (drop 9 s) @ take 4 (drop 14 s) @ take 4 (drop 19 s) @ drop 24 s))"

section \<open>Constraints and triggers\<close>

definition document_check :: "document_row \<Rightarrow> bool" where
  "document_check d =
     (length (d_sha256 d) = 32 \<and> 1 \<le> rune_count (d_filename d) \<and> rune_count (d_filename d) \<le> 240
      \<and> d_mime d \<in> {''application/pdf'', ''image/jpeg'', ''image/png''} \<and> 1 \<le> d_size d \<and> d_size d \<le> 20971520
      \<and> d_status d \<in> {''Available'', ''Archived'', ''Trash'', ''Purged''}
      \<and> (d_status d = ''Purged'') = (d_purged_at d \<noteq> None) \<and> (d_status d = ''Purged'') = (d_storage_key d = None))"

definition text_within :: "nat \<Rightarrow> string option \<Rightarrow> bool" where
  "text_within n t = (case t of None \<Rightarrow> False | Some t \<Rightarrow> 1 \<le> rune_count t \<and> rune_count t \<le> n)"

definition source_check :: "source_row \<Rightarrow> bool" where
  "source_check x =
     (ds_channel x \<in> {''Web'', ''LINE'', ''Drive''}
      \<and> (if ds_channel x = ''Drive'' then ds_drive_connection x \<noteq> None \<and> ds_drive_file x \<noteq> None \<and> ds_drive_revision x \<noteq> None
            \<and> text_within 240 (ds_provider_filename x) \<and> text_within 255 (ds_provider_mime x)
            \<and> (\<exists>n \<in> set_option (ds_provider_size x). 0 \<le> n) \<and> ds_selected_at x \<noteq> None
         else ds_drive_connection x = None \<and> ds_drive_file x = None \<and> ds_drive_revision x = None
            \<and> ds_provider_filename x = None \<and> ds_provider_mime x = None \<and> ds_provider_size x = None \<and> ds_selected_at x = None)
      \<and> (ds_group_source x \<longrightarrow> ds_channel x = ''LINE''))"

definition active_content :: "document_row \<Rightarrow> (id \<times> bytes) option" where
  "active_content d = (if d_status d = ''Purged'' then None else Some (d_org d, d_sha256 d))"

definition source_key :: "source_row \<Rightarrow> (id \<times> string \<times> string) option" where
  "source_key x = Some (ds_org x, ds_channel x, ds_origin_key x)"

definition attempt_key :: "intake_row \<Rightarrow> (id \<times> string \<times> string) option" where
  "attempt_key a = Some (ia_org a, ia_channel a, ia_origin_key a)"

definition insert_job :: "job_row \<Rightarrow> (unit, store) txn" where
  "insert_job j s =
     (if \<not> job_check j then Inl (CheckViolation ''durable_jobs'')
      else if row_exists (\<lambda>q. j_id q = j_id j \<or> (j_org q = j_org j \<and> j_kind q = j_kind j \<and> j_key q = j_key j)) (durable_jobs s)
      then Inl (UniqueViolation ''durable_jobs'')
      else if \<not> row_exists (\<lambda>g. o_id g = j_org j) (organizations s)
        \<or> (\<exists>u \<in> set_option (j_requester j). \<not> row_exists (is_member_row (j_org j) u) (memberships s))
      then Inl (ForeignKeyViolation ''durable_jobs'')
      else Inr ((), s\<lparr>durable_jobs := durable_jobs s @ [j]\<rparr>))"

definition insert_ocr_run :: "ocr_run_row \<Rightarrow> (unit, store) txn" where
  "insert_ocr_run r s =
     (if row_exists (\<lambda>q. or_job q = or_job r) (document_ocr_runs s) then Inl (UniqueViolation ''document_ocr_runs_pkey'')
      else Inr ((), s\<lparr>document_ocr_runs := document_ocr_runs s @ [r]\<rparr>))"

definition ocr_payload :: "id \<Rightarrow> string \<Rightarrow> string \<Rightarrow> string \<Rightarrow> json" where
  "ocr_payload doc sha model pre =
     JObject [(''document_id'', JString doc), (''sha256'', JString sha), (''model_version'', JString model),
              (''preprocessing_version'', JString pre)]"

definition ocr_job :: "id \<Rightarrow> id \<Rightarrow> id option \<Rightarrow> json \<Rightarrow> string \<Rightarrow> string option \<Rightarrow> time \<Rightarrow> job_row" where
  "ocr_job jid org user payload key request now =
     \<lparr>j_id = jid, j_org = org, j_requester = user, j_kind = OCR, j_status = Queued, j_payload = payload, j_result = None,
      j_key = key, j_request_id = request, j_attempts = 0, j_max_attempts = 3, j_current_attempt = None, j_lease_hash = None,
      j_lease = None, j_worker = None, j_available_at = now, j_created_at = now, j_started_at = None, j_completed_at = None,
      j_failed_at = None, j_cancelled_at = None, j_failure_code = None, j_stale_reclaims = 0, j_legacy = None\<rparr>"

definition new_run :: "id \<Rightarrow> id \<Rightarrow> id \<Rightarrow> string \<Rightarrow> id option \<Rightarrow> ocr_run_row" where
  "new_run jid org doc fp retry =
     \<lparr>or_job = jid, or_org = org, or_document = doc, or_fingerprint = fp, or_retry_of = retry, or_object_key = None,
      or_sha256 = None, or_bytes = None, or_pages = None, or_published_at = None, or_superseded_at = None, or_deleted_at = None\<rparr>"

definition fingerprint_of :: "id \<Rightarrow> string \<Rightarrow> string \<Rightarrow> string \<Rightarrow> string" where
  "fingerprint_of doc sha model pre = doc @ '':'' @ sha @ '':'' @ model @ '':'' @ pre"

text \<open>The trigger \<^verbatim>\<open>enqueue_document_ocr\<close> of an inserted document; \<^verbatim>\<open>jid\<close> is \<^verbatim>\<open>gen_random_uuid()\<close>.\<close>

definition enqueue_document_ocr :: "id \<Rightarrow> time \<Rightarrow> document_row \<Rightarrow> (unit, store) txn" where
  "enqueue_document_ocr jid dbnow d s =
     (let cfg = ocr_config s; sha = hex_encode (d_sha256 d);
          fp = fingerprint_of (d_id d) sha (oc_model cfg) (oc_preprocessing cfg)
      in if \<not> oc_enabled cfg then Inr ((), s)
         else case insert_job (ocr_job jid (d_org d) (d_submitter d)
                (ocr_payload (d_id d) sha (oc_model cfg) (oc_preprocessing cfg)) fp None dbnow) s of
             Inl e \<Rightarrow> Inl e
           | Inr (_, s) \<Rightarrow> insert_ocr_run (new_run jid (d_org d) (d_id d) fp None) s)"

definition insert_document :: "id \<Rightarrow> time \<Rightarrow> document_row \<Rightarrow> (unit, store) txn" where
  "insert_document jid dbnow d s =
     (if \<not> document_check d then Inl (CheckViolation ''documents'')
      else if row_exists (\<lambda>q. d_id q = d_id d) (documents s) then Inl (UniqueViolation ''documents_pkey'')
      else if conflicts active_content d (documents s) then Inl (UniqueViolation ''documents_active_content_idx'')
      else enqueue_document_ocr jid dbnow d (s\<lparr>documents := documents s @ [d]\<rparr>))"

definition insert_source :: "source_row \<Rightarrow> (unit, store) txn" where
  "insert_source x s =
     (if \<not> source_check x then Inl (CheckViolation ''document_sources'')
      else if row_exists (\<lambda>q. ds_id q = ds_id x) (document_sources s) \<or> conflicts source_key x (document_sources s)
      then Inl (UniqueViolation ''document_sources'')
      else if \<exists>c \<in> set_option (ds_drive_connection x). \<not> row_exists (\<lambda>q. dc_org q = c) (drive_connections s)
      then Inl (ForeignKeyViolation ''document_sources'')
      else Inr ((), s\<lparr>document_sources := document_sources s @ [x]\<rparr>))"

text \<open>\<^verbatim>\<open>INSERT INTO document_intake_attempts ... ON CONFLICT (organization_id,channel,origin_key) DO UPDATE\<close>.\<close>

definition upsert_attempt :: "intake_row \<Rightarrow> (intake_row \<Rightarrow> intake_row) \<Rightarrow> (unit, store) txn" where
  "upsert_attempt a f s =
     (if conflicts attempt_key a (document_intake_attempts s)
      then Inr ((), s\<lparr>document_intake_attempts :=
             sql_update (\<lambda>q. attempt_key q = attempt_key a) f (document_intake_attempts s)\<rparr>)
      else if row_exists (\<lambda>q. ia_id q = ia_id a) (document_intake_attempts s)
      then Inl (UniqueViolation ''document_intake_attempts_pkey'')
      else Inr ((), s\<lparr>document_intake_attempts := document_intake_attempts s @ [a]\<rparr>))"

definition new_attempt :: "'a accept_input_scheme \<Rightarrow> string \<Rightarrow> string option \<Rightarrow> id option \<Rightarrow> time \<Rightarrow> intake_row" where
  "new_attempt x status rejection doc now =
     \<lparr>ia_id = ai_attempt x, ia_org = ai_org x, ia_actor = Some (ai_actor x), ia_channel = ai_channel x,
      ia_origin_key = ai_origin x, ia_status = status, ia_rejection = rejection, ia_document = doc,
      ia_created_at = now, ia_updated_at = now, ia_expires_at = now + 90 * Day\<rparr>"

definition accept_attempt :: "'a accept_input_scheme \<Rightarrow> id \<Rightarrow> (unit, store) txn" where
  "accept_attempt x doc =
     upsert_attempt (new_attempt x ''Accepted'' None (Some doc) (ai_now x))
       (\<lambda>q. q\<lparr>ia_status := ''Accepted'', ia_document := Some doc, ia_rejection := None, ia_updated_at := ai_now x\<rparr>)"

section \<open>Accepting a document\<close>

definition zero_document :: document where
  "zero_document = \<lparr>doc_id = [], doc_org = [], doc_filename = [], doc_mime = [], doc_size = 0, doc_status = [],
     doc_storage = [], doc_accepted_at = zero_time, doc_source_count = 0, doc_source_channel = []\<rparr>"

text \<open>Scanning a row into a \<^verbatim>\<open>document.Document\<close>: a NULL storage key, that of a purged document, does not
  fit the \<^verbatim>\<open>string\<close> and is an error.\<close>

definition scan_document :: "document_row \<Rightarrow> document result" where
  "scan_document d =
     (case d_storage_key d of
        None \<Rightarrow> Inl (OtherError ''cannot scan NULL into *string'')
      | Some key \<Rightarrow> Inr (zero_document\<lparr>doc_id := d_id d, doc_org := d_org d, doc_filename := d_filename d, doc_mime := d_mime d,
          doc_size := d_size d, doc_status := d_status d, doc_storage := key, doc_accepted_at := d_accepted_at d\<rparr>))"

definition brief_document :: "id \<Rightarrow> id \<Rightarrow> string \<Rightarrow> document" where
  "brief_document doc org status = zero_document\<lparr>doc_id := doc, doc_org := org, doc_status := status\<rparr>"

definition duplicate_of :: "document \<Rightarrow> commit_result" where
  "duplicate_of d = \<lparr>cr_document = d, cr_accepted = False, cr_duplicate = True\<rparr>"

definition invalid_prepared :: "commit_input \<Rightarrow> bool" where
  "invalid_prepared x =
     ((ai_channel x \<noteq> ''Web'' \<and> ai_channel x \<noteq> ''LINE'' \<and> ai_channel x \<noteq> ''Drive'')
      \<or> (ai_line_group x \<and> ai_channel x \<noteq> ''LINE'') \<or> ai_now x = zero_time \<or> ci_size x < 1 \<or> ci_size x > MaxFileBytes
      \<or> (ai_channel x = ''Drive'' \<and> (ai_drive_connection x = [] \<or> ai_drive_file x = [] \<or> ai_drive_revision x = []
           \<or> ai_drive_mime x = [] \<or> ai_drive_selected x = zero_time)))"

definition lookup_document_for_intake :: "id \<Rightarrow> id \<Rightarrow> bytes \<Rightarrow> store \<Rightarrow> (id \<times> string) option" where
  "lookup_document_for_intake user org sha s =
     (if row_exists (is_member_row org user) (memberships s)
      then map_option (\<lambda>d. (d_id d, d_status d))
             (query_row (\<lambda>d. d_org d = org \<and> d_sha256 d = sha \<and> d_status d \<noteq> ''Purged'') (documents s))
      else None)"

definition own_source :: "commit_input \<Rightarrow> source_row \<Rightarrow> bool" where
  "own_source x q = (ds_org q = ai_org x \<and> ds_channel q = ai_channel x \<and> ds_origin_key q = ai_origin x
     \<and> ds_submitter q = Some (ai_actor x))"

definition empty_to_null :: "string \<Rightarrow> string option" where
  "empty_to_null t = (if t = [] then None else Some t)"

definition new_source :: "id \<Rightarrow> commit_input \<Rightarrow> id \<Rightarrow> source_row" where
  "new_source sid x doc =
     (let drive = (ai_channel x = ''Drive'') in
      \<lparr>ds_id = sid, ds_org = ai_org x, ds_document = doc, ds_channel = ai_channel x, ds_origin_key = ai_origin x,
        ds_submitter = Some (ai_actor x), ds_drive_connection = empty_to_null (ai_drive_connection x),
        ds_drive_file = empty_to_null (ai_drive_file x), ds_drive_revision = empty_to_null (ai_drive_revision x),
        ds_provider_filename = (if drive then Some (ai_filename x) else None),
        ds_provider_mime = (if drive then Some (ai_drive_mime x) else None),
        ds_provider_size = (if drive then Some (ai_drive_size x) else None),
        ds_selected_at = (if drive then Some (ai_drive_selected x) else None),
        ds_group_source = ai_line_group x, ds_created_at = ai_now x\<rparr>)"

definition insertDocumentSource :: "id \<Rightarrow> commit_input \<Rightarrow> id \<Rightarrow> (unit, store) txn" where
  "insertDocumentSource sid x doc = insert_source (new_source sid x doc)"

lemma new_source_simps [simp]:
  "ds_id (new_source sid x doc) = sid" "ds_org (new_source sid x doc) = ai_org x" "ds_document (new_source sid x doc) = doc"
  "ds_channel (new_source sid x doc) = ai_channel x" "ds_origin_key (new_source sid x doc) = ai_origin x"
  "ds_submitter (new_source sid x doc) = Some (ai_actor x)" "ds_group_source (new_source sid x doc) = ai_line_group x"
  by (simp_all add: new_source_def Let_def)

definition sourceConflict :: "err \<Rightarrow> err" where
  "sourceConflict e = (case e of UniqueViolation _ \<Rightarrow> Document_ErrSourceConflict | _ \<Rightarrow> e)"

text \<open>The month of an instant in a time zone, as \<^verbatim>\<open>time.LoadLocation\<close> and \<^verbatim>\<open>time.Date\<close> compute it, is the
  argument \<^verbatim>\<open>zone\<close>; \<^verbatim>\<open>None\<close> is an unknown zone.\<close>

definition usage_period_at :: "id \<Rightarrow> time \<Rightarrow> store \<Rightarrow> usage_period_row option" where
  "usage_period_at org now s =
     (case rev (sort_key up_starts_at (filter (\<lambda>p. up_org p = org \<and> up_starts_at p \<le> now \<and> now < up_ends_at p)
                  (document_usage_periods s))) of
        [] \<Rightarrow> None
      | p # _ \<Rightarrow> Some p)"

definition currentDocumentPeriod ::
  "(string \<Rightarrow> time \<Rightarrow> (time \<times> time) option) \<Rightarrow> id \<Rightarrow> string \<Rightarrow> time \<Rightarrow> (time \<times> time, store) txn" where
  "currentDocumentPeriod zone org timezone now s =
     (case usage_period_at org now s of
        Some p \<Rightarrow> Inr ((up_starts_at p, up_ends_at p), s)
      | None \<Rightarrow>
          (case zone timezone now of
             None \<Rightarrow> Inl (OtherError ''unknown time zone'')
           | Some (start, stop) \<Rightarrow>
               if \<not> start < stop then Inl (CheckViolation ''document_usage_periods'')
               else if row_exists (\<lambda>p. up_org p = org \<and> up_starts_at p = start) (document_usage_periods s)
               then Inr ((start, stop), s)
               else Inr ((start, stop), s\<lparr>document_usage_periods := document_usage_periods s
                      @ [\<lparr>up_org = org, up_starts_at = start, up_ends_at = stop, up_timezone = timezone\<rparr>]\<rparr>)))"

definition documentLimit :: "id \<Rightarrow> time \<Rightarrow> store \<Rightarrow> (int \<times> time \<times> time) result" where
  "documentLimit org now s =
     (case latest_period (filter (\<lambda>p. pp_org p = org \<and> pp_starts_at p \<le> now \<and> now < pp_ends_at p) (organization_plan_periods s)) of
        None \<Rightarrow> Inr (30, zero_time, zero_time)
      | Some p \<Rightarrow>
          if pp_source p = ''trial'' then Inr (100, pp_starts_at p, pp_ends_at p)
          else if pp_plan p = ''Starter'' then Inr (300, zero_time, zero_time)
          else if pp_plan p = ''Business'' then Inr (1000, zero_time, zero_time)
          else Inl (OtherError ''invalid document plan''))"

text \<open>The charges that count against the limit: those accepted inside the trial, or those of the month.\<close>

definition counted_charge :: "id \<Rightarrow> time \<Rightarrow> time \<Rightarrow> time \<Rightarrow> charge_row \<Rightarrow> bool" where
  "counted_charge org start trial_start trial_end c =
     (ch_org c = org \<and>
      (if trial_end > trial_start then trial_start \<le> ch_accepted_at c \<and> ch_accepted_at c < trial_end
       else ch_period_start c = start))"

definition insert_charge :: "charge_row \<Rightarrow> (unit, store) txn" where
  "insert_charge c s =
     (if row_exists (\<lambda>q. ch_org q = ch_org c \<and> ch_document q = ch_document c) (document_usage_charges s)
      then Inl (UniqueViolation ''document_usage_charges_pkey'')
      else Inr ((), s\<lparr>document_usage_charges := document_usage_charges s @ [c]\<rparr>))"

text \<open>The identifiers a transaction draws: document, source and the job of the trigger.\<close>

record fresh_ids =
  fi_document :: id
  fi_source :: id
  fi_job :: id

definition new_document_row :: "fresh_ids \<Rightarrow> commit_input \<Rightarrow> bytes \<Rightarrow> time \<Rightarrow> document_row" where
  "new_document_row ids x sha start =
     \<lparr>d_id = fi_document ids, d_org = ai_org x, d_sha256 = sha, d_storage_key = Some (ci_key x), d_filename = ai_filename x,
      d_mime = ci_mime x, d_size = ci_size x, d_status = ''Available'', d_submitter = Some (ai_actor x), d_assignee = None,
      d_group_restricted = ai_line_group x, d_accepted_at = ai_now x, d_updated_at = ai_now x, d_trashed_at = None,
      d_purged_at = None, d_period_start = start\<rparr>"

text \<open>\<^verbatim>\<open>accepts\<close> is the server's verdict on the rejection's INSERT, whose parameter \<^verbatim>\<open>$6\<close> is used both as a
  timestamp and, untyped, in \<^verbatim>\<open>$6+interval '90 days'\<close>.\<close>

definition reject_quota :: "bool \<Rightarrow> commit_input \<Rightarrow> (commit_result result, store) txn" where
  "reject_quota accepts x s =
     (let a = new_attempt x ''Rejected'' (Some ''quota_exhausted'') None (ai_now x) in
      if \<not> accepts then Inl (StatementRejected ''inconsistent types deduced for parameter $6'')
      else if conflicts attempt_key a (document_intake_attempts s) then Inr (Inl Document_ErrQuota, s)
      else if row_exists (\<lambda>q. ia_id q = ia_id a) (document_intake_attempts s)
      then Inl (UniqueViolation ''document_intake_attempts_pkey'')
      else Inr (Inl Document_ErrQuota, s\<lparr>document_intake_attempts := document_intake_attempts s @ [a]\<rparr>))"

definition accept_new :: "fresh_ids \<Rightarrow> time \<Rightarrow> commit_input \<Rightarrow> bytes \<Rightarrow> time \<Rightarrow> (commit_result result, store) txn" where
  "accept_new ids dbnow x sha start s =
     (case insert_document (fi_job ids) dbnow (new_document_row ids x sha start) s of
        Inl e \<Rightarrow> Inl e
      | Inr (_, s) \<Rightarrow>
     (case insertDocumentSource (fi_source ids) x (fi_document ids) s of
        Inl e \<Rightarrow> Inl (sourceConflict e)
      | Inr (_, s) \<Rightarrow>
     (case insert_charge \<lparr>ch_org = ai_org x, ch_document = fi_document ids, ch_period_start = start, ch_accepted_at = ai_now x\<rparr> s of
        Inl e \<Rightarrow> Inl e
      | Inr (_, s) \<Rightarrow>
     (case accept_attempt x (fi_document ids) s of
        Inl e \<Rightarrow> Inl e
      | Inr (_, s) \<Rightarrow>
          Inr (Inr \<lparr>cr_document = zero_document\<lparr>doc_id := fi_document ids, doc_org := ai_org x, doc_filename := ai_filename x,
                      doc_mime := ci_mime x, doc_size := ci_size x, doc_status := ''Available'', doc_storage := ci_key x,
                      doc_accepted_at := ai_now x\<rparr>, cr_accepted = True, cr_duplicate = False\<rparr>,
               auditTenant (ai_org x) (ai_actor x) ''document.accept'' ''document'' (fi_document ids) (ai_now x) s)))))"

definition charge_new ::
  "(string \<Rightarrow> time \<Rightarrow> (time \<times> time) option) \<Rightarrow> bool \<Rightarrow> fresh_ids \<Rightarrow> time \<Rightarrow> commit_input \<Rightarrow> bytes \<Rightarrow> (commit_result result, store) txn" where
  "charge_new zone accepts ids dbnow x sha s =
     (case query_row (\<lambda>g. o_id g = ai_org x) (organizations s) of
        None \<Rightarrow> Inl ErrNoRows
      | Some g \<Rightarrow>
     (case currentDocumentPeriod zone (ai_org x) (o_timezone g) (ai_now x) s of
        Inl e \<Rightarrow> Inl e
      | Inr ((start, _), s) \<Rightarrow>
     (case documentLimit (ai_org x) (ai_now x) s of
        Inl e \<Rightarrow> Inl e
      | Inr (limit, trial_start, trial_end) \<Rightarrow>
          if int (rows_affected (counted_charge (ai_org x) start trial_start trial_end) (document_usage_charges s)) \<ge> limit
          then reject_quota accepts x s
          else accept_new ids dbnow x sha start s)))"

definition accept_existing :: "fresh_ids \<Rightarrow> commit_input \<Rightarrow> id \<Rightarrow> string \<Rightarrow> (commit_result result, store) txn" where
  "accept_existing ids x doc status s =
     (if status = ''Trash'' then Inl Document_ErrTrashed
      else case insertDocumentSource (fi_source ids) x doc s of
        Inl e \<Rightarrow> Inl (sourceConflict e)
      | Inr (_, s) \<Rightarrow>
     (case accept_attempt x doc s of
        Inl e \<Rightarrow> Inl e
      | Inr (_, s) \<Rightarrow>
          if ai_line_group x then Inr (Inr (duplicate_of (brief_document doc (ai_org x) status)), s)
          else case query_row (\<lambda>d. d_org d = ai_org x \<and> d_id d = doc) (documents s) of
            None \<Rightarrow> Inl ErrNoRows
          | Some d \<Rightarrow> (case scan_document d of Inl e \<Rightarrow> Inl e | Inr d \<Rightarrow> Inr (Inr (duplicate_of d), s))))"

text \<open>An origin that was taken in before: for a LINE group by content, otherwise by the digest of its document.\<close>

definition group_replay :: "commit_input \<Rightarrow> bytes \<Rightarrow> store \<Rightarrow> commit_result result option" where
  "group_replay x sha s =
     (if \<not> ai_line_group x then None
      else case query_row (\<lambda>q. ds_org q = ai_org x \<and> ds_channel q = ''LINE'' \<and> ds_origin_key q = ai_origin x
                 \<and> ds_submitter q = Some (ai_actor x)) (document_sources s) of
        None \<Rightarrow> None
      | Some q \<Rightarrow>
          (case lookup_document_for_intake (ai_actor x) (ai_org x) sha s of
             None \<Rightarrow> Some (Inl Document_ErrSourceConflict)
           | Some (content, status) \<Rightarrow>
               if content \<noteq> ds_document q then Some (Inl Document_ErrSourceConflict)
               else Some (Inr (duplicate_of (brief_document (ds_document q) (ai_org x) status)))))"

definition origin_replay :: "commit_input \<Rightarrow> bytes \<Rightarrow> store \<Rightarrow> commit_result result option" where
  "origin_replay x sha s =
     (case query_row (\<lambda>(q, d). own_source x q \<and> d_org d = ds_org q \<and> d_id d = ds_document q)
             (List.product (document_sources s) (documents s)) of
        None \<Rightarrow> None
      | Some (q, d) \<Rightarrow>
          Some (case scan_document d of
             Inl e \<Rightarrow> Inl e
           | Inr doc \<Rightarrow> if d_sha256 d \<noteq> sha then Inl Document_ErrSourceConflict else Inr (duplicate_of doc)))"

definition CommitPrepared ::
  "(string \<Rightarrow> time \<Rightarrow> (time \<times> time) option) \<Rightarrow> bool \<Rightarrow> fresh_ids \<Rightarrow> time \<Rightarrow> commit_input \<Rightarrow> (commit_result result, store) txn" where
  "CommitPrepared zone accepts ids dbnow x s =
     (if invalid_prepared x then Inl (OtherError ''invalid prepared document'')
      else case hex_decode (ci_sha256 x) of
        None \<Rightarrow> Inl (OtherError ''invalid document digest'')
      | Some sha \<Rightarrow>
     (if length sha \<noteq> 32 then Inl (OtherError ''invalid document digest'')
      else case membershipFor (ai_actor x) (ai_org x) s of
        Inl _ \<Rightarrow> Inl Tenant_ErrNotFound
      | Inr _ \<Rightarrow>
     (case group_replay x sha s of
        Some r \<Rightarrow> map_sum id (\<lambda>c. (Inr c, s)) r
      | None \<Rightarrow>
     (case origin_replay x sha s of
        Some r \<Rightarrow> map_sum id (\<lambda>c. (Inr c, s)) r
      | None \<Rightarrow>
     (case lookup_document_for_intake (ai_actor x) (ai_org x) sha s of
        Some (doc, status) \<Rightarrow> accept_existing ids x doc status s
      | None \<Rightarrow> charge_new zone accepts ids dbnow x sha s)))))"

definition RecordRejected :: "time \<Rightarrow> accept_input \<Rightarrow> string \<Rightarrow> (unit, store) txn" where
  "RecordRejected clock x reason s =
     (if reason = [] \<or> ai_org x = [] \<or> ai_actor x = [] \<or> ai_attempt x = [] \<or> ai_origin x = []
      then Inl (OtherError ''invalid rejected document attempt'')
      else
        let now = (if ai_now x = zero_time then clock else ai_now x) in
        case membershipFor (ai_actor x) (ai_org x) s of
          Inl _ \<Rightarrow> Inl Tenant_ErrNotFound
        | Inr _ \<Rightarrow>
            upsert_attempt (new_attempt x ''Rejected'' (Some reason) None now)
              (\<lambda>q. if ia_status q = ''Accepted'' then q\<lparr>ia_updated_at := now\<rparr>
                   else q\<lparr>ia_status := ''Rejected'', ia_rejection := Some reason, ia_updated_at := now\<rparr>) s)"

section \<open>Reading documents\<close>

definition own_sources :: "id \<Rightarrow> id \<Rightarrow> store \<Rightarrow> document_row \<Rightarrow> source_row list" where
  "own_sources user org s d =
     filter (\<lambda>q. ds_org q = d_org d \<and> ds_document q = d_id d
        \<and> (is_manager (organization_role user org s) \<or> (ds_submitter q = Some user \<and> \<not> ds_group_source q)))
       (document_sources s)"

definition document_visible :: "id \<Rightarrow> id \<Rightarrow> store \<Rightarrow> document_row \<Rightarrow> bool" where
  "document_visible user org s d =
     (is_manager (organization_role user org s)
      \<or> (d_submitter d = Some user \<and> \<not> d_group_restricted d) \<or> d_assignee d = Some user
      \<or> row_exists (\<lambda>q. ds_org q = d_org d \<and> ds_document q = d_id d \<and> ds_submitter q = Some user \<and> \<not> ds_group_source q)
          (document_sources s))"

definition first_channel :: "source_row list \<Rightarrow> string" where
  "first_channel qs = (case sort_key (\<lambda>q. (ds_created_at q, ds_id q)) qs of [] \<Rightarrow> [] | q # _ \<Rightarrow> ds_channel q)"

definition readable_row :: "id \<Rightarrow> id \<Rightarrow> id \<Rightarrow> store \<Rightarrow> document_row \<Rightarrow> bool" where
  "readable_row user org doc s d =
     (d_org d = org \<and> d_id d = doc \<and> d_status d \<in> {''Available'', ''Archived''} \<and> document_visible user org s d)"

definition GetDocument :: "time \<Rightarrow> id \<Rightarrow> id \<Rightarrow> id \<Rightarrow> (document, store) txn" where
  "GetDocument clock user org doc s =
     (if \<not> documentUUID doc then Inl Tenant_ErrNotFound
      else case membershipFor user org s of
        Inl _ \<Rightarrow> Inl Tenant_ErrNotFound
      | Inr _ \<Rightarrow>
     (case query_row (readable_row user org doc s) (documents s) of
        None \<Rightarrow> Inl Tenant_ErrNotFound
      | Some d \<Rightarrow>
     (case scan_document d of
        Inl e \<Rightarrow> Inl e
      | Inr r \<Rightarrow> Inr (r\<lparr>doc_source_channel := first_channel (own_sources user org s d)\<rparr>,
                     auditTenant org user ''document.retrieve'' ''document'' doc clock s))))"

record source_info =
  si_id :: id
  si_channel :: string
  si_submitted_by :: string
  si_accepted_at :: time
  si_filename :: "string option"
  si_mime :: "string option"
  si_size :: "int option"
  si_selected_at :: "time option"
  si_drive_file :: "string option"
  si_drive_revision :: "string option"

definition display_name :: "id option \<Rightarrow> store \<Rightarrow> string" where
  "display_name user s =
     (case user of
        None \<Rightarrow> []
      | Some u \<Rightarrow> (case query_row (\<lambda>r. u_id r = u) (users s) of
                   None \<Rightarrow> []
                 | Some r \<Rightarrow> (case u_display_name r of None \<Rightarrow> [] | Some n \<Rightarrow> n)))"

definition source_detail :: "bool \<Rightarrow> store \<Rightarrow> source_row \<Rightarrow> source_info" where
  "source_detail manager s q =
     \<lparr>si_id = ds_id q, si_channel = ds_channel q, si_submitted_by = display_name (ds_submitter q) s,
      si_accepted_at = ds_created_at q, si_filename = ds_provider_filename q, si_mime = ds_provider_mime q,
      si_size = ds_provider_size q, si_selected_at = ds_selected_at q,
      si_drive_file = (if manager then ds_drive_file q else None),
      si_drive_revision = (if manager then ds_drive_revision q else None)\<rparr>"

definition DocumentDetail :: "id \<Rightarrow> id \<Rightarrow> id \<Rightarrow> store \<Rightarrow> (document \<times> source_info list) result" where
  "DocumentDetail user org doc s =
     (if \<not> documentUUID doc then Inl Tenant_ErrNotFound
      else case currentRole user org s of
        Inl _ \<Rightarrow> Inl Tenant_ErrNotFound
      | Inr role \<Rightarrow>
          let manager = manager_role role;
              visible = (\<lambda>d. d_org d = org \<and> d_id d = doc \<and> d_status d \<noteq> ''Purged'' \<and> (d_status d \<noteq> ''Trash'' \<or> manager)
                 \<and> (manager \<or> (d_submitter d = Some user \<and> \<not> d_group_restricted d) \<or> d_assignee d = Some user
                    \<or> row_exists (\<lambda>q. ds_org q = d_org d \<and> ds_document q = d_id d \<and> ds_submitter q = Some user
                         \<and> \<not> ds_group_source q) (document_sources s)))
          in case query_row visible (documents s) of
            None \<Rightarrow> Inl Tenant_ErrNotFound
          | Some d \<Rightarrow>
              Inr (zero_document\<lparr>doc_id := d_id d, doc_org := d_org d, doc_filename := d_filename d, doc_mime := d_mime d,
                     doc_size := d_size d, doc_status := d_status d, doc_accepted_at := d_accepted_at d\<rparr>,
                   map (source_detail manager s)
                     (sort_key (\<lambda>q. (ds_created_at q, ds_id q))
                       (filter (\<lambda>q. ds_org q = org \<and> ds_document q = doc
                          \<and> (manager \<or> (ds_submitter q = Some user \<and> \<not> ds_group_source q))) (document_sources s)))))"

subsection \<open>Status changes\<close>

text \<open>The trigger \<^verbatim>\<open>stop_removed_document_ocr\<close>; the purge trigger has no caller in the program.\<close>

definition stop_removed_document_ocr :: "time \<Rightarrow> document_row \<Rightarrow> document_row \<Rightarrow> (unit, store) txn" where
  "stop_removed_document_ocr dbnow d_old d_new s =
     (if d_status d_new \<in> {''Trash'', ''Purged''} \<and> d_status d_old \<noteq> d_status d_new then
        map_sum id (\<lambda>(_, s). ((), s))
          (update_jobs (\<lambda>j. row_exists (\<lambda>r. or_job r = j_id j \<and> or_document r = d_id d_new \<and> or_org r = d_org d_new) (document_ocr_runs s)
               \<and> j_status j = Queued)
             (\<lambda>j. j\<lparr>j_status := Cancelled, j_cancelled_at := Some dbnow\<rparr>) s)
      else Inr ((), s))"

definition transition_allowed :: "string \<Rightarrow> time \<Rightarrow> document_row \<Rightarrow> bool" where
  "transition_allowed action now d =
     ((action = ''archive'' \<and> d_status d = ''Available'')
      \<or> (action = ''trash'' \<and> d_status d \<in> {''Available'', ''Archived''})
      \<or> (action = ''restore'' \<and> d_status d = ''Trash'' \<and> (\<exists>t \<in> set_option (d_trashed_at d). t > now - 30 * Day)))"

definition change_status :: "string \<Rightarrow> time \<Rightarrow> document_row \<Rightarrow> document_row" where
  "change_status action now d =
     d\<lparr>d_status := (if action = ''archive'' then ''Archived'' else if action = ''trash'' then ''Trash'' else ''Available''),
       d_trashed_at := (if action = ''trash'' then Some now else None), d_updated_at := now\<rparr>"

definition ChangeDocumentStatus :: "time \<Rightarrow> id \<Rightarrow> id \<Rightarrow> id \<Rightarrow> string \<Rightarrow> time \<Rightarrow> (document, store) txn" where
  "ChangeDocumentStatus dbnow user org doc action now s =
     (if \<not> documentUUID doc \<or> (action \<noteq> ''archive'' \<and> action \<noteq> ''trash'' \<and> action \<noteq> ''restore'') then Inl Tenant_ErrNotFound
      else case currentRole user org s of
        Inl _ \<Rightarrow> Inl Tenant_ErrForbidden
      | Inr role \<Rightarrow>
          if \<not> manager_role role then Inl Tenant_ErrForbidden
          else
            let cond = (\<lambda>d. d_org d = org \<and> d_id d = doc \<and> transition_allowed action now d) in
            case query_row cond (documents s) of
              None \<Rightarrow>
                if row_exists (\<lambda>d. d_org d = org \<and> d_id d = doc) (documents s) then Inl Document_ErrStatusConflict
                else Inl Tenant_ErrNotFound
            | Some d \<Rightarrow>
                let d' = change_status action now d;
                    s1 = s\<lparr>documents := sql_update cond (change_status action now) (documents s)\<rparr>
                in case stop_removed_document_ocr dbnow d d' s1 of
                  Inl e \<Rightarrow> Inl e
                | Inr (_, s2) \<Rightarrow>
                    (case scan_document d' of
                       Inl e \<Rightarrow> Inl e
                     | Inr r \<Rightarrow> Inr (r, auditTenant org user (''document.'' @ action) ''document'' doc now s2)))"

subsection \<open>Usage summary\<close>

definition count_where :: "('r \<Rightarrow> bool) \<Rightarrow> 'r list \<Rightarrow> int" where
  "count_where P rows = int (rows_affected P rows)"

definition usage_warning :: "int \<Rightarrow> int \<Rightarrow> string" where
  "usage_warning used limit =
     (if limit > 0 \<and> used * 100 \<ge> limit * 90 then ''90'' else if limit > 0 \<and> used * 100 \<ge> limit * 80 then ''80'' else [])"

definition visible_charge :: "id \<Rightarrow> id \<Rightarrow> time \<Rightarrow> time \<Rightarrow> store \<Rightarrow> charge_row \<times> document_row \<Rightarrow> bool" where
  "visible_charge user org start stop s = (\<lambda>(c, d).
     ch_org c = org \<and> d_org d = ch_org c \<and> d_id d = ch_document c \<and> start \<le> ch_accepted_at c \<and> ch_accepted_at c < stop
     \<and> document_visible user org s d)"

definition visible_attempt :: "time \<Rightarrow> id \<Rightarrow> id \<Rightarrow> store \<Rightarrow> string \<Rightarrow> intake_row \<Rightarrow> bool" where
  "visible_attempt dbnow user org s status a =
     (ia_org a = org \<and> ia_created_at a \<ge> dbnow - 90 * Day \<and> ia_status a = status
      \<and> (is_manager (organization_role user org s) \<or> ia_actor a = Some user))"

definition DocumentSummary ::
  "(string \<Rightarrow> time \<Rightarrow> (time \<times> time) option) \<Rightarrow> time \<Rightarrow> time \<Rightarrow> id \<Rightarrow> id \<Rightarrow> (doc_summary, store) txn" where
  "DocumentSummary zone clock dbnow user org s =
     (case membershipFor user org s of
        Inl _ \<Rightarrow> Inl Tenant_ErrNotFound
      | Inr _ \<Rightarrow>
     (case query_row (\<lambda>g. o_id g = org) (organizations s) of
        None \<Rightarrow> Inl ErrNoRows
      | Some g \<Rightarrow>
     (case currentDocumentPeriod zone org (o_timezone g) clock s of
        Inl e \<Rightarrow> Inl e
      | Inr ((start, stop), s) \<Rightarrow>
     (case documentLimit org clock s of
        Inl e \<Rightarrow> Inl e
      | Inr (limit, trial_start, trial_end) \<Rightarrow>
          let (used_from, used_to) = (if trial_end > trial_start then (trial_start, trial_end) else (start, stop));
              used = count_where (visible_charge user org used_from used_to s)
                       (List.product (document_usage_charges s) (documents s));
              having = (\<lambda>status. count_where (\<lambda>d. d_org d = org \<and> d_status d = status \<and> document_visible user org s d) (documents s))
          in Inr (\<lparr>sm_used = used, sm_limit = limit, sm_reset_at = used_to, sm_available = having ''Available'',
                   sm_archived = having ''Archived'', sm_trash = having ''Trash'',
                   sm_checking = count_where (visible_attempt dbnow user org s ''Checking'') (document_intake_attempts s),
                   sm_rejected = count_where (visible_attempt dbnow user org s ''Rejected'') (document_intake_attempts s),
                   sm_warning = usage_warning used limit\<rparr>, s)))))"

subsection \<open>Lists\<close>

text \<open>The conditions of the filter; \<^verbatim>\<open>ilike\<close> is PostgreSQL's operator, with the pattern between \<^verbatim>\<open>%\<close> signs.\<close>

definition filter_matches :: "(string \<Rightarrow> string \<Rightarrow> bool) \<Rightarrow> doc_filter \<Rightarrow> store \<Rightarrow> document_row \<Rightarrow> bool" where
  "filter_matches ilike f s d =
     ((df_status f \<noteq> [] \<or> d_status d \<noteq> ''Trash'') \<and> (df_status f = [] \<or> d_status d = df_status f)
      \<and> (df_channel f = [] \<or> row_exists (\<lambda>q. ds_org q = d_org d \<and> ds_document q = d_id d \<and> ds_channel q = df_channel f) (document_sources s))
      \<and> (df_filename f = [] \<or> ilike (d_filename d) (''%'' @ df_filename f @ ''%''))
      \<and> (df_submitter f = [] \<or> (case d_submitter d of None \<Rightarrow> [] | Some u \<Rightarrow> u) = df_submitter f)
      \<and> (df_assignee f = [] \<or> (case d_assignee d of None \<Rightarrow> [] | Some u \<Rightarrow> u) = df_assignee f)
      \<and> (\<forall>t \<in> set_option (df_from f). t \<le> d_accepted_at d) \<and> (\<forall>t \<in> set_option (df_to f). d_accepted_at d < t))"

definition export_scope :: "(string \<Rightarrow> string \<Rightarrow> bool) \<Rightarrow> id \<Rightarrow> doc_filter \<Rightarrow> store \<Rightarrow> document_row \<Rightarrow> bool" where
  "export_scope ilike org f s d = (d_org d = org \<and> d_status d \<noteq> ''Purged'' \<and> filter_matches ilike f s d)"

definition CountDocumentsForExport :: "(string \<Rightarrow> string \<Rightarrow> bool) \<Rightarrow> time \<Rightarrow> id \<Rightarrow> id \<Rightarrow> doc_filter \<Rightarrow> (int, store) txn" where
  "CountDocumentsForExport ilike clock user org f s =
     (case currentRole user org s of
        Inl _ \<Rightarrow> Inl Tenant_ErrForbidden
      | Inr role \<Rightarrow>
          if \<not> manager_role role then Inl Tenant_ErrForbidden
          else Inr (count_where (export_scope ilike org f s) (documents s),
                    auditTenant org user ''document.export.preview'' ''organization'' org clock s))"

record export_row =
  xr_id :: id
  xr_filename :: string
  xr_mime :: string
  xr_status :: string
  xr_channel :: string
  xr_submitter :: string
  xr_assignee :: string
  xr_size :: int
  xr_sources :: int
  xr_accepted_at :: time
  xr_updated_at :: time

definition sources_of :: "store \<Rightarrow> document_row \<Rightarrow> source_row list" where
  "sources_of s d = filter (\<lambda>q. ds_org q = d_org d \<and> ds_document q = d_id d) (document_sources s)"

definition export_row_of :: "store \<Rightarrow> document_row \<Rightarrow> export_row" where
  "export_row_of s d =
     \<lparr>xr_id = d_id d, xr_filename = d_filename d, xr_mime = d_mime d, xr_status = d_status d,
      xr_channel = first_channel (sources_of s d), xr_submitter = display_name (d_submitter d) s,
      xr_assignee = display_name (d_assignee d) s, xr_size = d_size d, xr_sources = int (length (sources_of s d)),
      xr_accepted_at = d_accepted_at d, xr_updated_at = d_updated_at d\<rparr>"

definition newest_first :: "document_row list \<Rightarrow> document_row list" where
  "newest_first ds = descending (\<lambda>d. (d_accepted_at d, d_id d)) ds"

text \<open>\<^verbatim>\<open>write\<close> is \<^verbatim>\<open>document.WriteExport\<close> to the output.\<close>

definition ExportDocuments ::
  "(string \<Rightarrow> string \<Rightarrow> bool) \<Rightarrow> (string \<Rightarrow> export_row list \<Rightarrow> 'o result) \<Rightarrow> time \<Rightarrow> id \<Rightarrow> id \<Rightarrow> doc_filter \<Rightarrow> string
    \<Rightarrow> (int \<times> 'o, store) txn" where
  "ExportDocuments ilike write clock user org f fmt s =
     (if fmt \<noteq> ''csv'' \<and> fmt \<noteq> ''xlsx'' then Inl (OtherError ''unsupported document export format'')
      else case currentRole user org s of
        Inl _ \<Rightarrow> Inl Tenant_ErrForbidden
      | Inr role \<Rightarrow>
          if \<not> manager_role role then Inl Tenant_ErrForbidden
          else
            let rows = map (export_row_of s) (newest_first (filter (export_scope ilike org f s) (documents s))) in
            if length rows > 5000 then Inl (OtherError ''document export requires asynchronous processing'')
            else case write fmt rows of
              Inl e \<Rightarrow> Inl e
            | Inr out \<Rightarrow> Inr ((int (length rows), out), auditTenant org user ''document.export'' ''organization'' org clock s))"

text \<open>The cursor of a page: \<^verbatim>\<open>unmarshal\<close> and \<^verbatim>\<open>marshal\<close> are the JSON codec of \<^verbatim>\<open>documentCursor\<close>.\<close>

definition decodeDocumentCursor :: "(bytes \<Rightarrow> (time \<times> id) option) \<Rightarrow> string \<Rightarrow> (time \<times> id) option result" where
  "decodeDocumentCursor unmarshal v =
     (if v = [] then Inr None
      else if length v > 256 then Inl Document_ErrInvalidCursor
      else case DecodeString v of
        None \<Rightarrow> Inl Document_ErrInvalidCursor
      | Some data \<Rightarrow>
          (case unmarshal data of
             None \<Rightarrow> Inl Document_ErrInvalidCursor
           | Some (at, i) \<Rightarrow>
               if \<not> documentUUID i \<or> at = zero_time then Inl Document_ErrInvalidCursor else Inr (Some (at, i))))"

definition encodeDocumentCursor :: "(time \<Rightarrow> id \<Rightarrow> bytes) \<Rightarrow> document \<Rightarrow> string" where
  "encodeDocumentCursor marshal d = EncodeToString (marshal (doc_accepted_at d) (doc_id d))"

definition listed_row :: "(string \<Rightarrow> string \<Rightarrow> bool) \<Rightarrow> id \<Rightarrow> id \<Rightarrow> doc_filter \<Rightarrow> store \<Rightarrow> document_row \<Rightarrow> bool" where
  "listed_row ilike user org f s d =
     (d_org d = org \<and> d_status d \<noteq> ''Purged'' \<and> document_visible user org s d \<and> filter_matches ilike f s d)"

definition listed_document :: "id \<Rightarrow> id \<Rightarrow> store \<Rightarrow> document_row \<Rightarrow> document result" where
  "listed_document user org s d =
     (let own = own_sources user org s d in
      map_sum id (\<lambda>r. r\<lparr>doc_source_channel := first_channel own, doc_source_count := int (length own)\<rparr>) (scan_document d))"

definition ListDocumentsFiltered ::
  "(string \<Rightarrow> string \<Rightarrow> bool) \<Rightarrow> (bytes \<Rightarrow> (time \<times> id) option) \<Rightarrow> (time \<Rightarrow> id \<Rightarrow> bytes) \<Rightarrow> id \<Rightarrow> id \<Rightarrow> string \<Rightarrow> int
    \<Rightarrow> doc_filter \<Rightarrow> store \<Rightarrow> (document list \<times> string) result" where
  "ListDocumentsFiltered ilike unmarshal marshal user org cursor limit f s =
     (if limit < 1 \<or> limit > 50 then Inl Document_ErrInvalidCursor
      else case decodeDocumentCursor unmarshal cursor of
        Inl e \<Rightarrow> Inl e
      | Inr position \<Rightarrow>
     (case membershipFor user org s of
        Inl _ \<Rightarrow> Inl Tenant_ErrNotFound
      | Inr _ \<Rightarrow>
          let rows = newest_first (filter (\<lambda>d. listed_row ilike user org f s d
                 \<and> (case position of None \<Rightarrow> True | Some p \<Rightarrow> (d_accepted_at d, d_id d) < p)) (documents s))
          in case collect_rows (listed_document user org s) (take (nat limit + 1) rows) of
            Inl e \<Rightarrow> Inl e
          | Inr docs \<Rightarrow>
              if length docs > nat limit
              then Inr (take (nat limit) docs, encodeDocumentCursor marshal (docs ! (nat limit - 1)))
              else Inr (docs, [])))"

section \<open>The intake service\<close>

definition rejectionCode :: "err \<Rightarrow> string" where
  "rejectionCode e =
     (if e = Document_ErrUnsupportedType then ''unsupported_type'' else if e = Document_ErrTooLarge then ''too_large''
      else if e = Document_ErrMalware then ''malware'' else [])"

record prepared =
  pr_key :: string
  pr_sha256 :: string
  pr_mime :: string
  pr_size :: int

text \<open>\<^verbatim>\<open>Service.Accept\<close> over the result of \<^verbatim>\<open>Intake.Prepare\<close>.  The returned key is the temporary object the
  service deletes afterwards; \<^verbatim>\<open>deletes\<close> tells whether that deletion succeeds.\<close>

definition Accept ::
  "(string \<Rightarrow> time \<Rightarrow> (time \<times> time) option) \<Rightarrow> bool \<Rightarrow> fresh_ids \<Rightarrow> time \<Rightarrow> time \<Rightarrow> prepared result \<Rightarrow> bool \<Rightarrow> accept_input \<Rightarrow> store
    \<Rightarrow> commit_result result \<times> string option \<times> store" where
  "Accept zone accepts ids clock dbnow prep deletes x s =
     (if ai_org x = [] \<or> ai_actor x = [] \<or> ai_attempt x = [] \<or> ai_origin x = [] \<or> ai_filename x = [] \<or> ai_channel x = []
      then (Inl (OtherError ''document intake is not configured''), None, s)
      else case prep of
        Inl e \<Rightarrow>
          (Inl e, None, if rejectionCode e = [] then s else after s (RecordRejected clock x (rejectionCode e) s))
      | Inr p \<Rightarrow>
          let c = accept_input.extend x (commit_input.fields (pr_key p) (pr_sha256 p) (pr_mime p) (pr_size p));
              run = CommitPrepared zone accepts ids dbnow c s;
              result = (case run of Inl e \<Rightarrow> Inl e | Inr (r, _) \<Rightarrow> r);
              s' = after s run
          in case result of
            Inl e \<Rightarrow> (Inl e, Some (pr_key p), s')
          | Inr r \<Rightarrow>
              if cr_accepted r then (Inr r, None, s')
              else (if deletes then Inr r else Inl (OtherError ''cleanup failed''), Some (pr_key p), s'))"

section \<open>What the statements change\<close>

lemma map_sum_Inr_iff [simp]: "map_sum f g r = Inr b \<longleftrightarrow> (\<exists>a. r = Inr a \<and> g a = b)"
  by (cases r) auto

lemma row_exists_sql_update:
  "(\<And>r. Q r \<Longrightarrow> P (f r) = P r) \<Longrightarrow> row_exists P (sql_update Q f rows) = row_exists P rows"
  by (induction rows) auto

text \<open>The tables a document transaction may not touch by accident.\<close>

definition doc_tables :: "store \<Rightarrow> document_row list \<times> source_row list \<times> charge_row list" where
  "doc_tables s = (documents s, document_sources s, document_usage_charges s)"

definition other_tables ::
  "store \<Rightarrow> organization_row list \<times> membership_row list \<times> plan_period_row list \<times> usage_period_row list" where
  "other_tables s = (organizations s, memberships s, organization_plan_periods s, document_usage_periods s)"

lemmas tables_defs = doc_tables_def other_tables_def

lemma insert_jobD: "insert_job j s = Inr (u, s') \<Longrightarrow> s' = s\<lparr>durable_jobs := durable_jobs s @ [j]\<rparr>"
  by (auto simp: insert_job_def split: if_splits)

lemma insert_ocr_runD: "insert_ocr_run r s = Inr (u, s') \<Longrightarrow> s' = s\<lparr>document_ocr_runs := document_ocr_runs s @ [r]\<rparr>"
  by (auto simp: insert_ocr_run_def split: if_splits)

lemma enqueueD:
  assumes "enqueue_document_ocr jid now d s = Inr (u, s')"
  shows "doc_tables s' = doc_tables s \<and> other_tables s' = other_tables s
    \<and> document_intake_attempts s' = document_intake_attempts s"
  using assms
  by (auto simp: enqueue_document_ocr_def Let_def tables_defs dest!: insert_jobD insert_ocr_runD split: if_splits sum.splits)

lemma insert_documentD:
  assumes "insert_document jid now d s = Inr (u, s')"
  shows "document_check d \<and> \<not> row_exists (\<lambda>q. d_id q = d_id d) (documents s) \<and> \<not> conflicts active_content d (documents s)
    \<and> doc_tables s' = (documents s @ [d], document_sources s, document_usage_charges s) \<and> other_tables s' = other_tables s
    \<and> document_intake_attempts s' = document_intake_attempts s"
  using assms by (auto simp: insert_document_def tables_defs dest!: enqueueD split: if_splits)

lemma insert_sourceD:
  assumes "insert_source x s = Inr (u, s')"
  shows "source_check x \<and> \<not> row_exists (\<lambda>q. ds_id q = ds_id x) (document_sources s) \<and> \<not> conflicts source_key x (document_sources s)
    \<and> s' = s\<lparr>document_sources := document_sources s @ [x]\<rparr>"
  using assms by (auto simp: insert_source_def split: if_splits)

lemma insert_chargeD:
  assumes "insert_charge c s = Inr (u, s')"
  shows "\<not> row_exists (\<lambda>q. ch_org q = ch_org c \<and> ch_document q = ch_document c) (document_usage_charges s)
    \<and> s' = s\<lparr>document_usage_charges := document_usage_charges s @ [c]\<rparr>"
  using assms by (auto simp: insert_charge_def split: if_splits)

lemma upsert_attemptD:
  assumes "upsert_attempt a f s = Inr (u, s')"
  shows "\<exists>rows. s' = s\<lparr>document_intake_attempts := rows\<rparr>"
  using assms by (auto simp: upsert_attempt_def split: if_splits)

lemma currentDocumentPeriodD:
  assumes "currentDocumentPeriod zone org tz now s = Inr (p, s')"
  shows "\<exists>rows. s' = s\<lparr>document_usage_periods := rows\<rparr>"
proof (cases "usage_period_at org now s")
  case (Some q)
  then have "s' = s\<lparr>document_usage_periods := document_usage_periods s\<rparr>"
    using assms by (auto simp: currentDocumentPeriod_def)
  then show ?thesis by blast
next
  case None
  then have "s' = s\<lparr>document_usage_periods := document_usage_periods s\<rparr>
    \<or> (\<exists>rows. s' = s\<lparr>document_usage_periods := rows\<rparr>)"
    using assms by (auto simp: currentDocumentPeriod_def split: option.splits if_splits)
  then show ?thesis by blast
qed

lemma insertDocumentSourceD:
  assumes "insertDocumentSource sid x doc s = Inr (u, s')"
  shows "\<not> conflicts source_key (new_source sid x doc) (document_sources s)
    \<and> \<not> row_exists (\<lambda>q. ds_id q = sid) (document_sources s)
    \<and> s' = s\<lparr>document_sources := document_sources s @ [new_source sid x doc]\<rparr>"
  using insert_sourceD [OF assms [unfolded insertDocumentSource_def]] by simp

lemma new_document_simps [simp]:
  "d_id (new_document_row ids x sha start) = fi_document ids" "d_org (new_document_row ids x sha start) = ai_org x"
  "d_sha256 (new_document_row ids x sha start) = sha" "d_status (new_document_row ids x sha start) = ''Available''"
  "d_storage_key (new_document_row ids x sha start) = Some (ci_key x)"
  by (simp_all add: new_document_row_def)

lemma accept_newD:
  assumes "accept_new ids now x sha start s = Inr (r, s')"
  shows "(\<exists>c. r = Inr c \<and> cr_accepted c \<and> doc_id (cr_document c) = fi_document ids)
    \<and> \<not> row_exists (\<lambda>q. d_id q = fi_document ids) (documents s)
    \<and> \<not> conflicts active_content (new_document_row ids x sha start) (documents s)
    \<and> \<not> conflicts source_key (new_source (fi_source ids) x (fi_document ids)) (document_sources s)
    \<and> doc_tables s' = (documents s @ [new_document_row ids x sha start],
         document_sources s @ [new_source (fi_source ids) x (fi_document ids)], document_usage_charges s
         @ [\<lparr>ch_org = ai_org x, ch_document = fi_document ids, ch_period_start = start, ch_accepted_at = ai_now x\<rparr>])
    \<and> other_tables s' = other_tables s"
proof -
  obtain s1 s2 s3 s4 where
    1: "insert_document (fi_job ids) now (new_document_row ids x sha start) s = Inr ((), s1)"
    and 2: "insertDocumentSource (fi_source ids) x (fi_document ids) s1 = Inr ((), s2)"
    and 3: "insert_charge \<lparr>ch_org = ai_org x, ch_document = fi_document ids, ch_period_start = start, ch_accepted_at = ai_now x\<rparr> s2 = Inr ((), s3)"
    and 4: "accept_attempt x (fi_document ids) s3 = Inr ((), s4)"
    and r: "\<exists>c. r = Inr c \<and> cr_accepted c \<and> doc_id (cr_document c) = fi_document ids"
    and s': "s' = auditTenant (ai_org x) (ai_actor x) ''document.accept'' ''document'' (fi_document ids) (ai_now x) s4"
    using assms unfolding accept_new_def by (auto split: sum.splits)
  obtain rows where s4: "s4 = s3\<lparr>document_intake_attempts := rows\<rparr>"
    using upsert_attemptD 4 unfolding accept_attempt_def by blast
  show ?thesis
    using r s' s4 insert_documentD [OF 1] insertDocumentSourceD [OF 2] insert_chargeD [OF 3]
    by (auto simp: tables_defs auditTenant_def)
qed


lemma accept_existingD:
  assumes "accept_existing ids x doc status s = Inr (r, s')"
  shows "(\<exists>c. r = Inr c \<and> cr_duplicate c \<and> \<not> cr_accepted c) \<and> status \<noteq> ''Trash''
    \<and> \<not> conflicts source_key (new_source (fi_source ids) x doc) (document_sources s)
    \<and> doc_tables s' = (documents s, document_sources s @ [new_source (fi_source ids) x doc], document_usage_charges s)
    \<and> other_tables s' = other_tables s"
proof -
  obtain s1 s2 where
    1: "insertDocumentSource (fi_source ids) x doc s = Inr ((), s1)" and 2: "accept_attempt x doc s1 = Inr ((), s2)"
    and r: "\<exists>c. r = Inr c \<and> cr_duplicate c \<and> \<not> cr_accepted c" "s' = s2" "status \<noteq> ''Trash''"
    using assms unfolding accept_existing_def by (auto simp: duplicate_of_def split: sum.splits if_splits option.splits)
  obtain rows where "s2 = s1\<lparr>document_intake_attempts := rows\<rparr>"
    using upsert_attemptD 2 unfolding accept_attempt_def by blast
  then show ?thesis using r insertDocumentSourceD [OF 1] by (auto simp: tables_defs)
qed

lemma reject_quotaD:
  assumes "reject_quota accepts x s = Inr (r, s')"
  shows "r = Inl Document_ErrQuota \<and> doc_tables s' = doc_tables s \<and> other_tables s' = other_tables s"
  using assms by (auto simp: reject_quota_def Let_def tables_defs split: if_splits)

text \<open>The four ways an intake commits.\<close>

definition replayed :: "commit_result result \<Rightarrow> bool" where
  "replayed r = (\<exists>c. r = Inr c \<and> cr_duplicate c \<and> \<not> cr_accepted c)"

lemma replaysD:
  "group_replay x sha s = Some (Inr c) \<Longrightarrow> cr_duplicate c \<and> \<not> cr_accepted c"
  "origin_replay x sha s = Some (Inr c) \<Longrightarrow> cr_duplicate c \<and> \<not> cr_accepted c"
  by (auto simp: group_replay_def origin_replay_def duplicate_of_def split: if_splits option.splits sum.splits prod.splits)

lemma CommitPreparedE:
  assumes "CommitPrepared zone accepts ids now x s = Inr (r, s')"
  obtains (replay) "replayed r" "s' = s"
  | (existing) sha doc status where "hex_decode (ci_sha256 x) = Some sha"
      "lookup_document_for_intake (ai_actor x) (ai_org x) sha s = Some (doc, status)"
      "accept_existing ids x doc status s = Inr (r, s')"
  | (fresh) sha where "hex_decode (ci_sha256 x) = Some sha" "length sha = 32" "\<not> invalid_prepared x"
      "lookup_document_for_intake (ai_actor x) (ai_org x) sha s = None"
      "membershipFor (ai_actor x) (ai_org x) s \<noteq> Inl Tenant_ErrNotFound" "\<exists>m. membershipFor (ai_actor x) (ai_org x) s = Inr m"
      "charge_new zone accepts ids now x sha s = Inr (r, s')"
proof -
  obtain sha m where h: "\<not> invalid_prepared x" "hex_decode (ci_sha256 x) = Some sha" "length sha = 32"
    "membershipFor (ai_actor x) (ai_org x) s = Inr m"
    using assms by (auto simp: CommitPrepared_def split: if_splits option.splits sum.splits)
  note run = assms [unfolded CommitPrepared_def h(2) h(4) option.case sum.case]
  show ?thesis
  proof (cases "group_replay x sha s")
    case (Some q)
    then have "q = Inr c \<Longrightarrow> r = Inr c \<and> s' = s" for c using run h(1,3) by simp
    moreover obtain c where "q = Inr c" using run h(1,3) Some by (cases q) auto
    ultimately show ?thesis using replay replaysD(1) Some by (auto simp: replayed_def)
  next
    case None
    note g = this
    show ?thesis
    proof (cases "origin_replay x sha s")
      case (Some q)
      then obtain c where "q = Inr c" "r = Inr c" "s' = s" using run h(1,3) g by (cases q) auto
      then show ?thesis using replay replaysD(2) Some by (auto simp: replayed_def)
    next
      case None
      note run' = run [unfolded g None option.case]
      show ?thesis
      proof (cases "lookup_document_for_intake (ai_actor x) (ai_org x) sha s")
        case (Some ds)
        then show ?thesis using existing [of sha "fst ds" "snd ds"] run' h by (cases ds) auto
      next
        case None
        then show ?thesis using fresh [of sha] run' h by auto
      qed
    qed
  qed
qed

lemma charge_newE:
  assumes "charge_new zone accepts ids now x sha s = Inr (r, s')"
  obtains (rejected) "r = Inl Document_ErrQuota" "doc_tables s' = doc_tables s"
    "memberships s' = memberships s" "organizations s' = organizations s"
  | (accepted) s1 start limit ts te where "doc_tables s1 = doc_tables s" "memberships s1 = memberships s"
      "organizations s1 = organizations s" "organization_plan_periods s1 = organization_plan_periods s"
      "documentLimit (ai_org x) (ai_now x) s = Inr (limit, ts, te)"
      "int (rows_affected (counted_charge (ai_org x) start ts te) (document_usage_charges s)) < limit"
      "accept_new ids now x sha start s1 = Inr (r, s')"
proof -
  obtain g start stop s1 where 1: "currentDocumentPeriod zone (ai_org x) (o_timezone g) (ai_now x) s = Inr ((start, stop), s1)"
    and g: "query_row (\<lambda>g. o_id g = ai_org x) (organizations s) = Some g"
    using assms by (auto simp: charge_new_def split: option.splits sum.splits)
  obtain rows where s1: "s1 = s\<lparr>document_usage_periods := rows\<rparr>" using currentDocumentPeriodD [OF 1] by blast
  have lim: "documentLimit (ai_org x) (ai_now x) s1 = documentLimit (ai_org x) (ai_now x) s"
    by (simp add: documentLimit_def s1)
  obtain limit ts te where l: "documentLimit (ai_org x) (ai_now x) s = Inr (limit, ts, te)"
    using assms by (auto simp: charge_new_def g 1 lim split: sum.splits)
  have t: "doc_tables s1 = doc_tables s" "memberships s1 = memberships s" "organizations s1 = organizations s"
    "organization_plan_periods s1 = organization_plan_periods s" "document_usage_charges s1 = document_usage_charges s"
    by (simp_all add: s1 tables_defs)
  note run = assms [unfolded charge_new_def g 1 lim l option.case sum.case prod.case t(5)]
  show ?thesis
  proof (cases "int (rows_affected (counted_charge (ai_org x) start ts te) (document_usage_charges s)) \<ge> limit")
    case True
    then have "reject_quota accepts x s1 = Inr (r, s')" using run by simp
    then show ?thesis using rejected reject_quotaD t by (auto simp: tables_defs)
  next
    case False
    then have "int (rows_affected (counted_charge (ai_org x) start ts te) (document_usage_charges s)) < limit" by simp
    moreover have "accept_new ids now x sha start s1 = Inr (r, s')" using run False by simp
    ultimately show ?thesis using accepted [OF t(1-4) l] by blast
  qed
qed


section \<open>Invariant\<close>

text \<open>No organization holds a content twice, identifiers and origins are unique, every source names a
  document, and the charges are the documents, one for one.\<close>

definition docs_ok :: "store \<Rightarrow> bool" where
  "docs_ok s = (unique_on active_content (documents s) \<and> distinct (map d_id (documents s))
     \<and> unique_on source_key (document_sources s)
     \<and> map (\<lambda>c. (ch_org c, ch_document c)) (document_usage_charges s) = map (\<lambda>d. (d_org d, d_id d)) (documents s)
     \<and> list_all (\<lambda>q. row_exists (\<lambda>d. d_org d = ds_org q \<and> d_id d = ds_document q) (documents s)) (document_sources s))"

lemma docs_ok_cong: "doc_tables s' = doc_tables s \<Longrightarrow> docs_ok s' = docs_ok s"
  by (simp add: docs_ok_def doc_tables_def)

lemma lookupD:
  assumes "lookup_document_for_intake user org sha s = Some (doc, status)"
  shows "\<exists>d \<in> set (documents s). d_org d = org \<and> d_id d = doc \<and> d_sha256 d = sha \<and> d_status d = status"
  using assms by (auto simp: lookup_document_for_intake_def dest!: query_row_SomeD split: if_splits)

lemma docs_ok_accept_existing:
  assumes "docs_ok s" "accept_existing ids x doc status s = Inr (r, s')"
    "lookup_document_for_intake (ai_actor x) (ai_org x) sha s = Some (doc, status)"
  shows "docs_ok s'"
  using assms(1) accept_existingD [OF assms(2)] lookupD [OF assms(3)]
  by (auto simp: docs_ok_def doc_tables_def unique_on_append1 row_exists_iff)

lemma row_exists_append [simp]: "row_exists P (xs @ ys) = (row_exists P xs \<or> row_exists P ys)"
  by (simp add: row_exists_def)

lemma docs_ok_accept_new:
  assumes "docs_ok s" "accept_new ids now x sha start s = Inr (r, s')"
  shows "docs_ok s'"
proof -
  note a = accept_newD [OF assms(2)]
  have "fi_document ids \<notin> d_id ` set (documents s)" using a by (auto simp: row_exists_iff)
  then show ?thesis using assms(1) a
    by (auto simp: docs_ok_def doc_tables_def unique_on_append1 list_all_iff)
qed

lemma docs_ok_CommitPrepared:
  assumes "docs_ok s" "CommitPrepared zone accepts ids now x s = Inr (r, s')"
  shows "docs_ok s'"
  using assms(2)
proof (cases rule: CommitPreparedE)
  case replay
  then show ?thesis using assms(1) by simp
next
  case (existing sha doc status)
  then show ?thesis using docs_ok_accept_existing [OF assms(1)] by blast
next
  case (fresh sha)
  show ?thesis using fresh(7)
  proof (cases rule: charge_newE)
    case rejected
    then show ?thesis using assms(1) docs_ok_cong by blast
  next
    case (accepted s1 start limit ts te)
    then have "docs_ok s1" using assms(1) docs_ok_cong by blast
    then show ?thesis using docs_ok_accept_new accepted(7) by blast
  qed
qed

lemma update_jobs_tables:
  assumes "update_jobs P f s = Inr (n, s')"
  shows "s' = s\<lparr>durable_jobs := sql_update P f (durable_jobs s)\<rparr>"
  using assms by (auto simp: update_jobs_def split: if_splits)

lemma stop_removedD:
  assumes "stop_removed_document_ocr now d d' s = Inr (u, s')"
  shows "doc_tables s' = doc_tables s \<and> memberships s' = memberships s \<and> organizations s' = organizations s"
  using assms by (auto simp: stop_removed_document_ocr_def doc_tables_def dest!: update_jobs_tables split: if_splits sum.splits)

lemma change_status_keeps [simp]:
  "d_id (change_status a now d) = d_id d" "d_org (change_status a now d) = d_org d"
  "d_sha256 (change_status a now d) = d_sha256 d" "d_storage_key (change_status a now d) = d_storage_key d"
  by (simp_all add: change_status_def)

lemma ChangeDocumentStatusE:
  assumes "ChangeDocumentStatus dbnow user org doc action now s = Inr (r, s')"
  obtains d role s2 where "currentRole user org s = Inr role" "manager_role role" "documentUUID doc"
    "d \<in> set (documents s)" "d_org d = org" "d_id d = doc" "transition_allowed action now d"
    "action \<in> {''archive'', ''trash'', ''restore''}"
    "stop_removed_document_ocr dbnow d (change_status action now d)
       (s\<lparr>documents := sql_update (\<lambda>d. d_org d = org \<and> d_id d = doc \<and> transition_allowed action now d)
          (change_status action now) (documents s)\<rparr>) = Inr ((), s2)"
    "s' = auditTenant org user (''document.'' @ action) ''document'' doc now s2"
    "scan_document (change_status action now d) = Inr r"
proof -
  let ?cond = "\<lambda>d. d_org d = org \<and> d_id d = doc \<and> transition_allowed action now d"
  obtain role d s2 where 1: "currentRole user org s = Inr role" "manager_role role" "documentUUID doc"
      "action \<in> {''archive'', ''trash'', ''restore''}" "query_row ?cond (documents s) = Some d"
      "stop_removed_document_ocr dbnow d (change_status action now d)
        (s\<lparr>documents := sql_update ?cond (change_status action now) (documents s)\<rparr>) = Inr ((), s2)"
      "s' = auditTenant org user (''document.'' @ action) ''document'' doc now s2"
      "scan_document (change_status action now d) = Inr r"
    using assms unfolding ChangeDocumentStatus_def Let_def by (auto split: if_splits sum.splits option.splits)
  then show ?thesis using that query_row_SomeD [OF 1(5)] by blast
qed

lemma docs_ok_ChangeDocumentStatus:
  assumes "docs_ok s" "ChangeDocumentStatus dbnow user org doc action now s = Inr (r, s')"
  shows "docs_ok s'"
  using assms(2)
proof (cases rule: ChangeDocumentStatusE)
  case (1 d role s2)
  let ?cond = "\<lambda>d. d_org d = org \<and> d_id d = doc \<and> transition_allowed action now d"
  let ?docs = "sql_update ?cond (change_status action now) (documents s)"
  have t: "doc_tables s' = (?docs, document_sources s, document_usage_charges s)"
    using stop_removedD [OF 1(9)] 1(10) by (simp add: doc_tables_def auditTenant_def)
  have "unique_on active_content ?docs"
    using assms(1) 1(8) unfolding docs_ok_def
    by (intro unique_on_update_shrink) (auto simp: active_content_def change_status_def transition_allowed_def)
  moreover have "map d_id ?docs = map d_id (documents s)" "map (\<lambda>d. (d_org d, d_id d)) ?docs = map (\<lambda>d. (d_org d, d_id d)) (documents s)"
    by (rule map_sql_update; simp)+
  moreover have "row_exists (\<lambda>d. d_org d = a \<and> d_id d = b) ?docs = row_exists (\<lambda>d. d_org d = a \<and> d_id d = b) (documents s)" for a b
    by (rule row_exists_sql_update) simp
  ultimately show ?thesis using assms(1) t by (simp add: docs_ok_def doc_tables_def)
qed

lemma docs_ok_GetDocument: "docs_ok s \<Longrightarrow> GetDocument clock user org doc s = Inr (r, s') \<Longrightarrow> docs_ok s'"
  by (auto simp: GetDocument_def auditTenant_def docs_ok_def split: if_splits sum.splits option.splits)

lemma docs_ok_RecordRejected: "docs_ok s \<Longrightarrow> RecordRejected clock x reason s = Inr (r, s') \<Longrightarrow> docs_ok s'"
  by (auto simp: RecordRejected_def Let_def docs_ok_def dest!: upsert_attemptD split: if_splits sum.splits)


section \<open>Properties\<close>

text \<open>The operations on documents with their arguments.\<close>

datatype doc_op =
    Intake "string \<Rightarrow> time \<Rightarrow> (time \<times> time) option" bool fresh_ids time commit_input
  | Reject time accept_input string
  | SetStatus time id id id string time
  | Retrieve time id id id

fun doc_step :: "doc_op \<Rightarrow> store \<Rightarrow> store" where
  "doc_step (Intake zone accepts ids now x) s = after s (CommitPrepared zone accepts ids now x s)"
| "doc_step (Reject clock x reason) s = after s (RecordRejected clock x reason s)"
| "doc_step (SetStatus dbnow user org doc action now) s = after s (ChangeDocumentStatus dbnow user org doc action now s)"
| "doc_step (Retrieve clock user org doc) s = after s (GetDocument clock user org doc s)"

lemma docs_ok_step: "docs_ok s \<Longrightarrow> docs_ok (doc_step q s)"
proof (cases q)
  case (Intake zone accepts ids now x)
  then show "docs_ok s \<Longrightarrow> docs_ok (doc_step q s)"
    using docs_ok_CommitPrepared by (auto intro: after_invariant [where P = docs_ok])
next
  case (Reject clock x reason)
  then show "docs_ok s \<Longrightarrow> docs_ok (doc_step q s)"
    using docs_ok_RecordRejected by (auto intro: after_invariant [where P = docs_ok])
next
  case (SetStatus dbnow user org doc action now)
  then show "docs_ok s \<Longrightarrow> docs_ok (doc_step q s)"
    using docs_ok_ChangeDocumentStatus by (auto intro: after_invariant [where P = docs_ok])
next
  case (Retrieve clock user org doc)
  then show "docs_ok s \<Longrightarrow> docs_ok (doc_step q s)"
    using docs_ok_GetDocument by (auto intro: after_invariant [where P = docs_ok])
qed

text \<open>\<^bold>\<open>C15.\<close> Whatever intakes, rejections, status changes and downloads run, and in any order, an organization
  never holds the same content twice, no channel origin is recorded twice, every source names a stored document, and
  the quota charges are exactly the documents, one each.\<close>

theorem documents_consistent:
  assumes "docs_ok s" shows "docs_ok (fold doc_step ops s)"
  using assms by (induction ops arbitrary: s) (simp_all add: docs_ok_step)

text \<open>An organization with one member, and a document sent to it.\<close>

definition demo_uuid :: "char \<Rightarrow> string" where
  "demo_uuid c = replicate 8 c @ ''-'' @ replicate 4 c @ ''-'' @ replicate 4 c @ ''-'' @ replicate 4 c @ ''-'' @ replicate 12 c"

definition demo_docs :: store where
  "demo_docs = empty_store\<lparr>organizations := [demo_organization ''o1''], memberships := [demo_member ''o1'' ''u1'' Owner]\<rparr>"

definition demo_zone :: "string \<Rightarrow> time \<Rightarrow> (time \<times> time) option" where "demo_zone tz now = Some (0, 1000)"

definition demo_ids :: fresh_ids where
  "demo_ids = \<lparr>fi_document = demo_uuid (CHR ''a''), fi_source = ''s1'', fi_job = ''j1''\<rparr>"

definition demo_upload :: "string \<Rightarrow> time \<Rightarrow> commit_input" where
  "demo_upload attempt now =
     \<lparr>ai_org = ''o1'', ai_actor = ''u1'', ai_attempt = attempt, ai_origin = ''web:1'', ai_filename = ''a.pdf'', ai_channel = ''Web'',
      ai_line_group = False, ai_now = now, ai_drive_connection = [], ai_drive_file = [], ai_drive_revision = [],
      ai_drive_mime = [], ai_drive_size = 0, ai_drive_selected = 0, ci_key = attempt,
      ci_sha256 = replicate 64 (CHR ''a''), ci_mime = ''application/pdf'', ci_size = 5\<rparr>"

definition demo_stored :: store where
  "demo_stored = doc_step (Intake demo_zone True demo_ids 1 (demo_upload ''t1'' 1)) demo_docs"

theorem documents_consistent_witness:
  "docs_ok (fold doc_step [Intake demo_zone True demo_ids 1 (demo_upload ''t1'' 1),
      SetStatus 2 ''u1'' ''o1'' (demo_uuid (CHR ''a'')) ''trash'' 2] demo_docs)"
proof -
  have "docs_ok demo_docs" by (simp add: docs_ok_def demo_docs_def)
  then show ?thesis by (rule documents_consistent)
qed


subsection \<open>Intake\<close>

lemma query_row_unique:
  assumes "r \<in> set rows" "P r" "\<And>q. q \<in> set rows \<Longrightarrow> P q \<Longrightarrow> q = r"
  shows "query_row P rows = Some r"
proof -
  have "query_row P rows \<noteq> None" using assms(1,2) query_row_None_iff [of P rows] by blast
  then obtain q where q: "query_row P rows = Some q" by blast
  then have "q = r" using assms(3) query_row_SomeD [OF q] by blast
  then show ?thesis using q by simp
qed

lemma accepted_freshE:
  assumes "CommitPrepared zone accepts ids now x s = Inr (Inr c, s')" "cr_accepted c"
  obtains sha s1 start limit ts te m where "hex_decode (ci_sha256 x) = Some sha" "length sha = 32" "\<not> invalid_prepared x"
    "lookup_document_for_intake (ai_actor x) (ai_org x) sha s = None" "membershipFor (ai_actor x) (ai_org x) s = Inr m"
    "documentLimit (ai_org x) (ai_now x) s = Inr (limit, ts, te)"
    "int (rows_affected (counted_charge (ai_org x) start ts te) (document_usage_charges s)) < limit"
    "doc_tables s1 = doc_tables s" "memberships s1 = memberships s" "organizations s1 = organizations s"
    "accept_new ids now x sha start s1 = Inr (Inr c, s')"
  using assms(1)
proof (cases rule: CommitPreparedE)
  case replay
  then show ?thesis using assms(2) by (simp add: replayed_def)
next
  case (existing sha doc status)
  then show ?thesis using accept_existingD [OF existing(3)] assms(2) by auto
next
  case (fresh sha)
  then obtain m where m: "membershipFor (ai_actor x) (ai_org x) s = Inr m" by blast
  show ?thesis using fresh(7)
  proof (cases rule: charge_newE)
    case rejected
    then show ?thesis by simp
  next
    case (accepted s1 start limit ts te)
    then show ?thesis using that [OF fresh(1-4) m accepted(5,6,1-3,7)] by blast
  qed
qed

text \<open>Two inputs that stand for the same delivery of the same bytes.\<close>

definition same_delivery :: "commit_input \<Rightarrow> commit_input \<Rightarrow> bool" where
  "same_delivery x y = (ai_org y = ai_org x \<and> ai_actor y = ai_actor x \<and> ai_channel y = ai_channel x
     \<and> ai_origin y = ai_origin x \<and> ai_line_group y = ai_line_group x \<and> ci_sha256 y = ci_sha256 x)"

lemma intake_repeats:
  assumes "docs_ok s" "CommitPrepared zone accepts ids now x s = Inr (Inr c, s')" "cr_accepted c"
    and "same_delivery x y" "\<not> invalid_prepared y"
  shows "\<exists>c'. CommitPrepared zone' accepts' ids' now' y s' = Inr (Inr c', s')
    \<and> cr_duplicate c' \<and> \<not> cr_accepted c' \<and> doc_id (cr_document c') = doc_id (cr_document c)"
proof -
  obtain sha s1 start limit ts te m where sha: "hex_decode (ci_sha256 x) = Some sha" "length sha = 32"
    and none: "lookup_document_for_intake (ai_actor x) (ai_org x) sha s = None"
    and m: "membershipFor (ai_actor x) (ai_org x) s = Inr m" and t1: "doc_tables s1 = doc_tables s" "memberships s1 = memberships s"
      "organizations s1 = organizations s"
    and new: "accept_new ids now x sha start s1 = Inr (Inr c, s')"
    using accepted_freshE [OF assms(2,3)] by metis
  note a = accept_newD [OF new]
  let ?d = "new_document_row ids x sha start" and ?q = "new_source (fi_source ids) x (fi_document ids)"
  have id: "doc_id (cr_document c) = fi_document ids" using a by auto
  have docs: "documents s' = documents s @ [?d]" and srcs: "document_sources s' = document_sources s @ [?q]"
    and mem: "memberships s' = memberships s" "organizations s' = organizations s"
    using a t1 by (auto simp: tables_defs)
  have fresh: "\<And>d. d \<in> set (documents s) \<Longrightarrow> d_id d \<noteq> fi_document ids" using a t1 by (auto simp: row_exists_iff tables_defs)
  have origin: "\<And>q. q \<in> set (document_sources s) \<Longrightarrow> source_key q \<noteq> Some (ai_org x, ai_channel x, ai_origin x)"
    using a t1 not_conflictsD [of source_key ?q] by (auto simp: tables_defs source_key_def)
  have y: "ai_org y = ai_org x" "ai_actor y = ai_actor x" "ai_channel y = ai_channel x" "ai_origin y = ai_origin x"
    "ai_line_group y = ai_line_group x" "ci_sha256 y = ci_sha256 x" using assms(4) by (auto simp: same_delivery_def)
  have own: "own_source y q \<Longrightarrow> source_key q = Some (ai_org x, ai_channel x, ai_origin x)" for q
    by (simp add: own_source_def source_key_def y)
  have m': "membershipFor (ai_actor y) (ai_org y) s' = Inr m" using m unfolding membershipFor_def mem y .
  have member: "row_exists (is_member_row (ai_org x) (ai_actor x)) (memberships s)"
    using m by (auto simp: membershipFor_def row_exists_iff dest!: query_row_SomeD split: option.splits)
  show ?thesis
  proof (cases "ai_line_group x")
    case True
    then have ch: "ai_channel x = ''LINE''" using assms(5) by (auto simp: invalid_prepared_def y)
    have "query_row (\<lambda>q. ds_org q = ai_org y \<and> ds_channel q = ''LINE'' \<and> ds_origin_key q = ai_origin y
        \<and> ds_submitter q = Some (ai_actor y)) (document_sources s') = Some ?q"
      using origin by (intro query_row_unique) (auto simp: srcs y ch source_key_def)
    moreover have "lookup_document_for_intake (ai_actor y) (ai_org y) sha s' = Some (fi_document ids, ''Available'')"
      using none member by (simp add: lookup_document_for_intake_def mem docs y)
    ultimately have "group_replay y sha s' = Some (Inr (duplicate_of (brief_document (fi_document ids) (ai_org x) ''Available'')))"
      using True by (simp add: group_replay_def y)
    then show ?thesis using assms(5) sha m' id
      by (simp add: CommitPrepared_def y duplicate_of_def brief_document_def)
  next
    case False
    have "query_row (\<lambda>(q, d). own_source y q \<and> d_org d = ds_org q \<and> d_id d = ds_document q)
        (List.product (document_sources s') (documents s')) = Some (?q, ?d)"
      using origin own fresh by (intro query_row_unique) (auto simp: srcs docs own_source_def y)
    then have "\<exists>c'. origin_replay y sha s' = Some (Inr c') \<and> cr_duplicate c' \<and> \<not> cr_accepted c'
        \<and> doc_id (cr_document c') = fi_document ids"
      by (simp add: origin_replay_def scan_document_def duplicate_of_def)
    moreover have "group_replay y sha s' = None" using False by (simp add: group_replay_def y)
    ultimately show ?thesis using assms(5) sha m' id by (auto simp: CommitPrepared_def y)
  qed
qed

text \<open>\<^bold>\<open>C16.\<close> Taking in a document is idempotent: once an upload is accepted, the same channel delivering the
  same content again, under a new attempt and at another time, is answered with the stored document as a duplicate and
  changes nothing; no second document, source or charge appears.\<close>

theorem intake_idempotent:
  assumes "docs_ok s" "CommitPrepared zone accepts ids now x s = Inr (Inr c, s')" "cr_accepted c"
    and "same_delivery x y" "\<not> invalid_prepared y"
  shows "\<exists>c'. CommitPrepared zone' accepts' ids' now' y s' = Inr (Inr c', s')
    \<and> cr_duplicate c' \<and> \<not> cr_accepted c' \<and> doc_id (cr_document c') = doc_id (cr_document c)"
  using assms by (rule intake_repeats)

theorem intake_idempotent_witness:
  "\<exists>c'. CommitPrepared demo_zone True demo_ids 9 (demo_upload ''t2'' 9) demo_stored = Inr (Inr c', demo_stored)
    \<and> cr_duplicate c' \<and> doc_id (cr_document c') = demo_uuid (CHR ''a'')"
proof -
  have "case CommitPrepared demo_zone True demo_ids 1 (demo_upload ''t1'' 1) demo_docs of
      Inr (Inr c, _) \<Rightarrow> cr_accepted c \<and> doc_id (cr_document c) = demo_uuid (CHR ''a'') | _ \<Rightarrow> False"
    by code_simp
  then obtain c s' where run: "CommitPrepared demo_zone True demo_ids 1 (demo_upload ''t1'' 1) demo_docs = Inr (Inr c, s')"
    and c: "cr_accepted c" "doc_id (cr_document c) = demo_uuid (CHR ''a'')"
    by (auto split: sum.splits prod.splits)
  have s': "s' = demo_stored" using run by (simp add: demo_stored_def)
  have "docs_ok demo_docs" by (simp add: docs_ok_def demo_docs_def)
  moreover have "same_delivery (demo_upload ''t1'' 1) (demo_upload ''t2'' 9)" by (simp add: same_delivery_def demo_upload_def)
  moreover have "\<not> invalid_prepared (demo_upload ''t2'' 9)"
    by (simp add: invalid_prepared_def demo_upload_def MaxFileBytes_def zero_time_def duration_defs)
  ultimately show ?thesis using intake_idempotent [OF _ run c(1)] s' c(2) by metis
qed


lemma documentLimitD:
  assumes "documentLimit org now s = Inr (limit, ts, te)"
  shows "(te > ts \<longrightarrow> ts \<le> now \<and> now < te) \<and> limit \<in> {30, 100, 300, 1000}"
proof (cases "latest_period (filter (\<lambda>p. pp_org p = org \<and> pp_starts_at p \<le> now \<and> now < pp_ends_at p) (organization_plan_periods s))")
  case None
  then show ?thesis using assms by (auto simp: documentLimit_def)
next
  case (Some p)
  then have "pp_starts_at p \<le> now \<and> now < pp_ends_at p" using latest_period_in [OF Some] by auto
  then show ?thesis using assms Some by (auto simp: documentLimit_def split: if_splits)
qed

text \<open>\<^bold>\<open>C17.\<close> An accepted document fits the plan: before it the period's charges (or the trial's) were below the
  limit of the plan at that time, 30, 100, 300 or 1000, and it adds exactly one, so they never exceed the limit.\<close>

theorem intake_within_quota:
  assumes "CommitPrepared zone accepts ids now x s = Inr (Inr c, s')" "cr_accepted c"
  shows "\<exists>start limit ts te. documentLimit (ai_org x) (ai_now x) s = Inr (limit, ts, te) \<and> limit \<in> {30, 100, 300, 1000}
    \<and> rows_affected (counted_charge (ai_org x) start ts te) (document_usage_charges s')
      = rows_affected (counted_charge (ai_org x) start ts te) (document_usage_charges s) + 1
    \<and> int (rows_affected (counted_charge (ai_org x) start ts te) (document_usage_charges s')) \<le> limit"
proof -
  obtain sha s1 start limit ts te where
    l: "documentLimit (ai_org x) (ai_now x) s = Inr (limit, ts, te)"
    and below: "int (rows_affected (counted_charge (ai_org x) start ts te) (document_usage_charges s)) < limit"
    and t: "doc_tables s1 = doc_tables s" and new: "accept_new ids now x sha start s1 = Inr (Inr c, s')"
    using accepted_freshE [OF assms] by metis
  have "document_usage_charges s' = document_usage_charges s
      @ [\<lparr>ch_org = ai_org x, ch_document = fi_document ids, ch_period_start = start, ch_accepted_at = ai_now x\<rparr>]"
    using accept_newD [OF new] t by (auto simp: doc_tables_def)
  moreover have "counted_charge (ai_org x) start ts te
      \<lparr>ch_org = ai_org x, ch_document = fi_document ids, ch_period_start = start, ch_accepted_at = ai_now x\<rparr>"
    using documentLimitD [OF l] by (simp add: counted_charge_def)
  ultimately have add: "rows_affected (counted_charge (ai_org x) start ts te) (document_usage_charges s')
      = rows_affected (counted_charge (ai_org x) start ts te) (document_usage_charges s) + 1"
    by simp
  then have "int (rows_affected (counted_charge (ai_org x) start ts te) (document_usage_charges s')) \<le> limit"
    using below by simp
  moreover have "limit \<in> {30, 100, 300, 1000}" using documentLimitD [OF l] by blast
  ultimately show ?thesis using l add by blast
qed

theorem intake_within_quota_witness:
  "rows_affected (counted_charge ''o1'' 0 zero_time zero_time) (document_usage_charges demo_stored) = 1
    \<and> (\<exists>limit ts te. documentLimit ''o1'' 1 demo_docs = Inr (limit, ts, te) \<and> limit \<in> {30, 100, 300, 1000})"
proof -
  have "case CommitPrepared demo_zone True demo_ids 1 (demo_upload ''t1'' 1) demo_docs of
      Inr (Inr c, _) \<Rightarrow> cr_accepted c | _ \<Rightarrow> False"
    by code_simp
  then obtain c s' where run: "CommitPrepared demo_zone True demo_ids 1 (demo_upload ''t1'' 1) demo_docs = Inr (Inr c, s')" "cr_accepted c"
    by (auto split: sum.splits prod.splits)
  have "rows_affected (counted_charge ''o1'' 0 zero_time zero_time) (document_usage_charges demo_stored) = 1" by code_simp
  moreover have "ai_org (demo_upload ''t1'' 1) = ''o1''" "ai_now (demo_upload ''t1'' 1) = 1" by (simp_all add: demo_upload_def)
  ultimately show ?thesis using intake_within_quota [OF run] by auto
qed

subsection \<open>Status\<close>

text \<open>A status change is made by an Owner or Admin, follows the graph Available to Archived or Trash, Archived to
  Trash, Trash to Available within 30 days of being trashed, touches no other document, and a document that goes to the
  trash leaves no OCR job of it waiting in the queue.\<close>

theorem document_status_changes:
  assumes "ChangeDocumentStatus dbnow user org doc action now s = Inr (r, s')"
  shows "\<exists>role d. currentRole user org s = Inr role \<and> manager_role role
    \<and> d \<in> set (documents s) \<and> d_org d = org \<and> d_id d = doc
    \<and> (d_status d, doc_status r) \<in> {(''Available'', ''Archived''), (''Available'', ''Trash''), (''Archived'', ''Trash''), (''Trash'', ''Available'')}
    \<and> (d_status d = ''Trash'' \<longrightarrow> (\<exists>t. d_trashed_at d = Some t \<and> now < t + 30 * Day))
    \<and> (\<forall>q \<in> set (documents s). d_id q = doc \<and> d_org q = org \<or> q \<in> set (documents s'))
    \<and> (doc_status r = ''Trash'' \<longrightarrow> (\<forall>j \<in> set (durable_jobs s').
         row_exists (\<lambda>x. or_job x = j_id j \<and> or_document x = doc \<and> or_org x = org) (document_ocr_runs s') \<longrightarrow> j_status j \<noteq> Queued))"
  using assms
proof (cases rule: ChangeDocumentStatusE)
  case (1 d role s2)
  let ?cond = "\<lambda>d. d_org d = org \<and> d_id d = doc \<and> transition_allowed action now d"
  let ?s1 = "s\<lparr>documents := sql_update ?cond (change_status action now) (documents s)\<rparr>"
  have st: "doc_status r = d_status (change_status action now d)"
    using 1(11) by (auto simp: scan_document_def split: option.splits)
  have edge: "(d_status d, doc_status r) \<in> {(''Available'', ''Archived''), (''Available'', ''Trash''), (''Archived'', ''Trash''), (''Trash'', ''Available'')}"
    using 1(7,8) st by (auto simp: transition_allowed_def change_status_def)
  have window: "d_status d = ''Trash'' \<longrightarrow> (\<exists>t. d_trashed_at d = Some t \<and> now < t + 30 * Day)"
    using 1(7) by (auto simp: transition_allowed_def)
  have docs: "documents s' = sql_update ?cond (change_status action now) (documents s)"
    using stop_removedD [OF 1(9)] 1(10) by (simp add: doc_tables_def auditTenant_def)
  then have others: "\<forall>q \<in> set (documents s). d_id q = doc \<and> d_org q = org \<or> q \<in> set (documents s')"
    by (auto simp: set_sql_update image_iff)
  have "doc_status r = ''Trash'' \<longrightarrow> (\<forall>j \<in> set (durable_jobs s').
      row_exists (\<lambda>x. or_job x = j_id j \<and> or_document x = doc \<and> or_org x = org) (document_ocr_runs s') \<longrightarrow> j_status j \<noteq> Queued)"
  proof
    assume trash: "doc_status r = ''Trash''"
    then have "d_status d \<noteq> d_status (change_status action now d)" using edge st by auto
    then obtain n where "update_jobs (\<lambda>j. row_exists (\<lambda>x. or_job x = j_id j \<and> or_document x = doc \<and> or_org x = org) (document_ocr_runs s)
        \<and> j_status j = Queued) (\<lambda>j. j\<lparr>j_status := Cancelled, j_cancelled_at := Some dbnow\<rparr>) ?s1 = Inr (n, s2)"
      using 1(5,6,9) trash st by (auto simp: stop_removed_document_ocr_def)
    then have "durable_jobs s2 = sql_update (\<lambda>j. row_exists (\<lambda>x. or_job x = j_id j \<and> or_document x = doc \<and> or_org x = org)
        (document_ocr_runs s) \<and> j_status j = Queued) (\<lambda>j. j\<lparr>j_status := Cancelled, j_cancelled_at := Some dbnow\<rparr>) (durable_jobs s)"
      "document_ocr_runs s2 = document_ocr_runs s"
      by (auto dest!: update_jobs_tables)
    then show "\<forall>j \<in> set (durable_jobs s').
        row_exists (\<lambda>x. or_job x = j_id j \<and> or_document x = doc \<and> or_org x = org) (document_ocr_runs s') \<longrightarrow> j_status j \<noteq> Queued"
      using 1(10) by (auto simp: auditTenant_def set_sql_update split: if_splits)
  qed
  then show ?thesis using 1(1,2,4,5,6) edge window others by (intro exI [of _ role] exI [of _ d] conjI)
qed

theorem document_status_changes_witness:
  "\<exists>r s'. ChangeDocumentStatus 2 ''u1'' ''o1'' (demo_uuid (CHR ''a'')) ''trash'' 2 demo_stored = Inr (r, s') \<and> doc_status r = ''Trash''
     \<and> (\<exists>role. currentRole ''u1'' ''o1'' demo_stored = Inr role \<and> manager_role role)"
proof -
  have "case ChangeDocumentStatus 2 ''u1'' ''o1'' (demo_uuid (CHR ''a'')) ''trash'' 2 demo_stored of
      Inr (r, _) \<Rightarrow> doc_status r = ''Trash'' | _ \<Rightarrow> False" by code_simp
  then obtain r s' where run: "ChangeDocumentStatus 2 ''u1'' ''o1'' (demo_uuid (CHR ''a'')) ''trash'' 2 demo_stored = Inr (r, s')"
    and r: "doc_status r = ''Trash''" by (auto split: sum.splits prod.splits)
  then show ?thesis using document_status_changes [OF run] by blast
qed

subsection \<open>Pages\<close>

definition position_key :: "document_row \<Rightarrow> time \<times> id" where "position_key d = (d_accepted_at d, d_id d)"

text \<open>The rows a cursor can name: an identifier in canonical form, an instant, an object, and a cursor that the codec
  reads back.\<close>

definition cursor_ok :: "(bytes \<Rightarrow> (time \<times> id) option) \<Rightarrow> (time \<Rightarrow> id \<Rightarrow> bytes) \<Rightarrow> document_row \<Rightarrow> bool" where
  "cursor_ok unmarshal marshal d =
     (documentUUID (d_id d) \<and> d_accepted_at d \<noteq> zero_time \<and> d_storage_key d \<noteq> None
      \<and> unmarshal (marshal (d_accepted_at d) (d_id d)) = Some (d_accepted_at d, d_id d)
      \<and> EncodeToString (marshal (d_accepted_at d) (d_id d)) \<noteq> []
      \<and> length (EncodeToString (marshal (d_accepted_at d) (d_id d))) \<le> 256)"

lemma newest_first_descending: "newest_first = descending position_key"
  by (simp add: newest_first_def [abs_def] position_key_def [abs_def])

lemma newest_first_sorted:
  assumes "distinct (map d_id ds)"
  shows "sorted_wrt (\<lambda>a b. position_key b < position_key a) (newest_first ds)"
  unfolding newest_first_descending
  by (rule descending_sorted) (use assms in \<open>auto simp: position_key_def distinct_map inj_on_def\<close>)

lemma listed_documentD:
  assumes "d_storage_key d \<noteq> None"
  shows "\<exists>r. listed_document user org s d = Inr r \<and> doc_id r = d_id d \<and> doc_accepted_at r = d_accepted_at d"
  using assms by (auto simp: listed_document_def Let_def scan_document_def)

lemma collect_listed:
  assumes "list_all (\<lambda>d. d_storage_key d \<noteq> None) rows"
  shows "\<exists>docs. collect_rows (listed_document user org s) rows = Inr docs
    \<and> map doc_id docs = map d_id rows \<and> map doc_accepted_at docs = map d_accepted_at rows"
  using assms
proof (induction rows)
  case (Cons d rows)
  then obtain docs where "collect_rows (listed_document user org s) rows = Inr docs"
    "map doc_id docs = map d_id rows" "map doc_accepted_at docs = map d_accepted_at rows" by auto
  moreover obtain r where "listed_document user org s d = Inr r" "doc_id r = d_id d" "doc_accepted_at r = d_accepted_at d"
    using listed_documentD [of d user org s] Cons.prems by auto
  ultimately show ?case by auto
qed simp

text \<open>One page: the rows after the cursor, and the cursor of the last one when rows are left.\<close>

definition page_rows :: "(string \<Rightarrow> string \<Rightarrow> bool) \<Rightarrow> id \<Rightarrow> id \<Rightarrow> doc_filter \<Rightarrow> store \<Rightarrow> document_row list" where
  "page_rows ilike user org f s = newest_first (filter (listed_row ilike user org f s) (documents s))"

definition cursor_at :: "(time \<Rightarrow> id \<Rightarrow> bytes) \<Rightarrow> document_row option \<Rightarrow> string" where
  "cursor_at marshal p = (case p of None \<Rightarrow> [] | Some d \<Rightarrow> EncodeToString (marshal (d_accepted_at d) (d_id d)))"

lemma decode_cursor_at:
  assumes "\<forall>d \<in> set_option p. cursor_ok unmarshal marshal d"
  shows "decodeDocumentCursor unmarshal (cursor_at marshal p) = Inr (map_option position_key p)"
  using assms by (auto simp: decodeDocumentCursor_def cursor_at_def cursor_ok_def position_key_def split: option.splits)

lemma one_page:
  assumes m: "membershipFor user org s = Inr m" and l: "1 \<le> limit" "limit \<le> 50"
    and cut: "cut_at p (page_rows ilike user org f s) before rest"
    and sorted: "sorted_wrt (\<lambda>a b. position_key b < position_key a) (before @ rest)"
    and ok: "list_all (cursor_ok unmarshal marshal) (before @ rest)"
  shows "\<exists>docs. ListDocumentsFiltered ilike unmarshal marshal user org (cursor_at marshal p) limit f s
      = Inr (docs, if length rest > nat limit then cursor_at marshal (Some (rest ! (nat limit - 1))) else [])
    \<and> map doc_id docs = map d_id (take (nat limit) rest)"
proof -
  let ?n = "nat limit"
  have rows: "page_rows ilike user org f s = before @ rest" and p: "case p of None \<Rightarrow> before = [] | Some d \<Rightarrow> \<exists>xs. before = xs @ [d]"
    using cut by (simp_all add: cut_at_def)
  have after: "newest_first (filter (\<lambda>d. listed_row ilike user org f s d \<and> (case map_option position_key p of None \<Rightarrow> True
      | Some q \<Rightarrow> (d_accepted_at d, d_id d) < q)) (documents s)) = rest"
  proof (cases p)
    case None
    then show ?thesis using p rows by (simp add: page_rows_def)
  next
    case (Some d)
    then obtain xs where xs: "before = xs @ [d]" using p by auto
    have "newest_first (filter (\<lambda>q. listed_row ilike user org f s q \<and> position_key q < position_key d) (documents s))
      = filter (\<lambda>q. position_key q < position_key d) (page_rows ilike user org f s)"
      unfolding page_rows_def newest_first_descending descending_filter [symmetric] filter_filter by (simp add: conj_commute)
    also have "\<dots> = rest" unfolding rows by (rule rows_after [OF sorted xs])
    finally show ?thesis using Some by (simp add: position_key_def)
  qed
  have dec: "decodeDocumentCursor unmarshal (cursor_at marshal p) = Inr (map_option position_key p)"
    using ok p by (intro decode_cursor_at) (auto simp: list_all_iff split: option.splits)
  have "list_all (\<lambda>d. d_storage_key d \<noteq> None) (take (?n + 1) rest)"
    using ok by (auto simp: list_all_iff cursor_ok_def dest: in_set_takeD)
  then obtain docs where docs: "collect_rows (listed_document user org s) (take (?n + 1) rest) = Inr docs"
    "map doc_id docs = map d_id (take (?n + 1) rest)" "map doc_accepted_at docs = map d_accepted_at (take (?n + 1) rest)"
    using collect_listed by blast
  have len: "length docs = min (?n + 1) (length rest)" using docs(2) by (metis length_map length_take min.commute)
  show ?thesis
  proof (cases "length rest > ?n")
    case True
    have i: "?n - 1 < length docs" "?n - 1 < length rest" using True l len by auto
    have "map doc_id docs ! (?n - 1) = d_id (rest ! (?n - 1))" "map doc_accepted_at docs ! (?n - 1) = d_accepted_at (rest ! (?n - 1))"
      unfolding docs(2,3) using i l by (simp_all add: nth_append)
    then have key: "doc_id (docs ! (?n - 1)) = d_id (rest ! (?n - 1))" "doc_accepted_at (docs ! (?n - 1)) = d_accepted_at (rest ! (?n - 1))"
      using i by simp_all
    have "map doc_id (take ?n docs) = map d_id (take ?n rest)"
      using arg_cong [OF docs(2), of "take ?n"] by (simp add: take_map [symmetric])
    then show ?thesis
      using True l m len key dec after docs(1)
      by (simp add: ListDocumentsFiltered_def encodeDocumentCursor_def cursor_at_def)
  next
    case False
    then show ?thesis using l m len dec after docs(1,2) by (simp add: ListDocumentsFiltered_def)
  qed
qed

text \<open>The list is a \<^verbatim>\<open>paged_list\<close> for a member, a page size the handler allows and rows that cursors can name.\<close>

definition listable ::
  "(string \<Rightarrow> string \<Rightarrow> bool) \<Rightarrow> (bytes \<Rightarrow> (time \<times> id) option) \<Rightarrow> (time \<Rightarrow> id \<Rightarrow> bytes) \<Rightarrow> id \<Rightarrow> id \<Rightarrow> int \<Rightarrow> doc_filter \<Rightarrow> store \<Rightarrow> bool" where
  "listable ilike unmarshal marshal user org limit f s =
     ((\<exists>m. membershipFor user org s = Inr m) \<and> 1 \<le> limit \<and> limit \<le> 50 \<and> docs_ok s
      \<and> list_all (cursor_ok unmarshal marshal) (page_rows ilike user org f s))"

lemma page_rows_sorted:
  assumes "docs_ok s"
  shows "sorted_wrt (\<lambda>a b. position_key b < position_key a) (page_rows ilike user org f s)"
  unfolding page_rows_def
  by (rule newest_first_sorted) (use assms in \<open>auto simp: docs_ok_def distinct_map intro: inj_on_subset\<close>)

interpretation document_pages: paged_list "listable ilike unmarshal marshal user org limit f s" "page_rows ilike user org f s" doc_id d_id
  "cursor_at marshal" "\<lambda>c. ListDocumentsFiltered ilike unmarshal marshal user org c limit f s" "nat limit"
proof unfold_locales
  assume ok: "listable ilike unmarshal marshal user org limit f s"
  then obtain m where m: "membershipFor user org s = Inr m" "1 \<le> limit" "limit \<le> 50" "docs_ok s"
    "list_all (cursor_ok unmarshal marshal) (page_rows ilike user org f s)" by (auto simp: listable_def)
  show "0 < nat limit" "cursor_at marshal None = []" using m(2) by (simp_all add: cursor_at_def)
  show "cursor_at marshal (Some d) \<noteq> []" if "d \<in> set (page_rows ilike user org f s)" for d
    using m(5) that by (simp add: list_all_iff cursor_ok_def cursor_at_def)
  show "\<exists>items. ListDocumentsFiltered ilike unmarshal marshal user org (cursor_at marshal p) limit f s
      = Inr (items, if length rest > nat limit then cursor_at marshal (Some (rest ! (nat limit - 1))) else [])
    \<and> map doc_id items = map d_id (take (nat limit) rest)"
    if "cut_at p (page_rows ilike user org f s) before rest" for p before rest
  proof (rule one_page [OF m(1-3) that])
    have rows: "page_rows ilike user org f s = before @ rest" using that by (simp add: cut_at_def)
    show "sorted_wrt (\<lambda>a b. position_key b < position_key a) (before @ rest)" using page_rows_sorted [OF m(4)] rows by metis
    show "list_all (cursor_ok unmarshal marshal) (before @ rest)" using m(5) rows by metis
  qed
qed

text \<open>\<^bold>\<open>C21.\<close> Reading page after page through the cursors gives exactly the list of all documents the user may see
  that match the filter, newest first, each once and none skipped, whatever the page size, given enough pages.\<close>

theorem pages_equal_list:
  assumes "membershipFor user org s = Inr m" "1 \<le> limit" "limit \<le> 50" "docs_ok s"
    and "list_all (cursor_ok unmarshal marshal) (page_rows ilike user org f s)" "length (page_rows ilike user org f s) < fuel"
  shows "map doc_id (read_pages fuel (\<lambda>c. ListDocumentsFiltered ilike unmarshal marshal user org c limit f s) [])
    = map d_id (page_rows ilike user org f s)"
  by (rule document_pages.read_all) (use assms in \<open>auto simp: listable_def\<close>)

definition demo_row :: "char \<Rightarrow> time \<Rightarrow> document_row" where
  "demo_row c at = \<lparr>d_id = demo_uuid c, d_org = ''o1'', d_sha256 = [c], d_storage_key = Some [c], d_filename = [c],
     d_mime = ''application/pdf'', d_size = 1, d_status = ''Available'', d_submitter = Some ''u1'', d_assignee = None,
     d_group_restricted = False, d_accepted_at = at, d_updated_at = at, d_trashed_at = None, d_purged_at = None, d_period_start = 0\<rparr>"

definition demo_charge :: "char \<Rightarrow> charge_row" where
  "demo_charge c = \<lparr>ch_org = ''o1'', ch_document = demo_uuid c, ch_period_start = 0, ch_accepted_at = 1\<rparr>"

definition demo_three :: store where
  "demo_three = demo_docs\<lparr>documents := [demo_row (CHR ''a'') 1, demo_row (CHR ''b'') 3, demo_row (CHR ''c'') 3],
     document_usage_charges := [demo_charge (CHR ''a''), demo_charge (CHR ''b''), demo_charge (CHR ''c'')]\<rparr>"

definition demo_marshal :: "time \<Rightarrow> id \<Rightarrow> bytes" where "demo_marshal at i = byte_char (nat at) # i"
definition demo_unmarshal :: "bytes \<Rightarrow> (time \<times> id) option" where
  "demo_unmarshal b = (case b of [] \<Rightarrow> None | c # i \<Rightarrow> Some (int (byte c), i))"
definition demo_filter :: doc_filter where
  "demo_filter = \<lparr>df_from = None, df_to = None, df_status = [], df_channel = [], df_filename = [], df_submitter = [], df_assignee = []\<rparr>"

theorem pages_equal_list_witness:
  "map doc_id (read_pages 4 (\<lambda>c. ListDocumentsFiltered (\<lambda>a b. True) demo_unmarshal demo_marshal ''u1'' ''o1'' c 1 demo_filter demo_three) [])
    = [demo_uuid (CHR ''c''), demo_uuid (CHR ''b''), demo_uuid (CHR ''a'')]"
proof -
  have m: "\<exists>m. membershipFor ''u1'' ''o1'' demo_three = Inr m"
    by (simp add: membershipFor_def demo_three_def demo_docs_def demo_member_def demo_organization_def is_member_row_def)
  have ok: "docs_ok demo_three"
    by (simp add: docs_ok_def demo_three_def demo_docs_def demo_row_def demo_charge_def demo_uuid_def active_content_def)
  have rows: "map d_id (page_rows (\<lambda>a b. True) ''u1'' ''o1'' demo_filter demo_three) = [demo_uuid (CHR ''c''), demo_uuid (CHR ''b''), demo_uuid (CHR ''a'')]"
    by code_simp
  have cur: "list_all (cursor_ok demo_unmarshal demo_marshal) (page_rows (\<lambda>a b. True) ''u1'' ''o1'' demo_filter demo_three)"
    by code_simp
  have "length (page_rows (\<lambda>a b. True) ''u1'' ''o1'' demo_filter demo_three) = 3" using arg_cong [OF rows, of length] by simp
  then show ?thesis using m pages_equal_list [OF _ _ _ ok cur, of _ 1 4] rows by auto
qed

end
