(* ===== verification/Work.thy ===== *)
theory Work
  imports Documents
begin

text \<open>
  Tasks: the transactions of src/api/internal/postgres/work.go on the tables \<^verbatim>\<open>tasks\<close>, \<^verbatim>\<open>task_watchers\<close>
  and \<^verbatim>\<open>domain_events\<close>, with the constraints and the trigger of migration 000003, and the types of
  src/api/internal/work/work.go.  A date is its ISO text, as PostgreSQL prints it, so that dates of the
  years 1 to 9999 compare as texts.
\<close>

section \<open>Types\<close>

abbreviation TaskOpen :: string where "TaskOpen \<equiv> ''Open''"
abbreviation InProgress :: string where "InProgress \<equiv> ''InProgress''"
abbreviation Done :: string where "Done \<equiv> ''Done''"
abbreviation TaskCancelled :: string where "TaskCancelled \<equiv> ''Cancelled''"
abbreviation Normal :: string where "Normal \<equiv> ''Normal''"
abbreviation High :: string where "High \<equiv> ''High''"
abbreviation Urgent :: string where "Urgent \<equiv> ''Urgent''"

record task =
  tk_id :: id
  tk_org :: id
  tk_title :: string
  tk_description :: string
  tk_creator :: id
  tk_assignee :: string
  tk_assignee_name :: string
  tk_review_document :: string
  tk_watchers :: "string list"
  tk_status :: string
  tk_priority :: string
  tk_due_on :: string
  tk_overdue :: bool
  tk_created_at :: time
  tk_updated_at :: time
  tk_status_changed_at :: time
  tk_completed_at :: "time option"

record create_task =
  ct_id :: id
  ct_org :: id
  ct_actor :: id
  ct_title :: string
  ct_description :: string
  ct_assignee :: string
  ct_due_on :: string
  ct_priority :: string
  ct_now :: time

record update_task =
  ut_id :: id
  ut_org :: id
  ut_actor :: id
  ut_title :: string
  ut_description :: string
  ut_assignee :: string
  ut_due_on :: string
  ut_status :: string
  ut_priority :: string
  ut_title_set :: bool
  ut_description_set :: bool
  ut_assignee_set :: bool
  ut_due_on_set :: bool
  ut_status_set :: bool
  ut_priority_set :: bool
  ut_now :: time

text \<open>The functions of the server that the statements call: the local date and time of day of an instant in a
  time zone, the instant of a local time of day some days after a date, the conversion of a text to a date, and
  \<^verbatim>\<open>lower\<close> and \<^verbatim>\<open>md5\<close>.\<close>

record server =
  local_date :: "string \<Rightarrow> time \<Rightarrow> string"
  time_of_day :: "string \<Rightarrow> time \<Rightarrow> duration"
  from_local :: "string \<Rightarrow> string \<Rightarrow> int \<Rightarrow> duration \<Rightarrow> time"
  as_date :: "string \<Rightarrow> string option"
  lower_text :: "string \<Rightarrow> string"
  md5 :: "string \<Rightarrow> id"

section \<open>Tables\<close>

definition null_text :: "string option \<Rightarrow> string" where
  "null_text x = (case x of None \<Rightarrow> [] | Some v \<Rightarrow> v)"

definition null_if_empty :: "string \<Rightarrow> string option" where
  "null_if_empty v = (if v = [] then None else Some v)"

lemma null_text_simps [simp]: "null_text None = []" "null_text (Some v) = v"
  by (simp_all add: null_text_def)

lemma null_if_empty_simps [simp]:
  "null_if_empty [] = None" "v \<noteq> [] \<Longrightarrow> null_if_empty v = Some v" "null_if_empty v = Some w \<longleftrightarrow> v = w \<and> w \<noteq> []"
  by (auto simp: null_if_empty_def)

definition task_check :: "task_row \<Rightarrow> bool" where
  "task_check t =
     (1 \<le> rune_count (btrim (t_title t)) \<and> rune_count (btrim (t_title t)) \<le> 200 \<and> rune_count (t_description t) \<le> 5000
      \<and> t_status t \<in> {TaskOpen, InProgress, Done, TaskCancelled} \<and> t_priority t \<in> {Normal, High, Urgent}
      \<and> ((t_status t = Done \<and> t_completed_at t \<noteq> None \<and> t_completed_by t \<noteq> None)
         \<or> (t_status t \<noteq> Done \<and> t_completed_at t = None \<and> t_completed_by t = None)))"

definition task_at :: "id \<Rightarrow> id \<Rightarrow> task_row \<Rightarrow> bool" where
  "task_at org i t = (t_org t = org \<and> t_id t = i)"

definition insert_task :: "task_row \<Rightarrow> (unit, store) txn" where
  "insert_task t s =
     (if \<not> task_check t then Inl (CheckViolation ''tasks'')
      else if row_exists (\<lambda>q. t_id q = t_id t) (tasks s) then Inl (UniqueViolation ''tasks_pkey'')
      else Inr ((), s\<lparr>tasks := tasks s @ [t]\<rparr>))"

definition prevent_assignee_watcher_overlap :: "watcher_row \<Rightarrow> store \<Rightarrow> bool" where
  "prevent_assignee_watcher_overlap w s =
     row_exists (\<lambda>t. task_at (w_org w) (w_task w) t \<and> t_assignee t = Some (w_user w)) (tasks s)"

definition watcher_key :: "watcher_row \<Rightarrow> id \<times> id \<times> id" where
  "watcher_key w = (w_org w, w_task w, w_user w)"

text \<open>The insert of a watcher with \<^verbatim>\<open>ON CONFLICT DO NOTHING\<close>; the trigger runs before the conflict is seen.
  The result counts the rows affected.\<close>

definition insert_watcher :: "watcher_row \<Rightarrow> (nat, store) txn" where
  "insert_watcher w s =
     (if prevent_assignee_watcher_overlap w s then Inl (RaisedException ''assignee cannot also be watcher'')
      else if row_exists (\<lambda>q. watcher_key q = watcher_key w) (task_watchers s) then Inr (0, s)
      else Inr (1, s\<lparr>task_watchers := task_watchers s @ [w]\<rparr>))"

definition event_types :: "string list" where
  "event_types = [''task.created'', ''task.details_changed'', ''task.assigned'', ''task.unassigned'', ''task.watcher_added'',
     ''task.watcher_removed'', ''task.due_changed'', ''task.priority_changed'', ''task.status_changed'']"

definition new_event :: "nat \<Rightarrow> id \<Rightarrow> id \<Rightarrow> id \<Rightarrow> string \<Rightarrow> json \<Rightarrow> time \<Rightarrow> domain_event_row" where
  "new_event eid org i actor type payload now =
     \<lparr>de_id = eid, de_org = org, de_type = type, de_task = i, de_actor = actor, de_payload = payload, de_occurred_at = now,
      de_state = ''Pending'', de_available_at = now, de_lease = None, de_attempts = 0, de_processed_at = None,
      de_failure_code = None\<rparr>"

definition insertDomainEvent :: "nat \<Rightarrow> id \<Rightarrow> id \<Rightarrow> id \<Rightarrow> string \<Rightarrow> json \<Rightarrow> time \<Rightarrow> (unit, store) txn" where
  "insertDomainEvent eid org i actor type payload now s =
     (if type \<notin> set event_types then Inl (CheckViolation ''domain_events'')
      else if \<not> row_exists (task_at org i) (tasks s) then Inl (ForeignKeyViolation ''domain_events'')
      else Inr ((), s\<lparr>domain_events := domain_events s @ [new_event eid org i actor type payload now]\<rparr>))"

section \<open>Errors\<close>

text \<open>What \<^verbatim>\<open>err.Error()\<close> contains of the errors the server reports.\<close>

fun error_text :: "err \<Rightarrow> string" where
  "error_text (UniqueViolation c) = ''duplicate key value violates unique constraint '' @ c"
| "error_text (CheckViolation c) = ''new row violates check constraint of '' @ c"
| "error_text (ForeignKeyViolation c) = ''insert or update violates foreign key constraint of '' @ c"
| "error_text (RaisedException m) = m"
| "error_text (StatementRejected m) = m"
| "error_text (OtherError m) = m"
| "error_text ErrNoRows = ''no rows in result set''"
| "error_text (GoErr p v) = p @ '' '' @ v"

definition mapWorkError :: "err \<Rightarrow> err" where
  "mapWorkError e =
     (if contains (error_text e) ''violates'' \<or> contains (error_text e) ''assignee cannot'' then Work_ErrConflict else e)"

definition bad_date :: "string \<Rightarrow> err" where
  "bad_date v = OtherError (''invalid input syntax for type date: '' @ v)"

text \<open>\<^verbatim>\<open>nullif($n,'')::date\<close>.\<close>

definition date_or_null :: "server \<Rightarrow> string \<Rightarrow> string option result" where
  "date_or_null sv v =
     (if v = [] then Inr None else case as_date sv v of None \<Rightarrow> Inl (bad_date v) | Some d \<Rightarrow> Inr (Some d))"

section \<open>Reading a task\<close>

definition task_active :: "task_row \<Rightarrow> bool" where
  "task_active t = (t_status t = TaskOpen \<or> t_status t = InProgress)"

text \<open>\<^verbatim>\<open>t.status IN ('Open','InProgress') AND t.due_on < today\<close> in SQL's three-valued logic: \<^verbatim>\<open>None\<close> is NULL.\<close>

definition overdue_null :: "string \<Rightarrow> task_row \<Rightarrow> bool option" where
  "overdue_null today t =
     (if \<not> task_active t then Some False else case t_due_on t of None \<Rightarrow> None | Some d \<Rightarrow> Some (d < today))"

definition is_overdue :: "string \<Rightarrow> task_row \<Rightarrow> bool" where
  "is_overdue today t = (overdue_null today t = Some True)"

definition watchers_of :: "store \<Rightarrow> task_row \<Rightarrow> user_row list" where
  "watchers_of s t =
     concat (map (\<lambda>w. filter (\<lambda>u. u_id u = w_user w) (users s))
       (filter (\<lambda>w. w_org w = t_org t \<and> w_task w = t_id t) (task_watchers s)))"

text \<open>\<^verbatim>\<open>array_agg(wu.display_name ORDER BY lower(wu.display_name),wu.id)\<close>: a name may be NULL, and NULLs sort last.\<close>

definition watcher_names :: "server \<Rightarrow> store \<Rightarrow> task_row \<Rightarrow> string option list" where
  "watcher_names sv s t =
     (let key = (\<lambda>u. (u_display_name u = None, lower_text sv (null_text (u_display_name u)), u_id u))
      in map u_display_name (sort_key key (watchers_of s t)))"

text \<open>\<^verbatim>\<open>scanTask\<close> of a row of \<^verbatim>\<open>taskColumns\<close>; the driver cannot scan an array with a NULL into \<^verbatim>\<open>[]string\<close>.\<close>

definition scanTask :: "server \<Rightarrow> time \<Rightarrow> organization_row \<Rightarrow> store \<Rightarrow> task_row \<Rightarrow> task result" where
  "scanTask sv clock g s t =
     (let names = watcher_names sv s t in
      if None \<in> set names then Inl (OtherError ''cannot scan NULL into *string'')
      else Inr \<lparr>tk_id = t_id t, tk_org = t_org t, tk_title = t_title t, tk_description = t_description t,
        tk_creator = t_creator t, tk_assignee = null_text (t_assignee t), tk_assignee_name = display_name (t_assignee t) s,
        tk_review_document = [], tk_watchers = map null_text names, tk_status = t_status t, tk_priority = t_priority t,
        tk_due_on = null_text (t_due_on t), tk_overdue = is_overdue (local_date sv (o_timezone g) clock) t,
        tk_created_at = t_created_at t, tk_updated_at = t_updated_at t, tk_status_changed_at = t_status_changed_at t,
        tk_completed_at = t_completed_at t\<rparr>)"

definition organization_of :: "id \<Rightarrow> store \<Rightarrow> organization_row option" where
  "organization_of org s = query_row (\<lambda>g. o_id g = org) (organizations s)"

text \<open>The document a review task stands for, when the user may read it.\<close>

definition review_document_of :: "id \<Rightarrow> id \<Rightarrow> id \<Rightarrow> store \<Rightarrow> string" where
  "review_document_of user org i s =
     (case concat (map (\<lambda>r. filter (\<lambda>d. d_org d = rt_org r \<and> d_id d = rt_document r
              \<and> d_status d \<in> {''Available'', ''Archived''} \<and> document_visible user org s d) (documents s))
            (filter (\<lambda>r. rt_org r = org \<and> rt_task r = i) (document_review_tasks s))) of
        [] \<Rightarrow> [] | d # _ \<Rightarrow> d_id d)"

definition GetTask :: "server \<Rightarrow> time \<Rightarrow> id \<Rightarrow> id \<Rightarrow> id \<Rightarrow> store \<Rightarrow> task result" where
  "GetTask sv clock user org i s =
     (case membershipFor user org s of
        Inl _ \<Rightarrow> Inl Work_ErrNotFound
      | Inr _ \<Rightarrow>
     (case (query_row (task_at org i) (tasks s), organization_of org s) of
        (Some t, Some g) \<Rightarrow>
          (case scanTask sv clock g s t of
             Inl e \<Rightarrow> Inl e
           | Inr r \<Rightarrow> Inr (if review_enabled s then r\<lparr>tk_review_document := review_document_of user org i s\<rparr> else r))
      | _ \<Rightarrow> Inl Work_ErrNotFound))"

text \<open>The value a method returns after its commit: the state is kept even when reading the task back fails.\<close>

definition read_back :: "server \<Rightarrow> time \<Rightarrow> id \<Rightarrow> id \<Rightarrow> id \<Rightarrow> store \<Rightarrow> err + (task result \<times> store)" where
  "read_back sv clock user org i s = Inr (GetTask sv clock user org i s, s)"

section \<open>Creating and updating\<close>

definition memberExists :: "id \<Rightarrow> id \<Rightarrow> store \<Rightarrow> bool" where
  "memberExists org user s = row_exists (is_member_row org user) (memberships s)"

definition created_task :: "create_task \<Rightarrow> string option \<Rightarrow> task_row" where
  "created_task x due =
     \<lparr>t_id = ct_id x, t_org = ct_org x, t_title = ct_title x, t_description = ct_description x, t_creator = ct_actor x,
      t_assignee = null_if_empty (ct_assignee x), t_status = TaskOpen, t_priority = ct_priority x, t_due_on = due,
      t_created_at = ct_now x, t_updated_at = ct_now x, t_status_changed_at = ct_now x, t_completed_at = None,
      t_completed_by = None\<rparr>"

definition created_payload :: "create_task \<Rightarrow> json" where
  "created_payload x =
     JObject ((if ct_assignee x = [] then [] else [(''assignee_user_id'', JString (ct_assignee x))])
              @ [(''task_id'', JString (ct_id x))])"

definition CreateTask :: "server \<Rightarrow> nat \<Rightarrow> time \<Rightarrow> create_task \<Rightarrow> (task result, store) txn" where
  "CreateTask sv eid clock x s =
     (case membershipFor (ct_actor x) (ct_org x) s of
        Inl _ \<Rightarrow> Inl Work_ErrNotFound
      | Inr _ \<Rightarrow>
     if ct_assignee x \<noteq> [] \<and> \<not> memberExists (ct_org x) (ct_assignee x) s then Inl Work_ErrNotFound
     else case date_or_null sv (ct_due_on x) of
        Inl e \<Rightarrow> Inl (mapWorkError e)
      | Inr due \<Rightarrow>
     (case insert_task (created_task x due) s of
        Inl e \<Rightarrow> Inl (mapWorkError e)
      | Inr (_, s1) \<Rightarrow>
     (case insertDomainEvent eid (ct_org x) (ct_id x) (ct_actor x) ''task.created'' (created_payload x) (ct_now x) s1 of
        Inl e \<Rightarrow> Inl e
      | Inr (_, s2) \<Rightarrow> read_back sv clock (ct_actor x) (ct_org x) (ct_id x) s2)))"

text \<open>The fields the request leaves out are the task's own.\<close>

definition fill_task :: "task_row \<Rightarrow> update_task \<Rightarrow> update_task" where
  "fill_task t x =
     x\<lparr>ut_title := (if ut_title_set x then ut_title x else t_title t),
       ut_description := (if ut_description_set x then ut_description x else t_description t),
       ut_assignee := (if ut_assignee_set x then ut_assignee x else null_text (t_assignee t)),
       ut_due_on := (if ut_due_on_set x then ut_due_on x else null_text (t_due_on t)),
       ut_status := (if ut_status_set x then ut_status x else t_status t),
       ut_priority := (if ut_priority_set x then ut_priority x else t_priority t)\<rparr>"

definition may_edit :: "role \<Rightarrow> id \<Rightarrow> task_row \<Rightarrow> bool" where
  "may_edit role actor t = (role = Owner \<or> role = Admin \<or> t_creator t = actor)"

definition may_set_status :: "role \<Rightarrow> id \<Rightarrow> task_row \<Rightarrow> bool" where
  "may_set_status role actor t = (role = Owner \<or> role = Admin \<or> null_text (t_assignee t) = actor)"

definition edits_details :: "update_task \<Rightarrow> bool" where
  "edits_details x = (ut_title_set x \<or> ut_description_set x \<or> ut_assignee_set x \<or> ut_due_on_set x \<or> ut_priority_set x)"

definition forbidden_update :: "role \<Rightarrow> task_row \<Rightarrow> update_task \<Rightarrow> bool" where
  "forbidden_update role t x =
     (\<not> may_edit role (ut_actor x) t \<and> edits_details x \<or> ut_status_set x \<and> \<not> may_set_status role (ut_actor x) t)"

text \<open>A review task may only be given to somebody who may read its document.\<close>

definition review_visible_to :: "id \<Rightarrow> id \<Rightarrow> id \<Rightarrow> store \<Rightarrow> bool" where
  "review_visible_to user org doc s =
     (row_exists (is_member_row org user) (memberships s)
      \<and> row_exists (\<lambda>d. d_org d = org \<and> d_id d = doc \<and> d_status d \<in> {''Available'', ''Archived''} \<and> document_visible user org s d)
          (documents s))"

definition review_refuses :: "task_row \<Rightarrow> update_task \<Rightarrow> store \<Rightarrow> bool" where
  "review_refuses t x s =
     (review_enabled s \<and> ut_assignee_set x \<and> ut_assignee x \<noteq> []
      \<and> (case query_row (\<lambda>r. rt_org r = ut_org x \<and> rt_task r = ut_id x) (document_review_tasks s) of
           None \<Rightarrow> False
         | Some r \<Rightarrow> \<not> review_visible_to (ut_assignee x) (ut_org x) (rt_document r) s))"

definition updated_task :: "update_task \<Rightarrow> string option \<Rightarrow> task_row \<Rightarrow> task_row" where
  "updated_task y due t =
     t\<lparr>t_title := ut_title y, t_description := ut_description y, t_assignee := null_if_empty (ut_assignee y),
       t_status := ut_status y, t_priority := ut_priority y, t_due_on := due, t_updated_at := ut_now y,
       t_status_changed_at := (if t_status t \<noteq> ut_status y then ut_now y else t_status_changed_at t),
       t_completed_at := (if ut_status y = Done then Some (ut_now y) else None),
       t_completed_by := (if ut_status y = Done then Some (ut_actor y) else None)\<rparr>"

definition assignmentEvent :: "string \<Rightarrow> string" where
  "assignmentEvent assignee = (if assignee = [] then ''task.unassigned'' else ''task.assigned'')"

definition changed_fields :: "task_row \<Rightarrow> update_task \<Rightarrow> string list" where
  "changed_fields t y =
     (if ut_title_set y \<and> ut_title y \<noteq> t_title t then [''title''] else [])
     @ (if ut_description_set y \<and> ut_description y \<noteq> t_description t then [''description''] else [])"

definition json_or_null :: "string \<Rightarrow> json" where
  "json_or_null v = (if v = [] then JNull else JString v)"

definition task_changes :: "task_row \<Rightarrow> update_task \<Rightarrow> (string \<times> json) list" where
  "task_changes t y =
     (let assignee = null_text (t_assignee t) in
      (if changed_fields t y \<noteq> []
       then [(''task.details_changed'', JObject [(''changed_fields'', JArray (map JString (changed_fields t y)))])] else [])
      @ (if ut_assignee_set y \<and> ut_assignee y \<noteq> assignee
         then [(assignmentEvent (ut_assignee y),
                JObject [(''assignee_user_id'', json_or_null (ut_assignee y)), (''previous_assignee_user_id'', json_or_null assignee)])]
         else [])
      @ (if ut_due_on_set y \<and> ut_due_on y \<noteq> null_text (t_due_on t)
         then [(''task.due_changed'', JObject [(''due_changed'', JBool True)])] else [])
      @ (if ut_priority_set y \<and> ut_priority y \<noteq> t_priority t
         then [(''task.priority_changed'', JObject [(''priority'', JString (ut_priority y))])] else [])
      @ (if ut_status_set y \<and> ut_status y \<noteq> t_status t
         then [(''task.status_changed'', JObject [(''previous_status'', JString (t_status t)), (''status'', JString (ut_status y))])]
         else []))"

text \<open>\<^verbatim>\<open>ids k\<close> is the k-th value the identity column of \<^verbatim>\<open>domain_events\<close> draws in the transaction.\<close>

fun insert_changes :: "(nat \<Rightarrow> nat) \<Rightarrow> nat \<Rightarrow> update_task \<Rightarrow> (string \<times> json) list \<Rightarrow> (unit, store) txn" where
  "insert_changes ids k y [] s = Inr ((), s)"
| "insert_changes ids k y ((type, payload) # cs) s =
     (case insertDomainEvent (ids k) (ut_org y) (ut_id y) (ut_actor y) type payload (ut_now y) s of
        Inl e \<Rightarrow> Inl e
      | Inr (_, s') \<Rightarrow> insert_changes ids (Suc k) y cs s')"

definition stop_watching :: "id \<Rightarrow> id \<Rightarrow> id \<Rightarrow> store \<Rightarrow> store" where
  "stop_watching org i user s = s\<lparr>task_watchers := sql_delete (\<lambda>w. watcher_key w = (org, i, user)) (task_watchers s)\<rparr>"

text \<open>The statements of an update the guards let through.\<close>

definition write_update :: "(nat \<Rightarrow> nat) \<Rightarrow> update_task \<Rightarrow> string option \<Rightarrow> task_row \<Rightarrow> (unit, store) txn" where
  "write_update ids y due t s =
     (if \<not> task_check (updated_task y due t) then Inl (mapWorkError (CheckViolation ''tasks''))
      else
        let s1 = s\<lparr>tasks := sql_update (task_at (ut_org y) (ut_id y)) (updated_task y due) (tasks s)\<rparr>;
            s2 = (if ut_assignee y \<noteq> [] then stop_watching (ut_org y) (ut_id y) (ut_assignee y) s1 else s1)
        in insert_changes ids 0 y (task_changes t y) s2)"

definition UpdateTask :: "server \<Rightarrow> (nat \<Rightarrow> nat) \<Rightarrow> time \<Rightarrow> update_task \<Rightarrow> (task result, store) txn" where
  "UpdateTask sv ids clock x s =
     (case currentRole (ut_actor x) (ut_org x) s of
        Inl _ \<Rightarrow> Inl Work_ErrNotFound
      | Inr role \<Rightarrow>
     (case query_row (task_at (ut_org x) (ut_id x)) (tasks s) of
        None \<Rightarrow> Inl Work_ErrNotFound
      | Some t \<Rightarrow>
          if forbidden_update role t x then Inl Work_ErrForbidden
          else
            let y = fill_task t x in
            if ut_assignee y \<noteq> [] \<and> \<not> memberExists (ut_org y) (ut_assignee y) s then Inl Work_ErrNotFound
            else if review_refuses t y s then Inl Work_ErrForbidden
            else case date_or_null sv (ut_due_on y) of
              Inl e \<Rightarrow> Inl (mapWorkError e)
            | Inr due \<Rightarrow>
           (case write_update ids y due t s of
              Inl e \<Rightarrow> Inl e
            | Inr (_, s') \<Rightarrow> read_back sv clock (ut_actor x) (ut_org x) (ut_id x) s')))"

definition SetWatcher :: "nat \<Rightarrow> id \<Rightarrow> id \<Rightarrow> id \<Rightarrow> id \<Rightarrow> bool \<Rightarrow> time \<Rightarrow> (unit, store) txn" where
  "SetWatcher eid org actor i watcher add now s =
     (let event = (\<lambda>type s. insertDomainEvent eid org i actor type (JObject [(''watcher_user_id'', JString watcher)]) now s) in
      case currentRole actor org s of
        Inl _ \<Rightarrow> Inl Work_ErrNotFound
      | Inr role \<Rightarrow>
     (case query_row (task_at org i) (tasks s) of
        None \<Rightarrow> Inl Work_ErrNotFound
      | Some t \<Rightarrow>
          if \<not> may_edit role actor t then Inl Work_ErrForbidden
          else if add then
            if \<not> memberExists org watcher s then Inl Work_ErrNotFound
            else case insert_watcher \<lparr>w_org = org, w_task = i, w_user = watcher, w_created_at = now\<rparr> s of
              Inl e \<Rightarrow> Inl (mapWorkError e)
            | Inr (n, s') \<Rightarrow> if n = 0 then Inr ((), s') else event ''task.watcher_added'' s'
          else
            if rows_affected (\<lambda>w. watcher_key w = (org, i, watcher)) (task_watchers s) = 0 then Inr ((), s)
            else event ''task.watcher_removed'' (stop_watching org i watcher s)))"

section \<open>Single operations\<close>

lemma contains_prefix: "has_prefix s p \<Longrightarrow> contains s p"
  by (cases s) simp_all

lemma contains_append [simp]: "contains (u @ p @ v) p"
  by (induction u) (simp_all add: contains_prefix)

lemma mapWorkError_simps [simp]:
  "mapWorkError (CheckViolation c) = Work_ErrConflict"
  "mapWorkError (RaisedException ''assignee cannot also be watcher'') = Work_ErrConflict"
  by (simp_all add: mapWorkError_def)

text \<open>The tables the operations on tasks touch, and the members that the foreign keys name.\<close>

definition work_tables :: "store \<Rightarrow> task_row list \<times> watcher_row list \<times> domain_event_row list" where
  "work_tables s = (tasks s, task_watchers s, domain_events s)"

definition member_keys :: "store \<Rightarrow> (id \<times> id) set" where
  "member_keys s = (\<lambda>m. (m_org m, m_user m)) ` set (memberships s)"

lemma memberExists_iff: "memberExists org user s \<longleftrightarrow> (org, user) \<in> member_keys s"
  by (auto simp: memberExists_def row_exists_iff is_member_row_def member_keys_def)

lemma insert_taskD:
  "insert_task t s = Inr (u, s') \<Longrightarrow>
     s' = s\<lparr>tasks := tasks s @ [t]\<rparr> \<and> task_check t \<and> t_id t \<notin> t_id ` set (tasks s)"
  by (auto simp: insert_task_def row_exists_iff split: if_splits)

lemma insertDomainEventD:
  "insertDomainEvent eid org i actor type payload now s = Inr (u, s') \<Longrightarrow>
     s' = s\<lparr>domain_events := domain_events s @ [new_event eid org i actor type payload now]\<rparr>
     \<and> row_exists (task_at org i) (tasks s)"
  by (auto simp: insertDomainEvent_def split: if_splits)

lemma insert_watcherD:
  "insert_watcher w s = Inr (n, s') \<Longrightarrow>
     (n = 0 \<and> s' = s
      \<or> n = 1 \<and> s' = s\<lparr>task_watchers := task_watchers s @ [w]\<rparr> \<and> watcher_key w \<notin> watcher_key ` set (task_watchers s))
     \<and> \<not> prevent_assignee_watcher_overlap w s"
  by (auto simp: insert_watcher_def row_exists_iff split: if_splits)

fun change_events :: "(nat \<Rightarrow> nat) \<Rightarrow> nat \<Rightarrow> update_task \<Rightarrow> (string \<times> json) list \<Rightarrow> domain_event_row list" where
  "change_events ids k y [] = []"
| "change_events ids k y ((type, payload) # cs) =
     new_event (ids k) (ut_org y) (ut_id y) (ut_actor y) type payload (ut_now y) # change_events ids (Suc k) y cs"

lemma insert_changesD:
  "insert_changes ids k y cs s = Inr (u, s') \<Longrightarrow>
     s' = s\<lparr>domain_events := domain_events s @ change_events ids k y cs\<rparr>"
proof (induction ids k y cs s rule: insert_changes.induct)
  case (2 ids k y type payload cs s)
  then obtain s1 where one: "insertDomainEvent (ids k) (ut_org y) (ut_id y) (ut_actor y) type payload (ut_now y) s = Inr ((), s1)"
    and rest: "insert_changes ids (Suc k) y cs s1 = Inr (u, s')" by (auto split: sum.splits)
  have "s' = s1\<lparr>domain_events := domain_events s1 @ change_events ids (Suc k) y cs\<rparr>"
    using 2(1) [OF one _ rest] by simp
  then show ?case using insertDomainEventD [OF one] by simp
qed simp

lemma insert_changes_ok:
  assumes "row_exists (task_at (ut_org y) (ut_id y)) (tasks s)" "list_all (\<lambda>(type, p). type \<in> set event_types) cs"
  shows "\<exists>s'. insert_changes ids k y cs s = Inr ((), s')"
  using assms
proof (induction ids k y cs s rule: insert_changes.induct)
  case (2 ids k y type payload cs s)
  let ?e = "new_event (ids k) (ut_org y) (ut_id y) (ut_actor y) type payload (ut_now y)"
  have "insertDomainEvent (ids k) (ut_org y) (ut_id y) (ut_actor y) type payload (ut_now y) s
      = Inr ((), s\<lparr>domain_events := domain_events s @ [?e]\<rparr>)"
    using 2(2,3) by (simp add: insertDomainEvent_def)
  then show ?case using 2 by simp
qed simp

lemma set_change_events:
  "set (map de_type (change_events ids k y cs)) = set (map fst cs)"
  "e \<in> set (change_events ids k y cs) \<Longrightarrow> de_org e = ut_org y \<and> de_task e = ut_id y \<and> de_actor e = ut_actor y"
  by (induction ids k y cs rule: change_events.induct) (auto simp: new_event_def)

lemma task_change_types: "list_all (\<lambda>(type, p). type \<in> set event_types) (task_changes t y)"
  by (simp add: task_changes_def event_types_def assignmentEvent_def Let_def)

lemma created_task_simps [simp]:
  "t_id (created_task x due) = ct_id x" "t_org (created_task x due) = ct_org x"
  "t_assignee (created_task x due) = null_if_empty (ct_assignee x)" "t_creator (created_task x due) = ct_actor x"
  by (simp_all add: created_task_def)

lemma updated_task_simps [simp]:
  "t_id (updated_task y due t) = t_id t" "t_org (updated_task y due t) = t_org t"
  "t_assignee (updated_task y due t) = null_if_empty (ut_assignee y)" "t_creator (updated_task y due t) = t_creator t"
  by (simp_all add: updated_task_def)

lemma CreateTaskE:
  assumes "CreateTask sv eid clock x s = Inr (r, s')"
  obtains due where "(ct_org x, ct_actor x) \<in> member_keys s" "date_or_null sv (ct_due_on x) = Inr due"
    "ct_assignee x = [] \<or> (ct_org x, ct_assignee x) \<in> member_keys s" "task_check (created_task x due)"
    "ct_id x \<notin> t_id ` set (tasks s)"
    "s' = s\<lparr>tasks := tasks s @ [created_task x due],
           domain_events := domain_events s @ [new_event eid (ct_org x) (ct_id x) (ct_actor x) ''task.created'' (created_payload x) (ct_now x)]\<rparr>"
    "r = GetTask sv clock (ct_actor x) (ct_org x) (ct_id x) s'"
proof -
  obtain m due s1 s2 where *: "membershipFor (ct_actor x) (ct_org x) s = Inr m" "date_or_null sv (ct_due_on x) = Inr due"
    "\<not> (ct_assignee x \<noteq> [] \<and> \<not> memberExists (ct_org x) (ct_assignee x) s)"
    "insert_task (created_task x due) s = Inr ((), s1)"
    "insertDomainEvent eid (ct_org x) (ct_id x) (ct_actor x) ''task.created'' (created_payload x) (ct_now x) s1 = Inr ((), s2)"
    "Inr (r, s') = read_back sv clock (ct_actor x) (ct_org x) (ct_id x) s2"
    using assms by (auto simp: CreateTask_def split: sum.splits if_splits)
  have "(ct_org x, ct_actor x) \<in> member_keys s"
    using *(1) by (elim membershipFor_InrD) (force simp: member_keys_def)
  then show thesis
    using that [of due] *(2,3,6) insert_taskD [OF *(4)] insertDomainEventD [OF *(5)]
    by (auto simp: memberExists_iff read_back_def)
qed

lemma UpdateTaskE:
  assumes "UpdateTask sv ids clock x s = Inr (r, s')"
  obtains role t y due where "currentRole (ut_actor x) (ut_org x) s = Inr role"
    "query_row (task_at (ut_org x) (ut_id x)) (tasks s) = Some t" "\<not> forbidden_update role t x" "y = fill_task t x"
    "ut_assignee y = [] \<or> (ut_org x, ut_assignee y) \<in> member_keys s" "date_or_null sv (ut_due_on y) = Inr due"
    "task_check (updated_task y due t)"
    "s' = s\<lparr>tasks := sql_update (task_at (ut_org x) (ut_id x)) (updated_task y due) (tasks s),
           task_watchers := (if ut_assignee y \<noteq> []
             then sql_delete (\<lambda>w. watcher_key w = (ut_org x, ut_id x, ut_assignee y)) (task_watchers s) else task_watchers s),
           domain_events := domain_events s @ change_events ids 0 y (task_changes t y)\<rparr>"
    "r = GetTask sv clock (ut_actor x) (ut_org x) (ut_id x) s'"
proof -
  obtain role t where role: "currentRole (ut_actor x) (ut_org x) s = Inr role"
    and t: "query_row (task_at (ut_org x) (ut_id x)) (tasks s) = Some t"
    using assms by (auto simp: UpdateTask_def split: sum.splits option.splits)
  define y where "y = fill_task t x"
  have y: "ut_org y = ut_org x" "ut_id y = ut_id x" "ut_actor y = ut_actor x" by (simp_all add: y_def fill_task_def)
  obtain due s1 where *: "\<not> forbidden_update role t x" "\<not> (ut_assignee y \<noteq> [] \<and> \<not> memberExists (ut_org x) (ut_assignee y) s)"
    "date_or_null sv (ut_due_on y) = Inr due" "write_update ids y due t s = Inr ((), s1)"
    "Inr (r, s') = read_back sv clock (ut_actor x) (ut_org x) (ut_id x) s1"
    using assms by (auto simp: UpdateTask_def role t y_def [symmetric] y Let_def split: sum.splits if_splits)
  have check: "task_check (updated_task y due t)" using *(4) by (simp add: write_update_def split: if_splits)
  let ?s1 = "s\<lparr>tasks := sql_update (task_at (ut_org x) (ut_id x)) (updated_task y due) (tasks s)\<rparr>"
  have ins: "insert_changes ids 0 y (task_changes t y)
     (if ut_assignee y \<noteq> [] then stop_watching (ut_org x) (ut_id x) (ut_assignee y) ?s1 else ?s1) = Inr ((), s1)"
    using *(4) check by (cases "ut_assignee y = []") (simp_all add: write_update_def y Let_def)
  show thesis
    using that [of role t y due, OF role t *(1) y_def _ *(3) check] *(2,5) insert_changesD [OF ins]
    by (simp add: memberExists_iff read_back_def stop_watching_def)
qed

lemma SetWatcherE:
  assumes "SetWatcher eid org actor i watcher add now s = Inr (u, s')"
  obtains role t where "currentRole actor org s = Inr role" "query_row (task_at org i) (tasks s) = Some t" "may_edit role actor t"
    "s' = s
     \<or> (add \<and> (org, watcher) \<in> member_keys s \<and> (org, i, watcher) \<notin> watcher_key ` set (task_watchers s)
        \<and> \<not> row_exists (\<lambda>t. task_at org i t \<and> t_assignee t = Some watcher) (tasks s)
        \<and> (let w = \<lparr>w_org = org, w_task = i, w_user = watcher, w_created_at = now\<rparr> in
           s' = s\<lparr>task_watchers := task_watchers s @ [w], domain_events := domain_events s @
             [new_event eid org i actor ''task.watcher_added'' (JObject [(''watcher_user_id'', JString watcher)]) now]\<rparr>))
     \<or> (\<not> add \<and> s' = s\<lparr>task_watchers := sql_delete (\<lambda>w. watcher_key w = (org, i, watcher)) (task_watchers s),
             domain_events := domain_events s @
             [new_event eid org i actor ''task.watcher_removed'' (JObject [(''watcher_user_id'', JString watcher)]) now]\<rparr>)"
proof -
  obtain role t where *: "currentRole actor org s = Inr role" "query_row (task_at org i) (tasks s) = Some t" "may_edit role actor t"
    using assms by (auto simp: SetWatcher_def Let_def split: sum.splits option.splits if_splits)
  let ?p = "JObject [(''watcher_user_id'', JString watcher)]"
  let ?w = "\<lparr>w_org = org, w_task = i, w_user = watcher, w_created_at = now\<rparr>"
  show thesis
  proof (cases add)
    case True
    have m: "memberExists org watcher s" using assms True * by (simp add: SetWatcher_def split: if_splits)
    obtain n s1 where n: "insert_watcher ?w s = Inr (n, s1)"
      "if n = 0 then s' = s1 else insertDomainEvent eid org i actor ''task.watcher_added'' ?p now s1 = Inr (u, s')"
      using assms True * m by (auto simp: SetWatcher_def split: sum.splits if_splits)
    show ?thesis
      using that [OF *] insert_watcherD [OF n(1)] n(2) m True
      by (auto simp: memberExists_iff prevent_assignee_watcher_overlap_def watcher_key_def Let_def dest!: insertDomainEventD split: if_splits)
  next
    case False
    then have "s' = s \<or> insertDomainEvent eid org i actor ''task.watcher_removed'' ?p now (stop_watching org i watcher s) = Inr (u, s')"
      using assms * by (auto simp: SetWatcher_def split: if_splits)
    then show ?thesis using that [OF *] False by (auto simp: stop_watching_def dest!: insertDomainEventD)
  qed
qed

section \<open>The invariant of tasks\<close>

definition task_ok :: "store \<Rightarrow> task_row \<Rightarrow> bool" where
  "task_ok s t = (task_check t \<and> (\<forall>u \<in> set_option (t_assignee t). (t_org t, u) \<in> member_keys s))"

definition watcher_ok :: "store \<Rightarrow> watcher_row \<Rightarrow> bool" where
  "watcher_ok s w =
     ((w_org w, w_user w) \<in> member_keys s
      \<and> row_exists (\<lambda>t. task_at (w_org w) (w_task w) t \<and> t_assignee t \<noteq> Some (w_user w)) (tasks s))"

definition work_ok :: "store \<Rightarrow> bool" where
  "work_ok s =
     (distinct (map t_id (tasks s)) \<and> list_all (task_ok s) (tasks s)
      \<and> distinct (map watcher_key (task_watchers s)) \<and> list_all (watcher_ok s) (task_watchers s)
      \<and> list_all (\<lambda>e. row_exists (task_at (de_org e) (de_task e)) (tasks s)) (domain_events s))"

lemma task_at_unique:
  assumes "distinct (map t_id ts)" "query_row (task_at org i) ts = Some t" "q \<in> set ts" "t_id q = i"
  shows "q = t"
proof -
  have "t \<in> set ts" "t_id t = i" using query_row_SomeD [OF assms(2)] by (simp_all add: task_at_def)
  then show ?thesis using assms by (auto simp: distinct_map dest: inj_onD)
qed

lemma member_keys_cong: "memberships s' = memberships s \<Longrightarrow> member_keys s' = member_keys s"
  by (simp add: member_keys_def)

lemma work_ok_CreateTask:
  assumes "work_ok s" "CreateTask sv eid clock x s = Inr (r, s')" shows "work_ok s'"
  using assms(2)
proof (cases rule: CreateTaskE)
  case (1 due)
  have "member_keys s' = member_keys s" using 1(6) by (simp add: member_keys_def)
  then show ?thesis
    using assms(1) 1(3-6)
    by (auto simp: work_ok_def task_ok_def [abs_def] watcher_ok_def [abs_def] list_all_iff row_exists_iff new_event_def task_at_def)
qed

lemma work_ok_UpdateTask:
  assumes "work_ok s" "UpdateTask sv ids clock x s = Inr (r, s')" shows "work_ok s'"
  using assms(2)
proof (cases rule: UpdateTaskE)
  case (1 role t y due)
  have keys: "member_keys s' = member_keys s" using 1(8) by (simp add: member_keys_def)
  have t: "t \<in> set (tasks s)" "t_org t = ut_org x" "t_id t = ut_id x" using query_row_SomeD [OF 1(2)] by (auto simp: task_at_def)
  have ts: "tasks s' = sql_update (task_at (ut_org x) (ut_id x)) (updated_task y due) (tasks s)" by (simp add: 1(8))
  have uniq: "q = t" if "q \<in> set (tasks s)" "task_at (ut_org x) (ut_id x) q" for q
    using task_at_unique [OF _ 1(2)] assms(1) that by (simp add: work_ok_def task_at_def)
  have new: "task_ok s' (updated_task y due t)"
    using 1(5,7) by (cases "ut_assignee y = []") (simp_all add: task_ok_def keys t)
  have tasks: "list_all (task_ok s') (tasks s')"
    unfolding list_all_iff
  proof
    fix q assume "q \<in> set (tasks s')"
    then obtain p where p: "p \<in> set (tasks s)" "q = (if task_at (ut_org x) (ut_id x) p then updated_task y due p else p)"
      unfolding ts set_sql_update by blast
    then have "task_ok s p" using assms(1) by (simp add: work_ok_def list_all_iff)
    then show "task_ok s' q" using p(2) uniq [OF p(1)] new keys by (auto simp: task_ok_def)
  qed
  have ids: "map t_id (tasks s') = map t_id (tasks s)" by (simp add: 1(8) map_sql_update)
  have stay: "row_exists (task_at org i) (tasks s') = row_exists (task_at org i) (tasks s)" for org i
    unfolding ts by (rule row_exists_sql_update) (simp add: task_at_def)
  have watchers: "watcher_ok s' w" if w: "w \<in> set (task_watchers s')" for w
  proof -
    have old: "watcher_ok s w" "w \<in> set (task_watchers s)" and kept: "ut_assignee y \<noteq> [] \<longrightarrow> watcher_key w \<noteq> (ut_org x, ut_id x, ut_assignee y)"
      using w assms(1) by (auto simp: work_ok_def list_all_iff 1(8) set_sql_delete split: if_splits)
    obtain q where q: "q \<in> set (tasks s)" "task_at (w_org w) (w_task w) q" "t_assignee q \<noteq> Some (w_user w)"
      using old(1) by (auto simp: watcher_ok_def row_exists_iff)
    let ?q = "if task_at (ut_org x) (ut_id x) q then updated_task y due q else q"
    have "?q \<in> set (tasks s')" using q(1) by (simp add: 1(8) set_sql_update)
    moreover have "task_at (w_org w) (w_task w) ?q" using q(2) by (simp add: task_at_def)
    moreover have "t_assignee ?q \<noteq> Some (w_user w)"
      using q(2,3) kept by (auto simp: task_at_def watcher_key_def)
    ultimately show ?thesis using old(1) keys by (auto simp: watcher_ok_def row_exists_iff)
  qed
  have "distinct (map watcher_key (task_watchers s'))"
    using assms(1) by (auto simp: work_ok_def 1(8) sql_delete_def distinct_map_filter)
  moreover have "row_exists (task_at (de_org e) (de_task e)) (tasks s')" if e: "e \<in> set (domain_events s')" for e
  proof (cases "e \<in> set (domain_events s)")
    case True
    then show ?thesis using assms(1) stay by (auto simp: work_ok_def list_all_iff)
  next
    case False
    then have "e \<in> set (change_events ids 0 y (task_changes t y))" using e by (simp add: 1(8))
    then have "de_org e = ut_org x" "de_task e = ut_id x" using set_change_events(2) 1(4) by (auto simp: fill_task_def)
    then show ?thesis using t stay by (auto simp: row_exists_iff task_at_def)
  qed
  ultimately show ?thesis
    using assms(1) tasks ids watchers by (simp add: work_ok_def list_all_iff)
qed

lemma work_ok_SetWatcher:
  assumes "work_ok s" "SetWatcher eid org actor i watcher add now s = Inr (u, s')" shows "work_ok s'"
  using assms(2)
proof (cases rule: SetWatcherE)
  case (1 role t)
  have t: "t \<in> set (tasks s)" "task_at org i t" using query_row_SomeD [OF 1(2)] by auto
  have keys: "member_keys s' = member_keys s" using 1(4) by (auto simp: member_keys_def Let_def)
  from 1(4) show ?thesis
  proof (elim disjE conjE)
    assume "s' = s" then show ?thesis using assms(1) by simp
  next
    assume add: "(org, watcher) \<in> member_keys s" "(org, i, watcher) \<notin> watcher_key ` set (task_watchers s)"
      "\<not> row_exists (\<lambda>t. task_at org i t \<and> t_assignee t = Some watcher) (tasks s)"
      "let w = \<lparr>w_org = org, w_task = i, w_user = watcher, w_created_at = now\<rparr> in
         s' = s\<lparr>task_watchers := task_watchers s @ [w], domain_events := domain_events s @
           [new_event eid org i actor ''task.watcher_added'' (JObject [(''watcher_user_id'', JString watcher)]) now]\<rparr>"
    then show ?thesis
      using assms(1) t keys
      by (auto simp: work_ok_def Let_def list_all_iff task_ok_def watcher_ok_def row_exists_iff watcher_key_def new_event_def)
  next
    assume "s' = s\<lparr>task_watchers := sql_delete (\<lambda>w. watcher_key w = (org, i, watcher)) (task_watchers s),
             domain_events := domain_events s @
             [new_event eid org i actor ''task.watcher_removed'' (JObject [(''watcher_user_id'', JString watcher)]) now]\<rparr>"
    then show ?thesis
      using assms(1) t keys
      by (auto simp: work_ok_def list_all_iff task_ok_def watcher_ok_def row_exists_iff set_sql_delete new_event_def sql_delete_def distinct_map_filter)
  qed
qed

text \<open>Removing a member clears the tasks assigned to them and their watches.\<close>

lemma delete_membership_work:
  assumes "delete_membership dbnow org user s = Inr (u, s')"
  shows "tasks s' = sql_update (\<lambda>t. t_org t = org \<and> t_assignee t = Some user) (\<lambda>t. t\<lparr>t_assignee := None, t_updated_at := dbnow\<rparr>) (tasks s)"
    and "task_watchers s' = sql_delete (\<lambda>w. w_org w = org \<and> w_user w = user) (task_watchers s)"
    and "domain_events s' = domain_events s" "member_keys s' = member_keys s - {(org, user)}"
  using assms
  by (auto simp: delete_membership_def Let_def phase2_membership_cleanup_def cascade_membership_def member_keys_def set_sql_delete
      is_member_row_def split: if_splits)

lemma work_ok_delete_membership:
  assumes "work_ok s" "delete_membership dbnow org user s = Inr (u, s')" shows "work_ok s'"
proof -
  note d = delete_membership_work [OF assms(2)]
  have "map t_id (tasks s') = map t_id (tasks s)" by (simp add: d map_sql_update)
  moreover have "task_ok s' t" if t: "t \<in> set (tasks s')" for t
  proof -
    let ?P = "\<lambda>t. t_org t = org \<and> t_assignee t = Some user"
    obtain q where q: "q \<in> set (tasks s)" "t = (if ?P q then q\<lparr>t_assignee := None, t_updated_at := dbnow\<rparr> else q)"
      using t unfolding d(1) set_sql_update by blast
    then have "task_ok s q" using assms(1) by (simp add: work_ok_def list_all_iff)
    then show ?thesis using q(2) by (auto simp: task_ok_def task_check_def d(4))
  qed
  moreover have "distinct (map watcher_key (task_watchers s'))"
    using assms(1) by (simp add: d(2) work_ok_def sql_delete_def distinct_map_filter)
  moreover have "watcher_ok s' w" if w: "w \<in> set (task_watchers s')" for w
  proof -
    have "watcher_ok s w" "\<not> (w_org w = org \<and> w_user w = user)" using w assms(1) by (auto simp: d(2) set_sql_delete work_ok_def list_all_iff)
    then obtain q where q: "q \<in> set (tasks s)" "task_at (w_org w) (w_task w) q" "t_assignee q \<noteq> Some (w_user w)"
      "(w_org w, w_user w) \<in> member_keys s'"
      by (auto simp: watcher_ok_def row_exists_iff d(4))
    let ?q = "if t_org q = org \<and> t_assignee q = Some user then q\<lparr>t_assignee := None, t_updated_at := dbnow\<rparr> else q"
    have "?q \<in> set (tasks s')" using q(1) by (auto simp: d(1) set_sql_update)
    moreover have "task_at (w_org w) (w_task w) ?q \<and> t_assignee ?q \<noteq> Some (w_user w)" using q(2,3) by (simp add: task_at_def)
    ultimately show ?thesis using q(4) by (auto simp: watcher_ok_def row_exists_iff)
  qed
  moreover have "row_exists (task_at o' i) (tasks s') = row_exists (task_at o' i) (tasks s)" for o' i
    unfolding d(1) by (rule row_exists_sql_update) (simp add: task_at_def)
  ultimately show ?thesis using assms(1) by (simp add: work_ok_def list_all_iff d(3))
qed

lemma work_ok_audit [simp]: "work_ok (auditTenant org actor ev ty tg now s) = work_ok s"
  by (simp add: work_ok_def task_ok_def [abs_def] watcher_ok_def [abs_def] member_keys_def auditTenant_def)

lemma work_ok_RemoveMembership:
  assumes "work_ok s" "RemoveMembership dbnow org actor target now s = Inr (u, s')" shows "work_ok s'"
  using assms work_ok_delete_membership [OF assms(1)]
  by (auto simp: RemoveMembership_def split: sum.splits if_splits option.splits dest!: commit_memberships_InrD)

lemma work_ok_LeaveOrganization:
  assumes "work_ok s" "LeaveOrganization dbnow org user now s = Inr (u, s')" shows "work_ok s'"
  using assms work_ok_delete_membership [OF assms(1)]
  by (auto simp: LeaveOrganization_def split: sum.splits if_splits dest!: commit_memberships_InrD)

datatype work_op =
    TaskCreate server nat time create_task
  | TaskUpdate server "nat \<Rightarrow> nat" time update_task
  | TaskWatch nat id id id id bool time
  | MemberRemoved time id id id time
  | MemberLeft time id id time

fun work_step :: "work_op \<Rightarrow> store \<Rightarrow> store" where
  "work_step (TaskCreate sv eid clock x) s = after s (CreateTask sv eid clock x s)"
| "work_step (TaskUpdate sv ids clock x) s = after s (UpdateTask sv ids clock x s)"
| "work_step (TaskWatch eid org actor i watcher add now) s = after s (SetWatcher eid org actor i watcher add now s)"
| "work_step (MemberRemoved dbnow org actor target now) s = after s (RemoveMembership dbnow org actor target now s)"
| "work_step (MemberLeft dbnow org user now) s = after s (LeaveOrganization dbnow org user now s)"

lemma work_ok_step: "work_ok s \<Longrightarrow> work_ok (work_step q s)"
  by (cases q) (auto intro!: after_invariant [where P = work_ok]
      intro: work_ok_CreateTask work_ok_UpdateTask work_ok_SetWatcher work_ok_RemoveMembership work_ok_LeaveOrganization)

text \<open>\<^bold>\<open>C22.\<close> Whatever tasks are created, updated and watched and whoever leaves, in any order: a task is Done exactly when
  it has a completion time and a completing user, its title and description keep their bounds, assignees and watchers are
  members of the task's organization, nobody watches a task assigned to them, and every event names an existing task.\<close>

theorem tasks_consistent:
  assumes "work_ok s"
  shows "work_ok (fold work_step ops s)"
  using assms by (induction ops arbitrary: s) (simp_all add: work_ok_step)

definition demo_server :: server where
  "demo_server = \<lparr>local_date = (\<lambda>z t. ''2026-01-02''), time_of_day = (\<lambda>z t. 10 * Hour), from_local = (\<lambda>z d n c. n),
     as_date = Some, lower_text = ascii_lower, md5 = id\<rparr>"

definition demo_user_row :: "id \<Rightarrow> string option \<Rightarrow> user_row" where
  "demo_user_row u n = \<lparr>u_id = u, u_display_name = n, u_picture_url = None, u_created_at = 0, u_updated_at = 0\<rparr>"

definition demo_office :: store where
  "demo_office = empty_store\<lparr>organizations := [demo_organization ''o1''],
     users := [demo_user_row ''u1'' (Some ''Ann''), demo_user_row ''u2'' (Some ''Bo''), demo_user_row ''u3'' None],
     memberships := [demo_member ''o1'' ''u1'' Owner, demo_member ''o1'' ''u2'' Member, demo_member ''o1'' ''u3'' Member]\<rparr>"

definition demo_create :: create_task where
  "demo_create = \<lparr>ct_id = ''t1'', ct_org = ''o1'', ct_actor = ''u2'', ct_title = ''File'', ct_description = [], ct_assignee = ''u1'',
     ct_due_on = ''2026-01-01'', ct_priority = Normal, ct_now = 5\<rparr>"

definition demo_update :: update_task where
  "demo_update = \<lparr>ut_id = ''t1'', ut_org = ''o1'', ut_actor = ''u1'', ut_title = [], ut_description = [], ut_assignee = [],
     ut_due_on = [], ut_status = Done, ut_priority = [], ut_title_set = False, ut_description_set = False,
     ut_assignee_set = False, ut_due_on_set = False, ut_status_set = True, ut_priority_set = False, ut_now = 7\<rparr>"

definition demo_tasks :: store where
  "demo_tasks = work_step (TaskCreate demo_server 1 6 demo_create) demo_office"

definition demo_finished :: store where
  "demo_finished = work_step (TaskUpdate demo_server (\<lambda>k. k + 2) 7 demo_update) demo_tasks"

theorem tasks_consistent_witness:
  "work_ok (fold work_step [TaskCreate demo_server 1 6 demo_create, TaskWatch 2 ''o1'' ''u2'' ''t1'' ''u3'' True 6,
      TaskUpdate demo_server (\<lambda>k. k + 3) 7 demo_update, MemberLeft 8 ''o1'' ''u3'' 8] demo_office)
   \<and> length (domain_events (fold work_step [TaskCreate demo_server 1 6 demo_create, TaskWatch 2 ''o1'' ''u2'' ''t1'' ''u3'' True 6,
      TaskUpdate demo_server (\<lambda>k. k + 3) 7 demo_update, MemberLeft 8 ''o1'' ''u3'' 8] demo_office)) = 3"
proof -
  have "work_ok demo_office" by (simp add: work_ok_def demo_office_def)
  moreover have "length (domain_events (fold work_step [TaskCreate demo_server 1 6 demo_create, TaskWatch 2 ''o1'' ''u2'' ''t1'' ''u3'' True 6,
      TaskUpdate demo_server (\<lambda>k. k + 3) 7 demo_update, MemberLeft 8 ''o1'' ''u3'' 8] demo_office)) = 3" by code_simp
  ultimately show ?thesis using tasks_consistent by blast
qed

section \<open>What an update does\<close>

text \<open>The texts of dates the server prints are dates it reads back, and so is a date the request sets.\<close>

definition canonical_date :: "server \<Rightarrow> string \<Rightarrow> bool" where
  "canonical_date sv v = (v = [] \<or> as_date sv v = Some v)"

lemma date_or_null_canonical: "canonical_date sv v \<Longrightarrow> date_or_null sv v = Inr d \<Longrightarrow> d = null_if_empty v"
  by (auto simp: canonical_date_def date_or_null_def split: if_splits)

lemma UpdateTask_row:
  assumes "UpdateTask sv ids clock x s = Inr (r, s')" "query_row (task_at (ut_org x) (ut_id x)) (tasks s) = Some t"
  obtains role due where "currentRole (ut_actor x) (ut_org x) s = Inr role" "\<not> forbidden_update role t x"
    "date_or_null sv (ut_due_on (fill_task t x)) = Inr due" "task_check (updated_task (fill_task t x) due t)"
    "query_row (task_at (ut_org x) (ut_id x)) (tasks s') = Some (updated_task (fill_task t x) due t)"
    "domain_events s' = domain_events s @ change_events ids 0 (fill_task t x) (task_changes t (fill_task t x))"
  using assms(1)
proof (cases rule: UpdateTaskE)
  case (1 role t' y due)
  have t': "t' = t" using 1(2) assms(2) by simp
  have "query_row (task_at (ut_org x) (ut_id x)) (tasks s') = Some (updated_task y due t)"
    unfolding 1(8) using assms(2) query_row_SomeD [OF assms(2)] by (simp add: query_row_sql_update task_at_def)
  then show thesis using that [of role due] 1 t' by simp
qed

lemma set_task_changes:
  "''task.details_changed'' \<in> fst ` set (task_changes t y) \<longleftrightarrow> changed_fields t y \<noteq> []"
  "assignmentEvent (ut_assignee y) \<in> fst ` set (task_changes t y) \<longleftrightarrow> ut_assignee_set y \<and> ut_assignee y \<noteq> null_text (t_assignee t)"
  "''task.due_changed'' \<in> fst ` set (task_changes t y) \<longleftrightarrow> ut_due_on_set y \<and> ut_due_on y \<noteq> null_text (t_due_on t)"
  "''task.priority_changed'' \<in> fst ` set (task_changes t y) \<longleftrightarrow> ut_priority_set y \<and> ut_priority y \<noteq> t_priority t"
  "''task.status_changed'' \<in> fst ` set (task_changes t y) \<longleftrightarrow> ut_status_set y \<and> ut_status y \<noteq> t_status t"
proof -
  have "map fst (task_changes t y) =
     (if changed_fields t y \<noteq> [] then [''task.details_changed''] else [])
     @ (if ut_assignee_set y \<and> ut_assignee y \<noteq> null_text (t_assignee t) then [assignmentEvent (ut_assignee y)] else [])
     @ (if ut_due_on_set y \<and> ut_due_on y \<noteq> null_text (t_due_on t) then [''task.due_changed''] else [])
     @ (if ut_priority_set y \<and> ut_priority y \<noteq> t_priority t then [''task.priority_changed''] else [])
     @ (if ut_status_set y \<and> ut_status y \<noteq> t_status t then [''task.status_changed''] else [])" (is "_ = ?types")
    by (simp add: task_changes_def Let_def)
  then have fst: "fst ` set (task_changes t y) = set ?types" using set_map [of fst "task_changes t y"] by metis
  show "''task.details_changed'' \<in> fst ` set (task_changes t y) \<longleftrightarrow> changed_fields t y \<noteq> []"
    "assignmentEvent (ut_assignee y) \<in> fst ` set (task_changes t y) \<longleftrightarrow> ut_assignee_set y \<and> ut_assignee y \<noteq> null_text (t_assignee t)"
    "''task.due_changed'' \<in> fst ` set (task_changes t y) \<longleftrightarrow> ut_due_on_set y \<and> ut_due_on y \<noteq> null_text (t_due_on t)"
    "''task.priority_changed'' \<in> fst ` set (task_changes t y) \<longleftrightarrow> ut_priority_set y \<and> ut_priority y \<noteq> t_priority t"
    "''task.status_changed'' \<in> fst ` set (task_changes t y) \<longleftrightarrow> ut_status_set y \<and> ut_status y \<noteq> t_status t"
    unfolding fst by (simp_all add: assignmentEvent_def)
qed

definition demo_task :: task_row where
  "demo_task = created_task demo_create (Some ''2026-01-01'')"

lemma demo_task_row: "query_row (task_at ''o1'' ''t1'') (tasks demo_tasks) = Some demo_task"
  by code_simp


text \<open>An update of a Done task that does not set its status, by anybody who may edit it, replaces the
  completion: the actor becomes the one who completed the task, at the time of the edit, while the time of the
  last status change stays.\<close>

theorem completion_restamped:
  assumes "UpdateTask sv ids clock x s = Inr (r, s')" "query_row (task_at (ut_org x) (ut_id x)) (tasks s) = Some t"
    and "t_status t = Done" "\<not> ut_status_set x"
  shows "\<exists>t'. query_row (task_at (ut_org x) (ut_id x)) (tasks s') = Some t' \<and> t_status t' = Done
    \<and> t_completed_at t' = Some (ut_now x) \<and> t_completed_by t' = Some (ut_actor x) \<and> t_status_changed_at t' = t_status_changed_at t"
  using assms(1,2)
proof (cases rule: UpdateTask_row)
  case (1 role due)
  then show ?thesis using assms(3,4) by (simp add: updated_task_def fill_task_def)
qed

definition demo_rename :: update_task where
  "demo_rename = demo_update\<lparr>ut_actor := ''u2'', ut_title := ''Files'', ut_title_set := True, ut_status := [], ut_status_set := False, ut_now := 9\<rparr>"

text \<open>The creator, a plain member who may not set the status, renames the task that the Owner finished.\<close>

theorem completion_restamped_witness:
  "map (\<lambda>t. (t_title t, t_completed_at t, t_completed_by t, t_status_changed_at t)) (tasks demo_finished) = [(''File'', Some 7, Some ''u1'', 7)]
   \<and> map (\<lambda>t. (t_title t, t_completed_at t, t_completed_by t, t_status_changed_at t))
        (tasks (work_step (TaskUpdate demo_server (\<lambda>k. k + 3) 9 demo_rename) demo_finished)) = [(''Files'', Some 9, Some ''u2'', 7)]"
proof -
  have ids: "ut_org demo_rename = ''o1''" "ut_id demo_rename = ''t1''" "\<not> ut_status_set demo_rename"
    by (simp_all add: demo_rename_def demo_update_def)
  have "\<not> isl (UpdateTask demo_server (\<lambda>k. k + 3) 9 demo_rename demo_finished)" by code_simp
  then obtain r s' where upd: "UpdateTask demo_server (\<lambda>k. k + 3) 9 demo_rename demo_finished = Inr (r, s')"
    by (metis isl_def sum.exhaust prod.exhaust)
  have "query_row (task_at ''o1'' ''t1'') (tasks demo_finished) = Some (hd (tasks demo_finished))"
    "t_status (hd (tasks demo_finished)) = Done" "t_status_changed_at (hd (tasks demo_finished)) = 7" by code_simp+
  note re = completion_restamped [OF upd _ _ ids(3), unfolded ids, OF this(1,2)]
  have "map (\<lambda>t. (t_title t, t_completed_at t, t_completed_by t, t_status_changed_at t)) (tasks demo_finished) = [(''File'', Some 7, Some ''u1'', 7)]"
    "length (tasks (work_step (TaskUpdate demo_server (\<lambda>k. k + 3) 9 demo_rename) demo_finished)) = 1"
    "map t_title (tasks (work_step (TaskUpdate demo_server (\<lambda>k. k + 3) 9 demo_rename) demo_finished)) = [''Files'']" by code_simp+
  moreover from this(2) obtain q where "tasks s' = [q]" using upd by (auto simp: length_Suc_conv)
  ultimately show ?thesis using re upd by (simp split: if_splits) (simp add: demo_rename_def \<open>t_status_changed_at (hd (tasks demo_finished)) = 7\<close>)
qed

end
