(* ===== verification/Inbound.thy ===== *)
theory Inbound
  imports Json Base64 Lease "HOL-Library.Product_Lexorder"
begin

text \<open>
  Webhook deliveries: parsing a signed LINE delivery (src/api/internal/line/line.go), the table of inbound
  events (src/api/internal/postgres/store.go), the retry schedule (src/api/internal/inbound/inbound.go) and
  the worker loop (src/api/internal/worker/worker.go).  HMAC-SHA256, SHA-256 and the JSON codec are
  parameters; \<^verbatim>\<open>dbnow\<close> is the server's \<^verbatim>\<open>now()\<close> at the statement, and \<^verbatim>\<open>ids\<close> the identity column's sequence.
\<close>

section \<open>Package inbound\<close>

record inbound_event =
  ev_id :: nat
  ev_provider :: string
  ev_channel :: string
  ev_provider_event_id :: string
  ev_type :: string
  ev_payload :: "bytes option"
  ev_source_type :: string
  ev_source_group :: string
  ev_source_user :: string
  ev_code_hash :: "bytes option"
  ev_occurred_at :: time
  ev_attempts :: nat

abbreviation Received :: string where "Received \<equiv> ''Received''"
abbreviation Processing :: string where "Processing \<equiv> ''Processing''"
abbreviation Processed :: string where "Processed \<equiv> ''Processed''"
abbreviation Retryable :: string where "Retryable \<equiv> ''Retryable''"
abbreviation EventFailed :: string where "EventFailed \<equiv> ''Failed''"
abbreviation Ignored :: string where "Ignored \<equiv> ''Ignored''"

definition OutcomeForType :: "string \<Rightarrow> string" where
  "OutcomeForType t = (if t = ''message'' then Processed else Ignored)"

definition retry_delays :: "duration list" where
  "retry_delays = [Minute, 5 * Minute, 30 * Minute, 2 * Hour, 12 * Hour]"

definition RetryDelay :: "nat \<Rightarrow> duration \<times> bool" where
  "RetryDelay attempt =
     (if attempt < 1 \<or> attempt > length retry_delays then (0, False) else (retry_delays ! (attempt - 1), True))"

section \<open>Package line\<close>

text \<open>An event of a delivery, the fields the program decodes.\<close>

record line_event =
  le_id :: string
  le_type :: string
  le_timestamp :: int
  le_source_type :: string
  le_group :: string
  le_user :: string
  le_message_type :: string
  le_text :: string
  le_message_id :: string
  le_file_name :: string

text \<open>The command word \<^verbatim>\<open>connect\<close> in Thai and a space, in UTF-8.\<close>

definition link_prefix :: bytes where
  "link_prefix = map byte_char [0xE0, 0xB9, 0x80, 0xE0, 0xB8, 0x8A, 0xE0, 0xB8, 0xB7, 0xE0, 0xB9, 0x88,
                                0xE0, 0xB8, 0xAD, 0xE0, 0xB8, 0xA1, 0x20]"

definition code_rune :: "nat \<Rightarrow> bool" where
  "code_rune r = (97 \<le> r \<and> r \<le> 122 \<or> 65 \<le> r \<and> r \<le> 90 \<or> 48 \<le> r \<and> r \<le> 57 \<or> r = 45 \<or> r = 95)"

definition linkCodeCandidate :: "string \<Rightarrow> string option" where
  "linkCodeCandidate text =
     (let code = TrimSpace (trim_prefix (TrimSpace text) link_prefix) in
      if code = text \<or> length code < 16 \<or> length code > 128 then None
      else if \<exists>(r, _) \<in> set (runes code). \<not> code_rune r then None
      else Some code)"

definition is_link_message :: "line_event \<Rightarrow> bool" where
  "is_link_message e = (le_source_type e = ''group'' \<and> le_type e = ''message'' \<and> le_message_type e = ''text'')"

definition redacted :: string where "redacted = ''[REDACTED_LINK_CODE]''"

text \<open>\<^verbatim>\<open>None\<close> stands for the error of \<^verbatim>\<open>json.Marshal\<close>.\<close>

definition parse_event ::
  "(bytes \<Rightarrow> bytes) \<Rightarrow> (line_event \<Rightarrow> bytes option) \<Rightarrow> string \<Rightarrow> line_event \<Rightarrow> inbound_event result" where
  "parse_event sha256 marshal channel e =
     (if le_id e = [] \<or> le_type e = [] then Inl Line_ErrMalformed
      else
        let candidate = (if is_link_message e then linkCodeCandidate (le_text e) else None);
            hash = map_option sha256 candidate;
            e' = (if candidate \<noteq> None then e\<lparr>le_text := redacted\<rparr> else e)
        in case marshal e' of
             None \<Rightarrow> Inl Line_ErrMalformed
           | Some payload \<Rightarrow>
               Inr \<lparr>ev_id = 0, ev_provider = ''line'', ev_channel = channel, ev_provider_event_id = le_id e, ev_type = le_type e,
                    ev_payload = Some payload, ev_source_type = le_source_type e, ev_source_group = le_group e,
                    ev_source_user = le_user e, ev_code_hash = hash, ev_occurred_at = le_timestamp e * Millisecond,
                    ev_attempts = 0\<rparr>)"

fun parse_events ::
  "(bytes \<Rightarrow> bytes) \<Rightarrow> (line_event \<Rightarrow> bytes option) \<Rightarrow> string \<Rightarrow> line_event list \<Rightarrow> inbound_event list result" where
  "parse_events sha256 marshal channel [] = Inr []"
| "parse_events sha256 marshal channel (e # es) =
     (case parse_event sha256 marshal channel e of
        Inl err \<Rightarrow> Inl err
      | Inr ev \<Rightarrow> (case parse_events sha256 marshal channel es of Inl err \<Rightarrow> Inl err | Inr evs \<Rightarrow> Inr (ev # evs)))"

text \<open>\<^verbatim>\<open>unmarshal\<close> gives \<^verbatim>\<open>None\<close> for malformed JSON and for a delivery without an events array.\<close>

definition ParseSignedDelivery ::
  "(bytes \<Rightarrow> bytes \<Rightarrow> bytes) \<Rightarrow> (bytes \<Rightarrow> bytes) \<Rightarrow> (bytes \<Rightarrow> line_event list option) \<Rightarrow> (line_event \<Rightarrow> bytes option)
     \<Rightarrow> bytes \<Rightarrow> string \<Rightarrow> string \<Rightarrow> string \<Rightarrow> inbound_event list result" where
  "ParseSignedDelivery hmac sha256 unmarshal marshal body signature secret channel =
     (case StdDecodeString signature of
        None \<Rightarrow> Inl Line_ErrInvalidSignature
      | Some provided \<Rightarrow>
          if hmac secret body \<noteq> provided then Inl Line_ErrInvalidSignature
          else case unmarshal body of
            None \<Rightarrow> Inl Line_ErrMalformed
          | Some raw \<Rightarrow> parse_events sha256 marshal channel raw)"

record document_message =
  dm_type :: string
  dm_id :: string
  dm_file_name :: string

definition ParseDocumentMessage :: "(bytes \<Rightarrow> line_event option) \<Rightarrow> bytes \<Rightarrow> document_message option" where
  "ParseDocumentMessage unmarshal payload =
     (case unmarshal payload of
        None \<Rightarrow> None
      | Some e \<Rightarrow>
          if le_type e \<noteq> ''message'' \<or> le_message_id e = [] then None
          else if le_message_type e \<noteq> ''image'' \<and> le_message_type e \<noteq> ''file'' then None
          else Some \<lparr>dm_type = le_message_type e, dm_id = le_message_id e, dm_file_name = le_file_name e\<rparr>)"

section \<open>The table\<close>

definition nilIfEmpty :: "string \<Rightarrow> string option" where "nilIfEmpty s = (if s = [] then None else Some s)"
definition coalesce :: "string option \<Rightarrow> string" where "coalesce x = (case x of None \<Rightarrow> [] | Some s \<Rightarrow> s)"

definition emptyBytesToNil :: "bytes option \<Rightarrow> bytes option" where
  "emptyBytesToNil v = (if v = Some [] then None else v)"

definition group_connected :: "store \<Rightarrow> string \<Rightarrow> string \<Rightarrow> bool" where
  "group_connected s channel grp =
     row_exists (\<lambda>c. lc_channel c = channel \<and> lc_group c = grp \<and> lc_status c = ''connected'') (line_group_connections s)"

definition event_key :: "inbound_row \<Rightarrow> string \<times> string \<times> string" where
  "event_key r = (ie_provider r, ie_channel r, ie_event_id r)"

definition received_row :: "time \<Rightarrow> nat \<Rightarrow> inbound_event \<Rightarrow> inbound_row" where
  "received_row dbnow i e =
     \<lparr>ie_id = i, ie_provider = ev_provider e, ie_channel = ev_channel e, ie_event_id = ev_provider_event_id e,
      ie_event_type = ev_type e, ie_payload = ev_payload e, ie_status = Received, ie_attempts = 0, ie_available_at = dbnow,
      ie_lease = None, ie_occurred_at = ev_occurred_at e, ie_received_at = dbnow, ie_processed_at = None,
      ie_failure_code = None, ie_failure_message = None, ie_source_type = Some (ev_source_type e),
      ie_source_group = nilIfEmpty (ev_source_group e), ie_source_user = nilIfEmpty (ev_source_user e),
      ie_code_hash = emptyBytesToNil (ev_code_hash e)\<rparr>"

definition insert_event :: "time \<Rightarrow> nat \<Rightarrow> inbound_event \<Rightarrow> (unit, store) txn" where
  "insert_event dbnow i e s =
     (if \<not> (ev_source_type e \<noteq> ''group'' \<or> emptyBytesToNil (ev_code_hash e) \<noteq> None
            \<or> group_connected s (ev_channel e) (ev_source_group e))
      then Inr ((), s)
      else if (case emptyBytesToNil (ev_code_hash e) of None \<Rightarrow> False | Some h \<Rightarrow> length h \<noteq> 32)
      then Inl (CheckViolation ''inbound_events_link_code_hash_check'')
      else if row_exists (\<lambda>r. event_key r = (ev_provider e, ev_channel e, ev_provider_event_id e)) (inbound_events s)
      then Inr ((), s)
      else Inr ((), s\<lparr>inbound_events := inbound_events s @
        [received_row dbnow i e]\<rparr>))"

fun InsertEvents :: "time \<Rightarrow> nat list \<Rightarrow> inbound_event list \<Rightarrow> (unit, store) txn" where
  "InsertEvents dbnow ids [] s = Inr ((), s)"
| "InsertEvents dbnow ids (e # es) s =
     (case insert_event dbnow (hd ids) e s of
        Inl err \<Rightarrow> Inl err | Inr (_, s') \<Rightarrow> InsertEvents dbnow (tl ids) es s')"

definition eligible :: "time \<Rightarrow> inbound_row \<Rightarrow> bool" where
  "eligible dbnow r =
     ((ie_status r = Received \<or> ie_status r = Retryable) \<and> ie_available_at r \<le> dbnow
      \<or> ie_status r = Processing \<and> (case ie_lease r of None \<Rightarrow> False | Some e \<Rightarrow> e \<le> dbnow))"

definition event_of :: "inbound_row \<Rightarrow> inbound_event" where
  "event_of r = \<lparr>ev_id = ie_id r, ev_provider = ie_provider r, ev_channel = ie_channel r,
     ev_provider_event_id = ie_event_id r, ev_type = ie_event_type r, ev_payload = ie_payload r,
     ev_source_type = coalesce (ie_source_type r), ev_source_group = coalesce (ie_source_group r),
     ev_source_user = coalesce (ie_source_user r), ev_code_hash = ie_code_hash r, ev_occurred_at = ie_occurred_at r,
     ev_attempts = ie_attempts r\<rparr>"

definition eligible_rows :: "time \<Rightarrow> nat \<Rightarrow> store \<Rightarrow> inbound_row list" where
  "eligible_rows dbnow limit s =
     take limit (sort_key (\<lambda>r. (ie_available_at r, ie_id r)) (filter (eligible dbnow) (inbound_events s)))"

definition Claim :: "nat \<Rightarrow> duration \<Rightarrow> time \<Rightarrow> store \<Rightarrow> inbound_event list \<times> store" where
  "Claim limit lease dbnow s =
     (let rows = eligible_rows dbnow limit s in
      (map event_of rows,
       s\<lparr>inbound_events := sql_update (\<lambda>r. ie_id r \<in> set (map ie_id rows))
           (\<lambda>r. r\<lparr>ie_status := Processing, ie_lease := Some (dbnow + lease div Second * Second)\<rparr>) (inbound_events s)\<rparr>))"

definition CompleteEvent :: "nat \<Rightarrow> string \<Rightarrow> string \<Rightarrow> time \<Rightarrow> store \<Rightarrow> store" where
  "CompleteEvent i status reason dbnow s =
     s\<lparr>inbound_events := sql_update (\<lambda>r. ie_id r = i)
         (\<lambda>r. r\<lparr>ie_status := status, ie_processed_at := Some dbnow, ie_lease := None,
                ie_failure_code := (if status = Ignored then Some ''unsupported_event_type'' else None),
                ie_failure_message := (if status = Ignored then Some reason else None)\<rparr>) (inbound_events s)\<rparr>"

definition FailEvent :: "inbound_event \<Rightarrow> string \<Rightarrow> string \<Rightarrow> time \<Rightarrow> store \<Rightarrow> store" where
  "FailEvent event code message dbnow s =
     (let attempt = ev_attempts event + 1;
          (delay, retry) = RetryDelay attempt;
          status = (if retry then Retryable else EventFailed)
      in s\<lparr>inbound_events := sql_update (\<lambda>r. ie_id r = ev_id event)
           (\<lambda>r. r\<lparr>ie_status := status, ie_attempts := attempt, ie_available_at := dbnow + delay div Second * Second,
                  ie_lease := None, ie_failure_code := Some code, ie_failure_message := Some message,
                  ie_processed_at := (if status = EventFailed then Some dbnow else None)\<rparr>) (inbound_events s)\<rparr>)"

definition Heartbeat :: "string \<Rightarrow> time \<Rightarrow> store \<Rightarrow> store" where
  "Heartbeat name dbnow s =
     (if row_exists (\<lambda>w. wh_name w = name) (worker_heartbeats s)
      then s\<lparr>worker_heartbeats := sql_update (\<lambda>w. wh_name w = name) (\<lambda>w. w\<lparr>wh_at := dbnow\<rparr>) (worker_heartbeats s)\<rparr>
      else s\<lparr>worker_heartbeats := worker_heartbeats s @ [\<lparr>wh_name = name, wh_at = dbnow\<rparr>]\<rparr>)"

definition event_done :: "inbound_row \<Rightarrow> bool" where
  "event_done r = (ie_status r \<in> {Processed, Ignored, EventFailed} \<and> ie_lease r = None)"

definition Cleanup :: "time \<Rightarrow> store \<Rightarrow> store" where
  "Cleanup dbnow s =
     (let s1 = s\<lparr>inbound_events := sql_update
                  (\<lambda>r. ie_payload r \<noteq> None \<and> ie_received_at r < dbnow - 30 * Day \<and> event_done r)
                  (\<lambda>r. r\<lparr>ie_payload := None\<rparr>) (inbound_events s)\<rparr>
      in s1\<lparr>inbound_events := sql_delete (\<lambda>r. ie_received_at r < dbnow - 90 * Day \<and> event_done r) (inbound_events s1)\<rparr>)"

section \<open>The worker\<close>

definition RecordOnly :: "inbound_event \<Rightarrow> (string \<times> string) result" where
  "RecordOnly e =
     (let outcome = OutcomeForType (ev_type e) in
      if outcome = Ignored then Inr (outcome, ''No Phase 0 handler for this event type'') else Inr (outcome, []))"

text \<open>\<^verbatim>\<open>process\<close> may change the database; \<^verbatim>\<open>clock i\<close> is the server's time at the i-th outcome.\<close>

fun run_events ::
  "(inbound_event \<Rightarrow> store \<Rightarrow> (string \<times> string) result \<times> store) \<Rightarrow> (nat \<Rightarrow> time) \<Rightarrow> nat \<Rightarrow> inbound_event list \<Rightarrow> store \<Rightarrow> store" where
  "run_events process clock i [] s = s"
| "run_events process clock i (e # es) s =
     (case process e s of
        (Inl _, s1) \<Rightarrow> run_events process clock (Suc i) es
                        (FailEvent e ''processing_failed'' ''Event processing failed'' (clock i) s1)
      | (Inr (outcome, reason), s1) \<Rightarrow> run_events process clock (Suc i) es (CompleteEvent (ev_id e) outcome reason (clock i) s1))"

definition RunOnce ::
  "(inbound_event \<Rightarrow> store \<Rightarrow> (string \<times> string) result \<times> store) \<Rightarrow> (nat \<Rightarrow> time) \<Rightarrow> time \<Rightarrow> store \<Rightarrow> store" where
  "RunOnce process clock dbnow s =
     (case Claim 25 Minute dbnow s of (events, s1) \<Rightarrow> run_events process clock 0 events s1)"

section \<open>Inserting events\<close>

lemma received_row_simps [simp]:
  "event_key (received_row dbnow i e) = (ev_provider e, ev_channel e, ev_provider_event_id e)"
  "ie_status (received_row dbnow i e) = Received" "ie_attempts (received_row dbnow i e) = 0"
  "ie_lease (received_row dbnow i e) = None" "ie_id (received_row dbnow i e) = i"
  by (simp_all add: received_row_def event_key_def)

lemma insert_event_cases:
  assumes "insert_event dbnow i e s = Inr (u, s')"
  obtains (skipped) "s' = s" "\<not> (ev_source_type e \<noteq> ''group'' \<or> emptyBytesToNil (ev_code_hash e) \<noteq> None
            \<or> group_connected s (ev_channel e) (ev_source_group e))"
    | (present) "s' = s" "row_exists (\<lambda>r. event_key r = (ev_provider e, ev_channel e, ev_provider_event_id e)) (inbound_events s)"
    | (new) "s' = s\<lparr>inbound_events := inbound_events s @ [received_row dbnow i e]\<rparr>"
        "\<not> row_exists (\<lambda>q. event_key q = event_key (received_row dbnow i e)) (inbound_events s)"
proof (cases "\<not> (ev_source_type e \<noteq> ''group'' \<or> emptyBytesToNil (ev_code_hash e) \<noteq> None
            \<or> group_connected s (ev_channel e) (ev_source_group e))")
  case True
  then show ?thesis using assms skipped by (simp add: insert_event_def)
next
  case False
  note step = assms [unfolded insert_event_def if_not_P [OF False]]
  show ?thesis
  proof (cases "row_exists (\<lambda>r. event_key r = (ev_provider e, ev_channel e, ev_provider_event_id e)) (inbound_events s)")
    case True
    then show ?thesis using step present by (simp split: if_splits)
  next
    case False
    then show ?thesis using step new by (simp split: if_splits)
  qed
qed

lemma insert_event_again:
  assumes "insert_event dbnow i e s = Inr (u, s')" "line_group_connections t = line_group_connections s"
    and "set (inbound_events s') \<subseteq> set (inbound_events t)"
  shows "insert_event dbnow' i' e t = Inr ((), t)"
proof -
  have same: "group_connected t c g = group_connected s c g" for c g by (simp add: group_connected_def assms(2))
  have hash: "\<not> (case emptyBytesToNil (ev_code_hash e) of None \<Rightarrow> False | Some h \<Rightarrow> length h \<noteq> 32)"
    if "\<not> \<not> (ev_source_type e \<noteq> ''group'' \<or> emptyBytesToNil (ev_code_hash e) \<noteq> None
            \<or> group_connected s (ev_channel e) (ev_source_group e))"
    using assms(1) [unfolded insert_event_def if_not_P [OF that]] by (auto split: if_splits)
  show ?thesis
    using assms(1)
  proof (cases rule: insert_event_cases)
    case skipped
    then show ?thesis by (simp add: insert_event_def same)
  next
    case present
    then have "row_exists (\<lambda>r. event_key r = (ev_provider e, ev_channel e, ev_provider_event_id e)) (inbound_events t)"
      using assms(3) by (auto simp: row_exists_iff)
    then show ?thesis using hash by (simp add: insert_event_def same)
  next
    case new
    then have "received_row dbnow i e \<in> set (inbound_events t)" using assms(3) by auto
    then have "row_exists (\<lambda>r. event_key r = (ev_provider e, ev_channel e, ev_provider_event_id e)) (inbound_events t)"
      unfolding row_exists_iff by (intro bexI [of _ "received_row dbnow i e"]) simp_all
    then show ?thesis using hash by (simp add: insert_event_def same)
  qed
qed

lemma insert_event_grows:
  assumes "insert_event dbnow i e s = Inr (u, s')"
  shows "line_group_connections s' = line_group_connections s \<and> set (inbound_events s) \<subseteq> set (inbound_events s')
    \<and> (\<exists>new. inbound_events s' = inbound_events s @ new \<and> (\<forall>r \<in> set new. ie_status r = Received \<and> ie_lease r = None))
    \<and> (unique_on (\<lambda>r. Some (event_key r)) (inbound_events s) \<longrightarrow> unique_on (\<lambda>r. Some (event_key r)) (inbound_events s'))"
  using assms
proof (cases rule: insert_event_cases)
  case new
  have "\<not> conflicts (\<lambda>r. Some (event_key r)) (received_row dbnow i e) (inbound_events s)"
    using new(2) by (auto simp: conflicts_def list_ex_iff row_exists_iff)
  then show ?thesis using new unique_on_append1 [of "\<lambda>r. Some (event_key r)" "inbound_events s" "received_row dbnow i e"] by auto
qed auto

lemma InsertEvents_grows:
  assumes "InsertEvents dbnow ids es s = Inr (u, s')"
  shows "line_group_connections s' = line_group_connections s \<and> set (inbound_events s) \<subseteq> set (inbound_events s')
    \<and> (\<exists>new. inbound_events s' = inbound_events s @ new \<and> (\<forall>r \<in> set new. ie_status r = Received \<and> ie_lease r = None))
    \<and> (unique_on (\<lambda>r. Some (event_key r)) (inbound_events s) \<longrightarrow> unique_on (\<lambda>r. Some (event_key r)) (inbound_events s'))"
  using assms
proof (induction es arbitrary: ids s)
  case (Cons e es)
  then obtain s1 where one: "insert_event dbnow (hd ids) e s = Inr ((), s1)" and rest: "InsertEvents dbnow (tl ids) es s1 = Inr (u, s')"
    by (auto split: sum.splits)
  obtain a where a: "inbound_events s1 = inbound_events s @ a" "\<forall>r \<in> set a. ie_status r = Received \<and> ie_lease r = None"
    using insert_event_grows [OF one] by blast
  obtain b where b: "inbound_events s' = inbound_events s1 @ b" "\<forall>r \<in> set b. ie_status r = Received \<and> ie_lease r = None"
    using Cons.IH [OF rest] by blast
  have "inbound_events s' = inbound_events s @ (a @ b)" "\<forall>r \<in> set (a @ b). ie_status r = Received \<and> ie_lease r = None"
    using a b by auto
  then have "\<exists>new. inbound_events s' = inbound_events s @ new \<and> (\<forall>r \<in> set new. ie_status r = Received \<and> ie_lease r = None)"
    by blast
  then show ?case using insert_event_grows [OF one] Cons.IH [OF rest] by (elim conjE) (intro conjI impI, simp_all)
qed simp

text \<open>
  \<^bold>\<open>C11.\<close>  Deliveries are idempotent: the table never holds two events with the same provider, channel and
  provider event id, an insertion only appends freshly received events, and handing in the same delivery
  again, at any time and however the provider orders its retries, changes nothing.
\<close>
theorem delivery_idempotent:
  assumes "InsertEvents dbnow ids es s = Inr (u, s')" "unique_on (\<lambda>r. Some (event_key r)) (inbound_events s)"
  shows "unique_on (\<lambda>r. Some (event_key r)) (inbound_events s')
    \<and> (\<exists>new. inbound_events s' = inbound_events s @ new \<and> (\<forall>r \<in> set new. ie_status r = Received \<and> ie_lease r = None))
    \<and> (set again \<subseteq> set es \<longrightarrow> InsertEvents later ids' again s' = Inr ((), s'))"
proof -
  have each: "insert_event later i e s' = Inr ((), s')"
    if "e \<in> set es" for e i
    using assms(1) that
  proof (induction es arbitrary: ids s)
    case (Cons f es)
    then obtain s1 where one: "insert_event dbnow (hd ids) f s = Inr ((), s1)"
      and rest: "InsertEvents dbnow (tl ids) es s1 = Inr (u, s')" by (auto split: sum.splits)
    show ?case
    proof (cases "e \<in> set es")
      case True
      then show ?thesis using Cons.IH rest by blast
    next
      case False
      then show ?thesis
        using insert_event_again [OF one, of s' later i] insert_event_grows [OF one] InsertEvents_grows [OF rest] Cons.prems(2) by auto
    qed
  qed simp
  have "InsertEvents later is as s' = Inr ((), s')" if "set as \<subseteq> set es" for as "is"
    using that by (induction as arbitrary: "is") (auto simp: each)
  then show ?thesis using InsertEvents_grows [OF assms(1)] assms(2) by blast
qed

definition demo_event :: inbound_event where
  "demo_event = \<lparr>ev_id = 0, ev_provider = ''line'', ev_channel = ''c'', ev_provider_event_id = ''e1'', ev_type = ''message'',
     ev_payload = Some ''{}'', ev_source_type = ''user'', ev_source_group = [], ev_source_user = ''U'', ev_code_hash = None,
     ev_occurred_at = 0, ev_attempts = 0\<rparr>"

theorem delivery_idempotent_witness:
  "\<exists>s'. InsertEvents 5 [1, 2] [demo_event, demo_event] empty_store = Inr ((), s')
     \<and> length (inbound_events s') = 1 \<and> InsertEvents 9 [3] [demo_event] s' = Inr ((), s')"
proof -
  obtain s' where s': "InsertEvents 5 [1, 2] [demo_event, demo_event] empty_store = Inr ((), s')" "length (inbound_events s') = 1"
    by (simp add: insert_event_def demo_event_def emptyBytesToNil_def)
  then show ?thesis using delivery_idempotent [OF s'(1), where again = "[demo_event]" and later = 9 and ids' = "[3]"] by simp
qed

section \<open>Signed deliveries\<close>

lemma parse_events_nth:
  assumes "parse_events sha256 marshal channel raw = Inr evs"
  shows "length evs = length raw \<and> (\<forall>i < length raw. parse_event sha256 marshal channel (raw ! i) = Inr (evs ! i))"
  using assms
proof (induction raw arbitrary: evs)
  case (Cons e es)
  then obtain ev evs' where "parse_event sha256 marshal channel e = Inr ev" "parse_events sha256 marshal channel es = Inr evs'"
    "evs = ev # evs'" by (auto split: sum.splits)
  then show ?case using Cons.IH by (auto simp: nth_Cons split: nat.splits)
qed simp

text \<open>
  Only deliveries signed with the channel's secret are read, each event keeps its provider id, and the
  text of a group message that carries a link code never reaches the database: the stored payload is the
  redacted message and only the code's hash is kept; every other message is stored as it came, with no hash.
\<close>
theorem delivery_authentic_and_redacted:
  assumes "ParseSignedDelivery hmac sha256 unmarshal marshal body signature secret channel = Inr evs"
  shows "StdDecodeString signature = Some (hmac secret body)
    \<and> (\<exists>raw. unmarshal body = Some raw \<and> length evs = length raw \<and> (\<forall>i < length raw.
         ev_provider_event_id (evs ! i) = le_id (raw ! i) \<and> le_id (raw ! i) \<noteq> []
         \<and> (case (if is_link_message (raw ! i) then linkCodeCandidate (le_text (raw ! i)) else None) of
              Some code \<Rightarrow> ev_payload (evs ! i) = marshal ((raw ! i)\<lparr>le_text := redacted\<rparr>) \<and> ev_code_hash (evs ! i) = Some (sha256 code)
            | None \<Rightarrow> ev_payload (evs ! i) = marshal (raw ! i) \<and> ev_code_hash (evs ! i) = None)))"
proof -
  obtain raw where sig: "StdDecodeString signature = Some (hmac secret body)" and raw: "unmarshal body = Some raw"
    and evs: "parse_events sha256 marshal channel raw = Inr evs"
    using assms by (auto simp: ParseSignedDelivery_def split: option.splits if_splits)
  have each: "ev_provider_event_id ev = le_id e \<and> le_id e \<noteq> []
      \<and> (case (if is_link_message e then linkCodeCandidate (le_text e) else None) of
           Some code \<Rightarrow> ev_payload ev = marshal (e\<lparr>le_text := redacted\<rparr>) \<and> ev_code_hash ev = Some (sha256 code)
         | None \<Rightarrow> ev_payload ev = marshal e \<and> ev_code_hash ev = None)"
    if p: "parse_event sha256 marshal channel e = Inr ev" for e ev
  proof -
    define cand where "cand = (if is_link_message e then linkCodeCandidate (le_text e) else None)"
    show ?thesis
      using p unfolding cand_def [symmetric] parse_event_def Let_def
      by (auto split: if_splits option.splits)
  qed
  show ?thesis using sig raw parse_events_nth [OF evs] each by blast
qed

definition demo_line_event :: "string \<Rightarrow> line_event" where
  "demo_line_event text = \<lparr>le_id = ''e1'', le_type = ''message'', le_timestamp = 0, le_source_type = ''group'', le_group = ''g'',
     le_user = ''u'', le_message_type = ''text'', le_text = text, le_message_id = ''m'', le_file_name = []\<rparr>"

theorem delivery_authentic_and_redacted_witness:
  "\<exists>evs. ParseSignedDelivery (\<lambda>k b. k @ b) (\<lambda>b. b) (\<lambda>b. Some [demo_line_event ''hello'']) (\<lambda>e. Some (le_text e))
       ''b'' ''a2I='' ''k'' ''c'' = Inr evs \<and> ev_payload (evs ! 0) = Some ''hello'' \<and> ev_code_hash (evs ! 0) = None"
proof -
  have sig: "StdDecodeString ''a2I='' = Some ''kb''" by code_simp
  have trim: "TrimSpace ''hello'' = ''hello''" by (rule TrimSpace_ascii_solid) (simp_all add: byte_def)
  have "trim_prefix ''hello'' link_prefix = ''hello''" by code_simp
  then have none: "linkCodeCandidate ''hello'' = None" by (simp add: linkCodeCandidate_def Let_def trim)
  obtain evs where evs: "ParseSignedDelivery (\<lambda>k b. k @ b) (\<lambda>b. b) (\<lambda>b. Some [demo_line_event ''hello'']) (\<lambda>e. Some (le_text e))
       ''b'' ''a2I='' ''k'' ''c'' = Inr evs"
    by (simp add: ParseSignedDelivery_def sig parse_event_def demo_line_event_def is_link_message_def none Let_def)
  show ?thesis
    using delivery_authentic_and_redacted [OF evs] evs none by (auto simp: demo_line_event_def is_link_message_def)
qed

lemma TrimSpace_leading_space:
  assumes "s \<noteq> []" "\<forall>c \<in> set s. 33 \<le> byte c \<and> byte c < 127"
  shows "TrimSpace (CHR '' '' # s) = s"
proof -
  have r: "runes s = map (\<lambda>c. (byte c, [c])) s" using assms(2) by (intro runes_ascii) auto
  have rs: "runes (CHR '' '' # s) = (32, '' '') # runes s" using runes_ascii_Cons [of "CHR '' ''" s] by (simp add: byte_def)
  have "is_space 32" by (simp add: is_space_def)
  moreover have "trim_left_runes is_space (runes s) = runes s"
    unfolding r using assms by (cases s) (simp_all add: trim_left_runes_def is_space_def)
  ultimately have "TrimSpace (CHR '' '' # s) = TrimSpace s"
    unfolding TrimSpace_def rs by (simp add: trim_left_runes_def)
  then show ?thesis using TrimSpace_ascii_solid [OF assms] by simp
qed

text \<open>
  The command word is not needed: a word of 16 to 128 letters, digits, hyphens and underscores counts
  as a link code when it merely starts with a space, although the same word without the space does not,
  and neither is preceded by the command the program tells its users to send.
\<close>
theorem link_code_without_command:
  assumes "16 \<le> length code" "length code \<le> 128" "\<forall>c \<in> set code. code_rune (byte c)"
  shows "linkCodeCandidate (CHR '' '' # code) = Some code \<and> linkCodeCandidate code = None"
proof -
  have bytes: "\<forall>c \<in> set code. 33 \<le> byte c \<and> byte c < 127" using assms(3) by (auto simp: code_rune_def)
  have ne: "code \<noteq> []" using assms(1) by auto
  have r: "runes code = map (\<lambda>c. (byte c, [c])) code" using bytes by (intro runes_ascii) auto
  have p: "trim_prefix code link_prefix = code"
  proof (cases code)
    case (Cons c cs)
    have "byte c < 127" using bytes Cons by simp
    moreover have "byte (byte_char 224) = 224" by simp
    ultimately have "c \<noteq> byte_char 224" by auto
    then show ?thesis using Cons by (simp add: trim_prefix_def link_prefix_def)
  qed (use ne in simp)
  have t: "TrimSpace code = code" using TrimSpace_ascii_solid [OF ne bytes] .
  have "\<not> (\<exists>(r, _) \<in> set (runes code). \<not> code_rune r)" using assms(3) by (auto simp: r)
  then show ?thesis
    using assms TrimSpace_leading_space [OF ne bytes] by (auto simp: linkCodeCandidate_def p t Let_def)
qed

theorem link_code_without_command_witness:
  "linkCodeCandidate '' abcdefghijklmnop'' = Some ''abcdefghijklmnop''"
  using link_code_without_command [of "''abcdefghijklmnop''"] by (simp add: code_rune_def byte_def)

section \<open>Processing\<close>

definition event_at :: "store \<Rightarrow> nat \<Rightarrow> inbound_row option" where
  "event_at s i = query_row (\<lambda>r. ie_id r = i) (inbound_events s)"

lemma event_at_update:
  assumes "\<And>r. ie_id (f r) = ie_id r"
  shows "event_at (s\<lparr>inbound_events := sql_update P f (inbound_events s)\<rparr>) i = map_option (\<lambda>r. if P r then f r else r) (event_at s i)"
  by (simp add: event_at_def query_row_sql_update assms)

lemma event_at_SomeD: "event_at s i = Some r \<Longrightarrow> r \<in> set (inbound_events s) \<and> ie_id r = i"
  unfolding event_at_def by (drule query_row_SomeD) simp

definition completed_event :: "string \<Rightarrow> string \<Rightarrow> time \<Rightarrow> inbound_row \<Rightarrow> inbound_row" where
  "completed_event status reason dbnow r =
     r\<lparr>ie_status := status, ie_processed_at := Some dbnow, ie_lease := None,
       ie_failure_code := (if status = Ignored then Some ''unsupported_event_type'' else None),
       ie_failure_message := (if status = Ignored then Some reason else None)\<rparr>"

definition failed_event :: "nat \<Rightarrow> string \<Rightarrow> string \<Rightarrow> time \<Rightarrow> inbound_row \<Rightarrow> inbound_row" where
  "failed_event attempt code message dbnow r =
     (let status = (if snd (RetryDelay attempt) then Retryable else EventFailed) in
      r\<lparr>ie_status := status, ie_attempts := attempt, ie_available_at := dbnow + fst (RetryDelay attempt) div Second * Second,
        ie_lease := None, ie_failure_code := Some code, ie_failure_message := Some message,
        ie_processed_at := (if status = EventFailed then Some dbnow else None)\<rparr>)"

lemma failed_event_simps [simp]:
  "ie_id (failed_event n c m t r) = ie_id r" "ie_lease (failed_event n c m t r) = None"
  "ie_id (completed_event st re t r) = ie_id r" "ie_lease (completed_event st re t r) = None"
  "ie_status (completed_event st re t r) = st"
  by (simp_all add: failed_event_def completed_event_def Let_def)

lemma event_at_Complete:
  "event_at (CompleteEvent i status reason dbnow s) k =
     map_option (\<lambda>r. if ie_id r = i then completed_event status reason dbnow r else r) (event_at s k)"
  unfolding CompleteEvent_def completed_event_def by (subst event_at_update) simp_all

lemma event_at_Fail:
  "event_at (FailEvent e code message dbnow s) k =
     map_option (\<lambda>r. if ie_id r = ev_id e then failed_event (ev_attempts e + 1) code message dbnow r else r) (event_at s k)"
  unfolding FailEvent_def failed_event_def Let_def split_beta by (subst event_at_update) simp_all

lemma event_at_Claim:
  "event_at (snd (Claim limit lease dbnow s)) k =
     map_option (\<lambda>r. if ie_id r \<in> set (map ie_id (eligible_rows dbnow limit s))
        then r\<lparr>ie_status := Processing, ie_lease := Some (dbnow + lease div Second * Second)\<rparr> else r) (event_at s k)"
  unfolding Claim_def Let_def snd_conv by (subst event_at_update) simp_all

lemma eligible_rows_set: "r \<in> set (eligible_rows dbnow limit s) \<Longrightarrow> r \<in> set (inbound_events s) \<and> eligible dbnow r"
  unfolding eligible_rows_def by (drule in_set_takeD) simp

lemma eligible_rows_distinct:
  assumes "distinct (map ie_id (inbound_events s))" shows "distinct (map ie_id (eligible_rows dbnow limit s))"
proof -
  have "distinct (map ie_id (filter (eligible dbnow) (inbound_events s)))" using assms by (rule distinct_map_filter)
  then have "distinct (map ie_id (sort_key (\<lambda>r. (ie_available_at r, ie_id r)) (filter (eligible dbnow) (inbound_events s))))"
    by (auto simp: distinct_map)
  then show ?thesis unfolding eligible_rows_def by (metis distinct_take take_map)
qed

lemma event_at_row:
  assumes "distinct (map ie_id (inbound_events s))" "r \<in> set (inbound_events s)"
  shows "event_at s (ie_id r) = Some r"
  using assms by (simp add: event_at_def unique_on_query_row_iff unique_on_distinct)

lemma run_events_other:
  assumes "\<And>e s. inbound_events (snd (process e s)) = inbound_events s" "k \<notin> ev_id ` set es"
  shows "event_at (run_events process clock i es s) k = event_at s k"
  using assms(2)
proof (induction es arbitrary: i s)
  case (Cons e es)
  have same: "event_at (snd (process e s)) k = event_at s k" by (simp add: event_at_def assms(1))
  obtain out s1 where p: "process e s = (out, s1)" by (cases "process e s")
  have k: "event_at s1 k = event_at s k" using same p by simp
  have "map_option (\<lambda>r. if ie_id r = ev_id e then g r else r) (event_at s k) = event_at s k" for g
    using Cons.prems event_at_SomeD [of s k] by (cases "event_at s k") auto
  then show ?case
    using Cons.IH Cons.prems k by (cases out) (auto simp: p event_at_Complete event_at_Fail)
qed simp

lemma run_events_settles:
  assumes "\<And>e s. inbound_events (snd (process e s)) = inbound_events s"
    and "e \<in> set es" "distinct (map ev_id es)" "event_at s (ev_id e) = Some r"
  shows "\<exists>s0 t. event_at (run_events process clock i es s) (ev_id e) =
     Some (case fst (process e s0) of
             Inl _ \<Rightarrow> failed_event (ev_attempts e + 1) ''processing_failed'' ''Event processing failed'' t r
           | Inr (status, reason) \<Rightarrow> completed_event status reason t r)"
  using assms(2-4)
proof (induction es arbitrary: i s)
  case (Cons f es)
  obtain out s1 where p: "process f s = (out, s1)" by (cases "process f s")
  have k: "event_at s1 j = event_at s j" for j using assms(1) [of f s] by (simp add: event_at_def p)
  show ?case
  proof (cases "e = f")
    case True
    then have "ev_id e \<notin> ev_id ` set es" using Cons.prems(2) by auto
    then have "event_at (run_events process clock i (f # es) s) (ev_id e) =
      Some (case out of Inl _ \<Rightarrow> failed_event (ev_attempts e + 1) ''processing_failed'' ''Event processing failed'' (clock i) r
                      | Inr (status, reason) \<Rightarrow> completed_event status reason (clock i) r)"
      using run_events_other [OF assms(1)] Cons.prems(3) k True event_at_SomeD [OF Cons.prems(3)]
      by (auto simp: p event_at_Complete event_at_Fail split: sum.split)
    then show ?thesis using p True by (metis fst_conv)
  next
    case False
    then have in_es: "e \<in> set es" using Cons.prems(1) by simp
    have "ev_id e \<noteq> ev_id f" using imageI [OF in_es, of ev_id] Cons.prems(2) by auto
    note e = in_es this
    define s2 where "s2 = (case out of Inl _ \<Rightarrow> FailEvent f ''processing_failed'' ''Event processing failed'' (clock i) s1
                            | Inr (status, reason) \<Rightarrow> CompleteEvent (ev_id f) status reason (clock i) s1)"
    have "event_at s2 (ev_id e) = Some r"
      using Cons.prems(3) k e event_at_SomeD [OF Cons.prems(3)]
      by (auto simp: s2_def event_at_Complete event_at_Fail split: sum.split prod.split)
    moreover have "run_events process clock i (f # es) s = run_events process clock (Suc i) es s2"
      by (cases out) (auto simp: p s2_def)
    ultimately show ?thesis using Cons.IH [OF e(1)] Cons.prems(2) by simp
  qed
qed simp



end
