(* ===== verification/Deliveries.thy ===== *)
theory Deliveries
  imports Work Inbound "HOL-Library.Multiset"
begin

text \<open>
  Notifications: the transactions of src/api/internal/postgres/work_worker.go that turn due dates and domain
  events into rows of \<^verbatim>\<open>reminders\<close>, \<^verbatim>\<open>notifications\<close> and \<^verbatim>\<open>notification_deliveries\<close>, and the loop of
  src/api/internal/worker/work.go that sends the deliveries to LINE.  The sender is an argument, and so is the
  order in which the goroutines of a cycle finish.  \<^verbatim>\<open>dbnow\<close> is the server's \<^verbatim>\<open>now()\<close>.
\<close>

section \<open>Inserts that skip known keys\<close>

text \<open>\<^verbatim>\<open>INSERT ... SELECT ... ON CONFLICT (key) DO NOTHING\<close> with a primary key besides: the number of rows
  inserted and the table.\<close>

fun insert_each :: "('r \<Rightarrow> 'k) \<Rightarrow> ('r \<Rightarrow> id) \<Rightarrow> string \<Rightarrow> 'r list \<Rightarrow> 'r list \<Rightarrow> (nat \<times> 'r list) result" where
  "insert_each key pk name [] table = Inr (0, table)"
| "insert_each key pk name (r # rs) table =
     (if row_exists (\<lambda>q. key q = key r) table then insert_each key pk name rs table
      else if row_exists (\<lambda>q. pk q = pk r) table then Inl (UniqueViolation name)
      else case insert_each key pk name rs (table @ [r]) of
        Inl e \<Rightarrow> Inl e
      | Inr (n, table') \<Rightarrow> Inr (Suc n, table'))"

section \<open>Reminders\<close>

definition reminder_title :: string where
  "reminder_title = map byte_char
    [0xE0, 0xB8, 0x96, 0xE0, 0xB8, 0xB6, 0xE0, 0xB8, 0x87, 0xE0, 0xB8, 0x81, 0xE0, 0xB8, 0xB3, 0xE0, 0xB8, 0xAB, 0xE0, 0xB8, 0x99, 0xE0, 0xB8, 0x94,
     0xE0, 0xB8, 0x87, 0xE0, 0xB8, 0xB2, 0xE0, 0xB8, 0x99]"

definition assignment_title :: string where
  "assignment_title = map byte_char
    [0xE0, 0xB8, 0x84, 0xE0, 0xB8, 0xB8, 0xE0, 0xB8, 0x93, 0xE0, 0xB9, 0x84, 0xE0, 0xB8, 0x94, 0xE0, 0xB9, 0x89, 0xE0, 0xB8, 0xA3, 0xE0, 0xB8, 0xB1,
     0xE0, 0xB8, 0x9A, 0xE0, 0xB8, 0xA1, 0xE0, 0xB8, 0xAD, 0xE0, 0xB8, 0x9A, 0xE0, 0xB8, 0xAB, 0xE0, 0xB8, 0xA1, 0xE0, 0xB8, 0xB2, 0xE0, 0xB8, 0xA2,
     0xE0, 0xB8, 0x87, 0xE0, 0xB8, 0xB2, 0xE0, 0xB8, 0x99]"

definition change_title :: string where
  "change_title = map byte_char
    [0xE0, 0xB8, 0x87, 0xE0, 0xB8, 0xB2, 0xE0, 0xB8, 0x99, 0xE0, 0xB8, 0x97, 0xE0, 0xB8, 0xB5, 0xE0, 0xB9, 0x88, 0xE0, 0xB8, 0x84, 0xE0, 0xB8, 0xB8,
     0xE0, 0xB8, 0x93, 0xE0, 0xB8, 0x95, 0xE0, 0xB8, 0xB4, 0xE0, 0xB8, 0x94, 0xE0, 0xB8, 0x95, 0xE0, 0xB8, 0xB2, 0xE0, 0xB8, 0xA1, 0xE0, 0xB8, 0xA1,
     0xE0, 0xB8, 0xB5, 0xE0, 0xB8, 0x81, 0xE0, 0xB8, 0xB2, 0xE0, 0xB8, 0xA3, 0xE0, 0xB9, 0x80, 0xE0, 0xB8, 0x9B, 0xE0, 0xB8, 0xA5, 0xE0, 0xB8, 0xB5,
     0xE0, 0xB9, 0x88, 0xE0, 0xB8, 0xA2, 0xE0, 0xB8, 0x99, 0xE0, 0xB9, 0x81, 0xE0, 0xB8, 0x9B, 0xE0, 0xB8, 0xA5, 0xE0, 0xB8, 0x87]"

definition task_link :: "id \<Rightarrow> id \<Rightarrow> string" where
  "task_link org i = ''/o/'' @ org @ ''/tasks/'' @ i"

definition reminder_key :: "reminder_row \<Rightarrow> id \<times> id \<times> id \<times> string \<times> string" where
  "reminder_key r = (re_org r, re_task r, re_recipient r, re_due_on r, re_milestone r)"

definition notification_key :: "notification_row \<Rightarrow> id \<times> id \<times> string" where
  "notification_key n = (n_org n, n_recipient n, n_key n)"

definition delivery_key :: "delivery_row \<Rightarrow> id \<times> string \<times> string" where
  "delivery_key d = (nd_org d, nd_channel d, nd_key d)"

definition milestones :: "(string \<times> int) list" where
  "milestones = [(''day_before'', - 1), (''due_day'', 0), (''day_after'', 1)]"

text \<open>The recipients of a task's reminders: its assignee and its watchers, each once.\<close>

definition reminded_users :: "store \<Rightarrow> task_row \<Rightarrow> id list" where
  "reminded_users s t =
     remdups ((case t_assignee t of None \<Rightarrow> [] | Some u \<Rightarrow> [u])
       @ map w_user (filter (\<lambda>w. w_org w = t_org t \<and> w_task w = t_id t) (task_watchers s)))"

definition reminder_of :: "server \<Rightarrow> time \<Rightarrow> string \<Rightarrow> task_row \<Rightarrow> string \<Rightarrow> id \<Rightarrow> string \<times> int \<Rightarrow> reminder_row" where
  "reminder_of sv now zone t due user = (\<lambda>(milestone, offset).
     \<lparr>re_id = md5 sv (t_org t @ t_id t @ user @ due @ milestone), re_org = t_org t, re_task = t_id t, re_recipient = user,
      re_due_on = due, re_milestone = milestone, re_scheduled_for = from_local sv zone due offset (9 * Hour), re_created_at = now\<rparr>)"

definition due_reminders :: "server \<Rightarrow> time \<Rightarrow> store \<Rightarrow> reminder_row list" where
  "due_reminders sv now s =
     filter (\<lambda>r. re_scheduled_for r \<le> now)
       (concat (map (\<lambda>t. case (t_due_on t, organization_of (t_org t) s) of
            (Some due, Some g) \<Rightarrow>
              concat (map (\<lambda>u. map (reminder_of sv now (o_timezone g) t due u) milestones) (reminded_users s t))
          | _ \<Rightarrow> []) (filter task_active (tasks s))))"

definition preference_of :: "id \<Rightarrow> id \<Rightarrow> string \<Rightarrow> store \<Rightarrow> preference_row option" where
  "preference_of org user category s =
     query_row (\<lambda>p. np_org p = org \<and> np_user p = user \<and> np_category p = category) (notification_preferences s)"

text \<open>\<^verbatim>\<open>coalesce(p.web_mode, fallback)\<close> and \<^verbatim>\<open>coalesce(p.line_mode, 'Off')\<close>.\<close>

definition web_mode :: "string \<Rightarrow> preference_row option \<Rightarrow> string" where
  "web_mode fallback p = (case p of None \<Rightarrow> fallback | Some p \<Rightarrow> np_web p)"

definition line_mode :: "preference_row option \<Rightarrow> string" where
  "line_mode p = (case p of None \<Rightarrow> ''Off'' | Some p \<Rightarrow> np_line p)"

definition notification :: "id \<Rightarrow> id \<Rightarrow> id \<Rightarrow> string \<Rightarrow> string \<Rightarrow> string \<Rightarrow> string \<Rightarrow> string \<Rightarrow> time \<Rightarrow> notification_row" where
  "notification i org user category key title link mode now =
     \<lparr>n_id = i, n_org = org, n_recipient = user, n_category = category, n_key = key, n_title = title, n_link = link,
      n_mode = mode, n_created_at = now, n_read_at = None, n_digested_at = None\<rparr>"

definition reminder_notifications :: "server \<Rightarrow> time \<Rightarrow> store \<Rightarrow> notification_row list" where
  "reminder_notifications sv now s =
     concat (map (\<lambda>r.
       let p = preference_of (re_org r) (re_recipient r) ''DueReminder'' s in
       if re_scheduled_for r \<le> now \<and> (web_mode ''Immediate'' p \<noteq> ''Off'' \<or> line_mode p \<noteq> ''Off'')
       then [notification (md5 sv (''notification:'' @ re_id r)) (re_org r) (re_recipient r) ''DueReminder''
               (''reminder:'' @ re_id r) reminder_title (task_link (re_org r) (re_task r)) (web_mode ''Immediate'' p) now]
       else []) (reminders s))"

definition line_identity :: "id \<Rightarrow> identity_row \<Rightarrow> bool" where
  "line_identity user a = (ai_user a = user \<and> ai_provider a = ''line'' \<and> ai_disabled_at a = None)"

definition new_delivery :: "id \<Rightarrow> id \<Rightarrow> id \<Rightarrow> string \<Rightarrow> time \<Rightarrow> delivery_row" where
  "new_delivery i org n key now =
     \<lparr>nd_id = i, nd_org = org, nd_notification = n, nd_channel = ''LINE'', nd_key = key, nd_status = ''Pending'', nd_attempts = 0,
      nd_available_at = now, nd_lease = None, nd_delivered_at = None, nd_failure_code = None\<rparr>"

text \<open>The pattern is a prefix followed by the wildcard, so \<^verbatim>\<open>LIKE\<close> tests the prefix.\<close>

definition wants_line :: "string \<Rightarrow> store \<Rightarrow> notification_row \<Rightarrow> bool" where
  "wants_line prefix s n =
     (has_prefix (n_key n) prefix
      \<and> (\<exists>p \<in> set_option (preference_of (n_org n) (n_recipient n) (n_category n) s). np_line p = ''Immediate'' \<and> np_updated_at p \<le> n_created_at n)
      \<and> row_exists (line_identity (n_recipient n)) (auth_identities s))"

definition queueImmediateLINE :: "server \<Rightarrow> string \<Rightarrow> time \<Rightarrow> (unit, store) txn" where
  "queueImmediateLINE sv prefix now s =
     (case insert_each delivery_key nd_id ''notification_deliveries_pkey''
        (map (\<lambda>n. new_delivery (md5 sv (''line:'' @ n_key n)) (n_org n) (n_id n) (''line:'' @ n_key n) now)
          (filter (wants_line prefix s) (notifications s))) (notification_deliveries s) of
        Inl e \<Rightarrow> Inl e
      | Inr (_, ds) \<Rightarrow> Inr ((), s\<lparr>notification_deliveries := ds\<rparr>))"

definition ScheduleReminders :: "server \<Rightarrow> time \<Rightarrow> (nat, store) txn" where
  "ScheduleReminders sv now s =
     (case insert_each reminder_key re_id ''reminders_pkey'' (due_reminders sv now s) (reminders s) of
        Inl e \<Rightarrow> Inl e
      | Inr (inserted, rs) \<Rightarrow>
     (let s1 = s\<lparr>reminders := rs\<rparr> in
      case insert_each notification_key n_id ''notifications_pkey'' (reminder_notifications sv now s1) (notifications s1) of
        Inl e \<Rightarrow> Inl e
      | Inr (_, ns) \<Rightarrow>
     (case queueImmediateLINE sv ''reminder:'' now (s1\<lparr>notifications := ns\<rparr>) of
        Inl e \<Rightarrow> Inl e
      | Inr (_, s2) \<Rightarrow> Inr (inserted, s2))))"

section \<open>Domain events\<close>

text \<open>The pending events and those whose lease ran out, oldest first.\<close>

definition event_eligible :: "time \<Rightarrow> domain_event_row \<Rightarrow> bool" where
  "event_eligible dbnow e =
     (de_state e = ''Pending'' \<and> de_available_at e \<le> dbnow
      \<or> de_state e = Processing \<and> (case de_lease e of None \<Rightarrow> False | Some l \<Rightarrow> l \<le> dbnow))"

definition eligible_events :: "time \<Rightarrow> nat \<Rightarrow> store \<Rightarrow> domain_event_row list" where
  "eligible_events dbnow limit s =
     take limit (sort_key (\<lambda>e. (de_available_at e, de_id e)) (filter (event_eligible dbnow) (domain_events s)))"

text \<open>The recipients of an event and their category: the four branches of the \<^verbatim>\<open>UNION\<close>.\<close>

definition named_user :: "domain_event_row \<Rightarrow> string \<Rightarrow> id option" where
  "named_user e k = (case json_text (de_payload e) k of None \<Rightarrow> None | Some u \<Rightarrow> null_if_empty u)"

definition task_watchers_of :: "store \<Rightarrow> domain_event_row \<Rightarrow> id list" where
  "task_watchers_of s e = map w_user (filter (\<lambda>w. w_org w = de_org e \<and> w_task w = de_task e) (task_watchers s))"

definition assignee_of :: "store \<Rightarrow> domain_event_row \<Rightarrow> id option list" where
  "assignee_of s e = map t_assignee (filter (task_at (de_org e) (de_task e)) (tasks s))"

definition event_recipients :: "store \<Rightarrow> domain_event_row \<Rightarrow> (id option \<times> string) list" where
  "event_recipients s e =
     remdups
      ((if de_type e \<in> {''task.created'', ''task.assigned''} then [(named_user e ''assignee_user_id'', ''Assignment'')]
        else if de_type e = ''task.watcher_added'' then [(named_user e ''watcher_user_id'', ''TaskChange'')] else [])
       @ (if de_type e \<in> {''task.assigned'', ''task.unassigned''}
          then (named_user e ''previous_assignee_user_id'', ''TaskChange'') # map (\<lambda>u. (Some u, ''TaskChange'')) (task_watchers_of s e)
          else [])
       @ (if de_type e \<in> {''task.details_changed'', ''task.due_changed'', ''task.priority_changed'', ''task.status_changed''}
          then map (\<lambda>u. (u, ''TaskChange'')) (assignee_of s e @ map Some (task_watchers_of s e)) else []))"

definition default_mode :: "string \<Rightarrow> string" where
  "default_mode category = (if category = ''Assignment'' then ''Immediate'' else ''Digest'')"

definition event_key_of :: "domain_event_row \<Rightarrow> id \<Rightarrow> string" where
  "event_key_of e user = Itoa (int (de_id e)) @ '':'' @ user"

definition event_notification :: "server \<Rightarrow> time \<Rightarrow> store \<Rightarrow> domain_event_row \<Rightarrow> id option \<times> string \<Rightarrow> notification_row list" where
  "event_notification sv dbnow s e = (\<lambda>(recipient, category).
     case recipient of
       None \<Rightarrow> []
     | Some user \<Rightarrow>
         let p = preference_of (de_org e) user category s; mode = web_mode (default_mode category) p in
         if user \<noteq> de_actor e \<and> (mode \<noteq> ''Off'' \<or> line_mode p \<noteq> ''Off'') \<and> memberExists (de_org e) user s
         then [notification (md5 sv (''notification:'' @ event_key_of e user)) (de_org e) user category (''event:'' @ event_key_of e user)
                 (if category = ''Assignment'' then assignment_title else change_title) (task_link (de_org e) (de_task e)) mode dbnow]
         else [])"

definition event_notifications :: "server \<Rightarrow> time \<Rightarrow> domain_event_row list \<Rightarrow> store \<Rightarrow> notification_row list" where
  "event_notifications sv dbnow es s =
     concat (map (\<lambda>e. concat (map (event_notification sv dbnow s e) (event_recipients s e))) es)"

text \<open>\<^verbatim>\<open>clock\<close> is the worker's clock.  The claim of the events and their release are one transaction, so nobody sees
  them as \<^verbatim>\<open>Processing\<close>.\<close>

definition ProcessDomainEvents :: "server \<Rightarrow> time \<Rightarrow> time \<Rightarrow> nat \<Rightarrow> duration \<Rightarrow> (nat, store) txn" where
  "ProcessDomainEvents sv clock dbnow limit lease s =
     (let es = eligible_events dbnow limit s; ids = map de_id es in
      if es = [] then Inr (0, s)
      else
        let s1 = s\<lparr>domain_events := sql_update (\<lambda>e. de_id e \<in> set ids)
                     (\<lambda>e. e\<lparr>de_state := Processing, de_lease := Some (dbnow + lease div Second * Second)\<rparr>) (domain_events s)\<rparr>
        in case insert_each notification_key n_id ''notifications_pkey'' (event_notifications sv dbnow es s1) (notifications s1) of
          Inl e \<Rightarrow> Inl e
        | Inr (_, ns) \<Rightarrow>
       (case queueImmediateLINE sv ''event:'' clock (s1\<lparr>notifications := ns\<rparr>) of
          Inl e \<Rightarrow> Inl e
        | Inr (_, s2) \<Rightarrow>
            Inr (length es, s2\<lparr>domain_events := sql_update (\<lambda>e. de_id e \<in> set ids)
              (\<lambda>e. e\<lparr>de_state := Processed, de_processed_at := Some dbnow, de_lease := None\<rparr>) (domain_events s2)\<rparr>)))"

section \<open>Digests\<close>

definition after_nine :: "server \<Rightarrow> time \<Rightarrow> organization_row \<Rightarrow> bool" where
  "after_nine sv now g = (9 * Hour \<le> time_of_day sv (o_timezone g) now)"

definition digest_wanted :: "server \<Rightarrow> time \<Rightarrow> store \<Rightarrow> notification_row \<Rightarrow> bool" where
  "digest_wanted sv now s n =
     (n_digested_at n = None
      \<and> (\<exists>g \<in> set_option (organization_of (n_org n) s). after_nine sv now g)
      \<and> (\<exists>p \<in> set_option (preference_of (n_org n) (n_recipient n) (n_category n) s).
           np_line p = ''Digest'' \<and> np_updated_at p \<le> n_created_at n)
      \<and> row_exists (line_identity (n_recipient n)) (auth_identities s))"

definition digest_date :: "server \<Rightarrow> store \<Rightarrow> notification_row \<Rightarrow> string" where
  "digest_date sv s n =
     (case organization_of (n_org n) s of None \<Rightarrow> [] | Some g \<Rightarrow> local_date sv (o_timezone g) (n_created_at n))"

text \<open>\<^verbatim>\<open>DISTINCT ON\<close> keeps the first row of each group in the order of the query.\<close>

fun distinct_on :: "('r \<Rightarrow> 'k) \<Rightarrow> 'r list \<Rightarrow> 'r list" where
  "distinct_on key [] = []"
| "distinct_on key (r # rs) = r # distinct_on key (filter (\<lambda>q. key q \<noteq> key r) rs)"

definition digest_group :: "server \<Rightarrow> store \<Rightarrow> notification_row \<Rightarrow> id \<times> id \<times> string" where
  "digest_group sv s n = (n_org n, n_recipient n, digest_date sv s n)"

definition digest_candidates :: "server \<Rightarrow> time \<Rightarrow> store \<Rightarrow> notification_row list" where
  "digest_candidates sv now s =
     distinct_on (digest_group sv s)
       (sort_key (\<lambda>n. (digest_group sv s n, n_created_at n, n_id n)) (filter (digest_wanted sv now s) (notifications s)))"

definition digest_delivery :: "server \<Rightarrow> time \<Rightarrow> store \<Rightarrow> notification_row \<Rightarrow> delivery_row" where
  "digest_delivery sv now s n =
     new_delivery (md5 sv (''line-digest:'' @ n_org n @ '':'' @ n_recipient n @ '':'' @ digest_date sv s n)) (n_org n) (n_id n)
       (''digest:'' @ n_recipient n @ '':'' @ digest_date sv s n) now"

definition digestible :: "server \<Rightarrow> time \<Rightarrow> store \<Rightarrow> notification_row \<Rightarrow> bool" where
  "digestible sv now s n =
     (n_digested_at n = None
      \<and> (\<exists>g \<in> set_option (organization_of (n_org n) s). after_nine sv now g)
      \<and> (\<exists>p \<in> set_option (preference_of (n_org n) (n_recipient n) (n_category n) s).
           np_updated_at p \<le> n_created_at n \<and> (np_web p = ''Digest'' \<or> np_line p = ''Digest'')))"

definition ProcessDigests :: "server \<Rightarrow> time \<Rightarrow> (nat, store) txn" where
  "ProcessDigests sv now s =
     (case insert_each delivery_key nd_id ''notification_deliveries_pkey''
        (map (digest_delivery sv now s) (digest_candidates sv now s)) (notification_deliveries s) of
        Inl e \<Rightarrow> Inl e
      | Inr (inserted, ds) \<Rightarrow>
          Inr (inserted, s\<lparr>notification_deliveries := ds,
                 notifications := sql_update (digestible sv now s) (\<lambda>n. n\<lparr>n_digested_at := Some now\<rparr>) (notifications s)\<rparr>))"

section \<open>LINE deliveries\<close>

record line_delivery =
  ld_id :: id
  ld_org :: id
  ld_to :: string
  ld_org_name :: string
  ld_link :: string
  ld_attempts :: nat

definition delivery_eligible :: "time \<Rightarrow> delivery_row \<Rightarrow> bool" where
  "delivery_eligible dbnow d =
     ((nd_status d = ''Pending'' \<or> nd_status d = Retryable) \<and> nd_available_at d \<le> dbnow
      \<or> nd_status d = Processing \<and> (case nd_lease d of None \<Rightarrow> False | Some l \<Rightarrow> l \<le> dbnow))"

definition eligible_deliveries :: "time \<Rightarrow> nat \<Rightarrow> store \<Rightarrow> delivery_row list" where
  "eligible_deliveries dbnow limit s =
     take limit (sort_key (\<lambda>d. (nd_available_at d, nd_id d)) (filter (delivery_eligible dbnow) (notification_deliveries s)))"

text \<open>The joins of a claimed delivery: its notification, the organization and the recipient's enabled LINE
  identities.\<close>

definition claimed_delivery :: "store \<Rightarrow> delivery_row \<Rightarrow> line_delivery list" where
  "claimed_delivery s d =
     (case (query_row (\<lambda>n. n_org n = nd_org d \<and> n_id n = nd_notification d) (notifications s), organization_of (nd_org d) s) of
        (Some n, Some g) \<Rightarrow>
          map (\<lambda>a. \<lparr>ld_id = nd_id d, ld_org = nd_org d, ld_to = ai_subject a, ld_org_name = o_name g, ld_link = n_link n,
                    ld_attempts = nd_attempts d\<rparr>) (filter (line_identity (n_recipient n)) (auth_identities s))
      | _ \<Rightarrow> [])"

definition ClaimLINEDeliveries :: "nat \<Rightarrow> duration \<Rightarrow> time \<Rightarrow> store \<Rightarrow> line_delivery list \<times> store" where
  "ClaimLINEDeliveries limit lease dbnow s =
     (let ds = eligible_deliveries dbnow limit s in
      (concat (map (claimed_delivery s) ds),
       s\<lparr>notification_deliveries := sql_update (\<lambda>d. nd_id d \<in> set (map nd_id ds))
           (\<lambda>d. d\<lparr>nd_status := Processing, nd_lease := Some (dbnow + lease div Second * Second)\<rparr>) (notification_deliveries s)\<rparr>))"

definition CompleteLINEDelivery :: "id \<Rightarrow> time \<Rightarrow> store \<Rightarrow> store" where
  "CompleteLINEDelivery i now s =
     s\<lparr>notification_deliveries := sql_update (\<lambda>d. nd_id d = i)
         (\<lambda>d. d\<lparr>nd_status := ''Delivered'', nd_delivered_at := Some now, nd_lease := None\<rparr>) (notification_deliveries s)\<rparr>"

definition FailLINEDelivery :: "line_delivery \<Rightarrow> string \<Rightarrow> duration \<Rightarrow> bool \<Rightarrow> time \<Rightarrow> store \<Rightarrow> store" where
  "FailLINEDelivery delivery code delay retry dbnow s =
     s\<lparr>notification_deliveries := sql_update (\<lambda>d. nd_id d = ld_id delivery)
         (\<lambda>d. d\<lparr>nd_status := (if retry then Retryable else ''Failed''), nd_attempts := nd_attempts d + 1,
                nd_available_at := dbnow + delay div Second * Second, nd_lease := None, nd_failure_code := Some code\<rparr>)
         (notification_deliveries s)\<rparr>"

section \<open>The worker\<close>

definition line_delays :: "duration list" where
  "line_delays = [Minute, 5 * Minute, 30 * Minute, 2 * Hour, 12 * Hour]"

definition lineRetry :: "nat \<Rightarrow> duration \<times> bool" where
  "lineRetry attempt =
     (if attempt < 1 \<or> attempt > length line_delays then (0, False) else (line_delays ! (attempt - 1), True))"

text \<open>What a goroutine does with one delivery: \<^verbatim>\<open>send\<close> answers with an error or none.\<close>

definition deliver :: "(line_delivery \<Rightarrow> err option) \<Rightarrow> time \<Rightarrow> time \<Rightarrow> line_delivery \<Rightarrow> store \<Rightarrow> store" where
  "deliver send now dbnow d s =
     (case send d of
        None \<Rightarrow> CompleteLINEDelivery (ld_id d) now s
      | Some e \<Rightarrow>
          (case (if e = Work_ErrPermanentDelivery then (0, False) else lineRetry (ld_attempts d + 1)) of
             (delay, retry) \<Rightarrow> FailLINEDelivery d ''provider_failed'' delay retry dbnow s))"

record work_result =
  wr_reminders :: nat
  wr_events :: nat
  wr_digests :: nat
  wr_claimed :: nat

text \<open>One cycle.  \<^verbatim>\<open>finish\<close> is the order in which the goroutines reach the database, a permutation of the claimed
  deliveries; \<^verbatim>\<open>clock\<close> gives the times of the statements.  An error ends the cycle, what was committed stays.\<close>

record cycle_clock =
  cy_now :: time
  cy_events :: time
  cy_claim :: time
  cy_fail :: time

definition send_claimed ::
  "(line_delivery \<Rightarrow> err option) \<Rightarrow> (line_delivery list \<Rightarrow> line_delivery list) \<Rightarrow> cycle_clock \<Rightarrow> store \<Rightarrow> nat \<times> store" where
  "send_claimed send finish c s =
     (case ClaimLINEDeliveries 100 Minute (cy_claim c) s of
        (ds, s1) \<Rightarrow> (length ds, fold (deliver send (cy_now c) (cy_fail c)) (finish ds) s1))"

definition RunWorkOnce ::
  "server \<Rightarrow> (line_delivery \<Rightarrow> err option) \<Rightarrow> (line_delivery list \<Rightarrow> line_delivery list) \<Rightarrow> cycle_clock \<Rightarrow> store
    \<Rightarrow> work_result result \<times> store" where
  "RunWorkOnce sv send finish c s =
     (case ScheduleReminders sv (cy_now c) s of
        Inl e \<Rightarrow> (Inl e, s)
      | Inr (reminded, s1) \<Rightarrow>
     (case ProcessDomainEvents sv (cy_now c) (cy_events c) 100 Minute s1 of
        Inl e \<Rightarrow> (Inl e, s1)
      | Inr (events, s2) \<Rightarrow>
     (case ProcessDigests sv (cy_now c) s2 of
        Inl e \<Rightarrow> (Inl e, s2)
      | Inr (digests, s3) \<Rightarrow>
     (case send_claimed send finish c s3 of
        (claimed, s4) \<Rightarrow>
          (Inr \<lparr>wr_reminders = reminded, wr_events = events, wr_digests = digests, wr_claimed = claimed\<rparr>, s4)))))"

definition WorkMetrics :: "store \<Rightarrow> (string \<times> int) list" where
  "WorkMetrics s =
     [(''pending_events'', count_where (\<lambda>e. de_state e = ''Pending'' \<or> de_state e = Processing) (domain_events s)),
      (''pending_line'', count_where (\<lambda>d. nd_status d = ''Pending'' \<or> nd_status d = Retryable \<or> nd_status d = Processing)
         (notification_deliveries s)),
      (''failed_line'', count_where (\<lambda>d. nd_status d = ''Failed'') (notification_deliveries s)),
      (''queued_exports'', count_where (\<lambda>e. ej_status e = ''Queued'' \<or> ej_status e = ''Running'') (export_jobs s))]"

section \<open>Inserting again\<close>

lemma insert_each_known:
  "(\<And>r. r \<in> set rs \<Longrightarrow> key r \<in> key ` set table) \<Longrightarrow> insert_each key pk name rs table = Inr (0, table)"
proof (induction rs)
  case (Cons r rs)
  then have "row_exists (\<lambda>q. key q = key r) table" by (force simp: row_exists_iff)
  then show ?case using Cons by simp
qed simp

lemma insert_eachD:
  "insert_each key pk name rs table = Inr (n, table') \<Longrightarrow>
     key ` set rs \<subseteq> key ` set table' \<and> set table \<subseteq> set table' \<and> length table' = length table + n"
proof (induction rs arbitrary: table n)
  case (Cons r rs)
  show ?case
  proof (cases "row_exists (\<lambda>q. key q = key r) table")
    case True
    then obtain q where q: "q \<in> set table" "key q = key r" by (auto simp: row_exists_iff)
    have rest: "key ` set rs \<subseteq> key ` set table' \<and> set table \<subseteq> set table' \<and> length table' = length table + n"
      using Cons.IH Cons.prems True by simp
    then have "key r \<in> key ` set table'" using q by (metis image_eqI subsetD)
    then show ?thesis using rest by simp
  next
    case False
    then obtain m where "insert_each key pk name rs (table @ [r]) = Inr (m, table')" "n = Suc m"
      using Cons.prems by (auto split: if_splits sum.splits)
    then show ?thesis using Cons.IH by fastforce
  qed
qed simp

lemma insert_each_again:
  "insert_each key pk name rs table = Inr (n, table') \<Longrightarrow> insert_each key pk name rs table' = Inr (0, table')"
  using insert_eachD by (intro insert_each_known) blast

lemma insert_each_mem:
  "insert_each key pk name rs table = Inr (n, table') \<Longrightarrow> r \<in> set table' \<Longrightarrow> r \<in> set table \<or> r \<in> set rs"
proof (induction rs arbitrary: table n)
  case (Cons q rs)
  show ?case
  proof (cases "row_exists (\<lambda>p. key p = key q) table")
    case True
    then show ?thesis using Cons by auto
  next
    case False
    then obtain m where "insert_each key pk name rs (table @ [q]) = Inr (m, table')" using Cons.prems by (auto split: if_splits sum.splits)
    then show ?thesis using Cons.IH Cons.prems(2) by fastforce
  qed
qed simp

lemma insert_each_distinct:
  "insert_each key pk name rs table = Inr (n, table') \<Longrightarrow> distinct (map key table) \<Longrightarrow> distinct (map pk table)
     \<Longrightarrow> distinct (map key table') \<and> distinct (map pk table')"
proof (induction rs arbitrary: table n)
  case (Cons r rs)
  show ?case
  proof (cases "row_exists (\<lambda>q. key q = key r) table")
    case True
    then show ?thesis using Cons by simp
  next
    case False
    then obtain m where m: "insert_each key pk name rs (table @ [r]) = Inr (m, table')" "\<not> row_exists (\<lambda>q. pk q = pk r) table"
      using Cons.prems by (auto split: if_splits sum.splits)
    have "distinct (map key (table @ [r]))" "distinct (map pk (table @ [r]))"
      using False m(2) Cons.prems by (auto simp: row_exists_iff)
    then show ?thesis using Cons.IH [OF m(1)] by blast
  qed
qed simp

lemma queueImmediateLINED:
  assumes "queueImmediateLINE sv prefix now s = Inr (u, s')"
  shows "\<exists>ds. s' = s\<lparr>notification_deliveries := ds\<rparr>" "queueImmediateLINE sv prefix now s' = Inr ((), s')"
proof -
  let ?rows = "\<lambda>s. map (\<lambda>n. new_delivery (md5 sv (''line:'' @ n_key n)) (n_org n) (n_id n) (''line:'' @ n_key n) now)
     (filter (wants_line prefix s) (notifications s))"
  obtain k ds where ds: "insert_each delivery_key nd_id ''notification_deliveries_pkey'' (?rows s) (notification_deliveries s) = Inr (k, ds)"
    "s' = s\<lparr>notification_deliveries := ds\<rparr>"
    using assms by (auto simp: queueImmediateLINE_def split: sum.splits)
  then show "\<exists>ds. s' = s\<lparr>notification_deliveries := ds\<rparr>" by blast
  have "wants_line prefix s' = wants_line prefix s" by (simp add: wants_line_def [abs_def] preference_of_def ds(2))
  then have "?rows s' = ?rows s" by (simp add: ds(2))
  then show "queueImmediateLINE sv prefix now s' = Inr ((), s')"
    using insert_each_again [OF ds(1)] by (simp add: queueImmediateLINE_def ds(2))
qed

lemma ScheduleRemindersE:
  assumes "ScheduleReminders sv now s = Inr (n, s')"
  obtains rs ns k where
    "insert_each reminder_key re_id ''reminders_pkey'' (due_reminders sv now s) (reminders s) = Inr (n, rs)"
    "insert_each notification_key n_id ''notifications_pkey'' (reminder_notifications sv now (s\<lparr>reminders := rs\<rparr>)) (notifications s) = Inr (k, ns)"
    "queueImmediateLINE sv ''reminder:'' now (s\<lparr>reminders := rs, notifications := ns\<rparr>) = Inr ((), s')"
  using assms by (auto simp: ScheduleReminders_def Let_def split: sum.splits)

text \<open>Scheduling reminders again at the same time, as after a crash or by a second worker, changes nothing: every
  due milestone of every assignee and watcher has exactly one reminder, one notification and at most one delivery.\<close>

theorem reminders_once:
  assumes "ScheduleReminders sv now s = Inr (n, s')" "distinct (map reminder_key (reminders s))" "distinct (map re_id (reminders s))"
  shows "ScheduleReminders sv now s' = Inr (0, s') \<and> reminder_key ` set (due_reminders sv now s) \<subseteq> reminder_key ` set (reminders s')
    \<and> distinct (map reminder_key (reminders s')) \<and> length (reminders s') = length (reminders s) + n"
proof -
  obtain rs ns k where r: "insert_each reminder_key re_id ''reminders_pkey'' (due_reminders sv now s) (reminders s) = Inr (n, rs)"
    and m: "insert_each notification_key n_id ''notifications_pkey'' (reminder_notifications sv now (s\<lparr>reminders := rs\<rparr>)) (notifications s) = Inr (k, ns)"
    and q: "queueImmediateLINE sv ''reminder:'' now (s\<lparr>reminders := rs, notifications := ns\<rparr>) = Inr ((), s')"
    using assms(1) by (rule ScheduleRemindersE)
  obtain ds where s': "s' = s\<lparr>reminders := rs, notifications := ns, notification_deliveries := ds\<rparr>"
    using queueImmediateLINED(1) [OF q] by auto
  have same: "due_reminders sv now s' = due_reminders sv now s" "reminders s' = rs"
    "reminder_notifications sv now s' = reminder_notifications sv now (s\<lparr>reminders := rs\<rparr>)" "notifications s' = ns"
    by (simp_all add: s' due_reminders_def organization_of_def reminded_users_def [abs_def] reminder_notifications_def preference_of_def cong: option.case_cong)
  have upd: "s'\<lparr>reminders := rs\<rparr> = s'" "s'\<lparr>notifications := ns\<rparr> = s'" by (simp_all add: s')
  have "ScheduleReminders sv now s' = Inr (0, s')"
    using insert_each_again [OF r] insert_each_again [OF m] queueImmediateLINED(2) [OF q]
    by (simp add: ScheduleReminders_def same upd Let_def)
  moreover have "reminder_key ` set (due_reminders sv now s) \<subseteq> reminder_key ` set (reminders s')"
    "length (reminders s') = length (reminders s) + n" using insert_eachD [OF r] same by auto
  moreover have "distinct (map reminder_key (reminders s'))" using insert_each_distinct [OF r] assms(2,3) same by simp
  ultimately show ?thesis by blast
qed
definition demo_watched :: store where
  "demo_watched = work_step (TaskWatch 2 ''o1'' ''u2'' ''t1'' ''u2'' True 6) demo_tasks"

definition reminded :: store where
  "reminded = after demo_watched (ScheduleReminders demo_server (33 * Hour) demo_watched)"

theorem reminders_once_witness:
  "ScheduleReminders demo_server (33 * Hour) reminded = Inr (0, reminded) \<and> length (reminders reminded) = 6
   \<and> length (notifications reminded) = 6"
proof -
  have run: "map_sum id fst (ScheduleReminders demo_server (33 * Hour) demo_watched) = Inr 6" by code_simp
  then obtain s' where s': "ScheduleReminders demo_server (33 * Hour) demo_watched = Inr (6, s')" by auto
  then have "reminded = s'" by (simp add: reminded_def)
  moreover have "reminders demo_watched = []" "length (notifications reminded) = 6" by code_simp+
  ultimately show ?thesis using reminders_once [OF s'] by simp
qed

section \<open>Sending\<close>

definition delivery_at :: "store \<Rightarrow> id \<Rightarrow> delivery_row option" where
  "delivery_at s i = query_row (\<lambda>d. nd_id d = i) (notification_deliveries s)"

lemma delivery_at_unique:
  "distinct (map nd_id (notification_deliveries s)) \<Longrightarrow> d \<in> set (notification_deliveries s) \<Longrightarrow> delivery_at s (nd_id d) = Some d"
  unfolding delivery_at_def
  by (rule unique_on_query_row [where key = "\<lambda>d. Some (nd_id d)" and k = "nd_id d"]) (simp_all add: unique_on_distinct)

lemma delivery_at_update:
  "(\<And>d. P d \<Longrightarrow> nd_id (f d) = nd_id d) \<Longrightarrow>
   delivery_at (s\<lparr>notification_deliveries := sql_update P f (notification_deliveries s)\<rparr>) i
     = map_option (\<lambda>d. if P d then f d else d) (delivery_at s i)"
  unfolding delivery_at_def by (simp add: query_row_sql_update)

lemma eligible_deliveriesD:
  "d \<in> set (eligible_deliveries dbnow limit s) \<Longrightarrow> d \<in> set (notification_deliveries s) \<and> delivery_eligible dbnow d"
  unfolding eligible_deliveries_def by (auto dest: in_set_takeD)

lemma claimed_delivery_id: "x \<in> set (claimed_delivery s d) \<Longrightarrow> ld_id x = nd_id d \<and> ld_attempts x = nd_attempts d"
  by (auto simp: claimed_delivery_def split: option.splits)

lemma line_retry_window:
  "lineRetry (k + 1) = (delay, retry) \<Longrightarrow> retry = (k < 5) \<and> (k < 5 \<longrightarrow> Minute \<le> delay \<and> delay \<le> 12 * Hour \<and> delay div Second * Second = delay)"
proof -
  assume r: "lineRetry (k + 1) = (delay, retry)"
  consider "k = 0" | "k = 1" | "k = 2" | "k = 3" | "k = 4" | "5 \<le> k" by linarith
  then show ?thesis using r by cases (auto simp: lineRetry_def line_delays_def duration_defs)
qed

text \<open>The row of a delivery after a goroutine dealt with it.\<close>

definition settled :: "(line_delivery \<Rightarrow> err option) \<Rightarrow> time \<Rightarrow> time \<Rightarrow> line_delivery \<Rightarrow> delivery_row \<Rightarrow> delivery_row" where
  "settled send now dbnow x d =
     (case send x of
        None \<Rightarrow> d\<lparr>nd_status := ''Delivered'', nd_delivered_at := Some now, nd_lease := None\<rparr>
      | Some e \<Rightarrow>
          (case (if e = Work_ErrPermanentDelivery then (0, False) else lineRetry (ld_attempts x + 1)) of
             (delay, retry) \<Rightarrow> d\<lparr>nd_status := (if retry then Retryable else ''Failed''), nd_attempts := nd_attempts d + 1,
                nd_available_at := dbnow + delay div Second * Second, nd_lease := None, nd_failure_code := Some ''provider_failed''\<rparr>))"

lemma settled_id [simp]: "nd_id (settled send now dbnow x d) = nd_id d"
  by (auto simp: settled_def split: option.splits prod.splits)

lemma deliver_settles:
  "deliver send now dbnow x s
    = s\<lparr>notification_deliveries := sql_update (\<lambda>d. nd_id d = ld_id x) (settled send now dbnow x) (notification_deliveries s)\<rparr>"
proof (cases "send x")
  case None
  then show ?thesis by (simp add: deliver_def settled_def [abs_def] CompleteLINEDelivery_def)
next
  case (Some e)
  then show ?thesis
    by (cases "if e = Work_ErrPermanentDelivery then (0, False) else lineRetry (ld_attempts x + 1)")
       (simp add: deliver_def settled_def [abs_def] FailLINEDelivery_def del: One_nat_def add_Suc_right)
qed

lemma deliver_at:
  "delivery_at (deliver send now dbnow x s) i = map_option (\<lambda>d. if nd_id d = ld_id x then settled send now dbnow x d else d) (delivery_at s i)"
  unfolding deliver_settles by (rule delivery_at_update) simp

lemma deliver_all_at:
  assumes "distinct (map ld_id xs)" "delivery_at s i = Some d" "nd_id d = i"
  shows "delivery_at (fold (deliver send now dbnow) xs s) i
    = Some (case filter (\<lambda>x. ld_id x = i) xs of [] \<Rightarrow> d | x # _ \<Rightarrow> settled send now dbnow x d)"
  using assms
proof (induction xs arbitrary: s d)
  case (Cons x xs)
  have at: "delivery_at (deliver send now dbnow x s) i = Some (if i = ld_id x then settled send now dbnow x d else d)"
    using Cons.prems by (simp add: deliver_at)
  show ?case
  proof (cases "i = ld_id x")
    case True
    then have "filter (\<lambda>y. ld_id y = i) xs = []" using Cons.prems(1) by (auto simp: filter_empty_conv) (metis image_eqI)
    then show ?thesis using Cons.IH [of "deliver send now dbnow x s" "settled send now dbnow x d"] Cons.prems at True by simp
  next
    case False
    then show ?thesis using Cons.IH [of "deliver send now dbnow x s" d] Cons.prems at by auto
  qed
qed simp

text \<open>At most one enabled LINE identity per user: the unique index on user and provider.\<close>

definition identities_ok :: "store \<Rightarrow> bool" where
  "identities_ok s = unique_on (\<lambda>a. if ai_disabled_at a = None then Some (ai_user a, ai_provider a) else None) (auth_identities s)"

lemma one_identity:
  assumes "identities_ok s"
  shows "filter (line_identity u) (auth_identities s) = [] \<or> (\<exists>a. filter (line_identity u) (auth_identities s) = [a])"
proof -
  have "rows_affected (line_identity u) (auth_identities s) \<le> 1"
    using assms unfolding identities_ok_def by (rule unique_on_rows_le_one [where k = "(u, ''line'')"]) (simp add: line_identity_def)
  then show ?thesis unfolding rows_affected_def by (cases "filter (line_identity u) (auth_identities s)") auto
qed

lemma claimed_delivery_cases:
  assumes "identities_ok s" obtains "claimed_delivery s d = []" | x where "claimed_delivery s d = [x]"
  using one_identity [OF assms] by (fastforce simp: claimed_delivery_def split: option.splits)
lemma concat_single_filter:
  assumes "distinct (map k ds)" "\<And>d x. d \<in> set ds \<Longrightarrow> x \<in> set (f d) \<Longrightarrow> h x = k d" "d \<in> set ds"
  shows "filter (\<lambda>x. h x = k d) (concat (map f ds)) = f d"
  using assms
proof (induction ds)
  case (Cons e ds)
  have other: "filter (\<lambda>x. h x = k d) (f q) = []" if "q \<in> set (e # ds)" "k q \<noteq> k d" for q
    using Cons.prems(2) that by (fastforce simp: filter_empty_conv)
  have own: "filter (\<lambda>x. h x = k d) (f d) = f d" using Cons.prems(2,3) by (simp add: filter_id_conv)
  show ?case
  proof (cases "d = e")
    case True
    have "filter (\<lambda>x. h x = k d) (concat (map f ds)) = []"
      unfolding filter_empty_conv
    proof
      fix x assume "x \<in> set (concat (map f ds))"
      then obtain q where q: "q \<in> set ds" "x \<in> set (f q)" by auto
      then have "h x = k q" "k q \<noteq> k e" using Cons.prems(1,2) by (auto, metis image_eqI)
      then show "h x \<noteq> k d" using True by simp
    qed
    then show ?thesis using True own by simp
  next
    case False
    then have d: "d \<in> set ds" using Cons.prems(3) by simp
    then have "k e \<noteq> k d" using Cons.prems(1) by auto
    then show ?thesis using other [of e] Cons d by simp
  qed
qed simp

lemma distinct_claimed:
  assumes "identities_ok s" "distinct (map nd_id ds)"
  shows "distinct (map ld_id (concat (map (claimed_delivery s) ds)))"
  using assms(2)
proof (induction ds)
  case (Cons d ds)
  have "distinct (map ld_id (claimed_delivery s d))" by (rule claimed_delivery_cases [OF assms(1), of d]) simp_all
  moreover have "ld_id x = nd_id d" if "x \<in> set (claimed_delivery s d)" for x using that claimed_delivery_id by blast
  moreover have "ld_id x \<noteq> nd_id d" if x: "x \<in> set (concat (map (claimed_delivery s) ds))" for x
  proof -
    obtain q where "q \<in> set ds" "x \<in> set (claimed_delivery s q)" using x by auto
    then show ?thesis using Cons.prems claimed_delivery_id [of x s q] by (auto, metis image_eqI)
  qed
  ultimately have "ld_id ` set (claimed_delivery s d) \<inter> ld_id ` set (concat (map (claimed_delivery s) ds)) = {}" by fastforce
  then show ?case using Cons \<open>distinct (map ld_id (claimed_delivery s d))\<close> by simp
qed simp

lemma distinct_eligible:
  "distinct (map nd_id (notification_deliveries s)) \<Longrightarrow> distinct (map nd_id (eligible_deliveries dbnow limit s))"
proof -
  assume d: "distinct (map nd_id (notification_deliveries s))"
  let ?sorted = "sort_key (\<lambda>d. (nd_available_at d, nd_id d)) (filter (delivery_eligible dbnow) (notification_deliveries s))"
  have "distinct (map nd_id (filter (delivery_eligible dbnow) (notification_deliveries s)))" by (rule distinct_map_filter [OF d])
  then have "distinct (map nd_id ?sorted)" by (simp add: distinct_map)
  then show ?thesis unfolding eligible_deliveries_def take_map [symmetric] by (rule distinct_take)
qed

text \<open>The row of a claimed delivery at the end of the cycle.\<close>

lemma send_claimed_at:
  assumes "distinct (map nd_id (notification_deliveries s))" "identities_ok s" "mset (finish (fst (ClaimLINEDeliveries 100 Minute (cy_claim c) s)))
      = mset (fst (ClaimLINEDeliveries 100 Minute (cy_claim c) s))" "d \<in> set (eligible_deliveries (cy_claim c) 100 s)"
  shows "delivery_at (snd (send_claimed send finish c s)) (nd_id d)
    = Some (case claimed_delivery s d of
        [] \<Rightarrow> d\<lparr>nd_status := Processing, nd_lease := Some (cy_claim c + Minute)\<rparr>
      | x # _ \<Rightarrow> settled send (cy_now c) (cy_fail c) x (d\<lparr>nd_status := Processing, nd_lease := Some (cy_claim c + Minute)\<rparr>))"
proof -
  let ?ds = "eligible_deliveries (cy_claim c) 100 s" and ?xs = "fst (ClaimLINEDeliveries 100 Minute (cy_claim c) s)"
  let ?s1 = "snd (ClaimLINEDeliveries 100 Minute (cy_claim c) s)"
  have xs: "?xs = concat (map (claimed_delivery s) ?ds)" by (simp add: ClaimLINEDeliveries_def Let_def)
  have min: "Minute div Second * Second = Minute" by (simp add: duration_defs)
  have at: "delivery_at ?s1 (nd_id d) = Some (d\<lparr>nd_status := Processing, nd_lease := Some (cy_claim c + Minute)\<rparr>)"
    using delivery_at_unique [OF assms(1)] eligible_deliveriesD [OF assms(4)] assms(4)
    by (simp add: ClaimLINEDeliveries_def Let_def delivery_at_update min)
  have distinct: "distinct (map ld_id (finish ?xs))"
    using distinct_claimed [OF assms(2) distinct_eligible [OF assms(1)]] assms(3) xs by (metis mset_map mset_eq_imp_distinct_iff)
  have "mset (filter (\<lambda>x. ld_id x = nd_id d) (finish ?xs)) = mset (filter (\<lambda>x. ld_id x = nd_id d) ?xs)"
    using assms(3) by (metis mset_filter)
  moreover have own: "filter (\<lambda>x. ld_id x = nd_id d) ?xs = claimed_delivery s d"
    unfolding xs using distinct_eligible [OF assms(1)] assms(4) claimed_delivery_id by (intro concat_single_filter) auto
  moreover have "claimed_delivery s d = [] \<or> (\<exists>x. claimed_delivery s d = [x])" using claimed_delivery_cases [OF assms(2)] by metis
  ultimately have own': "filter (\<lambda>x. ld_id x = nd_id d) (finish ?xs) = claimed_delivery s d"
    by (metis mset.simps(1) mset_single_iff mset_zero_iff mset.simps(2) add_mset_add_single add_0)
  have "snd (send_claimed send finish c s) = fold (deliver send (cy_now c) (cy_fail c)) (finish ?xs) ?s1"
    by (simp add: send_claimed_def split_beta)
  then show ?thesis using deliver_all_at [OF distinct at, of send "cy_now c" "cy_fail c"] by (simp add: own' cong: list.case_cong)
qed

text \<open>\<^bold>\<open>C24.\<close> Whatever the order in which the goroutines finish, every delivery that a cycle claims ends without a lease when its
  recipient has an enabled LINE identity: Delivered when the sender succeeds, else with one more attempt counted, Failed for a
  permanent error or at the sixth attempt and due again within 1 minute to 12 hours before that.  A delivery whose recipient has
  no enabled LINE identity is claimed all the same and keeps its attempts, so it is claimed again after every lease.\<close>

theorem line_cycle_settles:
  assumes "distinct (map nd_id (notification_deliveries s))" "identities_ok s" "mset (finish (fst (ClaimLINEDeliveries 100 Minute (cy_claim c) s)))
      = mset (fst (ClaimLINEDeliveries 100 Minute (cy_claim c) s))" "d \<in> set (eligible_deliveries (cy_claim c) 100 s)"
  shows "\<exists>d'. delivery_at (snd (send_claimed send finish c s)) (nd_id d) = Some d' \<and>
    (case claimed_delivery s d of
       [] \<Rightarrow> nd_status d' = Processing \<and> nd_attempts d' = nd_attempts d \<and> delivery_eligible (cy_claim c + Minute) d'
     | x # _ \<Rightarrow> nd_lease d' = None \<and>
        (case send x of
           None \<Rightarrow> nd_status d' = ''Delivered'' \<and> nd_attempts d' = nd_attempts d
         | Some e \<Rightarrow> nd_attempts d' = nd_attempts d + 1 \<and>
             (if e = Work_ErrPermanentDelivery \<or> 5 \<le> nd_attempts d then nd_status d' = ''Failed''
              else nd_status d' = Retryable \<and> cy_fail c + Minute \<le> nd_available_at d' \<and> nd_available_at d' \<le> cy_fail c + 12 * Hour)))"
proof (cases "claimed_delivery s d")
  case Nil
  then show ?thesis using send_claimed_at [where send = send and finish = finish, OF assms] by (simp add: delivery_eligible_def)
next
  case (Cons x xs)
  have x: "ld_attempts x = nd_attempts d" using claimed_delivery_id [of x s d] Cons by simp
  obtain delay retry where r: "lineRetry (nd_attempts d + 1) = (delay, retry)" by fastforce
  show ?thesis
  proof (cases "send x")
    case None
    then show ?thesis using send_claimed_at [where send = send and finish = finish, OF assms] Cons by (simp add: settled_def)
  next
    case (Some e)
    then show ?thesis
      using send_claimed_at [where send = send and finish = finish, OF assms] Cons line_retry_window [OF r] r x
      by (cases "e = Work_ErrPermanentDelivery") (simp_all add: settled_def)
  qed
qed
definition demo_line :: "id \<Rightarrow> identity_row" where
  "demo_line u = \<lparr>ai_id = u, ai_user = u, ai_provider = ''line'', ai_issuer = [], ai_subject = u, ai_email = None, ai_email_verified = False,
     ai_display_name = None, ai_picture_url = None, ai_linked_at = 0, ai_disabled_at = None, ai_cooldown_until = None\<rparr>"

text \<open>Two deliveries: the recipient of the first has a LINE identity, the recipient of the second has none.\<close>

definition demo_sending :: store where
  "demo_sending = demo_office\<lparr>auth_identities := [demo_line ''u1''],
     notifications := map (\<lambda>u. notification u ''o1'' u ''DueReminder'' u [] [] ''Immediate'' 0) [''u1'', ''u2''],
     notification_deliveries := map (\<lambda>u. (new_delivery u ''o1'' u u 0)\<lparr>nd_attempts := 3\<rparr>) [''u1'', ''u2'']\<rparr>"

definition demo_clock :: cycle_clock where
  "demo_clock = \<lparr>cy_now = 10, cy_events = 11, cy_claim = 12, cy_fail = 13\<rparr>"

theorem line_cycle_settles_witness:
  "map_option (\<lambda>d. (nd_status d, nd_attempts d, nd_lease d))
     (delivery_at (snd (send_claimed (\<lambda>_. Some (OtherError [])) rev demo_clock demo_sending)) ''u1'') = Some (Retryable, 4, None)
   \<and> map_option nd_status (delivery_at (snd (send_claimed (\<lambda>_. Some (OtherError [])) rev demo_clock demo_sending)) ''u2'') = Some Processing"
proof -
  have ok: "distinct (map nd_id (notification_deliveries demo_sending))" "identities_ok demo_sending"
    by (simp_all add: demo_sending_def new_delivery_def identities_ok_def)
  let ?d = "\<lambda>u. (new_delivery u ''o1'' u u 0)\<lparr>nd_attempts := 3\<rparr>"
  have el: "eligible_deliveries (cy_claim demo_clock) 100 demo_sending = [?d ''u1'', ?d ''u2'']" by code_simp
  have c: "claimed_delivery demo_sending (?d ''u1'') = [\<lparr>ld_id = ''u1'', ld_org = ''o1'', ld_to = ''u1'', ld_org_name = ''Acme'',
      ld_link = [], ld_attempts = 3\<rparr>]" "claimed_delivery demo_sending (?d ''u2'') = []" by code_simp+
  have "?d ''u1'' \<in> set (eligible_deliveries (cy_claim demo_clock) 100 demo_sending)"
    "?d ''u2'' \<in> set (eligible_deliveries (cy_claim demo_clock) 100 demo_sending)" unfolding el by simp_all
  note s1 = line_cycle_settles [OF ok, of rev demo_clock, OF _ this(1), of "\<lambda>_. Some (OtherError [])"]
  and s2 = line_cycle_settles [OF ok, of rev demo_clock, OF _ this(2), of "\<lambda>_. Some (OtherError [])"]
  show ?thesis using s1 s2 unfolding c by (auto simp: new_delivery_def)
qed

section \<open>The queue of deliveries\<close>

text \<open>Claims, completions and failures by any number of workers, as a \<^verbatim>\<open>lease_queue\<close>: nothing but a report on a
  delivery ends its lease early.\<close>

datatype delivery_op =
    DeliveryClaim nat duration time
  | DeliverySent id time
  | DeliveryFailed line_delivery string duration bool time

fun delivery_step :: "delivery_op \<Rightarrow> store \<Rightarrow> store \<times> id set" where
  "delivery_step (DeliveryClaim limit lease dbnow) s =
     (snd (ClaimLINEDeliveries limit lease dbnow s), set (map nd_id (eligible_deliveries dbnow limit s)))"
| "delivery_step (DeliverySent i now) s = (CompleteLINEDelivery i now s, {})"
| "delivery_step (DeliveryFailed d code delay retry dbnow) s = (FailLINEDelivery d code delay retry dbnow s, {})"

fun delivery_time :: "delivery_op \<Rightarrow> time" where
  "delivery_time (DeliveryClaim limit lease dbnow) = dbnow"
| "delivery_time (DeliverySent i now) = now"
| "delivery_time (DeliveryFailed d code delay retry dbnow) = dbnow"

fun delivery_until :: "delivery_op \<Rightarrow> time" where
  "delivery_until (DeliveryClaim limit lease dbnow) = dbnow + lease div Second * Second"
| "delivery_until op = 0"

fun reports_on :: "delivery_op \<Rightarrow> id \<Rightarrow> store \<Rightarrow> bool" where
  "reports_on (DeliveryClaim limit lease dbnow) k s = False"
| "reports_on (DeliverySent i now) k s = (i = k)"
| "reports_on (DeliveryFailed d code delay retry dbnow) k s = (ld_id d = k)"

definition delivery_lease :: "store \<Rightarrow> id \<Rightarrow> time option" where
  "delivery_lease s i = (case delivery_at s i of None \<Rightarrow> None | Some d \<Rightarrow> if nd_status d = Processing then nd_lease d else None)"

definition deliveries_ok :: "store \<Rightarrow> bool" where
  "deliveries_ok s = distinct (map nd_id (notification_deliveries s))"

lemma claim_at:
  "delivery_at (snd (ClaimLINEDeliveries limit lease dbnow s)) k
    = map_option (\<lambda>d. if nd_id d \<in> set (map nd_id (eligible_deliveries dbnow limit s))
        then d\<lparr>nd_status := Processing, nd_lease := Some (dbnow + lease div Second * Second)\<rparr> else d) (delivery_at s k)"
  unfolding ClaimLINEDeliveries_def Let_def snd_conv by (rule delivery_at_update) simp

lemma taken_row:
  assumes "deliveries_ok s" "k \<in> set (map nd_id (eligible_deliveries dbnow limit s))"
  obtains d where "delivery_at s k = Some d" "nd_id d = k" "delivery_eligible dbnow d"
  using assms eligible_deliveriesD delivery_at_unique unfolding deliveries_ok_def by fastforce

interpretation delivery_queue: lease_queue deliveries_ok delivery_lease delivery_step delivery_time delivery_until reports_on
proof unfold_locales
  fix s k c e
  assume ok: "deliveries_ok s"
  show "deliveries_ok (fst (delivery_step c s))"
    using ok by (cases c) (simp_all add: deliveries_ok_def ClaimLINEDeliveries_def CompleteLINEDelivery_def FailLINEDelivery_def Let_def map_sql_update)
  {
    assume taken: "k \<in> snd (delivery_step c s)"
    then obtain limit lease dbnow where c: "c = DeliveryClaim limit lease dbnow" by (cases c) auto
    then have "k \<in> set (map nd_id (eligible_deliveries dbnow limit s))" using taken by simp
    then obtain d where d: "delivery_at s k = Some d" "nd_id d = k" "delivery_eligible dbnow d" using taken_row [OF ok] by metis
    show "delivery_lease (fst (delivery_step c s)) k = Some (delivery_until c)"
      using taken d by (simp add: c delivery_lease_def claim_at)
    assume "delivery_lease s k = Some e"
    then show "e \<le> delivery_time c" using d by (auto simp: c delivery_lease_def delivery_eligible_def split: if_splits)
  next
    assume l: "delivery_lease s k = Some e" and early: "delivery_time c < e" and other: "\<not> reports_on c k s"
    then obtain d where d: "delivery_at s k = Some d" "nd_status d = Processing" "nd_lease d = Some e"
      by (auto simp: delivery_lease_def split: option.splits if_splits)
    then have k: "nd_id d = k" unfolding delivery_at_def by (auto dest: query_row_SomeD)
    show "delivery_lease (fst (delivery_step c s)) k = Some e"
    proof (cases c)
      case (DeliveryClaim limit lease dbnow)
      have "k \<notin> set (map nd_id (eligible_deliveries dbnow limit s))"
        using taken_row [OF ok, of k dbnow limit] d early DeliveryClaim by (auto simp: delivery_eligible_def)
      then show ?thesis using d k DeliveryClaim by (simp add: delivery_lease_def claim_at)
    next
      case (DeliverySent i now)
      then show ?thesis using d k other by (simp add: delivery_lease_def CompleteLINEDelivery_def delivery_at_update)
    next
      case (DeliveryFailed f code delay retry dbnow)
      then show ?thesis using d k other by (simp add: delivery_lease_def FailLINEDelivery_def delivery_at_update)
    qed
  }
qed

lemma delivery_not_handed_out_twice:
  assumes "deliveries_ok s" "k \<in> snd (delivery_step (DeliveryClaim limit lease dbnow) s)"
    and "undisturbed delivery_step delivery_time reports_on k (dbnow + lease div Second * Second)
       (fst (delivery_step (DeliveryClaim limit lease dbnow) s)) cs"
  shows "\<forall>(d, taken) \<in> set (snd (lease_run delivery_step (fst (delivery_step (DeliveryClaim limit lease dbnow) s)) cs)). k \<notin> taken"
  using delivery_queue.claim_exclusive [OF assms(1,2)] assms(3) by simp

end
