(* ===== verification/WorkReads.thy ===== *)
theory WorkReads
  imports Deliveries Csv
begin

text \<open>
  Lists, dashboards, preferences and exports of tasks: src/api/internal/postgres/work_reads.go, \<^verbatim>\<open>ListTasks\<close> of
  work.go, and the export writer and summary of src/api/internal/work/work.go.  The layout of instants in
  cursors and files (\<^verbatim>\<open>time.RFC3339Nano\<close> and \<^verbatim>\<open>time.RFC3339\<close>) is an argument.
\<close>

section \<open>Cursors\<close>

text \<open>\<^verbatim>\<open>stamp\<close> formats an instant and \<^verbatim>\<open>parse\<close> reads one back.\<close>

definition encodeCursor :: "(time \<Rightarrow> bytes) \<Rightarrow> time \<Rightarrow> id \<Rightarrow> string" where
  "encodeCursor stamp at i = EncodeToString (stamp at @ ''|'' @ i)"

definition bad_cursor :: err where "bad_cursor = OtherError ''invalid cursor''"

definition decodeCursor :: "(bytes \<Rightarrow> time option) \<Rightarrow> string \<Rightarrow> (time \<times> id) option result" where
  "decodeCursor parse v =
     (if v = [] then Inr None
      else case DecodeString v of
        None \<Rightarrow> Inl (OtherError ''illegal base64 data'')
      | Some data \<Rightarrow>
          (case split2 (CHR ''|'') data of
             [at, i] \<Rightarrow> if i = [] then Inl bad_cursor
                       else (case parse at of None \<Rightarrow> Inl (OtherError ''parsing time'') | Some t \<Rightarrow> Inr (Some (t, i)))
           | _ \<Rightarrow> Inl bad_cursor))"

text \<open>The page of a list: the rows after the cursor's position, at most \<^verbatim>\<open>limit\<close> of them, and the cursor of the last
  one when the query returned one row more.\<close>

definition after_position :: "('r \<Rightarrow> time \<times> id) \<Rightarrow> (time \<times> id) option \<Rightarrow> 'r \<Rightarrow> bool" where
  "after_position key position r = (case position of None \<Rightarrow> True | Some p \<Rightarrow> key r < p)"

definition page_of :: "nat \<Rightarrow> ('i \<Rightarrow> string) \<Rightarrow> 'i list \<Rightarrow> 'i list \<times> string" where
  "page_of limit next items =
     (if length items > limit then (take limit items, next (items ! (limit - 1))) else (items, []))"

section \<open>Lists of tasks\<close>

record task_filter =
  tf_status :: string
  tf_priority :: string
  tf_assignee :: string
  tf_creator :: string
  tf_due_from :: string
  tf_due_to :: string
  tf_created_from :: string
  tf_created_to :: string
  tf_overdue :: "bool option"

text \<open>\<^verbatim>\<open>$n='' OR column >= nullif($n,'')::date\<close> and the like; a NULL column fails the comparison.\<close>

definition same_or_any :: "string \<Rightarrow> string option \<Rightarrow> bool" where
  "same_or_any v x = (v = [] \<or> x = Some v)"

definition date_from :: "string option \<Rightarrow> string option \<Rightarrow> bool" where
  "date_from bound x = (case bound of None \<Rightarrow> True | Some b \<Rightarrow> (case x of None \<Rightarrow> False | Some d \<Rightarrow> b \<le> d))"

definition date_to :: "string option \<Rightarrow> string option \<Rightarrow> bool" where
  "date_to bound x = (case bound of None \<Rightarrow> True | Some b \<Rightarrow> (case x of None \<Rightarrow> False | Some d \<Rightarrow> d \<le> b))"

record date_bounds =
  db_due_from :: "string option"
  db_due_to :: "string option"
  db_created_from :: "string option"
  db_created_to :: "string option"

text \<open>The casts of the filter's dates, in the order of the statement.\<close>

definition filter_dates :: "server \<Rightarrow> task_filter \<Rightarrow> date_bounds result" where
  "filter_dates sv f =
     (case (date_or_null sv (tf_due_from f), date_or_null sv (tf_due_to f), date_or_null sv (tf_created_from f), date_or_null sv (tf_created_to f)) of
        (Inr a, Inr b, Inr c, Inr d) \<Rightarrow> Inr \<lparr>db_due_from = a, db_due_to = b, db_created_from = c, db_created_to = d\<rparr>
      | (Inl e, _, _, _) \<Rightarrow> Inl e
      | (_, Inl e, _, _) \<Rightarrow> Inl e
      | (_, _, Inl e, _) \<Rightarrow> Inl e
      | (_, _, _, Inl e) \<Rightarrow> Inl e)"

definition filter_columns :: "task_filter \<Rightarrow> date_bounds \<Rightarrow> string \<Rightarrow> task_row \<Rightarrow> bool" where
  "filter_columns f b created t =
     ((tf_status f = [] \<or> t_status t = tf_status f) \<and> (tf_priority f = [] \<or> t_priority t = tf_priority f)
      \<and> same_or_any (tf_assignee f) (t_assignee t) \<and> (tf_creator f = [] \<or> t_creator t = tf_creator f)
      \<and> date_from (db_due_from b) (t_due_on t) \<and> date_to (db_due_to b) (t_due_on t)
      \<and> date_from (db_created_from b) (Some created) \<and> date_to (db_created_to b) (Some created))"

text \<open>The condition on \<^verbatim>\<open>overdue\<close>: the list coalesces a NULL to false, the export does not, so there a task without
  a due date satisfies neither value.\<close>

definition list_overdue :: "bool option \<Rightarrow> string \<Rightarrow> task_row \<Rightarrow> bool" where
  "list_overdue wanted today t = (case wanted of None \<Rightarrow> True | Some w \<Rightarrow> is_overdue today t = w)"

definition export_overdue :: "bool option \<Rightarrow> string \<Rightarrow> task_row \<Rightarrow> bool" where
  "export_overdue wanted today t = (case wanted of None \<Rightarrow> True | Some w \<Rightarrow> overdue_null today t = Some w)"

definition local_day :: "server \<Rightarrow> organization_row \<Rightarrow> time \<Rightarrow> string" where
  "local_day sv g at = local_date sv (o_timezone g) at"

definition task_listed :: "server \<Rightarrow> time \<Rightarrow> organization_row \<Rightarrow> task_filter \<Rightarrow> date_bounds \<Rightarrow> task_row \<Rightarrow> bool" where
  "task_listed sv clock g f b t =
     (t_org t = o_id g \<and> filter_columns f b (local_day sv g (t_created_at t)) t \<and> list_overdue (tf_overdue f) (local_day sv g clock) t)"

definition task_position :: "task_row \<Rightarrow> time \<times> id" where
  "task_position t = (t_created_at t, t_id t)"

definition ListTasks ::
  "server \<Rightarrow> (time \<Rightarrow> bytes) \<Rightarrow> (bytes \<Rightarrow> time option) \<Rightarrow> time \<Rightarrow> id \<Rightarrow> id \<Rightarrow> task_filter \<Rightarrow> nat \<Rightarrow> string \<Rightarrow> store
    \<Rightarrow> (task list \<times> string) result" where
  "ListTasks sv stamp parse clock user org f limit cursor s =
     (case membershipFor user org s of
        Inl _ \<Rightarrow> Inl Work_ErrNotFound
      | Inr _ \<Rightarrow>
     (case decodeCursor parse cursor of
        Inl _ \<Rightarrow> Inl Work_ErrConflict
      | Inr position \<Rightarrow>
     (case filter_dates sv f of
        Inl e \<Rightarrow> Inl e
      | Inr b \<Rightarrow>
          let rows = (case organization_of org s of None \<Rightarrow> []
                | Some g \<Rightarrow> map (Pair g) (descending task_position (filter (\<lambda>t. task_listed sv clock g f b t
                             \<and> after_position task_position position t) (tasks s))))
          in case collect_rows (\<lambda>(g, t). scanTask sv clock g s t) (take (limit + 1) rows) of
            Inl e \<Rightarrow> Inl e
          | Inr items \<Rightarrow> Inr (page_of limit (\<lambda>t. encodeCursor stamp (tk_created_at t) (tk_id t)) items))))"

section \<open>Notifications and preferences\<close>

record notification_item =
  ni_id :: id
  ni_org :: id
  ni_recipient :: id
  ni_category :: string
  ni_title :: string
  ni_link :: string
  ni_created_at :: time
  ni_read_at :: "time option"

definition notification_item :: "notification_row \<Rightarrow> notification_item" where
  "notification_item n =
     \<lparr>ni_id = n_id n, ni_org = n_org n, ni_recipient = n_recipient n, ni_category = n_category n, ni_title = n_title n,
      ni_link = n_link n, ni_created_at = n_created_at n, ni_read_at = n_read_at n\<rparr>"

text \<open>What the inbox shows: immediate notifications, and digest ones once a digest took them.\<close>

definition inbox_shows :: "notification_row \<Rightarrow> bool" where
  "inbox_shows n = (n_mode n = ''Immediate'' \<or> (n_mode n = ''Digest'' \<and> n_digested_at n \<noteq> None))"

definition notification_position :: "notification_row \<Rightarrow> time \<times> id" where
  "notification_position n = (n_created_at n, n_id n)"

definition ListNotifications ::
  "(time \<Rightarrow> bytes) \<Rightarrow> (bytes \<Rightarrow> time option) \<Rightarrow> id \<Rightarrow> id \<Rightarrow> nat \<Rightarrow> string \<Rightarrow> store \<Rightarrow> (notification_item list \<times> string) result" where
  "ListNotifications stamp parse user org limit cursor s =
     (case membershipFor user org s of
        Inl _ \<Rightarrow> Inl Work_ErrNotFound
      | Inr _ \<Rightarrow>
     (case decodeCursor parse cursor of
        Inl _ \<Rightarrow> Inl Work_ErrConflict
      | Inr position \<Rightarrow>
          let rows = descending notification_position (filter (\<lambda>n. n_org n = org \<and> n_recipient n = user \<and> inbox_shows n
                \<and> after_position notification_position position n) (notifications s))
          in Inr (page_of limit (\<lambda>n. encodeCursor stamp (ni_created_at n) (ni_id n)) (map notification_item (take (limit + 1) rows)))))"

definition own_notification :: "id \<Rightarrow> id \<Rightarrow> notification_row \<Rightarrow> bool" where
  "own_notification user org n = (n_org n = org \<and> n_recipient n = user)"

definition MarkNotificationRead :: "id \<Rightarrow> id \<Rightarrow> id \<Rightarrow> time \<Rightarrow> (unit, store) txn" where
  "MarkNotificationRead user org i now s =
     (let mine = (\<lambda>n. n_id n = i \<and> own_notification user org n) in
      if rows_affected mine (notifications s) \<noteq> 1 then Inl Work_ErrNotFound
      else Inr ((), s\<lparr>notifications := sql_update mine
             (\<lambda>n. n\<lparr>n_read_at := (case n_read_at n of None \<Rightarrow> Some now | Some t \<Rightarrow> Some t)\<rparr>) (notifications s)\<rparr>))"

definition MarkAllNotificationsRead :: "id \<Rightarrow> id \<Rightarrow> time \<Rightarrow> (unit, store) txn" where
  "MarkAllNotificationsRead user org now s =
     (case membershipFor user org s of
        Inl _ \<Rightarrow> Inl Work_ErrNotFound
      | Inr _ \<Rightarrow> Inr ((), s\<lparr>notifications := sql_update (\<lambda>n. own_notification user org n \<and> n_read_at n = None)
                              (\<lambda>n. n\<lparr>n_read_at := Some now\<rparr>) (notifications s)\<rparr>))"

text \<open>The preferences of a member, with the defaults for the categories they never set.\<close>

definition preference_defaults :: "(string \<times> string \<times> string) list" where
  "preference_defaults =
     [(''Assignment'', ''Immediate'', ''Off''), (''DueReminder'', ''Immediate'', ''Off''), (''TaskChange'', ''Digest'', ''Off'')]"

definition ListPreferences :: "time \<Rightarrow> id \<Rightarrow> id \<Rightarrow> store \<Rightarrow> preference_row list result" where
  "ListPreferences dbnow user org s =
     (case membershipFor user org s of
        Inl _ \<Rightarrow> Inl Work_ErrNotFound
      | Inr _ \<Rightarrow> Inr (map (\<lambda>(category, web, line).
          (case preference_of org user category s of
             None \<Rightarrow> \<lparr>np_org = org, np_user = user, np_category = category, np_web = web, np_line = line, np_updated_at = dbnow\<rparr>
           | Some p \<Rightarrow> p)) preference_defaults))"

definition preference_check :: "preference_row \<Rightarrow> bool" where
  "preference_check p =
     (np_category p \<in> {''Assignment'', ''TaskChange'', ''DueReminder''}
      \<and> np_web p \<in> {''Immediate'', ''Digest'', ''Off''} \<and> np_line p \<in> {''Immediate'', ''Digest'', ''Off''})"

definition preference_key :: "preference_row \<Rightarrow> id \<times> id \<times> string" where
  "preference_key p = (np_org p, np_user p, np_category p)"

definition SetPreference :: "preference_row \<Rightarrow> (unit, store) txn" where
  "SetPreference p s =
     (case membershipFor (np_user p) (np_org p) s of
        Inl _ \<Rightarrow> Inl Work_ErrNotFound
      | Inr _ \<Rightarrow>
          if \<not> preference_check p then Inl (CheckViolation ''notification_preferences'')
          else if row_exists (\<lambda>q. preference_key q = preference_key p) (notification_preferences s)
          then Inr ((), s\<lparr>notification_preferences := sql_update (\<lambda>q. preference_key q = preference_key p)
                 (\<lambda>q. q\<lparr>np_web := np_web p, np_line := np_line p, np_updated_at := np_updated_at p\<rparr>) (notification_preferences s)\<rparr>)
          else Inr ((), s\<lparr>notification_preferences := notification_preferences s @ [p]\<rparr>))"

section \<open>The dashboard\<close>

record dashboard =
  da_scope :: id
  da_role :: role
  da_focus :: "task list"
  da_watching :: "task list"
  da_queue :: "task list"
  da_open :: int
  da_overdue :: int
  da_unread :: int

text \<open>\<^verbatim>\<open>ORDER BY due_on NULLS LAST, priority DESC, id\<close>: stable sorts from the last key to the first.  The priorities
  compare as texts.\<close>

definition sort_desc :: "('r \<Rightarrow> 'k::linorder) \<Rightarrow> 'r list \<Rightarrow> 'r list" where
  "sort_desc key rows = rev (sort_key key (rev rows))"

definition dashboard_order :: "task_row list \<Rightarrow> task_row list" where
  "dashboard_order ts = sort_key (\<lambda>t. (t_due_on t = None, null_text (t_due_on t))) (sort_desc t_priority (sort_key t_id ts))"

definition dashboardTasks :: "server \<Rightarrow> time \<Rightarrow> organization_row \<Rightarrow> (task_row \<Rightarrow> bool) \<Rightarrow> store \<Rightarrow> task list result" where
  "dashboardTasks sv clock g condition s =
     collect_rows (scanTask sv clock g s)
       (take 10 (dashboard_order (filter (\<lambda>t. t_org t = o_id g \<and> task_active t \<and> condition t) (tasks s))))"

definition watches :: "id \<Rightarrow> store \<Rightarrow> task_row \<Rightarrow> bool" where
  "watches user s t = row_exists (\<lambda>w. w_org w = t_org t \<and> w_task w = t_id t \<and> w_user w = user) (task_watchers s)"

definition Dashboard :: "server \<Rightarrow> time \<Rightarrow> id \<Rightarrow> id \<Rightarrow> store \<Rightarrow> dashboard result" where
  "Dashboard sv clock user org s =
     (case (query_row (is_member_row org user) (memberships s), organization_of org s) of
        (Some m, Some g) \<Rightarrow>
          let today = local_day sv g clock; here = (\<lambda>t. t_org t = org) in
          (case dashboardTasks sv clock g (\<lambda>t. t_assignee t = Some user) s of
             Inl e \<Rightarrow> Inl e
           | Inr focus \<Rightarrow>
          (case dashboardTasks sv clock g (watches user s) s of
             Inl e \<Rightarrow> Inl e
           | Inr watching \<Rightarrow>
          (case (if m_role m = Owner \<or> m_role m = Admin then dashboardTasks sv clock g (\<lambda>t. t_assignee t = None) s else Inr []) of
             Inl e \<Rightarrow> Inl e
           | Inr queue \<Rightarrow>
               Inr \<lparr>da_scope = org, da_role = m_role m, da_focus = focus, da_watching = watching, da_queue = queue,
                    da_open = count_where (\<lambda>t. here t \<and> task_active t) (tasks s),
                    da_overdue = count_where (\<lambda>t. here t \<and> is_overdue today t) (tasks s),
                    da_unread = count_where (\<lambda>n. own_notification user org n \<and> n_read_at n = None \<and> inbox_shows n) (notifications s)\<rparr>)))
      | _ \<Rightarrow> Inl Work_ErrNotFound)"

section \<open>Exports\<close>

record task_export_row =
  te_org :: id
  te_org_name :: string
  te_task :: id
  te_title :: string
  te_description :: string
  te_status :: string
  te_priority :: string
  te_due_on :: string
  te_overdue :: bool
  te_creator :: string
  te_assignee :: string
  te_watchers :: string
  te_created_at :: time
  te_updated_at :: time
  te_status_changed_at :: "time option"
  te_completed_at :: "time option"

definition task_exported :: "server \<Rightarrow> time \<Rightarrow> organization_row \<Rightarrow> task_filter \<Rightarrow> date_bounds \<Rightarrow> task_row \<Rightarrow> bool" where
  "task_exported sv clock g f b t =
     (t_org t = o_id g \<and> filter_columns f b (local_day sv g (t_created_at t)) t \<and> export_overdue (tf_overdue f) (local_day sv g clock) t)"

text \<open>\<^verbatim>\<open>string_agg\<close> skips the watchers without a name.\<close>

definition named_watchers :: "server \<Rightarrow> store \<Rightarrow> task_row \<Rightarrow> string list" where
  "named_watchers sv s t = map null_text (filter (\<lambda>n. n \<noteq> None) (watcher_names sv s t))"

definition task_export_row :: "server \<Rightarrow> time \<Rightarrow> organization_row \<Rightarrow> store \<Rightarrow> task_row \<Rightarrow> task_export_row" where
  "task_export_row sv clock g s t =
     \<lparr>te_org = t_org t, te_org_name = o_name g, te_task = t_id t, te_title = t_title t, te_description = t_description t,
      te_status = t_status t, te_priority = t_priority t, te_due_on = null_text (t_due_on t),
      te_overdue = is_overdue (local_day sv g clock) t, te_creator = display_name (Some (t_creator t)) s,
      te_assignee = display_name (t_assignee t) s, te_watchers = join ''|'' (named_watchers sv s t),
      te_created_at = t_created_at t, te_updated_at = t_updated_at t, te_status_changed_at = Some (t_status_changed_at t),
      te_completed_at = t_completed_at t\<rparr>"

definition require_manager :: "id \<Rightarrow> id \<Rightarrow> store \<Rightarrow> bool" where
  "require_manager user org s = (case currentRole user org s of Inl _ \<Rightarrow> False | Inr role \<Rightarrow> role = Owner \<or> role = Admin)"

definition exported_tasks :: "server \<Rightarrow> time \<Rightarrow> id \<Rightarrow> task_filter \<Rightarrow> date_bounds \<Rightarrow> store \<Rightarrow> (organization_row \<times> task_row) list" where
  "exported_tasks sv clock org f b s =
     (case organization_of org s of None \<Rightarrow> [] | Some g \<Rightarrow> map (Pair g) (filter (task_exported sv clock g f b) (tasks s)))"

definition CountExport :: "server \<Rightarrow> time \<Rightarrow> id \<Rightarrow> id \<Rightarrow> task_filter \<Rightarrow> store \<Rightarrow> int result" where
  "CountExport sv clock user org f s =
     (if \<not> require_manager user org s then Inl Work_ErrForbidden
      else case filter_dates sv f of
        Inl e \<Rightarrow> Inl e
      | Inr b \<Rightarrow> Inr (int (length (exported_tasks sv clock org f b s))))"

text \<open>\<^verbatim>\<open>emit\<close> takes the rows one by one and may refuse.\<close>

fun emit_rows :: "('o \<Rightarrow> task_export_row \<Rightarrow> 'o result) \<Rightarrow> task_export_row list \<Rightarrow> 'o \<Rightarrow> 'o result" where
  "emit_rows emit [] out = Inr out"
| "emit_rows emit (r # rs) out = (case emit out r of Inl e \<Rightarrow> Inl e | Inr out' \<Rightarrow> emit_rows emit rs out')"

definition ExportRows ::
  "server \<Rightarrow> time \<Rightarrow> id \<Rightarrow> id \<Rightarrow> task_filter \<Rightarrow> ('o \<Rightarrow> task_export_row \<Rightarrow> 'o result) \<Rightarrow> 'o \<Rightarrow> store \<Rightarrow> 'o result" where
  "ExportRows sv clock user org f emit out s =
     (if \<not> require_manager user org s then Inl Work_ErrForbidden
      else case filter_dates sv f of
        Inl e \<Rightarrow> Inl e
      | Inr b \<Rightarrow>
          emit_rows emit (map (\<lambda>(g, t). task_export_row sv clock g s t)
            (descending (\<lambda>(g, t). task_position t) (exported_tasks sv clock org f b s))) out)"

record export_request =
  eq_id :: id
  eq_org :: id
  eq_actor :: id
  eq_request :: string
  eq_key :: string
  eq_format :: string
  eq_filters :: json
  eq_now :: time

definition export_check :: "export_job_row \<Rightarrow> bool" where
  "export_check e =
     (ej_mode e \<in> {''sync'', ''background''} \<and> ej_status e \<in> {''Queued'', ''Running'', ''Completed'', ''Failed'', ''Expired''}
      \<and> 0 \<le> ej_row_count e \<and> ej_row_count e \<le> 100000 \<and> (\<forall>b \<in> set_option (ej_bytes e). 0 \<le> b))"

definition requested_export :: "export_request \<Rightarrow> export_job_row" where
  "requested_export q =
     \<lparr>ej_id = eq_id q, ej_org = eq_org q, ej_requester = eq_actor q, ej_mode = ''sync'', ej_status = ''Running'',
      ej_requested_at = eq_now q, ej_started_at = Some (eq_now q), ej_completed_at = None, ej_expired_at = None, ej_failed_at = None,
      ej_failure_code = None, ej_row_count = 0, ej_bytes = None, ej_object_key = None, ej_object_expires_at = None\<rparr>"

definition export_outcome :: "string \<Rightarrow> int \<Rightarrow> int \<Rightarrow> string \<Rightarrow> time \<Rightarrow> export_job_row \<Rightarrow> export_job_row" where
  "export_outcome lifecycle rows bytes reason now e =
     (let status = (if lifecycle = ''completed'' then ''Completed'' else ''Failed'') in
      e\<lparr>ej_status := status, ej_row_count := rows, ej_bytes := Some bytes,
        ej_completed_at := (if status = ''Completed'' then Some now else None),
        ej_failed_at := (if status = ''Failed'' then Some now else None), ej_failure_code := null_if_empty reason\<rparr>)"

definition export_audit :: "export_request \<Rightarrow> string \<Rightarrow> int \<Rightarrow> int \<Rightarrow> string \<Rightarrow> audit_row" where
  "export_audit q lifecycle rows bytes reason =
     \<lparr>au_org = Some (eq_org q), au_actor = Some (eq_actor q), au_type = ''export.'' @ lifecycle, au_target_type = ''export'',
      au_target_id = eq_id q, au_request = Some (eq_request q), au_outcome = lifecycle, au_reason = null_if_empty reason,
      au_metadata = JObject [(''byte_count'', JNumber bytes), (''filters'', eq_filters q), (''row_count'', JNumber rows)],
      au_at = eq_now q\<rparr>"

definition AuditExport :: "export_request \<Rightarrow> string \<Rightarrow> int \<Rightarrow> int \<Rightarrow> string \<Rightarrow> (unit, store) txn" where
  "AuditExport q lifecycle rows bytes reason s =
     (if \<not> require_manager (eq_actor q) (eq_org q) s then Inl Work_ErrForbidden
      else
        let mine = (\<lambda>e. ej_org e = eq_org q \<and> ej_id e = eq_id q);
            change = export_outcome lifecycle rows bytes reason (eq_now q);
            audited = (\<lambda>s. s\<lparr>audit_events := audit_events s @ [export_audit q lifecycle rows bytes reason]\<rparr>)
        in if lifecycle = ''requested'' then
             if row_exists (\<lambda>e. ej_id e = eq_id q) (export_jobs s) then Inr ((), audited s)
             else Inr ((), audited (s\<lparr>export_jobs := export_jobs s @ [requested_export q]\<rparr>))
           else if row_exists (\<lambda>e. mine e \<and> \<not> export_check (change e)) (export_jobs s) then Inl (CheckViolation ''export_jobs'')
           else Inr ((), audited (s\<lparr>export_jobs := sql_update mine change (export_jobs s)\<rparr>)))"

record export_job =
  xj_id :: id
  xj_org :: id
  xj_requester :: id
  xj_status :: string
  xj_mode :: string
  xj_failure :: string
  xj_rows :: int
  xj_bytes :: int
  xj_requested_at :: time
  xj_started_at :: "time option"
  xj_completed_at :: "time option"
  xj_expires_at :: "time option"

definition export_job_of :: "export_job_row \<Rightarrow> export_job" where
  "export_job_of e =
     \<lparr>xj_id = ej_id e, xj_org = ej_org e, xj_requester = ej_requester e, xj_status = ej_status e, xj_mode = ej_mode e,
      xj_failure = null_text (ej_failure_code e), xj_rows = ej_row_count e, xj_bytes = (case ej_bytes e of None \<Rightarrow> 0 | Some b \<Rightarrow> b),
      xj_requested_at = ej_requested_at e, xj_started_at = ej_started_at e, xj_completed_at = ej_completed_at e,
      xj_expires_at = ej_object_expires_at e\<rparr>"

definition task_export_payload :: "export_request \<Rightarrow> int \<Rightarrow> (time \<Rightarrow> string) \<Rightarrow> json" where
  "task_export_payload q rows stamp =
     (let fmt = (if eq_format q = [] then ''csv'' else eq_format q) in
      JObject [(''data_as_of'', JString (stamp (eq_now q))), (''export_type'', JString ''tasks''), (''filters'', eq_filters q),
               (''format'', JString fmt), (''format_version'', JString (fmt @ ''-v1'')), (''row_count'', JNumber rows)])"

definition task_export_job :: "export_request \<Rightarrow> int \<Rightarrow> (time \<Rightarrow> string) \<Rightarrow> job_row" where
  "task_export_job q rows stamp =
     \<lparr>j_id = eq_id q, j_org = eq_org q, j_requester = Some (eq_actor q), j_kind = ''export'', j_status = ''Queued'',
      j_payload = task_export_payload q rows stamp, j_result = None, j_key = eq_key q, j_request_id = null_if_empty (eq_request q),
      j_attempts = 0, j_max_attempts = 5, j_current_attempt = None, j_lease_hash = None, j_lease = None, j_worker = None,
      j_available_at = eq_now q, j_created_at = eq_now q, j_started_at = None, j_completed_at = None, j_failed_at = None,
      j_cancelled_at = None, j_failure_code = None, j_stale_reclaims = 0, j_legacy = Some (eq_id q)\<rparr>"

definition queued_before :: "export_request \<Rightarrow> store \<Rightarrow> export_job_row option" where
  "queued_before q s =
     (case concat (map (\<lambda>j. filter (\<lambda>e. Some (ej_id e) = j_legacy j) (export_jobs s))
          (filter (\<lambda>j. j_org j = eq_org q \<and> j_kind j = ''export'' \<and> j_key j = eq_key q) (durable_jobs s))) of
        [] \<Rightarrow> None | e # _ \<Rightarrow> Some e)"

definition QueueExport :: "(time \<Rightarrow> string) \<Rightarrow> export_request \<Rightarrow> int \<Rightarrow> (export_job, store) txn" where
  "QueueExport stamp q rows s =
     (if \<not> require_manager (eq_actor q) (eq_org q) s then Inl Work_ErrForbidden
      else case queued_before q s of
        Some e \<Rightarrow> Inr (export_job_of e, s)
      | None \<Rightarrow>
          let mine = (\<lambda>e. ej_org e = eq_org q \<and> ej_id e = eq_id q \<and> ej_requester e = eq_actor q);
              queue = (\<lambda>e. e\<lparr>ej_mode := ''background'', ej_status := ''Queued'', ej_started_at := None, ej_row_count := rows\<rparr>);
              s1 = s\<lparr>export_jobs := sql_update mine queue (export_jobs s)\<rparr>;
              job = \<lparr>xj_id = eq_id q, xj_org = eq_org q, xj_requester = eq_actor q, xj_status = ''Queued'', xj_mode = ''background'',
                     xj_failure = [], xj_rows = rows, xj_bytes = 0, xj_requested_at = eq_now q, xj_started_at = None,
                     xj_completed_at = None, xj_expires_at = None\<rparr>
          in if row_exists (\<lambda>e. mine e \<and> \<not> export_check (queue e)) (export_jobs s) then Inl (CheckViolation ''export_jobs'')
             else if rows_affected mine (export_jobs s) \<noteq> 1 then Inl Work_ErrNotFound
             else if \<not> job_check (task_export_job q rows stamp) then Inl (CheckViolation ''durable_jobs'')
             else if row_exists (\<lambda>j. j_org j = eq_org q \<and> j_kind j = ''export'' \<and> j_key j = eq_key q) (durable_jobs s) then Inr (job, s1)
             else if row_exists (\<lambda>j. j_legacy j = Some (eq_id q)) (durable_jobs s)
             then Inl (UniqueViolation ''durable_jobs_legacy_export_job_id_key'')
             else case insert_job (task_export_job q rows stamp) s1 of
               Inl e \<Rightarrow> Inl e
             | Inr (_, s2) \<Rightarrow> Inr (job, s2))"

definition export_position :: "export_job_row \<Rightarrow> time \<times> id" where
  "export_position e = (ej_requested_at e, ej_id e)"

definition ListExports ::
  "(time \<Rightarrow> bytes) \<Rightarrow> (bytes \<Rightarrow> time option) \<Rightarrow> id \<Rightarrow> id \<Rightarrow> nat \<Rightarrow> string \<Rightarrow> store \<Rightarrow> (export_job list \<times> string) result" where
  "ListExports stamp parse user org limit cursor s =
     (if \<not> require_manager user org s then Inl Work_ErrForbidden
      else case decodeCursor parse cursor of
        Inl _ \<Rightarrow> Inl Work_ErrConflict
      | Inr position \<Rightarrow>
          let rows = descending export_position (filter (\<lambda>e. ej_org e = org \<and> after_position export_position position e) (export_jobs s))
          in Inr (page_of limit (\<lambda>e. encodeCursor stamp (xj_requested_at e) (xj_id e)) (map export_job_of (take (limit + 1) rows))))"

section \<open>Files\<close>

text \<open>A cell that a spreadsheet would read as a formula gets an apostrophe in front.\<close>

definition formula_chars :: "char list" where "formula_chars = ''=+-@''"

definition line_chars :: "char list" where "line_chars = map byte_char [9, 13, 10]"

definition safeCSVCell :: "string \<Rightarrow> string" where
  "safeCSVCell v =
     (let trimmed = TrimLeftFunc is_space v in
      if (v \<noteq> [] \<and> hd v \<in> set line_chars) \<or> (trimmed \<noteq> [] \<and> hd trimmed \<in> set formula_chars) then apostrophe # v else v)"

definition timestamp :: "(time \<Rightarrow> string) \<Rightarrow> time \<Rightarrow> string" where
  "timestamp rfc3339 at = (if at = zero_time then [] else rfc3339 at)"

definition nullableTimestamp :: "(time \<Rightarrow> string) \<Rightarrow> time option \<Rightarrow> string" where
  "nullableTimestamp rfc3339 at = (case at of None \<Rightarrow> [] | Some t \<Rightarrow> timestamp rfc3339 t)"

definition export_header :: "string list" where
  "export_header = [''organization_id'', ''organization_name'', ''task_id'', ''title'', ''description'', ''status'', ''priority'', ''due_date'',
     ''is_overdue'', ''creator_display_name'', ''assignee_display_name'', ''watcher_display_names'', ''created_at'', ''updated_at'',
     ''status_changed_at'', ''completed_at'']"

definition exportRecord :: "(time \<Rightarrow> string) \<Rightarrow> task_export_row \<Rightarrow> bool \<Rightarrow> string list" where
  "exportRecord rfc3339 r safe =
     (let guard = (if safe then safeCSVCell else id) in
      [te_org r, guard (te_org_name r), te_task r, guard (te_title r), guard (te_description r), te_status r, te_priority r,
       te_due_on r, (if te_overdue r then ''true'' else ''false''), guard (te_creator r), guard (te_assignee r), guard (te_watchers r),
       timestamp rfc3339 (te_created_at r), timestamp rfc3339 (te_updated_at r), nullableTimestamp rfc3339 (te_status_changed_at r),
       nullableTimestamp rfc3339 (te_completed_at r)])"

definition WriteCSV :: "(time \<Rightarrow> string) \<Rightarrow> task_export_row list \<Rightarrow> string" where
  "WriteCSV rfc3339 rows =
     byte_order_mark @ csv_line export_header @ concat (map (\<lambda>r. csv_line (exportRecord rfc3339 r True)) rows)"

section \<open>Cells\<close>

definition starts_formula :: "string \<Rightarrow> bool" where
  "starts_formula v =
     ((v \<noteq> [] \<and> hd v \<in> set line_chars)
      \<or> (let trimmed = TrimLeftFunc is_space v in trimmed \<noteq> [] \<and> hd trimmed \<in> set formula_chars))"

lemma TrimLeftFunc_solid:
  assumes "byte c < 128" "\<not> P (byte c)"
  shows "TrimLeftFunc P (c # cs) = c # cs"
proof -
  have r: "runes (c # cs) = (byte c, [c]) # runes cs" by (rule runes_ascii_Cons [OF assms(1)])
  have "trim_left_runes P (runes (c # cs)) = runes (c # cs)" unfolding r trim_left_runes_def using assms(2) by simp
  then show ?thesis unfolding TrimLeftFunc_def by (simp only: unrunes_runes)
qed

lemma safe_cell: "\<not> starts_formula (safeCSVCell v) \<and> (safeCSVCell v = v \<or> safeCSVCell v = apostrophe # v)"
proof -
  have "TrimLeftFunc is_space (apostrophe # v) = apostrophe # v"
    by (rule TrimLeftFunc_solid) (simp_all add: apostrophe_def is_space_def)
  moreover have "apostrophe \<notin> set line_chars" "apostrophe \<notin> set formula_chars" by code_simp+
  ultimately have "\<not> starts_formula (apostrophe # v)" by (simp add: starts_formula_def)
  then show ?thesis by (auto simp: safeCSVCell_def starts_formula_def Let_def)
qed

lemma record_cells: "length (exportRecord rfc3339 r safe) = length export_header"
  by (simp add: exportRecord_def export_header_def Let_def)

section \<open>Worker cycles and the inbox\<close>

text \<open>What every step of the worker keeps: the preferences, and each notification whose recipient set no preference.\<close>

definition inbox_kept :: "store \<Rightarrow> store \<Rightarrow> bool" where
  "inbox_kept s s' =
     (notification_preferences s' = notification_preferences s
      \<and> (\<forall>n \<in> set (notifications s). preference_of (n_org n) (n_recipient n) (n_category n) s = None \<longrightarrow> n \<in> set (notifications s'))
      \<and> (distinct (map notification_key (notifications s)) \<and> distinct (map n_id (notifications s))
         \<longrightarrow> distinct (map notification_key (notifications s')) \<and> distinct (map n_id (notifications s'))))"

lemma inbox_kept_refl [simp]: "inbox_kept s s"
  by (simp add: inbox_kept_def)

lemma inbox_kept_trans: "inbox_kept s t \<Longrightarrow> inbox_kept t u \<Longrightarrow> inbox_kept s u"
  by (simp add: inbox_kept_def preference_of_def)

lemma inbox_kept_insert:
  assumes "insert_each notification_key n_id name rows (notifications s) = Inr (k, ns)"
    and "notifications s' = ns" "notification_preferences s' = notification_preferences s"
  shows "inbox_kept s s'"
  using insert_eachD [OF assms(1)] insert_each_distinct [OF assms(1)] by (auto simp: inbox_kept_def assms(2,3))

lemma queueImmediateLINE_keeps:
  "queueImmediateLINE sv prefix now s = Inr (u, s') \<Longrightarrow>
     notifications s' = notifications s \<and> notification_preferences s' = notification_preferences s \<and> domain_events s' = domain_events s"
  using queueImmediateLINED(1) by fastforce

lemma inbox_ScheduleReminders: "ScheduleReminders sv now s = Inr (n, s') \<Longrightarrow> inbox_kept s s'"
  by (erule ScheduleRemindersE) (auto intro!: inbox_kept_insert dest!: queueImmediateLINE_keeps)

lemma inbox_ProcessDomainEvents:
  assumes "ProcessDomainEvents sv clock dbnow limit lease s = Inr (n, s')"
  shows "inbox_kept s s'"
proof (cases "eligible_events dbnow limit s = []")
  case True
  then show ?thesis using assms by (simp add: ProcessDomainEvents_def)
next
  case False
  let ?es = "eligible_events dbnow limit s"
  let ?s1 = "s\<lparr>domain_events := sql_update (\<lambda>e. de_id e \<in> set (map de_id ?es))
     (\<lambda>e. e\<lparr>de_state := Processing, de_lease := Some (dbnow + lease div Second * Second)\<rparr>) (domain_events s)\<rparr>"
  obtain k ns s2 where step: "insert_each notification_key n_id ''notifications_pkey'' (event_notifications sv dbnow ?es ?s1) (notifications ?s1) = Inr (k, ns)"
    "queueImmediateLINE sv ''event:'' clock (?s1\<lparr>notifications := ns\<rparr>) = Inr ((), s2)"
    "notifications s' = notifications s2 \<and> notification_preferences s' = notification_preferences s2"
    using assms [unfolded ProcessDomainEvents_def Let_def if_not_P [OF False]] by (auto split: sum.splits)
  have "notifications s' = ns" "notification_preferences s' = notification_preferences s"
    using queueImmediateLINE_keeps [OF step(2)] step(3) by simp_all
  then show ?thesis using inbox_kept_insert [of "''notifications_pkey''" "event_notifications sv dbnow ?es ?s1" s k ns s'] step(1) by simp
qed

lemma inbox_ProcessDigests:
  assumes "ProcessDigests sv now s = Inr (n, s')" shows "inbox_kept s s'"
proof -
  have s': "notifications s' = sql_update (digestible sv now s) (\<lambda>n. n\<lparr>n_digested_at := Some now\<rparr>) (notifications s)"
    "notification_preferences s' = notification_preferences s"
    using assms by (auto simp: ProcessDigests_def split: sum.splits)
  have "map notification_key (notifications s') = map notification_key (notifications s)" "map n_id (notifications s') = map n_id (notifications s)"
    unfolding s' by (rule map_sql_update; simp add: notification_key_def)+
  moreover have "n \<in> set (notifications s')"
    if n: "n \<in> set (notifications s)" "preference_of (n_org n) (n_recipient n) (n_category n) s = None" for n
  proof -
    have "\<not> digestible sv now s n" using n(2) by (simp add: digestible_def)
    then show ?thesis using n(1) unfolding s' set_sql_update by force
  qed
  ultimately show ?thesis by (simp add: inbox_kept_def s'(2))
qed

lemma inbox_send_claimed: "inbox_kept s (snd (send_claimed send finish c s))"
proof -
  have "notifications (fold (deliver send a b) ds t) = notifications t \<and> notification_preferences (fold (deliver send a b) ds t) = notification_preferences t"
    for a b ds t by (induction ds arbitrary: t) (simp_all add: deliver_settles)
  then show ?thesis by (simp add: send_claimed_def split_beta ClaimLINEDeliveries_def Let_def inbox_kept_def)
qed

lemma inbox_RunWorkOnce: "inbox_kept s (snd (RunWorkOnce sv send finish c s))"
proof (cases "ScheduleReminders sv (cy_now c) s")
  case (Inl e)
  then show ?thesis by (simp add: RunWorkOnce_def)
next
  case (Inr p)
  then obtain a s1 where r1: "ScheduleReminders sv (cy_now c) s = Inr (a, s1)" by (cases p) simp
  note k1 = inbox_ScheduleReminders [OF r1]
  show ?thesis
  proof (cases "ProcessDomainEvents sv (cy_now c) (cy_events c) 100 Minute s1")
    case (Inl e)
    then show ?thesis using k1 by (simp add: RunWorkOnce_def r1)
  next
    case (Inr p)
    then obtain b s2 where r2: "ProcessDomainEvents sv (cy_now c) (cy_events c) 100 Minute s1 = Inr (b, s2)" by (cases p) simp
    note k2 = inbox_kept_trans [OF k1 inbox_ProcessDomainEvents [OF r2]]
    show ?thesis
    proof (cases "ProcessDigests sv (cy_now c) s2")
      case (Inl e)
      then show ?thesis using k2 by (simp add: RunWorkOnce_def r1 r2)
    next
      case (Inr p)
      then obtain d s3 where r3: "ProcessDigests sv (cy_now c) s2 = Inr (d, s3)" by (cases p) simp
      have "inbox_kept s s3" by (rule inbox_kept_trans [OF k2 inbox_ProcessDigests [OF r3]])
      then show ?thesis using inbox_kept_trans [OF _ inbox_send_claimed] by (simp add: RunWorkOnce_def r1 r2 r3 split_beta)
    qed
  qed
qed

record cycle =
  cc_send :: "line_delivery \<Rightarrow> err option"
  cc_finish :: "line_delivery list \<Rightarrow> line_delivery list"
  cc_clock :: cycle_clock

definition run_cycles :: "server \<Rightarrow> cycle list \<Rightarrow> store \<Rightarrow> store" where
  "run_cycles sv cs s = fold (\<lambda>c s. snd (RunWorkOnce sv (cc_send c) (cc_finish c) (cc_clock c) s)) cs s"

lemma inbox_run_cycles: "inbox_kept s (run_cycles sv cs s)"
  unfolding run_cycles_def
  by (induction cs arbitrary: s) (auto intro: inbox_kept_trans inbox_RunWorkOnce)

lemma listed_notification:
  assumes "ListNotifications stamp parse user org limit cursor s = Inr (items, next)" "i \<in> ni_id ` set items"
  shows "\<exists>n \<in> set (notifications s). n_id n = i \<and> inbox_shows n"
proof -
  obtain m position where m: "membershipFor user org s = Inr m" and d: "decodeCursor parse cursor = Inr position"
    using assms(1) by (cases "membershipFor user org s"; cases "decodeCursor parse cursor") (auto simp: ListNotifications_def)
  have items: "items = fst (page_of limit (\<lambda>n. encodeCursor stamp (ni_created_at n) (ni_id n)) (map notification_item
      (take (limit + 1) (descending notification_position (filter (\<lambda>n. n_org n = org \<and> n_recipient n = user \<and> inbox_shows n
                \<and> after_position notification_position position n) (notifications s))))))"
    using assms(1) unfolding ListNotifications_def m d sum.case Let_def by simp
  have "set items \<subseteq> notification_item ` set (descending notification_position (filter (\<lambda>n. n_org n = org \<and> n_recipient n = user \<and> inbox_shows n
                \<and> after_position notification_position position n) (notifications s)))"
    unfolding items page_of_def by (auto dest!: in_set_takeD)
  moreover obtain x where "x \<in> set items" "i = ni_id x" using assms(2) by blast
  ultimately show ?thesis by (force simp: notification_item_def)
qed

text \<open>A notification in digest mode whose recipient never set a preference for its category is never put in a digest,
  whatever cycles the worker runs, and no page of the inbox ever shows it.  Digest is the default mode for changes of
  tasks, so a member with default preferences sees none of them.\<close>

theorem default_digest_unseen:
  assumes "n \<in> set (notifications s)" "n_mode n = ''Digest''" "n_digested_at n = None"
    and "preference_of (n_org n) (n_recipient n) (n_category n) s = None"
    and "distinct (map notification_key (notifications s))" "distinct (map n_id (notifications s))"
  shows "n \<in> set (notifications (run_cycles sv cs s))
    \<and> (case ListNotifications stamp parse (n_recipient n) (n_org n) limit cursor (run_cycles sv cs s) of
         Inl _ \<Rightarrow> True | Inr (items, next) \<Rightarrow> n_id n \<notin> ni_id ` set items)"
proof -
  have keep: "n \<in> set (notifications (run_cycles sv cs s))" "distinct (map n_id (notifications (run_cycles sv cs s)))"
    using inbox_run_cycles [of s sv cs] assms by (auto simp: inbox_kept_def)
  have "\<not> inbox_shows n" using assms(2,3) by (simp add: inbox_shows_def)
  then have "\<not> (\<exists>m \<in> set (notifications (run_cycles sv cs s)). n_id m = n_id n \<and> inbox_shows m)"
    using keep by (metis distinct_map inj_onD)
  then show ?thesis
    using keep(1) listed_notification [of stamp parse "n_recipient n" "n_org n" limit cursor "run_cycles sv cs s" _ _ "n_id n"]
    by (cases "ListNotifications stamp parse (n_recipient n) (n_org n) limit cursor (run_cycles sv cs s)") (simp_all add: split_beta, metis prod.collapse)
qed
text \<open>Bo, who watches a task and has the default preferences, is not shown that it was finished.\<close>

definition demo_cycle :: "time \<Rightarrow> cycle" where
  "demo_cycle t = \<lparr>cc_send = (\<lambda>_. None), cc_finish = id, cc_clock = \<lparr>cy_now = t, cy_events = t, cy_claim = t, cy_fail = t\<rparr>\<rparr>"

definition demo_unseen :: store where
  "demo_unseen = run_cycles demo_server [demo_cycle 50]
     (fold work_step [TaskWatch 2 ''o1'' ''u2'' ''t1'' ''u2'' True 6, TaskUpdate demo_server (\<lambda>k. k + 3) 7 demo_update] demo_tasks)"

theorem default_digest_unseen_witness:
  "map_sum id fst (ListNotifications (\<lambda>t. []) (\<lambda>b. None) ''u2'' ''o1'' 50 [] (run_cycles demo_server [demo_cycle 60] demo_unseen)) = Inr []
   \<and> map n_key (filter (\<lambda>n. n_recipient n = ''u2'') (notifications (run_cycles demo_server [demo_cycle 60] demo_unseen)))
     = [''event:3:u2'']"
proof -
  have rows: "map (\<lambda>n. (n_id n, n_org n, n_recipient n, n_category n, n_key n, n_mode n, n_digested_at n)) (notifications demo_unseen)
      = [(''notification:1:u1'', ''o1'', ''u1'', ''Assignment'', ''event:1:u1'', ''Immediate'', None),
         (''notification:3:u2'', ''o1'', ''u2'', ''TaskChange'', ''event:3:u2'', ''Digest'', None)]"
    by code_simp
  have prefs: "notification_preferences demo_unseen = []" by code_simp
  let ?n = "notifications demo_unseen ! 1"
  have n: "notifications demo_unseen = [hd (notifications demo_unseen), ?n]" "n_mode ?n = ''Digest''" "n_digested_at ?n = None"
    "preference_of (n_org ?n) (n_recipient ?n) (n_category ?n) demo_unseen = None" "n_recipient ?n = ''u2''" "n_org ?n = ''o1''"
    "distinct (map notification_key (notifications demo_unseen))" "distinct (map n_id (notifications demo_unseen))"
    using rows by (auto simp: map_eq_Cons_conv preference_of_def prefs notification_key_def)
  have "?n \<in> set (notifications demo_unseen)" using n(1) by (metis list.set_intros)
  note u = default_digest_unseen [OF this n(2,3,4,7,8), of demo_server "[demo_cycle 60]" "\<lambda>t. []" "\<lambda>b. None" 50 "[]", unfolded n(5,6)]
  have "\<not> isl (ListNotifications (\<lambda>t. []) (\<lambda>b. None) ''u2'' ''o1'' 50 [] (run_cycles demo_server [demo_cycle 60] demo_unseen))"
    "map n_key (filter (\<lambda>n. n_recipient n = ''u2'') (notifications (run_cycles demo_server [demo_cycle 60] demo_unseen))) = [''event:3:u2'']"
    "map_sum id fst (ListNotifications (\<lambda>t. []) (\<lambda>b. None) ''u2'' ''o1'' 50 [] (run_cycles demo_server [demo_cycle 60] demo_unseen)) = Inr []"
    by code_simp+
  then show ?thesis using u by auto
qed

section \<open>Lists and exports agree\<close>

lemma decode_encode_cursor:
  assumes "parse (stamp at) = Some at" "CHR ''|'' \<notin> set (stamp at)" "i \<noteq> []"
  shows "decodeCursor parse (encodeCursor stamp at i) = Inr (Some (at, i))" "encodeCursor stamp at i \<noteq> []"
proof -
  have "EncodeToString (stamp at @ ''|'' @ i) \<noteq> []"
  proof
    assume "EncodeToString (stamp at @ ''|'' @ i) = []"
    then have "DecodeString (EncodeToString (stamp at @ ''|'' @ i)) = DecodeString (EncodeToString [])" by (simp add: EncodeToString_def)
    then show False by simp
  qed
  then show "encodeCursor stamp at i \<noteq> []" "decodeCursor parse (encodeCursor stamp at i) = Inr (Some (at, i))"
    using split2_append [OF assms(2), of i] assms(1,3) by (simp_all add: encodeCursor_def decodeCursor_def)
qed

definition task_cursor :: "(time \<Rightarrow> bytes) \<Rightarrow> task_row option \<Rightarrow> string" where
  "task_cursor stamp p = (case p of None \<Rightarrow> [] | Some t \<Rightarrow> encodeCursor stamp (t_created_at t) (t_id t))"

definition listed_tasks :: "server \<Rightarrow> time \<Rightarrow> organization_row \<Rightarrow> task_filter \<Rightarrow> date_bounds \<Rightarrow> store \<Rightarrow> task_row list" where
  "listed_tasks sv clock g f b s = descending task_position (filter (task_listed sv clock g f b) (tasks s))"

text \<open>What a list needs: a member, readable dates, a positive page size, rows that can be scanned (every watcher has a name)
  and instants that the cursor's layout writes and reads back.\<close>

definition task_readable :: "(time \<Rightarrow> bytes) \<Rightarrow> (bytes \<Rightarrow> time option) \<Rightarrow> server \<Rightarrow> store \<Rightarrow> task_row \<Rightarrow> bool" where
  "task_readable stamp parse sv s t =
     (parse (stamp (t_created_at t)) = Some (t_created_at t) \<and> CHR ''|'' \<notin> set (stamp (t_created_at t)) \<and> t_id t \<noteq> []
      \<and> None \<notin> set (watcher_names sv s t))"

definition tasks_listable ::
  "(time \<Rightarrow> bytes) \<Rightarrow> (bytes \<Rightarrow> time option) \<Rightarrow> server \<Rightarrow> id \<Rightarrow> organization_row \<Rightarrow> task_filter \<Rightarrow> date_bounds \<Rightarrow> nat \<Rightarrow> store \<Rightarrow> bool" where
  "tasks_listable stamp parse sv user g f b limit s =
     ((\<exists>m. membershipFor user (o_id g) s = Inr m) \<and> organization_of (o_id g) s = Some g \<and> filter_dates sv f = Inr b \<and> 0 < limit
      \<and> distinct (map t_id (tasks s)) \<and> list_all (task_readable stamp parse sv s) (tasks s))"

lemma listed_tasks_sorted:
  assumes "distinct (map t_id (tasks s))"
  shows "sorted_wrt (\<lambda>a b. task_position b < task_position a) (listed_tasks sv clock g f b s)"
  unfolding listed_tasks_def
  by (rule descending_sorted) (use assms in \<open>auto simp: task_position_def distinct_map inj_on_def\<close>)

lemma after_cursor:
  fixes key :: "'r \<Rightarrow> time \<times> id"
  assumes "cut_at p (descending key (filter P rows)) before rest" "sorted_wrt (\<lambda>a b. key b < key a) (descending key (filter P rows))"
  shows "descending key (filter (\<lambda>r. P r \<and> after_position key (map_option key p) r) rows) = rest"
proof -
  have rows: "descending key (filter P rows) = before @ rest" using assms(1) by (simp add: cut_at_def)
  show ?thesis
  proof (cases p)
    case None
    then show ?thesis using assms(1) by (simp add: cut_at_def after_position_def)
  next
    case (Some d)
    then obtain xs where xs: "before = xs @ [d]" using assms(1) by (auto simp: cut_at_def)
    have "descending key (filter (\<lambda>r. P r \<and> key r < key d) rows) = filter (\<lambda>r. key r < key d) (descending key (filter P rows))"
      unfolding descending_filter [symmetric] filter_filter by (simp add: conj_commute)
    also have "\<dots> = rest" unfolding rows by (rule rows_after) (use assms(2) rows xs in auto)
    finally show ?thesis using Some by (simp add: after_position_def)
  qed
qed

lemma page_of_map:
  assumes "0 < limit"
  shows "page_of limit next (map f (take (limit + 1) rest))
    = (map f (take limit rest), if length rest > limit then next (f (rest ! (limit - 1))) else [])"
proof (cases "length rest > limit")
  case True
  then have "map f (take (limit + 1) rest) ! (limit - 1) = f (rest ! (limit - 1))" using assms by simp
  then show ?thesis using True by (simp add: page_of_def take_map [symmetric] min_def)
next
  case False
  then show ?thesis by (simp add: page_of_def)
qed

definition scanned :: "server \<Rightarrow> time \<Rightarrow> organization_row \<Rightarrow> store \<Rightarrow> task_row \<Rightarrow> task" where
  "scanned sv clock g s t = projr (scanTask sv clock g s t)"

lemma scanned_task:
  "task_readable stamp parse sv s t \<Longrightarrow> scanTask sv clock g s t = Inr (scanned sv clock g s t)
    \<and> tk_id (scanned sv clock g s t) = t_id t \<and> tk_created_at (scanned sv clock g s t) = t_created_at t"
  by (simp add: scanned_def scanTask_def task_readable_def Let_def)

interpretation task_pages: paged_list "tasks_listable stamp parse sv user g f b limit s" "listed_tasks sv clock g f b s" tk_id t_id
  "task_cursor stamp" "\<lambda>c. ListTasks sv stamp parse clock user (o_id g) f limit c s" limit
proof unfold_locales
  assume "tasks_listable stamp parse sv user g f b limit s"
  then obtain m where ok: "membershipFor user (o_id g) s = Inr m" "organization_of (o_id g) s = Some g" "filter_dates sv f = Inr b" "0 < limit"
    "distinct (map t_id (tasks s))" "list_all (task_readable stamp parse sv s) (tasks s)" by (auto simp: tasks_listable_def)
  have readable: "task_readable stamp parse sv s t" if "t \<in> set (listed_tasks sv clock g f b s)" for t
    using that ok(6) by (auto simp: listed_tasks_def list_all_iff)
  show "0 < limit" by (rule ok(4))
  show "task_cursor stamp None = []" by (simp add: task_cursor_def)
  show "task_cursor stamp (Some d) \<noteq> []" if "d \<in> set (listed_tasks sv clock g f b s)" for d
    using readable [OF that] decode_encode_cursor(2) by (simp add: task_cursor_def task_readable_def)
  fix p before rest
  assume cut: "cut_at p (listed_tasks sv clock g f b s) before rest"
  have rest: "task_readable stamp parse sv s t" if "t \<in> set rest" for t using readable that cut by (simp add: cut_at_def)
  have dec: "decodeCursor parse (task_cursor stamp p) = Inr (map_option task_position p)"
  proof (cases p)
    case None
    then show ?thesis by (simp add: task_cursor_def decodeCursor_def)
  next
    case (Some d)
    then have "task_readable stamp parse sv s d" using cut readable by (auto simp: cut_at_def)
    then show ?thesis using Some decode_encode_cursor(1) by (simp add: task_cursor_def task_readable_def task_position_def)
  qed
  have rows: "descending task_position (filter (\<lambda>t. task_listed sv clock g f b t \<and> after_position task_position (map_option task_position p) t) (tasks s)) = rest"
    by (rule after_cursor) (use cut listed_tasks_sorted [OF ok(5)] in \<open>simp_all add: listed_tasks_def\<close>)
  have "collect_rows (\<lambda>(g, t). scanTask sv clock g s t) (map (Pair g) (take (limit + 1) rest))
      = Inr (map (scanned sv clock g s) (take (limit + 1) rest))"
    using collect_rows_map [of "map (Pair g) (take (limit + 1) rest)" "\<lambda>(g, t). scanTask sv clock g s t" "\<lambda>(g, t). scanned sv clock g s t"]
      scanned_task rest by (fastforce simp: comp_def dest: in_set_takeD)
  then have "ListTasks sv stamp parse clock user (o_id g) f limit (task_cursor stamp p) s
      = Inr (page_of limit (\<lambda>t. encodeCursor stamp (tk_created_at t) (tk_id t)) (map (scanned sv clock g s) (take (limit + 1) rest)))"
    by (simp add: ListTasks_def ok(1,2,3) dec rows take_map)
  moreover have "encodeCursor stamp (tk_created_at (scanned sv clock g s (rest ! (limit - 1)))) (tk_id (scanned sv clock g s (rest ! (limit - 1))))
      = task_cursor stamp (Some (rest ! (limit - 1)))" if "length rest > limit"
    using scanned_task [OF rest, of "rest ! (limit - 1)"] that ok(4) by (simp add: task_cursor_def)
  moreover have "map tk_id (map (scanned sv clock g s) (take limit rest)) = map t_id (take limit rest)"
    using scanned_task [OF rest] by (auto dest!: in_set_takeD)
  ultimately show "\<exists>items. ListTasks sv stamp parse clock user (o_id g) f limit (task_cursor stamp p) s
      = Inr (items, if length rest > limit then task_cursor stamp (Some (rest ! (limit - 1))) else []) \<and> map tk_id items = map t_id (take limit rest)"
    unfolding page_of_map [OF ok(4)] by (intro exI [of _ "map (scanned sv clock g s) (take limit rest)"]) auto
qed
lemma sort_key_map: "sort_key k (map f xs) = map f (sort_key (\<lambda>x. k (f x)) xs)"
proof -
  have "insort_key k (f x) (map f ys) = map f (insort_key (\<lambda>x. k (f x)) x ys)" for x ys by (induction ys) auto
  then show ?thesis by (induction xs) simp_all
qed

lemma descending_map: "descending k (map f xs) = map f (descending (\<lambda>x. k (f x)) xs)"
  by (simp add: descending_def sort_key_map rev_map)

lemma emit_collect: "emit_rows (\<lambda>out r. Inr (out @ [f r])) rs out = Inr (out @ map f rs)"
  by (induction rs arbitrary: out) simp_all

text \<open>\<^bold>\<open>C25.\<close> Reading page after page gives every task that matches the filter once, newest first, and the export of the same
  filter has the same tasks in the same order and the announced count, with one exception: when the filter asks for
  tasks that are not overdue, the export leaves out the open tasks without a due date, which the list shows.\<close>

theorem export_matches_list:
  assumes "tasks_listable stamp parse sv user g f b limit s" "require_manager user (o_id g) s" "length (tasks s) < fuel"
  defines "left_out \<equiv> \<lambda>t. tf_overdue f = Some False \<and> task_active t \<and> t_due_on t = None"
  shows "map tk_id (read_pages fuel (\<lambda>c. ListTasks sv stamp parse clock user (o_id g) f limit c s) [])
      = map t_id (listed_tasks sv clock g f b s)
    \<and> ExportRows sv clock user (o_id g) f (\<lambda>out r. Inr (out @ [te_task r])) [] s
      = Inr (map t_id (filter (\<lambda>t. \<not> left_out t) (listed_tasks sv clock g f b s)))
    \<and> CountExport sv clock user (o_id g) f s = Inr (int (length (filter (\<lambda>t. \<not> left_out t) (listed_tasks sv clock g f b s))))"
proof -
  have ok: "organization_of (o_id g) s = Some g" "filter_dates sv f = Inr b" using assms(1) by (auto simp: tasks_listable_def)
  have fuel: "length (listed_tasks sv clock g f b s) < fuel"
    using le_less_trans [OF length_filter_le assms(3)] by (simp add: listed_tasks_def)
  have same: "task_exported sv clock g f b t = (\<not> left_out t \<and> task_listed sv clock g f b t)" for t
    by (auto simp: task_exported_def task_listed_def left_out_def export_overdue_def list_overdue_def is_overdue_def overdue_null_def
        split: option.splits if_splits)
  have rows: "filter (\<lambda>t. \<not> left_out t) (listed_tasks sv clock g f b s) = descending task_position (filter (task_exported sv clock g f b) (tasks s))"
    unfolding listed_tasks_def descending_filter [symmetric] filter_filter
    by (rule arg_cong [where f = "descending task_position"], rule filter_cong) (auto simp: same)
  have "exported_tasks sv clock (o_id g) f b s = map (Pair g) (filter (task_exported sv clock g f b) (tasks s))"
    by (simp add: exported_tasks_def ok(1))
  moreover have "te_task (task_export_row sv clock g s t) = t_id t" for t by (simp add: task_export_row_def)
  ultimately have "ExportRows sv clock user (o_id g) f (\<lambda>out r. Inr (out @ [te_task r])) [] s
      = Inr (map t_id (filter (\<lambda>t. \<not> left_out t) (listed_tasks sv clock g f b s)))"
    "CountExport sv clock user (o_id g) f s = Inr (int (length (filter (\<lambda>t. \<not> left_out t) (listed_tasks sv clock g f b s))))"
    unfolding rows by (simp_all add: ExportRows_def CountExport_def assms(2) ok(2) emit_collect descending_map comp_def)
  then show ?thesis using task_pages.read_all [OF assms(1) fuel] by blast
qed

text \<open>Two tasks, one with a due date in the future and one without: both are listed as not overdue, one is exported.\<close>

definition demo_open :: "id \<Rightarrow> string option \<Rightarrow> time \<Rightarrow> task_row" where
  "demo_open i due at = (created_task (demo_create\<lparr>ct_id := i, ct_now := at\<rparr>) due)"

definition demo_list :: store where
  "demo_list = demo_office\<lparr>tasks := [demo_open ''t1'' (Some ''2026-02-01'') 5, demo_open ''t2'' None 6]\<rparr>"

definition demo_not_overdue :: task_filter where
  "demo_not_overdue = \<lparr>tf_status = [], tf_priority = [], tf_assignee = [], tf_creator = [], tf_due_from = [], tf_due_to = [],
     tf_created_from = [], tf_created_to = [], tf_overdue = Some False\<rparr>"

definition demo_stamp :: "time \<Rightarrow> bytes" where "demo_stamp t = [byte_char (nat t)]"
definition demo_parse :: "bytes \<Rightarrow> time option" where "demo_parse b = (case b of [c] \<Rightarrow> Some (int (byte c)) | _ \<Rightarrow> None)"

theorem export_matches_list_witness:
  "map tk_id (read_pages 3 (\<lambda>c. ListTasks demo_server demo_stamp demo_parse 9 ''u1'' ''o1'' demo_not_overdue 1 c demo_list) []) = [''t2'', ''t1'']
   \<and> ExportRows demo_server 9 ''u1'' ''o1'' demo_not_overdue (\<lambda>out r. Inr (out @ [te_task r])) [] demo_list = Inr [''t1'']"
proof -
  let ?g = "demo_organization ''o1''"
  let ?b = "\<lparr>db_due_from = None, db_due_to = None, db_created_from = None, db_created_to = None\<rparr>"
  have id: "o_id ?g = ''o1''" by (simp add: demo_organization_def)
  have "\<not> isl (membershipFor ''u1'' ''o1'' demo_list)" "organization_of ''o1'' demo_list = Some ?g" "filter_dates demo_server demo_not_overdue = Inr ?b"
    "distinct (map t_id (tasks demo_list))" "list_all (task_readable demo_stamp demo_parse demo_server demo_list) (tasks demo_list)"
    by code_simp+
  then have ok: "tasks_listable demo_stamp demo_parse demo_server ''u1'' ?g demo_not_overdue ?b 1 demo_list"
    unfolding tasks_listable_def id by (auto simp: isl_def) (metis sum.exhaust)
  have "require_manager ''u1'' (o_id ?g) demo_list" "length (tasks demo_list) < 3" by code_simp+
  note m = export_matches_list [OF ok this, of 9, unfolded id]
  have "listed_tasks demo_server 9 ?g demo_not_overdue ?b demo_list = [demo_open ''t2'' None 6, demo_open ''t1'' (Some ''2026-02-01'') 5]"
    "tf_overdue demo_not_overdue = Some False" by code_simp+
  then show ?thesis using m by (simp add: demo_open_def created_task_def demo_create_def task_active_def)
qed

section \<open>Dashboards and audits\<close>

text \<open>The dashboard ranks the priorities by their text, Urgent, Normal, High.\<close>

lemma dashboard_ranks_normal_before_high:
  "map t_priority (dashboard_order (map (\<lambda>p. (demo_open p None 5)\<lparr>t_priority := p\<rparr>) [High, Normal, Urgent])) = [Urgent, Normal, High]"
  by code_simp

text \<open>An export that is rejected for having more than 100000 rows violates the bound of the column that records them, so that neither
  the rejection nor its audit event is stored.\<close>

lemma too_large_export_not_audited:
  assumes "require_manager (eq_actor q) (eq_org q) s" "e \<in> set (export_jobs s)" "ej_org e = eq_org q" "ej_id e = eq_id q" "100000 < rows"
  shows "AuditExport q ''rejected'' rows bytes reason s = Inl (CheckViolation ''export_jobs'')"
proof -
  have "\<not> export_check (export_outcome ''rejected'' rows bytes reason (eq_now q) e)"
    using assms(5) by (simp add: export_check_def export_outcome_def Let_def)
  then have "row_exists (\<lambda>e. (ej_org e = eq_org q \<and> ej_id e = eq_id q)
      \<and> \<not> export_check (export_outcome ''rejected'' rows bytes reason (eq_now q) e)) (export_jobs s)"
    using assms(2-4) by (auto simp: row_exists_iff)
  then show ?thesis using assms(1) by (simp add: AuditExport_def Let_def)
qed

end
