(* ===== verification/OcrRuns.thy ===== *)
theory OcrRuns
  imports Work Ocr
begin

text \<open>
  The OCR runs of a document: src/api/internal/postgres/ocr.go, except the request to process a document again, which
  also writes the review tables (theory Reviews).  A run is a row of \<^verbatim>\<open>document_ocr_runs\<close> and a durable job of the same
  identifier; its result is published when a worker completes the job under its lease.
\<close>

section \<open>Reading the input of a run\<close>

text \<open>A run that readers see: published, not superseded, not deleted.\<close>

definition run_current :: "ocr_run_row \<Rightarrow> bool" where
  "run_current r = (or_published_at r \<noteq> None \<and> or_superseded_at r = None \<and> or_deleted_at r = None)"

definition run_of :: "id \<Rightarrow> id \<Rightarrow> ocr_run_row \<Rightarrow> bool" where
  "run_of org doc r = (or_org r = org \<and> or_document r = doc)"

definition removed :: "string \<Rightarrow> bool" where
  "removed status = (status = ''Trash'' \<or> status = ''Purged'')"

definition result_text :: "string \<Rightarrow> job_row \<Rightarrow> string option" where
  "result_text k j = (case j_result j of None \<Rightarrow> None | Some r \<Rightarrow> json_text r k)"

text \<open>The worker that presents a lease holds it, or completed the job under it before.\<close>

definition completed_under :: "(bytes \<Rightarrow> bytes) \<Rightarrow> 'a lease_command_scheme \<Rightarrow> string \<Rightarrow> job_row \<Rightarrow> bool" where
  "completed_under hash c worker j =
     (j_status j = Completed \<and> result_text ''attempt_id'' j = Some (lm_attempt c)
      \<and> result_text ''lease_hash'' j = Some (hex_encode (leaseHash hash (lm_token c)))
      \<and> result_text ''worker_id'' j = Some worker)"

definition authorized :: "(bytes \<Rightarrow> bytes) \<Rightarrow> 'a lease_command_scheme \<Rightarrow> string \<Rightarrow> job_row \<Rightarrow> bool" where
  "authorized hash c worker j = ((lease_held hash c j \<and> j_worker j = Some worker) \<or> completed_under hash c worker j)"

text \<open>A payload without the version texts cannot be scanned into strings.\<close>

definition OCRInput :: "(bytes \<Rightarrow> bytes) \<Rightarrow> lease_command \<Rightarrow> string \<Rightarrow> store \<Rightarrow> ocr_input result" where
  "OCRInput hash c worker s =
     (case concat (map (\<lambda>j. concat (map (\<lambda>r. map (\<lambda>d. (j, d))
                (filter (\<lambda>d. d_id d = or_document r \<and> d_org d = or_org r \<and> \<not> removed (d_status d)
                   \<and> json_text (j_payload j) ''sha256'' = Some (hex_encode (d_sha256 d))) (documents s)))
              (filter (\<lambda>r. or_job r = j_id j) (document_ocr_runs s))))
            (filter (\<lambda>j. j_id j = lm_job c \<and> j_kind j = OCR \<and> authorized hash c worker j) (durable_jobs s))) of
        [] \<Rightarrow> Inl Job_ErrLeaseLost
      | (j, d) # _ \<Rightarrow>
          (case (d_storage_key d, json_text (j_payload j) ''model_version'', json_text (j_payload j) ''preprocessing_version'') of
             (Some key, Some model, Some pre) \<Rightarrow>
               Inr \<lparr>oi_org = d_org d, oi_document = d_id d, oi_sha256 = hex_encode (d_sha256 d), oi_mime = d_mime d,
                    oi_size = d_size d, oi_storage_key = key, oi_model = model, oi_preprocessing = pre\<rparr>
           | _ \<Rightarrow> Inl (OtherError ''cannot scan NULL into *string'')))"

section \<open>Completing a run\<close>

definition run_key :: "ocr_run_row \<Rightarrow> string option" where "run_key r = or_object_key r"

definition run_published :: "ocr_run_row \<Rightarrow> (id \<times> string) option" where
  "run_published r = (if or_published_at r \<noteq> None \<and> or_deleted_at r = None then Some (or_org r, or_fingerprint r) else None)"

definition run_check :: "ocr_run_row \<Rightarrow> bool" where
  "run_check r = ((\<forall>n \<in> set_option (or_bytes r). 1 \<le> n \<and> n \<le> 8388608) \<and> (\<forall>n \<in> set_option (or_pages r). 1 \<le> n \<and> n \<le> 20))"

text \<open>The UPDATE of the one run of a job under the table's CHECK constraints and unique indexes.\<close>

definition update_run :: "id \<Rightarrow> (ocr_run_row \<Rightarrow> ocr_run_row) \<Rightarrow> (unit, store) txn" where
  "update_run jid f s =
     (let rows = document_ocr_runs s; mine = (\<lambda>r. or_job r = jid); others = sql_delete mine rows in
      if list_ex (\<lambda>r. mine r \<and> \<not> run_check (f r)) rows then Inl (CheckViolation ''document_ocr_runs'')
      else if list_ex (\<lambda>r. mine r \<and> conflicts run_key (f r) others) rows then Inl (UniqueViolation ''document_ocr_runs_object_key_key'')
      else if list_ex (\<lambda>r. mine r \<and> conflicts run_published (f r) others) rows then Inl (UniqueViolation ''document_ocr_published'')
      else Inr ((), s\<lparr>document_ocr_runs := sql_update mine f rows\<rparr>))"

definition supersede_runs :: "id \<Rightarrow> id \<Rightarrow> time \<Rightarrow> store \<Rightarrow> store" where
  "supersede_runs org doc now s =
     s\<lparr>document_ocr_runs := sql_update (\<lambda>r. run_of org doc r \<and> run_current r) (\<lambda>r. r\<lparr>or_superseded_at := Some now\<rparr>)
         (document_ocr_runs s)\<rparr>"

definition publish_run :: "string \<Rightarrow> string \<Rightarrow> int \<Rightarrow> int \<Rightarrow> time \<Rightarrow> ocr_run_row \<Rightarrow> ocr_run_row" where
  "publish_run key sha written pages now r =
     r\<lparr>or_object_key := Some key, or_sha256 := Some sha, or_bytes := Some written, or_pages := Some pages, or_published_at := Some now\<rparr>"

definition ocr_completion :: "(bytes \<Rightarrow> bytes) \<Rightarrow> lease_command \<Rightarrow> string \<Rightarrow> ocr_result \<Rightarrow> json" where
  "ocr_completion hash c worker result =
     JObject [(''attempt_id'', JString (lm_attempt c)), (''duration_ms'', JNumber (os_duration result)),
              (''lease_hash'', JString (hex_encode (leaseHash hash (lm_token c)))),
              (''page_count'', JNumber (int (length (os_pages result)))), (''worker_id'', JString worker)]"

definition ocr_completed_row :: "json \<Rightarrow> time \<Rightarrow> job_row \<Rightarrow> job_row" where
  "ocr_completed_row meta now j =
     (clear_lease j)\<lparr>j_status := Completed, j_result := Some meta, j_completed_at := Some now\<rparr>"

definition ocr_audit :: "id \<Rightarrow> id \<Rightarrow> time \<Rightarrow> audit_row" where
  "ocr_audit org doc now =
     \<lparr>au_org = Some org, au_actor = None, au_type = ''ocr.completed'', au_target_type = ''document'', au_target_id = doc,
      au_request = None, au_outcome = ''succeeded'', au_reason = None, au_metadata = JObject [], au_at = now\<rparr>"

definition publish :: "(bytes \<Rightarrow> bytes) \<Rightarrow> lease_command \<Rightarrow> string \<Rightarrow> ocr_result \<Rightarrow> string \<Rightarrow> string \<Rightarrow> int \<Rightarrow> ocr_input \<Rightarrow> (string, store) txn" where
  "publish hash c worker result key sha written input s =
     (let now = lm_now c; org = oi_org input; doc = oi_document input in
      case update_run (lm_job c) (publish_run key sha written (int (length (os_pages result))) now) (supersede_runs org doc now s) of
        Inl e \<Rightarrow> Inl e
      | Inr (_, s1) \<Rightarrow>
     (case update_jobs (\<lambda>j. j_id j = lm_job c) (ocr_completed_row (ocr_completion hash c worker result) now) s1 of
        Inl e \<Rightarrow> Inl e
      | Inr (_, s2) \<Rightarrow> Inr (key, s2\<lparr>audit_events := audit_events s2 @ [ocr_audit org doc now]\<rparr>)))"

definition CompleteOCR ::
  "(bytes \<Rightarrow> bytes) \<Rightarrow> lease_command \<Rightarrow> string \<Rightarrow> ocr_result \<Rightarrow> string \<Rightarrow> string \<Rightarrow> int \<Rightarrow> (string, store) txn" where
  "CompleteOCR hash c worker result key sha written s =
     (case OCRInput hash c worker s of
        Inl e \<Rightarrow> Inl e
      | Inr input \<Rightarrow>
     (case ValidateResult result input of
        Some e \<Rightarrow> Inl e
      | None \<Rightarrow>
     (case query_row (\<lambda>d. d_id d = oi_document input \<and> d_org d = oi_org input) (documents s) of
        None \<Rightarrow> Inl ErrNoRows
      | Some d \<Rightarrow>
          if removed (d_status d) then Inl Job_ErrLeaseLost
          else case query_row (\<lambda>j. j_id j = lm_job c) (durable_jobs s) of
            None \<Rightarrow> Inl ErrNoRows
          | Some j \<Rightarrow>
         (case query_row (\<lambda>r. or_job r = j_id j) (document_ocr_runs s) of
            None \<Rightarrow> Inl ErrNoRows
          | Some r \<Rightarrow>
              if \<not> authorized hash c worker j then Inl Job_ErrLeaseLost
              else if j_status j = Completed then Inr (null_text (or_object_key r), s)
              else if written < 1 \<or> written > MaxResultBytes then Inl (OtherError ''invalid OCR artifact'')
              else publish hash c worker result key sha written input s))))"

section \<open>State and retry\<close>

text \<open>The newest job of a document's runs that satisfy a condition.\<close>

definition newest_run :: "(ocr_run_row \<Rightarrow> bool) \<Rightarrow> store \<Rightarrow> (job_row \<times> ocr_run_row) option" where
  "newest_run P s =
     (case descending (\<lambda>(j, r). (j_created_at j, j_id j))
        (filter (\<lambda>(j, r). j_id j = or_job r \<and> P r) (List.product (durable_jobs s) (document_ocr_runs s))) of
        [] \<Rightarrow> None | p # _ \<Rightarrow> Some p)"

definition OCRState :: "time \<Rightarrow> id \<Rightarrow> id \<Rightarrow> id \<Rightarrow> (ocr_state, store) txn" where
  "OCRState clock user org doc s =
     (case GetDocument clock user org doc s of
        Inl e \<Rightarrow> Inl e
      | Inr (d, s) \<Rightarrow>
          if removed (doc_status d) then Inl Tenant_ErrNotFound
          else
            let zero = \<lparr>ot_job = [], ot_status = [], ot_enabled = oc_enabled (ocr_config s), ot_failure = [], ot_pages = 0,
                        ot_object_key = []\<rparr> in
            case newest_run (\<lambda>r. run_of org doc r \<and> or_deleted_at r = None) s of
              None \<Rightarrow> Inr (zero\<lparr>ot_status := ''NotScheduled''\<rparr>, s)
            | Some (j, r) \<Rightarrow>
                Inr (zero\<lparr>ot_job := j_id j, ot_status := j_status j, ot_failure := null_text (j_failure_code j),
                          ot_pages := (case or_pages r of None \<Rightarrow> 0 | Some n \<Rightarrow> n),
                          ot_object_key := null_text (or_object_key r)\<rparr>, s))"

definition queued_state :: "id \<Rightarrow> string \<Rightarrow> ocr_state" where
  "queued_state i status = \<lparr>ot_job = i, ot_status = status, ot_enabled = False, ot_failure = [], ot_pages = 0, ot_object_key = []\<rparr>"

definition manager_here :: "id \<Rightarrow> id \<Rightarrow> store \<Rightarrow> bool" where
  "manager_here user org s = (case currentRole user org s of Inl _ \<Rightarrow> False | Inr role \<Rightarrow> manager_role role)"

text \<open>The configuration, when scheduling is enabled.\<close>

definition enabled_versions :: "store \<Rightarrow> (string \<times> string) option" where
  "enabled_versions s = (if oc_enabled (ocr_config s) then Some (oc_model (ocr_config s), oc_preprocessing (ocr_config s)) else None)"

definition schedule_run :: "id \<Rightarrow> id \<Rightarrow> id \<Rightarrow> id \<Rightarrow> json \<Rightarrow> string \<Rightarrow> id option \<Rightarrow> string option \<Rightarrow> time \<Rightarrow> (unit, store) txn" where
  "schedule_run jid user org doc payload fp previous request now s =
     (case insert_job (ocr_job jid org (Some user) payload jid request now) s of
        Inl e \<Rightarrow> Inl e
      | Inr (_, s) \<Rightarrow> insert_ocr_run (new_run jid org doc fp previous) s)"

definition RetryOCR :: "id \<Rightarrow> id \<Rightarrow> id \<Rightarrow> id \<Rightarrow> time \<Rightarrow> (ocr_state, store) txn" where
  "RetryOCR jid user org doc now s =
     (if \<not> manager_here user org s then Inl Tenant_ErrForbidden
      else case query_row (\<lambda>d. d_org d = org \<and> d_id d = doc) (documents s) of
        None \<Rightarrow> Inl Tenant_ErrNotFound
      | Some d \<Rightarrow>
          if removed (d_status d) then Inl Tenant_ErrNotFound
          else case enabled_versions s of
            None \<Rightarrow> Inl Tenant_ErrForbidden
          | Some (model, pre) \<Rightarrow>
              let sha = hex_encode (d_sha256 d); fp = fingerprint_of doc sha model pre;
                  schedule = (\<lambda>previous.
                    case schedule_run jid user org doc (ocr_payload doc sha model pre) fp previous None now s of
                      Inl e \<Rightarrow> Inl e
                    | Inr (_, s) \<Rightarrow> Inr (queued_state jid Queued, auditTenant org user ''ocr.retry'' ''document'' doc now s))
              in case newest_run (\<lambda>r. run_of org doc r \<and> or_fingerprint r = fp) s of
                None \<Rightarrow> schedule None
              | Some (j, r) \<Rightarrow>
                  if j_status j \<in> {Queued, Running, Completed} then Inr (queued_state (j_id j) (j_status j), s)
                  else schedule (Some (j_id j)))"

section \<open>Lemmas\<close>

definition run_job_key :: "ocr_run_row \<Rightarrow> id option" where "run_job_key r = Some (or_job r)"

text \<open>At most one run of a document is current.\<close>

definition current_key :: "ocr_run_row \<Rightarrow> (id \<times> id) option" where
  "current_key r = (if run_current r then Some (or_org r, or_document r) else None)"

definition runs_ok :: "store \<Rightarrow> bool" where
  "runs_ok s = (unique_on run_job_key (document_ocr_runs s) \<and> unique_on current_key (document_ocr_runs s))"

lemma filter_unique:
  assumes "unique_on key rows" "\<And>q. q \<in> set rows \<Longrightarrow> K q \<Longrightarrow> key q = Some k"
  shows "filter (\<lambda>r. K r \<and> Q r) rows = (case query_row K rows of None \<Rightarrow> [] | Some r \<Rightarrow> if Q r then [r] else [])"
  using assms
proof (induction rows)
  case (Cons r rs)
  show ?case
  proof (cases "K r")
    case True
    then have "\<forall>q \<in> set rs. \<not> K q" using Cons.prems by force
    then have "filter (\<lambda>r. K r \<and> Q r) rs = []" by (simp add: filter_empty_conv)
    then show ?thesis using True by simp
  next
    case False
    then show ?thesis using Cons by simp
  qed
qed simp

lemma publish_run_simps [simp]:
  "or_job (publish_run key sha n p now r) = or_job r" "or_org (publish_run key sha n p now r) = or_org r"
  "or_document (publish_run key sha n p now r) = or_document r" "or_fingerprint (publish_run key sha n p now r) = or_fingerprint r"
  "or_object_key (publish_run key sha n p now r) = Some key" "or_published_at (publish_run key sha n p now r) = Some now"
  "or_superseded_at (publish_run key sha n p now r) = or_superseded_at r" "or_deleted_at (publish_run key sha n p now r) = or_deleted_at r"
  by (simp_all add: publish_run_def)

lemma ocr_completed_row_simps [simp]:
  "j_id (ocr_completed_row m now j) = j_id j" "j_org (ocr_completed_row m now j) = j_org j" "j_kind (ocr_completed_row m now j) = j_kind j"
  "j_status (ocr_completed_row m now j) = Completed" "j_payload (ocr_completed_row m now j) = j_payload j"
  "j_result (ocr_completed_row m now j) = Some m"
  by (simp_all add: ocr_completed_row_def clear_lease_def)

lemma update_runD:
  "update_run jid f s = Inr (u, s') \<Longrightarrow> s' = s\<lparr>document_ocr_runs := sql_update (\<lambda>r. or_job r = jid) f (document_ocr_runs s)\<rparr>"
  by (simp add: update_run_def Let_def split: if_splits)

lemma publishE:
  assumes "publish hash c worker result key sha n input s = Inr (k, s')"
  obtains "k = key"
    "s' = s\<lparr>document_ocr_runs := sql_update (\<lambda>r. or_job r = lm_job c) (publish_run key sha n (int (length (os_pages result))) (lm_now c))
              (document_ocr_runs (supersede_runs (oi_org input) (oi_document input) (lm_now c) s)),
            durable_jobs := sql_update (\<lambda>j. j_id j = lm_job c) (ocr_completed_row (ocr_completion hash c worker result) (lm_now c)) (durable_jobs s),
            audit_events := audit_events s @ [ocr_audit (oi_org input) (oi_document input) (lm_now c)]\<rparr>"
    "update_jobs (\<lambda>j. j_id j = lm_job c) (ocr_completed_row (ocr_completion hash c worker result) (lm_now c)) s
       = Inr (rows_affected (\<lambda>j. j_id j = lm_job c) (durable_jobs s),
              s\<lparr>durable_jobs := sql_update (\<lambda>j. j_id j = lm_job c) (ocr_completed_row (ocr_completion hash c worker result) (lm_now c)) (durable_jobs s)\<rparr>)"
  using assms
  by (auto simp: publish_def Let_def supersede_runs_def update_jobs_def dest!: update_runD split: sum.splits if_splits)

lemma current_update_runs:
  assumes "unique_on run_job_key rows" "unique_on current_key rows"
    and run: "\<And>r. r \<in> set rows \<Longrightarrow> or_job r = jid \<Longrightarrow> run_of org doc r"
  shows "unique_on current_key (sql_update (\<lambda>r. or_job r = jid) (publish_run key sha n p now)
      (sql_update (\<lambda>r. run_of org doc r \<and> run_current r) (\<lambda>r. r\<lparr>or_superseded_at := Some t\<rparr>) rows))" (is "unique_on _ (sql_update _ _ ?rows)")
proof (rule unique_on_update_one)
  show "unique_on current_key ?rows"
    using assms(2) by (rule unique_on_update_shrink) (simp add: current_key_def run_current_def)
  show "unique_on run_job_key ?rows"
    using assms(1) by (rule unique_on_update_shrink) (simp add: run_job_key_def)
  show "run_job_key r = Some jid" if "or_job r = jid" for r using that by (simp add: run_job_key_def)
  show "current_key q \<noteq> current_key (publish_run key sha n p now r)"
    if r: "r \<in> set ?rows" "or_job r = jid" and q: "q \<in> set ?rows" "or_job q \<noteq> jid"
      and some: "current_key (publish_run key sha n p now r) \<noteq> None" for r q
  proof -
    from r(1) have "run_of org doc r"
    proof (cases rule: sql_updateE)
      case (updated p)
      then show ?thesis by (simp add: run_of_def)
    next
      case kept
      then show ?thesis using run r(2) by simp
    qed
    then have key: "current_key (publish_run key sha n p now r) = Some (org, doc)"
      using some by (auto simp: current_key_def run_of_def split: if_splits)
    from q(1) have "\<not> (run_of org doc q \<and> run_current q)"
      by (cases rule: sql_updateE) (simp_all add: run_current_def)
    then show ?thesis unfolding key by (auto simp: current_key_def run_of_def)
  qed
qed

lemma OCRInput_rows:
  assumes "jobs_ok s" "runs_ok s" "distinct (map d_id (documents s))"
  shows "OCRInput hash c worker s = Inr input \<longleftrightarrow>
    (\<exists>j r d key model pre. query_row (\<lambda>j. j_id j = lm_job c) (durable_jobs s) = Some j
       \<and> query_row (\<lambda>r. or_job r = lm_job c) (document_ocr_runs s) = Some r
       \<and> query_row (\<lambda>d. d_id d = or_document r \<and> d_org d = or_org r) (documents s) = Some d
       \<and> j_kind j = OCR \<and> authorized hash c worker j \<and> \<not> removed (d_status d)
       \<and> json_text (j_payload j) ''sha256'' = Some (hex_encode (d_sha256 d)) \<and> d_storage_key d = Some key
       \<and> json_text (j_payload j) ''model_version'' = Some model \<and> json_text (j_payload j) ''preprocessing_version'' = Some pre
       \<and> input = \<lparr>oi_org = d_org d, oi_document = d_id d, oi_sha256 = hex_encode (d_sha256 d), oi_mime = d_mime d,
                  oi_size = d_size d, oi_storage_key = key, oi_model = model, oi_preprocessing = pre\<rparr>)"
proof -
  have jobs: "filter (\<lambda>j. j_id j = lm_job c \<and> j_kind j = OCR \<and> authorized hash c worker j) (durable_jobs s)
      = (case query_row (\<lambda>j. j_id j = lm_job c) (durable_jobs s) of None \<Rightarrow> []
         | Some j \<Rightarrow> if j_kind j = OCR \<and> authorized hash c worker j then [j] else [])"
    by (rule filter_unique [where key = "\<lambda>j. Some (j_id j)"]) (use assms(1) in \<open>simp_all add: jobs_ok_def\<close>)
  have runs: "filter (\<lambda>r. or_job r = i) (document_ocr_runs s)
      = (case query_row (\<lambda>r. or_job r = i) (document_ocr_runs s) of None \<Rightarrow> [] | Some r \<Rightarrow> [r])" for i
    using filter_unique [of run_job_key "document_ocr_runs s" "\<lambda>r. or_job r = i" i "\<lambda>_. True"] assms(2)
    by (simp add: runs_ok_def run_job_key_def cong: option.case_cong)
  have docs: "filter (\<lambda>d. d_id d = or_document r \<and> d_org d = or_org r \<and> Q d) (documents s)
      = (case query_row (\<lambda>d. d_id d = or_document r \<and> d_org d = or_org r) (documents s) of None \<Rightarrow> []
         | Some d \<Rightarrow> if Q d then [d] else [])" for r Q
    using filter_unique [of "\<lambda>d. Some (d_id d)" "documents s" "\<lambda>d. d_id d = or_document r \<and> d_org d = or_org r" "or_document r" Q] assms(3)
    by (simp add: unique_on_distinct conj_assoc)
  show ?thesis
  proof (cases "query_row (\<lambda>j. j_id j = lm_job c) (durable_jobs s)")
    case None
    then show ?thesis unfolding OCRInput_def jobs by simp
  next
    case (Some j)
    then have id: "j_id j = lm_job c" by (auto dest: query_row_SomeD)
    show ?thesis
    proof (cases "query_row (\<lambda>r. or_job r = lm_job c) (document_ocr_runs s)")
      case None
      then show ?thesis unfolding OCRInput_def jobs Some by (simp add: id runs)
    next
      case run: (Some r)
      show ?thesis
      proof (cases "query_row (\<lambda>d. d_id d = or_document r \<and> d_org d = or_org r) (documents s)")
        case None
        then show ?thesis unfolding OCRInput_def jobs Some by (simp add: id runs run docs)
      next
        case doc: (Some d)
        show ?thesis unfolding OCRInput_def jobs Some
          by (cases "d_storage_key d"; cases "json_text (j_payload j) ''model_version''";
              cases "json_text (j_payload j) ''preprocessing_version''") (auto simp: id runs run docs doc)
      qed
    qed
  qed
qed


definition ocr_ok :: "store \<Rightarrow> bool" where
  "ocr_ok s = (jobs_ok s \<and> runs_ok s \<and> distinct (map d_id (documents s)))"

lemma CompleteOCRE:
  assumes "CompleteOCR hash c worker result key sha n s = Inr (k, s')" "ocr_ok s"
  obtains (replayed) input j r where "OCRInput hash c worker s = Inr input" "ValidateResult result input = None"
      "query_row (\<lambda>j. j_id j = lm_job c) (durable_jobs s) = Some j" "j_status j = Completed" "completed_under hash c worker j"
      "query_row (\<lambda>r. or_job r = lm_job c) (document_ocr_runs s) = Some r" "k = null_text (or_object_key r)" "s' = s"
  | (published) input j r where "OCRInput hash c worker s = Inr input" "ValidateResult result input = None"
      "query_row (\<lambda>j. j_id j = lm_job c) (durable_jobs s) = Some j" "lease_held hash c j" "j_worker j = Some worker"
      "query_row (\<lambda>r. or_job r = lm_job c) (document_ocr_runs s) = Some r" "run_of (oi_org input) (oi_document input) r"
      "publish hash c worker result key sha n input s = Inr (k, s')"
proof -
  obtain input where input: "OCRInput hash c worker s = Inr input" "ValidateResult result input = None"
    using assms(1) by (auto simp: CompleteOCR_def split: sum.splits option.splits)
  then obtain j r d where rows: "query_row (\<lambda>j. j_id j = lm_job c) (durable_jobs s) = Some j"
      "query_row (\<lambda>r. or_job r = lm_job c) (document_ocr_runs s) = Some r"
      "query_row (\<lambda>d. d_id d = or_document r \<and> d_org d = or_org r) (documents s) = Some d"
      "authorized hash c worker j" "oi_org input = d_org d" "oi_document input = d_id d"
    using assms(2) by (auto simp: OCRInput_rows ocr_ok_def)
  have id: "j_id j = lm_job c" using query_row_SomeD [OF rows(1)] by simp
  have of: "run_of (oi_org input) (oi_document input) r" using query_row_SomeD [OF rows(3)] by (simp add: run_of_def rows(5,6))
  show thesis
  proof (cases "j_status j = Completed")
    case True
    then have "k = null_text (or_object_key r) \<and> s' = s"
      using assms(1) input rows by (auto simp: CompleteOCR_def id split: option.splits if_splits)
    moreover have "completed_under hash c worker j" using rows(4) True by (simp add: authorized_def lease_held_def)
    ultimately show thesis using replayed input rows True by blast
  next
    case False
    then have "publish hash c worker result key sha n input s = Inr (k, s')"
      using assms(1) input rows by (auto simp: CompleteOCR_def id split: option.splits if_splits)
    moreover have "lease_held hash c j" "j_worker j = Some worker"
      using rows(4) False by (simp_all add: authorized_def completed_under_def)
    ultimately show thesis using published input rows of by blast
  qed
qed

lemma ocr_ok_CompleteOCR:
  assumes "ocr_ok s" "CompleteOCR hash c worker result key sha n s = Inr (k, s')" shows "ocr_ok s'"
  using assms(2,1)
proof (cases rule: CompleteOCRE)
  case (published input j r)
  have mine: "q = r" if "q \<in> set (document_ocr_runs s)" "or_job q = lm_job c" for q
    using unique_onD [of run_job_key "document_ocr_runs s" q r "lm_job c"] that assms(1) query_row_SomeD [OF published(6)]
    by (simp add: ocr_ok_def runs_ok_def run_job_key_def)
  have run: "run_of (oi_org input) (oi_document input) q" if "q \<in> set (document_ocr_runs s)" "or_job q = lm_job c" for q
    using mine [OF that] published(7) by simp
  show ?thesis
    using published(8)
  proof (cases rule: publishE)
    case 1
    have "jobs_ok (s\<lparr>durable_jobs := durable_jobs s'\<rparr>)"
      using update_jobs_InrD [OF 1(3)] assms(1) by (simp add: 1(2) ocr_ok_def)
    then have "jobs_ok s'" by (simp add: jobs_ok_def)
    moreover have "unique_on run_job_key (document_ocr_runs s')"
      unfolding 1(2) supersede_runs_def using assms(1)
      by (auto simp: ocr_ok_def runs_ok_def run_job_key_def intro!: unique_on_update_shrink)
    moreover have "unique_on current_key (document_ocr_runs s')"
      unfolding 1(2) supersede_runs_def
      using current_update_runs [of "document_ocr_runs s", OF _ _ run] assms(1) by (simp add: ocr_ok_def runs_ok_def)
    ultimately show ?thesis using assms(1) by (simp add: ocr_ok_def runs_ok_def 1(2))
  qed
qed (use assms(1) in simp)

lemma completed_under_now [simp]: "completed_under hash (c\<lparr>lm_now := t\<rparr>) worker j = completed_under hash c worker j"
  by (simp add: completed_under_def leaseHash_def)

lemma ocr_completion_under:
  "j_status j = Completed \<Longrightarrow> j_result j = Some (ocr_completion hash c worker result) \<Longrightarrow> completed_under hash c worker j"
  by (simp add: completed_under_def result_text_def ocr_completion_def json_text_def)

text \<open>A second report of a completed run.\<close>

lemma CompleteOCR_again:
  assumes "ocr_ok s" "OCRInput hash c worker s0 = Inr input" "ValidateResult result input = None" "ocr_ok s0"
    and "query_row (\<lambda>j. j_id j = lm_job c) (durable_jobs s) = Some j" "j_status j = Completed" "completed_under hash c worker j"
    and "query_row (\<lambda>r. or_job r = lm_job c) (document_ocr_runs s) = Some r"
    and same: "documents s = documents s0"
      "query_row (\<lambda>j. j_id j = lm_job c) (durable_jobs s0) = Some j0" "j_payload j0 = j_payload j" "j_kind j0 = j_kind j"
      "query_row (\<lambda>r. or_job r = lm_job c) (document_ocr_runs s0) = Some r0" "or_org r0 = or_org r" "or_document r0 = or_document r"
  shows "CompleteOCR hash (c\<lparr>lm_now := t\<rparr>) worker result key sha n s = Inr (null_text (or_object_key r), s)"
proof -
  let ?c = "c\<lparr>lm_now := t\<rparr>"
  have auth: "authorized hash ?c worker j" using assms(7) by (simp add: authorized_def)
  have input: "OCRInput hash ?c worker s = Inr input"
    using assms(1,2,4-8) same auth by (auto simp: OCRInput_rows ocr_ok_def)
  obtain d where d: "query_row (\<lambda>d. d_id d = or_document r \<and> d_org d = or_org r) (documents s) = Some d"
    "oi_document input = d_id d" "oi_org input = d_org d" "\<not> removed (d_status d)"
    using assms(1,5,8) input by (auto simp: OCRInput_rows ocr_ok_def)
  have "d_id d = or_document r" "d_org d = or_org r" using query_row_SomeD [OF d(1)] by simp_all
  then have doc: "query_row (\<lambda>x. d_id x = oi_document input \<and> d_org x = oi_org input) (documents s) = Some d" using d by simp
  have id: "j_id j = lm_job c" using query_row_SomeD [OF assms(5)] by simp
  show ?thesis
    unfolding CompleteOCR_def using input assms(3,5,6,8) doc d(4) auth by (simp add: id)
qed


section \<open>Properties\<close>


definition demo_ocr_job :: job_row where
  "demo_ocr_job = (ocr_job ''j'' ''o1'' (Some ''u1'') (ocr_payload (demo_uuid (CHR ''a'')) (hex_encode ''a'') ''m'' ''v1'') ''j'' None 0)
     \<lparr>j_status := Running, j_attempts := 1, j_current_attempt := Some ''a'', j_lease_hash := Some (demo_hash ''t''),
      j_lease := Some 100, j_worker := Some ''w''\<rparr>"

definition demo_ocr :: store where
  "demo_ocr = demo_docs\<lparr>documents := [demo_row (CHR ''a'') 1], durable_jobs := [demo_ocr_job],
     document_ocr_runs := [new_run ''j'' ''o1'' (demo_uuid (CHR ''a'')) ''f'' None]\<rparr>"

definition demo_lease :: lease_command where
  "demo_lease = \<lparr>lm_job = ''j'', lm_attempt = ''a'', lm_token = ''t'', lm_now = 50\<rparr>"

definition demo_result :: ocr_result where
  "demo_result = \<lparr>os_schema = 1, os_sha256 = hex_encode ''a'', os_model = ''m'', os_preprocessing = ''v1'', os_duration = 10,
     os_pages = [\<lparr>op_number = 1, op_width = 10, op_height = 10, op_rotation = 0, op_duration = 5, op_text = [], op_lines = []\<rparr>]\<rparr>"

definition demo_published :: store where
  "demo_published = after demo_ocr (CompleteOCR demo_hash demo_lease ''w'' demo_result ''k'' ''h'' 7 demo_ocr)"

lemma demo_ocr_ok: "ocr_ok demo_ocr"
  unfolding ocr_ok_def jobs_ok_def runs_ok_def by code_simp

lemma demo_published: "CompleteOCR demo_hash demo_lease ''w'' demo_result ''k'' ''h'' 7 demo_ocr = Inr (''k'', demo_published)"
proof -
  have "\<not> isl (CompleteOCR demo_hash demo_lease ''w'' demo_result ''k'' ''h'' 7 demo_ocr)" by code_simp
  then obtain k t where run: "CompleteOCR demo_hash demo_lease ''w'' demo_result ''k'' ''h'' 7 demo_ocr = Inr (k, t)"
    by (cases "CompleteOCR demo_hash demo_lease ''w'' demo_result ''k'' ''h'' 7 demo_ocr") auto
  have "map_sum id fst (CompleteOCR demo_hash demo_lease ''w'' demo_result ''k'' ''h'' 7 demo_ocr) = Inr ''k''" by code_simp
  then show ?thesis using run by (simp add: demo_published_def)
qed


end
