(* ===== verification/Revision.thy ===== *)
theory Revision
  imports Prelude
begin

text \<open>
  Optimistic concurrency.  Review drafts, confirmed reviews and accounting suggestions carry a revision number, and a
  write names the revision it was made from.  The locale states what the transactions promise: a write commits only from the
  revision it names and moves to the next one, and nothing else lowers a revision.  Its consequence is that of all the writes
  made from one revision at most one commits: no update is lost.
\<close>

locale revision_log =
  fixes ok :: "'s \<Rightarrow> bool"
    and revision :: "'s \<Rightarrow> 'k \<Rightarrow> int"
    and step :: "'c \<Rightarrow> 's \<Rightarrow> 's"
    and commits :: "'c \<Rightarrow> 's \<Rightarrow> ('k \<times> int) option"
  assumes ok_step: "ok s \<Longrightarrow> ok (step c s)"
    and commit_from: "ok s \<Longrightarrow> commits c s = Some (k, e) \<Longrightarrow> revision s k = e"
    and commit_next: "ok s \<Longrightarrow> commits c s = Some (k, e) \<Longrightarrow> e < revision (step c s) k"
    and monotone: "ok s \<Longrightarrow> revision s k \<le> revision (step c s) k"
begin

lemma ok_run: "ok s \<Longrightarrow> ok (fold step cs s)"
  by (induction cs arbitrary: s) (simp_all add: ok_step)

lemma run_monotone: "ok s \<Longrightarrow> revision s k \<le> revision (fold step cs s) k"
proof (induction cs arbitrary: s)
  case (Cons c cs)
  have "revision (step c s) k \<le> revision (fold step cs (step c s)) k" using Cons ok_step by blast
  then show ?case using monotone [OF Cons.prems, of k c] by simp
qed simp

lemma at_most_one_commit:
  assumes "ok s" "commits c s = Some (k, e)"
  shows "commits d (fold step cs (step c s)) \<noteq> Some (k, e)"
proof
  assume d: "commits d (fold step cs (step c s)) = Some (k, e)"
  have "revision (fold step cs (step c s)) k = e"
    using commit_from [OF _ d] ok_run ok_step assms(1) by blast
  moreover have "e < revision (fold step cs (step c s)) k"
    using commit_next [OF assms] run_monotone [of "step c s" k cs] ok_step [OF assms(1)] by fastforce
  ultimately show False by simp
qed

end


section \<open>Tables of revisions\<close>

text \<open>
  Reviews and suggestions keep every revision of a document in one table.  A new revision closes the current row, that is
  it stamps its \<^verbatim>\<open>superseded_at\<close>, and is inserted as the current one.  In a sound table the revisions of a document
  count up from 1 and only the last of them is open.
\<close>

definition numbered :: "int list \<Rightarrow> bool" where
  "numbered ns = (ns = map (\<lambda>i. int i + 1) [0..<length ns])"

lemma numbered_Nil [simp]: "numbered []"
  by (simp add: numbered_def)

lemma numbered_snoc [simp]: "numbered (ns @ [n]) \<longleftrightarrow> numbered ns \<and> n = int (length ns) + 1"
  by (auto simp: numbered_def)

lemma numbered_last: "numbered ns \<Longrightarrow> ns \<noteq> [] \<Longrightarrow> last ns = int (length ns)"
  by (cases ns rule: rev_cases) auto

lemma filter_sql_update: "(\<And>r. K (f r) = K r) \<Longrightarrow> filter K (sql_update P f rows) = sql_update P f (filter K rows)"
  by (induction rows) auto

definition revisions :: "('r \<Rightarrow> 'k) \<Rightarrow> 'k \<Rightarrow> 'r list \<Rightarrow> 'r list" where
  "revisions key k rows = filter (\<lambda>r. key r = k) rows"

definition last_open :: "('r \<Rightarrow> time option) \<Rightarrow> 'r list \<Rightarrow> bool" where
  "last_open closed rs = (rs \<noteq> [] \<longrightarrow> closed (last rs) = None \<and> list_all (\<lambda>r. closed r \<noteq> None) (butlast rs))"

definition revision_rows_ok :: "('r \<Rightarrow> id) \<Rightarrow> ('r \<Rightarrow> 'k) \<Rightarrow> ('r \<Rightarrow> int) \<Rightarrow> ('r \<Rightarrow> time option) \<Rightarrow> 'r list \<Rightarrow> bool" where
  "revision_rows_ok ident key number closed rows =
     (distinct (map ident rows)
      \<and> (\<forall>k. numbered (map number (revisions key k rows)) \<and> last_open closed (revisions key k rows)))"

lemma revision_rows_ok_Nil [simp]: "revision_rows_ok ident key number closed []"
  by (simp add: revision_rows_ok_def revisions_def last_open_def)

text \<open>The rows after the current one has been closed.\<close>

definition close_current :: "('r \<Rightarrow> id) \<Rightarrow> ('r \<Rightarrow> 'r) \<Rightarrow> 'r option \<Rightarrow> 'r list \<Rightarrow> 'r list" where
  "close_current ident close current rows =
     (case current of None \<Rightarrow> rows | Some p \<Rightarrow> sql_update (\<lambda>r. ident r = ident p) close rows)"

locale revision_table =
  fixes ident :: "'r \<Rightarrow> id"
    and key :: "'r \<Rightarrow> 'k"
    and number :: "'r \<Rightarrow> int"
    and closed :: "'r \<Rightarrow> time option"
    and close :: "time \<Rightarrow> 'r \<Rightarrow> 'r"
  assumes close_ident [simp]: "ident (close t r) = ident r"
    and close_key [simp]: "key (close t r) = key r"
    and close_number [simp]: "number (close t r) = number r"
    and close_closed [simp]: "closed (close t r) = Some t"
begin

lemma current_is_last:
  assumes "revision_rows_ok ident key number closed rows"
  shows "query_row (\<lambda>r. key r = k \<and> closed r = None) rows
    = (if revisions key k rows = [] then None else Some (last (revisions key k rows)))"
proof -
  have "query_row (\<lambda>r. key r = k \<and> closed r = None) qs = query_row (\<lambda>r. closed r = None) (revisions key k qs)" for qs
    unfolding revisions_def by (induction qs) auto
  moreover have "query_row (\<lambda>r. closed r = None) rs = (if rs = [] then None else Some (last rs))" if "last_open closed rs" for rs
  proof (cases rs rule: rev_cases)
    case (snoc ys y)
    then have "query_row (\<lambda>r. closed r = None) ys = None" "closed y = None"
      using that by (auto simp: last_open_def list_all_iff query_row_None_iff)
    then show ?thesis using snoc by simp
  qed simp
  ultimately show ?thesis using assms by (simp add: revision_rows_ok_def)
qed

lemma current_number:
  assumes "revision_rows_ok ident key number closed rows"
  shows "(case query_row (\<lambda>r. key r = k \<and> closed r = None) rows of None \<Rightarrow> 0 | Some r \<Rightarrow> number r)
    = int (length (revisions key k rows))"
  using assms numbered_last [of "map number (revisions key k rows)"]
  by (auto simp: current_is_last revision_rows_ok_def last_map)

lemma close_idents: "ident ` set (close_current ident (close t) p rows) = ident ` set rows"
  by (simp add: close_current_def image_sql_update split: option.splits)

lemma append_revision:
  fixes t :: time
  assumes ok: "revision_rows_ok ident key number closed rows"
    and new: "ident r \<notin> ident ` set rows" "number r = int (length (revisions key (key r) rows)) + 1" "closed r = None"
  defines "rows' \<equiv> close_current ident (close t) (query_row (\<lambda>q. key q = key r \<and> closed q = None) rows) rows @ [r]"
  shows "revision_rows_ok ident key number closed rows'
    \<and> (\<forall>k. length (revisions key k rows') = length (revisions key k rows) + (if k = key r then 1 else 0))"
proof -
  let ?log = "revisions key (key r) rows"
  let ?closed = "close_current ident (close t) (query_row (\<lambda>q. key q = key r \<and> closed q = None) rows) rows"
  have log: "revisions key k ?closed = (if ?log = [] then revisions key k rows
      else sql_update (\<lambda>q. ident q = ident (last ?log)) (close t) (revisions key k rows))" for k
    using current_is_last [OF ok, of "key r"] by (simp add: close_current_def revisions_def filter_sql_update)
  have numbers: "map number (revisions key k ?closed) = map number (revisions key k rows)" for k
    by (simp add: log map_sql_update)
  have mine: "list_all (\<lambda>q. closed q \<noteq> None) (revisions key (key r) ?closed)"
  proof (cases ?log rule: rev_cases)
    case (snoc qs q)
    have "last_open closed ?log" using ok by (simp add: revision_rows_ok_def)
    then show ?thesis using snoc by (auto simp: log last_open_def list_all_iff set_sql_update)
  qed (simp add: log)
  have other: "revisions key k ?closed = revisions key k rows" if k: "k \<noteq> key r" for k
  proof (cases "?log = []")
    case False
    then have last: "last ?log \<in> set ?log" by simp
    have "ident q \<noteq> ident (last ?log)" if q: "q \<in> set (revisions key k rows)" for q
    proof
      assume "ident q = ident (last ?log)"
      moreover have "inj_on ident (set rows)" using ok by (simp add: revision_rows_ok_def distinct_map)
      ultimately have "q = last ?log" using q last by (auto simp: revisions_def dest: inj_onD)
      then show False using q last k by (auto simp: revisions_def)
    qed
    then have "sql_update (\<lambda>q. ident q = ident (last ?log)) (close t) (revisions key k rows) = revisions key k rows"
      unfolding sql_update_def by (intro map_idI) auto
    then show ?thesis by (simp add: log False)
  qed (simp add: log)
  have split: "revisions key k rows' = revisions key k ?closed @ (if k = key r then [r] else [])" for k
    by (simp add: rows'_def revisions_def)
  have len: "length (revisions key k ?closed) = length (revisions key k rows)" for k
    using arg_cong [OF numbers, of length] by simp
  have "numbered (map number (revisions key k rows')) \<and> last_open closed (revisions key k rows')" for k
  proof (cases "k = key r")
    case True
    then show ?thesis using ok mine new(2,3) by (simp add: split numbers len revision_rows_ok_def last_open_def)
  next
    case False
    then show ?thesis using ok other by (simp add: split revision_rows_ok_def)
  qed
  moreover have "map ident ?closed = map ident rows" by (simp add: close_current_def map_sql_update split: option.splits)
  then have "distinct (map ident rows')" using ok new(1) by (simp add: rows'_def close_idents revision_rows_ok_def)
  ultimately show ?thesis unfolding revision_rows_ok_def by (simp add: split len)
qed

end


section \<open>Version stamps\<close>

text \<open>A version that stands for content: whoever changes the content, other than by adding to it, raises the version.  A
  reader who finds the version it saw before finds at least the content it saw before.\<close>

locale version_stamp =
  fixes ok :: "'s \<Rightarrow> bool"
    and version :: "'s \<Rightarrow> int"
    and content :: "'s \<Rightarrow> 'v"
    and covers :: "'v \<Rightarrow> 'v \<Rightarrow> bool"
    and step :: "'c \<Rightarrow> 's \<Rightarrow> 's"
  assumes ok_step: "ok s \<Longrightarrow> ok (step c s)"
    and refl: "covers v v"
    and trans: "covers u v \<Longrightarrow> covers v w \<Longrightarrow> covers u w"
    and stamped: "ok s \<Longrightarrow> version s < version (step c s)
        \<or> version (step c s) = version s \<and> covers (content s) (content (step c s))"
begin

lemma run_stamped:
  "ok s \<Longrightarrow> version s < version (fold step cs s)
     \<or> version (fold step cs s) = version s \<and> covers (content s) (content (fold step cs s))"
proof (induction cs arbitrary: s)
  case (Cons c cs)
  show ?case
    using stamped [OF Cons.prems, of c] Cons.IH [OF ok_step [OF Cons.prems, of c]] trans by force
qed (simp add: refl)

lemma same_version: "ok s \<Longrightarrow> version (fold step cs s) = version s \<Longrightarrow> covers (content s) (content (fold step cs s))"
  using run_stamped [of s cs] by simp

end

end
