(* ===== verification/Reviews.thy ===== *)
theory Reviews
  imports OcrRuns Deliveries Revision
begin

text \<open>
  Reviews of the extracted fields: src/api/internal/extraction/review.go and src/api/internal/postgres/extraction.go,
  review_drafts.go, review_return.go, review_assign.go, review_queue.go and the request to process a document again of
  ocr.go, over the tables of migrations 000009 and 000012.

  A Go map of texts is the list of its entries in key order, a nil map is \<^verbatim>\<open>None\<close>.  Several of these transactions pass
  parameters only to \<^verbatim>\<open>jsonb_build_object\<close>, whose arguments have no declared type; \<^verbatim>\<open>accepts\<close> is the
  server's verdict on that statement.
\<close>

section \<open>Types\<close>

record review =
  rv_id :: id
  rv_org :: id
  rv_document :: id
  rv_ocr_job :: id
  rv_revision :: int
  rv_draft_revision :: int
  rv_request :: string
  rv_confirmed_by :: id
  rv_confirmed_at :: time
  rv_object_key :: string

record review_draft =
  dr_doc_org :: id
  dr_document :: id
  dr_ocr_job :: id
  dr_revision :: int
  dr_values :: "(string \<times> string) list option"
  dr_decisions :: "(string \<times> string) list option"
  dr_updated_by :: id
  dr_updated_at :: time

record queue_item =
  qi_document :: id
  qi_status :: string
  qi_accepted_at :: time
  qi_ocr_job :: id
  qi_review_revision :: int
  qi_draft_revision :: int
  qi_task :: string
  qi_assignee :: string

record assignment =
  as_document :: id
  as_ocr_job :: id
  as_review_revision :: int
  as_draft_revision :: int
  as_task :: id

record return_input =
  ri_id :: id
  ri_actor :: id
  ri_org :: id
  ri_document :: id
  ri_ocr_job :: id
  ri_reason :: string
  ri_note :: string
  ri_request :: string
  ri_review_revision :: int
  ri_draft_revision :: int
  ri_at :: time

record return_notice =
  no_reason :: string
  no_note :: string
  no_at :: time

definition zero_review :: review where
  "zero_review = \<lparr>rv_id = [], rv_org = [], rv_document = [], rv_ocr_job = [], rv_revision = 0, rv_draft_revision = 0,
     rv_request = [], rv_confirmed_by = [], rv_confirmed_at = zero_time, rv_object_key = []\<rparr>"

definition zero_draft :: review_draft where
  "zero_draft = \<lparr>dr_doc_org = [], dr_document = [], dr_ocr_job = [], dr_revision = 0, dr_values = None, dr_decisions = None,
     dr_updated_by = [], dr_updated_at = zero_time\<rparr>"

section \<open>Tables\<close>

definition document_at :: "id \<Rightarrow> id \<Rightarrow> document_row \<Rightarrow> bool" where
  "document_at org doc d = (d_org d = org \<and> d_id d = doc)"

definition open_status :: "string \<Rightarrow> bool" where
  "open_status status = (status = ''Available'' \<or> status = ''Archived'')"

definition draft_at :: "id \<Rightarrow> id \<Rightarrow> draft_row \<Rightarrow> bool" where
  "draft_at org doc r = (rd_org r = org \<and> rd_document r = doc)"

definition current_review_row :: "id \<Rightarrow> id \<Rightarrow> review_row \<Rightarrow> bool" where
  "current_review_row org doc e = (er_org e = org \<and> er_document e = doc \<and> er_superseded_at e = None)"

text \<open>\<^verbatim>\<open>SELECT job_id FROM document_ocr_runs\<close> for the published run.\<close>

definition currentOCR :: "id \<Rightarrow> id \<Rightarrow> store \<Rightarrow> id option" where
  "currentOCR org doc s = map_option or_job (query_row (\<lambda>r. run_of org doc r \<and> run_current r) (document_ocr_runs s))"

text \<open>The same with \<^verbatim>\<open>ORDER BY published_at DESC,job_id DESC LIMIT 1\<close>.\<close>

definition publication :: "ocr_run_row \<Rightarrow> time \<times> id" where
  "publication r = (case or_published_at r of None \<Rightarrow> 0 | Some t \<Rightarrow> t, or_job r)"

definition latestOCR :: "id \<Rightarrow> id \<Rightarrow> store \<Rightarrow> id option" where
  "latestOCR org doc s =
     (case descending publication (filter (\<lambda>r. run_of org doc r \<and> run_current r) (document_ocr_runs s)) of
        [] \<Rightarrow> None | r # _ \<Rightarrow> Some (or_job r))"

text \<open>The revision of the draft and of the current review, 0 without one.\<close>

definition draft_revision :: "store \<Rightarrow> id \<times> id \<Rightarrow> int" where
  "draft_revision s = (\<lambda>(org, doc). case query_row (draft_at org doc) (document_review_drafts s) of None \<Rightarrow> 0 | Some r \<Rightarrow> rd_revision r)"

definition review_revision :: "store \<Rightarrow> id \<times> id \<Rightarrow> int" where
  "review_revision s = (\<lambda>(org, doc). case query_row (current_review_row org doc) (document_extraction_reviews s) of
     None \<Rightarrow> 0 | Some e \<Rightarrow> er_revision e)"

definition review_audit :: "id \<Rightarrow> id \<Rightarrow> string \<Rightarrow> id \<Rightarrow> string \<Rightarrow> string \<Rightarrow> string option \<Rightarrow> json \<Rightarrow> time \<Rightarrow> audit_row" where
  "review_audit org actor type doc request outcome reason metadata now =
     \<lparr>au_org = Some org, au_actor = Some actor, au_type = type, au_target_type = ''document'', au_target_id = doc,
      au_request = Some request, au_outcome = outcome, au_reason = reason, au_metadata = metadata, au_at = now\<rparr>"

text \<open>The audit statements with \<^verbatim>\<open>jsonb_build_object\<close>.\<close>

definition insert_review_audit :: "bool \<Rightarrow> audit_row \<Rightarrow> (unit, store) txn" where
  "insert_review_audit accepts a s =
     (if accepts then Inr ((), s\<lparr>audit_events := audit_events s @ [a]\<rparr>)
      else Inl (StatementRejected ''could not determine data type of parameter $6''))"

definition review_check :: "review_row \<Rightarrow> bool" where
  "review_check e = (0 < er_revision e \<and> 0 \<le> er_draft_revision e)"

definition review_key :: "review_row \<Rightarrow> (id \<times> id \<times> int) option" where
  "review_key e = Some (er_org e, er_document e, er_revision e)"

definition review_current_key :: "review_row \<Rightarrow> (id \<times> id) option" where
  "review_current_key e = (if er_superseded_at e = None then Some (er_org e, er_document e) else None)"

definition insert_review :: "review_row \<Rightarrow> (unit, store) txn" where
  "insert_review e s =
     (let rows = document_extraction_reviews s in
      if \<not> review_check e then Inl (CheckViolation ''document_extraction_reviews'')
      else if row_exists (\<lambda>q. er_id q = er_id e) rows then Inl (UniqueViolation ''document_extraction_reviews_pkey'')
      else if row_exists (\<lambda>q. er_object_key q = er_object_key e) rows then Inl (UniqueViolation ''document_extraction_reviews_object_key_key'')
      else if conflicts review_key e rows then Inl (UniqueViolation ''document_extraction_reviews_organization_id_document_id_revisio_key'')
      else if conflicts review_current_key e rows then Inl (UniqueViolation ''document_extraction_current'')
      else if \<not> row_exists (\<lambda>r. or_job r = er_ocr_job e) (document_ocr_runs s) then Inl (ForeignKeyViolation ''document_extraction_reviews'')
      else Inr ((), s\<lparr>document_extraction_reviews := rows @ [e]\<rparr>))"

text \<open>\<^verbatim>\<open>INSERT INTO document_review_drafts ... ON CONFLICT (organization_id,document_id) DO UPDATE\<close>.\<close>

definition upsert_draft :: "draft_row \<Rightarrow> (draft_row \<Rightarrow> draft_row) \<Rightarrow> store \<Rightarrow> store" where
  "upsert_draft r f s =
     (let mine = draft_at (rd_org r) (rd_document r) in
      if row_exists mine (document_review_drafts s)
      then s\<lparr>document_review_drafts := sql_update mine f (document_review_drafts s)\<rparr>
      else s\<lparr>document_review_drafts := document_review_drafts s @ [r]\<rparr>)"

definition history_key :: "draft_history_row \<Rightarrow> (id \<times> id \<times> int) option" where
  "history_key h = Some (rh_org h, rh_document h, rh_revision h)"

definition insert_history :: "draft_history_row \<Rightarrow> (unit, store) txn" where
  "insert_history h s =
     (if conflicts history_key h (document_review_draft_history s) then Inl (UniqueViolation ''document_review_draft_history_pkey'')
      else Inr ((), s\<lparr>document_review_draft_history := document_review_draft_history s @ [h]\<rparr>))"

definition history_of :: "draft_row \<Rightarrow> draft_history_row" where
  "history_of r = \<lparr>rh_org = rd_org r, rh_document = rd_document r, rh_revision = rd_revision r, rh_ocr_job = rd_ocr_job r,
     rh_values = rd_values r, rh_decisions = rd_decisions r, rh_updated_by = rd_updated_by r, rh_updated_at = rd_updated_at r\<rparr>"

definition insert_return :: "return_row \<Rightarrow> (unit, store) txn" where
  "insert_return r s =
     (if rr_action r \<notin> {''Return'', ''Reprocess''}
         \<or> rr_reason r \<notin> {''missing_value'', ''incorrect_value'', ''unreadable_original'', ''quality_issue'', ''missing_page'', ''other''}
         \<or> rune_count (rr_note r) > 1000
      then Inl (CheckViolation ''document_review_returns'')
      else if row_exists (\<lambda>q. rr_id q = rr_id r) (document_review_returns s) then Inl (UniqueViolation ''document_review_returns_pkey'')
      else Inr ((), s\<lparr>document_review_returns := document_review_returns s @ [r]\<rparr>))"


section \<open>Confirmed reviews\<close>

definition read_review :: "review_row \<Rightarrow> review" where
  "read_review e = zero_review\<lparr>rv_id := er_id e, rv_org := er_org e, rv_document := er_document e, rv_ocr_job := er_ocr_job e,
     rv_revision := er_revision e, rv_object_key := er_object_key e, rv_confirmed_by := er_confirmed_by e,
     rv_confirmed_at := er_confirmed_at e\<rparr>"

definition CurrentReview :: "time \<Rightarrow> id \<Rightarrow> id \<Rightarrow> id \<Rightarrow> (review, store) txn" where
  "CurrentReview clock user org doc s =
     (case GetDocument clock user org doc s of
        Inl e \<Rightarrow> Inl e
      | Inr (_, s) \<Rightarrow>
          (case query_row (current_review_row org doc) (document_extraction_reviews s) of
             None \<Rightarrow> Inr (zero_review, s)
           | Some e \<Rightarrow> Inr (read_review e, s)))"

text \<open>The draft a review was made from, when it names one, is still the current one.\<close>

definition draft_unchanged :: "review \<Rightarrow> store \<Rightarrow> bool" where
  "draft_unchanged x s =
     (rv_draft_revision x > 0 \<longrightarrow>
        (case query_row (draft_at (rv_org x) (rv_document x)) (document_review_drafts s) of
           None \<Rightarrow> False
         | Some r \<Rightarrow> rd_revision r = rv_draft_revision x \<and> rd_ocr_job r = rv_ocr_job x))"

definition close_review :: "time \<Rightarrow> review_row \<Rightarrow> review_row" where
  "close_review t e = e\<lparr>er_superseded_at := Some t\<rparr>"

definition supersede_review :: "review \<Rightarrow> review_row option \<Rightarrow> store \<Rightarrow> store" where
  "supersede_review x previous s =
     s\<lparr>document_extraction_reviews := close_current er_id (close_review (rv_confirmed_at x)) previous (document_extraction_reviews s)\<rparr>"

definition new_review :: "store \<Rightarrow> review \<Rightarrow> int \<Rightarrow> review_row" where
  "new_review s x revision =
     \<lparr>er_id = rv_id x, er_org = rv_org x, er_document = rv_document x, er_ocr_job = rv_ocr_job x, er_revision = revision,
      er_object_key = rv_object_key x, er_confirmed_by = rv_confirmed_by x, er_confirmed_at = rv_confirmed_at x,
      er_superseded_at = None, er_draft_revision = (if review_enabled s then rv_draft_revision x else 0)\<rparr>"

definition confirm_audit :: "review \<Rightarrow> audit_row" where
  "confirm_audit x =
     review_audit (rv_org x) (rv_confirmed_by x) ''extraction.confirm'' (rv_document x) (rv_request x) ''success'' None
       (JObject [(''draft_revision'', JNumber (rv_draft_revision x)), (''review_revision'', JNumber (rv_revision x))])
       (rv_confirmed_at x)"

definition SaveReview :: "bool \<Rightarrow> review \<Rightarrow> int \<Rightarrow> (review, store) txn" where
  "SaveReview accepts x expected s =
     (if \<not> manager_here (rv_confirmed_by x) (rv_org x) s then Inl Tenant_ErrForbidden
      else case query_row (document_at (rv_org x) (rv_document x)) (documents s) of
        None \<Rightarrow> Inl Tenant_ErrNotFound
      | Some d \<Rightarrow>
          if \<not> open_status (d_status d) then Inl Tenant_ErrNotFound
          else if currentOCR (rv_org x) (rv_document x) s \<noteq> Some (rv_ocr_job x) then Inl Extraction_ErrConflict
          else if \<not> draft_unchanged x s then Inl Extraction_ErrConflict
          else
            let previous = query_row (current_review_row (rv_org x) (rv_document x)) (document_extraction_reviews s);
                revision = (case previous of None \<Rightarrow> 0 | Some p \<Rightarrow> er_revision p) in
            if revision \<noteq> expected then Inl Extraction_ErrConflict
            else
              let x' = x\<lparr>rv_revision := revision + 1\<rparr> in
              case insert_review (new_review s x (revision + 1)) (supersede_review x previous s) of
                Inl e \<Rightarrow> Inl e
              | Inr (_, s) \<Rightarrow>
             (case insert_review_audit accepts (confirm_audit x') s of
                Inl e \<Rightarrow> Inl e
              | Inr (_, s) \<Rightarrow> Inr (x', s)))"

text \<open>Reviews joined with their documents, newest first.\<close>

definition review_position :: "review_row \<Rightarrow> time \<times> id" where
  "review_position e = (er_confirmed_at e, er_id e)"

definition document_of_review :: "(document_row \<Rightarrow> bool) \<Rightarrow> store \<Rightarrow> review_row \<Rightarrow> bool" where
  "document_of_review P s e = row_exists (\<lambda>d. d_org d = er_org e \<and> d_id d = er_document e \<and> P d) (documents s)"

definition current_draft_sql :: "store \<Rightarrow> review_row \<Rightarrow> bool" where
  "current_draft_sql s e = (\<not> review_enabled s \<or> \<not> newer_draft s e)"

definition run_of_review_current :: "store \<Rightarrow> review_row \<Rightarrow> bool" where
  "run_of_review_current s e =
     row_exists (\<lambda>r. or_job r = er_ocr_job e \<and> run_of (er_org e) (er_document e) r \<and> run_current r) (document_ocr_runs s)"

definition ListCurrentReviewsFiltered :: "time \<Rightarrow> id \<Rightarrow> id \<Rightarrow> int \<Rightarrow> string \<Rightarrow> (review list, store) txn" where
  "ListCurrentReviewsFiltered clock user org limit status s =
     (if limit < 1 \<or> limit > 5000 then Inl (OtherError ''invalid extraction export limit'')
      else if status \<noteq> [] \<and> status \<noteq> ''Available'' \<and> status \<noteq> ''Archived'' then Inl (OtherError ''invalid extraction export status'')
      else if \<not> manager_here user org s then Inl Tenant_ErrForbidden
      else
        let rows = take (nat limit + 1) (descending review_position (filter (\<lambda>e. er_org e = org \<and> er_superseded_at e = None
                      \<and> document_of_review (\<lambda>d. open_status (d_status d) \<and> (status = [] \<or> d_status d = status)) s e
                      \<and> current_draft_sql s e \<and> run_of_review_current s e) (document_extraction_reviews s))) in
        if length rows > nat limit then Inl (OtherError ''extraction export requires asynchronous processing'')
        else Inr (map read_review rows, auditTenant org user ''extraction.export'' ''organization'' org clock s))"

definition ListCurrentReviews :: "time \<Rightarrow> id \<Rightarrow> id \<Rightarrow> int \<Rightarrow> (review list, store) txn" where
  "ListCurrentReviews clock user org limit = ListCurrentReviewsFiltered clock user org limit []"

definition ListRecentReviews :: "id \<Rightarrow> id \<Rightarrow> int \<Rightarrow> int \<Rightarrow> store \<Rightarrow> review list result" where
  "ListRecentReviews user org limit offset s =
     (if limit < 1 \<or> limit > 100 \<or> offset < 0 \<or> offset > 10000 then Inl (OtherError ''invalid review queue limit'')
      else if \<not> manager_here user org s then Inl Tenant_ErrForbidden
      else Inr (map read_review (take (nat limit) (drop (nat offset) (descending review_position
             (filter (\<lambda>e. er_org e = org \<and> er_superseded_at e = None \<and> document_of_review (\<lambda>d. d_status d = ''Available'') s e)
                (document_extraction_reviews s)))))))"

section \<open>Drafts\<close>

definition read_draft :: "draft_row \<Rightarrow> review_draft" where
  "read_draft r = \<lparr>dr_doc_org = rd_org r, dr_document = rd_document r, dr_ocr_job = rd_ocr_job r, dr_revision = rd_revision r,
     dr_values = Some (rd_values r), dr_decisions = Some (rd_decisions r), dr_updated_by = rd_updated_by r,
     dr_updated_at = rd_updated_at r\<rparr>"

definition CurrentDraft :: "time \<Rightarrow> id \<Rightarrow> id \<Rightarrow> id \<Rightarrow> (review_draft, store) txn" where
  "CurrentDraft clock user org doc s =
     (case GetDocument clock user org doc s of
        Inl e \<Rightarrow> Inl e
      | Inr (_, s) \<Rightarrow>
          (case query_row (draft_at org doc) (document_review_drafts s) of
             None \<Rightarrow> Inr (zero_draft, s)
           | Some r \<Rightarrow> Inr (read_draft r, s)))"

definition read_history :: "draft_history_row \<Rightarrow> review_draft" where
  "read_history h = \<lparr>dr_doc_org = [], dr_document = rh_document h, dr_ocr_job = rh_ocr_job h, dr_revision = rh_revision h,
     dr_values = Some (rh_values h), dr_decisions = Some (rh_decisions h), dr_updated_by = rh_updated_by h,
     dr_updated_at = rh_updated_at h\<rparr>"

definition ListDraftHistory :: "time \<Rightarrow> id \<Rightarrow> id \<Rightarrow> id \<Rightarrow> int \<Rightarrow> (review_draft list, store) txn" where
  "ListDraftHistory clock user org doc limit s =
     (if limit < 1 \<or> limit > 20 then Inl Extraction_ErrConflict
      else case GetDocument clock user org doc s of
        Inl e \<Rightarrow> Inl e
      | Inr (_, s) \<Rightarrow>
     (case currentRole user org s of
        Inl _ \<Rightarrow> Inl Tenant_ErrNotFound
      | Inr role \<Rightarrow>
          Inr (map read_history (take (nat limit) (descending rh_revision
                 (filter (\<lambda>h. rh_org h = org \<and> rh_document h = doc \<and> (manager_role role \<or> rh_updated_by h = user))
                    (document_review_draft_history s)))), s)))"

text \<open>A document of the list of open ones that the user may edit; its row is locked.\<close>

definition editable_row :: "id \<Rightarrow> id \<Rightarrow> id \<Rightarrow> store \<Rightarrow> document_row \<Rightarrow> bool" where
  "editable_row user org doc s d = (document_at org doc d \<and> open_status (d_status d) \<and> document_visible user org s d)"

definition draft_audit :: "review_draft \<Rightarrow> string \<Rightarrow> int \<Rightarrow> audit_row" where
  "draft_audit x request revision =
     review_audit (dr_doc_org x) (dr_updated_by x) ''review.draft.save'' (dr_document x) request ''success'' None
       (JObject [(''new_revision'', JNumber (revision + 1)), (''old_revision'', JNumber revision)]) (dr_updated_at x)"

definition draft_row_of :: "review_draft \<Rightarrow> int \<Rightarrow> (string \<times> string) list \<Rightarrow> (string \<times> string) list \<Rightarrow> draft_row" where
  "draft_row_of x revision v w =
     \<lparr>rd_org = dr_doc_org x, rd_document = dr_document x, rd_ocr_job = dr_ocr_job x, rd_revision = revision, rd_values = v,
      rd_decisions = w, rd_updated_by = dr_updated_by x, rd_updated_at = dr_updated_at x\<rparr>"

text \<open>A nil map is encoded as \<^verbatim>\<open>null\<close>, which is not an object.\<close>

definition SaveDraft :: "bool \<Rightarrow> review_draft \<Rightarrow> int \<Rightarrow> string \<Rightarrow> (review_draft, store) txn" where
  "SaveDraft accepts x expected request s =
     (let org = dr_doc_org x; doc = dr_document x in
      case currentRole (dr_updated_by x) org s of
        Inl _ \<Rightarrow> Inl Tenant_ErrForbidden
      | Inr _ \<Rightarrow>
          if \<not> row_exists (editable_row (dr_updated_by x) org doc s) (documents s) then Inl Tenant_ErrNotFound
          else if currentOCR org doc s \<noteq> Some (dr_ocr_job x) then Inl Extraction_ErrConflict
          else
            let revision = draft_revision s (org, doc) in
            if revision \<noteq> expected then Inl Extraction_ErrConflict
            else case (dr_values x, dr_decisions x) of
              (Some v, Some w) \<Rightarrow>
                (let r = draft_row_of x (revision + 1) v w in
                 case insert_history (history_of r) (upsert_draft r (\<lambda>_. r) s) of
                   Inl e \<Rightarrow> Inl e
                 | Inr (_, s) \<Rightarrow>
                (case insert_review_audit accepts (draft_audit x request revision) s of
                   Inl e \<Rightarrow> Inl e
                 | Inr (_, s) \<Rightarrow> Inr (x\<lparr>dr_revision := revision + 1\<rparr>, s)))
            | _ \<Rightarrow> Inl (CheckViolation ''document_review_drafts''))"


section \<open>Returning a review\<close>

definition open_task :: "task_row \<Rightarrow> bool" where
  "open_task t = (t_status t \<in> {TaskOpen, InProgress})"

text \<open>The open tasks of a document's review.\<close>

definition review_tasks :: "id \<Rightarrow> id \<Rightarrow> store \<Rightarrow> task_row list" where
  "review_tasks org doc s =
     concat (map (\<lambda>r. filter (\<lambda>t. task_at (rt_org r) (rt_task r) t \<and> open_task t) (tasks s))
       (filter (\<lambda>r. rt_org r = org \<and> rt_document r = doc) (document_review_tasks s)))"

definition CurrentReturn :: "time \<Rightarrow> id \<Rightarrow> id \<Rightarrow> id \<Rightarrow> (return_notice, store) txn" where
  "CurrentReturn clock user org doc s =
     (case GetDocument clock user org doc s of
        Inl e \<Rightarrow> Inl e
      | Inr (_, s) \<Rightarrow>
     (case currentRole user org s of
        Inl _ \<Rightarrow> Inl Tenant_ErrNotFound
      | Inr role \<Rightarrow>
          Inr (case descending (\<lambda>r. (rr_returned_at r, rr_id r)) (filter (\<lambda>r. rr_org r = org \<and> rr_document r = doc
                 \<and> rr_action r = ''Return''
                 \<and> row_exists (\<lambda>q. or_job q = rr_ocr_job r \<and> run_of org doc q \<and> run_current q) (document_ocr_runs s)
                 \<and> (manager_role role \<or> list_ex (\<lambda>t. t_assignee t = Some user) (review_tasks org doc s)))
                 (document_review_returns s)) of
                 [] \<Rightarrow> \<lparr>no_reason = [], no_note = [], no_at = zero_time\<rparr>
               | r # _ \<Rightarrow> \<lparr>no_reason = rr_reason r, no_note = rr_note r, no_at = rr_returned_at r\<rparr>, s)))"

definition empty_draft :: "id \<Rightarrow> id \<Rightarrow> id \<Rightarrow> int \<Rightarrow> id \<Rightarrow> time \<Rightarrow> draft_row" where
  "empty_draft org doc ocr revision user now =
     \<lparr>rd_org = org, rd_document = doc, rd_ocr_job = ocr, rd_revision = revision, rd_values = [], rd_decisions = [],
      rd_updated_by = user, rd_updated_at = now\<rparr>"

text \<open>A return keeps the values of a draft of the same OCR run.\<close>

definition returned_draft :: "draft_row \<Rightarrow> draft_row \<Rightarrow> draft_row" where
  "returned_draft r q =
     (if rd_ocr_job q = rd_ocr_job r then r\<lparr>rd_values := rd_values q, rd_decisions := rd_decisions q\<rparr> else r)"

definition return_row_of :: "return_input \<Rightarrow> string \<Rightarrow> return_row" where
  "return_row_of x note =
     \<lparr>rr_id = ri_id x, rr_org = ri_org x, rr_document = ri_document x, rr_ocr_job = ri_ocr_job x, rr_action = ''Return'',
      rr_reason = ri_reason x, rr_note = note, rr_returned_by = ri_actor x, rr_returned_at = ri_at x\<rparr>"

definition return_audit :: "return_input \<Rightarrow> int \<Rightarrow> int \<Rightarrow> audit_row" where
  "return_audit x revision review =
     review_audit (ri_org x) (ri_actor x) ''review.return'' (ri_document x) (ri_request x) ''success'' (Some (ri_reason x))
       (JObject [(''new_draft_revision'', JNumber (revision + 1)), (''old_draft_revision'', JNumber revision),
                 (''review_revision'', JNumber review)]) (ri_at x)"

text \<open>The notices to the assignees; \<^verbatim>\<open>uuid\<close> is \<^verbatim>\<open>gen_random_uuid()\<close> by position.\<close>

definition return_notices :: "(nat \<Rightarrow> id) \<Rightarrow> return_input \<Rightarrow> store \<Rightarrow> notification_row list" where
  "return_notices uuid x s =
     map (\<lambda>(i, user). notification (uuid i) (ri_org x) user ''TaskChange'' (''review-return-'' @ ri_id x) ''Review needs correction''
            (''/o/'' @ ri_org x @ ''/documents/'' @ ri_document x) ''Immediate'' (ri_at x))
       (enumerate 0 (concat (map (\<lambda>t. map m_user (filter (\<lambda>m. m_org m = t_org t \<and> Some (m_user m) = t_assignee t) (memberships s)))
          (review_tasks (ri_org x) (ri_document x) s))))"

fun insert_notices :: "notification_row list \<Rightarrow> (unit, store) txn" where
  "insert_notices [] s = Inr ((), s)"
| "insert_notices (n # ns) s =
     (if row_exists (\<lambda>q. n_id q = n_id n \<or> notification_key q = notification_key n) (notifications s)
      then Inl (UniqueViolation ''notifications'')
      else insert_notices ns (s\<lparr>notifications := notifications s @ [n]\<rparr>))"

definition return_reasons :: "string list" where
  "return_reasons = [''missing_value'', ''incorrect_value'', ''unreadable_original'', ''other'']"

text \<open>The selectors of a return or an assignment are those of the document's current state.\<close>

definition return_stale :: "return_input \<Rightarrow> store \<Rightarrow> bool" where
  "return_stale x s =
     (let org = ri_org x; doc = ri_document x;
          e = query_row (current_review_row org doc) (document_extraction_reviews s)
      in (case e of None \<Rightarrow> 0 | Some e \<Rightarrow> er_revision e) \<noteq> ri_review_revision x
         \<or> (case e of None \<Rightarrow> False | Some e \<Rightarrow> er_ocr_job e \<noteq> [] \<and> er_ocr_job e \<noteq> ri_ocr_job x)
         \<or> currentOCR org doc s \<noteq> Some (ri_ocr_job x) \<or> draft_revision s (org, doc) \<noteq> ri_draft_revision x)"

definition write_return :: "bool \<Rightarrow> (nat \<Rightarrow> id) \<Rightarrow> return_input \<Rightarrow> string \<Rightarrow> (int, store) txn" where
  "write_return accepts uuid x note s =
     (let org = ri_org x; doc = ri_document x;
          revision = draft_revision s (org, doc);
          r = empty_draft org doc (ri_ocr_job x) (revision + 1) (ri_actor x) (ri_at x)
      in case insert_return (return_row_of x note) s of
           Inl e \<Rightarrow> Inl e
         | Inr (_, s1) \<Rightarrow>
        (let s2 = upsert_draft r (returned_draft r) s1 in
         case query_row (draft_at org doc) (document_review_drafts s2) of
           None \<Rightarrow> Inl ErrNoRows
         | Some q \<Rightarrow>
        (case insert_history (history_of q) s2 of
           Inl e \<Rightarrow> Inl e
         | Inr (_, s3) \<Rightarrow>
        (case insert_review_audit accepts (return_audit x revision (ri_review_revision x)) s3 of
           Inl e \<Rightarrow> Inl e
         | Inr (_, s4) \<Rightarrow>
        (case insert_notices (return_notices uuid x s4) s4 of
           Inl e \<Rightarrow> Inl e
         | Inr (_, s5) \<Rightarrow> Inr (revision + 1, s5))))))"

definition ReturnReview :: "bool \<Rightarrow> (nat \<Rightarrow> id) \<Rightarrow> return_input \<Rightarrow> (int, store) txn" where
  "ReturnReview accepts uuid x s =
     (if ri_reason x \<notin> set return_reasons then Inl Extraction_ErrConflict
      else
        let note = TrimSpace (ri_note x) in
        if rune_count note > 1000 \<or> ri_review_revision x < 0 \<or> ri_draft_revision x < 0 then Inl Extraction_ErrConflict
        else if \<not> manager_here (ri_actor x) (ri_org x) s then Inl Tenant_ErrForbidden
        else case query_row (document_at (ri_org x) (ri_document x)) (documents s) of
          None \<Rightarrow> Inl Extraction_ErrConflict
        | Some d \<Rightarrow>
            if \<not> open_status (d_status d) then Inl Extraction_ErrConflict
            else if return_stale x s then Inl Extraction_ErrConflict
            else write_return accepts uuid x note s)"

section \<open>Processing a document again\<close>

record reprocess =
  rp_user :: id
  rp_org :: id
  rp_document :: id
  rp_ocr :: id
  rp_draft :: int
  rp_reason :: string
  rp_note :: string
  rp_request :: string
  rp_now :: time

text \<open>The INSERT of the job uses one parameter for the uuid \<^verbatim>\<open>id\<close> and for the text \<^verbatim>\<open>idempotency_key\<close>.  \<^verbatim>\<open>accepts1\<close> is
  the server's verdict on it; \<^verbatim>\<open>jid\<close> and \<^verbatim>\<open>rid\<close> are the fresh identifiers.\<close>

definition reprocess_run :: "bool \<Rightarrow> id \<Rightarrow> reprocess \<Rightarrow> document_row \<Rightarrow> string \<times> string \<Rightarrow> (unit, store) txn" where
  "reprocess_run accepts1 jid x d versions s =
     (let sha = hex_encode (d_sha256 d); model = fst versions; pre = snd versions in
      if \<not> accepts1 then Inl (StatementRejected ''inconsistent types deduced for parameter $1'')
      else schedule_run jid (rp_user x) (rp_org x) (rp_document x) (ocr_payload (rp_document x) sha model pre)
             (fingerprint_of (rp_document x) sha model pre @ '':reprocess:'' @ jid) (Some (rp_ocr x)) (Some (rp_request x)) (rp_now x) s)"

definition reprocess_row :: "id \<Rightarrow> reprocess \<Rightarrow> return_row" where
  "reprocess_row rid x =
     \<lparr>rr_id = rid, rr_org = rp_org x, rr_document = rp_document x, rr_ocr_job = rp_ocr x, rr_action = ''Reprocess'',
      rr_reason = rp_reason x, rr_note = TrimSpace (rp_note x), rr_returned_by = rp_user x, rr_returned_at = rp_now x\<rparr>"

definition reprocess_audit :: "reprocess \<Rightarrow> id \<Rightarrow> int \<Rightarrow> audit_row" where
  "reprocess_audit x jid revision =
     review_audit (rp_org x) (rp_user x) ''review.reprocess'' (rp_document x) (rp_request x) ''queued'' (Some (rp_reason x))
       (JObject [(''draft_revision'', JNumber revision), (''new_ocr_job_id'', JString jid), (''old_ocr_job_id'', JString (rp_ocr x))])
       (rp_now x)"

definition reset_draft :: "bool \<Rightarrow> id \<Rightarrow> id \<Rightarrow> reprocess \<Rightarrow> (ocr_state, store) txn" where
  "reset_draft accepts2 jid rid x s =
     (let org = rp_org x; doc = rp_document x; revision = draft_revision s (org, doc) in
      if revision \<noteq> rp_draft x then Inl Extraction_ErrConflict
      else
        let r = empty_draft org doc jid (revision + 1) (rp_user x) (rp_now x) in
        case insert_history (history_of r) (upsert_draft r (\<lambda>_. r) s) of
          Inl e \<Rightarrow> Inl e
        | Inr (_, s2) \<Rightarrow>
       (case insert_return (reprocess_row rid x) s2 of
          Inl e \<Rightarrow> Inl e
        | Inr (_, s3) \<Rightarrow>
       (case insert_review_audit accepts2 (reprocess_audit x jid (revision + 1)) s3 of
          Inl e \<Rightarrow> Inl e
        | Inr (_, s4) \<Rightarrow> Inr (queued_state jid Queued, s4))))"

definition ReprocessOCR :: "bool \<Rightarrow> bool \<Rightarrow> id \<Rightarrow> id \<Rightarrow> reprocess \<Rightarrow> (ocr_state, store) txn" where
  "ReprocessOCR accepts1 accepts2 jid rid x s =
     (let org = rp_org x; doc = rp_document x in
      if rp_reason x \<notin> {''quality_issue'', ''missing_page'', ''other''} \<or> rune_count (rp_note x) > 1000
         \<or> \<not> documentUUID (rp_ocr x) \<or> rp_draft x < 0
      then Inl Tenant_ErrForbidden
      else if \<not> manager_here (rp_user x) org s then Inl Tenant_ErrForbidden
      else case query_row (document_at org doc) (documents s) of
        None \<Rightarrow> Inl Tenant_ErrNotFound
      | Some d \<Rightarrow>
          if \<not> open_status (d_status d) then Inl Tenant_ErrNotFound
          else case enabled_versions s of
            None \<Rightarrow> Inl Tenant_ErrForbidden
          | Some versions \<Rightarrow>
              if latestOCR org doc s \<noteq> Some (rp_ocr x)
              then Inl Extraction_ErrConflict
              else if row_exists (\<lambda>r. run_of org doc r
                     \<and> row_exists (\<lambda>j. j_id j = or_job r \<and> (j_status j = Queued \<or> j_status j = Running)) (durable_jobs s))
                     (document_ocr_runs s)
              then Inl Tenant_ErrForbidden
              else case reprocess_run accepts1 jid x d versions s of
                Inl e \<Rightarrow> Inl e
              | Inr (_, s1) \<Rightarrow> reset_draft accepts2 jid rid x s1)"


section \<open>Assigning reviews\<close>

text \<open>What the selectors of an assignment are compared with: the document's status, its published run, and the revisions
  of its current review and of its draft when they belong to that run.\<close>

record selectors =
  sl_status :: string
  sl_ocr :: id
  sl_review :: int
  sl_draft :: int

definition review_of_run :: "id \<Rightarrow> id \<Rightarrow> id \<Rightarrow> store \<Rightarrow> review_row option" where
  "review_of_run org doc ocr s =
     query_row (\<lambda>e. current_review_row org doc e \<and> er_ocr_job e = ocr) (document_extraction_reviews s)"

definition selectors_of :: "id \<Rightarrow> id \<Rightarrow> store \<Rightarrow> selectors option" where
  "selectors_of org doc s =
     (case (query_row (document_at org doc) (documents s), latestOCR org doc s) of
        (Some d, Some ocr) \<Rightarrow>
          Some \<lparr>sl_status = d_status d, sl_ocr = ocr,
                sl_review = (case review_of_run org doc ocr s of None \<Rightarrow> 0 | Some e \<Rightarrow> er_revision e),
                sl_draft = (case query_row (\<lambda>r. draft_at org doc r \<and> rd_ocr_job r = ocr) (document_review_drafts s) of
                              None \<Rightarrow> 0 | Some r \<Rightarrow> rd_revision r)\<rparr>
      | _ \<Rightarrow> None)"

text \<open>Who may be given a document: a member who may read it.\<close>

definition assignable :: "id \<Rightarrow> id \<Rightarrow> id \<Rightarrow> store \<Rightarrow> bool" where
  "assignable user org doc s =
     (row_exists (is_member_row org user) (memberships s)
      \<and> row_exists (\<lambda>d. document_at org doc d \<and> document_visible user org s d) (documents s))"

definition assignment_current :: "id \<Rightarrow> id \<Rightarrow> store \<Rightarrow> assignment \<Rightarrow> bool" where
  "assignment_current org assignee s x =
     ((case selectors_of org (as_document x) s of
         None \<Rightarrow> False
       | Some q \<Rightarrow> open_status (sl_status q) \<and> sl_ocr q = as_ocr_job x \<and> sl_review q = as_review_revision x
                 \<and> sl_draft q = as_draft_revision x)
      \<and> (assignee = [] \<or> assignable assignee org (as_document x) s))"

definition review_task :: "id \<Rightarrow> id \<Rightarrow> id \<Rightarrow> id \<Rightarrow> time \<Rightarrow> task_row" where
  "review_task i org actor assignee now =
     \<lparr>t_id = i, t_org = org, t_title = ''Review document'', t_description = [], t_creator = actor, t_assignee = Some assignee,
      t_status = TaskOpen, t_priority = Normal, t_due_on = None, t_created_at = now, t_updated_at = now,
      t_status_changed_at = now, t_completed_at = None, t_completed_by = None\<rparr>"

definition link_review_task :: "id \<Rightarrow> id \<Rightarrow> id \<Rightarrow> (unit, store) txn" where
  "link_review_task org doc i s =
     (let mine = (\<lambda>r. rt_org r = org \<and> rt_document r = doc) in
      if row_exists (\<lambda>r. rt_org r = org \<and> rt_task r = i \<and> \<not> mine r) (document_review_tasks s)
      then Inl (UniqueViolation ''document_review_tasks_organization_id_task_id_key'')
      else Inr ((), s\<lparr>document_review_tasks :=
             if row_exists mine (document_review_tasks s)
             then sql_update mine (\<lambda>r. r\<lparr>rt_task := i\<rparr>) (document_review_tasks s)
             else document_review_tasks s @ [\<lparr>rt_org = org, rt_document = doc, rt_task = i\<rparr>]\<rparr>))"

definition assigned_payload :: "id \<Rightarrow> id \<Rightarrow> json" where
  "assigned_payload i assignee = JObject [(''assignee_user_id'', JString assignee), (''task_id'', JString i)]"

definition create_review_task :: "nat \<Rightarrow> id \<Rightarrow> id \<Rightarrow> id \<Rightarrow> time \<Rightarrow> assignment \<Rightarrow> (unit, store) txn" where
  "create_review_task eid actor org assignee now x s =
     (case insert_task (review_task (as_task x) org actor assignee now) s of
        Inl e \<Rightarrow> Inl e
      | Inr (_, s1) \<Rightarrow>
     (case link_review_task org (as_document x) (as_task x) s1 of
        Inl e \<Rightarrow> Inl e
      | Inr (_, s2) \<Rightarrow>
          insertDomainEvent eid org (as_task x) actor ''task.created'' (assigned_payload (as_task x) assignee) now s2))"

text \<open>An open review task changes hands; its watchers are left alone.\<close>

definition reassign_task :: "nat \<Rightarrow> id \<Rightarrow> id \<Rightarrow> id \<Rightarrow> time \<Rightarrow> id \<Rightarrow> (unit, store) txn" where
  "reassign_task eid actor org assignee now i s =
     (let s1 = s\<lparr>tasks := sql_update (task_at org i) (\<lambda>t. t\<lparr>t_assignee := null_if_empty assignee, t_updated_at := now\<rparr>) (tasks s)\<rparr> in
      insertDomainEvent eid org i actor (if assignee \<noteq> [] then ''task.assigned'' else ''task.unassigned'')
        (assigned_payload i assignee) now s1)"

definition assign_audit :: "id \<Rightarrow> id \<Rightarrow> string \<Rightarrow> time \<Rightarrow> assignment \<Rightarrow> audit_row" where
  "assign_audit org actor request now x =
     review_audit org actor ''review.assign'' (as_document x) request ''success'' None
       (JObject [(''draft_revision'', JNumber (as_draft_revision x)), (''ocr_job_id'', JString (as_ocr_job x)),
                 (''review_revision'', JNumber (as_review_revision x))]) now"

text \<open>One document of an assignment; the result tells whether a task was created.\<close>

definition assign_one :: "bool \<Rightarrow> nat \<Rightarrow> id \<Rightarrow> id \<Rightarrow> id \<Rightarrow> string \<Rightarrow> time \<Rightarrow> assignment \<Rightarrow> (id list, store) txn" where
  "assign_one accepts eid actor org assignee request now x s =
     (let active = (case review_tasks org (as_document x) s of [] \<Rightarrow> None | t # _ \<Rightarrow> Some (t_id t)) in
      case (case active of
              None \<Rightarrow> if assignee \<noteq> [] then map_sum id (\<lambda>(_, s). ([as_task x], s)) (create_review_task eid actor org assignee now x s)
                      else Inr ([], s)
            | Some i \<Rightarrow> map_sum id (\<lambda>(_, s). ([], s)) (reassign_task eid actor org assignee now i s)) of
        Inl e \<Rightarrow> Inl e
      | Inr (created, s1) \<Rightarrow>
     (case insert_review_audit accepts (assign_audit org actor request now x) s1 of
        Inl e \<Rightarrow> Inl e
      | Inr (_, s2) \<Rightarrow> Inr (created, s2)))"

fun assign_each :: "bool \<Rightarrow> (nat \<Rightarrow> nat) \<Rightarrow> nat \<Rightarrow> id \<Rightarrow> id \<Rightarrow> id \<Rightarrow> string \<Rightarrow> time \<Rightarrow> assignment list \<Rightarrow> (id list, store) txn" where
  "assign_each accepts eids k actor org assignee request now [] s = Inr ([], s)"
| "assign_each accepts eids k actor org assignee request now (x # xs) s =
     (case assign_one accepts (eids k) actor org assignee request now x s of
        Inl e \<Rightarrow> Inl e
      | Inr (created, s1) \<Rightarrow>
          (case assign_each accepts eids (Suc k) actor org assignee request now xs s1 of
             Inl e \<Rightarrow> Inl e
           | Inr (more_created, s2) \<Rightarrow> Inr (created @ more_created, s2)))"

definition selectors_valid :: "assignment list \<Rightarrow> bool" where
  "selectors_valid xs =
     (list_all (\<lambda>x. documentUUID (as_document x) \<and> documentUUID (as_ocr_job x) \<and> documentUUID (as_task x)
        \<and> 0 \<le> as_review_revision x \<and> 0 \<le> as_draft_revision x) xs
      \<and> distinct (map as_document xs))"

definition AssignReviewTasks ::
  "bool \<Rightarrow> (nat \<Rightarrow> nat) \<Rightarrow> id \<Rightarrow> id \<Rightarrow> id \<Rightarrow> assignment list \<Rightarrow> string \<Rightarrow> time \<Rightarrow> (id list, store) txn" where
  "AssignReviewTasks accepts eids actor org assignee xs request now s =
     (if length xs < 1 \<or> length xs > 50 then Inl Extraction_ErrConflict
      else
        let items = sort_key as_document xs in
        if \<not> selectors_valid items then Inl Extraction_ErrConflict
        else if \<not> manager_here actor org s then Inl Tenant_ErrForbidden
        else if assignee \<noteq> [] \<and> \<not> documentUUID assignee then Inl Extraction_ErrConflict
        else if \<not> list_all (assignment_current org assignee s) items then Inl Extraction_ErrConflict
        else assign_each accepts eids 0 actor org assignee request now items s)"

section \<open>The review queue\<close>

text \<open>A row of the queue: the document with the run, the review, the draft, the task and the assignee joined to it.  The
  draft is joined whatever its run.\<close>

definition queue_assignee :: "store \<Rightarrow> document_row \<Rightarrow> task_row \<Rightarrow> id option" where
  "queue_assignee s d t =
     (case t_assignee t of
        None \<Rightarrow> None
      | Some u \<Rightarrow> if row_exists (is_member_row (t_org t) u) (memberships s) \<and> document_visible u (t_org t) s d then Some u else None)"

definition review_approved :: "store \<Rightarrow> document_row \<Rightarrow> review_row option \<Rightarrow> int \<Rightarrow> bool" where
  "review_approved s d e draft =
     (case e of
        None \<Rightarrow> False
      | Some e \<Rightarrow> draft \<le> er_draft_revision e
          \<and> row_exists (\<lambda>a. sg_org a = d_org d \<and> sg_document a = d_id d \<and> sg_review a = er_id e \<and> sg_superseded_at a = None)
              (accounting_suggestions s))"

definition queue_item_of :: "store \<Rightarrow> document_row \<Rightarrow> queue_item option" where
  "queue_item_of s d =
     (case latestOCR (d_org d) (d_id d) s of
        None \<Rightarrow> None
      | Some ocr \<Rightarrow>
          let e = review_of_run (d_org d) (d_id d) ocr s;
              draft = draft_revision s (d_org d, d_id d);
              t = (case review_tasks (d_org d) (d_id d) s of [] \<Rightarrow> None | t # _ \<Rightarrow> Some t)
          in if review_approved s d e draft then None
             else Some \<lparr>qi_document = d_id d, qi_status = d_status d, qi_accepted_at = d_accepted_at d, qi_ocr_job = ocr,
                        qi_review_revision = (case e of None \<Rightarrow> 0 | Some e \<Rightarrow> er_revision e), qi_draft_revision = draft,
                        qi_task = (case t of None \<Rightarrow> [] | Some t \<Rightarrow> t_id t),
                        qi_assignee = null_text (case t of None \<Rightarrow> None | Some t \<Rightarrow> queue_assignee s d t)\<rparr>)"

definition in_view :: "string \<Rightarrow> id \<Rightarrow> queue_item \<Rightarrow> bool" where
  "in_view view user q =
     (view = ''all'' \<or> view = ''mine'' \<and> qi_assignee q = user \<and> qi_assignee q \<noteq> [] \<or> view = ''unassigned'' \<and> qi_assignee q = [])"

definition queue_rows :: "id \<Rightarrow> id \<Rightarrow> string \<Rightarrow> string \<Rightarrow> store \<Rightarrow> queue_item list" where
  "queue_rows user org view status s =
     filter (in_view view user)
       (List.map_filter (queue_item_of s)
          (sort_key (\<lambda>d. (d_accepted_at d, d_id d))
             (filter (\<lambda>d. d_org d = org \<and> d_status d = status \<and> document_visible user org s d) (documents s))))"

definition ListReviewQueue ::
  "(bytes \<Rightarrow> (time \<times> id) option) \<Rightarrow> (time \<Rightarrow> id \<Rightarrow> bytes) \<Rightarrow> time \<Rightarrow> id \<Rightarrow> id \<Rightarrow> string \<Rightarrow> string \<Rightarrow> string \<Rightarrow> int
    \<Rightarrow> (queue_item list \<times> string, store) txn" where
  "ListReviewQueue unmarshal marshal clock user org cursor view status limit s =
     (if limit < 1 \<or> limit > 50 \<or> view \<notin> {''all'', ''mine'', ''unassigned''} \<or> \<not> open_status status
      then Inl Document_ErrInvalidCursor
      else case decodeDocumentCursor unmarshal cursor of
        Inl e \<Rightarrow> Inl e
      | Inr position \<Rightarrow>
     (case currentRole user org s of
        Inl _ \<Rightarrow> Inl Tenant_ErrNotFound
      | Inr _ \<Rightarrow>
          let items = take (nat limit + 1) (filter (\<lambda>q. case position of None \<Rightarrow> True | Some p \<Rightarrow> p < (qi_accepted_at q, qi_document q))
                        (queue_rows user org view status s));
              page = (if length items > nat limit
                      then (take (nat limit) items,
                            encodeDocumentCursor marshal (zero_document\<lparr>doc_id := qi_document (items ! (nat limit - 1)),
                              doc_accepted_at := qi_accepted_at (items ! (nat limit - 1))\<rparr>))
                      else (items, []))
          in Inr (page, auditTenant org user ''review.queue.read'' ''organization'' org clock s)))"

section \<open>The revisions of a document\<close>

definition review_doc :: "review_row \<Rightarrow> id \<times> id" where "review_doc e = (er_org e, er_document e)"

interpretation review_table: revision_table er_id review_doc er_revision er_superseded_at close_review
  by unfold_locales (simp_all add: close_review_def review_doc_def)

definition history_log :: "store \<Rightarrow> id \<Rightarrow> id \<Rightarrow> draft_history_row list" where
  "history_log s org doc = filter (\<lambda>h. rh_org h = org \<and> rh_document h = doc) (document_review_draft_history s)"

definition reviews_ok :: "store \<Rightarrow> bool" where
  "reviews_ok s = revision_rows_ok er_id review_doc er_revision er_superseded_at (document_extraction_reviews s)"

definition draft_key :: "draft_row \<Rightarrow> (id \<times> id) option" where "draft_key r = Some (rd_org r, rd_document r)"

definition drafts_ok :: "store \<Rightarrow> bool" where
  "drafts_ok s = (unique_on draft_key (document_review_drafts s) \<and> (\<forall>org doc. numbered (map rh_revision (history_log s org doc))
     \<and> map_option history_of (query_row (draft_at org doc) (document_review_drafts s))
         = (if history_log s org doc = [] then None else Some (last (history_log s org doc)))))"

definition rev_ok :: "store \<Rightarrow> bool" where
  "rev_ok s = (ocr_ok s \<and> reviews_ok s \<and> drafts_ok s)"

lemma history_of_simps [simp]:
  "rh_org (history_of r) = rd_org r" "rh_document (history_of r) = rd_document r" "rh_revision (history_of r) = rd_revision r"
  by (simp_all add: history_of_def)

lemma current_review_row_doc: "current_review_row org doc = (\<lambda>e. review_doc e = (org, doc) \<and> er_superseded_at e = None)"
  by (auto simp: current_review_row_def review_doc_def)

lemma review_revision_length:
  "reviews_ok s \<Longrightarrow> review_revision s (org, doc) = int (length (revisions review_doc (org, doc) (document_extraction_reviews s)))"
  unfolding reviews_ok_def review_revision_def current_review_row_doc prod.case by (rule review_table.current_number)

lemma drafts_okD:
  assumes "drafts_ok s"
  shows "numbered (map rh_revision (history_log s org doc))"
    and "map_option history_of (query_row (draft_at org doc) (document_review_drafts s))
         = (if history_log s org doc = [] then None else Some (last (history_log s org doc)))"
  using assms unfolding drafts_ok_def by blast+

lemma draft_revision_length:
  assumes "drafts_ok s" shows "draft_revision s (org, doc) = int (length (history_log s org doc))"
proof (cases "history_log s org doc")
  case Nil
  then have "query_row (draft_at org doc) (document_review_drafts s) = None" using drafts_okD(2) [OF assms, of org doc] by simp
  then show ?thesis using Nil by (simp add: draft_revision_def)
next
  case (Cons h hs)
  then obtain r where r: "query_row (draft_at org doc) (document_review_drafts s) = Some r" "history_of r = last (history_log s org doc)"
    using drafts_okD(2) [OF assms, of org doc] by auto
  have "rd_revision r = last (map rh_revision (history_log s org doc))"
    using arg_cong [OF r(2), of rh_revision] Cons by (simp add: last_map)
  then show ?thesis using r(1) Cons numbered_last [OF drafts_okD(1) [OF assms, of org doc]]
    by (simp add: draft_revision_def)
qed

section \<open>Writing a draft\<close>

definition draft_tables :: "store \<Rightarrow> draft_row list \<times> draft_history_row list" where
  "draft_tables s = (document_review_drafts s, document_review_draft_history s)"

lemma drafts_ok_cong: "draft_tables s' = draft_tables s \<Longrightarrow> drafts_ok s' = drafts_ok s"
  by (simp add: drafts_ok_def draft_tables_def history_log_def)

lemma upsert_draft_rows:
  assumes "\<And>q. draft_at (rd_org r) (rd_document r) q \<Longrightarrow> draft_at (rd_org r) (rd_document r) (f q)"
  shows "query_row (draft_at org doc) (document_review_drafts (upsert_draft r f s))
    = (if org = rd_org r \<and> doc = rd_document r
       then Some (case query_row (draft_at org doc) (document_review_drafts s) of None \<Rightarrow> r | Some q \<Rightarrow> f q)
       else query_row (draft_at org doc) (document_review_drafts s))"
proof -
  have self: "draft_at (rd_org r) (rd_document r) r" by (simp add: draft_at_def)
  show ?thesis
proof (cases "org = rd_org r \<and> doc = rd_document r")
  case True
  then show ?thesis
    using assms self query_row_sql_update [of "draft_at org doc" "draft_at org doc" f "document_review_drafts s"]
      query_row_None_iff [of "draft_at org doc" "document_review_drafts s"]
      query_row_SomeD [of "draft_at org doc" "document_review_drafts s"]
    by (cases "query_row (draft_at org doc) (document_review_drafts s)")
      (auto simp: upsert_draft_def Let_def row_exists_iff)
next
  case False
  have "query_row (draft_at org doc) (sql_update (draft_at (rd_org r) (rd_document r)) f rows) = query_row (draft_at org doc) rows" for rows
    using False assms by (induction rows) (auto simp: draft_at_def)
  then show ?thesis using False by (auto simp: upsert_draft_def Let_def draft_at_def [of org doc r] split: option.splits)
qed
qed

lemma upsert_draft_frame [simp]:
  "document_review_draft_history (upsert_draft r f s) = document_review_draft_history s"
  by (simp add: upsert_draft_def Let_def)

lemma upsert_draft_unique:
  assumes "unique_on draft_key (document_review_drafts s)"
    and "\<And>q. draft_at (rd_org r) (rd_document r) q \<Longrightarrow> draft_at (rd_org r) (rd_document r) (f q)"
  shows "unique_on draft_key (document_review_drafts (upsert_draft r f s))"
proof (cases "row_exists (draft_at (rd_org r) (rd_document r)) (document_review_drafts s)")
  case True
  have "unique_on draft_key (sql_update (draft_at (rd_org r) (rd_document r)) f (document_review_drafts s))"
    by (rule unique_on_update_shrink [OF assms(1)]) (use assms(2) in \<open>force simp: draft_key_def draft_at_def\<close>)
  then show ?thesis using True by (simp add: upsert_draft_def)
next
  case False
  then have "\<not> conflicts draft_key r (document_review_drafts s)"
    by (auto simp: conflicts_def draft_key_def draft_at_def row_exists_def list_ex_iff)
  then show ?thesis using False assms(1) by (simp add: upsert_draft_def unique_on_append1)
qed

text \<open>A new draft and its entry in the history.\<close>

lemma drafts_ok_write:
  assumes ok: "drafts_ok s"
    and at: "\<And>q. draft_at (rd_org r) (rd_document r) q \<Longrightarrow> draft_at (rd_org r) (rd_document r) (f q)"
    and h: "history_of (case query_row (draft_at (rd_org r) (rd_document r)) (document_review_drafts s) of None \<Rightarrow> r | Some q \<Rightarrow> f q) = h"
    and rev: "rh_revision h = draft_revision s (rd_org r, rd_document r) + 1" "rh_org h = rd_org r" "rh_document h = rd_document r"
    and new: "draft_tables s' = (document_review_drafts (upsert_draft r f s), document_review_draft_history s @ [h])"
  shows "drafts_ok s' \<and> (\<forall>org doc. draft_revision s' (org, doc)
       = draft_revision s (org, doc) + (if org = rd_org r \<and> doc = rd_document r then 1 else 0))"
proof -
  have log: "history_log s' org doc = (if org = rd_org r \<and> doc = rd_document r then history_log s org doc @ [h] else history_log s org doc)"
    for org doc using new rev by (simp add: history_log_def draft_tables_def)
  have row: "query_row (draft_at org doc) (document_review_drafts s')
      = (if org = rd_org r \<and> doc = rd_document r
       then Some (case query_row (draft_at org doc) (document_review_drafts s) of None \<Rightarrow> r | Some q \<Rightarrow> f q)
       else query_row (draft_at org doc) (document_review_drafts s))" for org doc
    using new upsert_draft_rows [OF at] by (simp add: draft_tables_def)
  have "unique_on draft_key (document_review_drafts s')"
    using upsert_draft_unique [OF _ at] ok new by (simp add: drafts_ok_def draft_tables_def)
  moreover have "numbered (map rh_revision (history_log s' org doc))
     \<and> map_option history_of (query_row (draft_at org doc) (document_review_drafts s'))
         = (if history_log s' org doc = [] then None else Some (last (history_log s' org doc)))" for org doc
    proof (cases "org = rd_org r \<and> doc = rd_document r")
      case True
      then show ?thesis using drafts_okD(1) [OF ok, of org doc] rev(1) h draft_revision_length [OF ok, of org doc] by (simp add: log row)
    next
      case False
      then show ?thesis using drafts_okD [OF ok, of org doc] by (simp only: log row if_False)
    qed
  ultimately have ok': "drafts_ok s'" unfolding drafts_ok_def by blast
  then show ?thesis using draft_revision_length [OF ok'] draft_revision_length [OF ok] by (simp add: log)
qed


section \<open>Confirming a review\<close>

definition rev_tables ::
  "store \<Rightarrow> job_row list \<times> ocr_run_row list \<times> document_row list \<times> review_row list \<times> draft_row list \<times> draft_history_row list" where
  "rev_tables s = (durable_jobs s, document_ocr_runs s, documents s, document_extraction_reviews s, document_review_drafts s,
     document_review_draft_history s)"

lemma ocr_ok_cong:
  "durable_jobs s' = durable_jobs s \<Longrightarrow> document_ocr_runs s' = document_ocr_runs s \<Longrightarrow> documents s' = documents s \<Longrightarrow> ocr_ok s' = ocr_ok s"
  by (simp add: ocr_ok_def jobs_ok_def runs_ok_def)

lemma reviews_ok_cong: "document_extraction_reviews s' = document_extraction_reviews s \<Longrightarrow> reviews_ok s' = reviews_ok s"
  by (simp add: reviews_ok_def)

lemma rev_ok_cong: "rev_tables s' = rev_tables s \<Longrightarrow> rev_ok s' = rev_ok s"
  using ocr_ok_cong [of s' s] reviews_ok_cong [of s' s] drafts_ok_cong [of s' s]
  by (simp add: rev_ok_def rev_tables_def draft_tables_def)

lemma insert_review_auditD:
  "insert_review_audit accepts a s = Inr (u, s') \<Longrightarrow> accepts \<and> s' = s\<lparr>audit_events := audit_events s @ [a]\<rparr>"
  by (simp add: insert_review_audit_def split: if_splits)

lemma insert_reviewD:
  "insert_review e s = Inr (u, s') \<Longrightarrow> s' = s\<lparr>document_extraction_reviews := document_extraction_reviews s @ [e]\<rparr>
     \<and> (\<forall>q \<in> set (document_extraction_reviews s). er_id q \<noteq> er_id e) \<and> row_exists (\<lambda>r. or_job r = er_ocr_job e) (document_ocr_runs s)"
  by (auto simp: insert_review_def Let_def row_exists_iff split: if_splits)

lemma new_review_simps [simp]:
  "er_id (new_review s x n) = rv_id x" "er_org (new_review s x n) = rv_org x" "er_document (new_review s x n) = rv_document x"
  "er_revision (new_review s x n) = n" "er_superseded_at (new_review s x n) = None" "er_ocr_job (new_review s x n) = rv_ocr_job x"
  "er_confirmed_by (new_review s x n) = rv_confirmed_by x"
  by (simp_all add: new_review_def)

abbreviation closed_reviews :: "review \<Rightarrow> store \<Rightarrow> review_row list" where
  "closed_reviews x s \<equiv> close_current er_id (close_review (rv_confirmed_at x))
     (query_row (current_review_row (rv_org x) (rv_document x)) (document_extraction_reviews s)) (document_extraction_reviews s)"

lemma SaveReviewE:
  assumes "SaveReview accepts x expected s = Inr (x', s')"
  obtains d where "manager_here (rv_confirmed_by x) (rv_org x) s"
    "query_row (document_at (rv_org x) (rv_document x)) (documents s) = Some d" "open_status (d_status d)"
    "currentOCR (rv_org x) (rv_document x) s = Some (rv_ocr_job x)" "draft_unchanged x s"
    "review_revision s (rv_org x, rv_document x) = expected" "x' = x\<lparr>rv_revision := expected + 1\<rparr>"
    "rv_id x \<notin> er_id ` set (document_extraction_reviews s)"
    "s' = s\<lparr>document_extraction_reviews := closed_reviews x s @ [new_review s x (expected + 1)],
        audit_events := audit_events s @ [confirm_audit x']\<rparr>"
proof -
  let ?p = "query_row (current_review_row (rv_org x) (rv_document x)) (document_extraction_reviews s)"
  have rev: "(case ?p of None \<Rightarrow> 0 | Some p \<Rightarrow> er_revision p) = review_revision s (rv_org x, rv_document x)"
    by (simp add: review_revision_def)
  obtain d where d: "manager_here (rv_confirmed_by x) (rv_org x) s"
    "query_row (document_at (rv_org x) (rv_document x)) (documents s) = Some d" "open_status (d_status d)"
    "currentOCR (rv_org x) (rv_document x) s = Some (rv_ocr_job x)" "draft_unchanged x s"
    "review_revision s (rv_org x, rv_document x) = expected"
    and run: "(case insert_review (new_review s x (expected + 1)) (supersede_review x ?p s) of
                Inl e \<Rightarrow> Inl e
              | Inr (_, s) \<Rightarrow>
             (case insert_review_audit accepts (confirm_audit (x\<lparr>rv_revision := expected + 1\<rparr>)) s of
                Inl e \<Rightarrow> Inl e
              | Inr (_, s) \<Rightarrow> Inr (x\<lparr>rv_revision := expected + 1\<rparr>, s))) = Inr (x', s')"
    using assms unfolding SaveReview_def Let_def rev by (auto split: if_splits option.splits)
  from run obtain u v t where t: "insert_review (new_review s x (expected + 1)) (supersede_review x ?p s) = Inr (u, t)"
    "insert_review_audit accepts (confirm_audit x') t = Inr (v, s')" "x' = x\<lparr>rv_revision := expected + 1\<rparr>"
    by (auto split: sum.splits)
  note ins = insert_reviewD [OF t(1)]
  have "rv_id x \<notin> er_id ` set (closed_reviews x s)" using ins by (auto simp: supersede_review_def)
  then have fresh: "rv_id x \<notin> er_id ` set (document_extraction_reviews s)" by (simp add: review_table.close_idents)
  have "s' = s\<lparr>document_extraction_reviews := closed_reviews x s @ [new_review s x (expected + 1)],
      audit_events := audit_events s @ [confirm_audit x']\<rparr>"
    using insert_review_auditD [OF t(2)] ins by (simp add: supersede_review_def)
  from that [OF d t(3) fresh this] show thesis .
qed

lemma rev_ok_SaveReview:
  assumes "rev_ok s" "SaveReview accepts x expected s = Inr (x', s')"
  shows "rev_ok s' \<and> (\<forall>org doc. draft_revision s' (org, doc) = draft_revision s (org, doc))
    \<and> (\<forall>org doc. review_revision s' (org, doc)
         = review_revision s (org, doc) + (if org = rv_org x \<and> doc = rv_document x then 1 else 0))"
  using assms(2)
proof (cases rule: SaveReviewE)
  case (1 d)
  have r: "reviews_ok s" using assms(1) by (simp add: rev_ok_def)
  let ?r = "new_review s x (expected + 1)"
  have key: "review_doc ?r = (rv_org x, rv_document x)" by (simp add: review_doc_def)
  note append = review_table.append_revision [OF r [unfolded reviews_ok_def], of ?r "rv_confirmed_at x", unfolded key,
      folded current_review_row_doc]
  have "reviews_ok s' \<and> (\<forall>k. length (revisions review_doc k (document_extraction_reviews s'))
      = length (revisions review_doc k (document_extraction_reviews s)) + (if k = (rv_org x, rv_document x) then 1 else 0))"
    unfolding reviews_ok_def using append review_revision_length [OF r, of "rv_org x" "rv_document x"] 1(6,8) by (simp add: 1(9))
  moreover have "ocr_ok s' = ocr_ok s" by (rule ocr_ok_cong) (simp_all add: 1(9))
  moreover have "drafts_ok s' = drafts_ok s" by (rule drafts_ok_cong) (simp add: 1(9) draft_tables_def)
  moreover have "draft_revision s' (org, doc) = draft_revision s (org, doc)" for org doc by (simp add: 1(9) draft_revision_def)
  ultimately show ?thesis using assms(1) review_revision_length [of s] review_revision_length [of s'] by (simp add: rev_ok_def)
qed

section \<open>Saving, returning and resetting drafts\<close>

lemma insert_historyD:
  "insert_history h s = Inr (u, s') \<Longrightarrow> s' = s\<lparr>document_review_draft_history := document_review_draft_history s @ [h]\<rparr>"
  by (simp add: insert_history_def split: if_splits)

lemma insert_returnD:
  "insert_return r s = Inr (u, s') \<Longrightarrow> s' = s\<lparr>document_review_returns := document_review_returns s @ [r]\<rparr>"
  by (simp add: insert_return_def split: if_splits)

lemma insert_noticesD: "insert_notices ns s = Inr (u, s') \<Longrightarrow> s' = s\<lparr>notifications := notifications s @ ns\<rparr>"
proof (induction ns arbitrary: s)
  case (Cons n ns)
  have "insert_notices ns (s\<lparr>notifications := notifications s @ [n]\<rparr>) = Inr (u, s')" using Cons.prems by (simp split: if_splits)
  from Cons.IH [OF this] show ?case by simp
qed simp

lemma draft_row_of_simps [simp]:
  "rd_org (draft_row_of x n v w) = dr_doc_org x" "rd_document (draft_row_of x n v w) = dr_document x"
  "rd_revision (draft_row_of x n v w) = n" "rd_ocr_job (draft_row_of x n v w) = dr_ocr_job x"
  by (simp_all add: draft_row_of_def)

lemma empty_draft_simps [simp]:
  "rd_org (empty_draft org doc ocr n user now) = org" "rd_document (empty_draft org doc ocr n user now) = doc"
  "rd_revision (empty_draft org doc ocr n user now) = n" "rd_ocr_job (empty_draft org doc ocr n user now) = ocr"
  by (simp_all add: empty_draft_def)

lemma returned_draft_simps [simp]:
  "rd_org (returned_draft r q) = rd_org r" "rd_document (returned_draft r q) = rd_document r"
  "rd_revision (returned_draft r q) = rd_revision r"
  by (simp_all add: returned_draft_def)

text \<open>What a write of the draft of \<^verbatim>\<open>doc\<close> does to the revisions.\<close>

definition draft_written :: "id \<Rightarrow> id \<Rightarrow> store \<Rightarrow> store \<Rightarrow> bool" where
  "draft_written org doc s s' =
     (rev_ok s' \<and> (\<forall>org' doc'. draft_revision s' (org', doc') = draft_revision s (org', doc') + (if org' = org \<and> doc' = doc then 1 else 0)
       \<and> review_revision s' (org', doc') = review_revision s (org', doc')))"

lemma draft_writtenI:
  assumes "rev_ok s" "ocr_ok s'" "document_extraction_reviews s' = document_extraction_reviews s"
    and "\<And>q. draft_at (rd_org r) (rd_document r) q \<Longrightarrow> draft_at (rd_org r) (rd_document r) (f q)"
    and "history_of (case query_row (draft_at (rd_org r) (rd_document r)) (document_review_drafts s) of None \<Rightarrow> r | Some q \<Rightarrow> f q) = h"
    and "rh_revision h = draft_revision s (rd_org r, rd_document r) + 1" "rh_org h = rd_org r" "rh_document h = rd_document r"
    and "draft_tables s' = (document_review_drafts (upsert_draft r f s), document_review_draft_history s @ [h])"
  shows "draft_written (rd_org r) (rd_document r) s s'"
  using drafts_ok_write [OF _ assms(4-9)] assms(1-3) reviews_ok_cong [OF assms(3)]
  by (simp add: draft_written_def rev_ok_def review_revision_def)

lemma SaveDraftE:
  assumes "SaveDraft accepts x expected request s = Inr (x', s')"
  obtains v w where "row_exists (editable_row (dr_updated_by x) (dr_doc_org x) (dr_document x) s) (documents s)"
    "currentOCR (dr_doc_org x) (dr_document x) s = Some (dr_ocr_job x)"
    "draft_revision s (dr_doc_org x, dr_document x) = expected" "x' = x\<lparr>dr_revision := expected + 1\<rparr>"
    "dr_values x = Some v" "dr_decisions x = Some w"
    "s' = (upsert_draft (draft_row_of x (expected + 1) v w) (\<lambda>_. draft_row_of x (expected + 1) v w) s)
        \<lparr>document_review_draft_history := document_review_draft_history s @ [history_of (draft_row_of x (expected + 1) v w)],
         audit_events := audit_events s @ [draft_audit x request expected]\<rparr>"
proof -
  have audit: "audit_events (upsert_draft r f s) = audit_events s" for r f by (simp add: upsert_draft_def Let_def)
  show thesis
    using assms that unfolding SaveDraft_def Let_def
    by (auto split: sum.splits if_splits option.splits dest!: insert_historyD insert_review_auditD simp: audit)
qed

lemma draft_written_SaveDraft:
  assumes "rev_ok s" "SaveDraft accepts x expected request s = Inr (x', s')"
  shows "draft_written (dr_doc_org x) (dr_document x) s s'"
  using assms(2)
proof (cases rule: SaveDraftE)
  case (1 v w)
  let ?r = "draft_row_of x (expected + 1) v w"
  have "ocr_ok s'" using assms(1) ocr_ok_cong [of s' s] by (simp add: 1(7) upsert_draft_def Let_def rev_ok_def)
  then have "draft_written (rd_org ?r) (rd_document ?r) s s'"
    by (intro draft_writtenI [OF assms(1), where f = "\<lambda>_. ?r" and h = "history_of ?r"])
      (simp_all add: 1(3,7) upsert_draft_def Let_def draft_tables_def draft_at_def split: option.splits)
  then show ?thesis by simp
qed

lemma write_return_written:
  assumes "rev_ok s" "write_return accepts uuid x note s = Inr (n, s')"
  shows "draft_written (ri_org x) (ri_document x) s s'"
proof -
  let ?r = "empty_draft (ri_org x) (ri_document x) (ri_ocr_job x) (draft_revision s (ri_org x, ri_document x) + 1) (ri_actor x) (ri_at x)"
  let ?f = "returned_draft ?r"
  have at: "draft_at (rd_org ?r) (rd_document ?r) q \<Longrightarrow> draft_at (rd_org ?r) (rd_document ?r) (?f q)" for q
    by (simp add: draft_at_def)
  obtain s1 u where s1: "insert_return (return_row_of x note) s = Inr (u, s1)"
    using assms(2) by (auto simp: write_return_def Let_def split: sum.splits)
  let ?s2 = "upsert_draft ?r ?f s1"
  have drafts: "document_review_drafts s1 = document_review_drafts s" using insert_returnD [OF s1] by simp
  define q where "q = (case query_row (draft_at (ri_org x) (ri_document x)) (document_review_drafts s) of None \<Rightarrow> ?r | Some q \<Rightarrow> ?f q)"
  have q: "query_row (draft_at (ri_org x) (ri_document x)) (document_review_drafts ?s2) = Some q"
    using upsert_draft_rows [of ?r ?f "ri_org x" "ri_document x" s1, OF at] drafts by (simp add: q_def)
  obtain s3 s4 v w y where steps: "insert_history (history_of q) ?s2 = Inr (v, s3)"
      "insert_review_audit accepts (return_audit x (draft_revision s (ri_org x, ri_document x)) (ri_review_revision x)) s3 = Inr (w, s4)"
      "insert_notices (return_notices uuid x s4) s4 = Inr (y, s')"
    using assms(2) s1 q by (auto simp: write_return_def Let_def split: sum.splits)
  have s': "durable_jobs s' = durable_jobs s" "document_ocr_runs s' = document_ocr_runs s" "documents s' = documents s"
    "document_extraction_reviews s' = document_extraction_reviews s" "document_review_drafts s' = document_review_drafts (upsert_draft ?r ?f s)"
    "document_review_draft_history s' = document_review_draft_history s @ [history_of q]"
    using insert_historyD [OF steps(1)] insert_review_auditD [OF steps(2)] insert_noticesD [OF steps(3)] insert_returnD [OF s1]
    by (simp_all add: upsert_draft_def Let_def)
  have fields: "rd_revision q = draft_revision s (ri_org x, ri_document x) + 1" "rd_org q = ri_org x" "rd_document q = ri_document x"
    by (simp_all add: q_def split: option.splits)
  have "draft_written (rd_org ?r) (rd_document ?r) s s'"
    by (rule draft_writtenI [OF assms(1) _ _ at, where h = "history_of q"])
      (use assms(1) ocr_ok_cong [OF s'(1-3)] in \<open>simp_all add: s' fields draft_tables_def rev_ok_def q_def [symmetric]\<close>)
  then show ?thesis by simp
qed

lemma ReturnReviewE:
  assumes "ReturnReview accepts uuid x s = Inr (n, s')"
  obtains "\<not> return_stale x s" "manager_here (ri_actor x) (ri_org x) s" "ri_reason x \<in> set return_reasons"
    "write_return accepts uuid x (TrimSpace (ri_note x)) s = Inr (n, s')"
  using assms by (auto simp: ReturnReview_def Let_def split: if_splits option.splits)


lemma insert_job_ok:
  assumes "jobs_ok s" "insert_job j s = Inr (u, s')" shows "jobs_ok s'"
  using assms by (fastforce simp: insert_job_def jobs_ok_def unique_on_distinct row_exists_iff split: if_splits)

lemma insert_ocr_run_ok:
  assumes "runs_ok s" "insert_ocr_run (new_run jid org doc fp retry) s = Inr (u, s')" shows "runs_ok s'"
proof -
  have "\<not> conflicts run_job_key (new_run jid org doc fp retry) (document_ocr_runs s)"
    using assms(2) by (auto simp: insert_ocr_run_def conflicts_def run_job_key_def row_exists_def list_ex_iff split: if_splits)
  moreover have "\<not> conflicts current_key (new_run jid org doc fp retry) (document_ocr_runs s)"
    by (simp add: conflicts_def current_key_def run_current_def new_run_def)
  ultimately show ?thesis
    using assms insert_ocr_runD [OF assms(2)] by (simp add: runs_ok_def unique_on_append1)
qed

lemma schedule_runE:
  assumes "schedule_run jid user org doc payload fp previous request now s = Inr (u, s')" "ocr_ok s"
  obtains "ocr_ok s'" "s' = s\<lparr>durable_jobs := durable_jobs s @ [ocr_job jid org (Some user) payload jid request now],
      document_ocr_runs := document_ocr_runs s @ [new_run jid org doc fp previous]\<rparr>"
proof -
  obtain v t where t: "insert_job (ocr_job jid org (Some user) payload jid request now) s = Inr (v, t)"
    "insert_ocr_run (new_run jid org doc fp previous) t = Inr (u, s')"
    using assms(1) by (auto simp: schedule_run_def split: sum.splits)
  have "jobs_ok t" using insert_job_ok [OF _ t(1)] assms(2) by (simp add: ocr_ok_def)
  moreover have "runs_ok t" using assms(2) insert_jobD [OF t(1)] by (simp add: ocr_ok_def runs_ok_def)
  then have "runs_ok s'" by (rule insert_ocr_run_ok [OF _ t(2)])
  ultimately have "ocr_ok s'" using insert_ocr_runD [OF t(2)] insert_jobD [OF t(1)] assms(2) by (simp add: ocr_ok_def jobs_ok_def)
  then show thesis using that insert_ocr_runD [OF t(2)] insert_jobD [OF t(1)] by simp
qed

lemma reset_draft_written:
  assumes "rev_ok s" "reset_draft accepts2 jid rid x s = Inr (r, s')"
  shows "draft_written (rp_org x) (rp_document x) s s' \<and> draft_revision s (rp_org x, rp_document x) = rp_draft x"
proof -
  let ?r = "empty_draft (rp_org x) (rp_document x) jid (draft_revision s (rp_org x, rp_document x) + 1) (rp_user x) (rp_now x)"
  have rev: "draft_revision s (rp_org x, rp_document x) = rp_draft x"
    using assms(2) by (simp add: reset_draft_def Let_def split: if_splits)
  obtain s2 s3 u v w where steps: "insert_history (history_of ?r) (upsert_draft ?r (\<lambda>_. ?r) s) = Inr (u, s2)"
      "insert_return (reprocess_row rid x) s2 = Inr (v, s3)"
      "insert_review_audit accepts2 (reprocess_audit x jid (draft_revision s (rp_org x, rp_document x) + 1)) s3 = Inr (w, s')"
    using assms(2) by (auto simp: reset_draft_def Let_def split: sum.splits if_splits)
  have s': "durable_jobs s' = durable_jobs s" "document_ocr_runs s' = document_ocr_runs s" "documents s' = documents s"
    "document_extraction_reviews s' = document_extraction_reviews s" "document_review_drafts s' = document_review_drafts (upsert_draft ?r (\<lambda>_. ?r) s)"
    "document_review_draft_history s' = document_review_draft_history s @ [history_of ?r]"
    using insert_historyD [OF steps(1)] insert_returnD [OF steps(2)] insert_review_auditD [OF steps(3)]
    by (simp_all add: upsert_draft_def Let_def)
  have "draft_written (rd_org ?r) (rd_document ?r) s s'"
    by (rule draft_writtenI [OF assms(1), where f = "\<lambda>_. ?r" and h = "history_of ?r"])
      (use assms(1) ocr_ok_cong [OF s'(1-3)] in \<open>simp_all add: s' draft_tables_def rev_ok_def draft_at_def split: option.splits\<close>)
  then show ?thesis using rev by simp
qed

lemma ReprocessOCRE:
  assumes "ReprocessOCR accepts1 accepts2 jid rid x s = Inr (r, s')" "rev_ok s"
  obtains d versions s1 where "query_row (document_at (rp_org x) (rp_document x)) (documents s) = Some d"
    "latestOCR (rp_org x) (rp_document x) s = Some (rp_ocr x)"
    "reprocess_run accepts1 jid x d versions s = Inr ((), s1)" "reset_draft accepts2 jid rid x s1 = Inr (r, s')" "rev_ok s1"
    "draft_tables s1 = draft_tables s" "document_extraction_reviews s1 = document_extraction_reviews s"
proof -
  obtain d versions s1 where steps: "query_row (document_at (rp_org x) (rp_document x)) (documents s) = Some d"
    "latestOCR (rp_org x) (rp_document x) s = Some (rp_ocr x)"
    "reprocess_run accepts1 jid x d versions s = Inr ((), s1)" "reset_draft accepts2 jid rid x s1 = Inr (r, s')"
    using assms(1) unfolding ReprocessOCR_def Let_def by (auto split: sum.splits option.splits if_splits)
  then obtain payload fp previous request where
    "schedule_run jid (rp_user x) (rp_org x) (rp_document x) payload fp previous request (rp_now x) s = Inr ((), s1)"
    by (auto simp: reprocess_run_def Let_def split: if_splits)
  moreover have "ocr_ok s" using assms(2) by (simp add: rev_ok_def)
  ultimately show thesis
  proof (cases rule: schedule_runE)
    case 1
    have "reviews_ok s1" "drafts_ok s1"
      using assms(2) reviews_ok_cong [of s1 s] drafts_ok_cong [of s1 s] by (simp_all add: 1(2) rev_ok_def draft_tables_def)
    then show thesis using that [OF steps] 1 by (simp add: rev_ok_def draft_tables_def)
  qed
qed

lemma draft_written_ReprocessOCR:
  assumes "rev_ok s" "ReprocessOCR accepts1 accepts2 jid rid x s = Inr (r, s')"
  shows "draft_written (rp_org x) (rp_document x) s s' \<and> draft_revision s (rp_org x, rp_document x) = rp_draft x"
  using assms(2,1)
proof (cases rule: ReprocessOCRE)
  case (1 d versions s1)
  then show ?thesis using reset_draft_written [OF 1(5,4)]
    by (simp add: draft_written_def draft_revision_def draft_tables_def review_revision_def)
qed

section \<open>Assignments leave revisions alone\<close>

lemma link_review_taskD:
  "link_review_task org doc i s = Inr (u, s') \<Longrightarrow> s' = s\<lparr>document_review_tasks := document_review_tasks s'\<rparr>"
  by (auto simp: link_review_task_def Let_def split: if_splits)

lemma assign_one_tables:
  assumes "assign_one accepts eid actor org assignee request now x s = Inr (created, s')"
  shows "rev_tables s' = rev_tables s"
proof -
  obtain t u where t: "insert_review_audit accepts (assign_audit org actor request now x) t = Inr (u, s')"
    and step: "rev_tables t = rev_tables s"
  proof (cases "review_tasks org (as_document x) s")
    case Nil
    then obtain t where t: "insert_review_audit accepts (assign_audit org actor request now x) t = Inr ((), s')"
      "assignee = [] \<and> t = s \<or> create_review_task eid actor org assignee now x s = Inr ((), t)"
      using assms by (auto simp: assign_one_def split: sum.splits if_splits)
    have "rev_tables t = rev_tables s"
      using t(2)
    proof
      assume "create_review_task eid actor org assignee now x s = Inr ((), t)"
      then obtain u v s1 s2 where c: "insert_task (review_task (as_task x) org actor assignee now) s = Inr (u, s1)"
        "link_review_task org (as_document x) (as_task x) s1 = Inr (v, s2)"
        "insertDomainEvent eid org (as_task x) actor ''task.created'' (assigned_payload (as_task x) assignee) now s2 = Inr ((), t)"
        by (auto simp: create_review_task_def split: sum.splits)
      have "rev_tables s1 = rev_tables s" using insert_taskD [OF c(1)] by (simp add: rev_tables_def)
      moreover have "rev_tables s2 = rev_tables s1" by (subst link_review_taskD [OF c(2)]) (simp add: rev_tables_def)
      moreover have "rev_tables t = rev_tables s2" using insertDomainEventD [OF c(3)] by (simp add: rev_tables_def)
      ultimately show ?thesis by simp
    qed simp
    then show ?thesis using that t(1) by blast
  next
    case (Cons t ts)
    then obtain s1 where c: "insert_review_audit accepts (assign_audit org actor request now x) s1 = Inr ((), s')"
      "reassign_task eid actor org assignee now (t_id t) s = Inr ((), s1)"
      using assms by (auto simp: assign_one_def split: sum.splits)
    have "rev_tables s1 = rev_tables s"
      using insertDomainEventD [OF c(2) [unfolded reassign_task_def Let_def]] by (simp add: rev_tables_def)
    then show ?thesis using that c(1) by blast
  qed
  show ?thesis using insert_review_auditD [OF t] step by (simp add: rev_tables_def)
qed

lemma assign_each_tables:
  "assign_each accepts eids k actor org assignee request now xs s = Inr (created, s') \<Longrightarrow> rev_tables s' = rev_tables s"
  by (induction xs arbitrary: k s created) (auto split: sum.splits dest!: assign_one_tables)

lemma AssignReviewTasksE:
  assumes "AssignReviewTasks accepts eids actor org assignee xs request now s = Inr (created, s')"
  obtains "selectors_valid (sort_key as_document xs)" "list_all (assignment_current org assignee s) (sort_key as_document xs)"
    "manager_here actor org s" "assignee = [] \<or> documentUUID assignee"
    "assign_each accepts eids 0 actor org assignee request now (sort_key as_document xs) s = Inr (created, s')"
  using assms by (auto simp: AssignReviewTasks_def Let_def split: if_splits)

section \<open>Runs of operations\<close>

datatype rev_op =
    ConfirmOp bool review int
  | DraftOp bool review_draft int string
  | ReturnOp bool "nat \<Rightarrow> id" return_input
  | ReprocessOp bool bool id id reprocess
  | AssignOp bool "nat \<Rightarrow> nat" id id id "assignment list" string time
  | PublishOp "bytes \<Rightarrow> bytes" lease_command string ocr_result string string int
  | RetryOp id id id id time

fun rev_step :: "rev_op \<Rightarrow> store \<Rightarrow> store" where
  "rev_step (ConfirmOp accepts x expected) s = after s (SaveReview accepts x expected s)"
| "rev_step (DraftOp accepts x expected request) s = after s (SaveDraft accepts x expected request s)"
| "rev_step (ReturnOp accepts uuid x) s = after s (ReturnReview accepts uuid x s)"
| "rev_step (ReprocessOp accepts1 accepts2 jid rid x) s = after s (ReprocessOCR accepts1 accepts2 jid rid x s)"
| "rev_step (AssignOp accepts eids actor org assignee xs request now) s =
     after s (AssignReviewTasks accepts eids actor org assignee xs request now s)"
| "rev_step (PublishOp hash c worker result key sha n) s = after s (CompleteOCR hash c worker result key sha n s)"
| "rev_step (RetryOp jid user org doc now) s = after s (RetryOCR jid user org doc now s)"

text \<open>The document and the revision a committed operation names.\<close>

fun draft_commits :: "rev_op \<Rightarrow> store \<Rightarrow> ((id \<times> id) \<times> int) option" where
  "draft_commits (DraftOp accepts x expected request) s =
     (if isl (SaveDraft accepts x expected request s) then None else Some ((dr_doc_org x, dr_document x), expected))"
| "draft_commits (ReturnOp accepts uuid x) s =
     (if isl (ReturnReview accepts uuid x s) then None else Some ((ri_org x, ri_document x), ri_draft_revision x))"
| "draft_commits (ReprocessOp accepts1 accepts2 jid rid x) s =
     (if isl (ReprocessOCR accepts1 accepts2 jid rid x s) then None else Some ((rp_org x, rp_document x), rp_draft x))"
| "draft_commits _ s = None"

fun review_commits :: "rev_op \<Rightarrow> store \<Rightarrow> ((id \<times> id) \<times> int) option" where
  "review_commits (ConfirmOp accepts x expected) s =
     (if isl (SaveReview accepts x expected s) then None else Some ((rv_org x, rv_document x), expected))"
| "review_commits _ s = None"

definition named :: "((id \<times> id) \<times> int) option \<Rightarrow> id \<Rightarrow> id \<Rightarrow> int" where
  "named c org doc = (case c of None \<Rightarrow> 0 | Some (k, e) \<Rightarrow> if k = (org, doc) then 1 else 0)"

definition step_effect :: "rev_op \<Rightarrow> store \<Rightarrow> store \<Rightarrow> bool" where
  "step_effect q s s' =
     (rev_ok s' \<and> (\<forall>org doc. draft_revision s' (org, doc) = draft_revision s (org, doc) + named (draft_commits q s) org doc
        \<and> review_revision s' (org, doc) = review_revision s (org, doc) + named (review_commits q s) org doc)
      \<and> (\<forall>k e. draft_commits q s = Some (k, e) \<longrightarrow> draft_revision s k = e)
      \<and> (\<forall>k e. review_commits q s = Some (k, e) \<longrightarrow> review_revision s k = e))"

lemma step_effect_still:
  assumes "rev_ok s'" "draft_tables s' = draft_tables s" "document_extraction_reviews s' = document_extraction_reviews s"
    "draft_commits q s = None" "review_commits q s = None"
  shows "step_effect q s s'"
  using assms by (simp add: step_effect_def named_def draft_tables_def draft_revision_def review_revision_def)

lemma CompleteOCR_tables:
  assumes "ocr_ok s" "CompleteOCR hash c worker result key sha n s = Inr (k, s')"
  shows "draft_tables s' = draft_tables s \<and> document_extraction_reviews s' = document_extraction_reviews s"
  using assms(2,1)
proof (cases rule: CompleteOCRE)
  case (published input j r)
  from published(8) show ?thesis
    by (cases rule: publishE) (simp add: draft_tables_def)
qed simp

lemma RetryOCR_tables:
  assumes "rev_ok s" "RetryOCR jid user org doc now s = Inr (st, s')"
  shows "rev_ok s' \<and> draft_tables s' = draft_tables s \<and> document_extraction_reviews s' = document_extraction_reviews s"
proof (cases "s' = s")
  case False
  then obtain payload fp previous t where t: "schedule_run jid user org doc payload fp previous None now s = Inr ((), t)"
    "s' = auditTenant org user ''ocr.retry'' ''document'' doc now t"
    using assms(2) by (auto simp: RetryOCR_def Let_def split: if_splits option.splits sum.splits)
  have "ocr_ok s" using assms(1) by (simp add: rev_ok_def)
  from t(1) this show ?thesis
  proof (cases rule: schedule_runE)
    case 1
    have "reviews_ok t" "drafts_ok t"
      using assms(1) reviews_ok_cong [of t s] drafts_ok_cong [of t s] by (simp_all add: 1(2) rev_ok_def draft_tables_def)
    then have "rev_ok t" using 1(1) by (simp add: rev_ok_def)
    moreover have "rev_ok s' = rev_ok t" by (rule rev_ok_cong) (simp add: t(2) auditTenant_def rev_tables_def)
    ultimately show ?thesis by (simp add: t(2) auditTenant_def draft_tables_def 1(2))
  qed
qed (use assms(1) in simp)

lemma step_effect_written:
  assumes "draft_written org doc s s'" "draft_commits q s = Some ((org, doc), draft_revision s (org, doc))" "review_commits q s = None"
  shows "step_effect q s s'"
  using assms by (auto simp: draft_written_def step_effect_def named_def)

lemma rev_step_effect:
  assumes "rev_ok s" shows "step_effect q s (rev_step q s)"
proof (cases q)
  case (ConfirmOp accepts x expected)
  show ?thesis
  proof (cases "SaveReview accepts x expected s")
    case (Inr p)
    obtain x' s' where p: "p = (x', s')" by (cases p)
    have "review_revision s (rv_org x, rv_document x) = expected" using Inr p by (auto elim: SaveReviewE)
    then show ?thesis using rev_ok_SaveReview [OF assms Inr [unfolded p]] by (auto simp: ConfirmOp Inr p step_effect_def named_def)
  qed (use assms in \<open>simp add: ConfirmOp step_effect_still\<close>)
next
  case (DraftOp accepts x expected request)
  show ?thesis
  proof (cases "SaveDraft accepts x expected request s")
    case (Inr p)
    obtain x' s' where p: "p = (x', s')" by (cases p)
    have "draft_revision s (dr_doc_org x, dr_document x) = expected" using Inr p by (auto elim: SaveDraftE)
    then have "draft_commits q s = Some ((dr_doc_org x, dr_document x), draft_revision s (dr_doc_org x, dr_document x))"
      using Inr by (simp add: DraftOp)
    from step_effect_written [OF draft_written_SaveDraft [OF assms Inr [unfolded p]] this] show ?thesis by (simp add: DraftOp Inr p)
  qed (use assms in \<open>simp add: DraftOp step_effect_still\<close>)
next
  case (ReturnOp accepts uuid x)
  show ?thesis
  proof (cases "ReturnReview accepts uuid x s")
    case (Inr p)
    obtain n s' where p: "p = (n, s')" by (cases p)
    have "draft_revision s (ri_org x, ri_document x) = ri_draft_revision x"
      using Inr p by (auto elim!: ReturnReviewE simp: return_stale_def Let_def)
    moreover have "draft_written (ri_org x) (ri_document x) s s'"
      using Inr p write_return_written [OF assms] by (auto elim!: ReturnReviewE)
    ultimately show ?thesis by (auto simp: ReturnOp Inr p intro!: step_effect_written)
  qed (use assms in \<open>simp add: ReturnOp step_effect_still\<close>)
next
  case (ReprocessOp accepts1 accepts2 jid rid x)
  show ?thesis
  proof (cases "ReprocessOCR accepts1 accepts2 jid rid x s")
    case (Inr p)
    obtain r s' where p: "p = (r, s')" by (cases p)
    then show ?thesis
      using draft_written_ReprocessOCR [OF assms Inr [unfolded p]] by (auto simp: ReprocessOp Inr p intro!: step_effect_written)
  qed (use assms in \<open>simp add: ReprocessOp step_effect_still\<close>)
next
  case (AssignOp accepts eids actor org assignee xs request now)
  show ?thesis
  proof (cases "AssignReviewTasks accepts eids actor org assignee xs request now s")
    case (Inr p)
    obtain created s' where p: "p = (created, s')" by (cases p)
    have "rev_tables s' = rev_tables s" using Inr p by (auto elim!: AssignReviewTasksE dest: assign_each_tables)
    then show ?thesis using assms rev_ok_cong [of s' s]
      by (auto simp: AssignOp Inr p rev_tables_def draft_tables_def intro!: step_effect_still)
  qed (use assms in \<open>simp add: AssignOp step_effect_still\<close>)
next
  case (PublishOp hash c worker result key sha n)
  show ?thesis
  proof (cases "CompleteOCR hash c worker result key sha n s")
    case (Inr p)
    obtain k s' where p: "p = (k, s')" by (cases p)
    have ok: "ocr_ok s" using assms by (simp add: rev_ok_def)
    have same: "draft_tables s' = draft_tables s" "document_extraction_reviews s' = document_extraction_reviews s"
      using CompleteOCR_tables [OF ok Inr [unfolded p]] by simp_all
    have "rev_ok s'"
      using assms ocr_ok_CompleteOCR [OF ok Inr [unfolded p]] drafts_ok_cong [OF same(1)] reviews_ok_cong [OF same(2)] by (simp add: rev_ok_def)
    then show ?thesis using same by (simp add: PublishOp Inr p step_effect_still)
  qed (use assms in \<open>simp add: PublishOp step_effect_still\<close>)
next
  case (RetryOp jid user org doc now)
  show ?thesis
  proof (cases "RetryOCR jid user org doc now s")
    case (Inr p)
    obtain st s' where p: "p = (st, s')" by (cases p)
    show ?thesis using RetryOCR_tables [OF assms Inr [unfolded p]] by (simp add: RetryOp Inr p step_effect_still)
  qed (use assms in \<open>simp add: RetryOp step_effect_still\<close>)
qed

interpretation draft_revisions: revision_log rev_ok draft_revision rev_step draft_commits
proof unfold_locales
  fix s q k e
  assume "rev_ok s"
  note e = rev_step_effect [OF this, of q, unfolded step_effect_def named_def]
  show "rev_ok (rev_step q s)" using e by blast
  show "draft_revision s k \<le> draft_revision (rev_step q s) k" using e by (cases k) (auto split: option.splits)
  assume c: "draft_commits q s = Some (k, e)"
  show "draft_revision s k = e" using e c by blast
  show "e < draft_revision (rev_step q s) k" using e c by (cases k) auto
qed

interpretation review_revisions: revision_log rev_ok review_revision rev_step review_commits
proof unfold_locales
  fix s q k e
  assume "rev_ok s"
  note e = rev_step_effect [OF this, of q, unfolded step_effect_def named_def]
  show "rev_ok (rev_step q s)" using e by blast
  show "review_revision s k \<le> review_revision (rev_step q s) k" using e by (cases k) (auto split: option.splits)
  assume c: "review_commits q s = Some (k, e)"
  show "review_revision s k = e" using e c by blast
  show "e < review_revision (rev_step q s) k" using e c by (cases k) auto
qed

section \<open>Properties\<close>

text \<open>\<^bold>\<open>C27.\<close> However documents are processed, drafted, confirmed, returned and assigned, in any order: the confirmed reviews
  of a document are numbered 1, 2, 3 and so on and only the last of them is current; the entries of its draft history are
  numbered in the same way and its one draft row is the last of them; and it has at most one current OCR run.\<close>

theorem reviews_consistent:
  assumes "rev_ok s"
  shows "rev_ok (fold rev_step ops s)"
  using assms by (rule draft_revisions.ok_run)

text \<open>An office with a document whose run \<^verbatim>\<open>e\<close> is published and whose run \<^verbatim>\<open>j\<close> a worker holds.\<close>

definition demo_reviewer :: id where "demo_reviewer = demo_uuid (CHR ''b'')"

definition demo_rev :: store where
  "demo_rev = demo_ocr\<lparr>memberships := [demo_member ''o1'' ''u1'' Owner, demo_member ''o1'' demo_reviewer Admin],
     document_ocr_runs := [(new_run (demo_uuid (CHR ''e'')) ''o1'' (demo_uuid (CHR ''a'')) ''f0'' None)
         \<lparr>or_published_at := Some 5, or_object_key := Some ''k0''\<rparr>,
       new_run ''j'' ''o1'' (demo_uuid (CHR ''a'')) ''f'' None]\<rparr>"

definition demo_draft :: "id \<Rightarrow> time \<Rightarrow> review_draft" where
  "demo_draft ocr now = \<lparr>dr_doc_org = ''o1'', dr_document = demo_uuid (CHR ''a''), dr_ocr_job = ocr, dr_revision = 0,
     dr_values = Some [(''total_amount'', ''10.00'')], dr_decisions = Some [], dr_updated_by = demo_reviewer, dr_updated_at = now\<rparr>"

definition demo_review :: "id \<Rightarrow> int \<Rightarrow> review" where
  "demo_review i draft = \<lparr>rv_id = i, rv_org = ''o1'', rv_document = demo_uuid (CHR ''a''), rv_ocr_job = demo_uuid (CHR ''e''),
     rv_revision = 0, rv_draft_revision = draft, rv_request = ''q'', rv_confirmed_by = ''u1'', rv_confirmed_at = 9, rv_object_key = i\<rparr>"

abbreviation demo_save :: rev_op where "demo_save \<equiv> DraftOp True (demo_draft (demo_uuid (CHR ''e'')) 6) 0 ''q''"

lemma demo_rev_ok: "rev_ok demo_rev"
proof -
  have "ocr_ok demo_rev" unfolding ocr_ok_def jobs_ok_def runs_ok_def by code_simp
  moreover have "document_extraction_reviews demo_rev = []" "document_review_drafts demo_rev = []" "document_review_draft_history demo_rev = []"
    by (simp_all add: demo_rev_def demo_ocr_def demo_docs_def)
  ultimately show ?thesis by (simp add: rev_ok_def reviews_ok_def drafts_ok_def history_log_def)
qed

theorem reviews_consistent_witness:
  "rev_ok (fold rev_step [demo_save, ConfirmOp True (demo_review ''r1'' 1) 0,
     PublishOp demo_hash demo_lease ''w'' demo_result ''k'' ''h'' 7] demo_rev)"
  by (rule reviews_consistent [OF demo_rev_ok])

text \<open>\<^bold>\<open>C28.\<close> No update is lost: of all the drafts, returns and requests to process a document again that are made from one
  draft revision at most one ever commits, and of the confirmations made from one review revision at most one.\<close>

theorem no_lost_update:
  assumes "rev_ok s"
  shows "(draft_commits q s = Some (k, e) \<longrightarrow> draft_commits q' (fold rev_step ops (rev_step q s)) \<noteq> Some (k, e))
    \<and> (review_commits q s = Some (k, e) \<longrightarrow> review_commits q' (fold rev_step ops (rev_step q s)) \<noteq> Some (k, e))"
  using assms draft_revisions.at_most_one_commit review_revisions.at_most_one_commit by blast

theorem no_lost_update_witness:
  "draft_commits demo_save (fold rev_step [ConfirmOp True (demo_review ''r1'' 1) 0] (rev_step demo_save demo_rev))
     \<noteq> Some ((''o1'', demo_uuid (CHR ''a'')), 0)
   \<and> review_commits (ConfirmOp True (demo_review ''r2'' 0) 0) (fold rev_step [] (rev_step (ConfirmOp True (demo_review ''r1'' 0) 0) demo_rev))
     \<noteq> Some ((''o1'', demo_uuid (CHR ''a'')), 0)"
proof -
  have "draft_commits demo_save demo_rev = Some ((''o1'', demo_uuid (CHR ''a'')), 0)"
    "review_commits (ConfirmOp True (demo_review ''r1'' 0) 0) demo_rev = Some ((''o1'', demo_uuid (CHR ''a'')), 0)" by code_simp+
  then show ?thesis using no_lost_update [OF demo_rev_ok] by blast
qed

section \<open>The queue and the assignment of its items\<close>

lemma queue_rowsE:
  assumes "q \<in> set (queue_rows user org view status s)"
  obtains d where "d \<in> set (documents s)" "d_org d = org" "d_id d = qi_document q" "latestOCR org (qi_document q) s = Some (qi_ocr_job q)"
    "qi_draft_revision q = draft_revision s (org, qi_document q)"
proof -
  obtain d where "d \<in> set (documents s)" "d_org d = org" "queue_item_of s d = Some q"
    using assms by (auto simp: queue_rows_def List.map_filter_def)
  then show thesis using that by (auto simp: queue_item_of_def Let_def split: option.splits if_splits)
qed

text \<open>The queue and the assignment disagree about the draft of another OCR run: when a document's draft was written for
  another run than the published one, the queue lists the document with the draft's revision, which is positive, but an
  assignment with the item's own revisions is refused, whoever makes it.\<close>

theorem queue_draft_refused:
  assumes "rev_ok s" "q \<in> set (queue_rows user org view status s)"
    and "query_row (draft_at org (qi_document q)) (document_review_drafts s) = Some r" "rd_ocr_job r \<noteq> qi_ocr_job q"
    and "\<lparr>as_document = qi_document q, as_ocr_job = qi_ocr_job q, as_review_revision = qi_review_revision q,
          as_draft_revision = qi_draft_revision q, as_task = i\<rparr> \<in> set xs" (is "?x \<in> _")
  shows "qi_draft_revision q = rd_revision r \<and> 0 < rd_revision r
    \<and> isl (AssignReviewTasks accepts eids actor org assignee xs request now s)"
  using assms(2)
proof (cases rule: queue_rowsE)
  case (1 d)
  have drafts: "drafts_ok s" using assms(1) by (simp add: rev_ok_def)
  have rev: "draft_revision s (org, qi_document q) = rd_revision r" using assms(3) by (simp add: draft_revision_def)
  have "history_log s org (qi_document q) \<noteq> []" using drafts_okD(2) [OF drafts, of org "qi_document q"] assms(3) by (auto split: if_splits)
  then have pos: "0 < rd_revision r" using rev draft_revision_length [OF drafts, of org "qi_document q"]
    by (cases "history_log s org (qi_document q)") auto
  have "query_row (\<lambda>x. draft_at org (qi_document q) x \<and> rd_ocr_job x = qi_ocr_job q) (document_review_drafts s) = None"
    unfolding query_row_None_iff
  proof
    fix x assume x: "x \<in> set (document_review_drafts s)"
    show "\<not> (draft_at org (qi_document q) x \<and> rd_ocr_job x = qi_ocr_job q)"
    proof
      assume at: "draft_at org (qi_document q) x \<and> rd_ocr_job x = qi_ocr_job q"
      have "r \<in> set (document_review_drafts s)" "draft_at org (qi_document q) r" using query_row_SomeD [OF assms(3)] by simp_all
      then have "x = r"
        using unique_onD [of draft_key "document_review_drafts s" x r "(org, qi_document q)"] drafts x at
        by (simp add: drafts_ok_def draft_key_def draft_at_def)
      then show False using at assms(4) by simp
    qed
  qed
  then have "\<not> assignment_current org assignee s ?x"
    using pos rev by (simp add: assignment_current_def selectors_of_def 1 split: option.splits)
  then have "\<not> list_all (assignment_current org assignee s) (sort_key as_document xs)"
    using assms(5) by (auto simp: list_all_iff)
  then have "isl (AssignReviewTasks accepts eids actor org assignee xs request now s)"
    by (simp add: AssignReviewTasks_def Let_def)
  then show ?thesis using pos rev 1 by simp
qed

definition demo_republished :: store where
  "demo_republished = fold rev_step [demo_save, PublishOp demo_hash demo_lease ''w'' demo_result ''k'' ''h'' 7] demo_rev"

definition demo_pick :: "queue_item \<Rightarrow> assignment" where
  "demo_pick q = \<lparr>as_document = qi_document q, as_ocr_job = qi_ocr_job q, as_review_revision = qi_review_revision q,
     as_draft_revision = qi_draft_revision q, as_task = demo_uuid (CHR ''f'')\<rparr>"

theorem queue_draft_refused_witness:
  "map qi_draft_revision (queue_rows ''u1'' ''o1'' ''all'' ''Available'' demo_republished) = [1]
   \<and> isl (AssignReviewTasks True id ''u1'' ''o1'' demo_reviewer
       (map demo_pick (queue_rows ''u1'' ''o1'' ''all'' ''Available'' demo_republished)) ''q'' 70 demo_republished)"
proof -
  have ok: "rev_ok demo_republished" unfolding demo_republished_def by (rule draft_revisions.ok_run [OF demo_rev_ok])
  let ?rows = "queue_rows ''u1'' ''o1'' ''all'' ''Available'' demo_republished"
  have one: "map (\<lambda>q. (qi_document q, qi_ocr_job q, qi_draft_revision q)) ?rows = [(demo_uuid (CHR ''a''), ''j'', 1)]" by code_simp
  have draft: "map_option rd_ocr_job (query_row (draft_at ''o1'' (demo_uuid (CHR ''a''))) (document_review_drafts demo_republished))
    = Some (demo_uuid (CHR ''e''))" by code_simp
  have ne: "demo_uuid (CHR ''e'') \<noteq> ''j''" by code_simp
  obtain q where q: "?rows = [q]" "qi_document q = demo_uuid (CHR ''a'')" "qi_ocr_job q = ''j''" "qi_draft_revision q = 1"
    using one by (auto simp: map_eq_Cons_conv)
  obtain r where r: "query_row (draft_at ''o1'' (qi_document q)) (document_review_drafts demo_republished) = Some r"
    "rd_ocr_job r \<noteq> qi_ocr_job q" using draft ne q(2,3) by auto
  have "isl (AssignReviewTasks True id ''u1'' ''o1'' demo_reviewer (map demo_pick ?rows) ''q'' 70 demo_republished)"
    by (rule queue_draft_refused [OF ok, THEN conjunct2, THEN conjunct2, of q "''u1''" "''o1''" "''all''" "''Available''" r "demo_uuid (CHR ''f'')"])
      (use q r in \<open>simp_all add: demo_pick_def\<close>)
  then show ?thesis using q by simp
qed

text \<open>Handing an open review task to a member who watches it makes that member assignee and watcher at once, which
  the rest of the program keeps apart: the invariant of tasks does not survive the assignment.\<close>

theorem reassignment_keeps_watcher:
  assumes "AssignReviewTasks accepts eids actor org assignee [x] request now s = Inr (created, s')"
    and "review_tasks org (as_document x) s = t # ts" "assignee \<noteq> []"
    and "w \<in> set (task_watchers s)" "w_org w = org" "w_task w = t_id t" "w_user w = assignee"
  shows "w \<in> set (task_watchers s') \<and> row_exists (\<lambda>t'. task_at org (t_id t) t' \<and> t_assignee t' = Some assignee) (tasks s')
    \<and> \<not> work_ok s'"
  using assms(1)
proof (cases rule: AssignReviewTasksE)
  case 1
  let ?up = "\<lambda>t. t\<lparr>t_assignee := null_if_empty assignee, t_updated_at := now\<rparr>"
  have t: "t \<in> set (tasks s)" "task_at org (t_id t) t"
  proof -
    have "t \<in> set (review_tasks org (as_document x) s)" using assms(2) by simp
    then show "t \<in> set (tasks s)" "task_at org (t_id t) t" by (auto simp: review_tasks_def task_at_def)
  qed
  obtain s1 where s1: "reassign_task (eids 0) actor org assignee now (t_id t) s = Inr ((), s1)"
    "insert_review_audit accepts (assign_audit org actor request now x) s1 = Inr ((), s')"
    using 1(5) assms(2) by (auto simp: assign_one_def split: sum.splits)
  have s': "tasks s' = sql_update (task_at org (t_id t)) ?up (tasks s)" "task_watchers s' = task_watchers s"
    using insert_review_auditD [OF s1(2)] insertDomainEventD [OF s1(1) [unfolded reassign_task_def Let_def]] by simp_all
  have up: "?up t \<in> set (tasks s')" using t by (force simp: s'(1) set_sql_update)
  have "\<not> work_ok s'"
  proof
    assume ok: "work_ok s'"
    then have "watcher_ok s' w" using assms(4) s'(2) by (simp add: work_ok_def list_all_iff)
    then obtain t' where t': "t' \<in> set (tasks s')" "task_at org (t_id t) t'" "t_assignee t' \<noteq> Some assignee"
      using assms(5-7) by (auto simp: watcher_ok_def row_exists_iff)
    moreover have "t_id t' = t_id (?up t)" using t'(2) by (simp add: task_at_def)
    moreover have "inj_on t_id (set (tasks s'))" using ok by (simp add: work_ok_def distinct_map)
    ultimately have "t' = ?up t" using up by (blast dest: inj_onD)
    then show False using t'(3) assms(3) by (simp add: null_if_empty_def)
  qed
  moreover have "task_at org (t_id t) (?up t)" "t_assignee (?up t) = Some assignee"
    using t(2) assms(3) by (simp_all add: task_at_def null_if_empty_def)
  ultimately show ?thesis using assms(4) s'(2) up unfolding row_exists_iff by auto
qed

definition demo_watched :: store where
  "demo_watched = demo_rev\<lparr>tasks := [review_task (demo_uuid (CHR ''d'')) ''o1'' ''u1'' ''u1'' 3],
     task_watchers := [\<lparr>w_org = ''o1'', w_task = demo_uuid (CHR ''d''), w_user = demo_reviewer, w_created_at = 4\<rparr>],
     document_review_tasks := [\<lparr>rt_org = ''o1'', rt_document = demo_uuid (CHR ''a''), rt_task = demo_uuid (CHR ''d'')\<rparr>]\<rparr>"

definition demo_assignment :: assignment where
  "demo_assignment = \<lparr>as_document = demo_uuid (CHR ''a''), as_ocr_job = demo_uuid (CHR ''e''), as_review_revision = 0,
     as_draft_revision = 0, as_task = demo_uuid (CHR ''f'')\<rparr>"

theorem reassignment_keeps_watcher_witness:
  "work_ok demo_watched
   \<and> \<not> work_ok (after demo_watched (AssignReviewTasks True id ''u1'' ''o1'' demo_reviewer [demo_assignment] ''q'' 70 demo_watched))"
proof -
  let ?run = "AssignReviewTasks True id ''u1'' ''o1'' demo_reviewer [demo_assignment] ''q'' 70 demo_watched"
  have "work_ok demo_watched" "\<not> isl ?run" by code_simp+
  moreover from this obtain created s' where run: "?run = Inr (created, s')" by (cases ?run) auto
  moreover have "review_tasks ''o1'' (as_document demo_assignment) demo_watched = [review_task (demo_uuid (CHR ''d'')) ''o1'' ''u1'' ''u1'' 3]"
    "demo_reviewer \<noteq> []" by code_simp+
  ultimately show ?thesis
    using reassignment_keeps_watcher [OF run, of "review_task (demo_uuid (CHR ''d'')) ''o1'' ''u1'' ''u1'' 3" "[]"
        "\<lparr>w_org = ''o1'', w_task = demo_uuid (CHR ''d''), w_user = demo_reviewer, w_created_at = 4\<rparr>"]
    by (simp add: demo_watched_def review_task_def)
qed

end
