(* ===== verification/Accounting.thy ===== *)
theory Accounting
  imports Reviews
begin

text \<open>
  Accounting suggestions: src/api/internal/accounting and src/api/internal/postgres/accounting.go over the tables of
  migration 000010.  A suggestion maps a confirmed review to an expense category, by a rule that was approved for its
  vendor or by hand; approvals name the revision of the review, the version of the rules and the revision of the
  approval they replace.

  A Go map of texts is the list of its entries.  Texts are ordered by their bytes; \<^verbatim>\<open>lower\<close> is the server's.
\<close>

section \<open>Types\<close>

record category =
  ca_id :: id
  ca_name :: string
  ca_archived_at :: "time option"

record rule =
  rl_id :: id
  rl_vendor :: id
  rl_document_type :: string
  rl_category :: id
  rl_version :: int

record candidate =
  cd_category :: id
  cd_rule :: id
  cd_version :: int
  cd_basis :: string
  cd_confidence :: string
  cd_warnings :: "string list"

record approval =
  av_id :: id
  av_revision :: int
  av_document :: id
  av_review :: id
  av_review_revision :: int
  av_category :: id
  av_category_name :: string
  av_vendor :: string
  av_contact_code :: string
  av_basis :: string
  av_rule_version :: int
  av_warnings :: "string list"
  av_approved_at :: time

record evaluation =
  ev_candidate :: candidate
  ev_vendor :: string
  ev_rule_set_version :: int
  ev_approved :: "approval option"
  ev_status :: string

record approve_input =
  ap_id :: id
  ap_actor :: id
  ap_org :: id
  ap_document :: id
  ap_review :: id
  ap_review_revision :: int
  ap_rule_set_version :: int
  ap_category :: id
  ap_vendor :: string
  ap_rule :: string
  ap_rule_version :: int
  ap_basis :: string
  ap_reason :: string
  ap_expected :: int
  ap_at :: time
  ap_request :: string

record rule_input =
  ru_in_id :: id
  ru_in_actor :: id
  ru_in_org :: id
  ru_in_vendor :: id
  ru_in_document_type :: string
  ru_in_category :: id
  ru_in_at :: time

text \<open>A review with the values read from its object.\<close>

record valued_review = review +
  rv_document_type :: string
  rv_values :: "(string \<times> string) list option"

definition value_at :: "string \<Rightarrow> (string \<times> string) list \<Rightarrow> string" where
  "value_at k m = (case map_of m k of None \<Rightarrow> [] | Some v \<Rightarrow> v)"

section \<open>Suggesting a category\<close>

definition zero_rule :: rule where
  "zero_rule = \<lparr>rl_id = [], rl_vendor = [], rl_document_type = [], rl_category = [], rl_version = 0\<rparr>"

text \<open>One round of the loop over the rules: the best priority, the rule chosen for it, and whether another rule of that
  priority disagrees.\<close>

definition suggest_step :: "id \<Rightarrow> string \<Rightarrow> rule \<Rightarrow> nat \<times> rule \<times> bool \<Rightarrow> nat \<times> rule \<times> bool" where
  "suggest_step vendor type r = (\<lambda>(best, chosen, conflict).
     if rl_vendor r \<noteq> vendor \<or> rl_category r = [] \<or> (rl_document_type r \<noteq> [] \<and> rl_document_type r \<noteq> type)
     then (best, chosen, conflict)
     else
       let priority = (if rl_document_type r \<noteq> [] then 2 else 1) in
       if priority > best then (priority, r, False)
       else if priority = best \<and> rl_category r \<noteq> rl_category chosen then (best, chosen, True)
       else (best, chosen, conflict))"

definition no_candidate :: "string \<Rightarrow> string list \<Rightarrow> candidate" where
  "no_candidate basis warnings =
     \<lparr>cd_category = [], cd_rule = [], cd_version = 0, cd_basis = basis, cd_confidence = ''unrated'', cd_warnings = warnings\<rparr>"

definition Suggest :: "id \<Rightarrow> string \<Rightarrow> rule list \<Rightarrow> candidate" where
  "Suggest vendor type rules =
     (if vendor = [] then no_candidate ''no_rule'' [''vendor_unmatched'', ''category_unmatched'']
      else case fold (suggest_step vendor type) rules (0, zero_rule, False) of
        (best, chosen, conflict) \<Rightarrow>
          if conflict then no_candidate ''rule_conflict'' [''rule_conflict'']
          else if best = 0 then no_candidate ''no_rule'' [''category_unmatched'']
          else \<lparr>cd_category = rl_category chosen, cd_rule = rl_id chosen, cd_version = rl_version chosen,
                cd_basis = (if best = 2 then ''approved_vendor_document_type'' else ''approved_vendor_default''),
                cd_confidence = ''unrated'', cd_warnings = []\<rparr>)"

section \<open>Categories\<close>

definition read_category :: "category_row \<Rightarrow> category" where
  "read_category c = \<lparr>ca_id = ec_id c, ca_name = ec_name c, ca_archived_at = ec_archived_at c\<rparr>"

definition ListCategories :: "server \<Rightarrow> id \<Rightarrow> store \<Rightarrow> category list result" where
  "ListCategories sv org s =
     (let rows = take 501 (sort_key (\<lambda>c. (case ec_archived_at c of None \<Rightarrow> (0 :: nat, 0) | Some t \<Rightarrow> (1, t),
                    lower_text sv (ec_name c), ec_id c)) (filter (\<lambda>c. ec_org c = org) (expense_categories s)))
      in if length rows > 500 then Inl Accounting_ErrInvalid else Inr (map read_category rows))"

text \<open>The partial unique index \<^verbatim>\<open>expense_categories_active_name\<close>.\<close>

definition active_name :: "server \<Rightarrow> category_row \<Rightarrow> (id \<times> string) option" where
  "active_name sv c = (if ec_archived_at c = None then Some (ec_org c, lower_text sv (ec_name c)) else None)"

definition duplicateDatabaseError :: "err \<Rightarrow> bool" where
  "duplicateDatabaseError e = (case e of UniqueViolation _ \<Rightarrow> True | _ \<Rightarrow> False)"

definition insert_category :: "server \<Rightarrow> category_row \<Rightarrow> (unit, store) txn" where
  "insert_category sv c s =
     (if row_exists (\<lambda>q. ec_id q = ec_id c) (expense_categories s) then Inl (UniqueViolation ''expense_categories_pkey'')
      else if conflicts (active_name sv) c (expense_categories s) then Inl (UniqueViolation ''expense_categories_active_name'')
      else Inr ((), s\<lparr>expense_categories := expense_categories s @ [c]\<rparr>))"

text \<open>The UPDATE of the rows that satisfy a condition, with its id: \<^verbatim>\<open>RETURNING id\<close> gives no row when none does.\<close>

definition update_category :: "server \<Rightarrow> (category_row \<Rightarrow> bool) \<Rightarrow> (category_row \<Rightarrow> category_row) \<Rightarrow> (id, store) txn" where
  "update_category sv P f s =
     (case query_row P (expense_categories s) of
        None \<Rightarrow> Inl ErrNoRows
      | Some c \<Rightarrow>
          if conflicts (active_name sv) (f c) (sql_delete P (expense_categories s))
          then Inl (UniqueViolation ''expense_categories_active_name'')
          else Inr (ec_id c, s\<lparr>expense_categories := sql_update P f (expense_categories s)\<rparr>))"

definition CreateCategory :: "server \<Rightarrow> id \<Rightarrow> id \<Rightarrow> category \<Rightarrow> time \<Rightarrow> (category, store) txn" where
  "CreateCategory sv user org c now s =
     (let name = TrimSpace (ca_name c) in
      if ca_id c = [] \<or> length name = 0 \<or> rune_count name > 120 then Inl Accounting_ErrInvalid
      else if \<not> manager_here user org s then Inl Tenant_ErrForbidden
      else case insert_category sv \<lparr>ec_id = ca_id c, ec_org = org, ec_name = name, ec_archived_at = None, ec_created_at = now,
                  ec_updated_at = now\<rparr> s of
        Inl e \<Rightarrow> Inl (if duplicateDatabaseError e then Accounting_ErrConflict else e)
      | Inr (_, s) \<Rightarrow> Inr (\<lparr>ca_id = ca_id c, ca_name = name, ca_archived_at = None\<rparr>,
                         auditTenant org user ''accounting.category.create'' ''expense_category'' (ca_id c) now s))"

text \<open>\<^verbatim>\<open>INSERT INTO accounting_rule_sets ... ON CONFLICT (organization_id) DO UPDATE SET version = version + 1\<close>.\<close>

definition bump_rules :: "id \<Rightarrow> store \<Rightarrow> store" where
  "bump_rules org s =
     (if row_exists (\<lambda>r. rs_org r = org) (accounting_rule_sets s)
      then s\<lparr>accounting_rule_sets := sql_update (\<lambda>r. rs_org r = org) (\<lambda>r. r\<lparr>rs_version := rs_version r + 1\<rparr>) (accounting_rule_sets s)\<rparr>
      else s\<lparr>accounting_rule_sets := accounting_rule_sets s @ [\<lparr>rs_org = org, rs_version = 1\<rparr>]\<rparr>)"

definition SetCategoryArchived :: "server \<Rightarrow> id \<Rightarrow> id \<Rightarrow> id \<Rightarrow> bool \<Rightarrow> time \<Rightarrow> (unit, store) txn" where
  "SetCategoryArchived sv user org i archived now s =
     (if \<not> manager_here user org s then Inl Tenant_ErrForbidden
      else case update_category sv (\<lambda>c. ec_org c = org \<and> ec_id c = i \<and> (ec_archived_at c = None) = archived)
                  (\<lambda>c. c\<lparr>ec_archived_at := (if archived then Some now else None), ec_updated_at := now\<rparr>) s of
        Inl e \<Rightarrow> Inl (if e = ErrNoRows \<or> duplicateDatabaseError e then Accounting_ErrConflict else e)
      | Inr (_, s) \<Rightarrow>
          Inr ((), auditTenant org user (if archived then ''accounting.category.archive'' else ''accounting.category.restore'')
                     ''expense_category'' i now (bump_rules org s)))"

definition RenameCategory :: "server \<Rightarrow> id \<Rightarrow> id \<Rightarrow> id \<Rightarrow> string \<Rightarrow> time \<Rightarrow> (unit, store) txn" where
  "RenameCategory sv user org i text now s =
     (let name = TrimSpace text in
      if name = [] \<or> rune_count name > 120 then Inl Accounting_ErrInvalid
      else if \<not> manager_here user org s then Inl Tenant_ErrForbidden
      else case update_category sv (\<lambda>c. ec_org c = org \<and> ec_id c = i \<and> ec_archived_at c = None \<and> ec_name c \<noteq> name)
                  (\<lambda>c. c\<lparr>ec_name := name, ec_updated_at := now\<rparr>) s of
        Inl e \<Rightarrow> Inl (if e = ErrNoRows \<or> duplicateDatabaseError e then Accounting_ErrConflict else e)
      | Inr (_, s) \<Rightarrow>
          Inr ((), auditTenant org user ''accounting.category.rename'' ''expense_category'' i now (bump_rules org s)))"

section \<open>Rules\<close>

definition read_rule :: "rule_row \<Rightarrow> rule" where
  "read_rule r = \<lparr>rl_id = ru_id r, rl_vendor = ru_vendor r, rl_document_type = ru_document_type r, rl_category = ru_category r,
     rl_version = ru_version r\<rparr>"

definition rule_version_of :: "store \<Rightarrow> id \<Rightarrow> int" where
  "rule_version_of s org = (case query_row (\<lambda>r. rs_org r = org) (accounting_rule_sets s) of None \<Rightarrow> 0 | Some r \<Rightarrow> rs_version r)"

definition active_category :: "id \<Rightarrow> id \<Rightarrow> category_row \<Rightarrow> bool" where
  "active_category org i c = (ec_org c = org \<and> ec_id c = i \<and> ec_archived_at c = None)"

definition vendor_here :: "id \<Rightarrow> id \<Rightarrow> contact_row \<Rightarrow> bool" where
  "vendor_here org i v = (bc_org v = org \<and> bc_id v = i \<and> bc_vendor v \<and> bc_archived_at v = None)"

text \<open>The row of the rule set is inserted with version 0 when there is none, then its version is raised: the same rows as
  \<open>bump_rules\<close>.\<close>

definition CreateRule :: "rule_input \<Rightarrow> (rule, store) txn" where
  "CreateRule x s =
     (let org = ru_in_org x in
      if ru_in_id x = [] \<or> ru_in_vendor x = [] \<or> ru_in_category x = []
        \<or> ru_in_document_type x \<notin> {[], ''receipt'', ''invoice'', ''tax_invoice''}
      then Inl Accounting_ErrInvalid
      else if \<not> manager_here (ru_in_actor x) org s then Inl Tenant_ErrForbidden
      else if \<not> (row_exists (vendor_here org (ru_in_vendor x)) (business_contacts s)
                 \<and> row_exists (active_category org (ru_in_category x)) (expense_categories s))
      then Inl Accounting_ErrInvalid
      else
        let s1 = bump_rules org s; version = rule_version_of s1 org in
        if row_exists (\<lambda>r. ru_id r = ru_in_id x) (accounting_mapping_rules s1) then Inl (UniqueViolation ''accounting_mapping_rules_pkey'')
        else
          let s2 = s1\<lparr>accounting_mapping_rules := accounting_mapping_rules s1 @
                [\<lparr>ru_id = ru_in_id x, ru_org = org, ru_vendor = ru_in_vendor x, ru_document_type = ru_in_document_type x,
                  ru_category = ru_in_category x, ru_version = version, ru_approved_by = ru_in_actor x, ru_approved_at = ru_in_at x,
                  ru_retired_at = None\<rparr>]\<rparr>
          in Inr (\<lparr>rl_id = ru_in_id x, rl_vendor = ru_in_vendor x, rl_document_type = ru_in_document_type x,
                   rl_category = ru_in_category x, rl_version = version\<rparr>,
                  auditTenant org (ru_in_actor x) ''accounting.rule.approve'' ''accounting_rule'' (ru_in_id x) (ru_in_at x) s2))"

definition RetireRule :: "id \<Rightarrow> id \<Rightarrow> id \<Rightarrow> time \<Rightarrow> (unit, store) txn" where
  "RetireRule user org i now s =
     (let mine = (\<lambda>r. ru_org r = org \<and> ru_id r = i \<and> ru_retired_at r = None) in
      if \<not> manager_here user org s then Inl Tenant_ErrForbidden
      else if \<not> row_exists mine (accounting_mapping_rules s) then Inl Accounting_ErrConflict
      else
        let s1 = s\<lparr>accounting_mapping_rules := sql_update mine (\<lambda>r. r\<lparr>ru_retired_at := Some now\<rparr>) (accounting_mapping_rules s),
                   accounting_rule_sets := sql_update (\<lambda>r. rs_org r = org) (\<lambda>r. r\<lparr>rs_version := rs_version r + 1\<rparr>) (accounting_rule_sets s)\<rparr>
        in Inr ((), auditTenant org user ''accounting.rule.retire'' ''accounting_rule'' i now s1))"

definition ListRules :: "id \<Rightarrow> id \<Rightarrow> store \<Rightarrow> rule list result" where
  "ListRules org vendor s =
     (if vendor = [] then Inl Accounting_ErrInvalid
      else
        let rows = take 101 (sort_key (\<lambda>r. (ru_document_type r, - ru_version r, ru_id r))
              (filter (\<lambda>r. ru_org r = org \<and> ru_vendor r = vendor \<and> ru_retired_at r = None) (accounting_mapping_rules s)))
        in if length rows > 100 then Inl Accounting_ErrInvalid else Inr (map read_rule rows))"


section \<open>Evaluating a review\<close>

definition open_document :: "(document_row \<Rightarrow> bool) \<Rightarrow> store \<Rightarrow> review_row \<Rightarrow> bool" where
  "open_document P s e = row_exists (\<lambda>d. d_org d = er_org e \<and> d_id d = er_document e \<and> P d) (documents s)"

text \<open>The current review of a document, made from its published run and not older than its draft.\<close>

definition source_review :: "id \<Rightarrow> id \<Rightarrow> store \<Rightarrow> review_row \<Rightarrow> bool" where
  "source_review org doc s e = (current_review_row org doc e \<and> run_of_review_current s e \<and> current_draft_sql s e)"

definition matching_vendor :: "id \<Rightarrow> string \<Rightarrow> string \<Rightarrow> contact_row \<Rightarrow> bool" where
  "matching_vendor org tax branch v =
     (bc_org v = org \<and> bc_country v = ''TH'' \<and> bc_tax_id v = tax \<and> bc_branch v = branch \<and> bc_vendor v \<and> bc_archived_at v = None)"

definition rules_for :: "id \<Rightarrow> id \<Rightarrow> string \<Rightarrow> store \<Rightarrow> rule list" where
  "rules_for org vendor type s =
     map read_rule (take 101 (sort_key ru_id
       (filter (\<lambda>r. ru_org r = org \<and> ru_vendor r = vendor \<and> ru_retired_at r = None \<and> (ru_document_type r = [] \<or> ru_document_type r = type)
            \<and> row_exists (active_category (ru_org r) (ru_category r)) (expense_categories s)) (accounting_mapping_rules s))))"

definition read_approval :: "suggestion_row \<Rightarrow> approval" where
  "read_approval a =
     \<lparr>av_id = sg_id a, av_revision = sg_revision a, av_document = sg_document a, av_review = sg_review a,
      av_review_revision = sg_review_revision a, av_category = sg_category a, av_category_name = sg_category_name a,
      av_vendor = null_text (sg_vendor a), av_contact_code = sg_contact_code a, av_basis = sg_basis a,
      av_rule_version = (case sg_rule_version a of None \<Rightarrow> 0 | Some v \<Rightarrow> v), av_warnings = [], av_approved_at = sg_approved_at a\<rparr>"

definition current_suggestion :: "id \<Rightarrow> id \<Rightarrow> suggestion_row \<Rightarrow> bool" where
  "current_suggestion org doc a = (sg_org a = org \<and> sg_document a = doc \<and> sg_superseded_at a = None)"

text \<open>The vendor the values name, and the candidate with its status.\<close>

definition vendor_of :: "id \<Rightarrow> (string \<times> string) list \<Rightarrow> store \<Rightarrow> string" where
  "vendor_of org values s =
     (let branch = value_at ''seller_branch'' values; tax = value_at ''seller_tax_id'' values in
      if branch = [] \<or> tax = [] then []
      else case query_row (matching_vendor org tax branch) (business_contacts s) of None \<Rightarrow> [] | Some v \<Rightarrow> bc_id v)"

definition add_warning :: "string \<Rightarrow> evaluation \<Rightarrow> evaluation" where
  "add_warning w e = e\<lparr>ev_candidate := (ev_candidate e)\<lparr>cd_warnings := cd_warnings (ev_candidate e) @ [w]\<rparr>, ev_status := ''NeedsReview''\<rparr>"

definition suggested :: "int \<Rightarrow> string \<Rightarrow> string \<Rightarrow> (string \<times> string) list \<Rightarrow> rule list \<Rightarrow> evaluation" where
  "suggested version vendor type values rules =
     (let c = Suggest vendor type rules;
          e = \<lparr>ev_candidate = c, ev_vendor = vendor, ev_rule_set_version = version, ev_approved = None,
               ev_status = (if cd_warnings c \<noteq> [] then ''NeedsReview'' else ''Draft'')\<rparr>
      in if value_at ''seller_branch'' values = [] \<and> value_at ''seller_tax_id'' values \<noteq> [] then add_warning ''branch_unknown'' e else e)"

definition approved_evaluation :: "approval \<Rightarrow> evaluation \<Rightarrow> evaluation" where
  "approved_evaluation a e =
     e\<lparr>ev_approved := Some a, ev_vendor := av_vendor a,
       ev_candidate := \<lparr>cd_category = av_category a, cd_rule = [], cd_version = 0, cd_basis = ''human_reviewed'',
                        cd_confidence = ''unrated'', cd_warnings = []\<rparr>,
       ev_status := ''Approved''\<rparr>"

definition Evaluate :: "id \<Rightarrow> valued_review \<Rightarrow> store \<Rightarrow> evaluation result" where
  "Evaluate org x s =
     (case rv_values x of
        None \<Rightarrow> Inl Accounting_ErrInvalid
      | Some values \<Rightarrow>
          if rv_org x \<noteq> org \<or> rv_id x = [] then Inl Accounting_ErrInvalid
          else case query_row (\<lambda>e. source_review org (rv_document x) s e \<and> open_document (\<lambda>d. open_status (d_status d)) s e)
                      (document_extraction_reviews s) of
            None \<Rightarrow> Inl Accounting_ErrConflict
          | Some e \<Rightarrow>
              if er_id e \<noteq> rv_id x then Inl Accounting_ErrConflict
              else
                let vendor = vendor_of org values s;
                    rules = (if vendor = [] then [] else rules_for org vendor (rv_document_type x) s) in
                if length rules > 100 then Inl Accounting_ErrInvalid
                else
                  let ev = suggested (rule_version_of s org) vendor (rv_document_type x) values rules in
                  case query_row (current_suggestion org (rv_document x)) (accounting_suggestions s) of
                    None \<Rightarrow> Inr ev
                  | Some a \<Rightarrow>
                      if sg_review a = rv_id x then Inr (approved_evaluation (read_approval a) ev)
                      else Inr (add_warning ''source_changed'' ev))"

section \<open>Approving a suggestion\<close>

definition approve_invalid :: "approve_input \<Rightarrow> bool" where
  "approve_invalid x =
     (ap_id x = [] \<or> ap_review x = [] \<or> ap_review_revision x < 1 \<or> ap_category x = [] \<or> ap_rule_set_version x < 0 \<or> ap_expected x < 0
      \<or> length (ap_reason x) > 240 \<or> (ap_vendor x = [] \<and> TrimSpace (ap_reason x) = [])
      \<or> (ap_rule x \<noteq> [] \<and> (ap_rule_version x < 1 \<or> ap_vendor x = []
           \<or> ap_basis x \<notin> {''approved_vendor_default'', ''approved_vendor_document_type''})))"

definition approval_basis :: "approve_input \<Rightarrow> string" where
  "approval_basis x = (if ap_rule x \<noteq> [] then ap_basis x else ''human_reviewed'')"

definition matching_rule :: "approve_input \<Rightarrow> rule_row \<Rightarrow> bool" where
  "matching_rule x r = (ru_org r = ap_org x \<and> ru_id r = ap_rule x \<and> ru_vendor r = ap_vendor x \<and> ru_category r = ap_category x
     \<and> ru_retired_at r = None)"

definition suggestion_check :: "suggestion_row \<Rightarrow> bool" where
  "suggestion_check a =
     (0 < sg_review_revision a \<and> 0 < sg_revision a \<and> 0 \<le> sg_rule_set_version a \<and> 1 \<le> rune_count (sg_category_name a)
      \<and> rune_count (sg_category_name a) \<le> 120 \<and> rune_count (sg_contact_code a) \<le> 64 \<and> rune_count (sg_unmatched_reason a) \<le> 240
      \<and> rune_count (sg_basis a) \<le> 64)"

definition suggestion_doc :: "suggestion_row \<Rightarrow> id \<times> id" where "suggestion_doc a = (sg_org a, sg_document a)"

definition suggestion_key :: "suggestion_row \<Rightarrow> (id \<times> id \<times> int) option" where
  "suggestion_key a = Some (sg_org a, sg_document a, sg_revision a)"

definition suggestion_current_key :: "suggestion_row \<Rightarrow> (id \<times> id) option" where
  "suggestion_current_key a = (if sg_superseded_at a = None then Some (suggestion_doc a) else None)"

definition insert_suggestion :: "suggestion_row \<Rightarrow> (unit, store) txn" where
  "insert_suggestion a s =
     (let rows = accounting_suggestions s in
      if \<not> suggestion_check a then Inl (CheckViolation ''accounting_suggestions'')
      else if row_exists (\<lambda>q. sg_id q = sg_id a) rows then Inl (UniqueViolation ''accounting_suggestions_pkey'')
      else if conflicts suggestion_key a rows then Inl (UniqueViolation ''accounting_suggestions_organization_id_document_id_revision_key'')
      else if conflicts suggestion_current_key a rows then Inl (UniqueViolation ''accounting_suggestions_current'')
      else Inr ((), s\<lparr>accounting_suggestions := rows @ [a]\<rparr>))"

definition close_suggestion :: "time \<Rightarrow> suggestion_row \<Rightarrow> suggestion_row" where
  "close_suggestion t a = a\<lparr>sg_superseded_at := Some t\<rparr>"

definition new_suggestion :: "approve_input \<Rightarrow> int \<Rightarrow> string \<Rightarrow> string \<Rightarrow> suggestion_row" where
  "new_suggestion x revision name code =
     \<lparr>sg_id = ap_id x, sg_org = ap_org x, sg_document = ap_document x, sg_review = ap_review x,
      sg_review_revision = ap_review_revision x, sg_revision = revision, sg_rule_set_version = ap_rule_set_version x,
      sg_category = ap_category x, sg_category_name = name, sg_vendor = null_if_empty (ap_vendor x), sg_contact_code = code,
      sg_unmatched_reason = TrimSpace (ap_reason x), sg_basis = approval_basis x, sg_rule = null_if_empty (ap_rule x),
      sg_rule_version = (if ap_rule x \<noteq> [] then Some (ap_rule_version x) else None), sg_approved_by = ap_actor x,
      sg_approved_at = ap_at x, sg_superseded_at = None\<rparr>"

definition approval_of :: "approve_input \<Rightarrow> int \<Rightarrow> string \<Rightarrow> string \<Rightarrow> approval" where
  "approval_of x revision name code =
     \<lparr>av_id = ap_id x, av_revision = revision, av_document = ap_document x, av_review = ap_review x,
      av_review_revision = ap_review_revision x, av_category = ap_category x, av_category_name = name, av_vendor = ap_vendor x,
      av_contact_code = code, av_basis = approval_basis x, av_rule_version = ap_rule_version x, av_warnings = [],
      av_approved_at = ap_at x\<rparr>"

definition approve_audit :: "approve_input \<Rightarrow> int \<Rightarrow> audit_row" where
  "approve_audit x prior =
     \<lparr>au_org = Some (ap_org x), au_actor = Some (ap_actor x), au_type = ''accounting.suggestion.approve'',
      au_target_type = ''accounting_suggestion'', au_target_id = ap_id x, au_request = Some (ap_request x), au_outcome = ''success'',
      au_reason = None,
      au_metadata = JObject [(''matching_rule_id'', JString (ap_rule x)), (''new_revision'', JNumber (prior + 1)),
                             (''old_revision'', JNumber prior), (''review_revision'', JNumber (ap_review_revision x)),
                             (''rule_set_version'', JNumber (ap_rule_set_version x))],
      au_at = ap_at x\<rparr>"

text \<open>The vendor's code: none without a vendor, \<^verbatim>\<open>None\<close> for a vendor that cannot be used.\<close>

definition vendor_code :: "approve_input \<Rightarrow> store \<Rightarrow> string option" where
  "vendor_code x s =
     (if ap_vendor x = [] then Some []
      else map_option bc_code (query_row (vendor_here (ap_org x) (ap_vendor x)) (business_contacts s)))"

definition rule_unchanged :: "approve_input \<Rightarrow> store \<Rightarrow> bool" where
  "rule_unchanged x s =
     (ap_rule x = [] \<or> map_option ru_version (query_row (matching_rule x) (accounting_mapping_rules s)) = Some (ap_rule_version x))"

definition suggestion_revision :: "store \<Rightarrow> id \<times> id \<Rightarrow> int" where
  "suggestion_revision s = (\<lambda>(org, doc). case query_row (current_suggestion org doc) (accounting_suggestions s) of
     None \<Rightarrow> 0 | Some a \<Rightarrow> sg_revision a)"

definition write_approval :: "bool \<Rightarrow> approve_input \<Rightarrow> string \<Rightarrow> string \<Rightarrow> (approval, store) txn" where
  "write_approval accepts x name code s =
     (let prior = query_row (current_suggestion (ap_org x) (ap_document x)) (accounting_suggestions s);
          revision = suggestion_revision s (ap_org x, ap_document x)
      in if revision \<noteq> ap_expected x then Inl Accounting_ErrConflict
         else case insert_suggestion (new_suggestion x (revision + 1) name code)
                (s\<lparr>accounting_suggestions := close_current sg_id (close_suggestion (ap_at x)) prior (accounting_suggestions s)\<rparr>) of
           Inl e \<Rightarrow> Inl (if duplicateDatabaseError e then Accounting_ErrConflict else e)
         | Inr (_, s1) \<Rightarrow>
             (case insert_review_audit accepts (approve_audit x revision) s1 of
                Inl e \<Rightarrow> Inl e
              | Inr (_, s2) \<Rightarrow> Inr (approval_of x (revision + 1) name code, s2)))"

definition Approve :: "bool \<Rightarrow> approve_input \<Rightarrow> (approval, store) txn" where
  "Approve accepts x s =
     (if approve_invalid x then Inl Accounting_ErrInvalid
      else if \<not> manager_here (ap_actor x) (ap_org x) s then Inl Tenant_ErrForbidden
      else if \<not> row_exists (\<lambda>d. document_at (ap_org x) (ap_document x) d \<and> open_status (d_status d)) (documents s) then Inl Tenant_ErrNotFound
      else case query_row (source_review (ap_org x) (ap_document x) s) (document_extraction_reviews s) of
        None \<Rightarrow> Inl Accounting_ErrConflict
      | Some e \<Rightarrow>
          if er_id e \<noteq> ap_review x \<or> er_revision e \<noteq> ap_review_revision x then Inl Accounting_ErrConflict
          else if rule_version_of s (ap_org x) \<noteq> ap_rule_set_version x then Inl Accounting_ErrConflict
          else case query_row (active_category (ap_org x) (ap_category x)) (expense_categories s) of
            None \<Rightarrow> Inl Accounting_ErrInvalid
          | Some c \<Rightarrow>
             (case vendor_code x s of
                None \<Rightarrow> Inl Accounting_ErrInvalid
              | Some code \<Rightarrow>
                  if \<not> rule_unchanged x s then Inl Accounting_ErrConflict
                  else write_approval accepts x (ec_name c) code s))"

section \<open>Approved rows\<close>

text \<open>An approval that may be exported: current, of a current review of an available document.\<close>

definition approved_row :: "id \<Rightarrow> store \<Rightarrow> suggestion_row \<Rightarrow> bool" where
  "approved_row org s a =
     (sg_org a = org \<and> sg_superseded_at a = None
      \<and> row_exists (\<lambda>d. d_org d = sg_org a \<and> d_id d = sg_document a \<and> d_status d = ''Available'') (documents s)
      \<and> row_exists (\<lambda>e. er_org e = sg_org a \<and> er_id e = sg_review a \<and> er_superseded_at e = None \<and> run_of_review_current s e
           \<and> current_draft_sql s e) (document_extraction_reviews s))"

definition ListApproved :: "time \<Rightarrow> id \<Rightarrow> id \<Rightarrow> int \<Rightarrow> id \<Rightarrow> (approval list, store) txn" where
  "ListApproved clock user org limit doc s =
     (if limit < 1 \<or> limit > 100 \<or> length doc > 36 then Inl Accounting_ErrInvalid
      else if \<not> manager_here user org s then Inl Tenant_ErrForbidden
      else
        let rows = take (nat limit + 1) (descending (\<lambda>a. (sg_approved_at a, sg_id a))
              (filter (\<lambda>a. approved_row org s a \<and> (doc = [] \<or> sg_document a = doc)) (accounting_suggestions s)))
        in if length rows > nat limit then Inl Accounting_ErrTooMany
           else Inr (map read_approval rows, auditTenant org user ''accounting.export'' ''organization'' org clock s))"

definition approval_valid :: "id \<Rightarrow> store \<Rightarrow> approval \<Rightarrow> bool" where
  "approval_valid org s a =
     row_exists (\<lambda>q. approved_row org s q \<and> sg_id q = av_id a \<and> sg_document q = av_document a \<and> sg_review q = av_review a
       \<and> sg_review_revision q = av_review_revision a) (accounting_suggestions s)"

definition ValidateApprovedSnapshot :: "id \<Rightarrow> id \<Rightarrow> approval list \<Rightarrow> store \<Rightarrow> unit result" where
  "ValidateApprovedSnapshot user org items s =
     (if length items > 100 then Inl Accounting_ErrTooMany
      else if \<not> manager_here user org s then Inl Tenant_ErrForbidden
      else if list_all (approval_valid org s) items then Inr () else Inl Accounting_ErrConflict)"

text \<open>The row of an export; \<^verbatim>\<open>format\<close> is \<^verbatim>\<open>time.RFC3339\<close>.\<close>

definition TemplateVersion :: string where "TemplateVersion = ''accounting_suggestions_v1''"

definition ExportHeader :: "string list" where
  "ExportHeader = [''row_id'', ''document_id'', ''source_review_revision'', ''document_type'', ''reviewed_issue_date'',
     ''reviewed_document_number'', ''reviewed_seller_name'', ''reviewed_seller_tax_id'', ''reviewed_seller_branch'',
     ''vendor_contact_code'', ''expense_category_id'', ''expense_category_name'', ''reviewed_currency'', ''reviewed_subtotal'',
     ''reviewed_vat_amount'', ''reviewed_total_amount'', ''suggestion_basis'', ''rule_version'', ''warning_codes'', ''approved_at'',
     ''template_version'']"

definition ExportRow :: "(time \<Rightarrow> string) \<Rightarrow> approval \<Rightarrow> valued_review \<Rightarrow> string list result" where
  "ExportRow format a x =
     (if av_id a = [] \<or> av_review a \<noteq> rv_id x \<or> av_review_revision a \<noteq> rv_revision x \<or> av_document a \<noteq> rv_document x
         \<or> av_category a = []
      then Inl (OtherError ''approved source revision is unavailable'')
      else
        let v = (\<lambda>k. value_at k (case rv_values x of None \<Rightarrow> [] | Some m \<Rightarrow> m)) in
        Inr [av_id a, rv_document x, Itoa (rv_revision x), rv_document_type x, v ''issue_date'', v ''document_number'',
             v ''seller_name'', v ''seller_tax_id'', v ''seller_branch'', av_contact_code a, av_category a, av_category_name a,
             v ''currency'', v ''subtotal'', v ''vat_amount'', v ''total_amount'', av_basis a,
             (if av_rule_version a > 0 then Itoa (av_rule_version a) else []), join '';'' (av_warnings a), format (av_approved_at a),
             TemplateVersion])"

lemma export_row_width: "ExportRow format a x = Inr row \<Longrightarrow> length row = length ExportHeader"
  by (auto simp: ExportRow_def ExportHeader_def Let_def split: if_splits)

section \<open>The suggested category\<close>

text \<open>The rules that apply to a vendor's document, and those of them that decide: the ones for its type if there are any.\<close>

definition applies :: "id \<Rightarrow> string \<Rightarrow> rule \<Rightarrow> bool" where
  "applies vendor type r =
     (rl_vendor r = vendor \<and> rl_category r \<noteq> [] \<and> (rl_document_type r = [] \<or> rl_document_type r = type))"

definition deciding :: "id \<Rightarrow> string \<Rightarrow> rule list \<Rightarrow> rule list" where
  "deciding vendor type rules =
     (let app = filter (applies vendor type) rules; specific = filter (\<lambda>r. rl_document_type r \<noteq> []) app in
      if specific = [] then app else specific)"

definition best_priority :: "id \<Rightarrow> string \<Rightarrow> rule list \<Rightarrow> nat" where
  "best_priority vendor type rules =
     (case deciding vendor type rules of [] \<Rightarrow> 0 | r # _ \<Rightarrow> if rl_document_type r = [] then 1 else 2)"

definition disagree :: "rule list \<Rightarrow> bool" where
  "disagree rs = (\<exists>r \<in> set rs. rl_category r \<noteq> rl_category (hd rs))"

lemma deciding_snoc:
  "deciding vendor type (rules @ [r]) =
     (let ds = deciding vendor type rules in
      if \<not> applies vendor type r then ds
      else if rl_document_type r \<noteq> [] then (if best_priority vendor type rules = 2 then ds @ [r] else [r])
      else if best_priority vendor type rules = 2 then ds else ds @ [r])"
proof -
  let ?app = "filter (applies vendor type) rules" and ?typed = "\<lambda>r. rl_document_type r \<noteq> []"
  have typed: "best_priority vendor type rules = 2 \<longleftrightarrow> filter ?typed ?app \<noteq> []"
  proof (cases "filter ?typed ?app")
    case Nil
    show ?thesis
    proof (cases ?app)
      case (Cons x xs)
      then have "rl_document_type x = []" using Nil by (simp split: if_splits)
      then show ?thesis using Nil Cons by (simp add: best_priority_def deciding_def)
    qed (simp add: best_priority_def deciding_def)
  next
    case (Cons x xs)
    have "x \<in> set (filter ?typed ?app)" unfolding Cons by simp
    then have "?typed x" by simp
    then show ?thesis using Cons by (simp add: best_priority_def deciding_def)
  qed
  have none: "filter ?typed ?app = [] \<Longrightarrow> deciding vendor type rules = ?app" by (simp add: deciding_def)
  show ?thesis using typed none by (auto simp: deciding_def Let_def)
qed

lemma fold_suggest_step:
  "fold (suggest_step vendor type) rules (0, zero_rule, False) =
     (best_priority vendor type rules,
      (case deciding vendor type rules of [] \<Rightarrow> zero_rule | r # _ \<Rightarrow> r), disagree (deciding vendor type rules))"
proof (induction rules rule: rev_induct)
  case Nil
  then show ?case by (simp add: best_priority_def deciding_def disagree_def)
next
  case (snoc r rules)
  show ?case
  proof (cases "applies vendor type r")
    case False
    then show ?thesis using snoc.IH
      by (auto simp: suggest_step_def applies_def best_priority_def deciding_snoc Let_def)
  next
    case True
    then have app: "rl_vendor r = vendor" "rl_category r \<noteq> []" "rl_document_type r = [] \<or> rl_document_type r = type"
      by (auto simp: applies_def)
    show ?thesis
    proof (cases "deciding vendor type rules")
      case Nil
      then have "best_priority vendor type rules = 0" by (simp add: best_priority_def)
      then show ?thesis using snoc.IH True app Nil
        by (auto simp: suggest_step_def deciding_snoc Let_def disagree_def best_priority_def)
    next
      case (Cons d ds)
      then have best: "best_priority vendor type rules = (if rl_document_type d = [] then 1 else 2)" by (simp add: best_priority_def)
      show ?thesis using snoc.IH True app Cons best
        by (auto simp: suggest_step_def deciding_snoc Let_def disagree_def best_priority_def)
    qed
  qed
qed

section \<open>Properties\<close>

text \<open>The one pass over the rules computes what the rules mean: nothing without a vendor or without a rule that
  applies; otherwise the rules for the document's type decide, or the vendor's default rules when there are none, and they
  suggest the category on which all of them agree, with the first of them as its source, or report a conflict.\<close>

theorem suggest_decides:
  "Suggest vendor type rules =
     (if vendor = [] then no_candidate ''no_rule'' [''vendor_unmatched'', ''category_unmatched'']
      else case deciding vendor type rules of
        [] \<Rightarrow> no_candidate ''no_rule'' [''category_unmatched'']
      | r # rs \<Rightarrow>
          if \<forall>q \<in> set rs. rl_category q = rl_category r
          then \<lparr>cd_category = rl_category r, cd_rule = rl_id r, cd_version = rl_version r,
                cd_basis = (if rl_document_type r = [] then ''approved_vendor_default'' else ''approved_vendor_document_type''),
                cd_confidence = ''unrated'', cd_warnings = []\<rparr>
          else no_candidate ''rule_conflict'' [''rule_conflict''])"
  unfolding Suggest_def fold_suggest_step
  by (auto simp: best_priority_def disagree_def split: list.splits)

theorem suggest_decides_witness:
  "cd_category (Suggest ''v'' ''invoice'' [zero_rule\<lparr>rl_vendor := ''v'', rl_category := ''a''\<rparr>,
     zero_rule\<lparr>rl_vendor := ''v'', rl_category := ''b'', rl_document_type := ''invoice''\<rparr>]) = ''b''"
  by (simp add: suggest_decides deciding_def applies_def zero_rule_def)

section \<open>Approvals and the rules they saw\<close>

interpretation suggestion_table: revision_table sg_id suggestion_doc sg_revision sg_superseded_at close_suggestion
  by unfold_locales (simp_all add: close_suggestion_def suggestion_doc_def)

definition acc_ok :: "store \<Rightarrow> bool" where
  "acc_ok s = (revision_rows_ok sg_id suggestion_doc sg_revision sg_superseded_at (accounting_suggestions s)
     \<and> distinct (map ec_id (expense_categories s))
     \<and> list_all (\<lambda>r. row_exists (\<lambda>q. rs_org q = ru_org r) (accounting_rule_sets s)
           \<and> row_exists (\<lambda>c. ec_org c = ru_org r \<and> ec_id c = ru_category r) (expense_categories s)) (accounting_mapping_rules s))"

text \<open>What an evaluation and an approval read of an organization: its active rules, and its categories.\<close>

definition rule_content :: "id \<Rightarrow> store \<Rightarrow> rule_row list \<times> (id \<times> string \<times> time option) set" where
  "rule_content org s =
     (filter (\<lambda>r. ru_org r = org \<and> ru_retired_at r = None) (accounting_mapping_rules s),
      {(ec_id c, ec_name c, ec_archived_at c) |c. c \<in> set (expense_categories s) \<and> ec_org c = org})"

definition content_covers :: "rule_row list \<times> (id \<times> string \<times> time option) set \<Rightarrow> rule_row list \<times> (id \<times> string \<times> time option) set \<Rightarrow> bool" where
  "content_covers a b = (fst a = fst b \<and> snd a \<subseteq> snd b)"

lemma bump_rules_version:
  "rule_version_of (bump_rules org s) org' = rule_version_of s org' + (if org' = org then 1 else 0)"
proof (cases "row_exists (\<lambda>r. rs_org r = org) (accounting_rule_sets s)")
  case True
  then obtain q where q: "query_row (\<lambda>r. rs_org r = org) (accounting_rule_sets s) = Some q"
    using query_row_None_iff [of "\<lambda>r. rs_org r = org" "accounting_rule_sets s"] by (auto simp: row_exists_iff)
  then have org: "rs_org q = org" by (auto dest: query_row_SomeD)
  have set: "query_row (\<lambda>r. rs_org r = org') (accounting_rule_sets (bump_rules org s))
      = map_option (\<lambda>r. if rs_org r = org then r\<lparr>rs_version := rs_version r + 1\<rparr> else r)
          (query_row (\<lambda>r. rs_org r = org') (accounting_rule_sets s))"
    using True by (simp add: bump_rules_def query_row_sql_update)
  show ?thesis
  proof (cases "org' = org")
    case True
    then show ?thesis by (simp add: rule_version_of_def set [unfolded True] q org)
  next
    case False
    then show ?thesis
      by (cases "query_row (\<lambda>r. rs_org r = org') (accounting_rule_sets s)") (auto simp: rule_version_of_def set dest: query_row_SomeD)
  qed
next
  case False
  then have "query_row (\<lambda>r. rs_org r = org) (accounting_rule_sets s) = None" by (simp add: query_row_None_iff row_exists_iff)
  then show ?thesis using False by (auto simp: bump_rules_def rule_version_of_def split: option.splits)
qed

lemma bump_rules_frame [simp]:
  "accounting_mapping_rules (bump_rules org s) = accounting_mapping_rules s"
  "expense_categories (bump_rules org s) = expense_categories s"
  "accounting_suggestions (bump_rules org s) = accounting_suggestions s"
  by (simp_all add: bump_rules_def)

lemma bump_rules_exists:
  "row_exists (\<lambda>r. rs_org r = org') (accounting_rule_sets (bump_rules org s)) \<longleftrightarrow>
     org' = org \<or> row_exists (\<lambda>r. rs_org r = org') (accounting_rule_sets s)"
proof -
  have "row_exists (\<lambda>r. rs_org r = org') (sql_update P (\<lambda>r. r\<lparr>rs_version := rs_version r + 1\<rparr>) rows)
      = row_exists (\<lambda>r. rs_org r = org') rows" for P rows
    by (induction rows) auto
  then show ?thesis by (auto simp: bump_rules_def row_exists_iff)
qed

text \<open>The effect of an operation on what evaluations read: untouched or only extended, or stamped.\<close>

definition stamp_step :: "id \<Rightarrow> store \<Rightarrow> store \<Rightarrow> bool" where
  "stamp_step org s s' =
     (rule_version_of s org < rule_version_of s' org
      \<or> rule_version_of s' org = rule_version_of s org \<and> content_covers (rule_content org s) (rule_content org s'))"

lemma covers_refl [simp]: "content_covers v v"
  by (simp add: content_covers_def)

lemma stamp_step_same [simp]:
  "accounting_mapping_rules s' = accounting_mapping_rules s \<Longrightarrow> expense_categories s' = expense_categories s
    \<Longrightarrow> accounting_rule_sets s' = accounting_rule_sets s \<Longrightarrow> stamp_step org s s'"
  by (simp add: stamp_step_def rule_version_of_def rule_content_def)

lemma auditTenant_accounting [simp]:
  "accounting_mapping_rules (auditTenant org user ev ty i now s) = accounting_mapping_rules s"
  "expense_categories (auditTenant org user ev ty i now s) = expense_categories s"
  "accounting_rule_sets (auditTenant org user ev ty i now s) = accounting_rule_sets s"
  "accounting_suggestions (auditTenant org user ev ty i now s) = accounting_suggestions s"
  by (simp_all add: auditTenant_def)

lemma CreateCategory_step:
  assumes "CreateCategory sv user org c now s = Inr (r, s')" "acc_ok s"
  shows "acc_ok s' \<and> stamp_step k s s'"
proof -
  obtain q where q: "expense_categories s' = expense_categories s @ [q]" "accounting_mapping_rules s' = accounting_mapping_rules s"
    "accounting_rule_sets s' = accounting_rule_sets s" "accounting_suggestions s' = accounting_suggestions s"
    and fresh: "\<not> row_exists (\<lambda>p. ec_id p = ec_id q) (expense_categories s)"
    using assms(1) by (auto simp: CreateCategory_def insert_category_def Let_def split: sum.splits if_splits)
  have "ec_id q \<notin> ec_id ` set (expense_categories s)" using fresh by (auto simp: row_exists_iff)
  then have "acc_ok s'" using assms(2) by (auto simp: acc_ok_def q list_all_iff row_exists_iff)
  moreover have "stamp_step k s s'" by (auto simp: stamp_step_def rule_version_of_def rule_content_def content_covers_def q)
  ultimately show ?thesis ..
qed

text \<open>A category is changed in one organization, whose rules are stamped.\<close>

lemma category_step:
  assumes "update_category sv P f s = Inr (i, t)" "\<And>c. P c \<Longrightarrow> ec_org c = org"
    and f: "\<And>c. ec_org (f c) = ec_org c" "\<And>c. ec_id (f c) = ec_id c"
    and "s' = auditTenant org user ev ty j now (bump_rules org t)" "acc_ok s"
  shows "acc_ok s' \<and> stamp_step k s s'"
proof -
  have t: "t = s\<lparr>expense_categories := sql_update P f (expense_categories s)\<rparr>"
    using assms(1) by (auto simp: update_category_def split: option.splits if_splits)
  have ids: "map ec_id (sql_update P f rows) = map ec_id rows" for rows by (simp add: map_sql_update f)
  have exists: "row_exists (\<lambda>c. ec_org c = a \<and> ec_id c = b) (sql_update P f rows)
      = row_exists (\<lambda>c. ec_org c = a \<and> ec_id c = b) rows" for a b rows
    by (induction rows) (simp_all add: f)
  have "acc_ok s'" using assms(6) by (auto simp: acc_ok_def assms(5) bump_rules_exists list_all_iff t ids exists)
  moreover have version: "rule_version_of s' k = rule_version_of s k + (if k = org then 1 else 0)"
    using bump_rules_version [of org t k] by (simp add: assms(5) t rule_version_of_def auditTenant_def)
  moreover have "rule_content k s' = rule_content k s" if "k \<noteq> org"
  proof -
    have "c \<in> set (sql_update P f (expense_categories s)) \<and> ec_org c = k \<longleftrightarrow> c \<in> set (expense_categories s) \<and> ec_org c = k" for c
      using that assms(2) f by (force simp: set_sql_update split: if_splits)
    then have "{(ec_id c, ec_name c, ec_archived_at c) |c. c \<in> set (sql_update P f (expense_categories s)) \<and> ec_org c = k}
        = {(ec_id c, ec_name c, ec_archived_at c) |c. c \<in> set (expense_categories s) \<and> ec_org c = k}" by blast
    then show ?thesis by (simp add: rule_content_def assms(5) t)
  qed
  ultimately show ?thesis by (cases "k = org") (simp_all add: stamp_step_def)
qed

lemma SetCategoryArchived_step:
  assumes "SetCategoryArchived sv user org i archived now s = Inr (u, s')" "acc_ok s"
  shows "acc_ok s' \<and> stamp_step k s s'"
proof -
  obtain j t where t: "update_category sv (\<lambda>c. ec_org c = org \<and> ec_id c = i \<and> (ec_archived_at c = None) = archived)
        (\<lambda>c. c\<lparr>ec_archived_at := (if archived then Some now else None), ec_updated_at := now\<rparr>) s = Inr (j, t)"
    "s' = auditTenant org user (if archived then ''accounting.category.archive'' else ''accounting.category.restore'')
       ''expense_category'' i now (bump_rules org t)"
    using assms(1) by (auto simp: SetCategoryArchived_def split: sum.splits if_splits)
  show ?thesis by (rule category_step [OF t(1) _ _ _ t(2) assms(2)]) auto
qed

lemma RenameCategory_step:
  assumes "RenameCategory sv user org i text now s = Inr (u, s')" "acc_ok s"
  shows "acc_ok s' \<and> stamp_step k s s'"
proof -
  obtain j t where t: "update_category sv (\<lambda>c. ec_org c = org \<and> ec_id c = i \<and> ec_archived_at c = None \<and> ec_name c \<noteq> TrimSpace text)
        (\<lambda>c. c\<lparr>ec_name := TrimSpace text, ec_updated_at := now\<rparr>) s = Inr (j, t)"
    "s' = auditTenant org user ''accounting.category.rename'' ''expense_category'' i now (bump_rules org t)"
    using assms(1) by (auto simp: RenameCategory_def Let_def split: sum.splits if_splits)
  show ?thesis by (rule category_step [OF t(1) _ _ _ t(2) assms(2)]) auto
qed

lemma CreateRule_step:
  assumes "CreateRule x s = Inr (r, s')" "acc_ok s"
  shows "acc_ok s' \<and> stamp_step k s s'"
proof -
  let ?q = "\<lparr>ru_id = ru_in_id x, ru_org = ru_in_org x, ru_vendor = ru_in_vendor x, ru_document_type = ru_in_document_type x,
      ru_category = ru_in_category x, ru_version = rule_version_of (bump_rules (ru_in_org x) s) (ru_in_org x),
      ru_approved_by = ru_in_actor x, ru_approved_at = ru_in_at x, ru_retired_at = None\<rparr>"
  have s': "s' = auditTenant (ru_in_org x) (ru_in_actor x) ''accounting.rule.approve'' ''accounting_rule'' (ru_in_id x) (ru_in_at x)
      ((bump_rules (ru_in_org x) s)\<lparr>accounting_mapping_rules := accounting_mapping_rules s @ [?q]\<rparr>)"
    and active: "row_exists (active_category (ru_in_org x) (ru_in_category x)) (expense_categories s)"
    using assms(1) by (auto simp: CreateRule_def Let_def split: if_splits)
  have q: "row_exists (\<lambda>c. ec_org c = ru_in_org x \<and> ec_id c = ru_in_category x) (expense_categories s)"
    using active by (auto simp: active_category_def row_exists_iff)
  have "acc_ok s'" using assms(2) q by (auto simp: acc_ok_def s' bump_rules_exists list_all_iff)
  moreover have "rule_version_of s' k = rule_version_of s k + (if k = ru_in_org x then 1 else 0)"
    using bump_rules_version [of "ru_in_org x" s k] by (simp add: s' rule_version_of_def auditTenant_def)
  moreover have "rule_content k s' = rule_content k s" if "k \<noteq> ru_in_org x"
    using that by (simp add: rule_content_def s')
  ultimately show ?thesis by (cases "k = ru_in_org x") (simp_all add: stamp_step_def)
qed

lemma RetireRule_step:
  assumes "RetireRule user org i now s = Inr (u, s')" "acc_ok s"
  shows "acc_ok s' \<and> stamp_step k s s'"
proof -
  let ?mine = "\<lambda>r. ru_org r = org \<and> ru_id r = i \<and> ru_retired_at r = None"
  have mine: "row_exists ?mine (accounting_mapping_rules s)"
    and s': "accounting_mapping_rules s' = sql_update ?mine (\<lambda>r. r\<lparr>ru_retired_at := Some now\<rparr>) (accounting_mapping_rules s)"
      "accounting_rule_sets s' = sql_update (\<lambda>r. rs_org r = org) (\<lambda>r. r\<lparr>rs_version := rs_version r + 1\<rparr>) (accounting_rule_sets s)"
      "expense_categories s' = expense_categories s" "accounting_suggestions s' = accounting_suggestions s"
    using assms(1) by (auto simp: RetireRule_def Let_def split: if_splits)
  have set: "row_exists (\<lambda>q. rs_org q = org) (accounting_rule_sets s)"
    using mine assms(2) by (force simp: row_exists_iff acc_ok_def list_all_iff)
  have bump: "accounting_rule_sets s' = accounting_rule_sets (bump_rules org s)" using set by (simp add: s' bump_rules_def)
  have version: "rule_version_of s' k = rule_version_of s k + (if k = org then 1 else 0)"
    using bump_rules_version [of org s k] by (simp add: rule_version_of_def bump)
  have "acc_ok s'" using assms(2) by (auto simp: acc_ok_def s'(1,3,4) bump bump_rules_exists list_all_iff set_sql_update)
  moreover have "rule_content k s' = rule_content k s" if "k \<noteq> org"
  proof -
    have "filter (\<lambda>r. ru_org r = k \<and> ru_retired_at r = None) (sql_update ?mine (\<lambda>r. r\<lparr>ru_retired_at := Some now\<rparr>) rows)
        = filter (\<lambda>r. ru_org r = k \<and> ru_retired_at r = None) rows" for rows
      using that by (induction rows) auto
    then show ?thesis by (simp add: rule_content_def s')
  qed
  ultimately show ?thesis using version by (cases "k = org") (simp_all add: stamp_step_def)
qed

lemma current_suggestion_doc: "current_suggestion org doc = (\<lambda>a. suggestion_doc a = (org, doc) \<and> sg_superseded_at a = None)"
  by (auto simp: current_suggestion_def suggestion_doc_def)

lemma suggestion_revision_length:
  "acc_ok s \<Longrightarrow> suggestion_revision s (org, doc) = int (length (revisions suggestion_doc (org, doc) (accounting_suggestions s)))"
  unfolding acc_ok_def suggestion_revision_def current_suggestion_doc prod.case
  by (rule suggestion_table.current_number) simp

lemma new_suggestion_simps [simp]:
  "sg_id (new_suggestion x n name code) = ap_id x" "suggestion_doc (new_suggestion x n name code) = (ap_org x, ap_document x)"
  "sg_revision (new_suggestion x n name code) = n" "sg_superseded_at (new_suggestion x n name code) = None"
  by (simp_all add: new_suggestion_def suggestion_doc_def)

lemma ApproveE:
  assumes "Approve accepts x s = Inr (a, s')"
  obtains e c code where "query_row (source_review (ap_org x) (ap_document x) s) (document_extraction_reviews s) = Some e"
    "er_id e = ap_review x" "er_revision e = ap_review_revision x" "rule_version_of s (ap_org x) = ap_rule_set_version x"
    "query_row (active_category (ap_org x) (ap_category x)) (expense_categories s) = Some c" "vendor_code x s = Some code"
    "rule_unchanged x s" "suggestion_revision s (ap_org x, ap_document x) = ap_expected x"
    "manager_here (ap_actor x) (ap_org x) s"
    "a = approval_of x (ap_expected x + 1) (ec_name c) code" "ap_id x \<notin> sg_id ` set (accounting_suggestions s)"
    "s' = s\<lparr>accounting_suggestions := close_current sg_id (close_suggestion (ap_at x))
             (query_row (current_suggestion (ap_org x) (ap_document x)) (accounting_suggestions s)) (accounting_suggestions s)
             @ [new_suggestion x (ap_expected x + 1) (ec_name c) code],
            audit_events := audit_events s @ [approve_audit x (ap_expected x)]\<rparr>"
proof -
  obtain e c code where g: "query_row (source_review (ap_org x) (ap_document x) s) (document_extraction_reviews s) = Some e"
    "er_id e = ap_review x" "er_revision e = ap_review_revision x" "rule_version_of s (ap_org x) = ap_rule_set_version x"
    "query_row (active_category (ap_org x) (ap_category x)) (expense_categories s) = Some c" "vendor_code x s = Some code"
    "rule_unchanged x s" "manager_here (ap_actor x) (ap_org x) s" and written: "write_approval accepts x (ec_name c) code s = Inr (a, s')"
    using assms by (auto simp: Approve_def split: if_splits option.splits)
  let ?rows = "close_current sg_id (close_suggestion (ap_at x))
      (query_row (current_suggestion (ap_org x) (ap_document x)) (accounting_suggestions s)) (accounting_suggestions s)"
  have rev: "suggestion_revision s (ap_org x, ap_document x) = ap_expected x"
    using written by (auto simp: write_approval_def Let_def split: if_splits)
  then obtain s1 where ins: "insert_suggestion (new_suggestion x (ap_expected x + 1) (ec_name c) code) (s\<lparr>accounting_suggestions := ?rows\<rparr>) = Inr ((), s1)"
    "insert_review_audit accepts (approve_audit x (ap_expected x)) s1 = Inr ((), s')" "a = approval_of x (ap_expected x + 1) (ec_name c) code"
    using written by (auto simp: write_approval_def Let_def split: sum.splits)
  have "ap_id x \<notin> sg_id ` set ?rows" and s1: "s1 = s\<lparr>accounting_suggestions := ?rows @ [new_suggestion x (ap_expected x + 1) (ec_name c) code]\<rparr>"
    using ins(1) by (auto simp: insert_suggestion_def Let_def row_exists_iff split: if_splits)
  then have "ap_id x \<notin> sg_id ` set (accounting_suggestions s)" by (simp add: suggestion_table.close_idents)
  from that [OF g(1-7) rev g(8) ins(3) this] insert_review_auditD [OF ins(2)] s1 show thesis by simp
qed

lemma Approve_step:
  assumes "Approve accepts x s = Inr (a, s')" "acc_ok s"
  shows "acc_ok s' \<and> stamp_step k s s' \<and> (\<forall>org doc. suggestion_revision s' (org, doc)
     = suggestion_revision s (org, doc) + (if org = ap_org x \<and> doc = ap_document x then 1 else 0))"
  using assms(1)
proof (cases rule: ApproveE)
  case (1 e c code)
  let ?r = "new_suggestion x (ap_expected x + 1) (ec_name c) code"
  have rows: "revision_rows_ok sg_id suggestion_doc sg_revision sg_superseded_at (accounting_suggestions s)"
    using assms(2) by (simp add: acc_ok_def)
  note append = suggestion_table.append_revision [OF rows, of ?r "ap_at x", unfolded new_suggestion_simps, folded current_suggestion_doc]
  have "revision_rows_ok sg_id suggestion_doc sg_revision sg_superseded_at (accounting_suggestions s')
      \<and> (\<forall>k. length (revisions suggestion_doc k (accounting_suggestions s'))
         = length (revisions suggestion_doc k (accounting_suggestions s)) + (if k = (ap_org x, ap_document x) then 1 else 0))"
    using append suggestion_revision_length [OF assms(2), of "ap_org x" "ap_document x"] 1(8,11) by (simp add: 1(12))
  moreover from this have ok: "acc_ok s'" using assms(2) by (simp add: acc_ok_def 1(12))
  ultimately show ?thesis using suggestion_revision_length [OF assms(2)] suggestion_revision_length [OF ok] by (simp add: 1(12))
qed

section \<open>Runs of the accounting operations\<close>

datatype acc_op =
    NewCategory server id id category time
  | ArchiveCategory server id id id bool time
  | NameCategory server id id id string time
  | ApproveRule rule_input
  | DropRule id id id time
  | ApproveSuggestion bool approve_input

primrec acc_step :: "acc_op \<Rightarrow> store \<Rightarrow> store" where
  "acc_step (NewCategory sv user org c now) s = after s (CreateCategory sv user org c now s)"
| "acc_step (ArchiveCategory sv user org i archived now) s = after s (SetCategoryArchived sv user org i archived now s)"
| "acc_step (NameCategory sv user org i name now) s = after s (RenameCategory sv user org i name now s)"
| "acc_step (ApproveRule x) s = after s (CreateRule x s)"
| "acc_step (DropRule user org i now) s = after s (RetireRule user org i now s)"
| "acc_step (ApproveSuggestion accepts x) s = after s (Approve accepts x s)"

fun approve_commits :: "acc_op \<Rightarrow> store \<Rightarrow> ((id \<times> id) \<times> int) option" where
  "approve_commits (ApproveSuggestion accepts x) s =
     (case Approve accepts x s of Inl _ \<Rightarrow> None | Inr _ \<Rightarrow> Some ((ap_org x, ap_document x), ap_expected x))"
| "approve_commits _ s = None"

lemmas acc_steps = CreateCategory_step SetCategoryArchived_step RenameCategory_step CreateRule_step RetireRule_step

lemma acc_step_stamped: "acc_ok s \<Longrightarrow> acc_ok (acc_step c s) \<and> stamp_step org s (acc_step c s)"
  by (cases c; simp; rule after_invariant [where P = "\<lambda>t. acc_ok t \<and> stamp_step org s t" for org])
    (use acc_steps Approve_step in \<open>simp_all\<close>)

lemma category_step_suggestions [simp]:
  "update_category sv P f s = Inr (i, t) \<Longrightarrow> accounting_suggestions t = accounting_suggestions s"
  by (auto simp: update_category_def split: option.splits if_splits)

lemma acc_step_suggestions:
  "(\<And>accepts x. c \<noteq> ApproveSuggestion accepts x) \<Longrightarrow> accounting_suggestions (acc_step c s) = accounting_suggestions s"
proof (cases c)
  case NewCategory
  then show ?thesis by (auto simp: after_def CreateCategory_def insert_category_def Let_def split: sum.splits if_splits)
next
  case ArchiveCategory
  then show ?thesis by (auto simp: after_def SetCategoryArchived_def split: sum.splits if_splits)
next
  case NameCategory
  then show ?thesis by (auto simp: after_def RenameCategory_def Let_def split: sum.splits if_splits)
next
  case ApproveRule
  then show ?thesis by (auto simp: after_def CreateRule_def Let_def split: sum.splits if_splits)
next
  case DropRule
  then show ?thesis by (auto simp: after_def RetireRule_def Let_def split: sum.splits if_splits)
next
  case (ApproveSuggestion accepts x)
  moreover assume "\<And>accepts x. c \<noteq> ApproveSuggestion accepts x"
  ultimately show ?thesis by blast
qed

lemma approve_commitsE:
  assumes "approve_commits c s = Some (k, e)"
  obtains accepts x a s' where "c = ApproveSuggestion accepts x" "k = (ap_org x, ap_document x)" "e = ap_expected x"
    "Approve accepts x s = Inr (a, s')" "acc_step c s = s'"
  using assms by (cases c) (auto split: sum.splits)

interpretation suggestion_revisions: revision_log acc_ok suggestion_revision acc_step approve_commits
proof
  fix s c and k :: "id \<times> id" and e :: int
  assume ok: "acc_ok s"
  show "acc_ok (acc_step c s)" using acc_step_stamped [OF ok] by simp
  show "suggestion_revision s k = e" if "approve_commits c s = Some (k, e)"
    using that
  proof (cases rule: approve_commitsE)
    case (1 accepts x a s')
    then show ?thesis by (auto elim: ApproveE)
  qed
  show "e < suggestion_revision (acc_step c s) k" if "approve_commits c s = Some (k, e)"
    using that
  proof (cases rule: approve_commitsE)
    case (1 accepts x a s')
    have "suggestion_revision s k = e" using 1 by (auto elim: ApproveE)
    then show ?thesis using Approve_step [OF 1(4) ok] 1 by simp
  qed
  show "suggestion_revision s k \<le> suggestion_revision (acc_step c s) k"
  proof (cases "\<exists>accepts x. c = ApproveSuggestion accepts x")
    case True
    then obtain accepts x where c: "c = ApproveSuggestion accepts x" by blast
    show ?thesis
    proof (cases "Approve accepts x s")
      case (Inr r)
      then show ?thesis using Approve_step [OF _ ok, of accepts x "fst r" "snd r"] by (cases k) (simp add: c after_def split_beta)
    qed (simp add: c)
  next
    case False
    then show ?thesis using acc_step_suggestions [of c s] by (simp add: suggestion_revision_def)
  qed
qed

interpretation rule_stamp: version_stamp acc_ok "\<lambda>s. rule_version_of s org" "rule_content org" content_covers acc_step for org
  by unfold_locales (use acc_step_stamped in \<open>auto simp: stamp_step_def content_covers_def\<close>)

section \<open>Properties\<close>

lemma rules_unchanged:
  assumes s: "acc_ok s" and t: "acc_ok t" and covers: "content_covers (rule_content org s) (rule_content org t)"
  shows "rules_for org vendor type t = rules_for org vendor type s"
proof -
  have rules: "filter (\<lambda>r. ru_org r = org \<and> ru_retired_at r = None) (accounting_mapping_rules t)
      = filter (\<lambda>r. ru_org r = org \<and> ru_retired_at r = None) (accounting_mapping_rules s)"
    using covers by (simp add: content_covers_def rule_content_def)
  have kept: "\<exists>d \<in> set (expense_categories t). ec_org d = org \<and> ec_id d = ec_id c \<and> ec_archived_at d = ec_archived_at c"
    if "c \<in> set (expense_categories s)" "ec_org c = org" for c
  proof -
    have "(ec_id c, ec_name c, ec_archived_at c) \<in> snd (rule_content org t)"
      using covers that by (auto simp: content_covers_def rule_content_def)
    then show ?thesis by (auto simp: rule_content_def)
  qed
  have active: "row_exists (active_category org (ru_category r)) (expense_categories t)
      = row_exists (active_category org (ru_category r)) (expense_categories s)"
    if r: "r \<in> set (accounting_mapping_rules s)" "ru_org r = org" for r
  proof -
    obtain c where c: "c \<in> set (expense_categories s)" "ec_org c = org" "ec_id c = ru_category r"
      using s r by (auto simp: acc_ok_def list_all_iff row_exists_iff)
    obtain d where d: "d \<in> set (expense_categories t)" "ec_org d = org" "ec_id d = ru_category r" "ec_archived_at d = ec_archived_at c"
      using kept [OF c(1,2)] c(3) by auto
    have only: "row_exists (active_category org i) rows \<longleftrightarrow> ec_archived_at c = None"
      if "distinct (map ec_id rows)" "c \<in> set rows" "ec_org c = org" "ec_id c = i" for rows :: "category_row list" and c i
      using that by (induction rows) (auto simp: active_category_def row_exists_iff image_iff)
    have "distinct (map ec_id (expense_categories s))" "distinct (map ec_id (expense_categories t))"
      using s t by (simp_all add: acc_ok_def)
    then show ?thesis using only [of _ c] only [of _ d] c d by simp
  qed
  let ?P = "\<lambda>s r. ru_org r = org \<and> ru_vendor r = vendor \<and> ru_retired_at r = None \<and> (ru_document_type r = [] \<or> ru_document_type r = type)
    \<and> row_exists (active_category (ru_org r) (ru_category r)) (expense_categories s)"
  have through: "filter (?P u) rows = filter (?P u) (filter (\<lambda>r. ru_org r = org \<and> ru_retired_at r = None) rows)" for u rows
    by (induction rows) auto
  have "filter (?P t) (accounting_mapping_rules t) = filter (?P t) (filter (\<lambda>r. ru_org r = org \<and> ru_retired_at r = None) (accounting_mapping_rules s))"
    by (subst through) (simp only: rules)
  also have "\<dots> = filter (?P s) (accounting_mapping_rules s)"
    by (subst through [of s]) (rule filter_cong [OF refl], use active in auto)
  finally show ?thesis by (simp add: rules_for_def)
qed

lemma evaluation_version: "Evaluate org x s = Inr ev \<Longrightarrow> ev_rule_set_version ev = rule_version_of s org"
  by (auto simp: Evaluate_def Let_def suggested_def add_warning_def approved_evaluation_def split: option.splits if_splits)

definition demo_accounting :: store where
  "demo_accounting = after demo_rev (SaveReview True (demo_review ''r1'' 0) 0 demo_rev)
     \<lparr>business_contacts := [\<lparr>bc_id = ''v1'', bc_org = ''o1'', bc_display_name = ''Fuel Co'', bc_normalized_name = ''fuel co'',
        bc_code = ''F1'', bc_country = ''TH'', bc_tax_id = ''0105536000315'', bc_branch = ''00000'', bc_customer = False,
        bc_vendor = True, bc_preview = None, bc_archived_at = None, bc_created_at = 1, bc_updated_at = 1\<rparr>],
      expense_categories := [\<lparr>ec_id = ''c1'', ec_org = ''o1'', ec_name = ''Fuel'', ec_archived_at = None, ec_created_at = 1,
        ec_updated_at = 1\<rparr>]\<rparr>"

definition demo_vendor_rule :: rule_input where
  "demo_vendor_rule = \<lparr>ru_in_id = ''u9'', ru_in_actor = ''u1'', ru_in_org = ''o1'', ru_in_vendor = ''v1'', ru_in_document_type = ''invoice'',
     ru_in_category = ''c1'', ru_in_at = 20\<rparr>"

definition demo_valued :: valued_review where
  "demo_valued = review.extend ((demo_review ''r1'' 0)\<lparr>rv_revision := 1\<rparr>)
     \<lparr>rv_document_type = ''invoice'', rv_values = Some [(''seller_tax_id'', ''0105536000315''), (''seller_branch'', ''00000'')]\<rparr>"

definition demo_approve :: "id \<Rightarrow> approve_input" where
  "demo_approve i = \<lparr>ap_id = i, ap_actor = ''u1'', ap_org = ''o1'', ap_document = demo_uuid (CHR ''a''), ap_review = ''r1'',
     ap_review_revision = 1, ap_rule_set_version = 1, ap_category = ''c1'', ap_vendor = ''v1'', ap_rule = ''u9'', ap_rule_version = 1,
     ap_basis = ''approved_vendor_document_type'', ap_reason = [], ap_expected = 0, ap_at = 30, ap_request = ''q''\<rparr>"

abbreviation demo_ruled :: store where "demo_ruled \<equiv> acc_step (ApproveRule demo_vendor_rule) demo_accounting"

abbreviation demo_travel :: acc_op where
  "demo_travel \<equiv> NewCategory demo_server ''u1'' ''o1'' \<lparr>ca_id = ''c2'', ca_name = ''Travel'', ca_archived_at = None\<rparr> 25"

lemma demo_accounting_ok: "acc_ok demo_ruled"
proof -
  have "accounting_suggestions demo_accounting = []" "accounting_mapping_rules demo_accounting = []"
    "distinct (map ec_id (expense_categories demo_accounting))" by code_simp+
  then have "acc_ok demo_accounting" by (simp add: acc_ok_def)
  then show ?thesis by (rule suggestion_revisions.ok_step)
qed

text \<open>\<^bold>\<open>C29.\<close> An approval is of what the approver was shown.  A client evaluates a review, any accounting operations follow, of
  this or of other organizations, and then an approval that names the evaluation's rule version commits: at that moment every
  vendor and document type still has the rules it had at the evaluation, so that the suggestion computed from them is the
  same, and every category the evaluation saw has kept its name and is as active as it was.\<close>

theorem approval_sees_rules:
  assumes "acc_ok s" "Evaluate org x s = Inr ev"
    and "Approve accepts a (fold acc_step ops s) = Inr (r, s')" "ap_org a = org" "ap_rule_set_version a = ev_rule_set_version ev"
  shows "Suggest vendor type (rules_for org vendor type (fold acc_step ops s)) = Suggest vendor type (rules_for org vendor type s)
    \<and> {(ec_id c, ec_name c, ec_archived_at c) |c. c \<in> set (expense_categories s) \<and> ec_org c = org}
        \<subseteq> {(ec_id c, ec_name c, ec_archived_at c) |c. c \<in> set (expense_categories (fold acc_step ops s)) \<and> ec_org c = org}"
proof -
  let ?t = "fold acc_step ops s"
  have "rule_version_of ?t org = ap_rule_set_version a" using assms(3,4) by (auto elim: ApproveE)
  then have same: "content_covers (rule_content org s) (rule_content org ?t)"
    using rule_stamp.same_version [OF assms(1)] assms(5) evaluation_version [OF assms(2)] by metis
  have "acc_ok ?t" using suggestion_revisions.ok_run [OF assms(1)] .
  then show ?thesis using rules_unchanged [OF assms(1) _ same] same by (simp add: content_covers_def rule_content_def)
qed

theorem approval_sees_rules_witness:
  "cd_category (Suggest ''v1'' ''invoice'' (rules_for ''o1'' ''v1'' ''invoice'' demo_ruled)) = ''c1''
   \<and> Suggest ''v1'' ''invoice'' (rules_for ''o1'' ''v1'' ''invoice'' (fold acc_step [demo_travel] demo_ruled))
     = Suggest ''v1'' ''invoice'' (rules_for ''o1'' ''v1'' ''invoice'' demo_ruled)"
proof -
  let ?ev = "Evaluate ''o1'' demo_valued demo_ruled" and ?run = "Approve True (demo_approve ''a1'') (fold acc_step [demo_travel] demo_ruled)"
  have "map_sum id ev_rule_set_version ?ev = Inr 1" "\<not> isl ?run"
    "cd_category (Suggest ''v1'' ''invoice'' (rules_for ''o1'' ''v1'' ''invoice'' demo_ruled)) = ''c1''"
    by code_simp+
  moreover from this obtain ev r s' where "?ev = Inr ev" "ev_rule_set_version ev = 1" "?run = Inr (r, s')"
    by (cases ?ev; cases ?run) auto
  ultimately show ?thesis
    using approval_sees_rules [OF demo_accounting_ok, of "''o1''" demo_valued ev True "demo_approve ''a1''" "[demo_travel]" r s'
        "''v1''" "''invoice''"]
    by (simp add: demo_approve_def del: fold_simps)
qed

text \<open>No approval is lost.  Of all the approvals of a document that name the same prior approval at most one commits,
  whatever runs in between.\<close>

theorem one_approval_per_revision:
  assumes "acc_ok s" "approve_commits c s = Some (k, e)"
  shows "approve_commits d (fold acc_step cs (acc_step c s)) \<noteq> Some (k, e)"
  using suggestion_revisions.at_most_one_commit [OF assms] .

theorem one_approval_per_revision_witness:
  "approve_commits (ApproveSuggestion True (demo_approve ''a2''))
     (fold acc_step [demo_travel] (acc_step (ApproveSuggestion True (demo_approve ''a1'')) demo_ruled))
     \<noteq> Some ((''o1'', demo_uuid (CHR ''a'')), 0)"
proof (rule one_approval_per_revision [OF demo_accounting_ok])
  show "approve_commits (ApproveSuggestion True (demo_approve ''a1'')) demo_ruled = Some ((''o1'', demo_uuid (CHR ''a'')), 0)"
    by code_simp
qed

end
