(* ===== verification/Business.thy ===== *)
theory Business
  imports Spreadsheet WorkReads Accounting
begin

text \<open>
  The vendors of an organization: src/api/internal/postgres/business.go over the tables \<^verbatim>\<open>business_contacts\<close> and
  \<^verbatim>\<open>business_import_previews\<close> of migration 000004.  A file is imported in two steps: a preview marks the rows that repeat a
  vendor, and the commit of the preview inserts the others.

  The server's \<^verbatim>\<open>lower\<close> is \<^verbatim>\<open>lower_text\<close> of \<^verbatim>\<open>server\<close>, Go's case tables are \<open>casing\<close>; \<open>stamp\<close> and
  \<open>parse\<close> are the layout in which \<^verbatim>\<open>encoding/json\<close> writes and reads times, \<open>as_uuid\<close> how the driver reads a uuid, and
  \<open>fresh\<close> the ids that \<^verbatim>\<open>postgresUUID\<close> returns.  Texts are ordered by their bytes.
\<close>

section \<open>Text\<close>

text \<open>\<^verbatim>\<open>json.Marshal\<close> writes the runes of a text, U+FFFD for each invalid byte; the server accepts a text when it is UTF-8,
  the bytes of its own runes, and holds no zero byte.\<close>

definition json_utf8 :: "string \<Rightarrow> string" where
  "json_utf8 v = concat (map (\<lambda>(r, w). encode_rune r) (runes v))"

definition server_text :: "string \<Rightarrow> bool" where
  "server_text v = (json_utf8 v = v \<and> NUL \<notin> set v)"

definition invalid_bytes :: err where "invalid_bytes = OtherError ''invalid byte sequence for encoding UTF8''"

text \<open>\<^verbatim>\<open>LIKE\<close> on the characters of a pattern and a text: \<^verbatim>\<open>%\<close> matches any characters, \<^verbatim>\<open>_\<close> one, and a backslash quotes.\<close>

fun like :: "nat list \<Rightarrow> nat list \<Rightarrow> bool" where
  "like [] t = (t = [])"
| "like (p # ps) t =
     (if p = 37 then like ps t \<or> (case t of [] \<Rightarrow> False | _ # ts \<Rightarrow> like (p # ps) ts)
      else case t of
        [] \<Rightarrow> False
      | c # ts \<Rightarrow>
          if p = 95 then like ps ts
          else if p = 92 then (case ps of [] \<Rightarrow> False | q # qs \<Rightarrow> q = c \<and> like qs ts)
          else p = c \<and> like ps ts)"

definition like_text :: "string \<Rightarrow> string \<Rightarrow> bool" where
  "like_text v pattern = like (map fst (runes pattern)) (map fst (runes v))"

section \<open>The table of contacts\<close>

definition contact_check :: "contact_row \<Rightarrow> bool" where
  "contact_check c =
     (1 \<le> rune_count (btrim (bc_display_name c)) \<and> rune_count (btrim (bc_display_name c)) \<le> 240
      \<and> 1 \<le> rune_count (bc_normalized_name c) \<and> rune_count (bc_normalized_name c) \<le> 240
      \<and> rune_count (bc_code c) \<le> 64 \<and> iso_country (bc_country c) \<and> rune_count (bc_tax_id c) \<le> 64
      \<and> rune_count (bc_branch c) \<le> 32 \<and> (bc_customer c \<or> bc_vendor c))"

definition contact_text :: "contact_row \<Rightarrow> bool" where
  "contact_text c = list_all server_text [bc_display_name c, bc_normalized_name c, bc_code c, bc_country c, bc_tax_id c, bc_branch c]"

text \<open>The primary key and the two partial unique indexes.\<close>

definition contact_id :: "contact_row \<Rightarrow> id option" where "contact_id c = Some (bc_id c)"

definition tax_key :: "contact_row \<Rightarrow> (id \<times> string \<times> string \<times> string) option" where
  "tax_key c = (if bc_tax_id c = [] then None else Some (bc_org c, bc_country c, bc_tax_id c, bc_branch c))"

definition code_key :: "server \<Rightarrow> contact_row \<Rightarrow> (id \<times> string) option" where
  "code_key sv c = (if bc_code c = [] then None else Some (bc_org c, lower_text sv (bc_code c)))"

definition contact_conflict :: "server \<Rightarrow> contact_row \<Rightarrow> contact_row list \<Rightarrow> bool" where
  "contact_conflict sv c rows = (conflicts contact_id c rows \<or> conflicts tax_key c rows \<or> conflicts (code_key sv) c rows)"

definition contact_error :: "contact_row \<Rightarrow> err option" where
  "contact_error c =
     (if \<not> contact_text c then Some invalid_bytes
      else if \<not> contact_check c then Some (CheckViolation ''business_contacts'') else None)"

definition insert_contact :: "server \<Rightarrow> contact_row \<Rightarrow> contact_row list \<Rightarrow> contact_row list result" where
  "insert_contact sv c rows =
     (case contact_error c of
        Some e \<Rightarrow> Inl e
      | None \<Rightarrow> if contact_conflict sv c rows then Inl (UniqueViolation ''business_contacts'') else Inr (rows @ [c]))"

text \<open>\<^verbatim>\<open>INSERT ... ON CONFLICT DO NOTHING\<close>: the rows in turn, without those that repeat a key.\<close>

fun insert_new :: "server \<Rightarrow> contact_row list \<Rightarrow> contact_row list \<Rightarrow> contact_row list result" where
  "insert_new sv [] rows = Inr rows"
| "insert_new sv (c # cs) rows =
     (case contact_error c of
        Some e \<Rightarrow> Inl e
      | None \<Rightarrow> insert_new sv cs (if contact_conflict sv c rows then rows else rows @ [c]))"

definition contact_row_of :: "id \<Rightarrow> id \<Rightarrow> id option \<Rightarrow> time \<Rightarrow> contact \<Rightarrow> contact_row" where
  "contact_row_of i org preview now c =
     \<lparr>bc_id = i, bc_org = org, bc_display_name = vc_display_name c, bc_normalized_name = vc_normalized_name c, bc_code = vc_code c,
      bc_country = vc_country c, bc_tax_id = vc_tax_id c, bc_branch = vc_branch c, bc_customer = vc_customer c, bc_vendor = True,
      bc_preview = preview, bc_archived_at = None, bc_created_at = now, bc_updated_at = now\<rparr>"

definition scanBusinessContact :: "contact_row \<Rightarrow> contact" where
  "scanBusinessContact c =
     \<lparr>vc_id = bc_id c, vc_org = bc_org c, vc_display_name = bc_display_name c, vc_normalized_name = bc_normalized_name c,
      vc_code = bc_code c, vc_country = bc_country c, vc_tax_id = bc_tax_id c, vc_branch = bc_branch c,
      vc_customer = bc_customer c, vc_vendor = bc_vendor c, vc_archived_at = bc_archived_at c, vc_created_at = bc_created_at c\<rparr>"

section \<open>One vendor\<close>

definition CreateVendor :: "server \<Rightarrow> id \<Rightarrow> id \<Rightarrow> contact \<Rightarrow> time \<Rightarrow> (contact, store) txn" where
  "CreateVendor sv user org c now s =
     (if \<not> manager_here user org s then Inl Business_ErrForbidden
      else
        let row = contact_row_of (vc_id c) org None now c in
        case insert_contact sv row (business_contacts s) of
          Inl e \<Rightarrow> Inl (if duplicateDatabaseError e then Business_ErrDuplicate else e)
        | Inr rows \<Rightarrow>
            Inr (scanBusinessContact row, auditTenant org user ''business_contact.create'' ''business_contact'' (vc_id c) now
                   (s\<lparr>business_contacts := rows\<rparr>)))"

section \<open>Lists\<close>

definition encodeBusinessCursor :: "string \<Rightarrow> id \<Rightarrow> string" where
  "encodeBusinessCursor name i = EncodeToString (name @ NUL # i)"

definition decodeBusinessCursor :: "string \<Rightarrow> (string \<times> string) option" where
  "decodeBusinessCursor v =
     (if v = [] then Some ([], [])
      else case DecodeString v of
        None \<Rightarrow> None
      | Some decoded \<Rightarrow> (case split2 NUL decoded of [name, i] \<Rightarrow> Some (name, i) | _ \<Rightarrow> None))"

definition mask_tax :: "string \<Rightarrow> string" where
  "mask_tax v = (if v = [] then [] else ''*********'' @ concat (map snd (drop (rune_count v - 4) (runes v))))"

definition vendor_matches :: "server \<Rightarrow> bool \<Rightarrow> string \<Rightarrow> contact_row \<Rightarrow> bool" where
  "vendor_matches sv manager search c =
     (search = [] \<or> like_text (bc_normalized_name c) (lower_text sv search @ ''%'')
      \<or> like_text (lower_text sv (bc_code c)) (lower_text sv search @ ''%'') \<or> (manager \<and> bc_tax_id c = search))"

text \<open>\<^verbatim>\<open>(normalized_name,id) > ($3,$4::uuid)\<close>: with no id only the names after the cursor's are after it.\<close>

definition after_vendor :: "string \<Rightarrow> id option \<Rightarrow> contact_row \<Rightarrow> bool" where
  "after_vendor name i c =
     (name = [] \<or> bc_normalized_name c > name \<or> (bc_normalized_name c = name \<and> (case i of None \<Rightarrow> False | Some d \<Rightarrow> bc_id c > d)))"

definition vendor_order :: "contact_row list \<Rightarrow> contact_row list" where
  "vendor_order rows = sort_key (\<lambda>c. (bc_normalized_name c, bc_id c)) rows"

definition ListVendors :: "server \<Rightarrow> (string \<Rightarrow> id option) \<Rightarrow> id \<Rightarrow> id \<Rightarrow> string \<Rightarrow> string \<Rightarrow> nat \<Rightarrow> store \<Rightarrow> (contact list \<times> string) result" where
  "ListVendors sv as_uuid user org search cursor limit s =
     (case currentRole user org s of
        Inl _ \<Rightarrow> Inl Business_ErrNotFound
      | Inr role \<Rightarrow>
          (case decodeBusinessCursor cursor of
             None \<Rightarrow> Inl Business_ErrInvalid
           | Some (name, i) \<Rightarrow>
               if i \<noteq> [] \<and> as_uuid i = None then Inl (OtherError ''invalid UUID'')
               else if \<not> server_text search \<or> \<not> server_text name then Inl invalid_bytes
               else
                 let manager = manager_role role;
                     shown = (\<lambda>c. if manager then scanBusinessContact c else (scanBusinessContact c)\<lparr>vc_tax_id := mask_tax (bc_tax_id c)\<rparr>);
                     rows = vendor_order (filter (\<lambda>c. bc_org c = org \<and> bc_vendor c \<and> bc_archived_at c = None
                              \<and> vendor_matches sv manager search c \<and> after_vendor name (if i = [] then None else as_uuid i) c) (business_contacts s))
                 in Inr (page_of limit (\<lambda>c. encodeBusinessCursor (vc_normalized_name c) (vc_id c)) (map shown (take (limit + 1) rows)))))"

definition ExportVendors :: "id \<Rightarrow> id \<Rightarrow> nat \<Rightarrow> store \<Rightarrow> contact list result" where
  "ExportVendors user org limit s =
     (if \<not> manager_here user org s then Inl Business_ErrForbidden
      else
        let contacts = map scanBusinessContact (take (limit + 1) (vendor_order (filter (\<lambda>c. bc_org c = org \<and> bc_vendor c) (business_contacts s))))
        in if length contacts > limit then Inl Business_ErrInvalid else Inr contacts)"

section \<open>Previews\<close>

record preview_line =
  pw_row :: int
  pw_status :: string
  pw_reason :: string
  pw_contact :: contact

record preview =
  pv_id :: id
  pv_org :: id
  pv_rows :: "preview_line list"
  pv_ready :: int
  pv_duplicates :: int
  pv_warnings :: int
  pv_errors :: int
  pv_expires_at :: time

definition duplicateKeys :: "casing \<Rightarrow> string \<Rightarrow> string \<Rightarrow> string \<Rightarrow> string \<Rightarrow> string list" where
  "duplicateKeys g country tax branch contact_code =
     (if tax \<noteq> [] then [''tax:'' @ country @ '':'' @ tax @ '':'' @ branch] else [])
     @ (if contact_code \<noteq> [] then [''code:'' @ to_lower g contact_code] else [])"

definition contact_keys :: "casing \<Rightarrow> contact \<Rightarrow> string list" where
  "contact_keys g c = duplicateKeys g (vc_country c) (vc_tax_id c) (vc_branch c) (vc_code c)"

definition row_keys :: "casing \<Rightarrow> contact_row \<Rightarrow> string list" where
  "row_keys g c = duplicateKeys g (bc_country c) (bc_tax_id c) (bc_branch c) (bc_code c)"

definition existingContactKeys :: "casing \<Rightarrow> server \<Rightarrow> id \<Rightarrow> contact list \<Rightarrow> store \<Rightarrow> string list result" where
  "existingContactKeys g sv org contacts s =
     (let codes = map (\<lambda>c. to_lower g (vc_code c)) contacts;
          taxes = map (\<lambda>c. (vc_country c, vc_tax_id c, vc_branch c)) contacts
      in if \<not> list_all (\<lambda>c. list_all server_text [vc_country c, vc_tax_id c, vc_branch c, to_lower g (vc_code c)]) contacts then Inl invalid_bytes
         else Inr (concat (map (row_keys g) (filter (\<lambda>c. bc_org c = org
             \<and> ((bc_tax_id c \<noteq> [] \<and> (bc_country c, bc_tax_id c, bc_branch c) \<in> set taxes)
                 \<or> (bc_code c \<noteq> [] \<and> lower_text sv (bc_code c) \<in> set codes))) (business_contacts s)))))"

text \<open>The loop over the contacts: \<open>seen\<close> holds the keys of the rows found ready so far.\<close>

fun preview_lines :: "casing \<Rightarrow> string list \<Rightarrow> string list \<Rightarrow> int \<Rightarrow> contact list \<Rightarrow> preview_line list" where
  "preview_lines g existing seen i [] = []"
| "preview_lines g existing seen i (c # cs) =
     (let keys = contact_keys g c; duplicate = list_ex (\<lambda>k. k \<in> set existing \<or> k \<in> set seen) keys in
      \<lparr>pw_row = i + 2, pw_status = (if duplicate then ''duplicate'' else ''ready''),
       pw_reason = (if duplicate then ''strong_duplicate'' else []), pw_contact = c\<rparr>
      # preview_lines g existing (if duplicate then seen else seen @ keys) (i + 1) cs)"

definition is_ready :: "preview_line \<Rightarrow> bool" where "is_ready l = (pw_status l = ''ready'')"

text \<open>The JSON of the rows; fields with \<^verbatim>\<open>omitempty\<close> are left out when empty.\<close>

definition json_omit :: "string \<Rightarrow> string \<Rightarrow> (string \<times> json) list" where
  "json_omit key v = (if v = [] then [] else [(key, JString (json_utf8 v))])"

definition encode_contact :: "(time \<Rightarrow> string) \<Rightarrow> contact \<Rightarrow> json" where
  "encode_contact stamp c =
     JObject ([(''id'', JString (json_utf8 (vc_id c)))] @ json_omit ''organization_id'' (vc_org c)
       @ [(''display_name'', JString (json_utf8 (vc_display_name c)))] @ json_omit ''contact_code'' (vc_code c)
       @ [(''country'', JString (json_utf8 (vc_country c)))] @ json_omit ''tax_id'' (vc_tax_id c) @ json_omit ''branch_code'' (vc_branch c)
       @ [(''customer'', JBool (vc_customer c)), (''vendor'', JBool (vc_vendor c))]
       @ (case vc_archived_at c of None \<Rightarrow> [] | Some t \<Rightarrow> [(''archived_at'', JString (stamp t))])
       @ [(''created_at'', JString (stamp (vc_created_at c)))])"

definition encode_line :: "(time \<Rightarrow> string) \<Rightarrow> preview_line \<Rightarrow> json" where
  "encode_line stamp l =
     JObject ([(''row'', JNumber (pw_row l)), (''status'', JString (pw_status l))] @ json_omit ''reason'' (pw_reason l)
       @ [(''contact'', encode_contact stamp (pw_contact l))])"

definition time_of_json :: "(string \<Rightarrow> time option) \<Rightarrow> json \<Rightarrow> time option" where
  "time_of_json parse j = (case j of JString v \<Rightarrow> parse v | _ \<Rightarrow> None)"

definition zero_contact :: contact where
  "zero_contact = \<lparr>vc_id = [], vc_org = [], vc_display_name = [], vc_normalized_name = [], vc_code = [], vc_country = [], vc_tax_id = [],
     vc_branch = [], vc_customer = False, vc_vendor = False, vc_archived_at = None, vc_created_at = zero_time\<rparr>"

definition decode_contact :: "(string \<Rightarrow> time option) \<Rightarrow> json \<Rightarrow> contact option" where
  "decode_contact parse j =
     (if \<not> is_object j then None
      else case (string_field ''id'' j, string_field ''organization_id'' j, string_field ''display_name'' j, string_field ''contact_code'' j,
                 string_field ''country'' j, string_field ''tax_id'' j, string_field ''branch_code'' j) of
        (Some i, Some org, Some name, Some ccode, Some country, Some tax, Some branch) \<Rightarrow>
          (case (decode_field bool_of_json False ''customer'' j, decode_field bool_of_json False ''vendor'' j,
                 decode_field (\<lambda>v. map_option Some (time_of_json parse v)) None ''archived_at'' j,
                 decode_field (time_of_json parse) zero_time ''created_at'' j) of
             (Some customer, Some vendor, Some archived, Some created) \<Rightarrow>
               Some \<lparr>vc_id = i, vc_org = org, vc_display_name = name, vc_normalized_name = [], vc_code = ccode, vc_country = country,
                     vc_tax_id = tax, vc_branch = branch, vc_customer = customer, vc_vendor = vendor, vc_archived_at = archived,
                     vc_created_at = created\<rparr>
           | _ \<Rightarrow> None)
      | _ \<Rightarrow> None)"

definition decode_line :: "(string \<Rightarrow> time option) \<Rightarrow> json \<Rightarrow> preview_line option" where
  "decode_line parse j =
     (if \<not> is_object j then None
      else case (int_field ''row'' j, string_field ''status'' j, string_field ''reason'' j, decode_field (decode_contact parse) zero_contact ''contact'' j) of
        (Some row, Some status, Some reason, Some c) \<Rightarrow> Some \<lparr>pw_row = row, pw_status = status, pw_reason = reason, pw_contact = c\<rparr>
      | _ \<Rightarrow> None)"

definition decode_rows :: "(string \<Rightarrow> time option) \<Rightarrow> json \<Rightarrow> preview_line list result" where
  "decode_rows parse j =
     (case j of
        JArray vs \<Rightarrow> collect_rows (\<lambda>v. case decode_line parse v of None \<Rightarrow> Inl (OtherError ''json'') | Some l \<Rightarrow> Inr l) vs
      | _ \<Rightarrow> Inl (OtherError ''json''))"

definition CreateImportPreview ::
  "casing \<Rightarrow> server \<Rightarrow> (time \<Rightarrow> string) \<Rightarrow> id \<Rightarrow> id \<Rightarrow> id \<Rightarrow> contact list \<Rightarrow> time \<Rightarrow> (preview, store) txn" where
  "CreateImportPreview g sv stamp user org preview_id contacts now s =
     (if \<not> manager_here user org s then Inl Business_ErrForbidden
      else case existingContactKeys g sv org contacts s of
        Inl e \<Rightarrow> Inl e
      | Inr existing \<Rightarrow>
          let lines = preview_lines g existing [] 0 contacts;
              p = \<lparr>pv_id = preview_id, pv_org = org, pv_rows = lines, pv_ready = count_where is_ready lines,
                   pv_duplicates = count_where (\<lambda>l. \<not> is_ready l) lines, pv_warnings = 0, pv_errors = 0, pv_expires_at = now + 24 * Hour\<rparr>
          in if lines = [] then Inl (CheckViolation ''business_import_previews'')
             else if row_exists (\<lambda>q. bi_id q = preview_id) (business_import_previews s) then Inl (UniqueViolation ''business_import_previews_pkey'')
             else Inr (p, auditTenant org user ''business_import.preview'' ''business_import'' preview_id now
                     (s\<lparr>business_import_previews := business_import_previews s @
                        [\<lparr>bi_id = preview_id, bi_org = org, bi_requester = user, bi_rows = JArray (map (encode_line stamp) lines),
                          bi_ready = pv_ready p, bi_duplicate = pv_duplicates p, bi_warning = 0, bi_error = 0, bi_status = ''Preview'',
                          bi_created_at = now, bi_expires_at = now + 24 * Hour, bi_committed_at = None\<rparr>]\<rparr>)))"

definition open_preview :: "id \<Rightarrow> id \<Rightarrow> time \<Rightarrow> preview_row \<Rightarrow> bool" where
  "open_preview org i now p = (bi_id p = i \<and> bi_org p = org \<and> bi_status p = ''Preview'' \<and> bi_expires_at p > now)"

definition GetImportPreview :: "(string \<Rightarrow> time option) \<Rightarrow> id \<Rightarrow> id \<Rightarrow> id \<Rightarrow> time \<Rightarrow> store \<Rightarrow> preview result" where
  "GetImportPreview parse user org i now s =
     (if \<not> manager_here user org s then Inl Business_ErrForbidden
      else case query_row (open_preview org i now) (business_import_previews s) of
        None \<Rightarrow> Inl Business_ErrExpired
      | Some p \<Rightarrow>
          (case decode_rows parse (bi_rows p) of
             Inl e \<Rightarrow> Inl e
           | Inr lines \<Rightarrow> Inr \<lparr>pv_id = bi_id p, pv_org = bi_org p, pv_rows = lines, pv_ready = bi_ready p, pv_duplicates = bi_duplicate p,
                                pv_warnings = bi_warning p, pv_errors = bi_error p, pv_expires_at = bi_expires_at p\<rparr>))"

section \<open>Commits\<close>

definition line_input :: "preview_line \<Rightarrow> vendor_input" where
  "line_input l = input_of (pw_contact l)"

definition import_rows :: "(nat \<Rightarrow> id) \<Rightarrow> id \<Rightarrow> id \<Rightarrow> time \<Rightarrow> contact list \<Rightarrow> contact_row list" where
  "import_rows fresh org i now contacts = map (\<lambda>(n, c). contact_row_of (fresh n) org (Some i) now c) (enumerate 0 contacts)"

definition CommitImport ::
  "casing \<Rightarrow> server \<Rightarrow> (string \<Rightarrow> time option) \<Rightarrow> (nat \<Rightarrow> id) \<Rightarrow> id \<Rightarrow> id \<Rightarrow> id \<Rightarrow> time \<Rightarrow> (nat \<times> nat, store) txn" where
  "CommitImport g sv parse fresh user org i now s =
     (if \<not> manager_here user org s then Inl Business_ErrForbidden
      else case query_row (\<lambda>p. open_preview org i now p \<and> bi_requester p = user) (business_import_previews s) of
        None \<Rightarrow> Inl Business_ErrExpired
      | Some p \<Rightarrow>
          (case decode_rows parse (bi_rows p) of
             Inl e \<Rightarrow> Inl e
           | Inr lines \<Rightarrow>
               (case collect_rows (\<lambda>l. NormalizeVendor g (line_input l)) (filter is_ready lines) of
                  Inl _ \<Rightarrow> Inl Business_ErrInvalid
                | Inr contacts \<Rightarrow>
                    (case insert_new sv (import_rows fresh org i now contacts) (business_contacts s) of
                       Inl e \<Rightarrow> Inl e
                     | Inr rows \<Rightarrow>
                         let created = length rows - length (business_contacts s);
                             skipped = length (filter (\<lambda>l. \<not> is_ready l) lines) + (length contacts - created)
                         in Inr ((created, skipped), auditTenant org user ''business_import.commit'' ''business_import'' i now
                              (s\<lparr>business_contacts := rows,
                                 business_import_previews := sql_update (\<lambda>q. bi_id q = i \<and> bi_org q = org)
                                   (\<lambda>q. q\<lparr>bi_status := ''Committed'', bi_committed_at := Some now\<rparr>) (business_import_previews s)\<rparr>))))))"

section \<open>The table keeps its keys\<close>

definition contacts_ok :: "server \<Rightarrow> contact_row list \<Rightarrow> bool" where
  "contacts_ok sv rows = (list_all contact_check rows \<and> unique_on contact_id rows \<and> unique_on tax_key rows \<and> unique_on (code_key sv) rows)"

lemma contact_error_None [simp]: "contact_error c = None \<longleftrightarrow> contact_text c \<and> contact_check c"
  by (simp add: contact_error_def)

lemma contacts_ok_append:
  "contacts_ok sv rows \<Longrightarrow> contact_error c = None \<Longrightarrow> \<not> contact_conflict sv c rows \<Longrightarrow> contacts_ok sv (rows @ [c])"
  by (auto simp: contacts_ok_def contact_conflict_def intro: unique_on_append1)

lemma insert_contact_ok: "contacts_ok sv rows \<Longrightarrow> insert_contact sv c rows = Inr rows' \<Longrightarrow> contacts_ok sv rows'"
  by (auto simp: insert_contact_def contacts_ok_append split: option.splits if_splits)

lemma insert_new_ok: "contacts_ok sv rows \<Longrightarrow> insert_new sv cs rows = Inr rows' \<Longrightarrow> contacts_ok sv rows'"
proof (induction cs arbitrary: rows)
  case (Cons c cs)
  then have "contact_error c = None" "insert_new sv cs (if contact_conflict sv c rows then rows else rows @ [c]) = Inr rows'"
    by (auto split: option.splits)
  moreover from this have "contacts_ok sv (if contact_conflict sv c rows then rows else rows @ [c])"
    using Cons.prems(1) contacts_ok_append by simp
  ultimately show ?case by (rule_tac Cons.IH)
qed simp

lemma insert_new_prefix: "insert_new sv cs rows = Inr rows' \<Longrightarrow> \<exists>added. rows' = rows @ added \<and> length added \<le> length cs"
proof (induction cs arbitrary: rows)
  case (Cons c cs)
  then obtain added where "rows' = (if contact_conflict sv c rows then rows else rows @ [c]) @ added" "length added \<le> length cs"
    by (auto split: option.splits)
  then show ?case by (cases "contact_conflict sv c rows") auto
qed simp

lemma insert_new_error: "c \<in> set cs \<Longrightarrow> contact_error c \<noteq> None \<Longrightarrow> isl (insert_new sv cs rows)"
  by (induction cs arbitrary: rows) (auto split: option.splits)

section \<open>Previews read back\<close>

lemma json_field_append: "json_field (JObject (xs @ ys)) k = json_field (JObject xs) k @ json_field (JObject ys) k"
  by simp

lemma json_field_omit: "json_field (JObject (json_omit key v)) k = (if v \<noteq> [] \<and> ascii_lower key = ascii_lower k then [JString (json_utf8 v)] else [])"
  by (simp add: json_omit_def)

lemma preview_keys:
  "ascii_lower ''id'' = ''id''" "ascii_lower ''organization_id'' = ''organization_id''" "ascii_lower ''display_name'' = ''display_name''"
  "ascii_lower ''contact_code'' = ''contact_code''" "ascii_lower ''country'' = ''country''" "ascii_lower ''tax_id'' = ''tax_id''"
  "ascii_lower ''branch_code'' = ''branch_code''" "ascii_lower ''customer'' = ''customer''" "ascii_lower ''vendor'' = ''vendor''"
  "ascii_lower ''archived_at'' = ''archived_at''" "ascii_lower ''created_at'' = ''created_at''" "ascii_lower ''row'' = ''row''"
  "ascii_lower ''status'' = ''status''" "ascii_lower ''reason'' = ''reason''" "ascii_lower ''contact'' = ''contact''"
  by code_simp+

lemma json_utf8_Nil [simp]: "json_utf8 [] = []"
  by (simp add: json_utf8_def)

lemma decode_encode_contact:
  assumes "list_all server_text [vc_id c, vc_org c, vc_display_name c, vc_code c, vc_country c, vc_tax_id c, vc_branch c]"
    and "vc_archived_at c = None" "parse (stamp (vc_created_at c)) = Some (vc_created_at c)"
  shows "decode_contact parse (encode_contact stamp c) = Some (c\<lparr>vc_normalized_name := []\<rparr>)"
proof -
  have texts: "json_utf8 (vc_id c) = vc_id c" "json_utf8 (vc_org c) = vc_org c" "json_utf8 (vc_display_name c) = vc_display_name c"
    "json_utf8 (vc_code c) = vc_code c" "json_utf8 (vc_country c) = vc_country c" "json_utf8 (vc_tax_id c) = vc_tax_id c"
    "json_utf8 (vc_branch c) = vc_branch c" using assms(1) by (simp_all add: server_text_def)
  note f = encode_contact_def assms(2) json_field_append json_field_omit preview_keys texts
  have fields:
    "json_field (encode_contact stamp c) ''id'' = [JString (vc_id c)]"
    "json_field (encode_contact stamp c) ''organization_id'' = (if vc_org c = [] then [] else [JString (vc_org c)])"
    "json_field (encode_contact stamp c) ''display_name'' = [JString (vc_display_name c)]"
    "json_field (encode_contact stamp c) ''contact_code'' = (if vc_code c = [] then [] else [JString (vc_code c)])"
    "json_field (encode_contact stamp c) ''country'' = [JString (vc_country c)]"
    "json_field (encode_contact stamp c) ''tax_id'' = (if vc_tax_id c = [] then [] else [JString (vc_tax_id c)])"
    "json_field (encode_contact stamp c) ''branch_code'' = (if vc_branch c = [] then [] else [JString (vc_branch c)])"
    "json_field (encode_contact stamp c) ''customer'' = [JBool (vc_customer c)]"
    "json_field (encode_contact stamp c) ''vendor'' = [JBool (vc_vendor c)]"
    "json_field (encode_contact stamp c) ''archived_at'' = []"
    "json_field (encode_contact stamp c) ''created_at'' = [JString (stamp (vc_created_at c))]"
    by (simp_all only: f option.case append_Nil) (simp_all add: preview_keys)
  have "is_object (encode_contact stamp c)" by (simp add: encode_contact_def)
  then show ?thesis using assms(2,3)
    by (simp add: decode_contact_def string_field_def decode_field_def fields time_of_json_def)
qed

lemma decode_encode_line:
  assumes "decode_contact parse (encode_contact stamp (pw_contact l)) = Some c"
    and "- (2 ^ 63) \<le> pw_row l" "pw_row l < 2 ^ 63" "json_utf8 (pw_reason l) = pw_reason l"
  shows "decode_line parse (encode_line stamp l) = Some (l\<lparr>pw_contact := c\<rparr>)"
proof -
  note f = encode_line_def json_field_append json_field_omit preview_keys assms(4)
  have fields:
    "json_field (encode_line stamp l) ''row'' = [JNumber (pw_row l)]"
    "json_field (encode_line stamp l) ''status'' = [JString (pw_status l)]"
    "json_field (encode_line stamp l) ''reason'' = (if pw_reason l = [] then [] else [JString (pw_reason l)])"
    "json_field (encode_line stamp l) ''contact'' = [encode_contact stamp (pw_contact l)]"
    by (simp_all only: f append_Nil) (simp_all add: preview_keys encode_contact_def)
  have "is_object (encode_line stamp l)" by (simp add: encode_line_def)
  then show ?thesis using assms(1-3)
    by (simp add: decode_line_def string_field_def int_field_def decode_field_def fields)
qed

section \<open>A preview and its commit\<close>

text \<open>A vendor in normal form that the table takes.\<close>

definition accepted_vendor :: "casing \<Rightarrow> contact \<Rightarrow> bool" where
  "accepted_vendor g c =
     (NormalizeVendor g (input_of c) = Inr c \<and> contact_error (contact_row_of [] [] None 0 c) = None
      \<and> server_text (to_lower g (vc_code c)))"

lemma accepted_row: "accepted_vendor g c \<Longrightarrow> contact_error (contact_row_of i org p now c) = None"
  by (simp add: accepted_vendor_def contact_text_def contact_check_def contact_row_of_def)

lemma normal_fields:
  "NormalizeVendor g x = Inr c \<Longrightarrow> vc_id c = [] \<and> vc_org c = [] \<and> vc_archived_at c = None \<and> vc_created_at c = zero_time \<and> vc_vendor c"
  by (auto simp: NormalizeVendor_def Let_def split: if_splits)

lemma accepted_fields:
  assumes "accepted_vendor g c"
  shows "vc_id c = []" "vc_org c = []" "vc_archived_at c = None" "vc_created_at c = zero_time"
    "list_all server_text [vc_display_name c, vc_code c, vc_country c, vc_tax_id c, vc_branch c]"
    "NormalizeVendor g (input_of (c\<lparr>vc_normalized_name := []\<rparr>)) = Inr c"
proof -
  have n: "NormalizeVendor g (input_of c) = Inr c" using assms by (simp add: accepted_vendor_def)
  show "vc_id c = []" "vc_org c = []" "vc_archived_at c = None" "vc_created_at c = zero_time"
    using normal_fields [OF n] by simp_all
  show "list_all server_text [vc_display_name c, vc_code c, vc_country c, vc_tax_id c, vc_branch c]"
    using assms by (simp add: accepted_vendor_def contact_text_def contact_row_of_def)
  show "NormalizeVendor g (input_of (c\<lparr>vc_normalized_name := []\<rparr>)) = Inr c" using n by (simp add: input_of_def)
qed

text \<open>A row of the table that takes the place of a vendor of the file.\<close>

definition clash :: "server \<Rightarrow> contact \<Rightarrow> contact_row \<Rightarrow> bool" where
  "clash sv c r =
     ((vc_tax_id c \<noteq> [] \<and> (bc_country r, bc_tax_id r, bc_branch r) = (vc_country c, vc_tax_id c, vc_branch c))
      \<or> (vc_code c \<noteq> [] \<and> bc_code r \<noteq> [] \<and> lower_text sv (bc_code r) = lower_text sv (vc_code c)))"

lemma clash_keys:
  assumes "\<And>v. lower_text sv v = to_lower g v" "clash sv c r"
  shows "\<exists>k \<in> set (contact_keys g c). k \<in> set (row_keys g r)"
  using assms by (auto simp: clash_def contact_keys_def row_keys_def duplicateKeys_def)

lemma conflict_clash:
  assumes "contact_conflict sv (contact_row_of i org p now c) rows" "i \<notin> bc_id ` set rows"
  shows "\<exists>r \<in> set rows. bc_org r = org \<and> clash sv c r"
  using assms
  by (auto simp: contact_conflict_def conflicts_def list_ex_iff contact_id_def tax_key_def code_key_def contact_row_of_def clash_def
      split: if_splits)

definition covered :: "casing \<Rightarrow> server \<Rightarrow> id \<Rightarrow> string list \<Rightarrow> contact list \<Rightarrow> contact_row list \<Rightarrow> bool" where
  "covered g sv org keys contacts rows =
     list_all (\<lambda>c. list_all (\<lambda>r. bc_org r = org \<longrightarrow> clash sv c r \<longrightarrow> list_ex (\<lambda>k. k \<in> set keys) (contact_keys g c)) rows) contacts"

lemma existing_covered:
  assumes low: "\<And>v. lower_text sv v = to_lower g v" and e: "existingContactKeys g sv org contacts s = Inr existing"
  shows "covered g sv org existing contacts (business_contacts s)"
  unfolding covered_def list_all_iff
proof (intro ballI impI)
  fix c r assume c: "c \<in> set contacts" and r: "r \<in> set (business_contacts s)" "bc_org r = org" "clash sv c r"
  obtain k where k: "k \<in> set (contact_keys g c)" "k \<in> set (row_keys g r)" using clash_keys [OF low r(3)] by blast
  have ex: "existing = concat (map (row_keys g) (filter (\<lambda>r. bc_org r = org
             \<and> ((bc_tax_id r \<noteq> [] \<and> (bc_country r, bc_tax_id r, bc_branch r) \<in> set (map (\<lambda>c. (vc_country c, vc_tax_id c, vc_branch c)) contacts))
                 \<or> (bc_code r \<noteq> [] \<and> lower_text sv (bc_code r) \<in> set (map (\<lambda>c. to_lower g (vc_code c)) contacts)))) (business_contacts s)))"
    using e by (simp add: existingContactKeys_def Let_def split: if_splits)
  have "k \<in> set existing" using c r k(2) by (auto simp: ex clash_def low)
  then show "list_ex (\<lambda>k. k \<in> set existing) (contact_keys g c)" using k(1) by (auto simp: list_ex_iff)
qed

lemma covered_step:
  assumes low: "\<And>v. lower_text sv v = to_lower g v" and "covered g sv org keys contacts rows"
  shows "covered g sv org (keys @ contact_keys g c) contacts (rows @ [contact_row_of i org p now c])"
  unfolding covered_def list_all_iff
proof (intro ballI impI)
  fix d r assume d: "d \<in> set contacts" and r: "r \<in> set (rows @ [contact_row_of i org p now c])" "bc_org r = org" "clash sv d r"
  show "list_ex (\<lambda>k. k \<in> set (keys @ contact_keys g c)) (contact_keys g d)"
  proof (cases "r \<in> set rows")
    case True
    then show ?thesis using assms(2) d r by (fastforce simp: covered_def list_all_iff list_ex_iff)
  next
    case False
    then have "row_keys g r = contact_keys g c" using r(1) by (simp add: row_keys_def contact_keys_def contact_row_of_def)
    then show ?thesis using clash_keys [OF low r(3)] by (auto simp: list_ex_iff)
  qed
qed

lemma count_where_split: "length (filter P xs) + length (filter (\<lambda>x. \<not> P x) xs) = length xs"
  by (rule sum_length_filter_compl)

text \<open>The rows found ready are the rows the commit inserts.\<close>

lemma preview_inserts:
  assumes low: "\<And>v. lower_text sv v = to_lower g v" and "inj fresh"
    and "list_all (accepted_vendor g) cs" "covered g sv org (existing @ seen) cs rows" "\<And>n. n \<ge> k \<Longrightarrow> fresh n \<notin> bc_id ` set rows"
  shows "insert_new sv (map (\<lambda>(n, c). contact_row_of (fresh n) org p now c) (enumerate k (map pw_contact (filter is_ready (preview_lines g existing seen i cs))))) rows
    = Inr (rows @ map (\<lambda>(n, c). contact_row_of (fresh n) org p now c) (enumerate k (map pw_contact (filter is_ready (preview_lines g existing seen i cs)))))"
  using assms(3-5)
proof (induction cs arbitrary: seen i k rows)
  case (Cons c cs)
  have cov: "covered g sv org (existing @ seen) cs rows" using Cons.prems(2) by (simp add: covered_def)
  show ?case
  proof (cases "list_ex (\<lambda>k. k \<in> set existing \<or> k \<in> set seen) (contact_keys g c)")
    case True
    then have "filter is_ready (preview_lines g existing seen i (c # cs)) = filter is_ready (preview_lines g existing seen (i + 1) cs)"
      by (simp add: Let_def is_ready_def)
    then show ?thesis using Cons.IH [of seen rows k "i + 1"] cov Cons.prems by (simp del: preview_lines.simps)
  next
    case False
    let ?row = "contact_row_of (fresh k) org p now c"
    have "\<not> contact_conflict sv ?row rows"
    proof
      assume "contact_conflict sv ?row rows"
      then obtain r where "r \<in> set rows" "bc_org r = org" "clash sv c r" using conflict_clash Cons.prems(3) [of k] by blast
      then show False using Cons.prems(2) False by (simp add: covered_def list_all_iff)
    qed
    moreover have "contact_error ?row = None" by (rule accepted_row [of g]) (use Cons.prems(1) in simp)
    moreover have "covered g sv org (existing @ (seen @ contact_keys g c)) cs (rows @ [?row])"
      using covered_step [OF low cov] by simp
    moreover have "fresh n \<notin> bc_id ` set (rows @ [?row])" if "n \<ge> k + 1" for n
      using Cons.prems(3) [of n] that injD [OF assms(2), of n k] by (auto simp: contact_row_of_def)
    moreover have "map pw_contact (filter is_ready (preview_lines g existing seen i (c # cs)))
        = c # map pw_contact (filter is_ready (preview_lines g existing (seen @ contact_keys g c) (i + 1) cs))"
      using False by (simp add: Let_def is_ready_def)
    ultimately have step: "\<not> contact_conflict sv ?row rows" "contact_error ?row = None"
      "map pw_contact (filter is_ready (preview_lines g existing seen i (c # cs)))
        = c # map pw_contact (filter is_ready (preview_lines g existing (seen @ contact_keys g c) (i + 1) cs))"
      and IH: "insert_new sv (map (\<lambda>(n, c). contact_row_of (fresh n) org p now c)
          (enumerate (k + 1) (map pw_contact (filter is_ready (preview_lines g existing (seen @ contact_keys g c) (i + 1) cs))))) (rows @ [?row])
        = Inr ((rows @ [?row]) @ map (\<lambda>(n, c). contact_row_of (fresh n) org p now c)
          (enumerate (k + 1) (map pw_contact (filter is_ready (preview_lines g existing (seen @ contact_keys g c) (i + 1) cs)))))"
      using Cons.prems(1) by (blast, blast, blast, intro Cons.IH) auto
    show ?thesis unfolding step(3) using IH step(1,2) by (simp del: contact_error_None)
  qed
qed simp

lemma preview_lines_bounds:
  "l \<in> set (preview_lines g existing seen i cs) \<Longrightarrow>
   i + 2 \<le> pw_row l \<and> pw_row l < i + 2 + int (length cs) \<and> pw_reason l \<in> {[], ''strong_duplicate''} \<and> pw_contact l \<in> set cs"
proof (induction cs arbitrary: seen i)
  case (Cons c cs)
  let ?seen = "if list_ex (\<lambda>k. k \<in> set existing \<or> k \<in> set seen) (contact_keys g c) then seen else seen @ contact_keys g c"
  consider "pw_row l = i + 2" "pw_reason l \<in> {[], ''strong_duplicate''}" "pw_contact l = c"
    | "l \<in> set (preview_lines g existing ?seen (i + 1) cs)"
    using Cons.prems by (auto simp: Let_def)
  then show ?case
  proof cases
    case 2
    then show ?thesis using Cons.IH [OF 2] by auto
  qed simp
qed simp

lemma preview_lines_Nil_iff: "preview_lines g existing seen i cs = [] \<longleftrightarrow> cs = []"
  by (cases cs) (simp_all add: Let_def)

lemma reason_text: "json_utf8 ''strong_duplicate'' = ''strong_duplicate''"
  by code_simp

lemma server_text_Nil [simp]: "server_text []"
  by (simp add: server_text_def)

lemma read_preview:
  assumes "list_all (accepted_vendor g) cs" "int (length cs) < 2 ^ 62" "parse (stamp zero_time) = Some zero_time"
  shows "decode_rows parse (JArray (map (encode_line stamp) (preview_lines g existing seen 0 cs)))
    = Inr (map (\<lambda>l. l\<lparr>pw_contact := (pw_contact l)\<lparr>vc_normalized_name := []\<rparr>\<rparr>) (preview_lines g existing seen 0 cs))"
proof -
  have "decode_line parse (encode_line stamp l) = Some (l\<lparr>pw_contact := (pw_contact l)\<lparr>vc_normalized_name := []\<rparr>\<rparr>)"
    if l: "l \<in> set (preview_lines g existing seen 0 cs)" for l
  proof (rule decode_encode_line)
    have a: "accepted_vendor g (pw_contact l)" using preview_lines_bounds [OF l] assms(1) by (simp add: list_all_iff)
    show "decode_contact parse (encode_contact stamp (pw_contact l)) = Some ((pw_contact l)\<lparr>vc_normalized_name := []\<rparr>)"
      by (rule decode_encode_contact) (use accepted_fields [OF a] assms(3) in simp_all)
    show "- (2 ^ 63) \<le> pw_row l" "pw_row l < 2 ^ 63" using preview_lines_bounds [OF l] assms(2) by simp_all
    show "json_utf8 (pw_reason l) = pw_reason l" using preview_lines_bounds [OF l] reason_text by auto
  qed
  then show ?thesis unfolding decode_rows_def json.case collect_rows_over_map by (intro collect_rows_map) simp
qed

lemma is_ready_contact: "is_ready (l\<lparr>pw_contact := c\<rparr>) = is_ready l"
  by (simp add: is_ready_def)

lemma manager_here_frame:
  "memberships s' = memberships s \<Longrightarrow> organizations s' = organizations s \<Longrightarrow> manager_here user org s' = manager_here user org s"
  unfolding manager_here_def currentRole_def membershipFor_def by (simp only:)

lemma manager_here_tables [simp]:
  "manager_here user org (s\<lparr>business_import_previews := ps\<rparr>) = manager_here user org s"
  "manager_here user org (auditTenant org' user' e t i now s) = manager_here user org s"
  by (rule manager_here_frame; simp add: auditTenant_def)+

lemma auditTenant_tables [simp]:
  "business_contacts (auditTenant org user e t i now s) = business_contacts s"
  "business_import_previews (auditTenant org user e t i now s) = business_import_previews s"
  by (simp_all add: auditTenant_def)

section \<open>Properties\<close>

text \<open>\<^bold>\<open>C32.\<close> A preview keeps its promise.  When every vendor of the file is one the table takes and the contacts do not
  change in between, the commit of a preview inserts exactly the rows the preview marked ready, in their order, and reports
  the rows marked duplicate as skipped.  The hypotheses on the arguments are that the server and Go lower texts alike, that times are
  read as they are written, and that the new ids are new.\<close>

theorem preview_commits:
  assumes "manager_here user org s" "list_all (accepted_vendor g) contacts" "contacts \<noteq> []" "int (length contacts) < 2 ^ 62"
    and "\<not> row_exists (\<lambda>q. bi_id q = i) (business_import_previews s)" "lower_text sv = to_lower g"
    and "parse (stamp zero_time) = Some zero_time" "inj fresh" "range fresh \<inter> bc_id ` set (business_contacts s) = {}"
    and "now \<le> later" "later < now + 24 * Hour"
  shows "\<exists>p s1 s2. CreateImportPreview g sv stamp user org i contacts now s = Inr (p, s1)
    \<and> CommitImport g sv parse fresh user org i later s1 = Inr ((nat (pv_ready p), nat (pv_duplicates p)), s2)
    \<and> business_contacts s2 = business_contacts s @ import_rows fresh org i later (map pw_contact (filter is_ready (pv_rows p)))"
proof -
  have low: "lower_text sv v = to_lower g v" for v using assms(6) by simp
  have texts: "list_all (\<lambda>c. list_all server_text [vc_country c, vc_tax_id c, vc_branch c, to_lower g (vc_code c)]) contacts"
    using assms(2) by (auto simp: list_all_iff accepted_vendor_def contact_text_def contact_row_of_def)
  then obtain existing where e: "existingContactKeys g sv org contacts s = Inr existing"
    by (simp add: existingContactKeys_def Let_def)
  define lines where "lines = preview_lines g existing [] 0 contacts"
  define ready where "ready = map pw_contact (filter is_ready lines)"
  define p where "p = \<lparr>pv_id = i, pv_org = org, pv_rows = lines, pv_ready = count_where is_ready lines,
    pv_duplicates = count_where (\<lambda>l. \<not> is_ready l) lines, pv_warnings = 0, pv_errors = 0, pv_expires_at = now + 24 * Hour\<rparr>"
  define q where "q = \<lparr>bi_id = i, bi_org = org, bi_requester = user, bi_rows = JArray (map (encode_line stamp) lines),
     bi_ready = pv_ready p, bi_duplicate = pv_duplicates p, bi_warning = 0, bi_error = 0, bi_status = ''Preview'',
     bi_created_at = now, bi_expires_at = now + 24 * Hour, bi_committed_at = None\<rparr>"
  define s1 where "s1 = auditTenant org user ''business_import.preview'' ''business_import'' i now
    (s\<lparr>business_import_previews := business_import_previews s @ [q]\<rparr>)"
  have create: "CreateImportPreview g sv stamp user org i contacts now s = Inr (p, s1)"
    using assms(1,3,5) by (simp add: CreateImportPreview_def e Let_def p_def q_def s1_def lines_def preview_lines_Nil_iff)
  have "query_row (\<lambda>p. open_preview org i later p \<and> bi_requester p = user) (business_import_previews s) = None"
    using assms(5) by (auto simp: query_row_None_iff row_exists_iff open_preview_def)
  then have q: "query_row (\<lambda>p. open_preview org i later p \<and> bi_requester p = user) (business_import_previews s1) = Some q"
    using assms(11) by (simp add: s1_def open_preview_def q_def)
  define read where "read = map (\<lambda>l. l\<lparr>pw_contact := (pw_contact l)\<lparr>vc_normalized_name := []\<rparr>\<rparr>) lines"
  have rows: "decode_rows parse (bi_rows q) = Inr read"
    using read_preview [OF assms(2,4), of parse stamp existing "[]"] assms(7) by (simp add: q_def read_def lines_def)
  have keep: "filter is_ready read = map (\<lambda>l. l\<lparr>pw_contact := (pw_contact l)\<lparr>vc_normalized_name := []\<rparr>\<rparr>) (filter is_ready lines)"
    "length (filter (\<lambda>l. \<not> is_ready l) read) = length (filter (\<lambda>l. \<not> is_ready l) lines)"
    unfolding read_def by (simp_all add: filter_map comp_def is_ready_contact)
  have "collect_rows (\<lambda>l. NormalizeVendor g (line_input l)) (filter is_ready read) = Inr (map pw_contact (filter is_ready lines))"
    unfolding keep collect_rows_over_map
  proof (rule collect_rows_map)
    fix l assume "l \<in> set (filter is_ready lines)"
    then have "accepted_vendor g (pw_contact l)" using preview_lines_bounds [of l g existing "[]" 0 contacts] assms(2)
      by (simp add: lines_def list_all_iff)
    then show "NormalizeVendor g (line_input (l\<lparr>pw_contact := (pw_contact l)\<lparr>vc_normalized_name := []\<rparr>\<rparr>)) = Inr (pw_contact l)"
      using accepted_fields(6) by (simp add: line_input_def)
  qed
  then have norm: "collect_rows (\<lambda>l. NormalizeVendor g (line_input l)) (filter is_ready read) = Inr ready" by (simp add: ready_def)
  have "insert_new sv (import_rows fresh org i later ready) (business_contacts s) = Inr (business_contacts s @ import_rows fresh org i later ready)"
    using preview_inserts [OF low assms(8,2), where seen = "[]" and existing = existing and org = org and rows = "business_contacts s"
        and k = 0 and p = "Some i" and now = later and i = 0] existing_covered [OF low e] assms(9)
    by (auto simp: import_rows_def ready_def lines_def)
  then have ins: "insert_new sv (import_rows fresh org i later ready) (business_contacts s1) = Inr (business_contacts s1 @ import_rows fresh org i later ready)"
    by (simp add: s1_def)
  have len: "length (import_rows fresh org i later ready) = length ready" by (simp add: import_rows_def)
  have "manager_here user org s1" using assms(1) by (simp add: s1_def)
  then obtain s2 where "CommitImport g sv parse fresh user org i later s1 = Inr ((length ready, length (filter (\<lambda>l. \<not> is_ready l) lines)), s2)"
    "business_contacts s2 = business_contacts s1 @ import_rows fresh org i later ready"
    by (simp add: CommitImport_def q rows norm ins Let_def len keep(2))
  moreover have "nat (pv_ready p) = length ready" "nat (pv_duplicates p) = length (filter (\<lambda>l. \<not> is_ready l) lines)"
    by (simp_all add: p_def ready_def count_where_def rows_affected_def)
  moreover have "business_contacts s1 = business_contacts s" by (simp add: s1_def)
  ultimately show ?thesis using create by (auto simp: p_def ready_def)
qed

definition demo_vendors :: "contact list" where
  "demo_vendors = [imported demo_vendor, (imported demo_vendor)\<lparr>vc_code := [], vc_display_name := ''Fuel'', vc_normalized_name := ''fuel''\<rparr>]"

definition demo_fresh :: "nat \<Rightarrow> id" where "demo_fresh n = replicate (n + 1) (CHR ''x'')"

definition demo_preview :: "(preview, store) txn" where
  "demo_preview = CreateImportPreview ascii_tables demo_server (\<lambda>t. []) ''u1'' ''o1'' ''p1'' demo_vendors 5"

theorem preview_commits_witness:
  "\<exists>p s1 s2. demo_preview demo_office = Inr (p, s1)
    \<and> CommitImport ascii_tables demo_server (\<lambda>v. Some zero_time) demo_fresh ''u1'' ''o1'' ''p1'' 6 s1 = Inr ((1, 1), s2)
    \<and> map bc_display_name (business_contacts s2) = [''Fuel, Oil'']"
proof -
  have facts: "manager_here ''u1'' ''o1'' demo_office" "list_all (accepted_vendor ascii_tables) demo_vendors" "demo_vendors \<noteq> []"
    "int (length demo_vendors) < 2 ^ 62" "\<not> row_exists (\<lambda>q. bi_id q = ''p1'') (business_import_previews demo_office)"
    "bc_id ` set (business_contacts demo_office) = {}" "(5 :: time) + 24 * Hour > 6" by code_simp+
  have "lower_text demo_server = to_lower ascii_tables" by (simp add: demo_server_def ascii_tables_def)
  moreover have "inj demo_fresh" by (rule injI) (metis demo_fresh_def length_replicate add_right_imp_eq)
  ultimately obtain p s1 s2 where run: "demo_preview demo_office = Inr (p, s1)"
      "CommitImport ascii_tables demo_server (\<lambda>v. Some zero_time) demo_fresh ''u1'' ''o1'' ''p1'' 6 s1 = Inr ((nat (pv_ready p), nat (pv_duplicates p)), s2)"
      "business_contacts s2 = business_contacts demo_office @ import_rows demo_fresh ''o1'' ''p1'' 6 (map pw_contact (filter is_ready (pv_rows p)))"
    using preview_commits [OF facts(1-5), of demo_server "\<lambda>v. Some zero_time" "\<lambda>t. []" demo_fresh 5 6] facts(6,7) by (auto simp: demo_preview_def)
  have "map_sum id (\<lambda>(p, s). (nat (pv_ready p), nat (pv_duplicates p), map pw_contact (filter is_ready (pv_rows p)))) (demo_preview demo_office)
      = Inr (1, 1, [imported demo_vendor])" by code_simp
  then have p: "nat (pv_ready p) = 1" "nat (pv_duplicates p) = 1" "map pw_contact (filter is_ready (pv_rows p)) = [imported demo_vendor]"
    using run(1) by simp_all
  have "business_contacts demo_office = []" "vc_display_name (imported demo_vendor) = ''Fuel, Oil''" by code_simp+
  then show ?thesis using run p by (simp add: import_rows_def contact_row_of_def)
qed

datatype vendor_op =
    VendorCreate id id contact time
  | ImportPreview casing "time \<Rightarrow> string" id id id "contact list" time
  | ImportCommit casing "string \<Rightarrow> time option" "nat \<Rightarrow> id" id id id time

fun vendor_step :: "server \<Rightarrow> vendor_op \<Rightarrow> store \<Rightarrow> store" where
  "vendor_step sv (VendorCreate user org c now) s = after s (CreateVendor sv user org c now s)"
| "vendor_step sv (ImportPreview g stamp user org i cs now) s = after s (CreateImportPreview g sv stamp user org i cs now s)"
| "vendor_step sv (ImportCommit g parse fresh user org i now) s = after s (CommitImport g sv parse fresh user org i now s)"

lemma vendor_step_ok:
  assumes "contacts_ok sv (business_contacts s)" shows "contacts_ok sv (business_contacts (vendor_step sv op s))"
proof (cases op)
  case (VendorCreate user org c now)
  show ?thesis unfolding VendorCreate vendor_step.simps
    by (rule after_invariant) (use assms insert_contact_ok in \<open>auto simp: CreateVendor_def Let_def split: if_splits sum.splits\<close>)
next
  case (ImportPreview g stamp user org i cs now)
  show ?thesis unfolding ImportPreview vendor_step.simps
    by (rule after_invariant) (use assms in \<open>auto simp: CreateImportPreview_def Let_def split: if_splits sum.splits\<close>)
next
  case (ImportCommit g parse fresh user org i now)
  show ?thesis unfolding ImportCommit vendor_step.simps
    by (rule after_invariant) (use assms insert_new_ok in \<open>auto simp: CommitImport_def Let_def split: if_splits sum.splits option.splits\<close>)
qed



text \<open>A preview that cannot be committed.  Normalization takes any country of two bytes, the table only two
  letters from A to Z, so a row such as one with the country \<^verbatim>\<open>12\<close> is shown as ready, but a commit of its preview fails as a whole,
  and so does creating the vendor alone.\<close>

theorem bad_country_blocks:
  assumes "NormalizeVendor g x = Inr c" "\<not> iso_country (vc_country c)"
    and "query_row (\<lambda>p. open_preview org i now p \<and> bi_requester p = user) (business_import_previews s) = Some p"
    and "decode_rows parse (bi_rows p) = Inr lines" "l \<in> set lines" "is_ready l" "line_input l = x"
  shows "isl (CommitImport g sv parse fresh user org i now s) \<and> isl (CreateVendor sv user org c now s)"
proof -
  have bad: "contact_error (contact_row_of j org q now c) \<noteq> None" for j q
    using assms(2) by (auto simp: contact_check_def contact_row_of_def)
  have "isl (CommitImport g sv parse fresh user org i now s)"
  proof (cases "collect_rows (\<lambda>l. NormalizeVendor g (line_input l)) (filter is_ready lines)")
    case (Inr contacts)
    obtain n where n: "n < length (filter is_ready lines)" "filter is_ready lines ! n = l"
      using assms(5,6) by (metis (mono_tags, lifting) in_set_conv_nth mem_Collect_eq set_filter)
    then have "contacts ! n = c" "n < length contacts" using collect_rows_InrD [OF Inr] assms(1,7) by auto
    then have "contact_row_of (fresh n) org (Some i) now c \<in> set (import_rows fresh org i now contacts)"
      by (auto simp: import_rows_def in_set_enumerate_eq image_iff intro!: bexI [of _ "(n, c)"])
    then have "isl (insert_new sv (import_rows fresh org i now contacts) (business_contacts s))" using bad by (rule insert_new_error)
    then show ?thesis using assms(3,4) Inr
      by (cases "insert_new sv (import_rows fresh org i now contacts) (business_contacts s)") (simp_all add: CommitImport_def)
  next
    case (Inl e)
    then show ?thesis using assms(3,4) by (simp add: CommitImport_def)
  qed
  moreover have "isl (CreateVendor sv user org c now s)"
    using bad [of "vc_id c" None]
    by (cases "contact_error (contact_row_of (vc_id c) org None now c)") (simp_all add: CreateVendor_def insert_contact_def Let_def)
  ultimately show ?thesis by simp
qed

definition demo_foreign :: vendor_input where
  "demo_foreign = \<lparr>vi_display_name = ''Acme'', vi_code = [], vi_country = ''12'', vi_tax_id = [], vi_branch = [], vi_customer = False\<rparr>"

theorem bad_country_blocks_witness:
  "\<exists>c p s1. NormalizeVendor ascii_tables demo_foreign = Inr c
    \<and> CreateImportPreview ascii_tables demo_server (\<lambda>t. []) ''u1'' ''o1'' ''p1'' [c] 5 demo_office = Inr (p, s1) \<and> pv_ready p = 1
    \<and> isl (CommitImport ascii_tables demo_server (\<lambda>v. Some zero_time) demo_fresh ''u1'' ''o1'' ''p1'' 6 s1)"
proof -
  let ?parse = "\<lambda>v :: string. Some zero_time"
  have "case NormalizeVendor ascii_tables demo_foreign of Inl _ \<Rightarrow> False | Inr c \<Rightarrow> \<not> iso_country (vc_country c)
     \<and> (case CreateImportPreview ascii_tables demo_server (\<lambda>t. []) ''u1'' ''o1'' ''p1'' [c] 5 demo_office of Inl _ \<Rightarrow> False
        | Inr (p, s1) \<Rightarrow> pv_ready p = 1
          \<and> (case query_row (\<lambda>p. open_preview ''o1'' ''p1'' 6 p \<and> bi_requester p = ''u1'') (business_import_previews s1) of
               None \<Rightarrow> False
             | Some q \<Rightarrow> \<not> isl (decode_rows ?parse (bi_rows q)) \<and> projr (decode_rows ?parse (bi_rows q)) \<noteq> []
                 \<and> is_ready (hd (projr (decode_rows ?parse (bi_rows q)))) \<and> line_input (hd (projr (decode_rows ?parse (bi_rows q)))) = demo_foreign))"
    by code_simp
  then obtain c p s1 q where c: "NormalizeVendor ascii_tables demo_foreign = Inr c" "\<not> iso_country (vc_country c)"
    and p: "CreateImportPreview ascii_tables demo_server (\<lambda>t. []) ''u1'' ''o1'' ''p1'' [c] 5 demo_office = Inr (p, s1)" "pv_ready p = 1"
    and q: "query_row (\<lambda>p. open_preview ''o1'' ''p1'' 6 p \<and> bi_requester p = ''u1'') (business_import_previews s1) = Some q"
      "\<not> isl (decode_rows ?parse (bi_rows q))" "projr (decode_rows ?parse (bi_rows q)) \<noteq> []"
      "is_ready (hd (projr (decode_rows ?parse (bi_rows q))))" "line_input (hd (projr (decode_rows ?parse (bi_rows q)))) = demo_foreign"
    by (auto split: sum.split_asm option.split_asm)
  have "isl (CommitImport ascii_tables demo_server ?parse demo_fresh ''u1'' ''o1'' ''p1'' 6 s1)"
    using bad_country_blocks [OF c q(1) sum.collapse(2) [OF q(2), symmetric] hd_in_set [OF q(3)] q(4,5)] by blast
  then show ?thesis using c(1) p by blast
qed

end
