(* ===== verification/Http.thy ===== *)
theory Http
  imports Auth Tenant Tokens Business
begin

text \<open>
  What every route of the web server shares: src/api/internal/httpapi/server.go, the guards of tenant_routes.go and
  work_routes.go, and the forms of \<^verbatim>\<open>net/http\<close>.  A route takes the server's configuration, the request and the database, and
  gives an answer and a new database; an answer is the status and code of \<^verbatim>\<open>writeError\<close>, or a status and a value.

  The configuration holds what the process was started with and what it reads from outside: hash functions, random bytes, the
  encodings of times and tokens, how the driver reads a uuid, the ids and event numbers the database draws (\<open>st_uuids\<close>, \<open>st_events\<close>) and the verdict of
  the server on statements with untyped parameters (\<open>st_accepts\<close>).  The clock is \<open>st_clock\<close>: its value 0 is the instant at which the session is looked up, 1 the one the route reads.
\<close>

section \<open>Requests\<close>

record site =
  st_hash :: "bytes \<Rightarrow> bytes"
  st_service :: service
  st_server :: server
  st_channel :: string
  st_gated :: bool
  st_review :: bool
  st_clock :: "nat \<Rightarrow> time"
  st_dbnow :: time
  st_rnd :: "nat \<Rightarrow> bytes option"
  st_stamp :: "time \<Rightarrow> string"
  st_parse :: "string \<Rightarrow> time option"
  st_accepts :: bool
  st_collate :: "string \<Rightarrow> string"
  st_casing :: casing
  st_events :: "nat \<Rightarrow> nat"
  st_hmac :: "bytes \<Rightarrow> bytes \<Rightarrow> bytes"
  st_marshal :: "artifact_claims \<Rightarrow> bytes"
  st_unmarshal :: "bytes \<Rightarrow> artifact_claims option"
  st_secret :: "bytes option"
  st_uuids :: "nat \<Rightarrow> id"
  st_as_uuid :: "string \<Rightarrow> id option"
  st_rfc3339 :: "time \<Rightarrow> string"
  st_cursor :: "time \<Rightarrow> id \<Rightarrow> bytes"
  st_position :: "bytes \<Rightarrow> (time \<times> id) option"

record web =
  wb_auth :: request
  wb_path :: string
  wb_content_type :: string
  wb_path_values :: "(string \<times> string) list"
  wb_query :: "(string \<times> string) list"
  wb_form :: "(string \<times> string) list"
  wb_form_ok :: bool
  wb_length :: nat
  wb_key :: string
  wb_request_id :: string
  wb_authorization :: string
  wb_attempt :: string
  wb_lease :: string

datatype 'a answer = Refuse nat string | Answer nat 'a

definition path_value :: "web \<Rightarrow> string \<Rightarrow> string" where
  "path_value q k = (case map_of (wb_path_values q) k of None \<Rightarrow> [] | Some v \<Rightarrow> v)"

definition path_org :: "web \<Rightarrow> id" where "path_org q = path_value q ''organization''"

definition query_value :: "web \<Rightarrow> string \<Rightarrow> string" where
  "query_value q k = (case map_of (wb_query q) k of None \<Rightarrow> [] | Some v \<Rightarrow> v)"

text \<open>The body is parsed once.  \<^verbatim>\<open>ValidMutation\<close> parses it when the request has no CSRF header, under the limit of
  \<^verbatim>\<open>formMutation\<close>; otherwise the route does, under the lower of the two limits.  A body over the limit gives no values; a second
  \<^verbatim>\<open>ParseForm\<close> reports no error.\<close>

definition form_limit :: nat where "form_limit = 16384"

definition body_limit :: "web \<Rightarrow> nat \<Rightarrow> nat" where
  "body_limit q limit = (if rq_csrf_header (wb_auth q) = [] then form_limit else min form_limit limit)"

definition post_form :: "web \<Rightarrow> nat \<Rightarrow> (string \<times> string) list" where
  "post_form q limit = (if wb_length q > body_limit q limit then [] else wb_form q)"

definition form_error :: "web \<Rightarrow> nat \<Rightarrow> bool" where
  "form_error q limit = (rq_csrf_header (wb_auth q) \<noteq> [] \<and> (wb_length q > body_limit q limit \<or> \<not> wb_form_ok q))"

definition post_value :: "web \<Rightarrow> nat \<Rightarrow> string \<Rightarrow> string" where
  "post_value q limit k = (case map_of (post_form q limit) k of None \<Rightarrow> [] | Some v \<Rightarrow> v)"

definition post_values :: "web \<Rightarrow> nat \<Rightarrow> string \<Rightarrow> string list" where
  "post_values q limit k = map snd (filter (\<lambda>(key, v). key = k) (post_form q limit))"

text \<open>\<^verbatim>\<open>r.FormValue\<close>: the values of the body come before those of the query.\<close>

definition form_value :: "web \<Rightarrow> string \<Rightarrow> string" where
  "form_value q k = (case map_of (post_form q form_limit @ wb_query q) k of None \<Rightarrow> [] | Some v \<Rightarrow> v)"

definition form_has :: "web \<Rightarrow> string \<Rightarrow> bool" where
  "form_has q k = (k \<in> fst ` set (post_form q form_limit @ wb_query q))"

section \<open>Answers\<close>

text \<open>A transaction's answer: the database is the committed one, or as it was.\<close>

definition commit :: "store \<Rightarrow> err + ('a \<times> store) \<Rightarrow> (err \<Rightarrow> 'b answer) \<Rightarrow> ('a \<Rightarrow> 'b answer) \<Rightarrow> 'b answer \<times> store" where
  "commit s r fail ok = (case r of Inl e \<Rightarrow> (fail e, s) | Inr (a, s') \<Rightarrow> (ok a, s'))"

definition read_only :: "store \<Rightarrow> 'a result \<Rightarrow> (err \<Rightarrow> 'b answer) \<Rightarrow> ('a \<Rightarrow> 'b answer) \<Rightarrow> 'b answer \<times> store" where
  "read_only s r fail ok = (case r of Inl e \<Rightarrow> (fail e, s) | Inr a \<Rightarrow> (ok a, s))"

text \<open>A transaction in the middle of a route, and one whose error the route goes on with.\<close>

definition trying :: "store \<Rightarrow> err + ('a \<times> store) \<Rightarrow> (err \<Rightarrow> 'b answer) \<Rightarrow> ('a \<Rightarrow> store \<Rightarrow> 'b answer \<times> store) \<Rightarrow> 'b answer \<times> store" where
  "trying s r fail k = (case r of Inl e \<Rightarrow> (fail e, s) | Inr (a, s') \<Rightarrow> k a s')"

definition attempted :: "store \<Rightarrow> err + ('a \<times> store) \<Rightarrow> 'a result \<times> store" where
  "attempted s r = (case r of Inl e \<Rightarrow> (Inl e, s) | Inr (a, s') \<Rightarrow> (Inr a, s'))"

definition status_of :: "'a answer \<Rightarrow> nat \<times> string" where
  "status_of a = (case a of Refuse n c \<Rightarrow> (n, c) | Answer n _ \<Rightarrow> (n, []))"

definition writeTenantError :: "err \<Rightarrow> 'a answer" where
  "writeTenantError e =
     (if e = Tenant_ErrForbidden then Refuse 403 ''forbidden''
      else if e = Tenant_ErrConflict then Refuse 409 ''conflict'' else Refuse 404 ''not_found'')"

section \<open>Guards\<close>

definition authenticated :: "site \<Rightarrow> web \<Rightarrow> store \<Rightarrow> (session \<Rightarrow> store \<Rightarrow> 'a answer \<times> store) \<Rightarrow> 'a answer \<times> store" where
  "authenticated w q s k =
     (case Authenticate (st_hash w) (st_clock w 0) (wb_auth q) s of
        Inl _ \<Rightarrow> (Refuse 401 ''unauthorized'', s)
      | Inr (session, s) \<Rightarrow> k session s)"

definition authenticatedMutation :: "site \<Rightarrow> web \<Rightarrow> store \<Rightarrow> (session \<Rightarrow> store \<Rightarrow> 'a answer \<times> store) \<Rightarrow> 'a answer \<times> store" where
  "authenticatedMutation w q s k =
     authenticated w q s (\<lambda>session s.
       if \<not> ValidMutation (st_hash w) (st_service w) (wb_auth q) session then (Refuse 403 ''csrf_rejected'', s) else k session s)"

definition validFormContentType :: "web \<Rightarrow> bool" where
  "validFormContentType q = has_prefix (wb_content_type q) ''application/x-www-form-urlencoded''"

definition formMutation :: "site \<Rightarrow> web \<Rightarrow> store \<Rightarrow> (session \<Rightarrow> store \<Rightarrow> 'a answer \<times> store) \<Rightarrow> 'a answer \<times> store" where
  "formMutation w q s k =
     (if \<not> validFormContentType q then (Refuse 415 ''invalid_content_type'', s) else authenticatedMutation w q s k)"

definition member_of :: "web \<Rightarrow> session \<Rightarrow> store \<Rightarrow> (membership \<Rightarrow> 'a answer \<times> store) \<Rightarrow> 'a answer \<times> store" where
  "member_of q session s k =
     (case ResolveMembership (se_user session) (path_org q) s of Inl _ \<Rightarrow> (Refuse 404 ''not_found'', s) | Inr m \<Rightarrow> k m)"

definition workContext ::
  "site \<Rightarrow> web \<Rightarrow> bool \<Rightarrow> store \<Rightarrow> (session \<Rightarrow> membership \<Rightarrow> store \<Rightarrow> 'a answer \<times> store) \<Rightarrow> 'a answer \<times> store" where
  "workContext w q mutation s k =
     (if mutation then formMutation w q s (\<lambda>session s. member_of q session s (\<lambda>m. k session m s))
      else authenticated w q s (\<lambda>session s. member_of q session s (\<lambda>m. k session m s)))"

definition managers :: "membership \<Rightarrow> store \<Rightarrow> 'a answer \<times> store \<Rightarrow> 'a answer \<times> store" where
  "managers m s k = (if ms_role m \<noteq> Owner \<and> ms_role m \<noteq> Admin then (Refuse 403 ''forbidden'', s) else k)"

text \<open>\<^verbatim>\<open>Gate.Check\<close>; \<^verbatim>\<open>New\<close> puts \<^verbatim>\<open>UnlimitedGate\<close> where the configuration has no gate.\<close>

definition gate_check :: "site \<Rightarrow> store \<Rightarrow> id \<Rightarrow> capability \<Rightarrow> decision result" where
  "gate_check w s org cap = (if st_gated w then Check (Some (EffectivePlan (st_dbnow w) s)) org cap else UnlimitedCheck org cap)"

definition gate_allows :: "site \<Rightarrow> store \<Rightarrow> id \<Rightarrow> capability \<Rightarrow> bool" where
  "gate_allows w s org cap = (case gate_check w s org cap of Inl _ \<Rightarrow> False | Inr d \<Rightarrow> dn_allowed d)"

section \<open>Identifiers and limits\<close>

definition newUUID :: "site \<Rightarrow> nat \<Rightarrow> id" where "newUUID w k = newID (st_rnd w k)"

definition now :: "site \<Rightarrow> time" where "now w = st_clock w 1"

definition pageLimit :: "string \<Rightarrow> nat option" where
  "pageLimit v =
     (if v = [] then Some 50
      else case Atoi v of None \<Rightarrow> None | Some n \<Rightarrow> if n > 0 \<and> n \<le> 100 then Some (nat n) else None)"

definition request_id_char :: "char \<Rightarrow> bool" where
  "request_id_char c = (97 \<le> byte c \<and> byte c \<le> 122 \<or> 65 \<le> byte c \<and> byte c \<le> 90 \<or> 48 \<le> byte c \<and> byte c \<le> 57 \<or> c = CHR ''-'' \<or> c = CHR ''_'')"

definition validRequestID :: "string \<Rightarrow> bool" where
  "validRequestID v = (8 \<le> length v \<and> length v \<le> 64 \<and> list_all request_id_char v)"

section \<open>Routes of the server itself\<close>

definition dashboardAuthorized :: "(bytes \<Rightarrow> bytes) \<Rightarrow> string \<Rightarrow> string list \<Rightarrow> bool" where
  "dashboardAuthorized hash header candidates = list_ex (\<lambda>c. hash (trim_prefix header ''Bearer '') = hash c) candidates"

text \<open>The limit of the dashboard: the start of the current minute and the requests it has seen.\<close>

definition allow :: "time \<Rightarrow> time \<times> int \<Rightarrow> bool \<times> (time \<times> int)" where
  "allow clock = (\<lambda>(started, n).
     let (started, n) = (if clock - started \<ge> Minute then (clock, 0) else (started, n)) in (n + 1 \<le> 120, (started, n + 1)))"

definition dashboard ::
  "(bytes \<Rightarrow> bytes) \<Rightarrow> string list \<Rightarrow> time \<Rightarrow> string \<Rightarrow> 'a result \<Rightarrow> time \<times> int \<Rightarrow> 'a answer \<times> (time \<times> int)" where
  "dashboard hash tokens clock header snapshot limits =
     (let (allowed, limits) = allow clock limits in
      (if \<not> allowed then Refuse 429 ''rate_limited''
       else if \<not> dashboardAuthorized hash header tokens then Refuse 401 ''unauthorized''
       else case snapshot of Inl _ \<Rightarrow> Refuse 503 ''dashboard_unavailable'' | Inr v \<Rightarrow> Answer 200 v, limits))"

text \<open>The id under which a request is logged: the client's own only with access to the dashboard.\<close>

definition observed_id :: "(bytes \<Rightarrow> bytes) \<Rightarrow> string list \<Rightarrow> string \<Rightarrow> string \<Rightarrow> string \<Rightarrow> string \<Rightarrow> string" where
  "observed_id hash tokens path header given fresh =
     (if path = ''/v1/dashboard'' \<and> dashboardAuthorized hash header tokens \<and> validRequestID given then given else fresh)"

end
