(* ===== verification/TenantRoutes.thy ===== *)
theory TenantRoutes
  imports Http
begin

text \<open>
  The routes of organizations: src/api/internal/httpapi/tenant_routes.go and business_profile_routes.go, over the transactions of
  Tenant.  \<open>st_accepts\<close> is the server's verdict on a statement with a parameter it cannot type.  A multipart form is its
  values and its file, or not readable; \<open>detect\<close> is \<^verbatim>\<open>http.DetectContentType\<close>.
\<close>

section \<open>Organizations\<close>

definition listOrganizations :: "site \<Rightarrow> web \<Rightarrow> store \<Rightarrow> organization list answer \<times> store" where
  "listOrganizations w q s =
     authenticated w q s (\<lambda>session s. (Answer 200 (ListOrganizations (st_collate w) (se_user session) s), s))"

definition createOrganization :: "site \<Rightarrow> web \<Rightarrow> store \<Rightarrow> organization answer \<times> store" where
  "createOrganization w q s =
     formMutation w q s (\<lambda>session s.
       let name = TrimSpace (form_value q ''name'') in
       if name = [] \<or> rune_count name > 160 then (Refuse 422 ''invalid_name'', s)
       else commit s (CreateOrganization (map (st_uuids w) [0..<3]) True (se_user session) (newUUID w 0) name (now w) s)
              (\<lambda>e. Refuse 409 ''organization_not_created'') (Answer 201))"

definition organization_route :: "site \<Rightarrow> web \<Rightarrow> store \<Rightarrow> membership answer \<times> store" where
  "organization_route w q s = authenticated w q s (\<lambda>session s. member_of q session s (\<lambda>m. (Answer 200 m, s)))"

definition listMemberships :: "site \<Rightarrow> web \<Rightarrow> store \<Rightarrow> membership list answer \<times> store" where
  "listMemberships w q s =
     authenticated w q s (\<lambda>session s.
       read_only s (ListMemberships (st_collate w) (se_user session) (path_org q) s) writeTenantError (Answer 200))"

section \<open>Invitations\<close>

definition createInvitation :: "site \<Rightarrow> web \<Rightarrow> store \<Rightarrow> (id \<times> string \<times> time) answer \<times> store" where
  "createInvitation w q s =
     formMutation w q s (\<lambda>session s.
       case randomToken (st_rnd w 0) of
         Inl _ \<Rightarrow> (Refuse 503 ''invitation_unavailable'', s)
       | Inr token \<Rightarrow>
           commit s (CreateInvitation \<lparr>ic_id = newUUID w 1, ic_org = path_org q, ic_actor = se_user session,
                       ic_token_hash = st_hash w token, ic_now = now w, ic_expires_at = now w + 24 * Hour\<rparr> s)
             writeTenantError (\<lambda>_. Answer 201 (newUUID w 1, token, now w + 24 * Hour)))"

definition inviteReturnPath :: "string \<Rightarrow> string \<times> bool" where
  "inviteReturnPath v = (if v = [] then (''/invite/accept'', True) else (v, v = ''/invite/accept''))"

definition claimInvitation :: "site \<Rightarrow> web \<Rightarrow> store \<Rightarrow> (invitation \<times> string) answer \<times> store" where
  "claimInvitation w q s =
     (if \<not> validFormContentType q then (Refuse 415 ''invalid_content_type'', s)
      else
        let token = form_value q ''token''; (return_to, safe) = inviteReturnPath (form_value q ''return_to'') in
        if token = [] \<or> \<not> safe then (Refuse 404 ''invalid_invite'', s)
        else case randomToken (st_rnd w 0) of
          Inl _ \<Rightarrow> (Refuse 503 ''invitation_unavailable'', s)
        | Inr handoff \<Rightarrow>
            commit s (ClaimInvitation \<lparr>il_token_hash = st_hash w token, il_handoff_hash = st_hash w handoff, il_return_to = return_to,
                        il_now = now w, il_expires_at = now w + 5 * Minute\<rparr> s)
              (\<lambda>e. Refuse 404 ''invalid_invite'')
              (\<lambda>r. case r of Inl _ \<Rightarrow> Refuse 404 ''invalid_invite'' | Inr i \<Rightarrow> Answer 200 (i, handoff)))"

definition acceptInvitation :: "site \<Rightarrow> web \<Rightarrow> store \<Rightarrow> organization answer \<times> store" where
  "acceptInvitation w q s =
     formMutation w q s (\<lambda>session s.
       let handoff = form_value q ''handoff_token'' in
       if handoff = [] then (Refuse 404 ''invalid_invite'', s)
       else commit s (AcceptInvitation (st_hash w handoff) (se_user session) (now w) s) (\<lambda>e. Refuse 404 ''invalid_invite'') (Answer 200))"

definition revokeInvitation :: "site \<Rightarrow> web \<Rightarrow> store \<Rightarrow> unit answer \<times> store" where
  "revokeInvitation w q s =
     formMutation w q s (\<lambda>session s.
       commit s (RevokeInvitation (st_accepts w) (path_org q) (se_user session) (path_value q ''invitation'') (now w) s)
         writeTenantError (Answer 204))"

section \<open>Members\<close>

fun role_of_name :: "string \<Rightarrow> role" where
  "role_of_name v = (if v = ''Owner'' then Owner else if v = ''Admin'' then Admin else if v = ''Member'' then Member else OtherRole v)"

definition changeRole :: "site \<Rightarrow> web \<Rightarrow> store \<Rightarrow> unit answer \<times> store" where
  "changeRole w q s =
     formMutation w q s (\<lambda>session s.
       commit s (ChangeRole (path_org q) (se_user session) (path_value q ''user'') (role_of_name (form_value q ''role'')) (now w) s)
         writeTenantError (Answer 204))"

definition transferOwnership :: "site \<Rightarrow> web \<Rightarrow> store \<Rightarrow> unit answer \<times> store" where
  "transferOwnership w q s =
     formMutation w q s (\<lambda>session s.
       let target = form_value q ''user_id'' in
       if target = [] then (Refuse 422 ''invalid_user'', s)
       else commit s (TransferOwnership (path_org q) (se_user session) target (now w) s) writeTenantError (Answer 204))"

definition removeMembership :: "site \<Rightarrow> web \<Rightarrow> store \<Rightarrow> unit answer \<times> store" where
  "removeMembership w q s =
     formMutation w q s (\<lambda>session s.
       commit s (RemoveMembership (st_dbnow w) (path_org q) (se_user session) (path_value q ''user'') (now w) s)
         writeTenantError (Answer 204))"

definition leaveOrganization :: "site \<Rightarrow> web \<Rightarrow> store \<Rightarrow> unit answer \<times> store" where
  "leaveOrganization w q s =
     formMutation w q s (\<lambda>session s.
       commit s (LeaveOrganization (st_dbnow w) (path_org q) (se_user session) (now w) s) writeTenantError (Answer 204))"

section \<open>LINE groups\<close>

definition listLineConnections :: "site \<Rightarrow> web \<Rightarrow> store \<Rightarrow> line_connection list answer \<times> store" where
  "listLineConnections w q s =
     authenticated w q s (\<lambda>session s. read_only s (ListLineConnections (path_org q) (se_user session) s) writeTenantError (Answer 200))"

definition createLineLinkCode :: "site \<Rightarrow> web \<Rightarrow> store \<Rightarrow> (string \<times> time) answer \<times> store" where
  "createLineLinkCode w q s =
     formMutation w q s (\<lambda>session s.
       if now w - se_authenticated_at session > 10 * Minute then (Refuse 403 ''recent_auth_required'', s)
       else case randomToken (st_rnd w 0) of
         Inl _ \<Rightarrow> (Refuse 503 ''line_link_unavailable'', s)
       | Inr link \<Rightarrow>
           let issued = st_clock w 2 in
           commit s (CreateLineLinkCode \<lparr>lk_id = newUUID w 1, lk_org = path_org q, lk_actor = se_user session, lk_channel = st_channel w,
                       lk_code_hash = st_hash w link, lk_now = issued, lk_expires_at = issued + 10 * Minute\<rparr> s)
             writeTenantError (\<lambda>_. Answer 201 (link, issued + 10 * Minute)))"

definition disconnectLineConnection :: "site \<Rightarrow> web \<Rightarrow> store \<Rightarrow> unit answer \<times> store" where
  "disconnectLineConnection w q s =
     formMutation w q s (\<lambda>session s.
       commit s (DisconnectLineConnection (path_org q) (se_user session) (path_value q ''connection'') (now w) s)
         writeTenantError (Answer 204))"

section \<open>The business profile\<close>

definition getBusinessProfile :: "site \<Rightarrow> web \<Rightarrow> store \<Rightarrow> (business_profile \<times> bool) answer \<times> store" where
  "getBusinessProfile w q s =
     authenticated w q s (\<lambda>session s.
       read_only s (GetBusinessProfile (se_user session) (path_org q) s)
         (\<lambda>e. if e = Tenant_ErrNotFound then Refuse 404 ''not_found'' else Refuse 503 ''business_unavailable'') (Answer 200))"

text \<open>\<^verbatim>\<open>http.NotFound\<close> writes no code; the answer is the type and the bytes of the logo.\<close>

definition businessLogo :: "site \<Rightarrow> web \<Rightarrow> store \<Rightarrow> (string \<times> bytes) answer \<times> store" where
  "businessLogo w q s =
     authenticated w q s (\<lambda>session s.
       read_only s (GetBusinessProfile (se_user session) (path_org q) s) (\<lambda>e. Refuse 404 [])
         (\<lambda>(p, has_logo). case bp_logo p of
            Some logo \<Rightarrow> if has_logo then Answer 200 (bp_logo_type p, logo) else Refuse 404 []
          | None \<Rightarrow> Refuse 404 []))"

definition business_types :: "string list" where
  "business_types =
     [thai [3610, 3619, 3636, 3625, 3633, 3607, 3592, 3635, 3585, 3633, 3604],
      thai [3627, 3657, 3634, 3591, 3627, 3640, 3657, 3609, 3626, 3656, 3623, 3609, 3592, 3635, 3585, 3633, 3604],
      thai [3627, 3657, 3634, 3591, 3627, 3640, 3657, 3609, 3626, 3656, 3623, 3609, 3626, 3634, 3617, 3633, 3597],
      thai [3627, 3657, 3634, 3591, 3627, 3640, 3657, 3609, 3626, 3656, 3623, 3609, 3626, 3634, 3617, 3633, 3597, 3609, 3636, 3605, 3636, 3610, 3640, 3588, 3588, 3621],
      thai [3610, 3619, 3636, 3625, 3633, 3607, 3617, 3627, 3634, 3594, 3609, 3592, 3635, 3585, 3633, 3604],
      thai [3619, 3657, 3634, 3609, 3588, 3657, 3634, 47, 3585, 3636, 3592, 3585, 3634, 3619, 3648, 3592, 3657, 3634, 3586, 3629, 3591, 3588, 3609, 3648, 3604, 3637, 3618, 3623],
      thai [3588, 3603, 3632, 3610, 3640, 3588, 3588, 3621],
      thai [3617, 3641, 3621, 3609, 3636, 3608, 3636],
      thai [3626, 3617, 3634, 3588, 3617],
      thai [3626, 3627, 3585, 3619, 3603, 3660],
      thai [3610, 3640, 3588, 3588, 3621, 3608, 3619, 3619, 3617, 3604, 3634, 47, 3615, 3619, 3637, 3649, 3621, 3609, 3595, 3660]]"

definition businessDigits :: "string \<Rightarrow> bool" where "businessDigits v = (v \<noteq> [] \<and> list_all is_digit v)"

definition fits :: "string \<Rightarrow> nat \<Rightarrow> bool" where "fits v n = (rune_count v \<le> n)"

definition validBusinessProfile :: "business_profile \<Rightarrow> bool" where
  "validBusinessProfile p =
     (bp_business_type p \<in> set business_types \<and> bp_vat_status p \<in> {''registered'', ''unregistered''}
      \<and> bp_branch_type p \<in> {''head'', ''branch'', ''none''}
      \<and> bp_name_th p \<noteq> [] \<and> fits (bp_name_th p) 160 \<and> fits (bp_name_en p) 160 \<and> fits (bp_address_1 p) 240
      \<and> fits (bp_address_2 p) 240 \<and> fits (bp_district p) 120 \<and> fits (bp_province p) 120
      \<and> (bp_tax_id p = [] \<or> length (bp_tax_id p) = 13 \<and> businessDigits (bp_tax_id p))
      \<and> (bp_postal_code p = [] \<or> length (bp_postal_code p) = 5 \<and> businessDigits (bp_postal_code p))
      \<and> 9 \<le> length (bp_phone p) \<and> length (bp_phone p) \<le> 10 \<and> businessDigits (bp_phone p))"

text \<open>A multipart form adds its values behind those of the query.\<close>

record multipart =
  mp_values :: "(string \<times> string) list"
  mp_file :: "bytes result option"

definition profile_of :: "(string \<Rightarrow> string) \<Rightarrow> business_profile" where
  "profile_of v =
     (let t = (\<lambda>k. TrimSpace (v k)) in
      \<lparr>bp_business_type = t ''business_type'', bp_vat_status = t ''vat_status'', bp_branch_type = t ''branch_type'',
       bp_name_th = t ''name_th'', bp_name_en = t ''name_en'', bp_tax_id = t ''tax_id'', bp_address_1 = t ''address_1'',
       bp_address_2 = t ''address_2'', bp_district = t ''district'', bp_province = t ''province'', bp_postal_code = t ''postal_code'',
       bp_phone = t ''phone'', bp_logo = None, bp_logo_type = []\<rparr>)"

text \<open>The file part: none is no change of the logo, an empty one neither.\<close>

definition with_logo :: "(bytes \<Rightarrow> string) \<Rightarrow> bytes result option \<Rightarrow> business_profile \<Rightarrow> unit answer + business_profile" where
  "with_logo detect file p =
     (case file of
        None \<Rightarrow> Inr p
      | Some (Inl _) \<Rightarrow> Inl (Refuse 422 ''invalid_logo'')
      | Some (Inr logo) \<Rightarrow>
          if length logo > 524288 then Inl (Refuse 413 ''invalid_logo'')
          else if logo = [] then Inr p
          else if detect logo \<notin> {''image/png'', ''image/jpeg'', ''image/webp''} then Inl (Refuse 422 ''invalid_logo'')
          else Inr (p\<lparr>bp_logo := Some logo, bp_logo_type := detect logo\<rparr>))"

definition updateBusinessProfile :: "(bytes \<Rightarrow> string) \<Rightarrow> multipart option \<Rightarrow> site \<Rightarrow> web \<Rightarrow> store \<Rightarrow> unit answer \<times> store" where
  "updateBusinessProfile detect form w q s =
     (if \<not> has_prefix (wb_content_type q) ''multipart/form-data;'' then (Refuse 415 ''invalid_content_type'', s)
      else authenticatedMutation w q s (\<lambda>session s. member_of q session s (\<lambda>m.
        if \<not> Allows (ms_role m) EditOrganization then (Refuse 403 ''forbidden'', s)
        else case form of
          None \<Rightarrow> (Refuse 413 ''invalid_business'', s)
        | Some f \<Rightarrow>
            let p = profile_of (\<lambda>k. case map_of (wb_query q @ mp_values f) k of None \<Rightarrow> [] | Some v \<Rightarrow> v) in
            if \<not> validBusinessProfile p then (Refuse 422 ''invalid_business'', s)
            else case with_logo detect (mp_file f) p of
              Inl a \<Rightarrow> (a, s)
            | Inr p \<Rightarrow>
                commit s (UpdateBusinessProfile (se_user session) (ms_org m) p (now w) s)
                  (\<lambda>e. Refuse 503 ''business_not_saved'') (Answer 204))))"

end
