(* ===== verification/WorkRoutes.thy ===== *)
theory WorkRoutes
  imports Http
begin

text \<open>
  The routes of tasks, notifications and task exports: src/api/internal/httpapi/work_routes.go over the transactions of Work,
  WorkReads and Jobs.  The rows of an export are written to the client through \<open>emit\<close>, which can fail, and \<open>sent\<close> is the number of
  bytes written so far.
\<close>

section \<open>Errors and values\<close>

definition writeWorkError :: "err \<Rightarrow> 'a answer" where
  "writeWorkError e =
     (if e = Work_ErrForbidden then Refuse 403 ''forbidden'' else if e = Work_ErrConflict then Refuse 409 ''conflict''
      else if e = Work_ErrNotFound then Refuse 404 ''not_found'' else Refuse 503 ''work_unavailable'')"

definition validStatus :: "string \<Rightarrow> bool" where
  "validStatus v = (v = TaskOpen \<or> v = InProgress \<or> v = Done \<or> v = TaskCancelled)"

definition validPriority :: "string \<Rightarrow> bool" where
  "validPriority v = (v = Normal \<or> v = High \<or> v = Urgent)"

definition validDate :: "string \<Rightarrow> bool" where "validDate v = (v = [] \<or> parse_date v \<noteq> None)"

definition validCategory :: "string \<Rightarrow> bool" where
  "validCategory v = (v = ''Assignment'' \<or> v = ''TaskChange'' \<or> v = ''DueReminder'')"

definition validMode :: "string \<Rightarrow> bool" where "validMode v = (v = ''Immediate'' \<or> v = ''Digest'' \<or> v = ''Off'')"

text \<open>\<^verbatim>\<open>strconv.ParseBool\<close>.\<close>

definition ParseBool :: "string \<Rightarrow> bool option" where
  "ParseBool v =
     (if v \<in> {''1'', ''t'', ''T'', ''TRUE'', ''true'', ''True''} then Some True
      else if v \<in> {''0'', ''f'', ''F'', ''FALSE'', ''false'', ''False''} then Some False else None)"

definition task_answer :: "nat \<Rightarrow> task result \<Rightarrow> task answer" where
  "task_answer status r = (case r of Inl e \<Rightarrow> writeWorkError e | Inr t \<Rightarrow> Answer status t)"

section \<open>Tasks\<close>

definition createTask :: "site \<Rightarrow> web \<Rightarrow> store \<Rightarrow> task answer \<times> store" where
  "createTask w q s =
     workContext w q True s (\<lambda>session m s.
       if \<not> gate_allows w s (ms_org m) CreateTasks
       then (Refuse 402 (case gate_check w s (ms_org m) CreateTasks of
               Inr d \<Rightarrow> if dn_reason d = ''limit_reached'' then ''usage_limit_reached'' else ''feature_unavailable''
             | Inl _ \<Rightarrow> ''feature_unavailable''), s)
       else
         let title = TrimSpace (form_value q ''title''); description = form_value q ''description''; due = form_value q ''due_on'';
             priority = (if form_value q ''priority'' = [] then ''Normal'' else form_value q ''priority'')
         in if rune_count title < 1 \<or> rune_count title > 200 \<or> rune_count description > 5000 \<or> \<not> validPriority priority \<or> \<not> validDate due
            then (Refuse 422 ''invalid_task'', s)
            else commit s (CreateTask (st_server w) (st_events w 0) (st_dbnow w)
                     \<lparr>ct_id = newUUID w 0, ct_org = ms_org m, ct_actor = se_user session, ct_title = title, ct_description = description,
                      ct_assignee = form_value q ''assignee_user_id'', ct_due_on = due, ct_priority = priority, ct_now = now w\<rparr> s)
                   writeWorkError (task_answer 201))"

definition getTask :: "site \<Rightarrow> web \<Rightarrow> store \<Rightarrow> task answer \<times> store" where
  "getTask w q s =
     workContext w q False s (\<lambda>session m s.
       read_only s (GetTask (st_server w) (st_dbnow w) (se_user session) (ms_org m) (path_value q ''task'') s) writeWorkError (Answer 200))"

definition update_command :: "site \<Rightarrow> web \<Rightarrow> id \<Rightarrow> id \<Rightarrow> update_task" where
  "update_command w q org user =
     \<lparr>ut_id = path_value q ''task'', ut_org = org, ut_actor = user, ut_title = TrimSpace (form_value q ''title''),
      ut_description = form_value q ''description'', ut_assignee = form_value q ''assignee_user_id'', ut_due_on = form_value q ''due_on'',
      ut_status = form_value q ''status'', ut_priority = form_value q ''priority'', ut_title_set = form_has q ''title'',
      ut_description_set = form_has q ''description'', ut_assignee_set = form_has q ''assignee_user_id'',
      ut_due_on_set = form_has q ''due_on'', ut_status_set = form_has q ''status'', ut_priority_set = form_has q ''priority'', ut_now = now w\<rparr>"

definition valid_update :: "update_task \<Rightarrow> bool" where
  "valid_update c =
     ((ut_title_set c \<longrightarrow> 1 \<le> rune_count (ut_title c) \<and> rune_count (ut_title c) \<le> 200)
      \<and> (ut_description_set c \<longrightarrow> rune_count (ut_description c) \<le> 5000) \<and> (ut_status_set c \<longrightarrow> validStatus (ut_status c))
      \<and> (ut_priority_set c \<longrightarrow> validPriority (ut_priority c)) \<and> (ut_due_on_set c \<longrightarrow> validDate (ut_due_on c)))"

definition updateTask :: "site \<Rightarrow> web \<Rightarrow> store \<Rightarrow> task answer \<times> store" where
  "updateTask w q s =
     workContext w q True s (\<lambda>session m s.
       if form_error q form_limit then (Refuse 400 ''invalid_task'', s)
       else
         let c = update_command w q (ms_org m) (se_user session) in
         if \<not> valid_update c then (Refuse 422 ''invalid_task'', s)
         else commit s (UpdateTask (st_server w) (st_events w) (st_dbnow w) c s) writeWorkError (task_answer 200))"

definition setWatcher :: "bool \<Rightarrow> site \<Rightarrow> web \<Rightarrow> store \<Rightarrow> unit answer \<times> store" where
  "setWatcher add w q s =
     workContext w q True s (\<lambda>session m s.
       commit s (SetWatcher (st_events w 0) (ms_org m) (se_user session) (path_value q ''task'') (path_value q ''user'') add (now w) s)
         writeWorkError (Answer 204))"

section \<open>Filters\<close>

definition filter_keys :: "string list" where
  "filter_keys = [''status'', ''priority'', ''assignee_user_id'', ''creator_user_id'', ''due_from'', ''due_to'', ''created_from'',
     ''created_to'', ''overdue'', ''cursor'', ''limit'', ''csrf_token'']"

definition parseTaskFilter :: "web \<Rightarrow> ((nat \<times> string) + (task_filter \<times> string \<times> nat))" where
  "parseTaskFilter q =
     (if \<not> list_all (\<lambda>(k, v). k \<in> set filter_keys) (wb_query q) then Inl (400, ''invalid_filter'')
      else case pageLimit (query_value q ''limit'') of
        None \<Rightarrow> Inl (400, ''invalid_cursor'')
      | Some limit \<Rightarrow>
          let v = form_value q; overdue = ParseBool (v ''overdue'');
              f = \<lparr>tf_status = v ''status'', tf_priority = v ''priority'', tf_assignee = v ''assignee_user_id'', tf_creator = v ''creator_user_id'',
                   tf_due_from = v ''due_from'', tf_due_to = v ''due_to'', tf_created_from = v ''created_from'', tf_created_to = v ''created_to'',
                   tf_overdue = (if v ''overdue'' = [] then None else overdue)\<rparr>
          in if v ''overdue'' \<noteq> [] \<and> overdue = None then Inl (400, ''invalid_filter'')
             else if (tf_status f \<noteq> [] \<and> \<not> validStatus (tf_status f)) \<or> (tf_priority f \<noteq> [] \<and> \<not> validPriority (tf_priority f))
                \<or> \<not> validDate (tf_due_from f) \<or> \<not> validDate (tf_due_to f) \<or> \<not> validDate (tf_created_from f) \<or> \<not> validDate (tf_created_to f)
             then Inl (400, ''invalid_filter'')
             else Inr (f, v ''cursor'', limit))"

definition listTasks :: "site \<Rightarrow> web \<Rightarrow> store \<Rightarrow> (task list \<times> string) answer \<times> store" where
  "listTasks w q s =
     workContext w q False s (\<lambda>session m s.
       case parseTaskFilter q of
         Inl (n, c) \<Rightarrow> (Refuse n c, s)
       | Inr (f, cursor, limit) \<Rightarrow>
           read_only s (ListTasks (st_server w) (st_stamp w) (st_parse w) (st_dbnow w) (se_user session) (ms_org m) f limit cursor s)
             writeWorkError (Answer 200))"

section \<open>Notifications\<close>

definition listNotifications :: "site \<Rightarrow> web \<Rightarrow> store \<Rightarrow> (notification_item list \<times> string) answer \<times> store" where
  "listNotifications w q s =
     workContext w q False s (\<lambda>session m s.
       case pageLimit (query_value q ''limit'') of
         None \<Rightarrow> (Refuse 400 ''invalid_cursor'', s)
       | Some limit \<Rightarrow>
           read_only s (ListNotifications (st_stamp w) (st_parse w) (se_user session) (ms_org m) limit (query_value q ''cursor'') s)
             writeWorkError (Answer 200))"

definition markNotificationRead :: "site \<Rightarrow> web \<Rightarrow> store \<Rightarrow> unit answer \<times> store" where
  "markNotificationRead w q s =
     workContext w q True s (\<lambda>session m s.
       commit s (MarkNotificationRead (se_user session) (ms_org m) (path_value q ''notification'') (now w) s) writeWorkError (Answer 204))"

definition markAllNotificationsRead :: "site \<Rightarrow> web \<Rightarrow> store \<Rightarrow> unit answer \<times> store" where
  "markAllNotificationsRead w q s =
     workContext w q True s (\<lambda>session m s.
       commit s (MarkAllNotificationsRead (se_user session) (ms_org m) (now w) s) writeWorkError (Answer 204))"

definition listNotificationPreferences :: "site \<Rightarrow> web \<Rightarrow> store \<Rightarrow> preference_row list answer \<times> store" where
  "listNotificationPreferences w q s =
     workContext w q False s (\<lambda>session m s.
       read_only s (ListPreferences (st_dbnow w) (se_user session) (ms_org m) s) writeWorkError (Answer 200))"

definition setNotificationPreference :: "site \<Rightarrow> web \<Rightarrow> store \<Rightarrow> unit answer \<times> store" where
  "setNotificationPreference w q s =
     workContext w q True s (\<lambda>session m s.
       let p = \<lparr>np_org = ms_org m, np_user = se_user session, np_category = form_value q ''category'', np_web = form_value q ''web_mode'',
                np_line = form_value q ''line_mode'', np_updated_at = now w\<rparr>
       in if \<not> validCategory (np_category p) \<or> \<not> validMode (np_web p) \<or> \<not> validMode (np_line p) then (Refuse 422 ''invalid_preference'', s)
          else commit s (SetPreference p s) writeWorkError (Answer 204))"

section \<open>The dashboard\<close>

definition workDashboard :: "site \<Rightarrow> web \<Rightarrow> store \<Rightarrow> dashboard answer \<times> store" where
  "workDashboard w q s =
     workContext w q False s (\<lambda>session m s.
       read_only s (Dashboard (st_server w) (st_dbnow w) (se_user session) (ms_org m) s) writeWorkError (Answer 200))"

record assistant_summary =
  as_scope :: id
  as_generated_at :: time
  as_bullets :: "string list"

definition item_word :: string where "item_word = '' '' @ thai [3619, 3634, 3618, 3585, 3634, 3619]"

definition Summarize :: "dashboard \<Rightarrow> time \<Rightarrow> assistant_summary" where
  "Summarize d clock =
     \<lparr>as_scope = da_scope d, as_generated_at = clock,
      as_bullets =
        [thai [3591, 3634, 3609, 3607, 3637, 3656, 3605, 3657, 3629, 3591, 3650, 3615, 3585, 3633, 3626, 3586, 3629, 3591, 3588, 3640, 3603] @ '' '' @ Itoa (int (length (da_focus d))) @ item_word,
         thai [3591, 3634, 3609, 3648, 3585, 3636, 3609, 3585, 3635, 3627, 3609, 3604] @ '' '' @ Itoa (da_overdue d) @ item_word,
         thai [3585, 3634, 3619, 3649, 3592, 3657, 3591, 3648, 3605, 3639, 3629, 3609, 3607, 3637, 3656, 3618, 3633, 3591, 3652, 3617, 3656, 3629, 3656, 3634, 3609] @ '' '' @ Itoa (da_unread d) @ item_word]
        @ (if da_role d = Owner \<or> da_role d = Admin then [thai [3591, 3634, 3609, 3651, 3609, 3588, 3636, 3623, 3607, 3637, 3617] @ '' '' @ Itoa (int (length (da_queue d))) @ item_word] else [])\<rparr>"

definition assistantSummary :: "site \<Rightarrow> web \<Rightarrow> store \<Rightarrow> assistant_summary answer \<times> store" where
  "assistantSummary w q s =
     workContext w q False s (\<lambda>session m s.
       if \<not> gate_allows w s (ms_org m) UseAssistant then (Refuse 402 ''feature_unavailable'', s)
       else read_only s (Dashboard (st_server w) (st_dbnow w) (se_user session) (ms_org m) s) writeWorkError
              (\<lambda>d. Answer 200 (Summarize d (now w))))"

section \<open>Exports\<close>

text \<open>\<^verbatim>\<open>json.Marshal\<close> of a filter, whose fields have no tags.\<close>

definition json_of_filter :: "task_filter \<Rightarrow> string \<Rightarrow> nat \<Rightarrow> json" where
  "json_of_filter f cursor limit =
     (let t = (\<lambda>v. JString (json_utf8 v)) in
      JObject [(''Status'', t (tf_status f)), (''Priority'', t (tf_priority f)), (''AssigneeUserID'', t (tf_assignee f)),
        (''CreatorUserID'', t (tf_creator f)), (''DueFrom'', t (tf_due_from f)), (''DueTo'', t (tf_due_to f)),
        (''CreatedFrom'', t (tf_created_from f)), (''CreatedTo'', t (tf_created_to f)),
        (''Overdue'', (case tf_overdue f of None \<Rightarrow> JNull | Some b \<Rightarrow> JBool b)), (''Cursor'', t cursor), (''Limit'', JNumber (int limit))])"

definition deterministicExportID :: "(bytes \<Rightarrow> bytes) \<Rightarrow> id \<Rightarrow> id \<Rightarrow> string \<Rightarrow> id" where
  "deterministicExportID hash org user key =
     (let value = hash (org @ '':'' @ user @ '':'' @ key);
          v = value[6 := byte_char (byte (value ! 6) mod 16 + 80)];
          x = v[8 := byte_char (byte (v ! 8) mod 64 + 128)];
          encoded = hex_encode (take 16 x)
      in take 8 encoded @ ''-'' @ take 4 (drop 8 encoded) @ ''-'' @ take 4 (drop 12 encoded) @ ''-''
         @ take 4 (drop 16 encoded) @ ''-'' @ drop 20 encoded)"

datatype export_answer = ExportQueued export_job | ExportFile string "task_export_row list"

text \<open>An audit record whose error the route ignores.\<close>

definition audited :: "export_request \<Rightarrow> string \<Rightarrow> int \<Rightarrow> int \<Rightarrow> string \<Rightarrow> store \<Rightarrow> store" where
  "audited e lifecycle rows sent reason s = after s (AuditExport e lifecycle rows sent reason s)"

definition export_rows_sent :: "(task_export_row list \<Rightarrow> task_export_row \<Rightarrow> task_export_row list result) \<Rightarrow> site \<Rightarrow> id \<Rightarrow> id \<Rightarrow> task_filter \<Rightarrow> store
    \<Rightarrow> task_export_row list result" where
  "export_rows_sent emit w user org f s = ExportRows (st_server w) (st_dbnow w) user org f emit [] s"

definition stream_export ::
  "(task_export_row list \<Rightarrow> task_export_row \<Rightarrow> task_export_row list result) \<Rightarrow> int \<Rightarrow> site \<Rightarrow> export_request \<Rightarrow> task_filter \<Rightarrow> int \<Rightarrow> store
     \<Rightarrow> export_answer answer \<times> store" where
  "stream_export emit sent w e f found s =
     (case export_rows_sent emit w (eq_actor e) (eq_org e) f s of
        Inl _ \<Rightarrow> (Answer 200 (ExportFile (eq_format e) []), audited e ''failed'' found sent ''stream_failed'' s)
      | Inr rows \<Rightarrow> (Answer 200 (ExportFile (eq_format e) rows), audited e ''completed'' found sent [] s))"

definition export_body ::
  "(task_export_row list \<Rightarrow> task_export_row \<Rightarrow> task_export_row list result) \<Rightarrow> int \<Rightarrow> site \<Rightarrow> export_request \<Rightarrow> task_filter \<Rightarrow> store
     \<Rightarrow> export_answer answer \<times> store" where
  "export_body emit sent w e f s =
     (case AuditExport e ''requested'' 0 0 [] s of
        Inl _ \<Rightarrow> (Refuse 503 ''export_unavailable'', s)
      | Inr (_, s) \<Rightarrow>
          (case CountExport (st_server w) (st_dbnow w) (eq_actor e) (eq_org e) f s of
             Inl err \<Rightarrow> (writeWorkError err, audited e ''failed'' 0 0 ''count_failed'' s)
           | Inr found \<Rightarrow>
               if found > 100000 \<or> eq_format e = ''xlsx'' \<and> found > 50000
               then (Refuse 413 ''export_too_large'', audited e ''rejected'' found 0 ''export_too_large'' s)
               else if found > 5000 then
                 (if \<not> gate_allows w s (eq_org e) ExportTasksAsync
                  then (Refuse 402 ''feature_unavailable'', audited e ''rejected'' found 0 ''feature_unavailable'' s)
                  else commit s (QueueExport (st_stamp w) e found s) writeWorkError (\<lambda>j. Answer 202 (ExportQueued j)))
               else stream_export emit sent w e f found s))"

definition exportTasks ::
  "(task_export_row list \<Rightarrow> task_export_row \<Rightarrow> task_export_row list result) \<Rightarrow> int \<Rightarrow> site \<Rightarrow> web \<Rightarrow> store \<Rightarrow> export_answer answer \<times> store" where
  "exportTasks emit sent w q s =
     workContext w q True s (\<lambda>session m s.
       managers m s
         (case parseTaskFilter q of
            Inl (n, c) \<Rightarrow> (Refuse n c, s)
          | Inr (f, cursor, limit) \<Rightarrow>
              let fmt = (if form_value q ''format'' = [] then ''csv'' else form_value q ''format''); key = TrimSpace (wb_key q);
                  i = (if key \<noteq> [] then deterministicExportID (st_hash w) (ms_org m) (se_user session) key else newUUID w 0)
              in if fmt \<noteq> ''csv'' \<and> fmt \<noteq> ''xlsx'' then (Refuse 422 ''invalid_format'', s)
                 else if \<not> gate_allows w s (ms_org m) ExportTasks then (Refuse 402 ''feature_unavailable'', s)
                 else if key \<noteq> [] \<and> \<not> validRequestID key then (Refuse 400 ''invalid_idempotency_key'', s)
                 else export_body emit sent w
                   \<lparr>eq_id = i, eq_org = ms_org m, eq_actor = se_user session, eq_request = wb_request_id q,
                    eq_key = (if key \<noteq> [] then key else i), eq_format = fmt, eq_filters = json_of_filter f cursor limit, eq_now = now w\<rparr> f s))"

definition listExports :: "site \<Rightarrow> web \<Rightarrow> store \<Rightarrow> (export_job list \<times> string) answer \<times> store" where
  "listExports w q s =
     workContext w q False s (\<lambda>session m s.
       managers m s
         (case pageLimit (query_value q ''limit'') of
            None \<Rightarrow> (Refuse 400 ''invalid_cursor'', s)
          | Some limit \<Rightarrow>
              read_only s (ListExports (st_stamp w) (st_parse w) (se_user session) (ms_org m) limit (query_value q ''cursor'') s)
                writeWorkError (Answer 200)))"

definition artifact_link :: "site \<Rightarrow> id \<Rightarrow> id \<Rightarrow> id \<Rightarrow> (string \<times> time) result" where
  "artifact_link w job org user =
     (case st_secret w of
        None \<Rightarrow> Inl Job_ErrUnauthorized
      | Some secret \<Rightarrow>
          (case SignArtifact (st_hmac w) (st_marshal w) secret job org user (now w) of
             Inl e \<Rightarrow> Inl e
           | Inr token \<Rightarrow> Inr (''/v1/export-artifacts/'' @ job @ ''?token='' @ token, now w + 15 * Minute)))"

definition downloadExport :: "site \<Rightarrow> web \<Rightarrow> store \<Rightarrow> (string \<times> time) answer \<times> store" where
  "downloadExport w q s =
     workContext w q False s (\<lambda>session m s.
       if st_secret w = None then (Refuse 503 ''export_unavailable'', s)
       else case AuthorizeExportArtifact (st_dbnow w) s (se_user session) (ms_org m) (path_value q ''export'') of
         Inl e \<Rightarrow> (writeWorkError e, s)
       | Inr a \<Rightarrow>
           read_only s (artifact_link w (ea_job a) (ea_org a) (se_user session)) (\<lambda>e. Refuse 503 ''export_unavailable'') (Answer 200))"

end
