(* ===== verification/BusinessRoutes.thy ===== *)
theory BusinessRoutes
  imports Http
begin

text \<open>
  The routes of plans and vendors: src/api/internal/httpapi/business_routes.go over the transactions of Business and the catalog
  of Plans.  The decoder of zip files is the argument \<open>unzip\<close> of \<^verbatim>\<open>ParseImport\<close>.
\<close>

definition writeBusinessError :: "err \<Rightarrow> 'a answer" where
  "writeBusinessError e =
     (if e = Business_ErrInvalid then Refuse 422 ''invalid_vendor''
      else if e = Business_ErrDuplicate then Refuse 409 ''duplicate_vendor''
      else if e = Business_ErrForbidden then Refuse 403 ''forbidden''
      else if e = Business_ErrNotFound \<or> e = Business_ErrExpired then Refuse 404 ''not_found''
      else Refuse 503 ''business_unavailable'')"

section \<open>Plans\<close>

definition listPlans :: "plan_definition list answer" where "listPlans = Answer 200 Catalog"

definition organizationPlan :: "site \<Rightarrow> web \<Rightarrow> store \<Rightarrow> plan_definition answer \<times> store" where
  "organizationPlan w q s =
     workContext w q False s (\<lambda>session m s.
       (case EffectivePlan (st_dbnow w) s (ms_org m) of
          Inl _ \<Rightarrow> Refuse 503 ''plan_unavailable''
        | Inr key \<Rightarrow> (case Lookup key of None \<Rightarrow> Refuse 503 ''plan_unavailable'' | Some d \<Rightarrow> Answer 200 d), s))"

section \<open>Vendors\<close>

definition vendor_form :: "web \<Rightarrow> vendor_input" where
  "vendor_form q =
     \<lparr>vi_display_name = form_value q ''display_name'', vi_code = form_value q ''contact_code'', vi_country = form_value q ''country'',
      vi_tax_id = form_value q ''tax_id'', vi_branch = form_value q ''branch_code'', vi_customer = (form_value q ''customer'' = ''true'')\<rparr>"

definition createVendor :: "site \<Rightarrow> web \<Rightarrow> store \<Rightarrow> contact answer \<times> store" where
  "createVendor w q s =
     workContext w q True s (\<lambda>session m s.
       managers m s
         (if \<not> gate_allows w s (ms_org m) ManageBusinessContacts then (Refuse 402 ''feature_unavailable'', s)
          else case NormalizeVendor (st_casing w) (vendor_form q) of
            Inl _ \<Rightarrow> (Refuse 422 ''invalid_vendor'', s)
          | Inr c \<Rightarrow>
              commit s (CreateVendor (st_server w) (se_user session) (ms_org m) (c\<lparr>vc_id := newUUID w 0\<rparr>) (now w) s)
                writeBusinessError (Answer 201)))"

definition listVendors :: "site \<Rightarrow> web \<Rightarrow> store \<Rightarrow> (contact list \<times> string) answer \<times> store" where
  "listVendors w q s =
     workContext w q False s (\<lambda>session m s.
       case pageLimit (query_value q ''limit'') of
         None \<Rightarrow> (Refuse 400 ''invalid_cursor'', s)
       | Some limit \<Rightarrow>
           let search = TrimSpace (query_value q ''q'') in
           if rune_count search > 240 then (Refuse 400 ''invalid_search'', s)
           else read_only s (ListVendors (st_server w) (st_as_uuid w) (se_user session) (ms_org m) search (query_value q ''cursor'') limit s)
                  writeBusinessError (Answer 200))"

text \<open>A file of vendors: the text of a csv file, or the cells of the worksheet.\<close>

datatype vendor_file = VendorCSV string | VendorXLSX "(string \<times> string) list list"

definition export_capability :: "bool \<Rightarrow> capability" where
  "export_capability xlsx = (if xlsx then ExportXLSX else ExportCSV)"

definition exportVendors :: "site \<Rightarrow> web \<Rightarrow> store \<Rightarrow> vendor_file answer \<times> store" where
  "exportVendors w q s =
     workContext w q False s (\<lambda>session m s.
       managers m s
         (let xlsx = has_suffix (wb_path q) ''.xlsx'' in
          if \<not> gate_allows w s (ms_org m) (export_capability xlsx) then (Refuse 402 ''feature_unavailable'', s)
          else read_only s (ExportVendors (se_user session) (ms_org m) 5000 s) writeBusinessError
                 (\<lambda>contacts. Answer 200 (if xlsx then VendorXLSX (vendor_cells contacts) else VendorCSV (WriteVendorCSV contacts)))))"

section \<open>Imports\<close>

definition getVendorImportPreview :: "site \<Rightarrow> web \<Rightarrow> store \<Rightarrow> preview answer \<times> store" where
  "getVendorImportPreview w q s =
     workContext w q False s (\<lambda>session m s.
       managers m s
         (read_only s (GetImportPreview (st_parse w) (se_user session) (ms_org m) (path_value q ''preview'') (now w) s)
            writeBusinessError (Answer 200)))"

text \<open>A multipart body: it may fail to parse, hold no part \<^verbatim>\<open>file\<close>, or hold one whose bytes may fail to be read.\<close>

record import_file =
  im_filename :: string
  im_media_type :: string
  im_data :: "bytes option"

definition file_bytes :: "nat \<Rightarrow> import_file \<Rightarrow> bytes option" where
  "file_bytes limit f = (case im_data f of None \<Rightarrow> None | Some d \<Rightarrow> if length d > limit then None else Some d)"

definition previewVendorImport ::
  "(string \<Rightarrow> zip_file list option) \<Rightarrow> import_file option option \<Rightarrow> site \<Rightarrow> web \<Rightarrow> store \<Rightarrow> preview answer \<times> store" where
  "previewVendorImport unzip body w q s =
     (if \<not> has_prefix (wb_content_type q) ''multipart/form-data;'' then (Refuse 415 ''invalid_content_type'', s)
      else authenticatedMutation w q s (\<lambda>session s. member_of q session s (\<lambda>m.
        managers m s
          (if \<not> gate_allows w s (ms_org m) ImportBusinessContacts then (Refuse 402 ''feature_unavailable'', s)
           else case body of
             None \<Rightarrow> (Refuse 413 ''invalid_import'', s)
           | Some None \<Rightarrow> (Refuse 422 ''invalid_import'', s)
           | Some (Some f) \<Rightarrow>
               (case file_bytes maxImportBytes f of
                  None \<Rightarrow> (Refuse 413 ''invalid_import'', s)
                | Some data \<Rightarrow>
                    (case ParseImport (st_casing w) unzip (im_filename f) (im_media_type f) data of
                       Inl _ \<Rightarrow> (Refuse 422 ''invalid_import'', s)
                     | Inr contacts \<Rightarrow>
                         commit s (CreateImportPreview (st_casing w) (st_server w) (st_stamp w) (se_user session) (ms_org m)
                                     (newUUID w 0) contacts (now w) s)
                           writeBusinessError (Answer 201)))))))"

definition commitVendorImport :: "site \<Rightarrow> web \<Rightarrow> store \<Rightarrow> (nat \<times> nat) answer \<times> store" where
  "commitVendorImport w q s =
     workContext w q True s (\<lambda>session m s.
       managers m s
         (if \<not> gate_allows w s (ms_org m) ImportBusinessContacts then (Refuse 402 ''feature_unavailable'', s)
          else commit s (CommitImport (st_casing w) (st_server w) (st_parse w) (st_uuids w) (se_user session) (ms_org m)
                           (path_value q ''preview'') (now w) s)
                 writeBusinessError (Answer 201)))"

end
