(* ===== verification/Drive.thy ===== *)
theory Drive
  imports Auth Work Revision
begin

text \<open>
  Google Drive connections: src/api/internal/drive/drive.go and src/api/internal/postgres/drive.go over the tables and
  stored functions of migration 000005.  The Owner starts an authorization attempt, the callback consumes it, exchanges the
  code, and stores the refresh token sealed under the organization's id; a token that Google refuses is dropped and the Owner
  gets a task to connect again.

  Google is an argument (\<open>provider\<close>), and so are AES-GCM (\<open>aead\<close>), SHA-256 and the random source.  The service's methods
  return a result and the database, since the transactions they ran before an error stay committed.
\<close>

section \<open>Types\<close>

record oauth_attempt =
  oa_state :: string
  oa_code_challenge :: string
  oa_scopes :: "string list"

record drive_attempt =
  dt_state_hash :: bytes
  dt_browser_hash :: bytes
  dt_org :: id
  dt_org_name :: string
  dt_user :: id
  dt_session :: id
  dt_code_verifier :: string
  dt_created_at :: time
  dt_expires_at :: time

record credential =
  cr_access :: string
  cr_refresh :: string
  cr_subject :: string
  cr_email :: string

record connection =
  cn_org :: id
  cn_status :: string
  cn_email :: string
  cn_subject :: string
  cn_folder :: string
  cn_authorizer :: id
  cn_token :: bytes
  cn_nonce :: bytes
  cn_generation :: int
  cn_connected_at :: time
  cn_updated_at :: time

record drive_file =
  fi_id :: string
  fi_name :: string
  fi_mime :: string
  fi_revision :: string
  fi_size :: int
  fi_body :: "bytes option"

text \<open>\<^verbatim>\<open>Provider\<close>, with \<^verbatim>\<open>FileProvider\<close> for the providers that implement it.\<close>

record provider =
  AuthorizationURL :: "oauth_attempt \<Rightarrow> string"
  Exchange :: "string \<Rightarrow> string \<Rightarrow> credential result"
  CreateFolder :: "string \<Rightarrow> string \<Rightarrow> string result"
  Refresh :: "string \<Rightarrow> string result"
  DownloadFile :: "(string \<Rightarrow> string \<Rightarrow> string \<Rightarrow> drive_file result) option"

text \<open>\<^verbatim>\<open>cipher.AEAD\<close>: nonce, text and additional data.\<close>

record aead =
  Seal :: "bytes \<Rightarrow> bytes \<Rightarrow> bytes \<Rightarrow> bytes"
  Open :: "bytes \<Rightarrow> bytes \<Rightarrow> bytes \<Rightarrow> bytes option"

record drive_service =
  dv_provider :: provider
  dv_aead :: aead

record drive_start =
  st_url :: string
  st_state :: string
  st_browser :: string

definition StatusNotConnected :: string where "StatusNotConnected = ''Not Connected''"
definition StatusConnected :: string where "StatusConnected = ''Connected''"
definition StatusReauthorizationRequired :: string where "StatusReauthorizationRequired = ''Reauthorization Required''"

lemmas drive_statuses = StatusNotConnected_def StatusConnected_def StatusReauthorizationRequired_def

text \<open>\<^verbatim>\<open>New\<close>: \<open>gcm\<close> is AES-GCM under a key.\<close>

definition New :: "(bytes \<Rightarrow> aead) \<Rightarrow> provider option \<Rightarrow> bytes \<Rightarrow> drive_service result" where
  "New gcm p key =
     (case p of
        None \<Rightarrow> Inl (OtherError ''drive configuration is invalid'')
      | Some provider \<Rightarrow>
          if length key \<noteq> 32 then Inl (OtherError ''drive configuration is invalid'')
          else Inr \<lparr>dv_provider = provider, dv_aead = gcm key\<rparr>)"

section \<open>Attempts\<close>

definition attempt_row_check :: "drive_attempt_row \<Rightarrow> bool" where
  "attempt_row_check a =
     (length (da_state_hash a) = 32 \<and> length (da_browser_hash a) = 32 \<and> da_expires_at a > da_created_at a
      \<and> da_expires_at a \<le> da_created_at a + 10 * Minute)"

definition insert_attempt :: "drive_attempt_row \<Rightarrow> (unit, store) txn" where
  "insert_attempt a s =
     (if \<not> attempt_row_check a then Inl (CheckViolation ''drive_oauth_attempts'')
      else if row_exists (\<lambda>q. da_state_hash q = da_state_hash a) (drive_oauth_attempts s)
      then Inl (UniqueViolation ''drive_oauth_attempts_pkey'')
      else if \<not> row_exists (\<lambda>r. s_id r = da_session a) (sessions s)
      then Inl (ForeignKeyViolation ''drive_oauth_attempts_session_id_fkey'')
      else Inr ((), s\<lparr>drive_oauth_attempts := drive_oauth_attempts s @ [a]\<rparr>))"

definition SaveAttempt :: "drive_attempt \<Rightarrow> (unit, store) txn" where
  "SaveAttempt a s =
     (case currentRole (dt_user a) (dt_org a) s of
        Inl e \<Rightarrow> Inl e
      | Inr role \<Rightarrow>
          if role \<noteq> Owner then Inl Drive_ErrInvalidAttempt
          else insert_attempt \<lparr>da_state_hash = dt_state_hash a, da_browser_hash = dt_browser_hash a, da_org = dt_org a,
                 da_org_name = dt_org_name a, da_user = dt_user a, da_session = dt_session a, da_code_verifier = dt_code_verifier a,
                 da_created_at = dt_created_at a, da_expires_at = dt_expires_at a, da_consumed_at = None\<rparr> s)"

definition read_attempt :: "drive_attempt_row \<Rightarrow> drive_attempt" where
  "read_attempt a =
     \<lparr>dt_state_hash = da_state_hash a, dt_browser_hash = da_browser_hash a, dt_org = da_org a, dt_org_name = da_org_name a,
      dt_user = da_user a, dt_session = da_session a, dt_code_verifier = da_code_verifier a, dt_created_at = da_created_at a,
      dt_expires_at = da_expires_at a\<rparr>"

definition usable_attempt :: "bytes \<Rightarrow> time \<Rightarrow> drive_attempt_row \<Rightarrow> bool" where
  "usable_attempt state now a = (da_state_hash a = state \<and> da_consumed_at a = None \<and> da_expires_at a > now)"

text \<open>\<^verbatim>\<open>consume_drive_oauth_attempt\<close> with its caller.\<close>

definition ConsumeAttempt :: "bytes \<Rightarrow> time \<Rightarrow> (drive_attempt, store) txn" where
  "ConsumeAttempt state now s =
     (case query_row (usable_attempt state now) (drive_oauth_attempts s) of
        None \<Rightarrow> Inl Drive_ErrInvalidAttempt
      | Some a \<Rightarrow>
          Inr (read_attempt a, s\<lparr>drive_oauth_attempts :=
            sql_update (usable_attempt state now) (\<lambda>a. a\<lparr>da_consumed_at := Some now\<rparr>) (drive_oauth_attempts s)\<rparr>))"

section \<open>Connections\<close>

definition connection_check :: "drive_connection_row \<Rightarrow> bool" where
  "connection_check c =
     (dc_status c \<in> {StatusConnected, StatusReauthorizationRequired, StatusNotConnected} \<and> 0 \<le> dc_generation c
      \<and> ((dc_status c = StatusConnected \<and> dc_subject c \<noteq> None \<and> dc_folder c \<noteq> None \<and> dc_authorizer c \<noteq> None
           \<and> dc_token c \<noteq> None \<and> dc_nonce c \<noteq> None)
         \<or> (dc_status c \<noteq> StatusConnected \<and> dc_token c = None \<and> dc_nonce c = None)))"

text \<open>The row after \<^verbatim>\<open>INSERT ... ON CONFLICT (organization_id) DO UPDATE\<close>.\<close>

definition connected_row :: "connection \<Rightarrow> int \<Rightarrow> drive_connection_row" where
  "connected_row c generation =
     \<lparr>dc_org = cn_org c, dc_status = StatusConnected, dc_subject = Some (cn_subject c), dc_email = Some (cn_email c),
      dc_folder = Some (cn_folder c), dc_authorizer = Some (cn_authorizer c), dc_token = Some (cn_token c),
      dc_nonce = Some (cn_nonce c), dc_generation = generation, dc_connected_at = Some (cn_connected_at c),
      dc_updated_at = cn_connected_at c, dc_disconnected_at = None\<rparr>"

definition connection_of :: "id \<Rightarrow> drive_connection_row \<Rightarrow> bool" where
  "connection_of org c = (dc_org c = org)"

definition upsert_connection :: "connection \<Rightarrow> store \<Rightarrow> int \<times> store" where
  "upsert_connection c s =
     (case query_row (connection_of (cn_org c)) (drive_connections s) of
        None \<Rightarrow> (1, s\<lparr>drive_connections := drive_connections s @ [connected_row c 1]\<rparr>)
      | Some r \<Rightarrow> (dc_generation r + 1, s\<lparr>drive_connections :=
            sql_update (connection_of (cn_org c)) (\<lambda>_. connected_row c (dc_generation r + 1)) (drive_connections s)\<rparr>))"

text \<open>The reconnect tasks of the generations before the new one, and the tasks still open for them.  The update sets only
  three columns; the CHECK of the tasks sees the rows it makes.\<close>

definition unresolved :: "id \<Rightarrow> int \<Rightarrow> reconnect_task_row \<Rightarrow> bool" where
  "unresolved org generation r = (dr_org r = org \<and> dr_resolved_at r = None \<and> dr_generation r < generation)"

definition reconnect_task :: "id \<Rightarrow> int \<Rightarrow> store \<Rightarrow> task_row \<Rightarrow> bool" where
  "reconnect_task org generation s t =
     (t_org t = org \<and> t_status t \<notin> {Done, TaskCancelled}
      \<and> row_exists (\<lambda>r. unresolved org generation r \<and> dr_task r = t_id t) (drive_reconnect_tasks s))"

definition finished_task :: "time \<Rightarrow> task_row \<Rightarrow> task_row" where
  "finished_task now t = t\<lparr>t_status := Done, t_updated_at := now, t_status_changed_at := now\<rparr>"

definition finish_reconnects :: "id \<Rightarrow> int \<Rightarrow> time \<Rightarrow> (unit, store) txn" where
  "finish_reconnects org generation now s =
     (let mine = reconnect_task org generation s in
      if list_ex (\<lambda>t. mine t \<and> \<not> task_check (finished_task now t)) (tasks s) then Inl (CheckViolation ''tasks'')
      else Inr ((), s\<lparr>tasks := sql_update mine (finished_task now) (tasks s),
             drive_reconnect_tasks := sql_update (unresolved org generation) (\<lambda>r. r\<lparr>dr_resolved_at := Some now\<rparr>) (drive_reconnect_tasks s)\<rparr>))"

definition SaveConnection :: "connection \<Rightarrow> (unit, store) txn" where
  "SaveConnection c s =
     (case currentRole (cn_authorizer c) (cn_org c) s of
        Inl e \<Rightarrow> Inl e
      | Inr role \<Rightarrow>
          if role \<noteq> Owner then Inl Drive_ErrInvalidAttempt
          else case upsert_connection c s of
            (generation, s1) \<Rightarrow>
              (case finish_reconnects (cn_org c) generation (cn_connected_at c) s1 of
                 Inl e \<Rightarrow> Inl e
               | Inr (_, s2) \<Rightarrow>
                   Inr ((), auditTenant (cn_org c) (cn_authorizer c) ''drive.connect'' ''drive_connection'' (cn_org c) (cn_connected_at c) s2)))"

text \<open>Who may not manage the organization sees neither the account nor the token; \<^verbatim>\<open>epoch\<close> is time 0.\<close>

definition read_connection :: "role \<Rightarrow> drive_connection_row \<Rightarrow> connection" where
  "read_connection role c =
     (let shown = (\<lambda>x. if role = Owner \<or> role = Admin then null_text x else []) in
      \<lparr>cn_org = dc_org c, cn_status = dc_status c, cn_email = shown (dc_email c), cn_subject = null_text (dc_subject c),
       cn_folder = shown (dc_folder c), cn_authorizer = shown (dc_authorizer c), cn_token = shown (dc_token c),
       cn_nonce = shown (dc_nonce c), cn_generation = dc_generation c,
       cn_connected_at = (case dc_connected_at c of None \<Rightarrow> 0 | Some t \<Rightarrow> t), cn_updated_at = dc_updated_at c\<rparr>)"

text \<open>\<open>zero\<close> is Go's zero time.\<close>

definition not_connected :: "time \<Rightarrow> id \<Rightarrow> connection" where
  "not_connected zero org =
     \<lparr>cn_org = org, cn_status = StatusNotConnected, cn_email = [], cn_subject = [], cn_folder = [], cn_authorizer = [],
      cn_token = [], cn_nonce = [], cn_generation = 0, cn_connected_at = zero, cn_updated_at = zero\<rparr>"

definition GetConnection :: "time \<Rightarrow> id \<Rightarrow> id \<Rightarrow> store \<Rightarrow> connection result" where
  "GetConnection zero actor org s =
     (case currentRole actor org s of
        Inl e \<Rightarrow> Inl e
      | Inr role \<Rightarrow>
          (case query_row (connection_of org) (drive_connections s) of
             None \<Rightarrow> Inr (not_connected zero org)
           | Some c \<Rightarrow> Inr (read_connection role c)))"

text \<open>The statement passes the actor as a second parameter that it never names; \<open>accepts\<close> is the server's verdict on it.\<close>

definition disconnected_row :: "time \<Rightarrow> drive_connection_row \<Rightarrow> drive_connection_row" where
  "disconnected_row now c =
     c\<lparr>dc_status := StatusNotConnected, dc_token := None, dc_nonce := None, dc_updated_at := now, dc_disconnected_at := Some now\<rparr>"

definition open_connection :: "id \<Rightarrow> drive_connection_row \<Rightarrow> bool" where
  "open_connection org c = (connection_of org c \<and> dc_status c \<noteq> StatusNotConnected)"

definition DisconnectStore :: "bool \<Rightarrow> id \<Rightarrow> id \<Rightarrow> time \<Rightarrow> (connection, store) txn" where
  "DisconnectStore accepts actor org now s =
     (case currentRole actor org s of
        Inl e \<Rightarrow> Inl e
      | Inr role \<Rightarrow>
          if role \<noteq> Owner then Inl Tenant_ErrForbidden
          else if \<not> accepts then Inl (StatementRejected ''could not determine data type of parameter $2'')
          else case query_row (open_connection org) (drive_connections s) of
            None \<Rightarrow> Inl Drive_ErrNotConnected
          | Some c \<Rightarrow>
              let s1 = s\<lparr>drive_connections := sql_update (open_connection org) (disconnected_row now) (drive_connections s)\<rparr>
              in Inr ((read_connection Owner c)\<lparr>cn_status := StatusNotConnected, cn_updated_at := now\<rparr>,
                      auditTenant org actor ''drive.disconnect'' ''drive_connection'' org now s1))"

section \<open>A refused credential\<close>

definition dropped_row :: "time \<Rightarrow> drive_connection_row \<Rightarrow> drive_connection_row" where
  "dropped_row now c =
     c\<lparr>dc_status := StatusReauthorizationRequired, dc_token := None, dc_nonce := None, dc_updated_at := now\<rparr>"

definition at_generation :: "id \<Rightarrow> int \<Rightarrow> drive_connection_row \<Rightarrow> bool" where
  "at_generation org generation c = (connection_of org c \<and> dc_generation c = generation \<and> dc_status c = StatusConnected)"

definition reconnect_title :: bytes where
  "reconnect_title = concat (map encode_rune [3648, 3594, 3639, 3656, 3629, 3617, 3605, 3656, 3629]) @ '' Google Drive ''
     @ concat (map encode_rune [3651, 3627, 3617, 3656])"

definition reconnect_text :: bytes where
  "reconnect_text = ''Google '' @ concat (map encode_rune [3586, 3629, 3585, 3634, 3619, 3618, 3639, 3609, 3618, 3633, 3609, 3626,
       3636, 3607, 3608, 3636, 3660, 3651, 3627, 3617, 3656, 32, 3585, 3619, 3640, 3603, 3634, 3648, 3611, 3636, 3604])
     @ '' Connections '' @ concat (map encode_rune [3649, 3621, 3632, 3648, 3594, 3639, 3656, 3629, 3617, 3605, 3656, 3629, 3629,
       3637, 3585, 3588, 3619, 3633, 3657, 3591])"

definition new_reconnect_task :: "id \<Rightarrow> id \<Rightarrow> id \<Rightarrow> time \<Rightarrow> task_row" where
  "new_reconnect_task i org owner now =
     \<lparr>t_id = i, t_org = org, t_title = reconnect_title, t_description = reconnect_text, t_creator = owner,
      t_assignee = Some owner, t_status = TaskOpen, t_priority = High, t_due_on = None, t_created_at = now, t_updated_at = now,
      t_status_changed_at = now, t_completed_at = None, t_completed_by = None\<rparr>"

text \<open>\<^verbatim>\<open>mark_drive_reconnect_required\<close>; \<^verbatim>\<open>INTO STRICT\<close> wants exactly one Owner.\<close>

definition add_reconnect_task :: "id \<Rightarrow> int \<Rightarrow> time \<Rightarrow> id \<Rightarrow> id \<Rightarrow> (unit, store) txn" where
  "add_reconnect_task org generation now i owner s =
     (if row_exists (\<lambda>r. dr_org r = org \<and> dr_generation r = generation) (drive_reconnect_tasks s) then Inr ((), s)
      else case insert_task (new_reconnect_task i org owner now) s of
        Inl e \<Rightarrow> Inl e
      | Inr (_, s1) \<Rightarrow> Inr ((), s1\<lparr>drive_reconnect_tasks := drive_reconnect_tasks s1 @
            [\<lparr>dr_org = org, dr_generation = generation, dr_task = i, dr_created_at = now, dr_resolved_at = None\<rparr>]\<rparr>))"

definition mark_drive_reconnect_required :: "id \<Rightarrow> int \<Rightarrow> time \<Rightarrow> id \<Rightarrow> (bool, store) txn" where
  "mark_drive_reconnect_required org generation now i s =
     (if \<not> row_exists (at_generation org generation) (drive_connections s) then Inr (False, s)
      else
        let s1 = s\<lparr>drive_connections := sql_update (at_generation org generation) (dropped_row now) (drive_connections s)\<rparr>;
            owners = filter (\<lambda>m. m_org m = org \<and> m_role m = Owner) (memberships s1)
        in case owners of
             [owner] \<Rightarrow>
               (case add_reconnect_task org generation now i (m_user owner) s1 of
                  Inl e \<Rightarrow> Inl e
                | Inr (_, s2) \<Rightarrow>
                    Inr (True, s2\<lparr>audit_events := audit_events s2 @
                      [\<lparr>au_org = Some org, au_actor = None, au_type = ''drive.reconnect_required'', au_target_type = ''drive_connection'',
                        au_target_id = org, au_request = None, au_outcome = ''success'', au_reason = Some ''invalid_grant'',
                        au_metadata = JObject [], au_at = now\<rparr>]\<rparr>))
           | _ \<Rightarrow> Inl (RaisedException ''query returned other than one row''))"

definition RequireReconnect :: "id \<Rightarrow> int \<Rightarrow> time \<Rightarrow> id \<Rightarrow> (unit, store) txn" where
  "RequireReconnect org generation now i s =
     (case mark_drive_reconnect_required org generation now i s of Inl e \<Rightarrow> Inl e | Inr (_, s1) \<Rightarrow> Inr ((), s1))"

section \<open>The service\<close>

definition DriveScopes :: "string list" where
  "DriveScopes = [''openid'', ''email'', ''https://www.googleapis.com/auth/drive.file'']"

definition Begin :: "drive_service \<Rightarrow> (bytes \<Rightarrow> bytes) \<Rightarrow> (nat \<Rightarrow> bytes option) \<Rightarrow> id \<Rightarrow> id \<Rightarrow> id \<Rightarrow> string \<Rightarrow> time
    \<Rightarrow> (drive_start, store) txn" where
  "Begin sv hash rnd org user session name now s =
     (case randomToken (rnd 0) of
        Inl e \<Rightarrow> Inl e
      | Inr state \<Rightarrow>
     (case randomToken (rnd 1) of
        Inl e \<Rightarrow> Inl e
      | Inr browser \<Rightarrow>
     (case randomToken (rnd 2) of
        Inl e \<Rightarrow> Inl e
      | Inr verifier \<Rightarrow>
     (case SaveAttempt \<lparr>dt_state_hash = hash state, dt_browser_hash = hash browser, dt_org = org, dt_org_name = name, dt_user = user,
             dt_session = session, dt_code_verifier = verifier, dt_created_at = now, dt_expires_at = now + 10 * Minute\<rparr> s of
        Inl e \<Rightarrow> Inl e
      | Inr (_, s1) \<Rightarrow>
          Inr (\<lparr>st_url = AuthorizationURL (dv_provider sv)
                  \<lparr>oa_state = state, oa_code_challenge = EncodeToString (hash verifier), oa_scopes = DriveScopes\<rparr>,
                st_state = state, st_browser = browser\<rparr>, s1)))))"

definition encrypt :: "drive_service \<Rightarrow> bytes option \<Rightarrow> bytes \<Rightarrow> id \<Rightarrow> (bytes \<times> bytes) result" where
  "encrypt sv nonce v org =
     (case nonce of None \<Rightarrow> Inl (OtherError ''rand'') | Some n \<Rightarrow> Inr (Seal (dv_aead sv) n v org, n))"

definition decrypt :: "drive_service \<Rightarrow> bytes \<Rightarrow> bytes \<Rightarrow> id \<Rightarrow> bytes result" where
  "decrypt sv v nonce org =
     (case Open (dv_aead sv) nonce v org of None \<Rightarrow> Inl (OtherError ''cipher: message authentication failed'') | Some p \<Rightarrow> Inr p)"

text \<open>The folder of an earlier connection of the same account is used again.\<close>

definition connection_folder :: "drive_service \<Rightarrow> connection \<Rightarrow> credential \<Rightarrow> string \<Rightarrow> string result" where
  "connection_folder sv existing cr name =
     (let folder = (if cn_subject existing = cr_subject cr then cn_folder existing else []) in
      if folder \<noteq> [] then Inr folder else CreateFolder (dv_provider sv) (cr_access cr) (''PlaiFlow - '' @ name))"

definition new_connection :: "drive_attempt \<Rightarrow> credential \<Rightarrow> id \<Rightarrow> string \<Rightarrow> bytes \<times> bytes \<Rightarrow> time \<Rightarrow> connection" where
  "new_connection a cr user folder sealed now =
     \<lparr>cn_org = dt_org a, cn_status = StatusConnected, cn_email = cr_email cr, cn_subject = cr_subject cr, cn_folder = folder,
      cn_authorizer = user, cn_token = fst sealed, cn_nonce = snd sealed, cn_generation = 1, cn_connected_at = now, cn_updated_at = now\<rparr>"

definition connect :: "drive_service \<Rightarrow> time \<Rightarrow> bytes option \<Rightarrow> time \<Rightarrow> drive_attempt \<Rightarrow> credential \<Rightarrow> id \<Rightarrow> (connection, store) txn" where
  "connect sv zero nonce now a cr user s =
     (case GetConnection zero user (dt_org a) s of
        Inl e \<Rightarrow> Inl e
      | Inr existing \<Rightarrow>
     (case connection_folder sv existing cr (dt_org_name a) of
        Inl e \<Rightarrow> Inl e
      | Inr folder \<Rightarrow>
     (case encrypt sv nonce (cr_refresh cr) (dt_org a) of
        Inl e \<Rightarrow> Inl e
      | Inr sealed \<Rightarrow>
          let c = new_connection a cr user folder sealed now in
          (case SaveConnection c s of Inl e \<Rightarrow> Inl e | Inr (_, s1) \<Rightarrow> Inr (c, s1)))))"

definition Complete :: "drive_service \<Rightarrow> time \<Rightarrow> (bytes \<Rightarrow> bytes) \<Rightarrow> bytes option \<Rightarrow> (nat \<Rightarrow> time) \<Rightarrow> string \<Rightarrow> string \<Rightarrow> id \<Rightarrow> id \<Rightarrow> string
    \<Rightarrow> store \<Rightarrow> connection result \<times> store" where
  "Complete sv zero hash nonce clock state browser user session code s =
     (if state = [] \<or> browser = [] \<or> code = [] then (Inl Drive_ErrInvalidAttempt, s)
      else case ConsumeAttempt (hash state) (clock 0) s of
        Inl _ \<Rightarrow> (Inl Drive_ErrInvalidAttempt, s)
      | Inr (a, s1) \<Rightarrow>
          if dt_browser_hash a \<noteq> hash browser \<or> dt_user a \<noteq> user \<or> dt_session a \<noteq> session
          then (Inl Drive_ErrInvalidAttempt, s1)
          else case Exchange (dv_provider sv) code (dt_code_verifier a) of
            Inl _ \<Rightarrow> (Inl Drive_ErrInvalidGrant, s1)
          | Inr cr \<Rightarrow>
              if cr_refresh cr = [] \<or> cr_subject cr = [] then (Inl Drive_ErrInvalidGrant, s1)
              else case connect sv zero nonce (clock 1) a cr user s1 of
                Inl e \<Rightarrow> (Inl e, s1)
              | Inr (c, s2) \<Rightarrow> (Inr c, s2))"

text \<open>The second component is the token that is sent to \<^verbatim>\<open>Revoke\<close>, whose answer is ignored.\<close>

definition Disconnect :: "drive_service \<Rightarrow> bool \<Rightarrow> id \<Rightarrow> id \<Rightarrow> time \<Rightarrow> (string option, store) txn" where
  "Disconnect sv accepts user org now s =
     (case DisconnectStore accepts user org now s of
        Inl e \<Rightarrow> Inl e
      | Inr (c, s1) \<Rightarrow>
          Inr (case decrypt sv (cn_token c) (cn_nonce c) org of Inl _ \<Rightarrow> None | Inr t \<Rightarrow> if t = [] then None else Some t, s1))"

definition CheckConnection :: "drive_service \<Rightarrow> time \<Rightarrow> id \<Rightarrow> id \<Rightarrow> time \<Rightarrow> id \<Rightarrow> store \<Rightarrow> unit result \<times> store" where
  "CheckConnection sv zero user org now i s =
     (case GetConnection zero user org s of
        Inl _ \<Rightarrow> (Inl Drive_ErrNotConnected, s)
      | Inr c \<Rightarrow>
          if cn_status c \<noteq> StatusConnected then (Inl Drive_ErrNotConnected, s)
          else case decrypt sv (cn_token c) (cn_nonce c) org of
            Inl e \<Rightarrow> (Inl e, s)
          | Inr token \<Rightarrow>
              (case Refresh (dv_provider sv) token of
                 Inr _ \<Rightarrow> (Inr (), s)
               | Inl e \<Rightarrow>
                   if e = Drive_ErrInvalidGrant
                   then (case RequireReconnect org (cn_generation c) now i s of
                           Inl e \<Rightarrow> (Inl e, s)
                         | Inr (_, s1) \<Rightarrow> (Inl Drive_ErrReconnectRequired, s1))
                   else (Inl e, s)))"

definition DownloadSelected :: "drive_service \<Rightarrow> time \<Rightarrow> id \<Rightarrow> id \<Rightarrow> string \<Rightarrow> string \<Rightarrow> time \<Rightarrow> id \<Rightarrow> store \<Rightarrow> drive_file result \<times> store" where
  "DownloadSelected sv zero user org file revision now i s =
     (if file = [] \<or> revision = [] then (Inl Drive_ErrFileChanged, s)
      else case DownloadFile (dv_provider sv) of
        None \<Rightarrow> (Inl Drive_ErrFileProvider, s)
      | Some download \<Rightarrow>
     (case GetConnection zero user org s of
        Inl _ \<Rightarrow> (Inl Drive_ErrNotConnected, s)
      | Inr c \<Rightarrow>
          if cn_status c \<noteq> StatusConnected then (Inl Drive_ErrNotConnected, s)
          else case decrypt sv (cn_token c) (cn_nonce c) org of
            Inl e \<Rightarrow> (Inl e, s)
          | Inr token \<Rightarrow>
              (case Refresh (dv_provider sv) token of
                 Inl e \<Rightarrow>
                   if e = Drive_ErrInvalidGrant then (Inl Drive_ErrReconnectRequired, after s (RequireReconnect org (cn_generation c) now i s))
                   else (Inl e, s)
               | Inr access \<Rightarrow>
                   (case download access file revision of
                      Inl e \<Rightarrow> (Inl e, s)
                    | Inr f \<Rightarrow>
                        if fi_id f \<noteq> file \<or> fi_revision f \<noteq> revision \<or> fi_body f = None then (Inl Drive_ErrFileChanged, s)
                        else (Inr f, s)))))"

section \<open>Runs\<close>

datatype drive_op =
    AttemptOp drive_attempt
  | ConsumeOp bytes time
  | ConnectOp connection
  | DisconnectOp bool id id time
  | RefusedOp id int time id

primrec drive_step :: "drive_op \<Rightarrow> store \<Rightarrow> store" where
  "drive_step (AttemptOp a) s = after s (SaveAttempt a s)"
| "drive_step (ConsumeOp state now) s = after s (ConsumeAttempt state now s)"
| "drive_step (ConnectOp c) s = after s (SaveConnection c s)"
| "drive_step (DisconnectOp accepts actor org now) s = after s (DisconnectStore accepts actor org now s)"
| "drive_step (RefusedOp org generation now i) s = after s (RequireReconnect org generation now i s)"

text \<open>Connections are unique and pass their CHECK.\<close>

definition drive_ok :: "store \<Rightarrow> bool" where
  "drive_ok s = (distinct (map dc_org (drive_connections s)) \<and> list_all connection_check (drive_connections s))"

definition generation_of :: "id \<Rightarrow> store \<Rightarrow> int" where
  "generation_of org s = (case query_row (connection_of org) (drive_connections s) of None \<Rightarrow> 0 | Some c \<Rightarrow> dc_generation c)"

definition credential_of :: "id \<Rightarrow> store \<Rightarrow> (bytes \<times> bytes) option" where
  "credential_of org s = (case query_row (connection_of org) (drive_connections s) of
     None \<Rightarrow> None
   | Some c \<Rightarrow> (case (dc_token c, dc_nonce c) of (Some t, Some n) \<Rightarrow> Some (t, n) | _ \<Rightarrow> None))"

definition credential_covers :: "(bytes \<times> bytes) option \<Rightarrow> (bytes \<times> bytes) option \<Rightarrow> bool" where
  "credential_covers u v = (v = u \<or> v = None)"

definition credential_step :: "id \<Rightarrow> store \<Rightarrow> store \<Rightarrow> bool" where
  "credential_step org s s' =
     (generation_of org s < generation_of org s'
      \<or> generation_of org s' = generation_of org s \<and> credential_covers (credential_of org s) (credential_of org s'))"

lemma credential_step_same [simp]: "drive_connections s' = drive_connections s \<Longrightarrow> credential_step org s s'"
  by (simp add: credential_step_def generation_of_def credential_of_def credential_covers_def)

lemma drive_ok_same: "drive_connections s' = drive_connections s \<Longrightarrow> drive_ok s \<Longrightarrow> drive_ok s'"
  by (simp add: drive_ok_def)

lemma upsert_connection_at:
  "query_row (connection_of org) (drive_connections (snd (upsert_connection c s))) =
     (if org = cn_org c then Some (connected_row c (fst (upsert_connection c s)))
      else query_row (connection_of org) (drive_connections s))"
proof (cases "query_row (connection_of (cn_org c)) (drive_connections s)")
  case None
  then show ?thesis
    by (auto simp: upsert_connection_def connection_of_def connected_row_def split: option.splits)
next
  case (Some r)
  have new: "connection_of k (connected_row c g) = (k = cn_org c)" for k g
    by (auto simp: connection_of_def connected_row_def)
  have other: "query_row (connection_of org) (sql_update (connection_of (cn_org c)) (\<lambda>_. connected_row c g) rows)
      = (if org = cn_org c then (if query_row (connection_of org) rows = None then None else Some (connected_row c g))
         else query_row (connection_of org) rows)" for g rows
    using new by (induction rows) (auto simp: connection_of_def)
  show ?thesis using Some by (simp add: upsert_connection_def other)
qed

lemma upsert_generation: "fst (upsert_connection c s) = generation_of (cn_org c) s + 1"
  by (simp add: upsert_connection_def generation_of_def split: option.splits)

lemma generation_nonneg:
  assumes "drive_ok s" shows "0 \<le> generation_of org s"
proof (cases "query_row (connection_of org) (drive_connections s)")
  case (Some c)
  then have "c \<in> set (drive_connections s)" by (auto dest: query_row_SomeD)
  then show ?thesis using assms Some by (auto simp: generation_of_def drive_ok_def list_all_iff connection_check_def)
qed (simp add: generation_of_def)

lemma upsert_ok:
  assumes "drive_ok s" shows "drive_ok (snd (upsert_connection c s))"
proof -
  have gen: "0 \<le> fst (upsert_connection c s)" using generation_nonneg [OF assms] by (simp add: upsert_generation)
  then have new: "connection_check (connected_row c (fst (upsert_connection c s)))"
    by (simp add: connection_check_def connected_row_def drive_statuses)
  show ?thesis
  proof (cases "query_row (connection_of (cn_org c)) (drive_connections s)")
    case None
    then have "cn_org c \<notin> dc_org ` set (drive_connections s)" by (auto simp: query_row_None_iff connection_of_def)
    then show ?thesis using assms new None by (auto simp: upsert_connection_def drive_ok_def connected_row_def)
  next
    case (Some r)
    have "map dc_org (sql_update (connection_of (cn_org c)) (\<lambda>_. connected_row c g) rows) = map dc_org rows" for g rows
      by (rule map_sql_update) (simp add: connection_of_def connected_row_def)
    then show ?thesis using assms new Some
      by (auto simp: upsert_connection_def drive_ok_def list_all_iff set_sql_update)
  qed
qed

lemma SaveConnectionE:
  assumes "SaveConnection c s = Inr (u, s')"
  obtains s1 s2 where "currentRole (cn_authorizer c) (cn_org c) s = Inr Owner" "s1 = snd (upsert_connection c s)"
    "finish_reconnects (cn_org c) (fst (upsert_connection c s)) (cn_connected_at c) s1 = Inr ((), s2)"
    "s' = auditTenant (cn_org c) (cn_authorizer c) ''drive.connect'' ''drive_connection'' (cn_org c) (cn_connected_at c) s2"
    "drive_connections s' = drive_connections s1" "memberships s' = memberships s" "organizations s' = organizations s"
proof -
  obtain s2 where s2: "currentRole (cn_authorizer c) (cn_org c) s = Inr Owner"
    "finish_reconnects (cn_org c) (fst (upsert_connection c s)) (cn_connected_at c) (snd (upsert_connection c s)) = Inr ((), s2)"
    "s' = auditTenant (cn_org c) (cn_authorizer c) ''drive.connect'' ''drive_connection'' (cn_org c) (cn_connected_at c) s2"
    using assms by (auto simp: SaveConnection_def split: sum.splits if_splits prod.splits)
  have "drive_connections s2 = drive_connections (snd (upsert_connection c s))" "memberships s2 = memberships (snd (upsert_connection c s))"
    "organizations s2 = organizations (snd (upsert_connection c s))"
    using s2(2) by (auto simp: finish_reconnects_def Let_def split: if_splits)
  moreover have "memberships (snd (upsert_connection c s)) = memberships s" "organizations (snd (upsert_connection c s)) = organizations s"
    by (simp_all add: upsert_connection_def split: option.splits)
  ultimately show thesis using that [OF s2(1) refl s2(2,3)] s2(3) by (simp add: auditTenant_def)
qed

lemma SaveConnection_step:
  assumes "SaveConnection c s = Inr (u, s')" "drive_ok s"
  shows "drive_ok s' \<and> credential_step org s s'"
  using assms(1)
proof (cases rule: SaveConnectionE)
  case (1 s1 s2)
  have "drive_ok s'" using upsert_ok [OF assms(2), of c] 1(5) unfolding 1(2) drive_ok_def by simp
  moreover have "credential_step org s s'"
  proof (cases "org = cn_org c")
    case True
    then have "generation_of org s' = generation_of org s + 1"
      by (simp add: generation_of_def 1(2,5) upsert_connection_at) (simp add: connected_row_def upsert_generation generation_of_def)
    then show ?thesis by (simp add: credential_step_def)
  next
    case False
    then show ?thesis
      by (simp add: credential_step_def generation_of_def credential_of_def 1(2,5) upsert_connection_at credential_covers_def)
  qed
  ultimately show ?thesis ..
qed

text \<open>An update that only takes credentials away.\<close>

lemma dropping_step:
  assumes "drive_connections s' = sql_update P f (drive_connections s)" "drive_ok s"
    and f: "\<And>c. dc_org (f c) = dc_org c" "\<And>c. dc_generation (f c) = dc_generation c" "\<And>c. dc_token (f c) = None"
      "\<And>c. dc_nonce (f c) = None" "\<And>c. dc_status (f c) \<in> {StatusReauthorizationRequired, StatusNotConnected}"
  shows "drive_ok s' \<and> credential_step org s s'"
proof -
  have same: "connection_of k (f c) = connection_of k c" for k c by (simp add: connection_of_def f)
  have "query_row (connection_of org) (drive_connections s')
      = map_option (\<lambda>c. if P c then f c else c) (query_row (connection_of org) (drive_connections s))"
    unfolding assms(1) by (rule query_row_sql_update) (simp add: same)
  then have "credential_step org s s'"
    by (cases "query_row (connection_of org) (drive_connections s)")
      (simp_all add: credential_step_def generation_of_def credential_of_def f credential_covers_def)
  moreover have "map dc_org (drive_connections s') = map dc_org (drive_connections s)"
    unfolding assms(1) by (rule map_sql_update) (simp add: f)
  moreover have "connection_check (f c)" if "connection_check c" for c
    using that f(5) [of c] by (auto simp: connection_check_def f drive_statuses)
  then have "list_all connection_check (drive_connections s')"
    using assms(2) by (auto simp: assms(1) drive_ok_def list_all_iff set_sql_update)
  ultimately show ?thesis using assms(2) by (simp add: drive_ok_def)
qed

lemma DisconnectStore_step:
  assumes "DisconnectStore accepts actor org now s = Inr (c, s')" "drive_ok s"
  shows "drive_ok s' \<and> credential_step k s s'"
proof -
  have "drive_connections s' = sql_update (open_connection org) (disconnected_row now) (drive_connections s)"
    using assms(1) by (auto simp: DisconnectStore_def Let_def auditTenant_def split: sum.splits if_splits option.splits)
  then show ?thesis by (rule dropping_step [OF _ assms(2)]) (simp_all add: disconnected_row_def)
qed

lemma markE:
  assumes "mark_drive_reconnect_required org generation now i s = Inr (b, s')"
  obtains (kept) "\<not> b" "s' = s" "\<not> row_exists (at_generation org generation) (drive_connections s)"
  | (dropped) owner s1 where "b" "row_exists (at_generation org generation) (drive_connections s)"
      "drive_connections s' = sql_update (at_generation org generation) (dropped_row now) (drive_connections s)"
      "add_reconnect_task org generation now i owner
         (s\<lparr>drive_connections := sql_update (at_generation org generation) (dropped_row now) (drive_connections s)\<rparr>) = Inr ((), s1)"
      "tasks s' = tasks s1" "drive_reconnect_tasks s' = drive_reconnect_tasks s1"
proof (cases "row_exists (at_generation org generation) (drive_connections s)")
  case True
  let ?s1 = "s\<lparr>drive_connections := sql_update (at_generation org generation) (dropped_row now) (drive_connections s)\<rparr>"
  obtain owner s1 where s1: "b" "add_reconnect_task org generation now i owner ?s1 = Inr ((), s1)"
    "tasks s' = tasks s1" "drive_reconnect_tasks s' = drive_reconnect_tasks s1" "drive_connections s' = drive_connections s1"
    using assms True
    by (auto simp: mark_drive_reconnect_required_def Let_def split: list.splits sum.splits)
  have "drive_connections s1 = drive_connections ?s1"
    using s1(2) by (auto simp: add_reconnect_task_def insert_task_def split: if_splits sum.splits)
  then show thesis using dropped [OF s1(1) True _ s1(2-4)] s1(5) by simp
next
  case False
  then show thesis using assms kept by (simp add: mark_drive_reconnect_required_def)
qed

lemma RequireReconnect_step:
  assumes "RequireReconnect org generation now i s = Inr (u, s')" "drive_ok s"
  shows "drive_ok s' \<and> credential_step k s s'"
proof -
  obtain b where "mark_drive_reconnect_required org generation now i s = Inr (b, s')"
    using assms(1) by (auto simp: RequireReconnect_def split: sum.splits)
  then show ?thesis
  proof (cases rule: markE)
    case kept
    then show ?thesis using assms(2) by simp
  next
    case (dropped owner s1)
    show ?thesis by (rule dropping_step [OF dropped(3) assms(2)]) (simp_all add: dropped_row_def)
  qed
qed

lemma attempts_keep_connections:
  "SaveAttempt a s = Inr (u, s') \<Longrightarrow> drive_connections s' = drive_connections s"
  "ConsumeAttempt h now s = Inr (a', s') \<Longrightarrow> drive_connections s' = drive_connections s"
  by (auto simp: SaveAttempt_def insert_attempt_def ConsumeAttempt_def split: sum.splits if_splits option.splits)

lemma drive_step_stamped:
  assumes "drive_ok s" shows "drive_ok (drive_step c s) \<and> credential_step org s (drive_step c s)"
proof -
  have stay: "drive_ok (after s r) \<and> credential_step org s (after s r)"
    if "\<And>a s'. r = Inr (a, s') \<Longrightarrow> drive_ok s' \<and> credential_step org s s'" for r :: "('a \<times> store) result"
    using assms that by (cases r) (auto simp: after_def)
  show ?thesis
  proof (cases c)
    case (AttemptOp a)
    show ?thesis unfolding AttemptOp drive_step.simps
      by (rule stay) (simp add: attempts_keep_connections drive_ok_same [OF _ assms])
  next
    case (ConsumeOp h now)
    show ?thesis unfolding ConsumeOp drive_step.simps
      by (rule stay) (simp add: attempts_keep_connections drive_ok_same [OF _ assms])
  next
    case (ConnectOp x)
    show ?thesis unfolding ConnectOp drive_step.simps by (rule stay) (rule SaveConnection_step [OF _ assms])
  next
    case (DisconnectOp accepts actor k now)
    show ?thesis unfolding DisconnectOp drive_step.simps by (rule stay) (rule DisconnectStore_step [OF _ assms])
  next
    case (RefusedOp k generation now i)
    show ?thesis unfolding RefusedOp drive_step.simps by (rule stay) (rule RequireReconnect_step [OF _ assms])
  qed
qed

lemma drive_ok_run: "drive_ok s \<Longrightarrow> drive_ok (fold drive_step ops s)"
  by (induction ops arbitrary: s) (simp_all add: drive_step_stamped)

interpretation credential_stamp: version_stamp drive_ok "generation_of org" "credential_of org" credential_covers drive_step for org
  by unfold_locales (use drive_step_stamped in \<open>auto simp: credential_step_def credential_covers_def\<close>)

section \<open>Properties\<close>

lemma GetConnection_row:
  "GetConnection zero actor org s = Inr c \<Longrightarrow> cn_status c = StatusConnected \<Longrightarrow>
     \<exists>role r. currentRole actor org s = Inr role \<and> query_row (connection_of org) (drive_connections s) = Some r \<and> c = read_connection role r"
  by (auto simp: GetConnection_def not_connected_def drive_statuses split: sum.splits option.splits)

lemma connected_credential:
  assumes "drive_ok s" "query_row (connection_of org) (drive_connections s) = Some r" "dc_status r = StatusConnected"
  shows "credential_of org s \<noteq> None" "generation_of org s = dc_generation r"
proof -
  have "connection_check r" using assms(1) query_row_SomeD [OF assms(2)] by (simp add: drive_ok_def list_all_iff)
  then show "credential_of org s \<noteq> None" using assms(2,3) by (auto simp: credential_of_def connection_check_def)
  show "generation_of org s = dc_generation r" using assms(2) by (simp add: generation_of_def)
qed


definition google :: provider where
  "google = \<lparr>AuthorizationURL = oa_state, Exchange = (\<lambda>code v. Inr \<lparr>cr_access = ''a'', cr_refresh = code @ v, cr_subject = ''g'', cr_email = ''e''\<rparr>),
     CreateFolder = (\<lambda>access name. Inr ''f''), Refresh = (\<lambda>t. if t = ''cv'' then Inr ''a'' else Inl Drive_ErrInvalidGrant),
     DownloadFile = None\<rparr>"

definition demo_drive :: drive_service where
  "demo_drive = \<lparr>dv_provider = google, dv_aead = \<lparr>Seal = (\<lambda>n p d. n @ p), Open = (\<lambda>n c d. Some (drop (length n) c))\<rparr>\<rparr>"

definition demo_connecting :: store where
  "demo_connecting = demo_office\<lparr>drive_oauth_attempts := [\<lparr>da_state_hash = ''state'', da_browser_hash = ''browser'', da_org = ''o1'',
     da_org_name = ''Acme'', da_user = ''u1'', da_session = ''s1'', da_code_verifier = ''v'', da_created_at = 1, da_expires_at = 50,
     da_consumed_at = None\<rparr>]\<rparr>"

abbreviation demo_callback_run :: "connection result \<times> store" where
  "demo_callback_run \<equiv> Complete demo_drive 0 id (Some ''n'') (\<lambda>i. 5) ''state'' ''browser'' ''u1'' ''s1'' ''c'' demo_connecting"

definition demo_connected :: store where "demo_connected = snd demo_callback_run"

lemma demo_connected_ok: "drive_ok demo_connected"
  unfolding drive_ok_def by code_simp

text \<open>\<^bold>\<open>C30.\<close> A refusal by Google takes away only the credential that was refused.  A client reads a live connection, any
  operations run, reconnections of the same organization included, and then the refusal of that connection is recorded: if it
  changes anything, the credential it drops is the one the client had read, and otherwise the database is left as it was.\<close>

theorem refusal_drops_its_credential:
  assumes "drive_ok s" "GetConnection zero actor org s = Inr c" "cn_status c = StatusConnected"
    and "mark_drive_reconnect_required org (cn_generation c) now i (fold drive_step ops s) = Inr (b, s')"
  shows "if b then credential_of org (fold drive_step ops s) = credential_of org s \<and> credential_of org s \<noteq> None
           \<and> credential_of org s' = None
         else s' = fold drive_step ops s"
  using assms(4)
proof (cases rule: markE)
  case (dropped owner s1)
  let ?t = "fold drive_step ops s"
  have ok: "drive_ok ?t" by (rule drive_ok_run [OF assms(1)])
  obtain role r where r: "query_row (connection_of org) (drive_connections s) = Some r" "c = read_connection role r"
    using GetConnection_row [OF assms(2,3)] by blast
  then have gen: "cn_generation c = generation_of org s" "credential_of org s \<noteq> None"
    using connected_credential [OF assms(1) r(1)] assms(3) by (simp_all add: read_connection_def Let_def)
  obtain q where q: "q \<in> set (drive_connections ?t)" "at_generation org (cn_generation c) q"
    using dropped(2) by (auto simp: row_exists_iff)
  have "query_row (connection_of org) (drive_connections ?t) = Some q"
    using unique_on_query_row_iff [of dc_org "drive_connections ?t" org q] ok q
    by (simp add: drive_ok_def unique_on_distinct at_generation_def connection_of_def [abs_def])
  then have row: "query_row (connection_of org) (drive_connections ?t) = Some q" "dc_status q = StatusConnected"
      "dc_generation q = cn_generation c" using q(2) by (simp_all add: at_generation_def)
  have "generation_of org ?t = generation_of org s" using connected_credential(2) [OF ok row(1,2)] row(3) gen by simp
  then have "credential_covers (credential_of org s) (credential_of org ?t)" by (rule credential_stamp.same_version [OF assms(1)])
  then have "credential_of org ?t = credential_of org s"
    using connected_credential(1) [OF ok row(1,2)] by (auto simp: credential_covers_def)
  moreover have "query_row (connection_of org) (drive_connections s')
      = map_option (\<lambda>c'. if at_generation org (cn_generation c) c' then dropped_row now c' else c') (Some q)"
    unfolding dropped(3) row(1) [symmetric] by (rule query_row_sql_update) (simp add: connection_of_def dropped_row_def)
  then have "credential_of org s' = None" using q(2) by (simp add: credential_of_def dropped_row_def)
  ultimately show ?thesis using dropped(1) gen(2) by simp
qed simp

theorem refusal_drops_its_credential_witness:
  "credential_of ''o1'' (drive_step (ConsumeOp ''x'' 6) demo_connected) = Some (''ncv'', ''n'')
   \<and> credential_of ''o1'' (after demo_connected (mark_drive_reconnect_required ''o1'' 1 7 ''t9'' (drive_step (ConsumeOp ''x'' 6) demo_connected))) = None"
proof -
  let ?c = "GetConnection 0 ''u1'' ''o1'' demo_connected"
  let ?run = "mark_drive_reconnect_required ''o1'' 1 7 ''t9'' (fold drive_step [ConsumeOp ''x'' 6] demo_connected)"
  have facts: "map_sum id (\<lambda>c. (cn_status c = StatusConnected, cn_generation c)) ?c = Inr (True, 1)"
    "map_sum id fst ?run = Inr True" "credential_of ''o1'' demo_connected = Some (''ncv'', ''n'')" by code_simp+
  obtain c where c: "?c = Inr c" "cn_status c = StatusConnected" "cn_generation c = 1" using facts(1) by (cases ?c) auto
  obtain s' where s': "?run = Inr (True, s')" using facts(2) by (cases ?run) auto
  show ?thesis
    using refusal_drops_its_credential [OF demo_connected_ok c(1,2), of 7 "''t9''" "[ConsumeOp ''x'' 6]" True s'] s' c(3) facts(3)
    by (simp add: after_def)
qed

lemma CompleteE:
  assumes "Complete sv zero hash nonce clock state browser user session code s = (Inr c, s')"
  obtains row a cr s1 folder n where "row \<in> set (drive_oauth_attempts s)" "usable_attempt (hash state) (clock 0) row" "a = read_attempt row"
    "dt_browser_hash a = hash browser" "dt_user a = user" "dt_session a = session"
    "Exchange (dv_provider sv) code (dt_code_verifier a) = Inr cr" "cr_refresh cr \<noteq> []"
    "c = new_connection a cr user folder (Seal (dv_aead sv) n (cr_refresh cr) (dt_org a), n) (clock 1)"
    "SaveConnection c s1 = Inr ((), s')"
proof -
  obtain a s1 cr where g: "ConsumeAttempt (hash state) (clock 0) s = Inr (a, s1)"
    "dt_browser_hash a = hash browser" "dt_user a = user" "dt_session a = session"
    "Exchange (dv_provider sv) code (dt_code_verifier a) = Inr cr" "cr_refresh cr \<noteq> []"
    "connect sv zero nonce (clock 1) a cr user s1 = Inr (c, s')"
    using assms by (auto simp: Complete_def split: if_splits sum.splits prod.splits)
  obtain row where row: "query_row (usable_attempt (hash state) (clock 0)) (drive_oauth_attempts s) = Some row" "a = read_attempt row"
    using g(1) by (auto simp: ConsumeAttempt_def split: option.splits)
  obtain folder sealed where f: "encrypt sv nonce (cr_refresh cr) (dt_org a) = Inr sealed"
    "c = new_connection a cr user folder sealed (clock 1)" "SaveConnection c s1 = Inr ((), s')"
    using g(7) by (auto simp: connect_def Let_def split: sum.splits)
  obtain n where "sealed = (Seal (dv_aead sv) n (cr_refresh cr) (dt_org a), n)"
    using f(1) by (auto simp: encrypt_def split: option.splits)
  then show thesis using that query_row_SomeD [OF row(1)] row(2) g(2-6) f(2,3) by blast
qed



text \<open>Connecting again after a refusal fails.  The first refusal of a generation opens a task for the Owner; until that
  task is finished by hand no connection of the organization can be saved, since saving marks the task done without
  the completion that the table's CHECK demands, whoever the Owner and whatever the new credential.\<close>

theorem reconnect_refused:
  assumes "mark_drive_reconnect_required org generation now i s = Inr (True, s1)"
    and "\<not> row_exists (\<lambda>r. dr_org r = org \<and> dr_generation r = generation) (drive_reconnect_tasks s)" "drive_ok s"
    and "tasks u = tasks s1" "drive_reconnect_tasks u = drive_reconnect_tasks s1" "drive_connections u = drive_connections s1"
    and "currentRole (cn_authorizer c) org u = Inr Owner" "cn_org c = org"
  shows "SaveConnection c u = Inl (CheckViolation ''tasks'')"
  using assms(1)
proof (cases rule: markE)
  case (dropped owner s2)
  let ?t = "new_reconnect_task i org owner now" and ?gen = "generation_of org u + 1"
  have added: "tasks s1 = tasks s @ [?t]" "drive_reconnect_tasks s1 = drive_reconnect_tasks s @
      [\<lparr>dr_org = org, dr_generation = generation, dr_task = i, dr_created_at = now, dr_resolved_at = None\<rparr>]"
    using dropped(4,5,6) assms(2) by (auto simp: add_reconnect_task_def insert_task_def split: if_splits sum.splits)
  have gen: "generation_of org u = generation"
  proof -
    obtain q where q: "q \<in> set (drive_connections s)" "at_generation org generation q" using dropped(2) by (auto simp: row_exists_iff)
    have "query_row (connection_of org) (drive_connections s) = Some q"
      using unique_on_query_row_iff [of dc_org "drive_connections s" org q] assms(3) q
      by (simp add: drive_ok_def unique_on_distinct at_generation_def connection_of_def [abs_def])
    moreover have "query_row (connection_of org) (drive_connections s1)
        = map_option (\<lambda>c'. if at_generation org generation c' then dropped_row now c' else c') (query_row (connection_of org) (drive_connections s))"
      unfolding dropped(3) by (rule query_row_sql_update) (simp add: connection_of_def dropped_row_def)
    ultimately show ?thesis using q(2) by (simp add: generation_of_def assms(6) dropped_row_def at_generation_def)
  qed
  let ?u = "snd (upsert_connection c u)"
  have u: "tasks ?u = tasks s1" "drive_reconnect_tasks ?u = drive_reconnect_tasks s1"
    using assms(4,5) by (simp_all add: upsert_connection_def split: option.splits)
  have "reconnect_task org ?gen ?u ?t"
    by (simp add: reconnect_task_def u added unresolved_def gen row_exists_iff new_reconnect_task_def)
  moreover have "\<not> task_check (finished_task (cn_connected_at c) ?t)"
    by (simp add: task_check_def finished_task_def new_reconnect_task_def)
  ultimately have "list_ex (\<lambda>t. reconnect_task org ?gen ?u t \<and> \<not> task_check (finished_task (cn_connected_at c) t)) (tasks ?u)"
    by (auto simp: u(1) added list_ex_iff)
  then have "finish_reconnects org ?gen (cn_connected_at c) ?u = Inl (CheckViolation ''tasks'')" by (simp add: finish_reconnects_def)
  moreover have "fst (upsert_connection c u) = ?gen" using upsert_generation [of c u] assms(8) by simp
  ultimately show ?thesis using assms(7,8) by (simp add: SaveConnection_def split_beta)
qed simp

definition demo_refused :: store where
  "demo_refused = after demo_connected (mark_drive_reconnect_required ''o1'' 1 7 ''t9'' demo_connected)"

definition demo_reconnection :: connection where
  "demo_reconnection = \<lparr>cn_org = ''o1'', cn_status = StatusConnected, cn_email = ''e'', cn_subject = ''g'', cn_folder = ''f'',
     cn_authorizer = ''u1'', cn_token = ''new'', cn_nonce = ''m'', cn_generation = 1, cn_connected_at = 9, cn_updated_at = 9\<rparr>"

theorem reconnect_refused_witness:
  "SaveConnection demo_reconnection demo_refused = Inl (CheckViolation ''tasks'')"
proof -
  let ?run = "mark_drive_reconnect_required ''o1'' 1 7 ''t9'' demo_connected"
  have facts: "map_sum id fst ?run = Inr True" "drive_reconnect_tasks demo_connected = []"
    "currentRole ''u1'' ''o1'' demo_refused = Inr Owner" by code_simp+
  have run: "?run = Inr (True, demo_refused)" using facts(1) by (cases ?run) (auto simp: demo_refused_def)
  show ?thesis
    by (rule reconnect_refused [OF run _ demo_connected_ok]) (use facts(2,3) in \<open>simp_all add: demo_reconnection_def\<close>)
qed

end
