(* ===== verification/DriveRoutes.thy ===== *)
theory DriveRoutes
  imports Http Drive
begin

text \<open>
  The routes of the Drive connection: src/api/internal/httpapi/drive_routes.go over Drive.  The service is absent when it is not
  configured; \<open>zero\<close> is the time of a row that is missing.  The clock's value 2 is read by the service after the
  exchange of the code.
\<close>

definition writeDriveError :: "err \<Rightarrow> 'a answer" where
  "writeDriveError e =
     (if e = Drive_ErrReconnectRequired then Refuse 409 ''reconnect_required''
      else if e = Drive_ErrNotConnected then Refuse 409 ''drive_not_connected''
      else if e = Drive_ErrInvalidAttempt then Refuse 400 ''invalid_drive_attempt''
      else if e = Tenant_ErrForbidden then Refuse 403 ''forbidden'' else Refuse 503 ''drive_unavailable'')"

definition driveStatus :: "drive_service option \<Rightarrow> time \<Rightarrow> site \<Rightarrow> web \<Rightarrow> store \<Rightarrow> (bool \<times> connection) answer \<times> store" where
  "driveStatus drive zero w q s =
     workContext w q False s (\<lambda>session m s.
       case drive of
         None \<Rightarrow> (Answer 200 (False, not_connected zero (ms_org m)), s)
       | Some _ \<Rightarrow> read_only s (GetConnection zero (se_user session) (ms_org m) s) writeDriveError (\<lambda>c. Answer 200 (True, c)))"

definition owners :: "membership \<Rightarrow> store \<Rightarrow> 'a answer \<times> store \<Rightarrow> 'a answer \<times> store" where
  "owners m s k = (if ms_role m \<noteq> Owner then (Refuse 403 ''forbidden'', s) else k)"

text \<open>A redirect answers its target, with the cookie it sets when it sets one.\<close>

definition connectDrive :: "drive_service option \<Rightarrow> site \<Rightarrow> web \<Rightarrow> store \<Rightarrow> (string \<times> string option) answer \<times> store" where
  "connectDrive drive w q s =
     workContext w q True s (\<lambda>session m s.
       owners m s
         (if now w - se_authenticated_at session > 10 * Minute then (Refuse 403 ''recent_auth_required'', s)
          else case drive of
            None \<Rightarrow> (Refuse 503 ''drive_not_configured'', s)
          | Some sv \<Rightarrow>
              if \<not> gate_allows w s (ms_org m) ExportDrive then (Refuse 402 ''feature_unavailable'', s)
              else
                let name = (if ms_org_name m = [] then ms_org m else ms_org_name m) in
                commit s (Begin sv (st_hash w) (st_rnd w) (ms_org m) (se_user session) (se_id session) name (now w) s) writeDriveError
                  (\<lambda>start. Answer 303 (st_url start, Some (st_browser start)))))"

definition driveCallback :: "drive_service option \<Rightarrow> time \<Rightarrow> (string \<Rightarrow> string) \<Rightarrow> string option \<Rightarrow> site \<Rightarrow> web \<Rightarrow> store
    \<Rightarrow> (string \<times> string option) answer \<times> store" where
  "driveCallback drive zero path_escape cookie w q s =
     (case drive of
        None \<Rightarrow> (Refuse 404 ''drive_not_configured'', s)
      | Some sv \<Rightarrow>
          authenticated w q s (\<lambda>session s.
            case cookie of
              None \<Rightarrow> (Answer 303 (''/organizations?drive=access_denied'', None), s)
            | Some browser \<Rightarrow>
                if query_value q ''error'' \<noteq> [] then (Answer 303 (''/organizations?drive=access_denied'', None), s)
                else case Complete sv zero (st_hash w) (st_rnd w 0) (\<lambda>k. st_clock w (k + 1)) (query_value q ''state'') browser
                            (se_user session) (se_id session) (query_value q ''code'') s of
                  (Inl _, s) \<Rightarrow> (Answer 303 (''/organizations?drive=failed'', None), s)
                | (Inr c, s) \<Rightarrow> (Answer 303 (''/o/'' @ path_escape (cn_org c) @ ''/connections?drive=connected'', Some []), s)))"

text \<open>The refresh token to revoke is handed to the provider, whose answer is ignored.\<close>

definition disconnectDrive :: "drive_service option \<Rightarrow> site \<Rightarrow> web \<Rightarrow> store \<Rightarrow> unit answer \<times> store" where
  "disconnectDrive drive w q s =
     workContext w q True s (\<lambda>session m s.
       owners m s
         (case drive of
            None \<Rightarrow> (Refuse 503 ''drive_not_configured'', s)
          | Some sv \<Rightarrow>
              commit s (Disconnect sv (st_accepts w) (se_user session) (ms_org m) (now w) s) writeDriveError (\<lambda>_. Answer 204 ())))"

definition checkDrive :: "drive_service option \<Rightarrow> time \<Rightarrow> site \<Rightarrow> web \<Rightarrow> store \<Rightarrow> unit answer \<times> store" where
  "checkDrive drive zero w q s =
     workContext w q True s (\<lambda>session m s.
       owners m s
         (case drive of
            None \<Rightarrow> (Refuse 503 ''drive_not_configured'', s)
          | Some sv \<Rightarrow>
              (case CheckConnection sv zero (se_user session) (ms_org m) (now w) (st_uuids w 0) s of
                 (Inl e, s) \<Rightarrow> (writeDriveError e, s)
               | (Inr _, s) \<Rightarrow> (Answer 204 (), s))))"

end
