(* ===== verification/Tables.thy ===== *)
theory Tables
  imports Documents Spreadsheet
begin

text \<open>
  The files of the document exports: src/api/internal/document/export.go.  A file is a header and rows of texts, written as
  comma separated values or as the cells of a worksheet; \<open>format\<close> is the layout of times.  In a csv file a value that a
  spreadsheet would take for a formula gets an apostrophe.
\<close>

section \<open>Formulas\<close>

text \<open>The signs that start a formula, among them the full-width ones.\<close>

definition formula_signs :: "nat list" where "formula_signs = [61, 43, 45, 64, 65309, 65291, 65293, 65312]"

definition document_formula :: "string \<Rightarrow> bool" where
  "document_formula v = (fst (decode_rune (TrimLeftFunc (\<lambda>r. is_space r \<or> r = 65279) v)) \<in> set formula_signs)"

definition protect_cell :: "string \<Rightarrow> string" where
  "protect_cell v = (if document_formula v then apostrophe # v else v)"

section \<open>Files\<close>

definition table_csv :: "string list \<Rightarrow> string list list \<Rightarrow> string" where
  "table_csv header rows = byte_order_mark @ csv_text (header # map (map protect_cell) rows)"

function column_loop :: "int \<Rightarrow> string \<Rightarrow> string" where
  "column_loop index name =
     (if index < 0 then name else column_loop (index div 26 - 1) (byte_char (nat (65 + index mod 26)) # name))"
  by pat_completeness auto
termination by (relation "measure (\<lambda>(index, _). nat (index + 1))") auto

declare column_loop.simps [simp del]

definition columnName :: "int \<Rightarrow> string" where "columnName index = column_loop index []"

text \<open>The text of a cell: control characters and the values that are no XML characters become U+FFFD.\<close>

definition xml_rune :: "nat \<Rightarrow> nat" where
  "xml_rune r = (if r < 32 \<and> r \<notin> {9, 10, 13} \<or> r = 65534 \<or> r = 65535 then 65533 else r)"

definition cell_text :: "string \<Rightarrow> string" where
  "cell_text v = concat (map (\<lambda>(r, w). encode_rune (xml_rune r)) (runes v))"

definition table_cells :: "string list \<Rightarrow> string list list \<Rightarrow> (string \<times> string) list list" where
  "table_cells header rows =
     map (\<lambda>(i, row). map (\<lambda>(j, v). (columnName (int j) @ Itoa (int i + 1), cell_text v)) (enumerate 0 row))
       (enumerate 0 (header # rows))"

datatype table = TableCSV string | TableXLSX "(string \<times> string) list list"

definition WriteTable :: "string \<Rightarrow> string list \<Rightarrow> string list list \<Rightarrow> table result" where
  "WriteTable fmt header rows =
     (if fmt = ''csv'' then Inr (TableCSV (table_csv header rows))
      else if fmt = ''xlsx'' then Inr (TableXLSX (table_cells header rows))
      else Inl (OtherError ''unsupported document export format''))"

definition document_header :: "string list" where
  "document_header = [''document_id'', ''display_filename'', ''detected_type'', ''byte_size'', ''status'', ''first_source_channel'',
     ''source_count'', ''submitter'', ''assignee'', ''received_at'', ''updated_at'']"

definition ExportValues :: "(time \<Rightarrow> string) \<Rightarrow> export_row \<Rightarrow> string list" where
  "ExportValues format x =
     [xr_id x, xr_filename x, xr_mime x, Itoa (xr_size x), xr_status x, xr_channel x, Itoa (xr_sources x), xr_submitter x,
      xr_assignee x, format (xr_accepted_at x), format (xr_updated_at x)]"

definition WriteExport :: "(time \<Rightarrow> string) \<Rightarrow> string \<Rightarrow> export_row list \<Rightarrow> table result" where
  "WriteExport format fmt rows = WriteTable fmt document_header (map (ExportValues format) rows)"

section \<open>Column names\<close>

lemma column_loop_name: "column_loop index name = spreadsheetColumn index @ name"
proof (induction index name rule: column_loop.induct)
  case (1 index name)
  show ?case
  proof (cases "index < 0")
    case True
    then show ?thesis by (simp add: column_loop.simps spreadsheetColumn.simps)
  next
    case False
    then show ?thesis using 1 by (subst column_loop.simps, subst spreadsheetColumn.simps) simp
  qed
qed

lemma columnName_is_spreadsheetColumn: "columnName = spreadsheetColumn"
  by (rule ext) (simp add: columnName_def column_loop_name)

section \<open>No formula is left\<close>

lemma trim_left_ascii: "byte c < 128 \<Longrightarrow> TrimLeftFunc P (c # v) = (if P (byte c) then TrimLeftFunc P v else c # v)"
proof -
  assume "byte c < 128"
  then have "runes (c # v) = (byte c, [c]) # runes v" by (rule runes_ascii_Cons)
  moreover have "concat (map snd (runes v)) = v" by (rule unrunes_runes [unfolded unrunes_def])
  ultimately show ?thesis by (simp add: TrimLeftFunc_def trim_left_runes_def unrunes_def del: runes.simps)
qed

lemma decode_ascii: "byte c < 128 \<Longrightarrow> decode_rune (c # v) = (byte c, 1)"
  by (simp add: decode_rune_def)

lemma document_formula_ascii:
  "byte c < 128 \<Longrightarrow> document_formula (c # v) = (if is_space (byte c) then document_formula v else byte c \<in> set formula_signs)"
  by (simp add: document_formula_def trim_left_ascii decode_ascii)

lemma document_formula_Nil [simp]: "\<not> document_formula []"
  by code_simp

lemma document_formula_apostrophe [simp]: "\<not> document_formula (apostrophe # v)"
proof -
  have "byte apostrophe < 128 \<and> \<not> is_space (byte apostrophe) \<and> byte apostrophe \<notin> set formula_signs" by code_simp
  then show ?thesis by (simp add: document_formula_ascii)
qed

lemma protect_cell_safe: "\<not> document_formula (protect_cell v)"
  by (simp add: protect_cell_def)

lemma without_CR_plain: "CR \<notin> set v \<Longrightarrow> without_CR v = v"
  by (auto simp: without_CR_def intro: filter_True)

lemma read_cell_safe:
  assumes "document_formula v \<or> CR \<notin> set v"
  shows "\<not> document_formula (without_CR (protect_cell v))"
proof (cases "document_formula v")
  case True
  moreover have "apostrophe \<noteq> CR" by code_simp
  ultimately show ?thesis by (simp add: protect_cell_def without_CR_def)
next
  case False
  then show ?thesis using assms by (simp add: protect_cell_def without_CR_plain)
qed

lemma no_mark: "trim_prefix (byte_order_mark @ v) byte_order_mark = v"
  by (simp add: trim_prefix_def)

text \<open>The csv file of any table whose rows have two fields or more reads back as its rows.\<close>

lemma table_csv_reads_back:
  assumes "list_all visible_record (header # rows)"
  shows "csv_records (csv_normal (trim_prefix (table_csv header rows) byte_order_mark))
    = Some (map without_CR header # map (map (without_CR \<circ> protect_cell)) rows)"
proof -
  have "visible_record (map protect_cell r)" if "visible_record r" for r
  proof -
    have "protect_cell v = [] \<longleftrightarrow> v = []" for v by (auto simp: protect_cell_def)
    then show ?thesis using that by (cases r) (auto simp: visible_record_def map_eq_Cons_conv)
  qed
  then have "list_all visible_record (header # map (map protect_cell) rows)" using assms by (auto simp: list_all_iff)
  then show ?thesis unfolding table_csv_def no_mark by (simp add: csv_round_trip)
qed

lemma export_values_visible: "visible_record (ExportValues format x)"
  by (simp add: visible_record_def ExportValues_def)

section \<open>The two tests for formulas\<close>

lemma vendor_space_runes:
  assumes "c \<in> set vendor_spaces" shows "byte c < 128 \<and> is_space (byte c)"
  using assms unfolding vendor_spaces_def by (simp, elim disjE) (simp_all, code_simp+)

lemma spreadsheetFormula_document: "spreadsheetFormula v \<Longrightarrow> document_formula v"
proof (induction v)
  case Nil
  then show ?case by (simp add: spreadsheetFormula_def)
next
  case (Cons c v)
  show ?case
  proof (cases "c \<in> set vendor_spaces")
    case True
    then have "document_formula v" using Cons by (simp add: spreadsheetFormula_def)
    then show ?thesis using vendor_space_runes [OF True] by (simp add: document_formula_ascii)
  next
    case False
    then have c: "c \<in> set ''=+-@''" using Cons.prems by (simp add: spreadsheetFormula_def)
    have "byte c < 128 \<and> \<not> is_space (byte c) \<and> byte c \<in> set formula_signs"
      using c by (simp, elim disjE) (simp_all, code_simp+)
    then show ?thesis by (simp add: document_formula_ascii)
  qed
qed

definition full_width_equals :: string where "full_width_equals = encode_rune 65309 @ ''1+1''"

lemma full_width_formula: "document_formula full_width_equals" "\<not> spreadsheetFormula full_width_equals"
  by code_simp+

definition demo_export_row :: export_row where
  "demo_export_row = \<lparr>xr_id = ''d1'', xr_filename = full_width_equals, xr_mime = ''text/csv'', xr_status = ''active'',
     xr_channel = ''upload'', xr_submitter = ''-me'', xr_assignee = [], xr_size = 7, xr_sources = 1, xr_accepted_at = 1, xr_updated_at = 2\<rparr>"

lemma demo_export_cells:
  "map (without_CR \<circ> protect_cell) (ExportValues (\<lambda>_. []) demo_export_row)
     = [''d1'', apostrophe # full_width_equals, ''text/csv'', ''7'', ''active'', ''upload'', ''1'', apostrophe # ''-me'', [], [], []]"
  by code_simp



end
