(* ===== verification/ReviewRoutes.thy ===== *)
theory ReviewRoutes
  imports Http Tables
begin

text \<open>
  The routes of the extraction and of its reviews: src/api/internal/httpapi/extraction_routes.go and review_routes.go over the
  transactions of OcrRuns and Reviews.  Results of the OCR worker and confirmed reviews are objects of a private store;
  \<open>storage\<close> holds its objects, the originals of the documents, the verdicts of the store on a write and a delete,
  the JSON codecs, the order in which Go iterates the groups of the extraction, and the length of a written file.
\<close>

section \<open>Objects\<close>

record storage =
  sg_objects :: "string \<Rightarrow> bytes option"
  sg_originals :: "string \<Rightarrow> bytes option"
  sg_put :: "string \<Rightarrow> bool"
  sg_delete :: "string \<Rightarrow> bool"
  sg_review :: "bytes \<Rightarrow> valued_review option"
  sg_marshal :: "valued_review \<Rightarrow> bytes"
  sg_result :: "bytes \<Rightarrow> ocr_result option"
  sg_groups :: "nat \<Rightarrow> nat \<Rightarrow> string list"
  sg_length :: "table \<Rightarrow> nat"

definition put_object :: "storage \<Rightarrow> string \<Rightarrow> bytes \<Rightarrow> storage" where
  "put_object g key data = g\<lparr>sg_objects := (sg_objects g)(key := Some data)\<rparr>"

definition delete_object :: "storage \<Rightarrow> string \<Rightarrow> storage" where
  "delete_object g key = (if sg_delete g key then g\<lparr>sg_objects := (sg_objects g)(key := None)\<rparr> else g)"

definition maxReviewBytes :: nat where "maxReviewBytes = 32768"

definition readReview :: "storage \<Rightarrow> review \<Rightarrow> valued_review result" where
  "readReview g meta =
     (case sg_objects g (rv_object_key meta) of
        None \<Rightarrow> Inl (OtherError ''object is missing'')
      | Some data \<Rightarrow>
          if length data > maxReviewBytes then Inl (OtherError ''review artifact exceeds limit'')
          else case sg_review g data of
            None \<Rightarrow> Inl (OtherError ''review artifact is invalid'')
          | Some x \<Rightarrow>
              if rv_id x \<noteq> rv_id meta \<or> rv_org x \<noteq> rv_org meta \<or> rv_document x \<noteq> rv_document meta \<or> rv_ocr_job x \<noteq> rv_ocr_job meta
                 \<or> length (case rv_values x of None \<Rightarrow> [] | Some m \<Rightarrow> m) > length Keys
              then Inl (OtherError ''review artifact is invalid'')
              else Inr (x\<lparr>rv_revision := rv_revision meta, rv_confirmed_by := rv_confirmed_by meta,
                          rv_confirmed_at := rv_confirmed_at meta\<rparr>))"

definition completed_ocr :: "ocr_state \<Rightarrow> bool" where
  "completed_ocr st = (ot_status st = ''Completed'' \<and> ot_object_key st \<noteq> [])"

definition read_result :: "storage \<Rightarrow> ocr_state \<Rightarrow> draft result" where
  "read_result g st =
     (case sg_objects g (ot_object_key st) of
        None \<Rightarrow> Inl (OtherError ''object is missing'')
      | Some data \<Rightarrow>
          if int (length data) > MaxResultBytes then Inl (OtherError ''OCR result exceeds limit'')
          else case sg_result g data of
            None \<Rightarrow> Inl (OtherError ''OCR result is invalid'')
          | Some r \<Rightarrow>
              if os_schema r \<noteq> 1 \<or> os_pages r = [] \<or> length (os_pages r) > 20 then Inl (OtherError ''OCR result is invalid'')
              else Inr (Extract (sg_groups g) r))"

definition extractionDraft :: "storage \<Rightarrow> site \<Rightarrow> id \<Rightarrow> id \<Rightarrow> id \<Rightarrow> store \<Rightarrow> (draft \<times> id) result \<times> store" where
  "extractionDraft g w user org doc s =
     (case attempted s (OCRState (st_dbnow w) user org doc s) of
        (Inl e, s) \<Rightarrow> (Inl e, s)
      | (Inr st, s) \<Rightarrow>
          (if \<not> completed_ocr st then Inl (OtherError ''completed OCR is unavailable'')
           else case read_result g st of Inl e \<Rightarrow> Inl e | Inr d \<Rightarrow> Inr (d, ot_job st), s))"

text \<open>The original can be opened and holds a byte.\<close>

definition originalAvailable :: "storage \<Rightarrow> site \<Rightarrow> id \<Rightarrow> id \<Rightarrow> id \<Rightarrow> store \<Rightarrow> bool \<times> store" where
  "originalAvailable g w user org doc s =
     (case attempted s (GetDocument (st_dbnow w) user org doc s) of
        (Inl _, s) \<Rightarrow> (False, s)
      | (Inr d, s) \<Rightarrow> (case sg_originals g (doc_storage d) of None \<Rightarrow> False | Some data \<Rightarrow> data \<noteq> [], s))"

section \<open>The extraction of a document\<close>

record extraction_view =
  xv_draft :: draft
  xv_ocr_job :: id
  xv_revision :: int
  xv_confirmed :: "valued_review option"
  xv_review_enabled :: bool
  xv_saved :: "review_draft option"
  xv_history :: "review_draft list"
  xv_returned :: "return_notice option"
  xv_superseded :: bool

definition confirmed_review :: "storage \<Rightarrow> review \<Rightarrow> id \<Rightarrow> valued_review option result" where
  "confirmed_review g current job =
     (if rv_id current \<noteq> [] \<and> rv_ocr_job current = job
      then (case readReview g current of Inl e \<Rightarrow> Inl e | Inr x \<Rightarrow> Inr (Some x)) else Inr None)"

definition getExtraction :: "storage \<Rightarrow> site \<Rightarrow> web \<Rightarrow> store \<Rightarrow> extraction_view answer \<times> store" where
  "getExtraction g w q s =
     workContext w q False s (\<lambda>session m s.
       let user = se_user session; org = ms_org m; doc = path_value q ''document'' in
       case extractionDraft g w user org doc s of
         (Inl _, s) \<Rightarrow> (Refuse 409 ''ocr_unavailable'', s)
       | (Inr (d, job), s) \<Rightarrow>
           trying s (CurrentReview (st_dbnow w) user org doc s) (\<lambda>_. Refuse 503 ''extraction_unavailable'') (\<lambda>current s.
             case confirmed_review g current job of
               Inl _ \<Rightarrow> (Refuse 503 ''extraction_unavailable'', s)
             | Inr confirmed \<Rightarrow>
                 let view = \<lparr>xv_draft = d, xv_ocr_job = job, xv_revision = rv_revision current, xv_confirmed = confirmed,
                       xv_review_enabled = st_review w, xv_saved = None, xv_history = [], xv_returned = None,
                       xv_superseded = (rv_id current \<noteq> [] \<and> rv_ocr_job current \<noteq> job)\<rparr> in
                 if \<not> st_review w then (Answer 200 view, s)
                 else trying s (CurrentDraft (st_dbnow w) user org doc s) (\<lambda>_. Refuse 503 ''review_unavailable'') (\<lambda>item s.
                   trying s (ListDraftHistory (st_dbnow w) user org doc 20 s) (\<lambda>_. Refuse 503 ''review_unavailable'') (\<lambda>history s.
                     trying s (CurrentReturn (st_dbnow w) user org doc s) (\<lambda>_. Refuse 503 ''review_unavailable'') (\<lambda>notice s.
                       (Answer 200 (view\<lparr>xv_saved := if dr_revision item > 0 \<and> dr_ocr_job item = job then Some item else None,
                          xv_history := history, xv_returned := if no_reason notice \<noteq> [] then Some notice else None\<rparr>), s))))))"

section \<open>Saving a draft\<close>

text \<open>A Go map over the keys of a review, its entries in key order.\<close>

definition key_map :: "(string \<Rightarrow> string) \<Rightarrow> (string \<times> string) list" where
  "key_map f = map (\<lambda>k. (k, f k)) (sort Keys)"

definition decision_of :: "web \<Rightarrow> string \<Rightarrow> string" where
  "decision_of q key = post_value q maxReviewBytes (key @ ''_decision'')"

definition reviewed_value :: "web \<Rightarrow> string \<Rightarrow> string" where
  "reviewed_value q key = TrimSpace (post_value q maxReviewBytes key)"

definition field_refused :: "draft \<Rightarrow> web \<Rightarrow> string \<Rightarrow> bool" where
  "field_refused proposal q key =
     (let v = reviewed_value q key; decision = decision_of q key in
      rune_count v > 240 \<or> decision \<notin> {[], ''accepted'', ''corrected'', ''unknown''} \<or> decision = ''unknown'' \<and> v \<noteq> []
      \<or> decision = ''accepted'' \<and> v \<noteq> fd_normalized (field_of proposal key))"

text \<open>A revision of the form: a decimal number, not negative.\<close>

definition post_revision :: "web \<Rightarrow> string \<Rightarrow> int option" where
  "post_revision q k = (case Atoi (post_value q maxReviewBytes k) of None \<Rightarrow> None | Some n \<Rightarrow> if n < 0 then None else Some n)"

definition saveExtractionDraft :: "storage \<Rightarrow> site \<Rightarrow> web \<Rightarrow> store \<Rightarrow> review_draft answer \<times> store" where
  "saveExtractionDraft g w q s =
     workContext w q True s (\<lambda>session m s.
       let user = se_user session; org = ms_org m; doc = path_value q ''document'' in
       if form_error q maxReviewBytes then (Refuse 400 ''invalid_review'', s)
       else case post_revision q ''expected_draft_revision'' of
         None \<Rightarrow> (Refuse 400 ''invalid_review'', s)
       | Some expected \<Rightarrow>
           (case extractionDraft g w user org doc s of
              (Inl _, s) \<Rightarrow> (Refuse 409 ''ocr_changed'', s)
            | (Inr (proposal, job), s) \<Rightarrow>
                if job \<noteq> post_value q maxReviewBytes ''ocr_job_id'' then (Refuse 409 ''ocr_changed'', s)
                else if list_ex (field_refused proposal q) Keys then (Refuse 422 ''invalid_review'', s)
                else commit s (SaveDraft (st_accepts w)
                       \<lparr>dr_doc_org = org, dr_document = doc, dr_ocr_job = job, dr_revision = 0,
                        dr_values = Some (key_map (reviewed_value q)), dr_decisions = Some (key_map (decision_of q)),
                        dr_updated_by = user, dr_updated_at = now w\<rparr> expected (wb_request_id q) s)
                     (\<lambda>e. if e = Extraction_ErrConflict then Refuse 409 ''review_changed'' else Refuse 503 ''review_unavailable'')
                     (Answer 200)))"

section \<open>Confirming a review\<close>

definition text_at :: "string \<Rightarrow> (string \<times> string) list option \<Rightarrow> string" where
  "text_at k m = (case m of None \<Rightarrow> [] | Some xs \<Rightarrow> value_at k xs)"

text \<open>The fields of the saved draft, each decided and unchanged in the form; the first field that is not refuses the request.\<close>

definition saved_field :: "review_draft \<Rightarrow> web \<Rightarrow> string \<Rightarrow> (nat \<times> string) option" where
  "saved_field saved q key =
     (if text_at key (dr_decisions saved) \<notin> {''accepted'', ''corrected'', ''unknown''} then Some (422, ''review_required'')
      else if reviewed_value q key \<noteq> text_at key (dr_values saved) \<or> decision_of q key \<noteq> text_at key (dr_decisions saved)
      then Some (409, ''unsaved_changes'') else None)"

definition saved_fields :: "review_draft \<Rightarrow> web \<Rightarrow> (nat \<times> string) option" where
  "saved_fields saved q = (case List.map_filter (saved_field saved q) Keys of [] \<Rightarrow> None | p # _ \<Rightarrow> Some p)"

definition draft_current :: "review_draft \<Rightarrow> int option \<Rightarrow> id \<Rightarrow> bool" where
  "draft_current saved revision job =
     (dr_revision saved \<noteq> 0 \<and> revision = Some (dr_revision saved) \<and> dr_ocr_job saved = job)"

text \<open>The values to confirm: with reviews, those of the saved draft.\<close>

definition confirm_values :: "storage \<Rightarrow> site \<Rightarrow> web \<Rightarrow> id \<Rightarrow> id \<Rightarrow> id \<Rightarrow> id \<Rightarrow> store \<Rightarrow> (string \<times> string) list answer \<times> store" where
  "confirm_values g w q user org doc job s =
     (if \<not> st_review w then (Answer 200 (key_map (reviewed_value q)), s)
      else case attempted s (CurrentDraft (st_dbnow w) user org doc s) of
        (Inl _, s) \<Rightarrow> (Refuse 409 ''review_changed'', s)
      | (Inr saved, s) \<Rightarrow>
          if \<not> draft_current saved (Atoi (post_value q maxReviewBytes ''expected_draft_revision'')) job then (Refuse 409 ''review_changed'', s)
          else case saved_fields saved q of
            Some (n, c) \<Rightarrow> (Refuse n c, s)
          | None \<Rightarrow>
              let (available, s) = originalAvailable g w user org doc s in
              if \<not> available then (Refuse 409 ''original_unavailable'', s)
              else (Answer 200 (key_map (\<lambda>k. text_at k (dr_values saved))), s))"

definition review_key_of :: "id \<Rightarrow> id \<Rightarrow> string" where
  "review_key_of org i = ''extraction/'' @ org @ ''/'' @ i @ ''.json''"

definition confirmed_request :: "site \<Rightarrow> web \<Rightarrow> id \<Rightarrow> id \<Rightarrow> id \<Rightarrow> draft \<Rightarrow> (string \<times> string) list \<Rightarrow> valued_review" where
  "confirmed_request w q user org job d values =
     (let i = newUUID w 0 in
      \<lparr>rv_id = i, rv_org = org, rv_document = path_value q ''document'', rv_ocr_job = job, rv_revision = 0,
       rv_draft_revision = (if st_review w then (case Atoi (post_value q maxReviewBytes ''expected_draft_revision'') of None \<Rightarrow> 0 | Some n \<Rightarrow> n) else 0),
       rv_request = wb_request_id q, rv_confirmed_by = user, rv_confirmed_at = now w, rv_object_key = review_key_of org i,
       rv_document_type = dr_type d, rv_values = Some values\<rparr>)"

text \<open>The route up to the write of the object: the review and the revision it replaces.\<close>

definition confirm_request :: "storage \<Rightarrow> site \<Rightarrow> web \<Rightarrow> store \<Rightarrow> (valued_review \<times> int) answer \<times> store" where
  "confirm_request g w q s =
     workContext w q True s (\<lambda>session m s.
       managers m s
         (let user = se_user session; org = ms_org m; doc = path_value q ''document'' in
          if form_error q maxReviewBytes then (Refuse 400 ''invalid_review'', s)
          else if post_value q maxReviewBytes ''review_ack'' \<noteq> ''1'' then (Refuse 422 ''review_required'', s)
          else case post_revision q ''expected_revision'' of
            None \<Rightarrow> (Refuse 400 ''invalid_review'', s)
          | Some revision \<Rightarrow>
              (case extractionDraft g w user org doc s of
                 (Inl _, s) \<Rightarrow> (Refuse 409 ''ocr_changed'', s)
               | (Inr (d, job), s) \<Rightarrow>
                   if job \<noteq> post_value q maxReviewBytes ''ocr_job_id'' then (Refuse 409 ''ocr_changed'', s)
                   else case confirm_values g w q user org doc job s of
                     (Refuse n c, s) \<Rightarrow> (Refuse n c, s)
                   | (Answer _ values, s) \<Rightarrow>
                       if ValidateReview d values \<noteq> None then (Refuse 422 ''invalid_review'', s)
                       else
                         let x = confirmed_request w q user org job d values in
                         if rv_id x = [] then (Refuse 503 ''extraction_unavailable'', s)
                         else if length (sg_marshal g x) > maxReviewBytes then (Refuse 422 ''invalid_review'', s)
                         else (Answer 200 (x, revision), s))))"

text \<open>The object is written, then the row; an object without a row is deleted again.\<close>

definition confirm_stored :: "storage \<Rightarrow> site \<Rightarrow> valued_review \<Rightarrow> int \<Rightarrow> store \<Rightarrow> int answer \<times> storage \<times> store" where
  "confirm_stored g w x revision s =
     (let key = rv_object_key x in
      if \<not> sg_put g key then (Refuse 503 ''extraction_unavailable'', g, s)
      else
        let g = put_object g key (sg_marshal g x) in
        case SaveReview (st_accepts w) (review.truncate x) revision s of
          Inl e \<Rightarrow>
            (if e = Extraction_ErrConflict then Refuse 409 ''review_changed'' else Refuse 503 ''extraction_unavailable'',
             delete_object g key, s)
        | Inr (x, s) \<Rightarrow> (Answer 200 (rv_revision x), g, s))"

definition confirmExtraction :: "storage \<Rightarrow> site \<Rightarrow> web \<Rightarrow> store \<Rightarrow> int answer \<times> storage \<times> store" where
  "confirmExtraction g w q s =
     (case confirm_request g w q s of
        (Refuse n c, s) \<Rightarrow> (Refuse n c, g, s)
      | (Answer _ (x, revision), s) \<Rightarrow> confirm_stored g w x revision s)"

section \<open>The export of confirmed values\<close>

definition structuredHeader :: "string list" where
  "structuredHeader = [''document_id'', ''document_type'', ''issue_date'', ''document_number'', ''seller_name'', ''seller_tax_id'',
     ''buyer_name'', ''buyer_tax_id'', ''currency'', ''subtotal'', ''vat_amount'', ''total_amount'', ''confirmed_at'', ''confirmed_by'',
     ''extraction_schema_version'']"

definition structuredExportValues :: "(time \<Rightarrow> string) \<Rightarrow> valued_review \<Rightarrow> string list" where
  "structuredExportValues format x =
     (let v = (\<lambda>k. text_at k (rv_values x)) in
      [rv_document x, rv_document_type x, v ''issue_date'', v ''document_number'', v ''seller_name'', v ''seller_tax_id'',
       v ''buyer_name'', v ''buyer_tax_id'', v ''currency'', v ''subtotal'', v ''vat_amount'', v ''total_amount'',
       format (rv_confirmed_at x), rv_confirmed_by x, Itoa 1])"

definition export_format :: "web \<Rightarrow> string" where
  "export_format q = (if has_suffix (wb_path q) ''.xlsx'' then ''xlsx'' else ''csv'')"

definition format_capability :: "string \<Rightarrow> capability" where
  "format_capability fmt = (if fmt = ''xlsx'' then ExportXLSX else ExportCSV)"

text \<open>A file of at most 128 MiB.\<close>

definition file_answer :: "storage \<Rightarrow> string \<Rightarrow> string \<Rightarrow> string list \<Rightarrow> string list list \<Rightarrow> table answer" where
  "file_answer g code fmt header rows =
     (case WriteTable fmt header rows of
        Inl _ \<Rightarrow> Refuse 503 code
      | Inr file \<Rightarrow> if sg_length g file > 134217728 then Refuse 503 code else Answer 200 file)"

definition exportExtractions :: "storage \<Rightarrow> site \<Rightarrow> web \<Rightarrow> store \<Rightarrow> table answer \<times> store" where
  "exportExtractions g w q s =
     workContext w q False s (\<lambda>session m s.
       managers m s
         (let fmt = export_format q in
          if \<not> gate_allows w s (ms_org m) (format_capability fmt) then (Refuse 403 ''feature_unavailable'', s)
          else
            trying s (if st_review w then ListCurrentReviewsFiltered (st_dbnow w) (se_user session) (ms_org m) 100 ''Available'' s
                      else ListCurrentReviews (st_dbnow w) (se_user session) (ms_org m) 100 s)
              (\<lambda>_. Refuse 503 ''extraction_export_unavailable'') (\<lambda>metas s.
              case collect_rows (readReview g) metas of
                Inl _ \<Rightarrow> (Refuse 503 ''extraction_export_unavailable'', s)
              | Inr reviews \<Rightarrow>
                  (file_answer g ''extraction_export_unavailable'' fmt structuredHeader (map (structuredExportValues (st_rfc3339 w)) reviews), s))))"

section \<open>The queue of reviews\<close>

definition reviewQueue :: "site \<Rightarrow> web \<Rightarrow> store \<Rightarrow> (queue_item list \<times> string) answer \<times> store" where
  "reviewQueue w q s =
     workContext w q False s (\<lambda>session m s.
       case pageLimit (query_value q ''limit'') of
         None \<Rightarrow> (Refuse 400 ''invalid_queue'', s)
       | Some limit \<Rightarrow>
           if limit > 50 then (Refuse 400 ''invalid_queue'', s)
           else
             let given = query_value q ''view''; view = (if given = [] then ''all'' else given);
                 asked = query_value q ''status''; status = (if asked = [] then ''Available'' else asked) in
             commit s (ListReviewQueue (st_position w) (st_cursor w) (st_dbnow w) (se_user session) (ms_org m) (query_value q ''cursor'')
                         view status (int limit) s)
               (\<lambda>e. if e = Document_ErrInvalidCursor then Refuse 400 ''invalid_queue'' else Refuse 503 ''review_unavailable'') (Answer 200))"

definition returnReview :: "site \<Rightarrow> web \<Rightarrow> store \<Rightarrow> int answer \<times> store" where
  "returnReview w q s =
     workContext w q True s (\<lambda>session m s.
       managers m s
         (if form_error q maxReviewBytes then (Refuse 400 ''invalid_return'', s)
          else case (post_revision q ''review_revision'', post_revision q ''draft_revision'') of
            (Some review, Some draft) \<Rightarrow>
              commit s (ReturnReview (st_accepts w) (st_uuids w)
                 \<lparr>ri_id = newUUID w 0, ri_actor = se_user session, ri_org = ms_org m, ri_document = path_value q ''document'',
                  ri_ocr_job = post_value q maxReviewBytes ''ocr_job_id'', ri_reason = post_value q maxReviewBytes ''reason_code'',
                  ri_note = TrimSpace (post_value q maxReviewBytes ''private_note''), ri_request = wb_request_id q,
                  ri_review_revision = review, ri_draft_revision = draft, ri_at = now w\<rparr> s)
                (\<lambda>e. if e = Extraction_ErrConflict then Refuse 409 ''review_changed'' else Refuse 503 ''review_unavailable'') (Answer 200)
          | _ \<Rightarrow> (Refuse 400 ''invalid_return'', s)))"

definition reprocessReview :: "site \<Rightarrow> web \<Rightarrow> store \<Rightarrow> ocr_state answer \<times> store" where
  "reprocessReview w q s =
     workContext w q True s (\<lambda>session m s.
       managers m s
         (if form_error q maxReviewBytes then (Refuse 400 ''invalid_reprocess'', s)
          else case post_revision q ''draft_revision'' of
            None \<Rightarrow> (Refuse 400 ''invalid_reprocess'', s)
          | Some draft \<Rightarrow>
              commit s (ReprocessOCR (st_accepts w) (st_accepts w) (st_uuids w 0) (st_uuids w 1)
                 \<lparr>rp_user = se_user session, rp_org = ms_org m, rp_document = path_value q ''document'',
                  rp_ocr = post_value q maxReviewBytes ''ocr_job_id'', rp_draft = draft,
                  rp_reason = post_value q maxReviewBytes ''reason_code'',
                  rp_note = TrimSpace (post_value q maxReviewBytes ''private_note''), rp_request = wb_request_id q, rp_now = now w\<rparr> s)
                (\<lambda>_. Refuse 409 ''reprocess_unavailable'') (Answer 202)))"

definition assignment_of :: "site \<Rightarrow> nat \<times> string \<times> string \<times> string \<times> string \<Rightarrow> assignment result" where
  "assignment_of w = (\<lambda>(i, doc, ocr, review, draft).
     case (Atoi review, Atoi draft) of
       (Some r, Some d) \<Rightarrow>
         if r < 0 \<or> d < 0 then Inl (OtherError ''negative'')
         else Inr \<lparr>as_document = doc, as_ocr_job = ocr, as_review_revision = r, as_draft_revision = d, as_task = newUUID w i\<rparr>
     | _ \<Rightarrow> Inl (OtherError ''syntax''))"

definition assignReviewQueue :: "site \<Rightarrow> web \<Rightarrow> store \<Rightarrow> nat answer \<times> store" where
  "assignReviewQueue w q s =
     workContext w q True s (\<lambda>session m s.
       managers m s
         (let v = post_values q maxReviewBytes; docs = v ''document_id''; ocrs = v ''ocr_job_id''; reviews = v ''review_revision'';
              drafts = v ''draft_revision'' in
          if form_error q maxReviewBytes then (Refuse 400 ''invalid_assignment'', s)
          else if docs = [] \<or> length docs > 50 \<or> length ocrs \<noteq> length docs \<or> length reviews \<noteq> length docs \<or> length drafts \<noteq> length docs
          then (Refuse 400 ''invalid_assignment'', s)
          else case collect_rows (assignment_of w) (enumerate 0 (zip docs (zip ocrs (zip reviews drafts)))) of
            Inl _ \<Rightarrow> (Refuse 400 ''invalid_assignment'', s)
          | Inr items \<Rightarrow>
              if \<not> gate_allows w s (ms_org m) CreateTasks then (Refuse 402 ''feature_unavailable'', s)
              else commit s (AssignReviewTasks (st_accepts w) (st_events w) (se_user session) (ms_org m)
                       (post_value q maxReviewBytes ''assignee_user_id'') items (wb_request_id q) (now w) s)
                     (\<lambda>e. if e = Extraction_ErrConflict then Refuse 409 ''review_changed'' else Refuse 503 ''review_unavailable'')
                     (\<lambda>created. Answer 200 (length items))))"

end
