(* ===== verification/AccountingRoutes.thy ===== *)
theory AccountingRoutes
  imports ReviewRoutes
begin

text \<open>
  The routes of the accounting suggestions: src/api/internal/httpapi/accounting_routes.go over the transactions of Accounting, with
  the confirmed reviews read from the private store of ReviewRoutes.
\<close>

definition accounting_limit :: nat where "accounting_limit = 4096"

text \<open>The answer to an error: its own status for the errors listed, otherwise 503.\<close>

definition accounting_error :: "(err \<times> nat \<times> string) list \<Rightarrow> err \<Rightarrow> 'a answer" where
  "accounting_error table e = (case map_of table e of Some (n, c) \<Rightarrow> Refuse n c | None \<Rightarrow> Refuse 503 ''accounting_unavailable'')"

section \<open>Categories\<close>

definition category_errors :: "(err \<times> nat \<times> string) list" where
  "category_errors = [(Accounting_ErrInvalid, 422, ''invalid_category''), (Accounting_ErrConflict, 422, ''invalid_category'')]"

definition accountingCategories :: "bool \<Rightarrow> site \<Rightarrow> web \<Rightarrow> store \<Rightarrow> category list answer \<times> store" where
  "accountingCategories post w q s =
     workContext w q post s (\<lambda>session m s.
       if \<not> post then read_only s (ListCategories (st_server w) (ms_org m) s) (accounting_error []) (Answer 200)
       else managers m s
         (if form_error q accounting_limit then (Refuse 400 ''invalid_category'', s)
          else commit s (CreateCategory (st_server w) (se_user session) (ms_org m)
                   \<lparr>ca_id = newUUID w 0, ca_name = post_value q accounting_limit ''name'', ca_archived_at = None\<rparr> (now w) s)
                 (accounting_error category_errors) (\<lambda>c. Answer 201 [c])))"

definition renameAccountingCategory :: "site \<Rightarrow> web \<Rightarrow> store \<Rightarrow> unit answer \<times> store" where
  "renameAccountingCategory w q s =
     workContext w q True s (\<lambda>session m s.
       managers m s
         (if form_error q accounting_limit then (Refuse 400 ''invalid_category'', s)
          else commit s (RenameCategory (st_server w) (se_user session) (ms_org m) (path_value q ''category'')
                   (post_value q accounting_limit ''name'') (now w) s)
                 (accounting_error category_errors) (Answer 200)))"

definition accountingCategoryStatus :: "site \<Rightarrow> web \<Rightarrow> store \<Rightarrow> bool answer \<times> store" where
  "accountingCategoryStatus w q s =
     workContext w q True s (\<lambda>session m s.
       managers m s
         (let archived = has_suffix (wb_path q) ''/archive'' in
          commit s (SetCategoryArchived (st_server w) (se_user session) (ms_org m) (path_value q ''category'') archived (now w) s)
            (accounting_error [(Accounting_ErrConflict, 409, ''category_changed'')]) (\<lambda>_. Answer 200 archived)))"

section \<open>Rules\<close>

definition listAccountingRules :: "site \<Rightarrow> web \<Rightarrow> store \<Rightarrow> rule list answer \<times> store" where
  "listAccountingRules w q s =
     workContext w q False s (\<lambda>session m s.
       read_only s (ListRules (ms_org m) (query_value q ''vendor_id'') s)
         (accounting_error [(Accounting_ErrInvalid, 400, ''invalid_vendor'')]) (Answer 200))"

definition accountingRule :: "site \<Rightarrow> web \<Rightarrow> store \<Rightarrow> rule answer \<times> store" where
  "accountingRule w q s =
     workContext w q True s (\<lambda>session m s.
       managers m s
         (if form_error q accounting_limit then (Refuse 400 ''invalid_rule'', s)
          else commit s (CreateRule
                   \<lparr>ru_in_id = newUUID w 0, ru_in_actor = se_user session, ru_in_org = ms_org m,
                    ru_in_vendor = post_value q accounting_limit ''vendor_id'',
                    ru_in_document_type = post_value q accounting_limit ''document_type'',
                    ru_in_category = post_value q accounting_limit ''category_id'', ru_in_at = now w\<rparr> s)
                 (accounting_error [(Accounting_ErrInvalid, 422, ''invalid_rule'')]) (Answer 201)))"

definition retireAccountingRule :: "site \<Rightarrow> web \<Rightarrow> store \<Rightarrow> unit answer \<times> store" where
  "retireAccountingRule w q s =
     workContext w q True s (\<lambda>session m s.
       managers m s
         (commit s (RetireRule (se_user session) (ms_org m) (path_value q ''rule'') (now w) s)
            (accounting_error [(Accounting_ErrConflict, 409, ''rule_changed'')]) (Answer 200)))"

section \<open>Suggestions\<close>

record queue_entry =
  qe_document :: id
  qe_basis :: string
  qe_warnings :: "string list"

text \<open>The entry of a review in the queue: none when its suggestion is approved without a warning.\<close>

definition queue_entry_of :: "storage \<Rightarrow> id \<Rightarrow> store \<Rightarrow> review \<Rightarrow> queue_entry list result" where
  "queue_entry_of g org s meta =
     (case readReview g meta of
        Inl e \<Rightarrow> Inl e
      | Inr x \<Rightarrow>
          (case Evaluate org x s of
             Inl e \<Rightarrow>
               if e = Accounting_ErrConflict
               then Inr [\<lparr>qe_document = rv_document meta, qe_basis = ''source_changed'', qe_warnings = [''source_changed'']\<rparr>] else Inl e
           | Inr ev \<Rightarrow>
               Inr (if ev_approved ev = None \<or> cd_warnings (ev_candidate ev) \<noteq> []
                    then [\<lparr>qe_document = rv_document meta, qe_basis = cd_basis (ev_candidate ev), qe_warnings = cd_warnings (ev_candidate ev)\<rparr>]
                    else [])))"

definition queue_offset :: "web \<Rightarrow> int option" where
  "queue_offset q =
     (if query_value q ''offset'' = [] then Some 0
      else case Atoi (query_value q ''offset'') of None \<Rightarrow> None | Some n \<Rightarrow> if n < 0 \<or> n > 10000 then None else Some n)"

definition accountingReviewQueue :: "storage \<Rightarrow> site \<Rightarrow> web \<Rightarrow> store \<Rightarrow> (queue_entry list \<times> bool) answer \<times> store" where
  "accountingReviewQueue g w q s =
     workContext w q False s (\<lambda>session m s.
       managers m s
         (case queue_offset q of
            None \<Rightarrow> (Refuse 400 ''invalid_offset'', s)
          | Some offset \<Rightarrow>
              (case ListRecentReviews (se_user session) (ms_org m) 20 offset s of
                 Inl _ \<Rightarrow> (Refuse 503 ''accounting_unavailable'', s)
               | Inr metas \<Rightarrow>
                   read_only s (collect_rows (queue_entry_of g (ms_org m) s) metas) (accounting_error [])
                     (\<lambda>entries. Answer 200 (concat entries, length metas = 20)))))"

definition accountingSuggestion :: "storage \<Rightarrow> site \<Rightarrow> web \<Rightarrow> store \<Rightarrow> (valued_review \<times> evaluation) answer \<times> store" where
  "accountingSuggestion g w q s =
     workContext w q False s (\<lambda>session m s.
       trying s (CurrentReview (st_dbnow w) (se_user session) (ms_org m) (path_value q ''document'') s) (\<lambda>_. Refuse 409 ''review_required'') (\<lambda>meta s.
         if rv_id meta = [] then (Refuse 409 ''review_required'', s)
         else case readReview g meta of
           Inl _ \<Rightarrow> (Refuse 503 ''accounting_unavailable'', s)
         | Inr x \<Rightarrow>
             read_only s (Evaluate (ms_org m) x s) (accounting_error [(Accounting_ErrConflict, 409, ''source_changed'')])
               (\<lambda>ev. Answer 200 (x, ev))))"

section \<open>Approving a suggestion\<close>

definition choice_revision :: "web \<Rightarrow> string \<Rightarrow> int \<Rightarrow> int option" where
  "choice_revision q k least =
     (case Atoi (post_value q accounting_limit k) of None \<Rightarrow> None | Some n \<Rightarrow> if n < least then None else Some n)"

definition approve_form :: "site \<Rightarrow> web \<Rightarrow> id \<Rightarrow> id \<Rightarrow> approve_input option" where
  "approve_form w q user org =
     (let v = post_value q accounting_limit in
      case (choice_revision q ''review_revision'' 1, choice_revision q ''rule_set_version'' 0, choice_revision q ''expected_revision'' 0) of
        (Some review, Some rules, Some expected) \<Rightarrow>
          Some \<lparr>ap_id = newUUID w 0, ap_actor = user, ap_org = org, ap_document = path_value q ''document'', ap_review = v ''review_id'',
            ap_review_revision = review, ap_rule_set_version = rules, ap_category = v ''category_id'', ap_vendor = v ''vendor_id'',
            ap_rule = [], ap_rule_version = 0, ap_basis = [], ap_reason = v ''unmatched_vendor_reason'', ap_expected = expected,
            ap_at = now w, ap_request = wb_request_id q\<rparr>
      | _ \<Rightarrow> None)"

text \<open>The rule is the suggestion's when the choice is the suggestion.\<close>

definition suggested_rule :: "evaluation \<Rightarrow> approve_input \<Rightarrow> approve_input" where
  "suggested_rule ev x =
     (let c = ev_candidate ev in
      if cd_rule c \<noteq> [] \<and> cd_category c = ap_category x \<and> ev_vendor ev = ap_vendor x
      then x\<lparr>ap_rule := cd_rule c, ap_rule_version := cd_version c, ap_basis := cd_basis c\<rparr> else x)"

definition approve_evaluated :: "site \<Rightarrow> approve_input \<Rightarrow> valued_review \<Rightarrow> store \<Rightarrow> approval answer \<times> store" where
  "approve_evaluated w x review s =
     (case Evaluate (ap_org x) review s of
        Inl _ \<Rightarrow> (Refuse 409 ''suggestion_changed'', s)
      | Inr ev \<Rightarrow>
          if ev_rule_set_version ev \<noteq> ap_rule_set_version x then (Refuse 409 ''suggestion_changed'', s)
          else commit s (Approve (st_accepts w) (suggested_rule ev x) s)
                 (accounting_error [(Accounting_ErrConflict, 409, ''suggestion_changed''), (Accounting_ErrInvalid, 422, ''invalid_choice'')])
                 (Answer 200))"

definition approve_opened :: "storage \<Rightarrow> site \<Rightarrow> approve_input \<Rightarrow> valued_review \<Rightarrow> store \<Rightarrow> approval answer \<times> store" where
  "approve_opened g w x review s =
     (if st_review w then
        (let (available, s) = originalAvailable g w (ap_actor x) (ap_org x) (ap_document x) s in
         if \<not> available then (Refuse 409 ''original_unavailable'', s) else approve_evaluated w x review s)
      else approve_evaluated w x review s)"

definition approveAccounting :: "storage \<Rightarrow> site \<Rightarrow> web \<Rightarrow> store \<Rightarrow> approval answer \<times> store" where
  "approveAccounting g w q s =
     workContext w q True s (\<lambda>session m s.
       managers m s
         (if form_error q accounting_limit then (Refuse 400 ''invalid_choice'', s)
          else case approve_form w q (se_user session) (ms_org m) of
            None \<Rightarrow> (Refuse 400 ''invalid_choice'', s)
          | Some x \<Rightarrow>
              trying s (CurrentReview (st_dbnow w) (se_user session) (ms_org m) (ap_document x) s) (\<lambda>_. Refuse 409 ''source_changed'') (\<lambda>meta s.
                if rv_id meta \<noteq> ap_review x \<or> rv_revision meta \<noteq> ap_review_revision x then (Refuse 409 ''source_changed'', s)
                else case readReview g meta of
                  Inl _ \<Rightarrow> (Refuse 503 ''accounting_unavailable'', s)
                | Inr review \<Rightarrow> approve_opened g w x review s)))"

section \<open>The export\<close>

text \<open>The rows of the approved suggestions, each from its review as it is now.\<close>

fun approved_rows :: "storage \<Rightarrow> site \<Rightarrow> id \<Rightarrow> id \<Rightarrow> approval list \<Rightarrow> store \<Rightarrow> string list list answer \<times> store" where
  "approved_rows g w user org [] s = (Answer 200 [], s)"
| "approved_rows g w user org (a # rest) s =
     trying s (CurrentReview (st_dbnow w) user org (av_document a) s) (\<lambda>_. Refuse 409 ''source_changed'') (\<lambda>meta s.
       if rv_id meta \<noteq> av_review a then (Refuse 409 ''source_changed'', s)
       else case readReview g meta of
         Inl _ \<Rightarrow> (Refuse 503 ''accounting_export_unavailable'', s)
       | Inr x \<Rightarrow>
           (case ExportRow (st_rfc3339 w) a x of
              Inl _ \<Rightarrow> (Refuse 409 ''source_changed'', s)
            | Inr row \<Rightarrow>
                (case approved_rows g w user org rest s of
                   (Refuse n c, s) \<Rightarrow> (Refuse n c, s)
                 | (Answer n rows, s) \<Rightarrow> (Answer n (row # rows), s))))"

definition exportAccounting :: "storage \<Rightarrow> site \<Rightarrow> web \<Rightarrow> store \<Rightarrow> table answer \<times> store" where
  "exportAccounting g w q s =
     workContext w q False s (\<lambda>session m s.
       managers m s
         (let fmt = export_format q; doc = query_value q ''document_id'' in
          if \<not> gate_allows w s (ms_org m) (format_capability fmt) then (Refuse 403 ''feature_unavailable'', s)
          else if length doc > 36 then (Refuse 400 ''invalid_filter'', s)
          else
            trying s (ListApproved (st_dbnow w) (se_user session) (ms_org m) 100 doc s)
              (\<lambda>e. if e = Accounting_ErrTooMany then Refuse 422 ''too_many_rows'' else Refuse 503 ''accounting_export_unavailable'') (\<lambda>approved s.
              case approved_rows g w (se_user session) (ms_org m) approved s of
                (Refuse n c, s) \<Rightarrow> (Refuse n c, s)
              | (Answer _ rows, s) \<Rightarrow>
                  (case ValidateApprovedSnapshot (se_user session) (ms_org m) approved s of
                     Inl _ \<Rightarrow> Refuse 409 ''source_changed''
                   | Inr _ \<Rightarrow> file_answer g ''accounting_export_unavailable'' fmt ExportHeader rows, s))))"

end
