(* ===== verification/Exports.thy ===== *)
theory Exports
  imports Accounting WorkReads
begin

text \<open>
  The exports of the worker: src/api/internal/postgres/review_exports.go and \<^verbatim>\<open>ReadExportPage\<close> of jobs.go.  A document export
  fixes its rows when it is queued, in the snapshot tables of migration 000012; the worker reads the job page by page, of a snapshot
  only the rows whose document, review and approval are still the ones it named.

  \<^verbatim>\<open>QueueDocumentExport\<close> uses one parameter as a uuid and as a text, and passes others only to
  \<^verbatim>\<open>jsonb_build_object\<close>; \<open>accepts1\<close> and \<open>accepts2\<close> are the server's verdicts on these statements.
\<close>

section \<open>Types\<close>

record document_export_request =
  dx_id :: id
  dx_org :: id
  dx_user :: id
  dx_product :: string
  dx_status :: string
  dx_format :: string
  dx_from :: string
  dx_to :: string
  dx_request :: string
  dx_now :: time

record document_export_state =
  dy_id :: id
  dy_product :: string
  dy_status :: string
  dy_rows :: int
  dy_failure :: string
  dy_created_at :: time

text \<open>An entry of a page; Go fills one or two of the three parts of a struct.\<close>

datatype export_entry = DocumentEntry export_row | ReviewEntry review | ApprovalEntry review approval

record export_page =
  xp_rows :: "task_export_row list"
  xp_product :: string
  xp_entries :: "export_entry list"
  xp_next :: string
  xp_done :: bool

section \<open>The rows of a document export\<close>

definition export_date :: "string \<Rightarrow> bool" where "export_date v = (v = [] \<or> parse_date v \<noteq> None)"

definition validExportDates :: "string \<Rightarrow> string \<Rightarrow> bool" where
  "validExportDates from to = (export_date from \<and> export_date to \<and> (from = [] \<or> to = [] \<or> from \<le> to))"

definition export_status :: "string \<Rightarrow> string \<Rightarrow> bool" where
  "export_status product status =
     (status \<in> {''Available'', ''Archived'', ''Trash''} \<and> (status = ''Trash'' \<longrightarrow> product = ''raw_documents''))"

text \<open>\<^verbatim>\<open>documentExportDateFilter\<close>: the local day of a time, between two days.\<close>

definition in_days :: "server \<Rightarrow> organization_row \<Rightarrow> string option \<times> string option \<Rightarrow> time \<Rightarrow> bool" where
  "in_days sv g = (\<lambda>(from, to) t. date_from from (Some (local_day sv g t)) \<and> date_to to (Some (local_day sv g t)))"

text \<open>The current reviews of a document whose run is still published and whose draft has not moved on.\<close>

definition exportable_review :: "store \<Rightarrow> review_row \<Rightarrow> bool" where
  "exportable_review s e = (er_superseded_at e = None \<and> run_of_review_current s e \<and> \<not> newer_draft s e)"

definition reviews_of_document :: "store \<Rightarrow> document_row \<Rightarrow> review_row list" where
  "reviews_of_document s d = filter (\<lambda>e. er_org e = d_org d \<and> er_document e = d_id d \<and> exportable_review s e) (document_extraction_reviews s)"

definition approvals_of_review :: "store \<Rightarrow> document_row \<Rightarrow> review_row \<Rightarrow> suggestion_row list" where
  "approvals_of_review s d e =
     filter (\<lambda>a. sg_org a = d_org d \<and> sg_document a = d_id d \<and> sg_review a = er_id e \<and> sg_superseded_at a = None) (accounting_suggestions s)"

type_synonym source = "document_row \<times> review_row option \<times> suggestion_row option"

definition document_sources_of :: "string \<Rightarrow> store \<Rightarrow> document_row \<Rightarrow> source list" where
  "document_sources_of product s d =
     (if product = ''raw_documents'' then [(d, None, None)]
      else concat (map (\<lambda>e.
        if product = ''confirmed_values'' then [(d, Some e, None)]
        else map (\<lambda>a. (d, Some e, Some a)) (approvals_of_review s d e)) (reviews_of_document s d)))"

text \<open>The time by which the rows are chosen and ordered, with the id that breaks ties.\<close>

definition source_position :: "source \<Rightarrow> time \<times> id" where
  "source_position = (\<lambda>(d, e, a). case (e, a) of
       (_, Some a) \<Rightarrow> (sg_approved_at a, sg_id a)
     | (Some e, None) \<Rightarrow> (er_confirmed_at e, er_id e)
     | (None, None) \<Rightarrow> (d_accepted_at d, d_id d))"

definition export_sources :: "server \<Rightarrow> string \<Rightarrow> id \<Rightarrow> string \<Rightarrow> string option \<times> string option \<Rightarrow> store \<Rightarrow> source list" where
  "export_sources sv product org status days s =
     (case organization_of org s of
        None \<Rightarrow> []
      | Some g \<Rightarrow>
          filter (\<lambda>r. in_days sv g days (fst (source_position r)))
            (concat (map (document_sources_of product s) (filter (\<lambda>d. d_org d = org \<and> d_status d = status) (documents s)))))"

definition export_days :: "server \<Rightarrow> string \<Rightarrow> string \<Rightarrow> (string option \<times> string option) result" where
  "export_days sv from to =
     (case date_or_null sv from of
        Inl e \<Rightarrow> Inl e
      | Inr a \<Rightarrow> (case date_or_null sv to of Inl e \<Rightarrow> Inl e | Inr b \<Rightarrow> Inr (a, b)))"

section \<open>Counting and queueing\<close>

definition CountDocumentExport :: "server \<Rightarrow> id \<Rightarrow> id \<Rightarrow> string \<Rightarrow> string \<Rightarrow> string \<Rightarrow> string \<Rightarrow> store \<Rightarrow> int result" where
  "CountDocumentExport sv user org product status from to s =
     (if \<not> export_status product status \<or> \<not> validExportDates from to then Inl (OtherError ''invalid document export status'')
      else if \<not> document_product product then Inl (OtherError ''invalid document export product'')
      else if \<not> manager_here user org s then Inl Tenant_ErrForbidden
      else case export_days sv from to of
        Inl e \<Rightarrow> Inl e
      | Inr days \<Rightarrow> Inr (int (length (export_sources sv product org status days s))))"

definition cap_rows :: "string \<Rightarrow> nat" where
  "cap_rows product = (if product = ''raw_documents'' then 20000 else 5000)"

definition format_version :: "string \<Rightarrow> string" where
  "format_version product =
     (if product = ''raw_documents'' then ''unverified_documents_v1''
      else if product = ''confirmed_values'' then ''structured_documents_v1'' else ''accounting_suggestions_v1'')"

definition document_export_payload :: "document_export_request \<Rightarrow> int \<Rightarrow> json" where
  "document_export_payload x rows =
     JObject [(''date_from'', JString (dx_from x)), (''date_to'', JString (dx_to x)), (''export_type'', JString (dx_product x)),
       (''format'', JString (dx_format x)), (''format_version'', JString (format_version (dx_product x))), (''row_count'', JNumber rows)]"

definition document_export_job :: "document_export_request \<Rightarrow> int \<Rightarrow> job_row" where
  "document_export_job x rows =
     \<lparr>j_id = dx_id x, j_org = dx_org x, j_requester = Some (dx_user x), j_kind = ''export'', j_status = ''Queued'',
      j_payload = document_export_payload x rows, j_result = None, j_key = dx_id x, j_request_id = Some (dx_request x),
      j_attempts = 0, j_max_attempts = 5, j_current_attempt = None, j_lease_hash = None, j_lease = None, j_worker = None,
      j_available_at = dx_now x, j_created_at = dx_now x, j_started_at = None, j_completed_at = None, j_failed_at = None,
      j_cancelled_at = None, j_failure_code = None, j_stale_reclaims = 0, j_legacy = None\<rparr>"

definition snapshot_of :: "document_export_request \<Rightarrow> string option \<times> string option \<Rightarrow> int \<Rightarrow> snapshot_row" where
  "snapshot_of x days rows =
     \<lparr>sn_job = dx_id x, sn_org = dx_org x, sn_requester = dx_user x, sn_product = dx_product x, sn_status = dx_status x,
      sn_format = dx_format x, sn_date_from = fst days, sn_date_to = snd days, sn_row_count = rows, sn_created_at = dx_now x\<rparr>"

definition insert_snapshot :: "snapshot_row \<Rightarrow> (unit, store) txn" where
  "insert_snapshot n s =
     (if \<not> document_product (sn_product n) \<or> sn_status n \<notin> {''Available'', ''Archived'', ''Trash''} \<or> sn_format n \<notin> {''csv'', ''xlsx''}
      then Inl (CheckViolation ''document_export_snapshots'')
      else if row_exists (\<lambda>m. sn_job m = sn_job n) (document_export_snapshots s)
      then Inl (UniqueViolation ''document_export_snapshots_pkey'')
      else Inr ((), s\<lparr>document_export_snapshots := document_export_snapshots s @ [n]\<rparr>))"

definition snapshot_entry :: "document_export_request \<Rightarrow> nat \<times> source \<Rightarrow> snapshot_entry_row" where
  "snapshot_entry x = (\<lambda>(i, d, e, a).
     \<lparr>sr_job = dx_id x, sr_org = dx_org x, sr_ordinal = int i, sr_document = d_id d, sr_document_updated_at = d_updated_at d,
      sr_review = map_option er_id e, sr_approval = map_option sg_id a\<rparr>)"

text \<open>The primary key and the key on the document of a job.\<close>

definition insert_entry :: "snapshot_entry_row \<Rightarrow> (unit, store) txn" where
  "insert_entry r s =
     (if row_exists (\<lambda>q. sr_job q = sr_job r \<and> (sr_ordinal q = sr_ordinal r \<or> sr_document q = sr_document r)) (document_export_snapshot_rows s)
      then Inl (UniqueViolation ''document_export_snapshot_rows'')
      else Inr ((), s\<lparr>document_export_snapshot_rows := document_export_snapshot_rows s @ [r]\<rparr>))"

fun insert_entries :: "snapshot_entry_row list \<Rightarrow> (unit, store) txn" where
  "insert_entries [] s = Inr ((), s)"
| "insert_entries (r # rs) s = (case insert_entry r s of Inl e \<Rightarrow> Inl e | Inr (_, s) \<Rightarrow> insert_entries rs s)"

definition export_audit :: "document_export_request \<Rightarrow> int \<Rightarrow> audit_row" where
  "export_audit x rows =
     \<lparr>au_org = Some (dx_org x), au_actor = Some (dx_user x), au_type = ''review.export.request'', au_target_type = ''durable_job'',
      au_target_id = dx_id x, au_request = Some (dx_request x), au_outcome = ''queued'', au_reason = None,
      au_metadata = JObject [(''product'', JString (dx_product x)), (''status'', JString (dx_status x)), (''format'', JString (dx_format x)),
        (''row_count'', JNumber rows), (''date_from'', JString (dx_from x)), (''date_to'', JString (dx_to x))], au_at = dx_now x\<rparr>"

definition write_export :: "bool \<Rightarrow> document_export_request \<Rightarrow> string option \<times> string option \<Rightarrow> source list \<Rightarrow> (document_export_state, store) txn" where
  "write_export accepts x days rows s =
     (let n = int (length rows) in
      case insert_job (document_export_job x n) s of
        Inl e \<Rightarrow> Inl e
      | Inr (_, s) \<Rightarrow>
     (case insert_snapshot (snapshot_of x days n) s of
        Inl e \<Rightarrow> Inl e
      | Inr (_, s) \<Rightarrow>
     (case insert_entries (map (snapshot_entry x) (enumerate 1 rows)) s of
        Inl e \<Rightarrow> Inl e
      | Inr (_, s) \<Rightarrow>
          if \<not> accepts then Inl (OtherError ''could not determine data type of parameter'')
          else Inr (\<lparr>dy_id = dx_id x, dy_product = dx_product x, dy_status = Queued, dy_rows = n, dy_failure = [], dy_created_at = dx_now x\<rparr>,
                    s\<lparr>audit_events := audit_events s @ [export_audit x n]\<rparr>))))"

definition QueueDocumentExport :: "bool \<Rightarrow> bool \<Rightarrow> server \<Rightarrow> document_export_request \<Rightarrow> (document_export_state, store) txn" where
  "QueueDocumentExport accepts1 accepts2 sv x s =
     (if \<not> documentUUID (dx_id x) \<or> dx_format x \<notin> {''csv'', ''xlsx''} \<or> \<not> export_status (dx_product x) (dx_status x)
         \<or> \<not> validExportDates (dx_from x) (dx_to x)
      then Inl (OtherError ''invalid document export'')
      else if \<not> document_product (dx_product x) then Inl (OtherError ''invalid document export product'')
      else if \<not> manager_here (dx_user x) (dx_org x) s then Inl Tenant_ErrForbidden
      else case export_days sv (dx_from x) (dx_to x) of
        Inl e \<Rightarrow> Inl e
      | Inr days \<Rightarrow>
          let rows = sort_key source_position (export_sources sv (dx_product x) (dx_org x) (dx_status x) days s) in
          if length rows > cap_rows (dx_product x) then Inl (OtherError ''document export exceeds hard row limit'')
          else if \<not> accepts1 then Inl (OtherError ''inconsistent types deduced for parameter'')
          else write_export accepts2 x days rows s)"

section \<open>The state of an export\<close>

definition shown_status :: "time \<Rightarrow> store \<Rightarrow> job_row \<Rightarrow> string" where
  "shown_status dbnow s j =
     (case query_row (\<lambda>a. ja_job a = j_id j) (durable_job_artifacts s) of
        None \<Rightarrow> j_status j
      | Some a \<Rightarrow>
          if j_status j = Completed \<and> ja_expires_at a \<le> dbnow then ''Expired''
          else if j_status j = Completed \<and> ja_deleted_at a = None then ''Ready'' else j_status j)"

definition GetDocumentExport :: "time \<Rightarrow> id \<Rightarrow> id \<Rightarrow> id \<Rightarrow> store \<Rightarrow> document_export_state result" where
  "GetDocumentExport dbnow user org i s =
     (if \<not> manager_here user org s then Inl Tenant_ErrForbidden
      else case (query_row (\<lambda>n. sn_org n = org \<and> sn_job n = i) (document_export_snapshots s), query_row (\<lambda>j. j_id j = i) (durable_jobs s)) of
        (Some n, Some j) \<Rightarrow>
          Inr \<lparr>dy_id = j_id j, dy_product = sn_product n, dy_status = shown_status dbnow s j, dy_rows = sn_row_count n,
               dy_failure = null_text (j_failure_code j), dy_created_at = j_created_at j\<rparr>
      | _ \<Rightarrow> Inl Tenant_ErrNotFound)"

section \<open>Pages of a snapshot\<close>

text \<open>The rows a snapshot row named, if they are still as they were.\<close>

definition named_document :: "store \<Rightarrow> snapshot_row \<Rightarrow> snapshot_entry_row \<Rightarrow> document_row option" where
  "named_document s n r =
     query_row (\<lambda>d. d_org d = sr_org r \<and> d_id d = sr_document r \<and> d_updated_at d = sr_document_updated_at r \<and> d_status d = sn_status n) (documents s)"

definition named_review :: "store \<Rightarrow> snapshot_entry_row \<Rightarrow> review_row option" where
  "named_review s r =
     query_row (\<lambda>e. er_org e = sr_org r \<and> Some (er_id e) = sr_review r \<and> er_document e = sr_document r \<and> exportable_review s e)
       (document_extraction_reviews s)"

definition named_approval :: "store \<Rightarrow> snapshot_entry_row \<Rightarrow> review_row \<Rightarrow> suggestion_row option" where
  "named_approval s r e =
     query_row (\<lambda>a. sg_org a = sr_org r \<and> Some (sg_id a) = sr_approval r \<and> sg_document a = sr_document r \<and> sg_review a = er_id e
         \<and> sg_superseded_at a = None) (accounting_suggestions s)"

definition export_meta :: "review_row \<Rightarrow> review" where
  "export_meta e =
     zero_review\<lparr>rv_id := er_id e, rv_org := er_org e, rv_document := er_document e, rv_ocr_job := er_ocr_job e, rv_revision := er_revision e,
       rv_object_key := er_object_key e, rv_confirmed_by := er_confirmed_by e, rv_confirmed_at := er_confirmed_at e\<rparr>"

definition snapshot_entry_of :: "string \<Rightarrow> store \<Rightarrow> snapshot_row \<Rightarrow> snapshot_entry_row \<Rightarrow> (int \<times> export_entry) option" where
  "snapshot_entry_of product s n r =
     (case named_document s n r of
        None \<Rightarrow> None
      | Some d \<Rightarrow>
          if product = ''raw_documents'' then Some (sr_ordinal r, DocumentEntry (export_row_of s d))
          else case named_review s r of
            None \<Rightarrow> None
          | Some e \<Rightarrow>
              if product = ''confirmed_values'' then Some (sr_ordinal r, ReviewEntry (export_meta e))
              else (case named_approval s r e of
                      None \<Rightarrow> None
                    | Some a \<Rightarrow> Some (sr_ordinal r, ApprovalEntry (export_meta e)
                        (read_approval a\<lparr>av_document := er_document e, av_review := er_id e\<rparr>))))"

definition snapshot_rows_of :: "id \<Rightarrow> id \<Rightarrow> store \<Rightarrow> snapshot_entry_row list" where
  "snapshot_rows_of jobID org s =
     sort_key sr_ordinal (filter (\<lambda>r. sr_job r = jobID \<and> sr_org r = org) (document_export_snapshot_rows s))"

definition snapshot_entries :: "string \<Rightarrow> id \<Rightarrow> id \<Rightarrow> store \<Rightarrow> (int \<times> export_entry) list" where
  "snapshot_entries product jobID org s =
     (case query_row (\<lambda>n. sn_job n = jobID \<and> sn_org n = org) (document_export_snapshots s) of
        None \<Rightarrow> []
      | Some n \<Rightarrow> List.map_filter (snapshot_entry_of product s n) (snapshot_rows_of jobID org s))"

definition export_cursor :: "string \<Rightarrow> int option" where
  "export_cursor v =
     (if v = [] then Some 0 else case Atoi v of None \<Rightarrow> None | Some n \<Rightarrow> if n < 0 \<or> n > 20000 then None else Some n)"

definition readDocumentExportPage :: "id \<Rightarrow> id \<Rightarrow> string \<Rightarrow> string \<Rightarrow> nat \<Rightarrow> store \<Rightarrow> export_page result" where
  "readDocumentExportPage jobID org product cursor limit s =
     (case export_cursor cursor of
        None \<Rightarrow> Inl (OtherError ''invalid document export cursor'')
      | Some prev \<Rightarrow>
          if \<not> document_product product then Inl (OtherError ''invalid export product'')
          else
            let rows = take (limit + 1) (filter (\<lambda>(i, x). i > prev) (snapshot_entries product jobID org s));
                page = \<lparr>xp_rows = [], xp_product = product, xp_entries = map snd rows, xp_next = [], xp_done = True\<rparr>
            in Inr (if length rows > limit
                    then page\<lparr>xp_entries := map snd (take limit rows), xp_done := False, xp_next := Itoa (fst (rows ! (limit - 1)))\<rparr>
                    else page))"

section \<open>Pages of a task export\<close>

text \<open>The filter on overdue tasks is taken at the time of the query, the column at the time of the request.\<close>

definition queued_filter :: "Jobs.task_filter \<Rightarrow> task_filter" where
  "queued_filter f =
     \<lparr>tf_status = Jobs.tf_status f, tf_priority = Jobs.tf_priority f, tf_assignee = Jobs.tf_assignee f, tf_creator = Jobs.tf_creator f,
      tf_due_from = Jobs.tf_due_from f, tf_due_to = Jobs.tf_due_to f, tf_created_from = Jobs.tf_created_from f,
      tf_created_to = Jobs.tf_created_to f, tf_overdue = Jobs.tf_overdue f\<rparr>"

definition page_task :: "server \<Rightarrow> time \<Rightarrow> organization_row \<Rightarrow> export_payload \<Rightarrow> date_bounds \<Rightarrow> string \<Rightarrow> task_row \<Rightarrow> bool" where
  "page_task sv dbnow g p b cursor t =
     (task_exported sv dbnow g (queued_filter (ep_filters p)) b t \<and> t_created_at t \<le> ep_data_as_of p \<and> t_updated_at t \<le> ep_data_as_of p
      \<and> (cursor = [] \<or> t_id t > cursor))"

definition readTaskExportPage :: "server \<Rightarrow> time \<Rightarrow> id \<Rightarrow> export_payload \<Rightarrow> string \<Rightarrow> nat \<Rightarrow> store \<Rightarrow> export_page result" where
  "readTaskExportPage sv dbnow org p cursor limit s =
     (case filter_dates sv (queued_filter (ep_filters p)) of
        Inl e \<Rightarrow> Inl e
      | Inr b \<Rightarrow>
          let items = (case organization_of org s of
                None \<Rightarrow> []
              | Some g \<Rightarrow> map (task_export_row sv (ep_data_as_of p) g s)
                  (take (limit + 1) (sort_key t_id (filter (page_task sv dbnow g p b cursor) (tasks s)))));
              page = \<lparr>xp_rows = items, xp_product = [], xp_entries = [], xp_next = [], xp_done = length items \<le> limit\<rparr>
          in Inr (if length items > limit then page\<lparr>xp_rows := take limit items, xp_next := te_task (items ! (limit - 1))\<rparr> else page))"

definition export_lease :: "(bytes \<Rightarrow> bytes) \<Rightarrow> lease_command \<Rightarrow> job_row \<Rightarrow> bool" where
  "export_lease hash c j = (j_kind j = Export \<and> lease_held hash c j)"

definition ReadExportPage :: "(bytes \<Rightarrow> bytes) \<Rightarrow> (string \<Rightarrow> time option) \<Rightarrow> server \<Rightarrow> time \<Rightarrow> lease_command \<Rightarrow> string \<Rightarrow> int \<Rightarrow> store \<Rightarrow> export_page result" where
  "ReadExportPage hash parse_time sv dbnow c cursor limit s =
     (if limit < 1 \<or> limit > 500 then Inl (OtherError ''invalid export page limit'')
      else case query_row (export_lease hash c) (durable_jobs s) of
        None \<Rightarrow> Inl Job_ErrLeaseLost
      | Some j \<Rightarrow>
          (case decode_payload parse_time (j_payload j) of
             None \<Rightarrow> Inl (OtherError ''invalid export payload'')
           | Some p \<Rightarrow>
               if ep_format p \<notin> {''csv'', ''xlsx''} then Inl (OtherError ''invalid export payload'')
               else if document_product (ep_export_type p) then readDocumentExportPage (lm_job c) (j_org j) (ep_export_type p) cursor (nat limit) s
               else if ep_data_as_of p = zero_time then Inl (OtherError ''invalid export payload'')
               else readTaskExportPage sv dbnow (j_org j) p cursor (nat limit) s))"

section \<open>The rows of a queued export\<close>

definition exports_ok :: "store \<Rightarrow> bool" where
  "exports_ok s =
     (distinct (map d_id (documents s)) \<and> distinct (map er_id (document_extraction_reviews s)) \<and> distinct (map sg_id (accounting_suggestions s))
      \<and> distinct (map or_job (document_ocr_runs s))
      \<and> list_all (\<lambda>r. row_exists (\<lambda>n. sn_job n = sr_job r) (document_export_snapshots s) \<and> 0 < sr_ordinal r \<and> sr_ordinal r \<le> 20000)
          (document_export_snapshot_rows s)
      \<and> distinct (map (\<lambda>r. (sr_job r, sr_ordinal r)) (document_export_snapshot_rows s)))"

lemma insert_entriesD:
  "insert_entries rs s = Inr (u, s') \<Longrightarrow> s' = s\<lparr>document_export_snapshot_rows := document_export_snapshot_rows s @ rs\<rparr>"
proof (induction rs arbitrary: s)
  case (Cons r rs)
  then obtain s1 where s1: "insert_entry r s = Inr ((), s1)" "insert_entries rs s1 = Inr (u, s')" by (auto split: sum.splits)
  have "s1 = s\<lparr>document_export_snapshot_rows := document_export_snapshot_rows s @ [r]\<rparr>" using s1(1) by (simp add: insert_entry_def split: if_splits)
  then show ?case using Cons.IH [OF s1(2)] by simp
qed simp

lemma write_exportD:
  assumes "write_export acc x days rows s = Inr (st, s')"
  shows "dy_rows st = int (length rows)"
    and "\<not> row_exists (\<lambda>m. sn_job m = dx_id x) (document_export_snapshots s)"
    and "s' = s\<lparr>durable_jobs := durable_jobs s @ [document_export_job x (int (length rows))],
      document_export_snapshots := document_export_snapshots s @ [snapshot_of x days (int (length rows))],
      document_export_snapshot_rows := document_export_snapshot_rows s @ map (snapshot_entry x) (enumerate 1 rows),
      audit_events := audit_events s @ [export_audit x (int (length rows))]\<rparr>"
  using assms unfolding write_export_def insert_job_def insert_snapshot_def Let_def
  by (auto simp: snapshot_of_def split: if_splits sum.splits prod.splits dest!: insert_entriesD)

lemma QueueDocumentExportD:
  assumes "QueueDocumentExport acc1 acc2 sv x s = Inr (st, s')"
  shows "\<exists>days. export_days sv (dx_from x) (dx_to x) = Inr days \<and> document_product (dx_product x)
    \<and> length (export_sources sv (dx_product x) (dx_org x) (dx_status x) days s) \<le> 20000
    \<and> write_export acc2 x days (sort_key source_position (export_sources sv (dx_product x) (dx_org x) (dx_status x) days s)) s = Inr (st, s')"
  using assms unfolding QueueDocumentExport_def Let_def
  by (auto simp: cap_rows_def split: if_splits sum.splits)

text \<open>What a page shows of a row.\<close>

definition source_entry :: "store \<Rightarrow> source \<Rightarrow> export_entry" where
  "source_entry s = (\<lambda>(d, e, a). case e of
       None \<Rightarrow> DocumentEntry (export_row_of s d)
     | Some e \<Rightarrow> (case a of None \<Rightarrow> ReviewEntry (export_meta e) | Some a \<Rightarrow> ApprovalEntry (export_meta e) (read_approval a)))"

lemma export_sourcesD:
  assumes "(d, e, a) \<in> set (export_sources sv product org status days s)"
  shows "d \<in> set (documents s) \<and> d_org d = org \<and> d_status d = status \<and> (d, e, a) \<in> set (document_sources_of product s d)"
proof -
  have own: "fst r = d'" if "r \<in> set (document_sources_of product s d')" for r d'
    using that by (auto simp: document_sources_of_def split: if_splits)
  show ?thesis using assms own by (fastforce simp: export_sources_def split: option.splits)
qed

lemma unique_row:
  assumes "distinct (map k rows)" "r \<in> set rows" "P r" "\<And>q. P q \<Longrightarrow> k q = k r"
  shows "query_row P rows = Some r"
proof (rule unique_on_query_row [where key = "\<lambda>q. Some (k q)" and k = "k r" and P = P, OF _ assms(2,3)])
  show "unique_on (\<lambda>q. Some (k q)) rows" unfolding unique_on_distinct by (rule assms(1))
  show "Some (k q) = Some (k r)" if "P q" for q unfolding assms(4) [OF that] ..
qed

lemma raw_sources: "document_sources_of ''raw_documents'' s d = [(d, None, None)]"
  by (simp add: document_sources_of_def)

lemma values_sources: "document_sources_of ''confirmed_values'' s d = map (\<lambda>e. (d, Some e, None)) (reviews_of_document s d)"
  by (simp add: document_sources_of_def)

lemma suggestion_sources:
  "product \<noteq> ''raw_documents'' \<Longrightarrow> product \<noteq> ''confirmed_values'' \<Longrightarrow>
    document_sources_of product s d = concat (map (\<lambda>e. map (\<lambda>a. (d, Some e, Some a)) (approvals_of_review s d e)) (reviews_of_document s d))"
  by (simp add: document_sources_of_def)

lemma review_sourceD:
  assumes "(d, Some e, a) \<in> set (document_sources_of product s d)"
  shows "e \<in> set (reviews_of_document s d) \<and> product \<noteq> ''raw_documents'' \<and> (a = None \<longleftrightarrow> product = ''confirmed_values'')
    \<and> (\<forall>a' \<in> set_option a. a' \<in> set (approvals_of_review s d e))"
proof (cases "product = ''raw_documents'' \<or> product = ''confirmed_values''")
  case True
  then show ?thesis
  proof
    assume p: "product = ''raw_documents''"
    from assms show ?thesis unfolding p raw_sources by simp
  next
    assume p: "product = ''confirmed_values''"
    from assms show ?thesis unfolding p values_sources by auto
  qed
next
  case False
  then show ?thesis using assms by (auto simp: suggestion_sources)
qed

lemma raw_sourceD:
  assumes "(d, None, a) \<in> set (document_sources_of product s d)" shows "product = ''raw_documents'' \<and> a = None"
proof (cases "product = ''raw_documents''")
  case True
  from assms show ?thesis unfolding True raw_sources by simp
next
  case False
  then show ?thesis using assms by (cases "product = ''confirmed_values''") (auto simp: values_sources suggestion_sources)
qed

lemma snapshot_entry_simps [simp]:
  "sr_job (snapshot_entry x (i, d, e, a)) = dx_id x" "sr_org (snapshot_entry x (i, d, e, a)) = dx_org x"
  "sr_ordinal (snapshot_entry x (i, d, e, a)) = int i" "sr_document (snapshot_entry x (i, d, e, a)) = d_id d"
  "sr_document_updated_at (snapshot_entry x (i, d, e, a)) = d_updated_at d"
  "sr_review (snapshot_entry x (i, d, e, a)) = map_option er_id e" "sr_approval (snapshot_entry x (i, d, e, a)) = map_option sg_id a"
  by (simp_all add: snapshot_entry_def)

lemma snapshot_entry_of_source:
  assumes "exports_ok s" "(d, e, a) \<in> set (export_sources sv product (dx_org x) (sn_status n) days s)"
  shows "snapshot_entry_of product s n (snapshot_entry x (i, d, e, a)) = Some (int i, source_entry s (d, e, a))"
proof -
  let ?r = "snapshot_entry x (i, d, e, a)"
  have keys: "distinct (map d_id (documents s))" "distinct (map er_id (document_extraction_reviews s))" "distinct (map sg_id (accounting_suggestions s))"
    using assms(1) by (simp_all add: exports_ok_def)
  note d = export_sourcesD [OF assms(2)]
  have doc: "named_document s n ?r = Some d"
    unfolding named_document_def by (rule unique_row [OF keys(1)]) (use d in simp_all)
  show ?thesis
  proof (cases e)
    case None
    then have "product = ''raw_documents''" using d raw_sourceD by blast
    then show ?thesis using doc None by (simp add: snapshot_entry_of_def source_entry_def)
  next
    case (Some e')
    have mem: "(d, Some e', a) \<in> set (document_sources_of product s d)" using d Some by simp
    note src = review_sourceD [OF mem]
    have e': "e' \<in> set (document_extraction_reviews s)" "er_org e' = d_org d" "er_document e' = d_id d" "exportable_review s e'"
      using src by (simp_all add: reviews_of_document_def)
    have review: "named_review s ?r = Some e'"
      unfolding named_review_def by (rule unique_row [OF keys(2)]) (use d e' Some in simp_all)
    show ?thesis
    proof (cases a)
      case None
      then show ?thesis using doc review src Some by (simp add: snapshot_entry_of_def source_entry_def)
    next
      case (Some a')
      have a': "a' \<in> set (accounting_suggestions s)" "sg_org a' = d_org d" "sg_document a' = d_id d" "sg_review a' = er_id e'" "sg_superseded_at a' = None"
        using src Some by (simp_all add: approvals_of_review_def)
      have "named_approval s ?r e' = Some a'"
        unfolding named_approval_def by (rule unique_row [OF keys(3)]) (use d a' Some in simp_all)
      moreover have "read_approval a'\<lparr>av_document := er_document e', av_review := er_id e'\<rparr> = read_approval a'"
        using a' e' by (simp add: read_approval_def)
      ultimately show ?thesis using doc review src Some \<open>e = Some e'\<close> by (simp add: snapshot_entry_of_def source_entry_def)
    qed
  qed
qed

text \<open>The tables that the pages read beside those of the snapshots.\<close>

lemma snapshot_entry_of_cong:
  assumes "documents s' = documents s" "document_extraction_reviews s' = document_extraction_reviews s" "accounting_suggestions s' = accounting_suggestions s"
    "document_ocr_runs s' = document_ocr_runs s" "document_review_drafts s' = document_review_drafts s" "document_sources s' = document_sources s" "users s' = users s"
  shows "snapshot_entry_of product s' n r = snapshot_entry_of product s n r"
  unfolding snapshot_entry_of_def named_document_def named_review_def named_approval_def exportable_review_def export_row_of_def
    run_of_review_current_def newer_draft_def sources_of_def display_name_def assms ..

lemma enumerate_ordinals: "map (sr_ordinal \<circ> snapshot_entry x) (enumerate 1 rows) = map int [1..<Suc (length rows)]"
proof -
  have "map (sr_ordinal \<circ> snapshot_entry x) (enumerate 1 rows) = map (int \<circ> fst) (enumerate 1 rows)"
    by (rule map_cong) (simp_all add: snapshot_entry_def split_def)
  also have "\<dots> = map int (map fst (enumerate 1 rows))" unfolding map_map ..
  also have "\<dots> = map int [1..<Suc (length rows)]" unfolding map_fst_enumerate by simp
  finally show ?thesis .
qed

lemma map_filter_keys:
  assumes "\<And>r y. r \<in> set rs \<Longrightarrow> f r = Some y \<Longrightarrow> fst y = k r"
  shows "map fst (List.map_filter f rs) = map k (filter (\<lambda>r. f r \<noteq> None) rs)"
  using assms by (induction rs) (auto simp: map_filter_simps split: option.splits)

lemma map_filter_all:
  assumes "\<And>r. r \<in> set rs \<Longrightarrow> f r = Some (g r)" shows "List.map_filter f rs = map g rs"
  using assms by (induction rs) (simp_all add: map_filter_simps)

lemma map_filterD: "y \<in> set (List.map_filter f rs) \<Longrightarrow> \<exists>r \<in> set rs. f r = Some y"
  by (induction rs) (auto simp: map_filter_simps split: option.splits)

lemma snapshot_entry_of_ordinal: "snapshot_entry_of product s n r = Some y \<Longrightarrow> fst y = sr_ordinal r"
  by (auto simp: snapshot_entry_of_def split: option.splits if_splits)

lemma snapshot_rows_sorted:
  assumes "exports_ok s"
  shows "sorted_wrt (<) (map sr_ordinal (snapshot_rows_of jobID org s))"
    and "r \<in> set (snapshot_rows_of jobID org s) \<Longrightarrow> 0 < sr_ordinal r \<and> sr_ordinal r \<le> 20000"
proof -
  let ?mine = "filter (\<lambda>r. sr_job r = jobID \<and> sr_org r = org) (document_export_snapshot_rows s)"
  have "distinct (map (\<lambda>r. (sr_job r, sr_ordinal r)) ?mine)" using assms by (simp add: exports_ok_def distinct_map_filter)
  then have "distinct (map sr_ordinal ?mine)" by (auto simp: distinct_map inj_on_def)
  then have "distinct (map sr_ordinal (sort_key sr_ordinal ?mine))" by (simp add: distinct_map)
  then show "sorted_wrt (<) (map sr_ordinal (snapshot_rows_of jobID org s))" by (simp add: snapshot_rows_of_def strict_sorted_iff)
  show "0 < sr_ordinal r \<and> sr_ordinal r \<le> 20000" if "r \<in> set (snapshot_rows_of jobID org s)"
    using assms that by (auto simp: exports_ok_def snapshot_rows_of_def list_all_iff)
qed

lemma snapshot_entries_sorted:
  assumes "exports_ok s"
  shows "sorted_wrt (<) (map fst (snapshot_entries product jobID org s))"
    and "y \<in> set (snapshot_entries product jobID org s) \<Longrightarrow> 0 < fst y \<and> fst y \<le> 20000"
proof -
  show "sorted_wrt (<) (map fst (snapshot_entries product jobID org s))"
  proof (cases "query_row (\<lambda>n. sn_job n = jobID \<and> sn_org n = org) (document_export_snapshots s)")
    case (Some n)
    let ?rs = "snapshot_rows_of jobID org s"
    have "map fst (snapshot_entries product jobID org s) = map sr_ordinal (filter (\<lambda>r. snapshot_entry_of product s n r \<noteq> None) ?rs)"
      unfolding snapshot_entries_def Some option.case by (rule map_filter_keys) (rule snapshot_entry_of_ordinal)
    then show ?thesis using snapshot_rows_sorted(1) [OF assms, of jobID org] by (simp add: sorted_wrt_map sorted_wrt_filter)
  qed (simp add: snapshot_entries_def)
  show "0 < fst y \<and> fst y \<le> 20000" if y: "y \<in> set (snapshot_entries product jobID org s)"
  proof -
    obtain n where "y \<in> set (List.map_filter (snapshot_entry_of product s n) (snapshot_rows_of jobID org s))"
      using y unfolding snapshot_entries_def by (cases "query_row (\<lambda>n. sn_job n = jobID \<and> sn_org n = org) (document_export_snapshots s)") simp_all
    then obtain r where "r \<in> set (snapshot_rows_of jobID org s)" "snapshot_entry_of product s n r = Some y" using map_filterD by metis
    then show ?thesis using snapshot_rows_sorted(2) [OF assms] snapshot_entry_of_ordinal by metis
  qed
qed

section \<open>Reading all pages\<close>

definition document_page :: "id \<Rightarrow> id \<Rightarrow> string \<Rightarrow> nat \<Rightarrow> store \<Rightarrow> string \<Rightarrow> (export_entry list \<times> string) result" where
  "document_page jobID org product limit s cursor =
     (case readDocumentExportPage jobID org product cursor limit s of Inl e \<Rightarrow> Inl e | Inr p \<Rightarrow> Inr (xp_entries p, xp_next p))"

definition ordinal_cursor :: "(int \<times> export_entry) option \<Rightarrow> string" where
  "ordinal_cursor p = (case p of None \<Rightarrow> [] | Some y \<Rightarrow> Itoa (fst y))"

lemma Itoa_not_Nil: "Itoa i \<noteq> []" by (simp add: Itoa_def)

lemma export_cursor_ordinal:
  assumes "\<And>y. p = Some y \<Longrightarrow> 0 < fst y \<and> fst y \<le> 20000"
  shows "export_cursor (ordinal_cursor p) = Some (case p of None \<Rightarrow> 0 | Some y \<Rightarrow> fst y)"
proof (cases p)
  case None
  then show ?thesis by (simp add: export_cursor_def ordinal_cursor_def)
next
  case (Some y)
  then have b: "0 < fst y" "fst y \<le> 20000" using assms by auto
  then have "Atoi (Itoa (fst y)) = Some (fst y)" by (intro Atoi_Itoa) simp_all
  then show ?thesis using Some b by (simp add: export_cursor_def ordinal_cursor_def Itoa_not_Nil)
qed

interpretation export_pages: paged_list "0 < limit \<and> document_product product \<and> exports_ok s" "snapshot_entries product jobID org s" id snd
  ordinal_cursor "document_page jobID org product limit s" limit
  for limit product s jobID org
proof unfold_locales
  assume ok: "0 < limit \<and> document_product product \<and> exports_ok s"
  then show "0 < limit" by simp
  show "ordinal_cursor None = []" by (simp add: ordinal_cursor_def)
  show "ordinal_cursor (Some d) \<noteq> []" for d by (simp add: ordinal_cursor_def Itoa_not_Nil)
  let ?rows = "snapshot_entries product jobID org s"
  show "\<exists>items. document_page jobID org product limit s (ordinal_cursor p)
      = Inr (items, if length rest > limit then ordinal_cursor (Some (rest ! (limit - 1))) else []) \<and> map id items = map snd (take limit rest)"
    if cut: "cut_at p ?rows before rest" for p before rest
  proof -
    have rows: "?rows = before @ rest" using cut by (simp add: cut_at_def)
    have "sorted_wrt (<) (map fst (before @ rest))" using snapshot_entries_sorted(1) [of s product jobID org] ok unfolding rows by simp
    then have sorted: "sorted_wrt (\<lambda>a b. fst a < fst b) (before @ rest)" by (simp only: sorted_wrt_map)
    have inside: "0 < fst y \<and> fst y \<le> 20000" if "y \<in> set (before @ rest)" for y
      using snapshot_entries_sorted(2) [of s y product jobID org] ok rows that by simp
    have rest: "filter (\<lambda>(i, x). i > (case p of None \<Rightarrow> 0 | Some y \<Rightarrow> fst y)) ?rows = rest"
    proof (cases p)
      case None
      then have "before = []" using cut by (simp add: cut_at_def)
      then show ?thesis using None rows inside by (auto simp: filter_id_conv)
    next
      case (Some d)
      then obtain xs where xs: "before = xs @ [d]" using cut by (auto simp: cut_at_def)
      have "\<not> fst d < fst y" if "y \<in> set before" for y using sorted xs that by (auto simp: sorted_wrt_append)
      moreover have "fst d < fst y" if "y \<in> set rest" for y using sorted xs that by (auto simp: sorted_wrt_append)
      ultimately have "filter (\<lambda>y. fst d < fst y) before = []" "filter (\<lambda>y. fst d < fst y) rest = rest"
        by (simp_all add: filter_id_conv filter_empty_conv)
      then show ?thesis using Some rows by (simp add: split_def)
    qed
    have cursor: "export_cursor (ordinal_cursor p) = Some (case p of None \<Rightarrow> 0 | Some y \<Rightarrow> fst y)"
    proof (rule export_cursor_ordinal)
      fix y
      assume "p = Some y"
      then have "y \<in> set before" using cut by (auto simp: cut_at_def)
      then show "0 < fst y \<and> fst y \<le> 20000" by (intro inside) simp
    qed
    show ?thesis using ok unfolding document_page_def readDocumentExportPage_def cursor option.case rest
      by (auto simp: Let_def take_page ordinal_cursor_def take_map)
  qed
qed

section \<open>A queued export is what it counted\<close>

lemma queued_rows:
  assumes "exports_ok s" "write_export acc x days rows s = Inr (st, s')"
  shows "snapshot_rows_of (dx_id x) (dx_org x) s' = map (snapshot_entry x) (enumerate 1 rows)"
    and "query_row (\<lambda>n. sn_job n = dx_id x \<and> sn_org n = dx_org x) (document_export_snapshots s') = Some (snapshot_of x days (int (length rows)))"
    and "r \<in> set (document_export_snapshot_rows s) \<Longrightarrow> sr_job r \<noteq> dx_id x"
proof -
  note w = write_exportD [OF assms(2)]
  have none: "sn_job n \<noteq> dx_id x" if "n \<in> set (document_export_snapshots s)" for n
    using w(2) that by (auto simp: row_exists_def list_ex_iff)
  show old: "sr_job r \<noteq> dx_id x" if "r \<in> set (document_export_snapshot_rows s)" for r
    using assms(1) that none by (auto simp: exports_ok_def list_all_iff row_exists_def list_ex_iff)
  have "filter (\<lambda>r. sr_job r = dx_id x \<and> sr_org r = dx_org x) (document_export_snapshot_rows s) = []"
    using old by (simp add: filter_empty_conv)
  moreover have "filter (\<lambda>r. sr_job r = dx_id x \<and> sr_org r = dx_org x) (map (snapshot_entry x) (enumerate 1 rows)) = map (snapshot_entry x) (enumerate 1 rows)"
    by (auto simp: filter_id_conv)
  moreover have "sort_key sr_ordinal (map (snapshot_entry x) (enumerate 1 rows)) = map (snapshot_entry x) (enumerate 1 rows)"
  proof (rule sort_key_id_if_sorted)
    show "sorted (map sr_ordinal (map (snapshot_entry x) (enumerate 1 rows)))"
      unfolding map_map enumerate_ordinals sorted_map by (rule sorted_wrt_mono_rel [OF _ sorted_upt]) simp
  qed
  ultimately show "snapshot_rows_of (dx_id x) (dx_org x) s' = map (snapshot_entry x) (enumerate 1 rows)"
    unfolding snapshot_rows_of_def w(3) by simp
  have "query_row (\<lambda>n. sn_job n = dx_id x \<and> sn_org n = dx_org x) (document_export_snapshots s) = None"
    using none by (simp add: query_row_None_iff)
  then show "query_row (\<lambda>n. sn_job n = dx_id x \<and> sn_org n = dx_org x) (document_export_snapshots s') = Some (snapshot_of x days (int (length rows)))"
    unfolding w(3) by (simp add: snapshot_of_def)
qed

lemma write_export_ok:
  assumes "exports_ok s" "write_export acc x days rows s = Inr (st, s')" "length rows \<le> 20000"
  shows "exports_ok s'"
proof -
  let ?new = "map (snapshot_entry x) (enumerate 1 rows)"
  note w = write_exportD [OF assms(2)]
  have ordinals: "map (\<lambda>r. (sr_job r, sr_ordinal r)) ?new = map (Pair (dx_id x)) (map int [1..<Suc (length rows)])"
  proof -
    have "map (\<lambda>r. (sr_job r, sr_ordinal r)) ?new = map (Pair (dx_id x)) (map (sr_ordinal \<circ> snapshot_entry x) (enumerate 1 rows))"
      by (auto simp: snapshot_entry_def)
    then show ?thesis unfolding enumerate_ordinals .
  qed
  have bounds: "sr_job r = dx_id x \<and> 0 < sr_ordinal r \<and> sr_ordinal r \<le> 20000" if "r \<in> set ?new" for r
  proof -
    have "sr_ordinal r \<in> set (map (sr_ordinal \<circ> snapshot_entry x) (enumerate 1 rows))" using that by auto
    then have "sr_ordinal r \<in> set (map int [1..<Suc (length rows)])" unfolding enumerate_ordinals .
    then show ?thesis using that assms(3) by auto
  qed
  have old: "exports_ok s \<Longrightarrow> distinct (map (\<lambda>r. (sr_job r, sr_ordinal r)) (document_export_snapshot_rows s))
      \<and> list_all (\<lambda>r. row_exists (\<lambda>n. sn_job n = sr_job r) (document_export_snapshots s) \<and> 0 < sr_ordinal r \<and> sr_ordinal r \<le> 20000)
          (document_export_snapshot_rows s)" by (simp add: exports_ok_def)
  have "distinct (map (\<lambda>r. (sr_job r, sr_ordinal r)) (document_export_snapshot_rows s @ ?new))"
  proof -
    have "distinct (map (\<lambda>r. (sr_job r, sr_ordinal r)) ?new)" unfolding ordinals by (simp add: distinct_map inj_on_def)
    moreover have "set (map (\<lambda>r. (sr_job r, sr_ordinal r)) (document_export_snapshot_rows s)) \<inter> set (map (\<lambda>r. (sr_job r, sr_ordinal r)) ?new) = {}"
    proof -
      have "fst k \<noteq> dx_id x" if "k \<in> set (map (\<lambda>r. (sr_job r, sr_ordinal r)) (document_export_snapshot_rows s))" for k
        using that queued_rows(3) [OF assms(1,2)] by auto
      moreover have "fst k = dx_id x" if "k \<in> set (map (\<lambda>r. (sr_job r, sr_ordinal r)) ?new)" for k
        using that unfolding ordinals by auto
      ultimately show ?thesis by blast
    qed
    ultimately show ?thesis unfolding map_append distinct_append using old [OF assms(1)] by blast
  qed
  moreover have "list_all (\<lambda>r. row_exists (\<lambda>n. sn_job n = sr_job r) (document_export_snapshots s') \<and> 0 < sr_ordinal r \<and> sr_ordinal r \<le> 20000)
      (document_export_snapshot_rows s @ ?new)"
    unfolding list_all_append
  proof
    have snaps: "document_export_snapshots s' = document_export_snapshots s @ [snapshot_of x days (int (length rows))]" unfolding w(3) by simp
    have keeps: "row_exists P (document_export_snapshots s')" if "row_exists P (document_export_snapshots s)" for P
      using that unfolding snaps by (simp add: row_exists_def)
    show "list_all (\<lambda>r. row_exists (\<lambda>n. sn_job n = sr_job r) (document_export_snapshots s') \<and> 0 < sr_ordinal r \<and> sr_ordinal r \<le> 20000) (document_export_snapshot_rows s)"
      using old [OF assms(1)] keeps by (simp add: list_all_iff)
    have "row_exists (\<lambda>n. sn_job n = dx_id x) (document_export_snapshots s')" unfolding snaps by (simp add: row_exists_def snapshot_of_def)
    then show "list_all (\<lambda>r. row_exists (\<lambda>n. sn_job n = sr_job r) (document_export_snapshots s') \<and> 0 < sr_ordinal r \<and> sr_ordinal r \<le> 20000) ?new"
      using bounds unfolding list_all_iff by metis
  qed
  ultimately show ?thesis using assms(1) unfolding exports_ok_def w(3) by simp
qed

lemma queued_entries:
  assumes "exports_ok s" "write_export acc x days rows s = Inr (st, s')"
    and "set rows \<subseteq> set (export_sources sv (dx_product x) (dx_org x) (dx_status x) days' s)"
  shows "map snd (snapshot_entries (dx_product x) (dx_id x) (dx_org x) s') = map (source_entry s) rows"
proof -
  let ?n = "snapshot_of x days (int (length rows))"
  have each: "snapshot_entry_of (dx_product x) s' ?n (snapshot_entry x (i, r)) = Some (int i, source_entry s r)" if "r \<in> set rows" for i r
  proof -
    obtain d e a where r: "r = (d, e, a)" by (cases r)
    have "snapshot_entry_of (dx_product x) s' ?n (snapshot_entry x (i, r)) = snapshot_entry_of (dx_product x) s ?n (snapshot_entry x (i, r))"
      by (rule snapshot_entry_of_cong) (simp_all add: write_exportD(3) [OF assms(2)])
    also have "\<dots> = Some (int i, source_entry s r)"
      unfolding r by (rule snapshot_entry_of_source [OF assms(1)]) (use assms(3) that r in \<open>auto simp: snapshot_of_def\<close>)
    finally show ?thesis .
  qed
  have "snapshot_entries (dx_product x) (dx_id x) (dx_org x) s'
      = List.map_filter (\<lambda>p. snapshot_entry_of (dx_product x) s' ?n (snapshot_entry x p)) (enumerate 1 rows)"
    unfolding snapshot_entries_def queued_rows(1,2) [OF assms(1,2)] option.case by (simp add: List.map_filter_def filter_map comp_def)
  also have "\<dots> = map (\<lambda>p. (int (fst p), source_entry s (snd p))) (enumerate 1 rows)"
  proof (rule map_filter_all)
    fix p
    assume "p \<in> set (enumerate 1 rows)"
    then have "snd p \<in> set (map snd (enumerate 1 rows))" unfolding set_map by (rule imageI)
    then have "snd p \<in> set rows" by simp
    then show "snapshot_entry_of (dx_product x) s' ?n (snapshot_entry x p) = Some (int (fst p), source_entry s (snd p))"
      using each [of "snd p" "fst p"] by simp
  qed
  finally show ?thesis by (simp add: comp_def flip: map_map [of "source_entry s" snd, unfolded comp_def])
qed

lemma snapshot_entries_few:
  assumes "exports_ok s" shows "length (snapshot_entries product jobID org s) \<le> 20000"
proof -
  let ?k = "map fst (snapshot_entries product jobID org s)"
  have "set ?k \<subseteq> {1..20000}" using snapshot_entries_sorted(2) [OF assms, of _ product jobID org] by fastforce
  moreover have "distinct ?k" using snapshot_entries_sorted(1) [OF assms, of product jobID org] unfolding strict_sorted_iff by blast
  ultimately have "length ?k \<le> card {1..20000 :: int}" by (metis card_mono distinct_card finite_atLeastAtMost_int)
  then show ?thesis by simp
qed

lemma read_snapshot:
  assumes "exports_ok s" "document_product product" "0 < limit" "20000 < fuel"
  shows "read_pages fuel (document_page jobID org product limit s) [] = map snd (snapshot_entries product jobID org s)"
proof -
  have "length (snapshot_entries product jobID org s) < fuel" using snapshot_entries_few [OF assms(1), of product jobID org] assms(4) by simp
  then show ?thesis using export_pages.read_all [of limit product s jobID org fuel] assms(1-3) by simp
qed

text \<open>\<^bold>\<open>C35.\<close> A document export delivers what it counted.  When an export is queued, its reported number of rows is the
  count of the preview, and a worker that follows the cursors of its pages, whatever their size, gets exactly the chosen documents,
  reviews or approvals, in the order of their times, each once.\<close>

theorem queued_export_delivers:
  assumes "exports_ok s" "QueueDocumentExport accepts1 accepts2 sv x s = Inr (st, s')" "0 < limit" "20000 < fuel"
  shows "CountDocumentExport sv (dx_user x) (dx_org x) (dx_product x) (dx_status x) (dx_from x) (dx_to x) s = Inr (dy_rows st)
    \<and> (\<exists>days. export_days sv (dx_from x) (dx_to x) = Inr days
        \<and> read_pages fuel (document_page (dx_id x) (dx_org x) (dx_product x) limit s') []
            = map (source_entry s) (sort_key source_position (export_sources sv (dx_product x) (dx_org x) (dx_status x) days s))
        \<and> dy_rows st = int (length (export_sources sv (dx_product x) (dx_org x) (dx_status x) days s)))
    \<and> exports_ok s'"
proof -
  obtain days where days: "export_days sv (dx_from x) (dx_to x) = Inr days" "document_product (dx_product x)"
    "length (export_sources sv (dx_product x) (dx_org x) (dx_status x) days s) \<le> 20000"
    and w: "write_export accepts2 x days (sort_key source_position (export_sources sv (dx_product x) (dx_org x) (dx_status x) days s)) s = Inr (st, s')"
    using QueueDocumentExportD [OF assms(2)] by auto
  let ?rows = "sort_key source_position (export_sources sv (dx_product x) (dx_org x) (dx_status x) days s)"
  have ok: "exports_ok s'" by (rule write_export_ok [OF assms(1) w]) (use days(3) in simp)
  have "map snd (snapshot_entries (dx_product x) (dx_id x) (dx_org x) s') = map (source_entry s) ?rows"
    by (rule queued_entries [OF assms(1) w, of sv days]) simp
  moreover have "dy_rows st = int (length (export_sources sv (dx_product x) (dx_org x) (dx_status x) days s))"
    using write_exportD(1) [OF w] by simp
  moreover have "export_status (dx_product x) (dx_status x) \<and> validExportDates (dx_from x) (dx_to x) \<and> manager_here (dx_user x) (dx_org x) s"
    using assms(2) by (auto simp: QueueDocumentExport_def split: if_splits)
  ultimately show ?thesis using days ok read_snapshot [OF ok days(2) assms(3,4), of "dx_id x" "dx_org x"] by (simp add: CountDocumentExport_def)
qed

definition demo_export :: document_export_request where
  "demo_export = \<lparr>dx_id = demo_uuid (CHR ''f''), dx_org = ''o1'', dx_user = ''u1'', dx_product = ''raw_documents'', dx_status = ''Available'',
     dx_format = ''csv'', dx_from = [], dx_to = [], dx_request = ''r1'', dx_now = 100\<rparr>"

definition demo_exported :: "err + (document_export_state \<times> store)" where
  "demo_exported = QueueDocumentExport True True demo_server demo_export demo_three"

theorem queued_export_delivers_witness:
  "\<exists>st s'. demo_exported = Inr (st, s') \<and> dy_rows st = 3
    \<and> length (read_pages 20001 (document_page (dx_id demo_export) ''o1'' ''raw_documents'' 2 s') []) = 3"
proof -
  have facts: "exports_ok demo_three" "\<not> isl demo_exported" by code_simp+
  obtain st s' where run: "demo_exported = Inr (st, s')" using facts(2) by (metis isl_def sum.exhaust prod.exhaust)
  have days: "export_days demo_server (dx_from demo_export) (dx_to demo_export) = Inr (None, None)"
    "length (export_sources demo_server (dx_product demo_export) (dx_org demo_export) (dx_status demo_export) (None, None) demo_three) = 3"
    "dx_org demo_export = ''o1''" "dx_product demo_export = ''raw_documents''" by code_simp+
  show ?thesis using queued_export_delivers [OF facts(1) run [unfolded demo_exported_def], of 2 20001] days
    by (intro exI [of _ st] exI [of _ s'] conjI run) auto
qed

section \<open>A valid snapshot reads completely\<close>

lemma left_join_one:
  assumes "\<And>x. x \<in> set xs \<Longrightarrow> rows_affected (on x) ys \<le> 1"
  shows "left_join on xs ys = map (\<lambda>x. (x, query_row (on x) ys)) xs"
proof -
  have "(case filter (on x) ys of [] \<Rightarrow> [(x, None)] | ms \<Rightarrow> map (\<lambda>y. (x, Some y)) ms) = [(x, query_row (on x) ys)]" if "x \<in> set xs" for x
  proof -
    have "length (filter (on x) ys) \<le> 1" using assms [OF that] by (simp add: rows_affected_def)
    moreover have "query_row (on x) ys = (case filter (on x) ys of [] \<Rightarrow> None | y # _ \<Rightarrow> Some y)" by (induction ys) auto
    ultimately show ?thesis by (cases "filter (on x) ys") auto
  qed
  then have "left_join on xs ys = concat (map (\<lambda>x. [(x, query_row (on x) ys)]) xs)" unfolding left_join_def by (simp cong: map_cong)
  then show ?thesis by (simp add: concat_map_singleton)
qed

lemma left_join_map:
  assumes "\<And>r. r \<in> set rows \<Longrightarrow> rows_affected (on (f r)) ys \<le> 1"
  shows "left_join on (map f rows) ys = map (\<lambda>r. (f r, query_row (on (f r)) ys)) rows"
proof -
  have "left_join on (map f rows) ys = map (\<lambda>x. (x, query_row (on x) ys)) (map f rows)" by (rule left_join_one) (use assms in auto)
  then show ?thesis by (simp add: comp_def)
qed

lemma rows_le_one:
  assumes "distinct (map k rows)" "\<And>a b. P a \<Longrightarrow> P b \<Longrightarrow> k a = k b"
  shows "rows_affected P rows \<le> 1"
proof (cases "filter P rows")
  case Nil
  then show ?thesis by (simp add: rows_affected_def)
next
  case (Cons r rs)
  then have "P r" by (metis filter_eq_Cons_iff)
  show ?thesis
  proof (rule unique_on_rows_le_one [where key = "\<lambda>q. Some (k q)" and k = "k r"])
    show "unique_on (\<lambda>q. Some (k q)) rows" unfolding unique_on_distinct by (rule assms(1))
    show "Some (k q) = Some (k r)" if "P q" for q using assms(2) [OF that \<open>P r\<close>] by simp
  qed
qed

definition joined_document :: "store \<Rightarrow> snapshot_row \<Rightarrow> snapshot_entry_row \<Rightarrow> document_row option" where
  "joined_document s n r =
     query_row (\<lambda>d. d_org d = sr_org r \<and> d_id d = sr_document r \<and> d_updated_at d = sr_document_updated_at r \<and> d_status d = sn_status n) (documents s)"

definition joined_review :: "store \<Rightarrow> snapshot_entry_row \<Rightarrow> review_row option" where
  "joined_review s r =
     query_row (\<lambda>e. er_org e = sr_org r \<and> Some (er_id e) = sr_review r \<and> er_document e = sr_document r
        \<and> er_superseded_at e = None \<and> \<not> newer_draft s e) (document_extraction_reviews s)"

definition joined_run :: "store \<Rightarrow> review_row option \<Rightarrow> ocr_run_row option" where
  "joined_run s e =
     query_row (\<lambda>q. case e of None \<Rightarrow> False | Some e \<Rightarrow> or_job q = er_ocr_job e \<and> or_org q = er_org e \<and> or_document q = er_document e
        \<and> or_published_at q \<noteq> None \<and> or_superseded_at q = None \<and> or_deleted_at q = None) (document_ocr_runs s)"

definition joined_approval :: "store \<Rightarrow> snapshot_entry_row \<Rightarrow> review_row option \<Rightarrow> suggestion_row option" where
  "joined_approval s r e =
     query_row (\<lambda>a. case e of None \<Rightarrow> False | Some e \<Rightarrow> sg_org a = sr_org r \<and> Some (sg_id a) = sr_approval r \<and> sg_document a = sr_document r
        \<and> sg_review a = er_id e \<and> sg_review_revision a = er_revision e \<and> sg_superseded_at a = None) (accounting_suggestions s)"

text \<open>With the primary keys, each join finds at most one row.\<close>

lemma snapshot_join_rows:
  assumes "exports_ok s" "rows = filter (\<lambda>r. sr_job r = sn_job n \<and> sr_org r = sn_org n) (document_export_snapshot_rows s)" "rows \<noteq> []"
  shows "snapshot_join s n = map (\<lambda>r. (((((n, Some r), joined_document s n r), joined_review s r), joined_run s (joined_review s r)),
           joined_approval s r (joined_review s r))) rows"
proof -
  have keys: "distinct (map d_id (documents s))" "distinct (map er_id (document_extraction_reviews s))" "distinct (map sg_id (accounting_suggestions s))"
    "distinct (map or_job (document_ocr_runs s))" using assms(1) by (simp_all add: exports_ok_def)
  have j1: "left_join (\<lambda>n r. sr_job r = sn_job n \<and> sr_org r = sn_org n) [n] (document_export_snapshot_rows s) = map (\<lambda>r. (n, Some r)) rows"
  proof -
    obtain r rs where "filter (\<lambda>r. sr_job r = sn_job n \<and> sr_org r = sn_org n) (document_export_snapshot_rows s) = r # rs"
      using assms(3) unfolding assms(2) by (meson neq_Nil_conv)
    then show ?thesis unfolding left_join_def assms(2) by simp
  qed
  have j2: "left_join (\<lambda>(n, r) d. case r of None \<Rightarrow> False | Some r \<Rightarrow>
        d_org d = sr_org r \<and> d_id d = sr_document r \<and> d_updated_at d = sr_document_updated_at r \<and> d_status d = sn_status n)
      (map (\<lambda>r. (n, Some r)) rows) (documents s) = map (\<lambda>r. ((n, Some r), joined_document s n r)) rows"
    by (subst left_join_map, rule rows_le_one [OF keys(1)]) (simp_all add: joined_document_def)
  have j3: "left_join (\<lambda>((n, r), d) e. case r of None \<Rightarrow> False | Some r \<Rightarrow>
        er_org e = sr_org r \<and> Some (er_id e) = sr_review r \<and> er_document e = sr_document r \<and> er_superseded_at e = None \<and> \<not> newer_draft s e)
      (map (\<lambda>r. ((n, Some r), joined_document s n r)) rows) (document_extraction_reviews s)
      = map (\<lambda>r. (((n, Some r), joined_document s n r), joined_review s r)) rows"
    by (subst left_join_map, rule rows_le_one [OF keys(2)], simp, metis option.inject, simp add: joined_review_def)
  have j4: "left_join (\<lambda>(((n, r), d), e) q. case e of None \<Rightarrow> False | Some e \<Rightarrow>
        or_job q = er_ocr_job e \<and> or_org q = er_org e \<and> or_document q = er_document e
        \<and> or_published_at q \<noteq> None \<and> or_superseded_at q = None \<and> or_deleted_at q = None)
      (map (\<lambda>r. (((n, Some r), joined_document s n r), joined_review s r)) rows) (document_ocr_runs s)
      = map (\<lambda>r. ((((n, Some r), joined_document s n r), joined_review s r), joined_run s (joined_review s r))) rows"
    by (subst left_join_map, rule rows_le_one [OF keys(4)]) (simp_all add: joined_run_def split: option.splits)
  have j5: "left_join (\<lambda>((((n, r), d), e), q) a. case (r, e) of (Some r, Some e) \<Rightarrow>
        sg_org a = sr_org r \<and> Some (sg_id a) = sr_approval r \<and> sg_document a = sr_document r
        \<and> sg_review a = er_id e \<and> sg_review_revision a = er_revision e \<and> sg_superseded_at a = None | _ \<Rightarrow> False)
      (map (\<lambda>r. ((((n, Some r), joined_document s n r), joined_review s r), joined_run s (joined_review s r))) rows) (accounting_suggestions s)
      = map (\<lambda>r. (((((n, Some r), joined_document s n r), joined_review s r), joined_run s (joined_review s r)),
           joined_approval s r (joined_review s r))) rows"
    by (subst left_join_map, rule rows_le_one [OF keys(3)], simp split: option.splits, metis option.inject, simp add: joined_approval_def)
  show ?thesis unfolding snapshot_join_def Let_def j1 j2 j3 j4 j5 ..
qed

text \<open>A snapshot row that passes the check is shown by the pages.\<close>

lemma valid_row_shown:
  assumes "joined_document s n r \<noteq> None" "document_product (sn_product n)"
    and "sn_product n \<noteq> ''raw_documents'' \<Longrightarrow> joined_review s r \<noteq> None \<and> joined_run s (joined_review s r) \<noteq> None"
    and "sn_product n \<noteq> ''raw_documents'' \<Longrightarrow> sn_product n \<noteq> ''confirmed_values'' \<Longrightarrow> joined_approval s r (joined_review s r) \<noteq> None"
    and "exports_ok s"
  shows "snapshot_entry_of (sn_product n) s n r \<noteq> None"
proof -
  have keys: "distinct (map er_id (document_extraction_reviews s))" using assms(5) by (simp add: exports_ok_def)
  have doc: "named_document s n r \<noteq> None" using assms(1) by (simp add: named_document_def joined_document_def)
  show ?thesis
  proof (cases "sn_product n = ''raw_documents''")
    case True
    then show ?thesis using doc by (auto simp: snapshot_entry_of_def)
  next
    case False
    then obtain e where e: "joined_review s r = Some e" "joined_run s (Some e) \<noteq> None" using assms(3) by fastforce
    have e': "e \<in> set (document_extraction_reviews s)" "er_org e = sr_org r" "Some (er_id e) = sr_review r" "er_document e = sr_document r"
      "er_superseded_at e = None" "\<not> newer_draft s e"
      using query_row_SomeD [OF e(1) [unfolded joined_review_def]] by auto
    have "run_of_review_current s e"
      using e(2) unfolding joined_run_def run_of_review_current_def option.case query_row_None_iff by (auto simp: row_exists_iff run_of_def run_current_def)
    then have "exportable_review s e" using e' by (simp add: exportable_review_def)
    then have review: "named_review s r = Some e"
      unfolding named_review_def
    proof (intro unique_row [OF keys e'(1)])
      show "er_id q = er_id e" if "er_org q = sr_org r \<and> Some (er_id q) = sr_review r \<and> er_document q = sr_document r \<and> exportable_review s q" for q
        using that e'(3) by (metis option.inject)
    qed (use e' in simp)
    show ?thesis
    proof (cases "sn_product n = ''confirmed_values''")
      case True
      then show ?thesis using doc review False by (auto simp: snapshot_entry_of_def)
    next
      case False
      then have "joined_approval s r (Some e) \<noteq> None" using assms(4) e(1) \<open>sn_product n \<noteq> ''raw_documents''\<close> by simp
      then have "named_approval s r e \<noteq> None" unfolding joined_approval_def named_approval_def option.case query_row_None_iff by blast
      then show ?thesis using doc review False \<open>sn_product n \<noteq> ''raw_documents''\<close> by (auto simp: snapshot_entry_of_def)
    qed
  qed
qed

lemma filter_length_all: "length (filter P xs) = length xs \<Longrightarrow> x \<in> set xs \<Longrightarrow> P x"
proof (induction xs)
  case (Cons y ys)
  then show ?case using length_filter_le [of P ys] by (cases "P y") auto
qed simp

text \<open>\<^bold>\<open>C36.\<close> The check of a snapshot is exact for its readers.  When the check that guards the completion and the
  download of a document export accepts a job, the worker's pages hold as many entries as the snapshot counted: no row was dropped
  because its document, review, run or approval has changed.\<close>

theorem valid_export_complete:
  assumes "exports_ok s" "validDocumentExportSnapshot jobID org s" "0 < limit" "20000 < fuel"
    and "query_row (\<lambda>n. sn_job n = jobID \<and> sn_org n = org) (document_export_snapshots s) = Some n" "document_product (sn_product n)"
  shows "int (length (read_pages fuel (document_page jobID org (sn_product n) limit s) [])) = sn_row_count n"
proof -
  define rows where "rows = filter (\<lambda>r. sr_job r = sn_job n \<and> sr_org r = sn_org n) (document_export_snapshot_rows s)"
  have n: "sn_job n = jobID" "sn_org n = org" using query_row_SomeD [OF assms(5)] by auto
  have own: "snapshot_rows_of jobID org s = sort_key sr_ordinal rows" by (simp add: snapshot_rows_of_def rows_def n)
  have "sn_row_count n = int (length rows) \<and> (\<forall>r \<in> set rows. snapshot_entry_of (sn_product n) s n r \<noteq> None)"
  proof (cases "rows = []")
    case True
    have "left_join (\<lambda>n r. sr_job r = sn_job n \<and> sr_org r = sn_org n) [n] (document_export_snapshot_rows s) = [(n, None)]"
      using True by (simp add: rows_def left_join_def)
    then have "filter (\<lambda>(((((n, r), d), e), q), a). r \<noteq> None) (snapshot_join s n) = []"
      by (auto simp: snapshot_join_def Let_def left_join_def filter_empty_conv split: list.splits)
    then show ?thesis using assms(2) True unfolding validDocumentExportSnapshot_def assms(5) option.case by (simp add: Let_def)
  next
    case False
    let ?ok = "\<lambda>r. joined_document s n r \<noteq> None \<and> (sn_product n = ''raw_documents''
      \<or> joined_review s r \<noteq> None \<and> joined_run s (joined_review s r) \<noteq> None
        \<and> (sn_product n = ''confirmed_values'' \<or> joined_approval s r (joined_review s r) \<noteq> None))"
    have "sn_row_count n = int (length rows)" "length (filter ?ok rows) = length rows"
      using assms(2) unfolding validDocumentExportSnapshot_def assms(5) option.case Let_def snapshot_join_rows [OF assms(1) rows_def False] filter_map
      by (simp_all add: comp_def)
    then show ?thesis using valid_row_shown [OF _ assms(6) _ _ assms(1)] filter_length_all [of ?ok rows] by blast
  qed
  then have "length (snapshot_entries (sn_product n) jobID org s) = nat (sn_row_count n)" "0 \<le> sn_row_count n"
    unfolding snapshot_entries_def assms(5) option.case own List.map_filter_def by simp_all
  then show ?thesis using read_snapshot [OF assms(1,6,3,4), of jobID org] by simp
qed

theorem valid_export_complete_witness:
  "int (length (read_pages 20001 (document_page (dx_id demo_export) ''o1'' ''raw_documents'' 2 (snd (projr demo_exported))) [])) = 3"
proof -
  let ?s = "snd (projr demo_exported)"
  let ?n = "snapshot_of demo_export (None, None) 3"
  have "exports_ok ?s" "validDocumentExportSnapshot (dx_id demo_export) ''o1'' ?s" by code_simp+
  moreover have "query_row (\<lambda>n. sn_job n = dx_id demo_export \<and> sn_org n = ''o1'') (document_export_snapshots ?s) = Some ?n" by code_simp
  moreover have "document_product (sn_product ?n)" "sn_product ?n = ''raw_documents''" "sn_row_count ?n = 3" by code_simp+
  ultimately show ?thesis using valid_export_complete [of ?s "dx_id demo_export" "''o1''" 2 20001 ?n] by simp
qed

end
