(* ===== verification/WorkerRoutes.thy ===== *)
theory WorkerRoutes
  imports AccountingRoutes Exports Inbound
begin

text \<open>
  The routes of the workers, of their files and of the LINE webhook: src/api/internal/httpapi/job_routes.go, ocr_routes.go,
  review_export_routes.go and the webhook and readiness of server.go, over Jobs, OcrRuns, Exports, Tokens and Inbound.

  A worker's bearer token is good once: \<open>worker_auth\<close> is the state of its verifier.  \<open>claims\<close> decodes the claims of a token;
  the decoded JSON body of a request is an argument, \<^verbatim>\<open>None\<close> when the decoder refuses it.
\<close>

section \<open>Authorization\<close>

definition bearer :: "web \<Rightarrow> string" where "bearer q = trim_prefix (wb_authorization q) ''Bearer ''"

definition workerAuthorized ::
  "(bytes \<Rightarrow> worker_claims option) \<Rightarrow> string \<Rightarrow> site \<Rightarrow> web \<Rightarrow> worker_auth \<Rightarrow> store
    \<Rightarrow> (worker_identity \<Rightarrow> 'a answer \<times> store) \<Rightarrow> 'a answer \<times> worker_auth \<times> store" where
  "workerAuthorized claims scope w q auth s k =
     (case VerifyWorker (st_hmac w) claims auth (bearer q) scope (now w) of
        (Inl _, auth) \<Rightarrow> (Refuse 401 ''unauthorized'', auth, s)
      | (Inr who, auth) \<Rightarrow> (case k who of (a, s) \<Rightarrow> (a, auth, s)))"

definition leaseCommand :: "site \<Rightarrow> web \<Rightarrow> lease_command" where
  "leaseCommand w q = \<lparr>lm_job = path_value q ''job'', lm_attempt = wb_attempt q, lm_token = wb_lease q, lm_now = now w\<rparr>"

definition writeJobError :: "err \<Rightarrow> 'a answer" where
  "writeJobError e = (if e = Job_ErrLeaseLost then Refuse 409 ''lease_lost'' else Refuse 503 ''job_unavailable'')"

section \<open>Jobs\<close>

definition claimJobs ::
  "(bytes \<Rightarrow> worker_claims option) \<Rightarrow> (string list \<times> int) option \<Rightarrow> site \<Rightarrow> web \<Rightarrow> worker_auth \<Rightarrow> store
    \<Rightarrow> claimed list answer \<times> worker_auth \<times> store" where
  "claimJobs claims body w q auth s =
     workerAuthorized claims ''jobs:claim'' w q auth s (\<lambda>who.
       case body of
         None \<Rightarrow> (Refuse 400 ''invalid_claim'', s)
       | Some (kinds, limit) \<Rightarrow>
           if limit < 1 \<or> limit > 10 \<or> \<not> validJobKinds kinds then (Refuse 400 ''invalid_claim'', s)
           else commit s (ClaimJobs (st_hash w) (st_rnd w) (st_dbnow w)
                  \<lparr>cc_worker = wi_worker who, cc_environment = wi_environment who, cc_kinds = kinds, cc_limit = limit,
                   cc_lease = 2 * Minute, cc_now = now w\<rparr> s)
                (\<lambda>_. Refuse 503 ''claim_unavailable'') (Answer 200))"

definition heartbeatJob ::
  "(bytes \<Rightarrow> worker_claims option) \<Rightarrow> site \<Rightarrow> web \<Rightarrow> worker_auth \<Rightarrow> store \<Rightarrow> time answer \<times> worker_auth \<times> store" where
  "heartbeatJob claims w q auth s =
     workerAuthorized claims ''jobs:heartbeat'' w q auth s (\<lambda>_.
       commit s (HeartbeatJob (st_hash w) (leaseCommand w q) (2 * Minute) s) writeJobError (Answer 200))"

definition failure_of :: "site \<Rightarrow> web \<Rightarrow> string \<Rightarrow> duration \<Rightarrow> failure_command" where
  "failure_of w q code retry = lease_command.extend (leaseCommand w q) (failure_command.fields code retry)"

definition failJob ::
  "(bytes \<Rightarrow> worker_claims option) \<Rightarrow> (string \<times> int) option \<Rightarrow> site \<Rightarrow> web \<Rightarrow> worker_auth \<Rightarrow> store \<Rightarrow> unit answer \<times> worker_auth \<times> store" where
  "failJob claims body w q auth s =
     workerAuthorized claims ''jobs:fail'' w q auth s (\<lambda>_.
       case body of
         None \<Rightarrow> (Refuse 400 ''invalid_failure'', s)
       | Some (code, retry) \<Rightarrow>
           if \<not> validFailureCode code \<or> retry < 0 \<or> retry > 900 then (Refuse 400 ''invalid_failure'', s)
           else commit s (FailJob (st_hash w) (st_rnd w 0) (failure_of w q code (retry * Second)) s) writeJobError (Answer 204))"

section \<open>Pages of an export\<close>

datatype export_content = TaskPage export_page | DocumentPage export_page "string list" "string list list"

text \<open>The values of an entry; a review is read again from the private store.\<close>

definition entry_values :: "storage \<Rightarrow> site \<Rightarrow> export_entry \<Rightarrow> string list answer" where
  "entry_values g w x =
     (case x of
        DocumentEntry d \<Rightarrow> Answer 200 (ExportValues (st_rfc3339 w) d)
      | ReviewEntry meta \<Rightarrow>
          (case readReview g meta of
             Inl _ \<Rightarrow> Refuse 503 ''export_unavailable'' | Inr r \<Rightarrow> Answer 200 (structuredExportValues (st_rfc3339 w) r))
      | ApprovalEntry meta a \<Rightarrow>
          (case readReview g meta of
             Inl _ \<Rightarrow> Refuse 503 ''export_unavailable''
           | Inr r \<Rightarrow> (case ExportRow (st_rfc3339 w) a r of Inl _ \<Rightarrow> Refuse 409 ''source_changed'' | Inr row \<Rightarrow> Answer 200 row)))"

fun page_values :: "storage \<Rightarrow> site \<Rightarrow> export_entry list \<Rightarrow> string list list answer" where
  "page_values g w [] = Answer 200 []"
| "page_values g w (x # xs) =
     (case entry_values g w x of
        Refuse n c \<Rightarrow> Refuse n c
      | Answer n row \<Rightarrow> (case page_values g w xs of Refuse n c \<Rightarrow> Refuse n c | Answer n rows \<Rightarrow> Answer n (row # rows)))"

definition product_header :: "string \<Rightarrow> string list option" where
  "product_header product =
     (if product = ''raw_documents'' then Some document_header
      else if product = ''confirmed_values'' then Some structuredHeader
      else if product = ''approved_suggestions'' then Some ExportHeader else None)"

definition export_view :: "storage \<Rightarrow> site \<Rightarrow> export_page \<Rightarrow> export_content answer" where
  "export_view g w page =
     (if xp_product page = [] then Answer 200 (TaskPage page)
      else if \<not> st_review w then Refuse 503 ''review_unavailable''
      else case product_header (xp_product page) of
        None \<Rightarrow> Refuse 503 ''export_unavailable''
      | Some header \<Rightarrow>
          (case page_values g w (xp_entries page) of Refuse n c \<Rightarrow> Refuse n c | Answer n values \<Rightarrow> Answer 200 (DocumentPage page header values)))"

definition exportRows ::
  "(bytes \<Rightarrow> worker_claims option) \<Rightarrow> storage \<Rightarrow> site \<Rightarrow> web \<Rightarrow> worker_auth \<Rightarrow> store \<Rightarrow> export_content answer \<times> worker_auth \<times> store" where
  "exportRows claims g w q auth s =
     workerAuthorized claims ''jobs:read'' w q auth s (\<lambda>_.
       read_only s (ReadExportPage (st_hash w) (st_parse w) (st_server w) (st_dbnow w) (leaseCommand w q) (query_value q ''cursor'') 500 s)
         writeJobError (export_view g w))"

section \<open>Files of an export\<close>

definition artifact_max :: "string \<Rightarrow> nat" where
  "artifact_max fmt = (if fmt = ''xlsx'' then 134217728 else 268435456)"

definition artifact_key :: "lease_command \<Rightarrow> string \<Rightarrow> string" where
  "artifact_key c fmt = ''exports/'' @ lm_job c @ ''/'' @ lm_attempt c @ ''/'' @ lm_job c @ ''.'' @ fmt"

definition upload_rows :: "web \<Rightarrow> int option" where
  "upload_rows q = (case Atoi (query_value q ''rows'') of None \<Rightarrow> None | Some n \<Rightarrow> if n < 0 then None else Some n)"

definition complete_of :: "site \<Rightarrow> web \<Rightarrow> string \<Rightarrow> int \<Rightarrow> bytes \<Rightarrow> complete_command" where
  "complete_of w q fmt rows body =
     (let c = leaseCommand w q in
      lease_command.extend c (complete_command.fields fmt rows (int (length body)) (hex_encode (st_hash w body)) (artifact_key c fmt) (now w + 24 * Hour)))"

text \<open>The file is stored under a key of the job and its attempt, and deleted again when the job does not take it.\<close>

definition store_artifact :: "storage \<Rightarrow> site \<Rightarrow> web \<Rightarrow> bytes \<Rightarrow> string \<Rightarrow> int \<Rightarrow> store \<Rightarrow> time answer \<times> storage \<times> store" where
  "store_artifact g w q body fmt rows s =
     (let key = artifact_key (leaseCommand w q) fmt in
      if \<not> sg_put g key then (Refuse 422 ''invalid_artifact'', delete_object g key, s)
      else
        let g = put_object g key body in
        if length body > artifact_max fmt then (Refuse 422 ''invalid_artifact'', delete_object g key, s)
        else case CompleteExport (st_hash w) (st_parse w) (complete_of w q fmt rows body) s of
          Inl e \<Rightarrow> (writeJobError e, delete_object g key, s)
        | Inr (a, s) \<Rightarrow> (Answer 200 (ea_expires_at a), g, s))"

definition uploadArtifact ::
  "(bytes \<Rightarrow> worker_claims option) \<Rightarrow> storage option \<Rightarrow> bytes \<Rightarrow> site \<Rightarrow> web \<Rightarrow> worker_auth \<Rightarrow> store
    \<Rightarrow> time answer \<times> storage option \<times> worker_auth \<times> store" where
  "uploadArtifact claims objects body w q auth s =
     (case VerifyWorker (st_hmac w) claims auth (bearer q) ''jobs:artifact'' (now w) of
        (Inl _, auth) \<Rightarrow> (Refuse 401 ''unauthorized'', objects, auth, s)
      | (Inr _, auth) \<Rightarrow>
          (case objects of
             None \<Rightarrow> (Refuse 503 ''artifact_unavailable'', objects, auth, s)
           | Some g \<Rightarrow>
               let fmt = query_value q ''format'' in
               if fmt \<noteq> ''csv'' \<and> fmt \<noteq> ''xlsx'' then (Refuse 400 ''invalid_artifact'', objects, auth, s)
               else case upload_rows q of
                 None \<Rightarrow> (Refuse 400 ''invalid_artifact'', objects, auth, s)
               | Some rows \<Rightarrow> (case store_artifact g w q body fmt rows s of (a, g, s) \<Rightarrow> (a, Some g, auth, s))))"

text \<open>\<^verbatim>\<open>http.NotFound\<close> writes no code.\<close>

definition retrieveArtifact :: "(bytes \<Rightarrow> artifact_claims option) \<Rightarrow> storage option \<Rightarrow> site \<Rightarrow> web \<Rightarrow> store \<Rightarrow> bytes answer \<times> store" where
  "retrieveArtifact claims objects w q s =
     (case (st_secret w, objects) of
        (Some secret, Some g) \<Rightarrow>
          (case VerifyArtifact (st_hmac w) claims (Some secret) (query_value q ''token'') (now w) of
             Inl _ \<Rightarrow> (Refuse 404 [], s)
           | Inr (job, org, user) \<Rightarrow>
               if job \<noteq> path_value q ''job'' then (Refuse 404 [], s)
               else case AuthorizeExportArtifact (st_dbnow w) s user org job of
                 Inl _ \<Rightarrow> (Refuse 404 [], s)
               | Inr a \<Rightarrow>
                   if document_product (ea_product a) \<and> \<not> gate_allows w s org (format_capability (ea_format a)) then (Refuse 404 [], s)
                   else trying s (RecordArtifactDownload user org job (now w) s) (\<lambda>_. Refuse 503 ''artifact_unavailable'') (\<lambda>_ s.
                     (case sg_objects g (ea_object_key a) of
                        None \<Rightarrow> Refuse 503 ''artifact_unavailable'' | Some data \<Rightarrow> Answer 200 data, s)))
      | _ \<Rightarrow> (Refuse 404 [], s))"

section \<open>OCR workers\<close>

definition authorizeOCR ::
  "(bytes \<Rightarrow> worker_claims option) \<Rightarrow> string \<Rightarrow> site \<Rightarrow> web \<Rightarrow> worker_auth \<Rightarrow> store
    \<Rightarrow> (worker_identity \<Rightarrow> 'a answer \<times> store) \<Rightarrow> 'a answer \<times> worker_auth \<times> store" where
  "authorizeOCR claims scope w q auth s k = workerAuthorized claims (''ocr:'' @ scope) w q auth s k"

definition claimOCR ::
  "(bytes \<Rightarrow> worker_claims option) \<Rightarrow> unit option \<Rightarrow> site \<Rightarrow> web \<Rightarrow> worker_auth \<Rightarrow> store \<Rightarrow> claimed list answer \<times> worker_auth \<times> store" where
  "claimOCR claims body w q auth s =
     authorizeOCR claims ''claim'' w q auth s (\<lambda>who.
       if body = None then (Refuse 400 ''invalid_claim'', s)
       else commit s (ClaimJobs (st_hash w) (st_rnd w) (st_dbnow w)
              \<lparr>cc_worker = wi_worker who, cc_environment = wi_environment who, cc_kinds = [OCR], cc_limit = 1, cc_lease = 2 * Minute,
               cc_now = now w\<rparr> s)
            writeJobError (Answer 200))"

definition ocrInputFor ::
  "(bytes \<Rightarrow> worker_claims option) \<Rightarrow> string \<Rightarrow> site \<Rightarrow> web \<Rightarrow> worker_auth \<Rightarrow> store
    \<Rightarrow> (ocr_input \<Rightarrow> worker_identity \<Rightarrow> 'a answer \<times> store) \<Rightarrow> 'a answer \<times> worker_auth \<times> store" where
  "ocrInputFor claims scope w q auth s k =
     authorizeOCR claims scope w q auth s (\<lambda>who.
       case OCRInput (st_hash w) (leaseCommand w q) (wi_worker who) s of Inl e \<Rightarrow> (writeJobError e, s) | Inr input \<Rightarrow> k input who)"

definition heartbeatOCR ::
  "(bytes \<Rightarrow> worker_claims option) \<Rightarrow> site \<Rightarrow> web \<Rightarrow> worker_auth \<Rightarrow> store \<Rightarrow> time answer \<times> worker_auth \<times> store" where
  "heartbeatOCR claims w q auth s =
     ocrInputFor claims ''heartbeat'' w q auth s (\<lambda>_ _.
       commit s (HeartbeatJob (st_hash w) (leaseCommand w q) (2 * Minute) s) writeJobError (Answer 200))"

definition failOCR ::
  "(bytes \<Rightarrow> worker_claims option) \<Rightarrow> string option \<Rightarrow> site \<Rightarrow> web \<Rightarrow> worker_auth \<Rightarrow> store \<Rightarrow> unit answer \<times> worker_auth \<times> store" where
  "failOCR claims body w q auth s =
     ocrInputFor claims ''fail'' w q auth s (\<lambda>_ _.
       case body of
         None \<Rightarrow> (Refuse 400 ''invalid_failure'', s)
       | Some code \<Rightarrow>
           if \<not> validFailureCode code then (Refuse 400 ''invalid_failure'', s)
           else commit s (FailJob (st_hash w) (st_rnd w 0) (failure_of w q code 0) s) writeJobError (Answer 204))"

text \<open>The link to the original, under a token of its own (\<open>secret\<close>), five minutes long.\<close>

definition ocr_token :: "bytes \<Rightarrow> site \<Rightarrow> id \<Rightarrow> id \<Rightarrow> id \<Rightarrow> string result" where
  "ocr_token secret w subject org user = SignTTL (st_hmac w) (st_marshal w) secret subject org user (now w) (5 * Minute)"

definition inputOCR ::
  "(bytes \<Rightarrow> worker_claims option) \<Rightarrow> bytes \<Rightarrow> site \<Rightarrow> web \<Rightarrow> worker_auth \<Rightarrow> store
    \<Rightarrow> (ocr_input \<times> string) answer \<times> worker_auth \<times> store" where
  "inputOCR claims secret w q auth s =
     ocrInputFor claims ''input'' w q auth s (\<lambda>input who.
       read_only s (ocr_token secret w (path_value q ''job'') (oi_org input) (wi_worker who)) writeJobError
         (\<lambda>token. Answer 200 (input, ''/internal/v1/ocr/jobs/'' @ path_value q ''job'' @ ''/original?token='' @ token)))"

definition originalOCR ::
  "(bytes \<Rightarrow> worker_claims option) \<Rightarrow> (bytes \<Rightarrow> artifact_claims option) \<Rightarrow> bytes \<Rightarrow> storage \<Rightarrow> site \<Rightarrow> web \<Rightarrow> worker_auth \<Rightarrow> store
    \<Rightarrow> (string \<times> bytes) answer \<times> worker_auth \<times> store" where
  "originalOCR claims tokens secret g w q auth s =
     ocrInputFor claims ''input'' w q auth s (\<lambda>input who.
       (case VerifyArtifact (st_hmac w) tokens (Some secret) (query_value q ''token'') (now w) of
          Inl _ \<Rightarrow> Refuse 401 ''unauthorized''
        | Inr (job, org, worker) \<Rightarrow>
            if job \<noteq> path_value q ''job'' \<or> org \<noteq> oi_org input \<or> worker \<noteq> wi_worker who then Refuse 401 ''unauthorized''
            else case sg_objects g (oi_storage_key input) of
              None \<Rightarrow> Refuse 503 ''job_unavailable''
            | Some data \<Rightarrow> Answer 200 (oi_mime input, take (nat (oi_size input)) data), s))"

definition result_key :: "ocr_input \<Rightarrow> bytes \<Rightarrow> string" where
  "result_key input suffix = ''ocr/'' @ oi_org input @ ''/'' @ oi_document input @ ''/'' @ hex_encode suffix @ ''.json''"

text \<open>The body of a result: at most 8 MiB, one JSON value (\<open>strict\<close>) that fits the job.\<close>

definition result_of :: "(bytes \<Rightarrow> ocr_result option) \<Rightarrow> ocr_input \<Rightarrow> bytes \<Rightarrow> ocr_result option" where
  "result_of strict input body =
     (if int (length body) > MaxResultBytes then None
      else case strict body of None \<Rightarrow> None | Some r \<Rightarrow> if ValidateResult r input \<noteq> None then None else Some r)"

text \<open>The object is written before the run is published and stays only if it is the one published.\<close>

definition publish_result :: "storage \<Rightarrow> site \<Rightarrow> web \<Rightarrow> worker_identity \<Rightarrow> string \<Rightarrow> bytes \<Rightarrow> ocr_result \<Rightarrow> store \<Rightarrow> unit answer \<times> storage \<times> store" where
  "publish_result g w q who key body r s =
     (if \<not> sg_put g key then (Refuse 503 ''job_unavailable'', delete_object g key, s)
      else
        let g = put_object g key body in
        case CompleteOCR (st_hash w) (leaseCommand w q) (wi_worker who) r key (hex_encode (st_hash w body)) (int (length body)) s of
          Inl e \<Rightarrow> (writeJobError e, delete_object g key, s)
        | Inr (saved, s) \<Rightarrow> (Answer 200 (), if saved = key then g else delete_object g key, s))"

definition submitOCR ::
  "(bytes \<Rightarrow> worker_claims option) \<Rightarrow> (bytes \<Rightarrow> ocr_result option) \<Rightarrow> bytes \<Rightarrow> storage \<Rightarrow> site \<Rightarrow> web \<Rightarrow> worker_auth \<Rightarrow> store
    \<Rightarrow> unit answer \<times> storage \<times> worker_auth \<times> store" where
  "submitOCR claims strict body g w q auth s =
     (case VerifyWorker (st_hmac w) claims auth (bearer q) ''ocr:submit'' (now w) of
        (Inl _, auth) \<Rightarrow> (Refuse 401 ''unauthorized'', g, auth, s)
      | (Inr who, auth) \<Rightarrow>
          (case OCRInput (st_hash w) (leaseCommand w q) (wi_worker who) s of
             Inl e \<Rightarrow> (writeJobError e, g, auth, s)
           | Inr input \<Rightarrow>
               (case result_of strict input body of
                  None \<Rightarrow> (Refuse 422 ''invalid_result'', g, auth, s)
                | Some r \<Rightarrow>
                    (case st_rnd w 0 of
                       None \<Rightarrow> (Refuse 503 ''job_unavailable'', g, auth, s)
                     | Some suffix \<Rightarrow> (case publish_result g w q who (result_key input suffix) body r s of (a, g, s) \<Rightarrow> (a, g, auth, s))))))"

section \<open>The state of a document's run\<close>

definition stateOCR :: "bytes \<Rightarrow> site \<Rightarrow> web \<Rightarrow> store \<Rightarrow> (ocr_state \<times> string) answer \<times> store" where
  "stateOCR secret w q s =
     workContext w q False s (\<lambda>session m s.
       let doc = path_value q ''document'' in
       trying s (OCRState (st_dbnow w) (se_user session) (ms_org m) doc s) (\<lambda>_. Refuse 404 ''not_found'') (\<lambda>st s.
         if \<not> completed_ocr st then (Answer 200 (st, []), s)
         else read_only s (ocr_token secret w doc (ms_org m) (se_user session)) writeJobError
                (\<lambda>token. Answer 200 (st, ''/v1/ocr-results/'' @ doc @ ''?token='' @ token))))"

definition retryOCR :: "site \<Rightarrow> web \<Rightarrow> store \<Rightarrow> ocr_state answer \<times> store" where
  "retryOCR w q s =
     workContext w q True s (\<lambda>session m s.
       managers m s
         (commit s (RetryOCR (st_uuids w 0) (se_user session) (ms_org m) (path_value q ''document'') (now w) s)
            (\<lambda>_. Refuse 409 ''ocr_unavailable'') (Answer 200)))"

definition retrieveOCR :: "(bytes \<Rightarrow> artifact_claims option) \<Rightarrow> bytes \<Rightarrow> storage \<Rightarrow> site \<Rightarrow> web \<Rightarrow> store \<Rightarrow> bytes answer \<times> store" where
  "retrieveOCR tokens secret g w q s =
     (case VerifyArtifact (st_hmac w) tokens (Some secret) (query_value q ''token'') (now w) of
        Inl _ \<Rightarrow> (Refuse 404 [], s)
      | Inr (doc, org, user) \<Rightarrow>
          if doc \<noteq> path_value q ''document'' then (Refuse 404 [], s)
          else trying s (OCRState (st_dbnow w) user org doc s) (\<lambda>_. Refuse 404 []) (\<lambda>st s.
            (if \<not> completed_ocr st then Refuse 404 []
             else case sg_objects g (ot_object_key st) of
               None \<Rightarrow> Refuse 503 ''job_unavailable'' | Some data \<Rightarrow> Answer 200 (take (nat MaxResultBytes) data), s)))"

section \<open>Document exports\<close>

text \<open>\<open>enabled\<close> tells whether the server has the store of these exports.\<close>

definition reviewExportCount :: "bool \<Rightarrow> site \<Rightarrow> web \<Rightarrow> store \<Rightarrow> (int \<times> nat \<times> nat) answer \<times> store" where
  "reviewExportCount enabled w q s =
     workContext w q False s (\<lambda>session m s.
       managers m s
         (let product = query_value q ''product''; asked = query_value q ''status'';
              status = (if asked = [] then ''Available'' else asked) in
          if \<not> enabled then (Refuse 503 ''export_unavailable'', s)
          else read_only s (CountDocumentExport (st_server w) (se_user session) (ms_org m) product status (query_value q ''date_from'')
                   (query_value q ''date_to'') s)
                 (\<lambda>_. Refuse 400 ''invalid_export'')
                 (\<lambda>n. Answer 200 (n, if product = ''raw_documents'' then (5000, 20000) else (100, 5000)))))"

definition requestReviewExport :: "bool \<Rightarrow> site \<Rightarrow> web \<Rightarrow> store \<Rightarrow> document_export_state answer \<times> store" where
  "requestReviewExport enabled w q s =
     workContext w q True s (\<lambda>session m s.
       managers m s
         (let v = post_value q maxReviewBytes; product = v ''product''; fmt = v ''format'';
              status = (if v ''status'' = [] then ''Available'' else v ''status'') in
          if \<not> enabled then (Refuse 503 ''export_unavailable'', s)
          else if form_error q maxReviewBytes then (Refuse 400 ''invalid_export'', s)
          else if fmt \<notin> {''csv'', ''xlsx''} \<or> \<not> document_product product \<or> \<not> export_status product status
          then (Refuse 400 ''invalid_export'', s)
          else if \<not> gate_allows w s (ms_org m) (format_capability fmt) then (Refuse 403 ''feature_unavailable'', s)
          else commit s (QueueDocumentExport (st_accepts w) (st_accepts w) (st_server w)
                   \<lparr>dx_id = newUUID w 0, dx_org = ms_org m, dx_user = se_user session, dx_product = product, dx_status = status, dx_format = fmt,
                    dx_from = v ''date_from'', dx_to = v ''date_to'', dx_request = wb_request_id q, dx_now = now w\<rparr> s)
                 (\<lambda>_. Refuse 422 ''export_unavailable'') (Answer 202)))"

definition reviewExportStatus :: "bool \<Rightarrow> site \<Rightarrow> web \<Rightarrow> store \<Rightarrow> document_export_state answer \<times> store" where
  "reviewExportStatus enabled w q s =
     (if \<not> enabled then (Refuse 503 ''export_unavailable'', s)
      else workContext w q False s (\<lambda>session m s.
        managers m s
          (read_only s (GetDocumentExport (st_dbnow w) (se_user session) (ms_org m) (path_value q ''export'') s)
             (\<lambda>e. if e = Tenant_ErrNotFound then Refuse 404 ''not_found'' else Refuse 503 ''export_unavailable'') (Answer 200))))"

definition reviewExportDownload :: "site \<Rightarrow> web \<Rightarrow> store \<Rightarrow> (string \<times> time) answer \<times> store" where
  "reviewExportDownload w q s =
     workContext w q False s (\<lambda>session m s.
       managers m s
         (if st_secret w = None then (Refuse 503 ''export_unavailable'', s)
          else case AuthorizeExportArtifact (st_dbnow w) s (se_user session) (ms_org m) (path_value q ''export'') of
            Inl _ \<Rightarrow> (Refuse 409 ''export_changed'', s)
          | Inr a \<Rightarrow>
              if \<not> document_product (ea_product a) then (Refuse 409 ''export_changed'', s)
              else if \<not> gate_allows w s (ms_org m) (format_capability (ea_format a)) then (Refuse 403 ''feature_unavailable'', s)
              else (case SignArtifact (st_hmac w) (st_marshal w) (the (st_secret w)) (ea_job a) (ea_org a) (se_user session) (now w) of
                      Inl _ \<Rightarrow> (Refuse 503 ''export_unavailable'', s)
                    | Inr token \<Rightarrow> (Answer 200 (''/v1/export-artifacts/'' @ ea_job a @ ''?token='' @ token, now w + 15 * Minute), s))))"

section \<open>The webhook and readiness\<close>

definition max_body :: nat where "max_body = 1048576"

text \<open>\<open>busy\<close> is the number of webhook requests in progress; \<open>parse\<close> the JSON codec of a delivery, \<open>encode\<close> the payload kept of an
  event.\<close>

definition webhook ::
  "nat \<Rightarrow> (bytes \<Rightarrow> line_event list option) \<Rightarrow> (line_event \<Rightarrow> bytes option) \<Rightarrow> nat list \<Rightarrow> string \<Rightarrow> string \<Rightarrow> bytes \<Rightarrow> site \<Rightarrow> store
    \<Rightarrow> unit answer \<times> store" where
  "webhook busy parse encode ids secret signature body w s =
     (if busy \<ge> 32 then (Refuse 429 ''busy'', s)
      else if length body > max_body then (Refuse 413 ''invalid_body'', s)
      else case ParseSignedDelivery (st_hmac w) (st_hash w) parse encode body signature secret (st_channel w) of
        Inl e \<Rightarrow> ((if e = Line_ErrInvalidSignature then Refuse 401 ''invalid_signature'' else Refuse 400 ''malformed_delivery''), s)
      | Inr events \<Rightarrow>
          if events = [] then (Answer 200 (), s)
          else commit s (InsertEvents (st_dbnow w) ids events s) (\<lambda>_. Refuse 503 ''store_unavailable'') (Answer 200))"

text \<open>What the server was started with and the answers of the database on its schema.\<close>

record readiness =
  rd_extraction_enabled :: bool
  rd_accounting_enabled :: bool
  rd_accounting_store :: bool
  rd_extraction_store :: bool
  rd_store_ready :: bool
  rd_accounting_ready :: bool
  rd_review_ready :: bool

definition ready :: "site \<Rightarrow> readiness \<Rightarrow> unit answer" where
  "ready w r =
     (if st_review w \<and> (\<not> rd_extraction_enabled r \<or> \<not> rd_accounting_enabled r) then Refuse 503 ''not_ready''
      else if \<not> rd_store_ready r then Refuse 503 ''not_ready''
      else if rd_accounting_enabled r \<and> rd_accounting_store r \<and> \<not> rd_accounting_ready r then Refuse 503 ''not_ready''
      else if st_review w \<and> rd_extraction_store r \<and> \<not> rd_review_ready r then Refuse 503 ''not_ready''
      else Answer 200 ())"

end
