(* ===== verification/Objects.thy ===== *)
theory Objects
  imports Drive
begin

text \<open>
  The private store of originals, results and reviews: src/api/internal/document/encrypted_store.go.  An object is a header
  (a magic number and eight random bytes) and chunks of at most 64 KiB, each a length and the sealed bytes; an empty chunk closes
  it.  The nonce of a chunk is the random prefix with the chunk's number, a 32 bit word that wraps.  \<open>aead\<close> is AES-GCM as
  in Drive; the store beneath is a map from keys to bytes with verdicts on its calls.
\<close>

section \<open>Chunks\<close>

definition encryptedMagic :: bytes where "encryptedMagic = ''PFD1''"

definition encryptedChunk :: nat where "encryptedChunk = 65536"

definition overhead :: nat where "overhead = 16"

text \<open>\<^verbatim>\<open>binary.BigEndian\<close> on 32 bits.\<close>

definition put_uint32 :: "32 word \<Rightarrow> bytes" where
  "put_uint32 v = map (\<lambda>k. byte_char (unat v div 256 ^ k mod 256)) [3, 2, 1, 0]"

definition get_uint32 :: "bytes \<Rightarrow> 32 word" where
  "get_uint32 bs = word_of_nat (foldl (\<lambda>acc c. acc * 256 + byte c) 0 bs)"

definition chunk_nonce :: "bytes \<Rightarrow> 32 word \<Rightarrow> bytes" where
  "chunk_nonce prefix counter = prefix @ put_uint32 counter"

definition writeEncryptedChunk :: "aead \<Rightarrow> bytes \<Rightarrow> 32 word \<Rightarrow> bytes \<Rightarrow> bytes" where
  "writeEncryptedChunk a prefix counter plain =
     put_uint32 (word_of_nat (length plain)) @ Seal a (chunk_nonce prefix counter) plain []"

function chunks :: "bytes \<Rightarrow> bytes list" where
  "chunks body = (if body = [] then [] else take encryptedChunk body # chunks (drop encryptedChunk body))"
  by pat_completeness auto
termination by (relation "measure length") (auto simp: encryptedChunk_def)

declare chunks.simps [simp del]

fun write_chunks :: "aead \<Rightarrow> bytes \<Rightarrow> 32 word \<Rightarrow> bytes list \<Rightarrow> bytes" where
  "write_chunks a prefix counter [] = []"
| "write_chunks a prefix counter (p # ps) = writeEncryptedChunk a prefix counter p @ write_chunks a prefix (counter + 1) ps"

definition encrypted :: "aead \<Rightarrow> bytes \<Rightarrow> bytes \<Rightarrow> bytes" where
  "encrypted a prefix body = encryptedMagic @ prefix @ write_chunks a prefix 0 (chunks body @ [[]])"

section \<open>Reading\<close>

text \<open>What \<^verbatim>\<open>io.ReadAll\<close> gets of the chunks: the bytes delivered and the error, if any.  Both \<^verbatim>\<open>binary.Read\<close> and
  \<^verbatim>\<open>io.ReadFull\<close> answer \<^verbatim>\<open>io.EOF\<close> when there is not a single byte, and the reader hands that on, so that the
  caller takes it for the end of the object.\<close>

function read_chunks :: "aead \<Rightarrow> bytes \<Rightarrow> 32 word \<Rightarrow> bytes \<Rightarrow> bytes \<times> err option" where
  "read_chunks a prefix counter raw =
     (if raw = [] then ([], None)
      else if length raw < 4 then ([], Some (OtherError ''unexpected EOF''))
      else
        let n = unat (get_uint32 (take 4 raw)); rest = drop 4 raw in
        if n > encryptedChunk then ([], Some (OtherError ''encrypted document chunk is invalid''))
        else if rest = [] then ([], None)
        else if length rest < n + overhead then ([], Some (OtherError ''unexpected EOF''))
        else case Open a (chunk_nonce prefix counter) (take (n + overhead) rest) [] of
          None \<Rightarrow> ([], Some (OtherError ''cipher: message authentication failed''))
        | Some plain \<Rightarrow>
            if n = 0 then (if drop overhead rest = [] then ([], None) else ([], Some (OtherError ''encrypted document has trailing data'')))
            else case read_chunks a prefix (counter + 1) (drop (n + overhead) rest) of (more_bytes, e) \<Rightarrow> (plain @ more_bytes, e))"
  by pat_completeness auto
termination by (relation "measure (\<lambda>(_, _, _, raw). length raw)") auto

declare read_chunks.simps [simp del]

definition read_object :: "aead \<Rightarrow> bytes \<Rightarrow> (bytes \<times> err option) result" where
  "read_object a raw =
     (if length raw < 12 \<or> take 4 raw \<noteq> encryptedMagic then Inl (OtherError ''encrypted document header is invalid'')
      else Inr (read_chunks a (take 8 (drop 4 raw)) 0 (drop 12 raw)))"

section \<open>The store\<close>

record blobs =
  bl_objects :: "string \<Rightarrow> bytes option"
  bl_accepts :: "string \<Rightarrow> bool"

definition NewEncryptedStore :: "bool \<Rightarrow> bytes \<Rightarrow> unit result" where
  "NewEncryptedStore configured key =
     (if \<not> configured \<or> length key \<noteq> 32 then Inl (OtherError ''invalid document storage configuration'') else Inr ())"

definition PutObject :: "aead \<Rightarrow> bytes option \<Rightarrow> string \<Rightarrow> bytes result \<Rightarrow> (unit, blobs) txn" where
  "PutObject a random key body b =
     (if key = [] then Inl (OtherError ''invalid object'')
      else case random of
        None \<Rightarrow> Inl (OtherError ''random source failed'')
      | Some prefix \<Rightarrow>
          (case body of
             Inl e \<Rightarrow> Inl e
           | Inr data \<Rightarrow>
               if \<not> bl_accepts b key then Inl (OtherError ''object store refused'')
               else Inr ((), b\<lparr>bl_objects := (bl_objects b)(key \<mapsto> encrypted a prefix data)\<rparr>)))"

definition OpenObject :: "aead \<Rightarrow> string \<Rightarrow> blobs \<Rightarrow> (bytes \<times> err option) result" where
  "OpenObject a key b =
     (case bl_objects b key of None \<Rightarrow> Inl (OtherError ''object is missing'') | Some raw \<Rightarrow> read_object a raw)"

definition DeleteObject :: "string \<Rightarrow> (unit, blobs) txn" where
  "DeleteObject key b =
     (if \<not> bl_accepts b key then Inl (OtherError ''object store refused'')
      else Inr ((), b\<lparr>bl_objects := (bl_objects b)(key := None)\<rparr>))"

section \<open>Lengths and chunks\<close>

lemma put_uint32_length [simp]: "length (put_uint32 v) = 4"
  by (simp add: put_uint32_def)

lemma byte_of_digit: "byte (byte_char (n mod 256)) = n mod 256"
  by (simp add: byte_def byte_char_def)

lemma base_256:
  assumes "n < 4294967296"
  shows "((n div 16777216 mod 256 * 256 + n div 65536 mod 256) * 256 + n div 256 mod 256) * 256 + n mod 256 = (n :: nat)"
proof -
  have d: "n div 65536 = n div 256 div 256" "n div 16777216 = n div 256 div 256 div 256"
    by (simp_all add: div_mult2_eq [symmetric])
  have "n div 16777216 < 256" using assms by (simp add: less_mult_imp_div_less)
  then have "n div 16777216 mod 256 = n div 256 div 256 div 256" by (simp add: d)
  then show ?thesis unfolding d by (simp only: div_mult_mod_eq)
qed

lemma put_uint32_digits: "foldl (\<lambda>acc c. acc * 256 + byte c) 0 (put_uint32 v) = unat v"
proof -
  have "foldl (\<lambda>acc c. acc * 256 + byte c) 0 (map (\<lambda>k. byte_char (n div 256 ^ k mod 256)) [3, 2, 1, 0]) = n"
    if "n < 4294967296" for n :: nat
  proof -
    have "n div 16777216 < 256" using that by (simp add: less_mult_imp_div_less)
    with base_256 [OF that] show ?thesis by (simp add: byte_of_digit)
  qed
  moreover have "unat v < 4294967296" using unsigned_less [of v, where 'a = nat] by simp
  ultimately show ?thesis unfolding put_uint32_def .
qed

lemma get_put_uint32 [simp]: "get_uint32 (put_uint32 v) = v"
  by (simp add: get_uint32_def put_uint32_digits)

lemma put_uint32_inject [simp]: "put_uint32 v = put_uint32 v' \<longleftrightarrow> v = v'"
  by (metis get_put_uint32)

lemma chunk_nonce_inject [simp]: "chunk_nonce prefix v = chunk_nonce prefix v' \<longleftrightarrow> v = v'"
  by (simp add: chunk_nonce_def)

lemma concat_chunks [simp]: "concat (chunks body) = body"
  by (induction body rule: chunks.induct) (subst chunks.simps, simp)

lemma chunk_sizes: "p \<in> set (chunks body) \<Longrightarrow> p \<noteq> [] \<and> length p \<le> encryptedChunk"
proof (induction body rule: chunks.induct)
  case (1 body)
  then show ?case by (subst (asm) (2) chunks.simps) (auto simp: encryptedChunk_def split: if_splits)
qed

text \<open>AES-GCM opens what it sealed and adds sixteen bytes.\<close>

definition sealing :: "aead \<Rightarrow> bool" where
  "sealing a = (\<forall>n p. Open a n (Seal a n p []) [] = Some p \<and> length (Seal a n p []) = length p + overhead)"

lemma sealingD: "sealing a \<Longrightarrow> Open a n (Seal a n p []) [] = Some p" "sealing a \<Longrightarrow> length (Seal a n p []) = length p + overhead"
  by (simp_all add: sealing_def)

lemma unat_small: "n < 4294967296 \<Longrightarrow> unat (word_of_nat n :: 32 word) = n"
  by (simp add: unsigned_of_nat take_bit_nat_eq_self)

lemma size_word: "length p \<le> encryptedChunk \<Longrightarrow> unat (word_of_nat (length p) :: 32 word) = length p"
  by (simp add: unat_small encryptedChunk_def)

lemma read_chunks_Nil [simp]: "read_chunks a prefix c [] = ([], None)"
  by (simp add: read_chunks.simps)

lemma read_chunks_part:
  assumes "length u = 4" "unat (get_uint32 u) = n" "n \<le> encryptedChunk" "length sealed = n + overhead"
  shows "read_chunks a prefix c (u @ sealed @ rest) =
     (case Open a (chunk_nonce prefix c) sealed [] of
        None \<Rightarrow> ([], Some (OtherError ''cipher: message authentication failed''))
      | Some plain \<Rightarrow>
          if n = 0 then (if rest = [] then ([], None) else ([], Some (OtherError ''encrypted document has trailing data'')))
          else case read_chunks a prefix (c + 1) rest of (bs, e) \<Rightarrow> (plain @ bs, e))"
proof -
  have "u \<noteq> []" "sealed \<noteq> []" "drop overhead (sealed @ rest) = rest" if "n = 0"
    using assms(1,4) that by (auto simp: overhead_def)
  moreover have "u \<noteq> []" "sealed \<noteq> []" using assms(1,4) by (auto simp: overhead_def)
  ultimately show ?thesis
    using assms by (subst read_chunks.simps) (auto simp: Let_def split: option.split)
qed

lemma read_chunk:
  assumes "sealing a" "p \<noteq> []" "length p \<le> encryptedChunk"
  shows "read_chunks a prefix c (writeEncryptedChunk a prefix c p @ rest) =
     (case read_chunks a prefix (c + 1) rest of (bs, e) \<Rightarrow> (p @ bs, e))"
  using read_chunks_part [of "put_uint32 (word_of_nat (length p))" "length p" "Seal a (chunk_nonce prefix c) p []" a prefix c rest] assms
  by (simp add: writeEncryptedChunk_def size_word sealingD)

lemma read_terminator:
  assumes "sealing a"
  shows "read_chunks a prefix c (writeEncryptedChunk a prefix c [] @ rest) =
     ([], if rest = [] then None else Some (OtherError ''encrypted document has trailing data''))"
  using read_chunks_part [of "put_uint32 0" 0 "Seal a (chunk_nonce prefix c) [] []" a prefix c rest] assms
  by (simp add: writeEncryptedChunk_def sealingD)

lemma read_written:
  assumes "sealing a" "\<forall>p \<in> set ps. p \<noteq> [] \<and> length p \<le> encryptedChunk"
  shows "read_chunks a prefix c (write_chunks a prefix c ps @ rest) =
     (case read_chunks a prefix (c + word_of_nat (length ps)) rest of (bs, e) \<Rightarrow> (concat ps @ bs, e))"
  using assms(2)
proof (induction ps arbitrary: c)
  case (Cons p ps)
  then show ?case by (simp add: read_chunk [OF assms(1)] algebra_simps split: prod.split)
qed simp

lemma write_chunks_append: "write_chunks a prefix c (ps @ qs) = write_chunks a prefix c ps @ write_chunks a prefix (c + word_of_nat (length ps)) qs"
  by (induction ps arbitrary: c) (simp_all add: algebra_simps)

lemma read_object_parts:
  assumes "length prefix = 8" shows "read_object a (encryptedMagic @ prefix @ raw) = Inr (read_chunks a prefix 0 raw)"
  using assms by (simp add: read_object_def encryptedMagic_def)

lemma stored_object_reads:
  assumes "sealing a" "length prefix = 8"
  shows "read_object a (encrypted a prefix body) = Inr (body, None)"
proof -
  have "\<forall>p \<in> set (chunks body). p \<noteq> [] \<and> length p \<le> encryptedChunk" by (auto dest: chunk_sizes)
  from read_written [OF assms(1) this, of prefix 0 "writeEncryptedChunk a prefix (word_of_nat (length (chunks body))) []"]
  have "read_chunks a prefix 0 (write_chunks a prefix 0 (chunks body @ [[]])) = (body, None)"
    using read_terminator [OF assms(1), of prefix "word_of_nat (length (chunks body))" "[]"] by (simp add: write_chunks_append)
  then show ?thesis by (simp add: encrypted_def read_object_parts [OF assms(2)])
qed

section \<open>Objects that were tampered with\<close>

text \<open>Nobody else made a sealed chunk: every part of the bytes that opens under a nonce with the prefix is one of the parts that
  were sealed under it.\<close>

definition authentic :: "aead \<Rightarrow> bytes \<Rightarrow> bytes list \<Rightarrow> bytes \<Rightarrow> bool" where
  "authentic a prefix ps raw =
     (\<forall>u sealed v c p. raw = u @ sealed @ v \<longrightarrow> Open a (chunk_nonce prefix c) sealed [] = Some p
        \<longrightarrow> (\<exists>k < length ps. c = word_of_nat k \<and> p = ps ! k))"

lemma authentic_suffix: "authentic a prefix ps raw \<Longrightarrow> authentic a prefix ps (drop n raw)"
  unfolding authentic_def by (metis append.assoc append_take_drop_id)

lemma authentic_part:
  assumes "authentic a prefix ps raw" "Open a (chunk_nonce prefix (word_of_nat k)) (take n (drop m raw)) [] = Some p"
    "k \<le> length ps" "length ps < 4294967296"
  shows "k < length ps \<and> p = ps ! k"
proof -
  have "raw = take m raw @ take n (drop m raw) @ drop n (drop m raw)" by (simp del: drop_drop)
  then obtain i where i: "i < length ps" "(word_of_nat k :: 32 word) = word_of_nat i" "p = ps ! i"
    using assms(1,2) unfolding authentic_def by metis
  then have "unat (word_of_nat k :: 32 word) = unat (word_of_nat i :: 32 word)" by simp
  moreover have "k < 4294967296" "i < 4294967296" using i(1) assms(3,4) by linarith+
  ultimately have "k = i" by (simp add: unat_small)
  then show ?thesis using i by simp
qed

lemma read_authentic:
  assumes "authentic a prefix ps raw" "k \<le> length ps" "length ps < 4294967296"
  shows "\<exists>n. fst (read_chunks a prefix (word_of_nat k) raw) = concat (take n (drop k ps))"
  using assms
proof (induction "length raw" arbitrary: raw k rule: less_induct)
  case less
  let ?n = "unat (get_uint32 (take 4 raw))" and ?c = "word_of_nat k :: 32 word"
  show ?case
  proof (cases "raw \<noteq> [] \<and> \<not> length raw < 4 \<and> \<not> ?n > encryptedChunk \<and> drop 4 raw \<noteq> [] \<and> \<not> length (drop 4 raw) < ?n + overhead
      \<and> ?n \<noteq> 0 \<and> Open a (chunk_nonce prefix ?c) (take (?n + overhead) (drop 4 raw)) [] \<noteq> None")
    case False
    then have "fst (read_chunks a prefix ?c raw) = []"
      by (subst read_chunks.simps) (auto simp: Let_def split: option.split)
    then show ?thesis by (intro exI [of _ 0]) simp
  next
    case True
    then obtain p where p: "Open a (chunk_nonce prefix ?c) (take (?n + overhead) (drop 4 raw)) [] = Some p" by auto
    note k = authentic_part [OF less.prems(1) p less.prems(2,3)]
    let ?rest = "drop (?n + overhead) (drop 4 raw)"
    have shorter: "length ?rest < length raw" using True by (cases raw) auto
    have "Suc k \<le> length ps" using k by simp
    from less.hyps [OF shorter authentic_suffix [OF authentic_suffix [OF less.prems(1)]] this less.prems(3)]
    obtain m where m: "fst (read_chunks a prefix (word_of_nat (Suc k)) ?rest) = concat (take m (drop (Suc k) ps))" by (rule exE)
    have "fst (read_chunks a prefix ?c raw) = p @ fst (read_chunks a prefix (?c + 1) ?rest)"
      using True p by (subst read_chunks.simps) (simp add: Let_def split: prod.split)
    also have "\<dots> = concat (take (Suc m) (drop k ps))"
      using m k by (simp add: Cons_nth_drop_Suc [symmetric] add.commute)
    finally show ?thesis by blast
  qed
qed

text \<open>\<^bold>\<open>C20.\<close> What was put under a key reads back byte for byte, whatever its length, and the other objects stay as they are.
  Whatever bytes are found under the header of the object instead, if nobody forged a chunk, a reader gets nothing but the first
  chunks of what was put: no other byte, no chunk twice and none out of order.\<close>

theorem object_authentic:
  assumes "sealing a" "length prefix = 8" "length (chunks body) < 4294967295"
    "PutObject a (Some prefix) key (Inr body) b = Inr ((), b')"
    "authentic a prefix (chunks body @ [[]]) found"
  shows "OpenObject a key b' = Inr (body, None)
    \<and> (\<forall>k. k \<noteq> key \<longrightarrow> OpenObject a k b' = OpenObject a k b)
    \<and> (\<exists>n e. read_object a (encryptedMagic @ prefix @ found) = Inr (concat (take n (chunks body)), e))"
proof -
  have b': "b' = b\<lparr>bl_objects := (bl_objects b)(key \<mapsto> encrypted a prefix body)\<rparr>"
    using assms(4) by (auto simp: PutObject_def split: if_splits)
  obtain n where n: "fst (read_chunks a prefix 0 found) = concat (take n (chunks body @ [[]]))"
    using read_authentic [OF assms(5), of 0] assms(3) by auto
  have "concat (take n (chunks body @ [[]])) = concat (take n (chunks body))" by (cases "n - length (chunks body)") auto
  with n have "\<exists>n e. read_object a (encryptedMagic @ prefix @ found) = Inr (concat (take n (chunks body)), e)"
    unfolding read_object_parts [OF assms(2)] by (metis prod.collapse)
  then show ?thesis using stored_object_reads [OF assms(1,2)] by (simp add: b' OpenObject_def)
qed

text \<open>For the example, bytes are sealed with their nonce and their length.\<close>

definition demo_nonce :: "bytes \<Rightarrow> bytes" where "demo_nonce n = take 12 (n @ replicate 12 (CHR ''-''))"

lemma demo_nonce_length [simp]: "length (demo_nonce n) = 12"
  by (simp add: demo_nonce_def del: take_append)

definition demo_aead :: aead where
  "demo_aead =
     \<lparr>Seal = (\<lambda>n p d. demo_nonce n @ put_uint32 (word_of_nat (length p)) @ p),
      Open = (\<lambda>n v d. if take 12 v = demo_nonce n \<and> 16 \<le> length v
                 \<and> take 4 (drop 12 v) = put_uint32 (word_of_nat (length v - 16)) then Some (drop 16 v) else None)\<rparr>"

definition demo_prefix :: bytes where "demo_prefix = ''NONCE-01''"

definition demo_found :: bytes where "demo_found = writeEncryptedChunk demo_aead demo_prefix 0 ''ab''"

lemma demo_sealing: "sealing demo_aead"
  by (simp add: sealing_def demo_aead_def overhead_def)

lemma demo_authentic: "authentic demo_aead demo_prefix [''ab'', []] demo_found"
  unfolding authentic_def
proof (intro allI impI)
  fix u v sealed p :: bytes and c :: "32 word"
  assume found: "demo_found = u @ sealed @ v" and opens: "Open demo_aead (chunk_nonce demo_prefix c) sealed [] = Some p"
  have o: "take 12 sealed = demo_prefix @ put_uint32 c" "16 \<le> length sealed" "p = drop 16 sealed"
    "take 4 (drop 12 sealed) = put_uint32 (word_of_nat (length sealed - 16))"
    using opens by (auto simp: demo_aead_def demo_nonce_def chunk_nonce_def demo_prefix_def split: if_splits)
  have len: "length demo_found = 22" by code_simp
  have "list_all (\<lambda>i. take 8 (drop i demo_found) = demo_prefix \<longrightarrow> i = 4) [0..<23]" by code_simp
  moreover have "take 8 (drop (length u) demo_found) = demo_prefix"
    using arg_cong [OF o(1), of "take 8"] o(2) by (simp add: found demo_prefix_def)
  moreover have parts: "length u + length sealed + length v = 22" using len unfolding found by simp
  then have "length u < 23" by linarith
  ultimately have u: "length u = 4" by (simp add: list_all_iff)
  have rest: "sealed @ v = drop 4 demo_found" by (simp add: found u)
  have "take 12 (sealed @ v) = demo_prefix @ put_uint32 c" "take 4 (drop 12 (sealed @ v)) = put_uint32 (word_of_nat (length sealed - 16))"
    using o by simp_all
  moreover have "take 12 (drop 4 demo_found) = demo_prefix @ put_uint32 0" "take 4 (drop 12 (drop 4 demo_found)) = put_uint32 2"
    "drop 16 (drop 4 demo_found) = ''ab''" by code_simp+
  ultimately have c: "c = 0" and n: "(word_of_nat (length sealed - 16) :: 32 word) = 2" unfolding rest by simp_all
  have "length sealed \<le> 18" using parts u by linarith
  then have "length sealed - 16 < 3" by simp
  then have "length sealed = 18" using n o(2)
    by (cases "length sealed - 16 = 0"; cases "length sealed - 16 = 1") auto
  then have "v = []" using parts u by simp
  then have "p = ''ab''" using rest o(3) \<open>drop 16 (drop 4 demo_found) = ''ab''\<close> by simp
  then show "\<exists>k < length [''ab'', []]. c = word_of_nat k \<and> p = [''ab'', []] ! k" using c by (intro exI [of _ 0]) simp
qed

text \<open>An object of two bytes whose closing chunk has been cut off.\<close>

theorem object_authentic_witness:
  "OpenObject demo_aead ''k'' \<lparr>bl_objects = [''k'' \<mapsto> encrypted demo_aead demo_prefix ''ab''], bl_accepts = (\<lambda>_. True)\<rparr> = Inr (''ab'', None)
    \<and> (\<exists>n e. read_object demo_aead (encryptedMagic @ demo_prefix @ demo_found) = Inr (concat (take n [''ab'']), e))"
proof -
  have parts: "chunks ''ab'' = [''ab'']" by code_simp
  have "PutObject demo_aead (Some demo_prefix) ''k'' (Inr ''ab'') \<lparr>bl_objects = (\<lambda>_. None), bl_accepts = (\<lambda>_. True)\<rparr>
      = Inr ((), \<lparr>bl_objects = [''k'' \<mapsto> encrypted demo_aead demo_prefix ''ab''], bl_accepts = (\<lambda>_. True)\<rparr>)"
    by (simp add: PutObject_def)
  from object_authentic [OF demo_sealing _ _ this, unfolded parts, simplified, OF _ demo_authentic]
  show ?thesis by (simp add: demo_prefix_def)
qed

text \<open>An object cut off between two chunks is not recognized: it reads as the chunks before the cut, without an error, although
  the empty chunk that closes every object is missing.\<close>

lemma cut_object_accepted:
  assumes "sealing a" "length prefix = 8" "k \<le> length (chunks body)"
  defines "raw \<equiv> encryptedMagic @ prefix @ write_chunks a prefix 0 (take k (chunks body))"
  shows "read_object a raw = Inr (concat (take k (chunks body)), None)
     \<and> (\<exists>rest. rest \<noteq> [] \<and> encrypted a prefix body = raw @ rest)"
proof -
  have "\<forall>p \<in> set (take k (chunks body)). p \<noteq> [] \<and> length p \<le> encryptedChunk" by (auto dest: in_set_takeD chunk_sizes)
  from read_written [OF assms(1) this, of prefix 0 "[]"]
  have "read_object a raw = Inr (concat (take k (chunks body)), None)"
    by (simp add: raw_def read_object_parts [OF assms(2)])
  moreover have "chunks body @ [[]] = take k (chunks body) @ (drop k (chunks body) @ [[]])" by simp
  then have "encrypted a prefix body = raw @ write_chunks a prefix (word_of_nat k) (drop k (chunks body) @ [[]])"
    unfolding encrypted_def raw_def by (subst \<open>chunks body @ [[]] = _\<close>, subst write_chunks_append) (simp add: assms(3) min_absorb2)
  moreover have "write_chunks a prefix c (ps @ [[]]) \<noteq> []" for c ps
    by (cases ps) (simp_all add: writeEncryptedChunk_def put_uint32_def)
  ultimately show ?thesis by blast
qed

end
