(* ===== verification/Intake.thy ===== *)
theory Intake
  imports Objects Documents
begin

text \<open>
  The intake of a file: src/api/internal/document/intake.go, and \<^verbatim>\<open>Service.Accept\<close> of service.go around the transaction of
  Documents.  The bytes go into a quarantine object of the private store, are measured, typed by their first bytes and
  scanned; the object stays only when the document is newly accepted.  \<open>vault\<close> is the store as its users see it: what its objects
  read as, and its verdicts.  \<open>hash\<close> is SHA-256, \<open>scan\<close> the scanner's error, if any.
\<close>

section \<open>File names\<close>

text \<open>\<^verbatim>\<open>path.Base\<close>, after backslashes have become slashes.\<close>

definition path_base :: "string \<Rightarrow> string" where
  "path_base v =
     (if v = [] then ''.''
      else
        let t = rev (dropWhile (\<lambda>c. c = CHR ''/'') (rev v)) in
        if t = [] then ''/'' else rev (takeWhile (\<lambda>c. c \<noteq> CHR ''/'') (rev t)))"

definition file_base :: "string \<Rightarrow> string" where
  "file_base v = path_base (map (\<lambda>c. if c = CHR 0x5C then CHR ''/'' else c) v)"

section \<open>The quarantine\<close>

record vault =
  vt_objects :: "string \<Rightarrow> bytes option"
  vt_put :: "string \<Rightarrow> bool"
  vt_open :: "string \<Rightarrow> bool"
  vt_delete :: "string \<Rightarrow> bool"

definition put_file :: "string \<Rightarrow> bytes \<Rightarrow> vault \<Rightarrow> vault" where
  "put_file key data v = v\<lparr>vt_objects := (vt_objects v)(key \<mapsto> data)\<rparr>"

definition delete_file :: "string \<Rightarrow> vault \<Rightarrow> vault" where
  "delete_file key v = (if vt_delete v key then v\<lparr>vt_objects := (vt_objects v)(key := None)\<rparr> else v)"

definition sniff :: "bytes \<Rightarrow> string" where
  "sniff prefix =
     (if has_prefix prefix ''%PDF-'' then ''application/pdf''
      else if has_prefix prefix (byte_char 137 # ''PNG'' @ map byte_char [13, 10, 26, 10]) then ''image/png''
      else if has_prefix prefix (map byte_char [255, 216, 255]) then ''image/jpeg'' else [])"

definition quarantine_key :: "(bytes \<Rightarrow> bytes) \<Rightarrow> id \<Rightarrow> string \<Rightarrow> string" where
  "quarantine_key hash org attempt = ''quarantine/'' @ hex_encode (hash (org @ '':'' @ attempt))"

definition checked_file :: "(bytes \<Rightarrow> bytes) \<Rightarrow> string \<Rightarrow> bytes \<Rightarrow> prepared result" where
  "checked_file hash key body =
     (let mime = sniff (take 512 body) in
      if int (length body) > MaxFileBytes then Inl Document_ErrTooLarge
      else if mime = [] \<or> body = [] then Inl Document_ErrUnsupportedType
      else Inr \<lparr>pr_key = key, pr_sha256 = hex_encode (hash body), pr_mime = mime, pr_size = int (length body)\<rparr>)"

definition scanned :: "(bytes \<Rightarrow> err option) option \<Rightarrow> bytes \<Rightarrow> err option" where
  "scanned scan body =
     (case scan of
        None \<Rightarrow> None
      | Some f \<Rightarrow> (case f body of
            None \<Rightarrow> None
          | Some e \<Rightarrow> if e = Document_ErrMalware then Some Document_ErrMalware else Some Document_ErrScanUnavailable))"

text \<open>\<open>scan\<close> is \<^verbatim>\<open>None\<close> when the scan is skipped; \<open>source\<close> is what the body reads as, or its error.\<close>

definition Prepare :: "(bytes \<Rightarrow> bytes) \<Rightarrow> (bytes \<Rightarrow> err option) option \<Rightarrow> id \<Rightarrow> string \<Rightarrow> bytes result \<Rightarrow> vault \<Rightarrow> prepared result \<times> vault" where
  "Prepare hash scan org attempt source v =
     (if org = [] \<or> attempt = [] then (Inl (OtherError ''document intake is not configured''), v)
      else
        let key = quarantine_key hash org attempt in
        case source of
          Inl e \<Rightarrow> (Inl e, delete_file key v)
        | Inr data \<Rightarrow>
            let body = take (nat MaxFileBytes + 1) data in
            if \<not> vt_put v key then (Inl (OtherError ''object store refused''), delete_file key v)
            else
              let v = put_file key body v in
              if \<not> vt_open v key then (Inl (OtherError ''object is unavailable''), delete_file key v)
              else case checked_file hash key body of
                Inl e \<Rightarrow> (Inl e, delete_file key v)
              | Inr p \<Rightarrow> (case scanned scan body of Some e \<Rightarrow> (Inl e, delete_file key v) | None \<Rightarrow> (Inr p, v)))"

section \<open>Accepting a file\<close>

definition unnamed_input :: "accept_input \<Rightarrow> bool" where
  "unnamed_input x =
     (ai_org x = [] \<or> ai_actor x = [] \<or> ai_attempt x = [] \<or> ai_origin x = [] \<or> ai_filename x = [] \<or> ai_channel x = [])"

definition file_input :: "id \<Rightarrow> id \<Rightarrow> id \<Rightarrow> string \<Rightarrow> string \<Rightarrow> string \<Rightarrow> time \<Rightarrow> accept_input" where
  "file_input org user attempt origin filename channel t =
     \<lparr>ai_org = org, ai_actor = user, ai_attempt = attempt, ai_origin = origin, ai_filename = filename, ai_channel = channel,
      ai_line_group = False, ai_now = t, ai_drive_connection = [], ai_drive_file = [], ai_drive_revision = [], ai_drive_mime = [],
      ai_drive_size = 0, ai_drive_selected = zero_time\<rparr>"

definition AcceptFile ::
  "(bytes \<Rightarrow> bytes) \<Rightarrow> (bytes \<Rightarrow> err option) option \<Rightarrow> (string \<Rightarrow> time \<Rightarrow> (time \<times> time) option) \<Rightarrow> bool \<Rightarrow> fresh_ids \<Rightarrow> time \<Rightarrow> time
    \<Rightarrow> accept_input \<Rightarrow> bytes result \<Rightarrow> vault \<Rightarrow> store \<Rightarrow> commit_result result \<times> vault \<times> store" where
  "AcceptFile hash scan zone accepts ids clock dbnow x source v s =
     (if unnamed_input x then (Inl (OtherError ''document intake is not configured''), v, s)
      else
        case Prepare hash scan (ai_org x) (ai_attempt x) source v of
          (prep, v) \<Rightarrow>
            (case Accept zone accepts ids clock dbnow prep (vt_delete v (quarantine_key hash (ai_org x) (ai_attempt x))) x s of
               (r, cleanup, s) \<Rightarrow> (r, (case cleanup of None \<Rightarrow> v | Some key \<Rightarrow> delete_file key v), s)))"

section \<open>The store beneath\<close>

text \<open>The encrypted store of Objects implements the vault: what it holds are the objects that read to their end.\<close>

definition vault_of :: "aead \<Rightarrow> (string \<Rightarrow> bool) \<Rightarrow> blobs \<Rightarrow> vault" where
  "vault_of a opens b =
     \<lparr>vt_objects = (\<lambda>key. case OpenObject a key b of Inr (data, None) \<Rightarrow> Some data | _ \<Rightarrow> None),
      vt_put = bl_accepts b, vt_open = opens, vt_delete = bl_accepts b\<rparr>"

lemma vault_of_put:
  assumes "sealing a" "length prefix = 8" "PutObject a (Some prefix) key (Inr body) b = Inr ((), b')"
  shows "vault_of a opens b' = put_file key body (vault_of a opens b)"
proof -
  have b': "b' = b\<lparr>bl_objects := (bl_objects b)(key \<mapsto> encrypted a prefix body)\<rparr>"
    using assms(3) by (auto simp: PutObject_def split: if_splits)
  have "OpenObject a k b' = (if k = key then Inr (body, None) else OpenObject a k b)" for k
    using stored_object_reads [OF assms(1,2)] by (simp add: b' OpenObject_def)
  then show ?thesis by (auto simp: vault_of_def put_file_def b' fun_eq_iff)
qed

lemma vault_of_delete: "vault_of a opens (after b (DeleteObject key b)) = delete_file key (vault_of a opens b)"
  by (auto simp: vault_of_def delete_file_def DeleteObject_def OpenObject_def fun_eq_iff)

section \<open>The object of a document\<close>

lemma vt_delete_kept [simp]: "vt_delete (put_file k d v) = vt_delete v" "vt_delete (delete_file k v) = vt_delete v"
  by (simp_all add: put_file_def delete_file_def)

lemma delete_new:
  assumes "vt_delete v key" "vt_objects v key = None"
  shows "vt_objects (delete_file key v) = vt_objects v" "vt_objects (delete_file key (put_file key data v)) = vt_objects v"
  using assms by (auto simp: delete_file_def put_file_def fun_eq_iff)

lemma limited_body: "int (length (take (nat MaxFileBytes + 1) data)) \<le> MaxFileBytes \<Longrightarrow> take (nat MaxFileBytes + 1) data = data"
  by (auto simp: MaxFileBytes_def min_def split: if_splits)

definition measured :: "(bytes \<Rightarrow> bytes) \<Rightarrow> string \<Rightarrow> bytes \<Rightarrow> prepared" where
  "measured hash key data =
     \<lparr>pr_key = key, pr_sha256 = hex_encode (hash data), pr_mime = sniff (take 512 data), pr_size = int (length data)\<rparr>"

lemma checked_fileD:
  assumes "checked_file hash key (take (nat MaxFileBytes + 1) data) = Inr p"
  shows "p = measured hash key data \<and> take (nat MaxFileBytes + 1) data = data"
proof -
  have "int (length (take (nat MaxFileBytes + 1) data)) \<le> MaxFileBytes" using assms by (auto simp: checked_file_def Let_def split: if_splits)
  from limited_body [OF this] show ?thesis using assms by (auto simp: checked_file_def measured_def Let_def split: if_splits)
qed

text \<open>The files a preparation keeps.\<close>

definition acceptable :: "(bytes \<Rightarrow> err option) option \<Rightarrow> bytes \<Rightarrow> bool" where
  "acceptable scan data =
     (sniff (take 512 data) \<noteq> [] \<and> data \<noteq> [] \<and> int (length data) \<le> MaxFileBytes \<and> scanned scan data = None)"

lemma PrepareD:
  assumes "Prepare hash scan org attempt source v = (Inr p, v')"
  obtains data where "source = Inr data" "acceptable scan data" "p = measured hash (quarantine_key hash org attempt) data"
    "v' = put_file (quarantine_key hash org attempt) data v"
proof -
  let ?key = "quarantine_key hash org attempt"
  obtain data where d: "source = Inr data" "checked_file hash ?key (take (nat MaxFileBytes + 1) data) = Inr p"
    "scanned scan (take (nat MaxFileBytes + 1) data) = None" "v' = put_file ?key (take (nat MaxFileBytes + 1) data) v"
    using assms by (auto simp: Prepare_def Let_def split: if_splits sum.splits option.splits)
  note p = checked_fileD [OF d(2)]
  have "acceptable scan data" using d(2,3) unfolding conjunct2 [OF p] by (auto simp: acceptable_def checked_file_def Let_def split: if_splits)
  then show thesis using that d p by metis
qed

lemma Prepare_acceptable:
  assumes "acceptable scan data" "org \<noteq> []" "attempt \<noteq> []" "vt_put v (quarantine_key hash org attempt)"
    "vt_open v (quarantine_key hash org attempt)"
  shows "Prepare hash scan org attempt (Inr data) v
     = (Inr (measured hash (quarantine_key hash org attempt) data), put_file (quarantine_key hash org attempt) data v)"
proof -
  have "take (nat MaxFileBytes + 1) data = data" using assms(1) by (auto simp: acceptable_def)
  moreover have "vt_open (put_file k d v) = vt_open v" for k d by (simp add: put_file_def)
  ultimately show ?thesis using assms by (simp add: Prepare_def Let_def acceptable_def checked_file_def measured_def)
qed

lemma PrepareE:
  assumes "Prepare hash scan org attempt source v = (r, v')" "vt_delete v (quarantine_key hash org attempt)"
    "vt_objects v (quarantine_key hash org attempt) = None"
  obtains (kept) data where "r = Inr (measured hash (quarantine_key hash org attempt) data)" "source = Inr data"
      "v' = put_file (quarantine_key hash org attempt) data v"
  | (dropped) e where "r = Inl e" "vt_objects v' = vt_objects v"
proof (cases r)
  case (Inr p)
  show ?thesis using assms(1) [unfolded Inr] kept Inr by (elim PrepareD) metis
next
  case (Inl e)
  then have "vt_objects v' = vt_objects v"
    using assms(1) delete_new [OF assms(2,3)]
    by (auto simp: Prepare_def Let_def split: if_splits sum.splits option.splits)
  then show ?thesis using Inl dropped by blast
qed

lemma commit_documents:
  assumes "CommitPrepared zone accepts ids dbnow x s = Inr (r, s')"
  shows "(\<exists>c sha start. r = Inr c \<and> cr_accepted c \<and> hex_decode (ci_sha256 x) = Some sha
        \<and> documents s' = documents s @ [new_document_row ids x sha start])
    \<or> (\<forall>c. r = Inr c \<longrightarrow> \<not> cr_accepted c) \<and> documents s' = documents s"
  using assms
proof (cases rule: CommitPreparedE)
  case replay
  then show ?thesis by (auto simp: replayed_def)
next
  case (existing sha doc status)
  then show ?thesis using accept_existingD [OF existing(3)] by (auto simp: tables_defs)
next
  case (fresh sha)
  show ?thesis using fresh(7)
  proof (cases rule: charge_newE)
    case rejected
    then show ?thesis by (simp add: tables_defs)
  next
    case (accepted s1 start limit ts te)
    then show ?thesis using accept_newD [OF accepted(7)] fresh(1) by (auto simp: tables_defs)
  qed
qed

lemma recorded_documents: "documents (after s (RecordRejected clock x reason s)) = documents s"
  by (auto simp: after_def RecordRejected_def Let_def split: sum.split if_splits dest!: upsert_attemptD)

text \<open>Every document with a storage key has its original under it, of the recorded digest and size.\<close>

definition originals_stored :: "(bytes \<Rightarrow> bytes) \<Rightarrow> vault \<Rightarrow> store \<Rightarrow> bool" where
  "originals_stored hash v s =
     list_all (\<lambda>d. case d_storage_key d of
         None \<Rightarrow> True
       | Some key \<Rightarrow> (case vt_objects v key of None \<Rightarrow> False | Some data \<Rightarrow> hash data = d_sha256 d \<and> int (length data) = d_size d))
       (documents s)"

definition newly_accepted :: "commit_result result \<Rightarrow> bool" where
  "newly_accepted r = (case r of Inl _ \<Rightarrow> False | Inr c \<Rightarrow> cr_accepted c)"

lemma originals_stored_cong:
  "vt_objects v' = vt_objects v \<Longrightarrow> documents s' = documents s \<Longrightarrow> originals_stored hash v' s' = originals_stored hash v s"
  by (simp only: originals_stored_def)

lemma originals_stored_put:
  assumes "originals_stored hash v s" "vt_objects v key = None"
  shows "originals_stored hash (put_file key data v) s"
  using assms unfolding originals_stored_def list_all_iff
  by (fastforce simp: put_file_def split: option.splits)


text \<open>An upload of five bytes, and the same bytes again.  The demonstration's digest is the last 32 bytes, backwards.\<close>

definition demo_digest :: "bytes \<Rightarrow> bytes" where "demo_digest data = take 32 (rev data @ replicate 32 (CHR ''0''))"

definition demo_vault :: vault where
  "demo_vault = \<lparr>vt_objects = (\<lambda>_. None), vt_put = (\<lambda>_. True), vt_open = (\<lambda>_. True), vt_delete = (\<lambda>_. True)\<rparr>"

definition demo_file :: "string \<Rightarrow> accept_input" where
  "demo_file attempt =
     \<lparr>ai_org = ''o1'', ai_actor = ''u1'', ai_attempt = attempt, ai_origin = ''web:1'', ai_filename = ''a.pdf'', ai_channel = ''Web'',
      ai_line_group = False, ai_now = 1, ai_drive_connection = [], ai_drive_file = [], ai_drive_revision = [],
      ai_drive_mime = [], ai_drive_size = 0, ai_drive_selected = 0\<rparr>"

definition demo_accept :: "commit_result result \<times> vault \<times> store" where
  "demo_accept = AcceptFile demo_digest None demo_zone True demo_ids 1 1 (demo_file ''t1'') (Inr ''%PDF-'') demo_vault demo_docs"

lemma demo_accepted: "newly_accepted (fst demo_accept)"
  by code_simp


end
