(* ===== verification/DocumentRoutes.thy ===== *)
theory DocumentRoutes
  imports Http Tables Intake
begin

text \<open>
  The routes of documents: src/api/internal/httpapi/document_routes.go, over Documents, Intake, Tables and Drive.  \<open>zone\<close> and
  \<open>ilike\<close> are those of Documents, \<open>midnight\<close> parses a date to its first instant, \<open>layout\<close> is the layout of exported times.
  The parsed content type, the first part of an upload and a decoded JSON body are arguments, \<^verbatim>\<open>None\<close> when the library refuses
  them.
\<close>

section \<open>Filters\<close>

definition filter_instant :: "(string \<Rightarrow> time option) \<Rightarrow> site \<Rightarrow> duration \<Rightarrow> string \<Rightarrow> time option option" where
  "filter_instant midnight w later v =
     (if v = [] then Some None
      else case st_parse w v of
        Some t \<Rightarrow> Some (Some t)
      | None \<Rightarrow> map_option (\<lambda>t. Some (t + later)) (midnight v))"

definition documentFilter :: "(string \<Rightarrow> time option) \<Rightarrow> site \<Rightarrow> web \<Rightarrow> doc_filter option" where
  "documentFilter midnight w q =
     (let t = (\<lambda>k. TrimSpace (query_value q k));
          status = t ''status''; channel = t ''source''; name = t ''filename''; submitter = t ''submitter''; assignee = t ''assignee'' in
      if length status > 24 \<or> length channel > 24 \<or> length name > 240 \<or> length submitter > 64 \<or> length assignee > 64 then None
      else case (filter_instant midnight w 0 (query_value q ''from''), filter_instant midnight w (24 * Hour) (query_value q ''to'')) of
        (Some start, Some stop) \<Rightarrow>
          (if (case start of None \<Rightarrow> False | Some a \<Rightarrow> (case stop of None \<Rightarrow> False | Some b \<Rightarrow> \<not> a < b)) then None
           else Some \<lparr>df_from = start, df_to = stop, df_status = status, df_channel = channel, df_filename = name,
                      df_submitter = submitter, df_assignee = assignee\<rparr>)
      | _ \<Rightarrow> None)"

section \<open>Reading\<close>

definition documentDetail :: "site \<Rightarrow> web \<Rightarrow> store \<Rightarrow> (document \<times> source_info list) answer \<times> store" where
  "documentDetail w q s =
     workContext w q False s (\<lambda>session m s.
       read_only s (DocumentDetail (se_user session) (ms_org m) (path_value q ''document'') s)
         (\<lambda>e. if e = Tenant_ErrNotFound then Refuse 404 ''not_found'' else Refuse 503 ''document_unavailable'') (Answer 200))"

definition documentSummary :: "(string \<Rightarrow> time \<Rightarrow> (time \<times> time) option) \<Rightarrow> site \<Rightarrow> web \<Rightarrow> store \<Rightarrow> doc_summary answer \<times> store" where
  "documentSummary zone w q s =
     workContext w q False s (\<lambda>session m s.
       commit s (DocumentSummary zone (now w) (st_dbnow w) (se_user session) (ms_org m) s) (\<lambda>_. Refuse 503 ''document_unavailable'') (Answer 200))"

definition listDocuments :: "(string \<Rightarrow> string \<Rightarrow> bool) \<Rightarrow> (string \<Rightarrow> time option) \<Rightarrow> site \<Rightarrow> web \<Rightarrow> store \<Rightarrow> (document list \<times> string) answer \<times> store" where
  "listDocuments ilike midnight w q s =
     workContext w q False s (\<lambda>session m s.
       case pageLimit (query_value q ''limit'') of
         None \<Rightarrow> (Refuse 400 ''invalid_cursor'', s)
       | Some limit \<Rightarrow>
           if limit > 50 then (Refuse 400 ''invalid_cursor'', s)
           else case documentFilter midnight w q of
             None \<Rightarrow> (Refuse 400 ''invalid_document_filter'', s)
           | Some f \<Rightarrow>
               read_only s (ListDocumentsFiltered ilike (st_position w) (st_cursor w) (se_user session) (ms_org m) (query_value q ''cursor'')
                   (int limit) f s)
                 (\<lambda>e. if e = Document_ErrInvalidCursor then Refuse 400 ''invalid_cursor'' else Refuse 503 ''document_unavailable'')
                 (Answer 200))"

definition openDocument :: "vault \<Rightarrow> site \<Rightarrow> web \<Rightarrow> store \<Rightarrow> (string \<times> bytes) answer \<times> store" where
  "openDocument v w q s =
     workContext w q False s (\<lambda>session m s.
       trying s (GetDocument (now w) (se_user session) (ms_org m) (path_value q ''document'') s)
         (\<lambda>e. if e = Tenant_ErrNotFound then Refuse 404 ''not_found'' else Refuse 503 ''document_unavailable'') (\<lambda>d s.
         (case vt_objects v (doc_storage d) of
            None \<Rightarrow> Refuse 503 ''document_unavailable''
          | Some data \<Rightarrow> if vt_open v (doc_storage d) then Answer 200 (doc_mime d, data) else Refuse 503 ''document_unavailable'', s)))"

section \<open>Exports\<close>

definition documentExportCount :: "(string \<Rightarrow> string \<Rightarrow> bool) \<Rightarrow> (string \<Rightarrow> time option) \<Rightarrow> site \<Rightarrow> web \<Rightarrow> store \<Rightarrow> int answer \<times> store" where
  "documentExportCount ilike midnight w q s =
     workContext w q False s (\<lambda>session m s.
       managers m s
         (case documentFilter midnight w q of
            None \<Rightarrow> (Refuse 400 ''invalid_document_filter'', s)
          | Some f \<Rightarrow>
              commit s (CountDocumentsForExport ilike (now w) (se_user session) (ms_org m) f s) (\<lambda>_. Refuse 503 ''document_unavailable'')
                (Answer 200)))"

definition too_many_rows :: "err \<Rightarrow> bool" where
  "too_many_rows e = (case e of OtherError text \<Rightarrow> contains text ''requires asynchronous'' | _ \<Rightarrow> False)"

definition exportDocuments ::
  "(string \<Rightarrow> string \<Rightarrow> bool) \<Rightarrow> (string \<Rightarrow> time option) \<Rightarrow> (time \<Rightarrow> string) \<Rightarrow> site \<Rightarrow> web \<Rightarrow> store \<Rightarrow> table answer \<times> store" where
  "exportDocuments ilike midnight layout w q s =
     workContext w q False s (\<lambda>session m s.
       managers m s
         (case documentFilter midnight w q of
            None \<Rightarrow> (Refuse 400 ''invalid_document_filter'', s)
          | Some f \<Rightarrow>
              let fmt = (if has_suffix (wb_path q) ''.xlsx'' then ''xlsx'' else ''csv'') in
              (case gate_check w s (ms_org m) (if fmt = ''xlsx'' then ExportXLSX else ExportCSV) of
                 Inl _ \<Rightarrow> (Refuse 503 ''plan_unavailable'', s)
               | Inr d \<Rightarrow>
                   if \<not> dn_allowed d then (Refuse 403 ''feature_unavailable'', s)
                   else commit s (ExportDocuments ilike (WriteExport layout) (now w) (se_user session) (ms_org m) f fmt s)
                          (\<lambda>e. if too_many_rows e then Refuse 413 ''document_export_too_large'' else Refuse 503 ''document_export_failed'')
                          (\<lambda>(_, file). Answer 200 file))))"

section \<open>Status\<close>

definition changeDocumentStatus :: "site \<Rightarrow> web \<Rightarrow> store \<Rightarrow> document answer \<times> store" where
  "changeDocumentStatus w q s =
     workContext w q True s (\<lambda>session m s.
       managers m s
         (commit s (ChangeDocumentStatus (st_dbnow w) (se_user session) (ms_org m) (path_value q ''document'')
                      (trim_prefix (path_base (wb_path q)) ''/'') (now w) s)
            (\<lambda>e. if e = Tenant_ErrNotFound then Refuse 404 ''not_found''
                 else if e = Document_ErrStatusConflict then Refuse 409 ''document_status_conflict''
                 else Refuse 503 ''document_unavailable'') (Answer 200)))"

section \<open>Uploads and imports\<close>

text \<open>A request without a CSRF header has its body parsed for the token by \<^verbatim>\<open>ValidMutation\<close>, and nothing is left of it.\<close>

definition parsed_already :: "web \<Rightarrow> 'a option \<Rightarrow> 'a option" where
  "parsed_already q body = (if rq_csrf_header (wb_auth q) = [] then None else body)"

record upload =
  ul_name :: string
  ul_filename :: string
  ul_body :: "bytes result"

definition accepted_answer :: "(err \<Rightarrow> commit_result answer) \<Rightarrow> commit_result result \<Rightarrow> commit_result answer" where
  "accepted_answer fail r = (case r of Inl e \<Rightarrow> fail e | Inr c \<Rightarrow> Answer (if cr_duplicate c then 200 else 201) c)"

definition writeIntakeError :: "err \<Rightarrow> 'a answer" where
  "writeIntakeError e =
     (if e = Document_ErrUnsupportedType then Refuse 422 ''unsupported_file''
      else if e = Document_ErrTooLarge then Refuse 413 ''file_too_large''
      else if e = Document_ErrMalware then Refuse 422 ''unsafe_file''
      else if e = Document_ErrScanUnavailable then Refuse 503 ''scanner_unavailable''
      else if e = Document_ErrQuota then Refuse 409 ''document_quota_exhausted''
      else if e = Document_ErrTrashed then Refuse 409 ''document_in_trash''
      else if e = Document_ErrSourceConflict then Refuse 409 ''document_source_conflict''
      else Refuse 503 ''document_unavailable'')"

text \<open>\<open>scan\<close>, \<open>accepts\<close> and \<open>ids\<close> are those of the intake.\<close>

definition uploadDocument ::
  "(bytes \<Rightarrow> err option) option \<Rightarrow> (string \<Rightarrow> time \<Rightarrow> (time \<times> time) option) \<Rightarrow> fresh_ids \<Rightarrow> string option \<Rightarrow> upload option
    \<Rightarrow> site \<Rightarrow> web \<Rightarrow> vault \<Rightarrow> store \<Rightarrow> commit_result answer \<times> vault \<times> store" where
  "uploadDocument scan zone ids media part w q v s =
     (if media \<noteq> Some ''multipart/form-data'' then (Refuse 415 ''invalid_content_type'', v, s)
      else case authenticatedMutation w q s (\<lambda>session s. member_of q session s (\<lambda>m. (Answer 200 (session, m), s))) of
        (Refuse n c, s) \<Rightarrow> (Refuse n c, v, s)
      | (Answer _ (session, m), s) \<Rightarrow>
          (case parsed_already q part of
             None \<Rightarrow> (Refuse 400 ''invalid_upload'', v, s)
           | Some u \<Rightarrow>
               let filename = file_base (ul_filename u); attempt = newUUID w 0; key = TrimSpace (wb_key q);
                   origin = (if key = [] then attempt else key) in
               if ul_name u \<noteq> ''file'' then (Refuse 400 ''invalid_upload'', v, s)
               else if filename \<in> {''.'', ''/''} \<or> rune_count filename < 1 \<or> rune_count filename > 240
               then (Refuse 422 ''invalid_filename'', v, s)
               else if length origin > 128 \<or> length origin < 8 then (Refuse 400 ''invalid_idempotency_key'', v, s)
               else case AcceptFile (st_hash w) scan zone (st_accepts w) ids (now w) (st_dbnow w)
                      (file_input (ms_org m) (se_user session) attempt (hex_encode (st_hash w (se_user session @ '':'' @ origin))) filename
                        ''Web'' (now w)) (ul_body u) v s of
                 (r, v, s) \<Rightarrow> (accepted_answer writeIntakeError r, v, s)))"

definition drive_filename :: "drive_file \<Rightarrow> string" where
  "drive_filename f =
     (let name = file_base (fi_name f) in
      if name \<in> {''.'', ''/'', []} \<or> rune_count name > 240 then ''drive-'' @ fi_id f else name)"

definition drive_input :: "id \<Rightarrow> id \<Rightarrow> id \<Rightarrow> drive_file \<Rightarrow> time \<Rightarrow> accept_input" where
  "drive_input org user attempt f t =
     (file_input org user attempt (''drive:'' @ fi_id f @ '':'' @ fi_revision f) (drive_filename f) ''Drive'' t)
       \<lparr>ai_drive_connection := org, ai_drive_file := fi_id f, ai_drive_revision := fi_revision f, ai_drive_mime := fi_mime f,
        ai_drive_size := fi_size f, ai_drive_selected := t\<rparr>"

definition writeDownloadError :: "err \<Rightarrow> 'a answer" where
  "writeDownloadError e =
     (if e = Drive_ErrReconnectRequired then Refuse 409 ''drive_reconnect_required''
      else if e = Drive_ErrFileChanged then Refuse 409 ''drive_file_changed''
      else if e = Drive_ErrNotConnected then Refuse 409 ''drive_not_connected'' else Refuse 503 ''drive_unavailable'')"

definition writeDriveIntakeError :: "err \<Rightarrow> 'a answer" where
  "writeDriveIntakeError e =
     (if e = Document_ErrQuota then Refuse 409 ''document_quota_exhausted''
      else if e = Document_ErrTrashed then Refuse 409 ''document_in_trash''
      else if e = Document_ErrSourceConflict then Refuse 409 ''document_source_conflict'' else Refuse 422 ''drive_file_rejected'')"

definition valid_selection :: "string \<times> string \<Rightarrow> bool" where
  "valid_selection = (\<lambda>(file, revision). length file \<le> 256 \<and> length revision \<le> 256 \<and> file \<noteq> [] \<and> revision \<noteq> [])"

text \<open>The download from Drive, up to the intake: the session's user, the organization and the file.\<close>

definition selected_file ::
  "drive_service option \<Rightarrow> time \<Rightarrow> (string \<times> string) option \<Rightarrow> site \<Rightarrow> web \<Rightarrow> store \<Rightarrow> (id \<times> id \<times> drive_file) answer \<times> store" where
  "selected_file drive zero body w q s =
     workContext w q True s (\<lambda>session m s.
       managers m s
         (case drive of
            None \<Rightarrow> (Refuse 503 ''drive_not_configured'', s)
          | Some sv \<Rightarrow>
              (case parsed_already q body of
                 None \<Rightarrow> (Refuse 400 ''invalid_drive_file'', s)
               | Some (file, revision) \<Rightarrow>
                   if \<not> valid_selection (file, revision) then (Refuse 400 ''invalid_drive_file'', s)
                   else case DownloadSelected sv zero (se_user session) (ms_org m) file revision (now w) (st_uuids w 0) s of
                     (Inl e, s) \<Rightarrow> (writeDownloadError e, s)
                   | (Inr f, s) \<Rightarrow> (Answer 200 (se_user session, ms_org m, f), s))))"

definition importDriveDocument ::
  "(bytes \<Rightarrow> err option) option \<Rightarrow> (string \<Rightarrow> time \<Rightarrow> (time \<times> time) option) \<Rightarrow> fresh_ids \<Rightarrow> drive_service option \<Rightarrow> time \<Rightarrow> (string \<times> string) option
    \<Rightarrow> site \<Rightarrow> web \<Rightarrow> vault \<Rightarrow> store \<Rightarrow> commit_result answer \<times> vault \<times> store" where
  "importDriveDocument scan zone ids drive zero body w q v s =
     (case selected_file drive zero body w q s of
        (Refuse n c, s) \<Rightarrow> (Refuse n c, v, s)
      | (Answer _ (user, org, f), s) \<Rightarrow>
          (case AcceptFile (st_hash w) scan zone (st_accepts w) ids (now w) (st_dbnow w) (drive_input org user (newUUID w 0) f (now w))
                  (case fi_body f of None \<Rightarrow> Inl (OtherError ''document intake is not configured'') | Some data \<Rightarrow> Inr data) v s of
             (r, v, s) \<Rightarrow> (accepted_answer writeDriveIntakeError r, v, s)))"

section \<open>The import form\<close>

text \<open>The form of the web client posts JSON, which the route of the import never accepts.\<close>

lemma json_import_refused:
  "wb_content_type q = ''application/json'' \<Longrightarrow>
     importDriveDocument scan zone ids drive zero body w q v s = (Refuse 415 ''invalid_content_type'', v, s)"
  by (simp add: importDriveDocument_def selected_file_def workContext_def formMutation_def validFormContentType_def)

end
