(* ===== verification/LineDocuments.thy ===== *)
theory LineDocuments
  imports Inbound Intake
begin

text \<open>
  The worker that takes documents from LINE: src/api/internal/worker/document.go, \<^verbatim>\<open>ParseDocumentMessage\<close> of package line and
  src/api/internal/postgres/line_documents.go, over the intake.  \<open>decode\<close> is the JSON decoder of a message event (type of the
  event; type, id and file name of the message); \<open>download\<close> is what LINE answers for a message.
\<close>

section \<open>Messages\<close>

record document_message =
  dm_type :: string
  dm_id :: string
  dm_filename :: string

definition ParseDocumentMessage :: "(bytes \<Rightarrow> (string \<times> string \<times> string \<times> string) option) \<Rightarrow> bytes \<Rightarrow> document_message option" where
  "ParseDocumentMessage decode payload =
     (case decode payload of
        None \<Rightarrow> None
      | Some (event, kind, i, name) \<Rightarrow>
          if event \<noteq> ''message'' \<or> i = [] then None
          else if kind \<noteq> ''image'' \<and> kind \<noteq> ''file'' then None
          else Some \<lparr>dm_type = kind, dm_id = i, dm_filename = name\<rparr>)"

definition safeFilename :: "string \<Rightarrow> string \<Rightarrow> string \<Rightarrow> string" where
  "safeFilename name kind i =
     (let v = file_base (TrimSpace name) in
      if v \<in> {''.'', ''/'', []} \<or> length v > 240 then ''line-'' @ i @ (if kind = ''image'' then ''.jpg'' else ''.bin'') else v)"

section \<open>The sender's organization\<close>

definition LINE_unmapped :: err where "LINE_unmapped = OtherError ''LINE sender has no unambiguous organization''"

definition live_line_identity :: "string \<Rightarrow> identity_row \<Rightarrow> bool" where
  "live_line_identity subject r = (ai_provider r = ''line'' \<and> ai_subject r = subject \<and> ai_disabled_at r = None)"

definition group_senders :: "inbound_event \<Rightarrow> store \<Rightarrow> (id \<times> id) list" where
  "group_senders e s =
     [(lc_org c, m_user m). c \<leftarrow> line_group_connections s, m \<leftarrow> memberships s, r \<leftarrow> auth_identities s,
        m_org m = lc_org c, ai_user r = m_user m, live_line_identity (ev_source_user e) r,
        lc_channel c = ev_channel e, lc_group c = ev_source_group e, lc_status c = ''connected'']"

definition direct_senders :: "inbound_event \<Rightarrow> store \<Rightarrow> (id \<times> id) list" where
  "direct_senders e s =
     [(m_org m, m_user m). r \<leftarrow> auth_identities s, m \<leftarrow> memberships s, m_user m = ai_user r, live_line_identity (ev_source_user e) r]"

definition ResolveLINEDocument :: "inbound_event \<Rightarrow> store \<Rightarrow> (id \<times> id) result" where
  "ResolveLINEDocument e s =
     (if ev_source_user e = [] then Inl LINE_unmapped
      else if ev_source_type e = ''group''
      then (case group_senders e s of [] \<Rightarrow> Inl LINE_unmapped | x # _ \<Rightarrow> Inr x)
      else (case direct_senders e s of [x] \<Rightarrow> Inr x | _ \<Rightarrow> Inl LINE_unmapped))"

section \<open>The worker\<close>

definition ErrContentUnavailable :: err where "ErrContentUnavailable = OtherError ''LINE message content is unavailable''"

definition line_input :: "inbound_event \<Rightarrow> document_message \<Rightarrow> id \<times> id \<Rightarrow> id \<Rightarrow> time \<Rightarrow> accept_input" where
  "line_input e m sender attempt now =
     (file_input (fst sender) (snd sender) attempt (''line:'' @ ev_provider e @ '':'' @ ev_channel e @ '':'' @ dm_id m)
        (safeFilename (dm_filename m) (dm_type m) (dm_id m)) ''LINE'' now)\<lparr>ai_line_group := ev_source_type e = ''group''\<rparr>"

text \<open>\<open>attempt\<close> is the new identifier, \<^verbatim>\<open>None\<close> when the random source fails; \<open>intake\<close> is the service's \<^verbatim>\<open>Accept\<close>.  The
  result is the outcome and its reason, or the error, which the worker records as a failure.\<close>

definition line_outcome :: "commit_result result \<Rightarrow> (string \<times> string) result" where
  "line_outcome r =
     (case r of
        Inl e \<Rightarrow>
          if e \<in> {Document_ErrQuota, Document_ErrTrashed, Document_ErrSourceConflict, Document_ErrUnsupportedType, Document_ErrTooLarge,
                 Document_ErrMalware}
          then Inr (Ignored, ''LINE document was rejected'') else Inl e
      | Inr c \<Rightarrow> Inr (Processed, if cr_duplicate c then ''LINE document already exists'' else ''LINE document accepted''))"

definition LINEDocumentProcessor ::
  "(bytes \<Rightarrow> (string \<times> string \<times> string \<times> string) option) \<Rightarrow> (string \<Rightarrow> bytes result result)
    \<Rightarrow> (accept_input \<Rightarrow> bytes result \<Rightarrow> vault \<Rightarrow> store \<Rightarrow> commit_result result \<times> vault \<times> store)
    \<Rightarrow> id option \<Rightarrow> time \<Rightarrow> inbound_event \<Rightarrow> vault \<Rightarrow> store \<Rightarrow> (string \<times> string) result \<times> vault \<times> store" where
  "LINEDocumentProcessor decode download intake attempt now e v s =
     (case ParseDocumentMessage decode (case ev_payload e of None \<Rightarrow> [] | Some payload \<Rightarrow> payload) of
        None \<Rightarrow> (Inr (Processed, ''No document message''), v, s)
      | Some m \<Rightarrow>
     (case ResolveLINEDocument e s of
        Inl _ \<Rightarrow> (Inr (Ignored, ''LINE sender is not mapped to one organization''), v, s)
      | Inr sender \<Rightarrow>
     (case download (dm_id m) of
        Inl err \<Rightarrow>
          (if err = ErrContentUnavailable then Inr (Ignored, ''LINE message content is unavailable; sender must resend'') else Inl err, v, s)
      | Inr body \<Rightarrow>
     (case attempt of
        None \<Rightarrow> (Inl (OtherError ''random source failed''), v, s)
      | Some i \<Rightarrow> (case intake (line_input e m sender i now) body v s of (r, v, s) \<Rightarrow> (line_outcome r, v, s))))))"

section \<open>Redelivery\<close>

lemma line_input_simps [simp]:
  "ai_org (line_input e m sender i now) = fst sender" "ai_actor (line_input e m sender i now) = snd sender"
  "ai_attempt (line_input e m sender i now) = i" "ai_channel (line_input e m sender i now) = ''LINE''"
  "ai_now (line_input e m sender i now) = now" "ai_line_group (line_input e m sender i now) = (ev_source_type e = ''group'')"
  "ai_origin (line_input e m sender i now) = ''line:'' @ ev_provider e @ '':'' @ ev_channel e @ '':'' @ dm_id m"
  "ai_filename (line_input e m sender i now) = safeFilename (dm_filename m) (dm_type m) (dm_id m)"
  by (simp_all add: line_input_def file_input_def)

text \<open>The tables a sender is resolved from.\<close>

definition sender_tables :: "store \<Rightarrow> connection_row list \<times> membership_row list \<times> identity_row list" where
  "sender_tables s = (line_group_connections s, memberships s, auth_identities s)"

lemma resolve_cong: "sender_tables s' = sender_tables s \<Longrightarrow> ResolveLINEDocument e s' = ResolveLINEDocument e s"
  by (simp add: sender_tables_def ResolveLINEDocument_def group_senders_def direct_senders_def)

lemma accept_new_senders:
  assumes "accept_new ids now x sha start s = Inr (r, s')" shows "sender_tables s' = sender_tables s"
  using assms
  by (auto simp: accept_new_def insert_document_def enqueue_document_ocr_def Let_def sender_tables_def auditTenant_def
      insertDocumentSource_def accept_attempt_def dest!: insert_jobD insert_ocr_runD insert_sourceD insert_chargeD upsert_attemptD
      split: sum.splits if_splits)

lemma accepted_once:
  assumes "CommitPrepared zone accepts ids now x s = Inr (Inr c, s')" "\<not> cr_duplicate c"
  shows "cr_accepted c \<and> sender_tables s' = sender_tables s"
  using assms(1)
proof (cases rule: CommitPreparedE)
  case replay
  then show ?thesis using assms(2) by (simp add: replayed_def)
next
  case (existing sha doc status)
  then show ?thesis using accept_existingD [OF existing(3)] assms(2) by auto
next
  case (fresh sha)
  obtain g :: organization_row and start stop s1 where period: "currentDocumentPeriod zone (ai_org x) (o_timezone g) (ai_now x) s = Inr ((start, stop), s1)"
    and new: "accept_new ids now x sha start s1 = Inr (Inr c, s')"
    using fresh(7) by (auto simp: charge_new_def dest!: reject_quotaD split: option.splits sum.splits prod.splits if_splits)
  obtain rows where "s1 = s\<lparr>document_usage_periods := rows\<rparr>" using currentDocumentPeriodD [OF period] by blast
  then have "sender_tables s1 = sender_tables s" by (simp add: sender_tables_def)
  then show ?thesis using accept_new_senders [OF new] accept_newD [OF new] by simp
qed

text \<open>What the service commits for a file.\<close>

definition committed :: "(bytes \<Rightarrow> bytes) \<Rightarrow> accept_input \<Rightarrow> bytes \<Rightarrow> commit_input" where
  "committed hash x data =
     accept_input.extend x (commit_input.fields (quarantine_key hash (ai_org x) (ai_attempt x)) (hex_encode (hash data))
       (sniff (take 512 data)) (int (length data)))"

lemma committed_simps [simp]:
  "ai_org (committed hash x data) = ai_org x" "ai_actor (committed hash x data) = ai_actor x"
  "ai_channel (committed hash x data) = ai_channel x" "ai_origin (committed hash x data) = ai_origin x"
  "ai_line_group (committed hash x data) = ai_line_group x" "ai_now (committed hash x data) = ai_now x"
  "ci_sha256 (committed hash x data) = hex_encode (hash data)" "ci_size (committed hash x data) = int (length data)"
  by (simp_all add: committed_def accept_input.defs commit_input.defs)

lemma Accept_committed:
  "\<not> unnamed_input x \<Longrightarrow>
   Accept zone accepts ids clock dbnow (Inr (measured hash (quarantine_key hash (ai_org x) (ai_attempt x)) data)) deletes x s =
     (let key = quarantine_key hash (ai_org x) (ai_attempt x); run = CommitPrepared zone accepts ids dbnow (committed hash x data) s in
      case run of
        Inl e \<Rightarrow> (Inl e, Some key, s)
      | Inr (Inl e, s') \<Rightarrow> (Inl e, Some key, s')
      | Inr (Inr c, s') \<Rightarrow>
          if cr_accepted c then (Inr c, None, s') else (if deletes then Inr c else Inl (OtherError ''cleanup failed''), Some key, s'))"
  by (auto simp: Accept_def unnamed_input_def committed_def measured_def Let_def split: sum.splits prod.splits)

lemma AcceptFile_Inr:
  assumes "AcceptFile hash scan zone accepts ids clock dbnow x source v s = (Inr c, v', s')"
  obtains data where "\<not> unnamed_input x" "source = Inr data" "acceptable scan data"
    "CommitPrepared zone accepts ids dbnow (committed hash x data) s = Inr (Inr c, s')"
    "cr_accepted c \<Longrightarrow> v' = put_file (quarantine_key hash (ai_org x) (ai_attempt x)) data v"
proof -
  have named: "\<not> unnamed_input x" using assms by (auto simp: AcceptFile_def)
  obtain prep v1 where prep: "Prepare hash scan (ai_org x) (ai_attempt x) source v = (prep, v1)" by fastforce
  note run = assms [unfolded AcceptFile_def prep prod.case]
  show thesis
  proof (cases prep)
    case (Inl e)
    then show ?thesis using run named by (auto simp: Accept_def unnamed_input_def split: if_splits)
  next
    case (Inr p)
    show ?thesis using prep [unfolded Inr]
    proof (rule PrepareD)
      fix data assume d: "source = Inr data" "acceptable scan data"
        and p: "p = measured hash (quarantine_key hash (ai_org x) (ai_attempt x)) data"
        and v1: "v1 = put_file (quarantine_key hash (ai_org x) (ai_attempt x)) data v"
      have "CommitPrepared zone accepts ids dbnow (committed hash x data) s = Inr (Inr c, s')"
        "cr_accepted c \<Longrightarrow> v' = v1"
        using run named unfolding Inr p by (auto simp: Accept_committed Let_def split: sum.splits prod.splits if_splits)
      then show thesis using that named d v1 by blast
    qed
  qed
qed

lemma AcceptFile_duplicate:
  assumes "\<not> unnamed_input x" "acceptable scan data" "vt_put v = (\<lambda>_. True)" "vt_open v = (\<lambda>_. True)" "vt_delete v = (\<lambda>_. True)"
    "vt_objects v (quarantine_key hash (ai_org x) (ai_attempt x)) = None"
    "CommitPrepared zone accepts ids dbnow (committed hash x data) s = Inr (Inr c, s)" "\<not> cr_accepted c"
  shows "\<exists>v'. AcceptFile hash scan zone accepts ids clock dbnow x (Inr data) v s = (Inr c, v', s) \<and> vt_objects v' = vt_objects v"
proof -
  let ?key = "quarantine_key hash (ai_org x) (ai_attempt x)"
  have "Prepare hash scan (ai_org x) (ai_attempt x) (Inr data) v = (Inr (measured hash ?key data), put_file ?key data v)"
    using assms(1-5) by (intro Prepare_acceptable) (auto simp: unnamed_input_def)
  then have "AcceptFile hash scan zone accepts ids clock dbnow x (Inr data) v s = (Inr c, delete_file ?key (put_file ?key data v), s)"
    using assms(1,5,7,8) by (simp add: AcceptFile_def Accept_committed Let_def)
  then show ?thesis using delete_new(2) [of v ?key] assms(5,6) by simp
qed

lemma line_acceptedE:
  assumes "LINEDocumentProcessor decode download (AcceptFile hash scan zone accepts ids clock dbnow) (Some i) t e v s
      = (Inr (Processed, ''LINE document accepted''), v', s')"
  obtains m sender data c where
    "ParseDocumentMessage decode (case ev_payload e of None \<Rightarrow> [] | Some payload \<Rightarrow> payload) = Some m"
    "ResolveLINEDocument e s = Inr sender" "download (dm_id m) = Inr (Inr data)" "acceptable scan data" "\<not> cr_duplicate c"
    "\<not> unnamed_input (line_input e m sender i t)"
    "CommitPrepared zone accepts ids dbnow (committed hash (line_input e m sender i t) data) s = Inr (Inr c, s')"
    "v' = put_file (quarantine_key hash (fst sender) i) data v"
proof -
  let ?payload = "case ev_payload e of None \<Rightarrow> [] | Some payload \<Rightarrow> payload"
  obtain m sender body c where p: "ParseDocumentMessage decode ?payload = Some m" "ResolveLINEDocument e s = Inr sender"
      "download (dm_id m) = Inr body" "\<not> cr_duplicate c"
    and taken: "AcceptFile hash scan zone accepts ids clock dbnow (line_input e m sender i t) body v s = (Inr c, v', s')"
    using assms unfolding LINEDocumentProcessor_def
    by (auto simp: line_outcome_def split: option.splits sum.splits prod.splits if_splits)
  show thesis using taken
  proof (rule AcceptFile_Inr)
    fix data assume d: "\<not> unnamed_input (line_input e m sender i t)" "body = Inr data" "acceptable scan data"
      "CommitPrepared zone accepts ids dbnow (committed hash (line_input e m sender i t) data) s = Inr (Inr c, s')"
      "cr_accepted c \<Longrightarrow> v' = put_file (quarantine_key hash (ai_org (line_input e m sender i t)) (ai_attempt (line_input e m sender i t))) data v"
    then show thesis using that p accepted_once [OF d(4) p(4)] by simp
  qed
qed

text \<open>\<^bold>\<open>C19.\<close> LINE may deliver a message again, and a worker may die between taking its document and marking the event.  Once the
  document of an event is accepted, processing the event again, under any attempt and at any time, is answered as processed: it finds
  the document, adds nothing to the database and leaves no object behind.\<close>

theorem line_document_once:
  assumes "docs_ok s"
    "LINEDocumentProcessor decode download (AcceptFile hash scan zone accepts ids clock dbnow) (Some i) t e v s
      = (Inr (Processed, ''LINE document accepted''), v', s')"
    "vt_put v' = (\<lambda>_. True)" "vt_open v' = (\<lambda>_. True)" "vt_delete v' = (\<lambda>_. True)"
    "i' \<noteq> []" "t' \<noteq> zero_time" "\<forall>org. vt_objects v' (quarantine_key hash org i') = None"
  shows "\<exists>v''. LINEDocumentProcessor decode download (AcceptFile hash scan zone accepts' ids' clock' dbnow') (Some i') t'
        (e\<lparr>ev_attempts := n\<rparr>) v' s'
      = (Inr (Processed, ''LINE document already exists''), v'', s') \<and> vt_objects v'' = vt_objects v'"
proof -
  let ?e = "e\<lparr>ev_attempts := n\<rparr>"
  show ?thesis using assms(2)
  proof (rule line_acceptedE)
    fix m sender data c
    let ?x = "line_input e m sender i t" and ?y = "line_input e m sender i' t'"
    assume parsed: "ParseDocumentMessage decode (case ev_payload e of None \<Rightarrow> [] | Some payload \<Rightarrow> payload) = Some m"
      and sender: "ResolveLINEDocument e s = Inr sender" and body: "download (dm_id m) = Inr (Inr data)"
      and data: "acceptable scan data" and new: "\<not> cr_duplicate c" and named: "\<not> unnamed_input ?x"
      and commit: "CommitPrepared zone accepts ids dbnow (committed hash ?x data) s = Inr (Inr c, s')"
    note once = accepted_once [OF commit new]
    have "same_delivery (committed hash ?x data) (committed hash ?y data)" by (simp add: same_delivery_def)
    moreover have "\<not> invalid_prepared (committed hash ?y data)"
      using data assms(7) by (cases data) (auto simp: invalid_prepared_def acceptable_def)
    ultimately obtain c' where again: "CommitPrepared zone accepts' ids' dbnow' (committed hash ?y data) s' = Inr (Inr c', s')"
      "cr_duplicate c'" "\<not> cr_accepted c'"
      using intake_repeats [OF assms(1) commit] once by blast
    have "\<not> unnamed_input ?y" using named assms(6) by (simp add: unnamed_input_def)
    then obtain v'' where "AcceptFile hash scan zone accepts' ids' clock' dbnow' ?y (Inr data) v' s' = (Inr c', v'', s')"
      "vt_objects v'' = vt_objects v'"
      using AcceptFile_duplicate [OF _ data assms(3-5) _ again(1,3)] assms(8) by (metis line_input_simps(1,3))
    moreover have "ResolveLINEDocument e s' = Inr sender" using resolve_cong once sender by metis
    moreover have "ResolveLINEDocument ?e s' = ResolveLINEDocument e s'"
      by (simp add: ResolveLINEDocument_def group_senders_def direct_senders_def cong: if_cong)
    moreover have "line_input ?e m sender i' t' = ?y" by (simp add: line_input_def)
    ultimately show ?thesis
      using parsed body again(2) by (simp add: LINEDocumentProcessor_def line_outcome_def)
  qed
qed

text \<open>A picture sent twice by \<open>U\<close>, a member of one organization.\<close>

definition demo_line_docs :: store where
  "demo_line_docs = demo_docs\<lparr>auth_identities :=
     [\<lparr>ai_id = ''i1'', ai_user = ''u1'', ai_provider = ''line'', ai_issuer = ''line'', ai_subject = ''U'', ai_email = None,
       ai_email_verified = False, ai_display_name = None, ai_picture_url = None, ai_linked_at = 0, ai_disabled_at = None,
       ai_cooldown_until = None\<rparr>]\<rparr>"

definition demo_process :: "id \<Rightarrow> vault \<Rightarrow> store \<Rightarrow> (string \<times> string) result \<times> vault \<times> store" where
  "demo_process i =
     LINEDocumentProcessor (\<lambda>_. Some (''message'', ''file'', ''m1'', ''a.pdf'')) (\<lambda>_. Inr (Inr ''%PDF-''))
       (AcceptFile demo_digest None demo_zone True demo_ids 1 1) (Some i) 1 demo_event"

lemma demo_processed: "fst (demo_process ''t1'' demo_vault demo_line_docs) = Inr (Processed, ''LINE document accepted'')"
  by code_simp

theorem line_document_once_witness:
  "case demo_process ''t1'' demo_vault demo_line_docs of (_, v, s) \<Rightarrow>
     \<exists>v'. LINEDocumentProcessor (\<lambda>_. Some (''message'', ''file'', ''m1'', ''a.pdf'')) (\<lambda>_. Inr (Inr ''%PDF-''))
       (AcceptFile demo_digest None demo_zone True demo_ids 9 9) (Some ''t2'') 9 (demo_event\<lparr>ev_attempts := 2\<rparr>) v s
       = (Inr (Processed, ''LINE document already exists''), v', s) \<and> vt_objects v' = vt_objects v"
proof -
  obtain v' s' where run: "demo_process ''t1'' demo_vault demo_line_docs = (Inr (Processed, ''LINE document accepted''), v', s')"
    using demo_processed by (cases "demo_process ''t1'' demo_vault demo_line_docs") auto
  have docs: "docs_ok demo_line_docs" by (simp add: docs_ok_def demo_line_docs_def demo_docs_def)
  show ?thesis using run [unfolded demo_process_def]
  proof (rule line_acceptedE)
    fix m sender data
    assume "v' = put_file (quarantine_key demo_digest (fst sender) ''t1'') data demo_vault"
    moreover have "quarantine_key demo_digest org ''t2'' \<noteq> quarantine_key demo_digest org' ''t1''" for org org'
    proof
      assume "quarantine_key demo_digest org ''t2'' = quarantine_key demo_digest org' ''t1''"
      then have "hex_encode (demo_digest (org @ '':'' @ ''t2'')) = hex_encode (demo_digest (org' @ '':'' @ ''t1''))"
        by (simp add: quarantine_key_def)
      from arg_cong [OF this, of hex_decode] have "demo_digest (org @ '':'' @ ''t2'') = demo_digest (org' @ '':'' @ ''t1'')" by simp
      then show False by (simp add: demo_digest_def)
    qed
    ultimately have "vt_put v' = (\<lambda>_. True)" "vt_open v' = (\<lambda>_. True)" "vt_delete v' = (\<lambda>_. True)"
      "\<forall>org. vt_objects v' (quarantine_key demo_digest org ''t2'') = None"
      by (auto simp: demo_vault_def put_file_def)
    from line_document_once [OF docs run [unfolded demo_process_def] this(1-3) _ _ this(4), where t' = 9]
    show ?thesis by (simp add: run zero_time_def duration_defs)
  qed
qed

end
