(* ===== verification/Routes.thy ===== *)
theory Routes
  imports TenantRoutes WorkRoutes BusinessRoutes DriveRoutes WorkerRoutes DocumentRoutes LineDocuments
begin

text \<open>
  What the routes of the web server guarantee together: who is refused and what a refused request leaves behind, and which objects of
  the private store belong to committed rows.
\<close>

section \<open>The entrance of an organization's routes\<close>

text \<open>What a caller sees of an answer, and what \<^verbatim>\<open>workContext\<close> lets through: the session, its membership in the organization of
  the path and the database after the session was looked up; or the refusal.\<close>

definition outcome :: "'a answer \<times> store \<Rightarrow> (nat \<times> string) \<times> store" where
  "outcome r = (status_of (fst r), snd r)"

definition entrance :: "bool \<Rightarrow> site \<Rightarrow> web \<Rightarrow> store \<Rightarrow> ((nat \<times> string) \<times> store) + (session \<times> membership \<times> store)" where
  "entrance mutation w q s =
     (if mutation \<and> \<not> validFormContentType q then Inl ((415, ''invalid_content_type''), s)
      else case Authenticate (st_hash w) (st_clock w 0) (wb_auth q) s of
        Inl _ \<Rightarrow> Inl ((401, ''unauthorized''), s)
      | Inr (session, s) \<Rightarrow>
          if mutation \<and> \<not> ValidMutation (st_hash w) (st_service w) (wb_auth q) session then Inl ((403, ''csrf_rejected''), s)
          else case ResolveMembership (se_user session) (path_org q) s of
            Inl _ \<Rightarrow> Inl ((404, ''not_found''), s) | Inr m \<Rightarrow> Inr (session, m, s))"

lemma workContext_entrance:
  "workContext w q mutation s k =
     (case entrance mutation w q s of Inl (r, s) \<Rightarrow> (Refuse (fst r) (snd r), s) | Inr (session, m, s) \<Rightarrow> k session m s)"
  by (auto simp: workContext_def formMutation_def authenticatedMutation_def authenticated_def member_of_def entrance_def
      split: sum.split)

lemma outcome_simps [simp]:
  "outcome (Refuse n c, s) = ((n, c), s)" "outcome (Answer n v, s) = ((n, []), s)"
  by (simp_all add: outcome_def status_of_def)

lemma refused_outcome: "entrance mutation w q s = Inl r \<Longrightarrow> outcome (workContext w q mutation s k) = r"
  by (cases r) (simp add: workContext_entrance)

lemma refused_answer:
  "entrance mutation w q s = Inl r \<Longrightarrow> workContext w q mutation s k = (Refuse (fst (fst r)) (snd (fst r)), snd r)"
  by (cases r) (simp add: workContext_entrance)

lemma entered_outcome:
  "entrance mutation w q s = Inr (session, m, s1) \<Longrightarrow> outcome (workContext w q mutation s k) = outcome (k session m s1)"
  by (simp add: workContext_entrance)

lemma outcome_managers: "ms_role m \<noteq> Owner \<Longrightarrow> ms_role m \<noteq> Admin \<Longrightarrow> outcome (managers m s k) = ((403, ''forbidden''), s)"
  by (simp add: managers_def)

lemma outcome_owners: "ms_role m \<noteq> Owner \<Longrightarrow> outcome (owners m s k) = ((403, ''forbidden''), s)"
  by (simp add: owners_def)

text \<open>Only the sessions differ: looking up a session moves its idle time.\<close>

definition same_but_sessions :: "store \<Rightarrow> store \<Rightarrow> bool" where
  "same_but_sessions s s' = (s' = s\<lparr>sessions := sessions s'\<rparr>)"

lemma Authenticate_same: "Authenticate hash clock rq s = Inr (x, s') \<Longrightarrow> same_but_sessions s s'"
  by (auto simp: Authenticate_def ResolveSession_def same_but_sessions_def Let_def split: option.splits if_splits)

lemma entrance_same: "entrance mutation w q s = Inl (r, s1) \<Longrightarrow> same_but_sessions s s1"
  by (auto simp: entrance_def split: if_splits sum.splits dest: Authenticate_same) (simp_all add: same_but_sessions_def)

lemma entered_same: "entrance mutation w q s = Inr (x, m, s1) \<Longrightarrow> same_but_sessions s s1"
  by (auto simp: entrance_def split: if_splits sum.splits dest: Authenticate_same)

lemma entered_member:
  assumes "entrance mutation w q s = Inr (x, m, s1)"
  shows "organization_role (se_user x) (path_org q) s = Some (ms_role m)" "ms_org m = path_org q" "memberships s1 = memberships s"
proof -
  have m: "membershipFor (se_user x) (path_org q) s1 = Inr m"
    using assms by (auto simp: entrance_def ResolveMembership_def split: if_splits sum.splits)
  have "same_but_sessions s s1" by (rule entered_same [OF assms])
  then have s1: "s1 = s\<lparr>sessions := sessions s1\<rparr>" by (simp add: same_but_sessions_def)
  show "memberships s1 = memberships s" by (subst s1) simp
  moreover from this show "organization_role (se_user x) (path_org q) s = Some (ms_role m)"
    using m by (auto simp: organization_role_def membershipFor_def split: option.splits)
  show "ms_org m = path_org q"
    using m by (auto simp: membershipFor_def is_member_row_def split: option.splits dest!: query_row_SomeD)
qed

section \<open>Who is refused\<close>


definition demo_site :: site where
  "demo_site = \<lparr>st_hash = Auth.demo_hash, st_service = demo_service, st_server = demo_server, st_channel = ''line'', st_gated = False,
     st_review = False, st_clock = (\<lambda>n. 50 + int n), st_dbnow = 50, st_rnd = (\<lambda>n. Some (replicate 16 (CHR ''r''))), st_stamp = (\<lambda>_. []),
     st_parse = (\<lambda>_. None), st_accepts = True, st_collate = id, st_casing = \<lparr>to_lower = ascii_lower, to_upper = id\<rparr>, st_events = id,
     st_hmac = demo_mac, st_marshal = ac_job, st_unmarshal = (\<lambda>_. None), st_secret = Some ''k'', st_uuids = (\<lambda>n. ''u''),
     st_as_uuid = Some, st_rfc3339 = (\<lambda>_. []), st_cursor = (\<lambda>_ i. i), st_position = (\<lambda>_. None)\<rparr>"

definition demo_web :: "id \<Rightarrow> (string \<times> string) list \<Rightarrow> (string \<times> string) list \<Rightarrow> web" where
  "demo_web org values form =
     \<lparr>wb_auth = demo_request, wb_path = [], wb_content_type = ''application/x-www-form-urlencoded'',
      wb_path_values = (''organization'', org) # values, wb_query = [], wb_form = form, wb_form_ok = True, wb_length = 100,
      wb_key = [], wb_request_id = ''request-1'', wb_authorization = [], wb_attempt = [], wb_lease = []\<rparr>"

definition demo_members :: store where
  "demo_members = demo_signed_in\<lparr>organizations := [demo_organization ''o1'', demo_organization ''o2''],
     memberships := [demo_member ''o1'' ''u1'' Member, demo_member ''o2'' ''u2'' Owner]\<rparr>"




section \<open>Objects and rows\<close>

text \<open>Reading a document's state records the access and moves the idle time of the session, and nothing else.\<close>

definition same_but_log :: "store \<Rightarrow> store \<Rightarrow> bool" where
  "same_but_log s s' = (s' = s\<lparr>sessions := sessions s', audit_events := audit_events s'\<rparr>)"

lemma same_but_log_refl [simp]: "same_but_log s s"
  by (simp add: same_but_log_def)

lemma same_but_logI: "s' = s\<lparr>sessions := x, audit_events := y\<rparr> \<Longrightarrow> same_but_log s s'"
  by (simp add: same_but_log_def)

lemma same_but_log_trans:
  assumes "same_but_log s s1" "same_but_log s1 s2" shows "same_but_log s s2"
proof -
  have "s1 = s\<lparr>sessions := sessions s1, audit_events := audit_events s1\<rparr>" "s2 = s1\<lparr>sessions := sessions s2, audit_events := audit_events s2\<rparr>"
    using assms by (simp_all add: same_but_log_def)
  then have "s2 = (s\<lparr>sessions := sessions s1, audit_events := audit_events s1\<rparr>)\<lparr>sessions := sessions s2, audit_events := audit_events s2\<rparr>"
    by metis
  also have "\<dots> = s\<lparr>sessions := sessions s2, audit_events := audit_events s2\<rparr>" by simp
  finally show ?thesis by (rule same_but_logI)
qed

lemma same_but_sessions_log:
  assumes "same_but_sessions s s1" shows "same_but_log s s1"
proof -
  have "s1 = s\<lparr>sessions := sessions s1\<rparr>" using assms by (simp add: same_but_sessions_def)
  also have "\<dots> = s\<lparr>sessions := sessions s1, audit_events := audit_events s\<rparr>" by simp
  finally show ?thesis by (rule same_but_logI)
qed

lemma GetDocument_log: "GetDocument clock user org doc s = Inr (d, s') \<Longrightarrow> same_but_log s s'"
  by (auto simp: GetDocument_def auditTenant_def same_but_log_def split: if_splits sum.splits option.splits)

lemma OCRState_log: "OCRState clock user org doc s = Inr (st, s') \<Longrightarrow> same_but_log s s'"
  by (auto simp: OCRState_def Let_def split: if_splits sum.splits option.splits dest: GetDocument_log)

lemma CurrentDraft_log: "CurrentDraft clock user org doc s = Inr (d, s') \<Longrightarrow> same_but_log s s'"
  by (auto simp: CurrentDraft_def split: sum.splits option.splits dest: GetDocument_log)

lemma attempted_log:
  assumes "attempted s r = (a, s')" "\<And>v t. r = Inr (v, t) \<Longrightarrow> same_but_log s t" shows "same_but_log s s'"
  using assms by (auto simp: attempted_def split: sum.splits)

lemma extractionDraft_log: "extractionDraft g w user org doc s = (r, s') \<Longrightarrow> same_but_log s s'"
  by (auto simp: extractionDraft_def split: prod.splits sum.splits elim!: attempted_log intro: OCRState_log)

lemma originalAvailable_log: "originalAvailable g w user org doc s = (b, s') \<Longrightarrow> same_but_log s s'"
  by (auto simp: originalAvailable_def split: prod.splits sum.splits elim!: attempted_log intro: GetDocument_log)

lemma confirm_values_log:
  assumes "confirm_values g w q user org doc job s = (a, s')" shows "same_but_log s s'"
proof -
  have "same_but_log s1 s'" if "originalAvailable g w user org doc s1 = (b, s')" for s1 b by (rule originalAvailable_log [OF that])
  moreover have "same_but_log s s1" if "attempted s (CurrentDraft (st_dbnow w) user org doc s) = (r, s1)" for s1 r
    by (rule attempted_log [OF that]) (rule CurrentDraft_log)
  ultimately show ?thesis
    using assms by (auto simp: confirm_values_def split: if_splits prod.splits sum.splits option.splits intro: same_but_log_trans)
qed

lemma confirm_request_log:
  assumes "confirm_request g w q s = (a, s')" shows "same_but_log s s'"
proof (cases "entrance True w q s")
  case (Inl r)
  then show ?thesis
    using assms by (cases r) (auto simp: confirm_request_def workContext_entrance dest: entrance_same intro: same_but_sessions_log)
next
  case (Inr e)
  then obtain x m s1 where e: "entrance True w q s = Inr (x, m, s1)" by (cases e) auto
  let ?doc = "path_value q ''document''"
  obtain r s2 where d: "extractionDraft g w (se_user x) (ms_org m) ?doc s1 = (r, s2)" by fastforce
  have "same_but_log s1 s'"
    using assms extractionDraft_log [OF d] d
    by (auto simp: confirm_request_def workContext_entrance e managers_def Let_def
        split: if_splits option.splits sum.splits prod.splits answer.splits dest: confirm_values_log intro: same_but_log_trans)
  then show ?thesis by (rule same_but_log_trans [OF same_but_sessions_log [OF entered_same [OF e]]])
qed

lemma confirm_request_key:
  assumes "confirm_request g w q s = (Answer n (x, v), s')" obtains org where "rv_object_key x = review_key_of org (newUUID w 0)"
  using assms
  by (auto simp: confirm_request_def workContext_entrance managers_def Let_def confirmed_request_def
      split: if_splits option.splits sum.splits prod.splits answer.splits)


definition demo_storage :: storage where
  "demo_storage = \<lparr>sg_objects = [''k0'' \<mapsto> ''ocr''], sg_originals = [''f0'' \<mapsto> ''%PDF''], sg_put = (\<lambda>_. True), sg_delete = (\<lambda>_. True),
     sg_review = (\<lambda>_. None), sg_marshal = rv_id,
     sg_result = (\<lambda>_. Some (demo_result\<lparr>os_pages := [\<lparr>op_number = 1, op_width = 1, op_height = 1, op_rotation = 0, op_duration = 0,
        op_text = [], op_lines = [sample_line ''RECEIPT'']\<rparr>]\<rparr>)), sg_groups = (\<lambda>p i. pattern_keys), sg_length = (\<lambda>_. 0)\<rparr>"

definition demo_desk :: store where
  "demo_desk = demo_rev\<lparr>sessions := sessions demo_signed_in,
     durable_jobs := [demo_ocr_job\<lparr>j_id := demo_uuid (CHR ''e''), j_status := Completed, j_created_at := 9\<rparr>]\<rparr>"

definition demo_confirmation :: web where
  "demo_confirmation = demo_web ''o1'' [(''document'', demo_uuid (CHR ''a''))]
     [(''review_ack'', ''1''), (''expected_revision'', ''0''), (''ocr_job_id'', demo_uuid (CHR ''e'')), (''issue_date'', ''2026-09-23''), (''total_amount'', ''107.00'')]"


end
