(* ===== verification/Spec2Isabelle.thy ===== *)
theory Spec2Isabelle
  imports Routes
begin

text \<open>
  \<^bold>\<open>A verification development for the Go service under src/api.\<close>

  \<^bold>\<open>The program.\<close>  The service keeps an accounting office's shared work: organizations and
  their members, tasks, documents sent through the web or through LINE chats, the OCR runs and the
  field reviews of these documents, the accounting suggestions made from them, vendors, Drive
  connections, and exports.  The packages of src/api/internal split it up: package tenant, auth, plan,
  work, document, ocr, extraction, accounting, business, drive, job, inbound and line hold the rules, package
  postgres holds every transaction on the database, package httpapi the routes, and package worker and the commands under
  src/api/cmd run the background loops.  Packages speak to each other through the database: a route checks the session
  (auth), the membership (tenant) and the plan (plan, work), then runs transactions of package postgres and, for reviews,
  results and artifacts, writes objects to a private store.  Much of the behaviour lives in the schema
  (src/api/migrations): CHECK and UNIQUE constraints, foreign keys, triggers and stored functions.  They are modelled with
  the transactions.

  \<^bold>\<open>The theories.\<close>
  \<^item> Prelude: errors, results, transactions over a state, the SQL idioms that the code uses
    (query of a row, an UPDATE with a row count, an INSERT under a unique key, nulls), and lemmas
    on them.
  \<^item> GoText: the parts of Go's string packages the code calls (strings.TrimSpace, Fields,
    ToLower on ASCII, HasPrefix, strconv on decimal numbers).
  \<^item> Schema: the record types of the tables and the state record of all of them, the simple
    constraints, and the frame lemmas that say which tables an update leaves alone.
  \<^item> Base64, Json, Calendar, Csv: base64.RawURLEncoding, the shape of a JSON codec, calendar
    dates, and encoding/csv.
  \<^item> Lease, Paging, Revision: the interfaces of a queue whose entries are handed out under a lease, of a list read page by
    page behind a cursor, and of rows that are revised under an expected revision.
  \<^item> Tenant: internal/tenant and internal/postgres/tenant.go, business_profile.go, with the stored
    functions of the migrations: organizations, memberships, roles, invitations, group links.
  \<^item> Plans: internal/plan/catalog.go, the effective plan and the gates of internal/work.
  \<^item> Auth: internal/auth and internal/postgres/auth.go: sign-in attempts, sessions, identities,
    and the callback handler, with the remote providers as arguments.
  \<^item> Tokens: internal/job/auth.go and artifact_token.go.
  \<^item> Jobs: internal/job/model.go and internal/postgres/jobs.go: the durable queue of exports and
    OCR jobs.  Exports: internal/postgres/review_exports.go and the pages of jobs.go: the snapshot of a document
    export and what the worker reads of it.
  \<^item> Inbound: internal/inbound, internal/line, internal/postgres/store.go and the event worker.
  \<^item> Work, Deliveries, WorkReads: internal/work, internal/postgres/work.go, work_worker.go and work_reads.go, internal/worker/work.go:
    tasks and their events, reminders and LINE deliveries, lists, inbox and task exports.
  \<^item> Ocr, OcrRuns: internal/ocr/model.go and internal/postgres/ocr.go: the result of an OCR worker, its validation and
    the runs of a document.
  \<^item> Extractor, Reviews: internal/extraction with internal/postgres/extraction.go and review_*.go: the field patterns, their merge
    into a draft, the rules of a review, drafts, confirmations, returns and assignments.
  \<^item> Accounting: internal/accounting and internal/postgres/accounting.go: categories, rules, suggestions and approvals.
  \<^item> Documents: internal/document/service.go, internal/postgres/documents.go and
    document_reads.go: intake, quota, status changes and pages.  Tables: internal/document/export.go: the files of an export.
  \<^item> Objects, Intake: internal/document/encrypted_store.go and intake.go, with Service.Accept: the chunks of an encrypted object, the
    quarantine of a file and the object an accepted document keeps.  LineDocuments: internal/worker/document.go and
    internal/postgres/line_documents.go: documents sent through LINE.
  \<^item> Drive: internal/drive/drive.go and internal/postgres/drive.go: connections to Google Drive.
  \<^item> Spreadsheet, Business: internal/business and internal/postgres/business.go: vendors, their files and imports.
  \<^item> Http, TenantRoutes, WorkRoutes, BusinessRoutes, ReviewRoutes, AccountingRoutes, DriveRoutes, WorkerRoutes, DocumentRoutes: the
    routes of internal/httpapi, file by file, and Routes: what they guarantee together.

  \<^bold>\<open>How state and operations correspond.\<close>  The state of the database is one record with a list
  of rows for each table, in insertion order.  A transaction of package postgres is a function from
  this state (and the clock, the random identifiers and the arguments of the Go method) to an error
  or a result with a new state; an error leaves the state as it was, as a rollback does.  The few
  methods that commit and then return an error give that error as part of the result.  A route is a function of the server's
  configuration, the request and the database to an answer (status and code of an error, or status and value) and the
  database after it; routes that use the private store take and return it as well.  Go's error
  variables are values of one error type, an error that the server raises carries the constraint's
  name.  Runs of the program are lists of operations folded over the state: concurrent
  transactions are modelled as serial ones, which the code enforces with FOR UPDATE locks and
  unique keys.

  \<^bold>\<open>What the groups of lemmas show.\<close>  In each theory the lemmas over single operations
  (their result on every branch, the tables they leave alone) come first, then the invariant and its
  preservation by every operation, then the properties, each under its claim id.  Interfaces are
  locales, interpreted on the model: \<^verbatim>\<open>lease_queue\<close> on the job queue and the events, \<^verbatim>\<open>paged_list\<close> on the
  lists and the export pages, \<^verbatim>\<open>revision_log\<close>, \<^verbatim>\<open>revision_table\<close> and \<^verbatim>\<open>version_stamp\<close> on reviews, drafts
  and accounting rules.  The laws of the codecs are named hypotheses of the round trips.

  \<^bold>\<open>Arguments of the model.\<close>  HMAC-SHA256, SHA-256, the JSON and time codecs, the identity providers and Google, the
  AEAD of stored credentials and objects, the time zone database and the server's text functions (the record \<^verbatim>\<open>server\<close>), Go's case tables
  (\<^verbatim>\<open>casing\<close>), the decoders of zip and XML, ILIKE, the LINE sender, the random source and the ids the database draws, the
  verdicts of the private store (\<^verbatim>\<open>storage\<close>, \<^verbatim>\<open>blobs\<close>, \<^verbatim>\<open>vault\<close>) and of the virus scanner, and the server's verdict on statements whose
  parameter types it has to infer are arguments of the definitions that use them.  Go's map
  iteration order and the order in which goroutines finish are arguments as well.  Loops of the code are recursions over
  finite lists, or over a number with a termination proof, so no fuel is needed; times are microseconds or seconds as the
  component's theory states.

  \<^bold>\<open>Not modelled.\<close>  Row level security and the roles of the database; failures of the driver or
  the network; interleavings inside one transaction; routing, headers, rendering and logging of HTTP; local temporary
  files; S3, ClamAV, Google and LINE clients; configuration and
  the main functions; the OCR service and the web client, which are written in other languages.
\<close>

end
